(* ===== verification/Nog_Prelude.thy ===== *)
theory Nog_Prelude
  imports Main "HOL-Library.Word" "HOL-Library.Multiset"
begin

text \<open>
  Shared vocabulary of the development: outcomes of Go functions that return an error or
  panic, byte slices, opaque errors of libraries, the string functions of Go's standard
  library that the sources call, and the generic lemmas on lists and maps that the
  component proofs use.
\<close>

named_theorems outcome_simps \<open>rewriting outcomes of Go calls\<close>

section \<open>Outcomes\<close>

text \<open>
  A Go function with result \<open>(T, error)\<close> either returns a value (\<open>err == nil\<close>), or
  returns a non-nil error, or panics.  A nil pointer dereference, an index out of range and
  an explicit \<open>panic(...)\<close> are all \<open>Panic\<close>.
\<close>

datatype (plugins only: code) ('e, 'a) outcome = Ok 'a | Err 'e | Panic string

fun obind :: "('e, 'a) outcome \<Rightarrow> ('a \<Rightarrow> ('e, 'b) outcome) \<Rightarrow> ('e, 'b) outcome" where
  "obind (Ok a) f = f a"
| "obind (Err e) f = Err e"
| "obind (Panic p) f = Panic p"

fun omap :: "('a \<Rightarrow> 'b) \<Rightarrow> ('e, 'a) outcome \<Rightarrow> ('e, 'b) outcome" where
  "omap f (Ok a) = Ok (f a)"
| "omap f (Err e) = Err e"
| "omap f (Panic p) = Panic p"

fun map_err :: "('e \<Rightarrow> 'f) \<Rightarrow> ('e, 'a) outcome \<Rightarrow> ('f, 'a) outcome" where
  "map_err f (Ok a) = Ok a"
| "map_err f (Err e) = Err (f e)"
| "map_err f (Panic p) = Panic p"

fun is_Panic :: "('e, 'a) outcome \<Rightarrow> bool" where
  "is_Panic (Panic p) = True"
| "is_Panic (Ok a) = False"
| "is_Panic (Err e) = False"

lemma obind_Ok_iff [outcome_simps]:
  "obind x f = Ok b \<longleftrightarrow> (\<exists>a. x = Ok a \<and> f a = Ok b)"
  by (cases x) auto

lemma obind_Err_iff [outcome_simps]:
  "obind x f = Err e \<longleftrightarrow> x = Err e \<or> (\<exists>a. x = Ok a \<and> f a = Err e)"
  by (cases x) auto

lemma is_Panic_obind [outcome_simps]:
  "is_Panic (obind x f) \<longleftrightarrow> is_Panic x \<or> (\<exists>a. x = Ok a \<and> is_Panic (f a))"
  by (cases x) auto

lemma omap_Ok_iff [outcome_simps]: "omap f x = Ok b \<longleftrightarrow> (\<exists>a. x = Ok a \<and> b = f a)"
  by (cases x) auto

lemma is_Panic_omap [outcome_simps]: "is_Panic (omap f x) \<longleftrightarrow> is_Panic x"
  by (cases x) auto

lemma map_err_Ok_iff [outcome_simps]: "map_err f x = Ok a \<longleftrightarrow> x = Ok a"
  by (cases x) auto

lemma is_Panic_map_err [outcome_simps]: "is_Panic (map_err f x) \<longleftrightarrow> is_Panic x"
  by (cases x) auto

lemma is_Panic_iff: "is_Panic x \<longleftrightarrow> (\<exists>p. x = Panic p)"
  by (cases x) auto

section \<open>Errors and byte slices\<close>

text \<open>
  Errors that come from a library are opaque; the sources only test them against nil, wrap
  them and pass them on.  A byte slice is \<open>None\<close> when nil; \<open>len(nil)\<close> is 0.
\<close>

datatype (plugins only: code) goerr = GoErr string

type_synonym byte = "8 word"
type_synonym gobytes = "byte list option"

definition slice_bytes :: "gobytes \<Rightarrow> byte list" where
  "slice_bytes s = (case s of None \<Rightarrow> [] | Some bs \<Rightarrow> bs)"

lemma slice_bytes_simps [simp]: "slice_bytes None = []" "slice_bytes (Some bs) = bs"
  by (simp_all add: slice_bytes_def)

section \<open>Strings\<close>

text \<open>
  Go strings are byte strings, as HOL's \<^typ>\<open>string\<close> is.  The functions are those of
  package \<open>strings\<close>, with the arguments the sources pass.
\<close>

definition TrimRight :: "string \<Rightarrow> char \<Rightarrow> string" where
  "TrimRight s c = rev (dropWhile (\<lambda>x. x = c) (rev s))"

definition HasPrefix :: "string \<Rightarrow> string \<Rightarrow> bool" where
  "HasPrefix s p \<longleftrightarrow> take (length p) s = p"

text \<open>\<open>strings.SplitN(s, "/", 2)\<close>: the parts before and after the first separator.\<close>

definition SplitN2 :: "string \<Rightarrow> char \<Rightarrow> string list" where
  "SplitN2 s c =
     (case dropWhile (\<lambda>x. x \<noteq> c) s of
        [] \<Rightarrow> [s]
      | _ # rest \<Rightarrow> [takeWhile (\<lambda>x. x \<noteq> c) s, rest])"

lemma HasPrefix_append: "HasPrefix s p \<longleftrightarrow> (\<exists>r. s = p @ r)"
  by (metis HasPrefix_def append_eq_conv_conj)

lemma TrimRight_no_trailing: "TrimRight s c \<noteq> [] \<Longrightarrow> last (TrimRight s c) \<noteq> c"
  using hd_dropWhile [of "\<lambda>x. x = c" "rev s"] by (auto simp: TrimRight_def last_rev)

lemma TrimRight_idem [simp]: "TrimRight (TrimRight s c) c = TrimRight s c"
  by (simp add: TrimRight_def dropWhile_idem)

text \<open>Character classes of the sources' regular expressions.\<close>

definition is_lower :: "char \<Rightarrow> bool" where
  "is_lower c \<longleftrightarrow> 97 \<le> (of_char c :: nat) \<and> (of_char c :: nat) \<le> 122"

definition is_upper :: "char \<Rightarrow> bool" where
  "is_upper c \<longleftrightarrow> 65 \<le> (of_char c :: nat) \<and> (of_char c :: nat) \<le> 90"

definition is_digit :: "char \<Rightarrow> bool" where
  "is_digit c \<longleftrightarrow> 48 \<le> (of_char c :: nat) \<and> (of_char c :: nat) \<le> 57"

section \<open>Lists and maps\<close>

lemma remove1_distinct_set [simp]: "distinct xs \<Longrightarrow> set (remove1 x xs) = set xs - {x}"
  by simp

lemma hd_remove1_other: "xs \<noteq> [] \<Longrightarrow> x \<noteq> hd xs \<Longrightarrow> hd (remove1 x xs) = hd xs"
  by (cases xs) auto

lemma remove1_ne_Nil: "xs \<noteq> [] \<Longrightarrow> x \<noteq> hd xs \<Longrightarrow> remove1 x xs \<noteq> []"
  by (cases xs) auto

lemma hd_append_ne [simp]: "xs \<noteq> [] \<Longrightarrow> hd (xs @ ys) = hd xs"
  by simp

lemma map_leD: "m \<subseteq>\<^sub>m m' \<Longrightarrow> m k = Some d \<Longrightarrow> m' k = Some d"
  by (auto simp: map_le_def dom_def)

lemma map_le_upd_new: "m k = None \<Longrightarrow> m \<subseteq>\<^sub>m m(k \<mapsto> d)"
  by (auto simp: map_le_def)

section \<open>Indexes\<close>

text \<open>Two maps that index the same values by two of their fields.\<close>

definition index_ok ::
  "('v \<Rightarrow> 'n) \<Rightarrow> ('v \<Rightarrow> 'k) \<Rightarrow> ('n \<rightharpoonup> 'v) \<Rightarrow> ('k \<rightharpoonup> 'v) \<Rightarrow> bool" where
  "index_ok nm num byName byNum \<longleftrightarrow>
     (\<forall>n v. byName n = Some v \<longrightarrow> nm v = n \<and> byNum (num v) = Some v) \<and>
     (\<forall>k v. byNum k = Some v \<longrightarrow> num v = k \<and> byName (nm v) = Some v)"

lemma index_ok_empty [simp]: "index_ok nm num Map.empty Map.empty"
  by (simp add: index_ok_def)

lemma index_ok_name: "index_ok nm num bn bk \<Longrightarrow> bn n = Some v \<Longrightarrow> nm v = n \<and> bk (num v) = Some v"
  and index_ok_num: "index_ok nm num bn bk \<Longrightarrow> bk k = Some v \<Longrightarrow> num v = k \<and> bn (nm v) = Some v"
  by (simp_all add: index_ok_def)

lemma index_okI:
  assumes "\<And>n v. bn n = Some v \<Longrightarrow> nm v = n \<and> bk (num v) = Some v"
    and "\<And>k v. bk k = Some v \<Longrightarrow> num v = k \<and> bn (nm v) = Some v"
  shows "index_ok nm num bn bk"
  using assms by (simp add: index_ok_def)

lemma index_ok_put:
  assumes ok: "index_ok nm num bn bk"
    and new: "bk (num v) = None \<and> bn (nm v) = None \<or> (\<exists>w. bk (num v) = Some w \<and> nm w = nm v)"
  shows "index_ok nm num (bn(nm v \<mapsto> v)) (bk(num v \<mapsto> v))"
proof (rule index_okI)
  fix n w assume "(bn(nm v \<mapsto> v)) n = Some w"
  then show "nm w = n \<and> (bk(num v \<mapsto> v)) (num w) = Some w"
    using index_ok_name [OF ok, of n w] new by (auto split: if_splits)
next
  fix k w assume k: "(bk(num v \<mapsto> v)) k = Some w"
  show "num w = k \<and> (bn(nm v \<mapsto> v)) (nm w) = Some w"
  proof (cases "k = num v")
    case False
    then have w: "num w = k" "bn (nm w) = Some w" using k index_ok_num [OF ok, of k w] by auto
    have "nm w \<noteq> nm v"
      using new
    proof
      assume "\<exists>x. bk (num v) = Some x \<and> nm x = nm v"
      then obtain x where x: "bk (num v) = Some x" "nm x = nm v" by blast
      then have "num x = num v" "bn (nm v) = Some x" using index_ok_num [OF ok x(1)] by auto
      then show ?thesis using w False by auto
    qed (use w in auto)
    then show ?thesis using w by simp
  qed (use k in simp)
qed

lemma index_ok_del:
  assumes ok: "index_ok nm num bn bk" and v: "bk (num v) = Some v"
  shows "index_ok nm num (bn(nm v := None)) (bk(num v := None))"
proof (rule index_okI)
  fix n w assume "(bn(nm v := None)) n = Some w"
  then show "nm w = n \<and> (bk(num v := None)) (num w) = Some w"
    using index_ok_name [OF ok, of n w] v by (auto split: if_splits)
next
  fix k w assume "(bk(num v := None)) k = Some w"
  then show "num w = k \<and> (bn(nm v := None)) (nm w) = Some w"
    using index_ok_num [OF ok, of k w] index_ok_num [OF ok, of "num v" v] v
    by (auto split: if_splits)
qed

end
