(* ===== verification/Nog_Ids.thy ===== *)
theory Nog_Ids
  imports Nog_Prelude
begin

text \<open>
  Identifiers (\<open>backend/pkg/uuid\<close>, \<open>backend/pkg/ulid\<close>, \<open>backend/pkg/idid\<close>).  UUIDs and
  ULIDs are 16-byte arrays; they are modelled as 128-bit words in big-endian byte order, so
  that the byte order of the database keys is the order of the words.  An idid is a UUID
  followed by a ULID, a 256-bit word.
\<close>

section \<open>UUID and ULID\<close>

type_synonym uuid = "128 word"
type_synonym ulid = "128 word"

text \<open>The slice \<open>id[:]\<close> of a 16-byte array, and the array with given bytes.\<close>

definition idBytes :: "128 word \<Rightarrow> byte list" where
  "idBytes w = map (\<lambda>i. ucast (drop_bit (8 * i) w)) (rev [0..<16])"

definition idOfBytes :: "byte list \<Rightarrow> 128 word" where
  "idOfBytes bs = word_rcat bs"

lemma length_idBytes [simp]: "length (idBytes w) = 16"
  by (simp add: idBytes_def)

lemma idBytes_not_Nil [simp]: "idBytes i \<noteq> []"
  by (metis length_idBytes list.size(3) zero_neq_numeral)

lemma idOfBytes_idBytes [simp]: "idOfBytes (idBytes w) = w"
  unfolding idOfBytes_def
  by (rule bit_word_eqI)
    (auto simp: word_rcat_def bit_horner_sum_uint_exp_iff [where 'a = 8, simplified]
       idBytes_def rev_map bit_simps nth_append)

lemma idBytes_idOfBytes:
  assumes "length bs = 16"
  shows "idBytes (idOfBytes bs) = bs"
proof (rule nth_equalityI)
  show "length (idBytes (idOfBytes bs)) = length bs" using assms by simp
next
  fix i assume i: "i < length (idBytes (idOfBytes bs))"
  show "idBytes (idOfBytes bs) ! i = bs ! i"
    using assms i unfolding idOfBytes_def
    by (intro bit_word_eqI)
      (auto simp: word_rcat_def idBytes_def rev_nth bit_simps
         bit_horner_sum_uint_exp_iff [where 'a = 8, simplified])
qed

lemma idBytes_inj: "idBytes a = idBytes b \<longleftrightarrow> a = b"
  by (metis idOfBytes_idBytes)

abbreviation uuidNil :: uuid where "uuidNil \<equiv> 0"
abbreviation ulidNil :: ulid where "ulidNil \<equiv> 0"

definition ulidOne :: ulid where "ulidOne = 1"
definition ulidTwo :: ulid where "ulidTwo = 2"

text \<open>\<open>uuid.FromBytes()\<close>.\<close>

definition FromBytes :: "gobytes \<Rightarrow> goerr + uuid" where
  "FromBytes data =
     (if length (slice_bytes data) \<noteq> 16 then Inl (GoErr ''invalid data size'')
      else Inr (idOfBytes (slice_bytes data)))"

text \<open>
  \<open>ulid.ParseBytes()\<close>.  \<open>UnmarshalBinary\<close> of package \<open>oklog/ulid\<close> is the parameter \<open>ub\<close>;
  its documented behaviour is \<open>ulid_binary\<close>: it copies 16 bytes and fails for any other
  length.
\<close>

type_synonym ulid_unmarshal = "byte list \<Rightarrow> goerr + ulid"

definition ulid_binary :: "ulid_unmarshal \<Rightarrow> bool" where
  "ulid_binary ub \<longleftrightarrow>
     (\<forall>bs. (length bs = 16 \<longrightarrow> ub bs = Inr (idOfBytes bs)) \<and>
           (length bs \<noteq> 16 \<longrightarrow> (\<exists>e. ub bs = Inl e)))"

definition ParseBytes :: "ulid_unmarshal \<Rightarrow> gobytes \<Rightarrow> goerr + ulid" where
  "ParseBytes ub data = (case data of None \<Rightarrow> Inr ulidNil | Some bs \<Rightarrow> ub bs)"

lemma FromBytes_idBytes [simp]: "FromBytes (Some (idBytes u)) = Inr u"
  by (simp add: FromBytes_def)

lemma ParseBytes_idBytes [simp]: "ulid_binary ub \<Longrightarrow> ParseBytes ub (Some (idBytes l)) = Inr l"
  by (simp add: ParseBytes_def ulid_binary_def)

text \<open>
  \<open>ulid.Time()\<close>: the time is a number of nanoseconds since the Unix epoch.  \<open>msOf\<close> stands
  for the method \<open>ULID.Time()\<close> of the library, which returns milliseconds.
\<close>

definition ulidTime :: "(ulid \<Rightarrow> nat) \<Rightarrow> ulid \<Rightarrow> int" where
  "ulidTime msOf i =
     (let ms = msOf i; s = ms div 1000; ns = (ms mod 1000) * 1000 * 1000
      in int s * 1000000000 + int ns)"

lemma ulidTime_ms: "ulidTime msOf i = int (msOf i) * 1000000"
proof -
  have "int (msOf i) = int (msOf i div 1000) * 1000 + int (msOf i mod 1000)"
    by (metis div_mult_mod_eq of_nat_add of_nat_mult of_nat_numeral)
  then show ?thesis by (simp add: ulidTime_def Let_def)
qed

section \<open>Composite ids\<close>

type_synonym idid = "256 word"

definition Pack :: "uuid \<Rightarrow> ulid \<Rightarrow> idid" where
  "Pack u l = word_cat u l"

definition RangeMin :: "uuid \<Rightarrow> idid" where
  "RangeMin u = word_cat u (0 :: 128 word)"

definition RangeMax :: "uuid \<Rightarrow> idid" where
  "RangeMax u = word_cat u (- 1 :: 128 word)"

definition RangeMinMax :: "uuid \<Rightarrow> idid \<times> idid" where
  "RangeMinMax u = (RangeMin u, RangeMax u)"

lemma block_bounds_iff:
  assumes "0 \<le> (l :: int)" and "l < K"
  shows "u * K \<le> v * K + l \<and> v * K + l \<le> u * K + (K - 1) \<longleftrightarrow> v = u"
proof
  assume a: "u * K \<le> v * K + l \<and> v * K + l \<le> u * K + (K - 1)"
  have "u * K < (v + 1) * K" and "v * K < (u + 1) * K"
    using a assms by (simp_all add: algebra_simps)
  then show "v = u" using assms by (simp add: mult_less_cancel_right)
qed (use assms in simp)

lemma uint_word_cat_128:
  "uint (word_cat (u :: 128 word) (l :: 128 word) :: 256 word) = uint u * 2 ^ 128 + uint l"
proof -
  have l: "take_bit 128 (uint l) = uint l"
    by (rule take_bit_int_eq_self) (use uint_bounded [of l] in simp_all)
  have "uint l + uint u * 2 ^ 128 < 2 ^ 256"
    using uint_bounded [of u] uint_bounded [of l] by simp
  then have "take_bit 256 (uint l + uint u * 2 ^ 128) = uint l + uint u * 2 ^ 128"
    by (intro take_bit_int_eq_self) simp_all
  moreover have "uint (word_cat u l :: 256 word) = take_bit 256 (concat_bit 128 (uint l) (uint u))"
    unfolding word_cat_eq' by (simp only: uint_word_of_int_eq len_bit0 len_num1 mult_1_right mult_2 numeral_plus_numeral) simp
  ultimately show ?thesis
    by (simp only: concat_bit_eq l push_bit_eq_mult add.commute)
qed

lemma uint_Pack: "uint (Pack u l) = uint u * 2 ^ 128 + uint l"
  by (simp only: Pack_def uint_word_cat_128)

lemma Pack_inj: "Pack u l = Pack u' l' \<longleftrightarrow> u = u' \<and> l = l'"
proof
  have split: "word_split (Pack v m) = (v, m)" for v m
    by (rule word_split_cat_alt [OF Pack_def]) (simp add: word_size)
  assume "Pack u l = Pack u' l'"
  then have "word_split (Pack u l) = (word_split (Pack u' l') :: 128 word \<times> 128 word)"
    by (rule arg_cong)
  then show "u = u' \<and> l = l'" by (simp only: split prod.inject)
qed simp

text \<open>
  The key range \<open>RangeMinMax(u)\<close>, with which the journal selects the entries of a history,
  selects exactly the keys \<open>Pack(u, l)\<close> of that history.
\<close>

lemma RangeMinMax_Pack_iff:
  "fst (RangeMinMax u) \<le> Pack v l \<and> Pack v l \<le> snd (RangeMinMax u) \<longleftrightarrow> v = u"
proof -
  have bl: "0 \<le> uint l" "uint l < 2 ^ 128" using uint_bounded [of l] by simp_all
  have "(fst (RangeMinMax u) \<le> Pack v l \<and> Pack v l \<le> snd (RangeMinMax u)) \<longleftrightarrow>
      uint u * 2 ^ 128 \<le> uint v * 2 ^ 128 + uint l \<and>
      uint v * 2 ^ 128 + uint l \<le> uint u * 2 ^ 128 + (2 ^ 128 - 1)"
    unfolding word_le_def uint_Pack RangeMinMax_def RangeMin_def RangeMax_def
    by (simp add: uint_word_cat_128 unsigned_minus_1_eq_mask mask_eq_exp_minus_1)
  also have "\<dots> \<longleftrightarrow> uint v = uint u"
    by (rule block_bounds_iff [OF bl])
  finally show ?thesis by (simp only: word_uint_eq_iff)
qed

lemma Pack_surj: obtains u l where "k = Pack u l"
proof -
  obtain u l where "word_split k = (u :: 128 word, l :: 128 word)" by fastforce
  then have "word_cat u l = k" by (rule word_cat_split_alt [rotated]) (simp add: word_size)
  then show thesis using that [of u l] by (simp add: Pack_def)
qed

text \<open>The ULID library as documented; used by the interpretations and the witnesses.\<close>

definition ulidUnmarshal :: ulid_unmarshal where
  "ulidUnmarshal bs = (if length bs = 16 then Inr (idOfBytes bs) else Inl (GoErr ''ulid''))"

lemma ulidUnmarshal_ok [simp]: "ulid_binary ulidUnmarshal"
  by (simp add: ulid_binary_def ulidUnmarshal_def)

end
