(* ===== verification/Nog_Events.thy ===== *)
theory Nog_Events
  imports Nog_Ids
begin

text \<open>
  Events (\<open>backend/internal/events/events.go\<close>).  The Go interface \<open>Event\<close> is a record of
  operations over a type of events; the aggregate packages all implement it with a struct of
  an id, a parent id and a protobuf message, which is \<open>Event\<close> below.  The locale
  \<open>event_ops\<close> is the contract of the interface.
\<close>

section \<open>The Event interface\<close>

record 'ev EventOps =
  EvId :: "'ev \<Rightarrow> ulid"
  EvParent :: "'ev \<Rightarrow> ulid"
  WithId :: "ulid \<Rightarrow> 'ev \<Rightarrow> 'ev"
  WithParent :: "ulid \<Rightarrow> 'ev \<Rightarrow> 'ev"
  MarshalProto :: "'ev \<Rightarrow> goerr + byte list"
  UnmarshalProto :: "byte list \<Rightarrow> (goerr, 'ev) outcome"

abbreviation EventEpoch :: ulid where "EventEpoch \<equiv> 0"

text \<open>
  \<open>ulid.New()\<close> reads the clock and the system's random source.  A computation that calls it
  takes the results of the calls as an argument: \<open>g n\<close> is the result of the \<open>n\<close>th call.
\<close>

type_synonym ulid_source = "nat \<Rightarrow> goerr + ulid"

definition eventWithId ::
  "'ev EventOps \<Rightarrow> ulid_source \<Rightarrow> nat \<Rightarrow> 'ev \<Rightarrow> goerr + ('ev \<times> nat)" where
  "eventWithId ops g n ev =
     (if EvId ops ev \<noteq> ulidNil then Inr (ev, n)
      else case g n of
          Inl e \<Rightarrow> Inl e
        | Inr i \<Rightarrow> Inr (WithId ops i ev, Suc n))"

text \<open>The loop of \<open>eventsWithId()\<close>; \<open>prev\<close> is \<open>out[i-1]\<close> when \<open>i > 0\<close>.\<close>

fun eventsWithIdLoop ::
  "'ev EventOps \<Rightarrow> ulid_source \<Rightarrow> nat \<Rightarrow> 'ev option \<Rightarrow> 'ev list \<Rightarrow> goerr + 'ev list" where
  "eventsWithIdLoop ops g n prev [] = Inr []"
| "eventsWithIdLoop ops g n prev (ev # evs) =
     (let ev1 = (case prev of None \<Rightarrow> ev | Some p \<Rightarrow> WithParent ops (EvId ops p) ev)
      in case eventWithId ops g n ev1 of
           Inl e \<Rightarrow> Inl e
         | Inr (ev2, n') \<Rightarrow>
             (case eventsWithIdLoop ops g n' (Some ev2) evs of
                Inl e \<Rightarrow> Inl e
              | Inr out \<Rightarrow> Inr (ev2 # out)))"

definition eventsWithId :: "'ev EventOps \<Rightarrow> ulid_source \<Rightarrow> 'ev list \<Rightarrow> goerr + 'ev list" where
  "eventsWithId ops g evs = eventsWithIdLoop ops g 0 None evs"

text \<open>A list of events is a parent chain that starts after \<open>parent\<close>.\<close>

fun chained :: "'ev EventOps \<Rightarrow> ulid \<Rightarrow> 'ev list \<Rightarrow> bool" where
  "chained ops parent [] \<longleftrightarrow> True"
| "chained ops parent (ev # evs) \<longleftrightarrow> EvParent ops ev = parent \<and> chained ops (EvId ops ev) evs"

fun lastId :: "'ev EventOps \<Rightarrow> ulid \<Rightarrow> 'ev list \<Rightarrow> ulid" where
  "lastId ops parent [] = parent"
| "lastId ops parent (ev # evs) = lastId ops (EvId ops ev) evs"

lemma chained_append [simp]:
  "chained ops p (xs @ ys) \<longleftrightarrow> chained ops p xs \<and> chained ops (lastId ops p xs) ys"
  by (induction xs arbitrary: p) auto

lemma lastId_append [simp]: "lastId ops p (xs @ ys) = lastId ops (lastId ops p xs) ys"
  by (induction xs arbitrary: p) auto

lemma lastId_last: "xs \<noteq> [] \<Longrightarrow> lastId ops p xs = EvId ops (last xs)"
  by (induction xs arbitrary: p) auto

locale event_ops =
  fixes ops :: "'ev EventOps"
  assumes Id_WithId: "EvId ops (WithId ops i ev) = i"
    and Parent_WithId: "EvParent ops (WithId ops i ev) = EvParent ops ev"
    and Id_WithParent: "EvId ops (WithParent ops i ev) = EvId ops ev"
    and Parent_WithParent: "EvParent ops (WithParent ops i ev) = i"
begin

lemmas ev_simps [simp] = Id_WithId Parent_WithId Id_WithParent Parent_WithParent

lemma eventWithId_Inr:
  assumes "eventWithId ops g n ev = Inr (ev', n')"
  shows "EvParent ops ev' = EvParent ops ev"
    and "EvId ops ev \<noteq> ulidNil \<Longrightarrow> EvId ops ev' = EvId ops ev"
  using assms by (auto simp: eventWithId_def split: if_splits sum.splits)

lemma eventsWithIdLoop_chained:
  assumes "eventsWithIdLoop ops g n prev evs = Inr out"
    and "evs \<noteq> []"
  shows "chained ops (case prev of None \<Rightarrow> EvParent ops (hd evs) | Some p \<Rightarrow> EvId ops p) out"
  using assms
proof (induction evs arbitrary: n prev out)
  case (Cons ev evs)
  from Cons.prems obtain ev2 n' out' where
    e: "eventWithId ops g n
          (case prev of None \<Rightarrow> ev | Some p \<Rightarrow> WithParent ops (EvId ops p) ev) = Inr (ev2, n')"
    and l: "eventsWithIdLoop ops g n' (Some ev2) evs = Inr out'"
    and out: "out = ev2 # out'"
    by (auto simp: Let_def split: sum.splits)
  have "chained ops (EvId ops ev2) out'"
  proof (cases evs)
    case Nil then show ?thesis using l by simp
  next
    case (Cons a list) then show ?thesis using Cons.IH [OF l] by simp
  qed
  then show ?case using eventWithId_Inr(1) [OF e] by (auto simp: out split: option.splits)
qed simp

lemma eventsWithIdLoop_length:
  "eventsWithIdLoop ops g n prev evs = Inr out \<Longrightarrow> length out = length evs"
  by (induction evs arbitrary: n prev out) (auto simp: Let_def split: sum.splits prod.splits)

text \<open>
  A list that already is a chain of identified events, as \<open>newEvents()\<close> of the aggregates
  produces it, passes unchanged, provided that setting the parent it already has is the
  identity.
\<close>

lemma eventsWithIdLoop_idem:
  assumes "chained ops (case prev of None \<Rightarrow> EvParent ops (hd evs) | Some p \<Rightarrow> EvId ops p) evs"
    and "\<forall>ev \<in> set evs. EvId ops ev \<noteq> ulidNil \<and> WithParent ops (EvParent ops ev) ev = ev"
  shows "eventsWithIdLoop ops g n prev evs = Inr evs"
  using assms
proof (induction evs arbitrary: n prev)
  case (Cons ev evs)
  have wp: "WithParent ops (EvParent ops ev) ev = ev" using Cons.prems(2) by simp
  have "(case prev of None \<Rightarrow> ev | Some p \<Rightarrow> WithParent ops (EvId ops p) ev) = ev"
  proof (cases prev)
    case (Some p)
    then have "EvId ops p = EvParent ops ev" using Cons.prems(1) by simp
    then show ?thesis using Some wp by (simp only: option.case)
  qed simp
  moreover have "eventsWithIdLoop ops g n (Some ev) evs = Inr evs"
    using Cons.prems by (intro Cons.IH) auto
  ultimately show ?case
    using Cons.prems(2) by (simp add: eventWithId_def)
qed simp

end

text \<open>
  The contract of the interface with the encoding: well-formed events are encoded such that the
  parent can be read from the bytes, by \<open>par\<close>, and such that decoding gives the event back.
\<close>

locale event_codec = event_ops ops
  for ops :: "'ev EventOps" +
  fixes wf :: "'ev \<Rightarrow> bool" and par :: "byte list \<Rightarrow> ulid option"
  assumes wf_WithId: "wf ev \<Longrightarrow> wf (WithId ops i ev)"
    and wf_WithParent: "wf ev \<Longrightarrow> wf (WithParent ops i ev)"
    and WithParent_same: "wf ev \<Longrightarrow> WithParent ops (EvParent ops ev) ev = ev"
    and par_marshal: "wf ev \<Longrightarrow> MarshalProto ops ev = Inr bs \<Longrightarrow> par bs = Some (EvParent ops ev)"
    and unmarshal_marshal: "wf ev \<Longrightarrow> MarshalProto ops ev = Inr bs \<Longrightarrow> UnmarshalProto ops bs = Ok ev"
begin

lemma eventsWithId_same:
  assumes "chained ops p evs" and "\<forall>ev \<in> set evs. wf ev \<and> EvId ops ev \<noteq> ulidNil"
  shows "eventsWithId ops g evs = Inr evs"
  unfolding eventsWithId_def
proof (rule eventsWithIdLoop_idem)
  show "\<forall>ev \<in> set evs. EvId ops ev \<noteq> ulidNil \<and> WithParent ops (EvParent ops ev) ev = ev"
    using assms(2) WithParent_same by blast
qed (use assms(1) in \<open>cases evs; simp\<close>)

lemma eventsWithIdLoop_wf:
  assumes "eventsWithIdLoop ops g n prev evs = Inr out" and "\<forall>ev \<in> set evs. wf ev"
    and "\<forall>n i. g n = Inr i \<longrightarrow> i \<noteq> ulidNil"
  shows "\<forall>ev \<in> set out. wf ev \<and> EvId ops ev \<noteq> ulidNil"
  using assms(1,2)
proof (induction evs arbitrary: n prev out)
  case (Cons ev evs)
  let ?ev1 = "case prev of None \<Rightarrow> ev | Some p \<Rightarrow> WithParent ops (EvId ops p) ev"
  have wf1: "wf ?ev1" using Cons.prems(2) wf_WithParent by (cases prev) auto
  obtain ev2 n' out' where e: "eventWithId ops g n ?ev1 = Inr (ev2, n')"
    and l: "eventsWithIdLoop ops g n' (Some ev2) evs = Inr out'" and out: "out = ev2 # out'"
    using Cons.prems(1) by (auto simp: Let_def split: sum.splits)
  have "wf ev2 \<and> EvId ops ev2 \<noteq> ulidNil"
    using e wf1 wf_WithId assms(3) unfolding eventWithId_def by (auto split: if_splits sum.splits)
  then show ?case using Cons.IH [OF l] Cons.prems(2) out by simp
qed simp

end

section \<open>Events of the aggregates\<close>

record 'p Event =
  ev_id :: ulid
  ev_parent :: ulid
  ev_pb :: 'p

text \<open>
  The loop that the packages' \<open>newEvents()\<close> share: each message gets a new id and the id of
  its predecessor as the parent; \<open>setPb i p\<close> writes both into the message.
\<close>

fun newEventsLoop ::
  "(ulid \<Rightarrow> ulid \<Rightarrow> 'p \<Rightarrow> 'p) \<Rightarrow> ulid_source \<Rightarrow> nat \<Rightarrow> ulid \<Rightarrow> 'p list \<Rightarrow> goerr + 'p Event list" where
  "newEventsLoop setPb g n parent [] = Inr []"
| "newEventsLoop setPb g n parent (p # ps) =
     (case g n of
        Inl e \<Rightarrow> Inl e
      | Inr i \<Rightarrow>
          (case newEventsLoop setPb g (Suc n) i ps of
             Inl e \<Rightarrow> Inl e
           | Inr evs \<Rightarrow> Inr (\<lparr>ev_id = i, ev_parent = parent, ev_pb = setPb i parent p\<rparr> # evs)))"

lemma newEventsLoop_Nil_iff: "newEventsLoop setPb g n parent ps = Inr [] \<longleftrightarrow> ps = []"
  by (cases ps) (auto split: sum.splits)

lemma newEventsLoop_single:
  "newEventsLoop setPb g n parent [p] = Inr evs \<longleftrightarrow>
     (\<exists>i. g n = Inr i \<and> evs = [\<lparr>ev_id = i, ev_parent = parent, ev_pb = setPb i parent p\<rparr>])"
  by (auto split: sum.splits)

lemma newEventsLoop_chained:
  assumes "EvId ops = ev_id" and "EvParent ops = ev_parent"
    and "newEventsLoop setPb g n parent ps = Inr evs"
  shows "chained ops parent evs"
  using assms(3)
  by (induction ps arbitrary: n parent evs) (auto simp: assms(1,2) split: sum.splits)

lemma newEventsLoop_length:
  "newEventsLoop setPb g n parent ps = Inr evs \<Longrightarrow> length evs = length ps"
  by (induction ps arbitrary: n parent evs) (auto split: sum.splits)

lemma newEventsLoop_Inr: "(\<And>k. \<exists>i. g k = Inr i) \<Longrightarrow> \<exists>evs. newEventsLoop f g n v pbs = Inr evs"
proof (induction pbs arbitrary: n v)
  case (Cons p ps)
  obtain i where i: "g n = Inr i" using Cons.prems by blast
  obtain evs where "newEventsLoop f g (Suc n) i ps = Inr evs" using Cons.IH [OF Cons.prems] by blast
  then show ?case by (simp add: i)
qed simp

end
