(* ===== verification/Event_Store.thy ===== *)
theory Event_Store
  imports Nog_Events
begin

text \<open>
  The MongoDB collections behind an event journal (\<open>backend/internal/events/journal.go\<close>): the
  documents, the errors of package \<open>events\<close>, and the driver \<open>mgo\<close> as a record of operations,
  the parameter of every definition that talks to the database.  The locale \<open>mongo\<close> states the
  documented behaviour the journal relies on: an operation on a single document is atomic, a
  unique key is enforced on insert, a query with a selector is evaluated and applied to the
  same version of the document.  Between any two operations other processes may change the
  database, as the relation \<open>rely\<close> allows; any operation may fail.
\<close>

section \<open>Errors\<close>

datatype (plugins only: code) mgoerr = ErrNotFound | ErrDup | ErrOther goerr

definition IsDup :: "mgoerr \<Rightarrow> bool" where
  "IsDup e \<longleftrightarrow> e = ErrDup"

datatype (plugins only: code) Op =
    OpFindHead | OpInsertHead | OpUpdateHead | OpUpdateHeadSerial | OpFindEvent
  | OpFindPreviousEvent | OpInsertEvent | OpInsertJournal | OpFindJournalDuplicate
  | OpFindJournal | OpScanJournal | OpFindStart | OpEventIds | OpEncodeEventProto
  | OpDecodeJournalProto | OpDecodeEventProto | OpParseEventId | OpCheckEventId
  | OpParseEventParent | OpHeadEventLookup | OpTailEventLookup

datatype (plugins only: code) EventsError =
    UnknownHistoryError uuid
  | VersionConflictError ulid ulid \<comment> \<open>stored, expected\<close>
  | DBError Op mgoerr
  | InternalError Op goerr
  | DuplicateEventMismatchError ulid
  | DuplicateJournalEntrySerialMismatchError uuid ulid int int \<comment> \<open>stored, expected\<close>
  | DuplicateJournalEntryProtobufMismatchError uuid ulid
  | CorruptedDataError Op goerr
  | EventError Op goerr
  | JournalEntryParentMismatchError ulid ulid ulid \<comment> \<open>event, actual, expected\<close>
  | MissingHeadEventError ulid
  | MissingTailEventError ulid
  | EventIdMismatchError ulid ulid \<comment> \<open>Mongo id, protobuf id\<close>

fun IsVersionConflictError :: "EventsError \<Rightarrow> bool" where
  "IsVersionConflictError (VersionConflictError s e) = True"
| "IsVersionConflictError _ = False"

section \<open>Documents\<close>

datatype (plugins only: code) PhaseCode = PhaseUnspecified | PhaseActive | PhaseDeleting | PhaseDeleted

definition IsActive :: "PhaseCode \<Rightarrow> bool" where
  "IsActive p \<longleftrightarrow> p = PhaseUnspecified \<or> p = PhaseActive"

definition IsInactive :: "PhaseCode \<Rightarrow> bool" where
  "IsInactive p \<longleftrightarrow> \<not> IsActive p"

record EventDoc =
  ed_Id :: ulid
  ed_Protobuf :: "byte list"

record EpochTime =
  et_Epoch :: ulid
  et_Time :: int

text \<open>
  \<open>rf_Phase\<close> is \<open>None\<close> in a document without the field, which decodes to the zero value.
  Times are integers.  Serials are \<open>int64\<close> in the code, unbounded here: they count events.
\<close>

record RefsDoc =
  rf_Id :: uuid
  rf_Head :: ulid
  rf_Epoch :: ulid
  rf_EpochLog :: "EpochTime list"
  rf_Tail :: ulid
  rf_Serial :: int
  rf_Phase :: "PhaseCode option"
  rf_Dtime :: int

definition phaseOf :: "RefsDoc \<Rightarrow> PhaseCode" where
  "phaseOf r = (case rf_Phase r of None \<Rightarrow> PhaseUnspecified | Some p \<Rightarrow> p)"

text \<open>The selector \<open>$or: [{ph: PhaseActive}, {ph: {$exists: false}}]\<close>.\<close>

definition selActive :: "RefsDoc \<Rightarrow> bool" where
  "selActive r \<longleftrightarrow> rf_Phase r = Some PhaseActive \<or> rf_Phase r = None"

record JournalDoc =
  jd_Id :: idid
  jd_Serial :: int
  jd_Protobuf :: "byte list"

abbreviation HeadSerialUnspecified :: int where "HeadSerialUnspecified \<equiv> 0"

section \<open>The driver\<close>

text \<open>
  \<open>RefsUpdate i sel upd\<close> updates the document with id \<open>i\<close> if it satisfies \<open>sel\<close>; \<open>upd\<close> gets the
  server's time, for \<open>$currentDate\<close>.  \<open>JournalScan lo hi p\<close> is the iterator over the entries
  with a key from \<open>lo\<close> to \<open>hi\<close> and a serial that satisfies \<open>p\<close>, ordered by serial: the entries it
  yields and the error that its \<open>Close()\<close> returns.
\<close>

record 'db Mongo =
  EventsInsert :: "EventDoc \<Rightarrow> 'db \<Rightarrow> (mgoerr + unit) \<times> 'db"
  EventsFind :: "ulid \<Rightarrow> 'db \<Rightarrow> (mgoerr + EventDoc) \<times> 'db"
  RefsFind :: "uuid \<Rightarrow> 'db \<Rightarrow> (mgoerr + RefsDoc) \<times> 'db"
  RefsInsert :: "RefsDoc \<Rightarrow> 'db \<Rightarrow> (mgoerr + unit) \<times> 'db"
  RefsUpdate :: "uuid \<Rightarrow> (RefsDoc \<Rightarrow> bool) \<Rightarrow> (int \<Rightarrow> RefsDoc \<Rightarrow> RefsDoc) \<Rightarrow> 'db \<Rightarrow> (mgoerr + unit) \<times> 'db"
  JournalInsert :: "JournalDoc \<Rightarrow> 'db \<Rightarrow> (mgoerr + unit) \<times> 'db"
  JournalFind :: "idid \<Rightarrow> 'db \<Rightarrow> (mgoerr + JournalDoc) \<times> 'db"
  JournalScan :: "idid \<Rightarrow> idid \<Rightarrow> (int \<Rightarrow> bool) \<Rightarrow> 'db \<Rightarrow> (JournalDoc list \<times> mgoerr option) \<times> 'db"

text \<open>What the database holds.\<close>

record MongoView =
  mv_events :: "ulid \<rightharpoonup> EventDoc"
  mv_refs :: "uuid \<rightharpoonup> RefsDoc"
  mv_journal :: "idid \<rightharpoonup> JournalDoc"

fun insert_post :: "('k \<rightharpoonup> 'd) \<Rightarrow> 'k \<Rightarrow> 'd \<Rightarrow> mgoerr + unit \<Rightarrow> ('k \<rightharpoonup> 'd) \<Rightarrow> bool" where
  "insert_post m k d (Inr u) m' \<longleftrightarrow> m k = None \<and> m' = m(k \<mapsto> d)"
| "insert_post m k d (Inl ErrDup) m' \<longleftrightarrow> m k \<noteq> None \<and> m' = m"
| "insert_post m k d (Inl _) m' \<longleftrightarrow> m' = m \<or> m k = None \<and> m' = m(k \<mapsto> d)"

fun find_post :: "('k \<rightharpoonup> 'd) \<Rightarrow> 'k \<Rightarrow> mgoerr + 'd \<Rightarrow> bool" where
  "find_post m k (Inr d) \<longleftrightarrow> m k = Some d"
| "find_post m k (Inl ErrNotFound) \<longleftrightarrow> m k = None"
| "find_post m k (Inl _) \<longleftrightarrow> True"

definition updated :: "('k \<rightharpoonup> 'd) \<Rightarrow> 'k \<Rightarrow> ('d \<Rightarrow> bool) \<Rightarrow> (int \<Rightarrow> 'd \<Rightarrow> 'd) \<Rightarrow> ('k \<rightharpoonup> 'd) \<Rightarrow> bool" where
  "updated m k sel upd m' \<longleftrightarrow> (\<exists>d now. m k = Some d \<and> sel d \<and> m' = m(k \<mapsto> upd now d))"

fun update_post ::
  "('k \<rightharpoonup> 'd) \<Rightarrow> 'k \<Rightarrow> ('d \<Rightarrow> bool) \<Rightarrow> (int \<Rightarrow> 'd \<Rightarrow> 'd) \<Rightarrow> mgoerr + unit \<Rightarrow> ('k \<rightharpoonup> 'd) \<Rightarrow> bool" where
  "update_post m k sel upd (Inr u) m' \<longleftrightarrow> updated m k sel upd m'"
| "update_post m k sel upd (Inl ErrNotFound) m' \<longleftrightarrow> (\<forall>d. m k = Some d \<longrightarrow> \<not> sel d) \<and> m' = m"
| "update_post m k sel upd (Inl _) m' \<longleftrightarrow> m' = m \<or> updated m k sel upd m'"

definition scan_all :: "(idid \<rightharpoonup> JournalDoc) \<Rightarrow> idid \<Rightarrow> idid \<Rightarrow> (int \<Rightarrow> bool) \<Rightarrow> JournalDoc list \<Rightarrow> bool" where
  "scan_all m lo hi p ds \<longleftrightarrow>
     distinct ds \<and> sorted (map jd_Serial ds) \<and>
     set ds = {d. \<exists>k. m k = Some d \<and> lo \<le> k \<and> k \<le> hi \<and> p (jd_Serial d)}"

fun scan_post ::
  "(idid \<rightharpoonup> JournalDoc) \<Rightarrow> idid \<Rightarrow> idid \<Rightarrow> (int \<Rightarrow> bool) \<Rightarrow> JournalDoc list \<times> mgoerr option \<Rightarrow> bool" where
  "scan_post m lo hi p (ds, None) \<longleftrightarrow> scan_all m lo hi p ds"
| "scan_post m lo hi p (ds, Some e) \<longleftrightarrow> (\<exists>rest. scan_all m lo hi p (ds @ rest))"

locale mongo =
  fixes m :: "'db Mongo"
    and view :: "'db \<Rightarrow> MongoView"
    and rely :: "MongoView \<Rightarrow> MongoView \<Rightarrow> bool"
  assumes events_insert:
      "EventsInsert m d db = (r, db') \<Longrightarrow>
        \<exists>v E. rely (view db) v \<and> insert_post (mv_events v) (ed_Id d) d r E \<and> view db' = v\<lparr>mv_events := E\<rparr>"
    and events_find:
      "EventsFind m i db = (q, db') \<Longrightarrow> rely (view db) (view db') \<and> find_post (mv_events (view db')) i q"
    and refs_find:
      "RefsFind m h db = (f, db') \<Longrightarrow> rely (view db) (view db') \<and> find_post (mv_refs (view db')) h f"
    and refs_insert:
      "RefsInsert m x db = (r, db') \<Longrightarrow>
        \<exists>v R. rely (view db) v \<and> insert_post (mv_refs v) (rf_Id x) x r R \<and> view db' = v\<lparr>mv_refs := R\<rparr>"
    and refs_update:
      "RefsUpdate m h sel upd db = (r, db') \<Longrightarrow>
        \<exists>v R. rely (view db) v \<and> update_post (mv_refs v) h sel upd r R \<and> view db' = v\<lparr>mv_refs := R\<rparr>"
    and journal_insert:
      "JournalInsert m j db = (r, db') \<Longrightarrow>
        \<exists>v J. rely (view db) v \<and> insert_post (mv_journal v) (jd_Id j) j r J \<and> view db' = v\<lparr>mv_journal := J\<rparr>"
    and journal_find:
      "JournalFind m k db = (w, db') \<Longrightarrow> rely (view db) (view db') \<and> find_post (mv_journal (view db')) k w"
    and journal_scan:
      "JournalScan m lo hi p db = (s, db') \<Longrightarrow> rely (view db) (view db') \<and> scan_post (mv_journal (view db')) lo hi p s"

section \<open>Programs that use the database\<close>

text \<open>
  A computation takes the database and returns an outcome and the database after it, or \<open>None\<close>
  if it does not return.
\<close>

type_synonym ('db, 'e, 'a) dbm = "'db \<Rightarrow> (('e, 'a) outcome \<times> 'db) option"

definition ret :: "('e, 'a) outcome \<Rightarrow> ('db, 'e, 'a) dbm" where
  "ret r = (\<lambda>db. Some (r, db))"

definition call :: "('db \<Rightarrow> 'r \<times> 'db) \<Rightarrow> ('r \<Rightarrow> ('db, 'e, 'a) dbm) \<Rightarrow> ('db, 'e, 'a) dbm" where
  "call opr f = (\<lambda>db. case opr db of (r, db') \<Rightarrow> f r db')"

definition dbind :: "('db, 'e, 'a) dbm \<Rightarrow> ('a \<Rightarrow> ('db, 'e, 'b) dbm) \<Rightarrow> ('db, 'e, 'b) dbm" where
  "dbind x f = (\<lambda>db. case x db of
     None \<Rightarrow> None
   | Some (Ok a, db') \<Rightarrow> f a db'
   | Some (Err e, db') \<Rightarrow> Some (Err e, db')
   | Some (Panic p, db') \<Rightarrow> Some (Panic p, db'))"

definition dtry ::
  "('db, 'e, 'a) dbm \<Rightarrow> ('e \<Rightarrow> ('db, 'e, 'b) dbm) \<Rightarrow> ('a \<Rightarrow> ('db, 'e, 'b) dbm) \<Rightarrow> ('db, 'e, 'b) dbm" where
  "dtry x h f = (\<lambda>db. case x db of
     None \<Rightarrow> None
   | Some (Ok a, db') \<Rightarrow> f a db'
   | Some (Err e, db') \<Rightarrow> h e db'
   | Some (Panic p, db') \<Rightarrow> Some (Panic p, db'))"

text \<open>
  Total correctness of a computation that starts with a given view of the database: it
  returns, and its outcome and the view after it satisfy the postcondition.
\<close>

definition triple ::
  "('db \<Rightarrow> 'v) \<Rightarrow> 'v \<Rightarrow> ('db, 'e, 'a) dbm \<Rightarrow> (('e, 'a) outcome \<Rightarrow> 'v \<Rightarrow> bool) \<Rightarrow> bool" where
  "triple view v prog Q \<longleftrightarrow>
     (\<forall>db. view db = v \<longrightarrow> (\<exists>r db'. prog db = Some (r, db') \<and> Q r (view db')))"

lemma tripleD: "triple view (view db) prog Q \<Longrightarrow> prog db = Some (r, db') \<Longrightarrow> Q r (view db')"
  by (force simp: triple_def)

lemma triple_run: "triple view (view db) prog Q \<Longrightarrow> \<exists>r db'. prog db = Some (r, db') \<and> Q r (view db')"
  by (simp add: triple_def)

lemma triple_total: "triple view (view db) prog Q \<Longrightarrow> \<exists>r db'. prog db = Some (r, db')"
  by (force simp: triple_def)

lemma triple_conseq: "triple view v prog R \<Longrightarrow> (\<And>r v'. R r v' \<Longrightarrow> Q r v') \<Longrightarrow> triple view v prog Q"
  unfolding triple_def by blast

lemma triple_ret: "Q r v \<Longrightarrow> triple view v (ret r) Q"
  by (simp add: triple_def ret_def)

lemma triple_dbind:
  assumes "triple view v x R"
    and "\<And>a v'. R (Ok a) v' \<Longrightarrow> triple view v' (f a) Q"
    and "\<And>e v'. R (Err e) v' \<Longrightarrow> Q (Err e) v'"
    and "\<And>p v'. R (Panic p) v' \<Longrightarrow> Q (Panic p) v'"
  shows "triple view v (dbind x f) Q"
  unfolding triple_def
proof (intro allI impI)
  fix db assume "view db = v"
  then obtain r db' where x: "x db = Some (r, db')" and r: "R r (view db')"
    using assms(1) by (auto simp: triple_def)
  show "\<exists>r db'. dbind x f db = Some (r, db') \<and> Q r (view db')"
  proof (cases r)
    case (Ok a)
    then show ?thesis using assms(2) [of a "view db'"] x r by (simp add: triple_def dbind_def)
  qed (use assms(3,4) x r in \<open>simp_all add: dbind_def\<close>)
qed

lemma triple_dtry:
  assumes "triple view v x R"
    and "\<And>a v'. R (Ok a) v' \<Longrightarrow> triple view v' (f a) Q"
    and "\<And>e v'. R (Err e) v' \<Longrightarrow> triple view v' (h e) Q"
    and "\<And>p v'. R (Panic p) v' \<Longrightarrow> Q (Panic p) v'"
  shows "triple view v (dtry x h f) Q"
  unfolding triple_def
proof (intro allI impI)
  fix db assume "view db = v"
  then obtain r db' where x: "x db = Some (r, db')" and r: "R r (view db')"
    using assms(1) by (auto simp: triple_def)
  show "\<exists>r db'. dtry x h f db = Some (r, db') \<and> Q r (view db')"
  proof (cases r)
    case (Ok a)
    then show ?thesis using assms(2) [of a "view db'"] x r by (simp add: triple_def dtry_def)
  next
    case (Err e)
    then show ?thesis using assms(3) [of e "view db'"] x r by (simp add: triple_def dtry_def)
  qed (use assms(4) x r in \<open>simp add: dtry_def\<close>)
qed

lemma triple_call:
  assumes "\<And>db r db'. view db = v \<Longrightarrow> opr db = (r, db') \<Longrightarrow> triple view (view db') (f r) Q"
  shows "triple view v (call opr f) Q"
  unfolding triple_def call_def
proof (intro allI impI)
  fix db assume "view db = v"
  with assms [OF this] show "\<exists>r db'. (case opr db of (r, db') \<Rightarrow> f r db') = Some (r, db') \<and> Q r (view db')"
    by (cases "opr db") (auto simp: triple_def)
qed

context mongo
begin

lemma triple_EventsInsert:
  assumes "\<And>r v1 E. rely v v1 \<Longrightarrow> insert_post (mv_events v1) (ed_Id d) d r E \<Longrightarrow>
      triple view (v1\<lparr>mv_events := E\<rparr>) (f r) Q"
  shows "triple view v (call (EventsInsert m d) f) Q"
  by (rule triple_call) (metis assms events_insert)

lemma triple_RefsInsert:
  assumes "\<And>r v1 R. rely v v1 \<Longrightarrow> insert_post (mv_refs v1) (rf_Id d) d r R \<Longrightarrow>
      triple view (v1\<lparr>mv_refs := R\<rparr>) (f r) Q"
  shows "triple view v (call (RefsInsert m d) f) Q"
  by (rule triple_call) (metis assms refs_insert)

lemma triple_RefsUpdate:
  assumes "\<And>r v1 R. rely v v1 \<Longrightarrow> update_post (mv_refs v1) h sel upd r R \<Longrightarrow>
      triple view (v1\<lparr>mv_refs := R\<rparr>) (f r) Q"
  shows "triple view v (call (RefsUpdate m h sel upd) f) Q"
  by (rule triple_call) (metis assms refs_update)

lemma triple_JournalInsert:
  assumes "\<And>r v1 J. rely v v1 \<Longrightarrow> insert_post (mv_journal v1) (jd_Id d) d r J \<Longrightarrow>
      triple view (v1\<lparr>mv_journal := J\<rparr>) (f r) Q"
  shows "triple view v (call (JournalInsert m d) f) Q"
  by (rule triple_call) (metis assms journal_insert)

lemma triple_EventsFind:
  assumes "\<And>r v1. rely v v1 \<Longrightarrow> find_post (mv_events v1) i r \<Longrightarrow> triple view v1 (f r) Q"
  shows "triple view v (call (EventsFind m i) f) Q"
  by (rule triple_call) (metis assms events_find)

lemma triple_RefsFind:
  assumes "\<And>r v1. rely v v1 \<Longrightarrow> find_post (mv_refs v1) h r \<Longrightarrow> triple view v1 (f r) Q"
  shows "triple view v (call (RefsFind m h) f) Q"
  by (rule triple_call) (metis assms refs_find)

lemma triple_JournalFind:
  assumes "\<And>r v1. rely v v1 \<Longrightarrow> find_post (mv_journal v1) k r \<Longrightarrow> triple view v1 (f r) Q"
  shows "triple view v (call (JournalFind m k) f) Q"
  by (rule triple_call) (metis assms journal_find)

lemma triple_JournalScan:
  assumes "\<And>s v1. rely v v1 \<Longrightarrow> scan_post (mv_journal v1) lo hi p s \<Longrightarrow> triple view v1 (f s) Q"
  shows "triple view v (call (JournalScan m lo hi p) f) Q"
  by (rule triple_call) (metis assms journal_scan)

end

end
