(* ===== verification/Event_Journal.thy ===== *)
theory Event_Journal
  imports Event_Store
begin

text \<open>
  The event journal (\<open>backend/internal/events/journal.go\<close>).  Histories are chains of events, linked by
  the parent id, in the collection \<open>events\<close>; \<open>refs\<close> holds the head of each history, which is moved by a
  compare-and-set; \<open>journal\<close> holds the events of each history in order, and is brought up to date when
  a history is read.  Every definition takes the driver; each call of it is a separate atomic step.
\<close>

section \<open>Commit\<close>

definition ensureStoredEvent :: "'db Mongo \<Rightarrow> EventDoc \<Rightarrow> ('db, EventsError, unit) dbm" where
  "ensureStoredEvent m want =
     call (EventsInsert m want) (\<lambda>r. case r of
       Inr _ \<Rightarrow> ret (Ok ())
     | Inl e \<Rightarrow>
         if \<not> IsDup e then ret (Err (DBError OpInsertEvent e))
         else call (EventsFind m (ed_Id want)) (\<lambda>q. case q of
           Inl e2 \<Rightarrow> ret (Err (DBError OpFindPreviousEvent e2))
         | Inr got \<Rightarrow>
             if ed_Protobuf want \<noteq> ed_Protobuf got
             then ret (Err (DuplicateEventMismatchError (ed_Id want)))
             else ret (Ok ())))"

definition journalHead :: "'db Mongo \<Rightarrow> uuid \<Rightarrow> ('db, EventsError, ulid) dbm" where
  "journalHead m historyId =
     call (RefsFind m historyId) (\<lambda>r. case r of
       Inl ErrNotFound \<Rightarrow> ret (Ok EventEpoch)
     | Inl e \<Rightarrow> ret (Err (DBError OpFindHead e))
     | Inr refs \<Rightarrow>
         if IsInactive (phaseOf refs) then ret (Ok EventEpoch) else ret (Ok (rf_Head refs)))"

definition journalDelete :: "'db Mongo \<Rightarrow> uuid \<Rightarrow> ulid \<Rightarrow> ('db, EventsError, unit) dbm" where
  "journalDelete m historyId head =
     call (RefsUpdate m historyId (\<lambda>r. rf_Head r = head \<and> selActive r)
         (\<lambda>now r. r\<lparr>rf_Phase := Some PhaseDeleting, rf_Dtime := now\<rparr>)) (\<lambda>r. case r of
       Inl ErrNotFound \<Rightarrow>
         dbind (journalHead m historyId) (\<lambda>head2.
           if head2 = EventEpoch then ret (Ok ())
           else ret (Err (VersionConflictError head2 head)))
     | Inl e \<Rightarrow> ret (Err (DBError OpUpdateHead e))
     | Inr _ \<Rightarrow> ret (Ok ()))"

fun storeEvents :: "'db Mongo \<Rightarrow> 'ev EventOps \<Rightarrow> 'ev list \<Rightarrow> ('db, EventsError, unit) dbm" where
  "storeEvents m ops [] = ret (Ok ())"
| "storeEvents m ops (ev # evs) =
     (case MarshalProto ops ev of
        Inl e \<Rightarrow> ret (Err (InternalError OpEncodeEventProto e))
      | Inr buf \<Rightarrow>
          dbind (ensureStoredEvent m \<lparr>ed_Id = EvId ops ev, ed_Protobuf = buf\<rparr>) (\<lambda>_.
            storeEvents m ops evs))"

text \<open>The step that makes the events visible: insert the ref, or move its head from the parent.\<close>

definition moveHead :: "'db Mongo \<Rightarrow> uuid \<Rightarrow> ulid \<Rightarrow> ulid \<Rightarrow> ('db, EventsError, unit) dbm" where
  "moveHead m historyId parent head =
     (if parent = EventEpoch then
        call (RefsInsert m \<lparr>rf_Id = historyId, rf_Head = head, rf_Epoch = 0, rf_EpochLog = [],
            rf_Tail = 0, rf_Serial = HeadSerialUnspecified, rf_Phase = Some PhaseActive, rf_Dtime = 0\<rparr>)
          (\<lambda>r. case r of
             Inl e \<Rightarrow> ret (Err (DBError OpInsertHead e))
           | Inr _ \<Rightarrow> ret (Ok ()))
      else
        call (RefsUpdate m historyId (\<lambda>r. rf_Head r = parent \<and> selActive r)
            (\<lambda>_ r. r\<lparr>rf_Head := head, rf_Serial := HeadSerialUnspecified, rf_Phase := Some PhaseActive\<rparr>))
          (\<lambda>r. case r of
             Inl ErrNotFound \<Rightarrow>
               dbind (journalHead m historyId) (\<lambda>head2.
                 if head2 = EventEpoch then ret (Err (UnknownHistoryError historyId))
                 else ret (Err (VersionConflictError head2 parent)))
           | Inl e \<Rightarrow> ret (Err (DBError OpUpdateHead e))
           | Inr _ \<Rightarrow> ret (Ok ())))"

text \<open>
  \<open>Commit()\<close> returns the events with their ids and the topics it posts to the notifier.
\<close>

definition journalCommit ::
  "'db Mongo \<Rightarrow> 'ev EventOps \<Rightarrow> ulid_source \<Rightarrow> uuid \<Rightarrow> 'ev list \<Rightarrow>
   ('db, EventsError, 'ev list \<times> uuid list) dbm" where
  "journalCommit m ops g historyId evs =
     (if evs = [] then ret (Ok (evs, []))
      else case eventsWithId ops g evs of
        Inl e \<Rightarrow> ret (Err (InternalError OpEventIds e))
      | Inr evs' \<Rightarrow>
          dbind (storeEvents m ops evs') (\<lambda>_.
          dbind (moveHead m historyId (EvParent ops (hd evs')) (EvId ops (last evs'))) (\<lambda>_.
            ret (Ok (evs', [historyId])))))"

section \<open>Find\<close>

definition findSerial :: "'db Mongo \<Rightarrow> uuid \<Rightarrow> ulid \<Rightarrow> ('db, EventsError, int option) dbm" where
  "findSerial m historyId eventId =
     call (JournalFind m (Pack historyId eventId)) (\<lambda>r. case r of
       Inl ErrNotFound \<Rightarrow> ret (Ok None)
     | Inl e \<Rightarrow> ret (Err (DBError OpFindJournal e))
     | Inr ent \<Rightarrow> ret (Ok (Some (jd_Serial ent))))"

definition ensureJournalEntry ::
  "'db Mongo \<Rightarrow> uuid \<Rightarrow> int \<Rightarrow> EventDoc \<Rightarrow> ('db, EventsError, unit) dbm" where
  "ensureJournalEntry m historyId serial ev =
     (let want = \<lparr>jd_Id = Pack historyId (ed_Id ev), jd_Serial = serial, jd_Protobuf = ed_Protobuf ev\<rparr>
      in call (JournalInsert m want) (\<lambda>r. case r of
           Inr _ \<Rightarrow> ret (Ok ())
         | Inl e \<Rightarrow>
             if \<not> IsDup e then ret (Err (DBError OpInsertJournal e))
             else call (JournalFind m (jd_Id want)) (\<lambda>q. case q of
               Inl e2 \<Rightarrow> ret (Err (DBError OpFindJournalDuplicate e2))
             | Inr got \<Rightarrow>
                 if jd_Serial got \<noteq> jd_Serial want
                 then ret (Err (DuplicateJournalEntrySerialMismatchError historyId (ed_Id ev)
                        (jd_Serial got) (jd_Serial want)))
                 else if jd_Protobuf got \<noteq> jd_Protobuf want
                 then ret (Err (DuplicateJournalEntryProtobufMismatchError historyId (ed_Id ev)))
                 else ret (Ok ()))))"

lemma call_mono [partial_function_mono]:
  assumes "\<And>r db'. option.mono_body (\<lambda>f. g f r db')"
  shows "option.mono_body (\<lambda>f. call opr (\<lambda>r. g f r) db)"
  unfolding call_def using assms by (cases "opr db") simp

lemma dbind_mono [partial_function_mono]:
  assumes "\<And>a db'. option.mono_body (\<lambda>f. g f a db')"
  shows "option.mono_body (\<lambda>f. dbind x (\<lambda>a. g f a) db)"
proof (cases "x db")
  case None
  then show ?thesis by (simp add: dbind_def monotone_def option.leq_refl)
next
  case (Some y)
  then show ?thesis using assms
    by (cases y; cases "fst y") (auto simp: dbind_def monotone_def option.leq_refl)
qed

text \<open>
  The loop that walks from an event to its parents until an event is in the journal.  \<open>dp\<close> stands for
  \<open>proto.Unmarshal\<close> into the general message \<open>pb.Event\<close>: the bytes of its field \<open>Parent\<close>.  The
  result is the serial to start from and the events to add, latest first.
\<close>

type_synonym decode_parent = "byte list \<Rightarrow> goerr + gobytes"

partial_function (option) walkParents ::
  "'db Mongo \<Rightarrow> decode_parent \<Rightarrow> ulid_unmarshal \<Rightarrow> uuid \<Rightarrow> ulid \<Rightarrow> ulid \<Rightarrow> EventDoc list \<Rightarrow>
   ('db, EventsError, int \<times> EventDoc list) dbm" where
  "walkParents m dp ub historyId tail evId events db =
     (if evId = EventEpoch then ret (Ok (0, events)) db
      else dbind (findSerial m historyId evId) (\<lambda>found db1. case found of
        Some s \<Rightarrow> ret (Ok (s, events)) db1
      | None \<Rightarrow>
          call (EventsFind m evId) (\<lambda>q db2. case q of
            Inl e \<Rightarrow> ret (Err (DBError OpFindEvent e)) db2
          | Inr ev \<Rightarrow>
              if tail \<noteq> ulidNil \<and> evId = tail then ret (Ok (0, events @ [ev])) db2
              else case dp (ed_Protobuf ev) of
                Inl e \<Rightarrow> ret (Err (CorruptedDataError OpDecodeEventProto e)) db2
              | Inr par \<Rightarrow>
                  (case ParseBytes ub par of
                     Inl e \<Rightarrow> ret (Err (CorruptedDataError OpParseEventParent e)) db2
                   | Inr p \<Rightarrow> walkParents m dp ub historyId tail p (events @ [ev]) db2)) db1) db)"

lemma walkParents_step:
  "walkParents m dp ub historyId tail evId events =
     (if evId = EventEpoch then ret (Ok (0, events))
      else dbind (findSerial m historyId evId) (\<lambda>found. case found of
        Some s \<Rightarrow> ret (Ok (s, events))
      | None \<Rightarrow>
          call (EventsFind m evId) (\<lambda>q. case q of
            Inl e \<Rightarrow> ret (Err (DBError OpFindEvent e))
          | Inr ev \<Rightarrow>
              if tail \<noteq> ulidNil \<and> evId = tail then ret (Ok (0, events @ [ev]))
              else case dp (ed_Protobuf ev) of
                Inl e \<Rightarrow> ret (Err (CorruptedDataError OpDecodeEventProto e))
              | Inr par \<Rightarrow>
                  (case ParseBytes ub par of
                     Inl e \<Rightarrow> ret (Err (CorruptedDataError OpParseEventParent e))
                   | Inr p \<Rightarrow> walkParents m dp ub historyId tail p (events @ [ev])))))"
  by (rule ext, subst walkParents.simps)
    (auto simp: dbind_def call_def fun_eq_iff split: option.split sum.split prod.split outcome.split)

text \<open>The loop that adds the events, from the oldest; it returns the last serial.\<close>

fun insertEntries ::
  "'db Mongo \<Rightarrow> uuid \<Rightarrow> int \<Rightarrow> EventDoc list \<Rightarrow> ('db, EventsError, int) dbm" where
  "insertEntries m historyId serial [] = ret (Ok serial)"
| "insertEntries m historyId serial (ev # evs) =
     dbind (ensureJournalEntry m historyId (serial + 1) ev) (\<lambda>_.
       insertEntries m historyId (serial + 1) evs)"

definition ensureJournal ::
  "'db Mongo \<Rightarrow> decode_parent \<Rightarrow> ulid_unmarshal \<Rightarrow> uuid \<Rightarrow> ('db, EventsError, int \<times> ulid) dbm" where
  "ensureJournal m dp ub historyId =
     call (RefsFind m historyId) (\<lambda>r. case r of
       Inl ErrNotFound \<Rightarrow> ret (Ok (0, ulidNil))
     | Inl e \<Rightarrow> ret (Err (DBError OpFindHead e))
     | Inr refs \<Rightarrow>
         if IsInactive (phaseOf refs) then ret (Ok (0, ulidNil))
         else if rf_Serial refs \<noteq> HeadSerialUnspecified then ret (Ok (rf_Serial refs, rf_Epoch refs))
         else
           dbind (walkParents m dp ub historyId (rf_Tail refs) (rf_Head refs) []) (\<lambda>(start, events).
           dbind (insertEntries m historyId start (rev events)) (\<lambda>serial.
             call (RefsUpdate m historyId (\<lambda>x. rf_Head x = rf_Head refs \<and> selActive x)
                 (\<lambda>_ x. x\<lparr>rf_Serial := serial\<rparr>)) (\<lambda>u. case u of
               Inl ErrNotFound \<Rightarrow> ret (Ok (serial, rf_Epoch refs))
             | Inl e \<Rightarrow> ret (Err (DBError OpUpdateHeadSerial e))
             | Inr _ \<Rightarrow> ret (Ok (serial, rf_Epoch refs))))))"

text \<open>
  An iterator: \<open>it_mongo\<close> is the active query, as the entries that are left and the error it
  ends with.
\<close>

record Iter =
  it_mongo :: "(JournalDoc list \<times> mgoerr option) option"
  it_prev :: ulid
  it_err :: "EventsError option"

definition journalFind ::
  "'db Mongo \<Rightarrow> decode_parent \<Rightarrow> ulid_unmarshal \<Rightarrow> uuid \<Rightarrow> ulid \<Rightarrow> ('db, EventsError, Iter) dbm" where
  "journalFind m dp ub historyId after0 =
     dtry (ensureJournal m dp ub historyId)
       (\<lambda>e. ret (Ok \<lparr>it_mongo = None, it_prev = 0, it_err = Some e\<rparr>))
       (\<lambda>(headSerial, epoch).
          if headSerial = 0 then ret (Ok \<lparr>it_mongo = None, it_prev = 0, it_err = None\<rparr>)
          else
            let (min, max) = RangeMinMax historyId;
                after = (if after0 = EventEpoch then epoch else after0)
            in if after = EventEpoch then
                 call (JournalScan m min max (\<lambda>s. s \<le> headSerial)) (\<lambda>it.
                   ret (Ok \<lparr>it_mongo = Some it, it_prev = after, it_err = None\<rparr>))
               else
                 call (JournalFind m (Pack historyId after)) (\<lambda>q. case q of
                   Inl e \<Rightarrow>
                     ret (Ok \<lparr>it_mongo = None, it_prev = 0, it_err = Some (DBError OpFindStart e)\<rparr>)
                 | Inr afterD \<Rightarrow>
                     call (JournalScan m min max (\<lambda>s. jd_Serial afterD < s \<and> s \<le> headSerial)) (\<lambda>it.
                       ret (Ok \<lparr>it_mongo = Some it, it_prev = after, it_err = None\<rparr>))))"

text \<open>\<open>Next()\<close> decodes the next event, if there is one, and checks that it links to the previous.\<close>

definition iterNext :: "'ev EventOps \<Rightarrow> Iter \<Rightarrow> (EventsError, 'ev option \<times> Iter) outcome" where
  "iterNext ops it =
     (if it_err it \<noteq> None then Ok (None, it)
      else case it_mongo it of
        None \<Rightarrow> Ok (None, it)
      | Some ([], e) \<Rightarrow> Ok (None, it)
      | Some (d # ds, e) \<Rightarrow>
          let it1 = it\<lparr>it_mongo := Some (ds, e)\<rparr>
          in case UnmarshalProto ops (jd_Protobuf d) of
               Panic p \<Rightarrow> Panic p
             | Err x \<Rightarrow> Ok (None, it1\<lparr>it_err := Some (EventError OpDecodeJournalProto x)\<rparr>)
             | Ok ev \<Rightarrow>
                 if EvParent ops ev \<noteq> it_prev it
                 then Ok (None, it1\<lparr>it_err := Some (JournalEntryParentMismatchError
                        (EvId ops ev) (EvParent ops ev) (it_prev it))\<rparr>)
                 else Ok (Some ev, it1\<lparr>it_prev := EvId ops ev\<rparr>))"

definition iterClose :: "Iter \<Rightarrow> EventsError option" where
  "iterClose it =
     (case it_mongo it of
        None \<Rightarrow> it_err it
      | Some (_, errmg) \<Rightarrow>
          (case it_err it of
             Some e \<Rightarrow> Some e
           | None \<Rightarrow> map_option (DBError OpScanJournal) errmg))"

section \<open>Chains of events\<close>

definition docParent :: "decode_parent \<Rightarrow> ulid_unmarshal \<Rightarrow> byte list \<Rightarrow> ulid option" where
  "docParent dp ub b =
     (case dp b of
        Inl e \<Rightarrow> None
      | Inr p \<Rightarrow> (case ParseBytes ub p of Inl e \<Rightarrow> None | Inr i \<Rightarrow> Some i))"

text \<open>\<open>chain E par e xs\<close>: the ids \<open>xs\<close>, oldest first, lead from the epoch to the event \<open>e\<close>.\<close>

inductive chain :: "(ulid \<rightharpoonup> EventDoc) \<Rightarrow> (byte list \<Rightarrow> ulid option) \<Rightarrow> ulid \<Rightarrow> ulid list \<Rightarrow> bool"
  for E par where
  chain_epoch: "chain E par EventEpoch []"
| chain_event: "chain E par e (xs @ [e])"
    if "e \<noteq> EventEpoch" "E e = Some d" "par (ed_Protobuf d) = Some p" "chain E par p xs"

inductive_cases chain_epochE: "chain E par 0 xs"
inductive_cases chain_nilE: "chain E par e []"
inductive_cases chain_snocE: "chain E par e (xs @ [x])"

lemma chain_zero [simp]: "chain E par 0 xs \<longleftrightarrow> xs = []"
  using chain_epoch by (auto elim: chain_epochE)

lemma chain_nil_iff [simp]: "chain E par e [] \<longleftrightarrow> e = 0"
  using chain_epoch by (auto elim: chain_nilE)

lemma chain_snoc_iff:
  "chain E par e (xs @ [x]) \<longleftrightarrow>
     e = x \<and> x \<noteq> 0 \<and> (\<exists>d p. E x = Some d \<and> par (ed_Protobuf d) = Some p \<and> chain E par p xs)"
  using chain_event [of x E d par p xs for d p] by (auto elim: chain_snocE)

lemma chain_det: "chain E par e xs \<Longrightarrow> chain E par e ys \<Longrightarrow> ys = xs"
proof (induction arbitrary: ys rule: chain.induct)
  case (chain_event e d p xs)
  from \<open>chain E par e ys\<close> chain_event.hyps(1) obtain d' p' zs where
    ys: "ys = zs @ [e]" "E e = Some d'" "par (ed_Protobuf d') = Some p'" "chain E par p' zs"
    by (cases rule: chain.cases) auto
  then have "p' = p" using chain_event.hyps(2,3) by simp
  then show ?case using chain_event.IH ys(1,4) by simp
qed simp

lemma chain_mono: "chain E par e xs \<Longrightarrow> E \<subseteq>\<^sub>m E' \<Longrightarrow> chain E' par e xs"
proof (induction rule: chain.induct)
  case (chain_event e d p xs)
  moreover have "E' e = Some d"
    using chain_event.hyps(2) chain_event.prems by (metis domI map_le_def)
  ultimately show ?case by (intro chain.chain_event) auto
qed simp

lemma chain_last: "chain E par e xs \<Longrightarrow> xs \<noteq> [] \<Longrightarrow> last xs = e"
  by (auto elim: chain.cases)

lemma chain_take: "chain E par e xs \<Longrightarrow> i < length xs \<Longrightarrow> chain E par (xs ! i) (take (Suc i) xs)"
proof (induction rule: chain.induct)
  case (chain_event e d p xs)
  then show ?case by (cases "i = length xs") (auto simp: nth_append intro: chain.chain_event)
qed simp

lemma chain_distinct: "chain E par e xs \<Longrightarrow> distinct xs"
proof (induction rule: chain.induct)
  case (chain_event e d p xs)
  have "e \<notin> set xs"
  proof
    assume "e \<in> set xs"
    then obtain i where i: "i < length xs" "xs ! i = e" by (auto simp: in_set_conv_nth)
    have "chain E par e (take (Suc i) xs)" using chain_take [OF chain_event.hyps(4) i(1)] i(2) by simp
    moreover have "chain E par e (xs @ [e])"
      using chain_event.hyps by (auto intro: chain.chain_event)
    ultimately have "length (take (Suc i) xs) = length (xs @ [e])" using chain_det by metis
    then show False by simp
  qed
  then show ?case using chain_event.IH by simp
qed simp

lemma chain_nonzero: "chain E par e xs \<Longrightarrow> x \<in> set xs \<Longrightarrow> x \<noteq> 0"
  by (induction rule: chain.induct) auto

lemma chain_doc:
  "chain E par e xs \<Longrightarrow> i < length xs \<Longrightarrow>
     \<exists>d. E (xs ! i) = Some d \<and> par (ed_Protobuf d) = Some (if i = 0 then 0 else xs ! (i - 1))"
proof (induction rule: chain.induct)
  case (chain_event e d p xs)
  show ?case
  proof (cases "i = length xs")
    case True
    have "p = (if i = 0 then 0 else xs ! (i - 1))"
      using True chain_event.hyps(4) chain_last [of E par p xs] by (cases "xs = []") (auto simp: last_conv_nth)
    then show ?thesis using True chain_event.hyps by (auto simp: nth_append)
  next
    case False
    then show ?thesis using chain_event.IH chain_event.prems by (auto simp: nth_append)
  qed
qed simp

lemma chain_append_take: "chain E par e (xs @ ys) \<Longrightarrow> xs \<noteq> [] \<Longrightarrow> chain E par (last xs) xs"
  using chain_take [of E par e "xs @ ys" "length xs - 1"]
  by (cases xs rule: rev_cases) (auto simp: nth_append)

end
