(* ===== verification/Event_Journal_Inv.thy ===== *)
theory Event_Journal_Inv
  imports Event_Journal
begin

text \<open>
  Correctness of the event journal under concurrency.  The invariant \<open>jinv\<close> of the collections,
  the relation \<open>evolves\<close> by which any number of processes that commit, read and delete histories change
  them, and the total correctness of the journal's operations when other processes make such
  changes between any two of its database operations.  Histories that were never trimmed are
  considered: \<open>Epoch\<close> and \<open>Tail\<close> are nil.
\<close>

section \<open>Invariant\<close>

text \<open>
  What the histories are known to be: \<open>K h E xs\<close> for a history \<open>h\<close> with the chain \<open>xs\<close> in the
  events \<open>E\<close>.  It must not depend on other events.
\<close>

type_synonym hist_pred = "uuid \<Rightarrow> (ulid \<rightharpoonup> EventDoc) \<Rightarrow> ulid list \<Rightarrow> bool"

definition mono_hist :: "hist_pred \<Rightarrow> bool" where
  "mono_hist K \<longleftrightarrow> (\<forall>h E E' xs. E \<subseteq>\<^sub>m E' \<longrightarrow> K h E xs \<longrightarrow> K h E' xs)"

lemma mono_histD: "mono_hist K \<Longrightarrow> E \<subseteq>\<^sub>m E' \<Longrightarrow> K h E xs \<Longrightarrow> K h E' xs"
  by (simp add: mono_hist_def)

definition entryOf :: "MongoView \<Rightarrow> uuid \<Rightarrow> ulid \<Rightarrow> nat \<Rightarrow> JournalDoc" where
  "entryOf v h e i = \<lparr>jd_Id = Pack h e, jd_Serial = int i + 1, jd_Protobuf = ed_Protobuf (the (mv_events v e))\<rparr>"

text \<open>The journal of \<open>h\<close> holds exactly the first \<open>n\<close> events of \<open>xs\<close>, numbered from 1.\<close>

definition journal_prefix :: "MongoView \<Rightarrow> uuid \<Rightarrow> ulid list \<Rightarrow> nat \<Rightarrow> bool" where
  "journal_prefix v h xs n \<longleftrightarrow>
     (\<forall>e. mv_journal v (Pack h e) =
        (if e \<in> set (take n xs) then Some (entryOf v h e (length (takeWhile (\<lambda>x. x \<noteq> e) xs))) else None))"

definition ref_inv :: "hist_pred \<Rightarrow> (byte list \<Rightarrow> ulid option) \<Rightarrow> MongoView \<Rightarrow> uuid \<Rightarrow> RefsDoc \<Rightarrow> bool" where
  "ref_inv K par v h r \<longleftrightarrow>
     rf_Id r = h \<and> rf_Head r \<noteq> 0 \<and> rf_Epoch r = 0 \<and> rf_Tail r = 0 \<and>
     (\<exists>xs n. chain (mv_events v) par (rf_Head r) xs \<and> K h (mv_events v) xs \<and>
        n \<le> length xs \<and> journal_prefix v h xs n \<and>
        (rf_Serial r \<noteq> 0 \<longrightarrow> n = length xs \<and> rf_Serial r = int n))"

definition jinv :: "hist_pred \<Rightarrow> (byte list \<Rightarrow> ulid option) \<Rightarrow> MongoView \<Rightarrow> bool" where
  "jinv K par v \<longleftrightarrow>
     (\<forall>e d. mv_events v e = Some d \<longrightarrow> ed_Id d = e) \<and>
     (\<forall>h. case mv_refs v h of
        None \<Rightarrow> (\<forall>e. mv_journal v (Pack h e) = None)
      | Some r \<Rightarrow> ref_inv K par v h r)"

definition evolves :: "hist_pred \<Rightarrow> (byte list \<Rightarrow> ulid option) \<Rightarrow> MongoView \<Rightarrow> MongoView \<Rightarrow> bool" where
  "evolves K par v v' \<longleftrightarrow>
     (jinv K par v \<longrightarrow> jinv K par v') \<and> mv_events v \<subseteq>\<^sub>m mv_events v' \<and> mv_journal v \<subseteq>\<^sub>m mv_journal v' \<and>
     (\<forall>h r xs. mv_refs v h = Some r \<longrightarrow> chain (mv_events v) par (rf_Head r) xs \<longrightarrow>
        (\<exists>r' ys. mv_refs v' h = Some r' \<and> chain (mv_events v') par (rf_Head r') (xs @ ys)))"

lemma evolves_refl [simp]: "evolves K par v v"
  unfolding evolves_def by (metis append_Nil2 map_le_refl)

lemma evolves_trans:
  assumes ab: "evolves K par a b" and bc: "evolves K par b c"
  shows "evolves K par a c"
proof -
  have "\<exists>r' zs. mv_refs c h = Some r' \<and> chain (mv_events c) par (rf_Head r') (xs @ zs)"
    if r: "mv_refs a h = Some r" and xs: "chain (mv_events a) par (rf_Head r) xs" for h r xs
  proof -
    obtain r1 ys where "mv_refs b h = Some r1" "chain (mv_events b) par (rf_Head r1) (xs @ ys)"
      using ab r xs unfolding evolves_def by blast
    then obtain r2 zs where "mv_refs c h = Some r2" "chain (mv_events c) par (rf_Head r2) ((xs @ ys) @ zs)"
      using bc unfolding evolves_def by blast
    then show ?thesis by auto
  qed
  then show ?thesis using ab bc unfolding evolves_def by (meson map_le_trans)
qed

lemma jinv_event: "jinv K par v \<Longrightarrow> mv_events v e = Some d \<Longrightarrow> ed_Id d = e"
  by (simp add: jinv_def)

lemma jinv_ref: "jinv K par v \<Longrightarrow> mv_refs v h = Some r \<Longrightarrow> ref_inv K par v h r"
  by (metis (mono_tags, lifting) jinv_def option.simps(5))

lemma jinv_no_ref: "jinv K par v \<Longrightarrow> mv_refs v h = None \<Longrightarrow> mv_journal v (Pack h e) = None"
  by (metis (mono_tags, lifting) jinv_def option.simps(4))

lemma jinvI:
  assumes "\<And>e d. mv_events v e = Some d \<Longrightarrow> ed_Id d = e"
    and "\<And>h e. mv_refs v h = None \<Longrightarrow> mv_journal v (Pack h e) = None"
    and "\<And>h r. mv_refs v h = Some r \<Longrightarrow> ref_inv K par v h r"
  shows "jinv K par v"
  using assms by (auto simp: jinv_def split: option.split)

lemma index_takeWhile:
  "distinct xs \<Longrightarrow> i < length xs \<Longrightarrow> length (takeWhile (\<lambda>x. x \<noteq> xs ! i) xs) = i"
proof (induction xs arbitrary: i)
  case (Cons a xs)
  then show ?case by (cases i) auto
qed simp

lemma in_take_iff:
  assumes "distinct xs" and "i < length xs"
  shows "xs ! i \<in> set (take n xs) \<longleftrightarrow> i < n"
  using assms by (auto simp: in_set_conv_nth nth_eq_iff_index_eq intro!: exI [of _ i])

lemma journal_prefix_nth:
  assumes "journal_prefix v h xs n" and "distinct xs" and "i < length xs"
  shows "mv_journal v (Pack h (xs ! i)) = (if i < n then Some (entryOf v h (xs ! i) i) else None)"
  using assms by (simp add: journal_prefix_def in_take_iff index_takeWhile)

lemma journal_prefix_entry:
  assumes p: "journal_prefix v h xs n" and d: "distinct xs" and n: "n \<le> length xs"
  shows "mv_journal v (Pack h e) = Some x \<longleftrightarrow> (\<exists>i < n. e = xs ! i \<and> x = entryOf v h e i)"
proof (cases "e \<in> set (take n xs)")
  case True
  then obtain i where i: "i < n" "e = xs ! i" using n by (auto simp: in_set_conv_nth)
  moreover have "i' = i" if "i' < n" "e = xs ! i'" for i'
    using that i d n nth_eq_iff_index_eq by (metis order_less_le_trans)
  ultimately show ?thesis using journal_prefix_nth [OF p d, of i] n by auto
next
  case False
  then show ?thesis using n p by (auto simp: journal_prefix_def in_set_conv_nth)
qed

lemma ref_invE:
  assumes "ref_inv K par v h r"
  obtains xs n where "chain (mv_events v) par (rf_Head r) xs" "K h (mv_events v) xs"
    "n \<le> length xs" "journal_prefix v h xs n"
    "rf_Serial r \<noteq> 0 \<longrightarrow> n = length xs \<and> rf_Serial r = int n"
  using assms unfolding ref_inv_def by blast

section \<open>Tracking a history\<close>

text \<open>The chain \<open>xs\<close> is a prefix of the chain of the history's head.\<close>

definition tracks :: "hist_pred \<Rightarrow> (byte list \<Rightarrow> ulid option) \<Rightarrow> MongoView \<Rightarrow> uuid \<Rightarrow> ulid list \<Rightarrow> bool" where
  "tracks K par v h xs \<longleftrightarrow>
     jinv K par v \<and> (\<exists>r ys. mv_refs v h = Some r \<and> chain (mv_events v) par (rf_Head r) (xs @ ys))"

definition journaled :: "MongoView \<Rightarrow> uuid \<Rightarrow> ulid list \<Rightarrow> nat \<Rightarrow> bool" where
  "journaled v h xs k \<longleftrightarrow> (\<forall>i < k. mv_journal v (Pack h (xs ! i)) \<noteq> None)"

lemma evolves_jinv: "evolves K par v v' \<Longrightarrow> jinv K par v \<Longrightarrow> jinv K par v'"
  by (simp add: evolves_def)

lemma tracks_evolves: "tracks K par v h xs \<Longrightarrow> evolves K par v v' \<Longrightarrow> tracks K par v' h xs"
proof -
  assume t: "tracks K par v h xs" and ev: "evolves K par v v'"
  then obtain r ys where "mv_refs v h = Some r" "chain (mv_events v) par (rf_Head r) (xs @ ys)"
    unfolding tracks_def by blast
  then obtain r' zs where "mv_refs v' h = Some r'" "chain (mv_events v') par (rf_Head r') ((xs @ ys) @ zs)"
    using ev unfolding evolves_def by blast
  then show ?thesis using t ev unfolding tracks_def evolves_def append.assoc by blast
qed

lemma events_evolves: "mv_events v e = Some d \<Longrightarrow> evolves K par v v' \<Longrightarrow> mv_events v' e = Some d"
  unfolding evolves_def by (auto dest: map_leD)

lemma journal_evolves: "mv_journal v k = Some d \<Longrightarrow> evolves K par v v' \<Longrightarrow> mv_journal v' k = Some d"
  unfolding evolves_def by (auto dest: map_leD)

lemma journaled_evolves: "journaled v h xs k \<Longrightarrow> evolves K par v v' \<Longrightarrow> journaled v' h xs k"
  unfolding journaled_def
proof (intro allI impI)
  fix i assume "\<forall>i<k. mv_journal v (Pack h (xs ! i)) \<noteq> None" and ev: "evolves K par v v'" and "i < k"
  then obtain d where "mv_journal v (Pack h (xs ! i)) = Some d" by auto
  from journal_evolves [OF this ev] show "mv_journal v' (Pack h (xs ! i)) \<noteq> None" by simp
qed

text \<open>How much of a tracked chain is in the journal.\<close>

lemma tracksE:
  assumes "tracks K par v h xs"
  obtains r ys n where "mv_refs v h = Some r" "chain (mv_events v) par (rf_Head r) (xs @ ys)"
    "n \<le> length (xs @ ys)" "journal_prefix v h (xs @ ys) n"
    "\<And>i. i < length xs \<Longrightarrow>
       mv_journal v (Pack h (xs ! i)) = (if i < n then Some (entryOf v h (xs ! i) i) else None)"
proof -
  obtain r ys where r: "mv_refs v h = Some r" and c: "chain (mv_events v) par (rf_Head r) (xs @ ys)"
    and inv: "jinv K par v" using assms unfolding tracks_def by blast
  obtain zs n where z: "chain (mv_events v) par (rf_Head r) zs" "n \<le> length zs" "journal_prefix v h zs n"
    using ref_invE [OF jinv_ref [OF inv r]] by metis
  have zs: "zs = xs @ ys" using chain_det [OF c z(1)] .
  show thesis
    using that [OF r c] z zs journal_prefix_nth [OF z(3) chain_distinct [OF z(1)]]
    by (metis length_append nth_append trans_less_add1)
qed

section \<open>What the database operations guarantee\<close>

lemma entryOf_mono:
  "mv_events v \<subseteq>\<^sub>m mv_events v' \<Longrightarrow> mv_events v e \<noteq> None \<Longrightarrow> entryOf v' h e i = entryOf v h e i"
  by (auto simp: entryOf_def map_le_def dom_def)

lemma journal_prefix_mono:
  assumes "journal_prefix v h xs n" and "mv_events v \<subseteq>\<^sub>m mv_events v'"
    and "\<And>e. mv_journal v' (Pack h e) = mv_journal v (Pack h e)" and "chain (mv_events v) par e0 xs"
  shows "journal_prefix v' h xs n"
proof -
  have "mv_events v e \<noteq> None" if "e \<in> set xs" for e
    using that chain_doc [OF assms(4)] by (metis in_set_conv_nth option.distinct(1))
  then have "entryOf v' h e i = entryOf v h e i" if "e \<in> set (take n xs)" for e i
    using that entryOf_mono [OF assms(2)] by (meson in_set_takeD)
  then show ?thesis using assms(1,3) by (simp add: journal_prefix_def)
qed

lemma ref_inv_mono:
  assumes "ref_inv K par v h r" and le: "mv_events v \<subseteq>\<^sub>m mv_events v'"
    and "\<And>e. mv_journal v' (Pack h e) = mv_journal v (Pack h e)" and K: "mono_hist K"
  shows "ref_inv K par v' h r"
proof -
  obtain xs n where xs: "chain (mv_events v) par (rf_Head r) xs" "K h (mv_events v) xs" "n \<le> length xs"
    "journal_prefix v h xs n" "rf_Serial r \<noteq> 0 \<longrightarrow> n = length xs \<and> rf_Serial r = int n"
    using ref_invE [OF assms(1)] .
  then show ?thesis
    using assms(1) chain_mono [OF xs(1) le] mono_histD [OF K le xs(2)]
      journal_prefix_mono [OF xs(4) le assms(3) xs(1)]
    unfolding ref_inv_def by blast
qed

lemma evolvesI:
  assumes "jinv K par v \<Longrightarrow> jinv K par v'"
    and "mv_events v \<subseteq>\<^sub>m mv_events v'" and "mv_journal v \<subseteq>\<^sub>m mv_journal v'"
    and "\<And>h r xs. mv_refs v h = Some r \<Longrightarrow> chain (mv_events v') par (rf_Head r) xs \<Longrightarrow>
      \<exists>r' ys. mv_refs v' h = Some r' \<and> chain (mv_events v') par (rf_Head r') (xs @ ys)"
  shows "evolves K par v v'"
  using assms chain_mono unfolding evolves_def by blast

lemma evolves_store_event:
  assumes "mv_events v (ed_Id d) = None" and K: "mono_hist K"
  shows "evolves K par v (v\<lparr>mv_events := (mv_events v)(ed_Id d \<mapsto> d)\<rparr>)"
proof (rule evolvesI)
  let ?v' = "v\<lparr>mv_events := (mv_events v)(ed_Id d \<mapsto> d)\<rparr>"
  have le: "mv_events v \<subseteq>\<^sub>m mv_events ?v'" using assms(1) by (simp add: map_le_upd_new)
  then show "mv_events v \<subseteq>\<^sub>m mv_events ?v'" .
  assume inv: "jinv K par v"
  have "ref_inv K par ?v' h r" if "mv_refs v h = Some r" for h r
    using ref_inv_mono [OF jinv_ref [OF inv that] le _ K] by simp
  then show "jinv K par ?v'"
    using jinv_event [OF inv] jinv_no_ref [OF inv] by (intro jinvI) (auto split: if_splits)
qed (auto intro!: exI [of _ "[]"])

lemma evolves_insert_post_events:
  "mono_hist K \<Longrightarrow> insert_post (mv_events v) (ed_Id d) d r E \<Longrightarrow> evolves K par v (v\<lparr>mv_events := E\<rparr>)"
  by (induction "mv_events v" "ed_Id d" d r E rule: insert_post.induct) (auto simp: evolves_store_event)

text \<open>Adding the next event of a tracked chain to the journal.\<close>

lemma journal_prefix_Suc:
  assumes p: "journal_prefix v h xs k" and k: "k < length xs" and d: "distinct xs"
  shows "journal_prefix (v\<lparr>mv_journal := (mv_journal v)(Pack h (xs ! k) \<mapsto> entryOf v h (xs ! k) k)\<rparr>) h xs (Suc k)"
  using assms index_takeWhile [OF d k]
  by (auto simp: journal_prefix_def entryOf_def take_Suc_conv_app_nth Pack_inj)

lemma evolves_journal_entry:
  assumes t: "tracks K par v h xs" and k: "k < length xs" and j: "journaled v h xs k"
    and new: "mv_journal v (Pack h (xs ! k)) = None" and K: "mono_hist K"
  shows "evolves K par v (v\<lparr>mv_journal := (mv_journal v)(Pack h (xs ! k) \<mapsto> entryOf v h (xs ! k) k)\<rparr>)"
    (is "evolves K par v ?v'")
proof (rule evolvesI)
  from t obtain r ys n where r: "mv_refs v h = Some r" and c: "chain (mv_events v) par (rf_Head r) (xs @ ys)"
    and n: "n \<le> length (xs @ ys)" "journal_prefix v h (xs @ ys) n"
    and ent: "\<And>i. i < length xs \<Longrightarrow>
       mv_journal v (Pack h (xs ! i)) = (if i < n then Some (entryOf v h (xs ! i) i) else None)"
    by (rule tracksE) blast
  have inv: "jinv K par v" using t by (simp add: tracks_def)
  have "n = k"
  proof (rule antisym)
    show "n \<le> k" using ent [OF k] new by (auto split: if_splits)
    show "k \<le> n" using j ent k unfolding journaled_def
      by (metis linorder_not_less nat_less_le option.distinct(1) order_less_trans)
  qed
  then have p: "journal_prefix ?v' h (xs @ ys) (Suc k)"
    using journal_prefix_Suc [OF n(2)] k chain_distinct [OF c] by (simp add: nth_append)
  have "rf_Serial r = 0"
  proof (rule ccontr)
    assume "rf_Serial r \<noteq> 0"
    then obtain zs where "chain (mv_events v) par (rf_Head r) zs" "journal_prefix v h zs (length zs)"
      using jinv_ref [OF inv r] unfolding ref_inv_def by metis
    then show False using chain_det [OF c, of zs] new k by (auto simp: journal_prefix_def split: if_splits)
  qed
  moreover obtain zs where "chain (mv_events v) par (rf_Head r) zs" "K h (mv_events v) zs"
    using ref_invE [OF jinv_ref [OF inv r]] .
  then have "K h (mv_events v) (xs @ ys)" using chain_det [OF c] by simp
  ultimately have "ref_inv K par ?v' h r"
    using p c k jinv_ref [OF inv r] unfolding ref_inv_def
    by (auto intro!: exI [of _ "xs @ ys"] exI [of _ "Suc k"])
  moreover have "ref_inv K par ?v' h' r'" if "mv_refs v h' = Some r'" "h' \<noteq> h" for h' r'
    using ref_inv_mono [OF jinv_ref [OF inv that(1)] _ _ K, of ?v'] that(2) by (simp add: Pack_inj)
  ultimately have refs: "ref_inv K par ?v' h' r'" if "mv_refs ?v' h' = Some r'" for h' r'
    using that r by (cases "h' = h") simp_all
  have "mv_journal ?v' (Pack h' e) = None" if "mv_refs ?v' h' = None" for h' e
    using that r jinv_no_ref [OF inv, of h' e] by (cases "h' = h") (simp_all add: Pack_inj)
  then show "jinv K par ?v'" using jinv_event [OF inv] refs by (intro jinvI) simp_all
qed (use new in \<open>auto simp: map_le_upd_new intro!: exI [of _ "[]"]\<close>)

text \<open>Replacing or adding the document of a history.\<close>

lemma ref_inv_refs [simp]: "ref_inv K par (v\<lparr>mv_refs := R\<rparr>) h r \<longleftrightarrow> ref_inv K par v h r"
  by (simp add: ref_inv_def journal_prefix_def entryOf_def)

lemma evolves_ref_put:
  assumes "jinv K par v \<Longrightarrow> ref_inv K par v h r'"
    and "\<And>r xs. mv_refs v h = Some r \<Longrightarrow> chain (mv_events v) par (rf_Head r) xs \<Longrightarrow>
      \<exists>ys. chain (mv_events v) par (rf_Head r') (xs @ ys)"
  shows "evolves K par v (v\<lparr>mv_refs := (mv_refs v)(h \<mapsto> r')\<rparr>)"
proof (rule evolvesI)
  assume inv: "jinv K par v"
  show "jinv K par (v\<lparr>mv_refs := (mv_refs v)(h \<mapsto> r')\<rparr>)"
    using assms(1) [OF inv] jinv_event [OF inv] jinv_no_ref [OF inv] jinv_ref [OF inv]
    by (intro jinvI) (auto split: if_splits)
next
  fix h1 r xs
  assume "mv_refs v h1 = Some r" and "chain (mv_events (v\<lparr>mv_refs := (mv_refs v)(h \<mapsto> r')\<rparr>)) par (rf_Head r) xs"
  then show "\<exists>r'' ys. mv_refs (v\<lparr>mv_refs := (mv_refs v)(h \<mapsto> r')\<rparr>) h1 = Some r'' \<and>
      chain (mv_events (v\<lparr>mv_refs := (mv_refs v)(h \<mapsto> r')\<rparr>)) par (rf_Head r'') (xs @ ys)"
    using assms(2) [of r xs] by (cases "h1 = h") (auto intro: exI [of _ "[]"])
qed simp_all

lemma journal_prefix_0: "jinv K par v \<Longrightarrow> mv_refs v h = None \<Longrightarrow> journal_prefix v h xs 0"
  by (simp add: journal_prefix_def jinv_no_ref)

lemma evolves_new_ref:
  assumes "mv_refs v h = None" and "chain (mv_events v) par (rf_Head r) xs" and "rf_Head r \<noteq> 0"
    and "rf_Id r = h" and "rf_Epoch r = 0" and "rf_Tail r = 0" and "rf_Serial r = 0"
    and "K h (mv_events v) xs"
  shows "evolves K par v (v\<lparr>mv_refs := (mv_refs v)(h \<mapsto> r)\<rparr>)"
  using assms by (intro evolves_ref_put) (auto simp: ref_inv_def intro: journal_prefix_0)

lemma journal_prefix_append: "n \<le> length xs \<Longrightarrow> journal_prefix v h xs n \<Longrightarrow> distinct (xs @ ys) \<Longrightarrow> journal_prefix v h (xs @ ys) n"
proof -
  assume n: "n \<le> length xs" and p: "journal_prefix v h xs n" and d: "distinct (xs @ ys)"
  have tw: "takeWhile (\<lambda>x. x \<noteq> e) (xs @ ys) = takeWhile (\<lambda>x. x \<noteq> e) xs" if "e \<in> set (take n xs)" for e
    using takeWhile_append1 [of e xs "\<lambda>x. x \<noteq> e" ys] in_set_takeD [OF that] by simp
  have tk: "take n (xs @ ys) = take n xs" using n by simp
  show ?thesis
    unfolding journal_prefix_def tk
  proof
    fix e
    show "mv_journal v (Pack h e) = (if e \<in> set (take n xs)
        then Some (entryOf v h e (length (takeWhile (\<lambda>x. x \<noteq> e) (xs @ ys)))) else None)"
      using p unfolding journal_prefix_def by (cases "e \<in> set (take n xs)") (simp_all only: tw if_True if_False)
  qed
qed

lemma evolves_move_head:
  assumes r: "mv_refs v h = Some r" and c: "chain (mv_events v) par (rf_Head r) xs"
    and c': "chain (mv_events v) par hd' (xs @ ys)" and "hd' \<noteq> 0" and K: "K h (mv_events v) (xs @ ys)"
  shows "evolves K par v (v\<lparr>mv_refs := (mv_refs v)(h \<mapsto> r\<lparr>rf_Head := hd', rf_Serial := 0, rf_Phase := ph\<rparr>)\<rparr>)"
proof (rule evolves_ref_put)
  assume inv: "jinv K par v"
  obtain zs n where "chain (mv_events v) par (rf_Head r) zs" "n \<le> length zs" "journal_prefix v h zs n"
    using ref_invE [OF jinv_ref [OF inv r]] by metis
  then have n: "n \<le> length xs" "journal_prefix v h xs n" using chain_det [OF c] by auto
  then show "ref_inv K par v h (r\<lparr>rf_Head := hd', rf_Serial := 0, rf_Phase := ph\<rparr>)"
    using jinv_ref [OF inv r] assms(4) c' K journal_prefix_append [OF n chain_distinct [OF c']]
    by (auto simp: ref_inv_def intro!: exI [of _ "xs @ ys"] exI [of _ n])
next
  fix r1 zs assume "mv_refs v h = Some r1" "chain (mv_events v) par (rf_Head r1) zs"
  then have "zs = xs" using r c chain_det by auto
  then show "\<exists>ys. chain (mv_events v) par (rf_Head (r\<lparr>rf_Head := hd', rf_Serial := 0, rf_Phase := ph\<rparr>)) (zs @ ys)"
    using c' by auto
qed

lemma evolves_set_serial:
  assumes r: "mv_refs v h = Some r" and c: "chain (mv_events v) par (rf_Head r) xs"
    and j: "journaled v h xs (length xs)"
  shows "evolves K par v (v\<lparr>mv_refs := (mv_refs v)(h \<mapsto> r\<lparr>rf_Serial := int (length xs)\<rparr>)\<rparr>)"
proof (rule evolves_ref_put)
  assume inv: "jinv K par v"
  obtain zs n where "chain (mv_events v) par (rf_Head r) zs" "K h (mv_events v) zs" "n \<le> length zs" "journal_prefix v h zs n"
    using ref_invE [OF jinv_ref [OF inv r]] by metis
  then have n: "n \<le> length xs" "journal_prefix v h xs n" "K h (mv_events v) xs" using chain_det [OF c] by auto
  have "n = length xs"
  proof (rule ccontr)
    assume "n \<noteq> length xs"
    then have l: "n < length xs" using n(1) by simp
    then have "mv_journal v (Pack h (xs ! n)) = None"
      using journal_prefix_nth [OF n(2) chain_distinct [OF c] l] by simp
    then show False using j l unfolding journaled_def by blast
  qed
  then show "ref_inv K par v h (r\<lparr>rf_Serial := int (length xs)\<rparr>)"
    using jinv_ref [OF inv r] c n by (auto simp: ref_inv_def)
qed (use r in \<open>auto intro: exI [of _ "[]"]\<close>)

lemma evolves_set_phase:
  assumes r: "mv_refs v h = Some r"
  shows "evolves K par v (v\<lparr>mv_refs := (mv_refs v)(h \<mapsto> r\<lparr>rf_Phase := ph, rf_Dtime := t\<rparr>)\<rparr>)"
  using assms
  by (intro evolves_ref_put) (auto dest: jinv_ref simp: ref_inv_def intro: exI [of _ "[]"])

text \<open>A history with its chain; it is empty when the history is missing or inactive.\<close>

definition snapshot :: "(byte list \<Rightarrow> ulid option) \<Rightarrow> MongoView \<Rightarrow> uuid \<Rightarrow> ulid list \<Rightarrow> bool" where
  "snapshot par v h xs \<longleftrightarrow>
     (case mv_refs v h of
        None \<Rightarrow> xs = []
      | Some r \<Rightarrow>
          if IsInactive (phaseOf r) then xs = []
          else xs \<noteq> [] \<and> chain (mv_events v) par (rf_Head r) xs)"

section \<open>Total correctness of the operations\<close>

text \<open>
  Postcondition of an operation: the database has evolved; the operation returned a result that satisfies \<open>Q\<close> or
  an error that satisfies \<open>EP\<close>; it did not panic.
\<close>

fun jpost ::
  "hist_pred \<Rightarrow> (byte list \<Rightarrow> ulid option) \<Rightarrow> MongoView \<Rightarrow> (EventsError \<Rightarrow> bool) \<Rightarrow> ('a \<Rightarrow> MongoView \<Rightarrow> bool) \<Rightarrow>
   (EventsError, 'a) outcome \<Rightarrow> MongoView \<Rightarrow> bool" where
  "jpost K par v EP Q (Ok a) v' \<longleftrightarrow> evolves K par v v' \<and> Q a v'"
| "jpost K par v EP Q (Err e) v' \<longleftrightarrow> evolves K par v v' \<and> EP e"
| "jpost K par v EP Q (Panic p) v' \<longleftrightarrow> False"

fun isDBError :: "EventsError \<Rightarrow> bool" where
  "isDBError (DBError opr e) = True"
| "isDBError _ = False"

locale journal_db = mongo m view rely
  for m :: "'db Mongo" and view :: "'db \<Rightarrow> MongoView" and rely :: "MongoView \<Rightarrow> MongoView \<Rightarrow> bool" +
  fixes dp :: decode_parent and ub :: ulid_unmarshal and K :: hist_pred
  assumes rely_evolves: "rely v v' \<Longrightarrow> evolves K (docParent dp ub) v v'"
    and K_mono: "mono_hist K"
begin

abbreviation par :: "byte list \<Rightarrow> ulid option" where "par \<equiv> docParent dp ub"

lemma jpost_from:
  assumes "evolves K par v v1" and "triple view v1 prog (jpost K par v1 EP Q)"
  shows "triple view v1 prog (jpost K par v EP Q)"
proof (rule triple_conseq [OF assms(2)])
  fix r v' assume "jpost K par v1 EP Q r v'"
  then show "jpost K par v EP Q r v'" using evolves_trans [OF assms(1)] by (cases r) auto
qed

lemma triple_dbind_jpost:
  assumes "evolves K par v v1" and "triple view v1 x (jpost K par v1 EP R)"
    and "\<And>a v2. evolves K par v1 v2 \<Longrightarrow> R a v2 \<Longrightarrow> triple view v2 (f a) (jpost K par v EP Q)"
  shows "triple view v1 (dbind x f) (jpost K par v EP Q)"
  by (rule triple_dbind [OF assms(2)]) (use assms(3) evolves_trans [OF assms(1)] in auto)

lemma triple_findSerial:
  assumes t: "tracks K par v h xs" and i: "i < length xs"
  shows "triple view v (findSerial m h (xs ! i))
    (jpost K par v isDBError (\<lambda>f v'. f = None \<or> f = Some (int i + 1) \<and> journaled v' h xs (Suc i)))"
  unfolding findSerial_def
proof (rule triple_JournalFind, goal_cases)
  case (1 r v1)
  note rely = 1(1) and f = 1(2)
  have ev: "evolves K par v v1" using rely_evolves [OF rely] .
  show ?case
  proof (cases r)
    case (Inl e)
    then show ?thesis using ev by (cases e) (auto intro: triple_ret)
  next
    case (Inr d)
    from tracks_evolves [OF t ev] obtain n where
      ent: "\<And>i. i < length xs \<Longrightarrow>
         mv_journal v1 (Pack h (xs ! i)) = (if i < n then Some (entryOf v1 h (xs ! i) i) else None)"
      by (rule tracksE) blast
    then have "i < n" "jd_Serial d = int i + 1"
      using f Inr i by (auto simp: entryOf_def split: if_splits)
    moreover have "journaled v1 h xs (Suc i)"
      using ent i \<open>i < n\<close> by (auto simp: journaled_def)
    ultimately show ?thesis using ev Inr by (auto intro!: triple_ret)
  qed
qed

lemma triple_ensureJournalEntry:
  assumes t: "tracks K par v h xs" and k: "k < length xs" and j: "journaled v h xs k"
    and d: "mv_events v (xs ! k) = Some d"
  shows "triple view v (ensureJournalEntry m h (int k + 1) d)
    (jpost K par v isDBError (\<lambda>_ v'. journaled v' h xs (Suc k)))"
  unfolding ensureJournalEntry_def Let_def
proof (rule triple_JournalInsert, goal_cases)
  let ?want = "\<lparr>jd_Id = Pack h (ed_Id d), jd_Serial = int k + 1, jd_Protobuf = ed_Protobuf d\<rparr>"
  case (1 r v1 J)
  then have rely: "rely v v1" and ins: "insert_post (mv_journal v1) (Pack h (ed_Id d)) ?want r J"
    by simp_all
  have ev: "evolves K par v v1" using rely_evolves [OF rely] .
  note t1 = tracks_evolves [OF t ev] and j1 = journaled_evolves [OF j ev] and d1 = events_evolves [OF d ev]
  have id: "ed_Id d = xs ! k" using t1 d1 by (auto simp: tracks_def dest: jinv_event)
  have want: "?want = entryOf v1 h (xs ! k) k" using d1 id by (simp add: entryOf_def)
  have new: "evolves K par v1 (v1\<lparr>mv_journal := (mv_journal v1)(Pack h (xs ! k) \<mapsto> ?want)\<rparr>)"
    if "mv_journal v1 (Pack h (xs ! k)) = None"
    unfolding want by (rule evolves_journal_entry [OF t1 k j1 that K_mono])
  have ev2: "evolves K par v (v1\<lparr>mv_journal := J\<rparr>)" and ok: "r = Inr () \<Longrightarrow> journaled (v1\<lparr>mv_journal := J\<rparr>) h xs (Suc k)"
    using ins new evolves_trans [OF ev] ev j1 unfolding id
    by (cases rule: insert_post.cases [of "(mv_journal v1, Pack h (xs ! k), ?want, r, J)"];
        auto simp: journaled_def less_Suc_eq)+
  show ?case
  proof (cases r)
    case (Inr u)
    then show ?thesis using ev2 ok by (auto intro!: triple_ret)
  next
    case (Inl e)
    show ?thesis
    proof (cases "IsDup e")
      case True
      show ?thesis
        using True Inl
      proof (simp, intro triple_JournalFind, goal_cases)
        case (1 q v2)
        then have ev3: "evolves K par v v2" using evolves_trans [OF ev2 rely_evolves] by blast
        obtain n where ent: "\<And>i. i < length xs \<Longrightarrow>
             mv_journal v2 (Pack h (xs ! i)) = (if i < n then Some (entryOf v2 h (xs ! i) i) else None)"
          using tracks_evolves [OF t ev3] by (rule tracksE) blast
        have "q = Inr got \<Longrightarrow> got = entryOf v2 h (xs ! k) k \<and> journaled v2 h xs (Suc k)" for got
          using ent k 1 id by (auto simp: journaled_def split: if_splits)
        then show ?case
          using ev3 events_evolves [OF d ev3]
          by (cases q) (auto simp: entryOf_def intro!: triple_ret)
      qed
    qed (use Inl ev2 in \<open>auto intro!: triple_ret\<close>)
  qed
qed

text \<open>The walk ends, at the latest at the epoch, with the events that are not in the journal.\<close>

abbreviation docs :: "MongoView \<Rightarrow> ulid list \<Rightarrow> EventDoc list" where
  "docs v xs \<equiv> map (\<lambda>e. the (mv_events v e)) xs"

lemma docs_evolves:
  assumes "chain (mv_events v) par e xs" and "evolves K par v v'" and "set ys \<subseteq> set xs"
  shows "docs v' ys = docs v ys"
proof (rule map_cong [OF refl])
  fix x assume "x \<in> set ys"
  then have "x \<in> set xs" using assms(3) by blast
  then obtain d where "mv_events v x = Some d" using chain_doc [OF assms(1)] by (metis in_set_conv_nth)
  then show "the (mv_events v' x) = the (mv_events v x)" using events_evolves [OF _ assms(2)] by fastforce
qed

lemma tracks_chain: "tracks K par v h xs \<Longrightarrow> xs \<noteq> [] \<Longrightarrow> chain (mv_events v) par (last xs) xs"
  unfolding tracks_def using chain_append_take by blast

lemma parent_docParent:
  "docParent dp ub b = Some p \<Longrightarrow> \<exists>x. dp b = Inr x \<and> ParseBytes ub x = Inr p"
  by (auto simp: docParent_def split: sum.splits)

lemma triple_walkParents:
  assumes "tracks K par v h xs" and "xs \<noteq> []" and "i \<le> length xs"
  shows "triple view v (walkParents m dp ub h 0 (if i = 0 then 0 else xs ! (i - 1)) (docs v (rev (drop i xs))))
    (jpost K par v isDBError (\<lambda>(s, evs) v'. \<exists>k \<le> length xs. s = int k \<and> evs = docs v (rev (drop k xs)) \<and>
       journaled v' h xs k))"
  using assms(1,3)
proof (induction i arbitrary: v)
  case 0
  then show ?case by (subst walkParents_step) (auto simp: journaled_def intro!: triple_ret)
next
  case (Suc i)
  let ?Q = "\<lambda>v (s, evs) v'. \<exists>k \<le> length xs. s = int k \<and> evs = docs v (rev (drop k xs)) \<and> journaled v' h xs k"
  have i: "i < length xs" using Suc.prems by simp
  have c: "chain (mv_events v) par (last xs) xs" by (rule tracks_chain [OF Suc.prems(1) assms(2)])
  have ne: "xs ! i \<noteq> 0" using chain_nonzero [OF c] i by simp
  have "triple view v (walkParents m dp ub h 0 (xs ! i) (docs v (rev (drop (Suc i) xs))))
      (jpost K par v isDBError (?Q v))"
  proof (subst walkParents_step, simp only: ne if_False simp_thms,
      rule triple_dbind [OF triple_findSerial [OF Suc.prems(1) i]], goal_cases)
    case (1 found v1)
    then have ev: "evolves K par v v1" by simp
    show ?case
    proof (cases found)
      case None
      show ?thesis unfolding None option.case
      proof (rule triple_EventsFind, goal_cases)
        case (1 q v2)
        have ev2: "evolves K par v v2" using evolves_trans [OF ev rely_evolves [OF 1(1)]] .
        obtain d where d: "mv_events v (xs ! i) = Some d"
          and p: "docParent dp ub (ed_Protobuf d) = Some (if i = 0 then 0 else xs ! (i - 1))"
          using chain_doc [OF c i] by blast
        have q: "q = Inr ev \<Longrightarrow> ev = d" for ev using 1(2) events_evolves [OF d ev2] by auto
        obtain x where x: "dp (ed_Protobuf d) = Inr x" "ParseBytes ub x = Inr (if i = 0 then 0 else xs ! (i - 1))"
          using parent_docParent [OF p] by blast
        have docs: "docs v2 (rev (drop k xs)) = docs v (rev (drop k xs))" for k
          by (rule docs_evolves [OF c ev2]) (simp add: set_drop_subset)
        have acc: "docs v (rev (drop i xs)) = docs v (rev (drop (Suc i) xs)) @ [d]"
          using d i by (simp add: Cons_nth_drop_Suc [symmetric])
        have "triple view v2 (walkParents m dp ub h 0 (if i = 0 then 0 else xs ! (i - 1))
              (docs v (rev (drop i xs)))) (jpost K par v isDBError (?Q v))"
          using jpost_from [OF ev2 Suc.IH [OF tracks_evolves [OF Suc.prems(1) ev2] less_imp_le [OF i]]]
          unfolding docs .
        then show ?case using q x ev2 unfolding acc by (cases q) (auto intro!: triple_ret)
      qed
    qed (use 1 i in \<open>auto intro!: triple_ret exI [of _ "Suc i"]\<close>)
  qed simp_all
  then show ?case by simp
qed

lemma triple_insertEntries:
  assumes "tracks K par v h xs" and "xs \<noteq> []" and "journaled v h xs k" and "k \<le> length xs"
  shows "triple view v (insertEntries m h (int k) (docs v (drop k xs)))
    (jpost K par v isDBError (\<lambda>s v'. s = int (length xs) \<and> journaled v' h xs (length xs)))"
  using assms(1,3,4)
proof (induction "length xs - k" arbitrary: v k)
  case 0
  then show ?case by (auto intro!: triple_ret)
next
  case (Suc n)
  then have k: "k < length xs" by simp
  have c: "chain (mv_events v) par (last xs) xs" by (rule tracks_chain [OF Suc.prems(1) assms(2)])
  obtain d where d: "mv_events v (xs ! k) = Some d" using chain_doc [OF c k] by blast
  have split: "docs v (drop k xs) = d # docs v (drop (Suc k) xs)"
    using d k by (simp add: Cons_nth_drop_Suc [symmetric])
  show ?case unfolding split insertEntries.simps
  proof (rule triple_dbind [OF triple_ensureJournalEntry [OF Suc.prems(1) k Suc.prems(2) d]], goal_cases)
    case (1 u v1)
    then have ev: "evolves K par v v1" and j: "journaled v1 h xs (Suc k)" by simp_all
    have docs: "docs v1 (drop (Suc k) xs) = docs v (drop (Suc k) xs)"
      by (rule docs_evolves [OF c ev set_drop_subset])
    have "n = length xs - Suc k" "Suc k \<le> length xs" "int (Suc k) = int k + 1"
      using k Suc.hyps(2) by simp_all
    then show ?case
      using jpost_from [OF ev Suc.hyps(1) [OF _ tracks_evolves [OF Suc.prems(1) ev] j]]
      unfolding docs by (simp add: add.commute)
  qed simp_all
qed

text \<open>
  \<open>ensureJournal()\<close> takes a snapshot \<open>v0\<close> of the history: it is missing or inactive, or its chain is
  \<open>xs\<close>, and then all of it is in the journal.
\<close>

definition fully_journaled :: "uuid \<Rightarrow> MongoView \<Rightarrow> int \<times> ulid \<Rightarrow> MongoView \<Rightarrow> bool" where
  "fully_journaled h v = (\<lambda>(s, epoch) v'. epoch = 0 \<and>
     (\<exists>v0 xs. evolves K par v v0 \<and> evolves K par v0 v' \<and> snapshot par v0 h xs \<and> s = int (length xs) \<and>
        (xs \<noteq> [] \<longrightarrow> tracks K par v' h xs \<and> journaled v' h xs (length xs))))"

lemma triple_setSerial:
  assumes ev0: "evolves K par v v0" and ev1: "evolves K par v0 v1" and t: "tracks K par v1 h xs"
    and j: "journaled v1 h xs (length xs)" and ne: "xs \<noteq> []" and snap: "snapshot par v0 h xs"
    and r: "rf_Head refs = last xs" "rf_Epoch refs = 0"
  shows "triple view v1
    (call (RefsUpdate m h (\<lambda>x. rf_Head x = rf_Head refs \<and> selActive x) (\<lambda>_ x. x\<lparr>rf_Serial := int (length xs)\<rparr>))
       (\<lambda>u. case u of
          Inl ErrNotFound \<Rightarrow> ret (Ok (int (length xs), rf_Epoch refs))
        | Inl e \<Rightarrow> ret (Err (DBError OpUpdateHeadSerial e))
        | Inr _ \<Rightarrow> ret (Ok (int (length xs), rf_Epoch refs))))
    (jpost K par v isDBError (fully_journaled h v))"
proof (rule triple_RefsUpdate, goal_cases)
  case (1 u v2 R)
  let ?v3 = "v2\<lparr>mv_refs := R\<rparr>"
  have ev2: "evolves K par v1 v2" using rely_evolves [OF 1(1)] .
  note t2 = tracks_evolves [OF t ev2] and j2 = journaled_evolves [OF j ev2]
  have c: "chain (mv_events v2) par (last xs) xs" by (rule tracks_chain [OF t2 ne])
  have "R = mv_refs v2 \<or> (\<exists>x. mv_refs v2 h = Some x \<and> rf_Head x = last xs \<and>
      R = (mv_refs v2)(h \<mapsto> x\<lparr>rf_Serial := int (length xs)\<rparr>))"
    using 1(2) r(1) by (cases u; cases "case u of Inl e \<Rightarrow> e | Inr _ \<Rightarrow> ErrNotFound") (auto simp: updated_def)
  then have "evolves K par v2 ?v3"
    using evolves_set_serial [OF _ _ j2] c by auto
  then have ev3: "evolves K par v1 ?v3" using evolves_trans [OF ev2] by blast
  note ev = evolves_trans [OF ev1 ev3]
  have "fully_journaled h v (int (length xs), 0) ?v3"
    unfolding fully_journaled_def using ev0 ev snap tracks_evolves [OF t ev3] journaled_evolves [OF j ev3]
    by blast
  then show ?case using evolves_trans [OF ev0 ev] r(2)
    by (cases u; cases "case u of Inl e \<Rightarrow> e | Inr _ \<Rightarrow> ErrNotFound") (auto intro!: triple_ret)
qed

lemma snapshot_tracks:
  assumes "jinv K par v" and "mv_refs v h = Some r" and "\<not> IsInactive (phaseOf r)"
  obtains xs where "snapshot par v h xs" "tracks K par v h xs" "xs \<noteq> []" "last xs = rf_Head r"
    "rf_Serial r \<noteq> 0 \<longrightarrow> rf_Serial r = int (length xs) \<and> journaled v h xs (length xs)"
proof -
  note inv = jinv_ref [OF assms(1,2)]
  obtain xs n where c: "chain (mv_events v) par (rf_Head r) xs" and "K h (mv_events v) xs"
    and n: "n \<le> length xs" "journal_prefix v h xs n"
    "rf_Serial r \<noteq> 0 \<longrightarrow> n = length xs \<and> rf_Serial r = int n"
    using ref_invE [OF inv] .
  have ne: "xs \<noteq> []" using c inv by (auto simp: ref_inv_def)
  have "tracks K par v h xs" using assms(1,2) c unfolding tracks_def by (metis append_Nil2)
  moreover have "rf_Serial r \<noteq> 0 \<Longrightarrow> journaled v h xs (length xs)"
    using n journal_prefix_nth [OF n(2) chain_distinct [OF c]] by (simp add: journaled_def)
  moreover have "snapshot par v h xs" using assms ne c by (simp add: snapshot_def)
  moreover have "rf_Serial r \<noteq> 0 \<Longrightarrow> rf_Serial r = int (length xs)" using n(3) by simp
  ultimately show thesis using that [of xs] ne chain_last [OF c ne] by blast
qed

lemma triple_ensureJournal:
  assumes inv: "jinv K par v"
  shows "triple view v (ensureJournal m dp ub h) (jpost K par v isDBError (fully_journaled h v))"
  unfolding ensureJournal_def
proof (rule triple_RefsFind, goal_cases)
  case (1 r v0)
  have ev0: "evolves K par v v0" using rely_evolves [OF 1(1)] .
  note inv0 = evolves_jinv [OF ev0 inv]
  have none: "fully_journaled h v (0, 0) v0" if "snapshot par v0 h []"
    using that ev0 unfolding fully_journaled_def by (auto intro!: exI [of _ v0] exI [of _ "[]"])
  show ?case
  proof (cases r)
    case (Inl e)
    then show ?thesis using 1(2) ev0 none by (cases e) (auto simp: snapshot_def intro!: triple_ret)
  next
    case (Inr refs)
    then have refs: "mv_refs v0 h = Some refs" using 1(2) by simp
    have epoch: "rf_Epoch refs = 0" "rf_Tail refs = 0"
      using jinv_ref [OF inv0 refs] by (simp_all add: ref_inv_def)
    show ?thesis
    proof (cases "IsInactive (phaseOf refs)")
      case True
      then show ?thesis using Inr refs ev0 none by (auto simp: snapshot_def intro!: triple_ret)
    next
      case False
      obtain xs where snap: "snapshot par v0 h xs" and t: "tracks K par v0 h xs" and ne: "xs \<noteq> []"
        and hd: "last xs = rf_Head refs"
        and ser: "rf_Serial refs \<noteq> 0 \<longrightarrow> rf_Serial refs = int (length xs) \<and> journaled v0 h xs (length xs)"
        using snapshot_tracks [OF inv0 refs False] .
      show ?thesis
      proof (cases "rf_Serial refs = 0")
        case False
        then have "fully_journaled h v (rf_Serial refs, 0) v0"
          using snap t ser ev0 unfolding fully_journaled_def by auto
        then show ?thesis using Inr False \<open>\<not> IsInactive (phaseOf refs)\<close> ev0 epoch by (auto intro!: triple_ret)
      next
        case True
        let ?i = "length xs"
        have w: "triple view v0 (walkParents m dp ub h 0 (rf_Head refs) [])
           (jpost K par v0 isDBError (\<lambda>(s, evs) v'. \<exists>k \<le> length xs. s = int k \<and>
              evs = docs v0 (rev (drop k xs)) \<and> journaled v' h xs k))"
          using triple_walkParents [OF t ne order.refl] ne hd by (simp add: last_conv_nth)
        have "triple view v0
          (dbind (walkParents m dp ub h 0 (rf_Head refs) []) (\<lambda>(start, events).
           dbind (insertEntries m h start (rev events)) (\<lambda>serial.
             call (RefsUpdate m h (\<lambda>x. rf_Head x = rf_Head refs \<and> selActive x)
                 (\<lambda>_ x. x\<lparr>rf_Serial := serial\<rparr>)) (\<lambda>u. case u of
               Inl ErrNotFound \<Rightarrow> ret (Ok (serial, rf_Epoch refs))
             | Inl e \<Rightarrow> ret (Err (DBError OpUpdateHeadSerial e))
             | Inr _ \<Rightarrow> ret (Ok (serial, rf_Epoch refs))))))
          (jpost K par v isDBError (fully_journaled h v))"
        proof (rule triple_dbind_jpost [OF ev0 w], goal_cases)
          case (1 a v1)
          then obtain k where a: "a = (int k, docs v0 (rev (drop k xs)))" and k: "k \<le> length xs"
            and j: "journaled v1 h xs k" and ev1: "evolves K par v0 v1" by (cases a) auto
          note t1 = tracks_evolves [OF t ev1]
          have docs: "docs v1 (drop k xs) = docs v0 (drop k xs)"
            by (rule docs_evolves [OF tracks_chain [OF t ne] ev1 set_drop_subset])
          have ins: "triple view v1 (insertEntries m h (int k) (docs v0 (drop k xs)))
              (jpost K par v1 isDBError (\<lambda>s v'. s = int (length xs) \<and> journaled v' h xs (length xs)))"
            using triple_insertEntries [OF t1 ne j k] unfolding docs .
          show ?case unfolding a prod.case rev_map rev_rev_ident
          proof (rule triple_dbind_jpost [OF evolves_trans [OF ev0 ev1] ins], goal_cases)
            case (1 s v2)
            then have ev2: "evolves K par v1 v2" and s: "s = int (length xs)" and j2: "journaled v2 h xs (length xs)"
              by simp_all
            show ?case unfolding s
              by (rule triple_setSerial [OF ev0 evolves_trans [OF ev1 ev2] tracks_evolves [OF t1 ev2] j2 ne snap])
                (use hd epoch in simp_all)
          qed
        qed
        then show ?thesis
          by (simp only: Inr sum.case True \<open>\<not> IsInactive (phaseOf refs)\<close> epoch(2) simp_thms if_False)
      qed
    qed
  qed
qed

lemma scan_entries:
  assumes t: "tracks K par v h xs" and j: "journaled v h xs (length xs)"
    and p: "\<And>s. 0 < s \<Longrightarrow> p s \<longleftrightarrow> int k < s \<and> s \<le> int (length xs)"
    and scan: "scan_all (mv_journal v) (RangeMin h) (RangeMax h) p ds"
  shows "ds = map (\<lambda>i. entryOf v h (xs ! i) i) [k..<length xs]"
proof (rule map_sorted_distinct_set_unique [where f = jd_Serial])
  from t obtain ys n where d: "distinct (xs @ ys)" and n: "n \<le> length (xs @ ys)" "journal_prefix v h (xs @ ys) n"
    by (rule tracksE) (metis chain_distinct)
  note ent = journal_prefix_nth [OF n(2) d]
  have range: "RangeMin h \<le> Pack u l \<and> Pack u l \<le> RangeMax h \<longleftrightarrow> u = h" for u l
    using RangeMinMax_Pack_iff [of h u l] by (simp add: RangeMinMax_def)
  have len: "length xs \<le> n"
  proof (rule ccontr)
    assume "\<not> length xs \<le> n"
    then have "mv_journal v (Pack h (xs ! n)) = None" using ent [of n] by (simp add: nth_append)
    then show False using j \<open>\<not> length xs \<le> n\<close> unfolding journaled_def by (meson not_le)
  qed
  note entry = journal_prefix_entry [OF n(2) d n(1)]
  have key: "(\<exists>q. mv_journal v q = Some x \<and> RangeMin h \<le> q \<and> q \<le> RangeMax h \<and> p (jd_Serial x)) \<longleftrightarrow>
      (\<exists>l. mv_journal v (Pack h l) = Some x \<and> p (jd_Serial x))" for x
  proof
    assume "\<exists>q. mv_journal v q = Some x \<and> RangeMin h \<le> q \<and> q \<le> RangeMax h \<and> p (jd_Serial x)"
    then obtain q where q: "mv_journal v q = Some x" "RangeMin h \<le> q \<and> q \<le> RangeMax h" "p (jd_Serial x)" by blast
    obtain u l where ul: "q = Pack u l" by (rule Pack_surj)
    then have "u = h" using q(2) range by simp
    then show "\<exists>l. mv_journal v (Pack h l) = Some x \<and> p (jd_Serial x)" using q ul by blast
  qed (use range in blast)
  have "set ds = {x. \<exists>l. mv_journal v (Pack h l) = Some x \<and> p (jd_Serial x)}"
    using scan unfolding scan_all_def by (simp only: key)
  also have "\<dots> = {x. \<exists>i < n. x = entryOf v h ((xs @ ys) ! i) i \<and> p (int i + 1)}"
    using entry by (auto simp: entryOf_def)
  also have "\<dots> = {x. \<exists>i. k \<le> i \<and> i < length xs \<and> x = entryOf v h ((xs @ ys) ! i) i}"
  proof -
    have "i < n \<and> p (int i + 1) \<longleftrightarrow> k \<le> i \<and> i < length xs" for i
      using p [of "int i + 1"] len by auto
    then show ?thesis by blast
  qed
  finally show set: "set ds = set (map (\<lambda>i. entryOf v h (xs ! i) i) [k..<length xs])"
    by (auto simp: nth_append)
  show "inj_on jd_Serial (set ds \<union> set (map (\<lambda>i. entryOf v h (xs ! i) i) [k..<length xs]))"
    unfolding set by (auto simp: inj_on_def entryOf_def)
  show "sorted (map jd_Serial ds)" using scan by (simp add: scan_all_def)
  have "inj_on jd_Serial (set ds)" unfolding set by (auto simp: inj_on_def entryOf_def)
  then show "distinct (map jd_Serial ds)" using scan by (simp add: scan_all_def distinct_map)
qed (auto simp: entryOf_def sorted_iff_nth_mono distinct_map inj_on_def)

text \<open>
  What an iterator yields.  The snapshot \<open>xs\<close> is the chain of the history at a point in time between the
  call and the return; the iterator yields all events of it after \<open>after\<close>, or it fails.
\<close>

definition after_pos :: "MongoView \<Rightarrow> uuid \<Rightarrow> ulid list \<Rightarrow> ulid \<Rightarrow> nat \<Rightarrow> bool" where
  "after_pos v h xs after k \<longleftrightarrow>
     (if k = 0 then after = 0
      else \<exists>ys. tracks K par v h (xs @ ys) \<and> k \<le> length (xs @ ys) \<and> (xs @ ys) ! (k - 1) = after)"

definition iter_yields :: "uuid \<Rightarrow> ulid \<Rightarrow> MongoView \<Rightarrow> Iter \<Rightarrow> MongoView \<Rightarrow> bool" where
  "iter_yields h after v it v' \<longleftrightarrow>
     (\<exists>v0 xs. evolves K par v v0 \<and> evolves K par v0 v' \<and> snapshot par v0 h xs \<and>
        (case it_err it of
           Some e \<Rightarrow> isDBError e \<and> it_mongo it = None
         | None \<Rightarrow>
             (case it_mongo it of
                None \<Rightarrow> xs = []
              | Some (ds, err) \<Rightarrow>
                  \<exists>k rest. after_pos v' h xs after k \<and> it_prev it = after \<and>
                    map jd_Protobuf ds @ rest = map ed_Protobuf (docs v' (drop k xs)) \<and>
                    (err = None \<longrightarrow> rest = []))))"

lemma entry_protobufs:
  "map jd_Protobuf (map (\<lambda>i. entryOf v h (xs ! i) i) [k..<length xs]) = map ed_Protobuf (docs v (drop k xs))"
proof -
  have "drop k xs = map (\<lambda>i. xs ! i) [k..<length xs]" by (auto intro: nth_equalityI)
  then show ?thesis by (simp add: entryOf_def o_def)
qed

lemma scan_yields:
  assumes t: "tracks K par v h xs" and j: "journaled v h xs (length xs)"
    and p: "\<And>s. 0 < s \<Longrightarrow> p s \<longleftrightarrow> int k < s \<and> s \<le> int (length xs)"
    and scan: "scan_post (mv_journal v) (RangeMin h) (RangeMax h) p (ds, err)"
  shows "\<exists>rest. map jd_Protobuf ds @ rest = map ed_Protobuf (docs v (drop k xs)) \<and> (err = None \<longrightarrow> rest = [])"
proof -
  obtain rs where rs: "scan_all (mv_journal v) (RangeMin h) (RangeMax h) p (ds @ rs)" "err = None \<longrightarrow> rs = []"
    using scan by (cases err) auto
  have "ds @ rs = map (\<lambda>i. entryOf v h (xs ! i) i) [k..<length xs]"
    by (rule scan_entries [OF t j _ rs(1)]) (rule p)
  then have "map jd_Protobuf (ds @ rs) = map ed_Protobuf (docs v (drop k xs))"
    by (simp only: entry_protobufs)
  with rs(2) show ?thesis by (intro exI [of _ "map jd_Protobuf rs"]) simp
qed

lemma iter_yields_start:
  assumes f: "fully_journaled h v (s, epoch) v1" and ne: "s \<noteq> 0" and ev: "evolves K par v1 v2"
  obtains v0 xs where "evolves K par v v0" "evolves K par v0 v2" "snapshot par v0 h xs" "s = int (length xs)"
    "tracks K par v2 h xs" "journaled v2 h xs (length xs)" "epoch = 0"
proof -
  obtain v0 xs where v0: "evolves K par v v0" "evolves K par v0 v1" "snapshot par v0 h xs" "s = int (length xs)"
    "xs \<noteq> [] \<longrightarrow> tracks K par v1 h xs \<and> journaled v1 h xs (length xs)" "epoch = 0"
    using f unfolding fully_journaled_def by auto
  then have "xs \<noteq> []" using ne by auto
  then have t: "tracks K par v1 h xs" and j: "journaled v1 h xs (length xs)" using v0(5) by simp_all
  show thesis
    by (rule that [OF v0(1) evolves_trans [OF v0(2) ev] v0(3,4) tracks_evolves [OF t ev]
          journaled_evolves [OF j ev] v0(6)])
qed

lemma after_pos_entry:
  assumes t: "tracks K par v h xs" and e: "mv_journal v (Pack h after) = Some d"
  obtains i where "after_pos v h xs after (Suc i)" "jd_Serial d = int i + 1"
proof -
  from t obtain r ys n where "mv_refs v h = Some r" and c: "chain (mv_events v) par (rf_Head r) (xs @ ys)"
    and n: "n \<le> length (xs @ ys)" "journal_prefix v h (xs @ ys) n" by (rule tracksE) blast
  then obtain i where i: "i < n" "after = (xs @ ys) ! i" "d = entryOf v h after i"
    using journal_prefix_entry [OF n(2) chain_distinct [OF c] n(1)] e by metis
  have "tracks K par v h (xs @ ys)" using t \<open>mv_refs v h = Some r\<close> c unfolding tracks_def by (metis append_Nil2)
  then have "after_pos v h xs after (Suc i)"
    using i n(1) unfolding after_pos_def by auto
  then show thesis using that [of i] i(3) by (simp add: entryOf_def)
qed

lemma triple_journalFind:
  assumes inv: "jinv K par v"
  shows "triple view v (journalFind m dp ub h after) (jpost K par v (\<lambda>_. False) (iter_yields h after v))"
  unfolding journalFind_def
proof (rule triple_dtry [OF triple_ensureJournal [OF inv]], goal_cases)
  case (1 a v1)
  obtain s epoch where a: "a = (s, epoch)" by fastforce
  have f: "fully_journaled h v (s, epoch) v1" and ev: "evolves K par v v1" using 1 a by simp_all
  show ?case
  proof (cases "s = 0")
    case True
    have "iter_yields h after v \<lparr>it_mongo = None, it_prev = 0, it_err = None\<rparr> v1"
      using f True unfolding fully_journaled_def iter_yields_def by auto
    then show ?thesis using ev True a by (auto intro!: triple_ret)
  next
    case False
    note start = iter_yields_start [OF f False]
    have "epoch = 0" by (rule start [OF evolves_refl])
    have yields: "iter_yields h after v \<lparr>it_mongo = Some it, it_prev = after, it_err = None\<rparr> v2 \<and> evolves K par v v2"
      if ev12: "evolves K par v1 v2" and scan: "scan_post (mv_journal v2) (RangeMin h) (RangeMax h) p it"
        and p: "\<And>q. 0 < q \<Longrightarrow> p q \<longleftrightarrow> int k < q \<and> q \<le> s"
        and pos: "\<And>xs. s = int (length xs) \<Longrightarrow> tracks K par v2 h xs \<Longrightarrow> after_pos v2 h xs after k"
      for v2 p it k
    proof -
      obtain v0 xs where v0: "evolves K par v v0" "evolves K par v0 v2" "snapshot par v0 h xs" "s = int (length xs)"
        "tracks K par v2 h xs" "journaled v2 h xs (length xs)"
        by (rule start [OF ev12])
      obtain ds err where it: "it = (ds, err)" by fastforce
      have "\<exists>rest. map jd_Protobuf ds @ rest = map ed_Protobuf (docs v2 (drop k xs)) \<and> (err = None \<longrightarrow> rest = [])"
        by (rule scan_yields [OF v0(5,6) _ scan [unfolded it]]) (use p v0(4) in simp)
      then show ?thesis
        using v0 it pos [OF v0(4,5)] evolves_trans [OF v0(1,2)] unfolding iter_yields_def by auto
    qed
    show ?thesis
    proof (cases "after = 0")
      case True
      have "triple view v1 (call (JournalScan m (RangeMin h) (RangeMax h) (\<lambda>q. q \<le> s)) (\<lambda>it.
            ret (Ok \<lparr>it_mongo = Some it, it_prev = after, it_err = None\<rparr>)))
          (jpost K par v (\<lambda>_. False) (iter_yields h after v))"
      proof (rule triple_JournalScan, goal_cases)
        case (1 it v2)
        show ?case
          using yields [OF rely_evolves [OF 1(1)] 1(2), of 0] True
          by (auto simp: after_pos_def intro!: triple_ret)
      qed
      then show ?thesis using a False True \<open>epoch = 0\<close> by (simp add: RangeMinMax_def)
    next
      case ne: False
      have "triple view v1 (call (JournalFind m (Pack h after)) (\<lambda>q. case q of
            Inl e \<Rightarrow> ret (Ok \<lparr>it_mongo = None, it_prev = 0, it_err = Some (DBError OpFindStart e)\<rparr>)
          | Inr afterD \<Rightarrow>
              call (JournalScan m (RangeMin h) (RangeMax h) (\<lambda>q. jd_Serial afterD < q \<and> q \<le> s)) (\<lambda>it.
                ret (Ok \<lparr>it_mongo = Some it, it_prev = after, it_err = None\<rparr>))))
          (jpost K par v (\<lambda>_. False) (iter_yields h after v))"
      proof (rule triple_JournalFind, goal_cases)
        case (1 q v2)
        note ev12 = rely_evolves [OF 1(1)]
        show ?case
        proof (cases q)
          case (Inl e)
          obtain v0 xs where v0: "evolves K par v v0" "evolves K par v0 v2" "snapshot par v0 h xs"
            by (rule start [OF ev12])
          then have "iter_yields h after v \<lparr>it_mongo = None, it_prev = 0, it_err = Some (DBError OpFindStart e)\<rparr> v2"
            unfolding iter_yields_def by auto
          then show ?thesis using Inl evolves_trans [OF v0(1,2)] by (auto intro!: triple_ret)
        next
          case (Inr d)
          then have d: "mv_journal v2 (Pack h after) = Some d" using 1(2) by simp
          obtain xs0 where "tracks K par v2 h xs0" by (rule start [OF ev12])
          then obtain i where i: "jd_Serial d = int i + 1" using after_pos_entry [OF _ d] by metis
          show ?thesis unfolding Inr sum.case
          proof (rule triple_JournalScan, goal_cases)
            case (1 it v3)
            note ev23 = rely_evolves [OF 1(1)]
            have pos: "after_pos v3 h xs after (Suc i)" if "tracks K par v3 h xs" for xs
              using after_pos_entry [OF that journal_evolves [OF d ev23]] i
              by (metis add_right_cancel of_nat_eq_iff)
            show ?case
              using yields [OF evolves_trans [OF ev12 ev23] 1(2), of "Suc i"] pos i
              by (auto simp: add.commute intro!: triple_ret)
          qed
        qed
      qed
      then show ?thesis using a False ne by (simp add: RangeMinMax_def)
    qed
  qed
next
  case (2 e v1)
  obtain xs where "snapshot par v1 h xs"
  proof (cases "mv_refs v1 h")
    case (Some r)
    then show thesis using that snapshot_tracks [OF evolves_jinv [of K par v v1] Some] 2 inv
      by (cases "IsInactive (phaseOf r)") (auto simp: snapshot_def)
  qed (use that in \<open>auto simp: snapshot_def\<close>)
  then have "iter_yields h after v \<lparr>it_mongo = None, it_prev = 0, it_err = Some e\<rparr> v1"
    using 2 unfolding iter_yields_def by auto
  then show ?case using 2 by (auto intro!: triple_ret)
qed simp

text \<open>The result of a full scan, without triples.\<close>

lemma tracks_nonzero: "tracks K par v h xs \<Longrightarrow> x \<in> set xs \<Longrightarrow> x \<noteq> 0"
  unfolding tracks_def by (metis Un_iff chain_nonzero set_append)

lemma Find_all_run:
  assumes "jinv K par (view db)"
  obtains it db' v0 xs where "journalFind m dp ub h EventEpoch db = Some (Ok it, db')"
    "evolves K par (view db) v0" "evolves K par v0 (view db')" "snapshot par v0 h xs"
    "case it_err it of
       Some e \<Rightarrow> isDBError e
     | None \<Rightarrow> (case it_mongo it of
         None \<Rightarrow> xs = []
       | Some (ds, err) \<Rightarrow> it_prev it = EventEpoch \<and>
           (\<exists>rest. map jd_Protobuf ds @ rest = map (\<lambda>e. ed_Protobuf (the (mv_events (view db') e))) xs \<and>
              (err = None \<longrightarrow> rest = [])))"
proof -
  from triple_run [OF triple_journalFind [OF assms, of h EventEpoch]] obtain r db' where
    run: "journalFind m dp ub h EventEpoch db = Some (r, db')"
    and post: "jpost K par (view db) (\<lambda>_. False) (iter_yields h EventEpoch (view db)) r (view db')" by blast
  then obtain it where r: "r = Ok it" and y: "iter_yields h EventEpoch (view db) it (view db')" by (cases r) auto
  have zero: "k = 0" if pos: "after_pos (view db') h xs EventEpoch k" for xs k
  proof (rule ccontr)
    assume "k \<noteq> 0"
    then obtain ys where "tracks K par (view db') h (xs @ ys)" "k \<le> length (xs @ ys)" "(xs @ ys) ! (k - 1) = 0"
      using pos unfolding after_pos_def by auto
    then show False using tracks_nonzero [of "view db'" h "xs @ ys" 0] \<open>k \<noteq> 0\<close>
      by (metis One_nat_def Suc_pred bot_nat_0.not_eq_extremum less_eq_Suc_le nth_mem)
  qed
  obtain v0 xs where v0: "evolves K par (view db) v0" "evolves K par v0 (view db')" "snapshot par v0 h xs"
    and c: "case it_err it of
           Some e \<Rightarrow> isDBError e \<and> it_mongo it = None
         | None \<Rightarrow>
             (case it_mongo it of
                None \<Rightarrow> xs = []
              | Some (ds, err) \<Rightarrow>
                  \<exists>k rest. after_pos (view db') h xs EventEpoch k \<and> it_prev it = EventEpoch \<and>
                    map jd_Protobuf ds @ rest = map ed_Protobuf (docs (view db') (drop k xs)) \<and>
                    (err = None \<longrightarrow> rest = []))"
    using y unfolding iter_yields_def by blast
  have "case it_err it of
       Some e \<Rightarrow> isDBError e
     | None \<Rightarrow> (case it_mongo it of
         None \<Rightarrow> xs = []
       | Some (ds, err) \<Rightarrow> it_prev it = EventEpoch \<and>
           (\<exists>rest. map jd_Protobuf ds @ rest = map (\<lambda>e. ed_Protobuf (the (mv_events (view db') e))) xs \<and>
              (err = None \<longrightarrow> rest = [])))"
  proof (cases "it_err it")
    case none: None
    show ?thesis
    proof (cases "it_mongo it")
      case (Some x)
      obtain ds err where x: "x = (ds, err)" by fastforce
      then obtain k rest where "after_pos (view db') h xs EventEpoch k" "it_prev it = EventEpoch"
        "map jd_Protobuf ds @ rest = map ed_Protobuf (docs (view db') (drop k xs))" "err = None \<longrightarrow> rest = []"
        using c none Some by auto
      moreover from this(1) have "k = 0" by (rule zero)
      ultimately show ?thesis using none Some x by (auto simp: o_def)
    qed (use c none in simp)
  qed (use c in simp)
  then show thesis using that run r v0 by blast
qed

end

section \<open>Commit\<close>

text \<open>An event is stored, with its encoding.\<close>

definition stored :: "'ev EventOps \<Rightarrow> MongoView \<Rightarrow> 'ev \<Rightarrow> bool" where
  "stored ops v ev \<longleftrightarrow> (\<exists>d. mv_events v (EvId ops ev) = Some d \<and> MarshalProto ops ev = Inr (ed_Protobuf d))"

text \<open>
  The point at which a commit becomes visible: in one step from \<open>v1\<close> to \<open>v2\<close>, the head of an active
  history whose chain is \<open>xs\<close> moves from the parent to the last event, so that the chain of the history is
  \<open>xs\<close> followed by the new events.
\<close>

definition commit_point ::
  "'ev EventOps \<Rightarrow> (byte list \<Rightarrow> ulid option) \<Rightarrow> uuid \<Rightarrow> ulid \<Rightarrow> 'ev list \<Rightarrow> ulid list \<Rightarrow>
   MongoView \<Rightarrow> MongoView \<Rightarrow> bool" where
  "commit_point ops par h parent evs xs v1 v2 \<longleftrightarrow>
     (case mv_refs v1 h of None \<Rightarrow> parent = 0 \<and> xs = [] | Some r \<Rightarrow> rf_Head r = parent \<and> selActive r) \<and>
     chain (mv_events v1) par parent xs \<and> (\<forall>ev \<in> set evs. stored ops v1 ev) \<and>
     (\<exists>r. v2 = v1\<lparr>mv_refs := (mv_refs v1)(h \<mapsto> r)\<rparr> \<and> rf_Phase r = Some PhaseActive \<and>
        chain (mv_events v2) par (rf_Head r) (xs @ map (EvId ops) evs))"

fun isCommitError :: "uuid \<Rightarrow> ulid \<Rightarrow> EventsError \<Rightarrow> bool" where
  "isCommitError h parent (DBError opr e) \<longleftrightarrow> True"
| "isCommitError h parent (InternalError opr e) \<longleftrightarrow> True"
| "isCommitError h parent (DuplicateEventMismatchError i) \<longleftrightarrow> True"
| "isCommitError h parent (UnknownHistoryError i) \<longleftrightarrow> i = h"
| "isCommitError h parent (VersionConflictError s e) \<longleftrightarrow> e = parent \<and> s \<noteq> 0"
| "isCommitError h parent _ \<longleftrightarrow> False"

lemma stored_evolves: "stored ops v ev \<Longrightarrow> evolves K par v v' \<Longrightarrow> stored ops v' ev"
  unfolding stored_def using events_evolves by blast

locale journal_codec = journal_db m view rely dp ub K + event_codec ops wf "docParent dp ub"
  for m :: "'db Mongo" and view rely dp ub K and ops :: "'ev EventOps" and wf
begin

text \<open>From \<open>v0\<close> on, the events extend any chain that ends with \<open>p\<close> to one of which \<open>K\<close> holds.\<close>

definition extends :: "MongoView \<Rightarrow> uuid \<Rightarrow> ulid \<Rightarrow> 'ev list \<Rightarrow> bool" where
  "extends v0 h p evs \<longleftrightarrow>
     (\<forall>v xs. evolves K par v0 v \<longrightarrow> chain (mv_events v) par p xs \<longrightarrow> (\<forall>ev \<in> set evs. stored ops v ev) \<longrightarrow>
        K h (mv_events v) (xs @ map (EvId ops) evs))"

lemma extendsD:
  assumes "extends v0 h p evs" and "evolves K par v0 v" and "chain (mv_events v) par p xs"
    and "\<forall>ev \<in> set evs. stored ops v ev"
  shows "K h (mv_events v) (xs @ map (EvId ops) evs)"
  using assms unfolding extends_def by blast

lemma chain_extend:
  assumes "chain (mv_events v) par p xs" and "chained ops p evs"
    and "\<forall>ev \<in> set evs. wf ev \<and> EvId ops ev \<noteq> 0 \<and> stored ops v ev"
  shows "chain (mv_events v) par (lastId ops p evs) (xs @ map (EvId ops) evs)"
  using assms
proof (induction evs arbitrary: p xs)
  case (Cons ev evs)
  obtain d where d: "mv_events v (EvId ops ev) = Some d" "MarshalProto ops ev = Inr (ed_Protobuf d)"
    using Cons.prems(3) by (auto simp: stored_def)
  then have "par (ed_Protobuf d) = Some p" using par_marshal [OF _ d(2)] Cons.prems(2,3) by simp
  then have "chain (mv_events v) par (EvId ops ev) (xs @ [EvId ops ev])"
    using chain_event [of "EvId ops ev" "mv_events v" d par p xs] d(1) Cons.prems(1,3) by simp
  from Cons.IH [OF this] show ?case using Cons.prems(2,3) by simp
qed simp

lemma triple_ensureStoredEvent:
  assumes "MarshalProto ops ev = Inr buf"
  shows "triple view v (ensureStoredEvent m \<lparr>ed_Id = EvId ops ev, ed_Protobuf = buf\<rparr>)
    (jpost K par v (isCommitError h p) (\<lambda>_ v'. stored ops v' ev))"
  unfolding ensureStoredEvent_def
proof (rule triple_EventsInsert, goal_cases)
  case (1 r v1 E)
  let ?d = "\<lparr>ed_Id = EvId ops ev, ed_Protobuf = buf\<rparr>" and ?v2 = "v1\<lparr>mv_events := E\<rparr>"
  have ev: "evolves K par v ?v2"
    using evolves_trans [OF rely_evolves [OF 1(1)] evolves_insert_post_events [OF K_mono 1(2)]] .
  show ?case
  proof (cases r)
    case (Inr u)
    then show ?thesis using 1(2) ev assms by (auto simp: stored_def intro!: triple_ret)
  next
    case (Inl e)
    show ?thesis
    proof (cases "IsDup e")
      case True
      show ?thesis
        using True Inl
      proof (simp, intro triple_EventsFind, goal_cases)
        case (1 q v3)
        then show ?case using evolves_trans [OF ev rely_evolves, of v3] assms
          by (cases q) (auto simp: stored_def intro!: triple_ret)
      qed
    qed (use Inl ev in \<open>auto intro!: triple_ret\<close>)
  qed
qed

lemma triple_storeEvents:
  "triple view v (storeEvents m ops evs) (jpost K par v (isCommitError h p) (\<lambda>_ v'. \<forall>ev \<in> set evs. stored ops v' ev))"
proof (induction evs arbitrary: v)
  case (Cons ev evs)
  show ?case
  proof (cases "MarshalProto ops ev")
    case (Inr buf)
    show ?thesis unfolding storeEvents.simps Inr sum.case
    proof (rule triple_dbind_jpost [OF evolves_refl triple_ensureStoredEvent [OF Inr]], goal_cases)
      case (1 u v2)
      show ?case
      proof (rule triple_conseq [OF Cons.IH])
        fix r v' assume "jpost K par v2 (isCommitError h p) (\<lambda>_ v'. \<forall>ev \<in> set evs. stored ops v' ev) r v'"
        then show "jpost K par v (isCommitError h p) (\<lambda>_ v'. \<forall>ev \<in> set (ev # evs). stored ops v' ev) r v'"
          using evolves_trans [OF 1(1)] stored_evolves [OF 1(2)] by (cases r) auto
      qed
    qed
  qed (auto intro!: triple_ret)
qed (auto intro!: triple_ret)

lemma triple_journalHead:
  "jinv K par v \<Longrightarrow> triple view v (journalHead m h) (jpost K par v isDBError (\<lambda>_ _. True))"
  unfolding journalHead_def
proof (rule triple_RefsFind, goal_cases)
  case (1 r v1)
  then show ?case using rely_evolves [OF 1(2)]
    by (cases r; cases "case r of Inl e \<Rightarrow> e | Inr _ \<Rightarrow> ErrNotFound") (auto intro!: triple_ret)
qed

lemma commit_error_tail:
  assumes "jinv K par v1" and "evolves K par v v1"
  shows "triple view v1 (dbind (journalHead m h) (\<lambda>head2.
      if head2 = EventEpoch then ret (Err (UnknownHistoryError h))
      else ret (Err (VersionConflictError head2 p)))) (jpost K par v (isCommitError h p) Q)"
proof (rule triple_dbind [OF triple_journalHead [OF assms(1)]], goal_cases)
  case (2 e v')
  then show ?case using evolves_trans [OF assms(2)] by (cases e) auto
qed (use evolves_trans [OF assms(2)] in \<open>auto intro!: triple_ret\<close>)

lemma triple_moveHead:
  assumes inv: "jinv K par v" and ev0: "evolves K par v0 v" and ne: "evs \<noteq> []" and ch: "chained ops p evs"
    and evs: "\<forall>ev \<in> set evs. wf ev \<and> EvId ops ev \<noteq> 0 \<and> stored ops v ev" and ext: "extends v0 h p evs"
  shows "triple view v (moveHead m h p (EvId ops (last evs)))
    (jpost K par v0 (isCommitError h p) (\<lambda>_ v'. \<exists>v1 xs. evolves K par v0 v1 \<and> commit_point ops par h p evs xs v1 v'))"
proof -
  have last: "EvId ops (last evs) = lastId ops p evs" using lastId_last [OF ne] by metis
  have stored: "\<forall>ev \<in> set evs. wf ev \<and> EvId ops ev \<noteq> 0 \<and> stored ops v1 ev" if "rely v v1" for v1
    using evs by (auto intro: stored_evolves [OF _ rely_evolves [OF that]])
  have nz: "lastId ops p evs \<noteq> 0" using evs last_in_set [OF ne] unfolding last [symmetric] by blast
  show ?thesis
  proof (cases "p = 0")
    case True
    show ?thesis unfolding moveHead_def True if_P [OF refl] last
    proof (rule triple_RefsInsert, goal_cases)
      case (1 r v1 R)
      let ?r = "\<lparr>rf_Id = h, rf_Head = lastId ops 0 evs, rf_Epoch = 0, rf_EpochLog = [], rf_Tail = 0,
        rf_Serial = 0, rf_Phase = Some PhaseActive, rf_Dtime = 0\<rparr>"
      note ev1 = evolves_trans [OF ev0 rely_evolves [OF 1(1)]]
      have c: "chain (mv_events v1) par (lastId ops 0 evs) (map (EvId ops) evs)"
        using chain_extend [of v1 0 "[]" evs] stored [OF 1(1)] ch True by simp
      have new: "evolves K par v1 (v1\<lparr>mv_refs := (mv_refs v1)(h \<mapsto> ?r)\<rparr>)" if "mv_refs v1 h = None"
        by (rule evolves_new_ref [OF that, of par ?r "map (EvId ops) evs"])
          (use c nz True extendsD [OF ext ev1, of "[]"] stored [OF 1(1)] in simp_all)
      have ev2: "evolves K par v0 (v1\<lparr>mv_refs := R\<rparr>)"
        using 1(2) new evolves_trans [OF ev1] ev1
        by (cases rule: insert_post.cases [of "(mv_refs v1, h, ?r, r, R)"]) auto
      show ?case
      proof (cases r)
        case (Inr u)
        then have "commit_point ops par h 0 evs [] v1 (v1\<lparr>mv_refs := R\<rparr>)"
          using 1(2) c stored [OF 1(1)] by (auto simp: commit_point_def)
        then have "jpost K par v0 (isCommitError h 0) (\<lambda>_ v'. \<exists>v1 xs. evolves K par v0 v1 \<and>
            commit_point ops par h 0 evs xs v1 v') (Ok ()) (v1\<lparr>mv_refs := R\<rparr>)"
          unfolding jpost.simps using ev1 ev2 by blast
        then show ?thesis unfolding Inr sum.case by (rule triple_ret)
      qed (use ev2 in \<open>auto intro!: triple_ret\<close>)
    qed
  next
    case False
    show ?thesis unfolding moveHead_def last if_not_P [OF False]
    proof (rule triple_RefsUpdate, goal_cases)
      case (1 u v1 R)
      let ?upd = "\<lambda>r. r\<lparr>rf_Head := lastId ops p evs, rf_Serial := 0, rf_Phase := Some PhaseActive\<rparr>"
      note ev1 = evolves_trans [OF ev0 rely_evolves [OF 1(1)]]
      have inv1: "jinv K par v1" using evolves_jinv [OF rely_evolves [OF 1(1)] inv] .
      have upd: "evolves K par v1 (v1\<lparr>mv_refs := R\<rparr>) \<and> (\<exists>xs. commit_point ops par h p evs xs v1 (v1\<lparr>mv_refs := R\<rparr>))"
        if u: "updated (mv_refs v1) h (\<lambda>r. rf_Head r = p \<and> selActive r) (\<lambda>_. ?upd) R"
      proof -
        obtain r where r: "mv_refs v1 h = Some r" "rf_Head r = p" "selActive r" "R = (mv_refs v1)(h \<mapsto> ?upd r)"
          using u by (auto simp: updated_def)
        obtain xs where c: "chain (mv_events v1) par p xs" and Kxs: "K h (mv_events v1) xs"
          using ref_invE [OF jinv_ref [OF inv1 r(1)]] r(2) by metis
        have c': "chain (mv_events v1) par (lastId ops p evs) (xs @ map (EvId ops) evs)"
          using chain_extend [OF c ch] stored [OF 1(1)] by simp
        have "commit_point ops par h p evs xs v1 (v1\<lparr>mv_refs := R\<rparr>)"
          unfolding commit_point_def using r c c' stored [OF 1(1)] by (auto intro!: exI [of _ "?upd r"])
        moreover have "K h (mv_events v1) (xs @ map (EvId ops) evs)"
          using extendsD [OF ext ev1 c] stored [OF 1(1)] by simp
        ultimately show ?thesis using evolves_move_head [OF r(1) _ c' nz] c r by auto
      qed
      show ?case
      proof (cases u)
        case (Inr _)
        then obtain xs where "evolves K par v1 (v1\<lparr>mv_refs := R\<rparr>)" "commit_point ops par h p evs xs v1 (v1\<lparr>mv_refs := R\<rparr>)"
          using 1(2) upd by auto
        then have "jpost K par v0 (isCommitError h p) (\<lambda>_ v'. \<exists>v1 xs. evolves K par v0 v1 \<and>
            commit_point ops par h p evs xs v1 v') (Ok ()) (v1\<lparr>mv_refs := R\<rparr>)"
          unfolding jpost.simps using ev1 evolves_trans [OF ev1] by blast
        then show ?thesis unfolding Inr sum.case by (rule triple_ret)
      next
        case (Inl e)
        show ?thesis
        proof (cases "e = ErrNotFound")
          case True
          then have "v1\<lparr>mv_refs := R\<rparr> = v1" using 1(2) Inl by simp
          then show ?thesis using commit_error_tail [OF inv1 ev1] Inl True by simp
        next
          case ne: False
          have "evolves K par v0 (v1\<lparr>mv_refs := R\<rparr>)"
            using 1(2) Inl ne upd ev1 evolves_trans [OF ev1] by (cases e) auto
          then show ?thesis using Inl ne by (cases e) (auto intro!: triple_ret)
        qed
      qed
    qed
  qed
qed

lemma triple_journalCommit:
  assumes inv: "jinv K par v" and ne: "evs \<noteq> []" and wf: "\<forall>ev \<in> set evs. wf ev"
    and g: "\<forall>n i. g n = Inr i \<longrightarrow> i \<noteq> ulidNil"
    and ext: "\<And>out. eventsWithId ops g evs = Inr out \<Longrightarrow> extends v h (EvParent ops (hd evs)) out"
  shows "triple view v (journalCommit m ops g h evs)
    (jpost K par v (isCommitError h (EvParent ops (hd evs))) (\<lambda>(out, posted) v'.
       eventsWithId ops g evs = Inr out \<and> posted = [h] \<and>
       (\<exists>v1 xs. evolves K par v v1 \<and> commit_point ops par h (EvParent ops (hd evs)) out xs v1 v')))"
proof (cases "eventsWithId ops g evs")
  case (Inr out)
  let ?p = "EvParent ops (hd evs)"
  have loop: "eventsWithIdLoop ops g 0 None evs = Inr out" using Inr by (simp add: eventsWithId_def)
  have ch: "chained ops ?p out" using eventsWithIdLoop_chained [OF loop ne] by simp
  have out: "\<forall>ev \<in> set out. wf ev \<and> EvId ops ev \<noteq> ulidNil" by (rule eventsWithIdLoop_wf [OF loop wf g])
  have one: "out \<noteq> []" using eventsWithIdLoop_length [OF loop] ne by auto
  then have hd: "EvParent ops (hd out) = ?p" using ch by (cases out) auto
  show ?thesis unfolding journalCommit_def Inr sum.case hd if_not_P [OF ne]
  proof (rule triple_dbind_jpost [OF evolves_refl triple_storeEvents], goal_cases)
    case (1 u v1)
    have st: "\<forall>ev \<in> set out. wf ev \<and> EvId ops ev \<noteq> 0 \<and> stored ops v1 ev" using 1(2) out by simp
    show ?case
    proof (rule triple_dbind [OF triple_moveHead [OF evolves_jinv [OF 1(1) inv] 1(1) one ch st ext [OF Inr]]], goal_cases)
      case (1 u v2)
      then obtain v1' xs where "evolves K par v v2" "evolves K par v v1'" "commit_point ops par h ?p out xs v1' v2"
        by auto
      then show ?case by (intro triple_ret) (simp only: jpost.simps prod.case, blast)
    qed auto
  qed
qed (use ne in \<open>auto simp: journalCommit_def intro!: triple_ret\<close>)

lemma triple_journalDelete:
  assumes inv: "jinv K par v"
  shows "triple view v (journalDelete m h head)
    (jpost K par v (\<lambda>e. isDBError e \<or> (\<exists>s. s \<noteq> 0 \<and> e = VersionConflictError s head)) (\<lambda>_ _. True))"
  unfolding journalDelete_def
proof (rule triple_RefsUpdate, goal_cases)
  case (1 u v1 R)
  note ev1 = rely_evolves [OF 1(1)]
  have upd: "evolves K par v1 (v1\<lparr>mv_refs := R\<rparr>)"
    if "updated (mv_refs v1) h (\<lambda>r. rf_Head r = head \<and> selActive r)
         (\<lambda>now r. r\<lparr>rf_Phase := Some PhaseDeleting, rf_Dtime := now\<rparr>) R"
    using that evolves_set_phase by (auto simp: updated_def)
  have ev2: "evolves K par v (v1\<lparr>mv_refs := R\<rparr>)"
    using 1(2) upd ev1 evolves_trans [OF ev1]
    by (cases u; cases "case u of Inl e \<Rightarrow> e | Inr _ \<Rightarrow> ErrNotFound") auto
  note inv2 = evolves_jinv [OF ev2 inv]
  have "triple view (v1\<lparr>mv_refs := R\<rparr>) (dbind (journalHead m h) (\<lambda>head2.
      if head2 = EventEpoch then ret (Ok ()) else ret (Err (VersionConflictError head2 head))))
    (jpost K par v (\<lambda>e. isDBError e \<or> (\<exists>s. s \<noteq> 0 \<and> e = VersionConflictError s head)) (\<lambda>_ _. True))"
    by (rule triple_dbind [OF triple_journalHead [OF inv2]])
      (use evolves_trans [OF ev2] in \<open>auto intro!: triple_ret\<close>)
  then show ?case using ev2
    by (cases u; cases "case u of Inl e \<Rightarrow> e | Inr _ \<Rightarrow> ErrNotFound") (auto intro!: triple_ret)
qed


text \<open>The result of a commit, without triples.\<close>

lemma Commit_run:
  assumes inv: "jinv K par (view db)" and ne: "evs \<noteq> []" and wf: "\<forall>ev \<in> set evs. wf ev"
    and g: "\<forall>n i. g n = Inr i \<longrightarrow> i \<noteq> ulidNil" and ext: "\<And>h E xs. K h E xs"
  obtains r db' where "journalCommit m ops g h evs db = Some (r, db')" "evolves K par (view db) (view db')"
    "case r of
       Ok (out, posted) \<Rightarrow> eventsWithId ops g evs = Inr out \<and> posted = [h] \<and>
         (\<exists>v1 xs. evolves K par (view db) v1 \<and> commit_point ops par h (EvParent ops (hd evs)) out xs v1 (view db'))
     | Err e \<Rightarrow> isCommitError h (EvParent ops (hd evs)) e
     | Panic p \<Rightarrow> False"
proof -
  have "triple view (view db) (journalCommit m ops g h evs)
    (jpost K par (view db) (isCommitError h (EvParent ops (hd evs))) (\<lambda>(out, posted) v'.
       eventsWithId ops g evs = Inr out \<and> posted = [h] \<and>
       (\<exists>v1 xs. evolves K par (view db) v1 \<and> commit_point ops par h (EvParent ops (hd evs)) out xs v1 v')))"
    by (rule triple_journalCommit [OF inv ne wf g]) (simp add: extends_def ext)
  from triple_run [OF this] obtain r db' where run: "journalCommit m ops g h evs db = Some (r, db')"
    and post: "jpost K par (view db) (isCommitError h (EvParent ops (hd evs))) (\<lambda>(out, posted) v'.
       eventsWithId ops g evs = Inr out \<and> posted = [h] \<and>
       (\<exists>v1 xs. evolves K par (view db) v1 \<and> commit_point ops par h (EvParent ops (hd evs)) out xs v1 v')) r (view db')"
    by blast
  show thesis by (rule that [OF run]) (use post in \<open>cases r; auto\<close>)+
qed

end

end
