(* ===== verification/Nog_Aggregate.thy ===== *)
theory Nog_Aggregate
  imports Nog_Events
begin

text \<open>
  The interface between the event-sourcing engine and an aggregate
  (\<open>State\<close>, \<open>Behavior\<close> and \<open>Advancer\<close> of \<open>backend/internal/events/engine.go\<close>).  An
  aggregate is a record of operations; the locale \<open>aggregate\<close> is what the engine relies on:
  an invariant of the state, no panic when a command is told, and no panic when the engine
  advances the state by the events that the command produced.  What follows for every
  aggregate is proved once, in the locale.
\<close>

record ('s, 'c, 'ev, 'e) Behavior =
  NewState :: "uuid \<Rightarrow> 's"
  StId :: "'s \<Rightarrow> uuid"
  StVid :: "'s \<Rightarrow> ulid"
  SetVid :: "ulid \<Rightarrow> 's \<Rightarrow> 's"
  Advance :: "'s \<Rightarrow> 'ev \<Rightarrow> ('e, 's) outcome"
  Tell :: "ulid_source \<Rightarrow> 's \<Rightarrow> 'c \<Rightarrow> ('e, 'ev list) outcome"

text \<open>
  The loop of \<open>TellState()\<close> and \<open>FindFromState()\<close> over events: \<open>s = a.Advance(s, ev)\<close>, then
  \<open>s.SetVid(ev.Id())\<close>.
\<close>

fun advanceAll ::
  "('s, 'c, 'ev, 'e) Behavior \<Rightarrow> 'ev EventOps \<Rightarrow> 's \<Rightarrow> 'ev list \<Rightarrow> ('e, 's) outcome" where
  "advanceAll b ops s [] = Ok s"
| "advanceAll b ops s (ev # evs) =
     obind (Advance b s ev) (\<lambda>s'. advanceAll b ops (SetVid b (EvId ops ev) s') evs)"

lemma advanceAll_append:
  "advanceAll b ops s (xs @ ys) = obind (advanceAll b ops s xs) (\<lambda>s'. advanceAll b ops s' ys)"
proof (induction xs arbitrary: s)
  case (Cons x xs)
  then show ?case by (cases "Advance b s x") auto
qed simp

text \<open>
  The live states of an aggregate with its log: start from \<open>NewState(id)\<close> at the epoch, then
  tell commands that satisfy the callers' obligation \<open>pre\<close>, each with fresh results of
  \<open>ulid.New()\<close>.  A command that fails leaves the state and the log as they are.
\<close>

inductive live ::
  "('s, 'c, 'ev, 'e) Behavior \<Rightarrow> 'ev EventOps \<Rightarrow> ('s \<Rightarrow> 'c \<Rightarrow> bool) \<Rightarrow> uuid \<Rightarrow> 's \<Rightarrow> 'ev list \<Rightarrow> bool"
  for b ops pre i where
  live_new: "live b ops pre i (SetVid b EventEpoch (NewState b i)) []"
| live_tell: "live b ops pre i s' (log @ evs)"
    if "live b ops pre i s log" "pre s c" "Tell b g s c = Ok evs" "advanceAll b ops s evs = Ok s'"

locale aggregate =
  fixes b :: "('s, 'c, 'ev, 'e) Behavior"
    and ops :: "'ev EventOps"
    and inv :: "'s \<Rightarrow> bool"
    and pre :: "'s \<Rightarrow> 'c \<Rightarrow> bool"
  assumes inv_NewState: "inv (NewState b i)"
    and inv_SetVid: "inv s \<Longrightarrow> inv (SetVid b v s)"
    and StVid_SetVid: "StVid b (SetVid b v s) = v"
    and StId_NewState: "StId b (NewState b i) = i"
    and StId_SetVid: "StId b (SetVid b v s) = StId b s"
    and StId_Advance: "Advance b s ev = Ok s' \<Longrightarrow> StId b s' = StId b s"
    and Tell_no_panic: "inv s \<Longrightarrow> pre s c \<Longrightarrow> \<not> is_Panic (Tell b g s c)"
    and Tell_advances:
      "inv s \<Longrightarrow> pre s c \<Longrightarrow> Tell b g s c = Ok evs \<Longrightarrow>
        \<exists>s'. advanceAll b ops s evs = Ok s' \<and> inv s'"
    and Tell_chained: "Tell b g s c = Ok evs \<Longrightarrow> chained ops (StVid b s) evs"
begin

lemma StVid_advanceAll: "advanceAll b ops s evs = Ok s' \<Longrightarrow> StVid b s' = lastId ops (StVid b s) evs"
proof (induction evs arbitrary: s)
  case (Cons ev evs)
  from Cons.prems obtain s1 where
    "advanceAll b ops (SetVid b (EvId ops ev) s1) evs = Ok s'"
    by (auto simp: outcome_simps)
  from Cons.IH [OF this] show ?case by (simp add: StVid_SetVid)
qed simp

lemma StId_advanceAll: "advanceAll b ops s evs = Ok s' \<Longrightarrow> StId b s' = StId b s"
  by (induction evs arbitrary: s) (auto simp: outcome_simps StId_SetVid dest: StId_Advance)

lemma live_inv: "live b ops pre i s log \<Longrightarrow> inv s"
proof (induction rule: live.induct)
  case live_new
  show ?case by (intro inv_SetVid inv_NewState)
next
  case (live_tell s log c g evs s')
  then show ?case using Tell_advances [of s c g evs] by auto
qed

lemma live_no_panic: "live b ops pre i s log \<Longrightarrow> pre s c \<Longrightarrow> \<not> is_Panic (Tell b g s c)"
  using Tell_no_panic live_inv by blast

text \<open>The state of a live aggregate is what a replay of its log produces.\<close>

lemma live_replay:
  "live b ops pre i s log \<Longrightarrow> advanceAll b ops (SetVid b EventEpoch (NewState b i)) log = Ok s"
  by (induction rule: live.induct) (simp_all add: advanceAll_append)

lemma live_chained: "live b ops pre i s log \<Longrightarrow> chained ops EventEpoch log"
  and live_vid: "live b ops pre i s log \<Longrightarrow> StVid b s = lastId ops EventEpoch log"
proof -
  assume l: "live b ops pre i s log"
  then show vid: "StVid b s = lastId ops EventEpoch log"
    using StVid_advanceAll [OF live_replay] by (simp add: StVid_SetVid)
  show "chained ops EventEpoch log"
    using l
  proof (induction rule: live.induct)
    case (live_tell s log c g evs s')
    have "StVid b s = lastId ops EventEpoch log"
      using StVid_advanceAll [OF live_replay [OF live_tell.hyps(1)]] by (simp add: StVid_SetVid)
    then show ?case using live_tell Tell_chained [of g s c evs] by simp
  qed simp
qed

lemma live_id: "live b ops pre i s log \<Longrightarrow> StId b s = i"
  using StId_advanceAll [OF live_replay] by (simp add: StId_SetVid StId_NewState)

text \<open>
  A command never leaves the engine with events on which it cannot advance: told to a live
  state, it either is refused with an error or it extends the log, and the state reached is
  live again.
\<close>

lemma live_step:
  assumes "live b ops pre i s log" and "pre s c"
  obtains e where "Tell b g s c = Err e"
  | evs s' where "Tell b g s c = Ok evs" "advanceAll b ops s evs = Ok s'"
      "live b ops pre i s' (log @ evs)"
proof (cases "Tell b g s c")
  case (Ok evs)
  obtain s' where s': "advanceAll b ops s evs = Ok s'"
    using Tell_advances [OF live_inv [OF assms(1)] assms(2) Ok] by blast
  from that(2) [OF Ok s' live_tell [OF assms Ok s']] show ?thesis .
next
  case (Err e) with that(1) show ?thesis .
next
  case (Panic p) with live_no_panic [OF assms, of g] show ?thesis by simp
qed

end

end
