(* ===== verification/Event_Engine.thy ===== *)
theory Event_Engine
  imports Event_Journal_Inv Nog_Aggregate
begin

text \<open>
  The event-sourcing engine (\<open>backend/internal/events/engine.go\<close>): it finds the state of an aggregate by
  replaying the journal from a cached state, tells commands, commits the resulting events with
  optimistic concurrency control and keeps the cache.  The state of a computation is the database, the cache and
  the topics that were posted to the journal's notifier.
\<close>

section \<open>Engine\<close>

datatype (plugins only: code size) 'e EngineError =
    PkgError EventsError \<comment> \<open>an error of package \<open>events\<close>\<close>
  | BehaviorError 'e \<comment> \<open>an error of the aggregate\<close>
  | RetryNoVCError "'e EngineError"

type_synonym ('db, 's) eng = "'db \<times> (uuid \<rightharpoonup> 's) \<times> uuid list"

definition onDb :: "('db, EventsError, 'a) dbm \<Rightarrow> (('db, 's) eng, 'e EngineError, 'a) dbm" where
  "onDb prog = (\<lambda>(db, c, ps). case prog db of
     None \<Rightarrow> None
   | Some (r, db') \<Rightarrow> Some (map_err PkgError r, (db', c, ps)))"

definition getCache :: "uuid \<Rightarrow> ('s option \<Rightarrow> (('db, 's) eng, 'e, 'a) dbm) \<Rightarrow> (('db, 's) eng, 'e, 'a) dbm" where
  "getCache i f = (\<lambda>(db, c, ps). f (c i) (db, c, ps))"

definition setCache :: "uuid \<Rightarrow> 's option \<Rightarrow> (('db, 's) eng, 'e, 'a) dbm \<Rightarrow> (('db, 's) eng, 'e, 'a) dbm" where
  "setCache i x f = (\<lambda>(db, c, ps). f (db, c(i := x), ps))"

definition post :: "uuid list \<Rightarrow> (('db, 's) eng, 'e, 'a) dbm \<Rightarrow> (('db, 's) eng, 'e, 'a) dbm" where
  "post topics f = (\<lambda>(db, c, ps). f (db, c, ps @ topics))"

text \<open>
  The loop over the iterator in \<open>FindFromState()\<close>: the flag tells whether an event was applied, i.e.
  \<open>a != nil\<close>.
\<close>

definition iterLeft :: "Iter \<Rightarrow> nat" where
  "iterLeft it = (case it_mongo it of None \<Rightarrow> 0 | Some (ds, _) \<Rightarrow> length ds)"

lemma iterNext_left: "iterNext ops it = Ok (Some ev, it') \<Longrightarrow> iterLeft it' < iterLeft it"
  by (auto simp: iterNext_def iterLeft_def Let_def split: if_splits option.splits list.splits outcome.splits)

function findLoop ::
  "('s, 'c, 'ev, 'e) Behavior \<Rightarrow> 'ev EventOps \<Rightarrow> bool \<Rightarrow> 's \<Rightarrow> Iter \<Rightarrow>
   ('e EngineError, 's \<times> bool \<times> Iter) outcome" where
  "findLoop b ops changed s it =
     (case iterNext ops it of
        Panic p \<Rightarrow> Panic p
      | Err e \<Rightarrow> Err (PkgError e)
      | Ok (None, it') \<Rightarrow> Ok (s, changed, it')
      | Ok (Some ev, it') \<Rightarrow>
          (case Advance b s ev of
             Panic p \<Rightarrow> Panic p
           | Err e \<Rightarrow> Err (BehaviorError e)
           | Ok s' \<Rightarrow> findLoop b ops True (SetVid b (EvId ops ev) s') it'))"
  by pat_completeness auto
termination by (relation "measure (\<lambda>(b, ops, changed, s, it). iterLeft it)") (auto simp: iterNext_left)

declare findLoop.simps [simp del]

definition FindFromState ::
  "'db Mongo \<Rightarrow> decode_parent \<Rightarrow> ulid_unmarshal \<Rightarrow> ('s, 'c, 'ev, 'e) Behavior \<Rightarrow> 'ev EventOps \<Rightarrow> 's \<Rightarrow>
   (('db, 's) eng, 'e EngineError, 's) dbm" where
  "FindFromState m dp ub b ops s =
     dbind (onDb (journalFind m dp ub (StId b s) (StVid b s))) (\<lambda>it.
       case findLoop b ops False s it of
         Panic p \<Rightarrow> ret (Panic p)
       | Err e \<Rightarrow> ret (Err e)
       | Ok (s', changed, it') \<Rightarrow>
           (case iterClose it' of
              Some e \<Rightarrow> ret (Err (PkgError e))
            | None \<Rightarrow>
                if \<not> changed then ret (Ok s')
                else setCache (StId b s') (Some s') (ret (Ok s'))))"

definition FindId ::
  "'db Mongo \<Rightarrow> decode_parent \<Rightarrow> ulid_unmarshal \<Rightarrow> ('s, 'c, 'ev, 'e) Behavior \<Rightarrow> 'ev EventOps \<Rightarrow> uuid \<Rightarrow>
   (('db, 's) eng, 'e EngineError, 's) dbm" where
  "FindId m dp ub b ops i =
     getCache i (\<lambda>x. case x of
       Some s \<Rightarrow> FindFromState m dp ub b ops s
     | None \<Rightarrow> FindFromState m dp ub b ops (SetVid b EventEpoch (NewState b i)))"

text \<open>
  \<open>Tell()\<close> of the behavior and \<open>Commit()\<close> draw ids from \<open>g\<close> and \<open>g'\<close>.
\<close>

definition tellStateEvents ::
  "'db Mongo \<Rightarrow> ('s, 'c, 'ev, 'e) Behavior \<Rightarrow> 'ev EventOps \<Rightarrow> ulid_source \<Rightarrow> ulid_source \<Rightarrow> 's \<Rightarrow> 'c \<Rightarrow>
   (('db, 's) eng, 'e EngineError, 'ev list option) dbm" where
  "tellStateEvents m b ops g g' s cmd =
     (case Tell b g s cmd of
        Panic p \<Rightarrow> ret (Panic p)
      | Err e \<Rightarrow> ret (Err (BehaviorError e))
      | Ok evs \<Rightarrow>
          if evs = [] then ret (Ok None)
          else dbind (onDb (journalCommit m ops g' (StId b s) evs)) (\<lambda>(evs', topics).
                 post topics (ret (Ok (Some evs')))))"

definition TellState ::
  "'db Mongo \<Rightarrow> ('s, 'c, 'ev, 'e) Behavior \<Rightarrow> 'ev EventOps \<Rightarrow> ulid_source \<Rightarrow> ulid_source \<Rightarrow> 's \<Rightarrow> 'c \<Rightarrow>
   (('db, 's) eng, 'e EngineError, 's) dbm" where
  "TellState m b ops g g' s cmd =
     dbind (tellStateEvents m b ops g g' s cmd) (\<lambda>r. case r of
       None \<Rightarrow> ret (Ok s)
     | Some evs \<Rightarrow>
         (case advanceAll b ops s evs of
            Panic p \<Rightarrow> ret (Panic p)
          | Err e \<Rightarrow> ret (Err (BehaviorError e))
          | Ok s' \<Rightarrow> setCache (StId b s') (Some s') (ret (Ok s'))))"

definition NoVC :: ulid where "NoVC = ulidOne"
definition RetryNoVC :: ulid where "RetryNoVC = ulidTwo"
definition cfgRetryN :: nat where "cfgRetryN = 5"

definition tellIdVidNoVC ::
  "'db Mongo \<Rightarrow> decode_parent \<Rightarrow> ulid_unmarshal \<Rightarrow> ('s, 'c, 'ev, 'e) Behavior \<Rightarrow> 'ev EventOps \<Rightarrow>
   ulid_source \<Rightarrow> ulid_source \<Rightarrow> uuid \<Rightarrow> 'c \<Rightarrow> (('db, 's) eng, 'e EngineError, 's) dbm" where
  "tellIdVidNoVC m dp ub b ops g g' i cmd =
     dbind (FindId m dp ub b ops i) (\<lambda>s. TellState m b ops g g' s cmd)"

text \<open>
  \<open>errorsx.IsPred(err, IsVersionConflictError)\<close> looks through wrapped errors; \<open>bc\<close> tells for which errors of
  the aggregate it holds.
\<close>

fun isConflict :: "('e \<Rightarrow> bool) \<Rightarrow> 'e EngineError \<Rightarrow> bool" where
  "isConflict bc (PkgError e) = IsVersionConflictError e"
| "isConflict bc (BehaviorError e) = bc e"
| "isConflict bc (RetryNoVCError e) = isConflict bc e"

text \<open>
  The retry loop; the argument counts the retries that are left, \<open>cfgRetryN - i\<close>, and \<open>gs n\<close> are the id
  sources of the attempt with \<open>n\<close> retries left.  The sleep between attempts is left out.
\<close>

fun retryLoop ::
  "'db Mongo \<Rightarrow> decode_parent \<Rightarrow> ulid_unmarshal \<Rightarrow> ('s, 'c, 'ev, 'e) Behavior \<Rightarrow> 'ev EventOps \<Rightarrow>
   ('e \<Rightarrow> bool) \<Rightarrow> (nat \<Rightarrow> ulid_source \<times> ulid_source) \<Rightarrow> uuid \<Rightarrow> 'c \<Rightarrow> nat \<Rightarrow>
   (('db, 's) eng, 'e EngineError, 's) dbm" where
  "retryLoop m dp ub b ops bc gs i cmd 0 =
     dbind (FindId m dp ub b ops i) (\<lambda>s.
       dtry (TellState m b ops (fst (gs 0)) (snd (gs 0)) s cmd)
         (\<lambda>e. ret (Err (RetryNoVCError e)))
         (\<lambda>s'. ret (Ok s')))"
| "retryLoop m dp ub b ops bc gs i cmd (Suc left) =
     dbind (FindId m dp ub b ops i) (\<lambda>s.
       dtry (TellState m b ops (fst (gs (Suc left))) (snd (gs (Suc left))) s cmd)
         (\<lambda>e. if isConflict bc e then retryLoop m dp ub b ops bc gs i cmd left else ret (Err e))
         (\<lambda>s'. ret (Ok s')))"

definition tellIdVidRetryNoVC ::
  "'db Mongo \<Rightarrow> decode_parent \<Rightarrow> ulid_unmarshal \<Rightarrow> ('s, 'c, 'ev, 'e) Behavior \<Rightarrow> 'ev EventOps \<Rightarrow>
   ('e \<Rightarrow> bool) \<Rightarrow> (nat \<Rightarrow> ulid_source \<times> ulid_source) \<Rightarrow> uuid \<Rightarrow> 'c \<Rightarrow> (('db, 's) eng, 'e EngineError, 's) dbm" where
  "tellIdVidRetryNoVC m dp ub b ops bc gs i cmd = retryLoop m dp ub b ops bc gs i cmd cfgRetryN"

definition tellIdVidVC ::
  "'db Mongo \<Rightarrow> decode_parent \<Rightarrow> ulid_unmarshal \<Rightarrow> ('s, 'c, 'ev, 'e) Behavior \<Rightarrow> 'ev EventOps \<Rightarrow>
   ulid_source \<Rightarrow> ulid_source \<Rightarrow> uuid \<Rightarrow> ulid \<Rightarrow> 'c \<Rightarrow> (('db, 's) eng, 'e EngineError, 's) dbm" where
  "tellIdVidVC m dp ub b ops g g' i vid cmd =
     dbind (FindId m dp ub b ops i) (\<lambda>s.
       if StVid b s \<noteq> vid then ret (Err (PkgError (VersionConflictError (StVid b s) vid)))
       else TellState m b ops g g' s cmd)"

definition TellIdVidState ::
  "'db Mongo \<Rightarrow> decode_parent \<Rightarrow> ulid_unmarshal \<Rightarrow> ('s, 'c, 'ev, 'e) Behavior \<Rightarrow> 'ev EventOps \<Rightarrow>
   ('e \<Rightarrow> bool) \<Rightarrow> (nat \<Rightarrow> ulid_source \<times> ulid_source) \<Rightarrow> uuid \<Rightarrow> ulid \<Rightarrow> 'c \<Rightarrow>
   (('db, 's) eng, 'e EngineError, 's) dbm" where
  "TellIdVidState m dp ub b ops bc gs i vid cmd =
     (if vid = NoVC then tellIdVidNoVC m dp ub b ops (fst (gs 0)) (snd (gs 0)) i cmd
      else if vid = RetryNoVC then tellIdVidRetryNoVC m dp ub b ops bc gs i cmd
      else tellIdVidVC m dp ub b ops (fst (gs 0)) (snd (gs 0)) i vid cmd)"

definition TellIdVid ::
  "'db Mongo \<Rightarrow> decode_parent \<Rightarrow> ulid_unmarshal \<Rightarrow> ('s, 'c, 'ev, 'e) Behavior \<Rightarrow> 'ev EventOps \<Rightarrow>
   ('e \<Rightarrow> bool) \<Rightarrow> (nat \<Rightarrow> ulid_source \<times> ulid_source) \<Rightarrow> uuid \<Rightarrow> ulid \<Rightarrow> 'c \<Rightarrow>
   (('db, 's) eng, 'e EngineError, ulid) dbm" where
  "TellIdVid m dp ub b ops bc gs i vid cmd =
     dbind (TellIdVidState m dp ub b ops bc gs i vid cmd) (\<lambda>s. ret (Ok (StVid b s)))"

section \<open>Delete\<close>

definition deleteState ::
  "'db Mongo \<Rightarrow> ('s, 'c, 'ev, 'e) Behavior \<Rightarrow> ulid_source \<Rightarrow> 's \<Rightarrow> 'c \<Rightarrow>
   (('db, 's) eng, 'e EngineError, unit) dbm" where
  "deleteState m b g s cmd =
     (case Tell b g s cmd of
        Panic p \<Rightarrow> ret (Panic p)
      | Err e \<Rightarrow> ret (Err (BehaviorError e))
      | Ok evs \<Rightarrow>
          if length evs > 0 then ret (Panic ''invalid delete behavior'')
          else dbind (onDb (journalDelete m (StId b s) (StVid b s))) (\<lambda>_.
                 setCache (StId b s) None (ret (Ok ()))))"

definition deleteIdVidNoVC ::
  "'db Mongo \<Rightarrow> decode_parent \<Rightarrow> ulid_unmarshal \<Rightarrow> ('s, 'c, 'ev, 'e) Behavior \<Rightarrow> 'ev EventOps \<Rightarrow>
   ulid_source \<Rightarrow> uuid \<Rightarrow> 'c \<Rightarrow> (('db, 's) eng, 'e EngineError, unit) dbm" where
  "deleteIdVidNoVC m dp ub b ops g i cmd =
     dbind (onDb (journalHead m i)) (\<lambda>h.
       if h = EventEpoch then ret (Ok ())
       else dbind (FindId m dp ub b ops i) (\<lambda>s. deleteState m b g s cmd))"

definition deleteIdVidVC ::
  "'db Mongo \<Rightarrow> decode_parent \<Rightarrow> ulid_unmarshal \<Rightarrow> ('s, 'c, 'ev, 'e) Behavior \<Rightarrow> 'ev EventOps \<Rightarrow>
   ulid_source \<Rightarrow> uuid \<Rightarrow> ulid \<Rightarrow> 'c \<Rightarrow> (('db, 's) eng, 'e EngineError, unit) dbm" where
  "deleteIdVidVC m dp ub b ops g i vid cmd =
     dbind (FindId m dp ub b ops i) (\<lambda>s.
       if StVid b s \<noteq> vid then ret (Err (PkgError (VersionConflictError (StVid b s) vid)))
       else deleteState m b g s cmd)"

definition DeleteIdVid ::
  "'db Mongo \<Rightarrow> decode_parent \<Rightarrow> ulid_unmarshal \<Rightarrow> ('s, 'c, 'ev, 'e) Behavior \<Rightarrow> 'ev EventOps \<Rightarrow>
   ulid_source \<Rightarrow> uuid \<Rightarrow> ulid \<Rightarrow> 'c \<Rightarrow> (('db, 's) eng, 'e EngineError, unit) dbm" where
  "DeleteIdVid m dp ub b ops g i vid cmd =
     (if vid = NoVC \<or> vid = RetryNoVC then deleteIdVidNoVC m dp ub b ops g i cmd
      else deleteIdVidVC m dp ub b ops g i vid cmd)"

section \<open>Correctness\<close>

text \<open>
  The histories in \<open>H\<close> belong to the aggregate: each is the log of a live state.
\<close>

definition live_hist ::
  "('s, 'c, 'ev, 'e) Behavior \<Rightarrow> 'ev EventOps \<Rightarrow> ('s \<Rightarrow> 'c \<Rightarrow> bool) \<Rightarrow> ('ev \<Rightarrow> bool) \<Rightarrow> uuid set \<Rightarrow> hist_pred" where
  "live_hist b ops pre wfe H h E xs \<longleftrightarrow>
     (h \<in> H \<longrightarrow>
       (\<exists>s evs. live b ops pre h s evs \<and> map (EvId ops) evs = xs \<and>
          (\<forall>ev \<in> set evs. wfe ev \<and> (\<exists>d. E (EvId ops ev) = Some d \<and> MarshalProto ops ev = Inr (ed_Protobuf d)))))"

lemma live_hist_mono: "mono_hist (live_hist b ops pre wfe H)"
  unfolding mono_hist_def
proof (intro allI impI)
  fix h E E' xs assume le: "E \<subseteq>\<^sub>m E'" and L: "live_hist b ops pre wfe H h E xs"
  show "live_hist b ops pre wfe H h E' xs"
    unfolding live_hist_def
  proof
    assume "h \<in> H"
    then obtain s evs where "live b ops pre h s evs" "map (EvId ops) evs = xs"
      and evs: "\<forall>ev \<in> set evs. wfe ev \<and> (\<exists>d. E (EvId ops ev) = Some d \<and> MarshalProto ops ev = Inr (ed_Protobuf d))"
      using L unfolding live_hist_def by blast
    moreover have "\<forall>ev \<in> set evs. wfe ev \<and> (\<exists>d. E' (EvId ops ev) = Some d \<and> MarshalProto ops ev = Inr (ed_Protobuf d))"
      using evs map_leD [OF le] by blast
    ultimately show "\<exists>s evs. live b ops pre h s evs \<and> map (EvId ops) evs = xs \<and>
        (\<forall>ev \<in> set evs. wfe ev \<and> (\<exists>d. E' (EvId ops ev) = Some d \<and> MarshalProto ops ev = Inr (ed_Protobuf d)))"
      by blast
  qed
qed

locale engine =
  journal_codec m view rely dp ub "live_hist b ops pre wf H" ops wf + aggregate b ops sinv pre
  for m :: "'db Mongo" and view rely dp ub and ops :: "'ev EventOps" and wf
    and b :: "('s, 'c, 'ev, 'e) Behavior" and sinv pre and H :: "uuid set" +
  assumes Tell_events:
    "sinv s \<Longrightarrow> pre s c \<Longrightarrow> Tell b g s c = Ok evs \<Longrightarrow> (\<forall>n i. g n = Inr i \<longrightarrow> i \<noteq> ulidNil) \<Longrightarrow>
      \<forall>ev \<in> set evs. wf ev \<and> EvId ops ev \<noteq> ulidNil"
begin

lemma live_det: "live b ops pre h s evs \<Longrightarrow> live b ops pre h s' evs \<Longrightarrow> s' = s"
  using live_replay [of h s evs] live_replay [of h s' evs] by simp

abbreviation L :: hist_pred where "L \<equiv> live_hist b ops pre wf H"

text \<open>What is known of a state that the engine handles: it is live, and its log is a prefix of the history.\<close>

definition known :: "MongoView \<Rightarrow> uuid \<Rightarrow> 's \<Rightarrow> 'ev list \<Rightarrow> bool" where
  "known v h s evs \<longleftrightarrow>
     live b ops pre h s evs \<and> (\<forall>ev \<in> set evs. wf ev \<and> stored ops v ev) \<and>
     (evs = [] \<or> tracks L par v h (map (EvId ops) evs))"

definition cache_ok :: "MongoView \<Rightarrow> (uuid \<rightharpoonup> 's) \<Rightarrow> bool" where
  "cache_ok v c \<longleftrightarrow> (\<forall>h \<in> H. \<forall>s. c h = Some s \<longrightarrow> (\<exists>evs. known v h s evs))"

definition view2 :: "('db, 's) eng \<Rightarrow> MongoView \<times> (uuid \<rightharpoonup> 's) \<times> uuid list" where
  "view2 x = (case x of (db, c, ps) \<Rightarrow> (view db, c, ps))"

lemma view2_simp [simp]: "view2 (db, c, ps) = (view db, c, ps)"
  by (simp add: view2_def)

lemma view2_eq: "view2 x = (v, c, ps) \<longleftrightarrow> (\<exists>db. x = (db, c, ps) \<and> view db = v)"
  by (cases x) auto

fun epost ::
  "MongoView \<Rightarrow> ('e EngineError \<Rightarrow> bool) \<Rightarrow> ('a \<Rightarrow> MongoView \<Rightarrow> bool) \<Rightarrow> ('e EngineError, 'a) outcome \<Rightarrow>
   MongoView \<times> (uuid \<rightharpoonup> 's) \<times> uuid list \<Rightarrow> bool" where
  "epost v EP Q (Ok a) (v', c, ps) \<longleftrightarrow> evolves L par v v' \<and> cache_ok v' c \<and> Q a v'"
| "epost v EP Q (Err e) (v', c, ps) \<longleftrightarrow> evolves L par v v' \<and> cache_ok v' c \<and> EP e"
| "epost v EP Q (Panic p) (v', c, ps) \<longleftrightarrow> False"

lemma known_evolves: "known v h s evs \<Longrightarrow> evolves L par v v' \<Longrightarrow> known v' h s evs"
  unfolding known_def by (auto intro: stored_evolves tracks_evolves)

lemma cache_ok_evolves: "cache_ok v c \<Longrightarrow> evolves L par v v' \<Longrightarrow> cache_ok v' c"
  unfolding cache_ok_def using known_evolves by blast

lemma cache_ok_upd: "cache_ok v c \<Longrightarrow> known v h s evs \<Longrightarrow> cache_ok v (c(h \<mapsto> s))"
  unfolding cache_ok_def by auto

lemma triple_onDb:
  assumes "triple view v prog R"
    and "\<And>r v'. R r v' \<Longrightarrow> Q (map_err PkgError r) (v', c, ps)"
  shows "triple view2 (v, c, ps) (onDb prog) Q"
  unfolding triple_def
proof (intro allI impI)
  fix x assume x: "view2 x = (v, c, ps)"
  obtain db where db: "x = (db, c, ps)" "view db = v" using x by (auto simp: view2_eq)
  then obtain r db' where "prog db = Some (r, db')" "R r (view db')" using assms(1) by (auto simp: triple_def)
  then show "\<exists>r x'. onDb prog x = Some (r, x') \<and> Q r (view2 x')"
    using assms(2) [of r "view db'"] db by (simp add: onDb_def)
qed

lemma triple_setCache:
  "triple view2 (v, c(i := x), ps) f Q \<Longrightarrow> triple view2 (v, c, ps) (setCache i x f) Q"
  by (auto simp: triple_def setCache_def view2_eq)

lemma triple_getCache: "triple view2 (v, c, ps) (f (c i)) Q \<Longrightarrow> triple view2 (v, c, ps) (getCache i f) Q"
  by (auto simp: triple_def getCache_def view2_eq)

lemma triple_post: "triple view2 (v, c, ps @ ts) f Q \<Longrightarrow> triple view2 (v, c, ps) (post ts f) Q"
  by (auto simp: triple_def post_def view2_eq)


text \<open>Replaying the events that an iterator yields.\<close>

abbreviation bytesOf :: "MongoView \<Rightarrow> 'ev \<Rightarrow> byte list" where
  "bytesOf v ev \<equiv> ed_Protobuf (the (mv_events v (EvId ops ev)))"

lemma stored_unmarshal: "wf ev \<Longrightarrow> stored ops v ev \<Longrightarrow> UnmarshalProto ops (bytesOf v ev) = Ok ev"
  unfolding stored_def using unmarshal_marshal by auto

lemma stored_inj:
  "wf ev \<Longrightarrow> stored ops v ev \<Longrightarrow> wf ev' \<Longrightarrow> stored ops v ev' \<Longrightarrow> EvId ops ev' = EvId ops ev \<Longrightarrow> ev' = ev"
  using stored_unmarshal [of ev v] stored_unmarshal [of ev' v] by simp

lemma stored_list_inj:
  "\<forall>ev \<in> set xs. wf ev \<and> stored ops v ev \<Longrightarrow> \<forall>ev \<in> set ys. wf ev \<and> stored ops v ev \<Longrightarrow>
     map (EvId ops) ys = map (EvId ops) xs \<Longrightarrow> ys = xs"
proof (induction xs arbitrary: ys)
  case (Cons x xs)
  then obtain y ys' where ys: "ys = y # ys'" "EvId ops y = EvId ops x" "map (EvId ops) ys' = map (EvId ops) xs"
    by (cases ys) simp_all
  moreover have "y = x" using stored_inj [of x v y] Cons.prems ys by simp
  ultimately show ?case using Cons.IH [of ys'] Cons.prems by simp
qed simp

lemma findLoop_replays:
  assumes "map jd_Protobuf ds = map (bytesOf v) evs" and "\<forall>ev \<in> set evs. wf ev \<and> stored ops v ev"
    and "chained ops p evs" and "advanceAll b ops s evs = Ok s'"
  shows "findLoop b ops ch s \<lparr>it_mongo = Some (ds, err), it_prev = p, it_err = None\<rparr> =
    Ok (s', ch \<or> evs \<noteq> [], \<lparr>it_mongo = Some ([], err), it_prev = lastId ops p evs, it_err = None\<rparr>)"
  using assms
proof (induction evs arbitrary: ds p s ch)
  case Nil
  then show ?case by (simp add: findLoop.simps iterNext_def)
next
  case (Cons ev evs)
  obtain d ds' where ds: "ds = d # ds'" "jd_Protobuf d = bytesOf v ev" "map jd_Protobuf ds' = map (bytesOf v) evs"
    using Cons.prems(1) by (cases ds) auto
  obtain s1 where s1: "Advance b s ev = Ok s1" "advanceAll b ops (SetVid b (EvId ops ev) s1) evs = Ok s'"
    using Cons.prems(4) by (auto simp: outcome_simps)
  have "iterNext ops \<lparr>it_mongo = Some (ds, err), it_prev = p, it_err = None\<rparr> =
      Ok (Some ev, \<lparr>it_mongo = Some (ds', err), it_prev = EvId ops ev, it_err = None\<rparr>)"
    using ds stored_unmarshal [of ev v] Cons.prems(2,3) by (simp add: iterNext_def)
  then show ?case
    using Cons.IH [OF ds(3) _ _ s1(2)] Cons.prems(2,3) s1(1) by (subst findLoop.simps) simp
qed

text \<open>The log of a history in \<open>H\<close>.\<close>

lemma tracks_log:
  assumes t: "tracks L par v h xs" and h: "h \<in> H"
  obtains s evs ys where "live b ops pre h s evs" "map (EvId ops) evs = xs @ ys"
    "\<forall>ev \<in> set evs. wf ev \<and> stored ops v ev" "tracks L par v h (xs @ ys)"
proof -
  obtain r ys where r: "mv_refs v h = Some r" and c: "chain (mv_events v) par (rf_Head r) (xs @ ys)"
    and inv: "jinv L par v" using t unfolding tracks_def by blast
  obtain zs where "chain (mv_events v) par (rf_Head r) zs" "L h (mv_events v) zs"
    using ref_invE [OF jinv_ref [OF inv r]] .
  then have "L h (mv_events v) (xs @ ys)" using chain_det [OF c] by simp
  then obtain s evs where "live b ops pre h s evs" "map (EvId ops) evs = xs @ ys"
    "\<forall>ev \<in> set evs. wf ev \<and> stored ops v ev"
    using h unfolding live_hist_def stored_def by blast
  moreover have "tracks L par v h (xs @ ys)" using r c inv unfolding tracks_def by (metis append_Nil2)
  ultimately show thesis by (rule that)
qed

lemma snapshot_log:
  assumes "jinv L par v" and "snapshot par v h xs" and "xs \<noteq> []" and "h \<in> H"
  obtains s evs where "live b ops pre h s evs" "map (EvId ops) evs = xs"
    "\<forall>ev \<in> set evs. wf ev \<and> stored ops v ev" "tracks L par v h xs"
proof -
  obtain r where r: "mv_refs v h = Some r" and c: "chain (mv_events v) par (rf_Head r) xs"
    using assms(2,3) unfolding snapshot_def by (auto split: option.splits if_splits)
  obtain zs where "chain (mv_events v) par (rf_Head r) zs" "L h (mv_events v) zs"
    using ref_invE [OF jinv_ref [OF assms(1) r]] .
  then have "L h (mv_events v) xs" using chain_det [OF c] by simp
  then obtain s evs where "live b ops pre h s evs" "map (EvId ops) evs = xs"
    "\<forall>ev \<in> set evs. wf ev \<and> stored ops v ev"
    using assms(4) unfolding live_hist_def stored_def by blast
  moreover have "tracks L par v h xs" using r c assms(1) unfolding tracks_def by (metis append_Nil2)
  ultimately show thesis by (rule that)
qed

text \<open>Two tracked chains of a history: one is a prefix of the other.\<close>

lemma tracks_linear:
  assumes "tracks L par v h xs" and "tracks L par v h ys"
  obtains zs where "distinct zs" "0 \<notin> set zs" "xs = take (length xs) zs" "ys = take (length ys) zs"
proof -
  obtain r as bs where "mv_refs v h = Some r" and c: "chain (mv_events v) par (rf_Head r) (xs @ as)"
    and c': "chain (mv_events v) par (rf_Head r) (ys @ bs)"
    using assms unfolding tracks_def by auto
  have e: "ys @ bs = xs @ as" using chain_det [OF c c'] .
  show thesis
    using that [of "xs @ as"] chain_distinct [OF c] chain_nonzero [OF c] e
    by (metis append_eq_conv_conj)
qed


lemma known_ids: "known v h s evs \<Longrightarrow> StId b s = h" "known v h s evs \<Longrightarrow> StVid b s = lastId ops 0 evs"
  unfolding known_def using live_id live_vid by blast+

lemma known_live: "known v h s evs \<Longrightarrow> live b ops pre h s evs"
  by (simp add: known_def)

lemma known_new: "known v h (SetVid b EventEpoch (NewState b h)) []"
  unfolding known_def by (simp add: live_new)

lemma lastId_nth: "evs \<noteq> [] \<Longrightarrow> lastId ops p evs = map (EvId ops) evs ! (length evs - 1)"
  by (simp add: lastId_last last_conv_nth)

lemma after_pos_known:
  assumes k: "known v h s evs" and a: "after_pos v h xs (StVid b s) n"
  shows "n = length evs"
proof (cases "n = 0")
  case True
  then have z: "lastId ops 0 evs = 0" using a known_ids [OF k] by (simp add: after_pos_def)
  show ?thesis
  proof (cases "evs = []")
    case False
    then have t: "tracks L par v h (map (EvId ops) evs)" using k by (simp add: known_def)
    have "0 \<in> set (map (EvId ops) evs)" using z lastId_nth [OF False, of 0] False by (metis length_greater_0_conv length_map nth_mem diff_less zero_less_one)
    then show ?thesis using tracks_linear [OF t t] by (metis in_set_takeD)
  qed (use True in simp)
next
  case False
  then obtain ys where t: "tracks L par v h (xs @ ys)" and n: "n \<le> length (xs @ ys)"
    and e: "(xs @ ys) ! (n - 1) = lastId ops 0 evs"
    using a known_ids [OF k] by (auto simp: after_pos_def)
  have ne: "evs \<noteq> []"
  proof
    assume "evs = []"
    then have "(xs @ ys) ! (n - 1) = 0" using e by simp
    then have "0 \<in> set (xs @ ys)" using n False by (metis One_nat_def diff_less gr_zeroI less_le_trans nth_mem zero_less_one)
    then show False using tracks_linear [OF t t] by (metis in_set_takeD)
  qed
  then have t': "tracks L par v h (map (EvId ops) evs)" using k by (simp add: known_def)
  obtain zs where zs: "distinct zs" "xs @ ys = take (length (xs @ ys)) zs"
    "map (EvId ops) evs = take (length (map (EvId ops) evs)) zs"
    using tracks_linear [OF t t'] by metis
  have len: "length (xs @ ys) \<le> length zs" "length evs \<le> length zs"
    using zs(2,3) by (metis length_take min.bounded_iff order.refl, metis length_map length_take min.bounded_iff order.refl)
  have l: "n - 1 < length (xs @ ys)" "length evs - 1 < length evs" using False n ne by auto
  have "zs ! (n - 1) = (xs @ ys) ! (n - 1)" using zs(2) l(1) by (metis nth_take)
  also have "\<dots> = map (EvId ops) evs ! (length evs - 1)" using e lastId_nth [OF ne] by simp
  also have "\<dots> = zs ! (length evs - 1)" using zs(3) l(2) by (metis length_map nth_take)
  finally have "n - 1 = length evs - 1"
    using nth_eq_iff_index_eq [OF zs(1)] l len by (meson order_less_le_trans)
  then show ?thesis using False ne by (cases evs) auto
qed

text \<open>
  The state that is found: it is known, and it is the state of the history at a point in time between the
  call and the return, unless the history is missing or inactive then.
\<close>

definition found :: "uuid \<Rightarrow> MongoView \<Rightarrow> 's \<Rightarrow> MongoView \<Rightarrow> bool" where
  "found h v s v' \<longleftrightarrow>
     (\<exists>v0 xs evs. evolves L par v v0 \<and> evolves L par v0 v' \<and> snapshot par v0 h xs \<and> known v' h s evs \<and>
        (xs \<noteq> [] \<longrightarrow> map (EvId ops) evs = xs))"

fun isPkgDBError :: "'e EngineError \<Rightarrow> bool" where
  "isPkgDBError (PkgError e) = isDBError e"
| "isPkgDBError _ = False"

lemma findLoop_done:
  assumes "it_err it \<noteq> None \<or> it_mongo it = None"
  shows "findLoop b ops ch s it = Ok (s, ch, it)"
  using assms by (subst findLoop.simps) (auto simp: iterNext_def)

lemma bytesOf_docs: "map ed_Protobuf (docs v (map (EvId ops) evs)) = map (bytesOf v) evs"
  by simp

text \<open>What the loop makes of an iterator over the events after the version of a known state.\<close>

lemma known_extends:
  assumes k: "known v h s evs0" and snap: "snapshot par v h xs" and ne: "xs \<noteq> []"
    and evs: "live b ops pre h s1 evs" "map (EvId ops) evs = xs" "\<forall>ev \<in> set evs. wf ev \<and> stored ops v ev"
  obtains more where "evs = evs0 @ more" "advanceAll b ops s more = Ok s1" "chained ops (StVid b s) more"
proof -
  have "\<exists>ys. xs = map (EvId ops) evs0 @ ys"
  proof (cases "evs0 = []")
    case False
    obtain r where r: "mv_refs v h = Some r" "chain (mv_events v) par (rf_Head r) xs"
      using snap ne unfolding snapshot_def by (auto split: option.splits if_splits)
    then obtain ys where "chain (mv_events v) par (rf_Head r) (map (EvId ops) evs0 @ ys)"
      using k False unfolding known_def tracks_def by auto
    then show ?thesis using chain_det r(2) by metis
  qed simp
  then have "map (EvId ops) (take (length evs0) evs) = map (EvId ops) evs0"
    using evs(2) by (auto simp: take_map [symmetric])
  then have "take (length evs0) evs = evs0"
    using stored_list_inj [of evs0 v "take (length evs0) evs"] k evs(3) by (auto simp: known_def dest: in_set_takeD)
  then have app: "evs = evs0 @ drop (length evs0) evs" by (metis append_take_drop_id)
  have s: "advanceAll b ops (SetVid b 0 (NewState b h)) evs0 = Ok s" using k live_replay unfolding known_def by blast
  have "advanceAll b ops s (drop (length evs0) evs) = Ok s1"
    using live_replay [OF evs(1)] s by (subst (asm) app) (simp add: advanceAll_append)
  moreover have "chained ops (StVid b s) (drop (length evs0) evs)"
    using live_chained [OF evs(1)] known_ids(2) [OF k] by (subst (asm) app) simp
  ultimately show thesis using that app by blast
qed

lemma findLoop_yields:
  assumes h: "h \<in> H" and inv: "jinv L par v" and k: "known v h s evs0"
    and it: "iter_yields h (StVid b s) v it v'"
  shows "\<exists>s' ch it'. findLoop b ops False s it = Ok (s', ch, it') \<and> (\<not> ch \<longrightarrow> s' = s) \<and>
    (case iterClose it' of Some e \<Rightarrow> isDBError e | None \<Rightarrow> found h v s' v')"
proof -
  obtain v0 xs where v0: "evolves L par v v0" "evolves L par v0 v'" "snapshot par v0 h xs"
    and c: "case it_err it of
           Some e \<Rightarrow> isDBError e \<and> it_mongo it = None
         | None \<Rightarrow>
             (case it_mongo it of
                None \<Rightarrow> xs = []
              | Some (ds, err) \<Rightarrow>
                  \<exists>k rest. after_pos v' h xs (StVid b s) k \<and> it_prev it = StVid b s \<and>
                    map jd_Protobuf ds @ rest = map ed_Protobuf (docs v' (drop k xs)) \<and>
                    (err = None \<longrightarrow> rest = []))"
    using it unfolding iter_yields_def by blast
  note k' = known_evolves [OF k evolves_trans [OF v0(1,2)]]
  have same: "found h v s v'" if "xs = []" using that v0 k' unfolding found_def by blast
  show ?thesis
  proof (cases "it_err it")
    case (Some e)
    then show ?thesis using c findLoop_done [of it] by (auto simp: iterClose_def)
  next
    case none: None
    show ?thesis
    proof (cases "it_mongo it")
      case None
      then show ?thesis using c none findLoop_done [of it] same by (auto simp: iterClose_def)
    next
      case (Some x)
      then obtain ds err rest n where it': "it_mongo it = Some (ds, err)" "after_pos v' h xs (StVid b s) n"
        "it_prev it = StVid b s" "map jd_Protobuf ds @ rest = map ed_Protobuf (docs v' (drop n xs))"
        "err = None \<longrightarrow> rest = []"
        using c none by (cases x) auto
      then have it_eq: "it = \<lparr>it_mongo = Some (ds, err), it_prev = StVid b s, it_err = None\<rparr>" using none by simp
      have n: "n = length evs0" by (rule after_pos_known [OF k' it'(2)])
      show ?thesis
      proof (cases "xs = []")
        case True
        then have "ds = []" using it'(4) by simp
        then show ?thesis using same [OF True] findLoop_replays [of ds v' "[]" "StVid b s" s s False err]
          by (cases err) (auto simp: it_eq iterClose_def)
      next
        case False
        obtain s1 evs where evs: "live b ops pre h s1 evs" "map (EvId ops) evs = xs"
          "\<forall>ev \<in> set evs. wf ev \<and> stored ops v0 ev" "tracks L par v0 h xs"
          using snapshot_log [OF evolves_jinv [OF v0(1) inv] v0(3) False h] .
        obtain more where more: "evs = evs0 @ more" "advanceAll b ops s more = Ok s1" "chained ops (StVid b s) more"
          using known_extends [OF known_evolves [OF k v0(1)] v0(3) False evs(1-3)] .
        have st: "\<forall>ev \<in> set evs. wf ev \<and> stored ops v' ev"
          using evs(3) by (auto intro: stored_evolves [OF _ v0(2)])
        have known: "known v' h s1 evs"
          unfolding known_def using evs(1,2) st tracks_evolves [OF evs(4) v0(2)] by simp
        have drop: "drop n xs = map (EvId ops) more" using evs(2) more(1) n by auto
        define j where "j = length ds"
        have ds: "map jd_Protobuf ds = map (bytesOf v') (take j more)"
          using it'(4) unfolding drop bytesOf_docs j_def by (metis append_eq_conv_conj length_map take_map)
        have split: "more = take j more @ drop j more" by simp
        obtain s2 where s2: "advanceAll b ops s (take j more) = Ok s2"
          using more(2) by (subst (asm) split, simp only: advanceAll_append outcome_simps) blast
        have "chained ops (StVid b s) (take j more)"
          using more(3) by (subst (asm) split) (simp only: chained_append)
        then have loop: "findLoop b ops False s it =
            Ok (s2, take j more \<noteq> [], \<lparr>it_mongo = Some ([], err), it_prev = lastId ops (StVid b s) (take j more), it_err = None\<rparr>)"
          using findLoop_replays [OF ds _ _ s2, of "StVid b s" False err] st more(1)
          unfolding it_eq by (auto dest: in_set_takeD)
        have "found h v s2 v'" if "err = None"
        proof -
          have "length more = j"
            using arg_cong [OF it'(4), of length] it'(5) that by (simp add: drop j_def)
          then have "s2 = s1" using s2 more(2) by simp
          then show ?thesis using v0 known evs(2) unfolding found_def by blast
        qed
        then show ?thesis using loop s2 by (cases err) (auto simp: iterClose_def)
      qed
    qed
  qed
qed

definition on_view :: "('a \<Rightarrow> MongoView \<Rightarrow> (uuid \<rightharpoonup> 's) \<Rightarrow> bool) \<Rightarrow> ('e EngineError \<Rightarrow> MongoView \<Rightarrow> (uuid \<rightharpoonup> 's) \<Rightarrow> bool) \<Rightarrow>
    ('e EngineError, 'a) outcome \<Rightarrow> MongoView \<times> (uuid \<rightharpoonup> 's) \<times> uuid list \<Rightarrow> bool" where
  "on_view Q EP r x \<longleftrightarrow> (case x of (v', c', ps') \<Rightarrow>
     (case r of Ok a \<Rightarrow> Q a v' c' | Err e \<Rightarrow> EP e v' c' | Panic p \<Rightarrow> False))"

lemma on_view_simps [simp]:
  "on_view Q EP (Ok a) (v', c', ps') = Q a v' c'"
  "on_view Q EP (Err e) (v', c', ps') = EP e v' c'"
  "on_view Q EP (Panic p) x = False"
  by (simp_all add: on_view_def split: prod.split)

lemma triple_onDb_jpost:
  assumes "triple view v prog (jpost L par v EP Q)"
  shows "triple view2 (v, c, ps) (onDb prog)
    (on_view (\<lambda>a v' c'. c' = c \<and> evolves L par v v' \<and> Q a v')
       (\<lambda>e v' c'. c' = c \<and> evolves L par v v' \<and> (\<exists>e'. e = PkgError e' \<and> EP e')))"
proof (rule triple_onDb [OF assms])
  fix r v' assume "jpost L par v EP Q r v'"
  then show "on_view (\<lambda>a v' c'. c' = c \<and> evolves L par v v' \<and> Q a v')
       (\<lambda>e v' c'. c' = c \<and> evolves L par v v' \<and> (\<exists>e'. e = PkgError e' \<and> EP e'))
       (map_err PkgError r) (v', c, ps)"
    by (cases r) auto
qed

lemma triple_dbind_view:
  assumes "triple view2 x prog (on_view Q EP)"
    and "\<And>a v' c' ps'. Q a v' c' \<Longrightarrow> triple view2 (v', c', ps') (f a) R"
    and "\<And>e v' c' ps'. EP e v' c' \<Longrightarrow> R (Err e) (v', c', ps')"
  shows "triple view2 x (dbind prog f) R"
  by (rule triple_dbind [OF assms(1)]) (use assms(2,3) in auto)

lemma triple_FindFromState:
  assumes h: "h \<in> H" and inv: "jinv L par v" and k: "known v h s evs0" and c: "cache_ok v c"
  shows "triple view2 (v, c, ps) (FindFromState m dp ub b ops s) (epost v isPkgDBError (found h v))"
  unfolding FindFromState_def known_ids(1) [OF k]
proof (rule triple_dbind_view [OF triple_onDb_jpost [OF triple_journalFind [OF inv]]], goal_cases)
  case (1 it v' c' ps')
  then have ev: "evolves L par v v'" and it: "iter_yields h (StVid b s) v it v'" and c': "cache_ok v' c'"
    using cache_ok_evolves [OF c] by auto
  obtain s' ch it' where loop: "findLoop b ops False s it = Ok (s', ch, it')" "\<not> ch \<longrightarrow> s' = s"
    and close: "case iterClose it' of Some e \<Rightarrow> isDBError e | None \<Rightarrow> found h v s' v'"
    using findLoop_yields [OF h inv k it] by blast
  show ?case
  proof (cases "iterClose it'")
    case None
    then have f: "found h v s' v'" using close by simp
    then obtain evs where k': "known v' h s' evs" unfolding found_def by blast
    then show ?thesis using loop None ev c' f cache_ok_upd [OF c' k'] known_ids(1) [OF k']
      by (auto intro!: triple_ret triple_setCache)
  qed (use loop close ev c' in \<open>auto intro!: triple_ret\<close>)
qed auto

lemma triple_FindId:
  assumes h: "h \<in> H" and inv: "jinv L par v" and c: "cache_ok v c"
  shows "triple view2 (v, c, ps) (FindId m dp ub b ops h) (epost v isPkgDBError (found h v))"
  unfolding FindId_def
proof (rule triple_getCache)
  show "triple view2 (v, c, ps) (case c h of
       Some s \<Rightarrow> FindFromState m dp ub b ops s
     | None \<Rightarrow> FindFromState m dp ub b ops (SetVid b EventEpoch (NewState b h)))
     (epost v isPkgDBError (found h v))"
  proof (cases "c h")
    case None
    then show ?thesis using triple_FindFromState [OF h inv known_new c] by simp
  next
    case (Some s)
    then obtain evs where "known v h s evs" using c h unfolding cache_ok_def by blast
    then show ?thesis using triple_FindFromState [OF h inv _ c] Some by auto
  qed
qed


text \<open>Telling a command to a known state.\<close>

abbreviation good_ids :: "ulid_source \<Rightarrow> bool" where
  "good_ids g \<equiv> \<forall>n i. g n = Inr i \<longrightarrow> i \<noteq> ulidNil"

definition told :: "uuid \<Rightarrow> MongoView \<Rightarrow> ulid_source \<Rightarrow> 's \<Rightarrow> 'c \<Rightarrow> 's \<Rightarrow> MongoView \<Rightarrow> bool" where
  "told h v g s cmd s' v' \<longleftrightarrow>
     (\<exists>evs log. Tell b g s cmd = Ok evs \<and> advanceAll b ops s evs = Ok s' \<and> known v' h s' (log @ evs) \<and>
        (evs = [] \<or> (\<exists>v1. evolves L par v v1 \<and>
           commit_point ops par h (StVid b s) evs (map (EvId ops) log) v1 v')))"

fun isTellError :: "uuid \<Rightarrow> ulid_source \<Rightarrow> 's \<Rightarrow> 'c \<Rightarrow> 'e EngineError \<Rightarrow> bool" where
  "isTellError h g s cmd (PkgError e) \<longleftrightarrow> isCommitError h (StVid b s) e"
| "isTellError h g s cmd (BehaviorError e) \<longleftrightarrow> Tell b g s cmd = Err e"
| "isTellError h g s cmd (RetryNoVCError e) \<longleftrightarrow> False"

lemma known_chain:
  assumes k: "known v h s log" and c: "chain (mv_events v) par (StVid b s) xs"
  shows "xs = map (EvId ops) log"
proof (cases "log = []")
  case True
  then show ?thesis using c known_ids(2) [OF k] by simp
next
  case False
  then have "chain (mv_events v) par (last (map (EvId ops) log)) (map (EvId ops) log)"
    using k tracks_chain [of v h "map (EvId ops) log"] by (simp add: known_def)
  then show ?thesis using chain_det [OF c] known_ids(2) [OF k] False by (simp add: lastId_last last_map)
qed

lemma Tell_extends:
  assumes h: "h \<in> H" and k: "known v h s log" and p: "pre s cmd" and t: "Tell b g s cmd = Ok evs"
    and g: "good_ids g" and a: "advanceAll b ops s evs = Ok s'"
  shows "extends v h (StVid b s) evs"
  unfolding extends_def
proof (intro allI impI)
  fix v1 xs assume ev: "evolves L par v v1" and c: "chain (mv_events v1) par (StVid b s) xs"
    and st: "\<forall>ev \<in> set evs. stored ops v1 ev"
  note k1 = known_evolves [OF k ev]
  have "xs = map (EvId ops) log" by (rule known_chain [OF k1 c])
  moreover have "live b ops pre h s' (log @ evs)"
    by (rule live_tell [OF known_live [OF k] p t a])
  moreover have "\<forall>ev \<in> set (log @ evs). wf ev \<and> stored ops v1 ev"
    using k1 st Tell_events [OF live_inv [OF known_live [OF k]] p t g] by (auto simp: known_def)
  ultimately show "L h (mv_events v1) (xs @ map (EvId ops) evs)"
    unfolding live_hist_def stored_def by (metis map_append)
qed

lemma triple_TellState:
  assumes h: "h \<in> H" and inv: "jinv L par v" and k: "known v h s log" and c: "cache_ok v c"
    and p: "pre s cmd" and g: "good_ids g" "good_ids g'"
  shows "triple view2 (v, c, ps) (TellState m b ops g g' s cmd)
    (epost v (isTellError h g s cmd) (told h v g s cmd))"
proof (cases "Tell b g s cmd")
  case (Panic x)
  then show ?thesis using live_no_panic k p unfolding known_def by (metis is_Panic.simps(1))
next
  case (Err e)
  have "triple view2 (v, c, ps) (tellStateEvents m b ops g g' s cmd)
     (on_view (\<lambda>_ _ _. False) (\<lambda>e' v' c'. v' = v \<and> c' = c \<and> e' = BehaviorError e))"
    using Err by (auto simp: tellStateEvents_def intro!: triple_ret)
  then show ?thesis unfolding TellState_def
    by (rule triple_dbind_view) (use Err c in auto)
next
  case (Ok evs)
  obtain s' where a: "advanceAll b ops s evs = Ok s'" and "sinv s'"
    using Tell_advances [OF _ p Ok] live_inv k unfolding known_def by blast
  have l: "live b ops pre h s' (log @ evs)" by (rule live_tell [OF known_live [OF k] p Ok a])
  show ?thesis
  proof (cases "evs = []")
    case True
    have "triple view2 (v, c, ps) (tellStateEvents m b ops g g' s cmd)
       (on_view (\<lambda>r v' c'. r = None \<and> v' = v \<and> c' = c) (\<lambda>_ _ _. False))"
      using Ok True by (auto simp: tellStateEvents_def intro!: triple_ret)
    moreover have "told h v g s cmd s v" using Ok True a k unfolding told_def by auto
    ultimately show ?thesis unfolding TellState_def
      by (elim triple_dbind_view) (use c in \<open>auto intro!: triple_ret\<close>)
  next
    case False
    have ch: "chained ops (StVid b s) evs" by (rule Tell_chained [OF Ok])
    then have hd: "EvParent ops (hd evs) = StVid b s" using False by (cases evs) auto
    have wf: "\<forall>ev \<in> set evs. wf ev \<and> EvId ops ev \<noteq> ulidNil" by (rule Tell_events [OF live_inv [OF known_live [OF k]] p Ok g(1)])
    have same: "eventsWithId ops g' evs = Inr evs" by (rule eventsWithId_same [OF ch wf])
    have "triple view v (journalCommit m ops g' h evs)
      (jpost L par v (isCommitError h (StVid b s)) (\<lambda>(out, posted) v'.
         out = evs \<and> (\<exists>v1 xs. evolves L par v v1 \<and> commit_point ops par h (StVid b s) out xs v1 v')))"
    proof (rule triple_conseq [OF triple_journalCommit [OF inv False _ g(2)]])
      show "\<And>out. eventsWithId ops g' evs = Inr out \<Longrightarrow> extends v h (EvParent ops (hd evs)) out"
        using same Tell_extends [OF h k p Ok g(1) a] unfolding hd by simp
    next
      fix r v' assume "jpost L par v (isCommitError h (EvParent ops (hd evs)))
          (\<lambda>(out, posted) v'. eventsWithId ops g' evs = Inr out \<and> posted = [h] \<and>
             (\<exists>v1 xs. evolves L par v v1 \<and> commit_point ops par h (EvParent ops (hd evs)) out xs v1 v')) r v'"
      then show "jpost L par v (isCommitError h (StVid b s)) (\<lambda>(out, posted) v'.
         out = evs \<and> (\<exists>v1 xs. evolves L par v v1 \<and> commit_point ops par h (StVid b s) out xs v1 v')) r v'"
        unfolding hd same by (cases r) auto
    qed (use wf in blast)
    note commit = triple_onDb_jpost [OF this, of c ps]
    have events: "triple view2 (v, c, ps) (tellStateEvents m b ops g g' s cmd)
      (on_view (\<lambda>r v' c'. r = Some evs \<and> c' = c \<and> evolves L par v v' \<and>
           (\<exists>v1 xs. evolves L par v v1 \<and> commit_point ops par h (StVid b s) evs xs v1 v'))
         (\<lambda>e v' c'. c' = c \<and> evolves L par v v' \<and> (\<exists>e'. e = PkgError e' \<and> isCommitError h (StVid b s) e')))"
      unfolding tellStateEvents_def Ok outcome.case if_not_P [OF False] known_ids(1) [OF k]
      by (rule triple_dbind_view [OF commit]) (auto intro!: triple_post triple_ret, blast)
    show ?thesis unfolding TellState_def
    proof (rule triple_dbind_view [OF events], goal_cases)
      case (1 r v' c' ps')
      then obtain v1 xs where r: "r = Some evs" "c' = c" and ev: "evolves L par v v'" "evolves L par v v1"
        and cp: "commit_point ops par h (StVid b s) evs xs v1 v'" by blast
      have xs: "xs = map (EvId ops) log"
        using known_chain [OF known_evolves [OF k ev(2)]] cp unfolding commit_point_def by blast
      have "mv_events v' = mv_events v1" using cp unfolding commit_point_def by auto
      then have st: "\<forall>ev \<in> set evs. stored ops v' ev" using cp unfolding commit_point_def stored_def by auto
      obtain rf where "mv_refs v' h = Some rf" "chain (mv_events v') par (rf_Head rf) (map (EvId ops) (log @ evs))"
        using cp xs unfolding commit_point_def by auto
      then have "tracks L par v' h (map (EvId ops) (log @ evs))"
        using evolves_jinv [OF ev(1) inv] unfolding tracks_def by (metis append_Nil2)
      then have k': "known v' h s' (log @ evs)"
        using l st wf known_evolves [OF k ev(1)] unfolding known_def by auto
      have "told h v g s cmd s' v'" using Ok a k' cp ev(2) xs unfolding told_def by blast
      then show ?case
        using r a ev(1) cache_ok_upd [OF cache_ok_evolves [OF c ev(1)] k'] known_ids(1) [OF k']
        by (auto intro!: triple_setCache triple_ret)
    qed (use cache_ok_evolves [OF c] in auto)
  qed
qed


text \<open>\<open>TellIdVid()\<close> tells the command to a state that it found, with the requested version if there is one.\<close>

definition found_told :: "uuid \<Rightarrow> ('s \<Rightarrow> bool) \<Rightarrow> 'c \<Rightarrow> MongoView \<Rightarrow> 's \<Rightarrow> MongoView \<Rightarrow> bool" where
  "found_told h P cmd v s' v' \<longleftrightarrow>
     (\<exists>v1 s g. evolves L par v v1 \<and> found h v s v1 \<and> P s \<and> told h v1 g s cmd s' v')"

lemma found_from: "evolves L par v v1 \<Longrightarrow> found h v1 s v' \<Longrightarrow> found h v s v'"
  unfolding found_def using evolves_trans by blast

lemma found_told_from:
  assumes "evolves L par v v2" and "found_told h P cmd v2 s' v'"
  shows "found_told h P cmd v s' v'"
proof -
  obtain v1 s g where "evolves L par v2 v1" "found h v2 s v1" "P s" "told h v1 g s cmd s' v'"
    using assms(2) unfolding found_told_def by blast
  then show ?thesis
    using found_from [OF assms(1)] evolves_trans [OF assms(1)] unfolding found_told_def by blast
qed

lemma epost_from:
  assumes "evolves L par v v1" and "triple view2 (v1, c, ps) prog (epost v1 EP Q)"
    and "\<And>a v'. Q a v' \<Longrightarrow> Q' a v'" and "\<And>e. EP e \<Longrightarrow> EP' e"
  shows "triple view2 (v1, c, ps) prog (epost v EP' Q')"
proof (rule triple_conseq [OF assms(2)])
  fix r x assume "epost v1 EP Q r x"
  then show "epost v EP' Q' r x"
    using assms(3,4) evolves_trans [OF assms(1)] by (cases r; cases x) auto
qed

lemma triple_dbind_epost:
  assumes "triple view2 (v, c, ps) prog (epost v EP Q)"
    and "\<And>a v1 c1 ps1. evolves L par v v1 \<Longrightarrow> cache_ok v1 c1 \<Longrightarrow> Q a v1 \<Longrightarrow>
      triple view2 (v1, c1, ps1) (f a) (epost v (\<lambda>_. True) R)"
  shows "triple view2 (v, c, ps) (dbind prog f) (epost v (\<lambda>_. True) R)"
proof (rule triple_dbind [OF assms(1)], goal_cases)
  case (1 a x)
  then show ?case using assms(2) by (cases x) auto
next
  case (2 e x)
  then show ?case by (cases x) auto
next
  case (3 p x)
  then show ?case by (cases x) auto
qed

lemma triple_find_tell:
  assumes h: "h \<in> H" and inv: "jinv L par v" and f: "found h v s v1" and c: "cache_ok v1 c1"
    and pre: "\<And>s log. live b ops pre h s log \<Longrightarrow> pre s cmd" and P: "P s"
    and g: "good_ids g" "good_ids g'" and ev: "evolves L par v v1"
  shows "triple view2 (v1, c1, ps1) (TellState m b ops g g' s cmd)
    (epost v (\<lambda>_. True) (found_told h P cmd v))"
proof -
  obtain log where k: "known v1 h s log" using f unfolding found_def by blast
  show ?thesis
    by (rule epost_from [OF ev triple_TellState [OF h evolves_jinv [OF ev inv] k c
          pre [OF known_live [OF k]] g]])
      (use f ev P in \<open>auto simp: found_told_def\<close>)
qed

lemma triple_retryLoop:
  assumes h: "h \<in> H" and pre: "\<And>s log. live b ops pre h s log \<Longrightarrow> pre s cmd"
    and g: "\<And>n. good_ids (fst (gs n))" "\<And>n. good_ids (snd (gs n))"
    and inv: "jinv L par v" and c: "cache_ok v c"
  shows "triple view2 (v, c, ps) (retryLoop m dp ub b ops bc gs h cmd n)
    (epost v (\<lambda>_. True) (found_told h (\<lambda>_. True) cmd v))"
  using inv c
proof (induction n arbitrary: v c ps)
  case 0
  show ?case unfolding retryLoop.simps
  proof (rule triple_dbind_epost [OF triple_FindId [OF h 0]], goal_cases)
    case (1 s v1 c1 ps1)
    have tell: "triple view2 (v1, c1, ps1) (TellState m b ops (fst (gs 0)) (snd (gs 0)) s cmd)
        (epost v (\<lambda>_. True) (found_told h (\<lambda>_. True) cmd v))"
      by (rule triple_find_tell [OF h 0(1) 1(3,2)]) (simp_all add: pre g 1(1))
    show ?case
    proof (rule triple_dtry [OF tell], goal_cases)
      case (1 a x) then show ?case by (cases x) (auto intro: triple_ret)
    next
      case (2 e x) then show ?case by (cases x) (auto intro: triple_ret)
    next
      case (3 p x) then show ?case by (cases x) auto
    qed
  qed
next
  case (Suc n)
  show ?case unfolding retryLoop.simps
  proof (rule triple_dbind_epost [OF triple_FindId [OF h Suc.prems]], goal_cases)
    case (1 s v1 c1 ps1)
    have tell: "triple view2 (v1, c1, ps1) (TellState m b ops (fst (gs (Suc n))) (snd (gs (Suc n))) s cmd)
        (epost v (\<lambda>_. True) (found_told h (\<lambda>_. True) cmd v))"
      by (rule triple_find_tell [OF h Suc.prems(1) 1(3,2)]) (simp_all add: pre g 1(1))
    show ?case
    proof (rule triple_dtry [OF tell], goal_cases)
      case (1 a x) then show ?case by (cases x) (auto intro: triple_ret)
    next
      case (2 e x)
      obtain v2 c2 ps2 where x: "x = (v2, c2, ps2)" by (cases x)
      then have ev2: "evolves L par v v2" and c2: "cache_ok v2 c2" using 2 by simp_all
      have "triple view2 (v2, c2, ps2) (retryLoop m dp ub b ops bc gs h cmd n)
          (epost v (\<lambda>_. True) (found_told h (\<lambda>_. True) cmd v))"
        by (rule epost_from [OF ev2 Suc.IH [OF evolves_jinv [OF ev2 Suc.prems(1)] c2]])
          (simp_all add: found_told_from [OF ev2])
      then show ?case using 2 x by (auto intro: triple_ret)
    next
      case (3 p x) then show ?case by (cases x) auto
    qed
  qed
qed

lemma triple_TellIdVidState:
  assumes h: "h \<in> H" and pre: "\<And>s log. live b ops pre h s log \<Longrightarrow> pre s cmd"
    and g: "\<And>n. good_ids (fst (gs n))" "\<And>n. good_ids (snd (gs n))"
    and inv: "jinv L par v" and c: "cache_ok v c"
  shows "triple view2 (v, c, ps) (TellIdVidState m dp ub b ops bc gs h vid cmd)
    (epost v (\<lambda>_. True) (found_told h (\<lambda>s. vid \<noteq> NoVC \<and> vid \<noteq> RetryNoVC \<longrightarrow> StVid b s = vid) cmd v))"
    (is "triple _ _ _ (epost v _ (found_told h ?P cmd v))")
proof -
  have tell: "triple view2 (v1, c1, ps1) (TellState m b ops (fst (gs 0)) (snd (gs 0)) s cmd)
      (epost v (\<lambda>_. True) (found_told h ?P cmd v))"
    if "found h v s v1" "cache_ok v1 c1" "evolves L par v v1" "?P s" for v1 c1 ps1 s
    by (rule triple_find_tell [OF h inv that(1,2)]) (simp_all add: pre g that(3,4))
  consider "vid = NoVC" | "vid \<noteq> NoVC" "vid = RetryNoVC" | "vid \<noteq> NoVC" "vid \<noteq> RetryNoVC" by blast
  then show ?thesis
  proof cases
    case 1
    then show ?thesis unfolding TellIdVidState_def tellIdVidNoVC_def if_P [OF 1]
      by (intro triple_dbind_epost [OF triple_FindId [OF h inv c]] tell) simp_all
  next
    case 2
    then show ?thesis unfolding TellIdVidState_def tellIdVidRetryNoVC_def
      using triple_retryLoop [OF h _ g inv c, of cmd] pre by simp
  next
    case 3
    show ?thesis unfolding TellIdVidState_def tellIdVidVC_def if_not_P [OF 3(1)] if_not_P [OF 3(2)]
    proof (rule triple_dbind_epost [OF triple_FindId [OF h inv c]], goal_cases)
      case (1 s v1 c1 ps1)
      then show ?case using tell [OF 1(3,2,1)] by (auto intro: triple_ret)
    qed
  qed
qed


lemma triple_TellIdVid:
  assumes "h \<in> H" and "\<And>s log. live b ops pre h s log \<Longrightarrow> pre s cmd"
    and "\<And>n. good_ids (fst (gs n))" "\<And>n. good_ids (snd (gs n))"
    and "jinv L par v" and "cache_ok v c"
  shows "triple view2 (v, c, ps) (TellIdVid m dp ub b ops bc gs h vid cmd)
    (epost v (\<lambda>_. True) (\<lambda>vid' v'. \<exists>s'. StVid b s' = vid' \<and>
       found_told h (\<lambda>s. vid \<noteq> NoVC \<and> vid \<noteq> RetryNoVC \<longrightarrow> StVid b s = vid) cmd v s' v'))"
  unfolding TellIdVid_def
proof (rule triple_dbind_epost [OF triple_TellIdVidState [OF assms(1) _ assms(3-6)]], goal_cases)
  case (2 s v1 c1 ps1)
  then show ?case by (intro triple_ret) auto
qed (rule assms(2))

text \<open>An engine starts with an empty cache.\<close>

lemma cache_ok_empty: "cache_ok v Map.empty"
  by (simp add: cache_ok_def)

text \<open>The results, without triples.\<close>

lemma TellIdVid_run:
  assumes "h \<in> H" and "\<And>s log. live b ops pre h s log \<Longrightarrow> pre s cmd"
    and "\<And>n. good_ids (fst (gs n))" "\<And>n. good_ids (snd (gs n))"
    and "jinv L par (view db)" and "cache_ok (view db) c"
  obtains r db' c' ps' where "TellIdVid m dp ub b ops bc gs h vid cmd (db, c, ps) = Some (r, (db', c', ps'))"
    "\<not> is_Panic r" "evolves L par (view db) (view db')" "cache_ok (view db') c'"
    "\<And>vid'. r = Ok vid' \<Longrightarrow> \<exists>s log g evs s'.
       live b ops pre h s log \<and> Tell b g s cmd = Ok evs \<and> live b ops pre h s' (log @ evs) \<and> StVid b s' = vid' \<and>
       (vid \<noteq> NoVC \<and> vid \<noteq> RetryNoVC \<longrightarrow> StVid b s = vid) \<and>
       (evs = [] \<or> (\<exists>v1. evolves L par (view db) v1 \<and>
          commit_point ops par h (StVid b s) evs (map (EvId ops) log) v1 (view db')))"
proof -
  have "triple view2 (view2 (db, c, ps)) (TellIdVid m dp ub b ops bc gs h vid cmd)
     (epost (view db) (\<lambda>_. True) (\<lambda>vid' v'. \<exists>s'. StVid b s' = vid' \<and>
       found_told h (\<lambda>s. vid \<noteq> NoVC \<and> vid \<noteq> RetryNoVC \<longrightarrow> StVid b s = vid) cmd (view db) s' v'))"
    unfolding view2_simp by (rule triple_TellIdVid [OF assms(1) _ assms(3-6)]) (rule assms(2))
  from triple_run [OF this] obtain r x where
    run: "TellIdVid m dp ub b ops bc gs h vid cmd (db, c, ps) = Some (r, x)"
    and post: "epost (view db) (\<lambda>_. True) (\<lambda>vid' v'. \<exists>s'. StVid b s' = vid' \<and>
       found_told h (\<lambda>s. vid \<noteq> NoVC \<and> vid \<noteq> RetryNoVC \<longrightarrow> StVid b s = vid) cmd (view db) s' v') r (view2 x)"
    by blast
  obtain db' c' ps' where x: "x = (db', c', ps')" by (cases x)
  have "\<exists>s log g evs s'.
       live b ops pre h s log \<and> Tell b g s cmd = Ok evs \<and> live b ops pre h s' (log @ evs) \<and> StVid b s' = vid' \<and>
       (vid \<noteq> NoVC \<and> vid \<noteq> RetryNoVC \<longrightarrow> StVid b s = vid) \<and>
       (evs = [] \<or> (\<exists>v1. evolves L par (view db) v1 \<and>
          commit_point ops par h (StVid b s) evs (map (EvId ops) log) v1 (view db')))" if r: "r = Ok vid'" for vid'
  proof -
    obtain s' v1 s g where "StVid b s' = vid'" and ev1: "evolves L par (view db) v1" and f: "found h (view db) s v1"
      and vid: "vid \<noteq> NoVC \<and> vid \<noteq> RetryNoVC \<longrightarrow> StVid b s = vid" and t: "told h v1 g s cmd s' (view db')"
      using post r x unfolding found_told_def by auto
    obtain log0 where k: "known v1 h s log0" using f unfolding found_def by blast
    obtain evs log where told: "Tell b g s cmd = Ok evs" "advanceAll b ops s evs = Ok s'"
      "known (view db') h s' (log @ evs)"
      "evs = [] \<or> (\<exists>v2. evolves L par v1 v2 \<and>
         commit_point ops par h (StVid b s) evs (map (EvId ops) log) v2 (view db'))"
      using t unfolding told_def by blast
    show ?thesis
    proof (cases "evs = []")
      case True
      then have "s' = s" using told(2) by simp
      then show ?thesis using True told known_live [OF k] \<open>StVid b s' = vid'\<close> vid
        by (intro exI [of _ s] exI [of _ log0] exI [of _ g] exI [of _ evs]) simp
    next
      case False
      then obtain v2 where ev2: "evolves L par v1 v2"
        and cp: "commit_point ops par h (StVid b s) evs (map (EvId ops) log) v2 (view db')" using told(4) by blast
      have "map (EvId ops) log = map (EvId ops) log0"
        using known_chain [OF known_evolves [OF k ev2]] cp unfolding commit_point_def by blast
      moreover have "live b ops pre h s' (log0 @ evs)"
        by (rule live_tell [OF known_live [OF k] assms(2) [OF known_live [OF k]] told(1,2)])
      ultimately show ?thesis
        using told(1) known_live [OF k] \<open>StVid b s' = vid'\<close> vid evolves_trans [OF ev1 ev2] cp by metis
    qed
  qed
  moreover have "\<not> is_Panic r" "evolves L par (view db) (view db')" "cache_ok (view db') c'"
    using post x by (cases r; simp)+
  ultimately show thesis using that run x by blast
qed

lemma FindId_run:
  assumes "h \<in> H" and "jinv L par (view db)" and "cache_ok (view db) c"
  obtains r db' c' ps' where "FindId m dp ub b ops h (db, c, ps) = Some (r, (db', c', ps'))"
    "\<not> is_Panic r" "evolves L par (view db) (view db')" "cache_ok (view db') c'"
    "\<And>e. r = Err e \<Longrightarrow> isPkgDBError e"
    "\<And>s. r = Ok s \<Longrightarrow> \<exists>log v0 xs. live b ops pre h s log \<and> evolves L par (view db) v0 \<and>
       evolves L par v0 (view db') \<and> snapshot par v0 h xs \<and> (xs \<noteq> [] \<longrightarrow> map (EvId ops) log = xs)"
proof -
  have "triple view2 (view2 (db, c, ps)) (FindId m dp ub b ops h) (epost (view db) isPkgDBError (found h (view db)))"
    unfolding view2_simp by (rule triple_FindId [OF assms])
  from triple_run [OF this] obtain r x where run: "FindId m dp ub b ops h (db, c, ps) = Some (r, x)"
    and post: "epost (view db) isPkgDBError (found h (view db)) r (view2 x)" by blast
  obtain db' c' ps' where x: "x = (db', c', ps')" by (cases x)
  have "\<exists>log v0 xs. live b ops pre h s log \<and> evolves L par (view db) v0 \<and>
       evolves L par v0 (view db') \<and> snapshot par v0 h xs \<and> (xs \<noteq> [] \<longrightarrow> map (EvId ops) log = xs)"
    if "r = Ok s" for s
  proof -
    have "found h (view db) s (view db')" using post x that by simp
    then show ?thesis unfolding found_def using known_live by blast
  qed
  moreover have "\<not> is_Panic r" "evolves L par (view db) (view db')" "cache_ok (view db') c'"
    using post x by (cases r; simp)+
  moreover have "isPkgDBError e" if "r = Err e" for e using post x that by simp
  ultimately show thesis using that run x by blast
qed

text \<open>Deleting a history: the behavior must answer the command without events.\<close>

lemma cache_ok_del: "cache_ok v c \<Longrightarrow> cache_ok v (c(h := None))"
  unfolding cache_ok_def by auto

lemma triple_deleteState:
  assumes h: "h \<in> H" and inv: "jinv L par v" and ev: "evolves L par v0 v" and k: "known v h s log"
    and c: "cache_ok v c" and p: "pre s cmd" and del: "\<And>evs. Tell b g s cmd = Ok evs \<Longrightarrow> evs = []"
  shows "triple view2 (v, c, ps) (deleteState m b g s cmd) (epost v0 (\<lambda>_. True) (\<lambda>_ _. True))"
proof (cases "Tell b g s cmd")
  case (Ok evs)
  then have "evs = []" by (rule del)
  have "triple view2 (v, c, ps) (dbind (onDb (journalDelete m h (StVid b s))) (\<lambda>_. setCache h None (ret (Ok ()))))
     (epost v0 (\<lambda>_. True) (\<lambda>_ _. True))"
    by (rule triple_dbind_view [OF triple_onDb_jpost [OF triple_journalDelete [OF inv]]])
      (use evolves_trans [OF ev] cache_ok_evolves [OF c] cache_ok_del in
        \<open>auto intro!: triple_setCache triple_ret\<close>)
  then show ?thesis using Ok \<open>evs = []\<close> known_ids(1) [OF k] by (simp add: deleteState_def)
next
  case (Err e)
  then show ?thesis using ev c by (auto simp: deleteState_def intro: triple_ret)
next
  case (Panic x)
  then show ?thesis using live_no_panic [OF known_live [OF k] p, of g] by simp
qed

lemma triple_DeleteIdVid:
  assumes h: "h \<in> H" and pre: "\<And>s log. live b ops pre h s log \<Longrightarrow> pre s cmd"
    and del: "\<And>s log evs. live b ops pre h s log \<Longrightarrow> Tell b g s cmd = Ok evs \<Longrightarrow> evs = []"
    and inv: "jinv L par v" and c: "cache_ok v c"
  shows "triple view2 (v, c, ps) (DeleteIdVid m dp ub b ops g h vid cmd) (epost v (\<lambda>_. True) (\<lambda>_ _. True))"
proof -
  have ds: "triple view2 (v1, c1, ps1) (deleteState m b g s cmd) (epost v (\<lambda>_. True) (\<lambda>_ _. True))"
    if ev: "evolves L par v v1" and c1: "cache_ok v1 c1" and f: "found h v' s v1" for v' v1 c1 ps1 s
  proof -
    obtain log where k: "known v1 h s log" using f unfolding found_def by blast
    show ?thesis
      by (rule triple_deleteState [OF h evolves_jinv [OF ev inv] ev k c1 pre [OF known_live [OF k]]])
        (rule del [OF known_live [OF k]])
  qed
  show ?thesis
  proof (cases "vid = NoVC \<or> vid = RetryNoVC")
    case True
    show ?thesis unfolding DeleteIdVid_def deleteIdVidNoVC_def if_P [OF True]
    proof (rule triple_dbind_view [OF triple_onDb_jpost [OF triple_journalHead [OF inv]]], goal_cases)
      case (1 hd v1 c1 ps1)
      then have ev: "evolves L par v v1" and c1: "cache_ok v1 c1" using cache_ok_evolves [OF c] by auto
      note inv1 = evolves_jinv [OF ev inv]
      have "triple view2 (v1, c1, ps1) (dbind (FindId m dp ub b ops h) (\<lambda>s. deleteState m b g s cmd))
          (epost v1 (\<lambda>_. True) (\<lambda>_ _. True))"
      proof (rule triple_dbind_epost [OF triple_FindId [OF h inv1 c1]], goal_cases)
        case (1 s v2 c2 ps2)
        obtain log where k: "known v2 h s log" using 1(3) unfolding found_def by blast
        show ?case
          by (rule triple_deleteState [OF h evolves_jinv [OF 1(1) inv1] 1(1) k 1(2) pre [OF known_live [OF k]]])
            (rule del [OF known_live [OF k]])
      qed
      then show ?case using epost_from [OF ev] ev c1 by (auto intro: triple_ret)
    qed (use cache_ok_evolves [OF c] in auto)
  next
    case False
    show ?thesis unfolding DeleteIdVid_def deleteIdVidVC_def if_not_P [OF False]
    proof (rule triple_dbind_epost [OF triple_FindId [OF h inv c]], goal_cases)
      case (1 s v1 c1 ps1)
      then show ?case using ds [OF 1] by (auto intro: triple_ret)
    qed
  qed
qed

end

end
