(* ===== verification/Event_Memory.thy ===== *)
theory Event_Memory
  imports Event_Store "HOL-Library.AList"
begin

text \<open>
  An executable database with the documented behaviour of MongoDB that the journal relies on:
  collections as association lists, and a list of faults that tells which of the next operations fail.
  It shows that the laws of \<open>mongo\<close> can hold, and the examples run on it.
\<close>

record MemDb =
  mem_events :: "(ulid \<times> EventDoc) list"
  mem_refs :: "(uuid \<times> RefsDoc) list"
  mem_journal :: "(idid \<times> JournalDoc) list"
  mem_faults :: "bool list"

definition mem_view :: "MemDb \<Rightarrow> MongoView" where
  "mem_view db = \<lparr>mv_events = map_of (mem_events db), mv_refs = map_of (mem_refs db),
     mv_journal = map_of (mem_journal db)\<rparr>"

definition memFault :: mgoerr where
  "memFault = ErrOther (GoErr ''fault'')"

definition memTry :: "(MemDb \<Rightarrow> 'r \<times> MemDb) \<Rightarrow> 'r \<Rightarrow> MemDb \<Rightarrow> 'r \<times> MemDb" where
  "memTry f failed db =
     (case mem_faults db of
        [] \<Rightarrow> f db
      | b # bs \<Rightarrow> if b then (failed, db\<lparr>mem_faults := bs\<rparr>) else f (db\<lparr>mem_faults := bs\<rparr>))"

definition memFind :: "('k \<times> 'd) list \<Rightarrow> 'k \<Rightarrow> mgoerr + 'd" where
  "memFind l k = (case map_of l k of None \<Rightarrow> Inl ErrNotFound | Some d \<Rightarrow> Inr d)"

definition memScan :: "(idid \<times> JournalDoc) list \<Rightarrow> idid \<Rightarrow> idid \<Rightarrow> (int \<Rightarrow> bool) \<Rightarrow> JournalDoc list" where
  "memScan l lo hi p =
     sort_key jd_Serial (remdups (map snd
       (filter (\<lambda>(k, d). lo \<le> k \<and> k \<le> hi \<and> p (jd_Serial d)) (AList.clearjunk l))))"

definition memMongo :: "MemDb Mongo" where
  "memMongo =
     \<lparr>EventsInsert = (\<lambda>d. memTry (\<lambda>db.
        if map_of (mem_events db) (ed_Id d) \<noteq> None then (Inl ErrDup, db)
        else (Inr (), db\<lparr>mem_events := (ed_Id d, d) # mem_events db\<rparr>)) (Inl memFault)),
      EventsFind = (\<lambda>i. memTry (\<lambda>db. (memFind (mem_events db) i, db)) (Inl memFault)),
      RefsFind = (\<lambda>h. memTry (\<lambda>db. (memFind (mem_refs db) h, db)) (Inl memFault)),
      RefsInsert = (\<lambda>d. memTry (\<lambda>db.
        if map_of (mem_refs db) (rf_Id d) \<noteq> None then (Inl ErrDup, db)
        else (Inr (), db\<lparr>mem_refs := (rf_Id d, d) # mem_refs db\<rparr>)) (Inl memFault)),
      RefsUpdate = (\<lambda>h sel upd. memTry (\<lambda>db.
        case map_of (mem_refs db) h of
          None \<Rightarrow> (Inl ErrNotFound, db)
        | Some r \<Rightarrow> if sel r then (Inr (), db\<lparr>mem_refs := (h, upd 0 r) # mem_refs db\<rparr>)
                    else (Inl ErrNotFound, db)) (Inl memFault)),
      JournalInsert = (\<lambda>d. memTry (\<lambda>db.
        if map_of (mem_journal db) (jd_Id d) \<noteq> None then (Inl ErrDup, db)
        else (Inr (), db\<lparr>mem_journal := (jd_Id d, d) # mem_journal db\<rparr>)) (Inl memFault)),
      JournalFind = (\<lambda>k. memTry (\<lambda>db. (memFind (mem_journal db) k, db)) (Inl memFault)),
      JournalScan = (\<lambda>lo hi p. memTry (\<lambda>db. ((memScan (mem_journal db) lo hi p, None), db)) ([], Some memFault))\<rparr>"

lemma memTry_cases:
  assumes "memTry f failed db = (r, db')"
  obtains "r = failed" "mem_view db' = mem_view db"
  | db1 where "f db1 = (r, db')" "mem_view db1 = mem_view db" "mem_events db1 = mem_events db"
      "mem_refs db1 = mem_refs db" "mem_journal db1 = mem_journal db"
  using assms by (auto simp: memTry_def mem_view_def split: list.splits if_splits)

lemma memFind_post: "find_post (map_of l) k (memFind l k)"
  by (auto simp: memFind_def split: option.splits)

lemma set_clearjunk: "(k, d) \<in> set (AList.clearjunk l) \<longleftrightarrow> map_of l k = Some d"
  using map_of_eq_Some_iff [OF distinct_clearjunk] by (metis map_of_clearjunk)

lemma scan_all_memScan: "scan_all (map_of l) lo hi p (memScan l lo hi p)"
  unfolding scan_all_def memScan_def by (force simp: set_clearjunk)

lemma scan_prefix: "\<exists>rest. scan_all (map_of l) lo hi p ([] @ rest)"
  using scan_all_memScan by simp blast

interpretation mem: mongo memMongo mem_view "(=)"
proof
  fix d db r db'
  assume "EventsInsert memMongo d db = (r, db')"
  then show "\<exists>v E. mem_view db = v \<and> insert_post (mv_events v) (ed_Id d) d r E \<and> mem_view db' = v\<lparr>mv_events := E\<rparr>"
    unfolding memMongo_def Mongo.select_convs
    by (cases rule: memTry_cases) (auto simp: memFault_def mem_view_def split: if_splits)
next
  fix d db r db'
  assume "RefsInsert memMongo d db = (r, db')"
  then show "\<exists>v E. mem_view db = v \<and> insert_post (mv_refs v) (rf_Id d) d r E \<and> mem_view db' = v\<lparr>mv_refs := E\<rparr>"
    unfolding memMongo_def Mongo.select_convs
    by (cases rule: memTry_cases) (auto simp: memFault_def mem_view_def split: if_splits)
next
  fix d db r db'
  assume "JournalInsert memMongo d db = (r, db')"
  then show "\<exists>v E. mem_view db = v \<and> insert_post (mv_journal v) (jd_Id d) d r E \<and> mem_view db' = v\<lparr>mv_journal := E\<rparr>"
    unfolding memMongo_def Mongo.select_convs
    by (cases rule: memTry_cases) (auto simp: memFault_def mem_view_def split: if_splits)
next
  fix h sel upd db r db'
  assume "RefsUpdate memMongo h sel upd db = (r, db')"
  then show "\<exists>v R. mem_view db = v \<and> update_post (mv_refs v) h sel upd r R \<and> mem_view db' = v\<lparr>mv_refs := R\<rparr>"
    unfolding memMongo_def Mongo.select_convs
    by (cases rule: memTry_cases)
      (auto simp: memFault_def mem_view_def updated_def split: if_splits option.splits)
next
  fix i db q db'
  assume "EventsFind memMongo i db = (q, db')"
  then show "mem_view db = mem_view db' \<and> find_post (mv_events (mem_view db')) i q"
    unfolding memMongo_def Mongo.select_convs
    by (cases rule: memTry_cases) (auto simp: memFault_def mem_view_def memFind_post)
next
  fix i db q db'
  assume "RefsFind memMongo i db = (q, db')"
  then show "mem_view db = mem_view db' \<and> find_post (mv_refs (mem_view db')) i q"
    unfolding memMongo_def Mongo.select_convs
    by (cases rule: memTry_cases) (auto simp: memFault_def mem_view_def memFind_post)
next
  fix i db q db'
  assume "JournalFind memMongo i db = (q, db')"
  then show "mem_view db = mem_view db' \<and> find_post (mv_journal (mem_view db')) i q"
    unfolding memMongo_def Mongo.select_convs
    by (cases rule: memTry_cases) (auto simp: memFault_def mem_view_def memFind_post)
next
  fix lo hi p db s db'
  assume "JournalScan memMongo lo hi p db = (s, db')"
  then show "mem_view db = mem_view db' \<and> scan_post (mv_journal (mem_view db')) lo hi p s"
    unfolding memMongo_def Mongo.select_convs
    by (cases rule: memTry_cases) (use scan_prefix in \<open>auto simp: memFault_def mem_view_def scan_all_memScan\<close>)
qed

end
