(* ===== verification/Ux_Events.thy ===== *)
theory Ux_Events
  imports Nog_Events
begin

text \<open>
  Events of Unix domains (\<open>backend/internal/unixdomains/events/unix-domain.go\<close>): the
  protobuf message, the constructors \<open>NewPb*()\<close>, the parsers \<open>fromPb*()\<close> and the struct
  \<open>Event\<close> with its methods.  \<open>proto.Marshal\<close> and \<open>proto.Unmarshal\<close> are parameters.
\<close>

section \<open>The message\<close>

datatype (plugins only: code) UnixDomainEvent_Type =
    EV_UNIX_DOMAIN_CREATED
  | EV_UNIX_GROUP_CREATED
  | EV_UNIX_USER_CREATED
  | EV_UNIX_GROUP_USER_ADDED
  | EV_UNIX_GROUP_USER_REMOVED
  | EV_UNIX_USER_DELETED
  | EV_UNIX_GROUP_DELETED
  | EV_UNIX_DOMAIN_DELETED
  | EV_UNIX_OTHER int

record UnixDomainPb =
  uxp_Event :: UnixDomainEvent_Type
  uxp_Id :: gobytes
  uxp_Parent :: gobytes
  uxp_UnixDomainName :: string
  uxp_UnixGroup :: string
  uxp_UnixGid :: "32 word"
  uxp_UnixUser :: string
  uxp_UnixUid :: "32 word"

text \<open>A message of the given type with every other field zero.\<close>

definition uxPb :: "UnixDomainEvent_Type \<Rightarrow> UnixDomainPb" where
  "uxPb t = \<lparr>uxp_Event = t, uxp_Id = None, uxp_Parent = None, uxp_UnixDomainName = [],
     uxp_UnixGroup = [], uxp_UnixGid = 0, uxp_UnixUser = [], uxp_UnixUid = 0\<rparr>"

datatype (plugins only: code) UnixDomainEvent =
    EvDomainCreated string
  | EvGroupCreated string "32 word"
  | EvUserCreated string "32 word" "32 word" \<comment> \<open>user, uid, gid\<close>
  | EvGroupUserAdded "32 word" "32 word" \<comment> \<open>gid, uid\<close>
  | EvGroupUserRemoved "32 word" "32 word" \<comment> \<open>gid, uid\<close>
  | EvUserDeleted "32 word"
  | EvGroupDeleted "32 word"

datatype (plugins only: code) ux_event_error = ErrUnknownUnixDomainEvent

section \<open>Constructors and parsers\<close>

definition NewPbDomainCreated :: "string \<Rightarrow> ('e, UnixDomainPb) outcome" where
  "NewPbDomainCreated name =
     (if name = [] then Panic ''empty Name''
      else Ok ((uxPb EV_UNIX_DOMAIN_CREATED)\<lparr>uxp_UnixDomainName := name\<rparr>))"

definition fromPbDomainCreated :: "UnixDomainPb \<Rightarrow> (ux_event_error, UnixDomainEvent) outcome" where
  "fromPbDomainCreated evpb =
     (if uxp_Event evpb \<noteq> EV_UNIX_DOMAIN_CREATED then Panic ''invalid event''
      else Ok (EvDomainCreated (uxp_UnixDomainName evpb)))"

definition NewPbGroupCreated :: "string \<Rightarrow> 32 word \<Rightarrow> ('e, UnixDomainPb) outcome" where
  "NewPbGroupCreated grp gid =
     (if grp = [] then Panic ''empty Group''
      else Ok ((uxPb EV_UNIX_GROUP_CREATED)\<lparr>uxp_UnixGroup := grp, uxp_UnixGid := gid\<rparr>))"

definition fromPbGroupCreated :: "UnixDomainPb \<Rightarrow> (ux_event_error, UnixDomainEvent) outcome" where
  "fromPbGroupCreated evpb =
     (if uxp_Event evpb \<noteq> EV_UNIX_GROUP_CREATED then Panic ''invalid event''
      else Ok (EvGroupCreated (uxp_UnixGroup evpb) (uxp_UnixGid evpb)))"

definition NewPbUserCreated :: "string \<Rightarrow> 32 word \<Rightarrow> 32 word \<Rightarrow> ('e, UnixDomainPb) outcome" where
  "NewPbUserCreated usr uid gid =
     (if usr = [] then Panic ''empty User''
      else Ok ((uxPb EV_UNIX_USER_CREATED)
                 \<lparr>uxp_UnixUser := usr, uxp_UnixUid := uid, uxp_UnixGid := gid\<rparr>))"

definition fromPbUserCreated :: "UnixDomainPb \<Rightarrow> (ux_event_error, UnixDomainEvent) outcome" where
  "fromPbUserCreated evpb =
     (if uxp_Event evpb \<noteq> EV_UNIX_USER_CREATED then Panic ''invalid event''
      else Ok (EvUserCreated (uxp_UnixUser evpb) (uxp_UnixUid evpb) (uxp_UnixGid evpb)))"

definition NewPbGroupUserAdded :: "32 word \<Rightarrow> 32 word \<Rightarrow> UnixDomainPb" where
  "NewPbGroupUserAdded gid uid =
     (uxPb EV_UNIX_GROUP_USER_ADDED)\<lparr>uxp_UnixGid := gid, uxp_UnixUid := uid\<rparr>"

definition fromPbGroupUserAdded :: "UnixDomainPb \<Rightarrow> (ux_event_error, UnixDomainEvent) outcome" where
  "fromPbGroupUserAdded evpb =
     (if uxp_Event evpb \<noteq> EV_UNIX_GROUP_USER_ADDED then Panic ''invalid event''
      else Ok (EvGroupUserAdded (uxp_UnixGid evpb) (uxp_UnixUid evpb)))"

definition NewPbGroupUserRemoved :: "32 word \<Rightarrow> 32 word \<Rightarrow> UnixDomainPb" where
  "NewPbGroupUserRemoved gid uid =
     (uxPb EV_UNIX_GROUP_USER_REMOVED)\<lparr>uxp_UnixGid := gid, uxp_UnixUid := uid\<rparr>"

definition fromPbGroupUserRemoved :: "UnixDomainPb \<Rightarrow> (ux_event_error, UnixDomainEvent) outcome" where
  "fromPbGroupUserRemoved evpb =
     (if uxp_Event evpb \<noteq> EV_UNIX_GROUP_USER_REMOVED then Panic ''invalid event''
      else Ok (EvGroupUserRemoved (uxp_UnixGid evpb) (uxp_UnixUid evpb)))"

definition NewPbUserDeleted :: "32 word \<Rightarrow> UnixDomainPb" where
  "NewPbUserDeleted uid = (uxPb EV_UNIX_USER_DELETED)\<lparr>uxp_UnixUid := uid\<rparr>"

definition fromPbUserDeleted :: "UnixDomainPb \<Rightarrow> (ux_event_error, UnixDomainEvent) outcome" where
  "fromPbUserDeleted evpb =
     (if uxp_Event evpb \<noteq> EV_UNIX_USER_DELETED then Panic ''invalid event''
      else Ok (EvUserDeleted (uxp_UnixUid evpb)))"

definition NewPbGroupDeleted :: "32 word \<Rightarrow> UnixDomainPb" where
  "NewPbGroupDeleted gid = (uxPb EV_UNIX_GROUP_DELETED)\<lparr>uxp_UnixGid := gid\<rparr>"

definition fromPbGroupDeleted :: "UnixDomainPb \<Rightarrow> (ux_event_error, UnixDomainEvent) outcome" where
  "fromPbGroupDeleted evpb =
     (if uxp_Event evpb \<noteq> EV_UNIX_GROUP_DELETED then Panic ''invalid event''
      else Ok (EvGroupDeleted (uxp_UnixGid evpb)))"

definition ParsePbUnixDomainEvent :: "UnixDomainPb \<Rightarrow> (ux_event_error, UnixDomainEvent) outcome" where
  "ParsePbUnixDomainEvent evpb =
     (case uxp_Event evpb of
        EV_UNIX_DOMAIN_CREATED \<Rightarrow> fromPbDomainCreated evpb
      | EV_UNIX_GROUP_CREATED \<Rightarrow> fromPbGroupCreated evpb
      | EV_UNIX_USER_CREATED \<Rightarrow> fromPbUserCreated evpb
      | EV_UNIX_GROUP_USER_ADDED \<Rightarrow> fromPbGroupUserAdded evpb
      | EV_UNIX_GROUP_USER_REMOVED \<Rightarrow> fromPbGroupUserRemoved evpb
      | EV_UNIX_USER_DELETED \<Rightarrow> fromPbUserDeleted evpb
      | EV_UNIX_GROUP_DELETED \<Rightarrow> fromPbGroupDeleted evpb
      | _ \<Rightarrow> Err ErrUnknownUnixDomainEvent)"

definition MustParsePbUnixDomainEvent :: "UnixDomainPb \<Rightarrow> ('e, UnixDomainEvent) outcome" where
  "MustParsePbUnixDomainEvent evpb =
     (case ParsePbUnixDomainEvent evpb of
        Ok ev \<Rightarrow> Ok ev
      | Err e \<Rightarrow> Panic ''unknown UnixDomainEvent type''
      | Panic p \<Rightarrow> Panic p)"

lemmas ux_pb_defs =
  NewPbDomainCreated_def NewPbGroupCreated_def NewPbUserCreated_def NewPbGroupUserAdded_def
  NewPbGroupUserRemoved_def NewPbUserDeleted_def NewPbGroupDeleted_def uxPb_def

lemmas ux_fromPb_defs =
  fromPbDomainCreated_def fromPbGroupCreated_def fromPbUserCreated_def fromPbGroupUserAdded_def
  fromPbGroupUserRemoved_def fromPbUserDeleted_def fromPbGroupDeleted_def

section \<open>Event structs\<close>

definition uxSetPb :: "ulid \<Rightarrow> ulid \<Rightarrow> UnixDomainPb \<Rightarrow> UnixDomainPb" where
  "uxSetPb i parent p = p\<lparr>uxp_Id := Some (idBytes i), uxp_Parent := Some (idBytes parent)\<rparr>"

definition uxNewEvents :: "ulid_source \<Rightarrow> ulid \<Rightarrow> UnixDomainPb list \<Rightarrow> goerr + UnixDomainPb Event list" where
  "uxNewEvents g parent pbs = newEventsLoop uxSetPb g 0 parent pbs"

definition uxMarshalProto :: "(UnixDomainPb \<Rightarrow> goerr + byte list) \<Rightarrow> UnixDomainPb Event \<Rightarrow> goerr + byte list" where
  "uxMarshalProto pm e = pm (ev_pb e)"

definition uxUnmarshalProto ::
  "(byte list \<Rightarrow> goerr + UnixDomainPb) \<Rightarrow> ulid_unmarshal \<Rightarrow> byte list \<Rightarrow> (goerr, UnixDomainPb Event) outcome" where
  "uxUnmarshalProto pu ub data =
     (case pu data of
        Inl e \<Rightarrow> Err e
      | Inr p \<Rightarrow>
          (case ParseBytes ub (uxp_Id p) of
             Inl e \<Rightarrow> Err e
           | Inr i \<Rightarrow>
               (case ParseBytes ub (uxp_Parent p) of
                  Inl e \<Rightarrow> Err e
                | Inr par \<Rightarrow>
                    (case ParsePbUnixDomainEvent p of
                       Ok _ \<Rightarrow> Ok \<lparr>ev_id = i, ev_parent = par, ev_pb = p\<rparr>
                     | Err _ \<Rightarrow> Err (GoErr ''invalid event details'')
                     | Panic x \<Rightarrow> Panic x))))"

definition uxWithId :: "ulid \<Rightarrow> UnixDomainPb Event \<Rightarrow> UnixDomainPb Event" where
  "uxWithId i e = e\<lparr>ev_id := i, ev_pb := (ev_pb e)\<lparr>uxp_Id := Some (idBytes i)\<rparr>\<rparr>"

definition uxWithParent :: "ulid \<Rightarrow> UnixDomainPb Event \<Rightarrow> UnixDomainPb Event" where
  "uxWithParent i e = e\<lparr>ev_parent := i, ev_pb := (ev_pb e)\<lparr>uxp_Parent := Some (idBytes i)\<rparr>\<rparr>"

text \<open>
  The documented behaviour of \<open>proto.Marshal\<close> and \<open>proto.Unmarshal\<close> on messages whose byte
  fields are not empty: what was marshalled is unmarshalled.
\<close>

definition ux_codec ::
  "(UnixDomainPb \<Rightarrow> goerr + byte list) \<Rightarrow> (byte list \<Rightarrow> goerr + UnixDomainPb) \<Rightarrow> bool" where
  "ux_codec pm pu \<longleftrightarrow>
     (\<forall>p bs. uxp_Id p \<noteq> Some [] \<longrightarrow> uxp_Parent p \<noteq> Some [] \<longrightarrow> pm p = Inr bs \<longrightarrow> pu bs = Inr p)"

section \<open>Round trips\<close>

lemma parse_uxSetPb [simp]:
  "ParsePbUnixDomainEvent (uxSetPb i par p) = ParsePbUnixDomainEvent p"
  by (auto simp: ParsePbUnixDomainEvent_def uxSetPb_def ux_fromPb_defs
      split: UnixDomainEvent_Type.splits)

lemma mustParse_uxSetPb [simp]:
  "MustParsePbUnixDomainEvent (uxSetPb i par p) = MustParsePbUnixDomainEvent p"
  by (simp add: MustParsePbUnixDomainEvent_def)

lemma ParsePb_no_panic: "\<not> is_Panic (ParsePbUnixDomainEvent p)"
  by (auto simp: ParsePbUnixDomainEvent_def ux_fromPb_defs split: UnixDomainEvent_Type.splits)

lemma parse_NewPb:
  "NewPbDomainCreated n = Ok p \<Longrightarrow> ParsePbUnixDomainEvent p = Ok (EvDomainCreated n)"
  "NewPbGroupCreated n gid = Ok p \<Longrightarrow> ParsePbUnixDomainEvent p = Ok (EvGroupCreated n gid)"
  "NewPbUserCreated n uid gid = Ok p \<Longrightarrow> ParsePbUnixDomainEvent p = Ok (EvUserCreated n uid gid)"
  "ParsePbUnixDomainEvent (NewPbGroupUserAdded gid uid) = Ok (EvGroupUserAdded gid uid)"
  "ParsePbUnixDomainEvent (NewPbGroupUserRemoved gid uid) = Ok (EvGroupUserRemoved gid uid)"
  "ParsePbUnixDomainEvent (NewPbUserDeleted uid) = Ok (EvUserDeleted uid)"
  "ParsePbUnixDomainEvent (NewPbGroupDeleted gid) = Ok (EvGroupDeleted gid)"
  by (auto simp: ParsePbUnixDomainEvent_def ux_pb_defs ux_fromPb_defs split: if_splits)

lemma mustParse_NewPb:
  "NewPbDomainCreated n = Ok p \<Longrightarrow> MustParsePbUnixDomainEvent p = Ok (EvDomainCreated n)"
  "NewPbGroupCreated n gid = Ok p \<Longrightarrow> MustParsePbUnixDomainEvent p = Ok (EvGroupCreated n gid)"
  "NewPbUserCreated n uid gid = Ok p \<Longrightarrow> MustParsePbUnixDomainEvent p = Ok (EvUserCreated n uid gid)"
  "MustParsePbUnixDomainEvent (NewPbGroupUserAdded gid uid) = Ok (EvGroupUserAdded gid uid)"
  "MustParsePbUnixDomainEvent (NewPbGroupUserRemoved gid uid) = Ok (EvGroupUserRemoved gid uid)"
  "MustParsePbUnixDomainEvent (NewPbUserDeleted uid) = Ok (EvUserDeleted uid)"
  "MustParsePbUnixDomainEvent (NewPbGroupDeleted gid) = Ok (EvGroupDeleted gid)"
  by (simp_all add: MustParsePbUnixDomainEvent_def parse_NewPb)

text \<open>The struct fields agree with the message's header, as \<open>newEvents()\<close> establishes it.\<close>

definition ux_event_wf :: "UnixDomainPb Event \<Rightarrow> bool" where
  "ux_event_wf e \<longleftrightarrow>
     uxp_Id (ev_pb e) = Some (idBytes (ev_id e)) \<and>
     uxp_Parent (ev_pb e) = Some (idBytes (ev_parent e)) \<and>
     (\<exists>ev. ParsePbUnixDomainEvent (ev_pb e) = Ok ev)"

lemma ux_roundtrip:
  assumes "ux_codec pm pu" and "ulid_binary ub" and "ux_event_wf e"
    and "uxMarshalProto pm e = Inr bs"
  shows "uxUnmarshalProto pu ub bs = Ok e"
proof -
  have "pu bs = Inr (ev_pb e)"
    using assms by (auto simp: ux_codec_def uxMarshalProto_def ux_event_wf_def)
  then show ?thesis
    using assms(2,3) by (auto simp: uxUnmarshalProto_def ux_event_wf_def)
qed

end
