(* ===== verification/Unix_Domains.thy ===== *)
theory Unix_Domains
  imports Nog_Aggregate Ux_Events
begin

text \<open>
  The Unix domain aggregate (\<open>backend/internal/unixdomains/unix-domain.go\<close>): users and groups
  with their membership, kept in maps by name and by number.  Go maps are HOL maps, a nil map
  and an empty map being alike for every use the code makes of them; the values behind the
  map's pointers are never written through, so they are values here.  (The slices inside them
  are shared between old and new states; \<open>Ux_Slices\<close> is about that.)
\<close>

section \<open>State and commands\<close>

record ux_group =
  grp_group :: string
  grp_gid :: "32 word"
  grp_uids :: "32 word list"

record ux_user =
  usr_user :: string
  usr_uid :: "32 word"
  usr_gids :: "32 word list"

record UxState =
  uxs_id :: uuid
  uxs_vid :: ulid
  uxs_name :: string
  uxs_groupsByName :: "string \<rightharpoonup> ux_group"
  uxs_groupsByGid :: "32 word \<rightharpoonup> ux_group"
  uxs_usersByName :: "string \<rightharpoonup> ux_user"
  uxs_usersByUid :: "32 word \<rightharpoonup> ux_user"

datatype (plugins only: code) ux_cmd =
    UxCmdInit string
  | UxCmdCreateGroup string "32 word" \<comment> \<open>group, gid\<close>
  | UxCmdCreateUser string "32 word" "32 word" \<comment> \<open>user, uid, gid\<close>
  | UxCmdAddGroupUser "32 word" "32 word" \<comment> \<open>gid, uid\<close>
  | UxCmdRemoveGroupUser "32 word" "32 word" \<comment> \<open>gid, uid\<close>
  | UxCmdDeleteUser "32 word"
  | UxCmdDeleteGroup "32 word"
  | UxCmdForeign \<comment> \<open>a command of another aggregate\<close>

datatype (plugins only: code) ux_error =
    UxUninitializedError
  | UxInvalidCommandError
  | UxNotIdempotentError
  | UxNewEventsError goerr
  | UxArgumentError string
  | UxPreconditionError string
  | UxGroupConflictError string "32 word" string "32 word"
  | UxUserConflictError string "32 word" "32 word" string "32 word" "32 word"
  | UxMissingUserError "32 word"
  | UxMissingGroupError "32 word"
  | UxCannotRemovePrimaryGroupError "32 word"

definition uxNewState :: "uuid \<Rightarrow> UxState" where
  "uxNewState i = \<lparr>uxs_id = i, uxs_vid = 0, uxs_name = [], uxs_groupsByName = Map.empty,
     uxs_groupsByGid = Map.empty, uxs_usersByName = Map.empty, uxs_usersByUid = Map.empty\<rparr>"

definition hasUid :: "ux_group \<Rightarrow> 32 word \<Rightarrow> bool" where
  "hasUid g uid \<longleftrightarrow> list_ex (\<lambda>guid. uid = guid) (grp_uids g)"

section \<open>Advance\<close>

text \<open>
  \<open>deleteGid\<close>, also used as \<open>deleteUid\<close>: the contents of the slice that it returns, without the first occurrence.  The
  Go function deletes in place, which changes the array that the slice of the older state uses as well; this effect is
  modelled by \<open>deleteSlice\<close> of \<open>Ux_Slices\<close>.
\<close>

fun deleteGid :: "32 word list \<Rightarrow> 32 word \<Rightarrow> 32 word list" where
  "deleteGid [] gid = []"
| "deleteGid (v # vs) gid = (if v = gid then vs else v # deleteGid vs gid)"

definition putGroup :: "ux_group \<Rightarrow> UxState \<Rightarrow> UxState" where
  "putGroup g st = st
     \<lparr>uxs_groupsByName := (uxs_groupsByName st)(grp_group g \<mapsto> g),
      uxs_groupsByGid := (uxs_groupsByGid st)(grp_gid g \<mapsto> g)\<rparr>"

definition putUser :: "ux_user \<Rightarrow> UxState \<Rightarrow> UxState" where
  "putUser u st = st
     \<lparr>uxs_usersByName := (uxs_usersByName st)(usr_user u \<mapsto> u),
      uxs_usersByUid := (uxs_usersByUid st)(usr_uid u \<mapsto> u)\<rparr>"

text \<open>Reading through the pointer that a map lookup returned panics if it is nil.\<close>

definition deref :: "'a option \<Rightarrow> ('e, 'a) outcome" where
  "deref p = (case p of None \<Rightarrow> Panic ''nil pointer dereference'' | Some x \<Rightarrow> Ok x)"

definition index0 :: "'a list \<Rightarrow> ('e, 'a) outcome" where
  "index0 xs = (case xs of [] \<Rightarrow> Panic ''index out of range'' | x # _ \<Rightarrow> Ok x)"

text \<open>
  The state that \<open>Advance()\<close> returns, with the contents of slices as values.  \<open>sxAdvanceEv\<close> of \<open>Ux_Slices\<close> is the same
  function on a store of arrays, with the effect on the arrays that older states share; \<open>ux_slices_replay\<close> there shows that
  a replay gives this state.
\<close>

fun uxAdvanceEv :: "UxState \<Rightarrow> UnixDomainEvent \<Rightarrow> (ux_error, UxState) outcome" where
  "uxAdvanceEv st (EvDomainCreated name) =
     Ok (st\<lparr>uxs_name := name, uxs_groupsByName := Map.empty, uxs_groupsByGid := Map.empty,
            uxs_usersByName := Map.empty, uxs_usersByUid := Map.empty\<rparr>)"
| "uxAdvanceEv st (EvGroupCreated grp gid) =
     Ok (putGroup \<lparr>grp_group = grp, grp_gid = gid, grp_uids = []\<rparr> st)"
| "uxAdvanceEv st (EvUserCreated usr uid gid) =
     (let st1 = putUser \<lparr>usr_user = usr, usr_uid = uid, usr_gids = [gid]\<rparr> st
      in obind (deref (uxs_groupsByGid st1 gid)) (\<lambda>g.
           Ok (putGroup (g\<lparr>grp_uids := grp_uids g @ [uid]\<rparr>) st1)))"
| "uxAdvanceEv st (EvGroupUserAdded gid uid) =
     obind (deref (uxs_usersByUid st uid)) (\<lambda>u.
       let st1 = putUser (u\<lparr>usr_gids := usr_gids u @ [gid]\<rparr>) st
       in obind (deref (uxs_groupsByGid st1 gid)) (\<lambda>g.
            Ok (putGroup (g\<lparr>grp_uids := grp_uids g @ [uid]\<rparr>) st1)))"
| "uxAdvanceEv st (EvGroupUserRemoved gid uid) =
     obind (deref (uxs_usersByUid st uid)) (\<lambda>u.
       let st1 = putUser (u\<lparr>usr_gids := deleteGid (usr_gids u) gid\<rparr>) st
       in obind (deref (uxs_groupsByGid st1 gid)) (\<lambda>g.
            Ok (putGroup (g\<lparr>grp_uids := deleteGid (grp_uids g) uid\<rparr>) st1)))"
| "uxAdvanceEv st (EvUserDeleted uid) =
     obind (deref (uxs_usersByUid st uid)) (\<lambda>u.
       let st1 = st\<lparr>uxs_usersByUid := (uxs_usersByUid st)(usr_uid u := None),
                    uxs_usersByName := (uxs_usersByName st)(usr_user u := None)\<rparr>
       in obind (index0 (usr_gids u)) (\<lambda>gid.
            obind (deref (uxs_groupsByGid st1 gid)) (\<lambda>g.
              Ok (putGroup (g\<lparr>grp_uids := deleteGid (grp_uids g) (usr_uid u)\<rparr>) st1))))"
| "uxAdvanceEv st (EvGroupDeleted gid) =
     obind (deref (uxs_groupsByGid st gid)) (\<lambda>g.
       Ok (st\<lparr>uxs_groupsByGid := (uxs_groupsByGid st)(grp_gid g := None),
              uxs_groupsByName := (uxs_groupsByName st)(grp_group g := None)\<rparr>))"

definition uxAdvance :: "UxState \<Rightarrow> UnixDomainPb Event \<Rightarrow> (ux_error, UxState) outcome" where
  "uxAdvance st ev = obind (MustParsePbUnixDomainEvent (ev_pb ev)) (uxAdvanceEv st)"

section \<open>Tell\<close>

text \<open>The names must match \<open>^[a-zA-Z0-9_-]+$\<close>.\<close>

definition rgxNameChar :: "char \<Rightarrow> bool" where
  "rgxNameChar c \<longleftrightarrow>
     is_lower c \<or> is_upper c \<or> is_digit c \<or> c = CHR ''_'' \<or> c = CHR ''-''"

definition rgxName :: "string \<Rightarrow> bool" where
  "rgxName s \<longleftrightarrow> s \<noteq> [] \<and> list_all rgxNameChar s"

definition wrapEventsNewEventsError ::
  "goerr + UnixDomainPb Event list \<Rightarrow> (ux_error, UnixDomainPb Event list) outcome" where
  "wrapEventsNewEventsError r = (case r of Inl e \<Rightarrow> Err (UxNewEventsError e) | Inr evs \<Rightarrow> Ok evs)"

definition uxTellInit :: "ulid_source \<Rightarrow> UxState \<Rightarrow> string \<Rightarrow> (ux_error, UnixDomainPb Event list) outcome" where
  "uxTellInit g st name =
     (if uxs_name st \<noteq> [] then
        (if name \<noteq> uxs_name st then Err UxNotIdempotentError else Ok [])
      else if \<not> rgxName name then Err (UxArgumentError ''malformed domain name'')
      else obind (NewPbDomainCreated name) (\<lambda>p.
             wrapEventsNewEventsError (uxNewEvents g (uxs_vid st) [p])))"

definition uxTellCreateGroup ::
  "ulid_source \<Rightarrow> UxState \<Rightarrow> string \<Rightarrow> 32 word \<Rightarrow> (ux_error, UnixDomainPb Event list) outcome" where
  "uxTellCreateGroup g st grp gid =
     (if uxs_name st = [] then Err UxUninitializedError
      else case uxs_groupsByGid st gid of
        Some old \<Rightarrow>
          (if grp \<noteq> grp_group old
           then Err (UxGroupConflictError (grp_group old) (grp_gid old) grp gid)
           else Ok [])
      | None \<Rightarrow>
          (case uxs_groupsByName st grp of
             Some old \<Rightarrow>
               (if gid \<noteq> grp_gid old
                then Err (UxGroupConflictError (grp_group old) (grp_gid old) grp gid)
                else Ok [])
           | None \<Rightarrow>
               (if \<not> rgxName grp then Err (UxArgumentError ''malformed group name'')
                else obind (NewPbGroupCreated grp gid) (\<lambda>p.
                       wrapEventsNewEventsError (uxNewEvents g (uxs_vid st) [p])))))"

definition isEqualUser :: "string \<Rightarrow> 32 word \<Rightarrow> 32 word \<Rightarrow> ux_user \<Rightarrow> ('e, bool) outcome" where
  "isEqualUser usr uid gid u =
     (if usr \<noteq> usr_user u then Ok False
      else if uid \<noteq> usr_uid u then Ok False
      else obind (index0 (usr_gids u)) (\<lambda>g0. Ok (gid = g0)))"

definition uxTellCreateUser ::
  "ulid_source \<Rightarrow> UxState \<Rightarrow> string \<Rightarrow> 32 word \<Rightarrow> 32 word \<Rightarrow>
   (ux_error, UnixDomainPb Event list) outcome" where
  "uxTellCreateUser g st usr uid gid =
     (if uxs_name st = [] then Err UxUninitializedError
      else if \<not> rgxName usr then Err (UxArgumentError ''malformed user name'')
      else case (case uxs_usersByName st usr of None \<Rightarrow> uxs_usersByUid st uid | Some u \<Rightarrow> Some u) of
        Some u \<Rightarrow>
          obind (isEqualUser usr uid gid u) (\<lambda>eq.
            if \<not> eq then
              obind (index0 (usr_gids u)) (\<lambda>g0.
                Err (UxUserConflictError (usr_user u) (usr_uid u) g0 usr uid gid))
            else Ok [])
      | None \<Rightarrow>
          (if uxs_groupsByGid st gid = None then Err (UxMissingGroupError gid)
           else obind (NewPbUserCreated usr uid gid) (\<lambda>p.
                  wrapEventsNewEventsError (uxNewEvents g (uxs_vid st) [p]))))"

definition uxTellAddGroupUser ::
  "ulid_source \<Rightarrow> UxState \<Rightarrow> 32 word \<Rightarrow> 32 word \<Rightarrow> (ux_error, UnixDomainPb Event list) outcome" where
  "uxTellAddGroupUser g st gid uid =
     (if uxs_name st = [] then Err UxUninitializedError
      else if uxs_usersByUid st uid = None then Err (UxMissingUserError uid)
      else case uxs_groupsByGid st gid of
        None \<Rightarrow> Err (UxMissingGroupError gid)
      | Some grp \<Rightarrow>
          (if hasUid grp uid then Ok []
           else wrapEventsNewEventsError (uxNewEvents g (uxs_vid st) [NewPbGroupUserAdded gid uid])))"

definition uxTellRemoveGroupUser ::
  "ulid_source \<Rightarrow> UxState \<Rightarrow> 32 word \<Rightarrow> 32 word \<Rightarrow> (ux_error, UnixDomainPb Event list) outcome" where
  "uxTellRemoveGroupUser g st gid uid =
     (if uxs_name st = [] then Err UxUninitializedError
      else case uxs_usersByUid st uid of
        None \<Rightarrow> Err (UxMissingUserError uid)
      | Some u \<Rightarrow>
          obind (index0 (usr_gids u)) (\<lambda>g0.
            if gid = g0 then Err (UxCannotRemovePrimaryGroupError gid)
            else case uxs_groupsByGid st gid of
              None \<Rightarrow> Err (UxMissingGroupError gid)
            | Some grp \<Rightarrow>
                (if \<not> hasUid grp uid then Ok []
                 else wrapEventsNewEventsError
                        (uxNewEvents g (uxs_vid st) [NewPbGroupUserRemoved gid uid]))))"

definition uxTellDeleteUser ::
  "ulid_source \<Rightarrow> UxState \<Rightarrow> 32 word \<Rightarrow> (ux_error, UnixDomainPb Event list) outcome" where
  "uxTellDeleteUser g st uid =
     (if uxs_name st = [] then Err UxUninitializedError
      else case uxs_usersByUid st uid of
        None \<Rightarrow> Ok []
      | Some u \<Rightarrow>
          (if length (usr_gids u) > 1
           then Err (UxPreconditionError ''cannot delete user with secondary groups'')
           else wrapEventsNewEventsError (uxNewEvents g (uxs_vid st) [NewPbUserDeleted uid])))"

definition uxTellDeleteGroup ::
  "ulid_source \<Rightarrow> UxState \<Rightarrow> 32 word \<Rightarrow> (ux_error, UnixDomainPb Event list) outcome" where
  "uxTellDeleteGroup g st gid =
     (if uxs_name st = [] then Err UxUninitializedError
      else case uxs_groupsByGid st gid of
        None \<Rightarrow> Ok []
      | Some grp \<Rightarrow>
          (if length (grp_uids grp) > 0
           then Err (UxPreconditionError ''cannot delete non-empty group'')
           else wrapEventsNewEventsError (uxNewEvents g (uxs_vid st) [NewPbGroupDeleted gid])))"

fun uxTell :: "ulid_source \<Rightarrow> UxState \<Rightarrow> ux_cmd \<Rightarrow> (ux_error, UnixDomainPb Event list) outcome" where
  "uxTell g st (UxCmdInit name) = uxTellInit g st name"
| "uxTell g st (UxCmdCreateGroup grp gid) = uxTellCreateGroup g st grp gid"
| "uxTell g st (UxCmdCreateUser usr uid gid) = uxTellCreateUser g st usr uid gid"
| "uxTell g st (UxCmdAddGroupUser gid uid) = uxTellAddGroupUser g st gid uid"
| "uxTell g st (UxCmdRemoveGroupUser gid uid) = uxTellRemoveGroupUser g st gid uid"
| "uxTell g st (UxCmdDeleteUser uid) = uxTellDeleteUser g st uid"
| "uxTell g st (UxCmdDeleteGroup gid) = uxTellDeleteGroup g st gid"
| "uxTell g st UxCmdForeign = Err UxInvalidCommandError"

definition uxBehavior :: "(UxState, ux_cmd, UnixDomainPb Event, ux_error) Behavior" where
  "uxBehavior = \<lparr>NewState = uxNewState, StId = uxs_id, StVid = uxs_vid,
     SetVid = (\<lambda>v st. st\<lparr>uxs_vid := v\<rparr>), Advance = uxAdvance, Tell = uxTell\<rparr>"

text \<open>
  \<open>Event.UnmarshalProto()\<close> of the package accepts the event types of a Unix domain only.
\<close>

definition uxdUnmarshalProto ::
  "(byte list \<Rightarrow> goerr + UnixDomainPb) \<Rightarrow> ulid_unmarshal \<Rightarrow> byte list \<Rightarrow>
   (goerr, UnixDomainPb Event) outcome" where
  "uxdUnmarshalProto pu ub data =
     obind (uxUnmarshalProto pu ub data) (\<lambda>e.
       case uxp_Event (ev_pb e) of
         EV_UNIX_OTHER _ \<Rightarrow> Err (GoErr ''invalid event type'')
       | _ \<Rightarrow> Ok e)"

definition uxEventOps ::
  "(UnixDomainPb \<Rightarrow> goerr + byte list) \<Rightarrow> (byte list \<Rightarrow> goerr + UnixDomainPb) \<Rightarrow> ulid_unmarshal \<Rightarrow>
   UnixDomainPb Event EventOps" where
  "uxEventOps pm pu ub = \<lparr>EvId = ev_id, EvParent = ev_parent, WithId = uxWithId,
     WithParent = uxWithParent, MarshalProto = uxMarshalProto pm,
     UnmarshalProto = uxdUnmarshalProto pu ub\<rparr>"

section \<open>Queries\<close>

text \<open>
  Go ranges over a map in an unspecified order: the queries that do take the keys in the order
  of the iteration, \<open>ks\<close>.
\<close>

record UxUser =
  u_User :: string
  u_Uid :: "32 word"
  u_Gid :: "32 word"
  u_Gids :: "32 word list"

record UxGroup =
  g_Group :: string
  g_Gid :: "32 word"
  g_Uids :: "32 word list"

definition mkUser :: "ux_user \<Rightarrow> ('e, UxUser) outcome" where
  "mkUser u = obind (index0 (usr_gids u)) (\<lambda>g0.
     Ok \<lparr>u_User = usr_user u, u_Uid = usr_uid u, u_Gid = g0, u_Gids = usr_gids u\<rparr>)"

fun usersLoop :: "UxState \<Rightarrow> 32 word list \<Rightarrow> ('e, UxUser list) outcome" where
  "usersLoop st [] = Ok []"
| "usersLoop st (k # ks) =
     obind (deref (uxs_usersByUid st k)) (\<lambda>u.
       obind (mkUser u) (\<lambda>r. obind (usersLoop st ks) (\<lambda>rs. Ok (r # rs))))"

definition Users :: "UxState \<Rightarrow> 32 word list \<Rightarrow> ('e, UxUser list) outcome" where
  "Users st ks = obind (usersLoop st ks) (\<lambda>us. Ok (sort_key u_Uid us))"

fun groupsLoop :: "UxState \<Rightarrow> 32 word list \<Rightarrow> ('e, UxGroup list) outcome" where
  "groupsLoop st [] = Ok []"
| "groupsLoop st (k # ks) =
     obind (deref (uxs_groupsByGid st k)) (\<lambda>g.
       obind (groupsLoop st ks) (\<lambda>rs.
         Ok (\<lparr>g_Group = grp_group g, g_Gid = grp_gid g, g_Uids = grp_uids g\<rparr> # rs)))"

definition Groups :: "UxState \<Rightarrow> 32 word list \<Rightarrow> ('e, UxGroup list) outcome" where
  "Groups st ks = obind (groupsLoop st ks) (\<lambda>gs. Ok (sort_key g_Gid gs))"

definition FindUser :: "UxState \<Rightarrow> string \<Rightarrow> ('e, UxUser option) outcome" where
  "FindUser st name =
     (case uxs_usersByName st name of
        None \<Rightarrow> Ok None
      | Some u \<Rightarrow> obind (mkUser u) (\<lambda>r. Ok (Some r)))"

definition FindGid :: "UxState \<Rightarrow> 32 word \<Rightarrow> UxGroup option" where
  "FindGid st gid =
     (case uxs_groupsByGid st gid of
        None \<Rightarrow> None
      | Some g \<Rightarrow> Some \<lparr>g_Group = grp_group g, g_Gid = grp_gid g, g_Uids = grp_uids g\<rparr>)"

section \<open>Invariant\<close>

text \<open>
  The maps by name and by number hold the same groups and users; membership is recorded
  alike on both sides; every user has a primary group, the first one; no id occurs twice.
\<close>

definition in_gids :: "(32 word \<rightharpoonup> ux_user) \<Rightarrow> 32 word \<Rightarrow> 32 word \<Rightarrow> bool" where
  "in_gids U uid gid \<longleftrightarrow> (\<exists>u. U uid = Some u \<and> gid \<in> set (usr_gids u))"

definition in_uids :: "(32 word \<rightharpoonup> ux_group) \<Rightarrow> 32 word \<Rightarrow> 32 word \<Rightarrow> bool" where
  "in_uids G gid uid \<longleftrightarrow> (\<exists>g. G gid = Some g \<and> uid \<in> set (grp_uids g))"

definition ux_members_ok :: "(32 word \<rightharpoonup> ux_user) \<Rightarrow> (32 word \<rightharpoonup> ux_group) \<Rightarrow> bool" where
  "ux_members_ok U G \<longleftrightarrow>
     (\<forall>uid u. U uid = Some u \<longrightarrow> usr_gids u \<noteq> [] \<and> distinct (usr_gids u)) \<and>
     (\<forall>gid g. G gid = Some g \<longrightarrow> distinct (grp_uids g)) \<and>
     (\<forall>uid gid. in_gids U uid gid \<longleftrightarrow> in_uids G gid uid)"

definition ux_inv :: "UxState \<Rightarrow> bool" where
  "ux_inv st \<longleftrightarrow>
     index_ok grp_group grp_gid (uxs_groupsByName st) (uxs_groupsByGid st) \<and>
     index_ok usr_user usr_uid (uxs_usersByName st) (uxs_usersByUid st) \<and>
     ux_members_ok (uxs_usersByUid st) (uxs_groupsByGid st) \<and>
     (uxs_name st = [] \<longrightarrow> uxs_groupsByGid st = Map.empty \<and> uxs_usersByUid st = Map.empty)"

text \<open>The states in which an event may be applied: the guards of the \<open>tell*()\<close> functions.\<close>

fun ux_allowed :: "UxState \<Rightarrow> UnixDomainEvent \<Rightarrow> bool" where
  "ux_allowed st (EvDomainCreated n) \<longleftrightarrow> uxs_name st = [] \<and> n \<noteq> []"
| "ux_allowed st (EvGroupCreated n gid) \<longleftrightarrow>
     uxs_name st \<noteq> [] \<and> uxs_groupsByGid st gid = None \<and> uxs_groupsByName st n = None"
| "ux_allowed st (EvUserCreated n uid gid) \<longleftrightarrow>
     uxs_name st \<noteq> [] \<and> uxs_usersByName st n = None \<and> uxs_usersByUid st uid = None \<and>
     uxs_groupsByGid st gid \<noteq> None"
| "ux_allowed st (EvGroupUserAdded gid uid) \<longleftrightarrow>
     uxs_name st \<noteq> [] \<and>
     (\<exists>u g. uxs_usersByUid st uid = Some u \<and> uxs_groupsByGid st gid = Some g \<and>
       uid \<notin> set (grp_uids g))"
| "ux_allowed st (EvGroupUserRemoved gid uid) \<longleftrightarrow>
     uxs_name st \<noteq> [] \<and>
     (\<exists>u g. uxs_usersByUid st uid = Some u \<and> uxs_groupsByGid st gid = Some g \<and>
       gid \<noteq> hd (usr_gids u) \<and> uid \<in> set (grp_uids g))"
| "ux_allowed st (EvUserDeleted uid) \<longleftrightarrow>
     uxs_name st \<noteq> [] \<and> (\<exists>u. uxs_usersByUid st uid = Some u \<and> length (usr_gids u) \<le> 1)"
| "ux_allowed st (EvGroupDeleted gid) \<longleftrightarrow>
     uxs_name st \<noteq> [] \<and> (\<exists>g. uxs_groupsByGid st gid = Some g \<and> grp_uids g = [])"

lemma deleteGid_remove1 [simp]: "deleteGid xs x = remove1 x xs"
  by (induction xs) auto

lemma hasUid_iff [simp]: "hasUid g uid \<longleftrightarrow> uid \<in> set (grp_uids g)"
  by (auto simp: hasUid_def list_ex_iff)

lemma deref_simps [simp]: "deref None = Panic ''nil pointer dereference''" "deref (Some x) = Ok x"
  by (simp_all add: deref_def)

lemma index0_Cons [simp]: "index0 (x # xs) = Ok x"
  by (simp add: index0_def)

lemma index0_ne: "xs \<noteq> [] \<Longrightarrow> index0 xs = Ok (hd xs)"
  by (cases xs) auto

section \<open>Events keep the invariant\<close>

lemma in_gids_upd [simp]:
  "in_gids (U(x \<mapsto> u)) uid gid \<longleftrightarrow> (if uid = x then gid \<in> set (usr_gids u) else in_gids U uid gid)"
  "in_gids (U(x := None)) uid gid \<longleftrightarrow> uid \<noteq> x \<and> in_gids U uid gid"
  "in_gids Map.empty uid gid \<longleftrightarrow> False"
  by (auto simp: in_gids_def)

lemma in_uids_upd [simp]:
  "in_uids (G(x \<mapsto> g)) gid uid \<longleftrightarrow> (if gid = x then uid \<in> set (grp_uids g) else in_uids G gid uid)"
  "in_uids (G(x := None)) gid uid \<longleftrightarrow> gid \<noteq> x \<and> in_uids G gid uid"
  "in_uids Map.empty gid uid \<longleftrightarrow> False"
  by (auto simp: in_uids_def)

lemma in_gids_Some: "U uid = Some u \<Longrightarrow> in_gids U uid gid \<longleftrightarrow> gid \<in> set (usr_gids u)"
  and in_gids_None: "U uid = None \<Longrightarrow> \<not> in_gids U uid gid"
  and in_uids_Some: "G gid = Some g \<Longrightarrow> in_uids G gid uid \<longleftrightarrow> uid \<in> set (grp_uids g)"
  and in_uids_None: "G gid = None \<Longrightarrow> \<not> in_uids G gid uid"
  by (auto simp: in_gids_def in_uids_def)

lemmas in_ids = in_gids_Some in_gids_None in_uids_Some in_uids_None

lemma ux_members_okD:
  assumes "ux_members_ok U G"
  shows "U uid = Some u \<Longrightarrow> usr_gids u \<noteq> []" "U uid = Some u \<Longrightarrow> distinct (usr_gids u)"
    and "G gid = Some g \<Longrightarrow> distinct (grp_uids g)"
    and "in_gids U uid gid \<longleftrightarrow> in_uids G gid uid"
  using assms by (auto simp: ux_members_ok_def)

lemma ux_members_okI:
  assumes "\<And>uid u. U uid = Some u \<Longrightarrow> usr_gids u \<noteq> [] \<and> distinct (usr_gids u)"
    and "\<And>gid g. G gid = Some g \<Longrightarrow> distinct (grp_uids g)"
    and "\<And>uid gid. in_gids U uid gid \<longleftrightarrow> in_uids G gid uid"
  shows "ux_members_ok U G"
  using assms by (auto simp: ux_members_ok_def)

lemma members_new_group:
  assumes "ux_members_ok U G" and "G gid = None" and "grp_uids g = []"
  shows "ux_members_ok U (G(gid \<mapsto> g))"
proof (rule ux_members_okI)
  fix uid x
  show "in_gids U uid x \<longleftrightarrow> in_uids (G(gid \<mapsto> g)) x uid"
    using assms ux_members_okD(4) [OF assms(1), of uid x] in_uids_None [of G gid uid] by auto
qed (use assms in \<open>auto simp: ux_members_ok_def split: if_splits\<close>)

lemma members_del_group:
  assumes "ux_members_ok U G" and "G gid = Some g" and "grp_uids g = []"
  shows "ux_members_ok U (G(gid := None))"
proof (rule ux_members_okI)
  fix uid x
  show "in_gids U uid x \<longleftrightarrow> in_uids (G(gid := None)) x uid"
    using assms ux_members_okD(4) [OF assms(1), of uid x] in_uids_Some [of G gid g uid] by auto
qed (use assms in \<open>auto simp: ux_members_ok_def split: if_splits\<close>)

lemma members_add:
  assumes ok: "ux_members_ok U G" and g: "G gid = Some g" and new: "uid \<notin> set (grp_uids g)"
    and gids: "set (usr_gids u) = insert gid (case U uid of None \<Rightarrow> {} | Some w \<Rightarrow> set (usr_gids w))"
    and u: "usr_gids u \<noteq> []" "distinct (usr_gids u)"
  shows "ux_members_ok (U(uid \<mapsto> u)) (G(gid \<mapsto> g\<lparr>grp_uids := grp_uids g @ [uid]\<rparr>))"
proof (rule ux_members_okI)
  fix x y
  show "in_gids (U(uid \<mapsto> u)) x y \<longleftrightarrow> in_uids (G(gid \<mapsto> g\<lparr>grp_uids := grp_uids g @ [uid]\<rparr>)) y x"
    using ux_members_okD(4) [OF ok, of x y] in_uids_Some [of G gid g x, OF g] new gids
      in_gids_Some [of U uid _ y] in_gids_None [of U uid y]
    by (cases "U uid") auto
qed (use assms in \<open>auto simp: ux_members_ok_def split: if_splits\<close>)

lemma members_remove:
  assumes ok: "ux_members_ok U G" and g: "G gid = Some g" and u: "U uid = Some u"
    and prim: "gid \<noteq> hd (usr_gids u)"
  shows "ux_members_ok (U(uid \<mapsto> u\<lparr>usr_gids := remove1 gid (usr_gids u)\<rparr>))
           (G(gid \<mapsto> g\<lparr>grp_uids := remove1 uid (grp_uids g)\<rparr>))"
proof (rule ux_members_okI)
  fix x y
  show "in_gids (U(uid \<mapsto> u\<lparr>usr_gids := remove1 gid (usr_gids u)\<rparr>)) x y \<longleftrightarrow>
      in_uids (G(gid \<mapsto> g\<lparr>grp_uids := remove1 uid (grp_uids g)\<rparr>)) y x"
    using ux_members_okD(4) [OF ok, of x y] in_uids_Some [of G gid g x, OF g] in_gids_Some [of U uid u y, OF u]
      ux_members_okD(2) [OF ok, of uid u] ux_members_okD(3) [OF ok, of gid g] g u
    by auto
next
  fix x w assume "(U(uid \<mapsto> u\<lparr>usr_gids := remove1 gid (usr_gids u)\<rparr>)) x = Some w"
  then show "usr_gids w \<noteq> [] \<and> distinct (usr_gids w)"
    using ux_members_okD(1,2) [OF ok, of uid u] ux_members_okD(1,2) [OF ok, of x w] u prim
      remove1_ne_Nil [of "usr_gids u" gid]
    by (auto split: if_splits)
qed (use assms in \<open>auto simp: ux_members_ok_def split: if_splits\<close>)

lemma members_del_user:
  assumes ok: "ux_members_ok U G" and u: "U uid = Some u" and gids: "usr_gids u = [gid]"
    and g: "G gid = Some g"
  shows "ux_members_ok (U(uid := None)) (G(gid \<mapsto> g\<lparr>grp_uids := remove1 uid (grp_uids g)\<rparr>))"
proof (rule ux_members_okI)
  fix x y
  show "in_gids (U(uid := None)) x y \<longleftrightarrow>
      in_uids (G(gid \<mapsto> g\<lparr>grp_uids := remove1 uid (grp_uids g)\<rparr>)) y x"
    using ux_members_okD(4) [OF ok, of x y] in_uids_Some [of G gid g x, OF g] in_gids_Some [of U uid u y, OF u]
      ux_members_okD(3) [OF ok, of gid g] g gids
    by auto
qed (use assms in \<open>auto simp: ux_members_ok_def split: if_splits\<close>)

lemma ux_invD:
  assumes "ux_inv st"
  shows "index_ok grp_group grp_gid (uxs_groupsByName st) (uxs_groupsByGid st)"
    and "index_ok usr_user usr_uid (uxs_usersByName st) (uxs_usersByUid st)"
    and "ux_members_ok (uxs_usersByUid st) (uxs_groupsByGid st)"
  using assms by (simp_all add: ux_inv_def)

lemma ux_inv_user:
  assumes "ux_inv st" and "uxs_usersByUid st uid = Some u"
  shows "usr_uid u = uid" and "uxs_usersByName st (usr_user u) = Some u" and "usr_gids u \<noteq> []"
  using index_ok_num [OF ux_invD(2) [OF assms(1)] assms(2)]
    ux_members_okD(1) [OF ux_invD(3) [OF assms(1)], of uid u] assms(2)
  by auto

lemma ux_inv_group:
  assumes "ux_inv st" and "uxs_groupsByGid st gid = Some g"
  shows "grp_gid g = gid" and "uxs_groupsByName st (grp_group g) = Some g"
  using index_ok_num [OF ux_invD(1) [OF assms(1)] assms(2)] by auto

lemma ux_inv_primary_group:
  assumes "ux_inv st" and "uxs_usersByUid st uid = Some u" and "gid \<in> set (usr_gids u)"
  obtains g where "uxs_groupsByGid st gid = Some g" and "uid \<in> set (grp_uids g)"
proof -
  have "in_uids (uxs_groupsByGid st) gid uid"
    using ux_members_okD(4) [OF ux_invD(3) [OF assms(1)], of uid gid] assms(2,3)
    by (auto simp: in_gids_def)
  then show ?thesis using that by (auto simp: in_uids_def)
qed

text \<open>Replacing a group or user by one with the same name and number.\<close>

lemma index_ok_regroup:
  assumes "ux_inv st" and "uxs_groupsByGid st gid = Some g"
    and "grp_gid g' = gid" and "grp_group g' = grp_group g"
  shows "index_ok grp_group grp_gid ((uxs_groupsByName st)(grp_group g \<mapsto> g'))
           ((uxs_groupsByGid st)(gid \<mapsto> g'))"
  using index_ok_put [OF ux_invD(1) [OF assms(1)], of g'] assms by auto

lemma index_ok_reuser:
  assumes "ux_inv st" and "uxs_usersByUid st uid = Some u"
    and "usr_uid u' = uid" and "usr_user u' = usr_user u"
  shows "index_ok usr_user usr_uid ((uxs_usersByName st)(usr_user u \<mapsto> u'))
           ((uxs_usersByUid st)(uid \<mapsto> u'))"
  using index_ok_put [OF ux_invD(2) [OF assms(1)], of u'] assms by auto

lemma advance_EvGroupCreated:
  assumes "ux_inv st" and "ux_allowed st (EvGroupCreated n gid)"
  shows "\<exists>st'. uxAdvanceEv st (EvGroupCreated n gid) = Ok st' \<and> ux_inv st'"
  using assms ux_invD [OF assms(1)] members_new_group [of "uxs_usersByUid st" "uxs_groupsByGid st" gid]
    index_ok_put [OF ux_invD(1) [OF assms(1)], of "\<lparr>grp_group = n, grp_gid = gid, grp_uids = []\<rparr>"]
  by (simp add: ux_inv_def putGroup_def)

lemma advance_EvUserCreated:
  assumes inv: "ux_inv st" and al: "ux_allowed st (EvUserCreated n uid gid)"
  shows "\<exists>st'. uxAdvanceEv st (EvUserCreated n uid gid) = Ok st' \<and> ux_inv st'"
proof -
  obtain g where g: "uxs_groupsByGid st gid = Some g" using al by auto
  have new: "uxs_usersByUid st uid = None" "uxs_usersByName st n = None" using al by auto
  have "uid \<notin> set (grp_uids g)"
    using ux_members_okD(4) [OF ux_invD(3) [OF inv], of uid gid] g new by (auto simp: in_ids)
  then have "ux_members_ok ((uxs_usersByUid st)(uid \<mapsto> \<lparr>usr_user = n, usr_uid = uid, usr_gids = [gid]\<rparr>))
      ((uxs_groupsByGid st)(gid \<mapsto> g\<lparr>grp_uids := grp_uids g @ [uid]\<rparr>))"
    using members_add [OF ux_invD(3) [OF inv] g, of uid] new by simp
  moreover note index_ok_put [OF ux_invD(2) [OF inv], of "\<lparr>usr_user = n, usr_uid = uid, usr_gids = [gid]\<rparr>"]
    index_ok_regroup [OF inv g, of "g\<lparr>grp_uids := grp_uids g @ [uid]\<rparr>"] ux_inv_group [OF inv g]
  ultimately show ?thesis using al g new
    by (simp add: ux_inv_def putGroup_def putUser_def)
qed

lemma advance_EvGroupUserAdded:
  assumes inv: "ux_inv st" and al: "ux_allowed st (EvGroupUserAdded gid uid)"
  shows "\<exists>st'. uxAdvanceEv st (EvGroupUserAdded gid uid) = Ok st' \<and> ux_inv st'"
proof -
  obtain u g where u: "uxs_usersByUid st uid = Some u" and g: "uxs_groupsByGid st gid = Some g"
    and new: "uid \<notin> set (grp_uids g)" using al by auto
  have "gid \<notin> set (usr_gids u)"
    using ux_members_okD(4) [OF ux_invD(3) [OF inv], of uid gid] g u new by (simp add: in_ids)
  then have "ux_members_ok ((uxs_usersByUid st)(uid \<mapsto> u\<lparr>usr_gids := usr_gids u @ [gid]\<rparr>))
      ((uxs_groupsByGid st)(gid \<mapsto> g\<lparr>grp_uids := grp_uids g @ [uid]\<rparr>))"
    using members_add [OF ux_invD(3) [OF inv] g new, of "u\<lparr>usr_gids := usr_gids u @ [gid]\<rparr>"] u
      ux_members_okD(2) [OF ux_invD(3) [OF inv], of uid u] by simp
  moreover note index_ok_reuser [OF inv u, of "u\<lparr>usr_gids := usr_gids u @ [gid]\<rparr>"]
    index_ok_regroup [OF inv g, of "g\<lparr>grp_uids := grp_uids g @ [uid]\<rparr>"]
    ux_inv_group [OF inv g] ux_inv_user [OF inv u]
  ultimately show ?thesis using al g u
    by (simp add: ux_inv_def putGroup_def putUser_def)
qed

lemma advance_EvGroupUserRemoved:
  assumes inv: "ux_inv st" and al: "ux_allowed st (EvGroupUserRemoved gid uid)"
  shows "\<exists>st'. uxAdvanceEv st (EvGroupUserRemoved gid uid) = Ok st' \<and> ux_inv st'"
proof -
  obtain u g where u: "uxs_usersByUid st uid = Some u" and g: "uxs_groupsByGid st gid = Some g"
    and prim: "gid \<noteq> hd (usr_gids u)" using al by auto
  note members_remove [OF ux_invD(3) [OF inv] g u prim]
    index_ok_reuser [OF inv u, of "u\<lparr>usr_gids := remove1 gid (usr_gids u)\<rparr>"]
    index_ok_regroup [OF inv g, of "g\<lparr>grp_uids := remove1 uid (grp_uids g)\<rparr>"]
    ux_inv_group [OF inv g] ux_inv_user [OF inv u]
  then show ?thesis using al g u
    by (simp add: ux_inv_def putGroup_def putUser_def)
qed

lemma advance_EvUserDeleted:
  assumes inv: "ux_inv st" and al: "ux_allowed st (EvUserDeleted uid)"
  shows "\<exists>st'. uxAdvanceEv st (EvUserDeleted uid) = Ok st' \<and> ux_inv st'"
proof -
  obtain u where u: "uxs_usersByUid st uid = Some u" and len: "length (usr_gids u) \<le> 1"
    using al by auto
  have "usr_gids u \<noteq> []" by (rule ux_inv_user(3) [OF inv u])
  then obtain gid where gids: "usr_gids u = [gid]" using len by (cases "usr_gids u") auto
  obtain g where g: "uxs_groupsByGid st gid = Some g"
    using ux_inv_primary_group [OF inv u, of gid] gids by auto
  note members_del_user [OF ux_invD(3) [OF inv] u gids g]
    index_ok_del [OF ux_invD(2) [OF inv], of u]
    index_ok_regroup [OF inv g, of "g\<lparr>grp_uids := remove1 uid (grp_uids g)\<rparr>"]
    ux_inv_group [OF inv g] ux_inv_user [OF inv u]
  then show ?thesis using al g u gids
    by (simp add: ux_inv_def putGroup_def)
qed

lemma advance_EvGroupDeleted:
  assumes inv: "ux_inv st" and al: "ux_allowed st (EvGroupDeleted gid)"
  shows "\<exists>st'. uxAdvanceEv st (EvGroupDeleted gid) = Ok st' \<and> ux_inv st'"
proof -
  obtain g where g: "uxs_groupsByGid st gid = Some g" and e: "grp_uids g = []" using al by auto
  note members_del_group [OF ux_invD(3) [OF inv] g e]
    index_ok_del [OF ux_invD(1) [OF inv], of g] ux_inv_group [OF inv g]
  then show ?thesis using al g inv by (simp add: ux_inv_def)
qed

lemma ux_allowed_advances:
  assumes "ux_inv st" and "ux_allowed st ev"
  shows "\<exists>st'. uxAdvanceEv st ev = Ok st' \<and> ux_inv st'"
proof (cases ev)
  case (EvDomainCreated n)
  then show ?thesis using assms by (simp add: ux_inv_def ux_members_ok_def)
qed (use assms advance_EvGroupCreated advance_EvUserCreated advance_EvGroupUserAdded
    advance_EvGroupUserRemoved advance_EvUserDeleted advance_EvGroupDeleted in \<open>simp_all only:\<close>)

section \<open>Commands\<close>

text \<open>The event that a command asks for.\<close>

fun ux_event_of :: "ux_cmd \<Rightarrow> UnixDomainEvent option" where
  "ux_event_of (UxCmdInit name) = Some (EvDomainCreated name)"
| "ux_event_of (UxCmdCreateGroup grp gid) = Some (EvGroupCreated grp gid)"
| "ux_event_of (UxCmdCreateUser usr uid gid) = Some (EvUserCreated usr uid gid)"
| "ux_event_of (UxCmdAddGroupUser gid uid) = Some (EvGroupUserAdded gid uid)"
| "ux_event_of (UxCmdRemoveGroupUser gid uid) = Some (EvGroupUserRemoved gid uid)"
| "ux_event_of (UxCmdDeleteUser uid) = Some (EvUserDeleted uid)"
| "ux_event_of (UxCmdDeleteGroup gid) = Some (EvGroupDeleted gid)"
| "ux_event_of UxCmdForeign = None"

definition ux_emits :: "ulid_source \<Rightarrow> UxState \<Rightarrow> UnixDomainEvent \<Rightarrow> UnixDomainPb Event list \<Rightarrow> bool" where
  "ux_emits g st ev evs \<longleftrightarrow>
     (\<exists>i p. g 0 = Inr i \<and>
        evs = [\<lparr>ev_id = i, ev_parent = uxs_vid st, ev_pb = uxSetPb i (uxs_vid st) p\<rparr>] \<and>
        ParsePbUnixDomainEvent p = Ok ev)"

lemmas uxTell_defs =
  uxTellInit_def uxTellCreateGroup_def uxTellCreateUser_def uxTellAddGroupUser_def
  uxTellRemoveGroupUser_def uxTellDeleteUser_def uxTellDeleteGroup_def

lemma wrap_newEvents_Ok:
  "wrapEventsNewEventsError (uxNewEvents g v [p]) = Ok evs \<longleftrightarrow>
     (\<exists>i. g 0 = Inr i \<and> evs = [\<lparr>ev_id = i, ev_parent = v, ev_pb = uxSetPb i v p\<rparr>])"
  by (auto simp: wrapEventsNewEventsError_def uxNewEvents_def split: sum.splits)

lemma wrap_newEvents_no_panic [simp]: "\<not> is_Panic (wrapEventsNewEventsError r)"
  by (auto simp: wrapEventsNewEventsError_def split: sum.splits)

lemma ux_emitsI:
  "g 0 = Inr i \<Longrightarrow> ParsePbUnixDomainEvent p = Ok ev \<Longrightarrow>
     ux_emits g st ev [\<lparr>ev_id = i, ev_parent = uxs_vid st, ev_pb = uxSetPb i (uxs_vid st) p\<rparr>]"
  by (auto simp: ux_emits_def)

lemma rgxName_ne: "rgxName n \<Longrightarrow> n \<noteq> []"
  by (simp add: rgxName_def)

lemma uxTell_Ok:
  assumes inv: "ux_inv st" and ok: "uxTell g st c = Ok evs"
  obtains "evs = []"
  | ev where "ux_event_of c = Some ev" "ux_allowed st ev" "ux_emits g st ev evs"
proof (cases "evs = []")
  case False
  have "\<exists>ev. ux_event_of c = Some ev \<and> ux_allowed st ev \<and> ux_emits g st ev evs"
  proof (cases c)
    case (UxCmdInit n)
    then show ?thesis using ok False
      by (auto simp: uxTellInit_def outcome_simps wrap_newEvents_Ok rgxName_ne
          intro!: ux_emitsI dest: parse_NewPb(1) split: if_splits)
  next
    case (UxCmdCreateGroup n gid)
    then show ?thesis using ok False
      by (auto simp: uxTellCreateGroup_def outcome_simps wrap_newEvents_Ok
          intro!: ux_emitsI dest: parse_NewPb(2) split: if_splits option.splits)
  next
    case (UxCmdCreateUser n uid gid)
    then show ?thesis using ok False
      by (auto simp: uxTellCreateUser_def outcome_simps wrap_newEvents_Ok
          intro!: ux_emitsI dest: parse_NewPb(3) split: if_splits option.splits)
  next
    case (UxCmdRemoveGroupUser gid uid)
    then show ?thesis using ok False ux_inv_user(3) [OF inv, of uid]
      by (auto simp: uxTellRemoveGroupUser_def outcome_simps wrap_newEvents_Ok
          parse_NewPb index0_ne intro!: ux_emitsI split: if_splits option.splits)
  qed (use ok False in \<open>auto simp: uxTell_defs wrap_newEvents_Ok parse_NewPb
      intro!: ux_emitsI split: if_splits option.splits\<close>)
  then show ?thesis using that(2) by blast
qed (use that in blast)

lemma uxTell_no_panic:
  assumes inv: "ux_inv st" shows "\<not> is_Panic (uxTell g st c)"
proof (cases c)
  case (UxCmdInit n)
  then show ?thesis
    by (auto simp: uxTellInit_def outcome_simps NewPbDomainCreated_def dest: rgxName_ne)
next
  case (UxCmdCreateGroup n gid)
  then show ?thesis
    by (auto simp: uxTellCreateGroup_def outcome_simps NewPbGroupCreated_def dest: rgxName_ne
        split: option.splits)
next
  case (UxCmdCreateUser n uid gid)
  let ?found = "case uxs_usersByName st n of None \<Rightarrow> uxs_usersByUid st uid | Some u \<Rightarrow> Some u"
  have "usr_gids u \<noteq> []" if "?found = Some u" for u
    using that ux_inv_user(3) [OF inv] index_ok_name [OF ux_invD(2) [OF inv], of n u]
    by (auto split: option.splits)
  then show ?thesis using UxCmdCreateUser
    by (cases ?found)
      (auto simp: uxTellCreateUser_def outcome_simps NewPbUserCreated_def isEqualUser_def index0_ne
        dest: rgxName_ne)
next
  case (UxCmdRemoveGroupUser gid uid)
  then show ?thesis using ux_inv_user(3) [OF inv, of uid]
    by (auto simp: uxTellRemoveGroupUser_def outcome_simps index0_ne split: option.splits)
qed (auto simp: uxTell_defs split: option.splits)

lemma advanceAll_emits:
  assumes "ux_emits g st ev evs"
  shows "advanceAll uxBehavior (uxEventOps pm pu ub) st evs =
     obind (uxAdvanceEv st ev) (\<lambda>st'. Ok (st'\<lparr>uxs_vid := ev_id (hd evs)\<rparr>))"
  using assms
  by (auto simp: ux_emits_def uxBehavior_def uxEventOps_def uxAdvance_def
      MustParsePbUnixDomainEvent_def)

lemma ux_inv_setVid [simp]: "ux_inv (st\<lparr>uxs_vid := v\<rparr>) \<longleftrightarrow> ux_inv st"
  by (simp add: ux_inv_def)

lemma ux_inv_new: "ux_inv (uxNewState i)"
  by (simp add: ux_inv_def uxNewState_def ux_members_ok_def)

lemma uxTell_advances:
  assumes inv: "ux_inv st" and ok: "uxTell g st c = Ok evs"
  shows "\<exists>st'. advanceAll uxBehavior (uxEventOps pm pu ub) st evs = Ok st' \<and> ux_inv st'"
  using inv ok
proof (cases rule: uxTell_Ok)
  case (2 ev)
  obtain st' where "uxAdvanceEv st ev = Ok st'" "ux_inv st'"
    using ux_allowed_advances [OF inv 2(2)] by blast
  then show ?thesis by (simp add: advanceAll_emits [OF 2(3)])
qed (use inv in simp)

lemma uxTell_chained:
  assumes "uxTell g st c = Ok evs"
  shows "chained (uxEventOps pm pu ub) (uxs_vid st) evs"
  using assms
  by (cases c) (auto simp: uxTell_defs outcome_simps wrap_newEvents_Ok uxEventOps_def
      split: if_splits option.splits)

lemma uxs_id_advanceEv: "uxAdvanceEv st ev = Ok st' \<Longrightarrow> uxs_id st' = uxs_id st"
  by (cases ev) (auto simp: outcome_simps putGroup_def putUser_def Let_def)

lemma ux_event_ops: "event_ops (uxEventOps pm pu ub)"
  by unfold_locales (simp_all add: uxEventOps_def uxWithId_def uxWithParent_def)

interpretation ux_ev: event_ops "uxEventOps pm pu ub" for pm pu ub
  by (rule ux_event_ops)

interpretation ux: aggregate uxBehavior "uxEventOps pm pu ub" ux_inv "\<lambda>_ _. True" for pm pu ub
proof unfold_locales
  fix st st' ev assume "Advance uxBehavior st ev = Ok st'"
  then show "StId uxBehavior st' = StId uxBehavior st"
    by (auto simp: uxBehavior_def uxAdvance_def outcome_simps dest: uxs_id_advanceEv)
next
  fix st c g evs
  assume inv: "ux_inv st" and ok: "Tell uxBehavior g st c = Ok evs"
  then have "uxTell g st c = Ok evs" by (simp add: uxBehavior_def)
  then show "\<exists>s'. advanceAll uxBehavior (uxEventOps pm pu ub) st evs = Ok s' \<and> ux_inv s'"
    by (rule uxTell_advances [OF inv])
qed (simp_all add: uxBehavior_def ux_inv_new uxTell_no_panic uxTell_chained, simp add: uxNewState_def)

section \<open>Refinement of an abstract domain\<close>

text \<open>
  What a Unix domain promises, without indexes: named groups, named users with a primary
  group, and a membership relation.
\<close>

record ux_spec =
  sp_name :: string
  sp_groups :: "32 word \<rightharpoonup> string"
  sp_users :: "32 word \<rightharpoonup> string \<times> 32 word"
  sp_members :: "(32 word \<times> 32 word) set" \<comment> \<open>uid, gid\<close>

definition ux_abs :: "UxState \<Rightarrow> ux_spec" where
  "ux_abs st =
     \<lparr>sp_name = uxs_name st,
      sp_groups = (\<lambda>gid. map_option grp_group (uxs_groupsByGid st gid)),
      sp_users = (\<lambda>uid. map_option (\<lambda>u. (usr_user u, hd (usr_gids u))) (uxs_usersByUid st uid)),
      sp_members = {(uid, gid). in_gids (uxs_usersByUid st) uid gid}\<rparr>"

fun ux_spec_step :: "ux_spec \<Rightarrow> UnixDomainEvent \<Rightarrow> ux_spec" where
  "ux_spec_step a (EvDomainCreated n) =
     \<lparr>sp_name = n, sp_groups = Map.empty, sp_users = Map.empty, sp_members = {}\<rparr>"
| "ux_spec_step a (EvGroupCreated n gid) = a\<lparr>sp_groups := (sp_groups a)(gid \<mapsto> n)\<rparr>"
| "ux_spec_step a (EvUserCreated n uid gid) =
     a\<lparr>sp_users := (sp_users a)(uid \<mapsto> (n, gid)), sp_members := insert (uid, gid) (sp_members a)\<rparr>"
| "ux_spec_step a (EvGroupUserAdded gid uid) = a\<lparr>sp_members := insert (uid, gid) (sp_members a)\<rparr>"
| "ux_spec_step a (EvGroupUserRemoved gid uid) = a\<lparr>sp_members := sp_members a - {(uid, gid)}\<rparr>"
| "ux_spec_step a (EvUserDeleted uid) =
     a\<lparr>sp_users := (sp_users a)(uid := None), sp_members := {m \<in> sp_members a. fst m \<noteq> uid}\<rparr>"
| "ux_spec_step a (EvGroupDeleted gid) = a\<lparr>sp_groups := (sp_groups a)(gid := None)\<rparr>"

lemma ux_abs_setVid [simp]: "ux_abs (st\<lparr>uxs_vid := v\<rparr>) = ux_abs st"
  by (simp add: ux_abs_def)

lemma ux_abs_putGroup:
  assumes "uxs_groupsByGid st (grp_gid g) = Some g0" and "grp_group g = grp_group g0"
  shows "ux_abs (putGroup g st) = ux_abs st"
  using assms by (auto simp: ux_abs_def putGroup_def)

lemma ux_abs_putUser:
  "ux_abs (putUser u st) = (ux_abs st)
     \<lparr>sp_users := (sp_users (ux_abs st))(usr_uid u \<mapsto> (usr_user u, hd (usr_gids u))),
      sp_members := {m \<in> sp_members (ux_abs st). fst m \<noteq> usr_uid u} \<union>
        {usr_uid u} \<times> set (usr_gids u)\<rparr>"
  by (auto simp: ux_abs_def putUser_def split: if_splits)

lemma ux_advance_refines:
  assumes inv: "ux_inv st" and al: "ux_allowed st ev" and ok: "uxAdvanceEv st ev = Ok st'"
  shows "ux_abs st' = ux_spec_step (ux_abs st) ev"
proof (cases ev)
  case (EvDomainCreated n)
  then show ?thesis using ok by (auto simp: ux_abs_def)
next
  case (EvGroupCreated n gid)
  then show ?thesis using ok by (auto simp: ux_abs_def putGroup_def)
next
  case (EvUserCreated n uid gid)
  then obtain g where g: "uxs_groupsByGid st gid = Some g" using al by auto
  let ?u = "\<lparr>usr_user = n, usr_uid = uid, usr_gids = [gid]\<rparr>"
  have "st' = putGroup (g\<lparr>grp_uids := grp_uids g @ [uid]\<rparr>) (putUser ?u st)"
    using ok g EvUserCreated by (simp add: Let_def putUser_def)
  then have "ux_abs st' = ux_abs (putUser ?u st)"
    using ux_abs_putGroup [of "putUser ?u st" _ g] g ux_inv_group(1) [OF inv g]
    by (simp add: putUser_def)
  moreover have "{m \<in> sp_members (ux_abs st). fst m \<noteq> uid} = sp_members (ux_abs st)"
    using al EvUserCreated by (auto simp: ux_abs_def in_gids_def)
  ultimately show ?thesis using EvUserCreated by (simp add: ux_abs_putUser)
next
  case (EvGroupUserAdded gid uid)
  then obtain u g where u: "uxs_usersByUid st uid = Some u" and g: "uxs_groupsByGid st gid = Some g"
    using al by auto
  let ?u = "u\<lparr>usr_gids := usr_gids u @ [gid]\<rparr>"
  have "st' = putGroup (g\<lparr>grp_uids := grp_uids g @ [uid]\<rparr>) (putUser ?u st)"
    using ok g u EvGroupUserAdded by (simp add: Let_def putUser_def)
  then have "ux_abs st' = ux_abs (putUser ?u st)"
    using ux_abs_putGroup [of "putUser ?u st" _ g] g ux_inv_group(1) [OF inv g]
    by (simp add: putUser_def)
  also have "\<dots> = ux_spec_step (ux_abs st) ev"
    using EvGroupUserAdded u ux_inv_user [OF inv u]
    by (auto simp: putUser_def ux_abs_def in_gids_def fun_eq_iff split: if_splits)
  finally show ?thesis .
next
  case (EvGroupUserRemoved gid uid)
  then obtain u g where u: "uxs_usersByUid st uid = Some u" and g: "uxs_groupsByGid st gid = Some g"
    and prim: "gid \<noteq> hd (usr_gids u)" using al by auto
  let ?u = "u\<lparr>usr_gids := remove1 gid (usr_gids u)\<rparr>"
  have "st' = putGroup (g\<lparr>grp_uids := remove1 uid (grp_uids g)\<rparr>) (putUser ?u st)"
    using ok g u EvGroupUserRemoved by (simp add: Let_def putUser_def)
  then have "ux_abs st' = ux_abs (putUser ?u st)"
    using ux_abs_putGroup [of "putUser ?u st" _ g] g ux_inv_group(1) [OF inv g]
    by (simp add: putUser_def)
  also have "\<dots> = ux_spec_step (ux_abs st) ev"
    using EvGroupUserRemoved u ux_inv_user [OF inv u]
      ux_members_okD(2) [OF ux_invD(3) [OF inv], of uid u] hd_remove1_other [of "usr_gids u" gid] prim
    by (auto simp: putUser_def ux_abs_def in_gids_def fun_eq_iff split: if_splits)
  finally show ?thesis .
next
  case (EvUserDeleted uid)
  then obtain u where u: "uxs_usersByUid st uid = Some u" using al by auto
  obtain g where g: "uxs_groupsByGid st (hd (usr_gids u)) = Some g"
    using ux_inv_primary_group [OF inv u] ux_inv_user(3) [OF inv u] by (metis hd_in_set)
  have "st' = putGroup (g\<lparr>grp_uids := remove1 uid (grp_uids g)\<rparr>)
      (st\<lparr>uxs_usersByUid := (uxs_usersByUid st)(uid := None),
          uxs_usersByName := (uxs_usersByName st)(usr_user u := None)\<rparr>)"
    using ok g u EvUserDeleted ux_inv_user [OF inv u] by (simp add: Let_def index0_ne)
  then show ?thesis using EvUserDeleted g ux_inv_group(1) [OF inv g]
    by (auto simp: ux_abs_def putGroup_def)
next
  case (EvGroupDeleted gid)
  then show ?thesis using ok al ux_inv_group(1) [OF inv]
    by (auto simp: ux_abs_def intro!: ext)
qed

section \<open>Commands are idempotent\<close>

lemma ux_tell_settled:
  assumes inv: "ux_inv st" and al: "ux_allowed st ev" and c: "ux_event_of c = Some ev"
    and name: "\<And>n uid gid. ev = EvUserCreated n uid gid \<Longrightarrow> rgxName n"
    and ok: "uxAdvanceEv st ev = Ok st'" and inv': "ux_inv st'"
  shows "uxTell g (st'\<lparr>uxs_vid := v\<rparr>) c = Ok []"
proof (cases c)
  case (UxCmdRemoveGroupUser gid uid)
  then have ev: "ev = EvGroupUserRemoved gid uid" using c by simp
  then obtain u grp where u: "uxs_usersByUid st uid = Some u" and grp: "uxs_groupsByGid st gid = Some grp"
    and prim: "gid \<noteq> hd (usr_gids u)" and nm: "uxs_name st \<noteq> []"
    using al by auto
  have ne: "usr_gids u \<noteq> []" by (rule ux_inv_user(3) [OF inv u])
  have d: "distinct (grp_uids grp)" using ux_members_okD(3) [OF ux_invD(3) [OF inv]] grp by blast
  have "index0 (remove1 gid (usr_gids u)) = (Ok (hd (usr_gids u)) :: (ux_error, 32 word) outcome)"
    using index0_ne [OF remove1_ne_Nil [OF ne prim]] hd_remove1_other [OF ne prim] by simp
  then show ?thesis using UxCmdRemoveGroupUser ok u grp prim nm d ev
      ux_inv_user(1) [OF inv u] ux_inv_group(1) [OF inv grp]
    by (auto simp: uxTell_defs putGroup_def putUser_def Let_def)
qed (use c al ok name ux_inv_user [OF inv] ux_inv_group [OF inv] in
    \<open>auto simp: uxTell_defs putGroup_def putUser_def Let_def outcome_simps isEqualUser_def index0_ne
        split: if_splits\<close>)

lemma ux_tell_name:
  "uxTell h st c = Ok evs \<Longrightarrow> ux_event_of c = Some (EvUserCreated n uid gid) \<Longrightarrow> rgxName n"
  by (cases c) (auto simp: uxTellCreateUser_def split: if_splits)

lemma uxTell_Nil:
  assumes "uxTell h st c = Ok []" shows "uxTell g st c = Ok []"
proof (cases c)
  case (UxCmdCreateUser n uid gid)
  then show ?thesis using assms
    by (auto simp: uxTellCreateUser_def wrap_newEvents_Ok outcome_simps
        split: if_splits option.splits)
qed (use assms in \<open>auto simp: uxTell_defs wrap_newEvents_Ok outcome_simps
    split: if_splits option.splits\<close>)

section \<open>Queries\<close>

definition userView :: "ux_user \<Rightarrow> UxUser" where
  "userView u = \<lparr>u_User = usr_user u, u_Uid = usr_uid u, u_Gid = hd (usr_gids u), u_Gids = usr_gids u\<rparr>"

lemma u_Uid_userView [simp]: "u_Uid (userView u) = usr_uid u"
  by (simp add: userView_def)

lemma mkUser_view: "usr_gids u \<noteq> [] \<Longrightarrow> mkUser u = Ok (userView u)"
  by (simp add: mkUser_def userView_def index0_ne)

lemma usersLoop_map:
  assumes "ux_inv st" and "set ks \<subseteq> dom (uxs_usersByUid st)"
  shows "usersLoop st ks = Ok (map (\<lambda>k. userView (the (uxs_usersByUid st k))) ks)"
  using assms(2)
proof (induction ks)
  case (Cons k ks)
  then obtain u where "uxs_usersByUid st k = Some u" by auto
  then show ?case using Cons ux_inv_user(3) [OF assms(1)] by (simp add: mkUser_view)
qed simp

lemma map_sort_key_self: "map f (sort_key f xs) = sort (map f xs)"
proof -
  have "mset (map f (sort_key f xs)) = mset (map f xs)" by simp
  then show ?thesis by (intro properties_for_sort [symmetric]) (simp_all add: sorted_sort_key)
qed

lemma sort_keys_dom:
  "distinct ks \<Longrightarrow> set ks = A \<Longrightarrow> sort (ks :: 32 word list) = sorted_list_of_set A"
  by (metis distinct_remdups_id sorted_list_of_set_sort_remdups)

section \<open>Properties\<close>

abbreviation ux_live ::
  "(UnixDomainPb \<Rightarrow> goerr + byte list) \<Rightarrow> (byte list \<Rightarrow> goerr + UnixDomainPb) \<Rightarrow> ulid_unmarshal \<Rightarrow>
   uuid \<Rightarrow> UxState \<Rightarrow> UnixDomainPb Event list \<Rightarrow> bool" where
  "ux_live pm pu ub \<equiv> live uxBehavior (uxEventOps pm pu ub) (\<lambda>_ _. True)"

text \<open>A domain \<open>ag\<close> with a group, used by the witnesses.\<close>

definition ux_demo_pb1 :: UnixDomainPb where
  "ux_demo_pb1 = uxSetPb 5 0 ((uxPb EV_UNIX_DOMAIN_CREATED)\<lparr>uxp_UnixDomainName := ''ag''\<rparr>)"

definition ux_demo_pb2 :: UnixDomainPb where
  "ux_demo_pb2 = uxSetPb 6 5 ((uxPb EV_UNIX_GROUP_CREATED)\<lparr>uxp_UnixGroup := ''g'', uxp_UnixGid := 100\<rparr>)"

definition ux_demo_st1 :: UxState where
  "ux_demo_st1 = (uxNewState 7)\<lparr>uxs_name := ''ag'', uxs_vid := 5\<rparr>"

definition ux_demo_st2 :: UxState where
  "ux_demo_st2 = (putGroup \<lparr>grp_group = ''g'', grp_gid = 100, grp_uids = []\<rparr> ux_demo_st1)\<lparr>uxs_vid := 6\<rparr>"

definition ux_demo_log :: "UnixDomainPb Event list" where
  "ux_demo_log = [\<lparr>ev_id = 5, ev_parent = 0, ev_pb = ux_demo_pb1\<rparr>, \<lparr>ev_id = 6, ev_parent = 5, ev_pb = ux_demo_pb2\<rparr>]"

lemma ux_demo_tell1:
  "uxTell (\<lambda>_. Inr 5) ((uxNewState 7)\<lparr>uxs_vid := 0\<rparr>) (UxCmdInit ''ag'') =
     Ok [\<lparr>ev_id = 5, ev_parent = 0, ev_pb = ux_demo_pb1\<rparr>]"
  by (simp add: uxTellInit_def uxNewState_def rgxName_def rgxNameChar_def is_lower_def
      NewPbDomainCreated_def wrapEventsNewEventsError_def uxNewEvents_def ux_demo_pb1_def)

lemma ux_demo_tell2:
  "uxTell (\<lambda>_. Inr 6) ux_demo_st1 (UxCmdCreateGroup ''g'' 100) =
     Ok [\<lparr>ev_id = 6, ev_parent = 5, ev_pb = ux_demo_pb2\<rparr>]"
  by (simp add: uxTellCreateGroup_def uxNewState_def rgxName_def rgxNameChar_def is_lower_def
      NewPbGroupCreated_def wrapEventsNewEventsError_def uxNewEvents_def ux_demo_pb2_def ux_demo_st1_def)

lemma ux_demo_advance1:
  "advanceAll uxBehavior (uxEventOps pm pu ub) ((uxNewState 7)\<lparr>uxs_vid := 0\<rparr>)
     [\<lparr>ev_id = 5, ev_parent = 0, ev_pb = ux_demo_pb1\<rparr>] = Ok ux_demo_st1"
  by (simp add: uxBehavior_def uxEventOps_def uxAdvance_def MustParsePbUnixDomainEvent_def
      ParsePbUnixDomainEvent_def fromPbDomainCreated_def ux_demo_pb1_def uxSetPb_def uxPb_def
      uxNewState_def ux_demo_st1_def)

lemma ux_demo_advance2:
  "advanceAll uxBehavior (uxEventOps pm pu ub) ux_demo_st1
     [\<lparr>ev_id = 6, ev_parent = 5, ev_pb = ux_demo_pb2\<rparr>] = Ok ux_demo_st2"
  by (simp add: uxBehavior_def uxEventOps_def uxAdvance_def MustParsePbUnixDomainEvent_def
      ParsePbUnixDomainEvent_def fromPbGroupCreated_def ux_demo_pb2_def uxSetPb_def uxPb_def
      ux_demo_st2_def)

lemma ux_demo_live: "ux_live pm pu ub 7 ux_demo_st1 [\<lparr>ev_id = 5, ev_parent = 0, ev_pb = ux_demo_pb1\<rparr>]"
    "ux_live pm pu ub 7 ux_demo_st2 ux_demo_log"
proof -
  have "ux_live pm pu ub 7 ((uxNewState 7)\<lparr>uxs_vid := 0\<rparr>) []"
    using live_new [of uxBehavior "uxEventOps pm pu ub" "\<lambda>_ _. True" 7] by (simp add: uxBehavior_def)
  then show l1: "ux_live pm pu ub 7 ux_demo_st1 [\<lparr>ev_id = 5, ev_parent = 0, ev_pb = ux_demo_pb1\<rparr>]"
    using live_tell [OF _ _ _ ux_demo_advance1, where c = "UxCmdInit ''ag''" and g = "\<lambda>_. Inr 5" and log = "[]"]
    by (simp add: uxBehavior_def ux_demo_tell1 [simplified])
  show "ux_live pm pu ub 7 ux_demo_st2 ux_demo_log"
    using live_tell [OF l1 _ _ ux_demo_advance2, where c = "UxCmdCreateGroup ''g'' 100" and g = "\<lambda>_. Inr 6"]
    by (simp add: uxBehavior_def ux_demo_tell2 [simplified] ux_demo_log_def)
qed

text \<open>
  C1: from a live Unix domain, every command is either refused with an error or produces
  events on which \<open>Advance()\<close> succeeds, giving a state that is live again: neither
  \<open>Tell()\<close> nor \<open>Advance()\<close> ever panics, so an event that was committed can always be replayed.
\<close>

theorem ux_tell_never_stuck:
  assumes "ux_live pm pu ub i st log"
  shows "(\<exists>e. uxTell g st c = Err e) \<or>
    (\<exists>evs st'. uxTell g st c = Ok evs \<and> advanceAll uxBehavior (uxEventOps pm pu ub) st evs = Ok st' \<and>
      ux_live pm pu ub i st' (log @ evs))"
  by (rule ux.live_step [OF assms, where c = c and g = g]) (auto simp: uxBehavior_def)

theorem ux_tell_never_stuck_witness:
  "\<exists>evs st'. uxTell (\<lambda>_. Inr 6) ux_demo_st1 (UxCmdCreateGroup ''g'' 100) = Ok evs \<and>
     ux_live (\<lambda>_. Inr []) (\<lambda>_. Inl (GoErr [])) (\<lambda>_. Inr 0) 7 st'
       ([\<lparr>ev_id = 5, ev_parent = 0, ev_pb = ux_demo_pb1\<rparr>] @ evs)"
  using ux_tell_never_stuck [OF ux_demo_live(1), of "\<lambda>_. Inr 6" "UxCmdCreateGroup ''g'' 100"]
    ux_demo_tell2 by fastforce

text \<open>
  C2: in a live Unix domain the maps by name and by number agree, users' groups and
  groups' users describe the same membership without duplicates, every user has a primary
  group, and the state is exactly what a replay of the log from the epoch computes, with the id of
  the last event as its version.
\<close>

theorem ux_live_consistent:
  assumes "ux_live pm pu ub i st log"
  shows "ux_inv st \<and> uxs_id st = i \<and> uxs_vid st = lastId (uxEventOps pm pu ub) EventEpoch log \<and>
    chained (uxEventOps pm pu ub) EventEpoch log \<and>
    advanceAll uxBehavior (uxEventOps pm pu ub) ((uxNewState i)\<lparr>uxs_vid := EventEpoch\<rparr>) log = Ok st"
  using ux.live_inv [OF assms] ux.live_id [OF assms] ux.live_vid [OF assms] ux.live_chained [OF assms]
    ux.live_replay [OF assms]
  by (simp add: uxBehavior_def)

theorem ux_live_consistent_witness: "ux_inv ux_demo_st2 \<and> uxs_vid ux_demo_st2 = 6"
  using ux_live_consistent [OF ux_demo_live(2), of "\<lambda>_. Inr []" "\<lambda>_. Inl (GoErr [])" "\<lambda>_. Inr 0"]
  by (simp add: ux_demo_log_def uxEventOps_def)

text \<open>
  C3: the domain refines its abstract specification of named groups, users with a primary
  group and a membership relation: an accepted command either changes nothing or has the effect
  of its event on the abstract domain.
\<close>

theorem ux_tell_refines_spec:
  assumes "ux_inv st" and "uxTell g st c = Ok evs"
    and "advanceAll uxBehavior (uxEventOps pm pu ub) st evs = Ok st'"
  shows "evs = [] \<and> ux_abs st' = ux_abs st \<or>
    (\<exists>ev. ux_event_of c = Some ev \<and> length evs = 1 \<and> ux_abs st' = ux_spec_step (ux_abs st) ev)"
  using assms(1,2)
proof (cases rule: uxTell_Ok)
  case (2 ev)
  obtain st1 where "uxAdvanceEv st ev = Ok st1" "st' = st1\<lparr>uxs_vid := ev_id (hd evs)\<rparr>"
    using assms(3) advanceAll_emits [OF 2(3), of pm pu ub] by (auto simp: outcome_simps)
  then have "ux_abs st' = ux_spec_step (ux_abs st) ev"
    using ux_advance_refines [OF assms(1) 2(2)] by simp
  then show ?thesis using 2(1,3) by (auto simp: ux_emits_def)
qed (use assms(3) in simp)

theorem ux_tell_refines_spec_witness:
  "sp_groups (ux_abs ux_demo_st2) = [100 \<mapsto> ''g'']"
  using ux_tell_refines_spec [OF _ ux_demo_tell2 ux_demo_advance2] ux.live_inv [OF ux_demo_live(1)]
  by (simp add: ux_abs_def ux_demo_st1_def uxNewState_def)

text \<open>
  Commands are idempotent: once the events of an accepted command have been applied,
  telling the same command again is accepted and produces no events.
\<close>

theorem ux_tell_idempotent:
  assumes "ux_inv st" and "uxTell h st c = Ok evs"
    and "advanceAll uxBehavior (uxEventOps pm pu ub) st evs = Ok st'"
  shows "uxTell g st' c = Ok []"
  using assms(1,2)
proof (cases rule: uxTell_Ok)
  case 1
  then show ?thesis using assms(2,3) uxTell_Nil by simp
next
  case (2 ev)
  obtain st1 where st1: "uxAdvanceEv st ev = Ok st1" "ux_inv st1"
    using ux_allowed_advances [OF assms(1) 2(2)] by blast
  then have "st' = st1\<lparr>uxs_vid := ev_id (hd evs)\<rparr>"
    using assms(3) advanceAll_emits [OF 2(3), of pm pu ub] by simp
  then show ?thesis
    using ux_tell_settled [OF assms(1) 2(2,1) _ st1] ux_tell_name [OF assms(2)] 2(1) by auto
qed

theorem ux_tell_idempotent_witness:
  "uxTell (\<lambda>_. Inr 9) ux_demo_st2 (UxCmdCreateGroup ''g'' 100) = Ok []"
  using ux_tell_idempotent [OF ux.live_inv [OF ux_demo_live(1)] ux_demo_tell2 ux_demo_advance2]
  by simp

text \<open>
  \<open>Users()\<close> does not depend on the order in which Go iterates over the map: for any
  order of the keys it returns every user once, ordered by uid, with the primary group as \<open>Gid\<close>.
\<close>

theorem ux_Users_order_independent:
  assumes "ux_inv st" and "distinct ks" and "set ks = dom (uxs_usersByUid st)"
  shows "\<exists>us. Users st ks = (Ok us :: (ux_error, UxUser list) outcome) \<and>
    map u_Uid us = sorted_list_of_set (dom (uxs_usersByUid st)) \<and>
    (\<forall>u \<in> set us. \<exists>x. uxs_usersByUid st (u_Uid u) = Some x \<and> u_User u = usr_user x \<and>
       u_Gids u = usr_gids x \<and> u_Gid u = hd (usr_gids x))"
proof -
  let ?us = "map (\<lambda>k. userView (the (uxs_usersByUid st k))) ks"
  have uid: "usr_uid (the (uxs_usersByUid st k)) = k" if "k \<in> set ks" for k
    using that assms(3) ux_inv_user(1) [OF assms(1)] by auto
  then have "map u_Uid ?us = ks" by (simp add: o_def map_idI)
  then have "map u_Uid (sort_key u_Uid ?us) = sorted_list_of_set (dom (uxs_usersByUid st))"
    using sort_keys_dom [OF assms(2,3)] by (simp only: map_sort_key_self)
  moreover have "\<exists>x. uxs_usersByUid st (u_Uid u) = Some x \<and> u_User u = usr_user x \<and>
      u_Gids u = usr_gids x \<and> u_Gid u = hd (usr_gids x)" if "u \<in> set ?us" for u
    using that assms(3) uid by (auto simp: userView_def)
  moreover have "Users st ks = (Ok (sort_key u_Uid ?us) :: (ux_error, UxUser list) outcome)"
    using assms(3) by (simp add: Users_def usersLoop_map [OF assms(1)])
  ultimately show ?thesis by auto
qed

theorem ux_Users_order_independent_witness: "\<exists>us. Users ux_demo_st2 [] = (Ok us :: (ux_error, UxUser list) outcome)"
  using ux_Users_order_independent [OF ux.live_inv [OF ux_demo_live(2)], of "[]"]
  by (simp add: ux_demo_st2_def ux_demo_st1_def uxNewState_def putGroup_def)

fun ux_names_ok :: "UnixDomainEvent \<Rightarrow> bool" where
  "ux_names_ok (EvDomainCreated n) = rgxName n"
| "ux_names_ok (EvGroupCreated n gid) = rgxName n"
| "ux_names_ok (EvUserCreated n uid gid) = rgxName n"
| "ux_names_ok _ = True"

lemma uxTell_names_ok:
  "uxTell g st c = Ok evs \<Longrightarrow> evs \<noteq> [] \<Longrightarrow> ux_event_of c = Some ev \<Longrightarrow> ux_names_ok ev"
  by (cases c) (auto simp: uxTell_defs outcome_simps split: if_splits option.splits)

lemma uxTell_complete:
  assumes inv: "ux_inv st" and c: "ux_event_of c = Some ev" and al: "ux_allowed st ev"
    and nm: "ux_names_ok ev" and g: "g 0 = Inr i"
  shows "\<exists>evs. uxTell g st c = Ok evs \<and> evs \<noteq> []"
proof (cases c)
  case (UxCmdRemoveGroupUser gid uid)
  then show ?thesis using c al g ux_inv_user(3) [OF inv]
    by (auto simp: uxTell_defs index0_ne wrapEventsNewEventsError_def uxNewEvents_def)
qed (use c al nm g in \<open>auto simp: uxTell_defs NewPbDomainCreated_def NewPbGroupCreated_def
    NewPbUserCreated_def wrapEventsNewEventsError_def uxNewEvents_def dest: rgxName_ne\<close>)

text \<open>
  C4: a command's event is emitted exactly when its guards hold: in a consistent domain and
  with a working id generator, a command is answered with its one event, chained to the version
  of the state, if and only if the event is allowed in the state and the new name, if any, is
  well-formed; otherwise it is refused or changes nothing.
\<close>

theorem ux_tell_emits_iff_allowed:
  assumes "ux_inv st" and "ux_event_of c = Some ev" and "g 0 = Inr i"
  shows "(\<exists>evs. uxTell g st c = Ok evs \<and> ux_emits g st ev evs) \<longleftrightarrow> ux_allowed st ev \<and> ux_names_ok ev"
proof
  assume "\<exists>evs. uxTell g st c = Ok evs \<and> ux_emits g st ev evs"
  then obtain evs where evs: "uxTell g st c = Ok evs" "ux_emits g st ev evs" by blast
  then have ne: "evs \<noteq> []" by (auto simp: ux_emits_def)
  from assms(1) evs(1) ne assms(2) have "ux_allowed st ev"
    by (cases rule: uxTell_Ok) auto
  then show "ux_allowed st ev \<and> ux_names_ok ev" using uxTell_names_ok [OF evs(1) ne assms(2)] by simp
next
  assume "ux_allowed st ev \<and> ux_names_ok ev"
  then obtain evs where evs: "uxTell g st c = Ok evs" "evs \<noteq> []"
    using uxTell_complete [of st c ev g i] assms by blast
  from assms(1) evs assms(2) have "ux_emits g st ev evs"
    by (cases rule: uxTell_Ok) auto
  with evs(1) show "\<exists>evs. uxTell g st c = Ok evs \<and> ux_emits g st ev evs" by blast
qed

theorem ux_tell_emits_iff_allowed_witness:
  "\<not> (\<exists>evs. uxTell (\<lambda>_. Inr 9) ux_demo_st2 (UxCmdCreateUser ''alice'' 1000 200) = Ok evs \<and>
        ux_emits (\<lambda>_. Inr 9) ux_demo_st2 (EvUserCreated ''alice'' 1000 200) evs)"
  using ux_tell_emits_iff_allowed [OF ux.live_inv [OF ux_demo_live(2)],
      of "UxCmdCreateUser ''alice'' 1000 200" "EvUserCreated ''alice'' 1000 200" "\<lambda>_. Inr 9" 9]
  by (simp add: ux_demo_st2_def ux_demo_st1_def uxNewState_def putGroup_def)

text \<open>
  C5: the events that a command produces survive the journal: what \<open>MarshalProto()\<close> writes,
  \<open>UnmarshalProto()\<close> reads back as the same event, given the documented behaviour of the
  protobuf and ULID libraries.
\<close>

theorem ux_tell_events_roundtrip:
  assumes "ux_codec pm pu" and "ulid_binary ub" and "ux_inv st" and "uxTell g st c = Ok evs"
    and "e \<in> set evs" and "uxMarshalProto pm e = Inr bs"
  shows "uxdUnmarshalProto pu ub bs = Ok e"
  using assms(3,4)
proof (cases rule: uxTell_Ok)
  case (2 ev)
  then have wf: "ux_event_wf e" and "ParsePbUnixDomainEvent (ev_pb e) = Ok ev"
    using assms(5) by (auto simp: ux_emits_def ux_event_wf_def, auto simp: uxSetPb_def)
  then show ?thesis using ux_roundtrip [OF assms(1,2) wf assms(6)]
    by (auto simp: uxdUnmarshalProto_def ParsePbUnixDomainEvent_def
        split: UnixDomainEvent_Type.splits)
qed (use assms(5) in simp)

theorem ux_tell_events_roundtrip_witness:
  "uxdUnmarshalProto (\<lambda>bs. if bs = [1] then Inr ux_demo_pb2 else Inl (GoErr ''proto''))
     (\<lambda>bs. if length bs = 16 then Inr (idOfBytes bs) else Inl (GoErr ''ulid'')) [1] =
   Ok \<lparr>ev_id = 6, ev_parent = 5, ev_pb = ux_demo_pb2\<rparr>"
  by (rule ux_tell_events_roundtrip [OF _ _ ux.live_inv [OF ux_demo_live(1)] ux_demo_tell2,
        where pm = "\<lambda>p. if p = ux_demo_pb2 then Inr [1] else Inl (GoErr ''proto'')"])
    (simp_all add: ux_codec_def ulid_binary_def uxMarshalProto_def)

end
