(* ===== verification/Ux_Engine.thy ===== *)
theory Ux_Engine
  imports Event_Engine Event_Memory Unix_Domains
begin

text \<open>
  Unix domains on the event-sourcing engine: the type \<open>UnixDomains\<close> of
  \<open>backend/internal/unixdomains/unix-domain.go\<close>, and the codec of its events.  The theorems on the engine are not
  instantiated for Unix domains: a cached state must not be used after an event was applied to it, which the engine does
  not ensure (\<open>Ux_Slices\<close>).
\<close>

section \<open>UnixDomains\<close>

datatype (plugins only: code) ux_api_error =
    UxPackageError ux_error
  | UxJournalError "ux_error EngineError"
  | UxApiUninitializedError

fun wrapJournalError :: "ux_error EngineError \<Rightarrow> ux_api_error" where
  "wrapJournalError (BehaviorError e) = UxPackageError e"
| "wrapJournalError e = UxJournalError e"

definition wrapVidJournalError ::
  "('x, ux_error EngineError, ulid) dbm \<Rightarrow> ('x, ux_api_error, ulid) dbm" where
  "wrapVidJournalError f = (\<lambda>x. map_option (\<lambda>(r, x'). (map_err wrapJournalError r, x')) (f x))"

text \<open>The arguments of every method: the driver and the codecs, and the ids that it draws.\<close>

record 'db UnixDomains =
  ud_mongo :: "'db Mongo"
  ud_dp :: decode_parent
  ud_ub :: ulid_unmarshal
  ud_pm :: "UnixDomainPb \<Rightarrow> goerr + byte list"
  ud_pu :: "byte list \<Rightarrow> goerr + UnixDomainPb"

abbreviation ud_ops :: "'db UnixDomains \<Rightarrow> UnixDomainPb Event EventOps" where
  "ud_ops r \<equiv> uxEventOps (ud_pm r) (ud_pu r) (ud_ub r)"

type_synonym id_sources = "nat \<Rightarrow> ulid_source \<times> ulid_source"

definition uxTellIdVid ::
  "'db UnixDomains \<Rightarrow> id_sources \<Rightarrow> uuid \<Rightarrow> ulid \<Rightarrow> ux_cmd \<Rightarrow>
   (('db, UxState) eng, ux_error EngineError, ulid) dbm" where
  "uxTellIdVid r gs i vid cmd =
     TellIdVid (ud_mongo r) (ud_dp r) (ud_ub r) uxBehavior (ud_ops r) (\<lambda>_. False) gs i vid cmd"

definition uxFindId :: "'db UnixDomains \<Rightarrow> uuid \<Rightarrow> (('db, UxState) eng, ux_api_error, UxState) dbm" where
  "uxFindId r i = (\<lambda>x.
     case FindId (ud_mongo r) (ud_dp r) (ud_ub r) uxBehavior (ud_ops r) i x of
       None \<Rightarrow> None
     | Some (Err e, x') \<Rightarrow> Some (Err (UxJournalError e), x')
     | Some (Panic p, x') \<Rightarrow> Some (Panic p, x')
     | Some (Ok st, x') \<Rightarrow>
         if uxs_vid st = EventEpoch then Some (Err UxApiUninitializedError, x') else Some (Ok st, x'))"

definition uxInit where
  "uxInit r gs i name = wrapVidJournalError (uxTellIdVid r gs i NoVC (UxCmdInit name))"
definition uxCreateGroup where
  "uxCreateGroup r gs i vid grp gid = wrapVidJournalError (uxTellIdVid r gs i vid (UxCmdCreateGroup grp gid))"
definition uxDeleteGroup where
  "uxDeleteGroup r gs i vid gid = wrapVidJournalError (uxTellIdVid r gs i vid (UxCmdDeleteGroup gid))"
definition uxCreateUser where
  "uxCreateUser r gs i vid usr uid gid = wrapVidJournalError (uxTellIdVid r gs i vid (UxCmdCreateUser usr uid gid))"
definition uxDeleteUser where
  "uxDeleteUser r gs i vid uid = wrapVidJournalError (uxTellIdVid r gs i vid (UxCmdDeleteUser uid))"
definition uxAddGroupUser where
  "uxAddGroupUser r gs i vid gid uid = wrapVidJournalError (uxTellIdVid r gs i vid (UxCmdAddGroupUser gid uid))"
definition uxRemoveGroupUser where
  "uxRemoveGroupUser r gs i vid gid uid = wrapVidJournalError (uxTellIdVid r gs i vid (UxCmdRemoveGroupUser gid uid))"

section \<open>The codec\<close>

text \<open>
  \<open>proto.Unmarshal\<close> into the general message \<open>pb.Event\<close> reads the parent that was marshalled as part of a
  specific message, since the field numbers agree.
\<close>

definition ux_parent_decoder :: "(UnixDomainPb \<Rightarrow> goerr + byte list) \<Rightarrow> decode_parent \<Rightarrow> bool" where
  "ux_parent_decoder pm dp \<longleftrightarrow>
     (\<forall>p bs. uxp_Parent p \<noteq> Some [] \<longrightarrow> pm p = Inr bs \<longrightarrow> dp bs = Inr (uxp_Parent p))"

definition ud_codecs :: "'db UnixDomains \<Rightarrow> bool" where
  "ud_codecs r \<longleftrightarrow>
     ux_codec (ud_pm r) (ud_pu r) \<and> ulid_binary (ud_ub r) \<and> ux_parent_decoder (ud_pm r) (ud_dp r)"

lemma uxdUnmarshal_wf:
  assumes "ux_codec pm pu" and "ulid_binary ub" and "ux_event_wf e" and "uxMarshalProto pm e = Inr bs"
  shows "uxdUnmarshalProto pu ub bs = Ok e"
  using ux_roundtrip [OF assms] assms(3)
  by (auto simp: uxdUnmarshalProto_def ux_event_wf_def ParsePbUnixDomainEvent_def
      split: UnixDomainEvent_Type.splits)

lemma parse_header [simp]:
  "ParsePbUnixDomainEvent (p\<lparr>uxp_Id := x\<rparr>) = ParsePbUnixDomainEvent p"
  "ParsePbUnixDomainEvent (p\<lparr>uxp_Parent := x\<rparr>) = ParsePbUnixDomainEvent p"
  by (auto simp: ParsePbUnixDomainEvent_def ux_fromPb_defs split: UnixDomainEvent_Type.splits)

lemma ux_event_codec:
  assumes "ud_codecs r"
  shows "event_codec (ud_ops r) ux_event_wf (docParent (ud_dp r) (ud_ub r))"
proof -
  have a: "ux_codec (ud_pm r) (ud_pu r)" "ulid_binary (ud_ub r)" "ux_parent_decoder (ud_pm r) (ud_dp r)"
    using assms by (simp_all add: ud_codecs_def)
  show ?thesis
  proof (intro event_codec.intro ux_event_ops event_codec_axioms.intro)
    fix ev bs assume wf: "ux_event_wf ev" and m: "MarshalProto (ud_ops r) ev = Inr bs"
    then have "ud_dp r bs = Inr (Some (idBytes (ev_parent ev)))"
      using a(3) [unfolded ux_parent_decoder_def, rule_format, of "ev_pb ev" bs]
      by (simp add: ux_event_wf_def uxEventOps_def uxMarshalProto_def)
    then show "docParent (ud_dp r) (ud_ub r) bs = Some (EvParent (ud_ops r) ev)"
      using a(2) by (simp add: docParent_def uxEventOps_def)
    show "UnmarshalProto (ud_ops r) bs = Ok ev"
      using uxdUnmarshal_wf [OF a(1,2) wf] m by (simp add: uxEventOps_def)
  qed (auto simp: uxEventOps_def uxWithId_def uxWithParent_def ux_event_wf_def)
qed

section \<open>A database in memory\<close>

text \<open>A database in memory and a codec for two messages, used by the witnesses.\<close>

definition mem0 :: MemDb where
  "mem0 = \<lparr>mem_events = [], mem_refs = [], mem_journal = [], mem_faults = []\<rparr>"

definition ud_demo :: "MemDb UnixDomains" where
  "ud_demo =
     \<lparr>ud_mongo = memMongo,
      ud_dp = (\<lambda>bs. if bs = [1] then Inr (uxp_Parent ux_demo_pb1)
                    else if bs = [2] then Inr (uxp_Parent ux_demo_pb2) else Inl (GoErr ''proto'')),
      ud_ub = (\<lambda>bs. if length bs = 16 then Inr (idOfBytes bs) else Inl (GoErr ''ulid'')),
      ud_pm = (\<lambda>p. if p = ux_demo_pb1 then Inr [1] else if p = ux_demo_pb2 then Inr [2] else Inl (GoErr ''proto'')),
      ud_pu = (\<lambda>bs. if bs = [1] then Inr ux_demo_pb1 else if bs = [2] then Inr ux_demo_pb2 else Inl (GoErr ''proto''))\<rparr>"

lemma ud_demo_codecs: "ud_codecs ud_demo"
  by (auto simp: ud_codecs_def ud_demo_def ux_codec_def ulid_binary_def ux_parent_decoder_def split: if_splits)

lemma mem0_inv: "jinv K par (mem_view mem0)"
  by (simp add: jinv_def mem_view_def mem0_def)

end
