(* ===== verification/Event_Properties.thy ===== *)
theory Event_Properties
  imports Ux_Engine
begin

text \<open>
  What the journal promises, as theorems about its operations: reads are consistent snapshots, and commits are
  linearizable compare-and-set steps.
\<close>

text \<open>A journal with one history of two events, used by the witnesses.\<close>

definition mem1 :: MemDb where
  "mem1 = mem0
     \<lparr>mem_events := [(5, \<lparr>ed_Id = 5, ed_Protobuf = [1]\<rparr>), (6, \<lparr>ed_Id = 6, ed_Protobuf = [2]\<rparr>)],
      mem_refs := [(7, \<lparr>rf_Id = 7, rf_Head = 6, rf_Epoch = 0, rf_EpochLog = [], rf_Tail = 0,
        rf_Serial = 0, rf_Phase = Some PhaseActive, rf_Dtime = 0\<rparr>)]\<rparr>"

lemma demo_parents:
  "docParent (ud_dp ud_demo) (ud_ub ud_demo) [1] = Some 0" "docParent (ud_dp ud_demo) (ud_ub ud_demo) [2] = Some 5"
  by (simp_all add: docParent_def ud_demo_def ParseBytes_def ux_demo_pb1_def ux_demo_pb2_def uxSetPb_def)

lemma mem1_chain: "chain (mv_events (mem_view mem1)) (docParent (ud_dp ud_demo) (ud_ub ud_demo)) 6 [5, 6]"
proof -
  let ?d = "\<lambda>i b. \<lparr>ed_Id = i, ed_Protobuf = [b]\<rparr>"
  have "chain (mv_events (mem_view mem1)) (docParent (ud_dp ud_demo) (ud_ub ud_demo)) 5 ([] @ [5])"
    by (rule chain_event [of _ _ "?d 5 1" _ 0]) (simp_all add: mem_view_def mem1_def demo_parents chain_epoch)
  then have "chain (mv_events (mem_view mem1)) (docParent (ud_dp ud_demo) (ud_ub ud_demo)) 6 ([5] @ [6])"
    by (intro chain_event [of _ _ "?d 6 2" _ 5]) (simp_all add: mem_view_def mem1_def demo_parents)
  then show ?thesis by simp
qed

lemma mem1_inv: "jinv (\<lambda>_ _ _. True) (docParent (ud_dp ud_demo) (ud_ub ud_demo)) (mem_view mem1)"
proof (rule jinvI)
  fix h r assume "mv_refs (mem_view mem1) h = Some r"
  then have "h = 7" "rf_Id r = 7" "rf_Head r = 6" "rf_Epoch r = 0" "rf_Tail r = 0" "rf_Serial r = 0"
    by (auto simp: mem_view_def mem1_def split: if_splits)
  then show "ref_inv (\<lambda>_ _ _. True) (docParent (ud_dp ud_demo) (ud_ub ud_demo)) (mem_view mem1) h r"
    using mem1_chain unfolding ref_inv_def journal_prefix_def
    by (auto simp: mem_view_def mem1_def mem0_def intro!: exI [of _ "[5, 6]"] exI [of _ 0])
qed (auto simp: mem_view_def mem1_def mem0_def split: if_splits)

interpretation memj: journal_db memMongo mem_view "(=)" "ud_dp ud_demo" "ud_ub ud_demo" "\<lambda>_ _ _. True"
  by unfold_locales (simp_all add: mono_hist_def)

interpretation memc: journal_codec memMongo mem_view "(=)" "ud_dp ud_demo" "ud_ub ud_demo" "\<lambda>_ _ _. True"
  "ud_ops ud_demo" ux_event_wf
  by (intro journal_codec.intro memj.journal_db_axioms ux_event_codec ud_demo_codecs)

text \<open>
  C7: \<open>Find()\<close> of a whole history always returns, never with a mismatch or corruption error, and
  what its iterator yields is a consistent snapshot: the encoded events of the complete parent chain of the history, in
  order, as it was at one point in time during the call, although other processes commit and read
  between any two database operations.
\<close>

theorem journal_find_snapshot:
  assumes "journal_db m view rely dp ub K" and "jinv K (docParent dp ub) (view db)"
  shows "\<exists>it db' v0 xs. journalFind m dp ub h EventEpoch db = Some (Ok it, db') \<and>
    evolves K (docParent dp ub) (view db) v0 \<and> evolves K (docParent dp ub) v0 (view db') \<and>
    snapshot (docParent dp ub) v0 h xs \<and>
    (case it_err it of
       Some e \<Rightarrow> isDBError e
     | None \<Rightarrow> (case it_mongo it of
         None \<Rightarrow> xs = []
       | Some (ds, err) \<Rightarrow> it_prev it = EventEpoch \<and>
           (\<exists>rest. map jd_Protobuf ds @ rest = map (\<lambda>e. ed_Protobuf (the (mv_events (view db') e))) xs \<and>
              (err = None \<longrightarrow> rest = []))))"
  by (rule journal_db.Find_all_run [OF assms, of h]) blast

theorem journal_find_snapshot_witness:
  "\<exists>it db'. journalFind memMongo (ud_dp ud_demo) (ud_ub ud_demo) 7 EventEpoch mem1 = Some (Ok it, db') \<and>
     (it_err it = None \<or> (\<exists>e. it_err it = Some e \<and> isDBError e))"
proof -
  obtain it db' where "journalFind memMongo (ud_dp ud_demo) (ud_ub ud_demo) 7 EventEpoch mem1 = Some (Ok it, db')"
    and "case it_err it of Some e \<Rightarrow> isDBError e | None \<Rightarrow> True"
    using journal_find_snapshot [OF memj.journal_db_axioms mem1_inv, of 7] by (fastforce split: option.splits)
  then show ?thesis by (cases "it_err it") auto
qed

text \<open>
  C8: \<open>Commit()\<close> is linearizable: it always returns; if it succeeds, there is one step at which
  the head of the active history moved from the parent of the first event to the last event, so that exactly the new
  events were appended to the history; if it fails, then only with a database or encoding error, a
  mismatching duplicate event, an unknown history or a version conflict.
\<close>

theorem journal_commit_linearizable:
  assumes "journal_codec m view rely dp ub (\<lambda>_ _ _. True) ops wfe"
    and "jinv (\<lambda>_ _ _. True) (docParent dp ub) (view db)" and "evs \<noteq> []" and "\<forall>ev \<in> set evs. wfe ev"
    and "\<forall>n i. g n = Inr i \<longrightarrow> i \<noteq> ulidNil"
  shows "\<exists>r db'. journalCommit m ops g h evs db = Some (r, db') \<and>
    evolves (\<lambda>_ _ _. True) (docParent dp ub) (view db) (view db') \<and>
    (case r of
       Ok (out, posted) \<Rightarrow> eventsWithId ops g evs = Inr out \<and> posted = [h] \<and>
         (\<exists>v1 xs. evolves (\<lambda>_ _ _. True) (docParent dp ub) (view db) v1 \<and>
            commit_point ops (docParent dp ub) h (EvParent ops (hd evs)) out xs v1 (view db'))
     | Err e \<Rightarrow> isCommitError h (EvParent ops (hd evs)) e
     | Panic p \<Rightarrow> False)"
  by (rule journal_codec.Commit_run [OF assms, of h]) blast+

theorem journal_commit_linearizable_witness:
  "\<exists>r db'. journalCommit memMongo (ud_ops ud_demo) (\<lambda>_. Inr 9) 7 ux_demo_log mem0 = Some (r, db') \<and> \<not> is_Panic r"
proof -
  have "\<forall>ev \<in> set ux_demo_log. ux_event_wf ev"
    by (auto simp: ux_demo_log_def ux_event_wf_def ux_demo_pb1_def ux_demo_pb2_def uxSetPb_def uxPb_def
        ParsePbUnixDomainEvent_def ux_fromPb_defs)
  from journal_commit_linearizable [OF memc.journal_codec_axioms mem0_inv _ this, of "\<lambda>_. Inr 9" 7]
  obtain r db' where "journalCommit memMongo (ud_ops ud_demo) (\<lambda>_. Inr 9) 7 ux_demo_log mem0 = Some (r, db')"
    and "case r of Panic p \<Rightarrow> False | _ \<Rightarrow> True" by (fastforce simp: ux_demo_log_def split: outcome.splits)
  then show ?thesis by (cases r) auto
qed

end
