(* ===== verification/Ux_Slices.thy ===== *)
theory Ux_Slices
  imports Unix_Domains
begin

text \<open>
  The slices of Unix domains on an explicit store.  \<open>Advance()\<close> of \<open>backend/internal/unixdomains/unix-domain.go\<close> copies
  the struct of a user or a group and then appends to or deletes from its slice, whose array the copy shares with the
  original, so that the events write to arrays that older states read.  Here the arrays are in a store and
  the states hold slice headers.  The replay of a history, which uses every state once, gives the state of
  the pure model; a state from which an event was applied before may not be used again.
\<close>

section \<open>Slices\<close>

text \<open>A store of arrays, the length of an array being its capacity; addresses from \<open>st_next\<close> on are free.\<close>

record Store =
  st_arrays :: "nat \<Rightarrow> 32 word list"
  st_next :: nat

record Slice =
  sl_array :: nat
  sl_len :: nat

definition readSlice :: "Store \<Rightarrow> Slice \<Rightarrow> 32 word list" where
  "readSlice h s = take (sl_len s) (st_arrays h (sl_array s))"

definition newSlice :: "Store \<Rightarrow> 32 word list \<Rightarrow> nat \<Rightarrow> Store \<times> Slice" where
  "newSlice h xs extra =
     (h\<lparr>st_arrays := (st_arrays h)(st_next h := xs @ replicate extra 0), st_next := st_next h + 1\<rparr>,
      \<lparr>sl_array = st_next h, sl_len = length xs\<rparr>)"

text \<open>
  The builtin \<open>append\<close> writes behind the slice if the capacity suffices and copies to a new array otherwise, whose
  capacity the runtime chooses.
\<close>

definition appendSlice :: "(nat \<Rightarrow> nat) \<Rightarrow> Store \<Rightarrow> Slice \<Rightarrow> 32 word list \<Rightarrow> Store \<times> Slice" where
  "appendSlice grow h s xs =
     (let a = st_arrays h (sl_array s); n = sl_len s + length xs
      in if n \<le> length a
         then (h\<lparr>st_arrays := (st_arrays h)(sl_array s := take (sl_len s) a @ xs @ drop n a)\<rparr>, s\<lparr>sl_len := n\<rparr>)
         else newSlice h (readSlice h s @ xs) (grow n))"

text \<open>\<open>deleteGid()\<close>, also used as \<open>deleteUid()\<close>: \<open>append(gids[0:i], gids[i+1:]...)\<close> for the first match.\<close>

fun deleteLoop ::
  "(nat \<Rightarrow> nat) \<Rightarrow> Store \<Rightarrow> Slice \<Rightarrow> 32 word \<Rightarrow> nat \<Rightarrow> 32 word list \<Rightarrow> Store \<times> Slice" where
  "deleteLoop grow h s gid i [] = (h, s)"
| "deleteLoop grow h s gid i (v # vs) =
     (if v = gid then appendSlice grow h (s\<lparr>sl_len := i\<rparr>) (drop (i + 1) (readSlice h s))
      else deleteLoop grow h s gid (i + 1) vs)"

definition deleteSlice :: "(nat \<Rightarrow> nat) \<Rightarrow> Store \<Rightarrow> Slice \<Rightarrow> 32 word \<Rightarrow> Store \<times> Slice" where
  "deleteSlice grow h s gid = deleteLoop grow h s gid 0 (readSlice h s)"

section \<open>States and events\<close>

record sx_group =
  sg_group :: string
  sg_gid :: "32 word"
  sg_uids :: Slice

record sx_user =
  su_user :: string
  su_uid :: "32 word"
  su_gids :: Slice

record SxState =
  sx_id :: uuid
  sx_vid :: ulid
  sx_name :: string
  sx_groupsByName :: "string \<rightharpoonup> sx_group"
  sx_groupsByGid :: "32 word \<rightharpoonup> sx_group"
  sx_usersByName :: "string \<rightharpoonup> sx_user"
  sx_usersByUid :: "32 word \<rightharpoonup> sx_user"

definition sxNewState :: "uuid \<Rightarrow> SxState" where
  "sxNewState i = \<lparr>sx_id = i, sx_vid = 0, sx_name = [], sx_groupsByName = Map.empty,
     sx_groupsByGid = Map.empty, sx_usersByName = Map.empty, sx_usersByUid = Map.empty\<rparr>"

definition sxPutGroup :: "sx_group \<Rightarrow> SxState \<Rightarrow> SxState" where
  "sxPutGroup g st = st
     \<lparr>sx_groupsByName := (sx_groupsByName st)(sg_group g \<mapsto> g), sx_groupsByGid := (sx_groupsByGid st)(sg_gid g \<mapsto> g)\<rparr>"

definition sxPutUser :: "sx_user \<Rightarrow> SxState \<Rightarrow> SxState" where
  "sxPutUser u st = st
     \<lparr>sx_usersByName := (sx_usersByName st)(su_user u \<mapsto> u), sx_usersByUid := (sx_usersByUid st)(su_uid u \<mapsto> u)\<rparr>"

text \<open>A nil slice is a slice of length and capacity zero.\<close>

fun sxAdvanceEv ::
  "(nat \<Rightarrow> nat) \<Rightarrow> Store \<Rightarrow> SxState \<Rightarrow> UnixDomainEvent \<Rightarrow> (ux_error, Store \<times> SxState) outcome" where
  "sxAdvanceEv grow h st (EvDomainCreated name) =
     Ok (h, st\<lparr>sx_name := name, sx_groupsByName := Map.empty, sx_groupsByGid := Map.empty,
            sx_usersByName := Map.empty, sx_usersByUid := Map.empty\<rparr>)"
| "sxAdvanceEv grow h st (EvGroupCreated grp gid) =
     (let (h1, s) = newSlice h [] 0
      in Ok (h1, sxPutGroup \<lparr>sg_group = grp, sg_gid = gid, sg_uids = s\<rparr> st))"
| "sxAdvanceEv grow h st (EvUserCreated usr uid gid) =
     (let (h1, s) = newSlice h [gid] 0; st1 = sxPutUser \<lparr>su_user = usr, su_uid = uid, su_gids = s\<rparr> st
      in obind (deref (sx_groupsByGid st1 gid)) (\<lambda>g.
           let (h2, t) = appendSlice grow h1 (sg_uids g) [uid]
           in Ok (h2, sxPutGroup (g\<lparr>sg_uids := t\<rparr>) st1)))"
| "sxAdvanceEv grow h st (EvGroupUserAdded gid uid) =
     obind (deref (sx_usersByUid st uid)) (\<lambda>u.
       let (h1, s) = appendSlice grow h (su_gids u) [gid]; st1 = sxPutUser (u\<lparr>su_gids := s\<rparr>) st
       in obind (deref (sx_groupsByGid st1 gid)) (\<lambda>g.
            let (h2, t) = appendSlice grow h1 (sg_uids g) [uid]
            in Ok (h2, sxPutGroup (g\<lparr>sg_uids := t\<rparr>) st1)))"
| "sxAdvanceEv grow h st (EvGroupUserRemoved gid uid) =
     obind (deref (sx_usersByUid st uid)) (\<lambda>u.
       let (h1, s) = deleteSlice grow h (su_gids u) gid; st1 = sxPutUser (u\<lparr>su_gids := s\<rparr>) st
       in obind (deref (sx_groupsByGid st1 gid)) (\<lambda>g.
            let (h2, t) = deleteSlice grow h1 (sg_uids g) uid
            in Ok (h2, sxPutGroup (g\<lparr>sg_uids := t\<rparr>) st1)))"
| "sxAdvanceEv grow h st (EvUserDeleted uid) =
     obind (deref (sx_usersByUid st uid)) (\<lambda>u.
       let st1 = st\<lparr>sx_usersByUid := (sx_usersByUid st)(su_uid u := None),
                    sx_usersByName := (sx_usersByName st)(su_user u := None)\<rparr>
       in obind (index0 (readSlice h (su_gids u))) (\<lambda>gid.
            obind (deref (sx_groupsByGid st1 gid)) (\<lambda>g.
              let (h1, t) = deleteSlice grow h (sg_uids g) (su_uid u)
              in Ok (h1, sxPutGroup (g\<lparr>sg_uids := t\<rparr>) st1))))"
| "sxAdvanceEv grow h st (EvGroupDeleted gid) =
     obind (deref (sx_groupsByGid st gid)) (\<lambda>g.
       Ok (h, st\<lparr>sx_groupsByGid := (sx_groupsByGid st)(sg_gid g := None),
              sx_groupsByName := (sx_groupsByName st)(sg_group g := None)\<rparr>))"

text \<open>The replay of events, as \<open>FindFromState()\<close> does it.\<close>

fun sxReplay ::
  "(nat \<Rightarrow> nat) \<Rightarrow> Store \<Rightarrow> SxState \<Rightarrow> UnixDomainPb Event list \<Rightarrow> (ux_error, Store \<times> SxState) outcome" where
  "sxReplay grow h st [] = Ok (h, st)"
| "sxReplay grow h st (ev # evs) =
     obind (MustParsePbUnixDomainEvent (ev_pb ev)) (\<lambda>e.
       obind (sxAdvanceEv grow h st e) (\<lambda>(h', st'). sxReplay grow h' (st'\<lparr>sx_vid := ev_id ev\<rparr>) evs))"

text \<open>What a state says, in a store.\<close>

definition groupIn :: "Store \<Rightarrow> sx_group \<Rightarrow> ux_group" where
  "groupIn h g = \<lparr>grp_group = sg_group g, grp_gid = sg_gid g, grp_uids = readSlice h (sg_uids g)\<rparr>"

definition userIn :: "Store \<Rightarrow> sx_user \<Rightarrow> ux_user" where
  "userIn h u = \<lparr>usr_user = su_user u, usr_uid = su_uid u, usr_gids = readSlice h (su_gids u)\<rparr>"

definition stateIn :: "Store \<Rightarrow> SxState \<Rightarrow> UxState" where
  "stateIn h st =
     \<lparr>uxs_id = sx_id st, uxs_vid = sx_vid st, uxs_name = sx_name st,
      uxs_groupsByName = map_option (groupIn h) \<circ> sx_groupsByName st,
      uxs_groupsByGid = map_option (groupIn h) \<circ> sx_groupsByGid st,
      uxs_usersByName = map_option (userIn h) \<circ> sx_usersByName st,
      uxs_usersByUid = map_option (userIn h) \<circ> sx_usersByUid st\<rparr>"

section \<open>Slices of one owner\<close>

definition slice_ok :: "Store \<Rightarrow> Slice \<Rightarrow> bool" where
  "slice_ok h s \<longleftrightarrow> sl_array s < st_next h \<and> sl_len s \<le> length (st_arrays h (sl_array s))"

text \<open>A slice is replaced by one that uses its array or a new one; other arrays are not written.\<close>

definition slice_step :: "Store \<Rightarrow> Slice \<Rightarrow> Store \<Rightarrow> Slice \<Rightarrow> bool" where
  "slice_step h s h' s' \<longleftrightarrow> slice_ok h' s' \<and> (sl_array s' = sl_array s \<or> st_next h \<le> sl_array s') \<and> st_next h \<le> st_next h' \<and>
     (\<forall>a. a < st_next h \<longrightarrow> a \<noteq> sl_array s \<longrightarrow> st_arrays h' a = st_arrays h a)"

lemma newSlice_read:
  assumes "newSlice h xs extra = (h', s)"
  shows "readSlice h' s = xs" "slice_ok h' s" "sl_array s = st_next h" "st_next h \<le> st_next h'"
    "a < st_next h \<Longrightarrow> st_arrays h' a = st_arrays h a"
  using assms by (auto simp: newSlice_def readSlice_def slice_ok_def)

lemma appendSlice_step:
  assumes "slice_ok h s" and "appendSlice grow h s xs = (h', s')"
  shows "readSlice h' s' = readSlice h s @ xs \<and> slice_step h s h' s'"
proof (cases "sl_len s + length xs \<le> length (st_arrays h (sl_array s))")
  case True
  then show ?thesis using assms
    by (auto simp: appendSlice_def Let_def readSlice_def slice_step_def slice_ok_def)
next
  case False
  then have "newSlice h (readSlice h s @ xs) (grow (sl_len s + length xs)) = (h', s')"
    using assms(2) by (simp add: appendSlice_def Let_def)
  from newSlice_read [OF this] show ?thesis by (auto simp: slice_step_def)
qed

lemma slice_step_refl: "slice_ok h s \<Longrightarrow> slice_step h s h s"
  by (simp add: slice_step_def)

lemma drop_eq_Cons:
  assumes "v # vs = drop i xs"
  shows "i < length xs" "vs = drop (i + 1) xs" "v = xs ! i"
proof -
  show i: "i < length xs" using assms by (metis drop_all list.discI not_le)
  then have "drop i xs = xs ! i # drop (i + 1) xs" by (simp add: Cons_nth_drop_Suc)
  then show "vs = drop (i + 1) xs" "v = xs ! i" using assms by simp_all
qed

lemma deleteLoop_step:
  assumes ok: "slice_ok h s" and del: "deleteLoop grow h s gid i vs = (h', s')"
    and i: "i + length vs = sl_len s" "vs = drop i (readSlice h s)" "gid \<notin> set (take i (readSlice h s))"
  shows "readSlice h' s' = take i (readSlice h s) @ remove1 gid vs \<and> slice_step h s h' s'"
  using del i
proof (induction vs arbitrary: i)
  case Nil
  then show ?case using ok by (auto simp: slice_step_refl readSlice_def)
next
  case (Cons v vs)
  let ?xs = "readSlice h s"
  have len: "length ?xs = sl_len s" using ok by (simp add: readSlice_def slice_ok_def)
  note i = drop_eq_Cons [OF Cons.prems(3)]
  show ?case
  proof (cases "v = gid")
    case True
    have sub: "slice_ok h (s\<lparr>sl_len := i\<rparr>)" using ok i(1) len by (simp add: slice_ok_def)
    have "readSlice h (s\<lparr>sl_len := i\<rparr>) = take i ?xs" using i(1) len by (simp add: readSlice_def min_def)
    then show ?thesis
      using appendSlice_step [OF sub, of grow "drop (i + 1) ?xs" h' s'] Cons.prems(1) True i(2)
      by (simp add: slice_step_def)
  next
    case False
    have t: "take (i + 1) ?xs = take i ?xs @ [v]" using i by (simp add: take_Suc_conv_app_nth)
    have "readSlice h' s' = take (i + 1) ?xs @ remove1 gid vs \<and> slice_step h s h' s'"
      by (rule Cons.IH) (use Cons.prems(1,2,4) False i(2) t in simp_all)
    then show ?thesis using False t by simp
  qed
qed

lemma deleteSlice_step:
  assumes "slice_ok h s" and "deleteSlice grow h s gid = (h', s')"
  shows "readSlice h' s' = remove1 gid (readSlice h s) \<and> slice_step h s h' s'"
  using deleteLoop_step [OF assms(1), of grow gid 0 "readSlice h s" h' s'] assms
  by (simp add: deleteSlice_def readSlice_def slice_ok_def)

text \<open>The slice that was deleted from is changed: behind the removed element all move up, and the last occurs twice.\<close>

lemma deleteLoop_inplace:
  assumes ok: "slice_ok h s" and del: "deleteLoop grow h s gid i vs = (h', s')"
    and i: "i + length vs = sl_len s" "vs = drop i (readSlice h s)" and g: "gid \<in> set vs"
  shows "readSlice h' s = take i (readSlice h s) @ remove1 gid vs @ [last vs]"
  using del i g
proof (induction vs arbitrary: i)
  case (Cons v vs)
  let ?xs = "readSlice h s" and ?a = "st_arrays h (sl_array s)"
  have len: "length ?xs = sl_len s" "sl_len s \<le> length ?a" using ok by (simp_all add: readSlice_def slice_ok_def)
  note i = drop_eq_Cons [OF Cons.prems(3)]
  have last: "last (v # vs) = ?xs ! (sl_len s - 1)"
    using Cons.prems(3) i(1) len(1) by (metis last_conv_nth last_drop list.size(3) not_less_zero)
  show ?case
  proof (cases "v = gid")
    case True
    have n: "i + length (drop (i + 1) ?xs) = sl_len s - 1" using i(1) len(1) by simp
    have le: "sl_len s - 1 \<le> length ?a" using len(2) by simp
    have h': "st_arrays h' (sl_array s) = take i ?a @ drop (i + 1) ?xs @ drop (sl_len s - 1) ?a"
      using Cons.prems(1) True n le by (auto simp: appendSlice_def Let_def)
    have "take 1 (drop (sl_len s - 1) ?a) = [?a ! (sl_len s - 1)]" using len i(1) by (simp add: take_Suc_conv_app_nth)
    moreover have "?a ! (sl_len s - 1) = ?xs ! (sl_len s - 1)" using len i(1) by (simp add: readSlice_def)
    moreover have "take i ?a = take i ?xs" using i(1) len(1) by (simp add: readSlice_def min_def)
    ultimately show ?thesis
      using True i(1,2) len n last by (simp add: readSlice_def [of h'] h')
  next
    case False
    have t: "take (i + 1) ?xs = take i ?xs @ [v]" using i by (simp add: take_Suc_conv_app_nth)
    have ne: "vs \<noteq> []" using Cons.prems(4) False by auto
    have "readSlice h' s = take (i + 1) ?xs @ remove1 gid vs @ [last vs]"
      by (rule Cons.IH) (use Cons.prems(1,2,4) False i(2) in simp_all)
    then show ?thesis using False t ne by simp
  qed
qed simp

lemma deleteSlice_inplace:
  assumes "slice_ok h s" and "deleteSlice grow h s gid = (h', s')" and "gid \<in> set (readSlice h s)"
  shows "readSlice h' s = remove1 gid (readSlice h s) @ [last (readSlice h s)]"
  using deleteLoop_inplace [OF assms(1), of grow gid 0 "readSlice h s" h' s'] assms
  by (simp add: deleteSlice_def readSlice_def [of h s] slice_ok_def)

section \<open>Separation\<close>

text \<open>No two users or groups of a state share an array.\<close>

definition slots :: "SxState \<Rightarrow> 32 word + 32 word \<Rightarrow> Slice option" where
  "slots st x = (case x of
     Inl uid \<Rightarrow> map_option su_gids (sx_usersByUid st uid)
   | Inr gid \<Rightarrow> map_option sg_uids (sx_groupsByGid st gid))"

definition apart :: "Store \<Rightarrow> ('o \<rightharpoonup> Slice) \<Rightarrow> bool" where
  "apart h m \<longleftrightarrow> (\<forall>x s. m x = Some s \<longrightarrow> slice_ok h s) \<and>
     (\<forall>x y s t. m x = Some s \<longrightarrow> m y = Some t \<longrightarrow> x \<noteq> y \<longrightarrow> sl_array s \<noteq> sl_array t)"

lemma apartD:
  assumes "apart h m"
  shows "m x = Some s \<Longrightarrow> slice_ok h s" "m x = Some s \<Longrightarrow> m y = Some t \<Longrightarrow> x \<noteq> y \<Longrightarrow> sl_array s \<noteq> sl_array t"
  using assms by (auto simp: apart_def)

text \<open>A step of one slice leaves what the others read.\<close>

lemma apart_step:
  assumes ap: "apart h m" and x: "m x = Some s" and step: "slice_step h s h' s'"
  shows "apart h' (m(x \<mapsto> s'))" and "m y = Some t \<Longrightarrow> y \<noteq> x \<Longrightarrow> readSlice h' t = readSlice h t"
proof -
  have same: "st_arrays h' (sl_array t) = st_arrays h (sl_array t)" "sl_array t < st_next h" if "m y = Some t" "y \<noteq> x" for y t
    using apartD(1) [OF ap that(1)] apartD(2) [OF ap that(1) x that(2)] step by (auto simp: slice_step_def slice_ok_def)
  show "readSlice h' t = readSlice h t" if "m y = Some t" "y \<noteq> x"
    using same [OF that] by (simp add: readSlice_def)
  have ok: "slice_ok h' t" if "m y = Some t" "y \<noteq> x" for y t
    using same [OF that] apartD(1) [OF ap that(1)] step by (auto simp: slice_step_def slice_ok_def)
  have ne: "sl_array s' \<noteq> sl_array t" if "m y = Some t" "y \<noteq> x" for y t
    using same [OF that] apartD(2) [OF ap that(1) x that(2)] step by (auto simp: slice_step_def)
  show "apart h' (m(x \<mapsto> s'))"
    unfolding apart_def
  proof (intro conjI allI impI)
    fix y t assume "(m(x \<mapsto> s')) y = Some t"
    then show "slice_ok h' t" using ok step by (auto simp: slice_step_def split: if_splits)
  next
    fix y z t u assume "(m(x \<mapsto> s')) y = Some t" "(m(x \<mapsto> s')) z = Some u" "y \<noteq> z"
    then show "sl_array t \<noteq> sl_array u" using ne apartD(2) [OF ap] by (auto split: if_splits) metis+
  qed
qed

lemma apart_new:
  assumes ap: "apart h m" and x: "m x = None" and new: "newSlice h xs n = (h', s)"
  shows "apart h' (m(x \<mapsto> s))" and "m y = Some t \<Longrightarrow> readSlice h' t = readSlice h t"
proof -
  note n = newSlice_read [OF new]
  have old: "sl_array t < st_next h" "st_arrays h' (sl_array t) = st_arrays h (sl_array t)" if "m y = Some t" for y t
    using apartD(1) [OF ap that] n(5) by (auto simp: slice_ok_def)
  show "readSlice h' t = readSlice h t" if "m y = Some t" using old [OF that] by (simp add: readSlice_def)
  show "apart h' (m(x \<mapsto> s))"
    unfolding apart_def
  proof (intro conjI allI impI)
    fix y t assume "(m(x \<mapsto> s)) y = Some t"
    then show "slice_ok h' t" using old apartD(1) [OF ap] n(2,4) by (fastforce simp: slice_ok_def split: if_splits)
  next
    fix y z t u assume "(m(x \<mapsto> s)) y = Some t" "(m(x \<mapsto> s)) z = Some u" "y \<noteq> z"
    then show "sl_array t \<noteq> sl_array u" using old n(3) apartD(2) [OF ap] by (fastforce split: if_splits)
  qed
qed

lemma apart_del: "apart h m \<Longrightarrow> apart h (m(x := None))"
  by (auto simp: apart_def)

text \<open>Maps whose values are read in a store.\<close>

lemma map_put:
  assumes "\<And>k v. m k = Some v \<Longrightarrow> k \<noteq> x \<Longrightarrow> f' v = f v"
  shows "map_option f' \<circ> m(x \<mapsto> w) = (map_option f \<circ> m)(x \<mapsto> f' w)"
  using assms by (auto simp: fun_eq_iff map_option_case split: option.splits)

lemma map_same:
  assumes "\<And>k v. m k = Some v \<Longrightarrow> f' v = f v"
  shows "map_option f' \<circ> m = map_option f \<circ> m"
  using assms by (auto simp: fun_eq_iff map_option_case split: option.splits)

lemma map_del: "map_option f \<circ> m(x := None) = (map_option f \<circ> m)(x := None)"
  by (auto simp: fun_eq_iff)

text \<open>In an index, the entry by name that is not under the name of a value is not the entry by number either.\<close>

lemma index_ok_other:
  assumes "index_ok nm num bn bk" and "bk k = Some w" and "bn n = Some v" and "n \<noteq> nm w"
  shows "num v \<noteq> k" "bk (num v) = Some v"
  using index_ok_name [OF assms(1,3)] assms(2,4) by auto

definition sx_ok :: "Store \<Rightarrow> SxState \<Rightarrow> bool" where
  "sx_ok h st \<longleftrightarrow> apart h (slots st) \<and> index_ok sg_group sg_gid (sx_groupsByName st) (sx_groupsByGid st) \<and>
     index_ok su_user su_uid (sx_usersByName st) (sx_usersByUid st)"

lemma slots_upd:
  "slots (sxPutUser u st) = (slots st)(Inl (su_uid u) \<mapsto> su_gids u)"
  "slots (sxPutGroup g st) = (slots st)(Inr (sg_gid g) \<mapsto> sg_uids g)"
  by (auto simp: fun_eq_iff slots_def sxPutUser_def sxPutGroup_def split: sum.split)

text \<open>Replacing or adding a user or a group in a store that changed elsewhere only.\<close>

lemma same_elsewhere:
  assumes idx: "index_ok su_user su_uid (sx_usersByName st) (sx_usersByUid st)"
    "index_ok sg_group sg_gid (sx_groupsByName st) (sx_groupsByGid st)"
    and same: "\<And>y t. slots st y = Some t \<Longrightarrow> y \<noteq> x \<Longrightarrow> readSlice h' t = readSlice h t"
  shows "sx_usersByUid st k = Some u \<Longrightarrow> x \<noteq> Inl k \<Longrightarrow> userIn h' u = userIn h u"
    and "sx_usersByName st n = Some u \<Longrightarrow> x \<noteq> Inl (su_uid u) \<Longrightarrow> userIn h' u = userIn h u"
    and "sx_groupsByGid st k = Some g \<Longrightarrow> x \<noteq> Inr k \<Longrightarrow> groupIn h' g = groupIn h g"
    and "sx_groupsByName st n = Some g \<Longrightarrow> x \<noteq> Inr (sg_gid g) \<Longrightarrow> groupIn h' g = groupIn h g"
proof -
  show u: "userIn h' u = userIn h u" if "sx_usersByUid st k = Some u" "x \<noteq> Inl k" for k
    using same [of "Inl k" "su_gids u"] that by (simp add: userIn_def slots_def)
  show g: "groupIn h' g = groupIn h g" if "sx_groupsByGid st k = Some g" "x \<noteq> Inr k" for k
    using same [of "Inr k" "sg_uids g"] that by (simp add: groupIn_def slots_def)
  show "userIn h' u = userIn h u" if "sx_usersByName st n = Some u" "x \<noteq> Inl (su_uid u)"
    using u that index_ok_name [OF idx(1) that(1)] by blast
  show "groupIn h' g = groupIn h g" if "sx_groupsByName st n = Some g" "x \<noteq> Inr (sg_gid g)"
    using g that index_ok_name [OF idx(2) that(1)] by blast
qed

lemma put_user:
  assumes idx: "index_ok su_user su_uid (sx_usersByName st) (sx_usersByUid st)"
    "index_ok sg_group sg_gid (sx_groupsByName st) (sx_groupsByGid st)"
    and new: "sx_usersByUid st (su_uid u) = None \<and> sx_usersByName st (su_user u) = None \<or>
      (\<exists>w. sx_usersByUid st (su_uid u) = Some w \<and> su_user w = su_user u)"
    and same: "\<And>y t. slots st y = Some t \<Longrightarrow> y \<noteq> Inl (su_uid u) \<Longrightarrow> readSlice h' t = readSlice h t"
  shows "stateIn h' (sxPutUser u st) = putUser (userIn h' u) (stateIn h st)"
proof -
  note e = same_elsewhere [OF idx same]
  have other: "su_uid v \<noteq> su_uid u" if "sx_usersByName st n = Some v" "n \<noteq> su_user u" for n v
    using index_ok_name [OF idx(1) that(1)] that(2) new by auto
  have "map_option (userIn h') \<circ> (sx_usersByName st)(su_user u \<mapsto> u) = (map_option (userIn h) \<circ> sx_usersByName st)(su_user u \<mapsto> userIn h' u)"
    by (intro map_put e(2)) (auto dest: other)
  moreover have "map_option (userIn h') \<circ> (sx_usersByUid st)(su_uid u \<mapsto> u) = (map_option (userIn h) \<circ> sx_usersByUid st)(su_uid u \<mapsto> userIn h' u)"
    by (intro map_put e(1)) auto
  moreover have "map_option (groupIn h') \<circ> sx_groupsByGid st = map_option (groupIn h) \<circ> sx_groupsByGid st"
    by (intro map_same e(3)) auto
  moreover have "map_option (groupIn h') \<circ> sx_groupsByName st = map_option (groupIn h) \<circ> sx_groupsByName st"
    by (intro map_same e(4)) auto
  ultimately show ?thesis by (simp add: stateIn_def sxPutUser_def putUser_def userIn_def [of h' u])
qed

lemma put_group:
  assumes idx: "index_ok su_user su_uid (sx_usersByName st) (sx_usersByUid st)"
    "index_ok sg_group sg_gid (sx_groupsByName st) (sx_groupsByGid st)"
    and new: "sx_groupsByGid st (sg_gid g) = None \<and> sx_groupsByName st (sg_group g) = None \<or>
      (\<exists>w. sx_groupsByGid st (sg_gid g) = Some w \<and> sg_group w = sg_group g)"
    and same: "\<And>y t. slots st y = Some t \<Longrightarrow> y \<noteq> Inr (sg_gid g) \<Longrightarrow> readSlice h' t = readSlice h t"
  shows "stateIn h' (sxPutGroup g st) = putGroup (groupIn h' g) (stateIn h st)"
proof -
  note e = same_elsewhere [OF idx same]
  have other: "sg_gid v \<noteq> sg_gid g" if "sx_groupsByName st n = Some v" "n \<noteq> sg_group g" for n v
    using index_ok_name [OF idx(2) that(1)] that(2) new by auto
  have "map_option (groupIn h') \<circ> (sx_groupsByName st)(sg_group g \<mapsto> g) = (map_option (groupIn h) \<circ> sx_groupsByName st)(sg_group g \<mapsto> groupIn h' g)"
    by (intro map_put e(4)) (auto dest: other)
  moreover have "map_option (groupIn h') \<circ> (sx_groupsByGid st)(sg_gid g \<mapsto> g) = (map_option (groupIn h) \<circ> sx_groupsByGid st)(sg_gid g \<mapsto> groupIn h' g)"
    by (intro map_put e(3)) auto
  moreover have "map_option (userIn h') \<circ> sx_usersByUid st = map_option (userIn h) \<circ> sx_usersByUid st"
    by (intro map_same e(1)) auto
  moreover have "map_option (userIn h') \<circ> sx_usersByName st = map_option (userIn h) \<circ> sx_usersByName st"
    by (intro map_same e(2)) auto
  ultimately show ?thesis by (simp add: stateIn_def sxPutGroup_def putGroup_def groupIn_def [of h' g])
qed

text \<open>A step of the slice of a known user or group, and a new one.\<close>

lemma step_user:
  assumes ok: "sx_ok h st" and u: "sx_usersByUid st uid = Some u" and step: "slice_step h (su_gids u) h' s"
  shows "sx_ok h' (sxPutUser (u\<lparr>su_gids := s\<rparr>) st)"
    and "stateIn h' (sxPutUser (u\<lparr>su_gids := s\<rparr>) st) = putUser ((userIn h u)\<lparr>usr_gids := readSlice h' s\<rparr>) (stateIn h st)"
proof -
  have ap: "apart h (slots st)" and idx: "index_ok su_user su_uid (sx_usersByName st) (sx_usersByUid st)"
    "index_ok sg_group sg_gid (sx_groupsByName st) (sx_groupsByGid st)" using ok by (simp_all add: sx_ok_def)
  have id: "su_uid u = uid" using index_ok_num [OF idx(1) u] by simp
  have m: "slots st (Inl uid) = Some (su_gids u)" using u by (simp add: slots_def)
  note a = apart_step [OF ap m step]
  show "sx_ok h' (sxPutUser (u\<lparr>su_gids := s\<rparr>) st)"
    using a(1) idx index_ok_put [OF idx(1), of "u\<lparr>su_gids := s\<rparr>"] u id
    by (simp add: sx_ok_def slots_upd) (simp add: sxPutUser_def)
  have "stateIn h' (sxPutUser (u\<lparr>su_gids := s\<rparr>) st) = putUser (userIn h' (u\<lparr>su_gids := s\<rparr>)) (stateIn h st)"
    by (rule put_user [OF idx]) (use u id a(2) in auto)
  then show "stateIn h' (sxPutUser (u\<lparr>su_gids := s\<rparr>) st) = putUser ((userIn h u)\<lparr>usr_gids := readSlice h' s\<rparr>) (stateIn h st)"
    by (simp add: userIn_def)
qed

lemma step_group:
  assumes ok: "sx_ok h st" and g: "sx_groupsByGid st gid = Some g" and step: "slice_step h (sg_uids g) h' s"
  shows "sx_ok h' (sxPutGroup (g\<lparr>sg_uids := s\<rparr>) st)"
    and "stateIn h' (sxPutGroup (g\<lparr>sg_uids := s\<rparr>) st) = putGroup ((groupIn h g)\<lparr>grp_uids := readSlice h' s\<rparr>) (stateIn h st)"
proof -
  have ap: "apart h (slots st)" and idx: "index_ok su_user su_uid (sx_usersByName st) (sx_usersByUid st)"
    "index_ok sg_group sg_gid (sx_groupsByName st) (sx_groupsByGid st)" using ok by (simp_all add: sx_ok_def)
  have id: "sg_gid g = gid" using index_ok_num [OF idx(2) g] by simp
  have m: "slots st (Inr gid) = Some (sg_uids g)" using g by (simp add: slots_def)
  note a = apart_step [OF ap m step]
  show "sx_ok h' (sxPutGroup (g\<lparr>sg_uids := s\<rparr>) st)"
    using a(1) idx index_ok_put [OF idx(2), of "g\<lparr>sg_uids := s\<rparr>"] g id
    by (simp add: sx_ok_def slots_upd) (simp add: sxPutGroup_def)
  have "stateIn h' (sxPutGroup (g\<lparr>sg_uids := s\<rparr>) st) = putGroup (groupIn h' (g\<lparr>sg_uids := s\<rparr>)) (stateIn h st)"
    by (rule put_group [OF idx]) (use g id a(2) in auto)
  then show "stateIn h' (sxPutGroup (g\<lparr>sg_uids := s\<rparr>) st) = putGroup ((groupIn h g)\<lparr>grp_uids := readSlice h' s\<rparr>) (stateIn h st)"
    by (simp add: groupIn_def)
qed

lemma new_user:
  assumes ok: "sx_ok h st" and new: "sx_usersByUid st uid = None" "sx_usersByName st n = None" and s: "newSlice h xs k = (h', s)"
  shows "sx_ok h' (sxPutUser \<lparr>su_user = n, su_uid = uid, su_gids = s\<rparr> st)"
    and "stateIn h' (sxPutUser \<lparr>su_user = n, su_uid = uid, su_gids = s\<rparr> st) =
      putUser \<lparr>usr_user = n, usr_uid = uid, usr_gids = xs\<rparr> (stateIn h st)"
proof -
  let ?u = "\<lparr>su_user = n, su_uid = uid, su_gids = s\<rparr>"
  have ap: "apart h (slots st)" and idx: "index_ok su_user su_uid (sx_usersByName st) (sx_usersByUid st)"
    "index_ok sg_group sg_gid (sx_groupsByName st) (sx_groupsByGid st)" using ok by (simp_all add: sx_ok_def)
  have m: "slots st (Inl uid) = None" using new by (simp add: slots_def)
  note a = apart_new [OF ap m s]
  show "sx_ok h' (sxPutUser ?u st)"
    using a(1) idx index_ok_put [OF idx(1), of ?u] new by (simp add: sx_ok_def slots_upd) (simp add: sxPutUser_def)
  have "stateIn h' (sxPutUser ?u st) = putUser (userIn h' ?u) (stateIn h st)"
    by (rule put_user [OF idx]) (use new a(2) in auto)
  then show "stateIn h' (sxPutUser ?u st) = putUser \<lparr>usr_user = n, usr_uid = uid, usr_gids = xs\<rparr> (stateIn h st)"
    using newSlice_read(1) [OF s] by (simp add: userIn_def)
qed

lemma new_group:
  assumes ok: "sx_ok h st" and new: "sx_groupsByGid st gid = None" "sx_groupsByName st n = None" and s: "newSlice h xs k = (h', s)"
  shows "sx_ok h' (sxPutGroup \<lparr>sg_group = n, sg_gid = gid, sg_uids = s\<rparr> st)"
    and "stateIn h' (sxPutGroup \<lparr>sg_group = n, sg_gid = gid, sg_uids = s\<rparr> st) =
      putGroup \<lparr>grp_group = n, grp_gid = gid, grp_uids = xs\<rparr> (stateIn h st)"
proof -
  let ?g = "\<lparr>sg_group = n, sg_gid = gid, sg_uids = s\<rparr>"
  have ap: "apart h (slots st)" and idx: "index_ok su_user su_uid (sx_usersByName st) (sx_usersByUid st)"
    "index_ok sg_group sg_gid (sx_groupsByName st) (sx_groupsByGid st)" using ok by (simp_all add: sx_ok_def)
  have m: "slots st (Inr gid) = None" using new by (simp add: slots_def)
  note a = apart_new [OF ap m s]
  show "sx_ok h' (sxPutGroup ?g st)"
    using a(1) idx index_ok_put [OF idx(2), of ?g] new by (simp add: sx_ok_def slots_upd) (simp add: sxPutGroup_def)
  have "stateIn h' (sxPutGroup ?g st) = putGroup (groupIn h' ?g) (stateIn h st)"
    by (rule put_group [OF idx]) (use new a(2) in auto)
  then show "stateIn h' (sxPutGroup ?g st) = putGroup \<lparr>grp_group = n, grp_gid = gid, grp_uids = xs\<rparr> (stateIn h st)"
    using newSlice_read(1) [OF s] by (simp add: groupIn_def)
qed

section \<open>The replay\<close>

lemma stateIn_lookup:
  "sx_usersByUid st uid = Some u \<Longrightarrow> uxs_usersByUid (stateIn h st) uid = Some (userIn h u)"
  "sx_groupsByGid st gid = Some g \<Longrightarrow> uxs_groupsByGid (stateIn h st) gid = Some (groupIn h g)"
  "uxs_usersByUid (stateIn h st) uid = Some v \<Longrightarrow> \<exists>u. sx_usersByUid st uid = Some u \<and> v = userIn h u"
  "uxs_groupsByGid (stateIn h st) gid = Some w \<Longrightarrow> \<exists>g. sx_groupsByGid st gid = Some g \<and> w = groupIn h g"
  "uxs_usersByUid (stateIn h st) uid = None \<longleftrightarrow> sx_usersByUid st uid = None"
  "uxs_groupsByGid (stateIn h st) gid = None \<longleftrightarrow> sx_groupsByGid st gid = None"
  "uxs_usersByName (stateIn h st) n = None \<longleftrightarrow> sx_usersByName st n = None"
  "uxs_groupsByName (stateIn h st) n = None \<longleftrightarrow> sx_groupsByName st n = None"
  by (auto simp: stateIn_def)

lemma sx_slice_ok:
  assumes "sx_ok h st"
  shows "sx_usersByUid st uid = Some u \<Longrightarrow> slice_ok h (su_gids u)" "sx_groupsByGid st gid = Some g \<Longrightarrow> slice_ok h (sg_uids g)"
  using assms apartD(1) [of h "slots st" "Inl uid" "su_gids u"] apartD(1) [of h "slots st" "Inr gid" "sg_uids g"]
  by (simp_all add: sx_ok_def slots_def)

lemma sx_put_frame [simp]:
  "sx_groupsByGid (sxPutUser u st) = sx_groupsByGid st" "sx_usersByUid (sxPutGroup g st) = sx_usersByUid st"
  by (simp_all add: sxPutUser_def sxPutGroup_def)

lemma userIn_sel [simp]: "usr_gids (userIn h u) = readSlice h (su_gids u)" "usr_uid (userIn h u) = su_uid u" "usr_user (userIn h u) = su_user u"
  by (simp_all add: userIn_def)

lemma groupIn_sel [simp]: "grp_uids (groupIn h g) = readSlice h (sg_uids g)" "grp_gid (groupIn h g) = sg_gid g" "grp_group (groupIn h g) = sg_group g"
  by (simp_all add: groupIn_def)

lemma sx_del:
  assumes "sx_ok h st"
  shows "sx_usersByUid st uid = Some u \<Longrightarrow>
      sx_ok h (st\<lparr>sx_usersByUid := (sx_usersByUid st)(su_uid u := None), sx_usersByName := (sx_usersByName st)(su_user u := None)\<rparr>)"
    and "sx_groupsByGid st gid = Some g \<Longrightarrow>
      sx_ok h (st\<lparr>sx_groupsByGid := (sx_groupsByGid st)(sg_gid g := None), sx_groupsByName := (sx_groupsByName st)(sg_group g := None)\<rparr>)"
proof -
  have ap: "apart h (slots st)" and idx: "index_ok su_user su_uid (sx_usersByName st) (sx_usersByUid st)"
    "index_ok sg_group sg_gid (sx_groupsByName st) (sx_groupsByGid st)" using assms by (simp_all add: sx_ok_def)
  show "sx_ok h (st\<lparr>sx_usersByUid := (sx_usersByUid st)(su_uid u := None), sx_usersByName := (sx_usersByName st)(su_user u := None)\<rparr>)"
    if u: "sx_usersByUid st uid = Some u"
  proof -
    have "slots (st\<lparr>sx_usersByUid := (sx_usersByUid st)(su_uid u := None), sx_usersByName := (sx_usersByName st)(su_user u := None)\<rparr>) =
        (slots st)(Inl (su_uid u) := None)" by (auto simp: fun_eq_iff slots_def split: sum.split)
    then show ?thesis using apart_del [OF ap] idx index_ok_del [OF idx(1), of u] u index_ok_num [OF idx(1) u] by (simp add: sx_ok_def)
  qed
  show "sx_ok h (st\<lparr>sx_groupsByGid := (sx_groupsByGid st)(sg_gid g := None), sx_groupsByName := (sx_groupsByName st)(sg_group g := None)\<rparr>)"
    if g: "sx_groupsByGid st gid = Some g"
  proof -
    have "slots (st\<lparr>sx_groupsByGid := (sx_groupsByGid st)(sg_gid g := None), sx_groupsByName := (sx_groupsByName st)(sg_group g := None)\<rparr>) =
        (slots st)(Inr (sg_gid g) := None)" by (auto simp: fun_eq_iff slots_def split: sum.split)
    then show ?thesis using apart_del [OF ap] idx index_ok_del [OF idx(2), of g] g index_ok_num [OF idx(2) g] by (simp add: sx_ok_def)
  qed
qed

text \<open>An event on the store is the event of the pure model.\<close>

definition sx_refines :: "(nat \<Rightarrow> nat) \<Rightarrow> Store \<Rightarrow> SxState \<Rightarrow> UnixDomainEvent \<Rightarrow> bool" where
  "sx_refines grow h st e \<longleftrightarrow> (\<exists>h' st'. sxAdvanceEv grow h st e = Ok (h', st') \<and> sx_ok h' st' \<and>
     uxAdvanceEv (stateIn h st) e = Ok (stateIn h' st'))"

lemma sx_UserCreated:
  assumes ok: "sx_ok h st" and al: "ux_allowed (stateIn h st) (EvUserCreated n uid gid)"
  shows "sx_refines grow h st (EvUserCreated n uid gid)"
proof -
  obtain h1 s where s: "newSlice h [gid] 0 = (h1, s)" by (cases "newSlice h [gid] 0")
  define st1 where "st1 = sxPutUser \<lparr>su_user = n, su_uid = uid, su_gids = s\<rparr> st"
  have new: "sx_usersByUid st uid = None" "sx_usersByName st n = None" using al by (simp_all add: stateIn_lookup)
  note u = new_user [OF ok new s, folded st1_def]
  obtain g where g0: "sx_groupsByGid st gid = Some g" using al by (auto simp: stateIn_lookup)
  then have g: "sx_groupsByGid st1 gid = Some g" by (simp add: st1_def)
  obtain h2 t where t: "appendSlice grow h1 (sg_uids g) [uid] = (h2, t)" by (cases "appendSlice grow h1 (sg_uids g) [uid]")
  note a = appendSlice_step [OF sx_slice_ok(2) [OF u(1) g] t]
  note st = step_group [OF u(1) g a [THEN conjunct2]]
  show ?thesis unfolding sx_refines_def
    by (intro exI [of _ h2] exI [of _ "sxPutGroup (g\<lparr>sg_uids := t\<rparr>) st1"])
      (use s t g g0 st a u(2) stateIn_lookup(2) [OF g, of h1] in \<open>simp add: Let_def st1_def [symmetric]\<close>)
qed

lemma sx_GroupUserAdded:
  assumes ok: "sx_ok h st" and al: "ux_allowed (stateIn h st) (EvGroupUserAdded gid uid)"
  shows "sx_refines grow h st (EvGroupUserAdded gid uid)"
proof -
  obtain u where u: "sx_usersByUid st uid = Some u" using al by (auto dest: stateIn_lookup(3,4))
  obtain h1 s where s: "appendSlice grow h (su_gids u) [gid] = (h1, s)" by (cases "appendSlice grow h (su_gids u) [gid]")
  define st1 where "st1 = sxPutUser (u\<lparr>su_gids := s\<rparr>) st"
  note b = appendSlice_step [OF sx_slice_ok(1) [OF ok u] s]
  note su = step_user [OF ok u b [THEN conjunct2], folded st1_def]
  obtain g where g0: "sx_groupsByGid st gid = Some g" using al by (auto dest: stateIn_lookup(3,4))
  then have g: "sx_groupsByGid st1 gid = Some g" by (simp add: st1_def)
  obtain h2 t where t: "appendSlice grow h1 (sg_uids g) [uid] = (h2, t)" by (cases "appendSlice grow h1 (sg_uids g) [uid]")
  note a = appendSlice_step [OF sx_slice_ok(2) [OF su(1) g] t]
  note st = step_group [OF su(1) g a [THEN conjunct2]]
  show ?thesis unfolding sx_refines_def
    by (intro exI [of _ h2] exI [of _ "sxPutGroup (g\<lparr>sg_uids := t\<rparr>) st1"])
      (use s t u g g0 st a b su(2) stateIn_lookup(1) [OF u, of h] stateIn_lookup(2) [OF g, of h1] in \<open>simp add: Let_def st1_def [symmetric]\<close>)
qed

lemma sx_GroupUserRemoved:
  assumes ok: "sx_ok h st" and al: "ux_allowed (stateIn h st) (EvGroupUserRemoved gid uid)"
  shows "sx_refines grow h st (EvGroupUserRemoved gid uid)"
proof -
  obtain u where u: "sx_usersByUid st uid = Some u" using al by (auto dest: stateIn_lookup(3,4))
  obtain h1 s where s: "deleteSlice grow h (su_gids u) gid = (h1, s)" by (cases "deleteSlice grow h (su_gids u) gid")
  define st1 where "st1 = sxPutUser (u\<lparr>su_gids := s\<rparr>) st"
  note b = deleteSlice_step [OF sx_slice_ok(1) [OF ok u] s]
  note su = step_user [OF ok u b [THEN conjunct2], folded st1_def]
  obtain g where g0: "sx_groupsByGid st gid = Some g" using al by (auto dest: stateIn_lookup(3,4))
  then have g: "sx_groupsByGid st1 gid = Some g" by (simp add: st1_def)
  obtain h2 t where t: "deleteSlice grow h1 (sg_uids g) uid = (h2, t)" by (cases "deleteSlice grow h1 (sg_uids g) uid")
  note a = deleteSlice_step [OF sx_slice_ok(2) [OF su(1) g] t]
  note st = step_group [OF su(1) g a [THEN conjunct2]]
  show ?thesis unfolding sx_refines_def
    by (intro exI [of _ h2] exI [of _ "sxPutGroup (g\<lparr>sg_uids := t\<rparr>) st1"])
      (use s t u g g0 st a b su(2) stateIn_lookup(1) [OF u, of h] stateIn_lookup(2) [OF g, of h1] in \<open>simp add: Let_def st1_def [symmetric]\<close>)
qed

lemma sx_UserDeleted:
  assumes ok: "sx_ok h st" and inv: "ux_inv (stateIn h st)" and al: "ux_allowed (stateIn h st) (EvUserDeleted uid)"
  shows "sx_refines grow h st (EvUserDeleted uid)"
proof -
  obtain u where u: "sx_usersByUid st uid = Some u" using al by (auto dest: stateIn_lookup(3,4))
  define st1 where "st1 = st\<lparr>sx_usersByUid := (sx_usersByUid st)(su_uid u := None), sx_usersByName := (sx_usersByName st)(su_user u := None)\<rparr>"
  note ok1 = sx_del(1) [OF ok u, folded st1_def]
  have st1: "stateIn h st1 = (stateIn h st)\<lparr>uxs_usersByUid := (uxs_usersByUid (stateIn h st))(su_uid u := None),
      uxs_usersByName := (uxs_usersByName (stateIn h st))(su_user u := None)\<rparr>"
    by (simp add: st1_def stateIn_def map_del)
  have ne: "readSlice h (su_gids u) \<noteq> []" using ux_inv_user(3) [OF inv stateIn_lookup(1) [OF u]] by simp
  then obtain gid where gid: "index0 (readSlice h (su_gids u)) = (Ok gid :: (ux_error, 32 word) outcome)" "gid \<in> set (readSlice h (su_gids u))"
    by (simp add: index0_ne)
  obtain g where g0: "sx_groupsByGid st gid = Some g"
    using ux_inv_primary_group [OF inv stateIn_lookup(1) [OF u], of gid] gid(2) by (auto dest: stateIn_lookup(3,4))
  then have g: "sx_groupsByGid st1 gid = Some g" by (simp add: st1_def)
  obtain h1 t where t: "deleteSlice grow h (sg_uids g) (su_uid u) = (h1, t)" by (cases "deleteSlice grow h (sg_uids g) (su_uid u)")
  note a = deleteSlice_step [OF sx_slice_ok(2) [OF ok1 g] t]
  note st = step_group [OF ok1 g a [THEN conjunct2]]
  show ?thesis unfolding sx_refines_def
    by (intro exI [of _ h1] exI [of _ "sxPutGroup (g\<lparr>sg_uids := t\<rparr>) st1"])
      (use t u g g0 gid st a stateIn_lookup(1) [OF u, of h] stateIn_lookup(2) [OF g, of h] stateIn_lookup(2) [OF g0, of h] in
        \<open>simp add: Let_def st1_def [symmetric] st1 [symmetric]\<close>)
qed

lemma sx_step:
  assumes ok: "sx_ok h st" and inv: "ux_inv (stateIn h st)" and al: "ux_allowed (stateIn h st) e"
  shows "sx_refines grow h st e"
proof (cases e)
  case (EvDomainCreated n)
  have "slots (st\<lparr>sx_name := n, sx_groupsByName := Map.empty, sx_groupsByGid := Map.empty,
      sx_usersByName := Map.empty, sx_usersByUid := Map.empty\<rparr>) = Map.empty"
    by (auto simp: fun_eq_iff slots_def split: sum.split)
  then show ?thesis
    by (auto simp: EvDomainCreated sx_refines_def sx_ok_def apart_def stateIn_def fun_eq_iff)
next
  case (EvGroupCreated n gid)
  obtain h1 s where s: "newSlice h [] 0 = (h1, s)" by (cases "newSlice h [] 0")
  have new: "sx_groupsByGid st gid = None" "sx_groupsByName st n = None"
    using al by (simp_all add: EvGroupCreated stateIn_lookup)
  show ?thesis using new_group [OF ok new s] by (simp add: EvGroupCreated sx_refines_def s)
next
  case (EvGroupDeleted gid)
  obtain g where g: "sx_groupsByGid st gid = Some g" using al by (auto simp: EvGroupDeleted dest: stateIn_lookup(3,4))
  show ?thesis
    using sx_del(2) [OF ok g] g stateIn_lookup(2) [OF g, of h]
    by (simp add: EvGroupDeleted sx_refines_def) (simp add: stateIn_def map_del)
qed (use sx_UserCreated [OF ok] sx_GroupUserAdded [OF ok] sx_GroupUserRemoved [OF ok] sx_UserDeleted [OF ok inv] al in simp_all)

lemma sxReplay_append:
  "sxReplay grow h st (xs @ ys) = obind (sxReplay grow h st xs) (\<lambda>(h', st'). sxReplay grow h' st' ys)"
proof (induction xs arbitrary: h st)
  case (Cons ev xs)
  show ?case
  proof (cases "MustParsePbUnixDomainEvent (ev_pb ev) :: (ux_error, UnixDomainEvent) outcome")
    case (Ok e)
    then show ?thesis using Cons.IH by (cases "sxAdvanceEv grow h st e") auto
  qed simp_all
qed simp

lemma stateIn_vid [simp]: "stateIn h (st\<lparr>sx_vid := v\<rparr>) = (stateIn h st)\<lparr>uxs_vid := v\<rparr>" "sx_ok h (st\<lparr>sx_vid := v\<rparr>) = sx_ok h st"
proof -
  have "slots (st\<lparr>sx_vid := v\<rparr>) = slots st" by (simp add: fun_eq_iff slots_def split: sum.split)
  then show "sx_ok h (st\<lparr>sx_vid := v\<rparr>) = sx_ok h st" by (simp add: sx_ok_def)
qed (simp add: stateIn_def)

lemma sx_new: "stateIn h (sxNewState i) = uxNewState i" "sx_ok h (sxNewState i)"
proof -
  have "slots (sxNewState i) = Map.empty" by (auto simp: fun_eq_iff slots_def sxNewState_def split: sum.split)
  then show "sx_ok h (sxNewState i)" by (simp add: sx_ok_def apart_def) (simp add: sxNewState_def)
qed (simp add: stateIn_def sxNewState_def uxNewState_def fun_eq_iff)

section \<open>Properties\<close>

text \<open>A sequence of commands that a server tells to one domain; used by the witness.\<close>

fun uxRun where
  "uxRun pm pu ub g st [] = Some (st, [])"
| "uxRun pm pu ub g st (c # cs) =
     (case uxTell g st c of
        Ok evs \<Rightarrow>
          (case advanceAll uxBehavior (uxEventOps pm pu ub) st evs of
             Ok st' \<Rightarrow> map_option (\<lambda>(s, hist). (s, evs @ hist)) (uxRun pm pu ub g st' cs)
           | _ \<Rightarrow> None)
      | _ \<Rightarrow> None)"

lemma uxRun_live:
  assumes "ux_live pm pu ub i st hist" and "uxRun pm pu ub g st cs = Some (st', hist')"
  shows "ux_live pm pu ub i st' (hist @ hist')"
  using assms
proof (induction cs arbitrary: st hist hist')
  case (Cons c cs)
  obtain evs st1 hist1 where t: "uxTell g st c = Ok evs" "advanceAll uxBehavior (uxEventOps pm pu ub) st evs = Ok st1"
    "uxRun pm pu ub g st1 cs = Some (st', hist1)" "hist' = evs @ hist1"
    using Cons.prems(2) by (auto split: outcome.splits)
  have "ux_live pm pu ub i st1 (hist @ evs)"
    by (rule live_tell [OF Cons.prems(1) _ _ t(2)]) (use t(1) in \<open>simp_all add: uxBehavior_def\<close>)
  from Cons.IH [OF this t(3)] show ?case using t(4) by simp
qed simp

definition ux_demo_cmds :: "ux_cmd list" where
  "ux_demo_cmds = [UxCmdInit ''d'', UxCmdCreateGroup ''a'' 1, UxCmdCreateGroup ''b'' 2, UxCmdCreateUser ''u'' 7 1,
     UxCmdAddGroupUser 2 7, UxCmdRemoveGroupUser 2 7]"

text \<open>
  C6: in-place deletion is harmless along one history: for every live domain, the replay of its log on a store of
  arrays, starting from any store and with any growth policy of the builtin \<open>append\<close>, succeeds, its result reads in
  the final store exactly as the state of the pure model, and no two users or groups of it share an array.  This is for
  one replay, in which no state is used twice; \<open>ux_stale_state\<close> shows what happens otherwise.
\<close>

theorem ux_slices_replay:
  assumes "ux_live pm pu ub i st hist"
  shows "\<exists>h' sst. sxReplay grow h (sxNewState i) hist = Ok (h', sst) \<and> stateIn h' sst = st \<and> apart h' (slots sst)"
proof -
  have "\<exists>h' sst. sxReplay grow h (sxNewState i) hist = Ok (h', sst) \<and> stateIn h' sst = st \<and> sx_ok h' sst"
    using assms
  proof (induction rule: live.induct)
    case live_new
    show ?case using sx_new by (simp add: uxBehavior_def) (simp add: uxNewState_def)
  next
    case (live_tell s log c g evs s')
    have inv: "ux_inv s" by (rule ux.live_inv [OF live_tell.hyps(1)])
    have tell: "uxTell g s c = Ok evs" using live_tell.hyps(3) by (simp add: uxBehavior_def)
    obtain h1 s1 where IH: "sxReplay grow h (sxNewState i) log = Ok (h1, s1)" "stateIn h1 s1 = s" "sx_ok h1 s1"
      using live_tell.IH by blast
    from inv tell show ?case
    proof (cases rule: uxTell_Ok)
      case 1
      then show ?thesis using IH live_tell.hyps(4) by simp
    next
      case (2 e)
      obtain v p where ev: "evs = [\<lparr>ev_id = v, ev_parent = uxs_vid s, ev_pb = uxSetPb v (uxs_vid s) p\<rparr>]"
        "ParsePbUnixDomainEvent p = Ok e" using 2(3) by (auto simp: ux_emits_def)
      obtain h2 s2 where r: "sxAdvanceEv grow h1 s1 e = Ok (h2, s2)" "sx_ok h2 s2" "uxAdvanceEv s e = Ok (stateIn h2 s2)"
        using sx_step [of h1 s1 e grow] IH(2,3) inv 2(2) by (auto simp: sx_refines_def)
      have "s' = (stateIn h2 s2)\<lparr>uxs_vid := v\<rparr>"
        using live_tell.hyps(4) advanceAll_emits [OF 2(3), of pm pu ub] r(3) ev(1) by simp
      then show ?thesis
        using IH(1) r ev by (auto simp: sxReplay_append MustParsePbUnixDomainEvent_def)
    qed
  qed
  then show ?thesis by (auto simp: sx_ok_def)
qed

theorem ux_slices_replay_witness:
  "\<exists>st hist h' sst. sxReplay (\<lambda>n. n) \<lparr>st_arrays = (\<lambda>_. []), st_next = 0\<rparr> (sxNewState 7) hist = Ok (h', sst) \<and>
     stateIn h' sst = st \<and> length hist = 6 \<and> map_option usr_gids (uxs_usersByUid st 7) = Some [1]"
proof -
  let ?pm = "\<lambda>_. Inl (GoErr ''pb'')" and ?pu = "\<lambda>_. Inl (GoErr ''pb'')" and ?ub = "\<lambda>_. Inl (GoErr ''ulid'')"
  have "map_option (\<lambda>(st, hist). (length hist, map_option usr_gids (uxs_usersByUid st 7)))
      (uxRun ?pm ?pu ?ub (\<lambda>_. Inr 5) ((uxNewState 7)\<lparr>uxs_vid := 0\<rparr>) ux_demo_cmds) = Some (6, Some [1])"
    by code_simp
  then obtain st hist where run: "uxRun ?pm ?pu ?ub (\<lambda>_. Inr 5) ((uxNewState 7)\<lparr>uxs_vid := 0\<rparr>) ux_demo_cmds = Some (st, hist)"
    and r: "length hist = 6" "map_option usr_gids (uxs_usersByUid st 7) = Some [1]" by auto
  have "ux_live ?pm ?pu ?ub 7 ((uxNewState 7)\<lparr>uxs_vid := 0\<rparr>) []"
    using live_new [of uxBehavior "uxEventOps ?pm ?pu ?ub" "\<lambda>_ _. True" 7] by (simp add: uxBehavior_def)
  from uxRun_live [OF this run] have "ux_live ?pm ?pu ?ub 7 st hist" by simp
  from ux_slices_replay [OF this] r show ?thesis by blast
qed

text \<open>
  A state from which an event was applied must not be used again: removing a user from a group overwrites the slice
  of the old state.  If the engine keeps the old state in its cache, because a later event of the same \<open>FindFromState()\<close> could
  not be read, or because two calls replay from it, then the next replay starts from a wrong state.  In the example, user 7
  with the groups 1, 2 and 3 is removed from group 2; the old state then has the groups 1, 3 and 3, and so has the state
  after applying the event to it again.
\<close>

fun sxApply :: "(nat \<Rightarrow> nat) \<Rightarrow> Store \<Rightarrow> SxState \<Rightarrow> UnixDomainEvent list \<Rightarrow> (ux_error, Store \<times> SxState) outcome" where
  "sxApply grow h st [] = Ok (h, st)"
| "sxApply grow h st (e # es) = obind (sxAdvanceEv grow h st e) (\<lambda>(h', st'). sxApply grow h' st' es)"

definition sx_demo_events :: "UnixDomainEvent list" where
  "sx_demo_events = [EvDomainCreated ''d'', EvGroupCreated ''a'' 1, EvGroupCreated ''b'' 2, EvGroupCreated ''c'' 3,
     EvUserCreated ''u'' 7 1, EvGroupUserAdded 2 7, EvGroupUserAdded 3 7]"

definition gidsOf :: "Store \<Rightarrow> SxState \<Rightarrow> 32 word \<Rightarrow> 32 word list option" where
  "gidsOf h st uid = map_option usr_gids (uxs_usersByUid (stateIn h st) uid)"

lemma ux_stale_state:
  "case sxApply (\<lambda>n. n) \<lparr>st_arrays = (\<lambda>_. []), st_next = 0\<rparr> (sxNewState 1) sx_demo_events of
     Ok (h, old) \<Rightarrow> gidsOf h old 7 = Some [1, 2, 3] \<and>
       (case sxAdvanceEv (\<lambda>n. n) h old (EvGroupUserRemoved 2 7) of
          Ok (h', new) \<Rightarrow> gidsOf h' new 7 = Some [1, 3] \<and> gidsOf h' old 7 = Some [1, 3, 3] \<and>
            (case sxAdvanceEv (\<lambda>n. n) h' old (EvGroupUserRemoved 2 7) of
               Ok (h'', again) \<Rightarrow> gidsOf h'' again 7 = Some [1, 3, 3]
             | _ \<Rightarrow> False)
        | _ \<Rightarrow> False)
   | _ \<Rightarrow> False"
  by code_simp

end
