(* ===== verification/Gpg.thy ===== *)
theory Gpg
  imports Nog_Ids
begin

text \<open>
  Fingerprints of GPG keys (\<open>backend/pkg/gpg/gpg.go\<close>).  A fingerprint is an array of 20 bytes; it is
  modelled as a 160-bit word in big-endian order, so that \<open>bytes.Compare\<close> is the order of the words.
\<close>

section \<open>Fingerprint\<close>

type_synonym Fingerprint = "160 word"

text \<open>The slice \<open>p[:]\<close>.\<close>

definition fpBytes :: "Fingerprint \<Rightarrow> byte list" where
  "fpBytes p = map (\<lambda>i. ucast (drop_bit (8 * i) p)) (rev [0..<20])"

definition fpOfBytes :: "byte list \<Rightarrow> Fingerprint" where
  "fpOfBytes bs = word_rcat bs"

lemma length_fpBytes [simp]: "length (fpBytes p) = 20"
  by (simp add: fpBytes_def)

lemma fpOfBytes_fpBytes [simp]: "fpOfBytes (fpBytes p) = p"
  unfolding fpOfBytes_def
  by (rule bit_word_eqI)
    (auto simp: word_rcat_def bit_horner_sum_uint_exp_iff [where 'a = 8, simplified]
       fpBytes_def rev_map bit_simps nth_append)

lemma fpBytes_inj [simp]: "fpBytes p = fpBytes q \<longleftrightarrow> p = q"
  by (metis fpOfBytes_fpBytes)

datatype (plugins only: code) gpg_error = ErrMalformedFingerprint | HexError

text \<open>
  \<open>hex.Decode()\<close> of the standard library: pairs of hex digits of either case; an odd length is an
  error.
\<close>

definition fromHexChar :: "char \<Rightarrow> byte option" where
  "fromHexChar c =
     (let n = of_char c :: nat
      in if 48 \<le> n \<and> n \<le> 57 then Some (of_nat (n - 48))
         else if 97 \<le> n \<and> n \<le> 102 then Some (of_nat (n - 97 + 10))
         else if 65 \<le> n \<and> n \<le> 70 then Some (of_nat (n - 65 + 10))
         else None)"

fun hexDecode :: "string \<Rightarrow> gpg_error + byte list" where
  "hexDecode [] = Inr []"
| "hexDecode [a] = Inl HexError"
| "hexDecode (a # b # s) =
     (case (fromHexChar a, fromHexChar b) of
        (Some x, Some y) \<Rightarrow>
          (case hexDecode s of Inl e \<Rightarrow> Inl e | Inr bs \<Rightarrow> Inr ((x * 16 + y) # bs))
      | _ \<Rightarrow> Inl HexError)"

definition ParseFingerprintHex :: "string \<Rightarrow> gpg_error + Fingerprint" where
  "ParseFingerprintHex s =
     (if length s div 2 \<noteq> 20 then Inl ErrMalformedFingerprint
      else case hexDecode s of
        Inl e \<Rightarrow> Inl e
      | Inr bs \<Rightarrow> if length bs \<noteq> 20 then Inl ErrMalformedFingerprint else Inr (fpOfBytes bs))"

text \<open>
  \<open>ParseFingerprintBytes()\<close> compares \<open>len(p)\<close> with itself, so that the length is never checked;
  \<open>copy\<close> truncates a longer slice and leaves zeros after a shorter one.
\<close>

definition ParseFingerprintBytes :: "byte list \<Rightarrow> gpg_error + Fingerprint" where
  "ParseFingerprintBytes b =
     (if (20 :: nat) \<noteq> 20 then Inl ErrMalformedFingerprint
      else Inr (fpOfBytes (take 20 (b @ replicate 20 0))))"

section \<open>Fingerprints\<close>

text \<open>
  The slices are lists, nil is the empty list.  \<open>sort.Slice\<close> with \<open>bytes.Compare\<close> sorts; equal
  fingerprints are identical, so that the result does not depend on the algorithm.
\<close>

type_synonym Fingerprints = "Fingerprint list"

definition fpSort :: "Fingerprints \<Rightarrow> Fingerprints" where
  "fpSort fs = sort fs"

fun parseAll :: "('a \<Rightarrow> gpg_error + Fingerprint) \<Rightarrow> 'a list \<Rightarrow> gpg_error + Fingerprints" where
  "parseAll f [] = Inr []"
| "parseAll f (x # xs) =
     (case f x of
        Inl e \<Rightarrow> Inl e
      | Inr p \<Rightarrow> (case parseAll f xs of Inl e \<Rightarrow> Inl e | Inr ps \<Rightarrow> Inr (p # ps)))"

definition ParseFingerprintsHex :: "string list \<Rightarrow> gpg_error + Fingerprints" where
  "ParseFingerprintsHex ss =
     (if ss = [] then Inr []
      else case parseAll ParseFingerprintHex ss of Inl e \<Rightarrow> Inl e | Inr ps \<Rightarrow> Inr (fpSort ps))"

definition ParseFingerprintsBytes :: "byte list list \<Rightarrow> gpg_error + Fingerprints" where
  "ParseFingerprintsBytes bs =
     (if bs = [] then Inr []
      else case parseAll ParseFingerprintBytes bs of Inl e \<Rightarrow> Inl e | Inr ps \<Rightarrow> Inr (fpSort ps))"

definition Bytes :: "Fingerprints \<Rightarrow> byte list list" where
  "Bytes fs = map fpBytes fs"

fun HasDuplicate :: "'a list \<Rightarrow> bool" where
  "HasDuplicate [] \<longleftrightarrow> False"
| "HasDuplicate (f # fs) \<longleftrightarrow> list_ex (\<lambda>g. f = g) fs \<or> HasDuplicate fs"

definition Has :: "Fingerprints \<Rightarrow> Fingerprint \<Rightarrow> bool" where
  "Has as b \<longleftrightarrow> list_ex (\<lambda>a. b = a) as"

definition fpEqual :: "Fingerprints \<Rightarrow> Fingerprints \<Rightarrow> bool" where
  "fpEqual as bs \<longleftrightarrow> length as = length bs \<and> list_all (Has as) bs"

section \<open>Lemmas\<close>

lemma HasDuplicate_iff [simp]: "HasDuplicate fs \<longleftrightarrow> \<not> distinct fs"
  by (induction fs) (auto simp: list_ex_iff)

lemma Has_iff [simp]: "Has as b \<longleftrightarrow> b \<in> set as"
  by (auto simp: Has_def list_ex_iff)

lemma fpEqual_distinct:
  assumes "distinct bs"
  shows "fpEqual as bs \<longleftrightarrow> distinct as \<and> set as = set bs"
proof
  assume eq: "fpEqual as bs"
  then have len: "length as = length bs" and sub: "set bs \<subseteq> set as"
    by (auto simp: fpEqual_def list_all_iff)
  have "card (set as) \<le> card (set bs)"
    using card_length [of as] len distinct_card [OF assms] by simp
  then have "set as = set bs" using sub by (metis List.finite_set card_seteq)
  then show "distinct as \<and> set as = set bs"
    using len distinct_card [OF assms] card_distinct [of as] by simp
next
  assume "distinct as \<and> set as = set bs"
  then show "fpEqual as bs"
    using assms distinct_card [of as] distinct_card [of bs] by (auto simp: fpEqual_def list_all_iff)
qed

lemma parse_fpBytes [simp]: "ParseFingerprintBytes (fpBytes p) = Inr p"
  by (simp add: ParseFingerprintBytes_def)

lemma parseAll_Bytes [simp]: "parseAll ParseFingerprintBytes (map fpBytes fs) = Inr fs"
  by (induction fs) auto

text \<open>Parsing never fails, and what was written is read back, sorted.\<close>

lemma ParseFingerprintsBytes_Bytes [simp]: "ParseFingerprintsBytes (Bytes fs) = Inr (sort fs)"
  by (simp add: ParseFingerprintsBytes_def Bytes_def fpSort_def)

lemma parseAll_total: "\<exists>ps. parseAll ParseFingerprintBytes bs = Inr ps \<and> length ps = length bs"
  by (induction bs) (auto simp: ParseFingerprintBytes_def)

lemma ParseFingerprintsBytes_total: "\<exists>ps. ParseFingerprintsBytes bs = Inr ps"
  using parseAll_total [of bs] by (auto simp: ParseFingerprintsBytes_def)

lemma hexDecode_length: "hexDecode s = Inr bs \<Longrightarrow> length s = 2 * length bs"
  by (induction s arbitrary: bs rule: hexDecode.induct) (auto split: option.splits sum.splits)

lemma hexDecode_ok_iff:
  "(\<exists>bs. hexDecode s = Inr bs) \<longleftrightarrow> even (length s) \<and> (\<forall>c \<in> set s. fromHexChar c \<noteq> None)"
  by (induction s rule: hexDecode.induct) (auto split: option.splits sum.splits)

section \<open>Properties\<close>

definition is_hex_digit :: "char \<Rightarrow> bool" where
  "is_hex_digit c \<longleftrightarrow> is_digit c \<or> (97 \<le> (of_char c :: nat) \<and> (of_char c :: nat) \<le> 102) \<or>
     (65 \<le> (of_char c :: nat) \<and> (of_char c :: nat) \<le> 70)"


text \<open>
  \<open>ParseFingerprintsBytes\<close> inverts \<open>Bytes\<close> up to order, and for lists without duplicates
  \<open>Equal\<close> is equality up to order: a list equals the parsed bytes of another one iff both have the same
  keys.
\<close>

theorem gpg_roundtrip_equal:
  assumes "\<not> HasDuplicate ks" and "\<not> HasDuplicate fs"
  shows "\<exists>ps. ParseFingerprintsBytes (Bytes fs) = Inr ps \<and> mset ps = mset fs \<and>
    (fpEqual ps ks \<longleftrightarrow> mset fs = mset ks)"
  using assms fpEqual_distinct [of ks "sort fs"] by (auto simp: set_eq_iff_mset_eq_distinct)

theorem gpg_roundtrip_equal_witness:
  "\<exists>ps. ParseFingerprintsBytes (Bytes [7, 3]) = Inr ps \<and> fpEqual ps [3, 7]"
  using gpg_roundtrip_equal [of "[3, 7]" "[7, 3]"] by auto

text \<open>
  A fingerprint is accepted as hex iff it consists of exactly 40 hex digits of either case.
\<close>

theorem gpg_hex_accepts_iff:
  "(\<exists>p. ParseFingerprintHex s = Inr p) \<longleftrightarrow>
     length s = 40 \<and> list_all is_hex_digit s"
proof -
  have hex: "fromHexChar c \<noteq> None \<longleftrightarrow> is_hex_digit c" for c
    by (auto simp: fromHexChar_def is_hex_digit_def is_digit_def Let_def)
  have "(\<exists>p. ParseFingerprintHex s = Inr p) \<longleftrightarrow> (\<exists>bs. hexDecode s = Inr bs \<and> length s = 40)"
    using hexDecode_length [of s]
    by (auto simp: ParseFingerprintHex_def split: sum.splits)
  also have "\<dots> \<longleftrightarrow> length s = 40 \<and> (\<forall>c \<in> set s. fromHexChar c \<noteq> None)"
    using hexDecode_ok_iff [of s] by auto
  finally show ?thesis by (simp only: hex list_all_iff)
qed

end
