(* ===== verification/Repo_Events.thy ===== *)
theory Repo_Events
  imports Nog_Events Gpg
begin

text \<open>
  Events of FSO repos (\<open>backend/internal/fsorepos/pbevents\<close> and the struct \<open>Event\<close> of
  \<open>fsorepos.go\<close>): the protobuf message with its submessages, the constructors \<open>New*()\<close>, the parsers
  \<open>fromPb*()\<close>.  A submessage is a pointer in Go: it is an option, and dereferencing nil
  panics.  \<open>proto.Marshal\<close> and \<open>proto.Unmarshal\<close> are parameters.
\<close>

section \<open>The message\<close>

datatype (plugins only: code) RepoEvent_Type =
    EV_FSO_REPO_INIT_STARTED | EV_FSO_ENABLE_GITLAB_ACCEPTED | EV_FSO_SHADOW_REPO_CREATED
  | EV_FSO_SHADOW_REPO_MOVE_STARTED | EV_FSO_SHADOW_REPO_MOVED | EV_FSO_REPO_MOVE_STARTED
  | EV_FSO_REPO_MOVED | EV_FSO_TARTT_REPO_CREATED | EV_FSO_SHADOW_BACKUP_REPO_CREATED
  | EV_FSO_SHADOW_BACKUP_REPO_MOVED | EV_FSO_GIT_REPO_CREATED | EV_FSO_REPO_ERROR_SET
  | EV_FSO_REPO_ERROR_CLEARED | EV_FSO_ARCHIVE_RECIPIENTS_UPDATED
  | EV_FSO_SHADOW_BACKUP_RECIPIENTS_UPDATED | EV_FSO_FREEZE_REPO_STARTED
  | EV_FSO_FREEZE_REPO_COMPLETED | EV_FSO_FREEZE_REPO_STARTED_2 | EV_FSO_FREEZE_REPO_COMPLETED_2
  | EV_FSO_UNFREEZE_REPO_STARTED | EV_FSO_UNFREEZE_REPO_COMPLETED | EV_FSO_UNFREEZE_REPO_STARTED_2
  | EV_FSO_UNFREEZE_REPO_COMPLETED_2 | EV_FSO_ARCHIVE_REPO_STARTED | EV_FSO_ARCHIVE_REPO_COMPLETED
  | EV_FSO_UNARCHIVE_REPO_STARTED | EV_FSO_UNARCHIVE_REPO_COMPLETED
  | EV_FSO_OTHER int

datatype (plugins only: code) PbSubdirTracking =
    ST_UNSPECIFIED | ST_ENTER_SUBDIRS | ST_BUNDLE_SUBDIRS | ST_IGNORE_SUBDIRS | ST_IGNORE_MOST
  | ST_OTHER int

record FsoRepoInitInfo =
  ri_Registry :: string
  ri_GlobalPath :: string
  ri_CreatorName :: string
  ri_CreatorEmail :: string
  ri_FileHost :: string
  ri_HostPath :: string
  ri_GitlabHost :: string
  ri_GitlabPath :: string
  ri_GitToNogAddr :: string
  ri_SubdirTracking :: PbSubdirTracking

definition repoInitInfo0 :: FsoRepoInitInfo where
  "repoInitInfo0 =
     \<lparr>ri_Registry = [], ri_GlobalPath = [], ri_CreatorName = [], ri_CreatorEmail = [], ri_FileHost = [],
      ri_HostPath = [], ri_GitlabHost = [], ri_GitlabPath = [], ri_GitToNogAddr = [],
      ri_SubdirTracking = ST_UNSPECIFIED\<rparr>"

record FsoShadowRepoInfo =
  si_ShadowPath :: string
  si_NewShadowPath :: string

text \<open>
  The submessages \<open>FsoArchiveRepoInfo\<close>, \<open>FsoShadowBackupRepoInfo\<close>, \<open>FsoGitRepoInfo\<close> and \<open>TarttTarInfo\<close>
  have a single field each, which stands for them.
\<close>

record RepoPb =
  rp_Event :: RepoEvent_Type
  rp_Id :: gobytes
  rp_Parent :: gobytes
  rp_RegistryEventId :: gobytes
  rp_FsoRepoInitInfo :: "FsoRepoInitInfo option"
  rp_NewFsoRepoInitInfo :: "FsoRepoInitInfo option"
  rp_FsoShadowRepoInfo :: "FsoShadowRepoInfo option"
  rp_FsoArchiveRepoInfo :: "string option"
  rp_FsoShadowBackupRepoInfo :: "string option"
  rp_FsoGitRepoInfo :: "64 word option"
  rp_FsoRepoErrorMessage :: string
  rp_WorkflowId :: gobytes
  rp_WorkflowEventId :: gobytes
  rp_FsoGpgKeyFingerprints :: "byte list list"
  rp_StatusCode :: "32 word"
  rp_TarttTarInfo :: "string option"

definition repoPb :: "RepoEvent_Type \<Rightarrow> RepoPb" where
  "repoPb t =
     \<lparr>rp_Event = t, rp_Id = None, rp_Parent = None, rp_RegistryEventId = None, rp_FsoRepoInitInfo = None,
      rp_NewFsoRepoInitInfo = None, rp_FsoShadowRepoInfo = None, rp_FsoArchiveRepoInfo = None,
      rp_FsoShadowBackupRepoInfo = None, rp_FsoGitRepoInfo = None, rp_FsoRepoErrorMessage = [],
      rp_WorkflowId = None, rp_WorkflowEventId = None, rp_FsoGpgKeyFingerprints = [], rp_StatusCode = 0,
      rp_TarttTarInfo = None\<rparr>"

section \<open>The events\<close>

record RepoMoveStarted =
  ms_RegistryEventId :: ulid
  ms_WorkflowId :: uuid
  ms_OldGlobalPath :: string
  ms_OldFileHost :: string
  ms_OldHostPath :: string
  ms_OldShadowPath :: string
  ms_NewGlobalPath :: string
  ms_NewFileHost :: string
  ms_NewHostPath :: string

record RepoMoved =
  md_WorkflowId :: uuid
  md_WorkflowEventId :: ulid
  md_GlobalPath :: string
  md_FileHost :: string
  md_HostPath :: string
  md_ShadowPath :: string

datatype (plugins only: code) RepoEvent =
    EvRepoInitStarted FsoRepoInitInfo
  | EvEnableGitlabAccepted string string \<comment> \<open>host, path\<close>
  | EvShadowRepoCreated FsoShadowRepoInfo
  | EvShadowRepoMoveStarted uuid string
  | EvShadowRepoMoved uuid ulid string
  | EvRepoMoveStarted RepoMoveStarted
  | EvRepoMoved RepoMoved
  | EvTarttRepoCreated string
  | EvShadowBackupRepoCreated string
  | EvShadowBackupRepoMoved string
  | EvGitRepoCreated "64 word"
  | EvRepoErrorSet string
  | EvRepoErrorCleared
  | EvArchiveRecipientsUpdated "byte list list"
  | EvShadowBackupRecipientsUpdated "byte list list"
  | EvFreezeRepoStarted
  | EvFreezeRepoCompleted
  | EvFreezeRepoStarted2 uuid
  | EvFreezeRepoCompleted2 uuid "32 word"
  | EvUnfreezeRepoStarted
  | EvUnfreezeRepoCompleted
  | EvUnfreezeRepoStarted2 uuid
  | EvUnfreezeRepoCompleted2 uuid "32 word"
  | EvArchiveRepoStarted uuid
  | EvArchiveRepoCompleted uuid "32 word" string
  | EvUnarchiveRepoStarted uuid
  | EvUnarchiveRepoCompleted uuid "32 word"

datatype (plugins only: code) repo_event_error =
    ErrUnknownEventType
  | ErrMalformedGPGFingerprint
  | ParseError string goerr
  | UlidError goerr

text \<open>
  Reading through a pointer, and checks that the parsers share: the guard \<open>evpb.Event != ...\<close>, and the
  conversion of the ids with their errors.
\<close>

definition deref :: "'a option \<Rightarrow> ('a \<Rightarrow> ('e, 'b) outcome) \<Rightarrow> ('e, 'b) outcome" where
  "deref p f = (case p of None \<Rightarrow> Panic ''nil pointer dereference'' | Some x \<Rightarrow> f x)"

definition guardType ::
  "RepoEvent_Type \<Rightarrow> RepoPb \<Rightarrow> ('e, 'b) outcome \<Rightarrow> ('e, 'b) outcome" where
  "guardType t evpb k = (if rp_Event evpb \<noteq> t then Panic ''invalid event'' else k)"

definition onError :: "('x \<Rightarrow> 'e) \<Rightarrow> 'x + 'a \<Rightarrow> ('a \<Rightarrow> ('e, 'b) outcome) \<Rightarrow> ('e, 'b) outcome" where
  "onError h r f = (case r of Inl e \<Rightarrow> Err (h e) | Inr a \<Rightarrow> f a)"

lemma pb_simps [simp]:
  "deref (Some x) f = f x" "guardType (rp_Event p) p k = k" "onError h (Inr a) f = f a"
  "onError h (Inl e) f = Err (h e)"
  by (simp_all add: deref_def guardType_def onError_def)

section \<open>Constructors and parsers\<close>

definition NewRepoInitStarted :: "FsoRepoInitInfo \<Rightarrow> RepoPb" where
  "NewRepoInitStarted info = (repoPb EV_FSO_REPO_INIT_STARTED)\<lparr>rp_FsoRepoInitInfo := Some info\<rparr>"

definition fromPbRepoInitStarted :: "RepoPb \<Rightarrow> (repo_event_error, RepoEvent) outcome" where
  "fromPbRepoInitStarted evpb =
     guardType EV_FSO_REPO_INIT_STARTED evpb
       (deref (rp_FsoRepoInitInfo evpb) (\<lambda>info. Ok (EvRepoInitStarted info)))"

definition NewShadowRepoCreated :: "string \<Rightarrow> RepoPb" where
  "NewShadowRepoCreated shadowPath = (repoPb EV_FSO_SHADOW_REPO_CREATED)
     \<lparr>rp_FsoShadowRepoInfo := Some \<lparr>si_ShadowPath = shadowPath, si_NewShadowPath = []\<rparr>\<rparr>"

definition fromPbShadowRepoCreated :: "RepoPb \<Rightarrow> (repo_event_error, RepoEvent) outcome" where
  "fromPbShadowRepoCreated evpb =
     guardType EV_FSO_SHADOW_REPO_CREATED evpb
       (deref (rp_FsoShadowRepoInfo evpb) (\<lambda>info. Ok (EvShadowRepoCreated info)))"

definition NewShadowRepoMoveStarted :: "uuid \<Rightarrow> string \<Rightarrow> RepoPb" where
  "NewShadowRepoMoveStarted workflowId newShadowPath = (repoPb EV_FSO_SHADOW_REPO_MOVE_STARTED)
     \<lparr>rp_WorkflowId := Some (idBytes workflowId),
      rp_FsoShadowRepoInfo := Some \<lparr>si_ShadowPath = [], si_NewShadowPath = newShadowPath\<rparr>\<rparr>"

definition fromPbShadowRepoMoveStarted :: "RepoPb \<Rightarrow> (repo_event_error, RepoEvent) outcome" where
  "fromPbShadowRepoMoveStarted evpb =
     guardType EV_FSO_SHADOW_REPO_MOVE_STARTED evpb
       (onError (ParseError ''workflow ID'') (FromBytes (rp_WorkflowId evpb)) (\<lambda>i.
          deref (rp_FsoShadowRepoInfo evpb) (\<lambda>info. Ok (EvShadowRepoMoveStarted i (si_NewShadowPath info)))))"

definition NewShadowRepoMoved :: "uuid \<Rightarrow> ulid \<Rightarrow> string \<Rightarrow> RepoPb" where
  "NewShadowRepoMoved workflowId workflowEventId newShadowPath = (repoPb EV_FSO_SHADOW_REPO_MOVED)
     \<lparr>rp_WorkflowId := Some (idBytes workflowId), rp_WorkflowEventId := Some (idBytes workflowEventId),
      rp_FsoShadowRepoInfo := Some \<lparr>si_ShadowPath = [], si_NewShadowPath = newShadowPath\<rparr>\<rparr>"

definition fromPbShadowRepoMoved :: "ulid_unmarshal \<Rightarrow> RepoPb \<Rightarrow> (repo_event_error, RepoEvent) outcome" where
  "fromPbShadowRepoMoved ub evpb =
     guardType EV_FSO_SHADOW_REPO_MOVED evpb
       (onError (ParseError ''workflow ID'') (FromBytes (rp_WorkflowId evpb)) (\<lambda>i.
          onError UlidError
            (if rp_WorkflowEventId evpb \<noteq> None then ParseBytes ub (rp_WorkflowEventId evpb) else Inr ulidNil)
            (\<lambda>workflowEventId.
               deref (rp_FsoShadowRepoInfo evpb) (\<lambda>info.
                 Ok (EvShadowRepoMoved i workflowEventId (si_NewShadowPath info))))))"

definition NewPbRepoMoveStarted :: "RepoMoveStarted \<Rightarrow> RepoPb" where
  "NewPbRepoMoveStarted ev = (repoPb EV_FSO_REPO_MOVE_STARTED)
     \<lparr>rp_RegistryEventId := Some (idBytes (ms_RegistryEventId ev)),
      rp_WorkflowId := Some (idBytes (ms_WorkflowId ev)),
      rp_FsoRepoInitInfo := Some (repoInitInfo0
        \<lparr>ri_GlobalPath := ms_OldGlobalPath ev, ri_FileHost := ms_OldFileHost ev, ri_HostPath := ms_OldHostPath ev\<rparr>),
      rp_FsoShadowRepoInfo := Some \<lparr>si_ShadowPath = ms_OldShadowPath ev, si_NewShadowPath = []\<rparr>,
      rp_NewFsoRepoInitInfo := Some (repoInitInfo0
        \<lparr>ri_GlobalPath := ms_NewGlobalPath ev, ri_FileHost := ms_NewFileHost ev, ri_HostPath := ms_NewHostPath ev\<rparr>)\<rparr>"

definition fromPbRepoMoveStarted :: "ulid_unmarshal \<Rightarrow> RepoPb \<Rightarrow> (repo_event_error, RepoEvent) outcome" where
  "fromPbRepoMoveStarted ub evpb =
     onError (ParseError ''workflow ID'') (FromBytes (rp_WorkflowId evpb)) (\<lambda>workflowId.
     onError (ParseError ''registry event ID'') (ParseBytes ub (rp_RegistryEventId evpb)) (\<lambda>registryEventId.
       deref (rp_FsoRepoInitInfo evpb) (\<lambda>old.
       deref (rp_FsoShadowRepoInfo evpb) (\<lambda>sh.
       deref (rp_NewFsoRepoInitInfo evpb) (\<lambda>new.
         Ok (EvRepoMoveStarted
           \<lparr>ms_RegistryEventId = registryEventId, ms_WorkflowId = workflowId,
            ms_OldGlobalPath = ri_GlobalPath old, ms_OldFileHost = ri_FileHost old, ms_OldHostPath = ri_HostPath old,
            ms_OldShadowPath = si_ShadowPath sh, ms_NewGlobalPath = ri_GlobalPath new,
            ms_NewFileHost = ri_FileHost new, ms_NewHostPath = ri_HostPath new\<rparr>))))))"

definition NewPbRepoMoved :: "RepoMoved \<Rightarrow> RepoPb" where
  "NewPbRepoMoved ev = (repoPb EV_FSO_REPO_MOVED)
     \<lparr>rp_WorkflowId := Some (idBytes (md_WorkflowId ev)),
      rp_WorkflowEventId := Some (idBytes (md_WorkflowEventId ev)),
      rp_FsoRepoInitInfo := Some (repoInitInfo0
        \<lparr>ri_GlobalPath := md_GlobalPath ev, ri_FileHost := md_FileHost ev, ri_HostPath := md_HostPath ev\<rparr>),
      rp_FsoShadowRepoInfo := Some \<lparr>si_ShadowPath = md_ShadowPath ev, si_NewShadowPath = []\<rparr>\<rparr>"

definition fromPbRepoMoved :: "ulid_unmarshal \<Rightarrow> RepoPb \<Rightarrow> (repo_event_error, RepoEvent) outcome" where
  "fromPbRepoMoved ub evpb =
     guardType EV_FSO_REPO_MOVED evpb
       (onError (ParseError ''workflow ID'') (FromBytes (rp_WorkflowId evpb)) (\<lambda>workflowId.
        onError (ParseError ''workflow event ID'') (ParseBytes ub (rp_WorkflowEventId evpb)) (\<lambda>workflowEventId.
          deref (rp_FsoRepoInitInfo evpb) (\<lambda>info.
          deref (rp_FsoShadowRepoInfo evpb) (\<lambda>sh.
            Ok (EvRepoMoved
              \<lparr>md_WorkflowId = workflowId, md_WorkflowEventId = workflowEventId,
               md_GlobalPath = ri_GlobalPath info, md_FileHost = ri_FileHost info, md_HostPath = ri_HostPath info,
               md_ShadowPath = si_ShadowPath sh\<rparr>))))))"

definition NewTarttRepoCreated :: "string \<Rightarrow> RepoPb" where
  "NewTarttRepoCreated tarttURL = (repoPb EV_FSO_TARTT_REPO_CREATED)\<lparr>rp_FsoArchiveRepoInfo := Some tarttURL\<rparr>"

definition fromPbTarttRepoCreated :: "RepoPb \<Rightarrow> (repo_event_error, RepoEvent) outcome" where
  "fromPbTarttRepoCreated evpb =
     guardType EV_FSO_TARTT_REPO_CREATED evpb
       (deref (rp_FsoArchiveRepoInfo evpb) (\<lambda>info. Ok (EvTarttRepoCreated info)))"

definition NewShadowBackupRepoCreated :: "string \<Rightarrow> RepoPb" where
  "NewShadowBackupRepoCreated url =
     (repoPb EV_FSO_SHADOW_BACKUP_REPO_CREATED)\<lparr>rp_FsoShadowBackupRepoInfo := Some url\<rparr>"

definition fromPbShadowBackupRepoCreated :: "RepoPb \<Rightarrow> (repo_event_error, RepoEvent) outcome" where
  "fromPbShadowBackupRepoCreated evpb =
     guardType EV_FSO_SHADOW_BACKUP_REPO_CREATED evpb
       (deref (rp_FsoShadowBackupRepoInfo evpb) (\<lambda>info. Ok (EvShadowBackupRepoCreated info)))"

definition NewShadowBackupRepoMoved :: "string \<Rightarrow> RepoPb" where
  "NewShadowBackupRepoMoved url =
     (repoPb EV_FSO_SHADOW_BACKUP_REPO_MOVED)\<lparr>rp_FsoShadowBackupRepoInfo := Some url\<rparr>"

definition fromPbShadowBackupRepoMoved :: "RepoPb \<Rightarrow> (repo_event_error, RepoEvent) outcome" where
  "fromPbShadowBackupRepoMoved evpb =
     guardType EV_FSO_SHADOW_BACKUP_REPO_MOVED evpb
       (deref (rp_FsoShadowBackupRepoInfo evpb) (\<lambda>info. Ok (EvShadowBackupRepoMoved info)))"

definition NewGitRepoCreated :: "64 word \<Rightarrow> RepoPb" where
  "NewGitRepoCreated info = (repoPb EV_FSO_GIT_REPO_CREATED)\<lparr>rp_FsoGitRepoInfo := Some info\<rparr>"

definition fromPbGitRepoCreated :: "RepoPb \<Rightarrow> (repo_event_error, RepoEvent) outcome" where
  "fromPbGitRepoCreated evpb =
     guardType EV_FSO_GIT_REPO_CREATED evpb
       (deref (rp_FsoGitRepoInfo evpb) (\<lambda>info. Ok (EvGitRepoCreated info)))"

definition NewEnableGitlabAccepted :: "string \<Rightarrow> string \<Rightarrow> RepoPb" where
  "NewEnableGitlabAccepted host path = (repoPb EV_FSO_ENABLE_GITLAB_ACCEPTED)
     \<lparr>rp_FsoRepoInitInfo := Some (repoInitInfo0\<lparr>ri_GitlabHost := host, ri_GitlabPath := path\<rparr>)\<rparr>"

definition fromPbEnableGitlabAccepted :: "RepoPb \<Rightarrow> (repo_event_error, RepoEvent) outcome" where
  "fromPbEnableGitlabAccepted evpb =
     guardType EV_FSO_ENABLE_GITLAB_ACCEPTED evpb
       (deref (rp_FsoRepoInitInfo evpb) (\<lambda>info.
          Ok (EvEnableGitlabAccepted (ri_GitlabHost info) (ri_GitlabPath info))))"

definition NewRepoErrorSet :: "string \<Rightarrow> RepoPb" where
  "NewRepoErrorSet msg = (repoPb EV_FSO_REPO_ERROR_SET)\<lparr>rp_FsoRepoErrorMessage := msg\<rparr>"

definition fromPbRepoErrorSet :: "RepoPb \<Rightarrow> (repo_event_error, RepoEvent) outcome" where
  "fromPbRepoErrorSet evpb =
     guardType EV_FSO_REPO_ERROR_SET evpb (Ok (EvRepoErrorSet (rp_FsoRepoErrorMessage evpb)))"

definition NewRepoErrorCleared :: RepoPb where
  "NewRepoErrorCleared = repoPb EV_FSO_REPO_ERROR_CLEARED"

definition fromPbRepoErrorCleared :: "RepoPb \<Rightarrow> (repo_event_error, RepoEvent) outcome" where
  "fromPbRepoErrorCleared evpb = guardType EV_FSO_REPO_ERROR_CLEARED evpb (Ok EvRepoErrorCleared)"

text \<open>The recipients.\<close>

definition NewArchiveRecipientsUpdated :: "byte list list \<Rightarrow> ('e, RepoPb) outcome" where
  "NewArchiveRecipientsUpdated keys =
     (if list_ex (\<lambda>k. length k \<noteq> 20) keys then Panic ''invalid GPG key fingerprint''
      else if HasDuplicate keys then Panic ''duplicate GPG key fingerprints''
      else Ok ((repoPb EV_FSO_ARCHIVE_RECIPIENTS_UPDATED)\<lparr>rp_FsoGpgKeyFingerprints := keys\<rparr>))"

definition fromPbArchiveRecipientsUpdated :: "RepoPb \<Rightarrow> (repo_event_error, RepoEvent) outcome" where
  "fromPbArchiveRecipientsUpdated evpb =
     (if list_ex (\<lambda>k. length k \<noteq> 20) (rp_FsoGpgKeyFingerprints evpb) then Err ErrMalformedGPGFingerprint
      else Ok (EvArchiveRecipientsUpdated (rp_FsoGpgKeyFingerprints evpb)))"

definition NewShadowBackupRecipientsUpdated :: "byte list list \<Rightarrow> ('e, RepoPb) outcome" where
  "NewShadowBackupRecipientsUpdated keys =
     (if list_ex (\<lambda>k. length k \<noteq> 20) keys then Panic ''invalid GPG key fingerprint''
      else if HasDuplicate keys then Panic ''duplicate GPG key fingerprints''
      else Ok ((repoPb EV_FSO_SHADOW_BACKUP_RECIPIENTS_UPDATED)\<lparr>rp_FsoGpgKeyFingerprints := keys\<rparr>))"

definition fromPbShadowBackupRecipientsUpdated :: "RepoPb \<Rightarrow> (repo_event_error, RepoEvent) outcome" where
  "fromPbShadowBackupRecipientsUpdated evpb =
     (if list_ex (\<lambda>k. length k \<noteq> 20) (rp_FsoGpgKeyFingerprints evpb) then Err ErrMalformedGPGFingerprint
      else Ok (EvShadowBackupRecipientsUpdated (rp_FsoGpgKeyFingerprints evpb)))"

text \<open>Freeze and unfreeze; the first two parsers of each are for legacy events.\<close>

definition fromPbFreezeRepoStarted :: "RepoPb \<Rightarrow> (repo_event_error, RepoEvent) outcome" where
  "fromPbFreezeRepoStarted evpb = guardType EV_FSO_FREEZE_REPO_STARTED evpb (Ok EvFreezeRepoStarted)"

definition fromPbFreezeRepoCompleted :: "RepoPb \<Rightarrow> (repo_event_error, RepoEvent) outcome" where
  "fromPbFreezeRepoCompleted evpb = guardType EV_FSO_FREEZE_REPO_COMPLETED evpb (Ok EvFreezeRepoCompleted)"

definition NewFreezeRepoStarted2 :: "uuid \<Rightarrow> ('e, RepoPb) outcome" where
  "NewFreezeRepoStarted2 workflowId =
     (if workflowId = uuidNil then Panic ''nil workflowId''
      else Ok ((repoPb EV_FSO_FREEZE_REPO_STARTED_2)\<lparr>rp_WorkflowId := Some (idBytes workflowId)\<rparr>))"

definition fromPbFreezeRepoStarted2 :: "RepoPb \<Rightarrow> (repo_event_error, RepoEvent) outcome" where
  "fromPbFreezeRepoStarted2 evpb =
     guardType EV_FSO_FREEZE_REPO_STARTED_2 evpb
       (onError (ParseError ''workflow ID'') (FromBytes (rp_WorkflowId evpb)) (\<lambda>i. Ok (EvFreezeRepoStarted2 i)))"

definition NewFreezeRepoCompleted2Ok :: "uuid \<Rightarrow> ('e, RepoPb) outcome" where
  "NewFreezeRepoCompleted2Ok workflowId =
     (if workflowId = uuidNil then Panic ''nil workflowId''
      else Ok ((repoPb EV_FSO_FREEZE_REPO_COMPLETED_2)\<lparr>rp_WorkflowId := Some (idBytes workflowId)\<rparr>))"

definition NewFreezeRepoCompleted2Error :: "uuid \<Rightarrow> 32 word \<Rightarrow> ('e, RepoPb) outcome" where
  "NewFreezeRepoCompleted2Error workflowId code =
     (if workflowId = uuidNil then Panic ''nil workflowId''
      else if code = 0 then Panic ''zero code''
      else Ok ((repoPb EV_FSO_FREEZE_REPO_COMPLETED_2)
        \<lparr>rp_WorkflowId := Some (idBytes workflowId), rp_StatusCode := code\<rparr>))"

definition fromPbFreezeRepoCompleted2 :: "RepoPb \<Rightarrow> (repo_event_error, RepoEvent) outcome" where
  "fromPbFreezeRepoCompleted2 evpb =
     guardType EV_FSO_FREEZE_REPO_COMPLETED_2 evpb
       (onError (ParseError ''workflow ID'') (FromBytes (rp_WorkflowId evpb)) (\<lambda>i.
          Ok (EvFreezeRepoCompleted2 i (rp_StatusCode evpb))))"

definition fromPbUnfreezeRepoStarted :: "RepoPb \<Rightarrow> (repo_event_error, RepoEvent) outcome" where
  "fromPbUnfreezeRepoStarted evpb = guardType EV_FSO_UNFREEZE_REPO_STARTED evpb (Ok EvUnfreezeRepoStarted)"

definition fromPbUnfreezeRepoCompleted :: "RepoPb \<Rightarrow> (repo_event_error, RepoEvent) outcome" where
  "fromPbUnfreezeRepoCompleted evpb = guardType EV_FSO_UNFREEZE_REPO_COMPLETED evpb (Ok EvUnfreezeRepoCompleted)"

definition NewUnfreezeRepoStarted2 :: "uuid \<Rightarrow> ('e, RepoPb) outcome" where
  "NewUnfreezeRepoStarted2 workflowId =
     (if workflowId = uuidNil then Panic ''nil workflowId''
      else Ok ((repoPb EV_FSO_UNFREEZE_REPO_STARTED_2)\<lparr>rp_WorkflowId := Some (idBytes workflowId)\<rparr>))"

definition fromPbUnfreezeRepoStarted2 :: "RepoPb \<Rightarrow> (repo_event_error, RepoEvent) outcome" where
  "fromPbUnfreezeRepoStarted2 evpb =
     guardType EV_FSO_UNFREEZE_REPO_STARTED_2 evpb
       (onError (ParseError ''workflow ID'') (FromBytes (rp_WorkflowId evpb)) (\<lambda>i. Ok (EvUnfreezeRepoStarted2 i)))"

definition NewUnfreezeRepoCompleted2Ok :: "uuid \<Rightarrow> ('e, RepoPb) outcome" where
  "NewUnfreezeRepoCompleted2Ok workflowId =
     (if workflowId = uuidNil then Panic ''nil workflowId''
      else Ok ((repoPb EV_FSO_UNFREEZE_REPO_COMPLETED_2)\<lparr>rp_WorkflowId := Some (idBytes workflowId)\<rparr>))"

definition NewUnfreezeRepoCompleted2Error :: "uuid \<Rightarrow> 32 word \<Rightarrow> ('e, RepoPb) outcome" where
  "NewUnfreezeRepoCompleted2Error workflowId code =
     (if workflowId = uuidNil then Panic ''nil workflowId''
      else if code = 0 then Panic ''zero code''
      else Ok ((repoPb EV_FSO_UNFREEZE_REPO_COMPLETED_2)
        \<lparr>rp_WorkflowId := Some (idBytes workflowId), rp_StatusCode := code\<rparr>))"

definition fromPbUnfreezeRepoCompleted2 :: "RepoPb \<Rightarrow> (repo_event_error, RepoEvent) outcome" where
  "fromPbUnfreezeRepoCompleted2 evpb =
     guardType EV_FSO_UNFREEZE_REPO_COMPLETED_2 evpb
       (onError (ParseError ''workflow ID'') (FromBytes (rp_WorkflowId evpb)) (\<lambda>i.
          Ok (EvUnfreezeRepoCompleted2 i (rp_StatusCode evpb))))"

text \<open>Archive and unarchive.\<close>

definition NewArchiveRepoStarted :: "uuid \<Rightarrow> ('e, RepoPb) outcome" where
  "NewArchiveRepoStarted workflowId =
     (if workflowId = uuidNil then Panic ''nil workflowId''
      else Ok ((repoPb EV_FSO_ARCHIVE_REPO_STARTED)\<lparr>rp_WorkflowId := Some (idBytes workflowId)\<rparr>))"

definition fromPbArchiveRepoStarted :: "RepoPb \<Rightarrow> (repo_event_error, RepoEvent) outcome" where
  "fromPbArchiveRepoStarted evpb =
     guardType EV_FSO_ARCHIVE_REPO_STARTED evpb
       (onError (ParseError ''workflow ID'') (FromBytes (rp_WorkflowId evpb)) (\<lambda>i. Ok (EvArchiveRepoStarted i)))"

definition NewArchiveRepoCompletedOk :: "uuid \<Rightarrow> string \<Rightarrow> ('e, RepoPb) outcome" where
  "NewArchiveRepoCompletedOk workflowId tarPath =
     (if workflowId = uuidNil then Panic ''nil workflowId''
      else if tarPath = [] then Panic ''empty tar path''
      else Ok ((repoPb EV_FSO_ARCHIVE_REPO_COMPLETED)
        \<lparr>rp_WorkflowId := Some (idBytes workflowId), rp_TarttTarInfo := Some tarPath\<rparr>))"

definition NewArchiveRepoCompletedError :: "uuid \<Rightarrow> 32 word \<Rightarrow> ('e, RepoPb) outcome" where
  "NewArchiveRepoCompletedError workflowId code =
     (if workflowId = uuidNil then Panic ''nil workflowId''
      else if code = 0 then Panic ''zero code''
      else Ok ((repoPb EV_FSO_ARCHIVE_REPO_COMPLETED)
        \<lparr>rp_WorkflowId := Some (idBytes workflowId), rp_StatusCode := code\<rparr>))"

definition fromPbArchiveRepoCompleted :: "RepoPb \<Rightarrow> (repo_event_error, RepoEvent) outcome" where
  "fromPbArchiveRepoCompleted evpb =
     guardType EV_FSO_ARCHIVE_REPO_COMPLETED evpb
       (onError (ParseError ''workflow ID'') (FromBytes (rp_WorkflowId evpb)) (\<lambda>i.
          Ok (EvArchiveRepoCompleted i (rp_StatusCode evpb)
            (case rp_TarttTarInfo evpb of Some path \<Rightarrow> path | None \<Rightarrow> []))))"

definition NewUnarchiveRepoStarted :: "uuid \<Rightarrow> ('e, RepoPb) outcome" where
  "NewUnarchiveRepoStarted workflowId =
     (if workflowId = uuidNil then Panic ''nil workflowId''
      else Ok ((repoPb EV_FSO_UNARCHIVE_REPO_STARTED)\<lparr>rp_WorkflowId := Some (idBytes workflowId)\<rparr>))"

definition fromPbUnarchiveRepoStarted :: "RepoPb \<Rightarrow> (repo_event_error, RepoEvent) outcome" where
  "fromPbUnarchiveRepoStarted evpb =
     guardType EV_FSO_UNARCHIVE_REPO_STARTED evpb
       (onError (ParseError ''workflow ID'') (FromBytes (rp_WorkflowId evpb)) (\<lambda>i. Ok (EvUnarchiveRepoStarted i)))"

definition NewUnarchiveRepoCompletedOk :: "uuid \<Rightarrow> ('e, RepoPb) outcome" where
  "NewUnarchiveRepoCompletedOk workflowId =
     (if workflowId = uuidNil then Panic ''nil workflowId''
      else Ok ((repoPb EV_FSO_UNARCHIVE_REPO_COMPLETED)\<lparr>rp_WorkflowId := Some (idBytes workflowId)\<rparr>))"

definition NewUnarchiveRepoCompletedError :: "uuid \<Rightarrow> 32 word \<Rightarrow> ('e, RepoPb) outcome" where
  "NewUnarchiveRepoCompletedError workflowId code =
     (if workflowId = uuidNil then Panic ''nil workflowId''
      else if code = 0 then Panic ''zero code''
      else Ok ((repoPb EV_FSO_UNARCHIVE_REPO_COMPLETED)
        \<lparr>rp_WorkflowId := Some (idBytes workflowId), rp_StatusCode := code\<rparr>))"

definition fromPbUnarchiveRepoCompleted :: "RepoPb \<Rightarrow> (repo_event_error, RepoEvent) outcome" where
  "fromPbUnarchiveRepoCompleted evpb =
     guardType EV_FSO_UNARCHIVE_REPO_COMPLETED evpb
       (onError (ParseError ''workflow ID'') (FromBytes (rp_WorkflowId evpb)) (\<lambda>i.
          Ok (EvUnarchiveRepoCompleted i (rp_StatusCode evpb))))"

definition FromPbValidate :: "ulid_unmarshal \<Rightarrow> RepoPb \<Rightarrow> (repo_event_error, RepoEvent) outcome" where
  "FromPbValidate ub evpb =
     (case rp_Event evpb of
        EV_FSO_REPO_INIT_STARTED \<Rightarrow> fromPbRepoInitStarted evpb
      | EV_FSO_ENABLE_GITLAB_ACCEPTED \<Rightarrow> fromPbEnableGitlabAccepted evpb
      | EV_FSO_SHADOW_REPO_CREATED \<Rightarrow> fromPbShadowRepoCreated evpb
      | EV_FSO_SHADOW_REPO_MOVE_STARTED \<Rightarrow> fromPbShadowRepoMoveStarted evpb
      | EV_FSO_SHADOW_REPO_MOVED \<Rightarrow> fromPbShadowRepoMoved ub evpb
      | EV_FSO_REPO_MOVE_STARTED \<Rightarrow> fromPbRepoMoveStarted ub evpb
      | EV_FSO_REPO_MOVED \<Rightarrow> fromPbRepoMoved ub evpb
      | EV_FSO_TARTT_REPO_CREATED \<Rightarrow> fromPbTarttRepoCreated evpb
      | EV_FSO_SHADOW_BACKUP_REPO_CREATED \<Rightarrow> fromPbShadowBackupRepoCreated evpb
      | EV_FSO_SHADOW_BACKUP_REPO_MOVED \<Rightarrow> fromPbShadowBackupRepoMoved evpb
      | EV_FSO_GIT_REPO_CREATED \<Rightarrow> fromPbGitRepoCreated evpb
      | EV_FSO_REPO_ERROR_SET \<Rightarrow> fromPbRepoErrorSet evpb
      | EV_FSO_REPO_ERROR_CLEARED \<Rightarrow> fromPbRepoErrorCleared evpb
      | EV_FSO_ARCHIVE_RECIPIENTS_UPDATED \<Rightarrow> fromPbArchiveRecipientsUpdated evpb
      | EV_FSO_SHADOW_BACKUP_RECIPIENTS_UPDATED \<Rightarrow> fromPbShadowBackupRecipientsUpdated evpb
      | EV_FSO_FREEZE_REPO_STARTED \<Rightarrow> fromPbFreezeRepoStarted evpb
      | EV_FSO_FREEZE_REPO_COMPLETED \<Rightarrow> fromPbFreezeRepoCompleted evpb
      | EV_FSO_FREEZE_REPO_STARTED_2 \<Rightarrow> fromPbFreezeRepoStarted2 evpb
      | EV_FSO_FREEZE_REPO_COMPLETED_2 \<Rightarrow> fromPbFreezeRepoCompleted2 evpb
      | EV_FSO_UNFREEZE_REPO_STARTED \<Rightarrow> fromPbUnfreezeRepoStarted evpb
      | EV_FSO_UNFREEZE_REPO_COMPLETED \<Rightarrow> fromPbUnfreezeRepoCompleted evpb
      | EV_FSO_UNFREEZE_REPO_STARTED_2 \<Rightarrow> fromPbUnfreezeRepoStarted2 evpb
      | EV_FSO_UNFREEZE_REPO_COMPLETED_2 \<Rightarrow> fromPbUnfreezeRepoCompleted2 evpb
      | EV_FSO_ARCHIVE_REPO_STARTED \<Rightarrow> fromPbArchiveRepoStarted evpb
      | EV_FSO_ARCHIVE_REPO_COMPLETED \<Rightarrow> fromPbArchiveRepoCompleted evpb
      | EV_FSO_UNARCHIVE_REPO_STARTED \<Rightarrow> fromPbUnarchiveRepoStarted evpb
      | EV_FSO_UNARCHIVE_REPO_COMPLETED \<Rightarrow> fromPbUnarchiveRepoCompleted evpb
      | EV_FSO_OTHER _ \<Rightarrow> Err ErrUnknownEventType)"

definition FromPbMust :: "ulid_unmarshal \<Rightarrow> RepoPb \<Rightarrow> ('e, RepoEvent) outcome" where
  "FromPbMust ub evpb =
     (case FromPbValidate ub evpb of
        Ok ev \<Rightarrow> Ok ev
      | Err e \<Rightarrow> Panic ''invalid event details''
      | Panic p \<Rightarrow> Panic p)"

lemmas repo_pb_defs =
  NewRepoInitStarted_def NewShadowRepoCreated_def NewShadowRepoMoveStarted_def NewShadowRepoMoved_def
  NewPbRepoMoveStarted_def NewPbRepoMoved_def NewTarttRepoCreated_def NewShadowBackupRepoCreated_def
  NewShadowBackupRepoMoved_def NewGitRepoCreated_def NewEnableGitlabAccepted_def NewRepoErrorSet_def
  NewRepoErrorCleared_def NewArchiveRecipientsUpdated_def NewShadowBackupRecipientsUpdated_def
  NewFreezeRepoStarted2_def NewFreezeRepoCompleted2Ok_def NewFreezeRepoCompleted2Error_def
  NewUnfreezeRepoStarted2_def NewUnfreezeRepoCompleted2Ok_def NewUnfreezeRepoCompleted2Error_def
  NewArchiveRepoStarted_def NewArchiveRepoCompletedOk_def NewArchiveRepoCompletedError_def
  NewUnarchiveRepoStarted_def NewUnarchiveRepoCompletedOk_def NewUnarchiveRepoCompletedError_def
  repoPb_def repoInitInfo0_def

lemmas repo_fromPb_defs =
  fromPbRepoInitStarted_def fromPbShadowRepoCreated_def fromPbShadowRepoMoveStarted_def
  fromPbShadowRepoMoved_def fromPbRepoMoveStarted_def fromPbRepoMoved_def fromPbTarttRepoCreated_def
  fromPbShadowBackupRepoCreated_def fromPbShadowBackupRepoMoved_def fromPbGitRepoCreated_def
  fromPbEnableGitlabAccepted_def fromPbRepoErrorSet_def fromPbRepoErrorCleared_def
  fromPbArchiveRecipientsUpdated_def fromPbShadowBackupRecipientsUpdated_def
  fromPbFreezeRepoStarted_def fromPbFreezeRepoCompleted_def fromPbFreezeRepoStarted2_def
  fromPbFreezeRepoCompleted2_def fromPbUnfreezeRepoStarted_def fromPbUnfreezeRepoCompleted_def
  fromPbUnfreezeRepoStarted2_def fromPbUnfreezeRepoCompleted2_def fromPbArchiveRepoStarted_def
  fromPbArchiveRepoCompleted_def fromPbUnarchiveRepoStarted_def fromPbUnarchiveRepoCompleted_def

section \<open>Event structs\<close>

definition repoSetPb :: "ulid \<Rightarrow> ulid \<Rightarrow> RepoPb \<Rightarrow> RepoPb" where
  "repoSetPb i parent p = p\<lparr>rp_Id := Some (idBytes i), rp_Parent := Some (idBytes parent)\<rparr>"

definition newEvents :: "ulid_source \<Rightarrow> ulid \<Rightarrow> RepoPb list \<Rightarrow> goerr + RepoPb Event list" where
  "newEvents g parent pbs = newEventsLoop repoSetPb g 0 parent pbs"

definition repoMarshalProto :: "(RepoPb \<Rightarrow> goerr + byte list) \<Rightarrow> RepoPb Event \<Rightarrow> goerr + byte list" where
  "repoMarshalProto pm e = pm (ev_pb e)"

definition repoUnmarshalProto ::
  "(byte list \<Rightarrow> goerr + RepoPb) \<Rightarrow> ulid_unmarshal \<Rightarrow> byte list \<Rightarrow> (goerr, RepoPb Event) outcome" where
  "repoUnmarshalProto pu ub data =
     onError id (pu data) (\<lambda>p.
     onError id (ParseBytes ub (rp_Id p)) (\<lambda>i.
     onError id (ParseBytes ub (rp_Parent p)) (\<lambda>par.
       case FromPbValidate ub p of
         Ok _ \<Rightarrow> Ok \<lparr>ev_id = i, ev_parent = par, ev_pb = p\<rparr>
       | Err _ \<Rightarrow> Err (GoErr ''invalid event details'')
       | Panic x \<Rightarrow> Panic x)))"

definition repoWithId :: "ulid \<Rightarrow> RepoPb Event \<Rightarrow> RepoPb Event" where
  "repoWithId i e = e\<lparr>ev_id := i, ev_pb := (ev_pb e)\<lparr>rp_Id := Some (idBytes i)\<rparr>\<rparr>"

definition repoWithParent :: "ulid \<Rightarrow> RepoPb Event \<Rightarrow> RepoPb Event" where
  "repoWithParent i e = e\<lparr>ev_parent := i, ev_pb := (ev_pb e)\<lparr>rp_Parent := Some (idBytes i)\<rparr>\<rparr>"

text \<open>
  The documented behaviour of \<open>proto.Marshal\<close> and \<open>proto.Unmarshal\<close> on messages whose optional byte
  fields are not empty: what was marshalled is unmarshalled.
\<close>

definition repo_pb_ok :: "RepoPb \<Rightarrow> bool" where
  "repo_pb_ok p \<longleftrightarrow> rp_Id p \<noteq> Some [] \<and> rp_Parent p \<noteq> Some [] \<and> rp_RegistryEventId p \<noteq> Some [] \<and>
     rp_WorkflowId p \<noteq> Some [] \<and> rp_WorkflowEventId p \<noteq> Some []"

definition repo_codec :: "(RepoPb \<Rightarrow> goerr + byte list) \<Rightarrow> (byte list \<Rightarrow> goerr + RepoPb) \<Rightarrow> bool" where
  "repo_codec pm pu \<longleftrightarrow> (\<forall>p bs. repo_pb_ok p \<longrightarrow> pm p = Inr bs \<longrightarrow> pu bs = Inr p)"

section \<open>Round trips\<close>

lemma guardType_eq: "guardType t p k = (if rp_Event p = t then k else Panic ''invalid event'')"
  by (simp add: guardType_def)

lemma FromPbValidate_header [simp]:
  "FromPbValidate ub (p\<lparr>rp_Id := x\<rparr>) = FromPbValidate ub p"
  "FromPbValidate ub (p\<lparr>rp_Parent := x\<rparr>) = FromPbValidate ub p"
  by (simp_all add: FromPbValidate_def repo_fromPb_defs guardType_def cong: RepoEvent_Type.case_cong)

lemma FromPbValidate_setPb [simp]: "FromPbValidate ub (repoSetPb i par p) = FromPbValidate ub p"
  by (simp add: repoSetPb_def)

lemma parse_New:
  "FromPbValidate ub (NewRepoInitStarted info) = Ok (EvRepoInitStarted info)"
  "FromPbValidate ub (NewShadowRepoCreated s) =
     Ok (EvShadowRepoCreated \<lparr>si_ShadowPath = s, si_NewShadowPath = []\<rparr>)"
  "FromPbValidate ub (NewShadowRepoMoveStarted w s) = Ok (EvShadowRepoMoveStarted w s)"
  "FromPbValidate ub (NewTarttRepoCreated s) = Ok (EvTarttRepoCreated s)"
  "FromPbValidate ub (NewShadowBackupRepoCreated s) = Ok (EvShadowBackupRepoCreated s)"
  "FromPbValidate ub (NewShadowBackupRepoMoved s) = Ok (EvShadowBackupRepoMoved s)"
  "FromPbValidate ub (NewGitRepoCreated n) = Ok (EvGitRepoCreated n)"
  "FromPbValidate ub (NewEnableGitlabAccepted a b) = Ok (EvEnableGitlabAccepted a b)"
  "FromPbValidate ub (NewRepoErrorSet s) = Ok (EvRepoErrorSet s)"
  "FromPbValidate ub NewRepoErrorCleared = Ok EvRepoErrorCleared"
  by (simp_all add: FromPbValidate_def repo_pb_defs repo_fromPb_defs guardType_def)

lemma parse_New_ulid:
  assumes "ulid_binary ub"
  shows "FromPbValidate ub (NewShadowRepoMoved w i s) = Ok (EvShadowRepoMoved w i s)"
    and "FromPbValidate ub (NewPbRepoMoveStarted a) = Ok (EvRepoMoveStarted a)"
    and "FromPbValidate ub (NewPbRepoMoved b) = Ok (EvRepoMoved b)"
  using assms by (simp_all add: FromPbValidate_def repo_pb_defs repo_fromPb_defs guardType_def)

lemma parse_New_Ok:
  "NewArchiveRecipientsUpdated ks = Ok p \<Longrightarrow> FromPbValidate ub p = Ok (EvArchiveRecipientsUpdated ks)"
  "NewShadowBackupRecipientsUpdated ks = Ok p \<Longrightarrow> FromPbValidate ub p = Ok (EvShadowBackupRecipientsUpdated ks)"
  "NewFreezeRepoStarted2 w = Ok p \<Longrightarrow> FromPbValidate ub p = Ok (EvFreezeRepoStarted2 w)"
  "NewFreezeRepoCompleted2Ok w = Ok p \<Longrightarrow> FromPbValidate ub p = Ok (EvFreezeRepoCompleted2 w 0)"
  "NewFreezeRepoCompleted2Error w c = Ok p \<Longrightarrow> FromPbValidate ub p = Ok (EvFreezeRepoCompleted2 w c)"
  "NewUnfreezeRepoStarted2 w = Ok p \<Longrightarrow> FromPbValidate ub p = Ok (EvUnfreezeRepoStarted2 w)"
  "NewUnfreezeRepoCompleted2Ok w = Ok p \<Longrightarrow> FromPbValidate ub p = Ok (EvUnfreezeRepoCompleted2 w 0)"
  "NewUnfreezeRepoCompleted2Error w c = Ok p \<Longrightarrow> FromPbValidate ub p = Ok (EvUnfreezeRepoCompleted2 w c)"
  "NewArchiveRepoStarted w = Ok p \<Longrightarrow> FromPbValidate ub p = Ok (EvArchiveRepoStarted w)"
  "NewArchiveRepoCompletedOk w s = Ok p \<Longrightarrow> FromPbValidate ub p = Ok (EvArchiveRepoCompleted w 0 s)"
  "NewArchiveRepoCompletedError w c = Ok p \<Longrightarrow> FromPbValidate ub p = Ok (EvArchiveRepoCompleted w c [])"
  "NewUnarchiveRepoStarted w = Ok p \<Longrightarrow> FromPbValidate ub p = Ok (EvUnarchiveRepoStarted w)"
  "NewUnarchiveRepoCompletedOk w = Ok p \<Longrightarrow> FromPbValidate ub p = Ok (EvUnarchiveRepoCompleted w 0)"
  "NewUnarchiveRepoCompletedError w c = Ok p \<Longrightarrow> FromPbValidate ub p = Ok (EvUnarchiveRepoCompleted w c)"
  by (auto simp: FromPbValidate_def repo_pb_defs repo_fromPb_defs guardType_def split: if_splits)

text \<open>Messages made by the constructors have no empty byte fields.\<close>

lemma pb_ok_New:
  "repo_pb_ok (NewRepoInitStarted info)" "repo_pb_ok (NewShadowRepoCreated s)"
  "repo_pb_ok (NewShadowRepoMoveStarted w s)" "repo_pb_ok (NewTarttRepoCreated s)"
  "repo_pb_ok (NewShadowBackupRepoCreated s)" "repo_pb_ok (NewShadowBackupRepoMoved s)"
  "repo_pb_ok (NewGitRepoCreated n)" "repo_pb_ok (NewEnableGitlabAccepted a b)"
  "repo_pb_ok (NewRepoErrorSet s)" "repo_pb_ok NewRepoErrorCleared"
  "repo_pb_ok (NewShadowRepoMoved w i s)" "repo_pb_ok (NewPbRepoMoveStarted ms)" "repo_pb_ok (NewPbRepoMoved md)"
  by (simp_all add: repo_pb_ok_def repo_pb_defs)

lemma pb_ok_New_Ok:
  "NewArchiveRecipientsUpdated ks = Ok p \<Longrightarrow> repo_pb_ok p"
  "NewShadowBackupRecipientsUpdated ks = Ok p \<Longrightarrow> repo_pb_ok p"
  "NewFreezeRepoStarted2 w = Ok p \<Longrightarrow> repo_pb_ok p"
  "NewFreezeRepoCompleted2Ok w = Ok p \<Longrightarrow> repo_pb_ok p"
  "NewFreezeRepoCompleted2Error w c = Ok p \<Longrightarrow> repo_pb_ok p"
  "NewUnfreezeRepoStarted2 w = Ok p \<Longrightarrow> repo_pb_ok p"
  "NewUnfreezeRepoCompleted2Ok w = Ok p \<Longrightarrow> repo_pb_ok p"
  "NewUnfreezeRepoCompleted2Error w c = Ok p \<Longrightarrow> repo_pb_ok p"
  "NewArchiveRepoStarted w = Ok p \<Longrightarrow> repo_pb_ok p"
  "NewArchiveRepoCompletedOk w s = Ok p \<Longrightarrow> repo_pb_ok p"
  "NewArchiveRepoCompletedError w c = Ok p \<Longrightarrow> repo_pb_ok p"
  "NewUnarchiveRepoStarted w = Ok p \<Longrightarrow> repo_pb_ok p"
  "NewUnarchiveRepoCompletedOk w = Ok p \<Longrightarrow> repo_pb_ok p"
  "NewUnarchiveRepoCompletedError w c = Ok p \<Longrightarrow> repo_pb_ok p"
  by (auto simp: repo_pb_ok_def repo_pb_defs split: if_splits)

text \<open>The struct fields agree with the message's header, and the message is valid.\<close>

definition repo_event_wf :: "ulid_unmarshal \<Rightarrow> RepoPb Event \<Rightarrow> bool" where
  "repo_event_wf ub e \<longleftrightarrow>
     rp_Id (ev_pb e) = Some (idBytes (ev_id e)) \<and> rp_Parent (ev_pb e) = Some (idBytes (ev_parent e)) \<and>
     repo_pb_ok (ev_pb e) \<and> (\<exists>ev. FromPbValidate ub (ev_pb e) = Ok ev)"

lemma repo_roundtrip:
  assumes "repo_codec pm pu" and "ulid_binary ub" and "repo_event_wf ub e" and "repoMarshalProto pm e = Inr bs"
  shows "repoUnmarshalProto pu ub bs = Ok e"
proof -
  have "pu bs = Inr (ev_pb e)"
    using assms by (auto simp: repo_codec_def repoMarshalProto_def repo_event_wf_def)
  then show ?thesis using assms(2,3) by (auto simp: repoUnmarshalProto_def repo_event_wf_def)
qed

end
