(* ===== verification/Storage_Tiers.thy ===== *)
theory Storage_Tiers
  imports Nog_Ids
begin

text \<open>
  The storage tiers of a repo.  The Go packages \<open>fsorepos\<close> and \<open>fsoregistry\<close> declare the same enumeration
  each; \<open>fsoregistry.go\<close> notes that it may be factored out.  The abstract machine is the specification that both
  aggregates refine.
\<close>

datatype (plugins only: code) StorageTierCode =
    StorageTierUnspecified | StorageOnline | StorageFrozen | StorageArchived
  | StorageFreezing | StorageFreezeFailed | StorageUnfreezing | StorageUnfreezeFailed
  | StorageArchiving | StorageArchiveFailed | StorageUnarchiving | StorageUnarchiveFailed

fun busy :: "StorageTierCode \<Rightarrow> bool" where
  "busy StorageFreezing = True"
| "busy StorageUnfreezing = True"
| "busy StorageArchiving = True"
| "busy StorageUnarchiving = True"
| "busy _ = False"

section \<open>The storage state machine\<close>

text \<open>
  The abstract machine: data is online, frozen or archived; one operation at a time runs under a workflow and
  either reaches its target or fails, from where it can be started again.
\<close>

datatype (plugins only: code) storage_op = Freeze | Unfreeze | Archive | Unarchive
datatype (plugins only: code) tier = Online | Frozen | Archived
datatype (plugins only: code) storage = NoStorage | At tier | Running storage_op uuid | Failed storage_op

fun op_source :: "storage_op \<Rightarrow> tier" where
  "op_source Freeze = Online" | "op_source Unfreeze = Frozen"
| "op_source Archive = Frozen" | "op_source Unarchive = Archived"

fun op_target :: "storage_op \<Rightarrow> tier" where
  "op_target Freeze = Frozen" | "op_target Unfreeze = Online"
| "op_target Archive = Archived" | "op_target Unarchive = Frozen"

inductive storage_step :: "storage \<Rightarrow> storage \<Rightarrow> bool" where
  create: "storage_step NoStorage (At Online)"
| begin_op: "w \<noteq> uuidNil \<Longrightarrow> storage_step (At (op_source p)) (Running p w)"
| retry: "w \<noteq> uuidNil \<Longrightarrow> storage_step (Failed p) (Running p w)"
| commit: "storage_step (Running p w) (At (op_target p))"
| abort: "storage_step (Running p w) (Failed p)"

fun storage_abs :: "StorageTierCode \<Rightarrow> uuid \<Rightarrow> storage" where
  "storage_abs StorageTierUnspecified w = NoStorage"
| "storage_abs StorageOnline w = At Online"
| "storage_abs StorageFrozen w = At Frozen"
| "storage_abs StorageArchived w = At Archived"
| "storage_abs StorageFreezing w = Running Freeze w"
| "storage_abs StorageFreezeFailed w = Failed Freeze"
| "storage_abs StorageUnfreezing w = Running Unfreeze w"
| "storage_abs StorageUnfreezeFailed w = Failed Unfreeze"
| "storage_abs StorageArchiving w = Running Archive w"
| "storage_abs StorageArchiveFailed w = Failed Archive"
| "storage_abs StorageUnarchiving w = Running Unarchive w"
| "storage_abs StorageUnarchiveFailed w = Failed Unarchive"

lemmas storage_steps =
  storage_step.create storage_step.commit [of Freeze, simplified] storage_step.commit [of Unfreeze, simplified]
  storage_step.commit [of Archive, simplified] storage_step.commit [of Unarchive, simplified]
  storage_step.begin_op [of _ Freeze, simplified] storage_step.begin_op [of _ Unfreeze, simplified]
  storage_step.begin_op [of _ Archive, simplified] storage_step.begin_op [of _ Unarchive, simplified]
  storage_step.retry storage_step.abort

end
