(* ===== verification/Fso_Repos.thy ===== *)
theory Fso_Repos
  imports Nog_Aggregate Repo_Events Storage_Tiers
begin

text \<open>
  The aggregate of FSO repos (\<open>backend/internal/fsorepos/fsorepos.go\<close>): the state, \<open>Advance()\<close>, and one
  definition per command.  The state machine of the storage tier (freeze, unfreeze, archive, unarchive), the
  moves of a repo and of its shadow, and the stored error are the hard parts.
\<close>

section \<open>State and commands\<close>

definition ConfigMaxStatusMessageLength :: nat where "ConfigMaxStatusMessageLength = 150"

record RepoState =
  rs_id :: uuid
  rs_vid :: ulid
  rs_registry :: string
  rs_globalPath :: string
  rs_fileHost :: string
  rs_hostPath :: string
  rs_shadowPath :: string
  rs_archiveURL :: string
  rs_archiveRecipients :: Fingerprints
  rs_tarttTarPath :: string
  rs_shadowBackupURL :: string
  rs_shadowBackupRecipients :: Fingerprints
  rs_gitlabHost :: string
  rs_gitlabPath :: string
  rs_gitlabProjectId :: "64 word"
  rs_gitToNogAddr :: string
  rs_errorMessage :: string
  rs_moveShadowWorkflow :: uuid
  rs_newShadowPath :: string
  rs_moveRepoWorkflow :: uuid
  rs_newGlobalPath :: string
  rs_storageTier :: StorageTierCode
  rs_storageWorkflowId :: uuid

definition repoNewState :: "uuid \<Rightarrow> RepoState" where
  "repoNewState i =
     \<lparr>rs_id = i, rs_vid = 0, rs_registry = [], rs_globalPath = [], rs_fileHost = [], rs_hostPath = [],
      rs_shadowPath = [], rs_archiveURL = [], rs_archiveRecipients = [], rs_tarttTarPath = [],
      rs_shadowBackupURL = [], rs_shadowBackupRecipients = [], rs_gitlabHost = [], rs_gitlabPath = [],
      rs_gitlabProjectId = 0, rs_gitToNogAddr = [], rs_errorMessage = [], rs_moveShadowWorkflow = 0,
      rs_newShadowPath = [], rs_moveRepoWorkflow = 0, rs_newGlobalPath = [],
      rs_storageTier = StorageTierUnspecified, rs_storageWorkflowId = 0\<rparr>"

datatype (plugins only: code) SubdirTracking =
    SubdirTrackingUnspecified | EnterSubdirs | BundleSubdirs | IgnoreSubdirs | IgnoreMost
  | SubdirTrackingOther int

record CmdInitRepo =
  ci_Registry :: string
  ci_GlobalPath :: string
  ci_CreatorName :: string
  ci_CreatorEmail :: string
  ci_FileHost :: string
  ci_HostPath :: string
  ci_GitlabHost :: string
  ci_GitlabPath :: string
  ci_GitToNogAddr :: string
  ci_SubdirTracking :: SubdirTracking
  ci_ArchiveRecipients :: Fingerprints
  ci_ShadowBackupRecipients :: Fingerprints

record CmdBeginMoveRepo =
  cb_RegistryEventId :: ulid
  cb_WorkflowId :: uuid
  cb_NewGlobalPath :: string
  cb_NewFileHost :: string
  cb_NewHostPath :: string

record CmdCommitMoveRepo =
  cc_WorkflowId :: uuid
  cc_WorkflowEventId :: ulid
  cc_GlobalPath :: string
  cc_FileHost :: string
  cc_HostPath :: string
  cc_ShadowPath :: string

datatype (plugins only: code) RepoCmd =
    InitRepo CmdInitRepo
  | ConfirmShadow string
  | BeginMoveRepo CmdBeginMoveRepo
  | CommitMoveRepo CmdCommitMoveRepo
  | BeginMoveShadow uuid string
  | CommitMoveShadow uuid ulid
  | InitTartt string
  | UpdateArchiveRecipients Fingerprints
  | DeleteArchiveRecipients
  | InitShadowBackup string
  | MoveShadowBackup string
  | UpdateShadowBackupRecipients Fingerprints
  | DeleteShadowBackupRecipients
  | ConfirmGit "64 word"
  | EnableGitlab string
  | BeginFreeze uuid
  | CommitFreeze uuid
  | AbortFreeze uuid "32 word" string
  | BeginUnfreeze uuid
  | CommitUnfreeze uuid
  | AbortUnfreeze uuid "32 word" string
  | BeginArchive uuid
  | CommitArchive uuid string
  | AbortArchive uuid "32 word" string
  | BeginUnarchive uuid
  | CommitUnarchive uuid
  | AbortUnarchive uuid "32 word" string
  | SetRepoError string
  | ClearRepoError string

datatype (plugins only: code) repo_error =
    ErrCommandConflict | ErrConflictShadowPath | ErrConflictWorkflow | ErrNoGPGKeys | ErrDuplicateGPGKeys
  | ErrInitConflict | ErrMalformedShadowBackupURL | ErrMalformedTarttURL | ErrMalformedWorkflowId
  | ErrMissingShadow | ErrNotInitialized | ErrNotInitializedShadowBackup | ErrShadowPathUnchanged
  | ErrUninitialized | ErrWorkflowActive | ErrWorkflowReuse | ErrInvalidErrorStatusCode
  | ErrInvalidErrorStatusMessage | ErrStatusMessageTooLong | ErrConflictRepoError
  | ErrConflictStorageWorkflow | ErrEmptyTarPath | ErrNoTarttRepo | ErrGitlabPathConflict
  | ErrGitlabConfigInvalid | ErrSubdirTrackingInvalid | ErrGitlabNamespaceInvalid | ErrClearMessageEmpty
  | ErrClearMessageMismatch
  | RepoNewEventsErr goerr

definition HasActiveMoveRepo :: "RepoState \<Rightarrow> bool" where
  "HasActiveMoveRepo s \<longleftrightarrow> rs_moveRepoWorkflow s \<noteq> uuidNil \<and> rs_newGlobalPath s \<noteq> []"

definition HasActiveMoveShadow :: "RepoState \<Rightarrow> bool" where
  "HasActiveMoveShadow s \<longleftrightarrow> rs_moveShadowWorkflow s \<noteq> uuidNil \<and> rs_newShadowPath s \<noteq> []"

section \<open>Advance\<close>

fun repoAdvanceEv :: "RepoState \<Rightarrow> RepoEvent \<Rightarrow> (repo_error, RepoState) outcome" where
  "repoAdvanceEv st (EvRepoInitStarted x) =
     Ok (st\<lparr>rs_registry := ri_Registry x, rs_globalPath := ri_GlobalPath x, rs_fileHost := ri_FileHost x,
        rs_hostPath := ri_HostPath x, rs_gitlabHost := ri_GitlabHost x, rs_gitlabPath := ri_GitlabPath x,
        rs_gitToNogAddr := ri_GitToNogAddr x\<rparr>)"
| "repoAdvanceEv st (EvEnableGitlabAccepted host path) = Ok (st\<lparr>rs_gitlabHost := host, rs_gitlabPath := path\<rparr>)"
| "repoAdvanceEv st (EvShadowRepoCreated x) =
     Ok (st\<lparr>rs_shadowPath := si_ShadowPath x, rs_storageTier := StorageOnline\<rparr>)"
| "repoAdvanceEv st (EvRepoMoveStarted x) =
     Ok (st\<lparr>rs_moveRepoWorkflow := ms_WorkflowId x, rs_newGlobalPath := ms_NewGlobalPath x\<rparr>)"
| "repoAdvanceEv st (EvRepoMoved x) =
     (if md_GlobalPath x \<noteq> rs_newGlobalPath st then Panic ''new global path mismatch''
      else if md_FileHost x \<noteq> rs_fileHost st then Panic ''the file host cannot change''
      else Ok (st\<lparr>rs_globalPath := md_GlobalPath x, rs_fileHost := md_FileHost x, rs_hostPath := md_HostPath x,
        rs_shadowPath := md_ShadowPath x, rs_newGlobalPath := []\<rparr>))"
| "repoAdvanceEv st (EvShadowRepoMoveStarted w p) =
     Ok (st\<lparr>rs_moveShadowWorkflow := w, rs_newShadowPath := p\<rparr>)"
| "repoAdvanceEv st (EvShadowRepoMoved w i p) = Ok (st\<lparr>rs_shadowPath := p, rs_newShadowPath := []\<rparr>)"
| "repoAdvanceEv st (EvTarttRepoCreated url) = Ok (st\<lparr>rs_archiveURL := url\<rparr>)"
| "repoAdvanceEv st (EvShadowBackupRepoCreated url) = Ok (st\<lparr>rs_shadowBackupURL := url\<rparr>)"
| "repoAdvanceEv st (EvShadowBackupRepoMoved url) = Ok (st\<lparr>rs_shadowBackupURL := url\<rparr>)"
| "repoAdvanceEv st (EvGitRepoCreated i) = Ok (st\<lparr>rs_gitlabProjectId := i\<rparr>)"
| "repoAdvanceEv st (EvRepoErrorSet msg) = Ok (st\<lparr>rs_errorMessage := msg\<rparr>)"
| "repoAdvanceEv st EvRepoErrorCleared = Ok (st\<lparr>rs_errorMessage := []\<rparr>)"
| "repoAdvanceEv st (EvArchiveRecipientsUpdated ks) =
     (case ParseFingerprintsBytes ks of
        Inl e \<Rightarrow> Panic ''malformed GPG key fingerprint''
      | Inr keys \<Rightarrow> Ok (st\<lparr>rs_archiveRecipients := keys\<rparr>))"
| "repoAdvanceEv st (EvShadowBackupRecipientsUpdated ks) =
     (case ParseFingerprintsBytes ks of
        Inl e \<Rightarrow> Panic ''malformed GPG key fingerprint''
      | Inr keys \<Rightarrow> Ok (st\<lparr>rs_shadowBackupRecipients := keys\<rparr>))"
| "repoAdvanceEv st EvFreezeRepoStarted = Ok st"
| "repoAdvanceEv st EvFreezeRepoCompleted = Ok st"
| "repoAdvanceEv st (EvFreezeRepoStarted2 w) =
     Ok (st\<lparr>rs_storageTier := StorageFreezing, rs_storageWorkflowId := w\<rparr>)"
| "repoAdvanceEv st (EvFreezeRepoCompleted2 w code) =
     Ok (st\<lparr>rs_storageTier := if code = 0 then StorageFrozen else StorageFreezeFailed\<rparr>)"
| "repoAdvanceEv st EvUnfreezeRepoStarted = Ok st"
| "repoAdvanceEv st EvUnfreezeRepoCompleted = Ok st"
| "repoAdvanceEv st (EvUnfreezeRepoStarted2 w) =
     Ok (st\<lparr>rs_storageTier := StorageUnfreezing, rs_storageWorkflowId := w\<rparr>)"
| "repoAdvanceEv st (EvUnfreezeRepoCompleted2 w code) =
     Ok (st\<lparr>rs_storageTier := if code = 0 then StorageOnline else StorageUnfreezeFailed\<rparr>)"
| "repoAdvanceEv st (EvArchiveRepoStarted w) =
     Ok (st\<lparr>rs_storageTier := StorageArchiving, rs_storageWorkflowId := w\<rparr>)"
| "repoAdvanceEv st (EvArchiveRepoCompleted w code tar) =
     (if code = 0 then Ok (st\<lparr>rs_storageTier := StorageArchived, rs_tarttTarPath := tar\<rparr>)
      else Ok (st\<lparr>rs_storageTier := StorageArchiveFailed\<rparr>))"
| "repoAdvanceEv st (EvUnarchiveRepoStarted w) =
     Ok (st\<lparr>rs_storageTier := StorageUnarchiving, rs_storageWorkflowId := w\<rparr>)"
| "repoAdvanceEv st (EvUnarchiveRepoCompleted w code) =
     Ok (st\<lparr>rs_storageTier := if code = 0 then StorageFrozen else StorageUnarchiveFailed\<rparr>)"

definition repoAdvance :: "ulid_unmarshal \<Rightarrow> RepoState \<Rightarrow> RepoPb Event \<Rightarrow> (repo_error, RepoState) outcome" where
  "repoAdvance ub st ev = obind (FromPbMust ub (ev_pb ev)) (repoAdvanceEv st)"

section \<open>Commands\<close>

text \<open>The statement \<open>return newEvents(state.Vid(), ...)\<close>.\<close>

definition emit :: "ulid_source \<Rightarrow> RepoState \<Rightarrow> RepoPb list \<Rightarrow> (repo_error, RepoPb Event list) outcome" where
  "emit g st pbs = (case newEvents g (rs_vid st) pbs of Inl e \<Rightarrow> Err (RepoNewEventsErr e) | Inr evs \<Rightarrow> Ok evs)"

fun pbSubdirTracking :: "SubdirTracking \<Rightarrow> PbSubdirTracking option" where
  "pbSubdirTracking EnterSubdirs = Some ST_ENTER_SUBDIRS"
| "pbSubdirTracking BundleSubdirs = Some ST_BUNDLE_SUBDIRS"
| "pbSubdirTracking IgnoreSubdirs = Some ST_IGNORE_SUBDIRS"
| "pbSubdirTracking IgnoreMost = Some ST_IGNORE_MOST"
| "pbSubdirTracking _ = None"

definition tellInitRepo ::
  "ulid_source \<Rightarrow> RepoState \<Rightarrow> CmdInitRepo \<Rightarrow> (repo_error, RepoPb Event list) outcome" where
  "tellInitRepo g st cmd =
     (if HasDuplicate (ci_ArchiveRecipients cmd) then Err ErrDuplicateGPGKeys
      else if HasDuplicate (ci_ShadowBackupRecipients cmd) then Err ErrDuplicateGPGKeys
      else if rs_globalPath st \<noteq> [] then
        (if ci_GlobalPath cmd \<noteq> rs_globalPath st then Err ErrInitConflict else Ok [])
      else if \<not> (ci_GitlabHost cmd = [] \<and> ci_GitlabPath cmd = [] \<or> ci_GitlabHost cmd \<noteq> [] \<and> ci_GitlabPath cmd \<noteq> [])
      then Err ErrGitlabConfigInvalid
      else case pbSubdirTracking (ci_SubdirTracking cmd) of
        None \<Rightarrow> Err ErrSubdirTrackingInvalid
      | Some sub \<Rightarrow>
          let p1 = NewRepoInitStarted
                \<lparr>ri_Registry = ci_Registry cmd, ri_GlobalPath = ci_GlobalPath cmd, ri_CreatorName = ci_CreatorName cmd,
                 ri_CreatorEmail = ci_CreatorEmail cmd, ri_FileHost = ci_FileHost cmd, ri_HostPath = ci_HostPath cmd,
                 ri_GitlabHost = ci_GitlabHost cmd, ri_GitlabPath = ci_GitlabPath cmd,
                 ri_GitToNogAddr = ci_GitToNogAddr cmd, ri_SubdirTracking = sub\<rparr>
          in obind (if ci_ArchiveRecipients cmd \<noteq> []
                    then omap (\<lambda>p. [p]) (NewArchiveRecipientsUpdated (Bytes (ci_ArchiveRecipients cmd)))
                    else Ok []) (\<lambda>ps2.
             obind (if ci_ShadowBackupRecipients cmd \<noteq> []
                    then omap (\<lambda>p. [p]) (NewShadowBackupRecipientsUpdated (Bytes (ci_ShadowBackupRecipients cmd)))
                    else Ok []) (\<lambda>ps3.
               emit g st (p1 # ps2 @ ps3))))"

definition tellConfirmShadow ::
  "ulid_source \<Rightarrow> RepoState \<Rightarrow> string \<Rightarrow> (repo_error, RepoPb Event list) outcome" where
  "tellConfirmShadow g st shadowPath =
     (if rs_globalPath st = [] then Err ErrUninitialized
      else if rs_shadowPath st \<noteq> [] then
        (if shadowPath \<noteq> rs_shadowPath st then Err ErrInitConflict else Ok [])
      else emit g st [NewShadowRepoCreated shadowPath])"

definition tellBeginMoveRepo ::
  "ulid_source \<Rightarrow> RepoState \<Rightarrow> CmdBeginMoveRepo \<Rightarrow> (repo_error, RepoPb Event list) outcome" where
  "tellBeginMoveRepo g st cmd =
     (if rs_shadowPath st = [] then Err ErrMissingShadow
      else if cb_WorkflowId cmd = uuidNil then Err ErrMalformedWorkflowId
      else if HasActiveMoveRepo st then
        (if cb_WorkflowId cmd = rs_moveRepoWorkflow st then Err ErrWorkflowActive else Err ErrConflictWorkflow)
      else if cb_WorkflowId cmd = rs_moveRepoWorkflow st then Err ErrWorkflowReuse
      else emit g st [NewPbRepoMoveStarted
        \<lparr>ms_RegistryEventId = cb_RegistryEventId cmd, ms_WorkflowId = cb_WorkflowId cmd,
         ms_OldGlobalPath = rs_globalPath st, ms_OldFileHost = rs_fileHost st, ms_OldHostPath = rs_hostPath st,
         ms_OldShadowPath = rs_shadowPath st, ms_NewGlobalPath = cb_NewGlobalPath cmd,
         ms_NewFileHost = cb_NewFileHost cmd, ms_NewHostPath = cb_NewHostPath cmd\<rparr>])"

definition tellCommitMoveRepo ::
  "ulid_source \<Rightarrow> RepoState \<Rightarrow> CmdCommitMoveRepo \<Rightarrow> (repo_error, RepoPb Event list) outcome" where
  "tellCommitMoveRepo g st cmd =
     (if cc_WorkflowId cmd \<noteq> rs_moveRepoWorkflow st then Err ErrConflictWorkflow
      else if \<not> HasActiveMoveRepo st then Ok []
      else emit g st [NewPbRepoMoved
        \<lparr>md_WorkflowId = cc_WorkflowId cmd, md_WorkflowEventId = cc_WorkflowEventId cmd,
         md_GlobalPath = cc_GlobalPath cmd, md_FileHost = cc_FileHost cmd, md_HostPath = cc_HostPath cmd,
         md_ShadowPath = cc_ShadowPath cmd\<rparr>])"

definition tellBeginMoveShadow ::
  "ulid_source \<Rightarrow> RepoState \<Rightarrow> uuid \<Rightarrow> string \<Rightarrow> (repo_error, RepoPb Event list) outcome" where
  "tellBeginMoveShadow g st workflowId newShadowPath =
     (if rs_shadowPath st = [] then Err ErrMissingShadow
      else if HasActiveMoveShadow st then
        (if workflowId \<noteq> rs_moveShadowWorkflow st then Err ErrConflictWorkflow
         else if newShadowPath \<noteq> rs_newShadowPath st then Err ErrConflictShadowPath
         else Ok [])
      else if workflowId = rs_moveShadowWorkflow st then Err ErrWorkflowReuse
      else if newShadowPath = rs_shadowPath st then Err ErrShadowPathUnchanged
      else emit g st [NewShadowRepoMoveStarted workflowId newShadowPath])"

definition tellCommitMoveShadow ::
  "ulid_source \<Rightarrow> RepoState \<Rightarrow> uuid \<Rightarrow> ulid \<Rightarrow> (repo_error, RepoPb Event list) outcome" where
  "tellCommitMoveShadow g st workflowId workflowEventId =
     (if workflowId \<noteq> rs_moveShadowWorkflow st then Err ErrConflictWorkflow
      else if \<not> HasActiveMoveShadow st then Ok []
      else emit g st [NewShadowRepoMoved (rs_moveShadowWorkflow st) workflowEventId (rs_newShadowPath st)])"

text \<open>
  The regular expressions of the URLs.  The character classes do not contain the delimiter that
  follows, so that each part is a longest prefix.
\<close>

definition isHostChar :: "char \<Rightarrow> bool" where
  "isHostChar c \<longleftrightarrow> is_lower c \<or> is_digit c \<or> c = CHR ''.'' \<or> c = CHR ''-''"

definition isPathChar :: "char \<Rightarrow> bool" where
  "isPathChar c \<longleftrightarrow> c = CHR ''/'' \<or> is_lower c \<or> is_digit c \<or> c = CHR ''_'' \<or> c = CHR ''.'' \<or> c = CHR ''-''"

text \<open>\<open>[a-z0-9.-]+ /[/a-z0-9_.-]+\<close>, then the rest.\<close>

definition hostPathRest :: "string \<Rightarrow> string option" where
  "hostPathRest s =
     (if takeWhile isHostChar s = [] then None
      else case dropWhile isHostChar s of
        [] \<Rightarrow> None
      | c # r \<Rightarrow>
          if c = CHR ''/'' \<and> takeWhile isPathChar r \<noteq> [] then Some (dropWhile isPathChar r) else None)"

definition rgxTarttURL :: "string \<Rightarrow> bool" where
  "rgxTarttURL s \<longleftrightarrow>
     HasPrefix s ''tartt://'' \<and>
     (case hostPathRest (drop (length ''tartt://'') s) of
        None \<Rightarrow> False
      | Some r \<Rightarrow>
          r = ''?driver=local'' \<or>
          HasPrefix r ''?driver=localtape&tardir='' \<and>
          (let t = drop (length ''?driver=localtape&tardir='') r in t \<noteq> [] \<and> list_all isPathChar t))"

definition rgxShadowBackupURL :: "string \<Rightarrow> bool" where
  "rgxShadowBackupURL s \<longleftrightarrow>
     HasPrefix s ''nogfsobak://'' \<and> hostPathRest (drop (length ''nogfsobak://'') s) = Some []"

definition tellInitTartt ::
  "ulid_source \<Rightarrow> RepoState \<Rightarrow> string \<Rightarrow> (repo_error, RepoPb Event list) outcome" where
  "tellInitTartt g st tarttURL =
     (if rs_globalPath st = [] then Err ErrNotInitialized
      else if \<not> rgxTarttURL tarttURL then Err ErrMalformedTarttURL
      else if rs_archiveURL st \<noteq> [] then
        (if tarttURL \<noteq> rs_archiveURL st then Err ErrInitConflict else Ok [])
      else emit g st [NewTarttRepoCreated tarttURL])"

text \<open>\<open>checkTell()\<close> of both commands that update recipients.\<close>

definition checkTell :: "Fingerprints \<Rightarrow> repo_error option" where
  "checkTell keys =
     (if keys = [] then Some ErrNoGPGKeys
      else if HasDuplicate keys then Some ErrDuplicateGPGKeys
      else None)"

definition tellUpdateArchiveRecipients ::
  "ulid_source \<Rightarrow> RepoState \<Rightarrow> Fingerprints \<Rightarrow> (repo_error, RepoPb Event list) outcome" where
  "tellUpdateArchiveRecipients g st keys =
     (case checkTell keys of
        Some err \<Rightarrow> Err err
      | None \<Rightarrow>
          if rs_globalPath st = [] then Err ErrNotInitialized
          else if fpEqual (rs_archiveRecipients st) keys then Ok []
          else obind (NewArchiveRecipientsUpdated (Bytes keys)) (\<lambda>p. emit g st [p]))"

definition tellDeleteArchiveRecipients ::
  "ulid_source \<Rightarrow> RepoState \<Rightarrow> (repo_error, RepoPb Event list) outcome" where
  "tellDeleteArchiveRecipients g st =
     (if rs_globalPath st = [] then Err ErrNotInitialized
      else if rs_archiveRecipients st = [] then Ok []
      else obind (NewArchiveRecipientsUpdated []) (\<lambda>p. emit g st [p]))"

definition tellInitShadowBackup ::
  "ulid_source \<Rightarrow> RepoState \<Rightarrow> string \<Rightarrow> (repo_error, RepoPb Event list) outcome" where
  "tellInitShadowBackup g st url =
     (if rs_globalPath st = [] then Err ErrNotInitialized
      else if \<not> rgxShadowBackupURL url then Err ErrMalformedShadowBackupURL
      else if rs_shadowBackupURL st \<noteq> [] then
        (if url \<noteq> rs_shadowBackupURL st then Err ErrInitConflict else Ok [])
      else emit g st [NewShadowBackupRepoCreated url])"

definition tellMoveShadowBackup ::
  "ulid_source \<Rightarrow> RepoState \<Rightarrow> string \<Rightarrow> (repo_error, RepoPb Event list) outcome" where
  "tellMoveShadowBackup g st url =
     (if rs_globalPath st = [] then Err ErrNotInitialized
      else if rs_shadowBackupURL st = [] then Err ErrNotInitializedShadowBackup
      else if url = rs_shadowBackupURL st then Ok []
      else if \<not> rgxShadowBackupURL url then Err ErrMalformedShadowBackupURL
      else emit g st [NewShadowBackupRepoMoved url])"

definition tellUpdateShadowBackupRecipients ::
  "ulid_source \<Rightarrow> RepoState \<Rightarrow> Fingerprints \<Rightarrow> (repo_error, RepoPb Event list) outcome" where
  "tellUpdateShadowBackupRecipients g st keys =
     (case checkTell keys of
        Some err \<Rightarrow> Err err
      | None \<Rightarrow>
          if rs_globalPath st = [] then Err ErrNotInitialized
          else if fpEqual (rs_shadowBackupRecipients st) keys then Ok []
          else obind (NewShadowBackupRecipientsUpdated (Bytes keys)) (\<lambda>p. emit g st [p]))"

definition tellDeleteShadowBackupRecipients ::
  "ulid_source \<Rightarrow> RepoState \<Rightarrow> (repo_error, RepoPb Event list) outcome" where
  "tellDeleteShadowBackupRecipients g st =
     (if rs_globalPath st = [] then Err ErrNotInitialized
      else if rs_shadowBackupRecipients st = [] then Ok []
      else obind (NewShadowBackupRecipientsUpdated []) (\<lambda>p. emit g st [p]))"

definition tellConfirmGit ::
  "ulid_source \<Rightarrow> RepoState \<Rightarrow> 64 word \<Rightarrow> (repo_error, RepoPb Event list) outcome" where
  "tellConfirmGit g st gitlabProjectId =
     (if rs_globalPath st = [] then Err ErrUninitialized
      else if rs_gitlabProjectId st \<noteq> 0 then
        (if gitlabProjectId \<noteq> rs_gitlabProjectId st then Err ErrInitConflict else Ok [])
      else emit g st [NewGitRepoCreated gitlabProjectId])"

text \<open>\<open>us\<close> stands for the method \<open>String()\<close> of \<open>google/uuid\<close>.\<close>

definition tellEnableGitlab ::
  "(uuid \<Rightarrow> string) \<Rightarrow> ulid_source \<Rightarrow> RepoState \<Rightarrow> string \<Rightarrow> (repo_error, RepoPb Event list) outcome" where
  "tellEnableGitlab us g st gitlabNamespace =
     (if rs_globalPath st = [] then Err ErrUninitialized
      else case SplitN2 (TrimRight gitlabNamespace (CHR ''/'')) (CHR ''/'') of
        [host, ns] \<Rightarrow>
          let path = ns @ ''/'' @ us (rs_id st)
          in if rs_gitlabHost st \<noteq> [] then
               (if rs_gitlabHost st = host \<and> rs_gitlabPath st = path then Ok [] else Err ErrGitlabPathConflict)
             else emit g st [NewEnableGitlabAccepted host path]
      | _ \<Rightarrow> Err ErrGitlabNamespaceInvalid)"

definition tellBeginFreeze ::
  "ulid_source \<Rightarrow> RepoState \<Rightarrow> uuid \<Rightarrow> (repo_error, RepoPb Event list) outcome" where
  "tellBeginFreeze g st workflowId =
     (if HasActiveMoveRepo st \<or> HasActiveMoveShadow st then Err ErrConflictWorkflow
      else case rs_storageTier st of
        StorageOnline \<Rightarrow>
          if rs_errorMessage st \<noteq> [] then Err ErrConflictRepoError
          else obind (NewFreezeRepoStarted2 workflowId) (\<lambda>p. emit g st [p])
      | StorageFreezing \<Rightarrow>
          if rs_storageWorkflowId st \<noteq> workflowId then Err ErrConflictStorageWorkflow else Ok []
      | StorageFreezeFailed \<Rightarrow>
          if rs_errorMessage st \<noteq> [] then Err ErrConflictStorageWorkflow
          else obind (NewFreezeRepoStarted2 workflowId) (\<lambda>p. emit g st [p])
      | _ \<Rightarrow> Err ErrConflictStorageWorkflow)"

definition tellCommitFreeze ::
  "ulid_source \<Rightarrow> RepoState \<Rightarrow> uuid \<Rightarrow> (repo_error, RepoPb Event list) outcome" where
  "tellCommitFreeze g st workflowId =
     (if rs_storageWorkflowId st \<noteq> workflowId then Err ErrConflictStorageWorkflow
      else case rs_storageTier st of
        StorageFreezing \<Rightarrow> obind (NewFreezeRepoCompleted2Ok workflowId) (\<lambda>p. emit g st [p])
      | StorageFrozen \<Rightarrow> Ok []
      | _ \<Rightarrow> Err ErrConflictStorageWorkflow)"

definition tellAbortFreeze ::
  "ulid_source \<Rightarrow> RepoState \<Rightarrow> uuid \<Rightarrow> 32 word \<Rightarrow> string \<Rightarrow> (repo_error, RepoPb Event list) outcome" where
  "tellAbortFreeze g st workflowId statusCode statusMessage =
     (if statusCode = 0 then Err ErrInvalidErrorStatusCode
      else if statusMessage = [] then Err ErrInvalidErrorStatusMessage
      else if length statusMessage > ConfigMaxStatusMessageLength then Err ErrStatusMessageTooLong
      else if rs_storageWorkflowId st \<noteq> workflowId then Err ErrConflictStorageWorkflow
      else case rs_storageTier st of
        StorageFreezing \<Rightarrow>
          obind (NewFreezeRepoCompleted2Error workflowId statusCode) (\<lambda>p.
            emit g st [p, NewRepoErrorSet (''freeze failed: '' @ statusMessage)])
      | StorageFreezeFailed \<Rightarrow> Ok []
      | _ \<Rightarrow> Err ErrConflictStorageWorkflow)"

definition tellBeginUnfreeze ::
  "ulid_source \<Rightarrow> RepoState \<Rightarrow> uuid \<Rightarrow> (repo_error, RepoPb Event list) outcome" where
  "tellBeginUnfreeze g st workflowId =
     (if HasActiveMoveRepo st \<or> HasActiveMoveShadow st then Err ErrConflictWorkflow
      else case rs_storageTier st of
        StorageFrozen \<Rightarrow>
          if rs_errorMessage st \<noteq> [] then Err ErrConflictRepoError
          else obind (NewUnfreezeRepoStarted2 workflowId) (\<lambda>p. emit g st [p])
      | StorageUnfreezing \<Rightarrow>
          if rs_storageWorkflowId st \<noteq> workflowId then Err ErrConflictStorageWorkflow else Ok []
      | StorageUnfreezeFailed \<Rightarrow>
          if rs_errorMessage st \<noteq> [] then Err ErrConflictStorageWorkflow
          else obind (NewUnfreezeRepoStarted2 workflowId) (\<lambda>p. emit g st [p])
      | _ \<Rightarrow> Err ErrConflictStorageWorkflow)"

definition tellCommitUnfreeze ::
  "ulid_source \<Rightarrow> RepoState \<Rightarrow> uuid \<Rightarrow> (repo_error, RepoPb Event list) outcome" where
  "tellCommitUnfreeze g st workflowId =
     (if rs_storageWorkflowId st \<noteq> workflowId then Err ErrConflictStorageWorkflow
      else case rs_storageTier st of
        StorageUnfreezing \<Rightarrow> obind (NewUnfreezeRepoCompleted2Ok workflowId) (\<lambda>p. emit g st [p])
      | StorageOnline \<Rightarrow> Ok []
      | _ \<Rightarrow> Err ErrConflictStorageWorkflow)"

definition tellAbortUnfreeze ::
  "ulid_source \<Rightarrow> RepoState \<Rightarrow> uuid \<Rightarrow> 32 word \<Rightarrow> string \<Rightarrow> (repo_error, RepoPb Event list) outcome" where
  "tellAbortUnfreeze g st workflowId statusCode statusMessage =
     (if statusCode = 0 then Err ErrInvalidErrorStatusCode
      else if statusMessage = [] then Err ErrInvalidErrorStatusMessage
      else if length statusMessage > ConfigMaxStatusMessageLength then Err ErrStatusMessageTooLong
      else if rs_storageWorkflowId st \<noteq> workflowId then Err ErrConflictStorageWorkflow
      else case rs_storageTier st of
        StorageUnfreezing \<Rightarrow>
          obind (NewUnfreezeRepoCompleted2Error workflowId statusCode) (\<lambda>p.
            emit g st [p, NewRepoErrorSet (''freeze failed: '' @ statusMessage)])
      | StorageUnfreezeFailed \<Rightarrow> Ok []
      | _ \<Rightarrow> Err ErrConflictStorageWorkflow)"

definition MayArchive :: "RepoState \<Rightarrow> bool \<times> string" where
  "MayArchive st =
     (if rs_storageTier st \<noteq> StorageFrozen \<and> rs_storageTier st \<noteq> StorageArchiveFailed
      then (False, ''conflicting repo storage state'')
      else if rs_errorMessage st \<noteq> [] then (False, ''repo has stored error'')
      else if rs_archiveURL st = [] then (False, ''no tartt repo'')
      else (True, []))"

definition tellBeginArchive ::
  "ulid_source \<Rightarrow> RepoState \<Rightarrow> uuid \<Rightarrow> (repo_error, RepoPb Event list) outcome" where
  "tellBeginArchive g st workflowId =
     (if HasActiveMoveRepo st \<or> HasActiveMoveShadow st then Err ErrConflictWorkflow
      else case rs_storageTier st of
        StorageFrozen \<Rightarrow>
          if rs_errorMessage st \<noteq> [] then Err ErrConflictRepoError
          else (if rs_archiveURL st = [] then Err ErrNoTarttRepo
               else obind (NewArchiveRepoStarted workflowId) (\<lambda>p. emit g st [p]))
      | StorageArchiving \<Rightarrow>
          if rs_storageWorkflowId st \<noteq> workflowId then Err ErrConflictStorageWorkflow else Ok []
      | StorageArchiveFailed \<Rightarrow>
          if rs_errorMessage st \<noteq> [] then Err ErrConflictStorageWorkflow
          else (if rs_archiveURL st = [] then Err ErrNoTarttRepo
               else obind (NewArchiveRepoStarted workflowId) (\<lambda>p. emit g st [p]))
      | _ \<Rightarrow> Err ErrConflictStorageWorkflow)"

definition tellCommitArchive ::
  "ulid_source \<Rightarrow> RepoState \<Rightarrow> uuid \<Rightarrow> string \<Rightarrow> (repo_error, RepoPb Event list) outcome" where
  "tellCommitArchive g st workflowId tarPath =
     (if rs_storageWorkflowId st \<noteq> workflowId then Err ErrConflictStorageWorkflow
      else case rs_storageTier st of
        StorageArchiving \<Rightarrow>
          if tarPath = [] then Err ErrEmptyTarPath
          else obind (NewArchiveRepoCompletedOk workflowId tarPath) (\<lambda>p. emit g st [p])
      | StorageArchived \<Rightarrow> Ok []
      | _ \<Rightarrow> Err ErrConflictStorageWorkflow)"

definition tellAbortArchive ::
  "ulid_source \<Rightarrow> RepoState \<Rightarrow> uuid \<Rightarrow> 32 word \<Rightarrow> string \<Rightarrow> (repo_error, RepoPb Event list) outcome" where
  "tellAbortArchive g st workflowId statusCode statusMessage =
     (if statusCode = 0 then Err ErrInvalidErrorStatusCode
      else if statusMessage = [] then Err ErrInvalidErrorStatusMessage
      else if length statusMessage > ConfigMaxStatusMessageLength then Err ErrStatusMessageTooLong
      else if rs_storageWorkflowId st \<noteq> workflowId then Err ErrConflictStorageWorkflow
      else case rs_storageTier st of
        StorageArchiving \<Rightarrow>
          obind (NewArchiveRepoCompletedError workflowId statusCode) (\<lambda>p.
            emit g st [p, NewRepoErrorSet (''archive failed: '' @ statusMessage)])
      | StorageArchiveFailed \<Rightarrow> Ok []
      | _ \<Rightarrow> Err ErrConflictStorageWorkflow)"

definition tellBeginUnarchive ::
  "ulid_source \<Rightarrow> RepoState \<Rightarrow> uuid \<Rightarrow> (repo_error, RepoPb Event list) outcome" where
  "tellBeginUnarchive g st workflowId =
     (if HasActiveMoveRepo st \<or> HasActiveMoveShadow st then Err ErrConflictWorkflow
      else case rs_storageTier st of
        StorageArchived \<Rightarrow>
          if rs_errorMessage st \<noteq> [] then Err ErrConflictRepoError
          else obind (NewUnarchiveRepoStarted workflowId) (\<lambda>p. emit g st [p])
      | StorageUnarchiving \<Rightarrow>
          if rs_storageWorkflowId st \<noteq> workflowId then Err ErrConflictStorageWorkflow else Ok []
      | StorageUnarchiveFailed \<Rightarrow>
          if rs_errorMessage st \<noteq> [] then Err ErrConflictStorageWorkflow
          else obind (NewUnarchiveRepoStarted workflowId) (\<lambda>p. emit g st [p])
      | _ \<Rightarrow> Err ErrConflictStorageWorkflow)"

definition tellCommitUnarchive ::
  "ulid_source \<Rightarrow> RepoState \<Rightarrow> uuid \<Rightarrow> (repo_error, RepoPb Event list) outcome" where
  "tellCommitUnarchive g st workflowId =
     (if rs_storageWorkflowId st \<noteq> workflowId then Err ErrConflictStorageWorkflow
      else case rs_storageTier st of
        StorageUnarchiving \<Rightarrow> obind (NewUnarchiveRepoCompletedOk workflowId) (\<lambda>p. emit g st [p])
      | StorageFrozen \<Rightarrow> Ok []
      | _ \<Rightarrow> Err ErrConflictStorageWorkflow)"

definition tellAbortUnarchive ::
  "ulid_source \<Rightarrow> RepoState \<Rightarrow> uuid \<Rightarrow> 32 word \<Rightarrow> string \<Rightarrow> (repo_error, RepoPb Event list) outcome" where
  "tellAbortUnarchive g st workflowId statusCode statusMessage =
     (if statusCode = 0 then Err ErrInvalidErrorStatusCode
      else if statusMessage = [] then Err ErrInvalidErrorStatusMessage
      else if length statusMessage > ConfigMaxStatusMessageLength then Err ErrStatusMessageTooLong
      else if rs_storageWorkflowId st \<noteq> workflowId then Err ErrConflictStorageWorkflow
      else case rs_storageTier st of
        StorageUnarchiving \<Rightarrow>
          obind (NewUnarchiveRepoCompletedError workflowId statusCode) (\<lambda>p.
            emit g st [p, NewRepoErrorSet (''unarchive failed: '' @ statusMessage)])
      | StorageUnarchiveFailed \<Rightarrow> Ok []
      | _ \<Rightarrow> Err ErrConflictStorageWorkflow)"

definition tellSetRepoError ::
  "ulid_source \<Rightarrow> RepoState \<Rightarrow> string \<Rightarrow> (repo_error, RepoPb Event list) outcome" where
  "tellSetRepoError g st errorMessage =
     (if rs_globalPath st = [] then Err ErrUninitialized
      else if rs_errorMessage st \<noteq> [] then
        (if errorMessage \<noteq> rs_errorMessage st then Err ErrCommandConflict else Ok [])
      else emit g st [NewRepoErrorSet errorMessage])"

definition tellClearRepoError ::
  "ulid_source \<Rightarrow> RepoState \<Rightarrow> string \<Rightarrow> (repo_error, RepoPb Event list) outcome" where
  "tellClearRepoError g st errorMessage =
     (if rs_globalPath st = [] then Err ErrUninitialized
      else if errorMessage = [] then Err ErrClearMessageEmpty
      else if errorMessage \<noteq> rs_errorMessage st then Err ErrClearMessageMismatch
      else emit g st [NewRepoErrorCleared])"

fun repoTell ::
  "(uuid \<Rightarrow> string) \<Rightarrow> ulid_source \<Rightarrow> RepoState \<Rightarrow> RepoCmd \<Rightarrow> (repo_error, RepoPb Event list) outcome" where
  "repoTell us g st (InitRepo cmd) = tellInitRepo g st cmd"
| "repoTell us g st (ConfirmShadow p) = tellConfirmShadow g st p"
| "repoTell us g st (BeginMoveRepo cmd) = tellBeginMoveRepo g st cmd"
| "repoTell us g st (CommitMoveRepo cmd) = tellCommitMoveRepo g st cmd"
| "repoTell us g st (BeginMoveShadow w p) = tellBeginMoveShadow g st w p"
| "repoTell us g st (CommitMoveShadow w i) = tellCommitMoveShadow g st w i"
| "repoTell us g st (InitTartt url) = tellInitTartt g st url"
| "repoTell us g st (UpdateArchiveRecipients ks) = tellUpdateArchiveRecipients g st ks"
| "repoTell us g st DeleteArchiveRecipients = tellDeleteArchiveRecipients g st"
| "repoTell us g st (InitShadowBackup url) = tellInitShadowBackup g st url"
| "repoTell us g st (MoveShadowBackup url) = tellMoveShadowBackup g st url"
| "repoTell us g st (UpdateShadowBackupRecipients ks) = tellUpdateShadowBackupRecipients g st ks"
| "repoTell us g st DeleteShadowBackupRecipients = tellDeleteShadowBackupRecipients g st"
| "repoTell us g st (ConfirmGit i) = tellConfirmGit g st i"
| "repoTell us g st (EnableGitlab ns) = tellEnableGitlab us g st ns"
| "repoTell us g st (BeginFreeze w) = tellBeginFreeze g st w"
| "repoTell us g st (CommitFreeze w) = tellCommitFreeze g st w"
| "repoTell us g st (AbortFreeze w c m) = tellAbortFreeze g st w c m"
| "repoTell us g st (BeginUnfreeze w) = tellBeginUnfreeze g st w"
| "repoTell us g st (CommitUnfreeze w) = tellCommitUnfreeze g st w"
| "repoTell us g st (AbortUnfreeze w c m) = tellAbortUnfreeze g st w c m"
| "repoTell us g st (BeginArchive w) = tellBeginArchive g st w"
| "repoTell us g st (CommitArchive w p) = tellCommitArchive g st w p"
| "repoTell us g st (AbortArchive w c m) = tellAbortArchive g st w c m"
| "repoTell us g st (BeginUnarchive w) = tellBeginUnarchive g st w"
| "repoTell us g st (CommitUnarchive w) = tellCommitUnarchive g st w"
| "repoTell us g st (AbortUnarchive w c m) = tellAbortUnarchive g st w c m"
| "repoTell us g st (SetRepoError m) = tellSetRepoError g st m"
| "repoTell us g st (ClearRepoError m) = tellClearRepoError g st m"

definition repoBehavior ::
  "ulid_unmarshal \<Rightarrow> (uuid \<Rightarrow> string) \<Rightarrow> (RepoState, RepoCmd, RepoPb Event, repo_error) Behavior" where
  "repoBehavior ub us = \<lparr>NewState = repoNewState, StId = rs_id, StVid = rs_vid,
     SetVid = (\<lambda>v st. st\<lparr>rs_vid := v\<rparr>), Advance = repoAdvance ub, Tell = repoTell us\<rparr>"

definition repoEventOps ::
  "(RepoPb \<Rightarrow> goerr + byte list) \<Rightarrow> (byte list \<Rightarrow> goerr + RepoPb) \<Rightarrow> ulid_unmarshal \<Rightarrow> RepoPb Event EventOps" where
  "repoEventOps pm pu ub = \<lparr>EvId = ev_id, EvParent = ev_parent, WithId = repoWithId, WithParent = repoWithParent,
     MarshalProto = repoMarshalProto pm, UnmarshalProto = repoUnmarshalProto pu ub\<rparr>"

lemmas repo_tell_defs =
  tellInitRepo_def tellConfirmShadow_def tellBeginMoveRepo_def tellCommitMoveRepo_def tellBeginMoveShadow_def
  tellCommitMoveShadow_def tellInitTartt_def tellUpdateArchiveRecipients_def tellDeleteArchiveRecipients_def
  tellInitShadowBackup_def tellMoveShadowBackup_def tellUpdateShadowBackupRecipients_def
  tellDeleteShadowBackupRecipients_def tellConfirmGit_def tellEnableGitlab_def tellBeginFreeze_def
  tellCommitFreeze_def tellAbortFreeze_def tellBeginUnfreeze_def tellCommitUnfreeze_def tellAbortUnfreeze_def
  tellBeginArchive_def tellCommitArchive_def tellAbortArchive_def tellBeginUnarchive_def tellCommitUnarchive_def
  tellAbortUnarchive_def tellSetRepoError_def tellClearRepoError_def

end
