(* ===== verification/Fso_Repos_Inv.thy ===== *)
theory Fso_Repos_Inv
  imports Fso_Repos
begin

text \<open>
  Correctness of the aggregate of FSO repos: which events a command produces, the invariant of live
  states, the state machine of the storage tier, idempotency, and the round trip of the events.
\<close>

section \<open>What commands do\<close>

text \<open>
  The specification of the commands: the events that an effective command produces; the empty list for a
  command that is refused or has nothing to do.
\<close>

definition canBegin :: "RepoState \<Rightarrow> StorageTierCode \<Rightarrow> StorageTierCode \<Rightarrow> bool" where
  "canBegin st src failed \<longleftrightarrow>
     \<not> HasActiveMoveRepo st \<and> \<not> HasActiveMoveShadow st \<and> rs_errorMessage st = [] \<and>
     rs_storageTier st \<in> {src, failed}"

definition canEnd :: "RepoState \<Rightarrow> StorageTierCode \<Rightarrow> uuid \<Rightarrow> bool" where
  "canEnd st t w \<longleftrightarrow> rs_storageTier st = t \<and> rs_storageWorkflowId st = w"

definition statusOk :: "32 word \<Rightarrow> string \<Rightarrow> bool" where
  "statusOk code msg \<longleftrightarrow> code \<noteq> 0 \<and> msg \<noteq> [] \<and> length msg \<le> 150"

fun repo_events :: "(uuid \<Rightarrow> string) \<Rightarrow> RepoState \<Rightarrow> RepoCmd \<Rightarrow> RepoEvent list" where
  "repo_events us st (InitRepo c) =
     (if distinct (ci_ArchiveRecipients c) \<and> distinct (ci_ShadowBackupRecipients c) \<and> rs_globalPath st = [] \<and>
         (ci_GitlabHost c = [] \<longleftrightarrow> ci_GitlabPath c = []) \<and> pbSubdirTracking (ci_SubdirTracking c) \<noteq> None
      then EvRepoInitStarted
             \<lparr>ri_Registry = ci_Registry c, ri_GlobalPath = ci_GlobalPath c, ri_CreatorName = ci_CreatorName c,
              ri_CreatorEmail = ci_CreatorEmail c, ri_FileHost = ci_FileHost c, ri_HostPath = ci_HostPath c,
              ri_GitlabHost = ci_GitlabHost c, ri_GitlabPath = ci_GitlabPath c, ri_GitToNogAddr = ci_GitToNogAddr c,
              ri_SubdirTracking = the (pbSubdirTracking (ci_SubdirTracking c))\<rparr> #
           (if ci_ArchiveRecipients c = [] then []
            else [EvArchiveRecipientsUpdated (Bytes (ci_ArchiveRecipients c))]) @
           (if ci_ShadowBackupRecipients c = [] then []
            else [EvShadowBackupRecipientsUpdated (Bytes (ci_ShadowBackupRecipients c))])
      else [])"
| "repo_events us st (ConfirmShadow p) =
     (if rs_globalPath st \<noteq> [] \<and> rs_shadowPath st = []
      then [EvShadowRepoCreated \<lparr>si_ShadowPath = p, si_NewShadowPath = []\<rparr>] else [])"
| "repo_events us st (BeginMoveRepo c) =
     (if rs_shadowPath st \<noteq> [] \<and> cb_WorkflowId c \<notin> {uuidNil, rs_moveRepoWorkflow st} \<and> \<not> HasActiveMoveRepo st
      then [EvRepoMoveStarted
        \<lparr>ms_RegistryEventId = cb_RegistryEventId c, ms_WorkflowId = cb_WorkflowId c,
         ms_OldGlobalPath = rs_globalPath st, ms_OldFileHost = rs_fileHost st, ms_OldHostPath = rs_hostPath st,
         ms_OldShadowPath = rs_shadowPath st, ms_NewGlobalPath = cb_NewGlobalPath c,
         ms_NewFileHost = cb_NewFileHost c, ms_NewHostPath = cb_NewHostPath c\<rparr>] else [])"
| "repo_events us st (CommitMoveRepo c) =
     (if cc_WorkflowId c = rs_moveRepoWorkflow st \<and> HasActiveMoveRepo st
      then [EvRepoMoved
        \<lparr>md_WorkflowId = cc_WorkflowId c, md_WorkflowEventId = cc_WorkflowEventId c,
         md_GlobalPath = cc_GlobalPath c, md_FileHost = cc_FileHost c, md_HostPath = cc_HostPath c,
         md_ShadowPath = cc_ShadowPath c\<rparr>] else [])"
| "repo_events us st (BeginMoveShadow w p) =
     (if rs_shadowPath st \<notin> {[], p} \<and> w \<noteq> rs_moveShadowWorkflow st \<and> \<not> HasActiveMoveShadow st
      then [EvShadowRepoMoveStarted w p] else [])"
| "repo_events us st (CommitMoveShadow w i) =
     (if w = rs_moveShadowWorkflow st \<and> HasActiveMoveShadow st
      then [EvShadowRepoMoved w i (rs_newShadowPath st)] else [])"
| "repo_events us st (InitTartt url) =
     (if rs_globalPath st \<noteq> [] \<and> rgxTarttURL url \<and> rs_archiveURL st = [] then [EvTarttRepoCreated url] else [])"
| "repo_events us st (UpdateArchiveRecipients ks) =
     (if ks \<noteq> [] \<and> distinct ks \<and> rs_globalPath st \<noteq> [] \<and> \<not> fpEqual (rs_archiveRecipients st) ks
      then [EvArchiveRecipientsUpdated (Bytes ks)] else [])"
| "repo_events us st DeleteArchiveRecipients =
     (if rs_globalPath st \<noteq> [] \<and> rs_archiveRecipients st \<noteq> [] then [EvArchiveRecipientsUpdated []] else [])"
| "repo_events us st (InitShadowBackup url) =
     (if rs_globalPath st \<noteq> [] \<and> rgxShadowBackupURL url \<and> rs_shadowBackupURL st = []
      then [EvShadowBackupRepoCreated url] else [])"
| "repo_events us st (MoveShadowBackup url) =
     (if rs_globalPath st \<noteq> [] \<and> rgxShadowBackupURL url \<and> rs_shadowBackupURL st \<notin> {[], url}
      then [EvShadowBackupRepoMoved url] else [])"
| "repo_events us st (UpdateShadowBackupRecipients ks) =
     (if ks \<noteq> [] \<and> distinct ks \<and> rs_globalPath st \<noteq> [] \<and> \<not> fpEqual (rs_shadowBackupRecipients st) ks
      then [EvShadowBackupRecipientsUpdated (Bytes ks)] else [])"
| "repo_events us st DeleteShadowBackupRecipients =
     (if rs_globalPath st \<noteq> [] \<and> rs_shadowBackupRecipients st \<noteq> []
      then [EvShadowBackupRecipientsUpdated []] else [])"
| "repo_events us st (ConfirmGit i) =
     (if rs_globalPath st \<noteq> [] \<and> rs_gitlabProjectId st = 0 then [EvGitRepoCreated i] else [])"
| "repo_events us st (EnableGitlab ns) =
     (case SplitN2 (TrimRight ns (CHR ''/'')) (CHR ''/'') of
        [host, n] \<Rightarrow> if rs_globalPath st \<noteq> [] \<and> rs_gitlabHost st = []
          then [EvEnableGitlabAccepted host (n @ ''/'' @ us (rs_id st))] else []
      | _ \<Rightarrow> [])"
| "repo_events us st (BeginFreeze w) =
     (if canBegin st StorageOnline StorageFreezeFailed then [EvFreezeRepoStarted2 w] else [])"
| "repo_events us st (CommitFreeze w) =
     (if canEnd st StorageFreezing w then [EvFreezeRepoCompleted2 w 0] else [])"
| "repo_events us st (AbortFreeze w code msg) =
     (if canEnd st StorageFreezing w \<and> statusOk code msg
      then [EvFreezeRepoCompleted2 w code, EvRepoErrorSet (''freeze failed: '' @ msg)] else [])"
| "repo_events us st (BeginUnfreeze w) =
     (if canBegin st StorageFrozen StorageUnfreezeFailed then [EvUnfreezeRepoStarted2 w] else [])"
| "repo_events us st (CommitUnfreeze w) =
     (if canEnd st StorageUnfreezing w then [EvUnfreezeRepoCompleted2 w 0] else [])"
| "repo_events us st (AbortUnfreeze w code msg) =
     (if canEnd st StorageUnfreezing w \<and> statusOk code msg
      then [EvUnfreezeRepoCompleted2 w code, EvRepoErrorSet (''freeze failed: '' @ msg)] else [])"
| "repo_events us st (BeginArchive w) =
     (if canBegin st StorageFrozen StorageArchiveFailed \<and> rs_archiveURL st \<noteq> []
      then [EvArchiveRepoStarted w] else [])"
| "repo_events us st (CommitArchive w tar) =
     (if canEnd st StorageArchiving w \<and> tar \<noteq> [] then [EvArchiveRepoCompleted w 0 tar] else [])"
| "repo_events us st (AbortArchive w code msg) =
     (if canEnd st StorageArchiving w \<and> statusOk code msg
      then [EvArchiveRepoCompleted w code [], EvRepoErrorSet (''archive failed: '' @ msg)] else [])"
| "repo_events us st (BeginUnarchive w) =
     (if canBegin st StorageArchived StorageUnarchiveFailed then [EvUnarchiveRepoStarted w] else [])"
| "repo_events us st (CommitUnarchive w) =
     (if canEnd st StorageUnarchiving w then [EvUnarchiveRepoCompleted w 0] else [])"
| "repo_events us st (AbortUnarchive w code msg) =
     (if canEnd st StorageUnarchiving w \<and> statusOk code msg
      then [EvUnarchiveRepoCompleted w code, EvRepoErrorSet (''unarchive failed: '' @ msg)] else [])"
| "repo_events us st (SetRepoError msg) =
     (if rs_globalPath st \<noteq> [] \<and> rs_errorMessage st = [] then [EvRepoErrorSet msg] else [])"
| "repo_events us st (ClearRepoError msg) =
     (if rs_globalPath st \<noteq> [] \<and> msg \<noteq> [] \<and> msg = rs_errorMessage st then [EvRepoErrorCleared] else [])"

text \<open>The messages of a list of events.\<close>

definition pbs_of :: "ulid_unmarshal \<Rightarrow> RepoPb list \<Rightarrow> RepoEvent list \<Rightarrow> bool" where
  "pbs_of ub pbs es \<longleftrightarrow> list_all2 (\<lambda>p e. FromPbValidate ub p = Ok e \<and> repo_pb_ok p) pbs es"

lemma pbs_of_simps [simp]:
  "pbs_of ub [] es \<longleftrightarrow> es = []"
  "pbs_of ub (p # ps) es \<longleftrightarrow> (\<exists>e es'. es = e # es' \<and> FromPbValidate ub p = Ok e \<and> repo_pb_ok p \<and> pbs_of ub ps es')"
  by (auto simp: pbs_of_def list_all2_Cons1)

text \<open>What a call returned: no events, or the messages of the specified events, chained after the state's version.\<close>

definition emitted :: "ulid_unmarshal \<Rightarrow> ulid_source \<Rightarrow> RepoState \<Rightarrow> RepoEvent list \<Rightarrow> RepoPb Event list \<Rightarrow> bool" where
  "emitted ub g st es evs \<longleftrightarrow>
     (es = [] \<and> evs = []) \<or> (\<exists>pbs. pbs_of ub pbs es \<and> newEvents g (rs_vid st) pbs = Inr evs)"

lemma emit_Ok: "emit g st pbs = Ok evs \<longleftrightarrow> newEvents g (rs_vid st) pbs = Inr evs"
  by (auto simp: emit_def split: sum.splits)

lemma emit_no_panic [simp]: "\<not> is_Panic (emit g st pbs)"
  by (auto simp: emit_def split: sum.splits)

lemma emittedI: "emit g st pbs = Ok evs \<Longrightarrow> pbs_of ub pbs es \<Longrightarrow> emitted ub g st es evs"
  by (auto simp: emitted_def emit_Ok)

lemma emitted_Nil [simp]: "emitted ub g st [] []"
  by (simp add: emitted_def)

lemmas parse_news = parse_New parse_New_ulid parse_New_Ok pb_ok_New pb_ok_New_Ok

lemma Bytes_simps [simp]: "distinct (Bytes ks) = distinct ks" "list_ex (\<lambda>k. length k \<noteq> 20) (Bytes ks) \<longleftrightarrow> False"
  by (auto simp: Bytes_def distinct_map inj_on_def list_ex_iff)

lemma emitted_obind:
  assumes "obind x f = Ok evs"
    and "\<And>p. x = Ok p \<Longrightarrow> f p = Ok evs \<Longrightarrow> emitted ub g st es evs"
  shows "emitted ub g st es evs"
  using assms by (auto simp: outcome_simps)

lemmas spec_defs = canBegin_def canEnd_def statusOk_def checkTell_def ConfigMaxStatusMessageLength_def

lemma repoTell_emits:
  assumes "ulid_binary ub" and "repoTell us g st c = Ok evs"
  shows "emitted ub g st (repo_events us st c) evs"
proof -
  note parse = parse_New parse_New_ulid [OF assms(1)] pb_ok_New
  note parseOk = parse_New_Ok [where ub = ub] pb_ok_New_Ok
  show ?thesis using assms(2)
    by (cases c; auto simp: repo_tell_defs spec_defs outcome_simps Let_def
          split: if_splits option.splits list.splits StorageTierCode.splits)
      (erule emittedI, simp add: parse parseOk; fail)+
qed

section \<open>Invariant\<close>

definition repo_fresh :: "RepoState \<Rightarrow> bool" where
  "repo_fresh st \<longleftrightarrow> st = (repoNewState (rs_id st))\<lparr>rs_vid := rs_vid st\<rparr>"

lemma repo_fresh_fields:
  "repo_fresh st \<longleftrightarrow>
     rs_registry st = [] \<and> rs_globalPath st = [] \<and> rs_fileHost st = [] \<and> rs_hostPath st = [] \<and> rs_shadowPath st = [] \<and>
     rs_archiveURL st = [] \<and> rs_archiveRecipients st = [] \<and> rs_tarttTarPath st = [] \<and> rs_shadowBackupURL st = [] \<and>
     rs_shadowBackupRecipients st = [] \<and> rs_gitlabHost st = [] \<and> rs_gitlabPath st = [] \<and> rs_gitlabProjectId st = 0 \<and>
     rs_gitToNogAddr st = [] \<and> rs_errorMessage st = [] \<and> rs_moveShadowWorkflow st = 0 \<and> rs_newShadowPath st = [] \<and>
     rs_moveRepoWorkflow st = 0 \<and> rs_newGlobalPath st = [] \<and> rs_storageTier st = StorageTierUnspecified \<and>
     rs_storageWorkflowId st = 0"
  by (cases st) (auto simp: repo_fresh_def repoNewState_def)

text \<open>
  The invariant: an uninitialized repo has nothing set; the storage tier is specified iff the shadow exists; a
  storage operation in progress has a workflow; a repo that is or was being archived has a tartt
  repo, and one whose data is archived has the path of the tar; a move needs a shadow; recipients are sorted and without duplicates.
\<close>

definition storage_ok :: "StorageTierCode \<Rightarrow> string \<Rightarrow> uuid \<Rightarrow> string \<Rightarrow> string \<Rightarrow> bool" where
  "storage_ok tier shadow w url tar \<longleftrightarrow>
     (shadow = [] \<longleftrightarrow> tier = StorageTierUnspecified) \<and>
     (busy tier \<longrightarrow> w \<noteq> uuidNil) \<and>
     (tier \<in> {StorageArchiving, StorageArchived, StorageArchiveFailed, StorageUnarchiving, StorageUnarchiveFailed}
        \<longrightarrow> url \<noteq> []) \<and>
     (tier \<in> {StorageArchived, StorageUnarchiving, StorageUnarchiveFailed} \<longrightarrow> tar \<noteq> [])"

definition moves_ok :: "bool \<Rightarrow> string \<Rightarrow> bool" where
  "moves_ok active shadow \<longleftrightarrow> (active \<longrightarrow> shadow \<noteq> [])"

definition keys_ok :: "Fingerprints \<Rightarrow> bool" where
  "keys_ok ks \<longleftrightarrow> sorted ks \<and> distinct ks"

definition repo_inv :: "RepoState \<Rightarrow> bool" where
  "repo_inv st \<longleftrightarrow>
     (rs_globalPath st = [] \<longrightarrow> repo_fresh st) \<and>
     storage_ok (rs_storageTier st) (rs_shadowPath st) (rs_storageWorkflowId st) (rs_archiveURL st) (rs_tarttTarPath st) \<and>
     moves_ok (HasActiveMoveRepo st \<or> HasActiveMoveShadow st) (rs_shadowPath st) \<and>
     keys_ok (rs_archiveRecipients st) \<and> keys_ok (rs_shadowBackupRecipients st)"

lemma keys_ok_sort [simp]: "distinct ks \<Longrightarrow> keys_ok (sort ks)"
  by (simp add: keys_ok_def)

lemma storage_ok_paths:
  "storage_ok t s w u p \<Longrightarrow> s \<noteq> [] \<Longrightarrow> s' \<noteq> [] \<Longrightarrow> storage_ok t s' w u p"
  "storage_ok t s w u p \<Longrightarrow> u' \<noteq> [] \<Longrightarrow> storage_ok t s w u' p"
  by (auto simp: storage_ok_def)

lemma moves_ok_path [simp]: "s \<noteq> [] \<Longrightarrow> moves_ok a s"
  by (simp add: moves_ok_def)

lemma HasActive_upd [simp]:
  "HasActiveMoveRepo (st\<lparr>rs_shadowPath := s\<rparr>) = HasActiveMoveRepo st"
  "HasActiveMoveShadow (st\<lparr>rs_shadowPath := s\<rparr>) = HasActiveMoveShadow st"
  by (simp_all add: HasActiveMoveRepo_def HasActiveMoveShadow_def)

text \<open>
  What the callers must ensure: paths are not empty, a storage operation begins with a workflow id, and a
  move is committed with the path that it was started with, on the same host.
\<close>

fun repo_pre :: "RepoState \<Rightarrow> RepoCmd \<Rightarrow> bool" where
  "repo_pre st (InitRepo c) \<longleftrightarrow> ci_GlobalPath c \<noteq> []"
| "repo_pre st (ConfirmShadow p) \<longleftrightarrow> p \<noteq> []"
| "repo_pre st (CommitMoveRepo c) \<longleftrightarrow> cc_ShadowPath c \<noteq> [] \<and>
     (HasActiveMoveRepo st \<and> cc_WorkflowId c = rs_moveRepoWorkflow st \<longrightarrow>
        cc_GlobalPath c = rs_newGlobalPath st \<and> cc_FileHost c = rs_fileHost st)"
| "repo_pre st (BeginFreeze w) \<longleftrightarrow> w \<noteq> uuidNil"
| "repo_pre st (BeginUnfreeze w) \<longleftrightarrow> w \<noteq> uuidNil"
| "repo_pre st (BeginArchive w) \<longleftrightarrow> w \<noteq> uuidNil"
| "repo_pre st (BeginUnarchive w) \<longleftrightarrow> w \<noteq> uuidNil"
| "repo_pre st _ \<longleftrightarrow> True"

text \<open>Applying events, without versions.\<close>

fun applyEvs :: "RepoState \<Rightarrow> RepoEvent list \<Rightarrow> (repo_error, RepoState) outcome" where
  "applyEvs st [] = Ok st"
| "applyEvs st (e # es) = obind (repoAdvanceEv st e) (\<lambda>st'. applyEvs st' es)"

lemma rgxTarttURL_Nil [simp]: "\<not> rgxTarttURL []"
  by (simp add: rgxTarttURL_def HasPrefix_def)

lemma Bytes_Nil [simp]: "Bytes [] = []" "ParseFingerprintsBytes [] = Inr []"
  by (simp_all add: Bytes_def ParseFingerprintsBytes_def)

text \<open>When an event keeps the invariant.\<close>

fun ev_ok :: "RepoState \<Rightarrow> RepoEvent \<Rightarrow> bool" where
  "ev_ok st (EvRepoInitStarted x) \<longleftrightarrow> ri_GlobalPath x \<noteq> []"
| "ev_ok st (EvShadowRepoCreated x) \<longleftrightarrow> rs_globalPath st \<noteq> [] \<and> si_ShadowPath x \<noteq> []"
| "ev_ok st (EvRepoMoved x) \<longleftrightarrow> rs_globalPath st \<noteq> [] \<and> rs_shadowPath st \<noteq> [] \<and> rs_newGlobalPath st \<noteq> [] \<and>
     md_GlobalPath x = rs_newGlobalPath st \<and> md_FileHost x = rs_fileHost st \<and> md_ShadowPath x \<noteq> []"
| "ev_ok st (EvRepoMoveStarted x) \<longleftrightarrow> rs_globalPath st \<noteq> [] \<and> rs_shadowPath st \<noteq> []"
| "ev_ok st (EvShadowRepoMoveStarted w p) \<longleftrightarrow> rs_globalPath st \<noteq> [] \<and> rs_shadowPath st \<noteq> []"
| "ev_ok st (EvShadowRepoMoved w i p) \<longleftrightarrow> rs_globalPath st \<noteq> [] \<and> rs_shadowPath st \<noteq> [] \<and> p \<noteq> []"
| "ev_ok st (EvTarttRepoCreated url) \<longleftrightarrow> rs_globalPath st \<noteq> [] \<and> url \<noteq> []"
| "ev_ok st (EvArchiveRecipientsUpdated ks) \<longleftrightarrow> rs_globalPath st \<noteq> [] \<and> (\<exists>fs. distinct fs \<and> ks = Bytes fs)"
| "ev_ok st (EvShadowBackupRecipientsUpdated ks) \<longleftrightarrow> rs_globalPath st \<noteq> [] \<and> (\<exists>fs. distinct fs \<and> ks = Bytes fs)"
| "ev_ok st (EvFreezeRepoStarted2 w) \<longleftrightarrow> rs_globalPath st \<noteq> [] \<and> rs_shadowPath st \<noteq> [] \<and> w \<noteq> 0"
| "ev_ok st (EvFreezeRepoCompleted2 w c) \<longleftrightarrow> rs_globalPath st \<noteq> [] \<and> rs_shadowPath st \<noteq> []"
| "ev_ok st (EvUnfreezeRepoStarted2 w) \<longleftrightarrow> rs_globalPath st \<noteq> [] \<and> rs_shadowPath st \<noteq> [] \<and> w \<noteq> 0"
| "ev_ok st (EvUnfreezeRepoCompleted2 w c) \<longleftrightarrow> rs_globalPath st \<noteq> [] \<and> rs_shadowPath st \<noteq> []"
| "ev_ok st (EvArchiveRepoStarted w) \<longleftrightarrow> rs_globalPath st \<noteq> [] \<and> rs_shadowPath st \<noteq> [] \<and> w \<noteq> 0 \<and> rs_archiveURL st \<noteq> []"
| "ev_ok st (EvArchiveRepoCompleted w c tar) \<longleftrightarrow> rs_globalPath st \<noteq> [] \<and> rs_shadowPath st \<noteq> [] \<and>
     rs_archiveURL st \<noteq> [] \<and> (c = 0 \<longrightarrow> tar \<noteq> [])"
| "ev_ok st (EvUnarchiveRepoStarted w) \<longleftrightarrow> rs_globalPath st \<noteq> [] \<and> rs_shadowPath st \<noteq> [] \<and> w \<noteq> 0 \<and>
     rs_archiveURL st \<noteq> [] \<and> rs_tarttTarPath st \<noteq> []"
| "ev_ok st (EvUnarchiveRepoCompleted w c) \<longleftrightarrow> rs_globalPath st \<noteq> [] \<and> rs_shadowPath st \<noteq> [] \<and>
     rs_archiveURL st \<noteq> [] \<and> rs_tarttTarPath st \<noteq> []"
| "ev_ok st _ \<longleftrightarrow> rs_globalPath st \<noteq> []"

lemma ev_ok_advance:
  assumes inv: "repo_inv st" and ok: "ev_ok st e"
  shows "\<exists>st'. repoAdvanceEv st e = Ok st' \<and> repo_inv st'"
proof -
  have s: "storage_ok (rs_storageTier st) (rs_shadowPath st) (rs_storageWorkflowId st) (rs_archiveURL st) (rs_tarttTarPath st)"
    and k: "keys_ok (rs_archiveRecipients st)" "keys_ok (rs_shadowBackupRecipients st)"
    and m: "moves_ok (HasActiveMoveRepo st \<or> HasActiveMoveShadow st) (rs_shadowPath st)"
    using inv by (simp_all add: repo_inv_def)
  note p = storage_ok_paths [OF s]
  show ?thesis
    using ok k s m by (cases e) (auto simp: repo_inv_def p, auto simp: storage_ok_def HasActiveMoveRepo_def HasActiveMoveShadow_def)
qed

lemma repo_inv_initialized:
  assumes "repo_inv st"
    and "rs_storageTier st \<noteq> StorageTierUnspecified \<or> rs_shadowPath st \<noteq> [] \<or> HasActiveMoveRepo st \<or> HasActiveMoveShadow st"
  shows "rs_globalPath st \<noteq> []"
  using assms by (auto simp: repo_inv_def repo_fresh_fields HasActiveMoveRepo_def HasActiveMoveShadow_def)

lemma repo_inv_storage:
  assumes "repo_inv st" and "rs_storageTier st \<noteq> StorageTierUnspecified"
  shows "rs_globalPath st \<noteq> []" and "rs_shadowPath st \<noteq> []"
    and "busy (rs_storageTier st) \<Longrightarrow> rs_storageWorkflowId st \<noteq> 0"
    and "rs_storageTier st \<in> {StorageArchiving, StorageArchived, StorageArchiveFailed, StorageUnarchiving, StorageUnarchiveFailed}
        \<Longrightarrow> rs_archiveURL st \<noteq> []"
    and "rs_storageTier st \<in> {StorageArchived, StorageUnarchiving, StorageUnarchiveFailed} \<Longrightarrow> rs_tarttTarPath st \<noteq> []"
  using assms repo_inv_initialized [of st] by (auto simp: repo_inv_def storage_ok_def)

fun evs_ok :: "RepoState \<Rightarrow> RepoEvent list \<Rightarrow> bool" where
  "evs_ok st [] \<longleftrightarrow> True"
| "evs_ok st (e # es) \<longleftrightarrow> ev_ok st e \<and> (\<forall>st'. repoAdvanceEv st e = Ok st' \<longrightarrow> evs_ok st' es)"

lemma evs_ok_apply:
  "repo_inv st \<Longrightarrow> evs_ok st es \<Longrightarrow> \<exists>st'. applyEvs st es = Ok st' \<and> repo_inv st'"
proof (induction es arbitrary: st)
  case (Cons e es)
  obtain st' where "repoAdvanceEv st e = Ok st'" "repo_inv st'" using ev_ok_advance Cons.prems by fastforce
  then show ?case using Cons by simp
qed simp

lemma repo_inv_moving: "repo_inv st \<Longrightarrow> HasActiveMoveRepo st \<or> HasActiveMoveShadow st \<Longrightarrow> rs_globalPath st \<noteq> []"
  using repo_inv_initialized by blast

lemma canBegin_inv:
  assumes "repo_inv st" and "canBegin st a b" and "a \<noteq> StorageTierUnspecified" and "b \<noteq> StorageTierUnspecified"
  shows "rs_globalPath st \<noteq> []" and "rs_shadowPath st \<noteq> []"
    and "a = StorageArchived \<Longrightarrow> b = StorageUnarchiveFailed \<Longrightarrow> rs_archiveURL st \<noteq> [] \<and> rs_tarttTarPath st \<noteq> []"
  using assms repo_inv_storage [OF assms(1)] by (auto simp: canBegin_def)

lemma canEnd_inv:
  assumes "repo_inv st" and "canEnd st a w" and "busy a"
  shows "rs_globalPath st \<noteq> []" and "rs_shadowPath st \<noteq> []" and "w \<noteq> 0"
    and "a \<in> {StorageArchiving, StorageUnarchiving} \<Longrightarrow> rs_archiveURL st \<noteq> []"
    and "a = StorageUnarchiving \<Longrightarrow> rs_tarttTarPath st \<noteq> []"
proof -
  have "rs_storageTier st \<noteq> StorageTierUnspecified" using assms(2,3) by (auto simp: canEnd_def)
  note i = repo_inv_storage [OF assms(1) this]
  show "rs_globalPath st \<noteq> []" "rs_shadowPath st \<noteq> []" "w \<noteq> 0"
    "a \<in> {StorageArchiving, StorageUnarchiving} \<Longrightarrow> rs_archiveURL st \<noteq> []"
    "a = StorageUnarchiving \<Longrightarrow> rs_tarttTarPath st \<noteq> []"
    using i assms(2,3) by (auto simp: canEnd_def)
qed

lemma repo_inv_paths:
  assumes "repo_inv st"
  shows "rs_shadowPath st \<noteq> [] \<Longrightarrow> rs_globalPath st \<noteq> []"
    and "HasActiveMoveRepo st \<Longrightarrow> rs_globalPath st \<noteq> [] \<and> rs_newGlobalPath st \<noteq> [] \<and> rs_shadowPath st \<noteq> []"
    and "HasActiveMoveShadow st \<Longrightarrow> rs_globalPath st \<noteq> [] \<and> rs_newShadowPath st \<noteq> [] \<and> rs_shadowPath st \<noteq> []"
  using repo_inv_initialized [OF assms] assms by (auto simp: repo_inv_def moves_ok_def HasActiveMoveRepo_def HasActiveMoveShadow_def)

lemma ex_Bytes_Nil: "\<exists>fs :: Fingerprints. distinct fs \<and> [] = Bytes fs"
  by (rule exI [of _ "[]"]) simp

lemma repo_events_ok:
  assumes inv: "repo_inv st" and pre: "repo_pre st c"
  shows "evs_ok st (repo_events us st c)"
  using pre
  by (cases c; auto simp: ex_Bytes_Nil statusOk_def dest: canBegin_inv [OF inv] canEnd_inv [OF inv] repo_inv_paths [OF inv]
      split: option.splits list.splits)

lemma New_no_panic:
  "distinct ks \<Longrightarrow> \<not> is_Panic (NewArchiveRecipientsUpdated (Bytes ks))"
  "distinct ks \<Longrightarrow> \<not> is_Panic (NewShadowBackupRecipientsUpdated (Bytes ks))"
  "\<not> is_Panic (NewArchiveRecipientsUpdated [])" "\<not> is_Panic (NewShadowBackupRecipientsUpdated [])"
  "w \<noteq> 0 \<Longrightarrow> \<not> is_Panic (NewFreezeRepoStarted2 w)" "w \<noteq> 0 \<Longrightarrow> \<not> is_Panic (NewFreezeRepoCompleted2Ok w)"
  "w \<noteq> 0 \<Longrightarrow> code \<noteq> 0 \<Longrightarrow> \<not> is_Panic (NewFreezeRepoCompleted2Error w code)"
  "w \<noteq> 0 \<Longrightarrow> \<not> is_Panic (NewUnfreezeRepoStarted2 w)" "w \<noteq> 0 \<Longrightarrow> \<not> is_Panic (NewUnfreezeRepoCompleted2Ok w)"
  "w \<noteq> 0 \<Longrightarrow> code \<noteq> 0 \<Longrightarrow> \<not> is_Panic (NewUnfreezeRepoCompleted2Error w code)"
  "w \<noteq> 0 \<Longrightarrow> \<not> is_Panic (NewArchiveRepoStarted w)"
  "w \<noteq> 0 \<Longrightarrow> tar \<noteq> [] \<Longrightarrow> \<not> is_Panic (NewArchiveRepoCompletedOk w tar)"
  "w \<noteq> 0 \<Longrightarrow> code \<noteq> 0 \<Longrightarrow> \<not> is_Panic (NewArchiveRepoCompletedError w code)"
  "w \<noteq> 0 \<Longrightarrow> \<not> is_Panic (NewUnarchiveRepoStarted w)" "w \<noteq> 0 \<Longrightarrow> \<not> is_Panic (NewUnarchiveRepoCompletedOk w)"
  "w \<noteq> 0 \<Longrightarrow> code \<noteq> 0 \<Longrightarrow> \<not> is_Panic (NewUnarchiveRepoCompletedError w code)"
  using Bytes_simps [of "[]"] Bytes_simps [of ks] by (simp_all add: repo_pb_defs)

lemma repoTell_no_panic:
  assumes inv: "repo_inv st" and pre: "repo_pre st c"
  shows "\<not> is_Panic (repoTell us g st c)"
proof -
  have w: "rs_storageTier st = t \<Longrightarrow> busy t \<Longrightarrow> rs_storageWorkflowId st \<noteq> 0" for t
    using inv by (auto simp: repo_inv_def storage_ok_def)
  show ?thesis using pre
    by (cases c; auto simp: repo_tell_defs checkTell_def outcome_simps New_no_panic Let_def dest: w
        split: option.splits list.splits StorageTierCode.splits)
qed

text \<open>Advancing by the events of a call.\<close>

lemma repoAdvanceEv_vid:
  "repoAdvanceEv (st\<lparr>rs_vid := v\<rparr>) e = omap (\<lambda>s. s\<lparr>rs_vid := v\<rparr>) (repoAdvanceEv st e)"
  by (cases e) (auto split: sum.splits)

lemma repoAdvanceEv_id: "repoAdvanceEv st e = Ok st' \<Longrightarrow> rs_id st' = rs_id st"
  by (cases e) (auto split: sum.splits if_splits)

lemma applyEvs_vid:
  "applyEvs (st\<lparr>rs_vid := v\<rparr>) es = omap (\<lambda>s. s\<lparr>rs_vid := v\<rparr>) (applyEvs st es)"
proof (induction es arbitrary: st)
  case (Cons e es)
  then show ?case by (cases "repoAdvanceEv st e") (simp_all add: repoAdvanceEv_vid)
qed simp

lemma advanceAll_newEvents:
  assumes "pbs_of ub pbs es" and "newEventsLoop repoSetPb g n v pbs = Inr evs"
  shows "advanceAll (repoBehavior ub us) (repoEventOps pm pu ub) st evs =
    omap (\<lambda>s. s\<lparr>rs_vid := lastId (repoEventOps pm pu ub) (rs_vid s) evs\<rparr>) (applyEvs st es)"
  using assms
proof (induction pbs arbitrary: n v st es evs)
  case Nil
  then show ?case by simp
next
  case (Cons p ps)
  obtain e es' where es: "es = e # es'" "FromPbValidate ub p = Ok e" "pbs_of ub ps es'" using Cons.prems(1) by auto
  obtain i evs' where evs: "evs = \<lparr>ev_id = i, ev_parent = v, ev_pb = repoSetPb i v p\<rparr> # evs'"
    "newEventsLoop repoSetPb g (Suc n) i ps = Inr evs'"
    using Cons.prems(2) by (auto split: sum.splits)
  have f: "FromPbMust ub (repoSetPb i v p) = (Ok e :: (repo_error, RepoEvent) outcome)" using es(2) by (simp add: FromPbMust_def)
  show ?case
  proof (cases "repoAdvanceEv st e :: (repo_error, RepoState) outcome")
    case (Ok st1)
    have "lastId (repoEventOps pm pu ub) x (ev # evs') = lastId (repoEventOps pm pu ub) (ev_id ev) evs'" for x ev
      by (simp add: repoEventOps_def)
    then show ?thesis using Cons.IH [OF es(3) evs(2), of "st1\<lparr>rs_vid := i\<rparr>"] Ok f
      by (cases "applyEvs st1 es'")
        (simp_all add: es(1) evs(1) repoBehavior_def repoEventOps_def repoAdvance_def applyEvs_vid)
  qed (use f in \<open>simp_all add: es(1) evs(1) repoBehavior_def repoAdvance_def\<close>)
qed

lemma repo_inv_vid [simp]: "repo_inv (st\<lparr>rs_vid := v\<rparr>) \<longleftrightarrow> repo_inv st"
  by (simp add: repo_inv_def repo_fresh_fields HasActiveMoveRepo_def HasActiveMoveShadow_def)

lemma repo_inv_new: "repo_inv (repoNewState i)"
  by (simp add: repo_inv_def repo_fresh_fields repoNewState_def storage_ok_def moves_ok_def keys_ok_def
      HasActiveMoveRepo_def HasActiveMoveShadow_def)

text \<open>What a successful call did: its events are the specified ones, and applying them gives the next state.\<close>

lemma repoTell_advances:
  assumes ub: "ulid_binary ub" and inv: "repo_inv st" and pre: "repo_pre st c" and ok: "repoTell us g st c = Ok evs"
  shows "\<exists>st' v. advanceAll (repoBehavior ub us) (repoEventOps pm pu ub) st evs = Ok (st'\<lparr>rs_vid := v\<rparr>) \<and>
    applyEvs st (if evs = [] then [] else repo_events us st c) = Ok st' \<and> repo_inv st'"
proof (cases "evs = []")
  case True
  then show ?thesis using inv by (intro exI [of _ st] exI [of _ "rs_vid st"]) simp
next
  case False
  then obtain pbs where pbs: "pbs_of ub pbs (repo_events us st c)" "newEvents g (rs_vid st) pbs = Inr evs"
    using repoTell_emits [OF ub ok] by (auto simp: emitted_def)
  obtain st' where "applyEvs st (repo_events us st c) = Ok st'" "repo_inv st'"
    using evs_ok_apply [OF inv repo_events_ok [OF inv pre]] by blast
  then show ?thesis using advanceAll_newEvents [OF pbs(1) pbs(2) [unfolded newEvents_def]] False by auto
qed

lemma repoTell_chained:
  assumes "ulid_binary ub" and "repoTell us g st c = Ok evs"
  shows "chained (repoEventOps pm pu ub) (rs_vid st) evs"
  using repoTell_emits [OF assms] newEventsLoop_chained [where ops = "repoEventOps pm pu ub" and setPb = repoSetPb]
  by (auto simp: emitted_def newEvents_def repoEventOps_def)

lemma repo_event_ops: "event_ops (repoEventOps pm pu ub)"
  by unfold_locales (simp_all add: repoEventOps_def repoWithId_def repoWithParent_def)

lemma repo_aggregate:
  assumes "ulid_binary ub"
  shows "aggregate (repoBehavior ub us) (repoEventOps pm pu ub) repo_inv repo_pre"
proof unfold_locales
  fix st st' ev assume "Advance (repoBehavior ub us) st ev = Ok st'"
  then show "StId (repoBehavior ub us) st' = StId (repoBehavior ub us) st"
    by (auto simp: repoBehavior_def repoAdvance_def outcome_simps dest: repoAdvanceEv_id)
next
  fix st c g evs
  assume "repo_inv st" "repo_pre st c" "Tell (repoBehavior ub us) g st c = Ok evs"
  then show "\<exists>s'. advanceAll (repoBehavior ub us) (repoEventOps pm pu ub) st evs = Ok s' \<and> repo_inv s'"
    using repoTell_advances [OF assms] by (fastforce simp: repoBehavior_def)
next
  fix st c g assume "repo_inv st" "repo_pre st c"
  then show "\<not> is_Panic (Tell (repoBehavior ub us) g st c)"
    using repoTell_no_panic by (simp add: repoBehavior_def)
next
  fix st c g evs assume "Tell (repoBehavior ub us) g st c = Ok evs"
  then show "chained (repoEventOps pm pu ub) (StVid (repoBehavior ub us) st) evs"
    using repoTell_chained [OF assms] by (simp add: repoBehavior_def)
qed (simp_all add: repoBehavior_def repo_inv_new, simp add: repoNewState_def)

end
