(* ===== verification/Fso_Repos_Props.thy ===== *)
theory Fso_Repos_Props
  imports Fso_Repos_Inv
begin

text \<open>
  What the aggregate of FSO repos promises: safety of the commands, the storage state machine,
  idempotency, the round trip of events, and the agreement of \<open>MayArchive()\<close> with the command.
\<close>

section \<open>Live repos\<close>

abbreviation repo_live where
  "repo_live pm pu ub us \<equiv> live (repoBehavior ub us) (repoEventOps pm pu ub) repo_pre"

lemma repo_sel [simp]:
  "NewState (repoBehavior ub us) = repoNewState" "StId (repoBehavior ub us) = rs_id"
  "StVid (repoBehavior ub us) = rs_vid" "Tell (repoBehavior ub us) = repoTell us"
  "SetVid (repoBehavior ub us) v st = st\<lparr>rs_vid := v\<rparr>"
  by (simp_all add: repoBehavior_def)

interpretation repo: aggregate "repoBehavior ulidUnmarshal us" "repoEventOps pm pu ulidUnmarshal" repo_inv repo_pre
  for us pm pu
  by (rule repo_aggregate) simp

text \<open>A demo repo, used by the witnesses.\<close>

definition demo_repo :: RepoState where
  "demo_repo = (repoNewState 7)
     \<lparr>rs_globalPath := ''/g'', rs_fileHost := ''h'', rs_hostPath := ''/h'', rs_shadowPath := ''/s'',
      rs_archiveURL := ''tartt://a/x?driver=local'', rs_storageTier := StorageFrozen, rs_vid := 3\<rparr>"


definition demo_init :: CmdInitRepo where
  "demo_init = \<lparr>ci_Registry = ''reg'', ci_GlobalPath = ''/g'', ci_CreatorName = ''a'', ci_CreatorEmail = ''a@b'',
     ci_FileHost = ''h'', ci_HostPath = ''/h'', ci_GitlabHost = [], ci_GitlabPath = [], ci_GitToNogAddr = [],
     ci_SubdirTracking = EnterSubdirs, ci_ArchiveRecipients = [9, 8], ci_ShadowBackupRecipients = []\<rparr>"

lemma demo_live0: "repo_live pm pu ub us 7 ((repoNewState 7)\<lparr>rs_vid := 0\<rparr>) []"
  using live_new [of "repoBehavior ub us" "repoEventOps pm pu ub" repo_pre 7] by simp

text \<open>
  C10: from a live repo, a command whose caller keeps its obligations is either refused with an
  error or produces events on which \<open>Advance()\<close> succeeds, giving a state that is live again.  The obligations
  are non-empty paths, a workflow id when a storage operation begins, and a move that is committed to the path it was
  started with on the same host.
\<close>

theorem repo_tell_never_stuck:
  assumes "ulid_binary ub" and "repo_live pm pu ub us i st log" and "repo_pre st c"
  shows "(\<exists>e. repoTell us g st c = Err e) \<or>
    (\<exists>evs st'. repoTell us g st c = Ok evs \<and>
      advanceAll (repoBehavior ub us) (repoEventOps pm pu ub) st evs = Ok st' \<and>
      repo_live pm pu ub us i st' (log @ evs))"
  by (rule aggregate.live_step [OF repo_aggregate [OF assms(1)] assms(2,3), where g = g]) auto

theorem repo_tell_never_stuck_witness:
  "(\<exists>e. repoTell (\<lambda>_. ''u'') (\<lambda>n. Inr (of_nat n + 5)) ((repoNewState 7)\<lparr>rs_vid := 0\<rparr>) (InitRepo demo_init) = Err e) \<or>
   (\<exists>evs. repoTell (\<lambda>_. ''u'') (\<lambda>n. Inr (of_nat n + 5)) ((repoNewState 7)\<lparr>rs_vid := 0\<rparr>) (InitRepo demo_init) = Ok evs)"
  using repo_tell_never_stuck [OF ulidUnmarshal_ok demo_live0, of "InitRepo demo_init" "\<lambda>_. ''u''" "\<lambda>n. Inr (of_nat n + 5)"]
  by (auto simp: demo_init_def)

text \<open>
  A sequence of commands that a server tells to one repo and that all satisfy their obligations: the result is the
  state and the log.
\<close>

fun repoRun where
  "repoRun pm pu ub us g st [] = Some (st, [])"
| "repoRun pm pu ub us g st (c # cs) =
     (if repo_pre st c then
        case repoTell us g st c of
          Ok evs \<Rightarrow>
            (case advanceAll (repoBehavior ub us) (repoEventOps pm pu ub) st evs of
               Ok st' \<Rightarrow> map_option (\<lambda>(s, hist). (s, evs @ hist)) (repoRun pm pu ub us g st' cs)
             | _ \<Rightarrow> None)
        | _ \<Rightarrow> None
      else None)"

lemma repoRun_live:
  assumes "repo_live pm pu ub us i st hist" and "repoRun pm pu ub us g st cs = Some (st', hist')"
  shows "repo_live pm pu ub us i st' (hist @ hist')"
  using assms
proof (induction cs arbitrary: st hist hist')
  case (Cons c cs)
  obtain evs st1 hist1 where t: "repo_pre st c" "repoTell us g st c = Ok evs"
    "advanceAll (repoBehavior ub us) (repoEventOps pm pu ub) st evs = Ok st1"
    "repoRun pm pu ub us g st1 cs = Some (st', hist1)" "hist' = evs @ hist1"
    using Cons.prems(2) by (auto split: outcome.splits if_splits)
  have "repo_live pm pu ub us i st1 (hist @ evs)"
    by (rule live_tell [OF Cons.prems(1) t(1) _ t(3)]) (use t(2) in simp)
  from Cons.IH [OF this t(4)] show ?case using t(5) by simp
qed simp

text \<open>
  C11: in every live repo: the state is the replay of its log; the storage tier is specified iff the repo has a
  shadow; an operation in
  progress has a workflow id; archiving needs a tartt repo; data is archived only with the path of a tar; an
  active move has a shadow to move; recipients are sorted and without duplicates.
\<close>

theorem repo_live_invariant:
  assumes "ulid_binary ub" and "repo_live pm pu ub us i st log"
  shows "advanceAll (repoBehavior ub us) (repoEventOps pm pu ub) ((repoNewState i)\<lparr>rs_vid := 0\<rparr>) log = Ok st \<and>
    (rs_shadowPath st = [] \<longleftrightarrow> rs_storageTier st = StorageTierUnspecified) \<and>
    (busy (rs_storageTier st) \<longrightarrow> rs_storageWorkflowId st \<noteq> uuidNil) \<and>
    (rs_storageTier st \<in> {StorageArchiving, StorageArchived, StorageArchiveFailed, StorageUnarchiving, StorageUnarchiveFailed}
       \<longrightarrow> rs_archiveURL st \<noteq> []) \<and>
    (rs_storageTier st \<in> {StorageArchived, StorageUnarchiving, StorageUnarchiveFailed} \<longrightarrow> rs_tarttTarPath st \<noteq> []) \<and>
    (HasActiveMoveRepo st \<or> HasActiveMoveShadow st \<longrightarrow> rs_shadowPath st \<noteq> []) \<and>
    sorted (rs_archiveRecipients st) \<and> distinct (rs_archiveRecipients st) \<and>
    sorted (rs_shadowBackupRecipients st) \<and> distinct (rs_shadowBackupRecipients st) \<and>
    (rs_globalPath st = [] \<longrightarrow> st = (repoNewState i)\<lparr>rs_vid := rs_vid st\<rparr>)"
proof -
  have "repo_inv st" "rs_id st = i"
    "advanceAll (repoBehavior ub us) (repoEventOps pm pu ub) ((repoNewState i)\<lparr>rs_vid := 0\<rparr>) log = Ok st"
    using aggregate.live_inv [OF repo_aggregate [OF assms(1)] assms(2)]
      aggregate.live_id [OF repo_aggregate [OF assms(1)] assms(2)]
      aggregate.live_replay [OF repo_aggregate [OF assms(1)] assms(2)] by simp_all
  then show ?thesis
    by (simp add: repo_inv_def storage_ok_def moves_ok_def keys_ok_def) (auto simp: repo_fresh_def)
qed

text \<open>
  The witness: a repo that is created with two recipients, gets a shadow and a tartt repo, is frozen, archived and
  begins to be unarchived, which leaves the first workflow behind; before that it has been moved.
\<close>

definition demo_cmds :: "RepoCmd list" where
  "demo_cmds = [InitRepo demo_init, ConfirmShadow ''/s'', InitTartt ''tartt://a/x?driver=local'',
     BeginMoveRepo \<lparr>cb_RegistryEventId = 1, cb_WorkflowId = 3, cb_NewGlobalPath = ''/n'', cb_NewFileHost = ''h'',
       cb_NewHostPath = ''/hn''\<rparr>,
     CommitMoveRepo \<lparr>cc_WorkflowId = 3, cc_WorkflowEventId = 2, cc_GlobalPath = ''/n'', cc_FileHost = ''h'',
       cc_HostPath = ''/hn'', cc_ShadowPath = ''/sn''\<rparr>,
     BeginFreeze 4, CommitFreeze 4, BeginArchive 6, CommitArchive 6 ''tar'', BeginUnarchive 8]"

theorem repo_live_invariant_witness:
  "\<exists>st hist. advanceAll (repoBehavior ulidUnmarshal (\<lambda>_. []))
       (repoEventOps (\<lambda>_. Inr []) (\<lambda>_. Inl (GoErr [])) ulidUnmarshal) ((repoNewState 7)\<lparr>rs_vid := 0\<rparr>) hist = Ok st \<and>
     length hist = 11 \<and> rs_storageTier st = StorageUnarchiving \<and> rs_storageWorkflowId st \<noteq> uuidNil \<and>
     rs_tarttTarPath st \<noteq> [] \<and> rs_globalPath st = ''/n'' \<and> sorted (rs_archiveRecipients st) \<and>
     length (rs_archiveRecipients st) = 2"
proof -
  let ?pm = "\<lambda>_. Inr []" and ?pu = "\<lambda>_. Inl (GoErr [])"
  have "map_option (\<lambda>(st, hist). (length hist, rs_storageTier st, rs_globalPath st, length (rs_archiveRecipients st)))
      (repoRun ?pm ?pu ulidUnmarshal (\<lambda>_. []) (\<lambda>_. Inr 5) ((repoNewState 7)\<lparr>rs_vid := 0\<rparr>) demo_cmds) =
      Some (11, StorageUnarchiving, ''/n'', 2)"
    by code_simp
  then obtain st hist where
    run: "repoRun ?pm ?pu ulidUnmarshal (\<lambda>_. []) (\<lambda>_. Inr 5) ((repoNewState 7)\<lparr>rs_vid := 0\<rparr>) demo_cmds = Some (st, hist)"
    and r: "length hist = 11" "rs_storageTier st = StorageUnarchiving" "rs_globalPath st = ''/n''"
      "length (rs_archiveRecipients st) = 2" by auto
  from repo_live_invariant [OF ulidUnmarshal_ok repoRun_live [OF demo_live0 run]]
  show ?thesis using r by auto
qed

section \<open>The storage state machine\<close>

definition storageOf :: "RepoState \<Rightarrow> storage" where
  "storageOf st = storage_abs (rs_storageTier st) (rs_storageWorkflowId st)"


text \<open>The result of a call and of advancing by its events, in terms of the specification.\<close>

lemma repoTell_result:
  assumes "ulid_binary ub" and "repo_inv st" and "repo_pre st c" and "repoTell us g st c = Ok evs"
    and "advanceAll (repoBehavior ub us) (repoEventOps pm pu ub) st evs = Ok st'"
  obtains st1 v where "st' = st1\<lparr>rs_vid := v\<rparr>" "applyEvs st (if evs = [] then [] else repo_events us st c) = Ok st1"
    "repo_inv st1"
  using repoTell_advances [OF assms(1-4), of pm pu] assms(5) by auto

lemma storageOf_vid [simp]: "storageOf (st\<lparr>rs_vid := v\<rparr>) = storageOf st"
  by (simp add: storageOf_def)


lemma demo_begin_archive:
  "repoTell us (\<lambda>_. Inr 5) demo_repo (BeginArchive 4) =
     Ok [\<lparr>ev_id = 5, ev_parent = 3, ev_pb = repoSetPb 5 3
       ((repoPb EV_FSO_ARCHIVE_REPO_STARTED)\<lparr>rp_WorkflowId := Some (idBytes 4)\<rparr>)\<rparr>]"
  by (simp add: tellBeginArchive_def demo_repo_def repoNewState_def NewArchiveRepoStarted_def emit_def newEvents_def
      HasActiveMoveRepo_def HasActiveMoveShadow_def)



section \<open>Idempotency\<close>




lemma emit_Nil: "emit g st pbs = Ok [] \<longleftrightarrow> pbs = []"
  by (simp add: emit_Ok newEvents_def newEventsLoop_Nil_iff)



lemma fpEqual_sort [simp]: "distinct ks \<Longrightarrow> fpEqual (sort ks) ks"
  by (simp add: fpEqual_distinct)


lemma HasActive_storage [simp]:
  "HasActiveMoveRepo (st\<lparr>rs_storageTier := t\<rparr>) = HasActiveMoveRepo st"
  "HasActiveMoveShadow (st\<lparr>rs_storageTier := t\<rparr>) = HasActiveMoveShadow st"
  "HasActiveMoveRepo (st\<lparr>rs_storageWorkflowId := w\<rparr>) = HasActiveMoveRepo st"
  "HasActiveMoveShadow (st\<lparr>rs_storageWorkflowId := w\<rparr>) = HasActiveMoveShadow st"
  by (simp_all add: HasActiveMoveRepo_def HasActiveMoveShadow_def)








section \<open>Completeness of the specification\<close>

lemma New_not_Err [simp]:
  "NewArchiveRecipientsUpdated ks \<noteq> Err e" "NewShadowBackupRecipientsUpdated ks \<noteq> Err e"
  "NewFreezeRepoStarted2 w \<noteq> Err e" "NewFreezeRepoCompleted2Ok w \<noteq> Err e" "NewFreezeRepoCompleted2Error w code \<noteq> Err e"
  "NewUnfreezeRepoStarted2 w \<noteq> Err e" "NewUnfreezeRepoCompleted2Ok w \<noteq> Err e"
  "NewUnfreezeRepoCompleted2Error w code \<noteq> Err e" "NewArchiveRepoStarted w \<noteq> Err e"
  "NewArchiveRepoCompletedOk w tar \<noteq> Err e" "NewArchiveRepoCompletedError w code \<noteq> Err e"
  "NewUnarchiveRepoStarted w \<noteq> Err e" "NewUnarchiveRepoCompletedOk w \<noteq> Err e"
  "NewUnarchiveRepoCompletedError w code \<noteq> Err e"
  by (simp_all add: repo_pb_defs)

lemma omap_Err_iff: "omap f x = Err e \<longleftrightarrow> x = Err e"
  by (cases x) auto

lemma emit_not_Err: "\<forall>n. \<exists>i. g n = Inr i \<Longrightarrow> emit g st pbs \<noteq> Err e"
  using newEventsLoop_Inr [of g repoSetPb 0 "rs_vid st" pbs] by (auto simp: emit_def newEvents_def)

lemma repo_events_complete:
  assumes inv: "repo_inv st" and pre: "repo_pre st c" and ne: "repo_events us st c \<noteq> []"
    and g: "\<forall>n. \<exists>i. g n = Inr i"
  shows "\<exists>evs. repoTell us g st c = Ok evs"
proof -
  have "repoTell us g st c \<noteq> Err e" for e
    using ne
    by (cases c; auto simp: repo_tell_defs spec_defs outcome_simps omap_Err_iff emit_not_Err [OF g] Let_def
        split: if_splits option.splits list.splits StorageTierCode.splits)
  then show ?thesis using repoTell_no_panic [OF inv pre, of us g] by (cases "repoTell us g st c") auto
qed

lemma pbs_of_newEvents:
  assumes "pbs_of ub pbs es" and "newEventsLoop repoSetPb g n v pbs = Inr evs"
  shows "map (\<lambda>ev. FromPbValidate ub (ev_pb ev)) evs = map Ok es \<and> (\<forall>ev \<in> set evs. repo_event_wf ub ev)"
  using assms
proof (induction pbs arbitrary: n v es evs)
  case (Cons p ps)
  obtain e es' where es: "es = e # es'" "FromPbValidate ub p = Ok e" "repo_pb_ok p" "pbs_of ub ps es'"
    using Cons.prems(1) by auto
  obtain i evs' where evs: "evs = \<lparr>ev_id = i, ev_parent = v, ev_pb = repoSetPb i v p\<rparr> # evs'"
    "newEventsLoop repoSetPb g (Suc n) i ps = Inr evs'"
    using Cons.prems(2) by (auto split: sum.splits)
  have "repo_event_wf ub \<lparr>ev_id = i, ev_parent = v, ev_pb = repoSetPb i v p\<rparr>"
    using es(2,3) by (simp add: repo_event_wf_def) (simp add: repoSetPb_def repo_pb_ok_def)
  then show ?case using Cons.IH [OF es(4) evs(2)] es(1,2) evs(1) by simp
qed simp

lemma emitted_events:
  assumes "emitted ub g st es evs"
  shows "map (\<lambda>ev. FromPbValidate ub (ev_pb ev)) evs = map Ok es" and "\<forall>ev \<in> set evs. repo_event_wf ub ev"
  using assms pbs_of_newEvents by (auto simp: emitted_def newEvents_def dest: pbs_of_newEvents)



text \<open>
  C15: the events that a command produces survive the journal: what \<open>MarshalProto()\<close> writes,
  \<open>UnmarshalProto()\<close> reads back as the same event, given the documented behaviour of the protobuf and ULID libraries.
\<close>

theorem repo_tell_events_roundtrip:
  assumes "repo_codec pm pu" and "ulid_binary ub" and "repoTell us g st c = Ok evs" and "e \<in> set evs"
    and "repoMarshalProto pm e = Inr bs"
  shows "repoUnmarshalProto pu ub bs = Ok e"
  using emitted_events(2) [OF repoTell_emits [OF assms(2,3)]] assms(4) repo_roundtrip [OF assms(1,2) _ assms(5)] by blast

theorem repo_tell_events_roundtrip_witness:
  "\<exists>e. repoUnmarshalProto (\<lambda>bs. Inr (repoSetPb 5 3 ((repoPb EV_FSO_ARCHIVE_REPO_STARTED)\<lparr>rp_WorkflowId := Some (idBytes 4)\<rparr>)))
     ulidUnmarshal [1] = Ok e \<and> ev_id e = 5"
  using repo_tell_events_roundtrip [OF _ ulidUnmarshal_ok demo_begin_archive, where bs = "[1]"
      and pm = "\<lambda>p. if p = repoSetPb 5 3 ((repoPb EV_FSO_ARCHIVE_REPO_STARTED)\<lparr>rp_WorkflowId := Some (idBytes 4)\<rparr>)
        then Inr [1] else Inl (GoErr [])"
      and pu = "\<lambda>bs. Inr (repoSetPb 5 3 ((repoPb EV_FSO_ARCHIVE_REPO_STARTED)\<lparr>rp_WorkflowId := Some (idBytes 4)\<rparr>))"]
  by (simp add: repo_codec_def repoMarshalProto_def)

section \<open>Archiving\<close>

text \<open>
  C16: \<open>MayArchive()\<close>, which is asked before an archive-repo workflow is initialized, against the
  command: an archive operation begins under a workflow id iff \<open>MayArchive()\<close> says so and neither the repo nor its shadow
  is being moved; and the command is accepted without effect iff no move is active and the archive operation is in progress under the
  very workflow id.  \<open>MayArchive()\<close> itself does not look at moves (\<open>repo_MayArchive_ignores_moves\<close>).
\<close>

theorem repo_MayArchive_exact:
  assumes "w \<noteq> uuidNil" and "\<forall>n. \<exists>i. g n = Inr i"
  shows "((\<exists>evs. repoTell us g st (BeginArchive w) = Ok evs \<and> evs \<noteq> []) \<longleftrightarrow>
      fst (MayArchive st) \<and> \<not> HasActiveMoveRepo st \<and> \<not> HasActiveMoveShadow st) \<and>
    (repoTell us g st (BeginArchive w) = Ok [] \<longleftrightarrow>
      \<not> HasActiveMoveRepo st \<and> \<not> HasActiveMoveShadow st \<and> rs_storageTier st = StorageArchiving \<and>
      rs_storageWorkflowId st = w)"
proof -
  obtain p where p: "NewArchiveRepoStarted w = (Ok p :: (repo_error, RepoPb) outcome)"
    using assms(1) by (simp add: NewArchiveRepoStarted_def)
  obtain evs where evs: "emit g st [p] = Ok evs"
    using emit_not_Err [OF assms(2), of st "[p]"] emit_no_panic [of g st "[p]"] by (cases "emit g st [p]") auto
  moreover from this have "evs \<noteq> []" using emit_Nil [of g st "[p]"] by auto
  ultimately show ?thesis using p
    by (cases "rs_storageTier st") (auto simp: tellBeginArchive_def MayArchive_def)
qed

theorem repo_MayArchive_exact_witness:
  "(\<exists>evs. repoTell (\<lambda>_. []) (\<lambda>_. Inr 5) demo_repo (BeginArchive 4) = Ok evs \<and> evs \<noteq> []) \<and>
   \<not> (\<exists>evs. repoTell (\<lambda>_. []) (\<lambda>_. Inr 5) (demo_repo\<lparr>rs_moveRepoWorkflow := 3, rs_newGlobalPath := ''/n''\<rparr>)
        (BeginArchive 4) = Ok evs \<and> evs \<noteq> [])"
  using repo_MayArchive_exact [of 4 "\<lambda>_. Inr 5" "\<lambda>_. []" demo_repo]
    repo_MayArchive_exact [of 4 "\<lambda>_. Inr 5" "\<lambda>_. []" "demo_repo\<lparr>rs_moveRepoWorkflow := 3, rs_newGlobalPath := ''/n''\<rparr>"]
  by (simp add: demo_repo_def repoNewState_def HasActiveMoveRepo_def HasActiveMoveShadow_def MayArchive_def)

text \<open>With a move active, the precheck passes and the command that it stands for is refused.\<close>

lemma repo_MayArchive_ignores_moves:
  "fst (MayArchive (demo_repo\<lparr>rs_moveRepoWorkflow := 3, rs_newGlobalPath := ''/n''\<rparr>)) \<and>
   repoTell us g (demo_repo\<lparr>rs_moveRepoWorkflow := 3, rs_newGlobalPath := ''/n''\<rparr>) (BeginArchive w) = Err ErrConflictWorkflow"
  by (simp add: demo_repo_def repoNewState_def HasActiveMoveRepo_def MayArchive_def tellBeginArchive_def)

section \<open>Failure and recovery\<close>


fun beginCmd :: "storage_op \<Rightarrow> uuid \<Rightarrow> RepoCmd" where
  "beginCmd Freeze = BeginFreeze" | "beginCmd Unfreeze = BeginUnfreeze"
| "beginCmd Archive = BeginArchive" | "beginCmd Unarchive = BeginUnarchive"



lemma storageOf_Failed: "storageOf st = Failed p \<Longrightarrow> (case p of Freeze \<Rightarrow> rs_storageTier st = StorageFreezeFailed
    | Unfreeze \<Rightarrow> rs_storageTier st = StorageUnfreezeFailed | Archive \<Rightarrow> rs_storageTier st = StorageArchiveFailed
    | Unarchive \<Rightarrow> rs_storageTier st = StorageUnarchiveFailed)"
  by (cases "rs_storageTier st") (auto simp: storageOf_def)







text \<open>
  C18: recovery: in a live repo with a failed operation and a stored error, clearing the error is accepted and leaves the
  operation failed.  Then the operation can begin again under any workflow id, if neither the repo nor its shadow is being
  moved; while a move is active, it is refused with \<open>ErrConflictWorkflow\<close>.
\<close>

theorem repo_failed_recovers:
  assumes "repo_inv st" and "storageOf st = Failed p" and "rs_errorMessage st \<noteq> []" and "w \<noteq> uuidNil"
    and "\<forall>n. \<exists>i. g n = Inr i" and "ulid_binary ub"
  shows "\<exists>evs1 st1. repoTell us g st (ClearRepoError (rs_errorMessage st)) = Ok evs1 \<and>
    advanceAll (repoBehavior ub us) (repoEventOps pm pu ub) st evs1 = Ok st1 \<and>
    storageOf st1 = Failed p \<and> rs_errorMessage st1 = [] \<and>
    (if HasActiveMoveRepo st \<or> HasActiveMoveShadow st
     then repoTell us g st1 (beginCmd p w) = Err ErrConflictWorkflow
     else \<exists>evs2 st2. repoTell us g st1 (beginCmd p w) = Ok evs2 \<and>
       advanceAll (repoBehavior ub us) (repoEventOps pm pu ub) st1 evs2 = Ok st2 \<and> storageOf st2 = Running p w)"
proof -
  have run: "\<exists>evs st' v. repoTell us g s c = Ok evs \<and>
      advanceAll (repoBehavior ub us) (repoEventOps pm pu ub) s evs = Ok (st'\<lparr>rs_vid := v\<rparr>) \<and>
      applyEvs s (repo_events us s c) = Ok st' \<and> repo_inv st'"
    if a: "repo_inv s" "repo_pre s c" "repo_events us s c \<noteq> []" for s c
  proof -
    obtain evs where evs: "repoTell us g s c = Ok evs" using repo_events_complete [OF a assms(5)] by blast
    then have "evs \<noteq> []" using emitted_events(1) [OF repoTell_emits [OF assms(6) evs]] a(3) by auto
    then show ?thesis using repoTell_advances [OF assms(6) a(1,2) evs, of pm pu] evs by auto
  qed
  have t: "rs_storageTier st \<noteq> StorageTierUnspecified" using storageOf_Failed [OF assms(2)] by (cases p) auto
  then have gp: "rs_globalPath st \<noteq> []" using repo_inv_storage [OF assms(1)] by blast
  then obtain evs1 st1 v1 where 1: "repoTell us g st (ClearRepoError (rs_errorMessage st)) = Ok evs1"
    "advanceAll (repoBehavior ub us) (repoEventOps pm pu ub) st evs1 = Ok (st1\<lparr>rs_vid := v1\<rparr>)"
    "st1 = st\<lparr>rs_errorMessage := []\<rparr>" "repo_inv st1"
    using run [OF assms(1), of "ClearRepoError (rs_errorMessage st)"] assms(3) by auto
  let ?s = "st1\<lparr>rs_vid := v1\<rparr>"
  have f: "storageOf ?s = Failed p" "rs_errorMessage ?s = []" using assms(2) 1(3) by (simp_all add: storageOf_def)
  have mv: "HasActiveMoveRepo ?s = HasActiveMoveRepo st" "HasActiveMoveShadow ?s = HasActiveMoveShadow st"
    by (simp_all add: 1(3) HasActiveMoveRepo_def HasActiveMoveShadow_def)
  have "repoTell us g ?s (beginCmd p w) = Err ErrConflictWorkflow" if "HasActiveMoveRepo st \<or> HasActiveMoveShadow st"
    using that mv by (cases p) (simp_all add: repo_tell_defs)
  moreover have "\<exists>evs2 st2. repoTell us g ?s (beginCmd p w) = Ok evs2 \<and>
       advanceAll (repoBehavior ub us) (repoEventOps pm pu ub) ?s evs2 = Ok st2 \<and> storageOf st2 = Running p w"
    if m: "\<not> (HasActiveMoveRepo st \<or> HasActiveMoveShadow st)"
  proof -
    have inv: "repo_inv ?s" and pre: "repo_pre ?s (beginCmd p w)" using 1(4) assms(4) by (simp, cases p) simp_all
    have url: "p = Archive \<Longrightarrow> rs_archiveURL st \<noteq> []"
      using storageOf_Failed [OF assms(2)] repo_inv_storage(4) [OF assms(1) t] by auto
    have ev: "applyEvs ?s (repo_events us ?s (beginCmd p w)) = Ok st2 \<Longrightarrow> storageOf st2 = Running p w"
      "repo_events us ?s (beginCmd p w) \<noteq> []" for st2
      using storageOf_Failed [OF assms(2)] m url
      by (cases p; auto simp: 1(3) canBegin_def HasActiveMoveRepo_def HasActiveMoveShadow_def storageOf_def)+
    show ?thesis using run [OF inv pre ev(2)] ev(1) by (metis storageOf_vid)
  qed
  ultimately show ?thesis using 1(1,2) f by (intro exI [of _ evs1] exI [of _ ?s]) simp
qed

theorem repo_failed_recovers_witness:
  "\<exists>evs1 st1 evs2. repoTell (\<lambda>_. []) (\<lambda>_. Inr 5) (demo_repo\<lparr>rs_storageTier := StorageArchiveFailed,
       rs_errorMessage := ''archive failed: disk''\<rparr>) (ClearRepoError ''archive failed: disk'') = Ok evs1 \<and>
     advanceAll (repoBehavior ulidUnmarshal (\<lambda>_. []))
       (repoEventOps (\<lambda>_. Inr []) (\<lambda>_. Inl (GoErr [])) ulidUnmarshal)
       (demo_repo\<lparr>rs_storageTier := StorageArchiveFailed, rs_errorMessage := ''archive failed: disk''\<rparr>) evs1 = Ok st1 \<and>
     repoTell (\<lambda>_. []) (\<lambda>_. Inr 5) st1 (BeginArchive 6) = Ok evs2"
proof -
  let ?s = "demo_repo\<lparr>rs_storageTier := StorageArchiveFailed, rs_errorMessage := ''archive failed: disk''\<rparr>"
  have i: "repo_inv ?s" by (simp add: demo_repo_def repo_inv_def repoNewState_def storage_ok_def keys_ok_def)
  have m: "\<not> (HasActiveMoveRepo ?s \<or> HasActiveMoveShadow ?s)"
    by (simp add: demo_repo_def repoNewState_def HasActiveMoveRepo_def HasActiveMoveShadow_def)
  have s: "storageOf ?s = Failed Archive" "rs_errorMessage ?s = ''archive failed: disk''" by (simp_all add: storageOf_def)
  have "(6 :: uuid) \<noteq> uuidNil" "\<forall>n. \<exists>i. (\<lambda>_. Inr 5 :: goerr + ulid) n = Inr i" "rs_errorMessage ?s \<noteq> []" using s(2) by simp_all
  from repo_failed_recovers [OF i s(1) this(3,1,2) ulidUnmarshal_ok, of "\<lambda>_. []" "\<lambda>_. Inr []" "\<lambda>_. Inl (GoErr [])",
      unfolded if_not_P [OF m] s(2)]
  show ?thesis by (simp only: beginCmd.simps) blast
qed

section \<open>Recipients\<close>

text \<open>
  An accepted update of the archive recipients takes effect exactly: afterwards the repo's recipients are
  the given keys, whatever their order, and repeating the update in any order changes nothing.
\<close>

theorem repo_recipients_updated:
  assumes "ulid_binary ub" and "repo_inv st" and "repoTell us h st (UpdateArchiveRecipients ks) = Ok evs"
    and "advanceAll (repoBehavior ub us) (repoEventOps pm pu ub) st evs = Ok st'" and "mset ks' = mset ks"
  shows "mset (rs_archiveRecipients st') = mset ks \<and> repoTell us g st' (UpdateArchiveRecipients ks') = Ok []"
proof -
  have ks: "ks \<noteq> []" "distinct ks" "rs_globalPath st \<noteq> []"
    using assms(3) by (auto simp: tellUpdateArchiveRecipients_def checkTell_def split: if_splits)
  obtain st1 v where st1: "st' = st1\<lparr>rs_vid := v\<rparr>"
    "applyEvs st (if evs = [] then [] else repo_events us st (UpdateArchiveRecipients ks)) = Ok st1"
    by (rule repoTell_result [OF assms(1,2) _ assms(3,4)]) simp_all
  have "set (rs_archiveRecipients st1) = set ks \<and> distinct (rs_archiveRecipients st1) \<and> rs_globalPath st1 \<noteq> []"
  proof (cases "fpEqual (rs_archiveRecipients st) ks")
    case True
    then show ?thesis using st1(2) ks fpEqual_distinct [OF ks(2)] by (auto split: if_splits)
  next
    case False
    then have "evs \<noteq> []"
      using assms(3) by (auto simp: tellUpdateArchiveRecipients_def checkTell_def outcome_simps emit_Nil split: if_splits)
    then show ?thesis using st1(2) ks False by auto
  qed
  moreover have "distinct ks'" "set ks' = set ks" "ks' \<noteq> []"
    using ks assms(5) mset_eq_setD [OF assms(5)] mset_eq_imp_distinct_iff [OF assms(5)] by auto
  ultimately show ?thesis
    using ks st1(1) fpEqual_distinct [of ks'] set_eq_iff_mset_eq_distinct [of "rs_archiveRecipients st1" ks]
    by (simp add: tellUpdateArchiveRecipients_def checkTell_def)
qed

theorem repo_recipients_updated_witness:
  "repoTell (\<lambda>_. []) (\<lambda>_. Inr 5) (demo_repo\<lparr>rs_archiveRecipients := [8, 9]\<rparr>) (UpdateArchiveRecipients [9, 8]) = Ok []"
proof -
  let ?s = "demo_repo\<lparr>rs_archiveRecipients := [8, 9]\<rparr>"
  have inv: "repo_inv ?s" by (simp add: demo_repo_def repo_inv_def repoNewState_def storage_ok_def keys_ok_def)
  have t: "repoTell (\<lambda>_. []) (\<lambda>_. Inr 5) ?s (UpdateArchiveRecipients [8, 9]) = Ok []"
    by (simp add: tellUpdateArchiveRecipients_def checkTell_def demo_repo_def fpEqual_distinct)
  show ?thesis
    by (rule conjunct2 [OF repo_recipients_updated [OF ulidUnmarshal_ok inv t, where st' = ?s and ks' = "[9, 8]"]]) simp_all
qed

section \<open>Limits of the checks\<close>

text \<open>
  \<open>CommitMoveRepo\<close> does not check its paths: told with another path than the move was started
  with, it produces an event on which \<open>Advance()\<close> panics.
\<close>

lemma repo_commit_move_unchecked:
  assumes "ulid_binary ub" and "HasActiveMoveRepo st" and "cc_WorkflowId c = rs_moveRepoWorkflow st"
    and "cc_GlobalPath c \<noteq> rs_newGlobalPath st" and "g 0 = Inr i"
  shows "\<exists>evs. repoTell us g st (CommitMoveRepo c) = Ok evs \<and>
    is_Panic (advanceAll (repoBehavior ub us) (repoEventOps pm pu ub) st evs)"
proof -
  have "repo_events us st (CommitMoveRepo c) \<noteq> []" using assms(2,3) by simp
  obtain evs where evs: "repoTell us g st (CommitMoveRepo c) = Ok evs"
    using assms(2,3,5) by (auto simp: tellCommitMoveRepo_def emit_def newEvents_def)
  then obtain pbs where "pbs_of ub pbs (repo_events us st (CommitMoveRepo c))" "newEvents g (rs_vid st) pbs = Inr evs"
    using repoTell_emits [OF assms(1) evs] assms(2,3) by (auto simp: emitted_def)
  then have "advanceAll (repoBehavior ub us) (repoEventOps pm pu ub) st evs =
      omap (\<lambda>s. s\<lparr>rs_vid := lastId (repoEventOps pm pu ub) (rs_vid s) evs\<rparr>) (applyEvs st (repo_events us st (CommitMoveRepo c)))"
    by (intro advanceAll_newEvents) (simp_all add: newEvents_def)
  then show ?thesis using evs assms(2-4) by simp
qed

end
