(* ===== verification/Config_Map.thy ===== *)
theory Config_Map
  imports Complex_Main Nog_Prelude
begin

text \<open>
  Config maps (\<open>backend/internal/configmap/configmap.go\<close>): the values of rules, parsed from a protobuf message,
  merged with a patch, and created from JSON.  A Go map is a partial function; where the code ranges over a map, the
  keys in the order of the iteration are an argument.
\<close>

section \<open>Values\<close>

text \<open>A \<open>float64\<close>: a finite number, an infinity or a NaN; the sources do not compute with it.\<close>

datatype (plugins only: code) Float64 = Finite rat | Infinity bool | NaN

definition float_eq :: "Float64 \<Rightarrow> Float64 \<Rightarrow> bool" where
  "float_eq x y \<longleftrightarrow> x = y \<and> x \<noteq> NaN"

text \<open>
  \<open>level := int(val)\<close> followed by \<open>float64(level) != val\<close>: the level if \<open>val\<close> is a 64-bit integer.  The conversion
  of any other value yields an integer that differs from it.
\<close>

definition intLevel :: "Float64 \<Rightarrow> int option" where
  "intLevel x = (case x of
       Finite q \<Rightarrow> if of_int \<lfloor>q\<rfloor> = q \<and> - (2 ^ 63) \<le> \<lfloor>q\<rfloor> \<and> \<lfloor>q\<rfloor> < 2 ^ 63 then Some \<lfloor>q\<rfloor> else None
     | _ \<Rightarrow> None)"

datatype (plugins only: code) ConfigVal = CNumber Float64 | CText string | CTextList "string list"

type_synonym ConfigMap = "string \<rightharpoonup> ConfigVal"

text \<open>The message: \<open>FOther\<close> are the values of the \<open>oneof\<close> that the code does not support.\<close>

datatype (plugins only: code) ConfigFieldVal = FNumber Float64 | FText string | FTextList "string list" | FOther

type_synonym ConfigMapPb = "(string \<times> ConfigFieldVal) list"

section \<open>ParsePb and Merge\<close>

fun parseFields :: "ConfigMap \<Rightarrow> ConfigMapPb \<Rightarrow> goerr + ConfigMap" where
  "parseFields m [] = Inr m"
| "parseFields m ((k, FNumber x) # fs) = parseFields (m(k \<mapsto> CNumber x)) fs"
| "parseFields m ((k, FText x) # fs) = parseFields (m(k \<mapsto> CText x)) fs"
| "parseFields m ((k, FTextList x) # fs) = parseFields (m(k \<mapsto> CTextList x)) fs"
| "parseFields m ((k, FOther) # fs) = Inl (GoErr ''unsupported ConfigMap value type'')"

definition ParsePb :: "ConfigMapPb option \<Rightarrow> goerr + ConfigMap" where
  "ParsePb c = (case c of None \<Rightarrow> Inr Map.empty | Some fs \<Rightarrow> parseFields Map.empty fs)"

fun mergeLoop :: "ConfigMap \<Rightarrow> ConfigMap \<Rightarrow> ConfigMap \<Rightarrow> string list \<Rightarrow> goerr + ConfigMap" where
  "mergeLoop a b m [] = Inr m"
| "mergeLoop a b m (k # ks) =
     (case b k of
        None \<Rightarrow> mergeLoop a b m ks
      | Some v \<Rightarrow>
          (case a k of
             None \<Rightarrow> mergeLoop a b (m(k \<mapsto> v)) ks
           | Some aVal \<Rightarrow>
               (case v of
                  CTextList x \<Rightarrow>
                    (case aVal of
                       CTextList aX \<Rightarrow> mergeLoop a b (m(k \<mapsto> CTextList (aX @ x))) ks
                     | _ \<Rightarrow> Inl (GoErr (''type mismatch '' @ k)))
                | _ \<Rightarrow> Inl (GoErr (''unsupported type '' @ k)))))"

text \<open>\<open>ks\<close> are the keys of \<open>b\<close> in the order of the iteration.\<close>

definition Merge :: "ConfigMap \<Rightarrow> string list \<Rightarrow> ConfigMap \<Rightarrow> goerr + ConfigMap" where
  "Merge a ks b = (if ks = [] then Inr a else mergeLoop a b a ks)"

section \<open>From JSON\<close>

datatype (plugins only: code size) Json = JNull | JBool bool | JNumber Float64 | JString string | JArray "Json list" | JObject "(string \<times> Json) list"

fun stringsOf :: "Json list \<Rightarrow> string list option" where
  "stringsOf [] = Some []"
| "stringsOf (JString s # js) = map_option (\<lambda>ss. s # ss) (stringsOf js)"
| "stringsOf (_ # js) = None"

fun asStringList :: "Json \<Rightarrow> string list option" where
  "asStringList (JArray js) = stringsOf js"
| "asStringList _ = None"

text \<open>The loop of \<open>NewPbFromJsonString()\<close> over the decoded object \<open>m\<close> with the keys \<open>ks\<close>.\<close>

fun NewPbFromJson :: "(string \<rightharpoonup> Json) \<Rightarrow> string list \<Rightarrow> goerr + ConfigMapPb" where
  "NewPbFromJson m [] = Inr []"
| "NewPbFromJson m (k # ks) =
     (case (case m k of
              None \<Rightarrow> None
            | Some v \<Rightarrow>
                (case asStringList v of
                   Some x \<Rightarrow> Some (FTextList x)
                 | None \<Rightarrow> (case v of JNumber x \<Rightarrow> Some (FNumber x) | JString x \<Rightarrow> Some (FText x) | _ \<Rightarrow> None))) of
        None \<Rightarrow> Inl (GoErr (''unsupported type '' @ k))
      | Some f \<Rightarrow> (case NewPbFromJson m ks of Inl e \<Rightarrow> Inl e | Inr fs \<Rightarrow> Inr ((k, f) # fs)))"

section \<open>Merging\<close>

text \<open>A patch adds fields, and appends to lists; \<open>mergeable\<close> are the maps for which that is all it does.\<close>

definition mergeable :: "ConfigMap \<Rightarrow> ConfigMap \<Rightarrow> bool" where
  "mergeable a b \<longleftrightarrow>
     (\<forall>k v w. a k = Some v \<longrightarrow> b k = Some w \<longrightarrow> (\<exists>xs ys. v = CTextList xs \<and> w = CTextList ys))"

definition merged :: "ConfigMap \<Rightarrow> ConfigMap \<Rightarrow> ConfigMap" where
  "merged a b k =
     (case b k of
        None \<Rightarrow> a k
      | Some w \<Rightarrow> (case (a k, w) of (Some (CTextList xs), CTextList ys) \<Rightarrow> Some (CTextList (xs @ ys)) | _ \<Rightarrow> Some w))"

lemma mergeLoop_Inr:
  assumes "mergeLoop a b m ks = Inr r"
  shows "(\<forall>k \<in> set ks. \<forall>v w. a k = Some v \<longrightarrow> b k = Some w \<longrightarrow> (\<exists>xs ys. v = CTextList xs \<and> w = CTextList ys)) \<and>
    r = (\<lambda>k. if k \<in> set ks \<and> k \<in> dom b then merged a b k else m k)"
  using assms
proof (induction ks arbitrary: m)
  case (Cons k ks)
  show ?case
  proof (cases "b k")
    case None
    then show ?thesis using Cons.IH [of m] Cons.prems by (auto simp: fun_eq_iff)
  next
    case (Some w)
    have "\<forall>v. a k = Some v \<longrightarrow> (\<exists>xs ys. v = CTextList xs \<and> w = CTextList ys)"
      and l: "mergeLoop a b (m(k := merged a b k)) ks = Inr r"
      using Cons.prems Some by (cases "a k"; cases w; auto simp: merged_def split: ConfigVal.splits)+
    then show ?thesis using Cons.IH [OF l] Some by (auto simp: fun_eq_iff)
  qed
qed auto

lemma mergeLoop_ok:
  assumes "mergeable a b" shows "\<exists>r. mergeLoop a b m ks = Inr r"
proof (induction ks arbitrary: m)
  case (Cons k ks)
  then show ?case
    using assms unfolding mergeable_def by (cases "b k"; cases "a k"; fastforce split: ConfigVal.splits)
qed simp

lemma Merge_Inr_iff:
  assumes "set ks = dom b"
  shows "Merge a ks b = Inr m \<longleftrightarrow> mergeable a b \<and> m = merged a b"
proof (cases "ks = []")
  case True
  then have "b = Map.empty" using assms by (metis dom_eq_empty_conv list.set(1))
  then show ?thesis using True by (auto simp: Merge_def mergeable_def merged_def fun_eq_iff)
next
  case False
  have eq: "(\<lambda>k. if k \<in> set ks \<and> k \<in> dom b then merged a b k else a k) = merged a b"
    using assms by (auto simp: fun_eq_iff merged_def dom_def)
  show ?thesis
  proof
    assume "Merge a ks b = Inr m"
    then have "mergeLoop a b a ks = Inr m" using False by (simp add: Merge_def)
    from mergeLoop_Inr [OF this] show "mergeable a b \<and> m = merged a b"
      unfolding eq mergeable_def using assms by (metis domI)
  next
    assume m: "mergeable a b \<and> m = merged a b"
    then obtain r where r: "mergeLoop a b a ks = Inr r" using mergeLoop_ok by blast
    from mergeLoop_Inr [OF r] m r show "Merge a ks b = Inr m" using False unfolding eq by (simp add: Merge_def)
  qed
qed

text \<open>
  C19: merging a patch into a config map does not depend on the order in which Go iterates over the patch: it
  succeeds iff every field that both maps have is a list in both, and then the result has the fields of both, the lists
  of common fields being appended.
\<close>

theorem config_merge_exact:
  assumes "set ks = dom b"
  shows "Merge a ks b = Inr m \<longleftrightarrow>
    (\<forall>k v w. a k = Some v \<and> b k = Some w \<longrightarrow> (\<exists>xs ys. v = CTextList xs \<and> w = CTextList ys)) \<and>
    m = (\<lambda>k. case (a k, b k) of
            (v, None) \<Rightarrow> v
          | (Some (CTextList xs), Some (CTextList ys)) \<Rightarrow> Some (CTextList (xs @ ys))
          | (_, w) \<Rightarrow> w)"
proof -
  have "merged a b = (\<lambda>k. case (a k, b k) of
            (v, None) \<Rightarrow> v
          | (Some (CTextList xs), Some (CTextList ys)) \<Rightarrow> Some (CTextList (xs @ ys))
          | (_, w) \<Rightarrow> w)"
    by (auto simp: merged_def fun_eq_iff split: option.splits ConfigVal.splits)
  then show ?thesis using Merge_Inr_iff [OF assms, of a m] by (auto simp: mergeable_def)
qed

theorem config_merge_exact_witness:
  "Merge [''ignore'' \<mapsto> CTextList [''a'']] [''ignore''] [''ignore'' \<mapsto> CTextList [''b'']] =
     Inr [''ignore'' \<mapsto> CTextList [''a'', ''b'']]"
  by (subst config_merge_exact) (auto simp: fun_eq_iff)

text \<open>What a field of a JSON object means as a config value.\<close>

fun jsonVal :: "Json \<Rightarrow> ConfigVal option" where
  "jsonVal (JNumber x) = Some (CNumber x)"
| "jsonVal (JString x) = Some (CText x)"
| "jsonVal (JArray js) = map_option CTextList (stringsOf js)"
| "jsonVal _ = None"

lemma NewPbFromJson_parse:
  assumes "NewPbFromJson m ks = Inr fs"
  shows "parseFields c fs = Inr (\<lambda>k. if k \<in> set ks then Option.bind (m k) jsonVal else c k) \<and>
    (\<forall>k \<in> set ks. Option.bind (m k) jsonVal \<noteq> None)"
  using assms
proof (induction ks arbitrary: c fs)
  case (Cons k ks)
  then obtain f fs' v where f: "m k = Some v" "fs = (k, f) # fs'" "NewPbFromJson m ks = Inr fs'"
      "(case asStringList v of Some x \<Rightarrow> Some (FTextList x)
        | None \<Rightarrow> (case v of JNumber x \<Rightarrow> Some (FNumber x) | JString x \<Rightarrow> Some (FText x) | _ \<Rightarrow> None)) = Some f"
    by (auto split: option.splits sum.splits)
  obtain cv where cv: "jsonVal v = Some cv" "parseFields c ((k, f) # fs') = parseFields (c(k \<mapsto> cv)) fs'"
    using f(4) by (cases v) (auto split: option.splits)
  have "(\<lambda>k'. if k' \<in> set ks then Option.bind (m k') jsonVal else (c(k \<mapsto> cv)) k') =
      (\<lambda>k'. if k' \<in> set (k # ks) then Option.bind (m k') jsonVal else c k')"
    using f(1) cv(1) by (auto simp: fun_eq_iff)
  moreover have "parseFields (c(k \<mapsto> cv)) fs' =
        Inr (\<lambda>k'. if k' \<in> set ks then Option.bind (m k') jsonVal else (c(k \<mapsto> cv)) k') \<and>
      (\<forall>k \<in> set ks. Option.bind (m k) jsonVal \<noteq> None)"
    by (rule Cons.IH [OF f(3)])
  ultimately show ?case unfolding f(2) cv(2) using f(1) cv(1) by auto
qed simp

text \<open>
  C20: a config given as JSON survives the way through the message: whatever the order in which the fields
  were written, parsing the message gives for each key the value of the JSON field, and JSON that has a value without
  such a meaning is refused.
\<close>

theorem config_json_roundtrip:
  assumes "set ks = dom m"
  shows "(\<forall>fs. NewPbFromJson m ks = Inr fs \<longrightarrow> ParsePb (Some fs) = Inr (\<lambda>k. Option.bind (m k) jsonVal)) \<and>
    ((\<exists>fs. NewPbFromJson m ks = Inr fs) \<longleftrightarrow> (\<forall>k v. m k = Some v \<longrightarrow> jsonVal v \<noteq> None))"
proof (intro conjI allI impI)
  fix fs assume fs: "NewPbFromJson m ks = Inr fs"
  have "(\<lambda>k. if k \<in> set ks then Option.bind (m k) jsonVal else None) = (\<lambda>k. Option.bind (m k) jsonVal)"
    using assms by (auto simp: fun_eq_iff)
  then show "ParsePb (Some fs) = Inr (\<lambda>k. Option.bind (m k) jsonVal)"
    using NewPbFromJson_parse [OF fs, of Map.empty] by (simp add: ParsePb_def)
next
  have ok: "\<exists>fs. NewPbFromJson m ks' = Inr fs" if "\<forall>k v. m k = Some v \<longrightarrow> jsonVal v \<noteq> None" "set ks' \<subseteq> dom m" for ks'
    using that(2)
  proof (induction ks')
    case (Cons k ks')
    then obtain v where v: "m k = Some v" by auto
    then have "jsonVal v \<noteq> None" using that(1) by blast
    then show ?case using Cons v by (cases v) (auto split: option.splits)
  qed simp
  show "(\<exists>fs. NewPbFromJson m ks = Inr fs) \<longleftrightarrow> (\<forall>k v. m k = Some v \<longrightarrow> jsonVal v \<noteq> None)"
  proof
    assume "\<exists>fs. NewPbFromJson m ks = Inr fs"
    then obtain fs where fs: "NewPbFromJson m ks = Inr fs" by blast
    have "\<forall>k \<in> dom m. Option.bind (m k) jsonVal \<noteq> None"
      using NewPbFromJson_parse [OF fs, of Map.empty] assms by simp
    then show "\<forall>k v. m k = Some v \<longrightarrow> jsonVal v \<noteq> None" by (metis bind.bind_lunit domI)
  qed (use ok [of ks] assms in simp)
qed

theorem config_json_roundtrip_witness:
  "ParsePb (Some [(''level'', FNumber (Finite 2))]) = Inr [''level'' \<mapsto> CNumber (Finite 2)]"
proof -
  have "NewPbFromJson [''level'' \<mapsto> JNumber (Finite 2)] [''level''] = Inr [(''level'', FNumber (Finite 2))]" by simp
  then show ?thesis
    using config_json_roundtrip [of "[''level'']" "[''level'' \<mapsto> JNumber (Finite 2)]"] by (auto simp: fun_eq_iff)
qed

end
