(* ===== verification/Go_Path.thy ===== *)
theory Go_Path
  imports Nog_Prelude
begin

text \<open>
  What the sources use of Go's packages \<open>path\<close>, \<open>strings\<close>, \<open>strconv\<close> and \<open>unicode/utf8\<close> (Go 1.12, the version of
  \<open>tools/images/godev\<close>), and the path predicates of \<open>backend/internal/fsoregistry/fsoregistry.go\<close>.
\<close>

section \<open>Strings\<close>

definition TrimLeft :: "string \<Rightarrow> char \<Rightarrow> string" where
  "TrimLeft s c = dropWhile (\<lambda>x. x = c) s"

definition Trim :: "string \<Rightarrow> char \<Rightarrow> string" where
  "Trim s c = TrimRight (TrimLeft s c) c"

definition TrimPrefix :: "string \<Rightarrow> string \<Rightarrow> string" where
  "TrimPrefix s p = (if HasPrefix s p then drop (length p) s else s)"

text \<open>\<open>strings.Contains()\<close> with a single character.\<close>

definition ContainsChar :: "string \<Rightarrow> char \<Rightarrow> bool" where
  "ContainsChar s c \<longleftrightarrow> c \<in> set s"

text \<open>\<open>strings.Split()\<close> and \<open>strings.Join()\<close> with a single character.\<close>

fun splitChar :: "char \<Rightarrow> string \<Rightarrow> string list" where
  "splitChar c [] = [[]]"
| "splitChar c (x # xs) =
     (if x = c then [] # splitChar c xs
      else case splitChar c xs of [] \<Rightarrow> [[x]] | e # es \<Rightarrow> (x # e) # es)"

fun joinChar :: "char \<Rightarrow> string list \<Rightarrow> string" where
  "joinChar c [] = []"
| "joinChar c [e] = e"
| "joinChar c (e # es) = e @ c # joinChar c es"

text \<open>The verb \<open>%d\<close> of \<open>fmt.Sprintf()\<close>, and \<open>strconv.ParseUint(s, 10, 64)\<close>.\<close>

fun decimal :: "nat \<Rightarrow> string" where
  "decimal n = (if n < 10 then [char_of (48 + n)] else decimal (n div 10) @ [char_of (48 + n mod 10)])"

definition sprintInt :: "int \<Rightarrow> string" where
  "sprintInt i = (if i < 0 then CHR ''-'' # decimal (nat (- i)) else decimal (nat i))"

definition digitsVal :: "string \<Rightarrow> nat" where
  "digitsVal s = foldl (\<lambda>n c. 10 * n + (of_char c - 48)) 0 s"

definition ParseUint10 :: "string \<Rightarrow> goerr + nat" where
  "ParseUint10 s =
     (if s = [] \<or> \<not> list_all is_digit s then Inl (GoErr ''invalid syntax'')
      else if digitsVal s \<ge> 2 ^ 64 then Inl (GoErr ''value out of range'')
      else Inr (digitsVal s))"

section \<open>Clean, Dir, Join\<close>

text \<open>The elements that \<open>Clean()\<close> keeps, last first.\<close>

fun cleanElems :: "bool \<Rightarrow> string list \<Rightarrow> string list \<Rightarrow> string list" where
  "cleanElems rooted out [] = out"
| "cleanElems rooted out (e # es) =
     (if e = [] \<or> e = ''.'' then cleanElems rooted out es
      else if e = ''..'' then
        (case out of
           [] \<Rightarrow> cleanElems rooted (if rooted then [] else [''..'']) es
         | o1 # os \<Rightarrow> cleanElems rooted (if o1 = ''..'' then ''..'' # out else os) es)
      else cleanElems rooted (e # out) es)"

definition IsAbs :: "string \<Rightarrow> bool" where
  "IsAbs p \<longleftrightarrow> (case p of [] \<Rightarrow> False | c # _ \<Rightarrow> c = CHR ''/'')"

definition Clean :: "string \<Rightarrow> string" where
  "Clean p =
     (if p = [] then ''.''
      else let s = (if IsAbs p then ''/'' else []) @
                   joinChar (CHR ''/'') (rev (cleanElems (IsAbs p) [] (splitChar (CHR ''/'') p)))
           in if s = [] then ''.'' else s)"

text \<open>\<open>Split()\<close> up to and including the last slash, then \<open>Clean()\<close>.\<close>

definition Dir :: "string \<Rightarrow> string" where
  "Dir p = Clean (rev (dropWhile (\<lambda>c. c \<noteq> CHR ''/'') (rev p)))"

text \<open>\<open>Join()\<close> of two elements.\<close>

definition Join :: "string \<Rightarrow> string \<Rightarrow> string" where
  "Join a b = (if a \<noteq> [] then Clean (a @ ''/'' @ b) else if b \<noteq> [] then Clean b else [])"

section \<open>Match\<close>

text \<open>\<open>utf8.DecodeRuneInString()\<close>: the code point and the number of bytes; 65533 and 1 if malformed.\<close>

definition isCont :: "nat \<Rightarrow> bool" where
  "isCont b \<longleftrightarrow> 128 \<le> b \<and> b \<le> 191"

definition decodeRune :: "string \<Rightarrow> nat \<times> nat" where
  "decodeRune s =
     (case map of_char (take 4 s) of
        [] \<Rightarrow> (65533, 0)
      | b0 # r \<Rightarrow>
          if b0 < 128 then (b0, 1)
          else if 194 \<le> b0 \<and> b0 \<le> 223 then
            (case r of
               b1 # _ \<Rightarrow> if isCont b1 then ((b0 - 192) * 64 + (b1 - 128), 2) else (65533, 1)
             | _ \<Rightarrow> (65533, 1))
          else if 224 \<le> b0 \<and> b0 \<le> 239 then
            (case r of
               b1 # b2 # _ \<Rightarrow>
                 if (if b0 = 224 then 160 else 128) \<le> b1 \<and> b1 \<le> (if b0 = 237 then 159 else 191) \<and> isCont b2
                 then ((b0 - 224) * 4096 + (b1 - 128) * 64 + (b2 - 128), 3) else (65533, 1)
             | _ \<Rightarrow> (65533, 1))
          else if 240 \<le> b0 \<and> b0 \<le> 244 then
            (case r of
               b1 # b2 # b3 # _ \<Rightarrow>
                 if (if b0 = 240 then 144 else 128) \<le> b1 \<and> b1 \<le> (if b0 = 244 then 143 else 191) \<and> isCont b2 \<and> isCont b3
                 then ((b0 - 240) * 262144 + (b1 - 128) * 4096 + (b2 - 128) * 64 + (b3 - 128), 4) else (65533, 1)
             | _ \<Rightarrow> (65533, 1))
          else (65533, 1))"

text \<open>
  \<open>scanChunk()\<close>: the leading stars, the literal part up to the next star outside of brackets, and the rest.
\<close>

fun scanLit :: "bool \<Rightarrow> string \<Rightarrow> string \<times> string" where
  "scanLit inrange [] = ([], [])"
| "scanLit inrange (c # cs) =
     (if c = CHR 0x5C then
        (case cs of
           [] \<Rightarrow> ([c], [])
         | d # ds \<Rightarrow> (case scanLit inrange ds of (a, b) \<Rightarrow> (c # d # a, b)))
      else if c = CHR ''*'' \<and> \<not> inrange then ([], c # cs)
      else case scanLit (if c = CHR ''['' then True else if c = CHR '']'' then False else inrange) cs of
             (a, b) \<Rightarrow> (c # a, b))"

definition scanChunk :: "string \<Rightarrow> bool \<times> string \<times> string" where
  "scanChunk p =
     (let p' = dropWhile (\<lambda>c. c = CHR ''*'') p
      in (p' \<noteq> p, scanLit False p'))"

text \<open>\<open>getEsc()\<close>; \<open>None\<close> is \<open>ErrBadPattern\<close>.\<close>

definition getEsc :: "string \<Rightarrow> (nat \<times> string) option" where
  "getEsc chunk =
     (case chunk of
        [] \<Rightarrow> None
      | c # cs \<Rightarrow>
          if c = CHR ''-'' \<or> c = CHR '']'' then None
          else if c = CHR 0x5C \<and> cs = [] then None
          else let chunk1 = (if c = CHR 0x5C then cs else chunk);
                   (r, n) = decodeRune chunk1;
                   nchunk = drop n chunk1
               in if r = 65533 \<and> n = 1 then None else if nchunk = [] then None else Some (r, nchunk))"

lemma getEsc_shrinks:
  assumes "getEsc chunk = Some (r, nchunk)"
  shows "nchunk \<noteq> [] \<and> length nchunk < length chunk"
proof -
  have n: "0 < snd (decodeRune (c # cs))" for c cs
    by (simp add: decodeRune_def Let_def split: list.split)
  obtain c cs where c: "chunk = c # cs" using assms by (cases chunk) (auto simp: getEsc_def)
  define chunk1 where "chunk1 = (if c = CHR 0x5C then cs else chunk)"
  have "chunk1 \<noteq> []" "length chunk1 \<le> length chunk" "snd (decodeRune chunk1) > 0"
    using assms n by (auto simp: c chunk1_def getEsc_def neq_Nil_conv split: if_splits)
  moreover have "nchunk = drop (snd (decodeRune chunk1)) chunk1" "nchunk \<noteq> []"
    using assms by (auto simp: getEsc_def c chunk1_def Let_def split: if_splits prod.splits)
  ultimately show ?thesis by (auto simp: length_drop)
qed

text \<open>The loop over the ranges of a character class.\<close>

function matchRanges :: "nat \<Rightarrow> bool \<Rightarrow> nat \<Rightarrow> string \<Rightarrow> (bool \<times> string) option" where
  "matchRanges r matched nrange chunk =
     (if chunk \<noteq> [] \<and> hd chunk = CHR '']'' \<and> nrange > 0 then Some (matched, tl chunk)
      else case getEsc chunk of
        None \<Rightarrow> None
      | Some (lo, chunk1) \<Rightarrow>
          if hd chunk1 = CHR ''-'' then
            (case getEsc (tl chunk1) of
               None \<Rightarrow> None
             | Some (hi, chunk2) \<Rightarrow> matchRanges r (matched \<or> lo \<le> r \<and> r \<le> hi) (Suc nrange) chunk2)
          else matchRanges r (matched \<or> lo = r) (Suc nrange) chunk1)"
  by pat_completeness auto
termination
proof (relation "measure (\<lambda>(_, _, _, chunk). length chunk)", goal_cases)
  case (2 r m n chunk x2 lo c1 x2' hi c2)
  then have a: "getEsc chunk = Some (lo, c1)" "getEsc (tl c1) = Some (hi, c2)" by auto
  from getEsc_shrinks [OF a(1)] getEsc_shrinks [OF a(2)] show ?case by (simp, arith)
qed (auto dest: getEsc_shrinks)

lemma matchRanges_shrinks: "matchRanges r m n chunk = Some (b, rest) \<Longrightarrow> length rest < length chunk"
proof (induction r m n chunk rule: matchRanges.induct)
  case (1 r m n chunk)
  show ?case
  proof (cases "chunk \<noteq> [] \<and> hd chunk = CHR '']'' \<and> n > 0")
    case True
    then show ?thesis using "1.prems" by (auto simp: neq_Nil_conv)
  next
    case False
    then obtain lo c1 where c1: "getEsc chunk = Some (lo, c1)"
      using "1.prems" by (subst (asm) matchRanges.simps) (auto split: option.splits)
    show ?thesis
    proof (cases "hd c1 = CHR ''-''")
      case True
      then obtain hi c2 where c2: "getEsc (tl c1) = Some (hi, c2)"
        using "1.prems" False c1 by (subst (asm) matchRanges.simps) (auto split: option.splits)
      have "length rest < length c2"
        using "1.IH"(1) [OF False c1 _ True c2] "1.prems" False c1 c2 True by (subst (asm) (2) matchRanges.simps) simp
      then show ?thesis using getEsc_shrinks [OF c1] getEsc_shrinks [OF c2] by (simp, arith)
    next
      case f: False
      have "length rest < length c1"
        using "1.IH"(2) [OF False c1 _ f] "1.prems" False c1 f by (subst (asm) (2) matchRanges.simps) simp
      then show ?thesis using getEsc_shrinks [OF c1] by simp
    qed
  qed
qed

text \<open>
  \<open>matchChunk()\<close>: \<open>Inl\<close> is \<open>ErrBadPattern\<close>, \<open>Inr None\<close> is no match, \<open>Inr (Some rest)\<close> a match.  The loop ends
  without an error as soon as the name is exhausted.
\<close>

definition classChunk :: "string \<Rightarrow> bool \<times> string" where
  "classChunk cs = (case cs of c # ds \<Rightarrow> if c = CHR ''^'' then (False, ds) else (True, cs) | [] \<Rightarrow> (True, []))"

lemma classChunk_shrinks: "length (snd (classChunk cs)) \<le> length cs"
  by (auto simp: classChunk_def split: list.split)

function matchChunk :: "string \<Rightarrow> string \<Rightarrow> goerr + string option" where
  "matchChunk [] s = Inr (Some s)"
| "matchChunk (c # cs) [] = Inr None"
| "matchChunk (c # cs) (x # xs) =
     (if c = CHR ''['' then
        (let (r, n) = decodeRune (x # xs); (notNegated, cs1) = classChunk cs
         in case matchRanges r False 0 cs1 of
              None \<Rightarrow> Inl (GoErr ''syntax error in pattern'')
            | Some (matched, cs2) \<Rightarrow>
                if matched \<noteq> notNegated then Inr None else matchChunk cs2 (drop n (x # xs)))
      else if c = CHR ''?'' then
        (if x = CHR ''/'' then Inr None else matchChunk cs (drop (snd (decodeRune (x # xs))) (x # xs)))
      else if c = CHR 0x5C then
        (case cs of
           [] \<Rightarrow> Inl (GoErr ''syntax error in pattern'')
         | d # ds \<Rightarrow> if d \<noteq> x then Inr None else matchChunk ds xs)
      else if c \<noteq> x then Inr None else matchChunk cs xs)"
  by pat_completeness auto
termination
proof (relation "measure (\<lambda>(chunk, _). length chunk)", goal_cases)
  case (2 c cs x xs rn r n nc notNegated cs1 m matched cs2)
  have "cs1 = snd (classChunk cs)" using 2 by (metis snd_conv)
  then show ?case using matchRanges_shrinks 2 classChunk_shrinks [of cs] by fastforce
qed auto

text \<open>The search behind a star: skip \<open>i + 1\<close> bytes that are no slash.\<close>

fun matchStar :: "bool \<Rightarrow> string \<Rightarrow> string \<Rightarrow> goerr + string option" where
  "matchStar isLast chunk [] = Inr None"
| "matchStar isLast chunk (x # xs) =
     (if x = CHR ''/'' then Inr None
      else case matchChunk chunk xs of
        Inl e \<Rightarrow> Inl e
      | Inr (Some t) \<Rightarrow> if isLast \<and> t \<noteq> [] then matchStar isLast chunk xs else Inr (Some t)
      | Inr None \<Rightarrow> matchStar isLast chunk xs)"

lemma scanLit_append: "fst (scanLit b p) @ snd (scanLit b p) = p"
proof (induction b p rule: scanLit.induct)
  case (2 b c cs)
  show ?case
  proof (cases "c = CHR 0x5C")
    case True
    then show ?thesis using "2.IH"(1) by (cases cs) (simp_all add: case_prod_beta)
  next
    case False
    then show ?thesis using "2.IH"(2) by (simp add: case_prod_beta)
  qed
qed simp

lemma scanLit_ne: "c \<noteq> CHR ''*'' \<Longrightarrow> fst (scanLit False (c # cs)) \<noteq> []"
  by (cases cs) (simp_all add: case_prod_beta)

lemma dropWhile_hd: "dropWhile P xs = x # ys \<Longrightarrow> \<not> P x"
  by (induction xs) (auto split: if_splits)

lemma scanChunk_shrinks:
  assumes "p \<noteq> []"
  shows "length (snd (snd (scanChunk p))) < length p"
proof -
  let ?q = "dropWhile (\<lambda>c. c = CHR ''*'') p"
  have le: "length ?q \<le> length p" by (simp add: length_dropWhile_le)
  have app: "length (fst (scanLit False ?q)) + length (snd (scanLit False ?q)) = length ?q"
    using arg_cong [OF scanLit_append [of False ?q], of length] by simp
  show ?thesis
  proof (cases ?q)
    case Nil
    then show ?thesis using assms by (simp add: scanChunk_def Let_def del: dropWhile_eq_Nil_conv)
  next
    case (Cons c cs)
    then have "fst (scanLit False ?q) \<noteq> []" using scanLit_ne [of c cs] dropWhile_hd [of _ p c cs] by auto
    then have "length (fst (scanLit False ?q)) > 0" by simp
    then have "length (snd (scanLit False ?q)) < length p" using app le by linarith
    then show ?thesis by (simp add: scanChunk_def Let_def)
  qed
qed

text \<open>\<open>path.Match(pattern, name)\<close>.\<close>

function Match :: "string \<Rightarrow> string \<Rightarrow> goerr + bool" where
  "Match pattern name =
     (if pattern = [] then Inr (name = [])
      else let (star, chunk, rest) = scanChunk pattern
           in if star \<and> chunk = [] then Inr (CHR ''/'' \<notin> set name)
              else case matchChunk chunk name of
                Inr (Some t) \<Rightarrow>
                  if t = [] \<or> rest \<noteq> [] then Match rest t
                  else if star then
                    (case matchStar (rest = []) chunk name of
                       Inl e \<Rightarrow> Inl e
                     | Inr (Some t) \<Rightarrow> Match rest t
                     | Inr None \<Rightarrow> Inr False)
                  else Inr False
              | Inl e \<Rightarrow> Inl e
              | Inr None \<Rightarrow>
                  if star then
                    (case matchStar (rest = []) chunk name of
                       Inl e \<Rightarrow> Inl e
                     | Inr (Some t) \<Rightarrow> Match rest t
                     | Inr None \<Rightarrow> Inr False)
                  else Inr False)"
  by pat_completeness auto
termination
proof (relation "measure (\<lambda>(pattern, _). length pattern)", goal_cases)
  case 2
  then show ?case using scanChunk_shrinks by (metis case_prod_conv in_measure snd_conv)
next
  case 3
  then show ?case using scanChunk_shrinks by (metis case_prod_conv in_measure snd_conv)
next
  case 4
  then show ?case using scanChunk_shrinks by (metis case_prod_conv in_measure snd_conv)
qed simp

declare Match.simps [simp del] matchRanges.simps [simp del]

section \<open>Paths below a prefix\<close>

definition pathIsEqualOrBelowPrefix :: "string \<Rightarrow> string \<Rightarrow> bool" where
  "pathIsEqualOrBelowPrefix path pre \<longleftrightarrow>
     HasPrefix path pre \<and> (length path = length pre \<or> path ! length pre = CHR ''/'')"

definition pathIsBelowPrefixStrict :: "string \<Rightarrow> string \<Rightarrow> bool" where
  "pathIsBelowPrefixStrict path pre \<longleftrightarrow>
     pathIsEqualOrBelowPrefix path pre \<and> length path \<ge> length pre + 2"

end
