(* ===== verification/Registry_Events.thy ===== *)
theory Registry_Events
  imports Repo_Events Config_Map Go_Path
begin

text \<open>
  Events of FSO registries (\<open>backend/internal/fsoregistry/pbevents\<close> and the struct \<open>Event\<close> of
  \<open>fsoregistry.go\<close>): the protobuf message with its submessages, the validation of repo namings and init policies, the
  constructors \<open>New*()\<close> and the parsers \<open>fromPb*()\<close>.  Names that \<open>fsorepos\<close> has, too, carry the prefix \<open>rg\<close>.
\<close>

section \<open>The message\<close>

datatype (plugins only: code) RegistryEvent_Type =
    RT_FSO_REGISTRY_ADDED | RT_EPHEMERAL_WORKFLOWS_ENABLED | RT_FSO_REPO_ACL_POLICY_UPDATED
  | RT_FSO_ROOT_ADDED | RT_FSO_ROOT_REMOVED | RT_FSO_ROOT_UPDATED | RT_FSO_REPO_NAMING_UPDATED
  | RT_FSO_REPO_NAMING_CONFIG_UPDATED | RT_FSO_REPO_INIT_POLICY_UPDATED
  | RT_FSO_ROOT_ARCHIVE_RECIPIENTS_UPDATED | RT_FSO_ROOT_SHADOW_BACKUP_RECIPIENTS_UPDATED
  | RT_FSO_REPO_ACCEPTED | RT_FSO_REPO_MOVE_ACCEPTED | RT_FSO_REPO_MOVED | RT_FSO_REPO_ADDED
  | RT_FSO_REPO_REINIT_ACCEPTED | RT_FSO_SHADOW_REPO_MOVE_STARTED | RT_FSO_REPO_ENABLE_GITLAB_ACCEPTED
  | RT_FSO_SPLIT_ROOT_ENABLED | RT_FSO_SPLIT_ROOT_PARAMS_UPDATED | RT_FSO_SPLIT_ROOT_DISABLED
  | RT_FSO_PATH_FLAG_SET | RT_FSO_PATH_FLAG_UNSET
  | RT_FSO_FREEZE_REPO_STARTED_2 | RT_FSO_FREEZE_REPO_COMPLETED_2
  | RT_FSO_UNFREEZE_REPO_STARTED_2 | RT_FSO_UNFREEZE_REPO_COMPLETED_2
  | RT_FSO_ARCHIVE_REPO_STARTED | RT_FSO_ARCHIVE_REPO_COMPLETED
  | RT_FSO_UNARCHIVE_REPO_STARTED | RT_FSO_UNARCHIVE_REPO_COMPLETED
  | RT_OTHER int

record FsoRootInfo =
  fr_GlobalRoot :: string
  fr_Host :: string
  fr_HostRoot :: string
  fr_GitlabNamespace :: string

record FsoRepoInfo =
  fi_Id :: gobytes
  fi_GlobalPath :: string
  fi_CreatorName :: string
  fi_CreatorEmail :: string
  fi_Confirmed :: bool

record FsoRepoNaming =
  nm_GlobalRoot :: string
  nm_Rule :: string
  nm_Config :: "ConfigMapPb option"

datatype (plugins only: code) InitPolicy = IPOL_UNSPECIFIED | IPOL_SUBDIR_TRACKING_GLOBLIST | IPOL_OTHER int

record FsoRepoInitPolicy =
  ip_GlobalRoot :: string
  ip_Policy :: InitPolicy
  ip_SubdirTrackingGloblist :: "(string \<times> PbSubdirTracking) list"

record FsoSplitRootParams =
  sp_GlobalRoot :: string
  sp_MaxDepth :: "32 word"
  sp_MinDiskUsage :: "64 word"
  sp_MaxDiskUsage :: "64 word"

datatype (plugins only: code) AclPolicy = P_UNSPECIFIED | P_NO_ACLS | P_PROPAGATE_ROOT_ACLS | P_OTHER int

text \<open>
  The submessage \<open>FsoRegistryInfo\<close> has only a name, \<open>FsoPathFlag\<close> a path and flags; of \<open>RepoAclPolicy\<close> the events
  use the policy.
\<close>

record RegistryPb =
  gp_Event :: RegistryEvent_Type
  gp_Id :: gobytes
  gp_Parent :: gobytes
  gp_RepoId :: gobytes
  gp_RepoEventId :: gobytes
  gp_WorkflowId :: gobytes
  gp_EphemeralWorkflowsId :: gobytes
  gp_FsoRegistryInfo :: "string option"
  gp_FsoRootInfo :: "FsoRootInfo option"
  gp_FsoRepoInfo :: "FsoRepoInfo option"
  gp_FsoRepoReinitReason :: string
  gp_GitlabNamespace :: string
  gp_FsoRepoNaming :: "FsoRepoNaming option"
  gp_FsoRepoInitPolicy :: "FsoRepoInitPolicy option"
  gp_FsoSplitRootParams :: "FsoSplitRootParams option"
  gp_FsoPathFlag :: "(string \<times> 32 word) option"
  gp_FsoGpgKeyFingerprints :: "byte list list"
  gp_StatusCode :: "32 word"
  gp_RepoAclPolicy :: "AclPolicy option"

definition registryPb :: "RegistryEvent_Type \<Rightarrow> RegistryPb" where
  "registryPb t =
     \<lparr>gp_Event = t, gp_Id = None, gp_Parent = None, gp_RepoId = None, gp_RepoEventId = None, gp_WorkflowId = None,
      gp_EphemeralWorkflowsId = None, gp_FsoRegistryInfo = None, gp_FsoRootInfo = None, gp_FsoRepoInfo = None,
      gp_FsoRepoReinitReason = [], gp_GitlabNamespace = [], gp_FsoRepoNaming = None, gp_FsoRepoInitPolicy = None,
      gp_FsoSplitRootParams = None, gp_FsoPathFlag = None, gp_FsoGpgKeyFingerprints = [], gp_StatusCode = 0,
      gp_RepoAclPolicy = None\<rparr>"

definition rootInfoPb :: "string \<Rightarrow> FsoRootInfo" where
  "rootInfoPb groot = \<lparr>fr_GlobalRoot = groot, fr_Host = [], fr_HostRoot = [], fr_GitlabNamespace = []\<rparr>"

definition repoInfoPb :: "byte list \<Rightarrow> string \<Rightarrow> FsoRepoInfo" where
  "repoInfoPb i gpath =
     \<lparr>fi_Id = Some i, fi_GlobalPath = gpath, fi_CreatorName = [], fi_CreatorEmail = [], fi_Confirmed = False\<rparr>"

section \<open>The events\<close>

datatype (plugins only: code) RegistryEvent =
    RvRegistryAdded string
  | RvEphemeralWorkflowsEnabled uuid
  | RvRepoAclPolicyUpdated AclPolicy
  | RvRootAdded FsoRootInfo
  | RvRootRemoved string
  | RvRootUpdated FsoRootInfo
  | RvRepoNamingUpdated FsoRepoNaming
  | RvRepoNamingConfigUpdated string string ConfigMapPb \<comment> \<open>global root, rule, config patch\<close>
  | RvRepoInitPolicyUpdated FsoRepoInitPolicy
  | RvRootArchiveRecipientsUpdated string "byte list list"
  | RvRootShadowBackupRecipientsUpdated string "byte list list"
  | RvRepoAccepted FsoRepoInfo
  | RvRepoAdded FsoRepoInfo
  | RvRepoReinitAccepted gobytes string string \<comment> \<open>repo id, global path, reason\<close>
  | RvShadowRepoMoveStarted uuid ulid uuid \<comment> \<open>repo id, repo event id, workflow id\<close>
  | RvRepoMoveAccepted uuid uuid string \<comment> \<open>repo id, workflow id, new global path\<close>
  | RvRepoMoved uuid ulid uuid string \<comment> \<open>repo id, repo event id, workflow id, global path\<close>
  | RvRepoEnableGitlabAccepted uuid string
  | RvSplitRootEnabled string
  | RvSplitRootParamsUpdated FsoSplitRootParams
  | RvSplitRootDisabled string
  | RvPathFlagSet string "32 word"
  | RvPathFlagUnset string "32 word"
  | RvFreezeRepoStarted2 uuid uuid \<comment> \<open>repo id, workflow id; the same below\<close>
  | RvFreezeRepoCompleted2 uuid uuid "32 word"
  | RvUnfreezeRepoStarted2 uuid uuid
  | RvUnfreezeRepoCompleted2 uuid uuid "32 word"
  | RvArchiveRepoStarted uuid uuid
  | RvArchiveRepoCompleted uuid uuid "32 word"
  | RvUnarchiveRepoStarted uuid uuid
  | RvUnarchiveRepoCompleted uuid uuid "32 word"

datatype (plugins only: code) reg_event_error =
    RgErrUnknownEventType | RgErrMalformedGPGFingerprint | RgErrDuplicateGPGFingerprint | RgErrMissingRootInfo
  | RgErrMalformedRootInfo | RgErrInvalidEvent | ErrMalformedRepoNamingNil | ErrMalformedRepoNamingRule
  | ErrMalformedRepoNamingEmptyGlobalRoot | ErrNamingConfigNil | ErrMissingLevel | ErrLevelWrongType
  | ErrLevelNotInteger | ErrLevelOutOfRange | ErrIgnoreHasWrongType | ErrIgnoreListEmpty
  | ErrUnexpectedConfigField | ErrMissingPatterns | ErrPatternsWrongType | ErrPolicyNil
  | ErrUnknownRepoNamingPolicy | ErrMissingGloblist
  | PatternInvalidError string | PatternInvalidActionError string | PatternInvalidGlobError string
  | DepthPathInvalidError string string
  | ConfigMapFieldError string string
  | RgParseError string goerr
  | RgOpaqueError goerr \<comment> \<open>an error of \<open>uuid\<close>, \<open>ulid\<close> or \<open>configmap\<close> as it is\<close>

text \<open>The guard \<open>evpb.Event != ...\<close>, and \<open>if err := ...; err != nil\<close>.\<close>

definition rgGuard :: "RegistryEvent_Type \<Rightarrow> RegistryPb \<Rightarrow> ('e, 'b) outcome \<Rightarrow> ('e, 'b) outcome" where
  "rgGuard t evpb k = (if gp_Event evpb \<noteq> t then Panic ''invalid event'' else k)"

definition ifError :: "'e option \<Rightarrow> ('e, 'b) outcome \<Rightarrow> ('e, 'b) outcome" where
  "ifError r k = (case r of Some e \<Rightarrow> Err e | None \<Rightarrow> k)"

lemma rg_guard_simps [simp]:
  "rgGuard (gp_Event p) p k = k" "ifError (Some e) k = Err e" "ifError None k = k"
  by (simp_all add: rgGuard_def ifError_def)

section \<open>Validation of namings and policies\<close>

text \<open>\<open>len(cfg)\<close> of the map that \<open>ParsePb()\<close> returned for the fields.\<close>

definition cfgLen :: "ConfigMapPb \<Rightarrow> nat" where
  "cfgLen fs = length (remdups (map fst fs))"

definition validateConfigSingleStringListGet :: "ConfigMapPb \<Rightarrow> string \<Rightarrow> reg_event_error + string list" where
  "validateConfigSingleStringListGet cfgPb key =
     (case ParsePb (Some cfgPb) of
        Inl e \<Rightarrow> Inl (RgOpaqueError e)
      | Inr cfg \<Rightarrow>
          (case cfg key of
             None \<Rightarrow> Inl (ConfigMapFieldError key ''missing field'')
           | Some v \<Rightarrow>
               (case v of
                  CTextList val \<Rightarrow>
                    if val = [] then Inl (ConfigMapFieldError key ''empty list'')
                    else if cfgLen cfgPb \<noteq> 1 then Inl ErrUnexpectedConfigField
                    else Inr val
                | _ \<Rightarrow> Inl (ConfigMapFieldError key ''value has wrong type''))))"

definition validateConfigSingleStringList :: "ConfigMapPb \<Rightarrow> string \<Rightarrow> reg_event_error option" where
  "validateConfigSingleStringList cfgPb key =
     (case validateConfigSingleStringListGet cfgPb key of Inl e \<Rightarrow> Some e | Inr _ \<Rightarrow> None)"

definition validateRepoNamingStdtools2017 :: "FsoRepoNaming \<Rightarrow> reg_event_error option" where
  "validateRepoNamingStdtools2017 naming =
     (case nm_Config naming of None \<Rightarrow> None | Some cfgPb \<Rightarrow> validateConfigSingleStringList cfgPb ''ignore'')"

definition validateRepoNamingSubdirLevel :: "FsoRepoNaming \<Rightarrow> reg_event_error option" where
  "validateRepoNamingSubdirLevel naming =
     (case nm_Config naming of
        None \<Rightarrow> Some ErrNamingConfigNil
      | Some cfgPb \<Rightarrow>
          (case ParsePb (Some cfgPb) of
             Inl e \<Rightarrow> Some (RgOpaqueError e)
           | Inr cfg \<Rightarrow>
               (case cfg ''level'' of
                  None \<Rightarrow> Some ErrMissingLevel
                | Some (CNumber val) \<Rightarrow>
                    (case intLevel val of
                       None \<Rightarrow> Some ErrLevelNotInteger
                     | Some level \<Rightarrow>
                         if level < 1 \<or> level > 4 then Some ErrLevelOutOfRange
                         else
                           (case cfg ''ignore'' of
                              None \<Rightarrow> if cfgLen cfgPb \<noteq> 1 then Some ErrUnexpectedConfigField else None
                            | Some (CTextList val) \<Rightarrow>
                                if val = [] then Some ErrIgnoreListEmpty
                                else if cfgLen cfgPb \<noteq> 2 then Some ErrUnexpectedConfigField
                                else None
                            | Some _ \<Rightarrow> Some ErrIgnoreHasWrongType))
                | Some _ \<Rightarrow> Some ErrLevelWrongType)))"

fun validatePatterns :: "string list \<Rightarrow> reg_event_error option" where
  "validatePatterns [] = None"
| "validatePatterns (pat # pats) =
     (case SplitN2 pat (CHR '' '') of
        [action, glob] \<Rightarrow>
          if action \<notin> {''enter'', ''repo'', ''superrepo'', ''ignore''} then Some (PatternInvalidActionError pat)
          else (case Match glob ''/a/b/c'' of
                  Inl e \<Rightarrow> Some (PatternInvalidGlobError pat)
                | Inr _ \<Rightarrow> validatePatterns pats)
      | _ \<Rightarrow> Some (PatternInvalidError pat))"

definition validateRepoNamingPathPatterns :: "FsoRepoNaming \<Rightarrow> reg_event_error option" where
  "validateRepoNamingPathPatterns naming =
     (case nm_Config naming of
        None \<Rightarrow> Some ErrNamingConfigNil
      | Some cfgPb \<Rightarrow>
          (case ParsePb (Some cfgPb) of
             Inl e \<Rightarrow> Some (RgOpaqueError e)
           | Inr cfg \<Rightarrow>
               (case cfg ''patterns'' of
                  None \<Rightarrow> Some ErrMissingPatterns
                | Some (CTextList patterns) \<Rightarrow>
                    (case validatePatterns patterns of
                       Some e \<Rightarrow> Some e
                     | None \<Rightarrow> if cfgLen cfgPb \<noteq> 1 then Some ErrUnexpectedConfigField else None)
                | Some _ \<Rightarrow> Some ErrPatternsWrongType)))"

definition validateRepoNamingNonNilIgnoreListOnly :: "FsoRepoNaming \<Rightarrow> reg_event_error option" where
  "validateRepoNamingNonNilIgnoreListOnly naming =
     (case nm_Config naming of
        None \<Rightarrow> Some ErrNamingConfigNil
      | Some cfgPb \<Rightarrow> validateConfigSingleStringList cfgPb ''ignore'')"

fun validateDepthPaths :: "string list \<Rightarrow> reg_event_error option" where
  "validateDepthPaths [] = None"
| "validateDepthPaths (p # ps) =
     (case SplitN2 p (CHR '' '') of
        [d, path] \<Rightarrow>
          (case ParseUint10 d of
             Inl e \<Rightarrow> Some (DepthPathInvalidError p ''invalid depth'')
           | Inr depth \<Rightarrow>
               if depth > 2 then Some (DepthPathInvalidError p ''depth to great'') else validateDepthPaths ps)
      | _ \<Rightarrow> Some (DepthPathInvalidError p ''malformed''))"

definition validateRepoNamingPatchPathPatterns :: "FsoRepoNaming \<Rightarrow> reg_event_error option" where
  "validateRepoNamingPatchPathPatterns naming =
     (case nm_Config naming of
        None \<Rightarrow> Some ErrNamingConfigNil
      | Some cfgPb \<Rightarrow>
          (case validateConfigSingleStringListGet cfgPb ''enabledPaths'' of
             Inl e \<Rightarrow> Some e
           | Inr ps \<Rightarrow> validateDepthPaths ps))"

definition ValidateRepoNaming :: "FsoRepoNaming option \<Rightarrow> reg_event_error option" where
  "ValidateRepoNaming naming =
     (case naming of
        None \<Rightarrow> Some ErrMalformedRepoNamingNil
      | Some n \<Rightarrow>
          if nm_Rule n = ''Stdtools2017'' then validateRepoNamingStdtools2017 n
          else if nm_Rule n = ''SubdirLevel'' then validateRepoNamingSubdirLevel n
          else if nm_Rule n = ''PathPatterns'' then validateRepoNamingPathPatterns n
          else Some ErrMalformedRepoNamingRule)"

definition ValidateRepoNamingPatch :: "FsoRepoNaming option \<Rightarrow> reg_event_error option" where
  "ValidateRepoNamingPatch naming =
     (case naming of
        None \<Rightarrow> Some ErrMalformedRepoNamingNil
      | Some n \<Rightarrow>
          if nm_GlobalRoot n = [] then Some ErrMalformedRepoNamingEmptyGlobalRoot
          else if nm_Rule n = ''Stdtools2017'' then validateRepoNamingNonNilIgnoreListOnly n
          else if nm_Rule n = ''SubdirLevel'' then validateRepoNamingNonNilIgnoreListOnly n
          else if nm_Rule n = ''PathPatterns'' then validateRepoNamingPatchPathPatterns n
          else Some ErrMalformedRepoNamingRule)"

fun validateGlobs :: "(string \<times> PbSubdirTracking) list \<Rightarrow> reg_event_error option" where
  "validateGlobs [] = None"
| "validateGlobs ((pat, t) # gs) =
     (case Match pat ''/a/b/c'' of Inl e \<Rightarrow> Some (PatternInvalidGlobError pat) | Inr _ \<Rightarrow> validateGlobs gs)"

definition validateRepoInitPolicySubdirTrackingGloblist :: "FsoRepoInitPolicy \<Rightarrow> reg_event_error option" where
  "validateRepoInitPolicySubdirTrackingGloblist policy =
     (if length (ip_SubdirTrackingGloblist policy) < 1 then Some ErrMissingGloblist
      else validateGlobs (ip_SubdirTrackingGloblist policy))"

definition ValidateRepoInitPolicy :: "FsoRepoInitPolicy option \<Rightarrow> reg_event_error option" where
  "ValidateRepoInitPolicy policy =
     (case policy of
        None \<Rightarrow> Some ErrPolicyNil
      | Some p \<Rightarrow>
          (case ip_Policy p of
             IPOL_SUBDIR_TRACKING_GLOBLIST \<Rightarrow> validateRepoInitPolicySubdirTrackingGloblist p
           | _ \<Rightarrow> Some ErrUnknownRepoNamingPolicy))"

definition checkGPGKeyFingerprints :: "byte list list \<Rightarrow> reg_event_error option" where
  "checkGPGKeyFingerprints keys =
     (if list_ex (\<lambda>k. length k \<noteq> 20) keys then Some RgErrMalformedGPGFingerprint
      else if HasDuplicate keys then Some RgErrDuplicateGPGFingerprint
      else None)"

section \<open>Constructors and parsers\<close>

definition NewRegistryAdded :: "string \<Rightarrow> RegistryPb" where
  "NewRegistryAdded nam = (registryPb RT_FSO_REGISTRY_ADDED)\<lparr>gp_FsoRegistryInfo := Some nam\<rparr>"

definition fromPbRegistryAdded :: "RegistryPb \<Rightarrow> (reg_event_error, RegistryEvent) outcome" where
  "fromPbRegistryAdded evpb =
     rgGuard RT_FSO_REGISTRY_ADDED evpb (deref (gp_FsoRegistryInfo evpb) (\<lambda>x. Ok (RvRegistryAdded x)))"

definition NewEphemeralWorkflowsEnabled :: "uuid \<Rightarrow> RegistryPb" where
  "NewEphemeralWorkflowsEnabled i =
     (registryPb RT_EPHEMERAL_WORKFLOWS_ENABLED)\<lparr>gp_EphemeralWorkflowsId := Some (idBytes i)\<rparr>"

definition fromPbEphemeralWorkflowsEnabled :: "RegistryPb \<Rightarrow> (reg_event_error, RegistryEvent) outcome" where
  "fromPbEphemeralWorkflowsEnabled evpb =
     rgGuard RT_EPHEMERAL_WORKFLOWS_ENABLED evpb
       (onError RgOpaqueError (FromBytes (gp_EphemeralWorkflowsId evpb)) (\<lambda>i. Ok (RvEphemeralWorkflowsEnabled i)))"

definition NewRepoAclPolicyUpdated :: "AclPolicy \<Rightarrow> RegistryPb" where
  "NewRepoAclPolicyUpdated policy = (registryPb RT_FSO_REPO_ACL_POLICY_UPDATED)\<lparr>gp_RepoAclPolicy := Some policy\<rparr>"

definition fromPbRepoAclPolicyUpdated :: "RegistryPb \<Rightarrow> (reg_event_error, RegistryEvent) outcome" where
  "fromPbRepoAclPolicyUpdated evpb =
     (if gp_Event evpb \<noteq> RT_FSO_REPO_ACL_POLICY_UPDATED then Err RgErrInvalidEvent
      else case gp_RepoAclPolicy evpb of
        None \<Rightarrow> Err RgErrInvalidEvent
      | Some ppol \<Rightarrow>
          (case ppol of
             P_NO_ACLS \<Rightarrow> Ok (RvRepoAclPolicyUpdated ppol)
           | P_PROPAGATE_ROOT_ACLS \<Rightarrow> Ok (RvRepoAclPolicyUpdated ppol)
           | _ \<Rightarrow> Err RgErrInvalidEvent))"

definition NewRootAdded :: "FsoRootInfo \<Rightarrow> RegistryPb" where
  "NewRootAdded info = (registryPb RT_FSO_ROOT_ADDED)\<lparr>gp_FsoRootInfo := Some info\<rparr>"

definition fromPbRootAdded :: "RegistryPb \<Rightarrow> (reg_event_error, RegistryEvent) outcome" where
  "fromPbRootAdded evpb =
     rgGuard RT_FSO_ROOT_ADDED evpb (deref (gp_FsoRootInfo evpb) (\<lambda>x. Ok (RvRootAdded x)))"

definition NewRootRemoved :: "string \<Rightarrow> RegistryPb" where
  "NewRootRemoved groot = (registryPb RT_FSO_ROOT_REMOVED)\<lparr>gp_FsoRootInfo := Some (rootInfoPb groot)\<rparr>"

definition fromPbRootRemoved :: "RegistryPb \<Rightarrow> (reg_event_error, RegistryEvent) outcome" where
  "fromPbRootRemoved evpb =
     rgGuard RT_FSO_ROOT_REMOVED evpb (deref (gp_FsoRootInfo evpb) (\<lambda>x. Ok (RvRootRemoved (fr_GlobalRoot x))))"

definition NewRootUpdated :: "FsoRootInfo \<Rightarrow> RegistryPb" where
  "NewRootUpdated info = (registryPb RT_FSO_ROOT_UPDATED)\<lparr>gp_FsoRootInfo := Some info\<rparr>"

definition fromPbRootUpdated :: "RegistryPb \<Rightarrow> (reg_event_error, RegistryEvent) outcome" where
  "fromPbRootUpdated evpb =
     rgGuard RT_FSO_ROOT_UPDATED evpb (deref (gp_FsoRootInfo evpb) (\<lambda>x. Ok (RvRootUpdated x)))"

definition NewRepoNamingUpdated :: "FsoRepoNaming \<Rightarrow> RegistryPb" where
  "NewRepoNamingUpdated n = (registryPb RT_FSO_REPO_NAMING_UPDATED)\<lparr>gp_FsoRepoNaming := Some n\<rparr>"

definition fromPbRepoNamingUpdated :: "RegistryPb \<Rightarrow> (reg_event_error, RegistryEvent) outcome" where
  "fromPbRepoNamingUpdated evpb =
     rgGuard RT_FSO_REPO_NAMING_UPDATED evpb
       (ifError (ValidateRepoNaming (gp_FsoRepoNaming evpb))
         (deref (gp_FsoRepoNaming evpb) (\<lambda>n. Ok (RvRepoNamingUpdated n))))"

definition NewRepoNamingConfigUpdated :: "FsoRepoNaming \<Rightarrow> RegistryPb" where
  "NewRepoNamingConfigUpdated patch = (registryPb RT_FSO_REPO_NAMING_CONFIG_UPDATED)\<lparr>gp_FsoRepoNaming := Some patch\<rparr>"

definition fromPbRepoNamingConfigUpdated :: "RegistryPb \<Rightarrow> (reg_event_error, RegistryEvent) outcome" where
  "fromPbRepoNamingConfigUpdated evpb =
     rgGuard RT_FSO_REPO_NAMING_CONFIG_UPDATED evpb
       (ifError (ValidateRepoNamingPatch (gp_FsoRepoNaming evpb))
         (deref (gp_FsoRepoNaming evpb) (\<lambda>n.
            deref (nm_Config n) (\<lambda>cfg. Ok (RvRepoNamingConfigUpdated (nm_GlobalRoot n) (nm_Rule n) cfg)))))"

definition NewRepoInitPolicyUpdated :: "FsoRepoInitPolicy \<Rightarrow> RegistryPb" where
  "NewRepoInitPolicyUpdated p = (registryPb RT_FSO_REPO_INIT_POLICY_UPDATED)\<lparr>gp_FsoRepoInitPolicy := Some p\<rparr>"

definition fromPbRepoInitPolicyUpdated :: "RegistryPb \<Rightarrow> (reg_event_error, RegistryEvent) outcome" where
  "fromPbRepoInitPolicyUpdated evpb =
     rgGuard RT_FSO_REPO_INIT_POLICY_UPDATED evpb
       (ifError (ValidateRepoInitPolicy (gp_FsoRepoInitPolicy evpb))
         (deref (gp_FsoRepoInitPolicy evpb) (\<lambda>p. Ok (RvRepoInitPolicyUpdated p))))"

definition NewRepoAccepted :: "FsoRepoInfo \<Rightarrow> RegistryPb" where
  "NewRepoAccepted info = (registryPb RT_FSO_REPO_ACCEPTED)\<lparr>gp_FsoRepoInfo := Some info\<rparr>"

definition fromPbRepoAccepted :: "RegistryPb \<Rightarrow> (reg_event_error, RegistryEvent) outcome" where
  "fromPbRepoAccepted evpb =
     rgGuard RT_FSO_REPO_ACCEPTED evpb (deref (gp_FsoRepoInfo evpb) (\<lambda>x. Ok (RvRepoAccepted x)))"

definition NewRepoAdded :: "byte list \<Rightarrow> string \<Rightarrow> ulid \<Rightarrow> RegistryPb" where
  "NewRepoAdded repoId globalPath repoEventId =
     (let ev = (registryPb RT_FSO_REPO_ADDED)\<lparr>gp_FsoRepoInfo := Some (repoInfoPb repoId globalPath)\<rparr>
      in if repoEventId \<noteq> ulidNil then ev\<lparr>gp_RepoEventId := Some (idBytes repoEventId)\<rparr> else ev)"

definition fromPbRepoAdded :: "RegistryPb \<Rightarrow> (reg_event_error, RegistryEvent) outcome" where
  "fromPbRepoAdded evpb =
     rgGuard RT_FSO_REPO_ADDED evpb (deref (gp_FsoRepoInfo evpb) (\<lambda>x. Ok (RvRepoAdded x)))"

definition NewRepoReinitAccepted :: "byte list \<Rightarrow> string \<Rightarrow> string \<Rightarrow> RegistryPb" where
  "NewRepoReinitAccepted repoId globalPath reason =
     (registryPb RT_FSO_REPO_REINIT_ACCEPTED)
       \<lparr>gp_FsoRepoInfo := Some (repoInfoPb repoId globalPath), gp_FsoRepoReinitReason := reason\<rparr>"

definition fromPbRepoReinitAccepted :: "RegistryPb \<Rightarrow> (reg_event_error, RegistryEvent) outcome" where
  "fromPbRepoReinitAccepted evpb =
     rgGuard RT_FSO_REPO_REINIT_ACCEPTED evpb
       (deref (gp_FsoRepoInfo evpb) (\<lambda>x.
          Ok (RvRepoReinitAccepted (fi_Id x) (fi_GlobalPath x) (gp_FsoRepoReinitReason evpb))))"

definition rgNewShadowRepoMoveStarted :: "uuid \<Rightarrow> ulid \<Rightarrow> uuid \<Rightarrow> RegistryPb" where
  "rgNewShadowRepoMoveStarted repoId repoEventId workflowId =
     (registryPb RT_FSO_SHADOW_REPO_MOVE_STARTED)
       \<lparr>gp_RepoId := Some (idBytes repoId), gp_RepoEventId := Some (idBytes repoEventId),
        gp_WorkflowId := Some (idBytes workflowId)\<rparr>"

definition rgFromPbShadowRepoMoveStarted ::
  "ulid_unmarshal \<Rightarrow> RegistryPb \<Rightarrow> (reg_event_error, RegistryEvent) outcome" where
  "rgFromPbShadowRepoMoveStarted ub evpb =
     rgGuard RT_FSO_SHADOW_REPO_MOVE_STARTED evpb
       (onError RgOpaqueError (FromBytes (gp_RepoId evpb)) (\<lambda>repoId.
        onError RgOpaqueError (ParseBytes ub (gp_RepoEventId evpb)) (\<lambda>repoEventId.
        onError RgOpaqueError (FromBytes (gp_WorkflowId evpb)) (\<lambda>workflowId.
          Ok (RvShadowRepoMoveStarted repoId repoEventId workflowId)))))"

definition NewPbRepoMoveAccepted :: "uuid \<Rightarrow> uuid \<Rightarrow> string \<Rightarrow> RegistryPb" where
  "NewPbRepoMoveAccepted repoId workflowId newGlobalPath =
     (registryPb RT_FSO_REPO_MOVE_ACCEPTED)
       \<lparr>gp_WorkflowId := Some (idBytes workflowId),
        gp_FsoRepoInfo := Some (repoInfoPb (idBytes repoId) newGlobalPath)\<rparr>"

definition fromPbRepoMoveAccepted :: "RegistryPb \<Rightarrow> (reg_event_error, RegistryEvent) outcome" where
  "fromPbRepoMoveAccepted evpb =
     rgGuard RT_FSO_REPO_MOVE_ACCEPTED evpb
       (deref (gp_FsoRepoInfo evpb) (\<lambda>x.
        onError (RgParseError ''repo ID'') (FromBytes (fi_Id x)) (\<lambda>repoId.
        onError (RgParseError ''workflow ID'') (FromBytes (gp_WorkflowId evpb)) (\<lambda>workflowId.
          Ok (RvRepoMoveAccepted repoId workflowId (fi_GlobalPath x))))))"

definition rgNewPbRepoMoved :: "uuid \<Rightarrow> ulid \<Rightarrow> uuid \<Rightarrow> string \<Rightarrow> RegistryPb" where
  "rgNewPbRepoMoved repoId repoEventId workflowId globalPath =
     (registryPb RT_FSO_REPO_MOVED)
       \<lparr>gp_WorkflowId := Some (idBytes workflowId), gp_RepoEventId := Some (idBytes repoEventId),
        gp_FsoRepoInfo := Some (repoInfoPb (idBytes repoId) globalPath)\<rparr>"

definition rgFromPbRepoMoved :: "ulid_unmarshal \<Rightarrow> RegistryPb \<Rightarrow> (reg_event_error, RegistryEvent) outcome" where
  "rgFromPbRepoMoved ub evpb =
     rgGuard RT_FSO_REPO_MOVED evpb
       (deref (gp_FsoRepoInfo evpb) (\<lambda>x.
        onError (RgParseError ''repo ID'') (FromBytes (fi_Id x)) (\<lambda>repoId.
        onError (RgParseError ''repo event ID'') (ParseBytes ub (gp_RepoEventId evpb)) (\<lambda>repoEventId.
        onError (RgParseError ''workflow ID'') (FromBytes (gp_WorkflowId evpb)) (\<lambda>workflowId.
          Ok (RvRepoMoved repoId repoEventId workflowId (fi_GlobalPath x)))))))"

definition NewRepoEnableGitlabAccepted :: "uuid \<Rightarrow> string \<Rightarrow> RegistryPb" where
  "NewRepoEnableGitlabAccepted repoId gitlabNamespace =
     (registryPb RT_FSO_REPO_ENABLE_GITLAB_ACCEPTED)
       \<lparr>gp_RepoId := Some (idBytes repoId), gp_GitlabNamespace := gitlabNamespace\<rparr>"

definition fromPbRepoEnableGitlabAccepted :: "RegistryPb \<Rightarrow> (reg_event_error, RegistryEvent) outcome" where
  "fromPbRepoEnableGitlabAccepted evpb =
     rgGuard RT_FSO_REPO_ENABLE_GITLAB_ACCEPTED evpb
       (onError RgOpaqueError (FromBytes (gp_RepoId evpb)) (\<lambda>repoId.
          Ok (RvRepoEnableGitlabAccepted repoId (gp_GitlabNamespace evpb))))"

definition splitParams :: "string \<Rightarrow> FsoSplitRootParams" where
  "splitParams groot = \<lparr>sp_GlobalRoot = groot, sp_MaxDepth = 0, sp_MinDiskUsage = 0, sp_MaxDiskUsage = 0\<rparr>"

definition NewSplitRootEnabled :: "string \<Rightarrow> RegistryPb" where
  "NewSplitRootEnabled groot =
     (registryPb RT_FSO_SPLIT_ROOT_ENABLED)\<lparr>gp_FsoSplitRootParams := Some (splitParams groot)\<rparr>"

definition fromPbSplitRootEnabled :: "RegistryPb \<Rightarrow> (reg_event_error, RegistryEvent) outcome" where
  "fromPbSplitRootEnabled evpb =
     (if gp_Event evpb \<noteq> RT_FSO_SPLIT_ROOT_ENABLED then Err RgErrInvalidEvent
      else case gp_FsoSplitRootParams evpb of
        None \<Rightarrow> Err RgErrInvalidEvent
      | Some params \<Rightarrow>
          if sp_GlobalRoot params = [] then Err RgErrInvalidEvent else Ok (RvSplitRootEnabled (sp_GlobalRoot params)))"

definition NewSplitRootParamsUpdated :: "string \<Rightarrow> FsoSplitRootParams \<Rightarrow> RegistryPb" where
  "NewSplitRootParamsUpdated groot cfg =
     (registryPb RT_FSO_SPLIT_ROOT_PARAMS_UPDATED)
       \<lparr>gp_FsoSplitRootParams := Some \<lparr>sp_GlobalRoot = groot, sp_MaxDepth = sp_MaxDepth cfg,
          sp_MinDiskUsage = sp_MinDiskUsage cfg, sp_MaxDiskUsage = sp_MaxDiskUsage cfg\<rparr>\<rparr>"

definition fromPbSplitRootParamsUpdated :: "RegistryPb \<Rightarrow> (reg_event_error, RegistryEvent) outcome" where
  "fromPbSplitRootParamsUpdated evpb =
     (if gp_Event evpb \<noteq> RT_FSO_SPLIT_ROOT_PARAMS_UPDATED then Err RgErrInvalidEvent
      else case gp_FsoSplitRootParams evpb of
        None \<Rightarrow> Err RgErrInvalidEvent
      | Some params \<Rightarrow>
          if sp_GlobalRoot params = [] then Err RgErrInvalidEvent
          else if sint (sp_MaxDepth params) \<le> 0 then Err RgErrInvalidEvent
          else if sint (sp_MinDiskUsage params) \<le> 0 then Err RgErrInvalidEvent
          else if sint (sp_MaxDiskUsage params) \<le> 0 then Err RgErrInvalidEvent
          else Ok (RvSplitRootParamsUpdated params))"

definition NewSplitRootDisabled :: "string \<Rightarrow> RegistryPb" where
  "NewSplitRootDisabled groot =
     (registryPb RT_FSO_SPLIT_ROOT_DISABLED)\<lparr>gp_FsoSplitRootParams := Some (splitParams groot)\<rparr>"

definition fromPbSplitRootDisabled :: "RegistryPb \<Rightarrow> (reg_event_error, RegistryEvent) outcome" where
  "fromPbSplitRootDisabled evpb =
     (if gp_Event evpb \<noteq> RT_FSO_SPLIT_ROOT_DISABLED then Err RgErrInvalidEvent
      else case gp_FsoSplitRootParams evpb of
        None \<Rightarrow> Err RgErrInvalidEvent
      | Some params \<Rightarrow>
          if sp_GlobalRoot params = [] then Err RgErrInvalidEvent else Ok (RvSplitRootDisabled (sp_GlobalRoot params)))"

definition NewPathFlagSet :: "string \<Rightarrow> 32 word \<Rightarrow> RegistryPb" where
  "NewPathFlagSet path flags = (registryPb RT_FSO_PATH_FLAG_SET)\<lparr>gp_FsoPathFlag := Some (path, flags)\<rparr>"

definition fromPbPathFlagSet :: "RegistryPb \<Rightarrow> (reg_event_error, RegistryEvent) outcome" where
  "fromPbPathFlagSet evpb =
     (if gp_Event evpb \<noteq> RT_FSO_PATH_FLAG_SET then Err RgErrInvalidEvent
      else case gp_FsoPathFlag evpb of
        None \<Rightarrow> Err RgErrInvalidEvent
      | Some (path, flags) \<Rightarrow> Ok (RvPathFlagSet path flags))"

definition NewPathFlagUnset :: "string \<Rightarrow> 32 word \<Rightarrow> RegistryPb" where
  "NewPathFlagUnset path flags = (registryPb RT_FSO_PATH_FLAG_UNSET)\<lparr>gp_FsoPathFlag := Some (path, flags)\<rparr>"

definition fromPbPathFlagUnset :: "RegistryPb \<Rightarrow> (reg_event_error, RegistryEvent) outcome" where
  "fromPbPathFlagUnset evpb =
     (if gp_Event evpb \<noteq> RT_FSO_PATH_FLAG_UNSET then Err RgErrInvalidEvent
      else case gp_FsoPathFlag evpb of
        None \<Rightarrow> Err RgErrInvalidEvent
      | Some (path, flags) \<Rightarrow> Ok (RvPathFlagUnset path flags))"

definition NewRootArchiveRecipientsUpdated :: "string \<Rightarrow> byte list list \<Rightarrow> ('e, RegistryPb) outcome" where
  "NewRootArchiveRecipientsUpdated groot keys =
     (case checkGPGKeyFingerprints keys of
        Some _ \<Rightarrow> Panic ''malformed GPG key fingerprints''
      | None \<Rightarrow> Ok ((registryPb RT_FSO_ROOT_ARCHIVE_RECIPIENTS_UPDATED)
          \<lparr>gp_FsoRootInfo := Some (rootInfoPb groot), gp_FsoGpgKeyFingerprints := keys\<rparr>))"

definition fromPbRootArchiveRecipientsUpdated :: "RegistryPb \<Rightarrow> (reg_event_error, RegistryEvent) outcome" where
  "fromPbRootArchiveRecipientsUpdated evpb =
     (case gp_FsoRootInfo evpb of
        None \<Rightarrow> Err RgErrMissingRootInfo
      | Some info \<Rightarrow>
          if fr_GlobalRoot info = [] then Err RgErrMalformedRootInfo
          else ifError (checkGPGKeyFingerprints (gp_FsoGpgKeyFingerprints evpb))
            (Ok (RvRootArchiveRecipientsUpdated (fr_GlobalRoot info) (gp_FsoGpgKeyFingerprints evpb))))"

definition NewRootShadowBackupRecipientsUpdated :: "string \<Rightarrow> byte list list \<Rightarrow> ('e, RegistryPb) outcome" where
  "NewRootShadowBackupRecipientsUpdated groot keys =
     (case checkGPGKeyFingerprints keys of
        Some _ \<Rightarrow> Panic ''malformed GPG key fingerprints''
      | None \<Rightarrow> Ok ((registryPb RT_FSO_ROOT_SHADOW_BACKUP_RECIPIENTS_UPDATED)
          \<lparr>gp_FsoRootInfo := Some (rootInfoPb groot), gp_FsoGpgKeyFingerprints := keys\<rparr>))"

definition fromPbRootShadowBackupRecipientsUpdated :: "RegistryPb \<Rightarrow> (reg_event_error, RegistryEvent) outcome" where
  "fromPbRootShadowBackupRecipientsUpdated evpb =
     (case gp_FsoRootInfo evpb of
        None \<Rightarrow> Err RgErrMissingRootInfo
      | Some info \<Rightarrow>
          if fr_GlobalRoot info = [] then Err RgErrMalformedRootInfo
          else ifError (checkGPGKeyFingerprints (gp_FsoGpgKeyFingerprints evpb))
            (Ok (RvRootShadowBackupRecipientsUpdated (fr_GlobalRoot info) (gp_FsoGpgKeyFingerprints evpb))))"

text \<open>Freeze, unfreeze, archive and unarchive.\<close>

definition rgNewFreezeRepoStarted2 :: "uuid \<Rightarrow> uuid \<Rightarrow> ('e, RegistryPb) outcome" where
  "rgNewFreezeRepoStarted2 repoId workflowId =
     (if repoId = uuidNil then Panic ''nil repoId''
      else if workflowId = uuidNil then Panic ''nil workflowId''
      else Ok ((registryPb RT_FSO_FREEZE_REPO_STARTED_2)
        \<lparr>gp_RepoId := Some (idBytes repoId), gp_WorkflowId := Some (idBytes workflowId)\<rparr>))"

definition rgFromPbFreezeRepoStarted2 :: "RegistryPb \<Rightarrow> (reg_event_error, RegistryEvent) outcome" where
  "rgFromPbFreezeRepoStarted2 evpb =
     rgGuard RT_FSO_FREEZE_REPO_STARTED_2 evpb
       (onError (RgParseError ''repo ID'') (FromBytes (gp_RepoId evpb)) (\<lambda>repoId.
        onError (RgParseError ''workflow ID'') (FromBytes (gp_WorkflowId evpb)) (\<lambda>workflowId.
          Ok (RvFreezeRepoStarted2 repoId workflowId))))"

definition rgNewFreezeRepoCompleted2Ok :: "uuid \<Rightarrow> uuid \<Rightarrow> ('e, RegistryPb) outcome" where
  "rgNewFreezeRepoCompleted2Ok repoId workflowId =
     (if repoId = uuidNil then Panic ''nil repoId''
      else if workflowId = uuidNil then Panic ''nil workflowId''
      else Ok ((registryPb RT_FSO_FREEZE_REPO_COMPLETED_2)
        \<lparr>gp_RepoId := Some (idBytes repoId), gp_WorkflowId := Some (idBytes workflowId)\<rparr>))"

definition rgNewFreezeRepoCompleted2Error :: "uuid \<Rightarrow> uuid \<Rightarrow> 32 word \<Rightarrow> ('e, RegistryPb) outcome" where
  "rgNewFreezeRepoCompleted2Error repoId workflowId code =
     (if repoId = uuidNil then Panic ''nil repoId''
      else if workflowId = uuidNil then Panic ''nil workflowId''
      else if code = 0 then Panic ''zero code''
      else Ok ((registryPb RT_FSO_FREEZE_REPO_COMPLETED_2)
        \<lparr>gp_RepoId := Some (idBytes repoId), gp_WorkflowId := Some (idBytes workflowId), gp_StatusCode := code\<rparr>))"

definition rgFromPbFreezeRepoCompleted2 :: "RegistryPb \<Rightarrow> (reg_event_error, RegistryEvent) outcome" where
  "rgFromPbFreezeRepoCompleted2 evpb =
     rgGuard RT_FSO_FREEZE_REPO_COMPLETED_2 evpb
       (onError (RgParseError ''repo ID'') (FromBytes (gp_RepoId evpb)) (\<lambda>repoId.
        onError (RgParseError ''workflow ID'') (FromBytes (gp_WorkflowId evpb)) (\<lambda>workflowId.
          Ok (RvFreezeRepoCompleted2 repoId workflowId (gp_StatusCode evpb)))))"

definition rgNewUnfreezeRepoStarted2 :: "uuid \<Rightarrow> uuid \<Rightarrow> ('e, RegistryPb) outcome" where
  "rgNewUnfreezeRepoStarted2 repoId workflowId =
     (if repoId = uuidNil then Panic ''nil repoId''
      else if workflowId = uuidNil then Panic ''nil workflowId''
      else Ok ((registryPb RT_FSO_UNFREEZE_REPO_STARTED_2)
        \<lparr>gp_RepoId := Some (idBytes repoId), gp_WorkflowId := Some (idBytes workflowId)\<rparr>))"

definition rgFromPbUnfreezeRepoStarted2 :: "RegistryPb \<Rightarrow> (reg_event_error, RegistryEvent) outcome" where
  "rgFromPbUnfreezeRepoStarted2 evpb =
     rgGuard RT_FSO_UNFREEZE_REPO_STARTED_2 evpb
       (onError (RgParseError ''repo ID'') (FromBytes (gp_RepoId evpb)) (\<lambda>repoId.
        onError (RgParseError ''workflow ID'') (FromBytes (gp_WorkflowId evpb)) (\<lambda>workflowId.
          Ok (RvUnfreezeRepoStarted2 repoId workflowId))))"

definition rgNewUnfreezeRepoCompleted2Ok :: "uuid \<Rightarrow> uuid \<Rightarrow> ('e, RegistryPb) outcome" where
  "rgNewUnfreezeRepoCompleted2Ok repoId workflowId =
     (if repoId = uuidNil then Panic ''nil repoId''
      else if workflowId = uuidNil then Panic ''nil workflowId''
      else Ok ((registryPb RT_FSO_UNFREEZE_REPO_COMPLETED_2)
        \<lparr>gp_RepoId := Some (idBytes repoId), gp_WorkflowId := Some (idBytes workflowId)\<rparr>))"

definition rgNewUnfreezeRepoCompleted2Error :: "uuid \<Rightarrow> uuid \<Rightarrow> 32 word \<Rightarrow> ('e, RegistryPb) outcome" where
  "rgNewUnfreezeRepoCompleted2Error repoId workflowId code =
     (if repoId = uuidNil then Panic ''nil repoId''
      else if workflowId = uuidNil then Panic ''nil workflowId''
      else if code = 0 then Panic ''zero code''
      else Ok ((registryPb RT_FSO_UNFREEZE_REPO_COMPLETED_2)
        \<lparr>gp_RepoId := Some (idBytes repoId), gp_WorkflowId := Some (idBytes workflowId), gp_StatusCode := code\<rparr>))"

definition rgFromPbUnfreezeRepoCompleted2 :: "RegistryPb \<Rightarrow> (reg_event_error, RegistryEvent) outcome" where
  "rgFromPbUnfreezeRepoCompleted2 evpb =
     rgGuard RT_FSO_UNFREEZE_REPO_COMPLETED_2 evpb
       (onError (RgParseError ''repo ID'') (FromBytes (gp_RepoId evpb)) (\<lambda>repoId.
        onError (RgParseError ''workflow ID'') (FromBytes (gp_WorkflowId evpb)) (\<lambda>workflowId.
          Ok (RvUnfreezeRepoCompleted2 repoId workflowId (gp_StatusCode evpb)))))"

definition rgNewArchiveRepoStarted :: "uuid \<Rightarrow> uuid \<Rightarrow> ('e, RegistryPb) outcome" where
  "rgNewArchiveRepoStarted repoId workflowId =
     (if repoId = uuidNil then Panic ''nil repoId''
      else if workflowId = uuidNil then Panic ''nil workflowId''
      else Ok ((registryPb RT_FSO_ARCHIVE_REPO_STARTED)
        \<lparr>gp_RepoId := Some (idBytes repoId), gp_WorkflowId := Some (idBytes workflowId)\<rparr>))"

definition rgFromPbArchiveRepoStarted :: "RegistryPb \<Rightarrow> (reg_event_error, RegistryEvent) outcome" where
  "rgFromPbArchiveRepoStarted evpb =
     rgGuard RT_FSO_ARCHIVE_REPO_STARTED evpb
       (onError (RgParseError ''repo ID'') (FromBytes (gp_RepoId evpb)) (\<lambda>repoId.
        onError (RgParseError ''workflow ID'') (FromBytes (gp_WorkflowId evpb)) (\<lambda>workflowId.
          Ok (RvArchiveRepoStarted repoId workflowId))))"

definition rgNewArchiveRepoCompletedOk :: "uuid \<Rightarrow> uuid \<Rightarrow> ('e, RegistryPb) outcome" where
  "rgNewArchiveRepoCompletedOk repoId workflowId =
     (if repoId = uuidNil then Panic ''nil repoId''
      else if workflowId = uuidNil then Panic ''nil workflowId''
      else Ok ((registryPb RT_FSO_ARCHIVE_REPO_COMPLETED)
        \<lparr>gp_RepoId := Some (idBytes repoId), gp_WorkflowId := Some (idBytes workflowId)\<rparr>))"

definition rgNewArchiveRepoCompletedError :: "uuid \<Rightarrow> uuid \<Rightarrow> 32 word \<Rightarrow> ('e, RegistryPb) outcome" where
  "rgNewArchiveRepoCompletedError repoId workflowId code =
     (if repoId = uuidNil then Panic ''nil repoId''
      else if workflowId = uuidNil then Panic ''nil workflowId''
      else if code = 0 then Panic ''zero code''
      else Ok ((registryPb RT_FSO_ARCHIVE_REPO_COMPLETED)
        \<lparr>gp_RepoId := Some (idBytes repoId), gp_WorkflowId := Some (idBytes workflowId), gp_StatusCode := code\<rparr>))"

definition rgFromPbArchiveRepoCompleted :: "RegistryPb \<Rightarrow> (reg_event_error, RegistryEvent) outcome" where
  "rgFromPbArchiveRepoCompleted evpb =
     rgGuard RT_FSO_ARCHIVE_REPO_COMPLETED evpb
       (onError (RgParseError ''repo ID'') (FromBytes (gp_RepoId evpb)) (\<lambda>repoId.
        onError (RgParseError ''workflow ID'') (FromBytes (gp_WorkflowId evpb)) (\<lambda>workflowId.
          Ok (RvArchiveRepoCompleted repoId workflowId (gp_StatusCode evpb)))))"

definition rgNewUnarchiveRepoStarted :: "uuid \<Rightarrow> uuid \<Rightarrow> ('e, RegistryPb) outcome" where
  "rgNewUnarchiveRepoStarted repoId workflowId =
     (if repoId = uuidNil then Panic ''nil repoId''
      else if workflowId = uuidNil then Panic ''nil workflowId''
      else Ok ((registryPb RT_FSO_UNARCHIVE_REPO_STARTED)
        \<lparr>gp_RepoId := Some (idBytes repoId), gp_WorkflowId := Some (idBytes workflowId)\<rparr>))"

definition rgFromPbUnarchiveRepoStarted :: "RegistryPb \<Rightarrow> (reg_event_error, RegistryEvent) outcome" where
  "rgFromPbUnarchiveRepoStarted evpb =
     rgGuard RT_FSO_UNARCHIVE_REPO_STARTED evpb
       (onError (RgParseError ''repo ID'') (FromBytes (gp_RepoId evpb)) (\<lambda>repoId.
        onError (RgParseError ''workflow ID'') (FromBytes (gp_WorkflowId evpb)) (\<lambda>workflowId.
          Ok (RvUnarchiveRepoStarted repoId workflowId))))"

definition rgNewUnarchiveRepoCompletedOk :: "uuid \<Rightarrow> uuid \<Rightarrow> ('e, RegistryPb) outcome" where
  "rgNewUnarchiveRepoCompletedOk repoId workflowId =
     (if repoId = uuidNil then Panic ''nil repoId''
      else if workflowId = uuidNil then Panic ''nil workflowId''
      else Ok ((registryPb RT_FSO_UNARCHIVE_REPO_COMPLETED)
        \<lparr>gp_RepoId := Some (idBytes repoId), gp_WorkflowId := Some (idBytes workflowId)\<rparr>))"

definition rgNewUnarchiveRepoCompletedError :: "uuid \<Rightarrow> uuid \<Rightarrow> 32 word \<Rightarrow> ('e, RegistryPb) outcome" where
  "rgNewUnarchiveRepoCompletedError repoId workflowId code =
     (if repoId = uuidNil then Panic ''nil repoId''
      else if workflowId = uuidNil then Panic ''nil workflowId''
      else if code = 0 then Panic ''zero code''
      else Ok ((registryPb RT_FSO_UNARCHIVE_REPO_COMPLETED)
        \<lparr>gp_RepoId := Some (idBytes repoId), gp_WorkflowId := Some (idBytes workflowId), gp_StatusCode := code\<rparr>))"

definition rgFromPbUnarchiveRepoCompleted :: "RegistryPb \<Rightarrow> (reg_event_error, RegistryEvent) outcome" where
  "rgFromPbUnarchiveRepoCompleted evpb =
     rgGuard RT_FSO_UNARCHIVE_REPO_COMPLETED evpb
       (onError (RgParseError ''repo ID'') (FromBytes (gp_RepoId evpb)) (\<lambda>repoId.
        onError (RgParseError ''workflow ID'') (FromBytes (gp_WorkflowId evpb)) (\<lambda>workflowId.
          Ok (RvUnarchiveRepoCompleted repoId workflowId (gp_StatusCode evpb)))))"

text \<open>The parser for \<open>RT_FSO_ROOT_UPDATED\<close> is the one of the removal, as in the source.\<close>

definition rgFromPbValidate :: "ulid_unmarshal \<Rightarrow> RegistryPb \<Rightarrow> (reg_event_error, RegistryEvent) outcome" where
  "rgFromPbValidate ub evpb =
     (case gp_Event evpb of
        RT_FSO_REGISTRY_ADDED \<Rightarrow> fromPbRegistryAdded evpb
      | RT_EPHEMERAL_WORKFLOWS_ENABLED \<Rightarrow> fromPbEphemeralWorkflowsEnabled evpb
      | RT_FSO_REPO_ACL_POLICY_UPDATED \<Rightarrow> fromPbRepoAclPolicyUpdated evpb
      | RT_FSO_ROOT_ADDED \<Rightarrow> fromPbRootAdded evpb
      | RT_FSO_ROOT_REMOVED \<Rightarrow> fromPbRootRemoved evpb
      | RT_FSO_ROOT_UPDATED \<Rightarrow> fromPbRootRemoved evpb
      | RT_FSO_REPO_NAMING_UPDATED \<Rightarrow> fromPbRepoNamingUpdated evpb
      | RT_FSO_REPO_NAMING_CONFIG_UPDATED \<Rightarrow> fromPbRepoNamingConfigUpdated evpb
      | RT_FSO_REPO_INIT_POLICY_UPDATED \<Rightarrow> fromPbRepoInitPolicyUpdated evpb
      | RT_FSO_ROOT_ARCHIVE_RECIPIENTS_UPDATED \<Rightarrow> fromPbRootArchiveRecipientsUpdated evpb
      | RT_FSO_ROOT_SHADOW_BACKUP_RECIPIENTS_UPDATED \<Rightarrow> fromPbRootShadowBackupRecipientsUpdated evpb
      | RT_FSO_REPO_ACCEPTED \<Rightarrow> fromPbRepoAccepted evpb
      | RT_FSO_REPO_MOVE_ACCEPTED \<Rightarrow> fromPbRepoMoveAccepted evpb
      | RT_FSO_REPO_MOVED \<Rightarrow> rgFromPbRepoMoved ub evpb
      | RT_FSO_REPO_ADDED \<Rightarrow> fromPbRepoAdded evpb
      | RT_FSO_REPO_REINIT_ACCEPTED \<Rightarrow> fromPbRepoReinitAccepted evpb
      | RT_FSO_SHADOW_REPO_MOVE_STARTED \<Rightarrow> rgFromPbShadowRepoMoveStarted ub evpb
      | RT_FSO_REPO_ENABLE_GITLAB_ACCEPTED \<Rightarrow> fromPbRepoEnableGitlabAccepted evpb
      | RT_FSO_SPLIT_ROOT_ENABLED \<Rightarrow> fromPbSplitRootEnabled evpb
      | RT_FSO_SPLIT_ROOT_PARAMS_UPDATED \<Rightarrow> fromPbSplitRootParamsUpdated evpb
      | RT_FSO_SPLIT_ROOT_DISABLED \<Rightarrow> fromPbSplitRootDisabled evpb
      | RT_FSO_PATH_FLAG_SET \<Rightarrow> fromPbPathFlagSet evpb
      | RT_FSO_PATH_FLAG_UNSET \<Rightarrow> fromPbPathFlagUnset evpb
      | RT_FSO_FREEZE_REPO_STARTED_2 \<Rightarrow> rgFromPbFreezeRepoStarted2 evpb
      | RT_FSO_FREEZE_REPO_COMPLETED_2 \<Rightarrow> rgFromPbFreezeRepoCompleted2 evpb
      | RT_FSO_UNFREEZE_REPO_STARTED_2 \<Rightarrow> rgFromPbUnfreezeRepoStarted2 evpb
      | RT_FSO_UNFREEZE_REPO_COMPLETED_2 \<Rightarrow> rgFromPbUnfreezeRepoCompleted2 evpb
      | RT_FSO_ARCHIVE_REPO_STARTED \<Rightarrow> rgFromPbArchiveRepoStarted evpb
      | RT_FSO_ARCHIVE_REPO_COMPLETED \<Rightarrow> rgFromPbArchiveRepoCompleted evpb
      | RT_FSO_UNARCHIVE_REPO_STARTED \<Rightarrow> rgFromPbUnarchiveRepoStarted evpb
      | RT_FSO_UNARCHIVE_REPO_COMPLETED \<Rightarrow> rgFromPbUnarchiveRepoCompleted evpb
      | RT_OTHER _ \<Rightarrow> Err RgErrUnknownEventType)"

definition rgFromPbMust :: "ulid_unmarshal \<Rightarrow> RegistryPb \<Rightarrow> ('e, RegistryEvent) outcome" where
  "rgFromPbMust ub evpb =
     (case rgFromPbValidate ub evpb of
        Ok ev \<Rightarrow> Ok ev
      | Err e \<Rightarrow> Panic ''invalid event details''
      | Panic p \<Rightarrow> Panic p)"

lemmas reg_new_defs =
  NewRegistryAdded_def NewEphemeralWorkflowsEnabled_def NewRepoAclPolicyUpdated_def NewRootAdded_def
  NewRootRemoved_def NewRootUpdated_def NewRepoNamingUpdated_def NewRepoNamingConfigUpdated_def
  NewRepoInitPolicyUpdated_def NewRepoAccepted_def NewRepoAdded_def NewRepoReinitAccepted_def
  rgNewShadowRepoMoveStarted_def NewPbRepoMoveAccepted_def rgNewPbRepoMoved_def
  NewRepoEnableGitlabAccepted_def NewSplitRootEnabled_def NewSplitRootParamsUpdated_def
  NewSplitRootDisabled_def NewPathFlagSet_def NewPathFlagUnset_def NewRootArchiveRecipientsUpdated_def
  NewRootShadowBackupRecipientsUpdated_def rgNewFreezeRepoStarted2_def rgNewFreezeRepoCompleted2Ok_def
  rgNewFreezeRepoCompleted2Error_def rgNewUnfreezeRepoStarted2_def rgNewUnfreezeRepoCompleted2Ok_def
  rgNewUnfreezeRepoCompleted2Error_def rgNewArchiveRepoStarted_def rgNewArchiveRepoCompletedOk_def
  rgNewArchiveRepoCompletedError_def rgNewUnarchiveRepoStarted_def rgNewUnarchiveRepoCompletedOk_def
  rgNewUnarchiveRepoCompletedError_def registryPb_def rootInfoPb_def repoInfoPb_def splitParams_def

lemmas reg_fromPb_defs =
  fromPbRegistryAdded_def fromPbEphemeralWorkflowsEnabled_def fromPbRepoAclPolicyUpdated_def
  fromPbRootAdded_def fromPbRootRemoved_def fromPbRootUpdated_def fromPbRepoNamingUpdated_def
  fromPbRepoNamingConfigUpdated_def fromPbRepoInitPolicyUpdated_def fromPbRepoAccepted_def
  fromPbRepoAdded_def fromPbRepoReinitAccepted_def rgFromPbShadowRepoMoveStarted_def
  fromPbRepoMoveAccepted_def rgFromPbRepoMoved_def fromPbRepoEnableGitlabAccepted_def
  fromPbSplitRootEnabled_def fromPbSplitRootParamsUpdated_def fromPbSplitRootDisabled_def
  fromPbPathFlagSet_def fromPbPathFlagUnset_def fromPbRootArchiveRecipientsUpdated_def
  fromPbRootShadowBackupRecipientsUpdated_def rgFromPbFreezeRepoStarted2_def rgFromPbFreezeRepoCompleted2_def
  rgFromPbUnfreezeRepoStarted2_def rgFromPbUnfreezeRepoCompleted2_def rgFromPbArchiveRepoStarted_def
  rgFromPbArchiveRepoCompleted_def rgFromPbUnarchiveRepoStarted_def rgFromPbUnarchiveRepoCompleted_def

section \<open>Event structs\<close>

definition regSetPb :: "ulid \<Rightarrow> ulid \<Rightarrow> RegistryPb \<Rightarrow> RegistryPb" where
  "regSetPb i parent p = p\<lparr>gp_Id := Some (idBytes i), gp_Parent := Some (idBytes parent)\<rparr>"

definition rgNewEvents :: "ulid_source \<Rightarrow> ulid \<Rightarrow> RegistryPb list \<Rightarrow> goerr + RegistryPb Event list" where
  "rgNewEvents g parent pbs = newEventsLoop regSetPb g 0 parent pbs"

definition regMarshalProto :: "(RegistryPb \<Rightarrow> goerr + byte list) \<Rightarrow> RegistryPb Event \<Rightarrow> goerr + byte list" where
  "regMarshalProto pm e = pm (ev_pb e)"

definition regUnmarshalProto ::
  "(byte list \<Rightarrow> goerr + RegistryPb) \<Rightarrow> ulid_unmarshal \<Rightarrow> byte list \<Rightarrow> (goerr, RegistryPb Event) outcome" where
  "regUnmarshalProto pu ub data =
     onError id (pu data) (\<lambda>p.
     onError id (ParseBytes ub (gp_Id p)) (\<lambda>i.
     onError id (ParseBytes ub (gp_Parent p)) (\<lambda>par.
       case rgFromPbValidate ub p of
         Panic x \<Rightarrow> Panic x
       | Err _ \<Rightarrow> Err (GoErr ''invalid event details'')
       | Ok _ \<Rightarrow>
           (case gp_FsoRepoInfo p of
              None \<Rightarrow> Ok \<lparr>ev_id = i, ev_parent = par, ev_pb = p\<rparr>
            | Some info \<Rightarrow> onError id (FromBytes (fi_Id info)) (\<lambda>_. Ok \<lparr>ev_id = i, ev_parent = par, ev_pb = p\<rparr>)))))"

definition regWithId :: "ulid \<Rightarrow> RegistryPb Event \<Rightarrow> RegistryPb Event" where
  "regWithId i e = e\<lparr>ev_id := i, ev_pb := (ev_pb e)\<lparr>gp_Id := Some (idBytes i)\<rparr>\<rparr>"

definition regWithParent :: "ulid \<Rightarrow> RegistryPb Event \<Rightarrow> RegistryPb Event" where
  "regWithParent i e = e\<lparr>ev_parent := i, ev_pb := (ev_pb e)\<lparr>gp_Parent := Some (idBytes i)\<rparr>\<rparr>"

text \<open>
  The documented behaviour of \<open>proto.Marshal\<close> and \<open>proto.Unmarshal\<close> on messages whose byte fields are absent or not
  empty.
\<close>

definition reg_pb_ok :: "RegistryPb \<Rightarrow> bool" where
  "reg_pb_ok p \<longleftrightarrow> gp_Id p \<noteq> Some [] \<and> gp_Parent p \<noteq> Some [] \<and> gp_RepoId p \<noteq> Some [] \<and> gp_RepoEventId p \<noteq> Some [] \<and>
     gp_WorkflowId p \<noteq> Some [] \<and> gp_EphemeralWorkflowsId p \<noteq> Some [] \<and>
     (case gp_FsoRepoInfo p of None \<Rightarrow> True | Some info \<Rightarrow> fi_Id info \<noteq> Some [])"

definition reg_codec :: "(RegistryPb \<Rightarrow> goerr + byte list) \<Rightarrow> (byte list \<Rightarrow> goerr + RegistryPb) \<Rightarrow> bool" where
  "reg_codec pm pu \<longleftrightarrow> (\<forall>p bs. reg_pb_ok p \<longrightarrow> pm p = Inr bs \<longrightarrow> pu bs = Inr p)"

section \<open>Round trips\<close>

lemma rgFromPbValidate_header [simp]:
  "rgFromPbValidate ub (p\<lparr>gp_Id := x\<rparr>) = rgFromPbValidate ub p"
  "rgFromPbValidate ub (p\<lparr>gp_Parent := x\<rparr>) = rgFromPbValidate ub p"
  by (cases "gp_Event p"; simp add: rgFromPbValidate_def reg_fromPb_defs rgGuard_def split: option.split)+

lemma rgFromPbValidate_setPb [simp]: "rgFromPbValidate ub (regSetPb i par p) = rgFromPbValidate ub p"
  by (simp add: regSetPb_def)

text \<open>The struct fields agree with the message's header, and the message is valid.\<close>

definition reg_event_wf :: "ulid_unmarshal \<Rightarrow> RegistryPb Event \<Rightarrow> bool" where
  "reg_event_wf ub e \<longleftrightarrow>
     gp_Id (ev_pb e) = Some (idBytes (ev_id e)) \<and> gp_Parent (ev_pb e) = Some (idBytes (ev_parent e)) \<and>
     reg_pb_ok (ev_pb e) \<and> (\<exists>ev. rgFromPbValidate ub (ev_pb e) = Ok ev) \<and>
     (case gp_FsoRepoInfo (ev_pb e) of None \<Rightarrow> True | Some info \<Rightarrow> \<exists>i. FromBytes (fi_Id info) = Inr i)"

lemma reg_roundtrip:
  assumes "reg_codec pm pu" and "ulid_binary ub" and "reg_event_wf ub e" and "regMarshalProto pm e = Inr bs"
  shows "regUnmarshalProto pu ub bs = Ok e"
proof -
  have "pu bs = Inr (ev_pb e)"
    using assms by (auto simp: reg_codec_def regMarshalProto_def reg_event_wf_def)
  then show ?thesis
    using assms(2,3) by (cases "gp_FsoRepoInfo (ev_pb e)") (auto simp: regUnmarshalProto_def reg_event_wf_def)
qed

end
