(* ===== verification/Fso_Registry.thy ===== *)
theory Fso_Registry
  imports Nog_Aggregate Registry_Events Storage_Tiers "HOL-Library.List_Lexorder"
begin

text \<open>
  The aggregate of FSO registries (\<open>backend/internal/fsoregistry/fsoregistry.go\<close> and \<open>pre.go\<close>): the state with its
  roots and its two indexes of repos, \<open>Advance()\<close>, one definition per command, and the queries.

  The maps of a Go state are never changed in place: \<open>Advance()\<close> duplicates a map before its first change, and a repo
  or a root before it is changed, so that maps of values model them.  \<open>range\<close> over a map visits the keys in an
  unspecified order: the record \<open>MapOrder\<close> holds the orders that a run uses.
\<close>

section \<open>State and commands\<close>

record RootInfo =
  ro_GlobalRoot :: string
  ro_Host :: string
  ro_HostRoot :: string
  ro_GitlabNamespace :: string
  ro_ArchiveRecipients :: Fingerprints
  ro_ShadowBackupRecipients :: Fingerprints

record SplitRootConfig =
  sr_MaxDepth :: "32 word"
  sr_MinDiskUsage :: "64 word"
  sr_MaxDiskUsage :: "64 word"

record rootState =
  rt_info :: RootInfo
  rt_repoNaming :: "FsoRepoNaming option"
  rt_repoNamingIsPatched :: bool
  rt_repoNamingConfig :: ConfigMap
  rt_repoInitPolicy :: "FsoRepoInitPolicy option"
  rt_splitRootConfig :: "SplitRootConfig option"

record RepoInfo =
  gi_Id :: uuid
  gi_GlobalPath :: string
  gi_GitlabNamespace :: string
  gi_Confirmed :: bool
  gi_ReinitReason :: string
  gi_lastRepoEventId :: ulid
  gi_moveRepoWorkflow :: uuid
  gi_newGlobalPath :: string
  gi_StorageTier :: StorageTierCode
  gi_storageWorkflowId :: uuid

definition hasActiveMoveRepo :: "RepoInfo \<Rightarrow> bool" where
  "hasActiveMoveRepo info \<longleftrightarrow> gi_moveRepoWorkflow info \<noteq> uuidNil \<and> gi_newGlobalPath info \<noteq> []"

text \<open>The struct \<open>Info\<close> has only a name.  A missing entry of \<open>pathFlags\<close> reads as 0.\<close>

record RegState =
  gs_id :: uuid
  gs_ephemeralWorkflowsId :: uuid
  gs_vid :: ulid
  gs_info :: "string option"
  gs_roots :: "string \<rightharpoonup> rootState"
  gs_reposByName :: "string \<rightharpoonup> RepoInfo"
  gs_reposById :: "uuid \<rightharpoonup> RepoInfo"
  gs_pathFlags :: "string \<rightharpoonup> 32 word"
  gs_repoAclPolicy :: AclPolicy

definition regNewState :: "uuid \<Rightarrow> RegState" where
  "regNewState i =
     \<lparr>gs_id = i, gs_ephemeralWorkflowsId = 0, gs_vid = 0, gs_info = None, gs_roots = Map.empty,
      gs_reposByName = Map.empty, gs_reposById = Map.empty, gs_pathFlags = Map.empty,
      gs_repoAclPolicy = P_UNSPECIFIED\<rparr>"

definition flagsAt :: "(string \<rightharpoonup> 32 word) \<Rightarrow> string \<Rightarrow> 32 word" where
  "flagsAt m p = (case m p of None \<Rightarrow> 0 | Some f \<Rightarrow> f)"

record MapOrder =
  rangeRoots :: "(string \<rightharpoonup> rootState) \<Rightarrow> string list"
  rangeRepos :: "(string \<rightharpoonup> RepoInfo) \<Rightarrow> string list"
  rangeConfig :: "ConfigMap \<Rightarrow> string list"

text \<open>The \<open>Context\<close> is what the precondition \<open>IsInitRepoAllowed()\<close> gets to authorize its call.\<close>

record RgCmdInitRepo =
  gc_Context :: nat
  gc_Id :: uuid
  gc_GlobalPath :: string
  gc_CreatorName :: string
  gc_CreatorEmail :: string

record DepthPath =
  dp_Depth :: int
  dp_Path :: string

datatype (plugins only: code) RegCmd =
    RgInitRegistry string
  | RgEnableEphemeralWorkflows uuid
  | RgEnablePropagateRootAcls
  | RgInitRoot string string string string \<comment> \<open>global root, host, host root, GitLab namespace\<close>
  | RgRemoveRoot string
  | RgEnableGitlab string string
  | RgDisableGitlab string
  | RgSetRepoNaming "FsoRepoNaming option"
  | RgPatchRepoNaming "FsoRepoNaming option"
  | RgEnableDiscoveryPaths string "DepthPath list"
  | RgSetRepoInitPolicy "FsoRepoInitPolicy option"
  | RgUpdateRootArchiveRecipients string Fingerprints
  | RgDeleteRootArchiveRecipients string
  | RgUpdateRootShadowBackupRecipients string Fingerprints
  | RgDeleteRootShadowBackupRecipients string
  | RgInitRepo RgCmdInitRepo
  | RgReinitRepo uuid string
  | RgEnableGitlabRepo uuid string
  | RgConfirmRepo uuid ulid
  | RgBeginMoveRepo uuid uuid string bool \<comment> \<open>repo, workflow, new global path, is unchanged\<close>
  | RgCommitMoveRepo uuid uuid ulid string \<comment> \<open>repo, workflow, repo event, global path\<close>
  | RgPostShadowRepoMoveStarted uuid ulid uuid
  | RgCreateSplitRootConfig string "SplitRootConfig option"
  | RgUpdateSplitRootConfig string "SplitRootConfig option"
  | RgDeleteSplitRootConfig string
  | RgSetPathFlags string "32 word"
  | RgUnsetPathFlags string "32 word"
  | RgBeginFreezeRepo uuid uuid \<comment> \<open>repo, workflow; the same below\<close>
  | RgCommitFreezeRepo uuid uuid
  | RgAbortFreezeRepo uuid uuid "32 word"
  | RgBeginUnfreezeRepo uuid uuid
  | RgCommitUnfreezeRepo uuid uuid
  | RgAbortUnfreezeRepo uuid uuid "32 word"
  | RgBeginArchiveRepo uuid uuid
  | RgCommitArchiveRepo uuid uuid
  | RgAbortArchiveRepo uuid uuid "32 word"
  | RgBeginUnarchiveRepo uuid uuid
  | RgCommitUnarchiveRepo uuid uuid
  | RgAbortUnarchiveRepo uuid uuid "32 word"

datatype (plugins only: code) reg_error =
    RgErrNotInitialized | RgErrConflictInit | RgErrCannotMoveUnconfirmed | RgErrConflictRepoInit
  | RgErrConflictWorkflow | RgErrMalformedEphemeralWorkflowsId | RgErrConflictEphemeralWorkflowsId
  | RgErrMalformedWorkflowId | RgErrMismatchGlobalPath | RgErrPathChanged | RgErrPathUnchanged
  | RgErrRepeatedPost | RgErrUninitialized | RgErrUnknownRepo | RgErrUnknownRoot | RgErrWorkflowReuse
  | RgErrWorkflowTerminated | RgErrInvalidSplitRootConfig | RgErrSplitRootConfigExists
  | RgErrNoSplitRootConfig | RgErrMalformedPath | RgErrNoGPGKeys | RgErrDuplicateGPGKeys
  | RgErrCannotFreezeRepo | RgErrCannotUnfreezeRepo | RgErrParentRepoImmutable | RgErrCannotArchiveRepo
  | RgErrCannotUnarchiveRepo | RgErrNamingRuleMismatch | RgErrPathNotStrictlyBelow
  | RgErrPathDepthOutOfRange | RgErrRootWithoutInitPolicy | RgErrRootWithoutRepoNaming
  | RgErrCreatorNameMissing | RgErrCreatorEmailMissing | RgErrGitlabNamespaceMissingSlash
  | RgErrReasonEmpty | RgErrReasonAlreadyApplied | RgErrConflictGitlabInit
  | RgInitRepoDenyError string | RgWorkflowIdError string | RgEnablePathRuleError string
  | RgInternalError reg_event_error
  | RgValidationError reg_event_error
  | RgErrPathNotBelowRoot | RgErrUnknownPolicy
  | RgLibError goerr

section \<open>Roots and paths\<close>

text \<open>\<open>findRootStateForRepo()\<close>: the first root, in the order of the iteration, that contains the path.\<close>

fun findRoot :: "(string \<rightharpoonup> rootState) \<Rightarrow> string list \<Rightarrow> string \<Rightarrow> rootState option" where
  "findRoot roots [] path = None"
| "findRoot roots (k # ks) path =
     (case roots k of
        None \<Rightarrow> findRoot roots ks path
      | Some st \<Rightarrow>
          if pathIsEqualOrBelowPrefix path (ro_GlobalRoot (rt_info st)) then Some st else findRoot roots ks path)"

definition findRootStateForRepo :: "MapOrder \<Rightarrow> (string \<rightharpoonup> rootState) \<Rightarrow> string \<Rightarrow> rootState option" where
  "findRootStateForRepo mo roots path = findRoot roots (rangeRoots mo roots) path"

definition findRootInfoForRepo :: "MapOrder \<Rightarrow> (string \<rightharpoonup> rootState) \<Rightarrow> string \<Rightarrow> RootInfo option" where
  "findRootInfoForRepo mo roots path = map_option rt_info (findRootStateForRepo mo roots path)"

text \<open>\<open>None\<close>: the loop does not end.\<close>

partial_function (option) findParentRepo :: "(string \<rightharpoonup> RepoInfo) \<Rightarrow> string \<Rightarrow> RepoInfo option option" where
  "findParentRepo repos path =
     (if path = ''/'' then Some None
      else case repos path of
        Some r \<Rightarrow> Some (Some r)
      | None \<Rightarrow> findParentRepo repos (Dir path))"

text \<open>The method \<open>hostPath()\<close> of a root.\<close>

definition rootHostPath :: "RootInfo \<Rightarrow> string \<Rightarrow> ('e, string) outcome" where
  "rootHostPath r gpath =
     (if \<not> HasPrefix gpath (ro_GlobalRoot r) then Panic ''global path not below root''
      else Ok (Join (ro_HostRoot r) (TrimPrefix gpath (ro_GlobalRoot r))))"

text \<open>\<open>ReposPrefix()\<close>; the result is sorted by the global path.\<close>

definition ReposPrefix :: "MapOrder \<Rightarrow> RegState \<Rightarrow> string \<Rightarrow> RepoInfo list" where
  "ReposPrefix mo s pre =
     sort_key (\<lambda>r. map (of_char :: char \<Rightarrow> nat) (gi_GlobalPath r))
       (List.map_filter (\<lambda>p. if pathIsEqualOrBelowPrefix p pre then gs_reposByName s p else None)
         (rangeRepos mo (gs_reposByName s)))"

section \<open>Advance\<close>

text \<open>Reading a root that must be there, and updating a repo in both indexes.\<close>

definition updateRoot ::
  "RegState \<Rightarrow> string \<Rightarrow> (rootState \<Rightarrow> rootState) \<Rightarrow> ('e, RegState) outcome" where
  "updateRoot st groot f =
     (case gs_roots st groot of
        None \<Rightarrow> Panic ''inconsistent state''
      | Some r \<Rightarrow> Ok (st\<lparr>gs_roots := (gs_roots st)(groot \<mapsto> f r)\<rparr>))"

definition putRepo :: "RegState \<Rightarrow> RepoInfo \<Rightarrow> RegState" where
  "putRepo st info = st\<lparr>gs_reposByName := (gs_reposByName st)(gi_GlobalPath info \<mapsto> info),
     gs_reposById := (gs_reposById st)(gi_Id info \<mapsto> info)\<rparr>"

definition updateRepo :: "RegState \<Rightarrow> uuid \<Rightarrow> (RepoInfo \<Rightarrow> RepoInfo) \<Rightarrow> ('e, RegState) outcome" where
  "updateRepo st i f =
     (case gs_reposById st i of
        None \<Rightarrow> Panic ''nil pointer dereference''
      | Some r \<Rightarrow> Ok (putRepo st (f r)))"

definition uuidOrPanic :: "gobytes \<Rightarrow> (uuid \<Rightarrow> ('e, 'b) outcome) \<Rightarrow> ('e, 'b) outcome" where
  "uuidOrPanic bs f = (case FromBytes bs of Inl e \<Rightarrow> Panic ''invalid UUID'' | Inr i \<Rightarrow> f i)"

definition newRootState :: "FsoRootInfo \<Rightarrow> rootState" where
  "newRootState x =
     \<lparr>rt_info = \<lparr>ro_GlobalRoot = fr_GlobalRoot x, ro_Host = fr_Host x, ro_HostRoot = fr_HostRoot x,
        ro_GitlabNamespace = fr_GitlabNamespace x, ro_ArchiveRecipients = [], ro_ShadowBackupRecipients = []\<rparr>,
      rt_repoNaming = None, rt_repoNamingIsPatched = False, rt_repoNamingConfig = Map.empty,
      rt_repoInitPolicy = None, rt_splitRootConfig = None\<rparr>"

definition newRepoInfo :: "uuid \<Rightarrow> string \<Rightarrow> string \<Rightarrow> RepoInfo" where
  "newRepoInfo i gpath ns =
     \<lparr>gi_Id = i, gi_GlobalPath = gpath, gi_GitlabNamespace = ns, gi_Confirmed = False, gi_ReinitReason = [],
      gi_lastRepoEventId = 0, gi_moveRepoWorkflow = 0, gi_newGlobalPath = [],
      gi_StorageTier = StorageTierUnspecified, gi_storageWorkflowId = 0\<rparr>"

fun regAdvanceEv :: "MapOrder \<Rightarrow> RegState \<Rightarrow> RegistryEvent \<Rightarrow> (reg_error, RegState) outcome" where
  "regAdvanceEv mo st (RvRegistryAdded nam) =
     Ok (st\<lparr>gs_repoAclPolicy := P_NO_ACLS, gs_info := Some nam, gs_roots := Map.empty,
        gs_reposByName := Map.empty, gs_reposById := Map.empty\<rparr>)"
| "regAdvanceEv mo st (RvEphemeralWorkflowsEnabled i) = Ok (st\<lparr>gs_ephemeralWorkflowsId := i\<rparr>)"
| "regAdvanceEv mo st (RvRepoAclPolicyUpdated p) = Ok (st\<lparr>gs_repoAclPolicy := p\<rparr>)"
| "regAdvanceEv mo st (RvRootAdded x) =
     Ok (st\<lparr>gs_roots := (gs_roots st)(fr_GlobalRoot x \<mapsto> newRootState x)\<rparr>)"
| "regAdvanceEv mo st (RvRootRemoved groot) = Ok (st\<lparr>gs_roots := (gs_roots st)(groot := None)\<rparr>)"
| "regAdvanceEv mo st (RvRootUpdated x) =
     updateRoot st (fr_GlobalRoot x) (\<lambda>r. r\<lparr>rt_info := (rt_info r)
       \<lparr>ro_Host := fr_Host x, ro_HostRoot := fr_HostRoot x, ro_GitlabNamespace := fr_GitlabNamespace x\<rparr>\<rparr>)"
| "regAdvanceEv mo st (RvRepoNamingUpdated n) =
     (case gs_roots st (nm_GlobalRoot n) of
        None \<Rightarrow> Panic ''inconsistent state''
      | Some r \<Rightarrow>
          (case ParsePb (nm_Config n) of
             Inl e \<Rightarrow> Panic ''config map''
           | Inr cfg \<Rightarrow> updateRoot st (nm_GlobalRoot n) (\<lambda>r. r\<lparr>rt_repoNaming := Some n,
               rt_repoNamingIsPatched := False, rt_repoNamingConfig := cfg\<rparr>)))"
| "regAdvanceEv mo st (RvRepoNamingConfigUpdated groot rule patch) =
     (case gs_roots st groot of
        None \<Rightarrow> Panic ''inconsistent state''
      | Some r \<Rightarrow>
          (case ParsePb (Some patch) of
             Inl e \<Rightarrow> Panic ''config map''
           | Inr p \<Rightarrow>
               (case Merge (rt_repoNamingConfig r) (rangeConfig mo p) p of
                  Inl e \<Rightarrow> Panic ''config map merge''
                | Inr cfg \<Rightarrow> updateRoot st groot (\<lambda>r. r\<lparr>rt_repoNamingIsPatched := True,
                    rt_repoNamingConfig := cfg\<rparr>))))"
| "regAdvanceEv mo st (RvRepoInitPolicyUpdated p) =
     updateRoot st (ip_GlobalRoot p) (\<lambda>r. r\<lparr>rt_repoInitPolicy := Some p\<rparr>)"
| "regAdvanceEv mo st (RvRootArchiveRecipientsUpdated groot ks) =
     (case gs_roots st groot of
        None \<Rightarrow> Panic ''inconsistent state''
      | Some r \<Rightarrow>
          (case ParseFingerprintsBytes ks of
             Inl e \<Rightarrow> Panic ''malformed GPG key fingerprint''
           | Inr keys \<Rightarrow> updateRoot st groot (\<lambda>r. r\<lparr>rt_info := (rt_info r)\<lparr>ro_ArchiveRecipients := keys\<rparr>\<rparr>)))"
| "regAdvanceEv mo st (RvRootShadowBackupRecipientsUpdated groot ks) =
     (case gs_roots st groot of
        None \<Rightarrow> Panic ''inconsistent state''
      | Some r \<Rightarrow>
          (case ParseFingerprintsBytes ks of
             Inl e \<Rightarrow> Panic ''malformed GPG key fingerprint''
           | Inr keys \<Rightarrow> updateRoot st groot (\<lambda>r. r\<lparr>rt_info := (rt_info r)\<lparr>ro_ShadowBackupRecipients := keys\<rparr>\<rparr>)))"
| "regAdvanceEv mo st (RvRepoAccepted x) =
     uuidOrPanic (fi_Id x) (\<lambda>uu.
       case findRootInfoForRepo mo (gs_roots st) (fi_GlobalPath x) of
         None \<Rightarrow> Panic ''unknown root''
       | Some r \<Rightarrow> Ok (putRepo st (newRepoInfo uu (fi_GlobalPath x) (ro_GitlabNamespace r))))"
| "regAdvanceEv mo st (RvRepoAdded x) =
     uuidOrPanic (fi_Id x) (\<lambda>uu.
       updateRepo st uu (\<lambda>r. r\<lparr>gi_Confirmed := True, gi_StorageTier := StorageOnline\<rparr>))"
| "regAdvanceEv mo st (RvRepoMoveAccepted i w p) =
     updateRepo st i (\<lambda>r. r\<lparr>gi_moveRepoWorkflow := w, gi_newGlobalPath := p\<rparr>)"
| "regAdvanceEv mo st (RvRepoMoved i ev w p) =
     (case gs_reposById st i of
        None \<Rightarrow> Panic ''nil pointer dereference''
      | Some r \<Rightarrow>
          if w \<noteq> gi_moveRepoWorkflow r then Panic ''workflow ID mismatch''
          else if p \<noteq> gi_newGlobalPath r then Panic ''new global path mismatch''
          else Ok (putRepo (st\<lparr>gs_reposByName := (gs_reposByName st)(gi_GlobalPath r := None)\<rparr>)
                 (r\<lparr>gi_GlobalPath := p, gi_newGlobalPath := []\<rparr>)))"
| "regAdvanceEv mo st (RvRepoReinitAccepted bs p reason) =
     uuidOrPanic bs (\<lambda>uu. updateRepo st uu (\<lambda>r. r\<lparr>gi_ReinitReason := reason\<rparr>))"
| "regAdvanceEv mo st (RvShadowRepoMoveStarted i ev w) = updateRepo st i (\<lambda>r. r\<lparr>gi_lastRepoEventId := ev\<rparr>)"
| "regAdvanceEv mo st (RvRepoEnableGitlabAccepted i ns) = updateRepo st i (\<lambda>r. r\<lparr>gi_GitlabNamespace := ns\<rparr>)"
| "regAdvanceEv mo st (RvSplitRootEnabled groot) =
     updateRoot st groot (\<lambda>r. r\<lparr>rt_splitRootConfig :=
       Some \<lparr>sr_MaxDepth = 0, sr_MinDiskUsage = 0, sr_MaxDiskUsage = 0\<rparr>\<rparr>)"
| "regAdvanceEv mo st (RvSplitRootParamsUpdated x) =
     updateRoot st (sp_GlobalRoot x) (\<lambda>r. r\<lparr>rt_splitRootConfig :=
       Some \<lparr>sr_MaxDepth = sp_MaxDepth x, sr_MinDiskUsage = sp_MinDiskUsage x, sr_MaxDiskUsage = sp_MaxDiskUsage x\<rparr>\<rparr>)"
| "regAdvanceEv mo st (RvSplitRootDisabled groot) = updateRoot st groot (\<lambda>r. r\<lparr>rt_splitRootConfig := None\<rparr>)"
| "regAdvanceEv mo st (RvPathFlagSet p flags) =
     Ok (st\<lparr>gs_pathFlags := (gs_pathFlags st)(p \<mapsto> or (flagsAt (gs_pathFlags st) p) flags)\<rparr>)"
| "regAdvanceEv mo st (RvPathFlagUnset p flags) =
     (let f = and (flagsAt (gs_pathFlags st) p) (not flags)
      in Ok (st\<lparr>gs_pathFlags := (gs_pathFlags st)(p := if f = 0 then None else Some f)\<rparr>))"
| "regAdvanceEv mo st (RvFreezeRepoStarted2 i w) =
     updateRepo st i (\<lambda>r. r\<lparr>gi_StorageTier := StorageFreezing, gi_storageWorkflowId := w\<rparr>)"
| "regAdvanceEv mo st (RvFreezeRepoCompleted2 i w code) =
     updateRepo st i (\<lambda>r. r\<lparr>gi_StorageTier := if code = 0 then StorageFrozen else StorageFreezeFailed\<rparr>)"
| "regAdvanceEv mo st (RvUnfreezeRepoStarted2 i w) =
     updateRepo st i (\<lambda>r. r\<lparr>gi_StorageTier := StorageUnfreezing, gi_storageWorkflowId := w\<rparr>)"
| "regAdvanceEv mo st (RvUnfreezeRepoCompleted2 i w code) =
     updateRepo st i (\<lambda>r. r\<lparr>gi_StorageTier := if code = 0 then StorageOnline else StorageUnfreezeFailed\<rparr>)"
| "regAdvanceEv mo st (RvArchiveRepoStarted i w) =
     updateRepo st i (\<lambda>r. r\<lparr>gi_StorageTier := StorageArchiving, gi_storageWorkflowId := w\<rparr>)"
| "regAdvanceEv mo st (RvArchiveRepoCompleted i w code) =
     updateRepo st i (\<lambda>r. r\<lparr>gi_StorageTier := if code = 0 then StorageArchived else StorageArchiveFailed\<rparr>)"
| "regAdvanceEv mo st (RvUnarchiveRepoStarted i w) =
     updateRepo st i (\<lambda>r. r\<lparr>gi_StorageTier := StorageUnarchiving, gi_storageWorkflowId := w\<rparr>)"
| "regAdvanceEv mo st (RvUnarchiveRepoCompleted i w code) =
     updateRepo st i (\<lambda>r. r\<lparr>gi_StorageTier := if code = 0 then StorageFrozen else StorageUnarchiveFailed\<rparr>)"

definition regAdvance ::
  "MapOrder \<Rightarrow> ulid_unmarshal \<Rightarrow> RegState \<Rightarrow> RegistryPb Event \<Rightarrow> (reg_error, RegState) outcome" where
  "regAdvance mo ub st ev = obind (rgFromPbMust ub (ev_pb ev)) (regAdvanceEv mo st)"

section \<open>Preconditions\<close>

text \<open>
  The interfaces of \<open>pre.go\<close>, whose implementations call other servers: a missing implementation allows everything.
  The result is an error or the reason to deny, which is empty when the operation may proceed.
\<close>

record Preconditions =
  pre_InitRepo :: "(nat \<Rightarrow> string \<Rightarrow> string \<Rightarrow> string \<Rightarrow> PbSubdirTracking \<Rightarrow> goerr + string) option"
  pre_WorkflowIdCheck :: "(uuid \<Rightarrow> goerr + string) option"

definition isInitRepoAllowed ::
  "Preconditions \<Rightarrow> nat \<Rightarrow> string \<Rightarrow> string \<Rightarrow> string \<Rightarrow> PbSubdirTracking \<Rightarrow> goerr + string" where
  "isInitRepoAllowed p ctx repo host hostPath tracking =
     (case pre_InitRepo p of None \<Rightarrow> Inr [] | Some f \<Rightarrow> f ctx repo host hostPath tracking)"

definition isAllowedAsUnusedWorkflowId :: "Preconditions \<Rightarrow> uuid \<Rightarrow> goerr + string" where
  "isAllowedAsUnusedWorkflowId p i = (case pre_WorkflowIdCheck p of None \<Rightarrow> Inr [] | Some f \<Rightarrow> f i)"

fun matchGloblist :: "(string \<times> PbSubdirTracking) list \<Rightarrow> string \<Rightarrow> PbSubdirTracking" where
  "matchGloblist [] relpath = ST_IGNORE_MOST"
| "matchGloblist ((pat, t) # gs) relpath =
     (case Match pat relpath of Inr True \<Rightarrow> t | _ \<Rightarrow> matchGloblist gs relpath)"

definition whichSubdirTrackingGloblist :: "FsoRepoInitPolicy \<Rightarrow> string \<Rightarrow> PbSubdirTracking" where
  "whichSubdirTrackingGloblist pol globalPath =
     (let relpath = TrimPrefix globalPath (ip_GlobalRoot pol);
          relpath = (if relpath = [] then ''.'' else TrimLeft relpath (CHR ''/''))
      in matchGloblist (ip_SubdirTrackingGloblist pol) relpath)"

definition WhichSubdirTracking :: "FsoRepoInitPolicy option \<Rightarrow> string \<Rightarrow> reg_error + PbSubdirTracking" where
  "WhichSubdirTracking pol globalPath =
     (case pol of
        None \<Rightarrow> Inr ST_ENTER_SUBDIRS
      | Some p \<Rightarrow>
          if \<not> HasPrefix globalPath (ip_GlobalRoot p) then Inl RgErrPathNotBelowRoot
          else (case ip_Policy p of
                  IPOL_SUBDIR_TRACKING_GLOBLIST \<Rightarrow> Inr (whichSubdirTrackingGloblist p globalPath)
                | _ \<Rightarrow> Inl RgErrUnknownPolicy))"

section \<open>Commands\<close>

text \<open>The statement \<open>return newEvents(state.Vid(), ...)\<close>.\<close>

definition rgEmit :: "ulid_source \<Rightarrow> RegState \<Rightarrow> RegistryPb list \<Rightarrow> (reg_error, RegistryPb Event list) outcome" where
  "rgEmit g st pbs = (case rgNewEvents g (gs_vid st) pbs of Inl e \<Rightarrow> Err (RgLibError e) | Inr evs \<Rightarrow> Ok evs)"

definition rgTellInitRegistry ::
  "ulid_source \<Rightarrow> RegState \<Rightarrow> string \<Rightarrow> (reg_error, RegistryPb Event list) outcome" where
  "rgTellInitRegistry g st nam =
     (case gs_info st of
        Some n \<Rightarrow> if nam \<noteq> n then Err RgErrConflictInit else Ok []
      | None \<Rightarrow> rgEmit g st [NewRegistryAdded nam])"

definition rgTellEnableEphemeralWorkflows ::
  "ulid_source \<Rightarrow> RegState \<Rightarrow> uuid \<Rightarrow> (reg_error, RegistryPb Event list) outcome" where
  "rgTellEnableEphemeralWorkflows g st i =
     (if gs_info st = None then Err RgErrUninitialized
      else if i = uuidNil then Err RgErrMalformedEphemeralWorkflowsId
      else if gs_ephemeralWorkflowsId st \<noteq> uuidNil then
        (if i \<noteq> gs_ephemeralWorkflowsId st then Err RgErrConflictEphemeralWorkflowsId else Ok [])
      else rgEmit g st [NewEphemeralWorkflowsEnabled i])"

definition rgTellEnablePropagateRootAcls ::
  "ulid_source \<Rightarrow> RegState \<Rightarrow> (reg_error, RegistryPb Event list) outcome" where
  "rgTellEnablePropagateRootAcls g st =
     (if gs_info st = None then Err RgErrUninitialized
      else if gs_repoAclPolicy st = P_PROPAGATE_ROOT_ACLS then Ok []
      else rgEmit g st [NewRepoAclPolicyUpdated P_PROPAGATE_ROOT_ACLS])"

definition rgTellInitRoot ::
  "ulid_source \<Rightarrow> RegState \<Rightarrow> string \<Rightarrow> string \<Rightarrow> string \<Rightarrow> string \<Rightarrow> (reg_error, RegistryPb Event list) outcome" where
  "rgTellInitRoot g st globalRoot host hostRoot ns =
     (if gs_info st = None then Err RgErrUninitialized
      else let groot = TrimRight globalRoot (CHR ''/''); hroot = TrimRight hostRoot (CHR ''/'')
      in if gs_roots st groot \<noteq> None then Ok []
         else let gns = TrimRight ns (CHR ''/'')
         in if gns \<noteq> [] \<and> \<not> ContainsChar gns (CHR ''/'') then Err RgErrGitlabNamespaceMissingSlash
            else rgEmit g st [NewRootAdded
              \<lparr>fr_GlobalRoot = groot, fr_Host = host, fr_HostRoot = hroot, fr_GitlabNamespace = gns\<rparr>])"

definition rgTellRemoveRoot ::
  "ulid_source \<Rightarrow> RegState \<Rightarrow> string \<Rightarrow> (reg_error, RegistryPb Event list) outcome" where
  "rgTellRemoveRoot g st globalRoot =
     (if gs_info st = None then Err RgErrUninitialized
      else let groot = TrimRight globalRoot (CHR ''/'')
      in if gs_roots st groot = None then Err RgErrUnknownRoot else rgEmit g st [NewRootRemoved groot])"

definition rgTellEnableGitlab ::
  "ulid_source \<Rightarrow> RegState \<Rightarrow> string \<Rightarrow> string \<Rightarrow> (reg_error, RegistryPb Event list) outcome" where
  "rgTellEnableGitlab g st globalRoot ns =
     (if gs_info st = None then Err RgErrUninitialized
      else let gns = TrimRight ns (CHR ''/'')
      in if \<not> ContainsChar gns (CHR ''/'') then Err RgErrGitlabNamespaceMissingSlash
         else case gs_roots st (TrimRight globalRoot (CHR ''/'')) of
           None \<Rightarrow> Err RgErrUnknownRoot
         | Some old \<Rightarrow>
             if ro_GitlabNamespace (rt_info old) = gns then Ok []
             else rgEmit g st [NewRootUpdated
               \<lparr>fr_GlobalRoot = ro_GlobalRoot (rt_info old), fr_Host = ro_Host (rt_info old),
                fr_HostRoot = ro_HostRoot (rt_info old), fr_GitlabNamespace = gns\<rparr>])"

definition rgTellDisableGitlab ::
  "ulid_source \<Rightarrow> RegState \<Rightarrow> string \<Rightarrow> (reg_error, RegistryPb Event list) outcome" where
  "rgTellDisableGitlab g st globalRoot =
     (if gs_info st = None then Err RgErrUninitialized
      else case gs_roots st (TrimRight globalRoot (CHR ''/'')) of
        None \<Rightarrow> Err RgErrUnknownRoot
      | Some old \<Rightarrow>
          if ro_GitlabNamespace (rt_info old) = [] then Ok []
          else rgEmit g st [NewRootUpdated
            \<lparr>fr_GlobalRoot = ro_GlobalRoot (rt_info old), fr_Host = ro_Host (rt_info old),
             fr_HostRoot = ro_HostRoot (rt_info old), fr_GitlabNamespace = []\<rparr>])"

text \<open>\<open>proto.Equal()\<close> on namings and policies, which compares floats with \<open>==\<close>.\<close>

fun fieldEqual :: "ConfigFieldVal \<Rightarrow> ConfigFieldVal \<Rightarrow> bool" where
  "fieldEqual (FNumber x) (FNumber y) \<longleftrightarrow> float_eq x y"
| "fieldEqual v w \<longleftrightarrow> v = w"

definition configEqual :: "ConfigMapPb option \<Rightarrow> ConfigMapPb option \<Rightarrow> bool" where
  "configEqual a b =
     (case (a, b) of
        (None, None) \<Rightarrow> True
      | (Some xs, Some ys) \<Rightarrow> list_all2 (\<lambda>(k, v) (l, w). k = l \<and> fieldEqual v w) xs ys
      | _ \<Rightarrow> False)"

definition namingEqual :: "FsoRepoNaming option \<Rightarrow> FsoRepoNaming option \<Rightarrow> bool" where
  "namingEqual a b =
     (case (a, b) of
        (None, None) \<Rightarrow> True
      | (Some m, Some n) \<Rightarrow> nm_GlobalRoot m = nm_GlobalRoot n \<and> nm_Rule m = nm_Rule n \<and>
          configEqual (nm_Config m) (nm_Config n)
      | _ \<Rightarrow> False)"

text \<open>After \<open>Validate*()\<close> the pointer is not nil.\<close>

definition rgTellSetRepoNaming ::
  "ulid_source \<Rightarrow> RegState \<Rightarrow> FsoRepoNaming option \<Rightarrow> (reg_error, RegistryPb Event list) outcome" where
  "rgTellSetRepoNaming g st naming =
     (if gs_info st = None then Err RgErrUninitialized
      else ifError (map_option RgValidationError (ValidateRepoNaming naming))
        (deref naming (\<lambda>n.
           case gs_roots st (TrimRight (nm_GlobalRoot n) (CHR ''/'')) of
             None \<Rightarrow> Err RgErrUnknownRoot
           | Some rootSt \<Rightarrow>
               if \<not> rt_repoNamingIsPatched rootSt \<and> namingEqual (rt_repoNaming rootSt) naming then Ok []
               else rgEmit g st [NewRepoNamingUpdated n])))"

definition rgTellPatchRepoNaming ::
  "ulid_source \<Rightarrow> RegState \<Rightarrow> FsoRepoNaming option \<Rightarrow> (reg_error, RegistryPb Event list) outcome" where
  "rgTellPatchRepoNaming g st patch =
     (if gs_info st = None then Err RgErrUninitialized
      else ifError (map_option RgValidationError (ValidateRepoNamingPatch patch))
        (deref patch (\<lambda>p.
           case gs_roots st (TrimRight (nm_GlobalRoot p) (CHR ''/'')) of
             None \<Rightarrow> Err RgErrUnknownRoot
           | Some rootSt \<Rightarrow>
               deref (rt_repoNaming rootSt) (\<lambda>n.
                 if nm_Rule p \<noteq> nm_Rule n then Err RgErrNamingRuleMismatch
                 else rgEmit g st [NewRepoNamingConfigUpdated p]))))"

text \<open>The checks of the paths, and the strings that are not enabled yet.\<close>

fun checkDepthPaths :: "string \<Rightarrow> DepthPath list \<Rightarrow> reg_error option" where
  "checkDepthPaths globalRoot [] = None"
| "checkDepthPaths globalRoot (dp # dps) =
     (if \<not> pathIsBelowPrefixStrict (dp_Path dp) globalRoot then Some RgErrPathNotStrictlyBelow
      else if dp_Depth dp < 0 \<or> dp_Depth dp > 2 then Some RgErrPathDepthOutOfRange
      else checkDepthPaths globalRoot dps)"

fun addDepthPaths :: "string \<Rightarrow> string list \<Rightarrow> DepthPath list \<Rightarrow> string list" where
  "addDepthPaths globalRoot haveSet [] = []"
| "addDepthPaths globalRoot haveSet (dp # dps) =
     (let relpath = Trim (TrimPrefix (dp_Path dp) globalRoot) (CHR ''/'');
          s = sprintInt (dp_Depth dp) @ '' '' @ relpath
      in if s \<in> set haveSet then addDepthPaths globalRoot haveSet dps
         else s # addDepthPaths globalRoot (s # haveSet) dps)"

definition rgTellEnableDiscoveryPaths ::
  "ulid_source \<Rightarrow> RegState \<Rightarrow> string \<Rightarrow> DepthPath list \<Rightarrow> (reg_error, RegistryPb Event list) outcome" where
  "rgTellEnableDiscoveryPaths g st globalRoot depthPaths =
     (ifError (checkDepthPaths globalRoot depthPaths)
        (case gs_roots st globalRoot of
           None \<Rightarrow> Err RgErrUnknownRoot
         | Some r \<Rightarrow>
             if rt_repoInitPolicy r = None then Err RgErrRootWithoutInitPolicy
             else case rt_repoNaming r of
               None \<Rightarrow> Err RgErrRootWithoutRepoNaming
             | Some naming \<Rightarrow>
                 if nm_Rule naming \<noteq> ''PathPatterns'' then Err (RgEnablePathRuleError (nm_Rule naming))
                 else
                   let haveSet = (case rt_repoNamingConfig r ''enabledPaths'' of Some (CTextList dps) \<Rightarrow> dps | _ \<Rightarrow> []);
                       addSet = addDepthPaths globalRoot haveSet depthPaths
                   in if addSet = [] then Ok []
                      else let patch = \<lparr>nm_GlobalRoot = globalRoot, nm_Rule = ''PathPatterns'',
                                 nm_Config = Some [(''enabledPaths'', FTextList addSet)]\<rparr>
                      in ifError (map_option RgInternalError (ValidateRepoNamingPatch (Some patch)))
                           (rgEmit g st [NewRepoNamingConfigUpdated patch])))"

definition rgTellSetRepoInitPolicy ::
  "ulid_source \<Rightarrow> RegState \<Rightarrow> FsoRepoInitPolicy option \<Rightarrow> (reg_error, RegistryPb Event list) outcome" where
  "rgTellSetRepoInitPolicy g st policy =
     (if gs_info st = None then Err RgErrUninitialized
      else ifError (map_option RgValidationError (ValidateRepoInitPolicy policy))
        (deref policy (\<lambda>p.
           case gs_roots st (TrimRight (ip_GlobalRoot p) (CHR ''/'')) of
             None \<Rightarrow> Err RgErrUnknownRoot
           | Some rootSt \<Rightarrow>
               if rt_repoInitPolicy rootSt = policy then Ok [] else rgEmit g st [NewRepoInitPolicyUpdated p])))"

text \<open>\<open>checkTell()\<close> of both commands that update recipients.\<close>

definition rgCheckTellKeys :: "Fingerprints \<Rightarrow> reg_error option" where
  "rgCheckTellKeys keys =
     (if length keys = 0 then Some RgErrNoGPGKeys
      else if HasDuplicate keys then Some RgErrDuplicateGPGKeys
      else None)"

definition rgTellUpdateRootArchiveRecipients ::
  "ulid_source \<Rightarrow> RegState \<Rightarrow> string \<Rightarrow> Fingerprints \<Rightarrow> (reg_error, RegistryPb Event list) outcome" where
  "rgTellUpdateRootArchiveRecipients g st globalRoot keys =
     (ifError (rgCheckTellKeys keys)
       (if gs_info st = None then Err RgErrNotInitialized
        else let rootPath = TrimRight globalRoot (CHR ''/'')
        in case gs_roots st rootPath of
             None \<Rightarrow> Err RgErrUnknownRoot
           | Some rootSt \<Rightarrow>
               if fpEqual (ro_ArchiveRecipients (rt_info rootSt)) keys then Ok []
               else obind (NewRootArchiveRecipientsUpdated rootPath (Bytes keys)) (\<lambda>p. rgEmit g st [p])))"

definition rgTellDeleteRootArchiveRecipients ::
  "ulid_source \<Rightarrow> RegState \<Rightarrow> string \<Rightarrow> (reg_error, RegistryPb Event list) outcome" where
  "rgTellDeleteRootArchiveRecipients g st globalRoot =
     (if gs_info st = None then Err RgErrNotInitialized
      else let rootPath = TrimRight globalRoot (CHR ''/'')
      in case gs_roots st rootPath of
           None \<Rightarrow> Err RgErrUnknownRoot
         | Some rootSt \<Rightarrow>
             if ro_ArchiveRecipients (rt_info rootSt) = [] then Ok []
             else obind (NewRootArchiveRecipientsUpdated rootPath []) (\<lambda>p. rgEmit g st [p]))"

definition rgTellUpdateRootShadowBackupRecipients ::
  "ulid_source \<Rightarrow> RegState \<Rightarrow> string \<Rightarrow> Fingerprints \<Rightarrow> (reg_error, RegistryPb Event list) outcome" where
  "rgTellUpdateRootShadowBackupRecipients g st globalRoot keys =
     (ifError (rgCheckTellKeys keys)
       (if gs_info st = None then Err RgErrNotInitialized
        else let rootPath = TrimRight globalRoot (CHR ''/'')
        in case gs_roots st rootPath of
             None \<Rightarrow> Err RgErrUnknownRoot
           | Some rootSt \<Rightarrow>
               if fpEqual (ro_ShadowBackupRecipients (rt_info rootSt)) keys then Ok []
               else obind (NewRootShadowBackupRecipientsUpdated rootPath (Bytes keys)) (\<lambda>p. rgEmit g st [p])))"

definition rgTellDeleteRootShadowBackupRecipients ::
  "ulid_source \<Rightarrow> RegState \<Rightarrow> string \<Rightarrow> (reg_error, RegistryPb Event list) outcome" where
  "rgTellDeleteRootShadowBackupRecipients g st globalRoot =
     (if gs_info st = None then Err RgErrNotInitialized
      else let rootPath = TrimRight globalRoot (CHR ''/'')
      in case gs_roots st rootPath of
           None \<Rightarrow> Err RgErrUnknownRoot
         | Some rootSt \<Rightarrow>
             if ro_ShadowBackupRecipients (rt_info rootSt) = [] then Ok []
             else obind (NewRootShadowBackupRecipientsUpdated rootPath []) (\<lambda>p. rgEmit g st [p]))"

text \<open>A loop that does not end counts as a panic: the call never gives control back.\<close>

definition rgTellInitRepo ::
  "MapOrder \<Rightarrow> Preconditions \<Rightarrow> ulid_source \<Rightarrow> RegState \<Rightarrow> RgCmdInitRepo \<Rightarrow>
   (reg_error, RegistryPb Event list) outcome" where
  "rgTellInitRepo mo pre g st cmd =
     (if gc_CreatorName cmd = [] then Err RgErrCreatorNameMissing
      else if gc_CreatorEmail cmd = [] then Err RgErrCreatorEmailMissing
      else if gs_info st = None then Err RgErrUninitialized
      else let gpath = TrimRight (gc_GlobalPath cmd) (CHR ''/'')
      in if gs_reposByName st gpath \<noteq> None then Err RgErrConflictRepoInit
         else case findRootStateForRepo mo (gs_roots st) gpath of
           None \<Rightarrow> Err RgErrUnknownRoot
         | Some r \<Rightarrow>
             onError id (WhichSubdirTracking (rt_repoInitPolicy r) gpath) (\<lambda>tracking.
               case findParentRepo (gs_reposByName st) gpath of
                 None \<Rightarrow> Panic ''findParentRepo() does not return''
               | Some parent \<Rightarrow>
                   if (case parent of None \<Rightarrow> False | Some p \<Rightarrow> gi_StorageTier p \<noteq> StorageOnline)
                   then Err RgErrParentRepoImmutable
                   else obind (rootHostPath (rt_info r) gpath) (\<lambda>hostPath.
                     onError RgLibError
                       (isInitRepoAllowed pre (gc_Context cmd) gpath (ro_Host (rt_info r)) hostPath tracking)
                       (\<lambda>reason.
                          if reason \<noteq> [] then Err (RgInitRepoDenyError reason)
                          else rgEmit g st [NewRepoAccepted
                            \<lparr>fi_Id = Some (idBytes (gc_Id cmd)), fi_GlobalPath = gpath,
                             fi_CreatorName = gc_CreatorName cmd, fi_CreatorEmail = gc_CreatorEmail cmd,
                             fi_Confirmed = False\<rparr>]))))"

definition rgTellReinitRepo ::
  "ulid_source \<Rightarrow> RegState \<Rightarrow> uuid \<Rightarrow> string \<Rightarrow> (reg_error, RegistryPb Event list) outcome" where
  "rgTellReinitRepo g st repoId reason =
     (if reason = [] then Err RgErrReasonEmpty
      else if gs_info st = None then Err RgErrUninitialized
      else case gs_reposById st repoId of
        None \<Rightarrow> Err RgErrUnknownRepo
      | Some repo \<Rightarrow>
          if gi_ReinitReason repo = reason then Err RgErrReasonAlreadyApplied
          else rgEmit g st [NewRepoReinitAccepted (idBytes (gi_Id repo)) (gi_GlobalPath repo) reason])"

definition rgTellEnableGitlabRepo ::
  "ulid_source \<Rightarrow> RegState \<Rightarrow> uuid \<Rightarrow> string \<Rightarrow> (reg_error, RegistryPb Event list) outcome" where
  "rgTellEnableGitlabRepo g st repoId ns =
     (if gs_info st = None then Err RgErrUninitialized
      else case gs_reposById st repoId of
        None \<Rightarrow> Err RgErrUnknownRepo
      | Some repo \<Rightarrow>
          let gns = TrimRight ns (CHR ''/'')
          in if \<not> ContainsChar gns (CHR ''/'') then Err RgErrGitlabNamespaceMissingSlash
             else if gi_GitlabNamespace repo \<noteq> [] then
               (if gns = gi_GitlabNamespace repo then Ok [] else Err RgErrConflictGitlabInit)
             else rgEmit g st [NewRepoEnableGitlabAccepted (gi_Id repo) gns])"

text \<open>\<open>checkTell()\<close> and \<open>conflictsWith()\<close> of \<open>SplitRootConfig\<close>; the last comparison is of \<open>MinDiskUsage\<close>, as in the source.\<close>

definition splitCheckTell :: "SplitRootConfig option \<Rightarrow> reg_error option" where
  "splitCheckTell cfg =
     (case cfg of
        None \<Rightarrow> Some RgErrInvalidSplitRootConfig
      | Some c \<Rightarrow>
          if sint (sr_MaxDepth c) < 0 \<or> sint (sr_MaxDepth c) > 8 then Some RgErrInvalidSplitRootConfig
          else if sint (sr_MinDiskUsage c) < 0 then Some RgErrInvalidSplitRootConfig
          else if sint (sr_MaxDiskUsage c) < 0 then Some RgErrInvalidSplitRootConfig
          else None)"

definition conflictsWith :: "SplitRootConfig \<Rightarrow> SplitRootConfig \<Rightarrow> bool" where
  "conflictsWith a b \<longleftrightarrow>
     sint (sr_MaxDepth a) > 0 \<and> sr_MaxDepth a \<noteq> sr_MaxDepth b \<or>
     sint (sr_MinDiskUsage a) > 0 \<and> sr_MinDiskUsage a \<noteq> sr_MinDiskUsage b \<or>
     sint (sr_MaxDiskUsage a) > 0 \<and> sr_MinDiskUsage a \<noteq> sr_MinDiskUsage b"

definition rgTellCreateSplitRootConfig ::
  "ulid_source \<Rightarrow> RegState \<Rightarrow> string \<Rightarrow> SplitRootConfig option \<Rightarrow> (reg_error, RegistryPb Event list) outcome" where
  "rgTellCreateSplitRootConfig g st globalRoot config =
     (ifError (splitCheckTell config)
       (deref config (\<lambda>cfg.
         if gs_info st = None then Err RgErrUninitialized
         else let rootPath = TrimRight globalRoot (CHR ''/'')
         in case gs_roots st rootPath of
              None \<Rightarrow> Err RgErrUnknownRoot
            | Some rootSt \<Rightarrow>
                (case rt_splitRootConfig rootSt of
                   Some cfgSt \<Rightarrow> if conflictsWith cfg cfgSt then Err RgErrSplitRootConfigExists else Ok []
                 | None \<Rightarrow>
                     let evCfg = \<lparr>sp_GlobalRoot = [],
                           sp_MaxDepth = if sint (sr_MaxDepth cfg) > 0 then sr_MaxDepth cfg else 3,
                           sp_MinDiskUsage = if sint (sr_MinDiskUsage cfg) > 0 then sr_MinDiskUsage cfg else 20 * 2 ^ 30,
                           sp_MaxDiskUsage = if sint (sr_MaxDiskUsage cfg) > 0 then sr_MaxDiskUsage cfg else 400 * 2 ^ 30\<rparr>
                     in rgEmit g st [NewSplitRootEnabled rootPath, NewSplitRootParamsUpdated rootPath evCfg]))))"

text \<open>A parameter that is given and differs replaces the stored one.\<close>

definition pickParam :: "('a :: len) word \<Rightarrow> 'a word \<Rightarrow> 'a word" where
  "pickParam new old = (if sint new > 0 \<and> new \<noteq> old then new else old)"

definition rgTellUpdateSplitRootConfig ::
  "ulid_source \<Rightarrow> RegState \<Rightarrow> string \<Rightarrow> SplitRootConfig option \<Rightarrow> (reg_error, RegistryPb Event list) outcome" where
  "rgTellUpdateSplitRootConfig g st globalRoot config =
     (ifError (splitCheckTell config)
       (deref config (\<lambda>cfg.
         if gs_info st = None then Err RgErrUninitialized
         else let rootPath = TrimRight globalRoot (CHR ''/'')
         in case gs_roots st rootPath of
              None \<Rightarrow> Err RgErrUnknownRoot
            | Some rootSt \<Rightarrow>
                (case rt_splitRootConfig rootSt of
                   None \<Rightarrow> Err RgErrNoSplitRootConfig
                 | Some cfgSt \<Rightarrow>
                     let depth = pickParam (sr_MaxDepth cfg) (sr_MaxDepth cfgSt);
                         minUsage = pickParam (sr_MinDiskUsage cfg) (sr_MinDiskUsage cfgSt);
                         maxUsage = pickParam (sr_MaxDiskUsage cfg) (sr_MaxDiskUsage cfgSt)
                     in if depth = sr_MaxDepth cfgSt \<and> minUsage = sr_MinDiskUsage cfgSt \<and> maxUsage = sr_MaxDiskUsage cfgSt
                        then Ok []
                        else rgEmit g st [NewSplitRootParamsUpdated rootPath
                          \<lparr>sp_GlobalRoot = [], sp_MaxDepth = depth, sp_MinDiskUsage = minUsage,
                           sp_MaxDiskUsage = maxUsage\<rparr>]))))"

definition rgTellDeleteSplitRootConfig ::
  "ulid_source \<Rightarrow> RegState \<Rightarrow> string \<Rightarrow> (reg_error, RegistryPb Event list) outcome" where
  "rgTellDeleteSplitRootConfig g st globalRoot =
     (if gs_info st = None then Err RgErrUninitialized
      else let rootPath = TrimRight globalRoot (CHR ''/'')
      in case gs_roots st rootPath of
           None \<Rightarrow> Err RgErrUnknownRoot
         | Some rootSt \<Rightarrow>
             if rt_splitRootConfig rootSt = None then Err RgErrNoSplitRootConfig
             else rgEmit g st [NewSplitRootDisabled rootPath])"

definition rgTellSetPathFlags ::
  "ulid_source \<Rightarrow> RegState \<Rightarrow> string \<Rightarrow> 32 word \<Rightarrow> (reg_error, RegistryPb Event list) outcome" where
  "rgTellSetPathFlags g st p flags =
     (if gs_info st = None then Err RgErrUninitialized
      else let path = Clean p
      in if \<not> IsAbs path then Err RgErrMalformedPath
         else if or (flagsAt (gs_pathFlags st) path) flags = flagsAt (gs_pathFlags st) path then Ok []
         else rgEmit g st [NewPathFlagSet path flags])"

definition rgTellUnsetPathFlags ::
  "ulid_source \<Rightarrow> RegState \<Rightarrow> string \<Rightarrow> 32 word \<Rightarrow> (reg_error, RegistryPb Event list) outcome" where
  "rgTellUnsetPathFlags g st p flags =
     (if gs_info st = None then Err RgErrUninitialized
      else let path = Clean p
      in if \<not> IsAbs path then Err RgErrMalformedPath
         else if and (flagsAt (gs_pathFlags st) path) (not flags) = flagsAt (gs_pathFlags st) path then Ok []
         else rgEmit g st [NewPathFlagUnset path flags])"

text \<open>The storage operations; \<open>may*RepoInfo()\<close> answers with a reason when the operation is not possible.\<close>

definition HasRoot :: "RegState \<Rightarrow> string \<Rightarrow> bool" where
  "HasRoot s groot \<longleftrightarrow> gs_roots s groot \<noteq> None"

definition mayFreezeRepoInfo :: "MapOrder \<Rightarrow> RegState \<Rightarrow> RepoInfo \<Rightarrow> bool \<times> string" where
  "mayFreezeRepoInfo mo st repo =
     (if gi_StorageTier repo \<noteq> StorageOnline \<and> gi_StorageTier repo \<noteq> StorageFreezeFailed
      then (False, ''conflicting repo storage state'')
      else if length (ReposPrefix mo st (gi_GlobalPath repo)) \<noteq> 1 then (False, ''not a leaf repo'')
      else (True, []))"

definition MayFreezeRepo :: "MapOrder \<Rightarrow> RegState \<Rightarrow> uuid \<Rightarrow> bool \<times> string" where
  "MayFreezeRepo mo st repoId =
     (case gs_reposById st repoId of None \<Rightarrow> (False, ''unknown repo'') | Some repo \<Rightarrow> mayFreezeRepoInfo mo st repo)"

definition rgTellBeginFreezeRepo ::
  "MapOrder \<Rightarrow> ulid_source \<Rightarrow> RegState \<Rightarrow> uuid \<Rightarrow> uuid \<Rightarrow> (reg_error, RegistryPb Event list) outcome" where
  "rgTellBeginFreezeRepo mo g st repoId workflowId =
     (if gs_info st = None then Err RgErrUninitialized
      else case gs_reposById st repoId of
        None \<Rightarrow> Err RgErrUnknownRepo
      | Some repo \<Rightarrow>
          if gi_StorageTier repo = StorageFreezing then
            (if gi_storageWorkflowId repo \<noteq> workflowId then Err RgErrConflictWorkflow else Ok [])
          else if gi_StorageTier repo \<noteq> StorageOnline \<and> gi_StorageTier repo \<noteq> StorageFreezeFailed
          then Err RgErrConflictWorkflow
          else if \<not> fst (mayFreezeRepoInfo mo st repo) then Err RgErrCannotFreezeRepo
          else obind (rgNewFreezeRepoStarted2 repoId workflowId) (\<lambda>p. rgEmit g st [p]))"

definition rgTellCommitFreezeRepo ::
  "ulid_source \<Rightarrow> RegState \<Rightarrow> uuid \<Rightarrow> uuid \<Rightarrow> (reg_error, RegistryPb Event list) outcome" where
  "rgTellCommitFreezeRepo g st repoId workflowId =
     (if gs_info st = None then Err RgErrUninitialized
      else case gs_reposById st repoId of
        None \<Rightarrow> Err RgErrUnknownRepo
      | Some repo \<Rightarrow>
          if gi_storageWorkflowId repo \<noteq> workflowId then Err RgErrConflictWorkflow
          else if gi_StorageTier repo = StorageFreezing
          then obind (rgNewFreezeRepoCompleted2Ok repoId workflowId) (\<lambda>p. rgEmit g st [p])
          else if gi_StorageTier repo = StorageFrozen then Ok []
          else Err RgErrConflictWorkflow)"

definition rgTellAbortFreezeRepo ::
  "ulid_source \<Rightarrow> RegState \<Rightarrow> uuid \<Rightarrow> uuid \<Rightarrow> 32 word \<Rightarrow> (reg_error, RegistryPb Event list) outcome" where
  "rgTellAbortFreezeRepo g st repoId workflowId code =
     (if gs_info st = None then Err RgErrUninitialized
      else case gs_reposById st repoId of
        None \<Rightarrow> Err RgErrUnknownRepo
      | Some repo \<Rightarrow>
          if gi_storageWorkflowId repo \<noteq> workflowId then Err RgErrConflictWorkflow
          else if gi_StorageTier repo = StorageFreezing
          then obind (rgNewFreezeRepoCompleted2Error repoId workflowId code) (\<lambda>p. rgEmit g st [p])
          else if gi_StorageTier repo = StorageFreezeFailed then Ok []
          else Err RgErrConflictWorkflow)"

definition mayUnfreezeRepoInfo :: "RegState \<Rightarrow> RepoInfo \<Rightarrow> bool \<times> string" where
  "mayUnfreezeRepoInfo st repo =
     (if gi_StorageTier repo \<noteq> StorageFrozen \<and> gi_StorageTier repo \<noteq> StorageUnfreezeFailed
      then (False, ''conflicting repo storage state'')
      else (True, []))"

definition MayUnfreezeRepo :: "RegState \<Rightarrow> uuid \<Rightarrow> bool \<times> string" where
  "MayUnfreezeRepo st repoId =
     (case gs_reposById st repoId of None \<Rightarrow> (False, ''unknown repo'') | Some repo \<Rightarrow> mayUnfreezeRepoInfo st repo)"

definition rgTellBeginUnfreezeRepo ::
  "ulid_source \<Rightarrow> RegState \<Rightarrow> uuid \<Rightarrow> uuid \<Rightarrow> (reg_error, RegistryPb Event list) outcome" where
  "rgTellBeginUnfreezeRepo g st repoId workflowId =
     (if gs_info st = None then Err RgErrUninitialized
      else case gs_reposById st repoId of
        None \<Rightarrow> Err RgErrUnknownRepo
      | Some repo \<Rightarrow>
          if gi_StorageTier repo = StorageUnfreezing then
            (if gi_storageWorkflowId repo \<noteq> workflowId then Err RgErrConflictWorkflow else Ok [])
          else if gi_StorageTier repo \<noteq> StorageFrozen \<and> gi_StorageTier repo \<noteq> StorageUnfreezeFailed
          then Err RgErrConflictWorkflow
          else if \<not> fst (mayUnfreezeRepoInfo st repo) then Err RgErrCannotUnfreezeRepo
          else obind (rgNewUnfreezeRepoStarted2 repoId workflowId) (\<lambda>p. rgEmit g st [p]))"

definition rgTellCommitUnfreezeRepo ::
  "ulid_source \<Rightarrow> RegState \<Rightarrow> uuid \<Rightarrow> uuid \<Rightarrow> (reg_error, RegistryPb Event list) outcome" where
  "rgTellCommitUnfreezeRepo g st repoId workflowId =
     (if gs_info st = None then Err RgErrUninitialized
      else case gs_reposById st repoId of
        None \<Rightarrow> Err RgErrUnknownRepo
      | Some repo \<Rightarrow>
          if gi_storageWorkflowId repo \<noteq> workflowId then Err RgErrConflictWorkflow
          else if gi_StorageTier repo = StorageUnfreezing
          then obind (rgNewUnfreezeRepoCompleted2Ok repoId workflowId) (\<lambda>p. rgEmit g st [p])
          else if gi_StorageTier repo = StorageUnfreezeFailed then Ok []
          else Err RgErrConflictWorkflow)"

definition rgTellAbortUnfreezeRepo ::
  "ulid_source \<Rightarrow> RegState \<Rightarrow> uuid \<Rightarrow> uuid \<Rightarrow> 32 word \<Rightarrow> (reg_error, RegistryPb Event list) outcome" where
  "rgTellAbortUnfreezeRepo g st repoId workflowId code =
     (if gs_info st = None then Err RgErrUninitialized
      else case gs_reposById st repoId of
        None \<Rightarrow> Err RgErrUnknownRepo
      | Some repo \<Rightarrow>
          if gi_storageWorkflowId repo \<noteq> workflowId then Err RgErrConflictWorkflow
          else if gi_StorageTier repo = StorageUnfreezing
          then obind (rgNewUnfreezeRepoCompleted2Error repoId workflowId code) (\<lambda>p. rgEmit g st [p])
          else if gi_StorageTier repo = StorageUnfreezeFailed then Ok []
          else Err RgErrConflictWorkflow)"

definition mayArchiveRepoInfo :: "MapOrder \<Rightarrow> RegState \<Rightarrow> RepoInfo \<Rightarrow> bool \<times> string" where
  "mayArchiveRepoInfo mo st repo =
     (if gi_StorageTier repo \<noteq> StorageFrozen \<and> gi_StorageTier repo \<noteq> StorageArchiveFailed
      then (False, ''conflicting repo storage state'')
      else if HasRoot st (gi_GlobalPath repo) then (False, ''cannot archive repo at root toplevel'')
      else if length (ReposPrefix mo st (gi_GlobalPath repo)) \<noteq> 1 then (False, ''not a leaf repo'')
      else (True, []))"

definition MayArchiveRepo :: "MapOrder \<Rightarrow> RegState \<Rightarrow> uuid \<Rightarrow> bool \<times> string" where
  "MayArchiveRepo mo st repoId =
     (case gs_reposById st repoId of None \<Rightarrow> (False, ''unknown repo'') | Some repo \<Rightarrow> mayArchiveRepoInfo mo st repo)"

definition rgTellBeginArchiveRepo ::
  "MapOrder \<Rightarrow> ulid_source \<Rightarrow> RegState \<Rightarrow> uuid \<Rightarrow> uuid \<Rightarrow> (reg_error, RegistryPb Event list) outcome" where
  "rgTellBeginArchiveRepo mo g st repoId workflowId =
     (if gs_info st = None then Err RgErrUninitialized
      else case gs_reposById st repoId of
        None \<Rightarrow> Err RgErrUnknownRepo
      | Some repo \<Rightarrow>
          if gi_StorageTier repo = StorageArchiving then
            (if gi_storageWorkflowId repo \<noteq> workflowId then Err RgErrConflictWorkflow else Ok [])
          else if gi_StorageTier repo \<noteq> StorageFrozen \<and> gi_StorageTier repo \<noteq> StorageArchiveFailed
          then Err RgErrConflictWorkflow
          else if \<not> fst (mayArchiveRepoInfo mo st repo) then Err RgErrCannotArchiveRepo
          else obind (rgNewArchiveRepoStarted repoId workflowId) (\<lambda>p. rgEmit g st [p]))"

definition rgTellCommitArchiveRepo ::
  "ulid_source \<Rightarrow> RegState \<Rightarrow> uuid \<Rightarrow> uuid \<Rightarrow> (reg_error, RegistryPb Event list) outcome" where
  "rgTellCommitArchiveRepo g st repoId workflowId =
     (if gs_info st = None then Err RgErrUninitialized
      else case gs_reposById st repoId of
        None \<Rightarrow> Err RgErrUnknownRepo
      | Some repo \<Rightarrow>
          if gi_storageWorkflowId repo \<noteq> workflowId then Err RgErrConflictWorkflow
          else if gi_StorageTier repo = StorageArchiving
          then obind (rgNewArchiveRepoCompletedOk repoId workflowId) (\<lambda>p. rgEmit g st [p])
          else if gi_StorageTier repo = StorageFrozen then Ok []
          else Err RgErrConflictWorkflow)"

definition rgTellAbortArchiveRepo ::
  "ulid_source \<Rightarrow> RegState \<Rightarrow> uuid \<Rightarrow> uuid \<Rightarrow> 32 word \<Rightarrow> (reg_error, RegistryPb Event list) outcome" where
  "rgTellAbortArchiveRepo g st repoId workflowId code =
     (if gs_info st = None then Err RgErrUninitialized
      else case gs_reposById st repoId of
        None \<Rightarrow> Err RgErrUnknownRepo
      | Some repo \<Rightarrow>
          if gi_storageWorkflowId repo \<noteq> workflowId then Err RgErrConflictWorkflow
          else if gi_StorageTier repo = StorageArchiving
          then obind (rgNewArchiveRepoCompletedError repoId workflowId code) (\<lambda>p. rgEmit g st [p])
          else if gi_StorageTier repo = StorageArchiveFailed then Ok []
          else Err RgErrConflictWorkflow)"

definition mayUnarchiveRepoInfo :: "MapOrder \<Rightarrow> RegState \<Rightarrow> RepoInfo \<Rightarrow> bool \<times> string" where
  "mayUnarchiveRepoInfo mo st repo =
     (if gi_StorageTier repo \<noteq> StorageArchived \<and> gi_StorageTier repo \<noteq> StorageUnarchiveFailed
      then (False, ''conflicting repo storage state'')
      else if HasRoot st (gi_GlobalPath repo) then (False, ''cannot unarchive repo at root toplevel'')
      else if length (ReposPrefix mo st (gi_GlobalPath repo)) \<noteq> 1 then (False, ''not a leaf repo'')
      else (True, []))"

definition MayUnarchiveRepo :: "MapOrder \<Rightarrow> RegState \<Rightarrow> uuid \<Rightarrow> bool \<times> string" where
  "MayUnarchiveRepo mo st repoId =
     (case gs_reposById st repoId of None \<Rightarrow> (False, ''unknown repo'') | Some repo \<Rightarrow> mayUnarchiveRepoInfo mo st repo)"

definition rgTellBeginUnarchiveRepo ::
  "MapOrder \<Rightarrow> ulid_source \<Rightarrow> RegState \<Rightarrow> uuid \<Rightarrow> uuid \<Rightarrow> (reg_error, RegistryPb Event list) outcome" where
  "rgTellBeginUnarchiveRepo mo g st repoId workflowId =
     (if gs_info st = None then Err RgErrUninitialized
      else case gs_reposById st repoId of
        None \<Rightarrow> Err RgErrUnknownRepo
      | Some repo \<Rightarrow>
          if gi_StorageTier repo = StorageUnarchiving then
            (if gi_storageWorkflowId repo \<noteq> workflowId then Err RgErrConflictWorkflow else Ok [])
          else if gi_StorageTier repo \<noteq> StorageArchived \<and> gi_StorageTier repo \<noteq> StorageUnarchiveFailed
          then Err RgErrConflictWorkflow
          else if \<not> fst (mayUnarchiveRepoInfo mo st repo) then Err RgErrCannotUnarchiveRepo
          else obind (rgNewUnarchiveRepoStarted repoId workflowId) (\<lambda>p. rgEmit g st [p]))"

definition rgTellCommitUnarchiveRepo ::
  "ulid_source \<Rightarrow> RegState \<Rightarrow> uuid \<Rightarrow> uuid \<Rightarrow> (reg_error, RegistryPb Event list) outcome" where
  "rgTellCommitUnarchiveRepo g st repoId workflowId =
     (if gs_info st = None then Err RgErrUninitialized
      else case gs_reposById st repoId of
        None \<Rightarrow> Err RgErrUnknownRepo
      | Some repo \<Rightarrow>
          if gi_storageWorkflowId repo \<noteq> workflowId then Err RgErrConflictWorkflow
          else if gi_StorageTier repo = StorageUnarchiving
          then obind (rgNewUnarchiveRepoCompletedOk repoId workflowId) (\<lambda>p. rgEmit g st [p])
          else if gi_StorageTier repo = StorageFrozen then Ok []
          else Err RgErrConflictWorkflow)"

definition rgTellAbortUnarchiveRepo ::
  "ulid_source \<Rightarrow> RegState \<Rightarrow> uuid \<Rightarrow> uuid \<Rightarrow> 32 word \<Rightarrow> (reg_error, RegistryPb Event list) outcome" where
  "rgTellAbortUnarchiveRepo g st repoId workflowId code =
     (if gs_info st = None then Err RgErrUninitialized
      else case gs_reposById st repoId of
        None \<Rightarrow> Err RgErrUnknownRepo
      | Some repo \<Rightarrow>
          if gi_storageWorkflowId repo \<noteq> workflowId then Err RgErrConflictWorkflow
          else if gi_StorageTier repo = StorageUnarchiving
          then obind (rgNewUnarchiveRepoCompletedError repoId workflowId code) (\<lambda>p. rgEmit g st [p])
          else if gi_StorageTier repo = StorageUnarchiveFailed then Ok []
          else Err RgErrConflictWorkflow)"

definition rgTellConfirmRepo ::
  "ulid_source \<Rightarrow> RegState \<Rightarrow> uuid \<Rightarrow> ulid \<Rightarrow> (reg_error, RegistryPb Event list) outcome" where
  "rgTellConfirmRepo g st repoId repoEventId =
     (if gs_info st = None then Err RgErrUninitialized
      else case gs_reposById st repoId of
        None \<Rightarrow> Err RgErrUnknownRepo
      | Some info \<Rightarrow>
          if gi_Confirmed info then Ok []
          else rgEmit g st [NewRepoAdded (idBytes (gi_Id info)) (gi_GlobalPath info) repoEventId])"

definition rgTellBeginMoveRepo ::
  "MapOrder \<Rightarrow> Preconditions \<Rightarrow> ulid_source \<Rightarrow> RegState \<Rightarrow> uuid \<Rightarrow> uuid \<Rightarrow> string \<Rightarrow> bool \<Rightarrow>
   (reg_error, RegistryPb Event list) outcome" where
  "rgTellBeginMoveRepo mo pre g st repoId workflowId newGlobalPath isUnchanged =
     (if gs_info st = None then Err RgErrUninitialized
      else case gs_reposById st repoId of
        None \<Rightarrow> Err RgErrUnknownRepo
      | Some repo \<Rightarrow>
          if \<not> gi_Confirmed repo then Err RgErrCannotMoveUnconfirmed
          else if workflowId = uuidNil then Err RgErrMalformedWorkflowId
          else if hasActiveMoveRepo repo then Err RgErrConflictWorkflow
          else if workflowId = gi_moveRepoWorkflow repo then Err RgErrWorkflowReuse
          else onError RgLibError (isAllowedAsUnusedWorkflowId pre workflowId) (\<lambda>reason.
            if reason \<noteq> [] then Err (RgWorkflowIdError reason)
            else let gpath = TrimRight newGlobalPath (CHR ''/'')
            in if isUnchanged \<and> gpath \<noteq> gi_GlobalPath repo then Err RgErrPathChanged
               else if \<not> isUnchanged \<and> gpath = gi_GlobalPath repo then Err RgErrPathUnchanged
               else if \<not> isUnchanged \<and> gs_reposByName st gpath \<noteq> None then Err RgErrConflictRepoInit
               else if findRootStateForRepo mo (gs_roots st) gpath = None then Err RgErrUnknownRoot
               else rgEmit g st [NewPbRepoMoveAccepted (gi_Id repo) workflowId gpath]))"

definition rgTellCommitMoveRepo ::
  "ulid_source \<Rightarrow> RegState \<Rightarrow> uuid \<Rightarrow> uuid \<Rightarrow> ulid \<Rightarrow> string \<Rightarrow> (reg_error, RegistryPb Event list) outcome" where
  "rgTellCommitMoveRepo g st repoId workflowId repoEventId globalPath =
     (if gs_info st = None then Err RgErrUninitialized
      else case gs_reposById st repoId of
        None \<Rightarrow> Err RgErrUnknownRepo
      | Some repo \<Rightarrow>
          if workflowId = uuidNil then Err RgErrMalformedWorkflowId
          else if workflowId \<noteq> gi_moveRepoWorkflow repo then Err RgErrConflictWorkflow
          else if \<not> hasActiveMoveRepo repo then Err RgErrWorkflowTerminated
          else if globalPath \<noteq> gi_newGlobalPath repo then Err RgErrMismatchGlobalPath
          else rgEmit g st [rgNewPbRepoMoved (gi_Id repo) repoEventId workflowId globalPath])"

definition rgTellPostShadowRepoMoveStarted ::
  "ulid_source \<Rightarrow> RegState \<Rightarrow> uuid \<Rightarrow> ulid \<Rightarrow> uuid \<Rightarrow> (reg_error, RegistryPb Event list) outcome" where
  "rgTellPostShadowRepoMoveStarted g st repoId repoEventId workflowId =
     (if gs_info st = None then Err RgErrUninitialized
      else case gs_reposById st repoId of
        None \<Rightarrow> Err RgErrUnknownRepo
      | Some info \<Rightarrow>
          if repoEventId = gi_lastRepoEventId info then Err RgErrRepeatedPost
          else rgEmit g st [rgNewShadowRepoMoveStarted repoId repoEventId workflowId])"

fun regTell ::
  "MapOrder \<Rightarrow> Preconditions \<Rightarrow> ulid_source \<Rightarrow> RegState \<Rightarrow> RegCmd \<Rightarrow> (reg_error, RegistryPb Event list) outcome" where
  "regTell mo pre g st (RgInitRegistry nam) = rgTellInitRegistry g st nam"
| "regTell mo pre g st (RgEnableEphemeralWorkflows i) = rgTellEnableEphemeralWorkflows g st i"
| "regTell mo pre g st RgEnablePropagateRootAcls = rgTellEnablePropagateRootAcls g st"
| "regTell mo pre g st (RgInitRoot a h b ns) = rgTellInitRoot g st a h b ns"
| "regTell mo pre g st (RgRemoveRoot r) = rgTellRemoveRoot g st r"
| "regTell mo pre g st (RgEnableGitlab r ns) = rgTellEnableGitlab g st r ns"
| "regTell mo pre g st (RgDisableGitlab r) = rgTellDisableGitlab g st r"
| "regTell mo pre g st (RgSetRepoNaming n) = rgTellSetRepoNaming g st n"
| "regTell mo pre g st (RgPatchRepoNaming n) = rgTellPatchRepoNaming g st n"
| "regTell mo pre g st (RgEnableDiscoveryPaths r ds) = rgTellEnableDiscoveryPaths g st r ds"
| "regTell mo pre g st (RgSetRepoInitPolicy p) = rgTellSetRepoInitPolicy g st p"
| "regTell mo pre g st (RgUpdateRootArchiveRecipients r ks) = rgTellUpdateRootArchiveRecipients g st r ks"
| "regTell mo pre g st (RgDeleteRootArchiveRecipients r) = rgTellDeleteRootArchiveRecipients g st r"
| "regTell mo pre g st (RgUpdateRootShadowBackupRecipients r ks) = rgTellUpdateRootShadowBackupRecipients g st r ks"
| "regTell mo pre g st (RgDeleteRootShadowBackupRecipients r) = rgTellDeleteRootShadowBackupRecipients g st r"
| "regTell mo pre g st (RgInitRepo c) = rgTellInitRepo mo pre g st c"
| "regTell mo pre g st (RgReinitRepo i s) = rgTellReinitRepo g st i s"
| "regTell mo pre g st (RgEnableGitlabRepo i ns) = rgTellEnableGitlabRepo g st i ns"
| "regTell mo pre g st (RgConfirmRepo i e) = rgTellConfirmRepo g st i e"
| "regTell mo pre g st (RgBeginMoveRepo i w p u) = rgTellBeginMoveRepo mo pre g st i w p u"
| "regTell mo pre g st (RgCommitMoveRepo i w e p) = rgTellCommitMoveRepo g st i w e p"
| "regTell mo pre g st (RgPostShadowRepoMoveStarted i e w) = rgTellPostShadowRepoMoveStarted g st i e w"
| "regTell mo pre g st (RgCreateSplitRootConfig r c) = rgTellCreateSplitRootConfig g st r c"
| "regTell mo pre g st (RgUpdateSplitRootConfig r c) = rgTellUpdateSplitRootConfig g st r c"
| "regTell mo pre g st (RgDeleteSplitRootConfig r) = rgTellDeleteSplitRootConfig g st r"
| "regTell mo pre g st (RgSetPathFlags p f) = rgTellSetPathFlags g st p f"
| "regTell mo pre g st (RgUnsetPathFlags p f) = rgTellUnsetPathFlags g st p f"
| "regTell mo pre g st (RgBeginFreezeRepo i w) = rgTellBeginFreezeRepo mo g st i w"
| "regTell mo pre g st (RgCommitFreezeRepo i w) = rgTellCommitFreezeRepo g st i w"
| "regTell mo pre g st (RgAbortFreezeRepo i w code) = rgTellAbortFreezeRepo g st i w code"
| "regTell mo pre g st (RgBeginUnfreezeRepo i w) = rgTellBeginUnfreezeRepo g st i w"
| "regTell mo pre g st (RgCommitUnfreezeRepo i w) = rgTellCommitUnfreezeRepo g st i w"
| "regTell mo pre g st (RgAbortUnfreezeRepo i w code) = rgTellAbortUnfreezeRepo g st i w code"
| "regTell mo pre g st (RgBeginArchiveRepo i w) = rgTellBeginArchiveRepo mo g st i w"
| "regTell mo pre g st (RgCommitArchiveRepo i w) = rgTellCommitArchiveRepo g st i w"
| "regTell mo pre g st (RgAbortArchiveRepo i w code) = rgTellAbortArchiveRepo g st i w code"
| "regTell mo pre g st (RgBeginUnarchiveRepo i w) = rgTellBeginUnarchiveRepo mo g st i w"
| "regTell mo pre g st (RgCommitUnarchiveRepo i w) = rgTellCommitUnarchiveRepo g st i w"
| "regTell mo pre g st (RgAbortUnarchiveRepo i w code) = rgTellAbortUnarchiveRepo g st i w code"

lemmas reg_tell_defs =
  rgTellInitRegistry_def rgTellEnableEphemeralWorkflows_def rgTellEnablePropagateRootAcls_def
  rgTellInitRoot_def rgTellRemoveRoot_def rgTellEnableGitlab_def rgTellDisableGitlab_def
  rgTellSetRepoNaming_def rgTellPatchRepoNaming_def rgTellEnableDiscoveryPaths_def
  rgTellSetRepoInitPolicy_def rgTellUpdateRootArchiveRecipients_def rgTellDeleteRootArchiveRecipients_def
  rgTellUpdateRootShadowBackupRecipients_def rgTellDeleteRootShadowBackupRecipients_def rgTellInitRepo_def
  rgTellReinitRepo_def rgTellEnableGitlabRepo_def rgTellConfirmRepo_def rgTellBeginMoveRepo_def
  rgTellCommitMoveRepo_def rgTellPostShadowRepoMoveStarted_def rgTellCreateSplitRootConfig_def
  rgTellUpdateSplitRootConfig_def rgTellDeleteSplitRootConfig_def rgTellSetPathFlags_def
  rgTellUnsetPathFlags_def rgTellBeginFreezeRepo_def rgTellCommitFreezeRepo_def rgTellAbortFreezeRepo_def
  rgTellBeginUnfreezeRepo_def rgTellCommitUnfreezeRepo_def rgTellAbortUnfreezeRepo_def
  rgTellBeginArchiveRepo_def rgTellCommitArchiveRepo_def rgTellAbortArchiveRepo_def
  rgTellBeginUnarchiveRepo_def rgTellCommitUnarchiveRepo_def rgTellAbortUnarchiveRepo_def

definition regBehavior ::
  "MapOrder \<Rightarrow> Preconditions \<Rightarrow> ulid_unmarshal \<Rightarrow> (RegState, RegCmd, RegistryPb Event, reg_error) Behavior" where
  "regBehavior mo pre ub = \<lparr>NewState = regNewState, StId = gs_id, StVid = gs_vid, SetVid = (\<lambda>v s. s\<lparr>gs_vid := v\<rparr>),
     Advance = regAdvance mo ub, Tell = regTell mo pre\<rparr>"

definition regEventOps ::
  "(RegistryPb \<Rightarrow> goerr + byte list) \<Rightarrow> (byte list \<Rightarrow> goerr + RegistryPb) \<Rightarrow> ulid_unmarshal \<Rightarrow> RegistryPb Event EventOps" where
  "regEventOps pm pu ub = \<lparr>EvId = ev_id, EvParent = ev_parent, WithId = regWithId, WithParent = regWithParent,
     MarshalProto = regMarshalProto pm, UnmarshalProto = regUnmarshalProto pu ub\<rparr>"

section \<open>Queries\<close>

text \<open>
  \<open>repoRootState()\<close> ranges over the roots, too.  A repo below no root is a panic, as in the source.
\<close>

definition repoRootState :: "MapOrder \<Rightarrow> RegState \<Rightarrow> uuid \<Rightarrow> (reg_error, rootState) outcome" where
  "repoRootState mo s i =
     (case gs_reposById s i of
        None \<Rightarrow> Err RgErrUnknownRepo
      | Some repo \<Rightarrow>
          (case findRoot (gs_roots s) (rangeRoots mo (gs_roots s)) (gi_GlobalPath repo) of
             None \<Rightarrow> Panic ''logic error''
           | Some r \<Rightarrow> Ok r))"

definition RepoRoot :: "MapOrder \<Rightarrow> RegState \<Rightarrow> uuid \<Rightarrow> (reg_error, RootInfo) outcome" where
  "RepoRoot mo s i = omap rt_info (repoRootState mo s i)"

text \<open>The policy and, if ACLs are propagated, the global root, the host and the host root.\<close>

definition RepoAclPolicy ::
  "MapOrder \<Rightarrow> RegState \<Rightarrow> uuid \<Rightarrow> (reg_error, AclPolicy \<times> (string \<times> string \<times> string) option) outcome" where
  "RepoAclPolicy mo s i =
     obind (repoRootState mo s i) (\<lambda>r.
       case gs_repoAclPolicy s of
         P_NO_ACLS \<Rightarrow> Ok (P_NO_ACLS, None)
       | P_PROPAGATE_ROOT_ACLS \<Rightarrow> Ok (P_PROPAGATE_ROOT_ACLS,
           Some (ro_GlobalRoot (rt_info r), ro_Host (rt_info r), ro_HostRoot (rt_info r)))
       | _ \<Rightarrow> Panic ''logic error'')"

definition Roots :: "MapOrder \<Rightarrow> RegState \<Rightarrow> RootInfo list" where
  "Roots mo s = sort_key (\<lambda>r. map (of_char :: char \<Rightarrow> nat) (ro_GlobalRoot r))
     (List.map_filter (\<lambda>k. map_option rt_info (gs_roots s k)) (rangeRoots mo (gs_roots s)))"

definition Repos :: "MapOrder \<Rightarrow> RegState \<Rightarrow> RepoInfo list" where
  "Repos mo s = sort_key (\<lambda>r. map (of_char :: char \<Rightarrow> nat) (gi_GlobalPath r))
     (List.map_filter (gs_reposByName s) (rangeRepos mo (gs_reposByName s)))"

definition RepoById :: "RegState \<Rightarrow> uuid \<Rightarrow> RepoInfo option" where
  "RepoById s i = gs_reposById s i"

definition RepoByPath :: "RegState \<Rightarrow> string \<Rightarrow> RepoInfo option" where
  "RepoByPath s p = gs_reposByName s p"

definition SplitRootConfigOf :: "RegState \<Rightarrow> string \<Rightarrow> SplitRootConfig option" where
  "SplitRootConfigOf s groot = (case gs_roots s groot of None \<Rightarrow> None | Some r \<Rightarrow> rt_splitRootConfig r)"

definition PathFlagsPrefix :: "RegState \<Rightarrow> string \<Rightarrow> (string \<rightharpoonup> 32 word)" where
  "PathFlagsPrefix s pre = (\<lambda>p. if pathIsEqualOrBelowPrefix p pre then gs_pathFlags s p else None)"

end
