(* ===== verification/Path_Facts.thy ===== *)
theory Path_Facts
  imports Go_Path "HOL-Library.Sublist"
begin

text \<open>
  Absolute clean paths as lists of components: \<open>Clean()\<close> normalizes, \<open>Dir()\<close> drops the last component, and a path
  is equal to or below another one iff the components of the latter are a prefix.
\<close>

definition valid_comp :: "string \<Rightarrow> bool" where
  "valid_comp c \<longleftrightarrow> c \<noteq> [] \<and> CHR ''/'' \<notin> set c \<and> c \<noteq> ''.'' \<and> c \<noteq> ''..''"

definition absPath :: "string list \<Rightarrow> string" where
  "absPath cs = concat (map (\<lambda>c. CHR ''/'' # c) cs)"

text \<open>A clean path below the root directory.\<close>

definition cleanAbs :: "string \<Rightarrow> bool" where
  "cleanAbs p \<longleftrightarrow> IsAbs p \<and> Clean p = p \<and> p \<noteq> ''/''"

lemma absPath_simps [simp]:
  "absPath [] = []" "absPath (c # cs) = CHR ''/'' # c @ absPath cs" "absPath (cs @ ds) = absPath cs @ absPath ds"
  by (simp_all add: absPath_def)

lemma absPath_Nil_iff [simp]: "absPath cs = [] \<longleftrightarrow> cs = []"
  by (cases cs) simp_all

lemma dropWhile_until: "c \<notin> set s \<Longrightarrow> dropWhile (\<lambda>x. x \<noteq> c) (s @ c # t) = c # t"
  by (induction s) auto

lemma takeWhile_until: "c \<notin> set s \<Longrightarrow> takeWhile (\<lambda>x. x \<noteq> c) (s @ c # t) = s"
  by (induction s) auto

lemma takeWhile_free: "c \<notin> set s \<Longrightarrow> takeWhile (\<lambda>x. x \<noteq> c) s = s"
  by (induction s) auto

lemma joinChar_absPath: "cs \<noteq> [] \<Longrightarrow> CHR ''/'' # joinChar (CHR ''/'') cs = absPath cs"
  by (induction "CHR ''/''" cs rule: joinChar.induct) auto

lemma splitChar_ne [simp]: "splitChar c s \<noteq> []"
  by (induction s) (auto split: list.split)

lemma splitChar_free: "c \<notin> set s \<Longrightarrow> splitChar c s = [s]"
  by (induction s) auto

lemma splitChar_append: "c \<notin> set s \<Longrightarrow> splitChar c (s @ c # t) = s # splitChar c t"
  by (induction s) (auto split: list.split)

lemma splitChar_set: "e \<in> set (splitChar c s) \<Longrightarrow> c \<notin> set e"
proof (induction s arbitrary: e)
  case (Cons x xs)
  then show ?case by (cases "splitChar c xs") (auto split: if_splits)
qed simp

lemma split_absPath:
  assumes "list_all valid_comp cs" and "cs \<noteq> []"
  shows "splitChar (CHR ''/'') (absPath cs) = [] # cs"
proof -
  have "splitChar (CHR ''/'') (c @ absPath cs) = c # cs" if "list_all valid_comp (c # cs)" for c cs
    using that
  proof (induction cs arbitrary: c)
    case Nil
    then show ?case by (simp add: valid_comp_def splitChar_free)
  next
    case (Cons d ds)
    then have "splitChar (CHR ''/'') (d @ absPath ds) = d # ds" by simp
    moreover have "CHR ''/'' \<notin> set c" using Cons.prems by (simp add: valid_comp_def)
    ultimately show ?case using splitChar_append [of "CHR ''/''" c "d @ absPath ds"] by simp
  qed
  then show ?thesis using assms by (cases cs) simp_all
qed

lemma cleanElems_valid:
  "list_all valid_comp es \<Longrightarrow> cleanElems rooted out es = rev es @ out"
  by (induction es arbitrary: out) (auto simp: valid_comp_def)

lemma cleanElems_rooted:
  assumes "\<forall>e \<in> set es. CHR ''/'' \<notin> set e" and "list_all valid_comp out"
  shows "list_all valid_comp (cleanElems True out es)"
  using assms
proof (induction es arbitrary: out)
  case (Cons e es)
  have "list_all valid_comp (cleanElems True (tl out) es)" using Cons by (cases out) simp_all
  then show ?case using Cons by (cases out) (auto simp: valid_comp_def)
qed simp

lemma IsAbs_absPath: "cs \<noteq> [] \<Longrightarrow> IsAbs (absPath cs)"
  by (cases cs) (simp_all add: IsAbs_def)

lemma Clean_abs: "IsAbs p \<Longrightarrow> \<exists>cs. list_all valid_comp cs \<and> Clean p = (if cs = [] then ''/'' else absPath cs)"
proof -
  assume p: "IsAbs p"
  let ?cs = "rev (cleanElems True [] (splitChar (CHR ''/'') p))"
  have "list_all valid_comp (cleanElems True [] (splitChar (CHR ''/'') p))"
    by (rule cleanElems_rooted) (auto dest: splitChar_set)
  moreover have "p \<noteq> []" using p by (auto simp: IsAbs_def)
  moreover have "''/'' @ joinChar (CHR ''/'') cs = (if cs = [] then ''/'' else absPath cs)" for cs
    using joinChar_absPath [of cs] by (cases cs) auto
  ultimately show ?thesis using p by (intro exI [of _ ?cs]) (simp add: Clean_def Let_def)
qed

lemma Clean_absPath:
  assumes "list_all valid_comp cs" and "cs \<noteq> []"
  shows "Clean (absPath cs) = absPath cs"
proof -
  have "cleanElems True [] ([] # cs) = rev cs" using cleanElems_valid [OF assms(1)] by simp
  then show ?thesis using assms joinChar_absPath [of cs] IsAbs_absPath [of cs]
    by (cases cs) (simp_all add: Clean_def Let_def split_absPath del: absPath_simps)
qed

lemma absPath_ne_root: "list_all valid_comp cs \<Longrightarrow> cs \<noteq> [] \<Longrightarrow> absPath cs \<noteq> ''/'' \<and> absPath cs \<noteq> []"
  by (cases cs) (auto simp: valid_comp_def)

lemma cleanAbs_iff: "cleanAbs p \<longleftrightarrow> (\<exists>cs. list_all valid_comp cs \<and> cs \<noteq> [] \<and> p = absPath cs)"
proof
  assume "cleanAbs p"
  then show "\<exists>cs. list_all valid_comp cs \<and> cs \<noteq> [] \<and> p = absPath cs"
    using Clean_abs [of p] by (auto simp: cleanAbs_def)
next
  assume "\<exists>cs. list_all valid_comp cs \<and> cs \<noteq> [] \<and> p = absPath cs"
  then show "cleanAbs p" using Clean_absPath IsAbs_absPath absPath_ne_root by (auto simp: cleanAbs_def)
qed

lemma absPath_no_trailing: "list_all valid_comp cs \<Longrightarrow> cs \<noteq> [] \<Longrightarrow> last (absPath cs) \<noteq> CHR ''/''"
proof (induction cs rule: rev_induct)
  case (snoc c cs)
  then have "c \<noteq> []" "CHR ''/'' \<notin> set c" by (auto simp: valid_comp_def)
  then have "last c \<noteq> CHR ''/''" by (metis last_in_set)
  then show ?case using \<open>c \<noteq> []\<close> by simp
qed simp

lemma TrimRight_id: "s = [] \<or> last s \<noteq> c \<Longrightarrow> TrimRight s c = s"
  by (cases s rule: rev_cases) (auto simp: TrimRight_def)

lemma TrimRight_cleanAbs: "cleanAbs p \<Longrightarrow> TrimRight p (CHR ''/'') = p"
  using absPath_no_trailing by (auto simp: cleanAbs_iff intro: TrimRight_id)

text \<open>The directory of a clean path.\<close>

lemma Dir_absPath:
  assumes "list_all valid_comp (cs @ [c])"
  shows "Dir (absPath (cs @ [c])) = (if cs = [] then ''/'' else absPath cs)"
proof -
  have c: "CHR ''/'' \<notin> set c" using assms by (simp add: valid_comp_def)
  have "dropWhile (\<lambda>x. x \<noteq> CHR ''/'') (rev (absPath (cs @ [c]))) = CHR ''/'' # rev (absPath cs)"
    using c dropWhile_until [of "CHR ''/''" "rev c"] by simp
  then have d: "Dir (absPath (cs @ [c])) = Clean (absPath cs @ ''/'')" by (simp add: Dir_def)
  show ?thesis
  proof (cases cs)
    case Nil
    then show ?thesis using d by (simp add: Clean_def IsAbs_def Let_def)
  next
    case (Cons a as)
    have "splitChar (CHR ''/'') (s @ ''/'') = splitChar (CHR ''/'') s @ [[]]" for s
    proof (induction s)
      case (Cons x xs)
      then show ?case by (cases "splitChar (CHR ''/'') xs") auto
    qed simp
    then have "splitChar (CHR ''/'') (absPath cs @ ''/'') = ([] # cs) @ [[]]"
      using split_absPath [of cs] assms Cons by (simp del: absPath_simps)
    moreover have "cleanElems True [] (([] # cs) @ [[]]) = rev cs"
    proof -
      have "cleanElems True out (es @ [[]]) = cleanElems True out es" for out es
        by (induction es arbitrary: out) (auto split: list.split)
      then show ?thesis using cleanElems_valid [of cs True "[]"] assms by simp
    qed
    ultimately have "Clean (absPath cs @ ''/'') = absPath cs"
      using joinChar_absPath [of cs] Cons IsAbs_absPath [of cs]
      by (simp add: Clean_def Let_def IsAbs_def)
    then show ?thesis using d Cons by simp
  qed
qed

lemma Dir_abs: "IsAbs p \<Longrightarrow> \<exists>cs. list_all valid_comp cs \<and> Dir p = (if cs = [] then ''/'' else absPath cs)"
proof -
  assume "IsAbs p"
  then obtain q where p: "p = CHR ''/'' # q" by (cases p) (auto simp: IsAbs_def)
  obtain r where "rev (dropWhile (\<lambda>c. c \<noteq> CHR ''/'') (rev p)) = CHR ''/'' # r"
  proof (cases "CHR ''/'' \<in> set q")
    case True
    then have "dropWhile (\<lambda>c. c \<noteq> CHR ''/'') (rev q @ ''/'') = dropWhile (\<lambda>c. c \<noteq> CHR ''/'') (rev q) @ ''/''"
      by (intro dropWhile_append1 [of "CHR ''/''"]) auto
    then show ?thesis using that p by simp
  next
    case False
    then show ?thesis using that [of "[]"] dropWhile_until [of "CHR ''/''" "rev q" "[]"] p by simp
  qed
  then have "IsAbs (rev (dropWhile (\<lambda>c. c \<noteq> CHR ''/'') (rev p)))" by (simp add: IsAbs_def)
  then show ?thesis unfolding Dir_def by (rule Clean_abs)
qed

text \<open>Equal or below.\<close>

lemma absPath_inj:
  "list_all valid_comp cs \<Longrightarrow> list_all valid_comp ds \<Longrightarrow> absPath cs = absPath ds \<longleftrightarrow> cs = ds"
  using split_absPath [of cs] split_absPath [of ds] absPath_Nil_iff [of cs] absPath_Nil_iff [of ds]
  by (cases "cs = []"; cases "ds = []") (simp_all del: absPath_Nil_iff, metis list.inject)

lemma below_absPath:
  assumes "list_all valid_comp cs" and "list_all valid_comp ds" and "ds \<noteq> []"
  shows "pathIsEqualOrBelowPrefix (absPath cs) (absPath ds) \<longleftrightarrow> prefix ds cs"
proof
  assume "prefix ds cs"
  then obtain es where cs: "cs = ds @ es" by (auto elim: prefixE)
  then show "pathIsEqualOrBelowPrefix (absPath cs) (absPath ds)"
    by (cases es) (auto simp: pathIsEqualOrBelowPrefix_def HasPrefix_append nth_append)
next
  assume a: "pathIsEqualOrBelowPrefix (absPath cs) (absPath ds)"
  then obtain r where r: "absPath cs = absPath ds @ r" "r = [] \<or> hd r = CHR ''/''"
    by (cases "length (absPath cs) = length (absPath ds)")
      (auto simp: pathIsEqualOrBelowPrefix_def HasPrefix_append nth_append hd_conv_nth)
  show "prefix ds cs"
    using assms r
  proof (induction ds arbitrary: cs)
    case (Cons d ds)
    obtain c cs' where cs: "cs = c # cs'" using Cons.prems(4) by (cases cs) auto
    have eq: "c @ absPath cs' = d @ absPath ds @ r" using Cons.prems(4) cs by simp
    have free: "CHR ''/'' \<notin> set c" "CHR ''/'' \<notin> set d" using Cons.prems(1,2) cs by (auto simp: valid_comp_def)
    have tw: "takeWhile (\<lambda>x. x \<noteq> CHR ''/'') (e @ absPath es @ r') = e"
      if "CHR ''/'' \<notin> set e" "r' = [] \<or> hd r' = CHR ''/''" for e es r'
      using that by (cases es; cases r') (auto simp: takeWhile_until takeWhile_free)
    have "c = d" using tw [OF free(1), of "[]" cs'] tw [OF free(2) Cons.prems(5), of ds] eq by simp
    then have eq': "absPath cs' = absPath ds @ r" using eq by simp
    show ?case
    proof (cases "ds = []")
      case False
      then show ?thesis using Cons.IH [OF _ _ False eq' Cons.prems(5)] Cons.prems(1,2) cs \<open>c = d\<close> by simp
    qed (use cs \<open>c = d\<close> in simp)
  qed simp
qed

end
