(* ===== verification/Fso_Registry_Inv.thy ===== *)
theory Fso_Registry_Inv
  imports Fso_Registry Path_Facts Fso_Repos_Inv
begin

text \<open>
  Correctness of the aggregate of FSO registries: the invariant of live states, the obligations of callers, and what
  one accepted command may do to a state.
\<close>

section \<open>Invariant\<close>

text \<open>The orders of \<open>range\<close>: every key once.\<close>

definition map_orders :: "MapOrder \<Rightarrow> bool" where
  "map_orders mo \<longleftrightarrow>
     (\<forall>m. finite (dom m) \<longrightarrow> set (rangeRoots mo m) = dom m) \<and>
     (\<forall>m. finite (dom m) \<longrightarrow> set (rangeRepos mo m) = dom m \<and> distinct (rangeRepos mo m)) \<and>
     (\<forall>m. finite (dom m) \<longrightarrow> set (rangeConfig mo m) = dom m)"

text \<open>The field that patches of a naming add to.\<close>

definition patchKey :: "string \<Rightarrow> string" where
  "patchKey rule = (if rule = ''PathPatterns'' then ''enabledPaths'' else ''ignore'')"

definition naming_ok :: "rootState \<Rightarrow> bool" where
  "naming_ok r \<longleftrightarrow>
     (\<forall>n. rt_repoNaming r = Some n \<longrightarrow>
        (\<forall>v. rt_repoNamingConfig r (patchKey (nm_Rule n)) = Some v \<longrightarrow> (\<exists>xs. v = CTextList xs)))"

definition split_ok :: "SplitRootConfig option \<Rightarrow> bool" where
  "split_ok c \<longleftrightarrow> (case c of None \<Rightarrow> True | Some x \<Rightarrow>
     1 \<le> sint (sr_MaxDepth x) \<and> sint (sr_MaxDepth x) \<le> 8 \<and> 0 < sint (sr_MinDiskUsage x) \<and> 0 < sint (sr_MaxDiskUsage x))"

definition root_ok :: "string \<Rightarrow> rootState \<Rightarrow> bool" where
  "root_ok k r \<longleftrightarrow> ro_GlobalRoot (rt_info r) = k \<and> k \<noteq> [] \<and> TrimRight k (CHR ''/'') = k \<and>
     keys_ok (ro_ArchiveRecipients (rt_info r)) \<and> keys_ok (ro_ShadowBackupRecipients (rt_info r)) \<and>
     naming_ok r \<and> split_ok (rt_splitRootConfig r)"

text \<open>No root is below another one; the code does not ensure this.\<close>

definition roots_apart :: "string set \<Rightarrow> bool" where
  "roots_apart K \<longleftrightarrow> (\<forall>k \<in> K. \<forall>l \<in> K. pathIsEqualOrBelowPrefix k l \<longrightarrow> k = l)"

definition regRepo_ok :: "RepoInfo \<Rightarrow> bool" where
  "regRepo_ok r \<longleftrightarrow> gi_Id r \<noteq> uuidNil \<and> cleanAbs (gi_GlobalPath r) \<and>
     (gi_Confirmed r \<longleftrightarrow> gi_StorageTier r \<noteq> StorageTierUnspecified) \<and>
     (busy (gi_StorageTier r) \<longrightarrow> gi_storageWorkflowId r \<noteq> uuidNil) \<and>
     (gi_newGlobalPath r \<noteq> [] \<longrightarrow> cleanAbs (gi_newGlobalPath r) \<and> gi_Confirmed r)"

text \<open>Data that is not online; below such a repo there should not be other repos.\<close>

definition immutable :: "RepoInfo \<Rightarrow> bool" where
  "immutable r \<longleftrightarrow> gi_StorageTier r \<noteq> StorageTierUnspecified \<and> gi_StorageTier r \<noteq> StorageOnline"

definition leaf_in :: "(uuid \<rightharpoonup> RepoInfo) \<Rightarrow> RepoInfo \<Rightarrow> bool" where
  "leaf_in M r \<longleftrightarrow> (\<forall>q \<in> ran M. pathIsEqualOrBelowPrefix (gi_GlobalPath q) (gi_GlobalPath r) \<longrightarrow> gi_Id q = gi_Id r)"

definition leaves_ok :: "(uuid \<rightharpoonup> RepoInfo) \<Rightarrow> bool" where
  "leaves_ok M \<longleftrightarrow> (\<forall>r \<in> ran M. immutable r \<longrightarrow> leaf_in M r)"

definition flags_ok :: "(string \<rightharpoonup> 32 word) \<Rightarrow> bool" where
  "flags_ok m \<longleftrightarrow> (\<forall>p f. m p = Some f \<longrightarrow> f \<noteq> 0 \<and> IsAbs p \<and> Clean p = p)"

definition regRoots_ok :: "(string \<rightharpoonup> rootState) \<Rightarrow> bool" where
  "regRoots_ok m \<longleftrightarrow> finite (dom m) \<and> (\<forall>k r. m k = Some r \<longrightarrow> root_ok k r)"

definition regRepos_ok :: "(string \<rightharpoonup> RepoInfo) \<Rightarrow> (uuid \<rightharpoonup> RepoInfo) \<Rightarrow> bool" where
  "regRepos_ok N M \<longleftrightarrow> finite (dom N) \<and> (\<forall>p r. N p = Some r \<longrightarrow> gi_GlobalPath r = p) \<and>
     (\<forall>i r. M i = Some r \<longrightarrow> gi_Id r = i \<and> regRepo_ok r)"

definition reg_inv :: "RegState \<Rightarrow> bool" where
  "reg_inv st \<longleftrightarrow>
     regRoots_ok (gs_roots st) \<and> regRepos_ok (gs_reposByName st) (gs_reposById st) \<and> flags_ok (gs_pathFlags st) \<and>
     (gs_info st = None \<longrightarrow> gs_roots st = Map.empty \<and> gs_reposByName st = Map.empty \<and> gs_reposById st = Map.empty \<and>
        gs_ephemeralWorkflowsId st = uuidNil) \<and>
     (gs_info st \<noteq> None \<longrightarrow> gs_repoAclPolicy st \<in> {P_NO_ACLS, P_PROPAGATE_ROOT_ACLS})"

text \<open>
  Both indexes hold the same repos, each under its own path and id.  This is not part of the invariant, because two
  commands break it: \<open>InitRepo\<close> with an id in use and \<open>CommitMoveRepo\<close> to a path in use.
\<close>

definition idx_ok :: "RegState \<Rightarrow> bool" where
  "idx_ok st \<longleftrightarrow> index_ok gi_GlobalPath gi_Id (gs_reposByName st) (gs_reposById st)"

section \<open>Transitions\<close>

definition rgStorage :: "RegState \<Rightarrow> uuid \<Rightarrow> storage" where
  "rgStorage st i = (case gs_reposById st i of
     None \<Rightarrow> NoStorage
   | Some r \<Rightarrow> storage_abs (gi_StorageTier r) (gi_storageWorkflowId r))"

definition storage_stays :: "storage \<Rightarrow> storage \<Rightarrow> bool" where
  "storage_stays a b \<longleftrightarrow> a = b \<or> storage_step a b"

lemma storage_stays_refl [simp]: "storage_stays a a"
  by (simp add: storage_stays_def)

text \<open>What every command keeps: the invariant holds, names and ids that are set stay, repos are never lost.\<close>

definition reg_frame :: "RegState \<Rightarrow> RegState \<Rightarrow> bool" where
  "reg_frame st st' \<longleftrightarrow> reg_inv st' \<and> gs_id st' = gs_id st \<and>
     (gs_info st \<noteq> None \<longrightarrow> gs_info st' = gs_info st) \<and>
     (gs_ephemeralWorkflowsId st \<noteq> uuidNil \<longrightarrow> gs_ephemeralWorkflowsId st' = gs_ephemeralWorkflowsId st) \<and>
     dom (gs_reposById st) \<subseteq> dom (gs_reposById st')"

text \<open>
  What the commands but \<open>InitRepo\<close> and \<open>CommitMoveRepo\<close> do besides: storage takes steps, the indexes keep agreeing, and
  no repo comes below a repo whose data is not online.
\<close>

definition reg_trans :: "RegState \<Rightarrow> RegState \<Rightarrow> bool" where
  "reg_trans st st' \<longleftrightarrow> reg_frame st st' \<and>
     (\<forall>i. storage_stays (rgStorage st i) (rgStorage st' i)) \<and>
     (idx_ok st \<longrightarrow> idx_ok st' \<and> (leaves_ok (gs_reposById st) \<longrightarrow> leaves_ok (gs_reposById st')))"

text \<open>\<open>InitRepo\<close> resets the storage of the id, and the indexes keep agreeing only if the id was free.\<close>

definition init_trans :: "uuid \<Rightarrow> RegState \<Rightarrow> RegState \<Rightarrow> bool" where
  "init_trans i st st' \<longleftrightarrow> reg_frame st st' \<and>
     (\<forall>j. rgStorage st' j = (if j = i then NoStorage else rgStorage st j)) \<and>
     (idx_ok st \<longrightarrow> (idx_ok st' \<longleftrightarrow> gs_reposById st i = None) \<and>
       (leaves_ok (gs_reposById st) \<longrightarrow> leaves_ok (gs_reposById st')))"

text \<open>
  \<open>CommitMoveRepo\<close> keeps the indexes agreeing only if no other repo has the path, and may bring a repo below one whose
  data is not online.
\<close>

definition path_free :: "(uuid \<rightharpoonup> RepoInfo) \<Rightarrow> uuid \<Rightarrow> string \<Rightarrow> bool" where
  "path_free M i p \<longleftrightarrow> (\<forall>q \<in> ran M. gi_Id q \<noteq> i \<longrightarrow> gi_GlobalPath q \<noteq> p)"

definition move_apart :: "(uuid \<rightharpoonup> RepoInfo) \<Rightarrow> uuid \<Rightarrow> string \<Rightarrow> bool" where
  "move_apart M i p \<longleftrightarrow>
     (\<forall>q \<in> ran M. gi_Id q \<noteq> i \<longrightarrow>
        (immutable q \<longrightarrow> \<not> pathIsEqualOrBelowPrefix p (gi_GlobalPath q)) \<and>
        (\<forall>r. M i = Some r \<longrightarrow> immutable r \<longrightarrow> \<not> pathIsEqualOrBelowPrefix (gi_GlobalPath q) p))"

definition move_trans :: "uuid \<Rightarrow> string \<Rightarrow> RegState \<Rightarrow> RegState \<Rightarrow> bool" where
  "move_trans i p st st' \<longleftrightarrow> reg_frame st st' \<and> (\<forall>j. rgStorage st' j = rgStorage st j) \<and>
     (idx_ok st \<longrightarrow> (idx_ok st' \<longleftrightarrow> path_free (gs_reposById st) i p)) \<and>
     (leaves_ok (gs_reposById st) \<longrightarrow> (leaves_ok (gs_reposById st') \<longleftrightarrow> move_apart (gs_reposById st) i p))"

definition reg_step :: "RegCmd \<Rightarrow> RegState \<Rightarrow> RegState \<Rightarrow> bool" where
  "reg_step c = (case c of
     RgInitRepo x \<Rightarrow> init_trans (gc_Id x)
   | RgCommitMoveRepo i w e p \<Rightarrow> move_trans i p
   | _ \<Rightarrow> reg_trans)"

lemma reg_step_frame: "reg_step c st st' \<Longrightarrow> reg_frame st st'"
  by (cases c) (simp_all add: reg_step_def reg_trans_def init_trans_def move_trans_def)

lemmas reg_state_defs = reg_frame_def reg_inv_def rgStorage_def idx_ok_def

lemma reg_trans_refl: "reg_inv st \<Longrightarrow> reg_trans st st"
  by (simp add: reg_trans_def reg_frame_def)

lemma reg_invD:
  assumes "reg_inv st"
  shows "regRoots_ok (gs_roots st)" "regRepos_ok (gs_reposByName st) (gs_reposById st)" "flags_ok (gs_pathFlags st)"
    "gs_roots st k = Some r \<Longrightarrow> gs_info st \<noteq> None \<and> root_ok k r"
    "gs_reposById st i = Some q \<Longrightarrow> gs_info st \<noteq> None \<and> regRepo_ok q \<and> gi_Id q = i"
    "gs_reposByName st p = Some q \<Longrightarrow> gi_GlobalPath q = p"
  using assms by (auto simp: reg_inv_def regRoots_ok_def regRepos_ok_def)

lemma idx_okD:
  assumes "idx_ok st"
  shows "gs_reposById st i = Some q \<Longrightarrow> gi_Id q = i \<and> gs_reposByName st (gi_GlobalPath q) = Some q"
    "gs_reposByName st p = Some q \<Longrightarrow> gi_GlobalPath q = p \<and> gs_reposById st (gi_Id q) = Some q"
  using assms by (auto simp: idx_ok_def index_ok_def)

lemma reg_trans_roots:
  assumes "reg_inv st" and "gs_info st \<noteq> None" and "regRoots_ok m"
  shows "reg_trans st (st\<lparr>gs_roots := m\<rparr>)"
  using assms by (auto simp: reg_trans_def reg_state_defs)

lemma reg_trans_root:
  assumes "reg_inv st" and "gs_roots st k = Some r" and "root_ok k r'"
  shows "reg_trans st (st\<lparr>gs_roots := (gs_roots st)(k \<mapsto> r')\<rparr>)"
proof (rule reg_trans_roots [OF assms(1)])
  show "gs_info st \<noteq> None" using reg_invD(4) [OF assms(1,2)] by simp
  have "dom ((gs_roots st)(k \<mapsto> r')) = dom (gs_roots st)" using assms(2) by auto
  then show "regRoots_ok ((gs_roots st)(k \<mapsto> r'))"
    using reg_invD(1) [OF assms(1)] assms(3) unfolding regRoots_ok_def by auto
qed

lemma leaves_okD:
  "leaves_ok M \<Longrightarrow> x \<in> ran M \<Longrightarrow> immutable x \<Longrightarrow> y \<in> ran M \<Longrightarrow>
     pathIsEqualOrBelowPrefix (gi_GlobalPath y) (gi_GlobalPath x) \<Longrightarrow> gi_Id y = gi_Id x"
  by (simp add: leaves_ok_def leaf_in_def)

lemma leaves_ok_upd:
  assumes "leaves_ok M" and "M (gi_Id r') = Some r" and "gi_Id r = gi_Id r'" and "gi_GlobalPath r' = gi_GlobalPath r"
    and "immutable r' \<longrightarrow> immutable r \<or> leaf_in M r"
  shows "leaves_ok (M(gi_Id r' \<mapsto> r'))"
proof -
  have r: "r \<in> ran M" using assms(2) by (rule ranI)
  have leaf: "immutable r' \<longrightarrow> leaf_in M r" using assms(1,5) r by (auto simp: leaves_ok_def)
  have ran: "q \<in> ran (M(gi_Id r' \<mapsto> r')) \<Longrightarrow> q = r' \<or> q \<in> ran M" for q by (auto simp: ran_def split: if_splits)
  have up: "leaf_in (M(gi_Id r' \<mapsto> r')) q" if q: "leaf_in M p" "gi_Id p = gi_Id q" "gi_GlobalPath p = gi_GlobalPath q" for p q
    unfolding leaf_in_def
  proof (intro ballI impI)
    fix x assume x: "x \<in> ran (M(gi_Id r' \<mapsto> r'))" "pathIsEqualOrBelowPrefix (gi_GlobalPath x) (gi_GlobalPath q)"
    show "gi_Id x = gi_Id q"
      using ran [OF x(1)]
    proof
      assume "x = r'"
      then have "gi_Id r = gi_Id p" using q(1,3) r x(2) assms(4) by (simp add: leaf_in_def)
      then show ?thesis using \<open>x = r'\<close> q(2) assms(3) by simp
    qed (use q x(2) in \<open>simp add: leaf_in_def\<close>)
  qed
  show ?thesis unfolding leaves_ok_def
  proof (intro ballI impI)
    fix q assume q: "q \<in> ran (M(gi_Id r' \<mapsto> r'))" "immutable q"
    show "leaf_in (M(gi_Id r' \<mapsto> r')) q"
    proof (cases "q = r'")
      case True
      then show ?thesis using leaf q(2) assms(3,4) by (intro up [of r]) auto
    next
      case False
      then have "leaf_in M q" using ran [OF q(1)] q(2) assms(1) by (simp add: leaves_ok_def)
      then show ?thesis by (intro up [of q]) auto
    qed
  qed
qed

lemma putRepo_frame:
  assumes inv: "reg_inv st" and i: "gs_info st \<noteq> None" and id: "gi_Id r = j" and ok: "regRepo_ok r"
  shows "reg_frame st (putRepo st r)"
  using assms by (auto simp: reg_state_defs putRepo_def regRepos_ok_def)

lemma reg_trans_repo:
  assumes inv: "reg_inv st" and r: "gs_reposById st i = Some r"
    and same: "gi_Id r' = gi_Id r" "gi_GlobalPath r' = gi_GlobalPath r"
    and ok: "regRepo_ok r'" and leaf: "idx_ok st \<longrightarrow> immutable r' \<longrightarrow> immutable r \<or> leaf_in (gs_reposById st) r"
    and step: "storage_stays (storage_abs (gi_StorageTier r) (gi_storageWorkflowId r))
      (storage_abs (gi_StorageTier r') (gi_storageWorkflowId r'))"
  shows "reg_trans st (putRepo st r')"
proof -
  note d = reg_invD(5) [OF inv r]
  have "idx_ok (putRepo st r') \<and> (leaves_ok (gs_reposById st) \<longrightarrow> leaves_ok (gs_reposById (putRepo st r')))" if idx: "idx_ok st"
  proof
    have "index_ok gi_GlobalPath gi_Id ((gs_reposByName st)(gi_GlobalPath r' \<mapsto> r')) ((gs_reposById st)(gi_Id r' \<mapsto> r'))"
      by (rule index_ok_put) (use idx d r same in \<open>auto simp: idx_ok_def\<close>)
    then show "idx_ok (putRepo st r')" by (simp add: idx_ok_def putRepo_def)
    have "leaves_ok ((gs_reposById st)(gi_Id r' \<mapsto> r'))" if "leaves_ok (gs_reposById st)"
      by (rule leaves_ok_upd [OF that, of r' r]) (use d r same leaf idx in auto)
    then show "leaves_ok (gs_reposById st) \<longrightarrow> leaves_ok (gs_reposById (putRepo st r'))" by (simp add: putRepo_def)
  qed
  moreover have "reg_frame st (putRepo st r')" by (rule putRepo_frame [OF inv _ _ ok]) (use d same in simp_all)
  ultimately show ?thesis using d same step r by (auto simp: reg_trans_def rgStorage_def putRepo_def)
qed

section \<open>Lookups\<close>

lemma below_trans_string:
  assumes "pathIsEqualOrBelowPrefix p k" and "pathIsEqualOrBelowPrefix p l" and "length k \<le> length l"
  shows "pathIsEqualOrBelowPrefix l k"
proof -
  obtain a where a: "p = k @ a" using assms(1) by (auto simp: pathIsEqualOrBelowPrefix_def HasPrefix_append)
  obtain b where b: "p = l @ b" using assms(2) by (auto simp: pathIsEqualOrBelowPrefix_def HasPrefix_append)
  note p = a b
  obtain c where c: "l = k @ c" using p assms(3) by (metis append_eq_append_conv_if append_take_drop_id)
  show ?thesis
  proof (cases c)
    case (Cons x xs)
    then have "length p \<noteq> length k" "p ! length k = x" using p c by (auto simp: nth_append)
    then show ?thesis using assms(1) c Cons by (auto simp: pathIsEqualOrBelowPrefix_def HasPrefix_append nth_append)
  qed (simp add: c pathIsEqualOrBelowPrefix_def HasPrefix_append)
qed

lemma findRoot_Some:
  "findRoot m ks p = Some r \<Longrightarrow> \<exists>k \<in> set ks. m k = Some r \<and> pathIsEqualOrBelowPrefix p (ro_GlobalRoot (rt_info r))"
  by (induction ks) (auto split: option.splits if_splits)

lemma findRoot_None:
  "findRoot m ks p = None \<longleftrightarrow> (\<forall>k \<in> set ks. \<forall>r. m k = Some r \<longrightarrow> \<not> pathIsEqualOrBelowPrefix p (ro_GlobalRoot (rt_info r)))"
  by (induction ks) (auto split: option.splits)

text \<open>The roots at or above a path, and the iteration that meets one of them first.\<close>

definition rootsAbove :: "(string \<rightharpoonup> rootState) \<Rightarrow> string \<Rightarrow> string set" where
  "rootsAbove m p = {k \<in> dom m. pathIsEqualOrBelowPrefix p k}"

lemma findRoot_first:
  "m k = Some r \<Longrightarrow> pathIsEqualOrBelowPrefix p (ro_GlobalRoot (rt_info r)) \<Longrightarrow> findRoot m (k # ks) p = Some r"
  by simp

lemma below_chain:
  assumes "pathIsEqualOrBelowPrefix p k" and "pathIsEqualOrBelowPrefix p l"
  shows "pathIsEqualOrBelowPrefix l k \<or> pathIsEqualOrBelowPrefix k l"
  using below_trans_string [OF assms] below_trans_string [OF assms(2,1)] by linarith

lemma below_refl [simp]: "pathIsEqualOrBelowPrefix p p"
  by (simp add: pathIsEqualOrBelowPrefix_def HasPrefix_append)

lemma rootsAbove_apart:
  "(\<forall>p. \<forall>k \<in> rootsAbove m p. \<forall>l \<in> rootsAbove m p. k = l) \<longleftrightarrow> roots_apart (dom m)"
proof
  assume one: "\<forall>p. \<forall>k \<in> rootsAbove m p. \<forall>l \<in> rootsAbove m p. k = l"
  show "roots_apart (dom m)" unfolding roots_apart_def
  proof (intro ballI impI)
    fix k l assume "k \<in> dom m" "l \<in> dom m" "pathIsEqualOrBelowPrefix k l"
    then have "k \<in> rootsAbove m k" "l \<in> rootsAbove m k" by (simp_all add: rootsAbove_def)
    then show "k = l" using one by blast
  qed
next
  assume "roots_apart (dom m)"
  then show "\<forall>p. \<forall>k \<in> rootsAbove m p. \<forall>l \<in> rootsAbove m p. k = l"
    using below_chain unfolding roots_apart_def rootsAbove_def by blast
qed

text \<open>The search for the parent visits the path and its ancestors, the longest first.\<close>

lemma findParent_clean:
  assumes "list_all valid_comp cs"
  shows "\<exists>res. findParentRepo N (if cs = [] then ''/'' else absPath cs) = Some res \<and>
    (case res of
       None \<Rightarrow> \<forall>ds. ds \<noteq> [] \<longrightarrow> prefix ds cs \<longrightarrow> N (absPath ds) = None
     | Some r \<Rightarrow> \<exists>ds. ds \<noteq> [] \<and> prefix ds cs \<and> N (absPath ds) = Some r \<and>
         (\<forall>es. prefix ds es \<longrightarrow> prefix es cs \<longrightarrow> es \<noteq> ds \<longrightarrow> N (absPath es) = None))"
  using assms
proof (induction cs rule: rev_induct)
  case Nil
  then show ?case by (subst findParentRepo.simps) auto
next
  case (snoc c cs)
  have ne: "absPath (cs @ [c]) \<noteq> ''/''" using absPath_ne_root [OF snoc.prems] by simp
  show ?case
  proof (cases "N (absPath (cs @ [c]))")
    case (Some r)
    then have "findParentRepo N (absPath (cs @ [c])) = Some (Some r)"
      using ne by (subst findParentRepo.simps) (simp del: absPath_simps)
    then show ?thesis using Some
      by (intro exI [of _ "Some r"]) (auto simp del: absPath_simps intro!: exI [of _ "cs @ [c]"] dest: prefix_order.antisym)
  next
    case None
    then have step: "findParentRepo N (absPath (cs @ [c])) = findParentRepo N (if cs = [] then ''/'' else absPath cs)"
      using ne Dir_absPath [OF snoc.prems] by (subst findParentRepo.simps) (simp del: absPath_simps)
    obtain res where res: "findParentRepo N (if cs = [] then ''/'' else absPath cs) = Some res"
      "case res of
         None \<Rightarrow> \<forall>ds. ds \<noteq> [] \<longrightarrow> prefix ds cs \<longrightarrow> N (absPath ds) = None
       | Some r \<Rightarrow> \<exists>ds. ds \<noteq> [] \<and> prefix ds cs \<and> N (absPath ds) = Some r \<and>
           (\<forall>es. prefix ds es \<longrightarrow> prefix es cs \<longrightarrow> es \<noteq> ds \<longrightarrow> N (absPath es) = None)"
      using snoc.IH snoc.prems by auto
    show ?thesis
    proof (intro exI [of _ res] conjI)
      show "findParentRepo N (if cs @ [c] = [] then ''/'' else absPath (cs @ [c])) = Some res"
        using step res(1) by (simp del: absPath_simps)
      show "case res of
          None \<Rightarrow> \<forall>ds. ds \<noteq> [] \<longrightarrow> prefix ds (cs @ [c]) \<longrightarrow> N (absPath ds) = None
        | Some r \<Rightarrow> \<exists>ds. ds \<noteq> [] \<and> prefix ds (cs @ [c]) \<and> N (absPath ds) = Some r \<and>
            (\<forall>es. prefix ds es \<longrightarrow> prefix es (cs @ [c]) \<longrightarrow> es \<noteq> ds \<longrightarrow> N (absPath es) = None)"
        using res(2) None by (cases res) (simp_all add: prefix_snoc del: absPath_simps, blast+)
    qed
  qed
qed

section \<open>Obligations of callers\<close>

text \<open>
  What the callers must ensure for the registry not to panic, now or when the events are loaded: a root is not the empty
  path; the GitLab namespace of a root is not changed, because the parser for that event is broken; namings and policies
  are sent for a root without a trailing slash, and patches for a root that has a naming; the ids of new repos are not nil;
  paths of repos are clean and absolute; workflow ids and status codes are not zero.
\<close>

definition gitlab_pre :: "(string \<rightharpoonup> rootState) \<Rightarrow> string \<Rightarrow> string \<Rightarrow> bool" where
  "gitlab_pre m k ns \<longleftrightarrow> (\<forall>r. m k = Some r \<longrightarrow> ro_GitlabNamespace (rt_info r) = ns)"

definition naming_pre :: "(string \<rightharpoonup> rootState) \<Rightarrow> FsoRepoNaming \<Rightarrow> bool" where
  "naming_pre m n \<longleftrightarrow> TrimRight (nm_GlobalRoot n) (CHR ''/'') = nm_GlobalRoot n \<and>
     (\<forall>r. m (nm_GlobalRoot n) = Some r \<longrightarrow> rt_repoNaming r \<noteq> None)"

fun reg_pre :: "RegState \<Rightarrow> RegCmd \<Rightarrow> bool" where
  "reg_pre st (RgInitRoot groot h hroot ns) \<longleftrightarrow> TrimRight groot (CHR ''/'') \<noteq> []"
| "reg_pre st (RgEnableGitlab groot ns) \<longleftrightarrow>
     gitlab_pre (gs_roots st) (TrimRight groot (CHR ''/'')) (TrimRight ns (CHR ''/''))"
| "reg_pre st (RgDisableGitlab groot) \<longleftrightarrow> gitlab_pre (gs_roots st) (TrimRight groot (CHR ''/'')) []"
| "reg_pre st (RgSetRepoNaming n) \<longleftrightarrow> (\<forall>x. n = Some x \<longrightarrow> TrimRight (nm_GlobalRoot x) (CHR ''/'') = nm_GlobalRoot x)"
| "reg_pre st (RgPatchRepoNaming n) \<longleftrightarrow> (\<forall>x. n = Some x \<longrightarrow> naming_pre (gs_roots st) x)"
| "reg_pre st (RgSetRepoInitPolicy p) \<longleftrightarrow> (\<forall>x. p = Some x \<longrightarrow> TrimRight (ip_GlobalRoot x) (CHR ''/'') = ip_GlobalRoot x)"
| "reg_pre st (RgInitRepo c) \<longleftrightarrow>
     gc_Id c \<noteq> uuidNil \<and> cleanAbs (TrimRight (gc_GlobalPath c) (CHR ''/''))"
| "reg_pre st (RgBeginMoveRepo i w p u) \<longleftrightarrow> cleanAbs (TrimRight p (CHR ''/''))"
| "reg_pre st (RgBeginFreezeRepo i w) \<longleftrightarrow> w \<noteq> uuidNil"
| "reg_pre st (RgBeginUnfreezeRepo i w) \<longleftrightarrow> w \<noteq> uuidNil"
| "reg_pre st (RgBeginArchiveRepo i w) \<longleftrightarrow> w \<noteq> uuidNil"
| "reg_pre st (RgBeginUnarchiveRepo i w) \<longleftrightarrow> w \<noteq> uuidNil"
| "reg_pre st (RgAbortFreezeRepo i w code) \<longleftrightarrow> code \<noteq> 0"
| "reg_pre st (RgAbortUnfreezeRepo i w code) \<longleftrightarrow> code \<noteq> 0"
| "reg_pre st (RgAbortArchiveRepo i w code) \<longleftrightarrow> code \<noteq> 0"
| "reg_pre st (RgAbortUnarchiveRepo i w code) \<longleftrightarrow> code \<noteq> 0"
| "reg_pre st _ \<longleftrightarrow> True"

text \<open>The same, without the state: commands that are fit in every state.\<close>

fun regGoodCmd :: "RegCmd \<Rightarrow> bool" where
  "regGoodCmd (RgEnableGitlab groot ns) \<longleftrightarrow> False"
| "regGoodCmd (RgDisableGitlab groot) \<longleftrightarrow> False"
| "regGoodCmd (RgPatchRepoNaming n) \<longleftrightarrow> n = None"
| "regGoodCmd (RgInitRoot groot h hroot ns) \<longleftrightarrow> TrimRight groot (CHR ''/'') \<noteq> []"
| "regGoodCmd (RgSetRepoNaming n) \<longleftrightarrow> (\<forall>x. n = Some x \<longrightarrow> TrimRight (nm_GlobalRoot x) (CHR ''/'') = nm_GlobalRoot x)"
| "regGoodCmd (RgSetRepoInitPolicy p) \<longleftrightarrow> (\<forall>x. p = Some x \<longrightarrow> TrimRight (ip_GlobalRoot x) (CHR ''/'') = ip_GlobalRoot x)"
| "regGoodCmd (RgInitRepo c) \<longleftrightarrow> gc_Id c \<noteq> uuidNil \<and> cleanAbs (TrimRight (gc_GlobalPath c) (CHR ''/''))"
| "regGoodCmd (RgBeginMoveRepo i w p u) \<longleftrightarrow> cleanAbs (TrimRight p (CHR ''/''))"
| "regGoodCmd (RgBeginFreezeRepo i w) \<longleftrightarrow> w \<noteq> uuidNil"
| "regGoodCmd (RgBeginUnfreezeRepo i w) \<longleftrightarrow> w \<noteq> uuidNil"
| "regGoodCmd (RgBeginArchiveRepo i w) \<longleftrightarrow> w \<noteq> uuidNil"
| "regGoodCmd (RgBeginUnarchiveRepo i w) \<longleftrightarrow> w \<noteq> uuidNil"
| "regGoodCmd (RgAbortFreezeRepo i w code) \<longleftrightarrow> code \<noteq> 0"
| "regGoodCmd (RgAbortUnfreezeRepo i w code) \<longleftrightarrow> code \<noteq> 0"
| "regGoodCmd (RgAbortArchiveRepo i w code) \<longleftrightarrow> code \<noteq> 0"
| "regGoodCmd (RgAbortUnarchiveRepo i w code) \<longleftrightarrow> code \<noteq> 0"
| "regGoodCmd _ \<longleftrightarrow> True"

lemma regGoodCmd_pre: "regGoodCmd c \<Longrightarrow> reg_pre st c"
  by (cases c) simp_all

section \<open>Results of commands\<close>

fun regApply :: "MapOrder \<Rightarrow> RegState \<Rightarrow> RegistryEvent list \<Rightarrow> (reg_error, RegState) outcome" where
  "regApply mo st [] = Ok st"
| "regApply mo st (e # es) = obind (regAdvanceEv mo st e) (\<lambda>st'. regApply mo st' es)"

definition reg_pb_ev :: "ulid_unmarshal \<Rightarrow> RegistryPb \<Rightarrow> RegistryEvent \<Rightarrow> bool" where
  "reg_pb_ev ub p e \<longleftrightarrow> rgFromPbValidate ub p = Ok e \<and> reg_pb_ok p \<and>
     (case gp_FsoRepoInfo p of None \<Rightarrow> True | Some info \<Rightarrow> \<exists>i. FromBytes (fi_Id info) = Inr i)"

text \<open>The events of a call are valid, and applying them makes a transition of the given kind.\<close>

definition reg_result :: "(RegState \<Rightarrow> RegState \<Rightarrow> bool) \<Rightarrow> ulid_unmarshal \<Rightarrow> MapOrder \<Rightarrow> ulid_source \<Rightarrow> RegState \<Rightarrow> RegistryPb Event list \<Rightarrow> bool" where
  "reg_result R ub mo g st evs \<longleftrightarrow>
     (\<exists>pbs es st'. rgNewEvents g (gs_vid st) pbs = Inr evs \<and> list_all2 (reg_pb_ev ub) pbs es \<and>
        regApply mo st es = Ok st' \<and> R st st')"

lemma rgEmit_Ok: "rgEmit g st pbs = Ok evs \<longleftrightarrow> rgNewEvents g (gs_vid st) pbs = Inr evs"
  by (auto simp: rgEmit_def split: sum.splits)

lemma rgEmit_no_panic [simp]: "\<not> is_Panic (rgEmit g st pbs)"
  by (auto simp: rgEmit_def split: sum.splits)

lemma reg_result_Nil: "reg_inv st \<Longrightarrow> reg_result reg_trans ub mo g st []"
  unfolding reg_result_def
  by (intro exI [of _ "[]"] exI [of _ st]) (simp add: rgNewEvents_def reg_trans_refl)

lemma reg_result_emit:
  assumes "rgEmit g st [p] = Ok evs" and "reg_pb_ev ub p e" and "regAdvanceEv mo st e = Ok st'" and "R st st'"
  shows "reg_result R ub mo g st evs"
  unfolding reg_result_def using assms
  by (intro exI [of _ "[p]"] exI [of _ "[e]"] exI [of _ st']) (simp add: rgEmit_Ok)

lemma reg_result_emit2:
  assumes "rgEmit g st [p, p'] = Ok evs" and "reg_pb_ev ub p e" and "reg_pb_ev ub p' e'"
    and "regAdvanceEv mo st e = Ok st1" and "regAdvanceEv mo st1 e' = Ok st'" and "R st st'"
  shows "reg_result R ub mo g st evs"
  unfolding reg_result_def using assms
  by (intro exI [of _ "[p, p']"] exI [of _ "[e, e']"] exI [of _ st']) (simp add: rgEmit_Ok)

lemmas reg_result_trans = reg_result_emit [where R = reg_trans]
  and reg_result_trans2 = reg_result_emit2 [where R = reg_trans]

section \<open>Messages\<close>

lemmas reg_msg_defs = reg_pb_ev_def rgFromPbValidate_def reg_fromPb_defs reg_new_defs rgGuard_def reg_pb_ok_def Let_def

lemma pbev_registry:
  "reg_pb_ev ub (NewRegistryAdded nam) (RvRegistryAdded nam)"
  "reg_pb_ev ub (NewEphemeralWorkflowsEnabled i) (RvEphemeralWorkflowsEnabled i)"
  "reg_pb_ev ub (NewRepoAclPolicyUpdated P_PROPAGATE_ROOT_ACLS) (RvRepoAclPolicyUpdated P_PROPAGATE_ROOT_ACLS)"
  "reg_pb_ev ub (NewPathFlagSet p f) (RvPathFlagSet p f)"
  "reg_pb_ev ub (NewPathFlagUnset p f) (RvPathFlagUnset p f)"
  by (simp_all add: reg_msg_defs)

lemma pbev_root:
  "reg_pb_ev ub (NewRootAdded i) (RvRootAdded i)"
  "reg_pb_ev ub (NewRootRemoved k) (RvRootRemoved k)"
  "ValidateRepoNaming (Some n) = None \<Longrightarrow> reg_pb_ev ub (NewRepoNamingUpdated n) (RvRepoNamingUpdated n)"
  "ValidateRepoNamingPatch (Some n) = None \<Longrightarrow> nm_Config n = Some c \<Longrightarrow>
     reg_pb_ev ub (NewRepoNamingConfigUpdated n) (RvRepoNamingConfigUpdated (nm_GlobalRoot n) (nm_Rule n) c)"
  "ValidateRepoInitPolicy (Some p) = None \<Longrightarrow> reg_pb_ev ub (NewRepoInitPolicyUpdated p) (RvRepoInitPolicyUpdated p)"
  "k \<noteq> [] \<Longrightarrow> reg_pb_ev ub (NewSplitRootEnabled k) (RvSplitRootEnabled k)"
  "k \<noteq> [] \<Longrightarrow> reg_pb_ev ub (NewSplitRootDisabled k) (RvSplitRootDisabled k)"
  "k \<noteq> [] \<Longrightarrow> 0 < sint (sp_MaxDepth x) \<Longrightarrow> 0 < sint (sp_MinDiskUsage x) \<Longrightarrow> 0 < sint (sp_MaxDiskUsage x) \<Longrightarrow>
     reg_pb_ev ub (NewSplitRootParamsUpdated k x) (RvSplitRootParamsUpdated (x\<lparr>sp_GlobalRoot := k\<rparr>))"
  by (simp_all add: reg_msg_defs)

lemma checkGPG_Bytes [simp]: "checkGPGKeyFingerprints (Bytes ks) = None \<longleftrightarrow> distinct ks"
  using Bytes_simps [of ks] by (simp add: checkGPGKeyFingerprints_def)

lemma checkGPG_Nil [simp]: "checkGPGKeyFingerprints [] = None"
  using checkGPG_Bytes [of "[]"] by (simp add: Bytes_def)

lemma pbev_recipients:
  "k \<noteq> [] \<Longrightarrow> NewRootArchiveRecipientsUpdated k ks = (Ok p :: ('e, RegistryPb) outcome) \<Longrightarrow>
     reg_pb_ev ub p (RvRootArchiveRecipientsUpdated k ks)"
  "k \<noteq> [] \<Longrightarrow> NewRootShadowBackupRecipientsUpdated k ks = (Ok p :: ('e, RegistryPb) outcome) \<Longrightarrow>
     reg_pb_ev ub p (RvRootShadowBackupRecipientsUpdated k ks)"
  by (auto simp: reg_msg_defs split: option.splits)

lemma pbev_repo:
  "reg_pb_ev ub (NewRepoAccepted (repoInfoPb (idBytes i) gp\<lparr>fi_CreatorName := cn, fi_CreatorEmail := ce\<rparr>))
     (RvRepoAccepted (repoInfoPb (idBytes i) gp\<lparr>fi_CreatorName := cn, fi_CreatorEmail := ce\<rparr>))"
  "reg_pb_ev ub (NewRepoAdded (idBytes i) gp ev) (RvRepoAdded (repoInfoPb (idBytes i) gp))"
  "reg_pb_ev ub (NewRepoReinitAccepted (idBytes i) gp reason) (RvRepoReinitAccepted (Some (idBytes i)) gp reason)"
  "reg_pb_ev ub (NewPbRepoMoveAccepted i w gp) (RvRepoMoveAccepted i w gp)"
  "reg_pb_ev ub (NewRepoEnableGitlabAccepted i ns) (RvRepoEnableGitlabAccepted i ns)"
  "ulid_binary ub \<Longrightarrow> reg_pb_ev ub (rgNewShadowRepoMoveStarted i ev w) (RvShadowRepoMoveStarted i ev w)"
  "ulid_binary ub \<Longrightarrow> reg_pb_ev ub (rgNewPbRepoMoved i ev w gp) (RvRepoMoved i ev w gp)"
  by (simp_all add: reg_msg_defs)

lemma pbev_storage:
  "rgNewFreezeRepoStarted2 i w = (Ok p :: ('e, RegistryPb) outcome) \<Longrightarrow> reg_pb_ev ub p (RvFreezeRepoStarted2 i w)"
  "rgNewFreezeRepoCompleted2Ok i w = (Ok p :: ('e, RegistryPb) outcome) \<Longrightarrow> reg_pb_ev ub p (RvFreezeRepoCompleted2 i w 0)"
  "rgNewFreezeRepoCompleted2Error i w code = (Ok p :: ('e, RegistryPb) outcome) \<Longrightarrow> reg_pb_ev ub p (RvFreezeRepoCompleted2 i w code)"
  "rgNewUnfreezeRepoStarted2 i w = (Ok p :: ('e, RegistryPb) outcome) \<Longrightarrow> reg_pb_ev ub p (RvUnfreezeRepoStarted2 i w)"
  "rgNewUnfreezeRepoCompleted2Ok i w = (Ok p :: ('e, RegistryPb) outcome) \<Longrightarrow> reg_pb_ev ub p (RvUnfreezeRepoCompleted2 i w 0)"
  "rgNewUnfreezeRepoCompleted2Error i w code = (Ok p :: ('e, RegistryPb) outcome) \<Longrightarrow> reg_pb_ev ub p (RvUnfreezeRepoCompleted2 i w code)"
  "rgNewArchiveRepoStarted i w = (Ok p :: ('e, RegistryPb) outcome) \<Longrightarrow> reg_pb_ev ub p (RvArchiveRepoStarted i w)"
  "rgNewArchiveRepoCompletedOk i w = (Ok p :: ('e, RegistryPb) outcome) \<Longrightarrow> reg_pb_ev ub p (RvArchiveRepoCompleted i w 0)"
  "rgNewArchiveRepoCompletedError i w code = (Ok p :: ('e, RegistryPb) outcome) \<Longrightarrow> reg_pb_ev ub p (RvArchiveRepoCompleted i w code)"
  "rgNewUnarchiveRepoStarted i w = (Ok p :: ('e, RegistryPb) outcome) \<Longrightarrow> reg_pb_ev ub p (RvUnarchiveRepoStarted i w)"
  "rgNewUnarchiveRepoCompletedOk i w = (Ok p :: ('e, RegistryPb) outcome) \<Longrightarrow> reg_pb_ev ub p (RvUnarchiveRepoCompleted i w 0)"
  "rgNewUnarchiveRepoCompletedError i w code = (Ok p :: ('e, RegistryPb) outcome) \<Longrightarrow> reg_pb_ev ub p (RvUnarchiveRepoCompleted i w code)"
  by (auto simp: reg_msg_defs split: if_splits)

end
