(* ===== verification/Fso_Registry_Cmds.thy ===== *)
theory Fso_Registry_Cmds
  imports Fso_Registry_Inv
begin

text \<open>
  What the commands of the registry do: each accepted command emits valid events, and applying them to a state that
  satisfies the invariant is a transition.
\<close>

section \<open>The registry\<close>

lemma cleanElems_all:
  assumes "P ''..''"
  shows "list_all (\<lambda>e. e = [] \<or> P e) es \<Longrightarrow> list_all P out \<Longrightarrow> list_all P (cleanElems r out es)"
proof (induction es arbitrary: out r)
  case (Cons e es)
  note IH = Cons.IH
  show ?case
  proof (cases out)
    case Nil
    then show ?thesis using Cons.prems assms by (auto intro!: IH)
  next
    case (Cons o1 os)
    then show ?thesis using \<open>list_all P out\<close> \<open>list_all _ (e # es)\<close> assms by (auto intro!: IH)
  qed
qed simp

lemma Clean_Clean:
  assumes abs: "IsAbs (Clean p)"
  shows "Clean (Clean p) = Clean p"
proof (cases "IsAbs p")
  case True
  then obtain cs where "list_all valid_comp cs" "Clean p = (if cs = [] then ''/'' else absPath cs)" using Clean_abs by blast
  moreover have "Clean ''/'' = ''/''" by (simp add: Clean_def IsAbs_def)
  ultimately show ?thesis using Clean_absPath by (cases "cs = []") (simp_all del: absPath_simps)
next
  case False
  let ?es = "rev (cleanElems False [] (splitChar (CHR ''/'') p))"
  have "list_all (\<lambda>e. e \<noteq> [] \<and> CHR ''/'' \<notin> set e) (cleanElems False [] (splitChar (CHR ''/'') p))"
    by (rule cleanElems_all) (auto simp: list_all_iff dest: splitChar_set)
  then have "\<forall>e \<in> set ?es. e \<noteq> [] \<and> CHR ''/'' \<notin> set e" by (simp add: list_all_iff)
  then have "\<not> IsAbs (joinChar (CHR ''/'') ?es)"
    by (cases ?es; cases "tl ?es"; cases "hd ?es") (auto simp: IsAbs_def)
  then have False using abs False by (auto simp: Clean_def Let_def IsAbs_def split: if_splits)
  then show ?thesis ..
qed

lemma reg_inv_info_None:
  assumes "reg_inv st" and "gs_info st = None"
  shows "gs_roots st = Map.empty" "gs_reposByName st = Map.empty" "gs_reposById st = Map.empty" "gs_ephemeralWorkflowsId st = 0"
  using assms by (simp_all add: reg_inv_def)

lemma tell_InitRegistry:
  assumes inv: "reg_inv st" and tell: "rgTellInitRegistry g st nam = Ok evs"
  shows "reg_result reg_trans ub mo g st evs"
proof (cases "gs_info st")
  case None
  then have emit: "rgEmit g st [NewRegistryAdded nam] = Ok evs" using tell by (simp add: rgTellInitRegistry_def)
  note n = reg_inv_info_None [OF inv None]
  show ?thesis
    by (rule reg_result_trans [OF emit pbev_registry(1) regAdvanceEv.simps(1)])
      (use inv None n in \<open>auto simp: reg_trans_def reg_state_defs\<close>)
next
  case (Some x)
  then show ?thesis using tell reg_result_Nil [OF inv] by (auto simp: rgTellInitRegistry_def split: if_splits)
qed

lemma tell_EnableEphemeralWorkflows:
  assumes inv: "reg_inv st" and tell: "rgTellEnableEphemeralWorkflows g st i = Ok evs"
  shows "reg_result reg_trans ub mo g st evs"
proof (cases "gs_ephemeralWorkflowsId st = 0")
  case True
  then have emit: "rgEmit g st [NewEphemeralWorkflowsEnabled i] = Ok evs" and i: "gs_info st \<noteq> None"
    using tell by (auto simp: rgTellEnableEphemeralWorkflows_def split: if_splits)
  show ?thesis
    by (rule reg_result_trans [OF emit pbev_registry(2) regAdvanceEv.simps(2)])
      (use inv i True in \<open>auto simp: reg_trans_def reg_state_defs\<close>)
next
  case False
  then show ?thesis
    using tell reg_result_Nil [OF inv] by (auto simp: rgTellEnableEphemeralWorkflows_def split: if_splits)
qed

lemma tell_EnablePropagateRootAcls:
  assumes inv: "reg_inv st" and tell: "rgTellEnablePropagateRootAcls g st = Ok evs"
  shows "reg_result reg_trans ub mo g st evs"
proof (cases "gs_repoAclPolicy st = P_PROPAGATE_ROOT_ACLS")
  case False
  then have emit: "rgEmit g st [NewRepoAclPolicyUpdated P_PROPAGATE_ROOT_ACLS] = Ok evs" and i: "gs_info st \<noteq> None"
    using tell by (auto simp: rgTellEnablePropagateRootAcls_def split: if_splits)
  show ?thesis
    by (rule reg_result_trans [OF emit pbev_registry(3) regAdvanceEv.simps(3)])
      (use inv i in \<open>auto simp: reg_trans_def reg_state_defs\<close>)
qed (use tell reg_result_Nil [OF inv] in \<open>auto simp: rgTellEnablePropagateRootAcls_def split: if_splits\<close>)

lemma tell_SetPathFlags:
  assumes inv: "reg_inv st" and tell: "rgTellSetPathFlags g st p f = Ok evs"
  shows "reg_result reg_trans ub mo g st evs"
proof (cases "or (flagsAt (gs_pathFlags st) (Clean p)) f = flagsAt (gs_pathFlags st) (Clean p)")
  case True
  then show ?thesis using tell reg_result_Nil [OF inv] by (auto simp: rgTellSetPathFlags_def Let_def split: if_splits)
next
  case False
  let ?f = "or (flagsAt (gs_pathFlags st) (Clean p)) f"
  have emit: "rgEmit g st [NewPathFlagSet (Clean p) f] = Ok evs" and p: "IsAbs (Clean p)" and i: "gs_info st \<noteq> None"
    using tell False by (auto simp: rgTellSetPathFlags_def Let_def split: if_splits)
  have "?f \<noteq> 0" using False by (metis or_eq_0_iff)
  then have "flags_ok ((gs_pathFlags st)(Clean p \<mapsto> ?f))"
    using inv p Clean_Clean [OF p] by (auto simp: reg_inv_def flags_ok_def)
  then show ?thesis
    by (intro reg_result_trans [OF emit pbev_registry(4) regAdvanceEv.simps(22)])
      (use inv i in \<open>auto simp: reg_trans_def reg_state_defs\<close>)
qed

lemma tell_UnsetPathFlags:
  assumes inv: "reg_inv st" and tell: "rgTellUnsetPathFlags g st p f = Ok evs"
  shows "reg_result reg_trans ub mo g st evs"
proof (cases "and (flagsAt (gs_pathFlags st) (Clean p)) (not f) = flagsAt (gs_pathFlags st) (Clean p)")
  case True
  then show ?thesis using tell reg_result_Nil [OF inv] by (auto simp: rgTellUnsetPathFlags_def Let_def split: if_splits)
next
  case False
  let ?f = "and (flagsAt (gs_pathFlags st) (Clean p)) (not f)"
  have emit: "rgEmit g st [NewPathFlagUnset (Clean p) f] = Ok evs" and p: "IsAbs (Clean p)" and i: "gs_info st \<noteq> None"
    using tell False by (auto simp: rgTellUnsetPathFlags_def Let_def split: if_splits)
  have "flags_ok ((gs_pathFlags st)(Clean p := if ?f = 0 then None else Some ?f))"
    using inv p Clean_Clean [OF p] by (auto simp: reg_inv_def flags_ok_def)
  then show ?thesis
    by (intro reg_result_trans [OF emit pbev_registry(5) regAdvanceEv.simps(23) [unfolded Let_def]])
      (use inv i in \<open>auto simp: reg_trans_def reg_state_defs\<close>)
qed

section \<open>Roots\<close>

text \<open>An event for a known root.\<close>

lemma result_root:
  assumes inv: "reg_inv st" and r: "gs_roots st k = Some r" and emit: "rgEmit g st [p] = Ok evs"
    and msg: "reg_pb_ev ub p e" and adv: "regAdvanceEv mo st e = updateRoot st k f" and ok: "root_ok k (f r)"
  shows "reg_result reg_trans ub mo g st evs"
  by (rule reg_result_trans [OF emit msg _ reg_trans_root [OF inv r ok]]) (simp add: adv updateRoot_def r)

lemma root_okD:
  assumes "reg_inv st" and "gs_roots st k = Some r"
  shows "root_ok k r" "k \<noteq> []" "TrimRight k (CHR ''/'') = k"
  using reg_invD(4) [OF assms] by (auto simp: root_ok_def)

lemma tell_InitRoot:
  assumes inv: "reg_inv st" and pre: "TrimRight groot (CHR ''/'') \<noteq> []"
    and tell: "rgTellInitRoot g st groot h hroot ns = Ok evs"
  shows "reg_result reg_trans ub mo g st evs"
proof (cases "gs_roots st (TrimRight groot (CHR ''/''))")
  case (Some r)
  then show ?thesis using tell reg_result_Nil [OF inv] by (auto simp: rgTellInitRoot_def Let_def split: if_splits)
next
  case None
  let ?k = "TrimRight groot (CHR ''/'')"
  define x where "x = \<lparr>fr_GlobalRoot = ?k, fr_Host = h, fr_HostRoot = TrimRight hroot (CHR ''/''),
    fr_GitlabNamespace = TrimRight ns (CHR ''/'')\<rparr>"
  have emit: "rgEmit g st [NewRootAdded x] = Ok evs" and i: "gs_info st \<noteq> None"
    using tell None by (auto simp: rgTellInitRoot_def Let_def x_def split: if_splits)
  have "TrimRight ?k (CHR ''/'') = ?k" by (simp add: TrimRight_def)
  then have "root_ok ?k (newRootState x)"
    using pre by (simp add: root_ok_def newRootState_def x_def keys_ok_def naming_ok_def split_ok_def)
  then have "regRoots_ok ((gs_roots st)(?k \<mapsto> newRootState x))"
    using reg_invD(1) [OF inv] by (auto simp: regRoots_ok_def)
  then show ?thesis
    by (intro reg_result_trans [OF emit pbev_root(1) _ reg_trans_roots [OF inv i]]) (simp_all add: x_def)
qed

lemma tell_RemoveRoot:
  assumes inv: "reg_inv st" and tell: "rgTellRemoveRoot g st groot = Ok evs"
  shows "reg_result reg_trans ub mo g st evs"
proof -
  let ?k = "TrimRight groot (CHR ''/'')"
  have emit: "rgEmit g st [NewRootRemoved ?k] = Ok evs" and i: "gs_info st \<noteq> None"
    using tell by (auto simp: rgTellRemoveRoot_def Let_def split: if_splits)
  have "regRoots_ok ((gs_roots st)(?k := None))"
    using reg_invD(1) [OF inv] by (auto simp: regRoots_ok_def)
  then show ?thesis by (intro reg_result_trans [OF emit pbev_root(2) _ reg_trans_roots [OF inv i]]) simp_all
qed

lemma tell_EnableGitlab:
  assumes "reg_inv st" and "gitlab_pre (gs_roots st) (TrimRight groot (CHR ''/'')) (TrimRight ns (CHR ''/''))"
    and "rgTellEnableGitlab g st groot ns = Ok evs"
  shows "reg_result reg_trans ub mo g st evs"
  using assms reg_result_Nil by (auto simp: rgTellEnableGitlab_def gitlab_pre_def Let_def split: if_splits option.splits)

lemma tell_DisableGitlab:
  assumes "reg_inv st" and "gitlab_pre (gs_roots st) (TrimRight groot (CHR ''/'')) []"
    and "rgTellDisableGitlab g st groot = Ok evs"
  shows "reg_result reg_trans ub mo g st evs"
  using assms reg_result_Nil by (auto simp: rgTellDisableGitlab_def gitlab_pre_def Let_def split: if_splits option.splits)

text \<open>Recipients.\<close>

lemma root_ok_recipients:
  assumes "root_ok k r" and "keys_ok ks"
  shows "root_ok k (r\<lparr>rt_info := (rt_info r)\<lparr>ro_ArchiveRecipients := ks\<rparr>\<rparr>)"
    and "root_ok k (r\<lparr>rt_info := (rt_info r)\<lparr>ro_ShadowBackupRecipients := ks\<rparr>\<rparr>)"
  using assms by (simp_all add: root_ok_def naming_ok_def)

lemma result_recipients:
  assumes inv: "reg_inv st" and r: "gs_roots st k = Some r" and keys: "ParseFingerprintsBytes bs = Inr ks" "keys_ok ks"
    and p: "NewRootArchiveRecipientsUpdated k bs = (Ok p :: (reg_error, RegistryPb) outcome)" and emit: "rgEmit g st [p] = Ok evs"
  shows "reg_result reg_trans ub mo g st evs"
  by (rule result_root [OF inv r emit pbev_recipients(1) [OF root_okD(2) [OF inv r] p],
        of mo "\<lambda>r. r\<lparr>rt_info := (rt_info r)\<lparr>ro_ArchiveRecipients := ks\<rparr>\<rparr>"])
    (simp_all add: r keys root_ok_recipients [OF root_okD(1) [OF inv r] keys(2)])

lemma result_backup_recipients:
  assumes inv: "reg_inv st" and r: "gs_roots st k = Some r" and keys: "ParseFingerprintsBytes bs = Inr ks" "keys_ok ks"
    and p: "NewRootShadowBackupRecipientsUpdated k bs = (Ok p :: (reg_error, RegistryPb) outcome)" and emit: "rgEmit g st [p] = Ok evs"
  shows "reg_result reg_trans ub mo g st evs"
  by (rule result_root [OF inv r emit pbev_recipients(2) [OF root_okD(2) [OF inv r] p],
        of mo "\<lambda>r. r\<lparr>rt_info := (rt_info r)\<lparr>ro_ShadowBackupRecipients := ks\<rparr>\<rparr>"])
    (simp_all add: r keys root_ok_recipients [OF root_okD(1) [OF inv r] keys(2)])

lemma keys_ok_Nil [simp]: "keys_ok []"
  by (simp add: keys_ok_def)

lemma parse_Bytes_ok: "rgCheckTellKeys ks = None \<Longrightarrow> \<exists>fs. ParseFingerprintsBytes (Bytes ks) = Inr fs \<and> keys_ok fs"
  by (auto simp: rgCheckTellKeys_def split: if_splits)

lemma tell_Recipients:
  assumes inv: "reg_inv st"
  shows "rgTellUpdateRootArchiveRecipients g st groot ks = Ok evs \<Longrightarrow> reg_result reg_trans ub mo g st evs"
    and "rgTellUpdateRootShadowBackupRecipients g st groot ks = Ok evs \<Longrightarrow> reg_result reg_trans ub mo g st evs"
    and "rgTellDeleteRootArchiveRecipients g st groot = Ok evs \<Longrightarrow> reg_result reg_trans ub mo g st evs"
    and "rgTellDeleteRootShadowBackupRecipients g st groot = Ok evs \<Longrightarrow> reg_result reg_trans ub mo g st evs"
  using parse_Bytes_ok [of ks] reg_result_Nil [OF inv]
  by (auto simp: rgTellUpdateRootArchiveRecipients_def rgTellUpdateRootShadowBackupRecipients_def
      rgTellDeleteRootArchiveRecipients_def rgTellDeleteRootShadowBackupRecipients_def ifError_def Let_def outcome_simps
      split: if_splits option.splits 
      intro: result_recipients [OF inv _ ParseFingerprintsBytes_Bytes] result_backup_recipients [OF inv _ ParseFingerprintsBytes_Bytes]
        result_recipients [OF inv _ Bytes_Nil(2) keys_ok_Nil] result_backup_recipients [OF inv _ Bytes_Nil(2) keys_ok_Nil])

section \<open>Namings and policies\<close>

lemma ifError_Ok: "ifError x k = Ok y \<longleftrightarrow> x = None \<and> k = Ok y"
  by (cases x) simp_all

lemma Validate_None [simp]:
  "ValidateRepoNaming None \<noteq> None" "ValidateRepoNamingPatch None \<noteq> None" "ValidateRepoInitPolicy None \<noteq> None"
  by (simp_all add: ValidateRepoNaming_def ValidateRepoNamingPatch_def ValidateRepoInitPolicy_def)

lemma parseFields_dom: "parseFields m fs = Inr m' \<Longrightarrow> dom m' = dom m \<union> fst ` set fs"
  by (induction m fs rule: parseFields.induct) (auto split: ConfigFieldVal.splits)

lemma ParsePb_dom: "ParsePb (Some fs) = Inr m \<Longrightarrow> dom m = fst ` set fs"
  using parseFields_dom [of Map.empty fs m] by (simp add: ParsePb_def)

lemma ParsePb_finite: "ParsePb c = Inr m \<Longrightarrow> finite (dom m)"
  by (cases c) (auto simp: ParsePb_def dest: parseFields_dom)

lemma cfgLen_card: "cfgLen fs = card (fst ` set fs)"
  by (simp add: cfgLen_def length_remdups_card_conv)

text \<open>A patch is one list; what \<open>ValidateRepoNaming()\<close> accepts has a list, or nothing, where patches go.\<close>

lemma single_list:
  assumes "validateConfigSingleStringListGet fs key = Inr xs"
  shows "ParsePb (Some fs) = Inr [key \<mapsto> CTextList xs]"
proof -
  obtain m where m: "ParsePb (Some fs) = Inr m" "m key = Some (CTextList xs)" "cfgLen fs = 1"
    using assms by (auto simp: validateConfigSingleStringListGet_def split: sum.splits option.splits ConfigVal.splits if_splits)
  then have "card (dom m) = 1" using ParsePb_dom [OF m(1)] cfgLen_card [of fs] by simp
  then have "dom m = {key}" using m(2) by (metis card_1_singletonE domI singletonD)
  then have "m = [key \<mapsto> CTextList xs]" using m(2) by (metis dom_eq_singleton_conv fun_upd_same option.inject)
  then show ?thesis using m(1) by simp
qed

lemma valid_patch:
  assumes "ValidateRepoNamingPatch (Some n) = None"
  obtains fs xs where "nm_Config n = Some fs" "ParsePb (Some fs) = Inr [patchKey (nm_Rule n) \<mapsto> CTextList xs]"
proof -
  have "\<exists>fs xs. nm_Config n = Some fs \<and> validateConfigSingleStringListGet fs (patchKey (nm_Rule n)) = Inr xs"
    using assms
    by (auto simp: ValidateRepoNamingPatch_def patchKey_def validateRepoNamingNonNilIgnoreListOnly_def
        validateConfigSingleStringList_def validateRepoNamingPatchPathPatterns_def split: if_splits option.splits sum.splits)
  then show thesis using that single_list by blast
qed

lemma valid_naming:
  assumes "ValidateRepoNaming (Some n) = None"
  obtains m where "ParsePb (nm_Config n) = Inr m" "\<forall>v. m (patchKey (nm_Rule n)) = Some v \<longrightarrow> (\<exists>xs. v = CTextList xs)"
proof -
  have "\<exists>m. ParsePb (nm_Config n) = Inr m \<and> (\<forall>v. m (patchKey (nm_Rule n)) = Some v \<longrightarrow> (\<exists>xs. v = CTextList xs))"
  proof (cases "nm_Config n")
    case None
    then show ?thesis by (simp add: ParsePb_def)
  next
    case (Some fs)
    consider "nm_Rule n = ''Stdtools2017''" | "nm_Rule n = ''SubdirLevel''" | "nm_Rule n = ''PathPatterns''"
      using assms by (auto simp: ValidateRepoNaming_def split: if_splits)
    then show ?thesis
    proof cases
      case 1
      then obtain xs where "validateConfigSingleStringListGet fs ''ignore'' = Inr xs"
        using assms Some by (auto simp: ValidateRepoNaming_def validateRepoNamingStdtools2017_def
            validateConfigSingleStringList_def split: sum.splits)
      then show ?thesis using single_list 1 Some by (auto simp: patchKey_def)
    next
      case 2
      then show ?thesis using assms Some
        by (auto simp: ValidateRepoNaming_def validateRepoNamingSubdirLevel_def patchKey_def
            split: sum.splits option.splits ConfigVal.splits if_splits)
    next
      case 3
      then obtain m xs where m: "ParsePb (Some fs) = Inr m" "m ''patterns'' = Some (CTextList xs)" "cfgLen fs = 1"
        using assms Some by (auto simp: ValidateRepoNaming_def validateRepoNamingPathPatterns_def
            split: sum.splits option.splits ConfigVal.splits if_splits)
      then have "card (dom m) = 1" using ParsePb_dom [OF m(1)] cfgLen_card [of fs] by simp
      then have "dom m = {''patterns''}" using m(2) by (metis card_1_singletonE domI singletonD)
      then have "''enabledPaths'' \<notin> dom m" by simp
      then have "m ''enabledPaths'' = None" by (simp only: domIff not_not)
      then show ?thesis using m(1) 3 Some by (simp add: patchKey_def)
    qed
  qed
  then show thesis using that by blast
qed

lemma root_ok_naming:
  assumes "root_ok k r" and "naming_ok (r\<lparr>rt_repoNaming := a, rt_repoNamingIsPatched := b, rt_repoNamingConfig := c\<rparr>)"
  shows "root_ok k (r\<lparr>rt_repoNaming := a, rt_repoNamingIsPatched := b, rt_repoNamingConfig := c\<rparr>)"
  using assms by (simp add: root_ok_def)

lemma tell_SetRepoNaming:
  assumes inv: "reg_inv st" and pre: "\<And>x. n = Some x \<Longrightarrow> TrimRight (nm_GlobalRoot x) (CHR ''/'') = nm_GlobalRoot x"
    and tell: "rgTellSetRepoNaming g st n = Ok evs"
  shows "reg_result reg_trans ub mo g st evs"
proof (cases "evs = []")
  case False
  obtain x r where x: "n = Some x" "ValidateRepoNaming (Some x) = None" "gs_roots st (nm_GlobalRoot x) = Some r"
      "rgEmit g st [NewRepoNamingUpdated x] = Ok evs"
    using tell pre False
    by (cases n) (auto simp: rgTellSetRepoNaming_def ifError_def outcome_simps split: if_splits option.splits)
  obtain m where m: "ParsePb (nm_Config x) = Inr m" "\<forall>v. m (patchKey (nm_Rule x)) = Some v \<longrightarrow> (\<exists>xs. v = CTextList xs)"
    using valid_naming [OF x(2)] by blast
  show ?thesis
    by (rule result_root [OF inv x(3,4) pbev_root(3) [OF x(2)], of mo
          "\<lambda>r. r\<lparr>rt_repoNaming := Some x, rt_repoNamingIsPatched := False, rt_repoNamingConfig := m\<rparr>"])
      (use x(3) m root_okD(1) [OF inv x(3)] in \<open>simp_all add: root_ok_def naming_ok_def\<close>)
qed (simp add: reg_result_Nil inv)

text \<open>Applying a patch.\<close>

lemma result_patch:
  assumes inv: "reg_inv st" and mo: "map_orders mo" and r: "gs_roots st (nm_GlobalRoot p) = Some r"
    and n: "rt_repoNaming r = Some n" "nm_Rule p = nm_Rule n" and valid: "ValidateRepoNamingPatch (Some p) = None"
    and emit: "rgEmit g st [NewRepoNamingConfigUpdated p] = Ok evs"
  shows "reg_result reg_trans ub mo g st evs"
proof -
  let ?k = "patchKey (nm_Rule n)"
  obtain fs xs where fs: "nm_Config p = Some fs" "ParsePb (Some fs) = Inr [?k \<mapsto> CTextList xs]"
    using valid_patch [OF valid] n(2) by metis
  let ?b = "[?k \<mapsto> CTextList xs]" and ?c = "merged (rt_repoNamingConfig r) [?k \<mapsto> CTextList xs]"
  have ok: "root_ok (nm_GlobalRoot p) r" by (rule root_okD(1) [OF inv r])
  have list: "\<forall>v. rt_repoNamingConfig r ?k = Some v \<longrightarrow> (\<exists>xs. v = CTextList xs)"
    using ok n(1) by (simp add: root_ok_def naming_ok_def)
  have "set (rangeConfig mo ?b) = dom ?b" using mo unfolding map_orders_def by (metis finite.emptyI finite.insertI dom_fun_upd dom_empty option.distinct(1))
  moreover have "mergeable (rt_repoNamingConfig r) ?b" using list by (auto simp: mergeable_def split: if_splits)
  ultimately have merge: "Merge (rt_repoNamingConfig r) (rangeConfig mo ?b) ?b = Inr ?c" by (simp add: Merge_Inr_iff)
  have "naming_ok (r\<lparr>rt_repoNamingIsPatched := True, rt_repoNamingConfig := ?c\<rparr>)"
    using n(1) list by (auto simp: naming_ok_def merged_def split: option.splits ConfigVal.splits)
  then show ?thesis
    by (intro result_root [OF inv r emit pbev_root(4) [OF valid fs(1)], of mo
          "\<lambda>r. r\<lparr>rt_repoNamingIsPatched := True, rt_repoNamingConfig := ?c\<rparr>"])
      (use r fs(2) merge ok in \<open>simp_all add: root_ok_def\<close>)
qed

lemma tell_PatchRepoNaming:
  assumes inv: "reg_inv st" and mo: "map_orders mo" and pre: "\<And>x. n = Some x \<Longrightarrow> naming_pre (gs_roots st) x"
    and tell: "rgTellPatchRepoNaming g st n = Ok evs"
  shows "reg_result reg_trans ub mo g st evs"
proof -
  obtain x where x: "n = Some x" "ValidateRepoNamingPatch (Some x) = None"
    using tell by (cases n) (auto simp: rgTellPatchRepoNaming_def ifError_def split: if_splits option.splits)
  then obtain r m where "gs_roots st (nm_GlobalRoot x) = Some r" "rt_repoNaming r = Some m" "nm_Rule x = nm_Rule m"
      "rgEmit g st [NewRepoNamingConfigUpdated x] = Ok evs"
    using tell pre [OF x(1)]
    by (auto simp: rgTellPatchRepoNaming_def naming_pre_def outcome_simps split: if_splits option.splits)
  then show ?thesis using result_patch [OF inv mo _ _ _ x(2)] by blast
qed

lemma tell_EnableDiscoveryPaths:
  assumes inv: "reg_inv st" and mo: "map_orders mo" and tell: "rgTellEnableDiscoveryPaths g st groot dps = Ok evs"
  shows "reg_result reg_trans ub mo g st evs"
proof (cases "evs = []")
  case False
  obtain r n where r: "gs_roots st groot = Some r" "rt_repoNaming r = Some n" "nm_Rule n = ''PathPatterns''"
    using tell by (auto simp: rgTellEnableDiscoveryPaths_def ifError_def split: if_split_asm option.split_asm)
  obtain p where "nm_GlobalRoot p = groot" "nm_Rule p = ''PathPatterns''" "ValidateRepoNamingPatch (Some p) = None"
      "rgEmit g st [NewRepoNamingConfigUpdated p] = Ok evs"
  proof -
    let ?p = "\<lparr>nm_GlobalRoot = groot, nm_Rule = ''PathPatterns'', nm_Config = Some [(''enabledPaths'', FTextList
      (addDepthPaths groot (case rt_repoNamingConfig r ''enabledPaths'' of Some (CTextList ds) \<Rightarrow> ds | _ \<Rightarrow> []) dps))]\<rparr>"
    have "ValidateRepoNamingPatch (Some ?p) = None" "rgEmit g st [NewRepoNamingConfigUpdated ?p] = Ok evs"
      using tell False by (simp_all add: rgTellEnableDiscoveryPaths_def ifError_Ok Let_def r split: if_split_asm)
    then show thesis by (intro that [of ?p]) simp_all
  qed
  then show ?thesis using result_patch [OF inv mo, of p r n g evs ub] r by simp
qed (simp add: reg_result_Nil inv)

lemma tell_SetRepoInitPolicy:
  assumes inv: "reg_inv st" and pre: "\<And>x. p = Some x \<Longrightarrow> TrimRight (ip_GlobalRoot x) (CHR ''/'') = ip_GlobalRoot x"
    and tell: "rgTellSetRepoInitPolicy g st p = Ok evs"
  shows "reg_result reg_trans ub mo g st evs"
proof (cases "evs = []")
  case False
  obtain x r where x: "p = Some x" "ValidateRepoInitPolicy (Some x) = None" "gs_roots st (ip_GlobalRoot x) = Some r"
      "rgEmit g st [NewRepoInitPolicyUpdated x] = Ok evs"
    using tell pre False
    by (cases p) (auto simp: rgTellSetRepoInitPolicy_def ifError_def outcome_simps split: if_splits option.splits)
  show ?thesis
    by (rule result_root [OF inv x(3,4) pbev_root(5) [OF x(2)], of mo "\<lambda>r. r\<lparr>rt_repoInitPolicy := Some x\<rparr>"])
      (use root_okD(1) [OF inv x(3)] in \<open>simp_all add: root_ok_def naming_ok_def\<close>)
qed (simp add: reg_result_Nil inv)

section \<open>Split roots\<close>

lemma splitCheckTell_None:
  "splitCheckTell c = None \<longleftrightarrow> (\<exists>x. c = Some x \<and> 0 \<le> sint (sr_MaxDepth x) \<and> sint (sr_MaxDepth x) \<le> 8 \<and>
     0 \<le> sint (sr_MinDiskUsage x) \<and> 0 \<le> sint (sr_MaxDiskUsage x))"
  by (auto simp: splitCheckTell_def split: option.splits)

lemma splitCheckTell_nil [simp]: "splitCheckTell None \<noteq> None"
  by (simp add: splitCheckTell_None)

lemma root_ok_split:
  "root_ok k r \<Longrightarrow> split_ok c \<Longrightarrow> root_ok k (r\<lparr>rt_splitRootConfig := c\<rparr>)"
  by (simp add: root_ok_def naming_ok_def)

lemma result_split_params:
  assumes inv: "reg_inv st" and r: "gs_roots st k = Some r" and emit: "rgEmit g st [NewSplitRootParamsUpdated k x] = Ok evs"
    and x: "0 < sint (sp_MaxDepth x)" "sint (sp_MaxDepth x) \<le> 8" "0 < sint (sp_MinDiskUsage x)" "0 < sint (sp_MaxDiskUsage x)"
  shows "reg_result reg_trans ub mo g st evs"
  by (rule result_root [OF inv r emit pbev_root(8) [OF root_okD(2) [OF inv r] x(1,3,4)], of mo
        "\<lambda>r. r\<lparr>rt_splitRootConfig := Some \<lparr>sr_MaxDepth = sp_MaxDepth x, sr_MinDiskUsage = sp_MinDiskUsage x,
           sr_MaxDiskUsage = sp_MaxDiskUsage x\<rparr>\<rparr>"])
    (use x in \<open>simp_all add: root_ok_split [OF root_okD(1) [OF inv r]] split_ok_def\<close>)

lemma tell_CreateSplitRootConfig:
  assumes inv: "reg_inv st" and tell: "rgTellCreateSplitRootConfig g st groot c = Ok evs"
  shows "reg_result reg_trans ub mo g st evs"
proof (cases "evs = []")
  case False
  let ?k = "TrimRight groot (CHR ''/'')"
  obtain cfg r x where cfg: "c = Some cfg" "splitCheckTell c = None" and r: "gs_roots st ?k = Some r"
    and x: "x = \<lparr>sp_GlobalRoot = [],
              sp_MaxDepth = if sint (sr_MaxDepth cfg) > 0 then sr_MaxDepth cfg else 3,
              sp_MinDiskUsage = if sint (sr_MinDiskUsage cfg) > 0 then sr_MinDiskUsage cfg else 20 * 2 ^ 30,
              sp_MaxDiskUsage = if sint (sr_MaxDiskUsage cfg) > 0 then sr_MaxDiskUsage cfg else 400 * 2 ^ 30\<rparr>"
    and emit: "rgEmit g st [NewSplitRootEnabled ?k, NewSplitRootParamsUpdated ?k x] = Ok evs"
    using tell False
    by (cases c) (simp_all add: rgTellCreateSplitRootConfig_def ifError_Ok Let_def split: if_split_asm option.split_asm)
  have pos: "0 < sint (sp_MaxDepth x)" "sint (sp_MaxDepth x) \<le> 8" "0 < sint (sp_MinDiskUsage x)" "0 < sint (sp_MaxDiskUsage x)"
    using cfg by (simp_all add: x splitCheckTell_None)
  note ok = root_okD [OF inv r]
  define r' where "r' = r\<lparr>rt_splitRootConfig := Some \<lparr>sr_MaxDepth = sp_MaxDepth x, sr_MinDiskUsage = sp_MinDiskUsage x,
      sr_MaxDiskUsage = sp_MaxDiskUsage x\<rparr>\<rparr>"
  have "root_ok ?k r'" unfolding r'_def by (rule root_ok_split [OF ok(1)]) (use pos in \<open>simp add: split_ok_def\<close>)
  note trans = reg_trans_root [OF inv r this]
  define st1 where "st1 = st\<lparr>gs_roots := (gs_roots st)(?k \<mapsto> r\<lparr>rt_splitRootConfig :=
      Some \<lparr>sr_MaxDepth = 0, sr_MinDiskUsage = 0, sr_MaxDiskUsage = 0\<rparr>\<rparr>)\<rparr>"
  have "regAdvanceEv mo st (RvSplitRootEnabled ?k) = Ok st1" by (simp add: updateRoot_def r st1_def)
  moreover have "gs_roots st1 ?k = Some (r\<lparr>rt_splitRootConfig := Some \<lparr>sr_MaxDepth = 0, sr_MinDiskUsage = 0, sr_MaxDiskUsage = 0\<rparr>\<rparr>)"
    by (simp add: st1_def)
  then have "regAdvanceEv mo st1 (RvSplitRootParamsUpdated (x\<lparr>sp_GlobalRoot := ?k\<rparr>)) = Ok (st\<lparr>gs_roots := (gs_roots st)(?k \<mapsto> r')\<rparr>)"
    by (simp add: updateRoot_def r'_def) (simp add: st1_def)
  ultimately show ?thesis
    by (rule reg_result_trans2 [OF emit pbev_root(6) [OF ok(2)] pbev_root(8) [OF ok(2) pos(1,3,4)] _ _ trans])
qed (simp add: reg_result_Nil inv)

lemma pickParam_pos: "0 < sint old \<Longrightarrow> 0 < sint (pickParam new old)"
  by (simp add: pickParam_def)

lemma tell_UpdateSplitRootConfig:
  assumes inv: "reg_inv st" and tell: "rgTellUpdateSplitRootConfig g st groot c = Ok evs"
  shows "reg_result reg_trans ub mo g st evs"
proof (cases "evs = []")
  case False
  let ?k = "TrimRight groot (CHR ''/'')"
  obtain cfg r old where cfg: "c = Some cfg" "splitCheckTell c = None" and r: "gs_roots st ?k = Some r"
    and old: "rt_splitRootConfig r = Some old"
    and emit: "rgEmit g st [NewSplitRootParamsUpdated ?k \<lparr>sp_GlobalRoot = [], sp_MaxDepth = pickParam (sr_MaxDepth cfg) (sr_MaxDepth old),
      sp_MinDiskUsage = pickParam (sr_MinDiskUsage cfg) (sr_MinDiskUsage old),
      sp_MaxDiskUsage = pickParam (sr_MaxDiskUsage cfg) (sr_MaxDiskUsage old)\<rparr>] = Ok evs"
    using tell False
    by (cases c) (simp_all add: rgTellUpdateSplitRootConfig_def ifError_Ok Let_def split: if_split_asm option.split_asm)
  have "split_ok (Some old)" using root_okD(1) [OF inv r] old by (simp add: root_ok_def)
  then show ?thesis
    using cfg by (intro result_split_params [OF inv r emit]) (auto simp: split_ok_def pickParam_pos splitCheckTell_None pickParam_def)
qed (simp add: reg_result_Nil inv)

lemma tell_DeleteSplitRootConfig:
  assumes inv: "reg_inv st" and tell: "rgTellDeleteSplitRootConfig g st groot = Ok evs"
  shows "reg_result reg_trans ub mo g st evs"
proof -
  let ?k = "TrimRight groot (CHR ''/'')"
  obtain r where r: "gs_roots st ?k = Some r" and emit: "rgEmit g st [NewSplitRootDisabled ?k] = Ok evs"
    using tell by (auto simp: rgTellDeleteSplitRootConfig_def Let_def split: if_splits option.splits)
  show ?thesis
    by (rule result_root [OF inv r emit pbev_root(7) [OF root_okD(2) [OF inv r]], of mo "\<lambda>r. r\<lparr>rt_splitRootConfig := None\<rparr>"])
      (simp_all add: root_ok_split [OF root_okD(1) [OF inv r]] split_ok_def)
qed

section \<open>Storage of repos\<close>

text \<open>An event for a known repo that changes neither its name nor its id.\<close>

lemma result_repo:
  assumes inv: "reg_inv st" and r: "gs_reposById st i = Some r" and emit: "rgEmit g st [p] = Ok evs"
    and msg: "reg_pb_ev ub p e" and adv: "regAdvanceEv mo st e = updateRepo st i f"
    and same: "gi_Id (f r) = gi_Id r" "gi_GlobalPath (f r) = gi_GlobalPath r"
    and ok: "regRepo_ok (f r)" and leaf: "idx_ok st \<longrightarrow> immutable (f r) \<longrightarrow> immutable r \<or> leaf_in (gs_reposById st) r"
    and step: "storage_stays (storage_abs (gi_StorageTier r) (gi_storageWorkflowId r))
      (storage_abs (gi_StorageTier (f r)) (gi_storageWorkflowId (f r)))"
  shows "reg_result reg_trans ub mo g st evs"
  by (rule reg_result_trans [OF emit msg _ reg_trans_repo [OF inv r same ok leaf step]]) (simp add: adv updateRepo_def r)

lemma result_storage:
  assumes inv: "reg_inv st" and r: "gs_reposById st i = Some r" and emit: "rgEmit g st [p] = Ok evs"
    and msg: "reg_pb_ev ub p e"
    and adv: "regAdvanceEv mo st e = updateRepo st i (\<lambda>r. r\<lparr>gi_StorageTier := t, gi_storageWorkflowId := w\<rparr>)"
    and tiers: "gi_StorageTier r \<noteq> StorageTierUnspecified" "t \<noteq> StorageTierUnspecified" "busy t \<longrightarrow> w \<noteq> uuidNil"
    and leaf: "idx_ok st \<longrightarrow> gi_StorageTier r = StorageOnline \<longrightarrow> leaf_in (gs_reposById st) r"
    and step: "storage_step (storage_abs (gi_StorageTier r) (gi_storageWorkflowId r)) (storage_abs t w)"
  shows "reg_result reg_trans ub mo g st evs"
  by (rule result_repo [OF inv r emit msg adv])
    (use reg_invD(5) [OF inv r] tiers leaf step in \<open>auto simp: regRepo_ok_def immutable_def storage_stays_def\<close>)

lemma result_completed:
  assumes inv: "reg_inv st" and r: "gs_reposById st i = Some r" and emit: "rgEmit g st [p] = Ok evs"
    and msg: "reg_pb_ev ub p e" and adv: "regAdvanceEv mo st e = updateRepo st i (\<lambda>r. r\<lparr>gi_StorageTier := t\<rparr>)"
    and tiers: "busy (gi_StorageTier r)" "t \<noteq> StorageTierUnspecified" "\<not> busy t"
    and step: "storage_step (storage_abs (gi_StorageTier r) (gi_storageWorkflowId r)) (storage_abs t (gi_storageWorkflowId r))"
  shows "reg_result reg_trans ub mo g st evs"
  by (rule result_repo [OF inv r emit msg adv])
    (use reg_invD(5) [OF inv r] tiers step in \<open>auto simp: regRepo_ok_def immutable_def storage_stays_def\<close>)

text \<open>\<open>ReposPrefix()\<close> of a repo that has no others below.\<close>

lemma length_map_filter: "length (List.map_filter f xs) = length (filter (\<lambda>x. f x \<noteq> None) xs)"
  by (induction xs) (auto simp: List.map_filter_def)

lemma leaf_ReposPrefix:
  assumes inv: "reg_inv st" and idx: "idx_ok st" and mo: "map_orders mo" and r: "gs_reposById st i = Some r"
  shows "length (ReposPrefix mo st (gi_GlobalPath r)) = 1 \<longleftrightarrow> leaf_in (gs_reposById st) r"
proof -
  let ?N = "gs_reposByName st" and ?p = "gi_GlobalPath r"
  let ?S = "{p \<in> dom ?N. pathIsEqualOrBelowPrefix p ?p}"
  have fin: "finite (dom ?N)" using reg_invD(2) [OF inv] by (simp add: regRepos_ok_def)
  then have ks: "set (rangeRepos mo ?N) = dom ?N" "distinct (rangeRepos mo ?N)" using mo by (auto simp: map_orders_def)
  have "length (ReposPrefix mo st ?p) =
      length (filter (\<lambda>p. (if pathIsEqualOrBelowPrefix p ?p then ?N p else None) \<noteq> None) (rangeRepos mo ?N))"
    by (simp add: ReposPrefix_def length_map_filter)
  also have "\<dots> = card (set (filter (\<lambda>p. (if pathIsEqualOrBelowPrefix p ?p then ?N p else None) \<noteq> None) (rangeRepos mo ?N)))"
    using ks(2) by (simp only: distinct_card distinct_filter)
  also have "set (filter (\<lambda>p. (if pathIsEqualOrBelowPrefix p ?p then ?N p else None) \<noteq> None) (rangeRepos mo ?N)) = ?S"
    using ks(1) by auto
  finally have len: "length (ReposPrefix mo st ?p) = card ?S" .
  have self: "?p \<in> ?S" using idx_okD(1) [OF idx r] by auto
  have "card S = 1 \<longleftrightarrow> S = {x}" if "x \<in> S" for S :: "string set" and x
    using that by (auto simp: card_1_singleton_iff)
  from this [OF self] have "card ?S = 1 \<longleftrightarrow> ?S = {?p}" .
  also have "\<dots> \<longleftrightarrow> leaf_in (gs_reposById st) r"
  proof
    assume S: "?S = {?p}"
    show "leaf_in (gs_reposById st) r" unfolding leaf_in_def
    proof (intro ballI impI)
      fix q assume "q \<in> ran (gs_reposById st)" "pathIsEqualOrBelowPrefix (gi_GlobalPath q) ?p"
      then obtain j where "gs_reposById st j = Some q" by (auto simp: ran_def)
      then have q: "?N (gi_GlobalPath q) = Some q" using idx_okD(1) [OF idx] by blast
      have "gi_GlobalPath q \<in> ?S" using q \<open>pathIsEqualOrBelowPrefix (gi_GlobalPath q) ?p\<close> by (simp add: domI)
      then have "gi_GlobalPath q = ?p" unfolding S by (rule singletonD)
      then have "Some q = Some r" using q idx_okD(1) [OF idx r] by metis
      then show "gi_Id q = gi_Id r" by simp
    qed
  next
    assume leaf: "leaf_in (gs_reposById st) r"
    have "p = ?p" if "p \<in> ?S" for p
    proof -
      from that obtain q where q: "?N p = Some q" "pathIsEqualOrBelowPrefix p ?p" by blast
      note d = idx_okD(2) [OF idx q(1)]
      then have "gi_Id q = gi_Id r" using leaf q(2) unfolding leaf_in_def by (metis ranI)
      then show ?thesis using d r idx_okD(1) [OF idx r] by (metis option.inject)
    qed
    then show "?S = {?p}" using self by blast
  qed
  finally show ?thesis by (simp add: len)
qed

lemma mayFreeze_leaf:
  "reg_inv st \<Longrightarrow> idx_ok st \<Longrightarrow> map_orders mo \<Longrightarrow> gs_reposById st i = Some r \<Longrightarrow> fst (mayFreezeRepoInfo mo st r) \<Longrightarrow> leaf_in (gs_reposById st) r"
  using leaf_ReposPrefix [of st mo i r] by (auto simp: mayFreezeRepoInfo_def split: if_splits)

lemma tell_begin:
  assumes inv: "reg_inv st" and mo: "map_orders mo" and w: "w \<noteq> 0"
  shows "rgTellBeginFreezeRepo mo g st i w = Ok evs \<Longrightarrow> reg_result reg_trans ub mo g st evs"
    and "rgTellBeginUnfreezeRepo g st i w = Ok evs \<Longrightarrow> reg_result reg_trans ub mo g st evs"
    and "rgTellBeginArchiveRepo mo g st i w = Ok evs \<Longrightarrow> reg_result reg_trans ub mo g st evs"
    and "rgTellBeginUnarchiveRepo mo g st i w = Ok evs \<Longrightarrow> reg_result reg_trans ub mo g st evs"
  using reg_result_Nil [OF inv] w
  by (auto simp: rgTellBeginFreezeRepo_def rgTellBeginUnfreezeRepo_def rgTellBeginArchiveRepo_def rgTellBeginUnarchiveRepo_def
      outcome_simps split: if_splits option.splits)
    ((rule result_storage [OF inv _ _ pbev_storage(1) regAdvanceEv.simps(24)]
       result_storage [OF inv _ _ pbev_storage(4) regAdvanceEv.simps(26)]
       result_storage [OF inv _ _ pbev_storage(7) regAdvanceEv.simps(28)]
       result_storage [OF inv _ _ pbev_storage(10) regAdvanceEv.simps(30)], assumption, assumption, assumption;
      simp add: storage_steps mayFreeze_leaf [OF inv _ mo])+)

text \<open>A workflow id is not nil while an operation runs.\<close>

lemma busy_workflow: "reg_inv st \<Longrightarrow> gs_reposById st i = Some r \<Longrightarrow> busy (gi_StorageTier r) \<Longrightarrow> gi_storageWorkflowId r \<noteq> 0"
  using reg_invD(5) by (auto simp: regRepo_ok_def)

lemma tell_commit:
  assumes inv: "reg_inv st"
  shows "rgTellCommitFreezeRepo g st i w = Ok evs \<Longrightarrow> reg_result reg_trans ub mo g st evs"
    and "rgTellCommitUnfreezeRepo g st i w = Ok evs \<Longrightarrow> reg_result reg_trans ub mo g st evs"
    and "rgTellCommitArchiveRepo g st i w = Ok evs \<Longrightarrow> reg_result reg_trans ub mo g st evs"
    and "rgTellCommitUnarchiveRepo g st i w = Ok evs \<Longrightarrow> reg_result reg_trans ub mo g st evs"
  using reg_result_Nil [OF inv]
  by (auto simp: rgTellCommitFreezeRepo_def rgTellCommitUnfreezeRepo_def rgTellCommitArchiveRepo_def
      rgTellCommitUnarchiveRepo_def outcome_simps split: if_splits option.splits)
    ((rule result_completed [OF inv _ _ pbev_storage(2) regAdvanceEv.simps(25)]
       result_completed [OF inv _ _ pbev_storage(5) regAdvanceEv.simps(27)]
       result_completed [OF inv _ _ pbev_storage(8) regAdvanceEv.simps(29)]
       result_completed [OF inv _ _ pbev_storage(11) regAdvanceEv.simps(31)], assumption, assumption, assumption;
      simp add: storage_steps)+)

lemma tell_abort:
  assumes inv: "reg_inv st" and code: "code \<noteq> 0"
  shows "rgTellAbortFreezeRepo g st i w code = Ok evs \<Longrightarrow> reg_result reg_trans ub mo g st evs"
    and "rgTellAbortUnfreezeRepo g st i w code = Ok evs \<Longrightarrow> reg_result reg_trans ub mo g st evs"
    and "rgTellAbortArchiveRepo g st i w code = Ok evs \<Longrightarrow> reg_result reg_trans ub mo g st evs"
    and "rgTellAbortUnarchiveRepo g st i w code = Ok evs \<Longrightarrow> reg_result reg_trans ub mo g st evs"
  using reg_result_Nil [OF inv]
  by (auto simp: rgTellAbortFreezeRepo_def rgTellAbortUnfreezeRepo_def rgTellAbortArchiveRepo_def
      rgTellAbortUnarchiveRepo_def outcome_simps split: if_splits option.splits)
    ((rule result_completed [OF inv _ _ pbev_storage(3) regAdvanceEv.simps(25)]
       result_completed [OF inv _ _ pbev_storage(6) regAdvanceEv.simps(27)]
       result_completed [OF inv _ _ pbev_storage(9) regAdvanceEv.simps(29)]
       result_completed [OF inv _ _ pbev_storage(12) regAdvanceEv.simps(31)], assumption, assumption, assumption;
      simp add: storage_steps code)+)

section \<open>Repos\<close>

lemma result_same_storage:
  assumes inv: "reg_inv st" and r: "gs_reposById st i = Some r" and emit: "rgEmit g st [p] = Ok evs"
    and msg: "reg_pb_ev ub p e" and adv: "regAdvanceEv mo st e = updateRepo st i f"
    and same: "gi_Id (f r) = gi_Id r" "gi_GlobalPath (f r) = gi_GlobalPath r" "gi_StorageTier (f r) = gi_StorageTier r"
      "gi_storageWorkflowId (f r) = gi_storageWorkflowId r"
    and ok: "regRepo_ok (f r)"
  shows "reg_result reg_trans ub mo g st evs"
  by (rule result_repo [OF inv r emit msg adv]) (simp_all add: same ok immutable_def)

lemma regRepo_ok_frame [simp]:
  "regRepo_ok (r\<lparr>gi_ReinitReason := x\<rparr>) = regRepo_ok r" "regRepo_ok (r\<lparr>gi_GitlabNamespace := x\<rparr>) = regRepo_ok r"
  "regRepo_ok (r\<lparr>gi_lastRepoEventId := e\<rparr>) = regRepo_ok r"
  by (simp_all add: regRepo_ok_def)

lemma regRepo_ok_moving:
  "regRepo_ok r \<Longrightarrow> gi_Confirmed r \<Longrightarrow> cleanAbs p \<Longrightarrow> regRepo_ok (r\<lparr>gi_moveRepoWorkflow := w, gi_newGlobalPath := p\<rparr>)"
  "regRepo_ok r \<Longrightarrow> cleanAbs p \<Longrightarrow> regRepo_ok (r\<lparr>gi_GlobalPath := p, gi_newGlobalPath := []\<rparr>)"
  by (auto simp: regRepo_ok_def)

lemma regRepo_ok_confirmed:
  "regRepo_ok r \<Longrightarrow> regRepo_ok (r\<lparr>gi_Confirmed := True, gi_StorageTier := StorageOnline\<rparr>)"
  by (simp add: regRepo_ok_def)

lemma reg_repo_id: "reg_inv st \<Longrightarrow> gs_reposById st i = Some r \<Longrightarrow> gi_Id r = i"
  by (simp add: reg_invD(5))

lemma tell_ReinitRepo:
  assumes inv: "reg_inv st" and tell: "rgTellReinitRepo g st i reason = Ok evs"
  shows "reg_result reg_trans ub mo g st evs"
proof -
  obtain r where r: "gs_reposById st i = Some r"
      and emit: "rgEmit g st [NewRepoReinitAccepted (idBytes (gi_Id r)) (gi_GlobalPath r) reason] = Ok evs"
    using tell by (auto simp: rgTellReinitRepo_def split: if_splits option.splits)
  show ?thesis
    by (rule result_same_storage [OF inv r emit pbev_repo(3), of mo "\<lambda>r. r\<lparr>gi_ReinitReason := reason\<rparr>"])
      (use reg_invD(5) [OF inv r] in \<open>simp_all add: uuidOrPanic_def\<close>)
qed

lemma tell_EnableGitlabRepo:
  assumes inv: "reg_inv st" and tell: "rgTellEnableGitlabRepo g st i ns = Ok evs"
  shows "reg_result reg_trans ub mo g st evs"
proof (cases "evs = []")
  case False
  let ?ns = "TrimRight ns (CHR ''/'')"
  obtain r where r: "gs_reposById st i = Some r" and emit: "rgEmit g st [NewRepoEnableGitlabAccepted (gi_Id r) ?ns] = Ok evs"
    using tell False by (auto simp: rgTellEnableGitlabRepo_def Let_def split: if_splits option.splits)
  show ?thesis
    by (rule result_same_storage [OF inv r emit pbev_repo(5), of mo "\<lambda>r. r\<lparr>gi_GitlabNamespace := ?ns\<rparr>"])
      (use reg_invD(5) [OF inv r] in simp_all)
qed (simp add: reg_result_Nil inv)

lemma tell_PostShadowRepoMoveStarted:
  assumes inv: "reg_inv st" and ub: "ulid_binary ub" and tell: "rgTellPostShadowRepoMoveStarted g st i ev w = Ok evs"
  shows "reg_result reg_trans ub mo g st evs"
proof -
  obtain r where r: "gs_reposById st i = Some r" and emit: "rgEmit g st [rgNewShadowRepoMoveStarted i ev w] = Ok evs"
    using tell by (auto simp: rgTellPostShadowRepoMoveStarted_def split: if_splits option.splits)
  show ?thesis
    by (rule result_same_storage [OF inv r emit pbev_repo(6) [OF ub], of mo "\<lambda>r. r\<lparr>gi_lastRepoEventId := ev\<rparr>"])
      (use reg_invD(5) [OF inv r] in simp_all)
qed

lemma tell_ConfirmRepo:
  assumes inv: "reg_inv st" and tell: "rgTellConfirmRepo g st i ev = Ok evs"
  shows "reg_result reg_trans ub mo g st evs"
proof (cases "evs = []")
  case False
  obtain r where r: "gs_reposById st i = Some r" and new: "\<not> gi_Confirmed r"
      and emit: "rgEmit g st [NewRepoAdded (idBytes (gi_Id r)) (gi_GlobalPath r) ev] = Ok evs"
    using tell False by (auto simp: rgTellConfirmRepo_def split: if_splits option.splits)
  note d = reg_invD(5) [OF inv r]
  have t: "gi_StorageTier r = StorageTierUnspecified" using d new by (auto simp: regRepo_ok_def)
  show ?thesis
    by (rule result_repo [OF inv r emit pbev_repo(2), of mo "\<lambda>r. r\<lparr>gi_Confirmed := True, gi_StorageTier := StorageOnline\<rparr>"])
      (use d t in \<open>simp_all add: regRepo_ok_confirmed uuidOrPanic_def repoInfoPb_def immutable_def storage_stays_def storage_steps\<close>)
qed (simp add: reg_result_Nil inv)

lemma tell_BeginMoveRepo:
  assumes inv: "reg_inv st" and pre: "cleanAbs (TrimRight p (CHR ''/''))"
    and tell: "rgTellBeginMoveRepo mo prec g st i w p u = Ok evs"
  shows "reg_result reg_trans ub mo g st evs"
proof -
  let ?p = "TrimRight p (CHR ''/'')"
  obtain r where r: "gs_reposById st i = Some r" and conf: "gi_Confirmed r"
      and emit: "rgEmit g st [NewPbRepoMoveAccepted (gi_Id r) w ?p] = Ok evs"
    using tell by (auto simp: rgTellBeginMoveRepo_def onError_def Let_def split: if_splits option.splits sum.splits)
  show ?thesis
    by (rule result_same_storage [OF inv r emit pbev_repo(4), of mo "\<lambda>r. r\<lparr>gi_moveRepoWorkflow := w, gi_newGlobalPath := ?p\<rparr>"])
      (use reg_invD(5) [OF inv r] pre conf in \<open>simp_all add: regRepo_ok_moving\<close>)
qed

text \<open>A move changes the key of a repo in one index.\<close>

lemma move_index:
  assumes inv: "reg_inv st" and idx: "idx_ok st" and r: "gs_reposById st i = Some r"
    and new: "gi_Id r' = i" "gi_GlobalPath r' = p"
  shows "idx_ok (putRepo (st\<lparr>gs_reposByName := (gs_reposByName st)(gi_GlobalPath r := None)\<rparr>) r') \<longleftrightarrow> path_free (gs_reposById st) i p"
    (is "?ok \<longleftrightarrow> ?free")
proof
  let ?M = "gs_reposById st" and ?N = "gs_reposByName st"
  have id: "gi_Id r = i" using reg_invD(5) [OF inv r] by simp
  show ?free if ok: ?ok unfolding path_free_def
  proof (intro ballI impI notI)
    fix q assume q: "q \<in> ran ?M" "gi_Id q \<noteq> i" "gi_GlobalPath q = p"
    then have "?M (gi_Id q) = Some q" using reg_invD(5) [OF inv] by (auto simp: ran_def)
    then have "(?M(i \<mapsto> r')) (gi_Id q) = Some q" using q(2) by simp
    then have "((?N(gi_GlobalPath r := None))(p \<mapsto> r')) p = Some q"
      using idx_okD(1) [OF ok, of "gi_Id q" q] q(3) new by (simp add: putRepo_def)
    then show False using new(1) q(2) by simp
  qed
  show ?ok if free: ?free
  proof -
    have "index_ok gi_GlobalPath gi_Id (?N(gi_GlobalPath r := None)) (?M(i := None))"
      using index_ok_del [of gi_GlobalPath gi_Id ?N ?M r] idx r id by (simp add: idx_ok_def)
    moreover have "(?N(gi_GlobalPath r := None)) p = None"
    proof (rule ccontr)
      assume "(?N(gi_GlobalPath r := None)) p \<noteq> None"
      then obtain q where q: "?N p = Some q" "p \<noteq> gi_GlobalPath r" by (auto split: if_splits)
      then have qd: "gi_GlobalPath q = p" "?M (gi_Id q) = Some q" using idx_okD(2) [OF idx q(1)] by auto
      then have "gi_Id q = i" using free ranI [of ?M "gi_Id q" q] unfolding path_free_def by blast
      then show False using qd r q(2) by simp
    qed
    ultimately have "index_ok gi_GlobalPath gi_Id ((?N(gi_GlobalPath r := None))(p \<mapsto> r')) ((?M(i := None))(i \<mapsto> r'))"
      using index_ok_put [of gi_GlobalPath gi_Id "?N(gi_GlobalPath r := None)" "?M(i := None)" r'] new by simp
    then show ?ok using new by (simp add: idx_ok_def putRepo_def)
  qed
qed

lemma move_leaves:
  assumes inv: "reg_inv st" and leaves: "leaves_ok (gs_reposById st)" and r: "gs_reposById st i = Some r"
    and new: "gi_Id r' = i" "gi_GlobalPath r' = p" "immutable r' = immutable r"
  shows "leaves_ok ((gs_reposById st)(i \<mapsto> r')) \<longleftrightarrow> move_apart (gs_reposById st) i p" (is "?ok \<longleftrightarrow> ?apart")
proof
  let ?M = "gs_reposById st"
  have id: "q \<in> ran ?M \<Longrightarrow> ?M (gi_Id q) = Some q" for q using reg_invD(5) [OF inv] by (auto simp: ran_def)
  have r'in: "r' \<in> ran (?M(i \<mapsto> r'))" by (simp add: ran_def) blast
  have keep: "q \<in> ran (?M(i \<mapsto> r'))" if "q \<in> ran ?M" "gi_Id q \<noteq> i" for q
    using id [OF that(1)] that(2) by (auto simp: ran_def)
  show ?apart if ok: ?ok unfolding move_apart_def
  proof (intro ballI impI conjI allI notI)
    fix q assume q: "q \<in> ran ?M" "gi_Id q \<noteq> i" "immutable q" "pathIsEqualOrBelowPrefix p (gi_GlobalPath q)"
    then show False using leaves_okD [OF ok keep [OF q(1,2)] q(3) r'in] new(1,2) by simp
  next
    fix q x assume q: "q \<in> ran ?M" "gi_Id q \<noteq> i" "?M i = Some x" "immutable x" "pathIsEqualOrBelowPrefix (gi_GlobalPath q) p"
    then have "immutable r'" using r new(3) by simp
    then show False using leaves_okD [OF ok r'in _ keep [OF q(1,2)]] new(1,2) q(2,5) by simp
  qed
  have ran: "q \<in> ran (?M(i \<mapsto> r')) \<Longrightarrow> q = r' \<or> q \<in> ran ?M \<and> gi_Id q \<noteq> i" for q
    using reg_invD(5) [OF inv] by (auto simp: ran_def split: if_splits)
  show ?ok if apart: ?apart unfolding leaves_ok_def leaf_in_def
  proof (intro ballI impI)
    fix x y assume x: "x \<in> ran (?M(i \<mapsto> r'))" "immutable x" and y: "y \<in> ran (?M(i \<mapsto> r'))"
      and below: "pathIsEqualOrBelowPrefix (gi_GlobalPath y) (gi_GlobalPath x)"
    consider "x = r'" "y = r'" | "x = r'" "y \<in> ran ?M" "gi_Id y \<noteq> i" | "x \<in> ran ?M" "gi_Id x \<noteq> i" "y = r'"
      | "x \<in> ran ?M" "y \<in> ran ?M" using ran [OF x(1)] ran [OF y] by blast
    then show "gi_Id y = gi_Id x"
    proof cases
      case 2
      then show ?thesis using apart r x(2) below new by (auto simp: move_apart_def)
    next
      case 3
      then show ?thesis using apart x(2) below new by (auto simp: move_apart_def)
    next
      case 4
      show ?thesis by (rule leaves_okD [OF leaves 4(1) x(2) 4(2) below])
    qed simp
  qed
qed

lemma tell_CommitMoveRepo:
  assumes inv: "reg_inv st" and ub: "ulid_binary ub" and tell: "rgTellCommitMoveRepo g st i w ev p = Ok evs"
  shows "reg_result (move_trans i p) ub mo g st evs"
proof -
  obtain r where r: "gs_reposById st i = Some r" and w: "w = gi_moveRepoWorkflow r" and p: "p = gi_newGlobalPath r" "p \<noteq> []"
      and emit: "rgEmit g st [rgNewPbRepoMoved (gi_Id r) ev w p] = Ok evs"
    using tell by (auto simp: rgTellCommitMoveRepo_def hasActiveMoveRepo_def split: if_splits option.splits)
  let ?st = "st\<lparr>gs_reposByName := (gs_reposByName st)(gi_GlobalPath r := None)\<rparr>"
  define r' where "r' = r\<lparr>gi_GlobalPath := p, gi_newGlobalPath := []\<rparr>"
  note d = reg_invD(5) [OF inv r]
  have clean: "cleanAbs p" using d p by (auto simp: regRepo_ok_def)
  then have ok: "regRepo_ok r'" using d by (simp add: r'_def regRepo_ok_moving)
  have new: "gi_Id r' = i" "gi_GlobalPath r' = p" "immutable r' = immutable r"
    "storage_abs (gi_StorageTier r') (gi_storageWorkflowId r') = storage_abs (gi_StorageTier r) (gi_storageWorkflowId r)"
    using d by (simp_all add: r'_def immutable_def)
  have "reg_inv ?st" using inv d by (auto simp: reg_inv_def regRepos_ok_def)
  then have "reg_frame ?st (putRepo ?st r')" by (rule putRepo_frame [OF _ _ new(1) ok]) (use d in simp)
  then have "reg_frame st (putRepo ?st r')" by (simp add: reg_frame_def)
  moreover have "rgStorage (putRepo ?st r') j = rgStorage st j" for j
    using r new(1,4) by (simp add: rgStorage_def putRepo_def)
  ultimately have trans: "move_trans i p st (putRepo ?st r')"
    using move_index [OF inv _ r new(1,2)] move_leaves [OF inv _ r new(1-3)] by (simp add: move_trans_def) (simp add: putRepo_def new)
  show ?thesis
    by (rule reg_result_emit [where R = "move_trans i p", OF emit pbev_repo(7) [OF ub] _ trans]) (use r w p d in \<open>simp add: r'_def\<close>)
qed

text \<open>A repo that is not online has no new repo below it, because it would be the parent.\<close>

lemma findParent_total:
  assumes "cleanAbs p"
  shows "\<exists>res. findParentRepo N p = Some res"
proof -
  obtain cs where cs: "list_all valid_comp cs" "cs \<noteq> []" "p = absPath cs" using assms cleanAbs_iff by blast
  then show ?thesis using findParent_clean [OF cs(1), of N] by auto
qed

lemma parent_online:
  assumes inv: "reg_inv st" and idx: "idx_ok st" and leaves: "leaves_ok (gs_reposById st)" and p: "cleanAbs p" and parent: "findParentRepo (gs_reposByName st) p = Some res"
    and online: "\<And>q. res = Some q \<Longrightarrow> gi_StorageTier q = StorageOnline"
    and x: "gs_reposById st i = Some x" "immutable x"
  shows "\<not> pathIsEqualOrBelowPrefix p (gi_GlobalPath x)"
proof
  assume below: "pathIsEqualOrBelowPrefix p (gi_GlobalPath x)"
  let ?N = "gs_reposByName st"
  note d = reg_invD(5) [OF inv x(1)]
  obtain cs where cs: "list_all valid_comp cs" "cs \<noteq> []" "p = absPath cs" using p cleanAbs_iff by blast
  obtain ds where ds: "list_all valid_comp ds" "ds \<noteq> []" "gi_GlobalPath x = absPath ds"
    using d cleanAbs_iff by (auto simp: regRepo_ok_def)
  have pre: "prefix ds cs" using below below_absPath [OF cs(1) ds(1,2)] cs(3) ds(3) by simp
  have Nx: "?N (absPath ds) = Some x" using idx_okD(1) [OF idx x(1)] ds(3) by simp
  obtain q es where q: "res = Some q" "es \<noteq> []" "prefix es cs" "?N (absPath es) = Some q"
      "\<forall>fs. prefix es fs \<longrightarrow> prefix fs cs \<longrightarrow> fs \<noteq> es \<longrightarrow> ?N (absPath fs) = None"
  proof -
    obtain res' where "findParentRepo ?N (absPath cs) = Some res'" and c: "case res' of
       None \<Rightarrow> \<forall>ds. ds \<noteq> [] \<longrightarrow> prefix ds cs \<longrightarrow> ?N (absPath ds) = None
     | Some r \<Rightarrow> \<exists>ds. ds \<noteq> [] \<and> prefix ds cs \<and> ?N (absPath ds) = Some r \<and>
         (\<forall>es. prefix ds es \<longrightarrow> prefix es cs \<longrightarrow> es \<noteq> ds \<longrightarrow> ?N (absPath es) = None)"
      using findParent_clean [OF cs(1), of ?N] cs(2) by (auto simp del: absPath_simps)
    moreover have "res' = res" using calculation(1) parent cs(3) by simp
    moreover have "res \<noteq> None"
    proof
      assume "res = None"
      then have "?N (absPath ds) = None" using c \<open>res' = res\<close> ds(2) pre by simp
      then show False using Nx by simp
    qed
    ultimately show thesis using that by auto
  qed
  have "prefix ds es \<or> prefix es ds" using pre q(3) prefix_same_cases by blast
  then have "prefix ds es"
  proof
    assume "prefix es ds"
    then have "es = ds" using q(5) pre Nx by fastforce
    then show ?thesis by simp
  qed
  have vq: "list_all valid_comp es" using cs(1) q(3) by (auto simp: prefix_def)
  note e = idx_okD(2) [OF idx q(4)]
  then have "pathIsEqualOrBelowPrefix (gi_GlobalPath q) (gi_GlobalPath x)"
    using below_absPath [OF vq ds(1,2)] ds(3) \<open>prefix ds es\<close> by simp
  moreover have "leaf_in (gs_reposById st) x"
    using leaves x ranI [of "gs_reposById st" i x] by (auto simp: leaves_ok_def)
  ultimately have "gi_Id q = gi_Id x" using e ranI [of "gs_reposById st" "gi_Id q" q] by (auto simp: leaf_in_def)
  then have "q = x" using e idx_okD(1) [OF idx x(1)] x(1) by (metis option.inject)
  then show False using online [OF q(1)] x(2) by (simp add: immutable_def)
qed

lemma tell_InitRepo:
  assumes inv: "reg_inv st" and id: "gc_Id c \<noteq> 0" and clean: "cleanAbs (TrimRight (gc_GlobalPath c) (CHR ''/''))"
    and tell: "rgTellInitRepo mo prec g st c = Ok evs"
  shows "reg_result (init_trans (gc_Id c)) ub mo g st evs"
proof -
  let ?p = "TrimRight (gc_GlobalPath c) (CHR ''/'')" and ?i = "gc_Id c"
  let ?x = "repoInfoPb (idBytes ?i) ?p\<lparr>fi_CreatorName := gc_CreatorName c, fi_CreatorEmail := gc_CreatorEmail c\<rparr>"
  let ?M = "gs_reposById st" and ?N = "gs_reposByName st"
  obtain r res where i: "gs_info st \<noteq> None" and new: "?N ?p = None" and r: "findRootStateForRepo mo (gs_roots st) ?p = Some r"
    and parent: "findParentRepo ?N ?p = Some res" and online: "\<And>q. res = Some q \<Longrightarrow> gi_StorageTier q = StorageOnline"
    and emit: "rgEmit g st [NewRepoAccepted ?x] = Ok evs"
    using tell
    by (auto simp: rgTellInitRepo_def Let_def onError_def outcome_simps repoInfoPb_def
        split: if_split_asm option.split_asm sum.split_asm)
  define n where "n = newRepoInfo ?i ?p (ro_GitlabNamespace (rt_info r))"
  have n: "gi_Id n = ?i" "gi_GlobalPath n = ?p" "\<not> immutable n" "storage_abs (gi_StorageTier n) (gi_storageWorkflowId n) = NoStorage"
    by (simp_all add: n_def newRepoInfo_def immutable_def)
  have ok: "regRepo_ok n" using id clean by (simp add: n_def newRepoInfo_def regRepo_ok_def)
  have ran: "q \<in> ran (?M(?i \<mapsto> n)) \<Longrightarrow> q = n \<or> q \<in> ran ?M" for q by (auto simp: ran_def split: if_splits)
  have "leaves_ok (?M(?i \<mapsto> n))" if idx: "idx_ok st" and leaves: "leaves_ok ?M" unfolding leaves_ok_def leaf_in_def
  proof (intro ballI impI)
    fix x y assume x: "x \<in> ran (?M(?i \<mapsto> n))" "immutable x" and y: "y \<in> ran (?M(?i \<mapsto> n))"
      and below: "pathIsEqualOrBelowPrefix (gi_GlobalPath y) (gi_GlobalPath x)"
    have xm: "x \<in> ran ?M" using ran [OF x(1)] x(2) n(3) by auto
    then obtain j where "?M j = Some x" by (auto simp: ran_def)
    then have "\<not> pathIsEqualOrBelowPrefix ?p (gi_GlobalPath x)"
      using parent_online [OF inv idx leaves clean parent online] x(2) by blast
    then have "y \<in> ran ?M" using ran [OF y] below n(2) by auto
    then show "gi_Id y = gi_Id x" by (rule leaves_okD [OF leaves xm x(2) _ below])
  qed
  moreover have "idx_ok (putRepo st n) \<longleftrightarrow> ?M ?i = None" if idx: "idx_ok st"
  proof
    assume ok': "idx_ok (putRepo st n)"
    show "?M ?i = None"
    proof (rule ccontr)
      assume "?M ?i \<noteq> None"
      then obtain q where q: "?M ?i = Some q" by blast
      note dq = idx_okD(1) [OF idx q]
      have "gi_GlobalPath q \<noteq> ?p" using dq new by auto
      then have "gs_reposByName (putRepo st n) (gi_GlobalPath q) = Some q" using dq n(2) by (simp add: putRepo_def)
      from idx_okD(2) [OF ok' this] have "n = q" using dq n(1) by (simp add: putRepo_def)
      then show False using n(2) \<open>gi_GlobalPath q \<noteq> ?p\<close> by simp
    qed
  next
    assume "?M ?i = None"
    then show "idx_ok (putRepo st n)" using index_ok_put [of gi_GlobalPath gi_Id ?N ?M n] idx new n by (simp add: idx_ok_def putRepo_def)
  qed
  moreover have "reg_frame st (putRepo st n)" by (rule putRepo_frame [OF inv i n(1) ok])
  moreover have "rgStorage (putRepo st n) j = (if j = ?i then NoStorage else rgStorage st j)" for j
    using n(1,4) by (simp add: rgStorage_def putRepo_def)
  ultimately have trans: "init_trans ?i st (putRepo st n)" by (simp add: init_trans_def) (simp add: putRepo_def n(1))
  show ?thesis
    by (rule reg_result_emit [where R = "init_trans (gc_Id c)", OF emit pbev_repo(1) _ trans])
      (use r in \<open>simp add: uuidOrPanic_def repoInfoPb_def findRootInfoForRepo_def n_def\<close>)
qed

section \<open>All commands\<close>

lemma regTell_result:
  assumes inv: "reg_inv st" and mo: "map_orders mo" and ub: "ulid_binary ub" and pre: "reg_pre st c"
    and tell: "regTell mo prec g st c = Ok evs"
  shows "reg_result (reg_step c) ub mo g st evs"
  using pre tell
  by (cases c)
    (auto simp: reg_step_def intro: tell_InitRegistry [OF inv] tell_EnableEphemeralWorkflows [OF inv] tell_EnablePropagateRootAcls [OF inv]
      tell_InitRoot [OF inv] tell_RemoveRoot [OF inv] tell_EnableGitlab [OF inv] tell_DisableGitlab [OF inv]
      tell_SetRepoNaming [OF inv] tell_PatchRepoNaming [OF inv mo] tell_EnableDiscoveryPaths [OF inv mo]
      tell_SetRepoInitPolicy [OF inv] tell_Recipients [OF inv] tell_InitRepo [OF inv] tell_ReinitRepo [OF inv]
      tell_EnableGitlabRepo [OF inv] tell_ConfirmRepo [OF inv] tell_BeginMoveRepo [OF inv] tell_CommitMoveRepo [OF inv ub]
      tell_PostShadowRepoMoveStarted [OF inv ub] tell_CreateSplitRootConfig [OF inv] tell_UpdateSplitRootConfig [OF inv]
      tell_DeleteSplitRootConfig [OF inv] tell_SetPathFlags [OF inv] tell_UnsetPathFlags [OF inv]
      tell_begin [OF inv mo] tell_commit [OF inv] tell_abort [OF inv])

text \<open>No panic.\<close>

lemma ifError_no_panic: "\<not> is_Panic (ifError x k) \<longleftrightarrow> (x = None \<longrightarrow> \<not> is_Panic k)"
  by (cases x) simp_all

lemma deref_no_panic: "\<not> is_Panic (deref x k) \<longleftrightarrow> (\<exists>y. x = Some y \<and> \<not> is_Panic (k y))"
  by (cases x) (simp_all add: deref_def)

lemma New_keys_no_panic:
  "rgCheckTellKeys ks = None \<Longrightarrow> \<not> is_Panic (NewRootArchiveRecipientsUpdated k (Bytes ks))"
  "rgCheckTellKeys ks = None \<Longrightarrow> \<not> is_Panic (NewRootShadowBackupRecipientsUpdated k (Bytes ks))"
  "\<not> is_Panic (NewRootArchiveRecipientsUpdated k [])" "\<not> is_Panic (NewRootShadowBackupRecipientsUpdated k [])"
  using checkGPG_Bytes [of ks]
  by (auto simp: NewRootArchiveRecipientsUpdated_def NewRootShadowBackupRecipientsUpdated_def rgCheckTellKeys_def
      split: if_splits option.splits)

lemma New_storage_no_panic:
  assumes "i \<noteq> 0" and "w \<noteq> 0"
  shows "\<not> is_Panic (rgNewFreezeRepoStarted2 i w)" "\<not> is_Panic (rgNewFreezeRepoCompleted2Ok i w)"
    "\<not> is_Panic (rgNewUnfreezeRepoStarted2 i w)" "\<not> is_Panic (rgNewUnfreezeRepoCompleted2Ok i w)"
    "\<not> is_Panic (rgNewArchiveRepoStarted i w)" "\<not> is_Panic (rgNewArchiveRepoCompletedOk i w)"
    "\<not> is_Panic (rgNewUnarchiveRepoStarted i w)" "\<not> is_Panic (rgNewUnarchiveRepoCompletedOk i w)"
    "code \<noteq> 0 \<Longrightarrow> \<not> is_Panic (rgNewFreezeRepoCompleted2Error i w code)"
    "code \<noteq> 0 \<Longrightarrow> \<not> is_Panic (rgNewUnfreezeRepoCompleted2Error i w code)"
    "code \<noteq> 0 \<Longrightarrow> \<not> is_Panic (rgNewArchiveRepoCompletedError i w code)"
    "code \<noteq> 0 \<Longrightarrow> \<not> is_Panic (rgNewUnarchiveRepoCompletedError i w code)"
  using assms by (simp_all add: reg_new_defs)

lemma onError_no_panic: "\<not> is_Panic (onError f x k) \<longleftrightarrow> (\<forall>y. x = Inr y \<longrightarrow> \<not> is_Panic (k y))"
  by (auto simp: onError_def split: sum.splits)

lemma tellInitRepo_no_panic:
  assumes inv: "reg_inv st" and clean: "cleanAbs (TrimRight (gc_GlobalPath c) (CHR ''/''))"
  shows "\<not> is_Panic (rgTellInitRepo mo prec g st c)"
proof -
  let ?p = "TrimRight (gc_GlobalPath c) (CHR ''/'')"
  obtain res where res: "findParentRepo (gs_reposByName st) ?p = Some res" using findParent_total [OF clean] by blast
  have "\<not> is_Panic (rootHostPath (rt_info r) ?p)" if "findRootStateForRepo mo (gs_roots st) ?p = Some r" for r
    using findRoot_Some that by (fastforce simp: findRootStateForRepo_def rootHostPath_def pathIsEqualOrBelowPrefix_def)
  then show ?thesis
    by (auto simp: rgTellInitRepo_def Let_def onError_no_panic outcome_simps res split: option.splits)
qed

lemma repo_id_nonzero: "reg_inv st \<Longrightarrow> gs_reposById st i = Some r \<Longrightarrow> i \<noteq> 0"
  using reg_invD(5) by (auto simp: regRepo_ok_def)

lemma no_panic_begin:
  assumes inv: "reg_inv st" and w: "w \<noteq> 0"
  shows "\<not> is_Panic (rgTellBeginFreezeRepo mo g st i w)" "\<not> is_Panic (rgTellBeginUnfreezeRepo g st i w)"
    "\<not> is_Panic (rgTellBeginArchiveRepo mo g st i w)" "\<not> is_Panic (rgTellBeginUnarchiveRepo mo g st i w)"
  using w repo_id_nonzero [OF inv, of i]
  by (auto simp: rgTellBeginFreezeRepo_def rgTellBeginUnfreezeRepo_def rgTellBeginArchiveRepo_def rgTellBeginUnarchiveRepo_def
      outcome_simps New_storage_no_panic split: option.splits)

lemma no_panic_end:
  assumes inv: "reg_inv st"
  shows "\<not> is_Panic (rgTellCommitFreezeRepo g st i w)" "\<not> is_Panic (rgTellCommitUnfreezeRepo g st i w)"
    "\<not> is_Panic (rgTellCommitArchiveRepo g st i w)" "\<not> is_Panic (rgTellCommitUnarchiveRepo g st i w)"
    "code \<noteq> 0 \<Longrightarrow> \<not> is_Panic (rgTellAbortFreezeRepo g st i w code)"
    "code \<noteq> 0 \<Longrightarrow> \<not> is_Panic (rgTellAbortUnfreezeRepo g st i w code)"
    "code \<noteq> 0 \<Longrightarrow> \<not> is_Panic (rgTellAbortArchiveRepo g st i w code)"
    "code \<noteq> 0 \<Longrightarrow> \<not> is_Panic (rgTellAbortUnarchiveRepo g st i w code)"
  using repo_id_nonzero [OF inv, of i] busy_workflow [OF inv, of i]
  by (auto simp: rgTellCommitFreezeRepo_def rgTellCommitUnfreezeRepo_def rgTellCommitArchiveRepo_def rgTellCommitUnarchiveRepo_def
      rgTellAbortFreezeRepo_def rgTellAbortUnfreezeRepo_def rgTellAbortArchiveRepo_def rgTellAbortUnarchiveRepo_def
      outcome_simps New_storage_no_panic split: option.splits)

lemma no_panic_recipients:
  "\<not> is_Panic (rgTellUpdateRootArchiveRecipients g st groot ks)" "\<not> is_Panic (rgTellDeleteRootArchiveRecipients g st groot)"
  "\<not> is_Panic (rgTellUpdateRootShadowBackupRecipients g st groot ks)"
  "\<not> is_Panic (rgTellDeleteRootShadowBackupRecipients g st groot)"
  by (auto simp: rgTellUpdateRootArchiveRecipients_def rgTellDeleteRootArchiveRecipients_def
      rgTellUpdateRootShadowBackupRecipients_def rgTellDeleteRootShadowBackupRecipients_def Let_def
      outcome_simps ifError_no_panic New_keys_no_panic split: option.splits)

lemma no_panic_roots:
  "\<not> is_Panic (rgTellInitRoot g st a b c' d)" "\<not> is_Panic (rgTellRemoveRoot g st a)"
  "\<not> is_Panic (rgTellEnableGitlab g st a b)" "\<not> is_Panic (rgTellDisableGitlab g st a)"
  "\<not> is_Panic (rgTellSetRepoNaming g st n)" "\<not> is_Panic (rgTellSetRepoInitPolicy g st p)"
  "\<not> is_Panic (rgTellDeleteSplitRootConfig g st a)"
  by (cases n; cases p; auto simp: rgTellInitRoot_def rgTellRemoveRoot_def rgTellEnableGitlab_def rgTellDisableGitlab_def rgTellSetRepoNaming_def
      rgTellSetRepoInitPolicy_def rgTellDeleteSplitRootConfig_def
      Let_def ifError_no_panic deref_no_panic split: option.splits)+

lemma no_panic_patch:
  "(\<And>x. n = Some x \<Longrightarrow> naming_pre (gs_roots st) x) \<Longrightarrow> \<not> is_Panic (rgTellPatchRepoNaming g st n)"
  by (cases n) (auto simp: rgTellPatchRepoNaming_def naming_pre_def ifError_no_panic deref_no_panic split: option.splits)

lemma no_panic_discovery: "\<not> is_Panic (rgTellEnableDiscoveryPaths g st a ds)"
  by (simp add: rgTellEnableDiscoveryPaths_def Let_def ifError_no_panic split: option.split)

lemma no_panic_split:
  "\<not> is_Panic (rgTellCreateSplitRootConfig g st a c)" "\<not> is_Panic (rgTellUpdateSplitRootConfig g st a c)"
  by (cases c; simp add: rgTellCreateSplitRootConfig_def rgTellUpdateSplitRootConfig_def Let_def ifError_no_panic
      split: option.split)+

lemma no_panic_repos:
  "\<not> is_Panic (rgTellReinitRepo g st i s)" "\<not> is_Panic (rgTellEnableGitlabRepo g st i ns)"
  "\<not> is_Panic (rgTellConfirmRepo g st i e)" "\<not> is_Panic (rgTellBeginMoveRepo mo prec g st i w p u)"
  "\<not> is_Panic (rgTellCommitMoveRepo g st i w e p)" "\<not> is_Panic (rgTellPostShadowRepoMoveStarted g st i e w)"
  "\<not> is_Panic (rgTellSetPathFlags g st p f)" "\<not> is_Panic (rgTellUnsetPathFlags g st p f)"
  "\<not> is_Panic (rgTellInitRegistry g st nam)" "\<not> is_Panic (rgTellEnableEphemeralWorkflows g st i)"
  "\<not> is_Panic (rgTellEnablePropagateRootAcls g st)"
  by (auto simp: rgTellReinitRepo_def rgTellEnableGitlabRepo_def rgTellConfirmRepo_def rgTellBeginMoveRepo_def
      rgTellCommitMoveRepo_def rgTellPostShadowRepoMoveStarted_def rgTellSetPathFlags_def rgTellUnsetPathFlags_def
      rgTellInitRegistry_def rgTellEnableEphemeralWorkflows_def rgTellEnablePropagateRootAcls_def
      Let_def onError_no_panic split: option.splits)

lemma regTell_no_panic:
  assumes inv: "reg_inv st" and pre: "reg_pre st c"
  shows "\<not> is_Panic (regTell mo prec g st c)"
  using pre
  by (cases c)
    (simp_all add: no_panic_begin [OF inv] no_panic_end [OF inv] no_panic_recipients no_panic_roots no_panic_patch
      no_panic_discovery no_panic_split no_panic_repos tellInitRepo_no_panic [OF inv])

section \<open>Advancing by the events of a call\<close>

lemma flip_update_vid:
  "updateRoot (st\<lparr>gs_vid := v\<rparr>) k f = omap (\<lambda>s. s\<lparr>gs_vid := v\<rparr>) (updateRoot st k f)"
  "updateRepo (st\<lparr>gs_vid := v\<rparr>) i h = omap (\<lambda>s. s\<lparr>gs_vid := v\<rparr>) (updateRepo st i h)"
  by (auto simp: updateRoot_def updateRepo_def putRepo_def split: option.split)

lemma regAdvanceEv_vid:
  "regAdvanceEv mo (st\<lparr>gs_vid := v\<rparr>) e = omap (\<lambda>s. s\<lparr>gs_vid := v\<rparr>) (regAdvanceEv mo st e)"
  by (cases e) (auto simp: flip_update_vid uuidOrPanic_def putRepo_def Let_def split: sum.split option.split)

lemma update_id:
  "updateRoot st k f = Ok st' \<Longrightarrow> gs_id st' = gs_id st" "updateRepo st i h = Ok st' \<Longrightarrow> gs_id st' = gs_id st"
  by (auto simp: updateRoot_def updateRepo_def putRepo_def split: option.splits)

lemma regAdvanceEv_id: "regAdvanceEv mo st e = Ok st' \<Longrightarrow> gs_id st' = gs_id st"
  by (cases e) (auto simp: uuidOrPanic_def putRepo_def Let_def dest: update_id split: sum.splits option.splits if_splits)

lemma regApply_vid:
  "regApply mo (st\<lparr>gs_vid := v\<rparr>) es = omap (\<lambda>s. s\<lparr>gs_vid := v\<rparr>) (regApply mo st es)"
proof (induction es arbitrary: st)
  case (Cons e es)
  then show ?case by (cases "regAdvanceEv mo st e") (simp_all add: regAdvanceEv_vid)
qed simp

lemma advanceAll_rgNewEvents:
  assumes "list_all2 (reg_pb_ev ub) pbs es" and "newEventsLoop regSetPb g n v pbs = Inr evs"
  shows "advanceAll (regBehavior mo prec ub) (regEventOps pm pu ub) st evs =
    omap (\<lambda>s. s\<lparr>gs_vid := lastId (regEventOps pm pu ub) (gs_vid s) evs\<rparr>) (regApply mo st es)"
  using assms
proof (induction pbs arbitrary: n v st es evs)
  case Nil
  then show ?case by simp
next
  case (Cons p ps)
  obtain e es' where es: "es = e # es'" "rgFromPbValidate ub p = Ok e" "list_all2 (reg_pb_ev ub) ps es'"
    using Cons.prems(1) unfolding list_all2_Cons1 by (auto simp: reg_pb_ev_def [of ub p])
  obtain i evs' where evs: "evs = \<lparr>ev_id = i, ev_parent = v, ev_pb = regSetPb i v p\<rparr> # evs'"
    "newEventsLoop regSetPb g (Suc n) i ps = Inr evs'"
    using Cons.prems(2) by (auto split: sum.splits)
  have f: "rgFromPbMust ub (regSetPb i v p) = (Ok e :: (reg_error, RegistryEvent) outcome)" using es(2) by (simp add: rgFromPbMust_def)
  show ?case
  proof (cases "regAdvanceEv mo st e")
    case (Ok st1)
    have "lastId (regEventOps pm pu ub) x (ev # evs') = lastId (regEventOps pm pu ub) (ev_id ev) evs'" for x ev
      by (simp add: regEventOps_def)
    then show ?thesis using Cons.IH [OF es(3) evs(2), of "st1\<lparr>gs_vid := i\<rparr>"] Ok f
      by (cases "regApply mo st1 es'")
        (simp_all add: es(1) evs(1) regBehavior_def regEventOps_def regAdvance_def regApply_vid)
  qed (use f in \<open>simp_all add: es(1) evs(1) regBehavior_def regAdvance_def\<close>)
qed

lemma reg_inv_vid [simp]: "reg_inv (st\<lparr>gs_vid := v\<rparr>) \<longleftrightarrow> reg_inv st"
  by (simp add: reg_inv_def)

lemma reg_step_vid [simp]: "reg_step c st (st'\<lparr>gs_vid := v\<rparr>) \<longleftrightarrow> reg_step c st st'"
  by (cases c) (simp_all add: reg_step_def reg_trans_def init_trans_def move_trans_def reg_frame_def rgStorage_def idx_ok_def)

lemma reg_inv_new: "reg_inv (regNewState i)"
  by (simp add: reg_inv_def regNewState_def regRoots_ok_def regRepos_ok_def flags_ok_def)

lemma regTell_steps:
  assumes "reg_inv st" and "map_orders mo" and "ulid_binary ub" and "reg_pre st c" and "regTell mo prec g st c = Ok evs"
  shows "\<exists>st'. advanceAll (regBehavior mo prec ub) (regEventOps pm pu ub) st evs = Ok st' \<and> reg_step c st st'"
proof -
  obtain pbs es st' where "rgNewEvents g (gs_vid st) pbs = Inr evs" "list_all2 (reg_pb_ev ub) pbs es"
      "regApply mo st es = Ok st'" "reg_step c st st'"
    using regTell_result [OF assms] by (auto simp: reg_result_def)
  then show ?thesis using advanceAll_rgNewEvents [of ub pbs es g 0 "gs_vid st" evs mo prec pm pu st] by (simp add: rgNewEvents_def)
qed

lemma regTell_advances:
  assumes "reg_inv st" and "map_orders mo" and "ulid_binary ub" and "reg_pre st c" and "regTell mo prec g st c = Ok evs"
  shows "\<exists>st'. advanceAll (regBehavior mo prec ub) (regEventOps pm pu ub) st evs = Ok st' \<and> reg_frame st st'"
  using regTell_steps [OF assms] reg_step_frame by blast

lemma rgEmit_chained:
  "rgEmit g st pbs = Ok evs \<Longrightarrow> chained (regEventOps pm pu ub) (gs_vid st) evs"
  using newEventsLoop_chained [where ops = "regEventOps pm pu ub" and setPb = regSetPb]
  by (auto simp: rgEmit_Ok rgNewEvents_def regEventOps_def)

text \<open>Commands emit nothing or through \<open>rgEmit\<close>.\<close>

definition emits :: "ulid_source \<Rightarrow> RegState \<Rightarrow> (reg_error, RegistryPb Event list) outcome \<Rightarrow> bool" where
  "emits g st x \<longleftrightarrow> (\<forall>evs. x = Ok evs \<longrightarrow> evs = [] \<or> (\<exists>pbs. rgEmit g st pbs = Ok evs))"

lemma emits_simps:
  "emits g st (Err e)" "emits g st (Panic p)" "emits g st (Ok [])" "emits g st (rgEmit g st pbs)"
  "emits g st x \<Longrightarrow> emits g st y \<Longrightarrow> emits g st (if b then x else y)"
  "emits g st x \<Longrightarrow> (\<And>y. emits g st (f y)) \<Longrightarrow> emits g st (case_option x f z)"
  "emits g st x \<Longrightarrow> emits g st (ifError r x)"
  "(\<And>y. emits g st (h y)) \<Longrightarrow> emits g st (obind o1 h)"
  "(\<And>y. emits g st (k y)) \<Longrightarrow> emits g st (Repo_Events.deref o2 k)"
  "(\<And>y. emits g st (l y)) \<Longrightarrow> emits g st (onError m o3 l)"
  by (auto simp: emits_def ifError_def onError_def Repo_Events.deref_def outcome_simps split: option.splits sum.splits)

lemma regTell_emits: "emits g st (regTell mo prec g st c)"
  by (cases c) (simp_all add: reg_tell_defs emits_simps Let_def)

lemma reg_event_ops: "event_ops (regEventOps pm pu ub)"
  by unfold_locales (simp_all add: regEventOps_def regWithId_def regWithParent_def)

lemma reg_aggregate:
  assumes "map_orders mo" and "ulid_binary ub"
  shows "aggregate (regBehavior mo prec ub) (regEventOps pm pu ub) reg_inv reg_pre"
proof unfold_locales
  fix st st' ev assume "Advance (regBehavior mo prec ub) st ev = Ok st'"
  then show "StId (regBehavior mo prec ub) st' = StId (regBehavior mo prec ub) st"
    by (auto simp: regBehavior_def regAdvance_def outcome_simps dest: regAdvanceEv_id)
next
  fix st c g evs
  assume "reg_inv st" "reg_pre st c" "Tell (regBehavior mo prec ub) g st c = Ok evs"
  then show "\<exists>s'. advanceAll (regBehavior mo prec ub) (regEventOps pm pu ub) st evs = Ok s' \<and> reg_inv s'"
    using regTell_advances [OF _ assms] by (fastforce simp: regBehavior_def reg_frame_def)
next
  fix st c g assume "reg_inv st" "reg_pre st c"
  then show "\<not> is_Panic (Tell (regBehavior mo prec ub) g st c)"
    using regTell_no_panic by (simp add: regBehavior_def)
next
  fix st c g evs assume "Tell (regBehavior mo prec ub) g st c = Ok evs"
  then show "chained (regEventOps pm pu ub) (StVid (regBehavior mo prec ub) st) evs"
    using regTell_emits [of g st mo prec c] rgEmit_chained by (fastforce simp: regBehavior_def emits_def)
qed (simp_all add: regBehavior_def reg_inv_new, simp add: regNewState_def)

end
