(* ===== verification/Fso_Registry_Props.thy ===== *)
theory Fso_Registry_Props
  imports Fso_Registry_Cmds "HOL-Library.Char_ord"
begin

text \<open>
  What the aggregate of FSO registries promises: safety of the commands, the agreement of the indexes, the storage state
  machine of every repo, the lookup of roots and parents, split root configs, path flags, and the round trip of events;
  and commands that break the registry when the callers' obligations are not met.
\<close>

section \<open>Live registries\<close>

abbreviation reg_live where
  "reg_live mo prec pm pu ub \<equiv> live (regBehavior mo prec ub) (regEventOps pm pu ub) reg_pre"

lemma reg_sel [simp]:
  "NewState (regBehavior mo prec ub) = regNewState" "StId (regBehavior mo prec ub) = gs_id"
  "StVid (regBehavior mo prec ub) = gs_vid" "Tell (regBehavior mo prec ub) = regTell mo prec"
  "SetVid (regBehavior mo prec ub) v st = st\<lparr>gs_vid := v\<rparr>"
  by (simp_all add: regBehavior_def)

text \<open>An iteration in the order of the keys, no preconditions, and a demo registry; used by the witnesses.\<close>

definition sortedOrder :: MapOrder where
  "sortedOrder = \<lparr>rangeRoots = (\<lambda>m. sorted_list_of_set (dom m)), rangeRepos = (\<lambda>m. sorted_list_of_set (dom m)),
     rangeConfig = (\<lambda>m. sorted_list_of_set (dom m))\<rparr>"

lemma sortedOrder_ok [simp]: "map_orders sortedOrder"
  by (simp add: map_orders_def sortedOrder_def)

interpretation reg: aggregate "regBehavior sortedOrder prec ulidUnmarshal" "regEventOps pm pu ulidUnmarshal" reg_inv reg_pre
  for prec pm pu
  by (rule reg_aggregate) simp_all

definition noPre :: Preconditions where
  "noPre = \<lparr>pre_InitRepo = None, pre_WorkflowIdCheck = None\<rparr>"

definition demo_root :: rootState where
  "demo_root = newRootState \<lparr>fr_GlobalRoot = ''/g'', fr_Host = ''h'', fr_HostRoot = ''/h'', fr_GitlabNamespace = []\<rparr>"

definition demo_info :: RepoInfo where
  "demo_info = (newRepoInfo 7 ''/g/a'' [])\<lparr>gi_Confirmed := True, gi_StorageTier := StorageOnline\<rparr>"

definition demo_reg :: RegState where
  "demo_reg = (regNewState 1)\<lparr>gs_vid := 2, gs_info := Some ''reg'', gs_roots := [''/g'' \<mapsto> demo_root],
     gs_reposByName := [''/g/a'' \<mapsto> demo_info], gs_reposById := [7 \<mapsto> demo_info], gs_repoAclPolicy := P_NO_ACLS\<rparr>"

lemma cleanAbs_demo: "cleanAbs ''/g'' \<and> cleanAbs ''/g/a''"
  by (simp add: cleanAbs_def IsAbs_def Clean_def Let_def)

lemma demo_reg_inv: "reg_inv demo_reg" and demo_reg_agrees: "idx_ok demo_reg" "leaves_ok (gs_reposById demo_reg)"
proof -
  have "root_ok ''/g'' demo_root"
    by (simp add: demo_root_def newRootState_def root_ok_def keys_ok_def naming_ok_def split_ok_def TrimRight_def)
  moreover have "regRepo_ok demo_info"
    using cleanAbs_demo by (simp add: demo_info_def newRepoInfo_def regRepo_ok_def)
  moreover have "gi_Id demo_info = 7" "gi_GlobalPath demo_info = ''/g/a''" "\<not> immutable demo_info"
    by (simp_all add: demo_info_def newRepoInfo_def immutable_def)
  ultimately show "reg_inv demo_reg"
    by (auto simp: reg_inv_def demo_reg_def regNewState_def regRoots_ok_def regRepos_ok_def flags_ok_def split: if_splits)
  show "idx_ok demo_reg" "leaves_ok (gs_reposById demo_reg)"
    by (auto simp: idx_ok_def index_ok_def leaves_ok_def leaf_in_def demo_reg_def demo_info_def newRepoInfo_def split: if_splits)
qed

lemma demo_reg_live0: "reg_live mo prec pm pu ub i ((regNewState i)\<lparr>gs_vid := 0\<rparr>) []"
  using live_new [of "regBehavior mo prec ub" "regEventOps pm pu ub" reg_pre i] by simp

text \<open>
  C21: from a live registry, a command whose caller keeps its obligations is either refused with an error or
  produces events on which \<open>Advance()\<close> succeeds, giving a state that is live again.  The obligations (\<open>reg_pre\<close>)
  are those that the code does not check: a root that is not the empty path, clean absolute paths of repos, ids and status
  codes that are not zero, no trailing slashes in namings and policies, no patch of a naming that is not there, and no
  change of the GitLab namespace of a root.
\<close>

theorem registry_tell_never_stuck:
  assumes "map_orders mo" and "ulid_binary ub" and "reg_live mo prec pm pu ub i st hist" and "reg_pre st c"
  shows "(\<exists>e. regTell mo prec g st c = Err e) \<or>
    (\<exists>evs st'. regTell mo prec g st c = Ok evs \<and>
      advanceAll (regBehavior mo prec ub) (regEventOps pm pu ub) st evs = Ok st' \<and>
      reg_live mo prec pm pu ub i st' (hist @ evs))"
  by (rule aggregate.live_step [OF reg_aggregate [OF assms(1,2)] assms(3,4), where g = g]) auto

theorem registry_tell_never_stuck_witness:
  "\<exists>evs st'. regTell sortedOrder noPre (\<lambda>_. Inr 5) ((regNewState 7)\<lparr>gs_vid := 0\<rparr>) (RgInitRegistry ''reg'') = Ok evs \<and>
     reg_live sortedOrder noPre (\<lambda>_. Inr []) (\<lambda>_. Inl (GoErr [])) ulidUnmarshal 7 st' evs"
proof -
  have t: "regTell sortedOrder noPre (\<lambda>_. Inr 5) ((regNewState 7)\<lparr>gs_vid := 0\<rparr>) (RgInitRegistry ''reg'') \<noteq> Err e" for e
    by (simp add: rgTellInitRegistry_def regNewState_def rgEmit_def rgNewEvents_def)
  show ?thesis
    using registry_tell_never_stuck [OF sortedOrder_ok ulidUnmarshal_ok demo_reg_live0,
        where i = 7 and c = "RgInitRegistry ''reg''" and prec = noPre and g = "\<lambda>_. Inr 5"] t
    by fastforce
qed

text \<open>A live registry with a repo that is being frozen; used by the witnesses.\<close>

lemma advance_emitted:
  assumes "rgEmit g st [p] = Ok evs" and "reg_pb_ev ub p e" and "regAdvanceEv mo st e = Ok st'"
  shows "\<exists>v. g 0 = Inr v \<and> advanceAll (regBehavior mo prec ub) (regEventOps pm pu ub) st evs = Ok (st'\<lparr>gs_vid := v\<rparr>)"
proof -
  have n: "newEventsLoop regSetPb g 0 (gs_vid st) [p] = Inr evs" using assms(1) by (simp add: rgEmit_Ok rgNewEvents_def)
  then obtain v where v: "g 0 = Inr v" "evs = [\<lparr>ev_id = v, ev_parent = gs_vid st, ev_pb = regSetPb v (gs_vid st) p\<rparr>]"
    by (auto split: sum.splits)
  then show ?thesis
    using advanceAll_rgNewEvents [of ub "[p]" "[e]", OF _ n, of mo prec pm pu st] assms(2,3) by (simp add: regEventOps_def)
qed

lemma live_emitted:
  assumes live: "reg_live mo prec pm pu ub i st hist" and pre: "reg_pre st c"
    and tell: "regTell mo prec (\<lambda>_. Inr v) st c = rgEmit (\<lambda>_. Inr v) st [p]" and msg: "reg_pb_ev ub p e"
    and adv: "regAdvanceEv mo st e = Ok st'"
  shows "\<exists>hist'. reg_live mo prec pm pu ub i (st'\<lparr>gs_vid := v\<rparr>) hist'"
proof -
  obtain evs where evs: "rgEmit (\<lambda>_. Inr v) st [p] = Ok evs" by (simp add: rgEmit_def rgNewEvents_def)
  then have "advanceAll (regBehavior mo prec ub) (regEventOps pm pu ub) st evs = Ok (st'\<lparr>gs_vid := v\<rparr>)"
    using advance_emitted [OF evs msg adv, of prec pm pu] by auto
  then show ?thesis using live_tell [OF live pre] evs tell by auto
qed

definition demo_frozen :: RegState where
  "demo_frozen = demo_reg\<lparr>gs_vid := 5,
     gs_reposByName := [''/g/a'' \<mapsto> demo_info\<lparr>gi_StorageTier := StorageFreezing, gi_storageWorkflowId := 9\<rparr>],
     gs_reposById := [7 \<mapsto> demo_info\<lparr>gi_StorageTier := StorageFreezing, gi_storageWorkflowId := 9\<rparr>]\<rparr>"

lemma demo_steps:
  defines "s1 \<equiv> (regNewState 1)\<lparr>gs_vid := 2, gs_info := Some ''reg'', gs_repoAclPolicy := P_NO_ACLS\<rparr>"
  defines "s2 \<equiv> s1\<lparr>gs_roots := [''/g'' \<mapsto> demo_root]\<rparr>"
  defines "s3 \<equiv> s2\<lparr>gs_reposByName := [''/g/a'' \<mapsto> newRepoInfo 7 ''/g/a'' []], gs_reposById := [7 \<mapsto> newRepoInfo 7 ''/g/a'' []]\<rparr>"
  defines "c \<equiv> \<lparr>gc_Context = 0, gc_Id = 7, gc_GlobalPath = ''/g/a'', gc_CreatorName = ''a'', gc_CreatorEmail = ''a@b''\<rparr>"
  defines "x \<equiv> repoInfoPb (idBytes 7) ''/g/a''\<lparr>fi_CreatorName := ''a'', fi_CreatorEmail := ''a@b''\<rparr>"
  defines "mo \<equiv> sortedOrder" and "g \<equiv> \<lambda>_. Inr 2" and "h \<equiv> \<lambda>_. Inr 5"
  shows "regTell mo noPre g ((regNewState 1)\<lparr>gs_vid := 0\<rparr>) (RgInitRegistry ''reg'') =
      rgEmit g ((regNewState 1)\<lparr>gs_vid := 0\<rparr>) [NewRegistryAdded ''reg'']"
    and "regTell mo noPre g s1 (RgInitRoot ''/g'' ''h'' ''/h'' []) =
      rgEmit g s1 [NewRootAdded \<lparr>fr_GlobalRoot = ''/g'', fr_Host = ''h'', fr_HostRoot = ''/h'', fr_GitlabNamespace = []\<rparr>]"
    and "regTell mo noPre g s2 (RgInitRepo c) = rgEmit g s2 [NewRepoAccepted x]"
    and "regTell mo noPre g s3 (RgConfirmRepo 7 4) = rgEmit g s3 [NewRepoAdded (idBytes 7) ''/g/a'' 4]"
    and "regTell mo noPre h demo_reg (RgBeginFreezeRepo 7 9) =
      obind (rgNewFreezeRepoStarted2 7 9) (\<lambda>p. rgEmit h demo_reg [p])"
    and "regAdvanceEv mo s2 (RvRepoAccepted x) = Ok s3"
proof -
  show "regTell mo noPre g ((regNewState 1)\<lparr>gs_vid := 0\<rparr>) (RgInitRegistry ''reg'') =
      rgEmit g ((regNewState 1)\<lparr>gs_vid := 0\<rparr>) [NewRegistryAdded ''reg'']"
    by (simp add: rgTellInitRegistry_def regNewState_def)
  show "regTell mo noPre g s1 (RgInitRoot ''/g'' ''h'' ''/h'' []) =
      rgEmit g s1 [NewRootAdded \<lparr>fr_GlobalRoot = ''/g'', fr_Host = ''h'', fr_HostRoot = ''/h'', fr_GitlabNamespace = []\<rparr>]"
    by (simp add: rgTellInitRoot_def s1_def regNewState_def TrimRight_def)
  show "regTell mo noPre g s3 (RgConfirmRepo 7 4) = rgEmit g s3 [NewRepoAdded (idBytes 7) ''/g/a'' 4]"
    by (simp add: rgTellConfirmRepo_def s3_def s2_def s1_def regNewState_def newRepoInfo_def)
  have r: "findRootStateForRepo mo (gs_roots s2) ''/g/a'' = Some demo_root"
    by (simp add: findRootStateForRepo_def mo_def sortedOrder_def s2_def demo_root_def newRootState_def
        pathIsEqualOrBelowPrefix_def HasPrefix_def)
  have p: "findParentRepo Map.empty ''/g/a'' = Some None"
    by (subst findParentRepo.simps, simp add: Dir_def Clean_def IsAbs_def Let_def)+
  show "regTell mo noPre g s2 (RgInitRepo c) = rgEmit g s2 [NewRepoAccepted x]"
    using r p
    by (simp add: rgTellInitRepo_def c_def x_def Let_def TrimRight_def s2_def s1_def regNewState_def demo_root_def
        newRootState_def WhichSubdirTracking_def isInitRepoAllowed_def noPre_def rootHostPath_def HasPrefix_def repoInfoPb_def)
  show "regAdvanceEv mo s2 (RvRepoAccepted x) = Ok s3"
    using r by (simp add: x_def repoInfoPb_def uuidOrPanic_def findRootInfoForRepo_def putRepo_def demo_root_def
        newRootState_def newRepoInfo_def s3_def) (simp add: s2_def s1_def regNewState_def)
  have "length (ReposPrefix mo demo_reg (gi_GlobalPath demo_info)) = 1"
    by (simp add: ReposPrefix_def mo_def sortedOrder_def demo_reg_def demo_info_def newRepoInfo_def regNewState_def
        pathIsEqualOrBelowPrefix_def HasPrefix_def List.map_filter_def)
  then have "fst (mayFreezeRepoInfo mo demo_reg demo_info)"
    by (simp add: mayFreezeRepoInfo_def demo_info_def)
  then show "regTell mo noPre h demo_reg (RgBeginFreezeRepo 7 9) = obind (rgNewFreezeRepoStarted2 7 9) (\<lambda>p. rgEmit h demo_reg [p])"
    by (simp add: rgTellBeginFreezeRepo_def demo_reg_def regNewState_def) (simp add: demo_info_def)
qed

lemma demo_reg_live: "\<exists>hist. reg_live sortedOrder noPre pm pu ulidUnmarshal 1 demo_reg hist"
proof -
  let ?st = "regNewState 1\<lparr>gs_vid := 0\<rparr>"
  define s1 where "s1 = (regNewState 1)\<lparr>gs_vid := 2, gs_info := Some ''reg'', gs_repoAclPolicy := P_NO_ACLS\<rparr>"
  define s2 where "s2 = s1\<lparr>gs_roots := [''/g'' \<mapsto> demo_root]\<rparr>"
  define s3 where "s3 = s2\<lparr>gs_reposByName := [''/g/a'' \<mapsto> newRepoInfo 7 ''/g/a'' []], gs_reposById := [7 \<mapsto> newRepoInfo 7 ''/g/a'' []]\<rparr>"
  note steps = demo_steps [folded s1_def, folded s2_def, folded s3_def]
  let ?live = "\<lambda>st. \<exists>hist. reg_live sortedOrder noPre pm pu ulidUnmarshal 1 st hist"
  have "regAdvanceEv sortedOrder ?st (RvRegistryAdded ''reg'') = Ok (s1\<lparr>gs_vid := 0\<rparr>)" by (simp add: s1_def regNewState_def)
  from live_emitted [OF demo_reg_live0 _ steps(1) pbev_registry(1) this] have "?live s1" by (simp add: s1_def regNewState_def)
  then obtain h1 where l: "reg_live sortedOrder noPre pm pu ulidUnmarshal 1 s1 h1" by blast
  have "regAdvanceEv sortedOrder s1 (RvRootAdded \<lparr>fr_GlobalRoot = ''/g'', fr_Host = ''h'', fr_HostRoot = ''/h'', fr_GitlabNamespace = []\<rparr>) = Ok s2"
    by (simp add: s2_def s1_def regNewState_def demo_root_def)
  from live_emitted [OF l _ steps(2) pbev_root(1) this] have "?live s2"
    by (simp add: TrimRight_def) (simp add: s2_def s1_def regNewState_def)
  then obtain h2 where l: "reg_live sortedOrder noPre pm pu ulidUnmarshal 1 s2 h2" by blast
  from live_emitted [OF l _ steps(3) pbev_repo(1) steps(6)] have "?live s3"
    using cleanAbs_demo by (simp add: TrimRight_def) (simp add: s3_def s2_def s1_def regNewState_def)
  then obtain h3 where l: "reg_live sortedOrder noPre pm pu ulidUnmarshal 1 s3 h3" by blast
  have "regAdvanceEv sortedOrder s3 (RvRepoAdded (repoInfoPb (idBytes 7) ''/g/a'')) = Ok (demo_reg\<lparr>gs_vid := 2\<rparr>)"
    by (simp add: repoInfoPb_def uuidOrPanic_def updateRepo_def putRepo_def s3_def s2_def s1_def regNewState_def
        demo_reg_def demo_info_def newRepoInfo_def)
  from live_emitted [OF l _ steps(4) pbev_repo(2) this] show ?thesis by (simp add: demo_reg_def regNewState_def)
qed

lemma demo_frozen_live: "\<exists>hist. reg_live sortedOrder noPre pm pu ulidUnmarshal 1 demo_frozen hist"
proof -
  obtain h4 where l: "reg_live sortedOrder noPre pm pu ulidUnmarshal 1 demo_reg h4" using demo_reg_live by blast
  define s1 where "s1 = (regNewState 1)\<lparr>gs_vid := 2, gs_info := Some ''reg'', gs_repoAclPolicy := P_NO_ACLS\<rparr>"
  define s2 where "s2 = s1\<lparr>gs_roots := [''/g'' \<mapsto> demo_root]\<rparr>"
  define s3 where "s3 = s2\<lparr>gs_reposByName := [''/g/a'' \<mapsto> newRepoInfo 7 ''/g/a'' []], gs_reposById := [7 \<mapsto> newRepoInfo 7 ''/g/a'' []]\<rparr>"
  note steps = demo_steps [folded s1_def, folded s2_def, folded s3_def]
  obtain p where p: "rgNewFreezeRepoStarted2 7 9 = (Ok p :: (reg_error, RegistryPb) outcome)" by (simp add: rgNewFreezeRepoStarted2_def)
  have "regAdvanceEv sortedOrder demo_reg (RvFreezeRepoStarted2 7 9) = Ok (demo_frozen\<lparr>gs_vid := 2\<rparr>)"
    by (simp add: updateRepo_def putRepo_def demo_reg_def demo_frozen_def) (simp add: demo_info_def newRepoInfo_def)
  from live_emitted [OF l _ steps(5) [unfolded p obind.simps] pbev_storage(1) [OF p] this]
  show ?thesis by (simp add: demo_frozen_def demo_reg_def regNewState_def)
qed

lemma demo_freeze_tell:
  obtains evs where "regTell sortedOrder noPre (\<lambda>_. Inr 5) demo_reg (RgBeginFreezeRepo 7 9) = Ok evs"
    "advanceAll (regBehavior sortedOrder noPre ulidUnmarshal) (regEventOps pm pu ulidUnmarshal) demo_reg evs = Ok demo_frozen"
proof -
  obtain p where p: "rgNewFreezeRepoStarted2 7 9 = (Ok p :: (reg_error, RegistryPb) outcome)" by (simp add: rgNewFreezeRepoStarted2_def)
  note t = demo_steps(5) [unfolded p obind.simps]
  have "regAdvanceEv sortedOrder demo_reg (RvFreezeRepoStarted2 7 9) = Ok (demo_frozen\<lparr>gs_vid := 2\<rparr>)"
    by (simp add: updateRepo_def putRepo_def demo_reg_def demo_frozen_def) (simp add: demo_info_def newRepoInfo_def)
  moreover obtain evs where evs: "rgEmit (\<lambda>_. Inr 5) demo_reg [p] = Ok evs" by (simp add: rgEmit_def rgNewEvents_def)
  ultimately have "advanceAll (regBehavior sortedOrder noPre ulidUnmarshal) (regEventOps pm pu ulidUnmarshal) demo_reg evs = Ok demo_frozen"
    using advance_emitted [OF evs pbev_storage(1) [OF p], where mo = sortedOrder and prec = noPre and pm = pm and pu = pu]
    by (auto simp: demo_frozen_def)
  then show thesis using that t evs by simp
qed

text \<open>
  C22: a live registry is the replay of its log.  In it, a repo is stored under its own id, which is not nil;
  it is confirmed iff its storage tier is specified, and it has a workflow id while a storage operation
  is in progress; every entry of the index by path is stored under its own path.  If the indexes by id and by path hold
  the same repos, they do so after an accepted command exactly if the command is not an \<open>InitRepo\<close> with the id of another
  repo, and not a \<open>CommitMoveRepo\<close> to the path of another repo; the code checks neither.
\<close>

theorem registry_live_invariant:
  assumes "map_orders mo" and "ulid_binary ub" and "reg_live mo prec pm pu ub i st hist"
  shows "advanceAll (regBehavior mo prec ub) (regEventOps pm pu ub) ((regNewState i)\<lparr>gs_vid := 0\<rparr>) hist = Ok st \<and>
    (RepoById st j = Some r \<longrightarrow> gi_Id r = j \<and> j \<noteq> uuidNil \<and>
       (gi_Confirmed r \<longleftrightarrow> gi_StorageTier r \<noteq> StorageTierUnspecified) \<and>
       (busy (gi_StorageTier r) \<longrightarrow> gi_storageWorkflowId r \<noteq> uuidNil)) \<and>
    (RepoByPath st p = Some q \<longrightarrow> gi_GlobalPath q = p) \<and>
    (idx_ok st \<and> reg_pre st c \<and> regTell mo prec g st c = Ok evs \<and>
       advanceAll (regBehavior mo prec ub) (regEventOps pm pu ub) st evs = Ok st' \<longrightarrow>
       (idx_ok st' \<longleftrightarrow> (case c of
          RgInitRepo x \<Rightarrow> RepoById st (gc_Id x) = None
        | RgCommitMoveRepo k w e path \<Rightarrow> (\<forall>l x. RepoById st l = Some x \<and> gi_GlobalPath x = path \<longrightarrow> l = k)
        | _ \<Rightarrow> True)))"
proof (intro conjI impI)
  have inv: "reg_inv st" by (rule aggregate.live_inv [OF reg_aggregate [OF assms(1,2)] assms(3)])
  show "advanceAll (regBehavior mo prec ub) (regEventOps pm pu ub) ((regNewState i)\<lparr>gs_vid := 0\<rparr>) hist = Ok st"
    using aggregate.live_replay [OF reg_aggregate [OF assms(1,2)] assms(3)] by simp
  show "gi_GlobalPath q = p" if "RepoByPath st p = Some q" using reg_invD(6) [OF inv, of p q] that by (simp add: RepoByPath_def)
  have d: "regRepo_ok r \<and> gi_Id r = j" if "RepoById st j = Some r" using reg_invD(5) [OF inv, of j r] that by (simp add: RepoById_def)
  show "gi_Id r = j" "j \<noteq> uuidNil"
    "gi_Confirmed r \<longleftrightarrow> gi_StorageTier r \<noteq> StorageTierUnspecified" if "RepoById st j = Some r"
    using d [OF that] by (auto simp: regRepo_ok_def)
  show "gi_storageWorkflowId r \<noteq> uuidNil" if "RepoById st j = Some r" "busy (gi_StorageTier r)"
    using d [OF that(1)] that(2) by (simp add: regRepo_ok_def)
  assume a: "idx_ok st \<and> reg_pre st c \<and> regTell mo prec g st c = Ok evs \<and>
    advanceAll (regBehavior mo prec ub) (regEventOps pm pu ub) st evs = Ok st'"
  then have "reg_step c st st'" using regTell_steps [OF inv assms(1,2), of c prec g evs pm pu] by auto
  moreover have "path_free (gs_reposById st) k path \<longleftrightarrow> (\<forall>l x. RepoById st l = Some x \<and> gi_GlobalPath x = path \<longrightarrow> l = k)" for k path
    using reg_invD(5) [OF inv] unfolding path_free_def RepoById_def by (auto simp: ran_def)
  ultimately show "idx_ok st' \<longleftrightarrow> (case c of
      RgInitRepo x \<Rightarrow> RepoById st (gc_Id x) = None
    | RgCommitMoveRepo k w e path \<Rightarrow> (\<forall>l x. RepoById st l = Some x \<and> gi_GlobalPath x = path \<longrightarrow> l = k)
    | _ \<Rightarrow> True)"
    using a by (cases c) (simp_all add: reg_step_def reg_trans_def init_trans_def move_trans_def RepoById_def)
qed

theorem registry_live_invariant_witness:
  "idx_ok demo_frozen \<and> (\<exists>r. RepoById demo_reg 7 = Some r \<and> gi_Confirmed r \<and> gi_StorageTier r \<noteq> StorageTierUnspecified) \<and>
   (\<exists>hist. advanceAll (regBehavior sortedOrder noPre ulidUnmarshal) (regEventOps (\<lambda>_. Inr []) (\<lambda>_. Inl (GoErr [])) ulidUnmarshal)
     ((regNewState 1)\<lparr>gs_vid := 0\<rparr>) hist = Ok demo_reg)"
proof -
  obtain hist where l: "reg_live sortedOrder noPre (\<lambda>_. Inr []) (\<lambda>_. Inl (GoErr [])) ulidUnmarshal 1 demo_reg hist"
    using demo_reg_live by blast
  obtain evs where t: "regTell sortedOrder noPre (\<lambda>_. Inr 5) demo_reg (RgBeginFreezeRepo 7 9) = Ok evs"
    "advanceAll (regBehavior sortedOrder noPre ulidUnmarshal) (regEventOps (\<lambda>_. Inr []) (\<lambda>_. Inl (GoErr [])) ulidUnmarshal) demo_reg evs = Ok demo_frozen"
    by (rule demo_freeze_tell)
  have r: "RepoById demo_reg 7 = Some demo_info" "gi_Confirmed demo_info"
    by (simp_all add: RepoById_def demo_reg_def demo_info_def)
  note w = registry_live_invariant [OF sortedOrder_ok ulidUnmarshal_ok l, where j = 7 and r = demo_info and c = "RgBeginFreezeRepo 7 9"
      and g = "\<lambda>_. Inr 5" and evs = evs and st' = demo_frozen]
  have "idx_ok demo_frozen" using w demo_reg_agrees(1) t by simp
  moreover have "gi_StorageTier demo_info \<noteq> StorageTierUnspecified" using w r by simp
  ultimately show ?thesis using w r by blast
qed

text \<open>
  C23: data that is frozen or archived, or on the way there or back, should have no other repo inside.  If so in a
  live registry whose indexes agree, then so after an accepted command, except for one command: a \<open>CommitMoveRepo\<close> of a
  repo to a path below such a repo, or of such a repo to a path above another repo.  The code accepts these moves, and
  then the state is not so any more.
\<close>

theorem registry_immutable_leaves:
  assumes "map_orders mo" and "ulid_binary ub" and "reg_live mo prec pm pu ub i st hist" and "idx_ok st"
    and "leaves_ok (gs_reposById st)" and "reg_pre st c" and "regTell mo prec g st c = Ok evs"
    and "advanceAll (regBehavior mo prec ub) (regEventOps pm pu ub) st evs = Ok st'"
  shows "leaves_ok (gs_reposById st') \<longleftrightarrow>
    (case c of RgCommitMoveRepo k w e p \<Rightarrow> move_apart (gs_reposById st) k p | _ \<Rightarrow> True)"
proof -
  have inv: "reg_inv st" by (rule aggregate.live_inv [OF reg_aggregate [OF assms(1,2)] assms(3)])
  have "reg_step c st st'" using regTell_steps [OF inv assms(1,2,6,7), of pm pu] assms(8) by auto
  then show ?thesis
    using assms(4,5) by (cases c) (simp_all add: reg_step_def reg_trans_def init_trans_def move_trans_def)
qed

theorem registry_immutable_leaves_witness:
  "leaves_ok (gs_reposById demo_frozen) \<and> (\<exists>r. RepoById demo_frozen 7 = Some r \<and> immutable r)"
proof -
  obtain hist where l: "reg_live sortedOrder noPre (\<lambda>_. Inr []) (\<lambda>_. Inl (GoErr [])) ulidUnmarshal 1 demo_reg hist"
    using demo_reg_live by blast
  obtain evs where t: "regTell sortedOrder noPre (\<lambda>_. Inr 5) demo_reg (RgBeginFreezeRepo 7 9) = Ok evs"
    "advanceAll (regBehavior sortedOrder noPre ulidUnmarshal) (regEventOps (\<lambda>_. Inr []) (\<lambda>_. Inl (GoErr [])) ulidUnmarshal) demo_reg evs = Ok demo_frozen"
    by (rule demo_freeze_tell)
  have "leaves_ok (gs_reposById demo_frozen)"
    using registry_immutable_leaves [OF sortedOrder_ok ulidUnmarshal_ok l demo_reg_agrees _ t] by simp
  then show ?thesis by (simp add: RepoById_def demo_frozen_def immutable_def)
qed

section \<open>Storage\<close>

text \<open>
  C24: the storage of every repo in the registry refines the abstract machine of operations: an accepted command
  leaves the storage state of each repo as it is or makes it take one step of the machine, with one exception: an
  \<open>InitRepo\<close> with the id of a known repo, which the code accepts, resets the storage of that repo.  No id of a repo is lost,
  and the name and the ephemeral workflows id, once set, stay.
\<close>

theorem registry_storage_refines:
  assumes "map_orders mo" and "ulid_binary ub" and "reg_inv st" and "reg_pre st c" and "regTell mo prec g st c = Ok evs"
    and "advanceAll (regBehavior mo prec ub) (regEventOps pm pu ub) st evs = Ok st'"
  shows "(if \<exists>x. c = RgInitRepo x \<and> gc_Id x = i then rgStorage st' i = NoStorage
     else rgStorage st' i = rgStorage st i \<or> storage_step (rgStorage st i) (rgStorage st' i)) \<and>
    (RepoById st i = None \<or> RepoById st' i \<noteq> None) \<and>
    (gs_info st = None \<or> gs_info st' = gs_info st) \<and>
    (gs_ephemeralWorkflowsId st = uuidNil \<or> gs_ephemeralWorkflowsId st' = gs_ephemeralWorkflowsId st)"
proof -
  have step: "reg_step c st st'" using regTell_steps [OF assms(3,1,2,4,5), of pm pu] assms(6) by auto
  have t: "dom (gs_reposById st) \<subseteq> dom (gs_reposById st')" "gs_info st \<noteq> None \<longrightarrow> gs_info st' = gs_info st"
      "gs_ephemeralWorkflowsId st \<noteq> uuidNil \<longrightarrow> gs_ephemeralWorkflowsId st' = gs_ephemeralWorkflowsId st"
    using reg_step_frame [OF step] by (simp_all add: reg_frame_def)
  have "if \<exists>x. c = RgInitRepo x \<and> gc_Id x = i then rgStorage st' i = NoStorage
     else rgStorage st' i = rgStorage st i \<or> storage_step (rgStorage st i) (rgStorage st' i)"
    using step by (cases c) (simp_all add: reg_step_def reg_trans_def init_trans_def move_trans_def storage_stays_def, metis+)
  moreover have "RepoById st i = None \<or> RepoById st' i \<noteq> None" using t(1) by (auto simp: RepoById_def)
  ultimately show ?thesis using t(2,3) by blast
qed

theorem registry_storage_refines_witness:
  "storage_step (rgStorage demo_reg 7) (rgStorage demo_frozen 7)"
proof -
  obtain evs where e: "regTell sortedOrder noPre (\<lambda>_. Inr 5) demo_reg (RgBeginFreezeRepo 7 9) = Ok evs"
    "advanceAll (regBehavior sortedOrder noPre ulidUnmarshal) (regEventOps (\<lambda>_. Inr []) (\<lambda>_. Inl (GoErr [])) ulidUnmarshal) demo_reg evs = Ok demo_frozen"
    by (rule demo_freeze_tell)
  show ?thesis
    using registry_storage_refines [OF sortedOrder_ok ulidUnmarshal_ok demo_reg_inv _ e(1,2), of 7]
    by (simp add: rgStorage_def demo_reg_def demo_frozen_def demo_info_def newRepoInfo_def)
qed

section \<open>Roots and parents\<close>

text \<open>An iteration that visits one root first, and otherwise is the sorted one.\<close>

definition orderFirst :: "string \<Rightarrow> MapOrder" where
  "orderFirst k = sortedOrder\<lparr>rangeRoots := (\<lambda>m. (if k \<in> dom m then [k] else []) @ sorted_list_of_set (dom m))\<rparr>"

lemma orderFirst_ok: "map_orders (orderFirst k)"
  by (auto simp: map_orders_def orderFirst_def sortedOrder_def)

definition stableRoot :: "(string \<rightharpoonup> rootState) \<Rightarrow> string \<Rightarrow> bool" where
  "stableRoot m p \<longleftrightarrow>
     (\<forall>mo mo'. map_orders mo \<and> map_orders mo' \<longrightarrow> findRootStateForRepo mo m p = findRootStateForRepo mo' m p)"

lemma findRoot_cases:
  assumes ok: "regRoots_ok m" and mo: "map_orders mo"
  shows "case findRootStateForRepo mo m p of None \<Rightarrow> rootsAbove m p = {} | Some r \<Rightarrow> \<exists>k \<in> rootsAbove m p. m k = Some r"
proof -
  have ks: "set (rangeRoots mo m) = dom m" using mo ok by (simp add: map_orders_def regRoots_ok_def)
  have key: "m k = Some r \<Longrightarrow> ro_GlobalRoot (rt_info r) = k" for k r using ok by (simp add: regRoots_ok_def root_ok_def)
  show ?thesis
  proof (cases "findRoot m (rangeRoots mo m) p")
    case None
    then have "rootsAbove m p = {}" using ks key by (auto simp: findRoot_None rootsAbove_def)
    then show ?thesis using None by (simp add: findRootStateForRepo_def)
  next
    case (Some r)
    then show ?thesis using findRoot_Some [OF Some] key by (auto simp: findRootStateForRepo_def rootsAbove_def)
  qed
qed

lemma stableRoot_iff:
  assumes ok: "regRoots_ok m"
  shows "stableRoot m p \<longleftrightarrow> (\<forall>k \<in> rootsAbove m p. \<forall>l \<in> rootsAbove m p. k = l)"
proof
  have key: "m k = Some r \<Longrightarrow> ro_GlobalRoot (rt_info r) = k" for k r using ok by (simp add: regRoots_ok_def root_ok_def)
  have first: "\<exists>r. m k = Some r \<and> findRootStateForRepo (orderFirst k) m p = Some r" if "k \<in> rootsAbove m p" for k
    using that key by (fastforce simp: rootsAbove_def findRootStateForRepo_def orderFirst_def)
  show "\<forall>k \<in> rootsAbove m p. \<forall>l \<in> rootsAbove m p. k = l" if stable: "stableRoot m p"
  proof (intro ballI)
    fix k l assume "k \<in> rootsAbove m p" "l \<in> rootsAbove m p"
    then obtain r s where "m k = Some r" "m l = Some s" "findRootStateForRepo (orderFirst k) m p = Some r"
      "findRootStateForRepo (orderFirst l) m p = Some s" using first by meson
    moreover have "findRootStateForRepo (orderFirst k) m p = findRootStateForRepo (orderFirst l) m p"
      using stable orderFirst_ok by (simp add: stableRoot_def)
    ultimately show "k = l" using key by (metis option.inject)
  qed
  show "stableRoot m p" if one: "\<forall>k \<in> rootsAbove m p. \<forall>l \<in> rootsAbove m p. k = l"
    unfolding stableRoot_def
  proof (intro allI impI)
    fix mo mo' assume "map_orders mo \<and> map_orders mo'"
    then show "findRootStateForRepo mo m p = findRootStateForRepo mo' m p"
      using findRoot_cases [OF ok, of mo p] findRoot_cases [OF ok, of mo' p] one
      by (auto split: option.splits)
  qed
qed

text \<open>
  C25: in a live registry, \<open>findRootStateForRepo()\<close>, which returns the first match of an iteration over a Go map,
  returns, whatever the order of the iteration, a root at or above the path, and nothing iff there is none.  The result
  for a path does not depend on the order exactly if at most one root is at or above the path, and this is so for all paths
  exactly if no root is below another one, which the code does not ensure.
\<close>

theorem registry_root_lookup_exact:
  assumes "map_orders mo" and "ulid_binary ub" and "reg_live mo prec pm pu ub i st hist"
  shows "(case findRootStateForRepo mo (gs_roots st) p of
       None \<Rightarrow> rootsAbove (gs_roots st) p = {}
     | Some r \<Rightarrow> \<exists>k \<in> rootsAbove (gs_roots st) p. gs_roots st k = Some r) \<and>
    (stableRoot (gs_roots st) p \<longleftrightarrow> (\<forall>k \<in> rootsAbove (gs_roots st) p. \<forall>l \<in> rootsAbove (gs_roots st) p. k = l)) \<and>
    ((\<forall>q. stableRoot (gs_roots st) q) \<longleftrightarrow> roots_apart (dom (gs_roots st)))"
proof -
  have inv: "reg_inv st" by (rule aggregate.live_inv [OF reg_aggregate [OF assms(1,2)] assms(3)])
  note ok = reg_invD(1) [OF inv]
  show ?thesis
    by (intro conjI findRoot_cases [OF ok assms(1)] stableRoot_iff [OF ok])
      (simp only: stableRoot_iff [OF ok] rootsAbove_apart)
qed

theorem registry_root_lookup_exact_witness:
  "findRootStateForRepo sortedOrder (gs_roots demo_frozen) ''/g/b/c'' = Some demo_root \<and> stableRoot (gs_roots demo_frozen) ''/g/b/c''"
proof -
  obtain hist where l: "reg_live sortedOrder noPre (\<lambda>_. Inr []) (\<lambda>_. Inl (GoErr [])) ulidUnmarshal 1 demo_frozen hist"
    using demo_frozen_live by blast
  have r: "gs_roots demo_frozen = [''/g'' \<mapsto> demo_root]" by (simp add: demo_frozen_def demo_reg_def)
  have a: "rootsAbove [''/g'' \<mapsto> demo_root] ''/g/b/c'' = {''/g''}"
    by (auto simp: rootsAbove_def pathIsEqualOrBelowPrefix_def HasPrefix_def)
  show ?thesis
    using registry_root_lookup_exact [OF sortedOrder_ok ulidUnmarshal_ok l, of "''/g/b/c''"]
    unfolding r a by (auto split: option.splits)
qed

text \<open>
  C26: the loop of \<open>findParentRepo()\<close> ends for every clean absolute path, and its result is the repo at the path or
  else at the nearest ancestor that has one.
\<close>

theorem registry_parent_nearest:
  assumes "cleanAbs p"
  shows "\<exists>res. findParentRepo repos p = Some res \<and>
    (case res of
       None \<Rightarrow> \<forall>q. cleanAbs q \<and> pathIsEqualOrBelowPrefix p q \<longrightarrow> repos q = None
     | Some r \<Rightarrow> \<exists>q. cleanAbs q \<and> pathIsEqualOrBelowPrefix p q \<and> repos q = Some r \<and>
         (\<forall>q'. cleanAbs q' \<and> pathIsEqualOrBelowPrefix p q' \<and> pathIsEqualOrBelowPrefix q' q \<and> q' \<noteq> q \<longrightarrow> repos q' = None))"
proof -
  obtain cs where cs: "list_all valid_comp cs" "cs \<noteq> []" "p = absPath cs" using assms cleanAbs_iff by blast
  obtain res where res: "findParentRepo repos p = Some res" "case res of
       None \<Rightarrow> \<forall>ds. ds \<noteq> [] \<longrightarrow> prefix ds cs \<longrightarrow> repos (absPath ds) = None
     | Some r \<Rightarrow> \<exists>ds. ds \<noteq> [] \<and> prefix ds cs \<and> repos (absPath ds) = Some r \<and>
         (\<forall>es. prefix ds es \<longrightarrow> prefix es cs \<longrightarrow> es \<noteq> ds \<longrightarrow> repos (absPath es) = None)"
    using findParent_clean [OF cs(1), of repos] cs(2,3) by (auto simp del: absPath_simps)
  have comps: "\<exists>ds. list_all valid_comp ds \<and> ds \<noteq> [] \<and> q = absPath ds \<and> prefix ds cs"
    if "cleanAbs q" "pathIsEqualOrBelowPrefix p q" for q
    using that cleanAbs_iff [of q] below_absPath [OF cs(1)] cs(3) by auto
  show ?thesis
  proof (intro exI [of _ res] conjI res(1))
    show "case res of
       None \<Rightarrow> \<forall>q. cleanAbs q \<and> pathIsEqualOrBelowPrefix p q \<longrightarrow> repos q = None
     | Some r \<Rightarrow> \<exists>q. cleanAbs q \<and> pathIsEqualOrBelowPrefix p q \<and> repos q = Some r \<and>
         (\<forall>q'. cleanAbs q' \<and> pathIsEqualOrBelowPrefix p q' \<and> pathIsEqualOrBelowPrefix q' q \<and> q' \<noteq> q \<longrightarrow> repos q' = None)"
    proof (cases res)
      case None
      then show ?thesis using res(2) by simp (metis comps)
    next
      case (Some r)
      then obtain ds where ds: "ds \<noteq> []" "prefix ds cs" "repos (absPath ds) = Some r"
          "\<forall>es. prefix ds es \<longrightarrow> prefix es cs \<longrightarrow> es \<noteq> ds \<longrightarrow> repos (absPath es) = None" using res(2) by auto
      have v: "list_all valid_comp ds" using cs(1) ds(2) by (auto simp: prefix_def)
      have "repos q' = None" if q': "cleanAbs q'" "pathIsEqualOrBelowPrefix p q'" "pathIsEqualOrBelowPrefix q' (absPath ds)" "q' \<noteq> absPath ds" for q'
      proof -
        obtain es where es: "list_all valid_comp es" "q' = absPath es" "prefix es cs" using comps [OF q'(1,2)] by blast
        have "prefix ds es" using below_absPath [OF es(1) v ds(1)] q'(3) es(2) by simp
        then show ?thesis using ds(4) es(2,3) q'(4) by auto
      qed
      moreover have "cleanAbs (absPath ds)" using v ds(1) cleanAbs_iff by blast
      moreover have "pathIsEqualOrBelowPrefix p (absPath ds)" using below_absPath [OF cs(1) v ds(1)] ds(2) cs(3) by simp
      ultimately show ?thesis using Some ds(3) by auto
    qed
  qed
qed

theorem registry_parent_nearest_witness:
  "\<exists>res. findParentRepo (gs_reposByName demo_reg) ''/g/a'' = Some res"
  using registry_parent_nearest [of "''/g/a''" "gs_reposByName demo_reg"] cleanAbs_demo by auto

text \<open>
  The loop does not end for a relative path in an empty registry, and neither does \<open>InitRepo\<close> for the root directory
  of a registry whose root is the root directory: both paths are trimmed to the empty string.
\<close>

lemma registry_parent_diverges: "findParentRepo Map.empty [] = None" "findParentRepo Map.empty ''.'' = None"
proof -
  have d: "Dir [] = ''.''" "Dir ''.'' = ''.''" by (simp_all add: Dir_def Clean_def IsAbs_def Let_def)
  define P where "P = (\<lambda>(repos :: string \<rightharpoonup> RepoInfo) p (res :: RepoInfo option). \<not> (repos = Map.empty \<and> (p = [] \<or> p = ''.'')))"
  have "P repos p res" if "findParentRepo repos p = Some res" for repos p res
    using _ that
  proof (rule findParentRepo.raw_induct)
    fix f :: "(string \<rightharpoonup> RepoInfo) \<Rightarrow> string \<Rightarrow> RepoInfo option option" and N q y
    assume IH: "\<And>N q y. f N q = Some y \<Longrightarrow> P N q y"
      and f: "(if q = ''/'' then Some None else case N q of None \<Rightarrow> f N (Dir q) | Some r \<Rightarrow> Some (Some r)) = Some y"
    show "P N q y"
    proof (rule ccontr)
      assume "\<not> P N q y"
      then have q: "N = Map.empty" "q = [] \<or> q = ''.''" by (auto simp: P_def)
      then have "f N ''.'' = Some y" using f d by auto
      from IH [OF this] show False using q by (simp add: P_def)
    qed
  qed
  then show "findParentRepo Map.empty [] = None" "findParentRepo Map.empty ''.'' = None"
    unfolding P_def by (metis not_Some_eq)+
qed

lemma registry_init_root_dir_diverges:
  assumes "gs_info st \<noteq> None" and "gs_reposByName st = Map.empty" and "rangeRoots mo (gs_roots st) = [[]]"
    and "gs_roots st [] = Some r" and "ro_GlobalRoot (rt_info r) = []" and "rt_repoInitPolicy r = None"
    and "gc_GlobalPath c = ''/''" and "gc_CreatorName c \<noteq> []" and "gc_CreatorEmail c \<noteq> []"
  shows "is_Panic (regTell mo prec g st (RgInitRepo c))"
  using assms registry_parent_diverges(1)
  by (simp add: rgTellInitRepo_def TrimRight_def findRootStateForRepo_def pathIsEqualOrBelowPrefix_def HasPrefix_def
      WhichSubdirTracking_def)

section \<open>Split root configs\<close>

text \<open>
  C27: a split root config in a live registry always has a depth from 1 to 8 and positive limits, although the
  commands accept zeros, which stand for defaults.
\<close>

theorem registry_split_bounds:
  assumes "map_orders mo" and "ulid_binary ub" and "reg_live mo prec pm pu ub i st hist"
    and "SplitRootConfigOf st k = Some c"
  shows "1 \<le> sint (sr_MaxDepth c) \<and> sint (sr_MaxDepth c) \<le> 8 \<and> 0 < sint (sr_MinDiskUsage c) \<and> 0 < sint (sr_MaxDiskUsage c)"
proof -
  have inv: "reg_inv st" by (rule aggregate.live_inv [OF reg_aggregate [OF assms(1,2)] assms(3)])
  obtain r where r: "gs_roots st k = Some r" "rt_splitRootConfig r = Some c"
    using assms(4) by (auto simp: SplitRootConfigOf_def split: option.splits)
  then show ?thesis using reg_invD(4) [OF inv r(1)] by (simp add: root_ok_def split_ok_def)
qed

lemma live_emitted_all:
  assumes live: "reg_live mo prec pm pu ub i st hist" and pre: "reg_pre st c"
    and tell: "regTell mo prec (\<lambda>_. Inr v) st c = rgEmit (\<lambda>_. Inr v) st pbs" and msg: "list_all2 (reg_pb_ev ub) pbs es"
    and adv: "regApply mo st es = Ok st'"
  shows "\<exists>w hist'. reg_live mo prec pm pu ub i (st'\<lparr>gs_vid := w\<rparr>) hist'"
proof -
  obtain evs where evs: "newEventsLoop regSetPb (\<lambda>_. Inr v) 0 (gs_vid st) pbs = Inr evs"
    using newEventsLoop_Inr [of "\<lambda>_. Inr v"] by blast
  then have "regTell mo prec (\<lambda>_. Inr v) st c = Ok evs" using tell by (simp add: rgEmit_def rgNewEvents_def)
  with advanceAll_rgNewEvents [OF msg evs, of mo prec pm pu st] adv live_tell [OF live pre]
  show ?thesis by fastforce
qed

theorem registry_split_bounds_witness:
  "\<exists>st c. SplitRootConfigOf st ''/g'' = Some c \<and> sr_MaxDepth c = 3 \<and> sint (sr_MaxDepth c) \<le> 8"
proof -
  let ?c = "\<lparr>sr_MaxDepth = 0, sr_MinDiskUsage = 0, sr_MaxDiskUsage = 0\<rparr>"
  let ?x = "\<lparr>sp_GlobalRoot = [], sp_MaxDepth = 3, sp_MinDiskUsage = 20 * 2 ^ 30, sp_MaxDiskUsage = 400 * 2 ^ 30\<rparr>"
  let ?r = "demo_root\<lparr>rt_splitRootConfig := Some \<lparr>sr_MaxDepth = 3, sr_MinDiskUsage = 20 * 2 ^ 30, sr_MaxDiskUsage = 400 * 2 ^ 30\<rparr>\<rparr>"
  let ?st = "demo_frozen\<lparr>gs_roots := [''/g'' \<mapsto> ?r]\<rparr>"
  obtain hist where l: "reg_live sortedOrder noPre (\<lambda>_. Inr []) (\<lambda>_. Inl (GoErr [])) ulidUnmarshal 1 demo_frozen hist"
    using demo_frozen_live by blast
  have r: "gs_roots demo_frozen = [''/g'' \<mapsto> demo_root]" "gs_info demo_frozen = Some ''reg''" "rt_splitRootConfig demo_root = None"
    by (simp_all add: demo_frozen_def demo_reg_def demo_root_def newRootState_def)
  have t: "regTell sortedOrder noPre (\<lambda>_. Inr 6) demo_frozen (RgCreateSplitRootConfig ''/g'' (Some ?c)) =
      rgEmit (\<lambda>_. Inr 6) demo_frozen [NewSplitRootEnabled ''/g'', NewSplitRootParamsUpdated ''/g'' ?x]"
    by (simp add: rgTellCreateSplitRootConfig_def splitCheckTell_def r TrimRight_def Let_def)
  have a: "regApply sortedOrder demo_frozen [RvSplitRootEnabled ''/g'', RvSplitRootParamsUpdated (?x\<lparr>sp_GlobalRoot := ''/g''\<rparr>)] = Ok ?st"
    by (simp add: updateRoot_def r)
  have m: "list_all2 (reg_pb_ev ulidUnmarshal) [NewSplitRootEnabled ''/g'', NewSplitRootParamsUpdated ''/g'' ?x]
      [RvSplitRootEnabled ''/g'', RvSplitRootParamsUpdated (?x\<lparr>sp_GlobalRoot := ''/g''\<rparr>)]"
    using pbev_root(6) [of "''/g''"] pbev_root(8) [of "''/g''" ?x] by simp
  obtain w hist' where l': "reg_live sortedOrder noPre (\<lambda>_. Inr []) (\<lambda>_. Inl (GoErr [])) ulidUnmarshal 1 (?st\<lparr>gs_vid := w\<rparr>) hist'"
    using live_emitted_all [OF l _ t m a] by auto
  have s: "SplitRootConfigOf (?st\<lparr>gs_vid := w\<rparr>) ''/g'' = Some \<lparr>sr_MaxDepth = 3, sr_MinDiskUsage = 20 * 2 ^ 30, sr_MaxDiskUsage = 400 * 2 ^ 30\<rparr>"
    by (simp add: SplitRootConfigOf_def)
  note b = registry_split_bounds [OF sortedOrder_ok ulidUnmarshal_ok l' s]
  show ?thesis by (intro exI, rule conjI [OF s conjI]) (simp, rule b [THEN conjunct2, THEN conjunct1])
qed

section \<open>Path flags\<close>

text \<open>
  Setting flags on a path adds them to the flags of its clean form and unsetting removes them; other paths keep
  theirs, and a path without flags is not stored.
\<close>

theorem registry_path_flags:
  assumes "reg_inv st" and "map_orders mo" and "ulid_binary ub"
    and "regTell mo prec g st (if b then RgSetPathFlags p f else RgUnsetPathFlags p f) = Ok evs"
    and "advanceAll (regBehavior mo prec ub) (regEventOps pm pu ub) st evs = Ok st'"
  shows "flagsAt (gs_pathFlags st') q =
      (if q = Clean p then (if b then or (flagsAt (gs_pathFlags st) q) f else and (flagsAt (gs_pathFlags st) q) (not f))
       else flagsAt (gs_pathFlags st) q) \<and>
    gs_pathFlags st' q \<noteq> Some 0"
proof -
  have "reg_frame st st'"
    using regTell_advances [OF assms(1-3) _ assms(4), of pm pu] assms(5) by (auto split: if_splits)
  then have "gs_pathFlags st' q \<noteq> Some 0"
    by (auto simp: reg_frame_def reg_inv_def flags_ok_def)
  moreover have "flagsAt (gs_pathFlags st') q =
      (if q = Clean p then (if b then or (flagsAt (gs_pathFlags st) q) f else and (flagsAt (gs_pathFlags st) q) (not f))
       else flagsAt (gs_pathFlags st) q)"
  proof (cases "evs = []")
    case True
    have "if b then or (flagsAt (gs_pathFlags st) (Clean p)) f = flagsAt (gs_pathFlags st) (Clean p)
      else and (flagsAt (gs_pathFlags st) (Clean p)) (not f) = flagsAt (gs_pathFlags st) (Clean p)"
      using assms(4) True
      by (cases b) (auto simp: rgTellSetPathFlags_def rgTellUnsetPathFlags_def rgEmit_Ok rgNewEvents_def Let_def
          split: if_splits sum.splits)
    then show ?thesis using assms(5) True by auto
  next
    case False
    show ?thesis
    proof (cases b)
      case True
      have emit: "rgEmit g st [NewPathFlagSet (Clean p) f] = Ok evs"
        using assms(4) True False by (auto simp: rgTellSetPathFlags_def Let_def split: if_splits)
      show ?thesis
        using advance_emitted [OF emit pbev_registry(4) regAdvanceEv.simps(22), where mo = mo and prec = prec and pm = pm and pu = pu and ub = ub]
          assms(5) True by (auto simp: flagsAt_def)
    next
      case b: False
      have emit: "rgEmit g st [NewPathFlagUnset (Clean p) f] = Ok evs"
        using assms(4) b False by (auto simp: rgTellUnsetPathFlags_def Let_def split: if_splits)
      show ?thesis
        using advance_emitted [OF emit pbev_registry(5) regAdvanceEv.simps(23) [unfolded Let_def],
            where mo = mo and prec = prec and pm = pm and pu = pu and ub = ub]
          assms(5) b by (auto simp: flagsAt_def)
    qed
  qed
  ultimately show ?thesis by blast
qed

theorem registry_path_flags_witness:
  "\<exists>evs st'. regTell sortedOrder noPre (\<lambda>_. Inr 6) demo_reg (RgSetPathFlags ''/g/'' 4) = Ok evs \<and>
     advanceAll (regBehavior sortedOrder noPre ulidUnmarshal) (regEventOps (\<lambda>_. Inr []) (\<lambda>_. Inl (GoErr [])) ulidUnmarshal) demo_reg evs = Ok st' \<and>
     flagsAt (gs_pathFlags st') ''/g'' = 4"
proof -
  have c: "Clean ''/g/'' = ''/g''" by (simp add: Clean_def IsAbs_def Let_def)
  have z: "flagsAt (gs_pathFlags demo_reg) q = 0" for q by (simp add: demo_reg_def regNewState_def flagsAt_def)
  obtain evs where e: "rgEmit (\<lambda>_. Inr 6) demo_reg [NewPathFlagSet ''/g'' 4] = Ok evs" by (simp add: rgEmit_def rgNewEvents_def)
  have t: "regTell sortedOrder noPre (\<lambda>_. Inr 6) demo_reg (if True then RgSetPathFlags ''/g/'' 4 else RgUnsetPathFlags ''/g/'' 4) = Ok evs"
    using e z by (simp add: rgTellSetPathFlags_def c IsAbs_def) (simp add: demo_reg_def)
  obtain st' where a: "advanceAll (regBehavior sortedOrder noPre ulidUnmarshal) (regEventOps (\<lambda>_. Inr []) (\<lambda>_. Inl (GoErr [])) ulidUnmarshal) demo_reg evs = Ok st'"
    using advance_emitted [OF e pbev_registry(4) regAdvanceEv.simps(22)] by blast
  show ?thesis using registry_path_flags [OF demo_reg_inv sortedOrder_ok ulidUnmarshal_ok t a, of "''/g''"] t a z c by auto
qed

section \<open>Events\<close>

lemma reg_pbs_wf:
  assumes "list_all2 (reg_pb_ev ub) pbs es" and "newEventsLoop regSetPb g n v pbs = Inr evs"
  shows "\<forall>ev \<in> set evs. reg_event_wf ub ev"
  using assms
proof (induction pbs arbitrary: n v es evs)
  case (Cons p ps)
  obtain e es' where es: "reg_pb_ev ub p e" "list_all2 (reg_pb_ev ub) ps es'"
    using Cons.prems(1) unfolding list_all2_Cons1 by blast
  obtain i evs' where evs: "evs = \<lparr>ev_id = i, ev_parent = v, ev_pb = regSetPb i v p\<rparr> # evs'"
    "newEventsLoop regSetPb g (Suc n) i ps = Inr evs'"
    using Cons.prems(2) by (auto split: sum.splits)
  have "reg_event_wf ub \<lparr>ev_id = i, ev_parent = v, ev_pb = regSetPb i v p\<rparr>"
    using es(1) by (auto simp: reg_event_wf_def reg_pb_ev_def) (auto simp: regSetPb_def reg_pb_ok_def)
  then show ?case using Cons.IH [OF es(2) evs(2)] evs(1) by simp
qed simp

text \<open>
  C29: the events of a command whose caller keeps its obligations survive the journal: what \<open>MarshalProto()\<close>
  writes, \<open>UnmarshalProto()\<close> reads back as the same event, given the documented behaviour of the protobuf and ULID
  libraries.  The obligations exclude the event \<open>EV_FSO_ROOT_UPDATED\<close>, which \<open>EnableGitlab\<close> and \<open>DisableGitlab\<close> emit when they
  change the namespace of a root, and which panics when it is read back.
\<close>

theorem registry_tell_events_roundtrip:
  assumes "reg_codec pm pu" and "ulid_binary ub" and "map_orders mo" and "reg_inv st" and "reg_pre st c"
    and "regTell mo prec g st c = Ok evs" and "e \<in> set evs" and "regMarshalProto pm e = Inr bs"
  shows "regUnmarshalProto pu ub bs = Ok e"
proof -
  obtain pbs es st' where "rgNewEvents g (gs_vid st) pbs = Inr evs" "list_all2 (reg_pb_ev ub) pbs es"
    using regTell_result [OF assms(4,3,2,5,6)] by (auto simp: reg_result_def)
  then have "reg_event_wf ub e" using reg_pbs_wf assms(7) by (auto simp: rgNewEvents_def)
  then show ?thesis by (rule reg_roundtrip [OF assms(1,2) _ assms(8)])
qed

theorem registry_tell_events_roundtrip_witness:
  "\<exists>e. regUnmarshalProto (\<lambda>bs. Inr (regSetPb 6 2 (NewPathFlagSet ''/g'' 4))) ulidUnmarshal [1] = Ok e \<and> ev_id e = 6"
proof -
  let ?p = "regSetPb 6 2 (NewPathFlagSet ''/g'' 4)"
  let ?pm = "\<lambda>p. if p = ?p then Inr [1] else Inl (GoErr [])" and ?pu = "\<lambda>bs. Inr ?p"
  have t: "regTell sortedOrder noPre (\<lambda>_. Inr 6) demo_reg (RgSetPathFlags ''/g'' 4) = Ok [\<lparr>ev_id = 6, ev_parent = 2, ev_pb = ?p\<rparr>]"
    by (simp add: rgTellSetPathFlags_def Clean_def IsAbs_def Let_def flagsAt_def rgEmit_def rgNewEvents_def demo_reg_def regNewState_def)
  have "regUnmarshalProto ?pu ulidUnmarshal [1] = Ok \<lparr>ev_id = 6, ev_parent = 2, ev_pb = ?p\<rparr>"
    by (rule registry_tell_events_roundtrip [where pm = ?pm, OF _ ulidUnmarshal_ok sortedOrder_ok demo_reg_inv _ t])
      (simp_all add: reg_codec_def regMarshalProto_def)
  then show ?thesis by simp
qed

section \<open>Limits of the checks\<close>

text \<open>
  Enabling GitLab on a root emits an event that \<open>FromPbValidate()\<close> hands to the parser of another event type, which
  panics: the call itself panics when it advances, and so does every later load of the history.
\<close>

lemma registry_enable_gitlab_panics:
  assumes "gs_info st \<noteq> None" and "gs_roots st (TrimRight k (CHR ''/'')) = Some r" and "ContainsChar (TrimRight ns (CHR ''/'')) (CHR ''/'')"
    and "ro_GitlabNamespace (rt_info r) \<noteq> TrimRight ns (CHR ''/'')" and "g 0 = Inr i"
  shows "\<exists>evs. regTell mo prec g st (RgEnableGitlab k ns) = Ok evs \<and>
    is_Panic (advanceAll (regBehavior mo prec ub) (regEventOps pm pu ub) st evs)"
  using assms
  by (auto simp: rgTellEnableGitlab_def Let_def rgEmit_def rgNewEvents_def regBehavior_def regAdvance_def rgFromPbMust_def
      rgFromPbValidate_def regSetPb_def NewRootUpdated_def registryPb_def fromPbRootRemoved_def rgGuard_def)

text \<open>
  A naming for a root with a trailing slash passes the checks, which trim the slash, and is emitted as it is, so that
  \<open>Advance()\<close> does not find the root.
\<close>

lemma registry_naming_slash_panics:
  assumes "gs_info st \<noteq> None" and "ValidateRepoNaming (Some n) = None" and "gs_roots st (TrimRight (nm_GlobalRoot n) (CHR ''/'')) = Some r"
    and "gs_roots st (nm_GlobalRoot n) = None" and "rt_repoNaming r = None" and "g 0 = Inr i"
  shows "\<exists>evs. regTell mo prec g st (RgSetRepoNaming (Some n)) = Ok evs \<and>
    is_Panic (advanceAll (regBehavior mo prec ub) (regEventOps pm pu ub) st evs)"
  using assms
  by (auto simp: rgTellSetRepoNaming_def namingEqual_def rgEmit_def rgNewEvents_def regBehavior_def regAdvance_def rgFromPbMust_def
      rgFromPbValidate_def regSetPb_def NewRepoNamingUpdated_def registryPb_def fromPbRepoNamingUpdated_def rgGuard_def)

text \<open>A patch for a root without a naming dereferences a nil pointer.\<close>

lemma registry_patch_nil_panics:
  assumes "gs_info st \<noteq> None" and "ValidateRepoNamingPatch (Some n) = None"
    and "gs_roots st (TrimRight (nm_GlobalRoot n) (CHR ''/'')) = Some r" and "rt_repoNaming r = None"
  shows "is_Panic (regTell mo prec g st (RgPatchRepoNaming (Some n)))"
  using assms by (simp add: rgTellPatchRepoNaming_def Repo_Events.deref_def)

text \<open>Removing a root does not look for repos: the root of a repo below it is then a panic.\<close>

lemma registry_remove_root_orphans:
  assumes "RepoById st i = Some r" and "\<forall>k \<in> set (rangeRoots mo (gs_roots st)). gs_roots st k = None"
  shows "is_Panic (RepoRoot mo st i) \<and> is_Panic (RepoAclPolicy mo st i)"
proof -
  have "findRoot (gs_roots st) (rangeRoots mo (gs_roots st)) (gi_GlobalPath r) = None"
    using assms(2) by (auto simp: findRoot_None)
  then show ?thesis using assms(1) by (simp add: RepoRoot_def RepoAclPolicy_def repoRootState_def RepoById_def)
qed

text \<open>Two moves to the same path: the second one takes the path from the first, which is lost from the index by name.\<close>

lemma registry_move_loses_repo:
  assumes "gs_reposById st i = Some r" and "gi_newGlobalPath r = p" and "gs_reposByName st p = Some q" and "p \<noteq> gi_GlobalPath r"
  shows "\<exists>st'. regAdvanceEv mo st (RvRepoMoved i ev (gi_moveRepoWorkflow r) p) = Ok st' \<and>
    RepoByPath st' p = Some (r\<lparr>gi_GlobalPath := p, gi_newGlobalPath := []\<rparr>)"
  using assms by (simp add: putRepo_def RepoByPath_def)

text \<open>
  \<open>InitRoot\<close> does not look for roots above or below the new one, and accepts the root directory, which is trimmed to the
  empty path; the events of split root configs for that root are refused by their parser, which panics.
\<close>

lemma registry_nested_root_accepted:
  assumes "gs_info st \<noteq> None" and "gs_roots st (TrimRight k (CHR ''/'')) = None" and "l \<in> dom (gs_roots st)"
    and "pathIsEqualOrBelowPrefix (TrimRight k (CHR ''/'')) l" and "g 0 = Inr i"
  shows "\<exists>evs st'. regTell mo prec g st (RgInitRoot k h b []) = Ok evs \<and>
    advanceAll (regBehavior mo prec ub) (regEventOps pm pu ub) st evs = Ok st' \<and> \<not> roots_apart (dom (gs_roots st'))"
proof -
  let ?x = "\<lparr>fr_GlobalRoot = TrimRight k (CHR ''/''), fr_Host = h, fr_HostRoot = TrimRight b (CHR ''/''), fr_GitlabNamespace = []\<rparr>"
  have t: "regTell mo prec g st (RgInitRoot k h b []) = rgEmit g st [NewRootAdded ?x]"
    using assms(1,2) by (auto simp: rgTellInitRoot_def TrimRight_def Let_def)
  obtain evs where evs: "rgEmit g st [NewRootAdded ?x] = Ok evs" using assms(5) by (simp add: rgEmit_def rgNewEvents_def)
  obtain v where a: "advanceAll (regBehavior mo prec ub) (regEventOps pm pu ub) st evs =
      Ok (st\<lparr>gs_roots := (gs_roots st)(TrimRight k (CHR ''/'') \<mapsto> newRootState ?x), gs_vid := v\<rparr>)"
    using advance_emitted [OF evs pbev_root(1) regAdvanceEv.simps(4), where mo = mo and prec = prec and pm = pm and pu = pu and ub = ub] by auto
  have "TrimRight k (CHR ''/'') \<noteq> l" using assms(2,3) by auto
  then have "\<not> roots_apart (dom ((gs_roots st)(TrimRight k (CHR ''/'') \<mapsto> newRootState ?x)))"
    using assms(3,4) by (auto simp: roots_apart_def)
  then show ?thesis using t evs a by simp
qed

lemma registry_empty_root_panics:
  assumes "gs_info st \<noteq> None" and "gs_roots st [] = Some r" and "rt_splitRootConfig r = None" and "g 0 = Inr i" and "g 1 = Inr j"
  shows "\<exists>evs. regTell mo prec g st (RgCreateSplitRootConfig ''/'' (Some \<lparr>sr_MaxDepth = 0, sr_MinDiskUsage = 0, sr_MaxDiskUsage = 0\<rparr>)) = Ok evs \<and>
    is_Panic (advanceAll (regBehavior mo prec ub) (regEventOps pm pu ub) st evs)"
  using assms
  by (auto simp: rgTellCreateSplitRootConfig_def splitCheckTell_def TrimRight_def Let_def rgEmit_def rgNewEvents_def
      regBehavior_def regAdvance_def rgFromPbMust_def rgFromPbValidate_def regSetPb_def reg_new_defs reg_fromPb_defs rgGuard_def)

text \<open>
  \<open>InitRepo\<close> does not look for the id: with the id of a known repo and a new path, it replaces the repo in the index by id,
  and its storage state is lost, while the index by path keeps both.
\<close>

lemma registry_init_taken_id:
  assumes "reg_inv st" and "map_orders mo" and "ulid_binary ub" and "regTell mo prec g st (RgInitRepo c) = Ok evs"
    and "gc_Id c \<noteq> uuidNil" and "cleanAbs (TrimRight (gc_GlobalPath c) (CHR ''/''))"
    and "advanceAll (regBehavior mo prec ub) (regEventOps pm pu ub) st evs = Ok st'" and "RepoById st (gc_Id c) = Some r" and "idx_ok st"
  shows "\<not> idx_ok st' \<and> rgStorage st' (gc_Id c) = NoStorage"
  using regTell_steps [OF assms(1-3) _ assms(4), of pm pu] assms(5-9)
  by (auto simp: reg_step_def init_trans_def RepoById_def)

lemma registry_init_taken_id_accepted:
  "\<exists>evs. regTell sortedOrder noPre (\<lambda>_. Inr 5) demo_reg
     (RgInitRepo \<lparr>gc_Context = 0, gc_Id = 7, gc_GlobalPath = ''/g/b'', gc_CreatorName = ''a'', gc_CreatorEmail = ''a@b''\<rparr>) = Ok evs \<and>
     RepoById demo_reg 7 = Some demo_info \<and> evs \<noteq> []"
proof -
  have r: "findRootStateForRepo sortedOrder (gs_roots demo_reg) ''/g/b'' = Some demo_root"
    by (simp add: findRootStateForRepo_def sortedOrder_def demo_reg_def demo_root_def newRootState_def
        pathIsEqualOrBelowPrefix_def HasPrefix_def)
  have p: "findParentRepo (gs_reposByName demo_reg) ''/g/b'' = Some None"
    by (subst findParentRepo.simps, simp add: demo_reg_def Dir_def Clean_def IsAbs_def Let_def)+
  show ?thesis
    using r p
    by (simp add: rgTellInitRepo_def Let_def TrimRight_def demo_root_def RepoById_def
        newRootState_def WhichSubdirTracking_def isInitRepoAllowed_def noPre_def rootHostPath_def HasPrefix_def)
      (simp add: demo_reg_def rgEmit_def rgNewEvents_def)
qed

text \<open>
  Neither \<open>BeginMoveRepo\<close> nor \<open>CommitMoveRepo\<close> looks for repos above or below the new path: a repo can be moved below a
  frozen one.
\<close>

lemma registry_move_below_frozen:
  assumes "reg_inv st" and "map_orders mo" and "ulid_binary ub" and "gs_reposById st i = Some r"
    and "gi_moveRepoWorkflow r = w" and "w \<noteq> uuidNil" and "gi_newGlobalPath r = p" and "p \<noteq> []" and "g 0 = Inr v"
    and "leaves_ok (gs_reposById st)" and "gs_reposById st k = Some x" and "k \<noteq> i" and "gi_StorageTier x = StorageFrozen"
    and "pathIsEqualOrBelowPrefix p (gi_GlobalPath x)"
  shows "\<exists>evs st'. regTell mo prec g st (RgCommitMoveRepo i w e p) = Ok evs \<and>
    advanceAll (regBehavior mo prec ub) (regEventOps pm pu ub) st evs = Ok st' \<and> \<not> leaves_ok (gs_reposById st')"
proof -
  note d = reg_invD(5) [OF assms(1,4)] reg_invD(5) [OF assms(1,11)]
  obtain evs where t: "regTell mo prec g st (RgCommitMoveRepo i w e p) = Ok evs"
    using assms(4-9) d by (simp add: rgTellCommitMoveRepo_def hasActiveMoveRepo_def rgEmit_def rgNewEvents_def)
  have "\<not> move_apart (gs_reposById st) i p"
    using assms(11-14) d(2) ranI [of "gs_reposById st" k x] by (auto simp: move_apart_def immutable_def)
  then show ?thesis
    using regTell_steps [OF assms(1-3) _ t, of pm pu] assms(10) t by (auto simp: reg_step_def move_trans_def)
qed

text \<open>\<open>conflictsWith()\<close> does not compare the maximum.\<close>

lemma registry_conflict_ignores_max:
  "sr_MaxDepth a = sr_MaxDepth b \<Longrightarrow> sr_MinDiskUsage a = sr_MinDiskUsage b \<Longrightarrow> \<not> conflictsWith a b"
  by (simp add: conflictsWith_def)

end
