(* ===== verification/Workflow_Events.thy ===== *)
theory Workflow_Events
  imports Registry_Events
begin

text \<open>
  Events of workflows and of workflow indexes (\<open>backend/internal/workflows/events\<close>): the protobuf message
  \<open>WorkflowEvent\<close>, the constructors \<open>NewPb*()\<close> with their validation, the parsers \<open>fromPb*()\<close> and the struct
  \<open>Event\<close>.  One message type serves all workflows; the packages of the workflows accept their event types only.
\<close>

section \<open>The message\<close>

text \<open>
  The enumeration is flat in the source.  Here its values are grouped by the workflow that they belong to, and so are the
  events below; the abbreviations are the names of the source.
\<close>

datatype (plugins only: code) WfIndexEventType =
    T_SNAPSHOT_BEGIN | T_SNAPSHOT_END
  | T_WORKFLOW_INDEX_SNAPSHOT_STATE

datatype (plugins only: code) WfMoveEventType =
    T_FSO_REPO_MOVE_STARTED | T_FSO_REPO_MOVE_STA_RELEASED
  | T_FSO_REPO_MOVE_APP_ACCEPTED | T_FSO_REPO_MOVE_COMMITTED | T_FSO_REPO_MOVED

datatype (plugins only: code) WfShadowEventType =
    T_FSO_SHADOW_REPO_MOVE_STARTED | T_FSO_SHADOW_REPO_MOVED
  | T_FSO_SHADOW_REPO_MOVE_STA_DISABLED | T_FSO_SHADOW_REPO_MOVE_COMMITTED

datatype (plugins only: code) WfDuEventType =
    T_FSO_DU_ROOT_STARTED | T_FSO_DU_UPDATED
  | T_FSO_DU_ROOT_COMPLETED | T_FSO_DU_ROOT_COMMITTED | T_FSO_DU_ROOT_DELETED

datatype (plugins only: code) WfPingEventType =
    T_FSO_PING_REGISTRY_STARTED | T_FSO_SERVER_PINGED
  | T_FSO_SERVER_PINGS_GATHERED | T_FSO_PING_REGISTRY_COMPLETED | T_FSO_PING_REGISTRY_COMMITTED
  | T_FSO_PING_REGISTRY_DELETED

datatype (plugins only: code) WfSplitEventType =
    T_FSO_SPLIT_ROOT_STARTED | T_FSO_SPLIT_ROOT_DU_APPENDED
  | T_FSO_SPLIT_ROOT_DU_COMPLETED | T_FSO_SPLIT_ROOT_SUGGESTION_APPENDED | T_FSO_SPLIT_ROOT_ANALYSIS_COMPLETED
  | T_FSO_SPLIT_ROOT_DECISION_APPENDED | T_FSO_SPLIT_ROOT_COMPLETED | T_FSO_SPLIT_ROOT_COMMITTED
  | T_FSO_SPLIT_ROOT_DELETED

datatype (plugins only: code) WfFreezeEventType =
    T_FSO_FREEZE_REPO_STARTED_2
  | T_FSO_FREEZE_REPO_FILES_STARTED | T_FSO_FREEZE_REPO_FILES_COMPLETED | T_FSO_FREEZE_REPO_COMPLETED_2
  | T_FSO_FREEZE_REPO_COMMITTED | T_FSO_FREEZE_REPO_DELETED

datatype (plugins only: code) WfUnfreezeEventType =
    T_FSO_UNFREEZE_REPO_STARTED_2
  | T_FSO_UNFREEZE_REPO_FILES_STARTED | T_FSO_UNFREEZE_REPO_FILES_COMPLETED | T_FSO_UNFREEZE_REPO_COMPLETED_2
  | T_FSO_UNFREEZE_REPO_COMMITTED | T_FSO_UNFREEZE_REPO_DELETED

datatype (plugins only: code) WfArchiveEventType =
    T_FSO_ARCHIVE_REPO_STARTED
  | T_FSO_ARCHIVE_REPO_FILES_STARTED | T_FSO_ARCHIVE_REPO_TARTT_COMPLETED | T_FSO_ARCHIVE_REPO_SWAP_STARTED
  | T_FSO_ARCHIVE_REPO_FILES_COMPLETED | T_FSO_ARCHIVE_REPO_FILES_COMMITTED | T_FSO_ARCHIVE_REPO_GC_COMPLETED
  | T_FSO_ARCHIVE_REPO_COMPLETED | T_FSO_ARCHIVE_REPO_COMMITTED | T_FSO_ARCHIVE_REPO_DELETED

datatype (plugins only: code) WfUnarchiveEventType =
    T_FSO_UNARCHIVE_REPO_STARTED
  | T_FSO_UNARCHIVE_REPO_FILES_STARTED | T_FSO_UNARCHIVE_REPO_TARTT_STARTED
  | T_FSO_UNARCHIVE_REPO_TARTT_COMPLETED | T_FSO_UNARCHIVE_REPO_FILES_COMPLETED
  | T_FSO_UNARCHIVE_REPO_FILES_COMMITTED | T_FSO_UNARCHIVE_REPO_GC_COMPLETED | T_FSO_UNARCHIVE_REPO_COMPLETED
  | T_FSO_UNARCHIVE_REPO_COMMITTED | T_FSO_UNARCHIVE_REPO_DELETED

datatype (plugins only: code) WorkflowEvent_Type =
    WT_INDEX WfIndexEventType | WT_MOVE WfMoveEventType
  | WT_SHADOW WfShadowEventType | WT_DU WfDuEventType | WT_PING WfPingEventType | WT_SPLIT WfSplitEventType
  | WT_FREEZE WfFreezeEventType | WT_UNFREEZE WfUnfreezeEventType | WT_ARCHIVE WfArchiveEventType
  | WT_UNARCHIVE WfUnarchiveEventType | WT_OTHER int

abbreviation WT_SNAPSHOT_BEGIN where "WT_SNAPSHOT_BEGIN \<equiv> WT_INDEX T_SNAPSHOT_BEGIN"
abbreviation WT_SNAPSHOT_END where "WT_SNAPSHOT_END \<equiv> WT_INDEX T_SNAPSHOT_END"
abbreviation WT_WORKFLOW_INDEX_SNAPSHOT_STATE where "WT_WORKFLOW_INDEX_SNAPSHOT_STATE \<equiv> WT_INDEX T_WORKFLOW_INDEX_SNAPSHOT_STATE"
abbreviation WT_FSO_REPO_MOVE_STARTED where "WT_FSO_REPO_MOVE_STARTED \<equiv> WT_MOVE T_FSO_REPO_MOVE_STARTED"
abbreviation WT_FSO_REPO_MOVE_STA_RELEASED where "WT_FSO_REPO_MOVE_STA_RELEASED \<equiv> WT_MOVE T_FSO_REPO_MOVE_STA_RELEASED"
abbreviation WT_FSO_REPO_MOVE_APP_ACCEPTED where "WT_FSO_REPO_MOVE_APP_ACCEPTED \<equiv> WT_MOVE T_FSO_REPO_MOVE_APP_ACCEPTED"
abbreviation WT_FSO_REPO_MOVE_COMMITTED where "WT_FSO_REPO_MOVE_COMMITTED \<equiv> WT_MOVE T_FSO_REPO_MOVE_COMMITTED"
abbreviation WT_FSO_REPO_MOVED where "WT_FSO_REPO_MOVED \<equiv> WT_MOVE T_FSO_REPO_MOVED"
abbreviation WT_FSO_SHADOW_REPO_MOVE_STARTED where "WT_FSO_SHADOW_REPO_MOVE_STARTED \<equiv> WT_SHADOW T_FSO_SHADOW_REPO_MOVE_STARTED"
abbreviation WT_FSO_SHADOW_REPO_MOVED where "WT_FSO_SHADOW_REPO_MOVED \<equiv> WT_SHADOW T_FSO_SHADOW_REPO_MOVED"
abbreviation WT_FSO_SHADOW_REPO_MOVE_STA_DISABLED where "WT_FSO_SHADOW_REPO_MOVE_STA_DISABLED \<equiv> WT_SHADOW T_FSO_SHADOW_REPO_MOVE_STA_DISABLED"
abbreviation WT_FSO_SHADOW_REPO_MOVE_COMMITTED where "WT_FSO_SHADOW_REPO_MOVE_COMMITTED \<equiv> WT_SHADOW T_FSO_SHADOW_REPO_MOVE_COMMITTED"
abbreviation WT_FSO_DU_ROOT_STARTED where "WT_FSO_DU_ROOT_STARTED \<equiv> WT_DU T_FSO_DU_ROOT_STARTED"
abbreviation WT_FSO_DU_UPDATED where "WT_FSO_DU_UPDATED \<equiv> WT_DU T_FSO_DU_UPDATED"
abbreviation WT_FSO_DU_ROOT_COMPLETED where "WT_FSO_DU_ROOT_COMPLETED \<equiv> WT_DU T_FSO_DU_ROOT_COMPLETED"
abbreviation WT_FSO_DU_ROOT_COMMITTED where "WT_FSO_DU_ROOT_COMMITTED \<equiv> WT_DU T_FSO_DU_ROOT_COMMITTED"
abbreviation WT_FSO_DU_ROOT_DELETED where "WT_FSO_DU_ROOT_DELETED \<equiv> WT_DU T_FSO_DU_ROOT_DELETED"
abbreviation WT_FSO_PING_REGISTRY_STARTED where "WT_FSO_PING_REGISTRY_STARTED \<equiv> WT_PING T_FSO_PING_REGISTRY_STARTED"
abbreviation WT_FSO_SERVER_PINGED where "WT_FSO_SERVER_PINGED \<equiv> WT_PING T_FSO_SERVER_PINGED"
abbreviation WT_FSO_SERVER_PINGS_GATHERED where "WT_FSO_SERVER_PINGS_GATHERED \<equiv> WT_PING T_FSO_SERVER_PINGS_GATHERED"
abbreviation WT_FSO_PING_REGISTRY_COMPLETED where "WT_FSO_PING_REGISTRY_COMPLETED \<equiv> WT_PING T_FSO_PING_REGISTRY_COMPLETED"
abbreviation WT_FSO_PING_REGISTRY_COMMITTED where "WT_FSO_PING_REGISTRY_COMMITTED \<equiv> WT_PING T_FSO_PING_REGISTRY_COMMITTED"
abbreviation WT_FSO_PING_REGISTRY_DELETED where "WT_FSO_PING_REGISTRY_DELETED \<equiv> WT_PING T_FSO_PING_REGISTRY_DELETED"
abbreviation WT_FSO_SPLIT_ROOT_STARTED where "WT_FSO_SPLIT_ROOT_STARTED \<equiv> WT_SPLIT T_FSO_SPLIT_ROOT_STARTED"
abbreviation WT_FSO_SPLIT_ROOT_DU_APPENDED where "WT_FSO_SPLIT_ROOT_DU_APPENDED \<equiv> WT_SPLIT T_FSO_SPLIT_ROOT_DU_APPENDED"
abbreviation WT_FSO_SPLIT_ROOT_DU_COMPLETED where "WT_FSO_SPLIT_ROOT_DU_COMPLETED \<equiv> WT_SPLIT T_FSO_SPLIT_ROOT_DU_COMPLETED"
abbreviation WT_FSO_SPLIT_ROOT_SUGGESTION_APPENDED where "WT_FSO_SPLIT_ROOT_SUGGESTION_APPENDED \<equiv> WT_SPLIT T_FSO_SPLIT_ROOT_SUGGESTION_APPENDED"
abbreviation WT_FSO_SPLIT_ROOT_ANALYSIS_COMPLETED where "WT_FSO_SPLIT_ROOT_ANALYSIS_COMPLETED \<equiv> WT_SPLIT T_FSO_SPLIT_ROOT_ANALYSIS_COMPLETED"
abbreviation WT_FSO_SPLIT_ROOT_DECISION_APPENDED where "WT_FSO_SPLIT_ROOT_DECISION_APPENDED \<equiv> WT_SPLIT T_FSO_SPLIT_ROOT_DECISION_APPENDED"
abbreviation WT_FSO_SPLIT_ROOT_COMPLETED where "WT_FSO_SPLIT_ROOT_COMPLETED \<equiv> WT_SPLIT T_FSO_SPLIT_ROOT_COMPLETED"
abbreviation WT_FSO_SPLIT_ROOT_COMMITTED where "WT_FSO_SPLIT_ROOT_COMMITTED \<equiv> WT_SPLIT T_FSO_SPLIT_ROOT_COMMITTED"
abbreviation WT_FSO_SPLIT_ROOT_DELETED where "WT_FSO_SPLIT_ROOT_DELETED \<equiv> WT_SPLIT T_FSO_SPLIT_ROOT_DELETED"
abbreviation WT_FSO_FREEZE_REPO_STARTED_2 where "WT_FSO_FREEZE_REPO_STARTED_2 \<equiv> WT_FREEZE T_FSO_FREEZE_REPO_STARTED_2"
abbreviation WT_FSO_FREEZE_REPO_FILES_STARTED where "WT_FSO_FREEZE_REPO_FILES_STARTED \<equiv> WT_FREEZE T_FSO_FREEZE_REPO_FILES_STARTED"
abbreviation WT_FSO_FREEZE_REPO_FILES_COMPLETED where "WT_FSO_FREEZE_REPO_FILES_COMPLETED \<equiv> WT_FREEZE T_FSO_FREEZE_REPO_FILES_COMPLETED"
abbreviation WT_FSO_FREEZE_REPO_COMPLETED_2 where "WT_FSO_FREEZE_REPO_COMPLETED_2 \<equiv> WT_FREEZE T_FSO_FREEZE_REPO_COMPLETED_2"
abbreviation WT_FSO_FREEZE_REPO_COMMITTED where "WT_FSO_FREEZE_REPO_COMMITTED \<equiv> WT_FREEZE T_FSO_FREEZE_REPO_COMMITTED"
abbreviation WT_FSO_FREEZE_REPO_DELETED where "WT_FSO_FREEZE_REPO_DELETED \<equiv> WT_FREEZE T_FSO_FREEZE_REPO_DELETED"
abbreviation WT_FSO_UNFREEZE_REPO_STARTED_2 where "WT_FSO_UNFREEZE_REPO_STARTED_2 \<equiv> WT_UNFREEZE T_FSO_UNFREEZE_REPO_STARTED_2"
abbreviation WT_FSO_UNFREEZE_REPO_FILES_STARTED where "WT_FSO_UNFREEZE_REPO_FILES_STARTED \<equiv> WT_UNFREEZE T_FSO_UNFREEZE_REPO_FILES_STARTED"
abbreviation WT_FSO_UNFREEZE_REPO_FILES_COMPLETED where "WT_FSO_UNFREEZE_REPO_FILES_COMPLETED \<equiv> WT_UNFREEZE T_FSO_UNFREEZE_REPO_FILES_COMPLETED"
abbreviation WT_FSO_UNFREEZE_REPO_COMPLETED_2 where "WT_FSO_UNFREEZE_REPO_COMPLETED_2 \<equiv> WT_UNFREEZE T_FSO_UNFREEZE_REPO_COMPLETED_2"
abbreviation WT_FSO_UNFREEZE_REPO_COMMITTED where "WT_FSO_UNFREEZE_REPO_COMMITTED \<equiv> WT_UNFREEZE T_FSO_UNFREEZE_REPO_COMMITTED"
abbreviation WT_FSO_UNFREEZE_REPO_DELETED where "WT_FSO_UNFREEZE_REPO_DELETED \<equiv> WT_UNFREEZE T_FSO_UNFREEZE_REPO_DELETED"
abbreviation WT_FSO_ARCHIVE_REPO_STARTED where "WT_FSO_ARCHIVE_REPO_STARTED \<equiv> WT_ARCHIVE T_FSO_ARCHIVE_REPO_STARTED"
abbreviation WT_FSO_ARCHIVE_REPO_FILES_STARTED where "WT_FSO_ARCHIVE_REPO_FILES_STARTED \<equiv> WT_ARCHIVE T_FSO_ARCHIVE_REPO_FILES_STARTED"
abbreviation WT_FSO_ARCHIVE_REPO_TARTT_COMPLETED where "WT_FSO_ARCHIVE_REPO_TARTT_COMPLETED \<equiv> WT_ARCHIVE T_FSO_ARCHIVE_REPO_TARTT_COMPLETED"
abbreviation WT_FSO_ARCHIVE_REPO_SWAP_STARTED where "WT_FSO_ARCHIVE_REPO_SWAP_STARTED \<equiv> WT_ARCHIVE T_FSO_ARCHIVE_REPO_SWAP_STARTED"
abbreviation WT_FSO_ARCHIVE_REPO_FILES_COMPLETED where "WT_FSO_ARCHIVE_REPO_FILES_COMPLETED \<equiv> WT_ARCHIVE T_FSO_ARCHIVE_REPO_FILES_COMPLETED"
abbreviation WT_FSO_ARCHIVE_REPO_FILES_COMMITTED where "WT_FSO_ARCHIVE_REPO_FILES_COMMITTED \<equiv> WT_ARCHIVE T_FSO_ARCHIVE_REPO_FILES_COMMITTED"
abbreviation WT_FSO_ARCHIVE_REPO_GC_COMPLETED where "WT_FSO_ARCHIVE_REPO_GC_COMPLETED \<equiv> WT_ARCHIVE T_FSO_ARCHIVE_REPO_GC_COMPLETED"
abbreviation WT_FSO_ARCHIVE_REPO_COMPLETED where "WT_FSO_ARCHIVE_REPO_COMPLETED \<equiv> WT_ARCHIVE T_FSO_ARCHIVE_REPO_COMPLETED"
abbreviation WT_FSO_ARCHIVE_REPO_COMMITTED where "WT_FSO_ARCHIVE_REPO_COMMITTED \<equiv> WT_ARCHIVE T_FSO_ARCHIVE_REPO_COMMITTED"
abbreviation WT_FSO_ARCHIVE_REPO_DELETED where "WT_FSO_ARCHIVE_REPO_DELETED \<equiv> WT_ARCHIVE T_FSO_ARCHIVE_REPO_DELETED"
abbreviation WT_FSO_UNARCHIVE_REPO_STARTED where "WT_FSO_UNARCHIVE_REPO_STARTED \<equiv> WT_UNARCHIVE T_FSO_UNARCHIVE_REPO_STARTED"
abbreviation WT_FSO_UNARCHIVE_REPO_FILES_STARTED where "WT_FSO_UNARCHIVE_REPO_FILES_STARTED \<equiv> WT_UNARCHIVE T_FSO_UNARCHIVE_REPO_FILES_STARTED"
abbreviation WT_FSO_UNARCHIVE_REPO_TARTT_STARTED where "WT_FSO_UNARCHIVE_REPO_TARTT_STARTED \<equiv> WT_UNARCHIVE T_FSO_UNARCHIVE_REPO_TARTT_STARTED"
abbreviation WT_FSO_UNARCHIVE_REPO_TARTT_COMPLETED where "WT_FSO_UNARCHIVE_REPO_TARTT_COMPLETED \<equiv> WT_UNARCHIVE T_FSO_UNARCHIVE_REPO_TARTT_COMPLETED"
abbreviation WT_FSO_UNARCHIVE_REPO_FILES_COMPLETED where "WT_FSO_UNARCHIVE_REPO_FILES_COMPLETED \<equiv> WT_UNARCHIVE T_FSO_UNARCHIVE_REPO_FILES_COMPLETED"
abbreviation WT_FSO_UNARCHIVE_REPO_FILES_COMMITTED where "WT_FSO_UNARCHIVE_REPO_FILES_COMMITTED \<equiv> WT_UNARCHIVE T_FSO_UNARCHIVE_REPO_FILES_COMMITTED"
abbreviation WT_FSO_UNARCHIVE_REPO_GC_COMPLETED where "WT_FSO_UNARCHIVE_REPO_GC_COMPLETED \<equiv> WT_UNARCHIVE T_FSO_UNARCHIVE_REPO_GC_COMPLETED"
abbreviation WT_FSO_UNARCHIVE_REPO_COMPLETED where "WT_FSO_UNARCHIVE_REPO_COMPLETED \<equiv> WT_UNARCHIVE T_FSO_UNARCHIVE_REPO_COMPLETED"
abbreviation WT_FSO_UNARCHIVE_REPO_COMMITTED where "WT_FSO_UNARCHIVE_REPO_COMMITTED \<equiv> WT_UNARCHIVE T_FSO_UNARCHIVE_REPO_COMMITTED"
abbreviation WT_FSO_UNARCHIVE_REPO_DELETED where "WT_FSO_UNARCHIVE_REPO_DELETED \<equiv> WT_UNARCHIVE T_FSO_UNARCHIVE_REPO_DELETED"

record GitUser =
  gu_Name :: string
  gu_Email :: string

record RepoAclPolicy =
  ap_Policy :: AclPolicy
  ap_FsoRootInfo :: "FsoRootInfo option"

datatype (plugins only: code) SplitRootSuggestion =
    S_UNSPECIFIED | S_SMALL_DIR | S_REPO | S_SMALL_REPO | S_DONT_SPLIT | S_REPO_CANDIDATE | S_OTHER int

datatype (plugins only: code) SplitRootDecision = D_UNSPECIFIED | D_CREATE_REPO | D_NEVER_SPLIT | D_IGNORE_ONCE | D_OTHER int

text \<open>The entries of an index in a snapshot; the kinds differ in what they store besides the ids.\<close>

record PbIndexEntry =
  qe_WorkflowId :: gobytes
  qe_Started :: gobytes
  qe_Completed :: gobytes

record PbIndexRootEntry = PbIndexEntry +
  qr_GlobalRoot :: string
  qr_Host :: string
  qr_HostRoot :: string

record PbIndexPathEntry = PbIndexEntry +
  qp_GlobalPath :: string

record WorkflowIndexState =
  qs_DuRoot :: "PbIndexRootEntry list"
  qs_PingRegistry :: "PbIndexEntry list"
  qs_SplitRoot :: "PbIndexRootEntry list"
  qs_FreezeRepo :: "PbIndexPathEntry list"
  qs_UnfreezeRepo :: "PbIndexPathEntry list"
  qs_ArchiveRepo :: "PbIndexPathEntry list"
  qs_UnarchiveRepo :: "PbIndexPathEntry list"

text \<open>
  Submessages with a path and one more field are pairs, those with a single field are that field, as in
  \<open>Repo_Events\<close>; of \<open>FsoSplitRootParams\<close> workflows do not use the root.
\<close>

record WorkflowPb =
  wp_Event :: WorkflowEvent_Type
  wp_Id :: gobytes
  wp_Parent :: gobytes
  wp_WorkflowId :: gobytes
  wp_WorkflowEventId :: gobytes
  wp_RegistryId :: gobytes
  wp_RegistryEventId :: gobytes
  wp_RepoId :: gobytes
  wp_RepoEventId :: gobytes
  wp_FsoRegistryName :: string
  wp_GitAuthor :: "GitUser option"
  wp_FsoRepoInitInfo :: "FsoRepoInitInfo option"
  wp_NewFsoRepoInitInfo :: "FsoRepoInitInfo option"
  wp_FsoShadowRepoInfo :: "FsoShadowRepoInfo option"
  wp_FsoArchiveRepoInfo :: "string option"
  wp_TarttTarInfo :: "string option"
  wp_WorkingDir :: string
  wp_RepoAclPolicy :: "RepoAclPolicy option"
  wp_FsoRootInfo :: "FsoRootInfo option"
  wp_FsoSplitRootParams :: "FsoSplitRootParams option"
  wp_PathDiskUsage :: "(string \<times> 64 word) option"
  wp_FsoSplitRootSuggestion :: "(string \<times> SplitRootSuggestion) option"
  wp_FsoSplitRootDecision :: "(string \<times> SplitRootDecision) option"
  wp_StatusCode :: "32 word"
  wp_StatusMessage :: string
  wp_WorkflowIndexState :: "WorkflowIndexState option"

definition wfPb :: "WorkflowEvent_Type \<Rightarrow> WorkflowPb" where
  "wfPb t =
     \<lparr>wp_Event = t, wp_Id = None, wp_Parent = None, wp_WorkflowId = None, wp_WorkflowEventId = None,
      wp_RegistryId = None, wp_RegistryEventId = None, wp_RepoId = None, wp_RepoEventId = None,
      wp_FsoRegistryName = [], wp_GitAuthor = None, wp_FsoRepoInitInfo = None, wp_NewFsoRepoInitInfo = None,
      wp_FsoShadowRepoInfo = None, wp_FsoArchiveRepoInfo = None, wp_TarttTarInfo = None, wp_WorkingDir = [],
      wp_RepoAclPolicy = None, wp_FsoRootInfo = None, wp_FsoSplitRootParams = None, wp_PathDiskUsage = None,
      wp_FsoSplitRootSuggestion = None, wp_FsoSplitRootDecision = None, wp_StatusCode = 0,
      wp_StatusMessage = [], wp_WorkflowIndexState = None\<rparr>"

section \<open>The events\<close>

text \<open>
  The events that start a freeze, an unfreeze and an archive workflow have the same fields; unarchive has two
  more.  Those of the workflows on a root share theirs, too.
\<close>

record RepoWorkflowStarted =
  rs_RegistryId :: uuid
  rs_RegistryName :: string
  rs_StartRegistryVid :: ulid
  rs_RepoId :: uuid
  rs_StartRepoVid :: ulid
  rs_RepoGlobalPath :: string
  rs_AuthorName :: string
  rs_AuthorEmail :: string
  rs_WorkflowId :: uuid
  rs_WorkflowEventId :: ulid

record UnarchiveRepoStarted = RepoWorkflowStarted +
  us_RepoArchiveURL :: string
  us_TarttTarPath :: string

record RootWorkflowStarted =
  os_RegistryId :: uuid
  os_WorkflowId :: uuid
  os_WorkflowEventId :: ulid
  os_GlobalRoot :: string
  os_Host :: string
  os_HostRoot :: string

record SplitRootStarted = RootWorkflowStarted +
  ss_MaxDepth :: "32 word"
  ss_MinDiskUsage :: "64 word"
  ss_MaxDiskUsage :: "64 word"

record PingRegistryStarted =
  ps_RegistryId :: uuid
  ps_WorkflowId :: uuid
  ps_WorkflowEventId :: ulid

record WorkflowCompleted =
  wc_StatusCode :: "32 word"
  wc_StatusMessage :: string
  wc_WorkflowId :: uuid
  wc_WorkflowEventId :: ulid

record WfRepoMoveStarted =
  wm_RepoId :: uuid
  wm_RepoEventId :: ulid
  wm_OldGlobalPath :: string
  wm_OldFileHost :: string
  wm_OldHostPath :: string
  wm_OldShadowPath :: string
  wm_NewGlobalPath :: string
  wm_NewFileHost :: string
  wm_NewHostPath :: string

record WfRepoMoved =
  wd_RepoId :: uuid
  wd_GlobalPath :: string
  wd_FileHost :: string
  wd_HostPath :: string
  wd_ShadowPath :: string

record IndexEntry =
  ie_WorkflowId :: uuid
  ie_Started :: ulid
  ie_Completed :: ulid

record IndexRootEntry = IndexEntry +
  ir_GlobalRoot :: string
  ir_Host :: string
  ir_HostRoot :: string

record IndexPathEntry = IndexEntry +
  ip_GlobalPath :: string

record IndexSnapshot =
  sn_DuRoot :: "IndexRootEntry list"
  sn_PingRegistry :: "IndexEntry list"
  sn_SplitRoot :: "IndexRootEntry list"
  sn_FreezeRepo :: "IndexPathEntry list"
  sn_UnfreezeRepo :: "IndexPathEntry list"
  sn_ArchiveRepo :: "IndexPathEntry list"
  sn_UnarchiveRepo :: "IndexPathEntry list"

text \<open>Status code and message are the two fields of the events that have no record.\<close>

datatype (plugins only: code) WfIndexEvent =
    WeSnapshotBegin | WeSnapshotEnd
  | WeWorkflowIndexSnapshotState IndexSnapshot

datatype (plugins only: code) WfMoveEvent =
    WeRepoMoveStarted WfRepoMoveStarted | WeRepoMoveStaReleased
  | WeRepoMoveAppAccepted | WeRepoMoveCommitted | WeRepoMoved WfRepoMoved

datatype (plugins only: code) WfShadowEvent =
    WeShadowRepoMoveStarted uuid ulid | WeShadowRepoMoved uuid
  | WeShadowRepoMoveStaDisabled | WeShadowRepoMoveCommitted

datatype (plugins only: code) WfDuEvent =
    WeDuRootStarted RootWorkflowStarted | WeDuUpdated string "64 word"
  | WeDuRootCompleted WorkflowCompleted | WeDuRootCommitted | WeDuRootDeleted uuid

datatype (plugins only: code) WfPingEvent =
    WePingRegistryStarted PingRegistryStarted
  | WeServerPinged "32 word" string | WeServerPingsGathered "32 word" string | WePingRegistryCompleted uuid ulid
  | WePingRegistryCommitted | WePingRegistryDeleted uuid

datatype (plugins only: code) WfSplitEvent =
    WeSplitRootStarted SplitRootStarted
  | WeSplitRootDuAppended string "64 word" | WeSplitRootDuCompleted "32 word" string
  | WeSplitRootSuggestionAppended string SplitRootSuggestion | WeSplitRootAnalysisCompleted "32 word" string
  | WeSplitRootDecisionAppended string SplitRootDecision | WeSplitRootCompleted WorkflowCompleted
  | WeSplitRootCommitted | WeSplitRootDeleted uuid

datatype (plugins only: code) WfFreezeEvent =
    WeFreezeRepoStarted2 RepoWorkflowStarted
  | WeFreezeRepoFilesStarted | WeFreezeRepoFilesCompleted "32 word" string
  | WeFreezeRepoCompleted2 WorkflowCompleted | WeFreezeRepoCommitted | WeFreezeRepoDeleted uuid

datatype (plugins only: code) WfUnfreezeEvent =
    WeUnfreezeRepoStarted2 RepoWorkflowStarted
  | WeUnfreezeRepoFilesStarted | WeUnfreezeRepoFilesCompleted "32 word" string
  | WeUnfreezeRepoCompleted2 WorkflowCompleted | WeUnfreezeRepoCommitted | WeUnfreezeRepoDeleted uuid

datatype (plugins only: code) WfArchiveEvent =
    WeArchiveRepoStarted RepoWorkflowStarted
  | WeArchiveRepoFilesStarted "RepoAclPolicy option" | WeArchiveRepoTarttCompleted string
  | WeArchiveRepoSwapStarted string | WeArchiveRepoFilesCompleted "32 word" string | WeArchiveRepoFilesCommitted
  | WeArchiveRepoGcCompleted | WeArchiveRepoCompleted WorkflowCompleted | WeArchiveRepoCommitted
  | WeArchiveRepoDeleted uuid

datatype (plugins only: code) WfUnarchiveEvent =
    WeUnarchiveRepoStarted UnarchiveRepoStarted
  | WeUnarchiveRepoFilesStarted "RepoAclPolicy option" | WeUnarchiveRepoTarttStarted string
  | WeUnarchiveRepoTarttCompleted "32 word" string | WeUnarchiveRepoFilesCompleted "32 word" string
  | WeUnarchiveRepoFilesCommitted | WeUnarchiveRepoGcCompleted | WeUnarchiveRepoCompleted WorkflowCompleted
  | WeUnarchiveRepoCommitted | WeUnarchiveRepoDeleted uuid

datatype (plugins only: code) WorkflowEvent =
    WvIndex WfIndexEvent | WvMove WfMoveEvent
  | WvShadow WfShadowEvent | WvDu WfDuEvent | WvPing WfPingEvent | WvSplit WfSplitEvent | WvFreeze WfFreezeEvent
  | WvUnfreeze WfUnfreezeEvent | WvArchive WfArchiveEvent | WvUnarchive WfUnarchiveEvent

abbreviation WvSnapshotBegin where "WvSnapshotBegin \<equiv> WvIndex WeSnapshotBegin"
abbreviation WvSnapshotEnd where "WvSnapshotEnd \<equiv> WvIndex WeSnapshotEnd"
abbreviation WvWorkflowIndexSnapshotState where "WvWorkflowIndexSnapshotState x \<equiv> WvIndex (WeWorkflowIndexSnapshotState x)"
abbreviation WvRepoMoveStarted where "WvRepoMoveStarted x \<equiv> WvMove (WeRepoMoveStarted x)"
abbreviation WvRepoMoveStaReleased where "WvRepoMoveStaReleased \<equiv> WvMove WeRepoMoveStaReleased"
abbreviation WvRepoMoveAppAccepted where "WvRepoMoveAppAccepted \<equiv> WvMove WeRepoMoveAppAccepted"
abbreviation WvRepoMoveCommitted where "WvRepoMoveCommitted \<equiv> WvMove WeRepoMoveCommitted"
abbreviation WvRepoMoved where "WvRepoMoved x \<equiv> WvMove (WeRepoMoved x)"
abbreviation WvShadowRepoMoveStarted where "WvShadowRepoMoveStarted x y \<equiv> WvShadow (WeShadowRepoMoveStarted x y)"
abbreviation WvShadowRepoMoved where "WvShadowRepoMoved x \<equiv> WvShadow (WeShadowRepoMoved x)"
abbreviation WvShadowRepoMoveStaDisabled where "WvShadowRepoMoveStaDisabled \<equiv> WvShadow WeShadowRepoMoveStaDisabled"
abbreviation WvShadowRepoMoveCommitted where "WvShadowRepoMoveCommitted \<equiv> WvShadow WeShadowRepoMoveCommitted"
abbreviation WvDuRootStarted where "WvDuRootStarted x \<equiv> WvDu (WeDuRootStarted x)"
abbreviation WvDuUpdated where "WvDuUpdated x y \<equiv> WvDu (WeDuUpdated x y)"
abbreviation WvDuRootCompleted where "WvDuRootCompleted x \<equiv> WvDu (WeDuRootCompleted x)"
abbreviation WvDuRootCommitted where "WvDuRootCommitted \<equiv> WvDu WeDuRootCommitted"
abbreviation WvDuRootDeleted where "WvDuRootDeleted x \<equiv> WvDu (WeDuRootDeleted x)"
abbreviation WvPingRegistryStarted where "WvPingRegistryStarted x \<equiv> WvPing (WePingRegistryStarted x)"
abbreviation WvServerPinged where "WvServerPinged x y \<equiv> WvPing (WeServerPinged x y)"
abbreviation WvServerPingsGathered where "WvServerPingsGathered x y \<equiv> WvPing (WeServerPingsGathered x y)"
abbreviation WvPingRegistryCompleted where "WvPingRegistryCompleted x y \<equiv> WvPing (WePingRegistryCompleted x y)"
abbreviation WvPingRegistryCommitted where "WvPingRegistryCommitted \<equiv> WvPing WePingRegistryCommitted"
abbreviation WvPingRegistryDeleted where "WvPingRegistryDeleted x \<equiv> WvPing (WePingRegistryDeleted x)"
abbreviation WvSplitRootStarted where "WvSplitRootStarted x \<equiv> WvSplit (WeSplitRootStarted x)"
abbreviation WvSplitRootDuAppended where "WvSplitRootDuAppended x y \<equiv> WvSplit (WeSplitRootDuAppended x y)"
abbreviation WvSplitRootDuCompleted where "WvSplitRootDuCompleted x y \<equiv> WvSplit (WeSplitRootDuCompleted x y)"
abbreviation WvSplitRootSuggestionAppended where "WvSplitRootSuggestionAppended x y \<equiv> WvSplit (WeSplitRootSuggestionAppended x y)"
abbreviation WvSplitRootAnalysisCompleted where "WvSplitRootAnalysisCompleted x y \<equiv> WvSplit (WeSplitRootAnalysisCompleted x y)"
abbreviation WvSplitRootDecisionAppended where "WvSplitRootDecisionAppended x y \<equiv> WvSplit (WeSplitRootDecisionAppended x y)"
abbreviation WvSplitRootCompleted where "WvSplitRootCompleted x \<equiv> WvSplit (WeSplitRootCompleted x)"
abbreviation WvSplitRootCommitted where "WvSplitRootCommitted \<equiv> WvSplit WeSplitRootCommitted"
abbreviation WvSplitRootDeleted where "WvSplitRootDeleted x \<equiv> WvSplit (WeSplitRootDeleted x)"
abbreviation WvFreezeRepoStarted2 where "WvFreezeRepoStarted2 x \<equiv> WvFreeze (WeFreezeRepoStarted2 x)"
abbreviation WvFreezeRepoFilesStarted where "WvFreezeRepoFilesStarted \<equiv> WvFreeze WeFreezeRepoFilesStarted"
abbreviation WvFreezeRepoFilesCompleted where "WvFreezeRepoFilesCompleted x y \<equiv> WvFreeze (WeFreezeRepoFilesCompleted x y)"
abbreviation WvFreezeRepoCompleted2 where "WvFreezeRepoCompleted2 x \<equiv> WvFreeze (WeFreezeRepoCompleted2 x)"
abbreviation WvFreezeRepoCommitted where "WvFreezeRepoCommitted \<equiv> WvFreeze WeFreezeRepoCommitted"
abbreviation WvFreezeRepoDeleted where "WvFreezeRepoDeleted x \<equiv> WvFreeze (WeFreezeRepoDeleted x)"
abbreviation WvUnfreezeRepoStarted2 where "WvUnfreezeRepoStarted2 x \<equiv> WvUnfreeze (WeUnfreezeRepoStarted2 x)"
abbreviation WvUnfreezeRepoFilesStarted where "WvUnfreezeRepoFilesStarted \<equiv> WvUnfreeze WeUnfreezeRepoFilesStarted"
abbreviation WvUnfreezeRepoFilesCompleted where "WvUnfreezeRepoFilesCompleted x y \<equiv> WvUnfreeze (WeUnfreezeRepoFilesCompleted x y)"
abbreviation WvUnfreezeRepoCompleted2 where "WvUnfreezeRepoCompleted2 x \<equiv> WvUnfreeze (WeUnfreezeRepoCompleted2 x)"
abbreviation WvUnfreezeRepoCommitted where "WvUnfreezeRepoCommitted \<equiv> WvUnfreeze WeUnfreezeRepoCommitted"
abbreviation WvUnfreezeRepoDeleted where "WvUnfreezeRepoDeleted x \<equiv> WvUnfreeze (WeUnfreezeRepoDeleted x)"
abbreviation WvArchiveRepoStarted where "WvArchiveRepoStarted x \<equiv> WvArchive (WeArchiveRepoStarted x)"
abbreviation WvArchiveRepoFilesStarted where "WvArchiveRepoFilesStarted x \<equiv> WvArchive (WeArchiveRepoFilesStarted x)"
abbreviation WvArchiveRepoTarttCompleted where "WvArchiveRepoTarttCompleted x \<equiv> WvArchive (WeArchiveRepoTarttCompleted x)"
abbreviation WvArchiveRepoSwapStarted where "WvArchiveRepoSwapStarted x \<equiv> WvArchive (WeArchiveRepoSwapStarted x)"
abbreviation WvArchiveRepoFilesCompleted where "WvArchiveRepoFilesCompleted x y \<equiv> WvArchive (WeArchiveRepoFilesCompleted x y)"
abbreviation WvArchiveRepoFilesCommitted where "WvArchiveRepoFilesCommitted \<equiv> WvArchive WeArchiveRepoFilesCommitted"
abbreviation WvArchiveRepoGcCompleted where "WvArchiveRepoGcCompleted \<equiv> WvArchive WeArchiveRepoGcCompleted"
abbreviation WvArchiveRepoCompleted where "WvArchiveRepoCompleted x \<equiv> WvArchive (WeArchiveRepoCompleted x)"
abbreviation WvArchiveRepoCommitted where "WvArchiveRepoCommitted \<equiv> WvArchive WeArchiveRepoCommitted"
abbreviation WvArchiveRepoDeleted where "WvArchiveRepoDeleted x \<equiv> WvArchive (WeArchiveRepoDeleted x)"
abbreviation WvUnarchiveRepoStarted where "WvUnarchiveRepoStarted x \<equiv> WvUnarchive (WeUnarchiveRepoStarted x)"
abbreviation WvUnarchiveRepoFilesStarted where "WvUnarchiveRepoFilesStarted x \<equiv> WvUnarchive (WeUnarchiveRepoFilesStarted x)"
abbreviation WvUnarchiveRepoTarttStarted where "WvUnarchiveRepoTarttStarted x \<equiv> WvUnarchive (WeUnarchiveRepoTarttStarted x)"
abbreviation WvUnarchiveRepoTarttCompleted where "WvUnarchiveRepoTarttCompleted x y \<equiv> WvUnarchive (WeUnarchiveRepoTarttCompleted x y)"
abbreviation WvUnarchiveRepoFilesCompleted where "WvUnarchiveRepoFilesCompleted x y \<equiv> WvUnarchive (WeUnarchiveRepoFilesCompleted x y)"
abbreviation WvUnarchiveRepoFilesCommitted where "WvUnarchiveRepoFilesCommitted \<equiv> WvUnarchive WeUnarchiveRepoFilesCommitted"
abbreviation WvUnarchiveRepoGcCompleted where "WvUnarchiveRepoGcCompleted \<equiv> WvUnarchive WeUnarchiveRepoGcCompleted"
abbreviation WvUnarchiveRepoCompleted where "WvUnarchiveRepoCompleted x \<equiv> WvUnarchive (WeUnarchiveRepoCompleted x)"
abbreviation WvUnarchiveRepoCommitted where "WvUnarchiveRepoCommitted \<equiv> WvUnarchive WeUnarchiveRepoCommitted"
abbreviation WvUnarchiveRepoDeleted where "WvUnarchiveRepoDeleted x \<equiv> WvUnarchive (WeUnarchiveRepoDeleted x)"

section \<open>Validation and conversion of ids\<close>

text \<open>A chain of checks returns the error of the first that fails; a constructor panics with it.\<close>

fun firstError :: "(bool \<times> string) list \<Rightarrow> goerr option" where
  "firstError [] = None"
| "firstError ((c, msg) # cs) = (if c then Some (GoErr msg) else firstError cs)"

definition orElse :: "'a option \<Rightarrow> 'a option \<Rightarrow> 'a option" where
  "orElse x y = (case x of None \<Rightarrow> y | Some a \<Rightarrow> Some a)"

definition orPanic :: "goerr option \<Rightarrow> 'a \<Rightarrow> ('e, 'a) outcome" where
  "orPanic e x = (case e of None \<Rightarrow> Ok x | Some (GoErr msg) \<Rightarrow> Panic msg)"

definition wfGuard :: "WorkflowEvent_Type \<Rightarrow> WorkflowPb \<Rightarrow> ('e, 'b) outcome \<Rightarrow> ('e, 'b) outcome" where
  "wfGuard t evpb k = (if wp_Event evpb \<noteq> t then Panic ''invalid event'' else k)"

text \<open>Ids that are parsed unless the field is nil, and set unless they are the nil id.\<close>

definition optUuid :: "gobytes \<Rightarrow> (uuid \<Rightarrow> (goerr, 'b) outcome) \<Rightarrow> (goerr, 'b) outcome" where
  "optUuid b f = (if b = None then f uuidNil else onError id (FromBytes b) f)"

definition optUlid :: "ulid_unmarshal \<Rightarrow> gobytes \<Rightarrow> (ulid \<Rightarrow> (goerr, 'b) outcome) \<Rightarrow> (goerr, 'b) outcome" where
  "optUlid ub b f = (if b = None then f ulidNil else onError id (ParseBytes ub b) f)"

definition unlessNil :: "ulid \<Rightarrow> gobytes" where
  "unlessNil vid = (if vid = ulidNil then None else Some (idBytes vid))"

fun mapOutcome :: "('a \<Rightarrow> ('e, 'b) outcome) \<Rightarrow> 'a list \<Rightarrow> ('e, 'b list) outcome" where
  "mapOutcome f [] = Ok []"
| "mapOutcome f (x # xs) = obind (f x) (\<lambda>y. obind (mapOutcome f xs) (\<lambda>ys. Ok (y # ys)))"

lemma wf_id_simps [simp]:
  "optUuid None f = f uuidNil" "optUuid (Some (idBytes i)) f = f i" "optUlid ub None f = f ulidNil"
  "ulid_binary ub \<Longrightarrow> optUlid ub (Some (idBytes v)) f = f v"
  "ulid_binary ub \<Longrightarrow> optUlid ub (unlessNil v) f = f v" "wfGuard (wp_Event p) p k = k"
  by (simp_all add: optUuid_def optUlid_def unlessNil_def wfGuard_def)

lemma orPanic_simps [outcome_simps]:
  "orPanic e x = Ok y \<longleftrightarrow> e = None \<and> y = x" "is_Panic (orPanic e x) \<longleftrightarrow> e \<noteq> None" "orPanic e x \<noteq> Err z"
  by (cases e; auto simp: orPanic_def split: goerr.splits)+

section \<open>Move of a repo and of a shadow repo\<close>

definition validateRepoMoveStarted :: "WfRepoMoveStarted \<Rightarrow> goerr option" where
  "validateRepoMoveStarted ev = firstError
     [(wm_RepoId ev = uuidNil, ''nil RepoId''),
      (wm_RepoEventId ev = ulidNil, ''nil RepoEventId''),
      (wm_OldGlobalPath ev = [] \<or> wm_OldFileHost ev = [] \<or> wm_OldHostPath ev = [] \<or> wm_OldShadowPath ev = [] \<or>
       wm_NewGlobalPath ev = [] \<or> wm_NewFileHost ev = [] \<or> wm_NewHostPath ev = [], ''some path is empty''),
      (wm_OldFileHost ev \<noteq> wm_NewFileHost ev, ''old and new file hosts differ'')]"

definition wfNewPbRepoMoveStarted :: "WfRepoMoveStarted \<Rightarrow> ('e, WorkflowPb) outcome" where
  "wfNewPbRepoMoveStarted ev = orPanic (validateRepoMoveStarted ev)
     ((wfPb WT_FSO_REPO_MOVE_STARTED)
        \<lparr>wp_RepoId := Some (idBytes (wm_RepoId ev)), wp_RepoEventId := Some (idBytes (wm_RepoEventId ev)),
         wp_FsoRepoInitInfo := Some (repoInitInfo0\<lparr>ri_GlobalPath := wm_OldGlobalPath ev,
           ri_FileHost := wm_OldFileHost ev, ri_HostPath := wm_OldHostPath ev\<rparr>),
         wp_FsoShadowRepoInfo := Some \<lparr>si_ShadowPath = wm_OldShadowPath ev, si_NewShadowPath = []\<rparr>,
         wp_NewFsoRepoInitInfo := Some (repoInitInfo0\<lparr>ri_GlobalPath := wm_NewGlobalPath ev,
           ri_FileHost := wm_NewFileHost ev, ri_HostPath := wm_NewHostPath ev\<rparr>)\<rparr>)"

definition wfFromPbRepoMoveStarted :: "ulid_unmarshal \<Rightarrow> WorkflowPb \<Rightarrow> (goerr, WorkflowEvent) outcome" where
  "wfFromPbRepoMoveStarted ub evpb =
     wfGuard WT_FSO_REPO_MOVE_STARTED evpb
       (onError id (FromBytes (wp_RepoId evpb)) (\<lambda>repoId.
        onError id (ParseBytes ub (wp_RepoEventId evpb)) (\<lambda>repoEventId.
        Repo_Events.deref (wp_FsoRepoInitInfo evpb) (\<lambda>old.
        Repo_Events.deref (wp_FsoShadowRepoInfo evpb) (\<lambda>sh.
        Repo_Events.deref (wp_NewFsoRepoInitInfo evpb) (\<lambda>new.
          Ok (WvRepoMoveStarted
            \<lparr>wm_RepoId = repoId, wm_RepoEventId = repoEventId,
             wm_OldGlobalPath = ri_GlobalPath old, wm_OldFileHost = ri_FileHost old,
             wm_OldHostPath = ri_HostPath old, wm_OldShadowPath = si_ShadowPath sh,
             wm_NewGlobalPath = ri_GlobalPath new, wm_NewFileHost = ri_FileHost new,
             wm_NewHostPath = ri_HostPath new\<rparr>)))))))"

definition validateRepoMoved :: "WfRepoMoved \<Rightarrow> goerr option" where
  "validateRepoMoved ev = firstError
     [(wd_RepoId ev = uuidNil, ''nil RepoId''),
      (wd_GlobalPath ev = [] \<or> wd_FileHost ev = [] \<or> wd_HostPath ev = [] \<or> wd_ShadowPath ev = [],
       ''some path is empty'')]"

definition wfNewPbRepoMoved :: "WfRepoMoved \<Rightarrow> ('e, WorkflowPb) outcome" where
  "wfNewPbRepoMoved ev = orPanic (validateRepoMoved ev)
     ((wfPb WT_FSO_REPO_MOVED)
        \<lparr>wp_RepoId := Some (idBytes (wd_RepoId ev)),
         wp_FsoRepoInitInfo := Some (repoInitInfo0\<lparr>ri_GlobalPath := wd_GlobalPath ev,
           ri_FileHost := wd_FileHost ev, ri_HostPath := wd_HostPath ev\<rparr>),
         wp_FsoShadowRepoInfo := Some \<lparr>si_ShadowPath = wd_ShadowPath ev, si_NewShadowPath = []\<rparr>\<rparr>)"

definition wfFromPbRepoMoved :: "WorkflowPb \<Rightarrow> (goerr, WorkflowEvent) outcome" where
  "wfFromPbRepoMoved evpb =
     wfGuard WT_FSO_REPO_MOVED evpb
       (onError id (FromBytes (wp_RepoId evpb)) (\<lambda>repoId.
        Repo_Events.deref (wp_FsoRepoInitInfo evpb) (\<lambda>info.
        Repo_Events.deref (wp_FsoShadowRepoInfo evpb) (\<lambda>sh.
          Ok (WvRepoMoved
            \<lparr>wd_RepoId = repoId, wd_GlobalPath = ri_GlobalPath info, wd_FileHost = ri_FileHost info,
             wd_HostPath = ri_HostPath info, wd_ShadowPath = si_ShadowPath sh\<rparr>)))))"

definition wfNewPbRepoMoveStaReleased :: "WorkflowPb" where
  "wfNewPbRepoMoveStaReleased = wfPb WT_FSO_REPO_MOVE_STA_RELEASED"

definition wfFromPbRepoMoveStaReleased :: "WorkflowPb \<Rightarrow> (goerr, WorkflowEvent) outcome" where
  "wfFromPbRepoMoveStaReleased evpb =
     wfGuard WT_FSO_REPO_MOVE_STA_RELEASED evpb (Ok WvRepoMoveStaReleased)"

definition wfNewPbRepoMoveAppAccepted :: "WorkflowPb" where
  "wfNewPbRepoMoveAppAccepted = wfPb WT_FSO_REPO_MOVE_APP_ACCEPTED"

definition wfFromPbRepoMoveAppAccepted :: "WorkflowPb \<Rightarrow> (goerr, WorkflowEvent) outcome" where
  "wfFromPbRepoMoveAppAccepted evpb =
     wfGuard WT_FSO_REPO_MOVE_APP_ACCEPTED evpb (Ok WvRepoMoveAppAccepted)"

definition wfNewPbRepoMoveCommitted :: "WorkflowPb" where
  "wfNewPbRepoMoveCommitted = wfPb WT_FSO_REPO_MOVE_COMMITTED"

definition wfFromPbRepoMoveCommitted :: "WorkflowPb \<Rightarrow> (goerr, WorkflowEvent) outcome" where
  "wfFromPbRepoMoveCommitted evpb =
     wfGuard WT_FSO_REPO_MOVE_COMMITTED evpb (Ok WvRepoMoveCommitted)"

definition wfNewPbShadowRepoMoveStarted :: "uuid \<Rightarrow> ulid \<Rightarrow> WorkflowPb" where
  "wfNewPbShadowRepoMoveStarted repoId repoEventId = (wfPb WT_FSO_SHADOW_REPO_MOVE_STARTED)\<lparr>wp_RepoId := Some (idBytes repoId), wp_RepoEventId := Some (idBytes repoEventId)\<rparr>"

definition wfFromPbShadowRepoMoveStarted :: "ulid_unmarshal \<Rightarrow> WorkflowPb \<Rightarrow> (goerr, WorkflowEvent) outcome" where
  "wfFromPbShadowRepoMoveStarted ub evpb =
     wfGuard WT_FSO_SHADOW_REPO_MOVE_STARTED evpb (onError id (FromBytes (wp_RepoId evpb)) (\<lambda>repoId.
        onError id (ParseBytes ub (wp_RepoEventId evpb)) (\<lambda>repoEventId.
          Ok (WvShadowRepoMoveStarted repoId repoEventId))))"

definition wfNewPbShadowRepoMoved :: "uuid \<Rightarrow> WorkflowPb" where
  "wfNewPbShadowRepoMoved repoId = (wfPb WT_FSO_SHADOW_REPO_MOVED)\<lparr>wp_RepoId := Some (idBytes repoId)\<rparr>"

definition wfFromPbShadowRepoMoved :: "WorkflowPb \<Rightarrow> (goerr, WorkflowEvent) outcome" where
  "wfFromPbShadowRepoMoved evpb =
     wfGuard WT_FSO_SHADOW_REPO_MOVED evpb (onError id (FromBytes (wp_RepoId evpb)) (\<lambda>repoId. Ok (WvShadowRepoMoved repoId)))"

definition wfNewPbShadowRepoMoveStaDisabled :: "WorkflowPb" where
  "wfNewPbShadowRepoMoveStaDisabled = wfPb WT_FSO_SHADOW_REPO_MOVE_STA_DISABLED"

definition wfFromPbShadowRepoMoveStaDisabled :: "WorkflowPb \<Rightarrow> (goerr, WorkflowEvent) outcome" where
  "wfFromPbShadowRepoMoveStaDisabled evpb =
     wfGuard WT_FSO_SHADOW_REPO_MOVE_STA_DISABLED evpb (Ok WvShadowRepoMoveStaDisabled)"

definition wfNewPbShadowRepoMoveCommitted :: "WorkflowPb" where
  "wfNewPbShadowRepoMoveCommitted = wfPb WT_FSO_SHADOW_REPO_MOVE_COMMITTED"

definition wfFromPbShadowRepoMoveCommitted :: "WorkflowPb \<Rightarrow> (goerr, WorkflowEvent) outcome" where
  "wfFromPbShadowRepoMoveCommitted evpb =
     wfGuard WT_FSO_SHADOW_REPO_MOVE_COMMITTED evpb (Ok WvShadowRepoMoveCommitted)"

section \<open>Disk usage of a root\<close>

definition validateCommonDuRootStarted :: "RootWorkflowStarted \<Rightarrow> goerr option" where
  "validateCommonDuRootStarted ev = firstError
      [(os_GlobalRoot ev = [], ''empty GlobaPath''),
       (os_Host ev = [], ''empty Host''),
       (os_HostRoot ev = [], ''empty HostRoot'')]"

definition validateWorkflowDuRootStarted :: "RootWorkflowStarted \<Rightarrow> goerr option" where
  "validateWorkflowDuRootStarted ev = orElse (firstError
      [(os_RegistryId ev = uuidNil, ''nil RegistryId''),
       (os_WorkflowId ev \<noteq> uuidNil, ''non-nil WorkflowId''),
       (os_WorkflowEventId ev \<noteq> ulidNil, ''non-nil WorkflowEventId'')])
     (validateCommonDuRootStarted ev)"

definition validateIndexDuRootStarted :: "RootWorkflowStarted \<Rightarrow> goerr option" where
  "validateIndexDuRootStarted ev = orElse (firstError
      [(os_RegistryId ev \<noteq> uuidNil, ''non-nil RegistryId''),
       (os_WorkflowId ev = uuidNil, ''non-nil WorkflowId''),
       (os_WorkflowEventId ev = ulidNil, ''non-nil WorkflowEventId'')])
     (validateCommonDuRootStarted ev)"

definition wfNewPbDuRootStartedWorkflow :: "RootWorkflowStarted \<Rightarrow> ('e, WorkflowPb) outcome" where
  "wfNewPbDuRootStartedWorkflow ev =
     orPanic (validateWorkflowDuRootStarted ev) (
       (wfPb WT_FSO_DU_ROOT_STARTED)\<lparr>wp_RegistryId := Some (idBytes (os_RegistryId ev)),
          wp_FsoRootInfo := Some \<lparr>fr_GlobalRoot = os_GlobalRoot ev, fr_Host = os_Host ev, fr_HostRoot = os_HostRoot ev,
            fr_GitlabNamespace = []\<rparr>\<rparr>)"

definition wfNewPbDuRootStartedIndex :: "RootWorkflowStarted \<Rightarrow> ('e, WorkflowPb) outcome" where
  "wfNewPbDuRootStartedIndex ev =
     orPanic (validateIndexDuRootStarted ev) (
       (wfPb WT_FSO_DU_ROOT_STARTED)\<lparr>wp_WorkflowId := Some (idBytes (os_WorkflowId ev)),
          wp_WorkflowEventId := Some (idBytes (os_WorkflowEventId ev)),
          wp_FsoRootInfo := Some \<lparr>fr_GlobalRoot = os_GlobalRoot ev, fr_Host = os_Host ev, fr_HostRoot = os_HostRoot ev,
            fr_GitlabNamespace = []\<rparr>\<rparr>)"

definition wfFromPbDuRootStarted :: "ulid_unmarshal \<Rightarrow> WorkflowPb \<Rightarrow> (goerr, WorkflowEvent) outcome" where
  "wfFromPbDuRootStarted ub evpb =
     wfGuard WT_FSO_DU_ROOT_STARTED evpb (Repo_Events.deref (wp_FsoRootInfo evpb) (\<lambda>info.
        optUuid (wp_RegistryId evpb) (\<lambda>reg.
        optUuid (wp_WorkflowId evpb) (\<lambda>wid.
        optUlid ub (wp_WorkflowEventId evpb) (\<lambda>wvid.
            Ok (WvDuRootStarted
              \<lparr>os_RegistryId = reg, os_WorkflowId = wid, os_WorkflowEventId = wvid,
               os_GlobalRoot = fr_GlobalRoot info, os_Host = fr_Host info, os_HostRoot = fr_HostRoot info\<rparr>))))))"

definition wfNewPbDuUpdated :: "string \<Rightarrow> 64 word \<Rightarrow> WorkflowPb" where
  "wfNewPbDuUpdated path usage = (wfPb WT_FSO_DU_UPDATED)\<lparr>wp_PathDiskUsage := Some (path, usage)\<rparr>"

definition wfFromPbDuUpdated :: "WorkflowPb \<Rightarrow> (goerr, WorkflowEvent) outcome" where
  "wfFromPbDuUpdated evpb =
     Repo_Events.deref (wp_PathDiskUsage evpb) (\<lambda>u. Ok (WvDuUpdated (fst u) (snd u)))"

definition wfNewPbDuRootCompletedOk :: "WorkflowPb" where
  "wfNewPbDuRootCompletedOk = (wfPb WT_FSO_DU_ROOT_COMPLETED)\<lparr>wp_StatusCode := 0, wp_StatusMessage := []\<rparr>"

definition wfNewPbDuRootCompletedError :: "32 word \<Rightarrow> string \<Rightarrow> WorkflowPb" where
  "wfNewPbDuRootCompletedError code msg = (wfPb WT_FSO_DU_ROOT_COMPLETED)\<lparr>wp_StatusCode := code, wp_StatusMessage := msg\<rparr>"

definition wfNewPbDuRootCompletedIdRef :: "uuid \<Rightarrow> ulid \<Rightarrow> WorkflowPb" where
  "wfNewPbDuRootCompletedIdRef i vid = (wfPb WT_FSO_DU_ROOT_COMPLETED)\<lparr>wp_WorkflowId := Some (idBytes i), wp_WorkflowEventId := Some (idBytes vid)\<rparr>"

definition wfFromPbDuRootCompleted :: "ulid_unmarshal \<Rightarrow> WorkflowPb \<Rightarrow> (goerr, WorkflowEvent) outcome" where
  "wfFromPbDuRootCompleted ub evpb =
     optUuid (wp_WorkflowId evpb) (\<lambda>wid.
        optUlid ub (wp_WorkflowEventId evpb) (\<lambda>wvid.
          Ok (WvDuRootCompleted \<lparr>wc_StatusCode = wp_StatusCode evpb, wc_StatusMessage = wp_StatusMessage evpb,
            wc_WorkflowId = wid, wc_WorkflowEventId = wvid\<rparr>)))"

definition wfNewPbDuRootCommitted :: "WorkflowPb" where
  "wfNewPbDuRootCommitted = wfPb WT_FSO_DU_ROOT_COMMITTED"

definition wfFromPbDuRootCommitted :: "WorkflowPb \<Rightarrow> (goerr, WorkflowEvent) outcome" where
  "wfFromPbDuRootCommitted evpb =
     Ok WvDuRootCommitted"

definition wfNewPbDuRootDeleted :: "uuid \<Rightarrow> WorkflowPb" where
  "wfNewPbDuRootDeleted i = (wfPb WT_FSO_DU_ROOT_DELETED)\<lparr>wp_WorkflowId := Some (idBytes i)\<rparr>"

definition wfFromPbDuRootDeleted :: "WorkflowPb \<Rightarrow> (goerr, WorkflowEvent) outcome" where
  "wfFromPbDuRootDeleted evpb =
     onError id (FromBytes (wp_WorkflowId evpb)) (\<lambda>i. Ok (WvDuRootDeleted i))"

section \<open>Ping of the servers\<close>

definition validateWorkflowPingRegistryStarted :: "PingRegistryStarted \<Rightarrow> goerr option" where
  "validateWorkflowPingRegistryStarted ev = firstError
      [(ps_RegistryId ev = uuidNil, ''nil RegistryId''),
       (ps_WorkflowId ev \<noteq> uuidNil, ''non-nil WorkflowId''),
       (ps_WorkflowEventId ev \<noteq> ulidNil, ''non-nil WorkflowEventId'')]"

definition validateIndexPingRegistryStarted :: "PingRegistryStarted \<Rightarrow> goerr option" where
  "validateIndexPingRegistryStarted ev = firstError
      [(ps_RegistryId ev \<noteq> uuidNil, ''non-nil RegistryId''),
       (ps_WorkflowId ev = uuidNil, ''non-nil WorkflowId''),
       (ps_WorkflowEventId ev = ulidNil, ''non-nil WorkflowEventId'')]"

definition wfNewPbPingRegistryStartedWorkflow :: "PingRegistryStarted \<Rightarrow> ('e, WorkflowPb) outcome" where
  "wfNewPbPingRegistryStartedWorkflow ev =
     orPanic (validateWorkflowPingRegistryStarted ev) (
       (wfPb WT_FSO_PING_REGISTRY_STARTED)\<lparr>wp_RegistryId := Some (idBytes (ps_RegistryId ev))\<rparr>)"

definition wfNewPbPingRegistryStartedIndex :: "PingRegistryStarted \<Rightarrow> ('e, WorkflowPb) outcome" where
  "wfNewPbPingRegistryStartedIndex ev =
     orPanic (validateIndexPingRegistryStarted ev) (
       (wfPb WT_FSO_PING_REGISTRY_STARTED)\<lparr>wp_WorkflowId := Some (idBytes (ps_WorkflowId ev)),
          wp_WorkflowEventId := Some (idBytes (ps_WorkflowEventId ev))\<rparr>)"

definition wfFromPbPingRegistryStarted :: "ulid_unmarshal \<Rightarrow> WorkflowPb \<Rightarrow> (goerr, WorkflowEvent) outcome" where
  "wfFromPbPingRegistryStarted ub evpb =
     wfGuard WT_FSO_PING_REGISTRY_STARTED evpb (optUuid (wp_RegistryId evpb) (\<lambda>reg.
        optUuid (wp_WorkflowId evpb) (\<lambda>wid.
        optUlid ub (wp_WorkflowEventId evpb) (\<lambda>wvid.
            Ok (WvPingRegistryStarted \<lparr>ps_RegistryId = reg, ps_WorkflowId = wid, ps_WorkflowEventId = wvid\<rparr>)))))"

definition wfNewPbServerPinged :: "32 word \<Rightarrow> string \<Rightarrow> WorkflowPb" where
  "wfNewPbServerPinged code msg = (wfPb WT_FSO_SERVER_PINGED)\<lparr>wp_StatusCode := code, wp_StatusMessage := msg\<rparr>"

definition wfFromPbServerPinged :: "WorkflowPb \<Rightarrow> (goerr, WorkflowEvent) outcome" where
  "wfFromPbServerPinged evpb =
     Ok (WvServerPinged (wp_StatusCode evpb) (wp_StatusMessage evpb))"

definition wfNewPbServerPingsGathered :: "32 word \<Rightarrow> string \<Rightarrow> WorkflowPb" where
  "wfNewPbServerPingsGathered code msg = (wfPb WT_FSO_SERVER_PINGS_GATHERED)\<lparr>wp_StatusCode := code, wp_StatusMessage := msg\<rparr>"

definition wfFromPbServerPingsGathered :: "WorkflowPb \<Rightarrow> (goerr, WorkflowEvent) outcome" where
  "wfFromPbServerPingsGathered evpb =
     Ok (WvServerPingsGathered (wp_StatusCode evpb) (wp_StatusMessage evpb))"

definition wfNewPbPingRegistryCompleted :: "WorkflowPb" where
  "wfNewPbPingRegistryCompleted = wfPb WT_FSO_PING_REGISTRY_COMPLETED"

definition wfNewPbPingRegistryCompletedIdRef :: "uuid \<Rightarrow> ulid \<Rightarrow> WorkflowPb" where
  "wfNewPbPingRegistryCompletedIdRef i vid = (wfPb WT_FSO_PING_REGISTRY_COMPLETED)\<lparr>wp_WorkflowId := Some (idBytes i), wp_WorkflowEventId := Some (idBytes vid)\<rparr>"

definition wfFromPbPingRegistryCompleted :: "ulid_unmarshal \<Rightarrow> WorkflowPb \<Rightarrow> (goerr, WorkflowEvent) outcome" where
  "wfFromPbPingRegistryCompleted ub evpb =
     optUuid (wp_WorkflowId evpb) (\<lambda>wid.
        optUlid ub (wp_WorkflowEventId evpb) (\<lambda>wvid.
          Ok (WvPingRegistryCompleted wid wvid)))"

definition wfNewPbPingRegistryCommitted :: "WorkflowPb" where
  "wfNewPbPingRegistryCommitted = wfPb WT_FSO_PING_REGISTRY_COMMITTED"

definition wfFromPbPingRegistryCommitted :: "WorkflowPb \<Rightarrow> (goerr, WorkflowEvent) outcome" where
  "wfFromPbPingRegistryCommitted evpb =
     Ok WvPingRegistryCommitted"

definition wfNewPbPingRegistryDeleted :: "uuid \<Rightarrow> WorkflowPb" where
  "wfNewPbPingRegistryDeleted i = (wfPb WT_FSO_PING_REGISTRY_DELETED)\<lparr>wp_WorkflowId := Some (idBytes i)\<rparr>"

definition wfFromPbPingRegistryDeleted :: "WorkflowPb \<Rightarrow> (goerr, WorkflowEvent) outcome" where
  "wfFromPbPingRegistryDeleted evpb =
     onError id (FromBytes (wp_WorkflowId evpb)) (\<lambda>i. Ok (WvPingRegistryDeleted i))"

section \<open>Split of a root\<close>

definition validateCommonSplitRootStarted :: "SplitRootStarted \<Rightarrow> goerr option" where
  "validateCommonSplitRootStarted ev = firstError
      [(os_GlobalRoot ev = [], ''empty GlobaPath''),
       (os_Host ev = [], ''empty Host''),
       (os_HostRoot ev = [], ''empty HostRoot'')]"

definition validateWorkflowSplitRootStarted :: "SplitRootStarted \<Rightarrow> goerr option" where
  "validateWorkflowSplitRootStarted ev = orElse (firstError
      [(os_RegistryId ev = uuidNil, ''nil RegistryId''),
       (os_WorkflowId ev \<noteq> uuidNil, ''non-nil WorkflowId''),
       (os_WorkflowEventId ev \<noteq> ulidNil, ''non-nil WorkflowEventId''),
       (ss_MaxDepth ev = 0, ''zero MaxDepth''),
       (ss_MinDiskUsage ev = 0, ''zero MinDiskUsage''),
       (ss_MaxDiskUsage ev = 0, ''zero MaxDiskUsage'')])
     (validateCommonSplitRootStarted ev)"

definition validateIndexSplitRootStarted :: "SplitRootStarted \<Rightarrow> goerr option" where
  "validateIndexSplitRootStarted ev = orElse (firstError
      [(os_RegistryId ev \<noteq> uuidNil, ''non-nil RegistryId''),
       (os_WorkflowId ev = uuidNil, ''non-nil WorkflowId''),
       (os_WorkflowEventId ev = ulidNil, ''non-nil WorkflowEventId'')])
     (validateCommonSplitRootStarted ev)"

definition wfNewPbSplitRootStartedWorkflow :: "SplitRootStarted \<Rightarrow> ('e, WorkflowPb) outcome" where
  "wfNewPbSplitRootStartedWorkflow ev =
     orPanic (validateWorkflowSplitRootStarted ev) (
       (wfPb WT_FSO_SPLIT_ROOT_STARTED)\<lparr>wp_RegistryId := Some (idBytes (os_RegistryId ev)),
          wp_FsoRootInfo := Some \<lparr>fr_GlobalRoot = os_GlobalRoot ev, fr_Host = os_Host ev, fr_HostRoot = os_HostRoot ev,
            fr_GitlabNamespace = []\<rparr>,
          wp_FsoSplitRootParams := Some \<lparr>sp_GlobalRoot = [], sp_MaxDepth = ss_MaxDepth ev,
            sp_MinDiskUsage = ss_MinDiskUsage ev, sp_MaxDiskUsage = ss_MaxDiskUsage ev\<rparr>\<rparr>)"

definition wfNewPbSplitRootStartedIndex :: "SplitRootStarted \<Rightarrow> ('e, WorkflowPb) outcome" where
  "wfNewPbSplitRootStartedIndex ev =
     orPanic (validateIndexSplitRootStarted ev) (
       (wfPb WT_FSO_SPLIT_ROOT_STARTED)\<lparr>wp_WorkflowId := Some (idBytes (os_WorkflowId ev)),
          wp_WorkflowEventId := Some (idBytes (os_WorkflowEventId ev)),
          wp_FsoRootInfo := Some \<lparr>fr_GlobalRoot = os_GlobalRoot ev, fr_Host = os_Host ev, fr_HostRoot = os_HostRoot ev,
            fr_GitlabNamespace = []\<rparr>\<rparr>)"

definition wfFromPbSplitRootStarted :: "ulid_unmarshal \<Rightarrow> WorkflowPb \<Rightarrow> (goerr, WorkflowEvent) outcome" where
  "wfFromPbSplitRootStarted ub evpb =
     wfGuard WT_FSO_SPLIT_ROOT_STARTED evpb (Repo_Events.deref (wp_FsoRootInfo evpb) (\<lambda>info.
        optUuid (wp_RegistryId evpb) (\<lambda>reg.
        optUuid (wp_WorkflowId evpb) (\<lambda>wid.
        optUlid ub (wp_WorkflowEventId evpb) (\<lambda>wvid.
            Ok (WvSplitRootStarted
              \<lparr>os_RegistryId = reg, os_WorkflowId = wid, os_WorkflowEventId = wvid,
               os_GlobalRoot = fr_GlobalRoot info, os_Host = fr_Host info, os_HostRoot = fr_HostRoot info,
               ss_MaxDepth = (case wp_FsoSplitRootParams evpb of None \<Rightarrow> 0 | Some p \<Rightarrow> sp_MaxDepth p),
               ss_MinDiskUsage = (case wp_FsoSplitRootParams evpb of None \<Rightarrow> 0 | Some p \<Rightarrow> sp_MinDiskUsage p),
               ss_MaxDiskUsage = (case wp_FsoSplitRootParams evpb of None \<Rightarrow> 0 | Some p \<Rightarrow> sp_MaxDiskUsage p)\<rparr>))))))"

definition wfNewPbSplitRootDuAppended :: "string \<Rightarrow> 64 word \<Rightarrow> WorkflowPb" where
  "wfNewPbSplitRootDuAppended path usage = (wfPb WT_FSO_SPLIT_ROOT_DU_APPENDED)\<lparr>wp_PathDiskUsage := Some (path, usage)\<rparr>"

definition wfFromPbSplitRootDuAppended :: "WorkflowPb \<Rightarrow> (goerr, WorkflowEvent) outcome" where
  "wfFromPbSplitRootDuAppended evpb =
     Repo_Events.deref (wp_PathDiskUsage evpb) (\<lambda>u. Ok (WvSplitRootDuAppended (fst u) (snd u)))"

definition wfNewPbSplitRootDuCompletedOk :: "WorkflowPb" where
  "wfNewPbSplitRootDuCompletedOk = (wfPb WT_FSO_SPLIT_ROOT_DU_COMPLETED)\<lparr>wp_StatusCode := 0, wp_StatusMessage := []\<rparr>"

definition wfNewPbSplitRootDuCompletedError :: "32 word \<Rightarrow> string \<Rightarrow> WorkflowPb" where
  "wfNewPbSplitRootDuCompletedError code msg = (wfPb WT_FSO_SPLIT_ROOT_DU_COMPLETED)\<lparr>wp_StatusCode := code, wp_StatusMessage := msg\<rparr>"

definition wfFromPbSplitRootDuCompleted :: "WorkflowPb \<Rightarrow> (goerr, WorkflowEvent) outcome" where
  "wfFromPbSplitRootDuCompleted evpb =
     Ok (WvSplitRootDuCompleted (wp_StatusCode evpb) (wp_StatusMessage evpb))"

definition wfNewPbSplitRootSuggestionAppended :: "string \<Rightarrow> SplitRootSuggestion \<Rightarrow> WorkflowPb" where
  "wfNewPbSplitRootSuggestionAppended path x = (wfPb WT_FSO_SPLIT_ROOT_SUGGESTION_APPENDED)\<lparr>wp_FsoSplitRootSuggestion := Some (path, x)\<rparr>"

definition wfFromPbSplitRootSuggestionAppended :: "WorkflowPb \<Rightarrow> (goerr, WorkflowEvent) outcome" where
  "wfFromPbSplitRootSuggestionAppended evpb =
     Repo_Events.deref (wp_FsoSplitRootSuggestion evpb) (\<lambda>x. Ok (WvSplitRootSuggestionAppended (fst x) (snd x)))"

definition wfNewPbSplitRootAnalysisCompletedOk :: "WorkflowPb" where
  "wfNewPbSplitRootAnalysisCompletedOk = (wfPb WT_FSO_SPLIT_ROOT_ANALYSIS_COMPLETED)\<lparr>wp_StatusCode := 0, wp_StatusMessage := []\<rparr>"

definition wfNewPbSplitRootAnalysisCompletedError :: "32 word \<Rightarrow> string \<Rightarrow> WorkflowPb" where
  "wfNewPbSplitRootAnalysisCompletedError code msg = (wfPb WT_FSO_SPLIT_ROOT_ANALYSIS_COMPLETED)\<lparr>wp_StatusCode := code, wp_StatusMessage := msg\<rparr>"

definition wfFromPbSplitRootAnalysisCompleted :: "WorkflowPb \<Rightarrow> (goerr, WorkflowEvent) outcome" where
  "wfFromPbSplitRootAnalysisCompleted evpb =
     Ok (WvSplitRootAnalysisCompleted (wp_StatusCode evpb) (wp_StatusMessage evpb))"

definition wfNewPbSplitRootDecisionAppended :: "string \<Rightarrow> SplitRootDecision \<Rightarrow> WorkflowPb" where
  "wfNewPbSplitRootDecisionAppended path x = (wfPb WT_FSO_SPLIT_ROOT_DECISION_APPENDED)\<lparr>wp_FsoSplitRootDecision := Some (path, x)\<rparr>"

definition wfFromPbSplitRootDecisionAppended :: "WorkflowPb \<Rightarrow> (goerr, WorkflowEvent) outcome" where
  "wfFromPbSplitRootDecisionAppended evpb =
     Repo_Events.deref (wp_FsoSplitRootDecision evpb) (\<lambda>x. Ok (WvSplitRootDecisionAppended (fst x) (snd x)))"

definition wfNewPbSplitRootCompletedOk :: "WorkflowPb" where
  "wfNewPbSplitRootCompletedOk = (wfPb WT_FSO_SPLIT_ROOT_COMPLETED)\<lparr>wp_StatusCode := 0, wp_StatusMessage := []\<rparr>"

definition wfNewPbSplitRootCompletedError :: "32 word \<Rightarrow> string \<Rightarrow> WorkflowPb" where
  "wfNewPbSplitRootCompletedError code msg = (wfPb WT_FSO_SPLIT_ROOT_COMPLETED)\<lparr>wp_StatusCode := code, wp_StatusMessage := msg\<rparr>"

definition wfNewPbSplitRootCompletedIdRef :: "uuid \<Rightarrow> ulid \<Rightarrow> WorkflowPb" where
  "wfNewPbSplitRootCompletedIdRef i vid = (wfPb WT_FSO_SPLIT_ROOT_COMPLETED)\<lparr>wp_WorkflowId := Some (idBytes i), wp_WorkflowEventId := Some (idBytes vid)\<rparr>"

definition wfFromPbSplitRootCompleted :: "ulid_unmarshal \<Rightarrow> WorkflowPb \<Rightarrow> (goerr, WorkflowEvent) outcome" where
  "wfFromPbSplitRootCompleted ub evpb =
     optUuid (wp_WorkflowId evpb) (\<lambda>wid.
        optUlid ub (wp_WorkflowEventId evpb) (\<lambda>wvid.
          Ok (WvSplitRootCompleted \<lparr>wc_StatusCode = wp_StatusCode evpb, wc_StatusMessage = wp_StatusMessage evpb,
            wc_WorkflowId = wid, wc_WorkflowEventId = wvid\<rparr>)))"

definition wfNewPbSplitRootCommitted :: "WorkflowPb" where
  "wfNewPbSplitRootCommitted = wfPb WT_FSO_SPLIT_ROOT_COMMITTED"

definition wfFromPbSplitRootCommitted :: "WorkflowPb \<Rightarrow> (goerr, WorkflowEvent) outcome" where
  "wfFromPbSplitRootCommitted evpb =
     Ok WvSplitRootCommitted"

definition wfNewPbSplitRootDeleted :: "uuid \<Rightarrow> WorkflowPb" where
  "wfNewPbSplitRootDeleted i = (wfPb WT_FSO_SPLIT_ROOT_DELETED)\<lparr>wp_WorkflowId := Some (idBytes i)\<rparr>"

definition wfFromPbSplitRootDeleted :: "WorkflowPb \<Rightarrow> (goerr, WorkflowEvent) outcome" where
  "wfFromPbSplitRootDeleted evpb =
     onError id (FromBytes (wp_WorkflowId evpb)) (\<lambda>i. Ok (WvSplitRootDeleted i))"

section \<open>Freeze of a repo\<close>

definition validateWorkflowFreezeRepoStarted2 :: "RepoWorkflowStarted \<Rightarrow> goerr option" where
  "validateWorkflowFreezeRepoStarted2 ev = firstError
      [(rs_RegistryId ev = uuidNil, ''nil RegistryId''),
       (rs_RegistryName ev = [], ''empty RegistryName''),
       (rs_RepoId ev = uuidNil, ''nil RepoId''),
       (rs_RepoGlobalPath ev = [], ''empty RepoGlobalPath''),
       (rs_AuthorName ev = [], ''empty AuthorName''),
       (rs_AuthorEmail ev = [], ''empty AuthorEmail''),
       (rs_WorkflowId ev \<noteq> uuidNil, ''non-nil WorkflowId''),
       (rs_WorkflowEventId ev \<noteq> ulidNil, ''non-nil WorkflowEventId'')]"

definition validateIndexFreezeRepoStarted2 :: "RepoWorkflowStarted \<Rightarrow> goerr option" where
  "validateIndexFreezeRepoStarted2 ev = firstError
      [(rs_RegistryId ev \<noteq> uuidNil, ''non-nil RegistryId''),
       (rs_RegistryName ev \<noteq> [], ''non-empty RegistryName''),
       (rs_StartRegistryVid ev \<noteq> ulidNil, ''non-nil StartRegistryVid''),
       (rs_RepoId ev \<noteq> uuidNil, ''non-nil RepoId''),
       (rs_StartRepoVid ev \<noteq> ulidNil, ''non-nil StartRepoVid''),
       (rs_RepoGlobalPath ev = [], ''empty RepoGlobalPath''),
       (rs_AuthorName ev \<noteq> [], ''non-empty AuthorName''),
       (rs_AuthorEmail ev \<noteq> [], ''non-empty AuthorEmail''),
       (rs_WorkflowId ev = uuidNil, ''nil WorkflowId''),
       (rs_WorkflowEventId ev = ulidNil, ''nil WorkflowEventId'')]"

definition wfNewPbFreezeRepoStarted2Workflow :: "RepoWorkflowStarted \<Rightarrow> ('e, WorkflowPb) outcome" where
  "wfNewPbFreezeRepoStarted2Workflow ev =
     orPanic (validateWorkflowFreezeRepoStarted2 ev) (
       (wfPb WT_FSO_FREEZE_REPO_STARTED_2)\<lparr>wp_RegistryId := Some (idBytes (rs_RegistryId ev)),
          wp_FsoRegistryName := rs_RegistryName ev,
          wp_RepoId := Some (idBytes (rs_RepoId ev)),
          wp_GitAuthor := Some \<lparr>gu_Name = rs_AuthorName ev, gu_Email = rs_AuthorEmail ev\<rparr>,
          wp_FsoRepoInitInfo := Some (repoInitInfo0\<lparr>ri_GlobalPath := rs_RepoGlobalPath ev\<rparr>),
          wp_RegistryEventId := unlessNil (rs_StartRegistryVid ev),
          wp_RepoEventId := unlessNil (rs_StartRepoVid ev)\<rparr>)"

definition wfNewPbFreezeRepoStarted2Index :: "RepoWorkflowStarted \<Rightarrow> ('e, WorkflowPb) outcome" where
  "wfNewPbFreezeRepoStarted2Index ev =
     orPanic (validateIndexFreezeRepoStarted2 ev) (
       (wfPb WT_FSO_FREEZE_REPO_STARTED_2)\<lparr>wp_WorkflowId := Some (idBytes (rs_WorkflowId ev)),
          wp_WorkflowEventId := Some (idBytes (rs_WorkflowEventId ev)),
          wp_FsoRepoInitInfo := Some (repoInitInfo0\<lparr>ri_GlobalPath := rs_RepoGlobalPath ev\<rparr>)\<rparr>)"

definition wfFromPbFreezeRepoStarted2 :: "ulid_unmarshal \<Rightarrow> WorkflowPb \<Rightarrow> (goerr, WorkflowEvent) outcome" where
  "wfFromPbFreezeRepoStarted2 ub evpb =
     wfGuard WT_FSO_FREEZE_REPO_STARTED_2 evpb (optUuid (wp_RegistryId evpb) (\<lambda>reg.
        optUlid ub (wp_RegistryEventId evpb) (\<lambda>regVid.
        optUuid (wp_RepoId evpb) (\<lambda>repo.
        optUlid ub (wp_RepoEventId evpb) (\<lambda>repoVid.
        optUuid (wp_WorkflowId evpb) (\<lambda>wid.
        optUlid ub (wp_WorkflowEventId evpb) (\<lambda>wvid.
            Ok (WvFreezeRepoStarted2
              \<lparr>rs_RegistryId = reg, rs_RegistryName = wp_FsoRegistryName evpb, rs_StartRegistryVid = regVid,
               rs_RepoId = repo, rs_StartRepoVid = repoVid,
               rs_RepoGlobalPath = (case wp_FsoRepoInitInfo evpb of None \<Rightarrow> [] | Some info \<Rightarrow> ri_GlobalPath info),
               rs_AuthorName = (case wp_GitAuthor evpb of None \<Rightarrow> [] | Some a \<Rightarrow> gu_Name a),
               rs_AuthorEmail = (case wp_GitAuthor evpb of None \<Rightarrow> [] | Some a \<Rightarrow> gu_Email a),
               rs_WorkflowId = wid, rs_WorkflowEventId = wvid\<rparr>))))))))"

definition wfNewPbFreezeRepoFilesStarted :: "WorkflowPb" where
  "wfNewPbFreezeRepoFilesStarted = wfPb WT_FSO_FREEZE_REPO_FILES_STARTED"

definition wfFromPbFreezeRepoFilesStarted :: "WorkflowPb \<Rightarrow> (goerr, WorkflowEvent) outcome" where
  "wfFromPbFreezeRepoFilesStarted evpb =
     wfGuard WT_FSO_FREEZE_REPO_FILES_STARTED evpb (Ok WvFreezeRepoFilesStarted)"

definition wfNewPbFreezeRepoFilesCompletedOk :: "WorkflowPb" where
  "wfNewPbFreezeRepoFilesCompletedOk = (wfPb WT_FSO_FREEZE_REPO_FILES_COMPLETED)\<lparr>wp_StatusCode := 0, wp_StatusMessage := []\<rparr>"

definition wfNewPbFreezeRepoFilesCompletedError :: "32 word \<Rightarrow> string \<Rightarrow> WorkflowPb" where
  "wfNewPbFreezeRepoFilesCompletedError code msg = (wfPb WT_FSO_FREEZE_REPO_FILES_COMPLETED)\<lparr>wp_StatusCode := code, wp_StatusMessage := msg\<rparr>"

definition wfFromPbFreezeRepoFilesCompleted :: "WorkflowPb \<Rightarrow> (goerr, WorkflowEvent) outcome" where
  "wfFromPbFreezeRepoFilesCompleted evpb =
     wfGuard WT_FSO_FREEZE_REPO_FILES_COMPLETED evpb (Ok (WvFreezeRepoFilesCompleted (wp_StatusCode evpb) (wp_StatusMessage evpb)))"

definition wfNewPbFreezeRepoCompleted2Ok :: "WorkflowPb" where
  "wfNewPbFreezeRepoCompleted2Ok = (wfPb WT_FSO_FREEZE_REPO_COMPLETED_2)\<lparr>wp_StatusCode := 0, wp_StatusMessage := []\<rparr>"

definition wfNewPbFreezeRepoCompleted2Error :: "32 word \<Rightarrow> string \<Rightarrow> WorkflowPb" where
  "wfNewPbFreezeRepoCompleted2Error code msg = (wfPb WT_FSO_FREEZE_REPO_COMPLETED_2)\<lparr>wp_StatusCode := code, wp_StatusMessage := msg\<rparr>"

definition wfNewPbFreezeRepoCompleted2IdRef :: "uuid \<Rightarrow> ulid \<Rightarrow> WorkflowPb" where
  "wfNewPbFreezeRepoCompleted2IdRef i vid = (wfPb WT_FSO_FREEZE_REPO_COMPLETED_2)\<lparr>wp_WorkflowId := Some (idBytes i), wp_WorkflowEventId := Some (idBytes vid)\<rparr>"

definition wfFromPbFreezeRepoCompleted2 :: "ulid_unmarshal \<Rightarrow> WorkflowPb \<Rightarrow> (goerr, WorkflowEvent) outcome" where
  "wfFromPbFreezeRepoCompleted2 ub evpb =
     wfGuard WT_FSO_FREEZE_REPO_COMPLETED_2 evpb (optUuid (wp_WorkflowId evpb) (\<lambda>wid.
        optUlid ub (wp_WorkflowEventId evpb) (\<lambda>wvid.
          Ok (WvFreezeRepoCompleted2 \<lparr>wc_StatusCode = wp_StatusCode evpb, wc_StatusMessage = wp_StatusMessage evpb,
            wc_WorkflowId = wid, wc_WorkflowEventId = wvid\<rparr>))))"

definition wfNewPbFreezeRepoCommitted :: "WorkflowPb" where
  "wfNewPbFreezeRepoCommitted = wfPb WT_FSO_FREEZE_REPO_COMMITTED"

definition wfFromPbFreezeRepoCommitted :: "WorkflowPb \<Rightarrow> (goerr, WorkflowEvent) outcome" where
  "wfFromPbFreezeRepoCommitted evpb =
     Ok WvFreezeRepoCommitted"

definition wfNewPbFreezeRepoDeleted :: "uuid \<Rightarrow> WorkflowPb" where
  "wfNewPbFreezeRepoDeleted i = (wfPb WT_FSO_FREEZE_REPO_DELETED)\<lparr>wp_WorkflowId := Some (idBytes i)\<rparr>"

definition wfFromPbFreezeRepoDeleted :: "WorkflowPb \<Rightarrow> (goerr, WorkflowEvent) outcome" where
  "wfFromPbFreezeRepoDeleted evpb =
     onError id (FromBytes (wp_WorkflowId evpb)) (\<lambda>i. Ok (WvFreezeRepoDeleted i))"

section \<open>Unfreeze of a repo\<close>

definition validateWorkflowUnfreezeRepoStarted2 :: "RepoWorkflowStarted \<Rightarrow> goerr option" where
  "validateWorkflowUnfreezeRepoStarted2 ev = firstError
      [(rs_RegistryId ev = uuidNil, ''nil RegistryId''),
       (rs_RegistryName ev = [], ''empty RegistryName''),
       (rs_RepoId ev = uuidNil, ''nil RepoId''),
       (rs_RepoGlobalPath ev = [], ''empty RepoGlobalPath''),
       (rs_AuthorName ev = [], ''empty AuthorName''),
       (rs_AuthorEmail ev = [], ''empty AuthorEmail''),
       (rs_WorkflowId ev \<noteq> uuidNil, ''non-nil WorkflowId''),
       (rs_WorkflowEventId ev \<noteq> ulidNil, ''non-nil WorkflowEventId'')]"

definition validateIndexUnfreezeRepoStarted2 :: "RepoWorkflowStarted \<Rightarrow> goerr option" where
  "validateIndexUnfreezeRepoStarted2 ev = firstError
      [(rs_RegistryId ev \<noteq> uuidNil, ''non-nil RegistryId''),
       (rs_RegistryName ev \<noteq> [], ''non-empty RegistryName''),
       (rs_StartRegistryVid ev \<noteq> ulidNil, ''non-nil StartRegistryVid''),
       (rs_RepoId ev \<noteq> uuidNil, ''non-nil RepoId''),
       (rs_StartRepoVid ev \<noteq> ulidNil, ''non-nil StartRepoVid''),
       (rs_RepoGlobalPath ev = [], ''empty RepoGlobalPath''),
       (rs_AuthorName ev \<noteq> [], ''non-empty AuthorName''),
       (rs_AuthorEmail ev \<noteq> [], ''non-empty AuthorEmail''),
       (rs_WorkflowId ev = uuidNil, ''nil WorkflowId''),
       (rs_WorkflowEventId ev = ulidNil, ''nil WorkflowEventId'')]"

definition wfNewPbUnfreezeRepoStarted2Workflow :: "RepoWorkflowStarted \<Rightarrow> ('e, WorkflowPb) outcome" where
  "wfNewPbUnfreezeRepoStarted2Workflow ev =
     orPanic (validateWorkflowUnfreezeRepoStarted2 ev) (
       (wfPb WT_FSO_UNFREEZE_REPO_STARTED_2)\<lparr>wp_RegistryId := Some (idBytes (rs_RegistryId ev)),
          wp_FsoRegistryName := rs_RegistryName ev,
          wp_RepoId := Some (idBytes (rs_RepoId ev)),
          wp_GitAuthor := Some \<lparr>gu_Name = rs_AuthorName ev, gu_Email = rs_AuthorEmail ev\<rparr>,
          wp_FsoRepoInitInfo := Some (repoInitInfo0\<lparr>ri_GlobalPath := rs_RepoGlobalPath ev\<rparr>),
          wp_RegistryEventId := unlessNil (rs_StartRegistryVid ev),
          wp_RepoEventId := unlessNil (rs_StartRepoVid ev)\<rparr>)"

definition wfNewPbUnfreezeRepoStarted2Index :: "RepoWorkflowStarted \<Rightarrow> ('e, WorkflowPb) outcome" where
  "wfNewPbUnfreezeRepoStarted2Index ev =
     orPanic (validateIndexUnfreezeRepoStarted2 ev) (
       (wfPb WT_FSO_UNFREEZE_REPO_STARTED_2)\<lparr>wp_WorkflowId := Some (idBytes (rs_WorkflowId ev)),
          wp_WorkflowEventId := Some (idBytes (rs_WorkflowEventId ev)),
          wp_FsoRepoInitInfo := Some (repoInitInfo0\<lparr>ri_GlobalPath := rs_RepoGlobalPath ev\<rparr>)\<rparr>)"

definition wfFromPbUnfreezeRepoStarted2 :: "ulid_unmarshal \<Rightarrow> WorkflowPb \<Rightarrow> (goerr, WorkflowEvent) outcome" where
  "wfFromPbUnfreezeRepoStarted2 ub evpb =
     wfGuard WT_FSO_UNFREEZE_REPO_STARTED_2 evpb (optUuid (wp_RegistryId evpb) (\<lambda>reg.
        optUlid ub (wp_RegistryEventId evpb) (\<lambda>regVid.
        optUuid (wp_RepoId evpb) (\<lambda>repo.
        optUlid ub (wp_RepoEventId evpb) (\<lambda>repoVid.
        optUuid (wp_WorkflowId evpb) (\<lambda>wid.
        optUlid ub (wp_WorkflowEventId evpb) (\<lambda>wvid.
            Ok (WvUnfreezeRepoStarted2
              \<lparr>rs_RegistryId = reg, rs_RegistryName = wp_FsoRegistryName evpb, rs_StartRegistryVid = regVid,
               rs_RepoId = repo, rs_StartRepoVid = repoVid,
               rs_RepoGlobalPath = (case wp_FsoRepoInitInfo evpb of None \<Rightarrow> [] | Some info \<Rightarrow> ri_GlobalPath info),
               rs_AuthorName = (case wp_GitAuthor evpb of None \<Rightarrow> [] | Some a \<Rightarrow> gu_Name a),
               rs_AuthorEmail = (case wp_GitAuthor evpb of None \<Rightarrow> [] | Some a \<Rightarrow> gu_Email a),
               rs_WorkflowId = wid, rs_WorkflowEventId = wvid\<rparr>))))))))"

definition wfNewPbUnfreezeRepoFilesStarted :: "WorkflowPb" where
  "wfNewPbUnfreezeRepoFilesStarted = wfPb WT_FSO_UNFREEZE_REPO_FILES_STARTED"

definition wfFromPbUnfreezeRepoFilesStarted :: "WorkflowPb \<Rightarrow> (goerr, WorkflowEvent) outcome" where
  "wfFromPbUnfreezeRepoFilesStarted evpb =
     wfGuard WT_FSO_UNFREEZE_REPO_FILES_STARTED evpb (Ok WvUnfreezeRepoFilesStarted)"

definition wfNewPbUnfreezeRepoFilesCompletedOk :: "WorkflowPb" where
  "wfNewPbUnfreezeRepoFilesCompletedOk = (wfPb WT_FSO_UNFREEZE_REPO_FILES_COMPLETED)\<lparr>wp_StatusCode := 0, wp_StatusMessage := []\<rparr>"

definition wfNewPbUnfreezeRepoFilesCompletedError :: "32 word \<Rightarrow> string \<Rightarrow> WorkflowPb" where
  "wfNewPbUnfreezeRepoFilesCompletedError code msg = (wfPb WT_FSO_UNFREEZE_REPO_FILES_COMPLETED)\<lparr>wp_StatusCode := code, wp_StatusMessage := msg\<rparr>"

definition wfFromPbUnfreezeRepoFilesCompleted :: "WorkflowPb \<Rightarrow> (goerr, WorkflowEvent) outcome" where
  "wfFromPbUnfreezeRepoFilesCompleted evpb =
     wfGuard WT_FSO_UNFREEZE_REPO_FILES_COMPLETED evpb (Ok (WvUnfreezeRepoFilesCompleted (wp_StatusCode evpb) (wp_StatusMessage evpb)))"

definition wfNewPbUnfreezeRepoCompleted2Ok :: "WorkflowPb" where
  "wfNewPbUnfreezeRepoCompleted2Ok = (wfPb WT_FSO_UNFREEZE_REPO_COMPLETED_2)\<lparr>wp_StatusCode := 0, wp_StatusMessage := []\<rparr>"

definition wfNewPbUnfreezeRepoCompleted2Error :: "32 word \<Rightarrow> string \<Rightarrow> WorkflowPb" where
  "wfNewPbUnfreezeRepoCompleted2Error code msg = (wfPb WT_FSO_UNFREEZE_REPO_COMPLETED_2)\<lparr>wp_StatusCode := code, wp_StatusMessage := msg\<rparr>"

definition wfNewPbUnfreezeRepoCompleted2IdRef :: "uuid \<Rightarrow> ulid \<Rightarrow> WorkflowPb" where
  "wfNewPbUnfreezeRepoCompleted2IdRef i vid = (wfPb WT_FSO_UNFREEZE_REPO_COMPLETED_2)\<lparr>wp_WorkflowId := Some (idBytes i), wp_WorkflowEventId := Some (idBytes vid)\<rparr>"

definition wfFromPbUnfreezeRepoCompleted2 :: "ulid_unmarshal \<Rightarrow> WorkflowPb \<Rightarrow> (goerr, WorkflowEvent) outcome" where
  "wfFromPbUnfreezeRepoCompleted2 ub evpb =
     wfGuard WT_FSO_UNFREEZE_REPO_COMPLETED_2 evpb (optUuid (wp_WorkflowId evpb) (\<lambda>wid.
        optUlid ub (wp_WorkflowEventId evpb) (\<lambda>wvid.
          Ok (WvUnfreezeRepoCompleted2 \<lparr>wc_StatusCode = wp_StatusCode evpb, wc_StatusMessage = wp_StatusMessage evpb,
            wc_WorkflowId = wid, wc_WorkflowEventId = wvid\<rparr>))))"

definition wfNewPbUnfreezeRepoCommitted :: "WorkflowPb" where
  "wfNewPbUnfreezeRepoCommitted = wfPb WT_FSO_UNFREEZE_REPO_COMMITTED"

definition wfFromPbUnfreezeRepoCommitted :: "WorkflowPb \<Rightarrow> (goerr, WorkflowEvent) outcome" where
  "wfFromPbUnfreezeRepoCommitted evpb =
     Ok WvUnfreezeRepoCommitted"

definition wfNewPbUnfreezeRepoDeleted :: "uuid \<Rightarrow> WorkflowPb" where
  "wfNewPbUnfreezeRepoDeleted i = (wfPb WT_FSO_UNFREEZE_REPO_DELETED)\<lparr>wp_WorkflowId := Some (idBytes i)\<rparr>"

definition wfFromPbUnfreezeRepoDeleted :: "WorkflowPb \<Rightarrow> (goerr, WorkflowEvent) outcome" where
  "wfFromPbUnfreezeRepoDeleted evpb =
     onError id (FromBytes (wp_WorkflowId evpb)) (\<lambda>i. Ok (WvUnfreezeRepoDeleted i))"

section \<open>Archive of a repo\<close>

definition validateWorkflowArchiveRepoStarted :: "RepoWorkflowStarted \<Rightarrow> goerr option" where
  "validateWorkflowArchiveRepoStarted ev = firstError
      [(rs_RegistryId ev = uuidNil, ''nil RegistryId''),
       (rs_RegistryName ev = [], ''empty RegistryName''),
       (rs_RepoId ev = uuidNil, ''nil RepoId''),
       (rs_RepoGlobalPath ev = [], ''empty RepoGlobalPath''),
       (rs_AuthorName ev = [], ''empty AuthorName''),
       (rs_AuthorEmail ev = [], ''empty AuthorEmail''),
       (rs_WorkflowId ev \<noteq> uuidNil, ''non-nil WorkflowId''),
       (rs_WorkflowEventId ev \<noteq> ulidNil, ''non-nil WorkflowEventId'')]"

definition validateIndexArchiveRepoStarted :: "RepoWorkflowStarted \<Rightarrow> goerr option" where
  "validateIndexArchiveRepoStarted ev = firstError
      [(rs_RegistryId ev \<noteq> uuidNil, ''non-nil RegistryId''),
       (rs_RegistryName ev \<noteq> [], ''non-empty RegistryName''),
       (rs_StartRegistryVid ev \<noteq> ulidNil, ''non-nil StartRegistryVid''),
       (rs_RepoId ev \<noteq> uuidNil, ''non-nil RepoId''),
       (rs_StartRepoVid ev \<noteq> ulidNil, ''non-nil StartRepoVid''),
       (rs_RepoGlobalPath ev = [], ''empty RepoGlobalPath''),
       (rs_AuthorName ev \<noteq> [], ''non-empty AuthorName''),
       (rs_AuthorEmail ev \<noteq> [], ''non-empty AuthorEmail''),
       (rs_WorkflowId ev = uuidNil, ''nil WorkflowId''),
       (rs_WorkflowEventId ev = ulidNil, ''nil WorkflowEventId'')]"

definition wfNewPbArchiveRepoStartedWorkflow :: "RepoWorkflowStarted \<Rightarrow> ('e, WorkflowPb) outcome" where
  "wfNewPbArchiveRepoStartedWorkflow ev =
     orPanic (validateWorkflowArchiveRepoStarted ev) (
       (wfPb WT_FSO_ARCHIVE_REPO_STARTED)\<lparr>wp_RegistryId := Some (idBytes (rs_RegistryId ev)),
          wp_FsoRegistryName := rs_RegistryName ev,
          wp_RepoId := Some (idBytes (rs_RepoId ev)),
          wp_GitAuthor := Some \<lparr>gu_Name = rs_AuthorName ev, gu_Email = rs_AuthorEmail ev\<rparr>,
          wp_FsoRepoInitInfo := Some (repoInitInfo0\<lparr>ri_GlobalPath := rs_RepoGlobalPath ev\<rparr>),
          wp_RegistryEventId := unlessNil (rs_StartRegistryVid ev),
          wp_RepoEventId := unlessNil (rs_StartRepoVid ev)\<rparr>)"

definition wfNewPbArchiveRepoStartedIndex :: "RepoWorkflowStarted \<Rightarrow> ('e, WorkflowPb) outcome" where
  "wfNewPbArchiveRepoStartedIndex ev =
     orPanic (validateIndexArchiveRepoStarted ev) (
       (wfPb WT_FSO_ARCHIVE_REPO_STARTED)\<lparr>wp_WorkflowId := Some (idBytes (rs_WorkflowId ev)),
          wp_WorkflowEventId := Some (idBytes (rs_WorkflowEventId ev)),
          wp_FsoRepoInitInfo := Some (repoInitInfo0\<lparr>ri_GlobalPath := rs_RepoGlobalPath ev\<rparr>)\<rparr>)"

definition wfFromPbArchiveRepoStarted :: "ulid_unmarshal \<Rightarrow> WorkflowPb \<Rightarrow> (goerr, WorkflowEvent) outcome" where
  "wfFromPbArchiveRepoStarted ub evpb =
     wfGuard WT_FSO_ARCHIVE_REPO_STARTED evpb (optUuid (wp_RegistryId evpb) (\<lambda>reg.
        optUlid ub (wp_RegistryEventId evpb) (\<lambda>regVid.
        optUuid (wp_RepoId evpb) (\<lambda>repo.
        optUlid ub (wp_RepoEventId evpb) (\<lambda>repoVid.
        optUuid (wp_WorkflowId evpb) (\<lambda>wid.
        optUlid ub (wp_WorkflowEventId evpb) (\<lambda>wvid.
            Ok (WvArchiveRepoStarted
              \<lparr>rs_RegistryId = reg, rs_RegistryName = wp_FsoRegistryName evpb, rs_StartRegistryVid = regVid,
               rs_RepoId = repo, rs_StartRepoVid = repoVid,
               rs_RepoGlobalPath = (case wp_FsoRepoInitInfo evpb of None \<Rightarrow> [] | Some info \<Rightarrow> ri_GlobalPath info),
               rs_AuthorName = (case wp_GitAuthor evpb of None \<Rightarrow> [] | Some a \<Rightarrow> gu_Name a),
               rs_AuthorEmail = (case wp_GitAuthor evpb of None \<Rightarrow> [] | Some a \<Rightarrow> gu_Email a),
               rs_WorkflowId = wid, rs_WorkflowEventId = wvid\<rparr>))))))))"

definition wfNewPbArchiveRepoFilesStarted :: "RepoAclPolicy option \<Rightarrow> WorkflowPb" where
  "wfNewPbArchiveRepoFilesStarted aclPolicy = (wfPb WT_FSO_ARCHIVE_REPO_FILES_STARTED)\<lparr>wp_RepoAclPolicy := aclPolicy\<rparr>"

definition wfFromPbArchiveRepoFilesStarted :: "WorkflowPb \<Rightarrow> (goerr, WorkflowEvent) outcome" where
  "wfFromPbArchiveRepoFilesStarted evpb =
     wfGuard WT_FSO_ARCHIVE_REPO_FILES_STARTED evpb (Ok (WvArchiveRepoFilesStarted (wp_RepoAclPolicy evpb)))"

definition wfNewPbArchiveRepoTarttCompleted :: "string \<Rightarrow> ('e, WorkflowPb) outcome" where
  "wfNewPbArchiveRepoTarttCompleted tarPath =
     orPanic (firstError [(tarPath = [], ''empty tar path'')]) (
       (wfPb WT_FSO_ARCHIVE_REPO_TARTT_COMPLETED)\<lparr>wp_TarttTarInfo := Some tarPath\<rparr>)"

definition wfFromPbArchiveRepoTarttCompleted :: "WorkflowPb \<Rightarrow> (goerr, WorkflowEvent) outcome" where
  "wfFromPbArchiveRepoTarttCompleted evpb =
     wfGuard WT_FSO_ARCHIVE_REPO_TARTT_COMPLETED evpb (Ok (WvArchiveRepoTarttCompleted (case wp_TarttTarInfo evpb of None \<Rightarrow> [] | Some path \<Rightarrow> path)))"

definition wfNewPbArchiveRepoSwapStarted :: "string \<Rightarrow> WorkflowPb" where
  "wfNewPbArchiveRepoSwapStarted wd = (wfPb WT_FSO_ARCHIVE_REPO_SWAP_STARTED)\<lparr>wp_WorkingDir := wd\<rparr>"

definition wfFromPbArchiveRepoSwapStarted :: "WorkflowPb \<Rightarrow> (goerr, WorkflowEvent) outcome" where
  "wfFromPbArchiveRepoSwapStarted evpb =
     wfGuard WT_FSO_ARCHIVE_REPO_SWAP_STARTED evpb (Ok (WvArchiveRepoSwapStarted (wp_WorkingDir evpb)))"

definition wfNewPbArchiveRepoFilesCompletedOk :: "WorkflowPb" where
  "wfNewPbArchiveRepoFilesCompletedOk = (wfPb WT_FSO_ARCHIVE_REPO_FILES_COMPLETED)\<lparr>wp_StatusCode := 0, wp_StatusMessage := []\<rparr>"

definition wfNewPbArchiveRepoFilesCompletedError :: "32 word \<Rightarrow> string \<Rightarrow> WorkflowPb" where
  "wfNewPbArchiveRepoFilesCompletedError code msg = (wfPb WT_FSO_ARCHIVE_REPO_FILES_COMPLETED)\<lparr>wp_StatusCode := code, wp_StatusMessage := msg\<rparr>"

definition wfFromPbArchiveRepoFilesCompleted :: "WorkflowPb \<Rightarrow> (goerr, WorkflowEvent) outcome" where
  "wfFromPbArchiveRepoFilesCompleted evpb =
     wfGuard WT_FSO_ARCHIVE_REPO_FILES_COMPLETED evpb (Ok (WvArchiveRepoFilesCompleted (wp_StatusCode evpb) (wp_StatusMessage evpb)))"

definition wfNewPbArchiveRepoFilesCommitted :: "WorkflowPb" where
  "wfNewPbArchiveRepoFilesCommitted = wfPb WT_FSO_ARCHIVE_REPO_FILES_COMMITTED"

definition wfFromPbArchiveRepoFilesCommitted :: "WorkflowPb \<Rightarrow> (goerr, WorkflowEvent) outcome" where
  "wfFromPbArchiveRepoFilesCommitted evpb =
     Ok WvArchiveRepoFilesCommitted"

definition wfNewPbArchiveRepoCompletedOk :: "WorkflowPb" where
  "wfNewPbArchiveRepoCompletedOk = (wfPb WT_FSO_ARCHIVE_REPO_COMPLETED)\<lparr>wp_StatusCode := 0, wp_StatusMessage := []\<rparr>"

definition wfNewPbArchiveRepoCompletedError :: "32 word \<Rightarrow> string \<Rightarrow> WorkflowPb" where
  "wfNewPbArchiveRepoCompletedError code msg = (wfPb WT_FSO_ARCHIVE_REPO_COMPLETED)\<lparr>wp_StatusCode := code, wp_StatusMessage := msg\<rparr>"

definition wfNewPbArchiveRepoCompletedIdRef :: "uuid \<Rightarrow> ulid \<Rightarrow> WorkflowPb" where
  "wfNewPbArchiveRepoCompletedIdRef i vid = (wfPb WT_FSO_ARCHIVE_REPO_COMPLETED)\<lparr>wp_WorkflowId := Some (idBytes i), wp_WorkflowEventId := Some (idBytes vid)\<rparr>"

definition wfFromPbArchiveRepoCompleted :: "ulid_unmarshal \<Rightarrow> WorkflowPb \<Rightarrow> (goerr, WorkflowEvent) outcome" where
  "wfFromPbArchiveRepoCompleted ub evpb =
     wfGuard WT_FSO_ARCHIVE_REPO_COMPLETED evpb (optUuid (wp_WorkflowId evpb) (\<lambda>wid.
        optUlid ub (wp_WorkflowEventId evpb) (\<lambda>wvid.
          Ok (WvArchiveRepoCompleted \<lparr>wc_StatusCode = wp_StatusCode evpb, wc_StatusMessage = wp_StatusMessage evpb,
            wc_WorkflowId = wid, wc_WorkflowEventId = wvid\<rparr>))))"

definition wfNewPbArchiveRepoGcCompleted :: "WorkflowPb" where
  "wfNewPbArchiveRepoGcCompleted = wfPb WT_FSO_ARCHIVE_REPO_GC_COMPLETED"

definition wfFromPbArchiveRepoGcCompleted :: "WorkflowPb \<Rightarrow> (goerr, WorkflowEvent) outcome" where
  "wfFromPbArchiveRepoGcCompleted evpb =
     Ok WvArchiveRepoGcCompleted"

definition wfNewPbArchiveRepoCommitted :: "WorkflowPb" where
  "wfNewPbArchiveRepoCommitted = wfPb WT_FSO_ARCHIVE_REPO_COMMITTED"

definition wfFromPbArchiveRepoCommitted :: "WorkflowPb \<Rightarrow> (goerr, WorkflowEvent) outcome" where
  "wfFromPbArchiveRepoCommitted evpb =
     Ok WvArchiveRepoCommitted"

definition wfNewPbArchiveRepoDeleted :: "uuid \<Rightarrow> WorkflowPb" where
  "wfNewPbArchiveRepoDeleted i = (wfPb WT_FSO_ARCHIVE_REPO_DELETED)\<lparr>wp_WorkflowId := Some (idBytes i)\<rparr>"

definition wfFromPbArchiveRepoDeleted :: "WorkflowPb \<Rightarrow> (goerr, WorkflowEvent) outcome" where
  "wfFromPbArchiveRepoDeleted evpb =
     onError id (FromBytes (wp_WorkflowId evpb)) (\<lambda>i. Ok (WvArchiveRepoDeleted i))"

section \<open>Unarchive of a repo\<close>

definition validateWorkflowUnarchiveRepoStarted :: "UnarchiveRepoStarted \<Rightarrow> goerr option" where
  "validateWorkflowUnarchiveRepoStarted ev = firstError
      [(rs_RegistryId ev = uuidNil, ''nil RegistryId''),
       (rs_RegistryName ev = [], ''empty RegistryName''),
       (rs_RepoId ev = uuidNil, ''nil RepoId''),
       (rs_RepoGlobalPath ev = [], ''empty RepoGlobalPath''),
       (us_RepoArchiveURL ev = [], ''empty RepoArchiveURL''),
       (us_TarttTarPath ev = [], ''empty TarttTarPath''),
       (rs_AuthorName ev = [], ''empty AuthorName''),
       (rs_AuthorEmail ev = [], ''empty AuthorEmail''),
       (rs_WorkflowId ev \<noteq> uuidNil, ''non-nil WorkflowId''),
       (rs_WorkflowEventId ev \<noteq> ulidNil, ''non-nil WorkflowEventId'')]"

definition validateIndexUnarchiveRepoStarted :: "UnarchiveRepoStarted \<Rightarrow> goerr option" where
  "validateIndexUnarchiveRepoStarted ev = firstError
      [(rs_RegistryId ev \<noteq> uuidNil, ''non-nil RegistryId''),
       (rs_RegistryName ev \<noteq> [], ''non-empty RegistryName''),
       (rs_StartRegistryVid ev \<noteq> ulidNil, ''non-nil StartRegistryVid''),
       (rs_RepoId ev \<noteq> uuidNil, ''non-nil RepoId''),
       (rs_StartRepoVid ev \<noteq> ulidNil, ''non-nil StartRepoVid''),
       (rs_RepoGlobalPath ev = [], ''empty RepoGlobalPath''),
       (us_RepoArchiveURL ev \<noteq> [], ''non-empty RepoArchiveURL''),
       (us_TarttTarPath ev \<noteq> [], ''non-empty TarttTarPath''),
       (rs_AuthorName ev \<noteq> [], ''non-empty AuthorName''),
       (rs_AuthorEmail ev \<noteq> [], ''non-empty AuthorEmail''),
       (rs_WorkflowId ev = uuidNil, ''nil WorkflowId''),
       (rs_WorkflowEventId ev = ulidNil, ''nil WorkflowEventId'')]"

definition wfNewPbUnarchiveRepoStartedWorkflow :: "UnarchiveRepoStarted \<Rightarrow> ('e, WorkflowPb) outcome" where
  "wfNewPbUnarchiveRepoStartedWorkflow ev =
     orPanic (validateWorkflowUnarchiveRepoStarted ev) (
       (wfPb WT_FSO_UNARCHIVE_REPO_STARTED)\<lparr>wp_RegistryId := Some (idBytes (rs_RegistryId ev)),
          wp_FsoRegistryName := rs_RegistryName ev,
          wp_RepoId := Some (idBytes (rs_RepoId ev)),
          wp_GitAuthor := Some \<lparr>gu_Name = rs_AuthorName ev, gu_Email = rs_AuthorEmail ev\<rparr>,
          wp_FsoRepoInitInfo := Some (repoInitInfo0\<lparr>ri_GlobalPath := rs_RepoGlobalPath ev\<rparr>),
          wp_FsoArchiveRepoInfo := Some (us_RepoArchiveURL ev),
          wp_TarttTarInfo := Some (us_TarttTarPath ev),
          wp_RegistryEventId := unlessNil (rs_StartRegistryVid ev),
          wp_RepoEventId := unlessNil (rs_StartRepoVid ev)\<rparr>)"

definition wfNewPbUnarchiveRepoStartedIndex :: "UnarchiveRepoStarted \<Rightarrow> ('e, WorkflowPb) outcome" where
  "wfNewPbUnarchiveRepoStartedIndex ev =
     orPanic (validateIndexUnarchiveRepoStarted ev) (
       (wfPb WT_FSO_UNARCHIVE_REPO_STARTED)\<lparr>wp_WorkflowId := Some (idBytes (rs_WorkflowId ev)),
          wp_WorkflowEventId := Some (idBytes (rs_WorkflowEventId ev)),
          wp_FsoRepoInitInfo := Some (repoInitInfo0\<lparr>ri_GlobalPath := rs_RepoGlobalPath ev\<rparr>)\<rparr>)"

definition wfFromPbUnarchiveRepoStarted :: "ulid_unmarshal \<Rightarrow> WorkflowPb \<Rightarrow> (goerr, WorkflowEvent) outcome" where
  "wfFromPbUnarchiveRepoStarted ub evpb =
     wfGuard WT_FSO_UNARCHIVE_REPO_STARTED evpb (optUuid (wp_RegistryId evpb) (\<lambda>reg.
        optUlid ub (wp_RegistryEventId evpb) (\<lambda>regVid.
        optUuid (wp_RepoId evpb) (\<lambda>repo.
        optUlid ub (wp_RepoEventId evpb) (\<lambda>repoVid.
        optUuid (wp_WorkflowId evpb) (\<lambda>wid.
        optUlid ub (wp_WorkflowEventId evpb) (\<lambda>wvid.
            Ok (WvUnarchiveRepoStarted
              \<lparr>rs_RegistryId = reg, rs_RegistryName = wp_FsoRegistryName evpb, rs_StartRegistryVid = regVid,
               rs_RepoId = repo, rs_StartRepoVid = repoVid,
               rs_RepoGlobalPath = (case wp_FsoRepoInitInfo evpb of None \<Rightarrow> [] | Some info \<Rightarrow> ri_GlobalPath info),
               rs_AuthorName = (case wp_GitAuthor evpb of None \<Rightarrow> [] | Some a \<Rightarrow> gu_Name a),
               rs_AuthorEmail = (case wp_GitAuthor evpb of None \<Rightarrow> [] | Some a \<Rightarrow> gu_Email a),
               rs_WorkflowId = wid, rs_WorkflowEventId = wvid,
               us_RepoArchiveURL = (case wp_FsoArchiveRepoInfo evpb of None \<Rightarrow> [] | Some url \<Rightarrow> url),
               us_TarttTarPath = (case wp_TarttTarInfo evpb of None \<Rightarrow> [] | Some path \<Rightarrow> path)\<rparr>))))))))"

definition wfNewPbUnarchiveRepoFilesStarted :: "RepoAclPolicy option \<Rightarrow> WorkflowPb" where
  "wfNewPbUnarchiveRepoFilesStarted aclPolicy = (wfPb WT_FSO_UNARCHIVE_REPO_FILES_STARTED)\<lparr>wp_RepoAclPolicy := aclPolicy\<rparr>"

definition wfFromPbUnarchiveRepoFilesStarted :: "WorkflowPb \<Rightarrow> (goerr, WorkflowEvent) outcome" where
  "wfFromPbUnarchiveRepoFilesStarted evpb =
     wfGuard WT_FSO_UNARCHIVE_REPO_FILES_STARTED evpb (Ok (WvUnarchiveRepoFilesStarted (wp_RepoAclPolicy evpb)))"

definition wfNewPbUnarchiveRepoTarttStarted :: "string \<Rightarrow> WorkflowPb" where
  "wfNewPbUnarchiveRepoTarttStarted wd = (wfPb WT_FSO_UNARCHIVE_REPO_TARTT_STARTED)\<lparr>wp_WorkingDir := wd\<rparr>"

definition wfFromPbUnarchiveRepoTarttStarted :: "WorkflowPb \<Rightarrow> (goerr, WorkflowEvent) outcome" where
  "wfFromPbUnarchiveRepoTarttStarted evpb =
     wfGuard WT_FSO_UNARCHIVE_REPO_TARTT_STARTED evpb (Ok (WvUnarchiveRepoTarttStarted (wp_WorkingDir evpb)))"

definition wfNewPbUnarchiveRepoTarttCompletedOk :: "WorkflowPb" where
  "wfNewPbUnarchiveRepoTarttCompletedOk = (wfPb WT_FSO_UNARCHIVE_REPO_TARTT_COMPLETED)\<lparr>wp_StatusCode := 0, wp_StatusMessage := []\<rparr>"

definition wfNewPbUnarchiveRepoTarttCompletedError :: "32 word \<Rightarrow> string \<Rightarrow> WorkflowPb" where
  "wfNewPbUnarchiveRepoTarttCompletedError code msg = (wfPb WT_FSO_UNARCHIVE_REPO_TARTT_COMPLETED)\<lparr>wp_StatusCode := code, wp_StatusMessage := msg\<rparr>"

definition wfFromPbUnarchiveRepoTarttCompleted :: "WorkflowPb \<Rightarrow> (goerr, WorkflowEvent) outcome" where
  "wfFromPbUnarchiveRepoTarttCompleted evpb =
     wfGuard WT_FSO_UNARCHIVE_REPO_TARTT_COMPLETED evpb (Ok (WvUnarchiveRepoTarttCompleted (wp_StatusCode evpb) (wp_StatusMessage evpb)))"

definition wfNewPbUnarchiveRepoFilesCompletedOk :: "WorkflowPb" where
  "wfNewPbUnarchiveRepoFilesCompletedOk = (wfPb WT_FSO_UNARCHIVE_REPO_FILES_COMPLETED)\<lparr>wp_StatusCode := 0, wp_StatusMessage := []\<rparr>"

definition wfNewPbUnarchiveRepoFilesCompletedError :: "32 word \<Rightarrow> string \<Rightarrow> WorkflowPb" where
  "wfNewPbUnarchiveRepoFilesCompletedError code msg = (wfPb WT_FSO_UNARCHIVE_REPO_FILES_COMPLETED)\<lparr>wp_StatusCode := code, wp_StatusMessage := msg\<rparr>"

definition wfFromPbUnarchiveRepoFilesCompleted :: "WorkflowPb \<Rightarrow> (goerr, WorkflowEvent) outcome" where
  "wfFromPbUnarchiveRepoFilesCompleted evpb =
     wfGuard WT_FSO_UNARCHIVE_REPO_FILES_COMPLETED evpb (Ok (WvUnarchiveRepoFilesCompleted (wp_StatusCode evpb) (wp_StatusMessage evpb)))"

definition wfNewPbUnarchiveRepoFilesCommitted :: "WorkflowPb" where
  "wfNewPbUnarchiveRepoFilesCommitted = wfPb WT_FSO_UNARCHIVE_REPO_FILES_COMMITTED"

definition wfFromPbUnarchiveRepoFilesCommitted :: "WorkflowPb \<Rightarrow> (goerr, WorkflowEvent) outcome" where
  "wfFromPbUnarchiveRepoFilesCommitted evpb =
     Ok WvUnarchiveRepoFilesCommitted"

definition wfNewPbUnarchiveRepoCompletedOk :: "WorkflowPb" where
  "wfNewPbUnarchiveRepoCompletedOk = (wfPb WT_FSO_UNARCHIVE_REPO_COMPLETED)\<lparr>wp_StatusCode := 0, wp_StatusMessage := []\<rparr>"

definition wfNewPbUnarchiveRepoCompletedError :: "32 word \<Rightarrow> string \<Rightarrow> WorkflowPb" where
  "wfNewPbUnarchiveRepoCompletedError code msg = (wfPb WT_FSO_UNARCHIVE_REPO_COMPLETED)\<lparr>wp_StatusCode := code, wp_StatusMessage := msg\<rparr>"

definition wfNewPbUnarchiveRepoCompletedIdRef :: "uuid \<Rightarrow> ulid \<Rightarrow> WorkflowPb" where
  "wfNewPbUnarchiveRepoCompletedIdRef i vid = (wfPb WT_FSO_UNARCHIVE_REPO_COMPLETED)\<lparr>wp_WorkflowId := Some (idBytes i), wp_WorkflowEventId := Some (idBytes vid)\<rparr>"

definition wfFromPbUnarchiveRepoCompleted :: "ulid_unmarshal \<Rightarrow> WorkflowPb \<Rightarrow> (goerr, WorkflowEvent) outcome" where
  "wfFromPbUnarchiveRepoCompleted ub evpb =
     wfGuard WT_FSO_UNARCHIVE_REPO_COMPLETED evpb (optUuid (wp_WorkflowId evpb) (\<lambda>wid.
        optUlid ub (wp_WorkflowEventId evpb) (\<lambda>wvid.
          Ok (WvUnarchiveRepoCompleted \<lparr>wc_StatusCode = wp_StatusCode evpb, wc_StatusMessage = wp_StatusMessage evpb,
            wc_WorkflowId = wid, wc_WorkflowEventId = wvid\<rparr>))))"

definition wfNewPbUnarchiveRepoGcCompleted :: "WorkflowPb" where
  "wfNewPbUnarchiveRepoGcCompleted = wfPb WT_FSO_UNARCHIVE_REPO_GC_COMPLETED"

definition wfFromPbUnarchiveRepoGcCompleted :: "WorkflowPb \<Rightarrow> (goerr, WorkflowEvent) outcome" where
  "wfFromPbUnarchiveRepoGcCompleted evpb =
     Ok WvUnarchiveRepoGcCompleted"

definition wfNewPbUnarchiveRepoCommitted :: "WorkflowPb" where
  "wfNewPbUnarchiveRepoCommitted = wfPb WT_FSO_UNARCHIVE_REPO_COMMITTED"

definition wfFromPbUnarchiveRepoCommitted :: "WorkflowPb \<Rightarrow> (goerr, WorkflowEvent) outcome" where
  "wfFromPbUnarchiveRepoCommitted evpb =
     Ok WvUnarchiveRepoCommitted"

definition wfNewPbUnarchiveRepoDeleted :: "uuid \<Rightarrow> WorkflowPb" where
  "wfNewPbUnarchiveRepoDeleted i = (wfPb WT_FSO_UNARCHIVE_REPO_DELETED)\<lparr>wp_WorkflowId := Some (idBytes i)\<rparr>"

definition wfFromPbUnarchiveRepoDeleted :: "WorkflowPb \<Rightarrow> (goerr, WorkflowEvent) outcome" where
  "wfFromPbUnarchiveRepoDeleted evpb =
     onError id (FromBytes (wp_WorkflowId evpb)) (\<lambda>i. Ok (WvUnarchiveRepoDeleted i))"

section \<open>Snapshots of the index\<close>

definition wfNewPbSnapshotBegin :: "WorkflowPb" where
  "wfNewPbSnapshotBegin = wfPb WT_SNAPSHOT_BEGIN"

definition wfFromPbSnapshotBegin :: "WorkflowPb \<Rightarrow> (goerr, WorkflowEvent) outcome" where
  "wfFromPbSnapshotBegin evpb =
     wfGuard WT_SNAPSHOT_BEGIN evpb (Ok WvSnapshotBegin)"

definition wfNewPbSnapshotEnd :: "WorkflowPb" where
  "wfNewPbSnapshotEnd = wfPb WT_SNAPSHOT_END"

definition wfFromPbSnapshotEnd :: "WorkflowPb \<Rightarrow> (goerr, WorkflowEvent) outcome" where
  "wfFromPbSnapshotEnd evpb =
     wfGuard WT_SNAPSHOT_END evpb (Ok WvSnapshotEnd)"

definition wfFromPbWorkflowIndexSnapshotState_DuRoot :: "ulid_unmarshal \<Rightarrow> PbIndexRootEntry list \<Rightarrow> (goerr, IndexRootEntry list) outcome" where
  "wfFromPbWorkflowIndexSnapshotState_DuRoot ub ps = mapOutcome (\<lambda>p.
     onError id (FromBytes (qe_WorkflowId p)) (\<lambda>wid.
     onError id (ParseBytes ub (qe_Started p)) (\<lambda>vid.
     optUlid ub (qe_Completed p) (\<lambda>cvid.
       Ok \<lparr>ie_WorkflowId = wid, ie_Started = vid, ie_Completed = cvid, ir_GlobalRoot = qr_GlobalRoot p, ir_Host = qr_Host p, ir_HostRoot = qr_HostRoot p\<rparr>)))) ps"

definition wfFromPbWorkflowIndexSnapshotState_PingRegistry :: "ulid_unmarshal \<Rightarrow> PbIndexEntry list \<Rightarrow> (goerr, IndexEntry list) outcome" where
  "wfFromPbWorkflowIndexSnapshotState_PingRegistry ub ps = mapOutcome (\<lambda>p.
     onError id (FromBytes (qe_WorkflowId p)) (\<lambda>wid.
     onError id (ParseBytes ub (qe_Started p)) (\<lambda>vid.
     optUlid ub (qe_Completed p) (\<lambda>cvid.
       Ok \<lparr>ie_WorkflowId = wid, ie_Started = vid, ie_Completed = cvid\<rparr>)))) ps"

definition wfFromPbWorkflowIndexSnapshotState_SplitRoot :: "ulid_unmarshal \<Rightarrow> PbIndexRootEntry list \<Rightarrow> (goerr, IndexRootEntry list) outcome" where
  "wfFromPbWorkflowIndexSnapshotState_SplitRoot ub ps = mapOutcome (\<lambda>p.
     onError id (FromBytes (qe_WorkflowId p)) (\<lambda>wid.
     onError id (ParseBytes ub (qe_Started p)) (\<lambda>vid.
     optUlid ub (qe_Completed p) (\<lambda>cvid.
       Ok \<lparr>ie_WorkflowId = wid, ie_Started = vid, ie_Completed = cvid, ir_GlobalRoot = qr_GlobalRoot p, ir_Host = qr_Host p, ir_HostRoot = qr_HostRoot p\<rparr>)))) ps"

definition wfFromPbWorkflowIndexSnapshotState_FreezeRepo :: "ulid_unmarshal \<Rightarrow> PbIndexPathEntry list \<Rightarrow> (goerr, IndexPathEntry list) outcome" where
  "wfFromPbWorkflowIndexSnapshotState_FreezeRepo ub ps = mapOutcome (\<lambda>p.
     onError id (FromBytes (qe_WorkflowId p)) (\<lambda>wid.
     onError id (ParseBytes ub (qe_Started p)) (\<lambda>vid.
     optUlid ub (qe_Completed p) (\<lambda>cvid.
       Ok \<lparr>ie_WorkflowId = wid, ie_Started = vid, ie_Completed = cvid, ip_GlobalPath = qp_GlobalPath p\<rparr>)))) ps"

definition wfFromPbWorkflowIndexSnapshotState_UnfreezeRepo :: "ulid_unmarshal \<Rightarrow> PbIndexPathEntry list \<Rightarrow> (goerr, IndexPathEntry list) outcome" where
  "wfFromPbWorkflowIndexSnapshotState_UnfreezeRepo ub ps = mapOutcome (\<lambda>p.
     onError id (FromBytes (qe_WorkflowId p)) (\<lambda>wid.
     onError id (ParseBytes ub (qe_Started p)) (\<lambda>vid.
     optUlid ub (qe_Completed p) (\<lambda>cvid.
       Ok \<lparr>ie_WorkflowId = wid, ie_Started = vid, ie_Completed = cvid, ip_GlobalPath = qp_GlobalPath p\<rparr>)))) ps"

definition wfFromPbWorkflowIndexSnapshotState_ArchiveRepo :: "ulid_unmarshal \<Rightarrow> PbIndexPathEntry list \<Rightarrow> (goerr, IndexPathEntry list) outcome" where
  "wfFromPbWorkflowIndexSnapshotState_ArchiveRepo ub ps = mapOutcome (\<lambda>p.
     onError id (FromBytes (qe_WorkflowId p)) (\<lambda>wid.
     onError id (ParseBytes ub (qe_Started p)) (\<lambda>vid.
     optUlid ub (qe_Completed p) (\<lambda>cvid.
       Ok \<lparr>ie_WorkflowId = wid, ie_Started = vid, ie_Completed = cvid, ip_GlobalPath = qp_GlobalPath p\<rparr>)))) ps"

definition wfFromPbWorkflowIndexSnapshotState_UnarchiveRepo :: "ulid_unmarshal \<Rightarrow> PbIndexPathEntry list \<Rightarrow> (goerr, IndexPathEntry list) outcome" where
  "wfFromPbWorkflowIndexSnapshotState_UnarchiveRepo ub ps = mapOutcome (\<lambda>p.
     onError id (FromBytes (qe_WorkflowId p)) (\<lambda>wid.
     onError id (ParseBytes ub (qe_Started p)) (\<lambda>vid.
     optUlid ub (qe_Completed p) (\<lambda>cvid.
       Ok \<lparr>ie_WorkflowId = wid, ie_Started = vid, ie_Completed = cvid, ip_GlobalPath = qp_GlobalPath p\<rparr>)))) ps"

definition wfNewPbWorkflowIndexSnapshotState :: "IndexSnapshot \<Rightarrow> WorkflowPb" where
  "wfNewPbWorkflowIndexSnapshotState ev = (wfPb WT_WORKFLOW_INDEX_SNAPSHOT_STATE)\<lparr>wp_WorkflowIndexState := Some
     \<lparr>qs_DuRoot = map (\<lambda>e. \<lparr>qe_WorkflowId = Some (idBytes (ie_WorkflowId e)), qe_Started = Some (idBytes (ie_Started e)),
         qe_Completed = unlessNil (ie_Completed e), qr_GlobalRoot = ir_GlobalRoot e, qr_Host = ir_Host e, qr_HostRoot = ir_HostRoot e\<rparr>) (sn_DuRoot ev),
      qs_PingRegistry = map (\<lambda>e. \<lparr>qe_WorkflowId = Some (idBytes (ie_WorkflowId e)), qe_Started = Some (idBytes (ie_Started e)),
         qe_Completed = unlessNil (ie_Completed e)\<rparr>) (sn_PingRegistry ev),
      qs_SplitRoot = map (\<lambda>e. \<lparr>qe_WorkflowId = Some (idBytes (ie_WorkflowId e)), qe_Started = Some (idBytes (ie_Started e)),
         qe_Completed = unlessNil (ie_Completed e), qr_GlobalRoot = ir_GlobalRoot e, qr_Host = ir_Host e, qr_HostRoot = ir_HostRoot e\<rparr>) (sn_SplitRoot ev),
      qs_FreezeRepo = map (\<lambda>e. \<lparr>qe_WorkflowId = Some (idBytes (ie_WorkflowId e)), qe_Started = Some (idBytes (ie_Started e)),
         qe_Completed = unlessNil (ie_Completed e), qp_GlobalPath = ip_GlobalPath e\<rparr>) (sn_FreezeRepo ev),
      qs_UnfreezeRepo = map (\<lambda>e. \<lparr>qe_WorkflowId = Some (idBytes (ie_WorkflowId e)), qe_Started = Some (idBytes (ie_Started e)),
         qe_Completed = unlessNil (ie_Completed e), qp_GlobalPath = ip_GlobalPath e\<rparr>) (sn_UnfreezeRepo ev),
      qs_ArchiveRepo = map (\<lambda>e. \<lparr>qe_WorkflowId = Some (idBytes (ie_WorkflowId e)), qe_Started = Some (idBytes (ie_Started e)),
         qe_Completed = unlessNil (ie_Completed e), qp_GlobalPath = ip_GlobalPath e\<rparr>) (sn_ArchiveRepo ev),
      qs_UnarchiveRepo = map (\<lambda>e. \<lparr>qe_WorkflowId = Some (idBytes (ie_WorkflowId e)), qe_Started = Some (idBytes (ie_Started e)),
         qe_Completed = unlessNil (ie_Completed e), qp_GlobalPath = ip_GlobalPath e\<rparr>) (sn_UnarchiveRepo ev)\<rparr>\<rparr>"

definition wfFromPbWorkflowIndexSnapshotState :: "ulid_unmarshal \<Rightarrow> WorkflowPb \<Rightarrow> (goerr, WorkflowEvent) outcome" where
  "wfFromPbWorkflowIndexSnapshotState ub evpb =
     wfGuard WT_WORKFLOW_INDEX_SNAPSHOT_STATE evpb (Repo_Events.deref (wp_WorkflowIndexState evpb) (\<lambda>st.
        obind (wfFromPbWorkflowIndexSnapshotState_DuRoot ub (qs_DuRoot st)) (\<lambda>duRoot.
        obind (wfFromPbWorkflowIndexSnapshotState_PingRegistry ub (qs_PingRegistry st)) (\<lambda>pingRegistry.
        obind (wfFromPbWorkflowIndexSnapshotState_SplitRoot ub (qs_SplitRoot st)) (\<lambda>splitRoot.
        obind (wfFromPbWorkflowIndexSnapshotState_FreezeRepo ub (qs_FreezeRepo st)) (\<lambda>freezeRepo.
        obind (wfFromPbWorkflowIndexSnapshotState_UnfreezeRepo ub (qs_UnfreezeRepo st)) (\<lambda>unfreezeRepo.
        obind (wfFromPbWorkflowIndexSnapshotState_ArchiveRepo ub (qs_ArchiveRepo st)) (\<lambda>archiveRepo.
        obind (wfFromPbWorkflowIndexSnapshotState_UnarchiveRepo ub (qs_UnarchiveRepo st)) (\<lambda>unarchiveRepo.
          Ok (WvWorkflowIndexSnapshotState \<lparr>sn_DuRoot = duRoot, sn_PingRegistry = pingRegistry, sn_SplitRoot = splitRoot, sn_FreezeRepo = freezeRepo, sn_UnfreezeRepo = unfreezeRepo, sn_ArchiveRepo = archiveRepo, sn_UnarchiveRepo = unarchiveRepo\<rparr>))))))))))"

section \<open>All events\<close>

definition ParsePbWorkflowEvent :: "ulid_unmarshal \<Rightarrow> WorkflowPb \<Rightarrow> (goerr, WorkflowEvent) outcome" where
  "ParsePbWorkflowEvent ub evpb =
     (case wp_Event evpb of
        WT_FSO_REPO_MOVE_STARTED \<Rightarrow> wfFromPbRepoMoveStarted ub evpb
      | WT_FSO_REPO_MOVED \<Rightarrow> wfFromPbRepoMoved evpb
      | WT_FSO_REPO_MOVE_STA_RELEASED \<Rightarrow> wfFromPbRepoMoveStaReleased evpb
      | WT_FSO_REPO_MOVE_APP_ACCEPTED \<Rightarrow> wfFromPbRepoMoveAppAccepted evpb
      | WT_FSO_REPO_MOVE_COMMITTED \<Rightarrow> wfFromPbRepoMoveCommitted evpb
      | WT_FSO_SHADOW_REPO_MOVE_STARTED \<Rightarrow> wfFromPbShadowRepoMoveStarted ub evpb
      | WT_FSO_SHADOW_REPO_MOVED \<Rightarrow> wfFromPbShadowRepoMoved evpb
      | WT_FSO_SHADOW_REPO_MOVE_STA_DISABLED \<Rightarrow> wfFromPbShadowRepoMoveStaDisabled evpb
      | WT_FSO_SHADOW_REPO_MOVE_COMMITTED \<Rightarrow> wfFromPbShadowRepoMoveCommitted evpb
      | WT_FSO_DU_ROOT_STARTED \<Rightarrow> wfFromPbDuRootStarted ub evpb
      | WT_FSO_DU_UPDATED \<Rightarrow> wfFromPbDuUpdated evpb
      | WT_FSO_DU_ROOT_COMPLETED \<Rightarrow> wfFromPbDuRootCompleted ub evpb
      | WT_FSO_DU_ROOT_COMMITTED \<Rightarrow> wfFromPbDuRootCommitted evpb
      | WT_FSO_DU_ROOT_DELETED \<Rightarrow> wfFromPbDuRootDeleted evpb
      | WT_FSO_PING_REGISTRY_STARTED \<Rightarrow> wfFromPbPingRegistryStarted ub evpb
      | WT_FSO_SERVER_PINGED \<Rightarrow> wfFromPbServerPinged evpb
      | WT_FSO_SERVER_PINGS_GATHERED \<Rightarrow> wfFromPbServerPingsGathered evpb
      | WT_FSO_PING_REGISTRY_COMPLETED \<Rightarrow> wfFromPbPingRegistryCompleted ub evpb
      | WT_FSO_PING_REGISTRY_COMMITTED \<Rightarrow> wfFromPbPingRegistryCommitted evpb
      | WT_FSO_PING_REGISTRY_DELETED \<Rightarrow> wfFromPbPingRegistryDeleted evpb
      | WT_FSO_SPLIT_ROOT_STARTED \<Rightarrow> wfFromPbSplitRootStarted ub evpb
      | WT_FSO_SPLIT_ROOT_DU_APPENDED \<Rightarrow> wfFromPbSplitRootDuAppended evpb
      | WT_FSO_SPLIT_ROOT_DU_COMPLETED \<Rightarrow> wfFromPbSplitRootDuCompleted evpb
      | WT_FSO_SPLIT_ROOT_SUGGESTION_APPENDED \<Rightarrow> wfFromPbSplitRootSuggestionAppended evpb
      | WT_FSO_SPLIT_ROOT_ANALYSIS_COMPLETED \<Rightarrow> wfFromPbSplitRootAnalysisCompleted evpb
      | WT_FSO_SPLIT_ROOT_DECISION_APPENDED \<Rightarrow> wfFromPbSplitRootDecisionAppended evpb
      | WT_FSO_SPLIT_ROOT_COMPLETED \<Rightarrow> wfFromPbSplitRootCompleted ub evpb
      | WT_FSO_SPLIT_ROOT_COMMITTED \<Rightarrow> wfFromPbSplitRootCommitted evpb
      | WT_FSO_SPLIT_ROOT_DELETED \<Rightarrow> wfFromPbSplitRootDeleted evpb
      | WT_FSO_FREEZE_REPO_STARTED_2 \<Rightarrow> wfFromPbFreezeRepoStarted2 ub evpb
      | WT_FSO_FREEZE_REPO_FILES_STARTED \<Rightarrow> wfFromPbFreezeRepoFilesStarted evpb
      | WT_FSO_FREEZE_REPO_FILES_COMPLETED \<Rightarrow> wfFromPbFreezeRepoFilesCompleted evpb
      | WT_FSO_FREEZE_REPO_COMPLETED_2 \<Rightarrow> wfFromPbFreezeRepoCompleted2 ub evpb
      | WT_FSO_FREEZE_REPO_COMMITTED \<Rightarrow> wfFromPbFreezeRepoCommitted evpb
      | WT_FSO_FREEZE_REPO_DELETED \<Rightarrow> wfFromPbFreezeRepoDeleted evpb
      | WT_FSO_UNFREEZE_REPO_STARTED_2 \<Rightarrow> wfFromPbUnfreezeRepoStarted2 ub evpb
      | WT_FSO_UNFREEZE_REPO_FILES_STARTED \<Rightarrow> wfFromPbUnfreezeRepoFilesStarted evpb
      | WT_FSO_UNFREEZE_REPO_FILES_COMPLETED \<Rightarrow> wfFromPbUnfreezeRepoFilesCompleted evpb
      | WT_FSO_UNFREEZE_REPO_COMPLETED_2 \<Rightarrow> wfFromPbUnfreezeRepoCompleted2 ub evpb
      | WT_FSO_UNFREEZE_REPO_COMMITTED \<Rightarrow> wfFromPbUnfreezeRepoCommitted evpb
      | WT_FSO_UNFREEZE_REPO_DELETED \<Rightarrow> wfFromPbUnfreezeRepoDeleted evpb
      | WT_FSO_ARCHIVE_REPO_STARTED \<Rightarrow> wfFromPbArchiveRepoStarted ub evpb
      | WT_FSO_ARCHIVE_REPO_FILES_STARTED \<Rightarrow> wfFromPbArchiveRepoFilesStarted evpb
      | WT_FSO_ARCHIVE_REPO_TARTT_COMPLETED \<Rightarrow> wfFromPbArchiveRepoTarttCompleted evpb
      | WT_FSO_ARCHIVE_REPO_SWAP_STARTED \<Rightarrow> wfFromPbArchiveRepoSwapStarted evpb
      | WT_FSO_ARCHIVE_REPO_FILES_COMPLETED \<Rightarrow> wfFromPbArchiveRepoFilesCompleted evpb
      | WT_FSO_ARCHIVE_REPO_FILES_COMMITTED \<Rightarrow> wfFromPbArchiveRepoFilesCommitted evpb
      | WT_FSO_ARCHIVE_REPO_COMPLETED \<Rightarrow> wfFromPbArchiveRepoCompleted ub evpb
      | WT_FSO_ARCHIVE_REPO_GC_COMPLETED \<Rightarrow> wfFromPbArchiveRepoGcCompleted evpb
      | WT_FSO_ARCHIVE_REPO_COMMITTED \<Rightarrow> wfFromPbArchiveRepoCommitted evpb
      | WT_FSO_ARCHIVE_REPO_DELETED \<Rightarrow> wfFromPbArchiveRepoDeleted evpb
      | WT_FSO_UNARCHIVE_REPO_STARTED \<Rightarrow> wfFromPbUnarchiveRepoStarted ub evpb
      | WT_FSO_UNARCHIVE_REPO_FILES_STARTED \<Rightarrow> wfFromPbUnarchiveRepoFilesStarted evpb
      | WT_FSO_UNARCHIVE_REPO_TARTT_STARTED \<Rightarrow> wfFromPbUnarchiveRepoTarttStarted evpb
      | WT_FSO_UNARCHIVE_REPO_TARTT_COMPLETED \<Rightarrow> wfFromPbUnarchiveRepoTarttCompleted evpb
      | WT_FSO_UNARCHIVE_REPO_FILES_COMPLETED \<Rightarrow> wfFromPbUnarchiveRepoFilesCompleted evpb
      | WT_FSO_UNARCHIVE_REPO_FILES_COMMITTED \<Rightarrow> wfFromPbUnarchiveRepoFilesCommitted evpb
      | WT_FSO_UNARCHIVE_REPO_COMPLETED \<Rightarrow> wfFromPbUnarchiveRepoCompleted ub evpb
      | WT_FSO_UNARCHIVE_REPO_GC_COMPLETED \<Rightarrow> wfFromPbUnarchiveRepoGcCompleted evpb
      | WT_FSO_UNARCHIVE_REPO_COMMITTED \<Rightarrow> wfFromPbUnarchiveRepoCommitted evpb
      | WT_FSO_UNARCHIVE_REPO_DELETED \<Rightarrow> wfFromPbUnarchiveRepoDeleted evpb
      | WT_SNAPSHOT_BEGIN \<Rightarrow> wfFromPbSnapshotBegin evpb
      | WT_SNAPSHOT_END \<Rightarrow> wfFromPbSnapshotEnd evpb
      | WT_WORKFLOW_INDEX_SNAPSHOT_STATE \<Rightarrow> wfFromPbWorkflowIndexSnapshotState ub evpb
      | WT_OTHER _ \<Rightarrow> Err (GoErr ''unknown WorkflowEvent type''))"

lemmas wfFromPb_defs = wfFromPbRepoMoveStarted_def wfFromPbRepoMoved_def wfFromPbRepoMoveStaReleased_def
  wfFromPbRepoMoveAppAccepted_def wfFromPbRepoMoveCommitted_def wfFromPbShadowRepoMoveStarted_def
  wfFromPbShadowRepoMoved_def wfFromPbShadowRepoMoveStaDisabled_def wfFromPbShadowRepoMoveCommitted_def
  wfFromPbDuRootStarted_def wfFromPbDuUpdated_def wfFromPbDuRootCompleted_def wfFromPbDuRootCommitted_def
  wfFromPbDuRootDeleted_def wfFromPbPingRegistryStarted_def wfFromPbServerPinged_def
  wfFromPbServerPingsGathered_def wfFromPbPingRegistryCompleted_def wfFromPbPingRegistryCommitted_def
  wfFromPbPingRegistryDeleted_def wfFromPbSplitRootStarted_def wfFromPbSplitRootDuAppended_def
  wfFromPbSplitRootDuCompleted_def wfFromPbSplitRootSuggestionAppended_def
  wfFromPbSplitRootAnalysisCompleted_def wfFromPbSplitRootDecisionAppended_def
  wfFromPbSplitRootCompleted_def wfFromPbSplitRootCommitted_def wfFromPbSplitRootDeleted_def
  wfFromPbFreezeRepoStarted2_def wfFromPbFreezeRepoFilesStarted_def wfFromPbFreezeRepoFilesCompleted_def
  wfFromPbFreezeRepoCompleted2_def wfFromPbFreezeRepoCommitted_def wfFromPbFreezeRepoDeleted_def
  wfFromPbUnfreezeRepoStarted2_def wfFromPbUnfreezeRepoFilesStarted_def
  wfFromPbUnfreezeRepoFilesCompleted_def wfFromPbUnfreezeRepoCompleted2_def
  wfFromPbUnfreezeRepoCommitted_def wfFromPbUnfreezeRepoDeleted_def wfFromPbArchiveRepoStarted_def
  wfFromPbArchiveRepoFilesStarted_def wfFromPbArchiveRepoTarttCompleted_def
  wfFromPbArchiveRepoSwapStarted_def wfFromPbArchiveRepoFilesCompleted_def
  wfFromPbArchiveRepoFilesCommitted_def wfFromPbArchiveRepoCompleted_def
  wfFromPbArchiveRepoGcCompleted_def wfFromPbArchiveRepoCommitted_def wfFromPbArchiveRepoDeleted_def
  wfFromPbUnarchiveRepoStarted_def wfFromPbUnarchiveRepoFilesStarted_def
  wfFromPbUnarchiveRepoTarttStarted_def wfFromPbUnarchiveRepoTarttCompleted_def
  wfFromPbUnarchiveRepoFilesCompleted_def wfFromPbUnarchiveRepoFilesCommitted_def
  wfFromPbUnarchiveRepoCompleted_def wfFromPbUnarchiveRepoGcCompleted_def
  wfFromPbUnarchiveRepoCommitted_def wfFromPbUnarchiveRepoDeleted_def wfFromPbSnapshotBegin_def
  wfFromPbSnapshotEnd_def wfFromPbWorkflowIndexSnapshotState_def

definition MustParsePbWorkflowEvent :: "ulid_unmarshal \<Rightarrow> WorkflowPb \<Rightarrow> ('e, WorkflowEvent) outcome" where
  "MustParsePbWorkflowEvent ub evpb =
     (case ParsePbWorkflowEvent ub evpb of
        Ok ev \<Rightarrow> Ok ev
      | Err (GoErr msg) \<Rightarrow> Panic msg
      | Panic p \<Rightarrow> Panic p)"

section \<open>Byte fields\<close>

text \<open>An empty byte field is decoded as nil: the messages that are encoded have none.\<close>

definition index_entry_ok :: "'z PbIndexEntry_scheme \<Rightarrow> bool" where
  "index_entry_ok e \<longleftrightarrow> qe_WorkflowId e \<noteq> Some [] \<and> qe_Started e \<noteq> Some [] \<and> qe_Completed e \<noteq> Some []"

definition index_state_ok :: "WorkflowIndexState \<Rightarrow> bool" where
  "index_state_ok st \<longleftrightarrow> list_all index_entry_ok (qs_DuRoot st) \<and> list_all index_entry_ok (qs_PingRegistry st) \<and>
     list_all index_entry_ok (qs_SplitRoot st) \<and> list_all index_entry_ok (qs_FreezeRepo st) \<and>
     list_all index_entry_ok (qs_UnfreezeRepo st) \<and> list_all index_entry_ok (qs_ArchiveRepo st) \<and>
     list_all index_entry_ok (qs_UnarchiveRepo st)"

definition wf_pb_ok :: "WorkflowPb \<Rightarrow> bool" where
  "wf_pb_ok p \<longleftrightarrow> wp_Id p \<noteq> Some [] \<and> wp_Parent p \<noteq> Some [] \<and> wp_WorkflowId p \<noteq> Some [] \<and>
     wp_WorkflowEventId p \<noteq> Some [] \<and> wp_RegistryId p \<noteq> Some [] \<and> wp_RegistryEventId p \<noteq> Some [] \<and>
     wp_RepoId p \<noteq> Some [] \<and> wp_RepoEventId p \<noteq> Some [] \<and>
     (case wp_WorkflowIndexState p of None \<Rightarrow> True | Some st \<Rightarrow> index_state_ok st)"

section \<open>Constructors and parsers agree\<close>

definition wfCompleted :: "32 word \<Rightarrow> string \<Rightarrow> WorkflowCompleted" where
  "wfCompleted code msg =
     \<lparr>wc_StatusCode = code, wc_StatusMessage = msg, wc_WorkflowId = uuidNil, wc_WorkflowEventId = ulidNil\<rparr>"

lemma firstError_None: "firstError cs = None \<longleftrightarrow> list_all (\<lambda>c. \<not> fst c) cs"
  by (induction cs rule: firstError.induct) auto

declare firstError.simps [simp del]

lemma orElse_None: "orElse x y = None \<longleftrightarrow> x = None \<and> y = None"
  by (cases x) (auto simp: orElse_def)

lemma new_event_1 [simp]:
  "wp_Event wfNewPbRepoMoveStaReleased = WT_FSO_REPO_MOVE_STA_RELEASED"
  "wp_Event wfNewPbRepoMoveAppAccepted = WT_FSO_REPO_MOVE_APP_ACCEPTED"
  "wp_Event wfNewPbRepoMoveCommitted = WT_FSO_REPO_MOVE_COMMITTED"
  "wp_Event (wfNewPbShadowRepoMoveStarted repoId repoEventId) = WT_FSO_SHADOW_REPO_MOVE_STARTED"
  "wp_Event (wfNewPbShadowRepoMoved repoId) = WT_FSO_SHADOW_REPO_MOVED"
  "wp_Event wfNewPbShadowRepoMoveStaDisabled = WT_FSO_SHADOW_REPO_MOVE_STA_DISABLED"
  "wp_Event wfNewPbShadowRepoMoveCommitted = WT_FSO_SHADOW_REPO_MOVE_COMMITTED"
  "wp_Event (wfNewPbDuUpdated path usage) = WT_FSO_DU_UPDATED"
  "wp_Event wfNewPbDuRootCompletedOk = WT_FSO_DU_ROOT_COMPLETED"
  "wp_Event (wfNewPbDuRootCompletedError code msg) = WT_FSO_DU_ROOT_COMPLETED"
  "wp_Event (wfNewPbDuRootCompletedIdRef i vid) = WT_FSO_DU_ROOT_COMPLETED"
  "wp_Event wfNewPbDuRootCommitted = WT_FSO_DU_ROOT_COMMITTED"
  by (simp_all add: wf_pb_ok_def wfPb_def unlessNil_def wfNewPbRepoMoveStaReleased_def wfNewPbRepoMoveAppAccepted_def wfNewPbRepoMoveCommitted_def wfNewPbShadowRepoMoveStarted_def wfNewPbShadowRepoMoved_def wfNewPbShadowRepoMoveStaDisabled_def wfNewPbShadowRepoMoveCommitted_def wfNewPbDuUpdated_def wfNewPbDuRootCompletedOk_def wfNewPbDuRootCompletedError_def wfNewPbDuRootCompletedIdRef_def wfNewPbDuRootCommitted_def)

lemma new_event_2 [simp]:
  "wp_Event (wfNewPbDuRootDeleted i) = WT_FSO_DU_ROOT_DELETED"
  "wp_Event (wfNewPbServerPinged code msg) = WT_FSO_SERVER_PINGED"
  "wp_Event (wfNewPbServerPingsGathered code msg) = WT_FSO_SERVER_PINGS_GATHERED"
  "wp_Event wfNewPbPingRegistryCompleted = WT_FSO_PING_REGISTRY_COMPLETED"
  "wp_Event (wfNewPbPingRegistryCompletedIdRef i vid) = WT_FSO_PING_REGISTRY_COMPLETED"
  "wp_Event wfNewPbPingRegistryCommitted = WT_FSO_PING_REGISTRY_COMMITTED"
  "wp_Event (wfNewPbPingRegistryDeleted i) = WT_FSO_PING_REGISTRY_DELETED"
  "wp_Event (wfNewPbSplitRootDuAppended path usage) = WT_FSO_SPLIT_ROOT_DU_APPENDED"
  "wp_Event wfNewPbSplitRootDuCompletedOk = WT_FSO_SPLIT_ROOT_DU_COMPLETED"
  "wp_Event (wfNewPbSplitRootDuCompletedError code msg) = WT_FSO_SPLIT_ROOT_DU_COMPLETED"
  "wp_Event (wfNewPbSplitRootSuggestionAppended path x) = WT_FSO_SPLIT_ROOT_SUGGESTION_APPENDED"
  "wp_Event wfNewPbSplitRootAnalysisCompletedOk = WT_FSO_SPLIT_ROOT_ANALYSIS_COMPLETED"
  by (simp_all add: wf_pb_ok_def wfPb_def unlessNil_def wfNewPbDuRootDeleted_def wfNewPbServerPinged_def wfNewPbServerPingsGathered_def wfNewPbPingRegistryCompleted_def wfNewPbPingRegistryCompletedIdRef_def wfNewPbPingRegistryCommitted_def wfNewPbPingRegistryDeleted_def wfNewPbSplitRootDuAppended_def wfNewPbSplitRootDuCompletedOk_def wfNewPbSplitRootDuCompletedError_def wfNewPbSplitRootSuggestionAppended_def wfNewPbSplitRootAnalysisCompletedOk_def)

lemma new_event_3 [simp]:
  "wp_Event (wfNewPbSplitRootAnalysisCompletedError code msg) = WT_FSO_SPLIT_ROOT_ANALYSIS_COMPLETED"
  "wp_Event (wfNewPbSplitRootDecisionAppended path x) = WT_FSO_SPLIT_ROOT_DECISION_APPENDED"
  "wp_Event wfNewPbSplitRootCompletedOk = WT_FSO_SPLIT_ROOT_COMPLETED"
  "wp_Event (wfNewPbSplitRootCompletedError code msg) = WT_FSO_SPLIT_ROOT_COMPLETED"
  "wp_Event (wfNewPbSplitRootCompletedIdRef i vid) = WT_FSO_SPLIT_ROOT_COMPLETED"
  "wp_Event wfNewPbSplitRootCommitted = WT_FSO_SPLIT_ROOT_COMMITTED"
  "wp_Event (wfNewPbSplitRootDeleted i) = WT_FSO_SPLIT_ROOT_DELETED"
  "wp_Event wfNewPbFreezeRepoFilesStarted = WT_FSO_FREEZE_REPO_FILES_STARTED"
  "wp_Event wfNewPbFreezeRepoFilesCompletedOk = WT_FSO_FREEZE_REPO_FILES_COMPLETED"
  "wp_Event (wfNewPbFreezeRepoFilesCompletedError code msg) = WT_FSO_FREEZE_REPO_FILES_COMPLETED"
  "wp_Event wfNewPbFreezeRepoCompleted2Ok = WT_FSO_FREEZE_REPO_COMPLETED_2"
  "wp_Event (wfNewPbFreezeRepoCompleted2Error code msg) = WT_FSO_FREEZE_REPO_COMPLETED_2"
  by (simp_all add: wf_pb_ok_def wfPb_def unlessNil_def wfNewPbSplitRootAnalysisCompletedError_def wfNewPbSplitRootDecisionAppended_def wfNewPbSplitRootCompletedOk_def wfNewPbSplitRootCompletedError_def wfNewPbSplitRootCompletedIdRef_def wfNewPbSplitRootCommitted_def wfNewPbSplitRootDeleted_def wfNewPbFreezeRepoFilesStarted_def wfNewPbFreezeRepoFilesCompletedOk_def wfNewPbFreezeRepoFilesCompletedError_def wfNewPbFreezeRepoCompleted2Ok_def wfNewPbFreezeRepoCompleted2Error_def)

lemma new_event_4 [simp]:
  "wp_Event (wfNewPbFreezeRepoCompleted2IdRef i vid) = WT_FSO_FREEZE_REPO_COMPLETED_2"
  "wp_Event wfNewPbFreezeRepoCommitted = WT_FSO_FREEZE_REPO_COMMITTED"
  "wp_Event (wfNewPbFreezeRepoDeleted i) = WT_FSO_FREEZE_REPO_DELETED"
  "wp_Event wfNewPbUnfreezeRepoFilesStarted = WT_FSO_UNFREEZE_REPO_FILES_STARTED"
  "wp_Event wfNewPbUnfreezeRepoFilesCompletedOk = WT_FSO_UNFREEZE_REPO_FILES_COMPLETED"
  "wp_Event (wfNewPbUnfreezeRepoFilesCompletedError code msg) = WT_FSO_UNFREEZE_REPO_FILES_COMPLETED"
  "wp_Event wfNewPbUnfreezeRepoCompleted2Ok = WT_FSO_UNFREEZE_REPO_COMPLETED_2"
  "wp_Event (wfNewPbUnfreezeRepoCompleted2Error code msg) = WT_FSO_UNFREEZE_REPO_COMPLETED_2"
  "wp_Event (wfNewPbUnfreezeRepoCompleted2IdRef i vid) = WT_FSO_UNFREEZE_REPO_COMPLETED_2"
  "wp_Event wfNewPbUnfreezeRepoCommitted = WT_FSO_UNFREEZE_REPO_COMMITTED"
  "wp_Event (wfNewPbUnfreezeRepoDeleted i) = WT_FSO_UNFREEZE_REPO_DELETED"
  "wp_Event (wfNewPbArchiveRepoFilesStarted aclPolicy) = WT_FSO_ARCHIVE_REPO_FILES_STARTED"
  by (simp_all add: wf_pb_ok_def wfPb_def unlessNil_def wfNewPbFreezeRepoCompleted2IdRef_def wfNewPbFreezeRepoCommitted_def wfNewPbFreezeRepoDeleted_def wfNewPbUnfreezeRepoFilesStarted_def wfNewPbUnfreezeRepoFilesCompletedOk_def wfNewPbUnfreezeRepoFilesCompletedError_def wfNewPbUnfreezeRepoCompleted2Ok_def wfNewPbUnfreezeRepoCompleted2Error_def wfNewPbUnfreezeRepoCompleted2IdRef_def wfNewPbUnfreezeRepoCommitted_def wfNewPbUnfreezeRepoDeleted_def wfNewPbArchiveRepoFilesStarted_def)

lemma new_event_5 [simp]:
  "wp_Event (wfNewPbArchiveRepoSwapStarted wd) = WT_FSO_ARCHIVE_REPO_SWAP_STARTED"
  "wp_Event wfNewPbArchiveRepoFilesCompletedOk = WT_FSO_ARCHIVE_REPO_FILES_COMPLETED"
  "wp_Event (wfNewPbArchiveRepoFilesCompletedError code msg) = WT_FSO_ARCHIVE_REPO_FILES_COMPLETED"
  "wp_Event wfNewPbArchiveRepoFilesCommitted = WT_FSO_ARCHIVE_REPO_FILES_COMMITTED"
  "wp_Event wfNewPbArchiveRepoCompletedOk = WT_FSO_ARCHIVE_REPO_COMPLETED"
  "wp_Event (wfNewPbArchiveRepoCompletedError code msg) = WT_FSO_ARCHIVE_REPO_COMPLETED"
  "wp_Event (wfNewPbArchiveRepoCompletedIdRef i vid) = WT_FSO_ARCHIVE_REPO_COMPLETED"
  "wp_Event wfNewPbArchiveRepoGcCompleted = WT_FSO_ARCHIVE_REPO_GC_COMPLETED"
  "wp_Event wfNewPbArchiveRepoCommitted = WT_FSO_ARCHIVE_REPO_COMMITTED"
  "wp_Event (wfNewPbArchiveRepoDeleted i) = WT_FSO_ARCHIVE_REPO_DELETED"
  "wp_Event (wfNewPbUnarchiveRepoFilesStarted aclPolicy) = WT_FSO_UNARCHIVE_REPO_FILES_STARTED"
  "wp_Event (wfNewPbUnarchiveRepoTarttStarted wd) = WT_FSO_UNARCHIVE_REPO_TARTT_STARTED"
  by (simp_all add: wf_pb_ok_def wfPb_def unlessNil_def wfNewPbArchiveRepoSwapStarted_def wfNewPbArchiveRepoFilesCompletedOk_def wfNewPbArchiveRepoFilesCompletedError_def wfNewPbArchiveRepoFilesCommitted_def wfNewPbArchiveRepoCompletedOk_def wfNewPbArchiveRepoCompletedError_def wfNewPbArchiveRepoCompletedIdRef_def wfNewPbArchiveRepoGcCompleted_def wfNewPbArchiveRepoCommitted_def wfNewPbArchiveRepoDeleted_def wfNewPbUnarchiveRepoFilesStarted_def wfNewPbUnarchiveRepoTarttStarted_def)

lemma new_event_6 [simp]:
  "wp_Event wfNewPbUnarchiveRepoTarttCompletedOk = WT_FSO_UNARCHIVE_REPO_TARTT_COMPLETED"
  "wp_Event (wfNewPbUnarchiveRepoTarttCompletedError code msg) = WT_FSO_UNARCHIVE_REPO_TARTT_COMPLETED"
  "wp_Event wfNewPbUnarchiveRepoFilesCompletedOk = WT_FSO_UNARCHIVE_REPO_FILES_COMPLETED"
  "wp_Event (wfNewPbUnarchiveRepoFilesCompletedError code msg) = WT_FSO_UNARCHIVE_REPO_FILES_COMPLETED"
  "wp_Event wfNewPbUnarchiveRepoFilesCommitted = WT_FSO_UNARCHIVE_REPO_FILES_COMMITTED"
  "wp_Event wfNewPbUnarchiveRepoCompletedOk = WT_FSO_UNARCHIVE_REPO_COMPLETED"
  "wp_Event (wfNewPbUnarchiveRepoCompletedError code msg) = WT_FSO_UNARCHIVE_REPO_COMPLETED"
  "wp_Event (wfNewPbUnarchiveRepoCompletedIdRef i vid) = WT_FSO_UNARCHIVE_REPO_COMPLETED"
  "wp_Event wfNewPbUnarchiveRepoGcCompleted = WT_FSO_UNARCHIVE_REPO_GC_COMPLETED"
  "wp_Event wfNewPbUnarchiveRepoCommitted = WT_FSO_UNARCHIVE_REPO_COMMITTED"
  "wp_Event (wfNewPbUnarchiveRepoDeleted i) = WT_FSO_UNARCHIVE_REPO_DELETED"
  "wp_Event wfNewPbSnapshotBegin = WT_SNAPSHOT_BEGIN"
  by (simp_all add: wf_pb_ok_def wfPb_def unlessNil_def wfNewPbUnarchiveRepoTarttCompletedOk_def wfNewPbUnarchiveRepoTarttCompletedError_def wfNewPbUnarchiveRepoFilesCompletedOk_def wfNewPbUnarchiveRepoFilesCompletedError_def wfNewPbUnarchiveRepoFilesCommitted_def wfNewPbUnarchiveRepoCompletedOk_def wfNewPbUnarchiveRepoCompletedError_def wfNewPbUnarchiveRepoCompletedIdRef_def wfNewPbUnarchiveRepoGcCompleted_def wfNewPbUnarchiveRepoCommitted_def wfNewPbUnarchiveRepoDeleted_def wfNewPbSnapshotBegin_def)

lemma new_event_7 [simp]:
  "wp_Event wfNewPbSnapshotEnd = WT_SNAPSHOT_END"
  by (simp_all add: wf_pb_ok_def wfPb_def unlessNil_def wfNewPbSnapshotEnd_def)

lemma new_ok_1 [simp]:
  "wf_pb_ok wfNewPbRepoMoveStaReleased"
  "wf_pb_ok wfNewPbRepoMoveAppAccepted"
  "wf_pb_ok wfNewPbRepoMoveCommitted"
  "wf_pb_ok (wfNewPbShadowRepoMoveStarted repoId repoEventId)"
  "wf_pb_ok (wfNewPbShadowRepoMoved repoId)"
  "wf_pb_ok wfNewPbShadowRepoMoveStaDisabled"
  "wf_pb_ok wfNewPbShadowRepoMoveCommitted"
  "wf_pb_ok (wfNewPbDuUpdated path usage)"
  "wf_pb_ok wfNewPbDuRootCompletedOk"
  "wf_pb_ok (wfNewPbDuRootCompletedError code msg)"
  "wf_pb_ok (wfNewPbDuRootCompletedIdRef i vid)"
  "wf_pb_ok wfNewPbDuRootCommitted"
  by (simp_all add: wf_pb_ok_def wfPb_def unlessNil_def wfNewPbRepoMoveStaReleased_def wfNewPbRepoMoveAppAccepted_def wfNewPbRepoMoveCommitted_def wfNewPbShadowRepoMoveStarted_def wfNewPbShadowRepoMoved_def wfNewPbShadowRepoMoveStaDisabled_def wfNewPbShadowRepoMoveCommitted_def wfNewPbDuUpdated_def wfNewPbDuRootCompletedOk_def wfNewPbDuRootCompletedError_def wfNewPbDuRootCompletedIdRef_def wfNewPbDuRootCommitted_def)

lemma new_ok_2 [simp]:
  "wf_pb_ok (wfNewPbDuRootDeleted i)"
  "wf_pb_ok (wfNewPbServerPinged code msg)"
  "wf_pb_ok (wfNewPbServerPingsGathered code msg)"
  "wf_pb_ok wfNewPbPingRegistryCompleted"
  "wf_pb_ok (wfNewPbPingRegistryCompletedIdRef i vid)"
  "wf_pb_ok wfNewPbPingRegistryCommitted"
  "wf_pb_ok (wfNewPbPingRegistryDeleted i)"
  "wf_pb_ok (wfNewPbSplitRootDuAppended path usage)"
  "wf_pb_ok wfNewPbSplitRootDuCompletedOk"
  "wf_pb_ok (wfNewPbSplitRootDuCompletedError code msg)"
  "wf_pb_ok (wfNewPbSplitRootSuggestionAppended path x)"
  "wf_pb_ok wfNewPbSplitRootAnalysisCompletedOk"
  by (simp_all add: wf_pb_ok_def wfPb_def unlessNil_def wfNewPbDuRootDeleted_def wfNewPbServerPinged_def wfNewPbServerPingsGathered_def wfNewPbPingRegistryCompleted_def wfNewPbPingRegistryCompletedIdRef_def wfNewPbPingRegistryCommitted_def wfNewPbPingRegistryDeleted_def wfNewPbSplitRootDuAppended_def wfNewPbSplitRootDuCompletedOk_def wfNewPbSplitRootDuCompletedError_def wfNewPbSplitRootSuggestionAppended_def wfNewPbSplitRootAnalysisCompletedOk_def)

lemma new_ok_3 [simp]:
  "wf_pb_ok (wfNewPbSplitRootAnalysisCompletedError code msg)"
  "wf_pb_ok (wfNewPbSplitRootDecisionAppended path x)"
  "wf_pb_ok wfNewPbSplitRootCompletedOk"
  "wf_pb_ok (wfNewPbSplitRootCompletedError code msg)"
  "wf_pb_ok (wfNewPbSplitRootCompletedIdRef i vid)"
  "wf_pb_ok wfNewPbSplitRootCommitted"
  "wf_pb_ok (wfNewPbSplitRootDeleted i)"
  "wf_pb_ok wfNewPbFreezeRepoFilesStarted"
  "wf_pb_ok wfNewPbFreezeRepoFilesCompletedOk"
  "wf_pb_ok (wfNewPbFreezeRepoFilesCompletedError code msg)"
  "wf_pb_ok wfNewPbFreezeRepoCompleted2Ok"
  "wf_pb_ok (wfNewPbFreezeRepoCompleted2Error code msg)"
  by (simp_all add: wf_pb_ok_def wfPb_def unlessNil_def wfNewPbSplitRootAnalysisCompletedError_def wfNewPbSplitRootDecisionAppended_def wfNewPbSplitRootCompletedOk_def wfNewPbSplitRootCompletedError_def wfNewPbSplitRootCompletedIdRef_def wfNewPbSplitRootCommitted_def wfNewPbSplitRootDeleted_def wfNewPbFreezeRepoFilesStarted_def wfNewPbFreezeRepoFilesCompletedOk_def wfNewPbFreezeRepoFilesCompletedError_def wfNewPbFreezeRepoCompleted2Ok_def wfNewPbFreezeRepoCompleted2Error_def)

lemma new_ok_4 [simp]:
  "wf_pb_ok (wfNewPbFreezeRepoCompleted2IdRef i vid)"
  "wf_pb_ok wfNewPbFreezeRepoCommitted"
  "wf_pb_ok (wfNewPbFreezeRepoDeleted i)"
  "wf_pb_ok wfNewPbUnfreezeRepoFilesStarted"
  "wf_pb_ok wfNewPbUnfreezeRepoFilesCompletedOk"
  "wf_pb_ok (wfNewPbUnfreezeRepoFilesCompletedError code msg)"
  "wf_pb_ok wfNewPbUnfreezeRepoCompleted2Ok"
  "wf_pb_ok (wfNewPbUnfreezeRepoCompleted2Error code msg)"
  "wf_pb_ok (wfNewPbUnfreezeRepoCompleted2IdRef i vid)"
  "wf_pb_ok wfNewPbUnfreezeRepoCommitted"
  "wf_pb_ok (wfNewPbUnfreezeRepoDeleted i)"
  "wf_pb_ok (wfNewPbArchiveRepoFilesStarted aclPolicy)"
  by (simp_all add: wf_pb_ok_def wfPb_def unlessNil_def wfNewPbFreezeRepoCompleted2IdRef_def wfNewPbFreezeRepoCommitted_def wfNewPbFreezeRepoDeleted_def wfNewPbUnfreezeRepoFilesStarted_def wfNewPbUnfreezeRepoFilesCompletedOk_def wfNewPbUnfreezeRepoFilesCompletedError_def wfNewPbUnfreezeRepoCompleted2Ok_def wfNewPbUnfreezeRepoCompleted2Error_def wfNewPbUnfreezeRepoCompleted2IdRef_def wfNewPbUnfreezeRepoCommitted_def wfNewPbUnfreezeRepoDeleted_def wfNewPbArchiveRepoFilesStarted_def)

lemma new_ok_5 [simp]:
  "wf_pb_ok (wfNewPbArchiveRepoSwapStarted wd)"
  "wf_pb_ok wfNewPbArchiveRepoFilesCompletedOk"
  "wf_pb_ok (wfNewPbArchiveRepoFilesCompletedError code msg)"
  "wf_pb_ok wfNewPbArchiveRepoFilesCommitted"
  "wf_pb_ok wfNewPbArchiveRepoCompletedOk"
  "wf_pb_ok (wfNewPbArchiveRepoCompletedError code msg)"
  "wf_pb_ok (wfNewPbArchiveRepoCompletedIdRef i vid)"
  "wf_pb_ok wfNewPbArchiveRepoGcCompleted"
  "wf_pb_ok wfNewPbArchiveRepoCommitted"
  "wf_pb_ok (wfNewPbArchiveRepoDeleted i)"
  "wf_pb_ok (wfNewPbUnarchiveRepoFilesStarted aclPolicy)"
  "wf_pb_ok (wfNewPbUnarchiveRepoTarttStarted wd)"
  by (simp_all add: wf_pb_ok_def wfPb_def unlessNil_def wfNewPbArchiveRepoSwapStarted_def wfNewPbArchiveRepoFilesCompletedOk_def wfNewPbArchiveRepoFilesCompletedError_def wfNewPbArchiveRepoFilesCommitted_def wfNewPbArchiveRepoCompletedOk_def wfNewPbArchiveRepoCompletedError_def wfNewPbArchiveRepoCompletedIdRef_def wfNewPbArchiveRepoGcCompleted_def wfNewPbArchiveRepoCommitted_def wfNewPbArchiveRepoDeleted_def wfNewPbUnarchiveRepoFilesStarted_def wfNewPbUnarchiveRepoTarttStarted_def)

lemma new_ok_6 [simp]:
  "wf_pb_ok wfNewPbUnarchiveRepoTarttCompletedOk"
  "wf_pb_ok (wfNewPbUnarchiveRepoTarttCompletedError code msg)"
  "wf_pb_ok wfNewPbUnarchiveRepoFilesCompletedOk"
  "wf_pb_ok (wfNewPbUnarchiveRepoFilesCompletedError code msg)"
  "wf_pb_ok wfNewPbUnarchiveRepoFilesCommitted"
  "wf_pb_ok wfNewPbUnarchiveRepoCompletedOk"
  "wf_pb_ok (wfNewPbUnarchiveRepoCompletedError code msg)"
  "wf_pb_ok (wfNewPbUnarchiveRepoCompletedIdRef i vid)"
  "wf_pb_ok wfNewPbUnarchiveRepoGcCompleted"
  "wf_pb_ok wfNewPbUnarchiveRepoCommitted"
  "wf_pb_ok (wfNewPbUnarchiveRepoDeleted i)"
  "wf_pb_ok wfNewPbSnapshotBegin"
  by (simp_all add: wf_pb_ok_def wfPb_def unlessNil_def wfNewPbUnarchiveRepoTarttCompletedOk_def wfNewPbUnarchiveRepoTarttCompletedError_def wfNewPbUnarchiveRepoFilesCompletedOk_def wfNewPbUnarchiveRepoFilesCompletedError_def wfNewPbUnarchiveRepoFilesCommitted_def wfNewPbUnarchiveRepoCompletedOk_def wfNewPbUnarchiveRepoCompletedError_def wfNewPbUnarchiveRepoCompletedIdRef_def wfNewPbUnarchiveRepoGcCompleted_def wfNewPbUnarchiveRepoCommitted_def wfNewPbUnarchiveRepoDeleted_def wfNewPbSnapshotBegin_def)

lemma new_ok_7 [simp]:
  "wf_pb_ok wfNewPbSnapshotEnd"
  by (simp_all add: wf_pb_ok_def wfPb_def unlessNil_def wfNewPbSnapshotEnd_def)

lemma parse_RepoMoveStaReleased [simp]: "ParsePbWorkflowEvent ub wfNewPbRepoMoveStaReleased = Ok (WvRepoMoveStaReleased)"
  by (simp add: ParsePbWorkflowEvent_def wfNewPbRepoMoveStaReleased_def wfFromPbRepoMoveStaReleased_def wfPb_def wfGuard_def)

lemma parse_RepoMoveAppAccepted [simp]: "ParsePbWorkflowEvent ub wfNewPbRepoMoveAppAccepted = Ok (WvRepoMoveAppAccepted)"
  by (simp add: ParsePbWorkflowEvent_def wfNewPbRepoMoveAppAccepted_def wfFromPbRepoMoveAppAccepted_def wfPb_def wfGuard_def)

lemma parse_RepoMoveCommitted [simp]: "ParsePbWorkflowEvent ub wfNewPbRepoMoveCommitted = Ok (WvRepoMoveCommitted)"
  by (simp add: ParsePbWorkflowEvent_def wfNewPbRepoMoveCommitted_def wfFromPbRepoMoveCommitted_def wfPb_def wfGuard_def)

lemma parse_ShadowRepoMoveStaDisabled [simp]: "ParsePbWorkflowEvent ub wfNewPbShadowRepoMoveStaDisabled = Ok (WvShadowRepoMoveStaDisabled)"
  by (simp add: ParsePbWorkflowEvent_def wfNewPbShadowRepoMoveStaDisabled_def wfFromPbShadowRepoMoveStaDisabled_def wfPb_def wfGuard_def)

lemma parse_ShadowRepoMoveCommitted [simp]: "ParsePbWorkflowEvent ub wfNewPbShadowRepoMoveCommitted = Ok (WvShadowRepoMoveCommitted)"
  by (simp add: ParsePbWorkflowEvent_def wfNewPbShadowRepoMoveCommitted_def wfFromPbShadowRepoMoveCommitted_def wfPb_def wfGuard_def)

lemma parse_DuRootCommitted [simp]: "ParsePbWorkflowEvent ub wfNewPbDuRootCommitted = Ok (WvDuRootCommitted)"
  by (simp add: ParsePbWorkflowEvent_def wfNewPbDuRootCommitted_def wfFromPbDuRootCommitted_def wfPb_def wfGuard_def)

lemma parse_PingRegistryCommitted [simp]: "ParsePbWorkflowEvent ub wfNewPbPingRegistryCommitted = Ok (WvPingRegistryCommitted)"
  by (simp add: ParsePbWorkflowEvent_def wfNewPbPingRegistryCommitted_def wfFromPbPingRegistryCommitted_def wfPb_def wfGuard_def)

lemma parse_SplitRootCommitted [simp]: "ParsePbWorkflowEvent ub wfNewPbSplitRootCommitted = Ok (WvSplitRootCommitted)"
  by (simp add: ParsePbWorkflowEvent_def wfNewPbSplitRootCommitted_def wfFromPbSplitRootCommitted_def wfPb_def wfGuard_def)

lemma parse_FreezeRepoFilesStarted [simp]: "ParsePbWorkflowEvent ub wfNewPbFreezeRepoFilesStarted = Ok (WvFreezeRepoFilesStarted)"
  by (simp add: ParsePbWorkflowEvent_def wfNewPbFreezeRepoFilesStarted_def wfFromPbFreezeRepoFilesStarted_def wfPb_def wfGuard_def)

lemma parse_FreezeRepoCommitted [simp]: "ParsePbWorkflowEvent ub wfNewPbFreezeRepoCommitted = Ok (WvFreezeRepoCommitted)"
  by (simp add: ParsePbWorkflowEvent_def wfNewPbFreezeRepoCommitted_def wfFromPbFreezeRepoCommitted_def wfPb_def wfGuard_def)

lemma parse_UnfreezeRepoFilesStarted [simp]: "ParsePbWorkflowEvent ub wfNewPbUnfreezeRepoFilesStarted = Ok (WvUnfreezeRepoFilesStarted)"
  by (simp add: ParsePbWorkflowEvent_def wfNewPbUnfreezeRepoFilesStarted_def wfFromPbUnfreezeRepoFilesStarted_def wfPb_def wfGuard_def)

lemma parse_UnfreezeRepoCommitted [simp]: "ParsePbWorkflowEvent ub wfNewPbUnfreezeRepoCommitted = Ok (WvUnfreezeRepoCommitted)"
  by (simp add: ParsePbWorkflowEvent_def wfNewPbUnfreezeRepoCommitted_def wfFromPbUnfreezeRepoCommitted_def wfPb_def wfGuard_def)

lemma parse_ArchiveRepoFilesCommitted [simp]: "ParsePbWorkflowEvent ub wfNewPbArchiveRepoFilesCommitted = Ok (WvArchiveRepoFilesCommitted)"
  by (simp add: ParsePbWorkflowEvent_def wfNewPbArchiveRepoFilesCommitted_def wfFromPbArchiveRepoFilesCommitted_def wfPb_def wfGuard_def)

lemma parse_ArchiveRepoGcCompleted [simp]: "ParsePbWorkflowEvent ub wfNewPbArchiveRepoGcCompleted = Ok (WvArchiveRepoGcCompleted)"
  by (simp add: ParsePbWorkflowEvent_def wfNewPbArchiveRepoGcCompleted_def wfFromPbArchiveRepoGcCompleted_def wfPb_def wfGuard_def)

lemma parse_ArchiveRepoCommitted [simp]: "ParsePbWorkflowEvent ub wfNewPbArchiveRepoCommitted = Ok (WvArchiveRepoCommitted)"
  by (simp add: ParsePbWorkflowEvent_def wfNewPbArchiveRepoCommitted_def wfFromPbArchiveRepoCommitted_def wfPb_def wfGuard_def)

lemma parse_UnarchiveRepoFilesCommitted [simp]: "ParsePbWorkflowEvent ub wfNewPbUnarchiveRepoFilesCommitted = Ok (WvUnarchiveRepoFilesCommitted)"
  by (simp add: ParsePbWorkflowEvent_def wfNewPbUnarchiveRepoFilesCommitted_def wfFromPbUnarchiveRepoFilesCommitted_def wfPb_def wfGuard_def)

lemma parse_UnarchiveRepoGcCompleted [simp]: "ParsePbWorkflowEvent ub wfNewPbUnarchiveRepoGcCompleted = Ok (WvUnarchiveRepoGcCompleted)"
  by (simp add: ParsePbWorkflowEvent_def wfNewPbUnarchiveRepoGcCompleted_def wfFromPbUnarchiveRepoGcCompleted_def wfPb_def wfGuard_def)

lemma parse_UnarchiveRepoCommitted [simp]: "ParsePbWorkflowEvent ub wfNewPbUnarchiveRepoCommitted = Ok (WvUnarchiveRepoCommitted)"
  by (simp add: ParsePbWorkflowEvent_def wfNewPbUnarchiveRepoCommitted_def wfFromPbUnarchiveRepoCommitted_def wfPb_def wfGuard_def)

lemma parse_SnapshotBegin [simp]: "ParsePbWorkflowEvent ub wfNewPbSnapshotBegin = Ok (WvSnapshotBegin)"
  by (simp add: ParsePbWorkflowEvent_def wfNewPbSnapshotBegin_def wfFromPbSnapshotBegin_def wfPb_def wfGuard_def)

lemma parse_SnapshotEnd [simp]: "ParsePbWorkflowEvent ub wfNewPbSnapshotEnd = Ok (WvSnapshotEnd)"
  by (simp add: ParsePbWorkflowEvent_def wfNewPbSnapshotEnd_def wfFromPbSnapshotEnd_def wfPb_def wfGuard_def)

lemma parse_DuRootDeleted [simp]: "ParsePbWorkflowEvent ub (wfNewPbDuRootDeleted i) = Ok (WvDuRootDeleted i)"
  by (simp add: ParsePbWorkflowEvent_def wfNewPbDuRootDeleted_def wfFromPbDuRootDeleted_def wfPb_def wfGuard_def)

lemma parse_PingRegistryDeleted [simp]: "ParsePbWorkflowEvent ub (wfNewPbPingRegistryDeleted i) = Ok (WvPingRegistryDeleted i)"
  by (simp add: ParsePbWorkflowEvent_def wfNewPbPingRegistryDeleted_def wfFromPbPingRegistryDeleted_def wfPb_def wfGuard_def)

lemma parse_SplitRootDeleted [simp]: "ParsePbWorkflowEvent ub (wfNewPbSplitRootDeleted i) = Ok (WvSplitRootDeleted i)"
  by (simp add: ParsePbWorkflowEvent_def wfNewPbSplitRootDeleted_def wfFromPbSplitRootDeleted_def wfPb_def wfGuard_def)

lemma parse_FreezeRepoDeleted [simp]: "ParsePbWorkflowEvent ub (wfNewPbFreezeRepoDeleted i) = Ok (WvFreezeRepoDeleted i)"
  by (simp add: ParsePbWorkflowEvent_def wfNewPbFreezeRepoDeleted_def wfFromPbFreezeRepoDeleted_def wfPb_def wfGuard_def)

lemma parse_UnfreezeRepoDeleted [simp]: "ParsePbWorkflowEvent ub (wfNewPbUnfreezeRepoDeleted i) = Ok (WvUnfreezeRepoDeleted i)"
  by (simp add: ParsePbWorkflowEvent_def wfNewPbUnfreezeRepoDeleted_def wfFromPbUnfreezeRepoDeleted_def wfPb_def wfGuard_def)

lemma parse_ArchiveRepoDeleted [simp]: "ParsePbWorkflowEvent ub (wfNewPbArchiveRepoDeleted i) = Ok (WvArchiveRepoDeleted i)"
  by (simp add: ParsePbWorkflowEvent_def wfNewPbArchiveRepoDeleted_def wfFromPbArchiveRepoDeleted_def wfPb_def wfGuard_def)

lemma parse_UnarchiveRepoDeleted [simp]: "ParsePbWorkflowEvent ub (wfNewPbUnarchiveRepoDeleted i) = Ok (WvUnarchiveRepoDeleted i)"
  by (simp add: ParsePbWorkflowEvent_def wfNewPbUnarchiveRepoDeleted_def wfFromPbUnarchiveRepoDeleted_def wfPb_def wfGuard_def)

lemma parse_ShadowRepoMoved [simp]: "ParsePbWorkflowEvent ub (wfNewPbShadowRepoMoved i) = Ok (WvShadowRepoMoved i)"
  by (simp add: ParsePbWorkflowEvent_def wfNewPbShadowRepoMoved_def wfFromPbShadowRepoMoved_def wfPb_def wfGuard_def)

lemma parse_ShadowRepoMoveStarted [simp]: "ulid_binary ub \<Longrightarrow> ParsePbWorkflowEvent ub (wfNewPbShadowRepoMoveStarted i v) = Ok (WvShadowRepoMoveStarted i v)"
  by (simp add: ParsePbWorkflowEvent_def wfNewPbShadowRepoMoveStarted_def wfFromPbShadowRepoMoveStarted_def wfPb_def wfGuard_def)

lemma parse_DuUpdated [simp]: "ParsePbWorkflowEvent ub (wfNewPbDuUpdated x y) = Ok (WvDuUpdated x y)"
  by (simp add: ParsePbWorkflowEvent_def wfNewPbDuUpdated_def wfFromPbDuUpdated_def wfPb_def wfGuard_def)

lemma parse_SplitRootDuAppended [simp]: "ParsePbWorkflowEvent ub (wfNewPbSplitRootDuAppended x y) = Ok (WvSplitRootDuAppended x y)"
  by (simp add: ParsePbWorkflowEvent_def wfNewPbSplitRootDuAppended_def wfFromPbSplitRootDuAppended_def wfPb_def wfGuard_def)

lemma parse_SplitRootSuggestionAppended [simp]: "ParsePbWorkflowEvent ub (wfNewPbSplitRootSuggestionAppended x y) = Ok (WvSplitRootSuggestionAppended x y)"
  by (simp add: ParsePbWorkflowEvent_def wfNewPbSplitRootSuggestionAppended_def wfFromPbSplitRootSuggestionAppended_def wfPb_def wfGuard_def)

lemma parse_SplitRootDecisionAppended [simp]: "ParsePbWorkflowEvent ub (wfNewPbSplitRootDecisionAppended x y) = Ok (WvSplitRootDecisionAppended x y)"
  by (simp add: ParsePbWorkflowEvent_def wfNewPbSplitRootDecisionAppended_def wfFromPbSplitRootDecisionAppended_def wfPb_def wfGuard_def)

lemma parse_ServerPinged [simp]: "ParsePbWorkflowEvent ub (wfNewPbServerPinged x y) = Ok (WvServerPinged x y)"
  by (simp add: ParsePbWorkflowEvent_def wfNewPbServerPinged_def wfFromPbServerPinged_def wfPb_def wfGuard_def)

lemma parse_ServerPingsGathered [simp]: "ParsePbWorkflowEvent ub (wfNewPbServerPingsGathered x y) = Ok (WvServerPingsGathered x y)"
  by (simp add: ParsePbWorkflowEvent_def wfNewPbServerPingsGathered_def wfFromPbServerPingsGathered_def wfPb_def wfGuard_def)

lemma parse_SplitRootDuCompletedOk [simp]: "ParsePbWorkflowEvent ub wfNewPbSplitRootDuCompletedOk = Ok (WvSplitRootDuCompleted 0 [])"
  by (simp add: ParsePbWorkflowEvent_def wfNewPbSplitRootDuCompletedOk_def wfFromPbSplitRootDuCompleted_def wfPb_def wfGuard_def)

lemma parse_SplitRootDuCompletedError [simp]: "ParsePbWorkflowEvent ub (wfNewPbSplitRootDuCompletedError code msg) = Ok (WvSplitRootDuCompleted code msg)"
  by (simp add: ParsePbWorkflowEvent_def wfNewPbSplitRootDuCompletedError_def wfFromPbSplitRootDuCompleted_def wfPb_def wfGuard_def)

lemma parse_SplitRootAnalysisCompletedOk [simp]: "ParsePbWorkflowEvent ub wfNewPbSplitRootAnalysisCompletedOk = Ok (WvSplitRootAnalysisCompleted 0 [])"
  by (simp add: ParsePbWorkflowEvent_def wfNewPbSplitRootAnalysisCompletedOk_def wfFromPbSplitRootAnalysisCompleted_def wfPb_def wfGuard_def)

lemma parse_SplitRootAnalysisCompletedError [simp]: "ParsePbWorkflowEvent ub (wfNewPbSplitRootAnalysisCompletedError code msg) = Ok (WvSplitRootAnalysisCompleted code msg)"
  by (simp add: ParsePbWorkflowEvent_def wfNewPbSplitRootAnalysisCompletedError_def wfFromPbSplitRootAnalysisCompleted_def wfPb_def wfGuard_def)

lemma parse_FreezeRepoFilesCompletedOk [simp]: "ParsePbWorkflowEvent ub wfNewPbFreezeRepoFilesCompletedOk = Ok (WvFreezeRepoFilesCompleted 0 [])"
  by (simp add: ParsePbWorkflowEvent_def wfNewPbFreezeRepoFilesCompletedOk_def wfFromPbFreezeRepoFilesCompleted_def wfPb_def wfGuard_def)

lemma parse_FreezeRepoFilesCompletedError [simp]: "ParsePbWorkflowEvent ub (wfNewPbFreezeRepoFilesCompletedError code msg) = Ok (WvFreezeRepoFilesCompleted code msg)"
  by (simp add: ParsePbWorkflowEvent_def wfNewPbFreezeRepoFilesCompletedError_def wfFromPbFreezeRepoFilesCompleted_def wfPb_def wfGuard_def)

lemma parse_UnfreezeRepoFilesCompletedOk [simp]: "ParsePbWorkflowEvent ub wfNewPbUnfreezeRepoFilesCompletedOk = Ok (WvUnfreezeRepoFilesCompleted 0 [])"
  by (simp add: ParsePbWorkflowEvent_def wfNewPbUnfreezeRepoFilesCompletedOk_def wfFromPbUnfreezeRepoFilesCompleted_def wfPb_def wfGuard_def)

lemma parse_UnfreezeRepoFilesCompletedError [simp]: "ParsePbWorkflowEvent ub (wfNewPbUnfreezeRepoFilesCompletedError code msg) = Ok (WvUnfreezeRepoFilesCompleted code msg)"
  by (simp add: ParsePbWorkflowEvent_def wfNewPbUnfreezeRepoFilesCompletedError_def wfFromPbUnfreezeRepoFilesCompleted_def wfPb_def wfGuard_def)

lemma parse_ArchiveRepoFilesCompletedOk [simp]: "ParsePbWorkflowEvent ub wfNewPbArchiveRepoFilesCompletedOk = Ok (WvArchiveRepoFilesCompleted 0 [])"
  by (simp add: ParsePbWorkflowEvent_def wfNewPbArchiveRepoFilesCompletedOk_def wfFromPbArchiveRepoFilesCompleted_def wfPb_def wfGuard_def)

lemma parse_ArchiveRepoFilesCompletedError [simp]: "ParsePbWorkflowEvent ub (wfNewPbArchiveRepoFilesCompletedError code msg) = Ok (WvArchiveRepoFilesCompleted code msg)"
  by (simp add: ParsePbWorkflowEvent_def wfNewPbArchiveRepoFilesCompletedError_def wfFromPbArchiveRepoFilesCompleted_def wfPb_def wfGuard_def)

lemma parse_UnarchiveRepoFilesCompletedOk [simp]: "ParsePbWorkflowEvent ub wfNewPbUnarchiveRepoFilesCompletedOk = Ok (WvUnarchiveRepoFilesCompleted 0 [])"
  by (simp add: ParsePbWorkflowEvent_def wfNewPbUnarchiveRepoFilesCompletedOk_def wfFromPbUnarchiveRepoFilesCompleted_def wfPb_def wfGuard_def)

lemma parse_UnarchiveRepoFilesCompletedError [simp]: "ParsePbWorkflowEvent ub (wfNewPbUnarchiveRepoFilesCompletedError code msg) = Ok (WvUnarchiveRepoFilesCompleted code msg)"
  by (simp add: ParsePbWorkflowEvent_def wfNewPbUnarchiveRepoFilesCompletedError_def wfFromPbUnarchiveRepoFilesCompleted_def wfPb_def wfGuard_def)

lemma parse_UnarchiveRepoTarttCompletedOk [simp]: "ParsePbWorkflowEvent ub wfNewPbUnarchiveRepoTarttCompletedOk = Ok (WvUnarchiveRepoTarttCompleted 0 [])"
  by (simp add: ParsePbWorkflowEvent_def wfNewPbUnarchiveRepoTarttCompletedOk_def wfFromPbUnarchiveRepoTarttCompleted_def wfPb_def wfGuard_def)

lemma parse_UnarchiveRepoTarttCompletedError [simp]: "ParsePbWorkflowEvent ub (wfNewPbUnarchiveRepoTarttCompletedError code msg) = Ok (WvUnarchiveRepoTarttCompleted code msg)"
  by (simp add: ParsePbWorkflowEvent_def wfNewPbUnarchiveRepoTarttCompletedError_def wfFromPbUnarchiveRepoTarttCompleted_def wfPb_def wfGuard_def)

lemma parse_DuRootCompletedOk [simp]: "ParsePbWorkflowEvent ub wfNewPbDuRootCompletedOk = Ok (WvDuRootCompleted (wfCompleted 0 []))"
  by (simp add: ParsePbWorkflowEvent_def wfNewPbDuRootCompletedOk_def wfFromPbDuRootCompleted_def wfCompleted_def wfPb_def wfGuard_def)

lemma parse_DuRootCompletedError [simp]: "ParsePbWorkflowEvent ub (wfNewPbDuRootCompletedError code msg) = Ok (WvDuRootCompleted (wfCompleted code msg))"
  by (simp add: ParsePbWorkflowEvent_def wfNewPbDuRootCompletedError_def wfFromPbDuRootCompleted_def wfCompleted_def wfPb_def wfGuard_def)

lemma parse_DuRootCompletedIdRef [simp]: "ulid_binary ub \<Longrightarrow> ParsePbWorkflowEvent ub (wfNewPbDuRootCompletedIdRef i v) = Ok (WvDuRootCompleted \<lparr>wc_StatusCode = 0, wc_StatusMessage = [], wc_WorkflowId = i, wc_WorkflowEventId = v\<rparr>)"
  by (simp add: ParsePbWorkflowEvent_def wfNewPbDuRootCompletedIdRef_def wfFromPbDuRootCompleted_def wfPb_def wfGuard_def)

lemma parse_SplitRootCompletedOk [simp]: "ParsePbWorkflowEvent ub wfNewPbSplitRootCompletedOk = Ok (WvSplitRootCompleted (wfCompleted 0 []))"
  by (simp add: ParsePbWorkflowEvent_def wfNewPbSplitRootCompletedOk_def wfFromPbSplitRootCompleted_def wfCompleted_def wfPb_def wfGuard_def)

lemma parse_SplitRootCompletedError [simp]: "ParsePbWorkflowEvent ub (wfNewPbSplitRootCompletedError code msg) = Ok (WvSplitRootCompleted (wfCompleted code msg))"
  by (simp add: ParsePbWorkflowEvent_def wfNewPbSplitRootCompletedError_def wfFromPbSplitRootCompleted_def wfCompleted_def wfPb_def wfGuard_def)

lemma parse_SplitRootCompletedIdRef [simp]: "ulid_binary ub \<Longrightarrow> ParsePbWorkflowEvent ub (wfNewPbSplitRootCompletedIdRef i v) = Ok (WvSplitRootCompleted \<lparr>wc_StatusCode = 0, wc_StatusMessage = [], wc_WorkflowId = i, wc_WorkflowEventId = v\<rparr>)"
  by (simp add: ParsePbWorkflowEvent_def wfNewPbSplitRootCompletedIdRef_def wfFromPbSplitRootCompleted_def wfPb_def wfGuard_def)

lemma parse_FreezeRepoCompleted2Ok [simp]: "ParsePbWorkflowEvent ub wfNewPbFreezeRepoCompleted2Ok = Ok (WvFreezeRepoCompleted2 (wfCompleted 0 []))"
  by (simp add: ParsePbWorkflowEvent_def wfNewPbFreezeRepoCompleted2Ok_def wfFromPbFreezeRepoCompleted2_def wfCompleted_def wfPb_def wfGuard_def)

lemma parse_FreezeRepoCompleted2Error [simp]: "ParsePbWorkflowEvent ub (wfNewPbFreezeRepoCompleted2Error code msg) = Ok (WvFreezeRepoCompleted2 (wfCompleted code msg))"
  by (simp add: ParsePbWorkflowEvent_def wfNewPbFreezeRepoCompleted2Error_def wfFromPbFreezeRepoCompleted2_def wfCompleted_def wfPb_def wfGuard_def)

lemma parse_FreezeRepoCompleted2IdRef [simp]: "ulid_binary ub \<Longrightarrow> ParsePbWorkflowEvent ub (wfNewPbFreezeRepoCompleted2IdRef i v) = Ok (WvFreezeRepoCompleted2 \<lparr>wc_StatusCode = 0, wc_StatusMessage = [], wc_WorkflowId = i, wc_WorkflowEventId = v\<rparr>)"
  by (simp add: ParsePbWorkflowEvent_def wfNewPbFreezeRepoCompleted2IdRef_def wfFromPbFreezeRepoCompleted2_def wfPb_def wfGuard_def)

lemma parse_UnfreezeRepoCompleted2Ok [simp]: "ParsePbWorkflowEvent ub wfNewPbUnfreezeRepoCompleted2Ok = Ok (WvUnfreezeRepoCompleted2 (wfCompleted 0 []))"
  by (simp add: ParsePbWorkflowEvent_def wfNewPbUnfreezeRepoCompleted2Ok_def wfFromPbUnfreezeRepoCompleted2_def wfCompleted_def wfPb_def wfGuard_def)

lemma parse_UnfreezeRepoCompleted2Error [simp]: "ParsePbWorkflowEvent ub (wfNewPbUnfreezeRepoCompleted2Error code msg) = Ok (WvUnfreezeRepoCompleted2 (wfCompleted code msg))"
  by (simp add: ParsePbWorkflowEvent_def wfNewPbUnfreezeRepoCompleted2Error_def wfFromPbUnfreezeRepoCompleted2_def wfCompleted_def wfPb_def wfGuard_def)

lemma parse_UnfreezeRepoCompleted2IdRef [simp]: "ulid_binary ub \<Longrightarrow> ParsePbWorkflowEvent ub (wfNewPbUnfreezeRepoCompleted2IdRef i v) = Ok (WvUnfreezeRepoCompleted2 \<lparr>wc_StatusCode = 0, wc_StatusMessage = [], wc_WorkflowId = i, wc_WorkflowEventId = v\<rparr>)"
  by (simp add: ParsePbWorkflowEvent_def wfNewPbUnfreezeRepoCompleted2IdRef_def wfFromPbUnfreezeRepoCompleted2_def wfPb_def wfGuard_def)

lemma parse_ArchiveRepoCompletedOk [simp]: "ParsePbWorkflowEvent ub wfNewPbArchiveRepoCompletedOk = Ok (WvArchiveRepoCompleted (wfCompleted 0 []))"
  by (simp add: ParsePbWorkflowEvent_def wfNewPbArchiveRepoCompletedOk_def wfFromPbArchiveRepoCompleted_def wfCompleted_def wfPb_def wfGuard_def)

lemma parse_ArchiveRepoCompletedError [simp]: "ParsePbWorkflowEvent ub (wfNewPbArchiveRepoCompletedError code msg) = Ok (WvArchiveRepoCompleted (wfCompleted code msg))"
  by (simp add: ParsePbWorkflowEvent_def wfNewPbArchiveRepoCompletedError_def wfFromPbArchiveRepoCompleted_def wfCompleted_def wfPb_def wfGuard_def)

lemma parse_ArchiveRepoCompletedIdRef [simp]: "ulid_binary ub \<Longrightarrow> ParsePbWorkflowEvent ub (wfNewPbArchiveRepoCompletedIdRef i v) = Ok (WvArchiveRepoCompleted \<lparr>wc_StatusCode = 0, wc_StatusMessage = [], wc_WorkflowId = i, wc_WorkflowEventId = v\<rparr>)"
  by (simp add: ParsePbWorkflowEvent_def wfNewPbArchiveRepoCompletedIdRef_def wfFromPbArchiveRepoCompleted_def wfPb_def wfGuard_def)

lemma parse_UnarchiveRepoCompletedOk [simp]: "ParsePbWorkflowEvent ub wfNewPbUnarchiveRepoCompletedOk = Ok (WvUnarchiveRepoCompleted (wfCompleted 0 []))"
  by (simp add: ParsePbWorkflowEvent_def wfNewPbUnarchiveRepoCompletedOk_def wfFromPbUnarchiveRepoCompleted_def wfCompleted_def wfPb_def wfGuard_def)

lemma parse_UnarchiveRepoCompletedError [simp]: "ParsePbWorkflowEvent ub (wfNewPbUnarchiveRepoCompletedError code msg) = Ok (WvUnarchiveRepoCompleted (wfCompleted code msg))"
  by (simp add: ParsePbWorkflowEvent_def wfNewPbUnarchiveRepoCompletedError_def wfFromPbUnarchiveRepoCompleted_def wfCompleted_def wfPb_def wfGuard_def)

lemma parse_UnarchiveRepoCompletedIdRef [simp]: "ulid_binary ub \<Longrightarrow> ParsePbWorkflowEvent ub (wfNewPbUnarchiveRepoCompletedIdRef i v) = Ok (WvUnarchiveRepoCompleted \<lparr>wc_StatusCode = 0, wc_StatusMessage = [], wc_WorkflowId = i, wc_WorkflowEventId = v\<rparr>)"
  by (simp add: ParsePbWorkflowEvent_def wfNewPbUnarchiveRepoCompletedIdRef_def wfFromPbUnarchiveRepoCompleted_def wfPb_def wfGuard_def)

lemma parse_PingRegistryCompleted [simp]: "ParsePbWorkflowEvent ub wfNewPbPingRegistryCompleted = Ok (WvPingRegistryCompleted uuidNil ulidNil)"
  by (simp add: ParsePbWorkflowEvent_def wfNewPbPingRegistryCompleted_def wfFromPbPingRegistryCompleted_def wfPb_def wfGuard_def)

lemma parse_PingRegistryCompletedIdRef [simp]: "ulid_binary ub \<Longrightarrow> ParsePbWorkflowEvent ub (wfNewPbPingRegistryCompletedIdRef i v) = Ok (WvPingRegistryCompleted i v)"
  by (simp add: ParsePbWorkflowEvent_def wfNewPbPingRegistryCompletedIdRef_def wfFromPbPingRegistryCompleted_def wfPb_def wfGuard_def)

lemma parse_ArchiveRepoFilesStarted [simp]: "ParsePbWorkflowEvent ub (wfNewPbArchiveRepoFilesStarted x) = Ok (WvArchiveRepoFilesStarted x)"
  by (simp add: ParsePbWorkflowEvent_def wfNewPbArchiveRepoFilesStarted_def wfFromPbArchiveRepoFilesStarted_def wfPb_def wfGuard_def)

lemma parse_UnarchiveRepoFilesStarted [simp]: "ParsePbWorkflowEvent ub (wfNewPbUnarchiveRepoFilesStarted x) = Ok (WvUnarchiveRepoFilesStarted x)"
  by (simp add: ParsePbWorkflowEvent_def wfNewPbUnarchiveRepoFilesStarted_def wfFromPbUnarchiveRepoFilesStarted_def wfPb_def wfGuard_def)

lemma parse_ArchiveRepoSwapStarted [simp]: "ParsePbWorkflowEvent ub (wfNewPbArchiveRepoSwapStarted x) = Ok (WvArchiveRepoSwapStarted x)"
  by (simp add: ParsePbWorkflowEvent_def wfNewPbArchiveRepoSwapStarted_def wfFromPbArchiveRepoSwapStarted_def wfPb_def wfGuard_def)

lemma parse_UnarchiveRepoTarttStarted [simp]: "ParsePbWorkflowEvent ub (wfNewPbUnarchiveRepoTarttStarted x) = Ok (WvUnarchiveRepoTarttStarted x)"
  by (simp add: ParsePbWorkflowEvent_def wfNewPbUnarchiveRepoTarttStarted_def wfFromPbUnarchiveRepoTarttStarted_def wfPb_def wfGuard_def)

lemma parse_FreezeRepoStarted2Workflow:
  assumes "ulid_binary ub" and "wfNewPbFreezeRepoStarted2Workflow ev = Ok p"
  shows "ParsePbWorkflowEvent ub p = Ok (WvFreezeRepoStarted2 ev) \<and> wp_Event p = WT_FSO_FREEZE_REPO_STARTED_2 \<and> wf_pb_ok p"
  using assms
  by (cases ev) (auto simp: wfNewPbFreezeRepoStarted2Workflow_def validateWorkflowFreezeRepoStarted2_def outcome_simps ParsePbWorkflowEvent_def wfFromPbFreezeRepoStarted2_def wfPb_def wfGuard_def
      unlessNil_def wf_pb_ok_def orElse_None firstError_None)

lemma parse_FreezeRepoStarted2Index:
  assumes "ulid_binary ub" and "wfNewPbFreezeRepoStarted2Index ev = Ok p"
  shows "ParsePbWorkflowEvent ub p = Ok (WvFreezeRepoStarted2 ev) \<and> wp_Event p = WT_FSO_FREEZE_REPO_STARTED_2 \<and> wf_pb_ok p"
  using assms
  by (cases ev) (auto simp: wfNewPbFreezeRepoStarted2Index_def validateIndexFreezeRepoStarted2_def outcome_simps ParsePbWorkflowEvent_def wfFromPbFreezeRepoStarted2_def wfPb_def wfGuard_def
      unlessNil_def wf_pb_ok_def orElse_None firstError_None)

lemma parse_UnfreezeRepoStarted2Workflow:
  assumes "ulid_binary ub" and "wfNewPbUnfreezeRepoStarted2Workflow ev = Ok p"
  shows "ParsePbWorkflowEvent ub p = Ok (WvUnfreezeRepoStarted2 ev) \<and> wp_Event p = WT_FSO_UNFREEZE_REPO_STARTED_2 \<and> wf_pb_ok p"
  using assms
  by (cases ev) (auto simp: wfNewPbUnfreezeRepoStarted2Workflow_def validateWorkflowUnfreezeRepoStarted2_def outcome_simps ParsePbWorkflowEvent_def wfFromPbUnfreezeRepoStarted2_def wfPb_def wfGuard_def
      unlessNil_def wf_pb_ok_def orElse_None firstError_None)

lemma parse_UnfreezeRepoStarted2Index:
  assumes "ulid_binary ub" and "wfNewPbUnfreezeRepoStarted2Index ev = Ok p"
  shows "ParsePbWorkflowEvent ub p = Ok (WvUnfreezeRepoStarted2 ev) \<and> wp_Event p = WT_FSO_UNFREEZE_REPO_STARTED_2 \<and> wf_pb_ok p"
  using assms
  by (cases ev) (auto simp: wfNewPbUnfreezeRepoStarted2Index_def validateIndexUnfreezeRepoStarted2_def outcome_simps ParsePbWorkflowEvent_def wfFromPbUnfreezeRepoStarted2_def wfPb_def wfGuard_def
      unlessNil_def wf_pb_ok_def orElse_None firstError_None)

lemma parse_ArchiveRepoStartedWorkflow:
  assumes "ulid_binary ub" and "wfNewPbArchiveRepoStartedWorkflow ev = Ok p"
  shows "ParsePbWorkflowEvent ub p = Ok (WvArchiveRepoStarted ev) \<and> wp_Event p = WT_FSO_ARCHIVE_REPO_STARTED \<and> wf_pb_ok p"
  using assms
  by (cases ev) (auto simp: wfNewPbArchiveRepoStartedWorkflow_def validateWorkflowArchiveRepoStarted_def outcome_simps ParsePbWorkflowEvent_def wfFromPbArchiveRepoStarted_def wfPb_def wfGuard_def
      unlessNil_def wf_pb_ok_def orElse_None firstError_None)

lemma parse_ArchiveRepoStartedIndex:
  assumes "ulid_binary ub" and "wfNewPbArchiveRepoStartedIndex ev = Ok p"
  shows "ParsePbWorkflowEvent ub p = Ok (WvArchiveRepoStarted ev) \<and> wp_Event p = WT_FSO_ARCHIVE_REPO_STARTED \<and> wf_pb_ok p"
  using assms
  by (cases ev) (auto simp: wfNewPbArchiveRepoStartedIndex_def validateIndexArchiveRepoStarted_def outcome_simps ParsePbWorkflowEvent_def wfFromPbArchiveRepoStarted_def wfPb_def wfGuard_def
      unlessNil_def wf_pb_ok_def orElse_None firstError_None)

lemma parse_UnarchiveRepoStartedWorkflow:
  assumes "ulid_binary ub" and "wfNewPbUnarchiveRepoStartedWorkflow ev = Ok p"
  shows "ParsePbWorkflowEvent ub p = Ok (WvUnarchiveRepoStarted ev) \<and> wp_Event p = WT_FSO_UNARCHIVE_REPO_STARTED \<and> wf_pb_ok p"
  using assms
  by (cases ev) (auto simp: wfNewPbUnarchiveRepoStartedWorkflow_def validateWorkflowUnarchiveRepoStarted_def outcome_simps ParsePbWorkflowEvent_def wfFromPbUnarchiveRepoStarted_def wfPb_def wfGuard_def
      unlessNil_def wf_pb_ok_def orElse_None firstError_None)

lemma parse_UnarchiveRepoStartedIndex:
  assumes "ulid_binary ub" and "wfNewPbUnarchiveRepoStartedIndex ev = Ok p"
  shows "ParsePbWorkflowEvent ub p = Ok (WvUnarchiveRepoStarted ev) \<and> wp_Event p = WT_FSO_UNARCHIVE_REPO_STARTED \<and> wf_pb_ok p"
  using assms
  by (cases ev) (auto simp: wfNewPbUnarchiveRepoStartedIndex_def validateIndexUnarchiveRepoStarted_def outcome_simps ParsePbWorkflowEvent_def wfFromPbUnarchiveRepoStarted_def wfPb_def wfGuard_def
      unlessNil_def wf_pb_ok_def orElse_None firstError_None)

lemma parse_DuRootStartedWorkflow:
  assumes "ulid_binary ub" and "wfNewPbDuRootStartedWorkflow ev = Ok p"
  shows "ParsePbWorkflowEvent ub p = Ok (WvDuRootStarted ev) \<and> wp_Event p = WT_FSO_DU_ROOT_STARTED \<and> wf_pb_ok p"
  using assms
  by (cases ev) (auto simp: wfNewPbDuRootStartedWorkflow_def validateWorkflowDuRootStarted_def validateCommonDuRootStarted_def outcome_simps ParsePbWorkflowEvent_def wfFromPbDuRootStarted_def wfPb_def wfGuard_def
      unlessNil_def wf_pb_ok_def orElse_None firstError_None)

lemma parse_DuRootStartedIndex:
  assumes "ulid_binary ub" and "wfNewPbDuRootStartedIndex ev = Ok p"
  shows "ParsePbWorkflowEvent ub p = Ok (WvDuRootStarted ev) \<and> wp_Event p = WT_FSO_DU_ROOT_STARTED \<and> wf_pb_ok p"
  using assms
  by (cases ev) (auto simp: wfNewPbDuRootStartedIndex_def validateIndexDuRootStarted_def validateCommonDuRootStarted_def outcome_simps ParsePbWorkflowEvent_def wfFromPbDuRootStarted_def wfPb_def wfGuard_def
      unlessNil_def wf_pb_ok_def orElse_None firstError_None)

lemma parse_PingRegistryStartedWorkflow:
  assumes "ulid_binary ub" and "wfNewPbPingRegistryStartedWorkflow ev = Ok p"
  shows "ParsePbWorkflowEvent ub p = Ok (WvPingRegistryStarted ev) \<and> wp_Event p = WT_FSO_PING_REGISTRY_STARTED \<and> wf_pb_ok p"
  using assms
  by (cases ev) (auto simp: wfNewPbPingRegistryStartedWorkflow_def validateWorkflowPingRegistryStarted_def outcome_simps ParsePbWorkflowEvent_def wfFromPbPingRegistryStarted_def wfPb_def wfGuard_def
      unlessNil_def wf_pb_ok_def orElse_None firstError_None)

lemma parse_PingRegistryStartedIndex:
  assumes "ulid_binary ub" and "wfNewPbPingRegistryStartedIndex ev = Ok p"
  shows "ParsePbWorkflowEvent ub p = Ok (WvPingRegistryStarted ev) \<and> wp_Event p = WT_FSO_PING_REGISTRY_STARTED \<and> wf_pb_ok p"
  using assms
  by (cases ev) (auto simp: wfNewPbPingRegistryStartedIndex_def validateIndexPingRegistryStarted_def outcome_simps ParsePbWorkflowEvent_def wfFromPbPingRegistryStarted_def wfPb_def wfGuard_def
      unlessNil_def wf_pb_ok_def orElse_None firstError_None)

lemma parse_SplitRootStartedWorkflow:
  assumes "ulid_binary ub" and "wfNewPbSplitRootStartedWorkflow ev = Ok p"
  shows "ParsePbWorkflowEvent ub p = Ok (WvSplitRootStarted ev) \<and> wp_Event p = WT_FSO_SPLIT_ROOT_STARTED \<and> wf_pb_ok p"
  using assms
  by (cases ev) (auto simp: wfNewPbSplitRootStartedWorkflow_def validateWorkflowSplitRootStarted_def validateCommonSplitRootStarted_def outcome_simps ParsePbWorkflowEvent_def wfFromPbSplitRootStarted_def wfPb_def wfGuard_def
      unlessNil_def wf_pb_ok_def orElse_None firstError_None)

lemma parse_SplitRootStartedIndex:
  assumes "ulid_binary ub" and "wfNewPbSplitRootStartedIndex ev = Ok p"
  shows "ParsePbWorkflowEvent ub p = Ok (WvSplitRootStarted (ev\<lparr>ss_MaxDepth := 0, ss_MinDiskUsage := 0, ss_MaxDiskUsage := 0\<rparr>)) \<and> wp_Event p = WT_FSO_SPLIT_ROOT_STARTED \<and> wf_pb_ok p"
  using assms
  by (cases ev) (auto simp: wfNewPbSplitRootStartedIndex_def validateIndexSplitRootStarted_def validateCommonSplitRootStarted_def outcome_simps ParsePbWorkflowEvent_def wfFromPbSplitRootStarted_def wfPb_def wfGuard_def
      unlessNil_def wf_pb_ok_def orElse_None firstError_None)

lemma parse_RepoMoveStarted:
  assumes "ulid_binary ub" and "wfNewPbRepoMoveStarted ev = Ok p"
  shows "ParsePbWorkflowEvent ub p = Ok (WvRepoMoveStarted ev) \<and> wp_Event p = WT_FSO_REPO_MOVE_STARTED \<and> wf_pb_ok p"
  using assms
  by (cases ev) (auto simp: wfNewPbRepoMoveStarted_def validateRepoMoveStarted_def outcome_simps ParsePbWorkflowEvent_def wfFromPbRepoMoveStarted_def wfPb_def wfGuard_def
      unlessNil_def wf_pb_ok_def orElse_None firstError_None)

lemma parse_RepoMoved:
  assumes "ulid_binary ub" and "wfNewPbRepoMoved ev = Ok p"
  shows "ParsePbWorkflowEvent ub p = Ok (WvRepoMoved ev) \<and> wp_Event p = WT_FSO_REPO_MOVED \<and> wf_pb_ok p"
  using assms
  by (cases ev) (auto simp: wfNewPbRepoMoved_def validateRepoMoved_def outcome_simps ParsePbWorkflowEvent_def wfFromPbRepoMoved_def wfPb_def wfGuard_def
      unlessNil_def wf_pb_ok_def orElse_None firstError_None)

lemma parse_ArchiveRepoTarttCompleted:
  assumes "wfNewPbArchiveRepoTarttCompleted tarPath = Ok p"
  shows "ParsePbWorkflowEvent ub p = Ok (WvArchiveRepoTarttCompleted tarPath) \<and> wp_Event p = WT_FSO_ARCHIVE_REPO_TARTT_COMPLETED \<and> wf_pb_ok p"
  using assms by (auto simp: wf_pb_ok_def wfNewPbArchiveRepoTarttCompleted_def outcome_simps ParsePbWorkflowEvent_def wfFromPbArchiveRepoTarttCompleted_def wfPb_def wfGuard_def)

section \<open>Event structs\<close>

definition wfSetPb :: "ulid \<Rightarrow> ulid \<Rightarrow> WorkflowPb \<Rightarrow> WorkflowPb" where
  "wfSetPb i parent p = p\<lparr>wp_Id := Some (idBytes i), wp_Parent := Some (idBytes parent)\<rparr>"

definition wfNewEvents :: "ulid_source \<Rightarrow> ulid \<Rightarrow> WorkflowPb list \<Rightarrow> goerr + WorkflowPb Event list" where
  "wfNewEvents g parent pbs = newEventsLoop wfSetPb g 0 parent pbs"

definition wfMarshalProto :: "(WorkflowPb \<Rightarrow> goerr + byte list) \<Rightarrow> WorkflowPb Event \<Rightarrow> goerr + byte list" where
  "wfMarshalProto pm e = pm (ev_pb e)"

definition wfUnmarshalProto ::
  "(byte list \<Rightarrow> goerr + WorkflowPb) \<Rightarrow> ulid_unmarshal \<Rightarrow> byte list \<Rightarrow> (goerr, WorkflowPb Event) outcome" where
  "wfUnmarshalProto pu ub data =
     onError id (pu data) (\<lambda>p.
     onError id (ParseBytes ub (wp_Id p)) (\<lambda>i.
     onError id (ParseBytes ub (wp_Parent p)) (\<lambda>par.
       case ParsePbWorkflowEvent ub p of
         Panic x \<Rightarrow> Panic x
       | Err _ \<Rightarrow> Err (GoErr ''invalid event details'')
       | Ok _ \<Rightarrow> Ok \<lparr>ev_id = i, ev_parent = par, ev_pb = p\<rparr>)))"

definition wfWithId :: "ulid \<Rightarrow> WorkflowPb Event \<Rightarrow> WorkflowPb Event" where
  "wfWithId i e = e\<lparr>ev_id := i, ev_pb := (ev_pb e)\<lparr>wp_Id := Some (idBytes i)\<rparr>\<rparr>"

definition wfWithParent :: "ulid \<Rightarrow> WorkflowPb Event \<Rightarrow> WorkflowPb Event" where
  "wfWithParent i e = e\<lparr>ev_parent := i, ev_pb := (ev_pb e)\<lparr>wp_Parent := Some (idBytes i)\<rparr>\<rparr>"

text \<open>
  The struct \<open>Event\<close> of a workflow package embeds this one; its \<open>UnmarshalProto()\<close> in addition accepts only the
  given types.
\<close>

definition wfOnlyTypes ::
  "(WorkflowEvent_Type \<Rightarrow> bool) \<Rightarrow> goerr \<Rightarrow> (goerr, WorkflowPb Event) outcome \<Rightarrow> (goerr, WorkflowPb Event) outcome" where
  "wfOnlyTypes ok err r = obind r (\<lambda>e. if ok (wp_Event (ev_pb e)) then Ok e else Err err)"

definition wfEventOps ::
  "(WorkflowEvent_Type \<Rightarrow> bool) \<Rightarrow> goerr \<Rightarrow> (WorkflowPb \<Rightarrow> goerr + byte list) \<Rightarrow>
   (byte list \<Rightarrow> goerr + WorkflowPb) \<Rightarrow> ulid_unmarshal \<Rightarrow> WorkflowPb Event EventOps" where
  "wfEventOps ok err pm pu ub = \<lparr>EvId = ev_id, EvParent = ev_parent, WithId = wfWithId, WithParent = wfWithParent,
     MarshalProto = wfMarshalProto pm, UnmarshalProto = (\<lambda>data. wfOnlyTypes ok err (wfUnmarshalProto pu ub data))\<rparr>"

lemma wfEventOps_simps [simp]:
  "EvId (wfEventOps ok err pm pu ub) = ev_id" "EvParent (wfEventOps ok err pm pu ub) = ev_parent"
  by (simp_all add: wfEventOps_def)

lemma wf_event_ops: "event_ops (wfEventOps ok err pm pu ub)"
  by unfold_locales (simp_all add: wfEventOps_def wfWithId_def wfWithParent_def)

section \<open>Round trips\<close>

text \<open>
  \<open>proto.Marshal\<close> and \<open>proto.Unmarshal\<close> as documented, on messages whose byte fields are absent or not empty.
\<close>

definition wf_codec :: "(WorkflowPb \<Rightarrow> goerr + byte list) \<Rightarrow> (byte list \<Rightarrow> goerr + WorkflowPb) \<Rightarrow> bool" where
  "wf_codec pm pu \<longleftrightarrow> (\<forall>p bs. wf_pb_ok p \<longrightarrow> pm p = Inr bs \<longrightarrow> pu bs = Inr p)"

text \<open>The parsers do not read the header of a message.\<close>

lemma wfGuard_header [simp]:
  "wfGuard t (p\<lparr>wp_Id := x\<rparr>) k = wfGuard t p k" "wfGuard t (p\<lparr>wp_Parent := x\<rparr>) k = wfGuard t p k"
  by (simp_all add: wfGuard_def)

lemmas wf_type_congs =
  WorkflowEvent_Type.case_cong WfIndexEventType.case_cong WfMoveEventType.case_cong WfShadowEventType.case_cong WfDuEventType.case_cong
  WfPingEventType.case_cong WfSplitEventType.case_cong WfFreezeEventType.case_cong
  WfUnfreezeEventType.case_cong WfArchiveEventType.case_cong WfUnarchiveEventType.case_cong

lemma ParsePb_header [simp]:
  "ParsePbWorkflowEvent ub (p\<lparr>wp_Id := x\<rparr>) = ParsePbWorkflowEvent ub p"
  "ParsePbWorkflowEvent ub (p\<lparr>wp_Parent := x\<rparr>) = ParsePbWorkflowEvent ub p"
  by (simp_all add: ParsePbWorkflowEvent_def wfFromPb_defs cong: wf_type_congs)

lemma ParsePb_setPb [simp]: "ParsePbWorkflowEvent ub (wfSetPb i par p) = ParsePbWorkflowEvent ub p"
  by (simp add: wfSetPb_def)

lemma MustParse_setPb [simp]: "MustParsePbWorkflowEvent ub (wfSetPb i par p) = MustParsePbWorkflowEvent ub p"
  by (simp add: MustParsePbWorkflowEvent_def)

lemma wfSetPb_event [simp]: "wp_Event (wfSetPb i par p) = wp_Event p"
  by (simp add: wfSetPb_def)

definition wf_event_wf :: "(WorkflowEvent_Type \<Rightarrow> bool) \<Rightarrow> ulid_unmarshal \<Rightarrow> WorkflowPb Event \<Rightarrow> bool" where
  "wf_event_wf ok ub e \<longleftrightarrow>
     wp_Id (ev_pb e) = Some (idBytes (ev_id e)) \<and> wp_Parent (ev_pb e) = Some (idBytes (ev_parent e)) \<and>
     wf_pb_ok (ev_pb e) \<and> ok (wp_Event (ev_pb e)) \<and> (\<exists>ev. ParsePbWorkflowEvent ub (ev_pb e) = Ok ev)"

lemma wf_roundtrip:
  assumes "wf_codec pm pu" and "ulid_binary ub" and "wf_event_wf ok ub e" and "wfMarshalProto pm e = Inr bs"
  shows "wfOnlyTypes ok err (wfUnmarshalProto pu ub bs) = Ok e"
proof -
  have "pu bs = Inr (ev_pb e)"
    using assms by (auto simp: wf_codec_def wfMarshalProto_def wf_event_wf_def)
  then show ?thesis
    using assms(2,3) by (auto simp: wfUnmarshalProto_def wfOnlyTypes_def wf_event_wf_def)
qed

end
