(* ===== verification/Workflow_Base.thy ===== *)
theory Workflow_Base
  imports Workflow_Events Nog_Aggregate "HOL-Library.Sublist"
begin

text \<open>
  What the workflow packages below \<open>backend/internal/workflows\<close> share: their errors, the way a command ends in
  new events, and the contract of a workflow as a state machine.  The locale \<open>workflow\<close> extends \<open>aggregate\<close> by a
  phase of the state and by the relation of the steps between phases; \<open>workflow_bounded\<close> is for the workflows
  whose steps always make progress.
\<close>

section \<open>Errors and new events\<close>

text \<open>
  The packages declare the same error types; \<open>WfPlainError\<close> is an error without a package type, as
  \<open>errors.New()\<close> returns it and as \<open>NewEvents()\<close> passes it on.
\<close>

datatype (plugins only: code) wf_error =
    WfInvalidCommandError
  | WfStateConflictError
  | WfAlreadyTerminatedError
  | WfNotIdempotentError
  | WfArgumentNotIdempotentError string
  | WfNewEventsError goerr
  | WfArgumentError string
  | WfResourceExhaustedError string
  | WfNotCandidateError string
  | WfUndecidedCandidatesError
  | WfPlainError goerr

text \<open>\<open>wrapEventsNewEventsError(NewEvents(...))\<close>, and \<open>NewEvents(...)\<close> without wrapping the error.\<close>

definition wfEmit ::
  "ulid_source \<Rightarrow> ulid \<Rightarrow> WorkflowPb list \<Rightarrow> (wf_error, WorkflowPb Event list) outcome" where
  "wfEmit g vid pbs =
     (case wfNewEvents g vid pbs of Inl e \<Rightarrow> Err (WfNewEventsError e) | Inr evs \<Rightarrow> Ok evs)"

definition wfEmitPlain ::
  "ulid_source \<Rightarrow> ulid \<Rightarrow> WorkflowPb list \<Rightarrow> (wf_error, WorkflowPb Event list) outcome" where
  "wfEmitPlain g vid pbs =
     (case wfNewEvents g vid pbs of Inl e \<Rightarrow> Err (WfPlainError e) | Inr evs \<Rightarrow> Ok evs)"

lemma wfEmit_Ok [outcome_simps]:
  "wfEmit g vid pbs = Ok evs \<longleftrightarrow> wfNewEvents g vid pbs = Inr evs"
  "wfEmitPlain g vid pbs = Ok evs \<longleftrightarrow> wfNewEvents g vid pbs = Inr evs"
  "\<not> is_Panic (wfEmit g vid pbs)" "\<not> is_Panic (wfEmitPlain g vid pbs)"
  by (auto simp: wfEmit_def wfEmitPlain_def split: sum.splits)

lemma wfNewEvents_Nil [simp]: "wfNewEvents g vid [] = Inr []"
  by (simp add: wfNewEvents_def)

lemma wfNewEvents_single:
  "wfNewEvents g vid [p] = Inr evs \<longleftrightarrow>
     (\<exists>i. g 0 = Inr i \<and> evs = [\<lparr>ev_id = i, ev_parent = vid, ev_pb = wfSetPb i vid p\<rparr>])"
  by (simp only: wfNewEvents_def newEventsLoop_single)

lemma wfNewEvents_chained: "wfNewEvents g vid pbs = Inr evs \<Longrightarrow> chained (wfEventOps ok err pm pu ub) vid evs"
  unfolding wfNewEvents_def by (rule newEventsLoop_chained) simp_all

text \<open>A command that ends in one of the two forms, or is refused, or is idempotent.\<close>

definition wf_emits :: "ulid_source \<Rightarrow> ulid \<Rightarrow> ('e, WorkflowPb Event list) outcome \<Rightarrow> bool" where
  "wf_emits g vid r \<longleftrightarrow> (case r of Ok evs \<Rightarrow> \<exists>pbs. wfNewEvents g vid pbs = Inr evs | _ \<Rightarrow> True)"

lemma wf_emits_simps [simp]:
  "wf_emits g vid (Err e)" "wf_emits g vid (Panic p)" "wf_emits g vid (Ok [])"
  "wf_emits g vid (wfEmit g vid pbs)" "wf_emits g vid (wfEmitPlain g vid pbs)"
    by (auto simp: wf_emits_def wfEmit_def wfEmitPlain_def split: sum.splits intro: exI [of _ "[]"])

lemma wf_emits_obind [simp]: "(\<And>p. wf_emits g vid (k p)) \<Longrightarrow> wf_emits g vid (obind (orPanic e x) k)"
  by (cases e) (auto simp: orPanic_def wf_emits_def split: goerr.splits)

section \<open>Init commands of the workflows on a repo\<close>

record RepoCmdInit =
  ci_RegistryId :: uuid
  ci_RegistryName :: string
  ci_StartRegistryVid :: ulid
  ci_RepoId :: uuid
  ci_RepoGlobalPath :: string
  ci_StartRepoVid :: ulid
  ci_AuthorName :: string
  ci_AuthorEmail :: string

record UnarchiveCmdInit = RepoCmdInit +
  ci_RepoArchiveURL :: string
  ci_TarttTarPath :: string

definition initStarted :: "'z RepoCmdInit_scheme \<Rightarrow> RepoWorkflowStarted" where
  "initStarted cmd =
     \<lparr>rs_RegistryId = ci_RegistryId cmd, rs_RegistryName = ci_RegistryName cmd,
      rs_StartRegistryVid = ci_StartRegistryVid cmd, rs_RepoId = ci_RepoId cmd,
      rs_StartRepoVid = ci_StartRepoVid cmd, rs_RepoGlobalPath = ci_RepoGlobalPath cmd,
      rs_AuthorName = ci_AuthorName cmd, rs_AuthorEmail = ci_AuthorEmail cmd,
      rs_WorkflowId = uuidNil, rs_WorkflowEventId = ulidNil\<rparr>"

text \<open>The obligation of the callers of the init commands, which the code does not check ("XXX Maybe validate").\<close>

definition init_ok :: "'z RepoCmdInit_scheme \<Rightarrow> bool" where
  "init_ok cmd \<longleftrightarrow> ci_RegistryId cmd \<noteq> 0 \<and> ci_RegistryName cmd \<noteq> [] \<and> ci_RepoId cmd \<noteq> 0 \<and>
     ci_RepoGlobalPath cmd \<noteq> [] \<and> ci_AuthorName cmd \<noteq> [] \<and> ci_AuthorEmail cmd \<noteq> []"

lemma initStarted_simps [simp]:
  "rs_RegistryId (initStarted cmd) = ci_RegistryId cmd" "rs_RegistryName (initStarted cmd) = ci_RegistryName cmd"
  "rs_RepoId (initStarted cmd) = ci_RepoId cmd" "rs_RepoGlobalPath (initStarted cmd) = ci_RepoGlobalPath cmd"
  "rs_AuthorName (initStarted cmd) = ci_AuthorName cmd" "rs_AuthorEmail (initStarted cmd) = ci_AuthorEmail cmd"
  "rs_WorkflowId (initStarted cmd) = 0" "rs_WorkflowEventId (initStarted cmd) = 0"
  by (simp_all add: initStarted_def)

text \<open>Commands and init commands that the witnesses use.\<close>

definition demo_init :: RepoCmdInit where
  "demo_init = \<lparr>ci_RegistryId = 1, ci_RegistryName = ''reg'', ci_StartRegistryVid = 0, ci_RepoId = 7,
     ci_RepoGlobalPath = ''/g/a'', ci_StartRepoVid = 0, ci_AuthorName = ''A'', ci_AuthorEmail = ''a@b''\<rparr>"

lemma demo_init_ok [simp]: "init_ok demo_init"
  by (simp add: init_ok_def demo_init_def)

section \<open>Steps\<close>

text \<open>
  The walk of an aggregate along events: each event advances the state by one step of the relation.
\<close>

fun walk ::
  "('s, 'c, 'ev, 'e) Behavior \<Rightarrow> 'ev EventOps \<Rightarrow> ('s \<Rightarrow> 'k) \<Rightarrow> ('k \<Rightarrow> 'k \<Rightarrow> bool) \<Rightarrow> 's \<Rightarrow> 'ev list \<Rightarrow> bool" where
  "walk b ops phase step s [] = True"
| "walk b ops phase step s (ev # evs) =
     (\<exists>s'. Advance b s ev = Ok s' \<and> step (phase s) (phase s') \<and>
        walk b ops phase step (SetVid b (EvId ops ev) s') evs)"

text \<open>The phases that a history passes.\<close>

fun trace ::
  "('s, 'c, 'ev, 'e) Behavior \<Rightarrow> 'ev EventOps \<Rightarrow> ('s \<Rightarrow> 'k) \<Rightarrow> 's \<Rightarrow> 'ev list \<Rightarrow> 'k list" where
  "trace b ops phase s [] = []"
| "trace b ops phase s (ev # evs) =
     (case Advance b s ev of
        Ok s' \<Rightarrow> phase s' # trace b ops phase (SetVid b (EvId ops ev) s') evs
      | _ \<Rightarrow> [])"

fun steps :: "('k \<Rightarrow> 'k \<Rightarrow> bool) \<Rightarrow> 'k \<Rightarrow> 'k list \<Rightarrow> bool" where
  "steps step k [] = True"
| "steps step k (k' # ks) = (step k k' \<and> steps step k' ks)"

lemma steps_append [simp]: "steps step k (xs @ ys) \<longleftrightarrow> steps step k xs \<and> steps step (last (k # xs)) ys"
  by (induction xs arbitrary: k) auto

lemma steps_bounded:
  assumes "\<And>k k'. step k k' \<Longrightarrow> rank k < (rank k' :: nat)" and "steps step k ks"
  shows "rank k + length ks \<le> rank (last (k # ks))"
  using assms(2) by (induction ks arbitrary: k) (auto dest!: assms(1) dest: less_le_trans, fastforce dest: assms(1))

text \<open>The state and the history after a list of commands, each of which has to be accepted.\<close>

fun tells ::
  "('s, 'c, 'ev, 'e) Behavior \<Rightarrow> 'ev EventOps \<Rightarrow> ('s \<Rightarrow> 'c \<Rightarrow> bool) \<Rightarrow> ulid_source \<Rightarrow> 's \<Rightarrow> 'ev list \<Rightarrow> 'c list \<Rightarrow>
   ('s \<times> 'ev list) option" where
  "tells b ops pre g s hist [] = Some (s, hist)"
| "tells b ops pre g s hist (c # cs) =
     (if \<not> pre s c then None
      else case Tell b g s c of
        Ok evs \<Rightarrow> (case advanceAll b ops s evs of
          Ok s' \<Rightarrow> tells b ops pre g s' (hist @ evs) cs
        | _ \<Rightarrow> None)
      | _ \<Rightarrow> None)"

lemma tells_live:
  "live b ops pre i s hist \<Longrightarrow> tells b ops pre g s hist cs = Some (s', hist') \<Longrightarrow> live b ops pre i s' hist'"
  by (induction cs arbitrary: s hist) (auto split: if_splits outcome.splits intro: live_tell)

text \<open>A list of new events advances the state if each message does.\<close>

lemma walk_newEvents:
  assumes "wfNewEvents g vid pbs = Inr evs" and "P pbs s"
    and "\<And>p ps s i par. P (p # ps) s \<Longrightarrow>
      \<exists>s'. Advance b s \<lparr>ev_id = i, ev_parent = par, ev_pb = wfSetPb i par p\<rparr> = Ok s' \<and>
        step (phase s) (phase s') \<and> P ps (SetVid b i s')"
    and ops: "EvId ops = ev_id"
  shows "\<exists>s'. advanceAll b ops s evs = Ok s' \<and> P [] s' \<and> walk b ops phase step s evs"
proof -
  have "newEventsLoop wfSetPb g n vid pbs = Inr evs \<Longrightarrow> P pbs s \<Longrightarrow>
    \<exists>s'. advanceAll b ops s evs = Ok s' \<and> P [] s' \<and> walk b ops phase step s evs" for n
  proof (induction pbs arbitrary: n vid s evs)
    case (Cons p ps)
    then obtain i evs' where i: "g n = Inr i" and rest: "newEventsLoop wfSetPb g (Suc n) i ps = Inr evs'"
      and evs: "evs = \<lparr>ev_id = i, ev_parent = vid, ev_pb = wfSetPb i vid p\<rparr> # evs'"
      by (auto split: sum.splits)
    obtain s1 where s1: "Advance b s \<lparr>ev_id = i, ev_parent = vid, ev_pb = wfSetPb i vid p\<rparr> = Ok s1"
      "step (phase s) (phase s1)" "P ps (SetVid b i s1)"
      using assms(3) [OF Cons.prems(2)] by blast
    show ?case using Cons.IH [OF rest s1(3)] s1 by (auto simp: evs ops)
  qed simp
  then show ?thesis using assms(1,2) by (simp add: wfNewEvents_def)
qed

locale workflow = aggregate b ops inv pre
  for b :: "('s, 'c, 'ev, 'e) Behavior" and ops :: "'ev EventOps" and inv :: "'s \<Rightarrow> bool"
    and pre :: "'s \<Rightarrow> 'c \<Rightarrow> bool" +
  fixes phase :: "'s \<Rightarrow> 'k" and start :: 'k and step :: "'k \<Rightarrow> 'k \<Rightarrow> bool"
  assumes phase_NewState: "phase (NewState b i) = start"
    and phase_SetVid: "phase (SetVid b v s) = phase s"
    and Tell_walks: "inv s \<Longrightarrow> pre s c \<Longrightarrow> Tell b g s c = Ok evs \<Longrightarrow> walk b ops phase step s evs"
begin

lemma walk_steps:
  "walk b ops phase step s evs \<Longrightarrow> advanceAll b ops s evs = Ok s' \<Longrightarrow>
     steps step (phase s) (trace b ops phase s evs) \<and> phase s' = last (phase s # trace b ops phase s evs) \<and>
     length (trace b ops phase s evs) = length evs"
proof (induction evs arbitrary: s)
  case (Cons ev evs)
  then obtain s1 where s1: "Advance b s ev = Ok s1" "step (phase s) (phase s1)"
    "walk b ops phase step (SetVid b (EvId ops ev) s1) evs"
    "advanceAll b ops (SetVid b (EvId ops ev) s1) evs = Ok s'"
    by auto
  show ?case using Cons.IH [OF s1(3,4)] s1(1,2) by (simp add: phase_SetVid)
qed simp

lemma trace_append:
  "advanceAll b ops s xs = Ok s' \<Longrightarrow>
     trace b ops phase s (xs @ ys) = trace b ops phase s xs @ trace b ops phase s' ys"
  by (induction xs arbitrary: s) (auto simp: outcome_simps)

text \<open>The phases of every live history form a path of the step relation that starts at \<open>start\<close>.\<close>

lemma live_path:
  assumes "live b ops pre i s hist"
  shows "steps step start (trace b ops phase (SetVid b EventEpoch (NewState b i)) hist) \<and>
    phase s = last (start # trace b ops phase (SetVid b EventEpoch (NewState b i)) hist) \<and>
    length (trace b ops phase (SetVid b EventEpoch (NewState b i)) hist) = length hist"
  using assms
proof (induction rule: live.induct)
  case live_new
  show ?case by (simp add: phase_SetVid phase_NewState)
next
  case (live_tell s hist c g evs s')
  have w: "walk b ops phase step s evs"
    using Tell_walks [OF live_inv [OF live_tell.hyps(1)]] live_tell.hyps by blast
  show ?case
    using walk_steps [OF w live_tell.hyps(4)] live_tell.IH trace_append [OF live_replay [OF live_tell.hyps(1)]]
    by auto
qed

text \<open>A state without a next phase is final: it accepts no command that would add events.\<close>

lemma live_final:
  assumes "live b ops pre i s hist" and "pre s c" and "Tell b g s c = Ok evs"
    and "\<And>k. \<not> step (phase s) k"
  shows "evs = []"
  using Tell_walks [OF live_inv [OF assms(1)] assms(2,3)] assms(4) by (cases evs) auto

end

text \<open>A workflow in which every step of the relation can be taken by a command.\<close>

locale workflow_exact = workflow b ops inv pre phase start step
  for b :: "('s, 'c, 'ev, 'e) Behavior" and ops :: "'ev EventOps" and inv :: "'s \<Rightarrow> bool"
    and pre :: "'s \<Rightarrow> 'c \<Rightarrow> bool" and phase :: "'s \<Rightarrow> 'k" and start :: 'k and step :: "'k \<Rightarrow> 'k \<Rightarrow> bool" +
  assumes Tell_complete: "inv s \<Longrightarrow> step (phase s) k \<Longrightarrow>
    \<exists>c g ev s'. pre s c \<and> Tell b g s c = Ok [ev] \<and> Advance b s ev = Ok s' \<and> phase s' = k"
begin

lemma steps_live:
  assumes "steps step start ks"
  shows "\<exists>s hist. live b ops pre i s hist \<and> trace b ops phase (SetVid b EventEpoch (NewState b i)) hist = ks"
  using assms
proof (induction ks rule: rev_induct)
  case Nil
  show ?case using live_new [of b ops pre i] by (intro exI [of _ "[]"] exI conjI) auto
next
  case (snoc k ks)
  then obtain s hist where l: "live b ops pre i s hist"
    and t: "trace b ops phase (SetVid b EventEpoch (NewState b i)) hist = ks" and k: "step (last (start # ks)) k"
    by auto
  have "phase s = last (start # ks)" using live_path [OF l] t by simp
  then obtain c g ev s' where c: "pre s c" "Tell b g s c = Ok [ev]" "Advance b s ev = Ok s'" "phase s' = k"
    using Tell_complete [OF live_inv [OF l]] k by metis
  then have "live b ops pre i (SetVid b (EvId ops ev) s') (hist @ [ev])"
    by (intro live_tell [OF l c(1,2)]) simp
  moreover have "trace b ops phase (SetVid b EventEpoch (NewState b i)) (hist @ [ev]) = ks @ [k]"
    using trace_append [OF live_replay [OF l]] t c by simp
  ultimately show ?case by blast
qed

lemma live_traces:
  "{trace b ops phase (SetVid b EventEpoch (NewState b i)) hist | s hist. live b ops pre i s hist} =
   {ks. steps step start ks}"
proof (intro set_eqI iffI)
  fix ks
  assume "ks \<in> {trace b ops phase (SetVid b EventEpoch (NewState b i)) hist | s hist. live b ops pre i s hist}"
  then obtain s hist where "ks = trace b ops phase (SetVid b EventEpoch (NewState b i)) hist" "live b ops pre i s hist"
    by auto
  then show "ks \<in> {ks. steps step start ks}" using live_path [of i s hist] by simp
next
  fix ks assume "ks \<in> {ks. steps step start ks}"
  then show "ks \<in> {trace b ops phase (SetVid b EventEpoch (NewState b i)) hist | s hist. live b ops pre i s hist}"
    using steps_live [of ks i] by auto
qed

end

locale workflow_bounded = workflow b ops inv pre phase start step
  for b :: "('s, 'c, 'ev, 'e) Behavior" and ops :: "'ev EventOps" and inv :: "'s \<Rightarrow> bool"
    and pre :: "'s \<Rightarrow> 'c \<Rightarrow> bool" and phase :: "'s \<Rightarrow> 'k" and start :: 'k and step :: "'k \<Rightarrow> 'k \<Rightarrow> bool" +
  fixes rank :: "'k \<Rightarrow> nat"
  assumes rank_next: "step k k' \<Longrightarrow> rank k < rank k'"
begin

text \<open>Every event of such a workflow makes progress, so its history is bounded.\<close>

lemma live_bounded: "live b ops pre i s hist \<Longrightarrow> rank start + length hist \<le> rank (phase s)"
  using live_path [of i s hist] steps_bounded [of "step" rank start] rank_next by metis

end

section \<open>Runs\<close>

text \<open>
  The maximal runs of a machine that is given by the list of the next phases; with fuel for every step, the paths
  are the prefixes of the runs.
\<close>

fun runs :: "('k \<Rightarrow> 'k list) \<Rightarrow> nat \<Rightarrow> 'k \<Rightarrow> 'k list list" where
  "runs nxt 0 k = [[]]"
| "runs nxt (Suc n) k =
     (if nxt k = [] then [[]] else concat (map (\<lambda>k'. map ((#) k') (runs nxt n k')) (nxt k)))"

lemma runs_ne [simp]: "runs nxt n k \<noteq> []"
  by (induction nxt n k rule: runs.induct) auto

lemma steps_runs:
  "steps (\<lambda>k k'. k' \<in> set (nxt k)) k ks \<Longrightarrow> length ks \<le> n \<Longrightarrow> \<exists>p \<in> set (runs nxt n k). prefix ks p"
proof (induction nxt n k arbitrary: ks rule: runs.induct)
  case (2 nxt n k)
  show ?case
  proof (cases ks)
    case Nil
    then show ?thesis by (metis Nil_prefix ex_in_conv runs_ne set_empty)
  next
    case (Cons k' ks')
    then have k': "k' \<in> set (nxt k)" "nxt k \<noteq> []" "steps (\<lambda>k k'. k' \<in> set (nxt k)) k' ks'" "length ks' \<le> n"
      using 2(2,3) by auto
    obtain p where "p \<in> set (runs nxt n k')" "prefix ks' p" using 2(1) [OF k'(2,1,3,4)] by blast
    then show ?thesis using Cons k' by (intro bexI [of _ "k' # p"]) auto
  qed
qed simp

lemma runs_steps:
  "p \<in> set (runs nxt n k) \<Longrightarrow> prefix ks p \<Longrightarrow> steps (\<lambda>k k'. k' \<in> set (nxt k)) k ks"
proof (induction nxt n k arbitrary: ks p rule: runs.induct)
  case (2 nxt n k)
  show ?case
  proof (cases ks)
    case (Cons k' ks')
    then obtain p' where "k' \<in> set (nxt k)" "nxt k \<noteq> []" "p' \<in> set (runs nxt n k')" "prefix ks' p'"
      using 2(2,3) by (auto split: if_splits)
    then show ?thesis using 2(1) [of k' p' ks'] Cons by simp
  qed simp
qed auto

lemma bounded_paths:
  assumes "\<And>k k'. k' \<in> set (nxt k) \<Longrightarrow> rank k < (rank k' :: nat)" and "\<And>k. rank k \<le> rank start + n"
  shows "{ks. steps (\<lambda>k k'. k' \<in> set (nxt k)) start ks} = {ks. \<exists>p \<in> set (runs nxt n start). prefix ks p}"
proof -
  have "length ks \<le> n" if "steps (\<lambda>k k'. k' \<in> set (nxt k)) start ks" for ks
    using steps_bounded [of "\<lambda>k k'. k' \<in> set (nxt k)" rank start ks] that assms(1) assms(2) [of "last (start # ks)"]
    by simp
  then show ?thesis using steps_runs [of nxt start _ n] runs_steps [of _ nxt n start] by blast
qed

lemma prefix_map: "prefix ks (map f p) \<longleftrightarrow> (\<exists>ys. prefix ys p \<and> ks = map f ys)"
proof
  assume "prefix ks (map f p)"
  then obtain zs where "map f p = ks @ zs" by (rule prefixE)
  then have "ks = map f (take (length ks) p)" by (simp add: take_map [symmetric])
  then show "\<exists>ys. prefix ys p \<and> ks = map f ys" using take_is_prefix by blast
qed (auto simp: map_mono_prefix)

lemma map_prefixes:
  "map f ` {ks. \<exists>p \<in> set ps. prefix ks p} = {ks. \<exists>p \<in> set (map (map f) ps). prefix ks p}"
  by (simp only: set_map bex_simps prefix_map) blast

section \<open>Workflows from messages\<close>

text \<open>
  What a package has to provide, in terms of the messages that a command emits: one after the other, each is
  a message of the package and is parsed, advances the state by a step of the relation, and the invariant holds in
  the end.
\<close>

fun moves ::
  "ulid_unmarshal \<Rightarrow> (WorkflowEvent_Type \<Rightarrow> bool) \<Rightarrow> ('s, 'c, WorkflowPb Event, 'e) Behavior \<Rightarrow>
   ('s \<Rightarrow> ulid \<Rightarrow> WorkflowEvent \<Rightarrow> ('e, 's) outcome) \<Rightarrow> ('s \<Rightarrow> bool) \<Rightarrow> ('s \<Rightarrow> 'k) \<Rightarrow> ('k \<Rightarrow> 'k \<Rightarrow> bool) \<Rightarrow>
   's \<Rightarrow> WorkflowPb list \<Rightarrow> bool" where
  "moves ub ok b adv good phase step s [] = good s"
| "moves ub ok b adv good phase step s (p # ps) =
     (\<exists>ev. ParsePbWorkflowEvent ub p = Ok ev \<and> ok (wp_Event p) \<and> wf_pb_ok p \<and>
        (\<forall>i. \<exists>s'. adv s i ev = Ok s' \<and> step (phase s) (phase s') \<and>
           moves ub ok b adv good phase step (SetVid b i s') ps))"

locale workflow_code =
  fixes ub :: ulid_unmarshal and ok :: "WorkflowEvent_Type \<Rightarrow> bool" and err :: goerr
    and pm :: "WorkflowPb \<Rightarrow> goerr + byte list" and pu :: "byte list \<Rightarrow> goerr + WorkflowPb"
    and b :: "('s, 'c, WorkflowPb Event, 'e) Behavior"
    and adv :: "'s \<Rightarrow> ulid \<Rightarrow> WorkflowEvent \<Rightarrow> ('e, 's) outcome"
    and inv :: "'s \<Rightarrow> bool" and pre :: "'s \<Rightarrow> 'c \<Rightarrow> bool"
    and phase :: "'s \<Rightarrow> 'k" and start :: 'k and step :: "'k \<Rightarrow> 'k \<Rightarrow> bool"
  assumes code_Advance: "Advance b s e = obind (MustParsePbWorkflowEvent ub (ev_pb e)) (adv s (ev_id e))"
    and code_inv_NewState: "inv (NewState b i)"
    and code_inv_SetVid: "inv s \<Longrightarrow> inv (SetVid b v s)"
    and code_StVid_SetVid: "StVid b (SetVid b v s) = v"
    and code_StId_NewState: "StId b (NewState b i) = i"
    and code_StId_SetVid: "StId b (SetVid b v s) = StId b s"
    and code_StId_adv: "adv s v x = Ok s' \<Longrightarrow> StId b s' = StId b s"
    and code_phase_NewState: "phase (NewState b i) = start"
    and code_phase_SetVid: "phase (SetVid b v s) = phase s"
    and code_no_panic: "inv s \<Longrightarrow> pre s c \<Longrightarrow> \<not> is_Panic (Tell b g s c)"
    and code_emits: "wf_emits g (StVid b s) (Tell b g s c)"
    and code_moves: "inv s \<Longrightarrow> pre s c \<Longrightarrow> Tell b g s c = Ok evs \<Longrightarrow>
      \<exists>pbs. wfNewEvents g (StVid b s) pbs = Inr evs \<and> moves ub ok b adv inv phase step s pbs"
begin

lemma Advance_message:
  "ParsePbWorkflowEvent ub p = Ok x \<Longrightarrow> Advance b s \<lparr>ev_id = i, ev_parent = par, ev_pb = wfSetPb i par p\<rparr> = adv s i x"
  by (simp add: code_Advance MustParsePbWorkflowEvent_def)

lemma Tell_advance_walk:
  assumes "inv s" "pre s c" "Tell b g s c = Ok evs"
  shows "\<exists>s'. advanceAll b (wfEventOps ok err pm pu ub) s evs = Ok s' \<and> inv s' \<and>
    walk b (wfEventOps ok err pm pu ub) phase step s evs"
proof -
  obtain pbs where p: "wfNewEvents g (StVid b s) pbs = Inr evs" "moves ub ok b adv inv phase step s pbs"
    using code_moves [OF assms] by blast
  obtain s' where "advanceAll b (wfEventOps ok err pm pu ub) s evs = Ok s'" "moves ub ok b adv inv phase step s' []"
    "walk b (wfEventOps ok err pm pu ub) phase step s evs"
    using walk_newEvents [OF p(1), where P = "\<lambda>ps s. moves ub ok b adv inv phase step s ps" and b = b
        and ops = "wfEventOps ok err pm pu ub" and phase = phase and step = step, OF p(2)]
      Advance_message by (fastforce simp: wfEventOps_simps)
  then show ?thesis by auto
qed

sublocale workflow b "wfEventOps ok err pm pu ub" inv pre phase start step
proof
  show "Advance b s e = Ok s' \<Longrightarrow> StId b s' = StId b s" for s e s'
    by (auto simp: code_Advance outcome_simps dest: code_StId_adv)
  show "inv s \<Longrightarrow> pre s c \<Longrightarrow> Tell b g s c = Ok evs \<Longrightarrow>
      \<exists>s'. advanceAll b (wfEventOps ok err pm pu ub) s evs = Ok s' \<and> inv s'" for s c g evs
    using Tell_advance_walk by blast
  show "inv s \<Longrightarrow> pre s c \<Longrightarrow> Tell b g s c = Ok evs \<Longrightarrow>
      walk b (wfEventOps ok err pm pu ub) phase step s evs" for s c g evs
    using Tell_advance_walk by blast
  show "Tell b g s c = Ok evs \<Longrightarrow> chained (wfEventOps ok err pm pu ub) (StVid b s) evs" for g s c evs
    using code_emits [of g s c] wfNewEvents_chained by (auto simp: wf_emits_def)
qed (simp_all add: code_inv_NewState code_inv_SetVid code_StVid_SetVid code_StId_NewState code_StId_SetVid
    code_phase_NewState code_phase_SetVid code_no_panic)

lemma is_workflow: "workflow b (wfEventOps ok err pm pu ub) inv pre phase start step"
  by unfold_locales

lemma moves_wf: "moves ub ok b adv inv phase step s pbs \<Longrightarrow>
    \<forall>p \<in> set pbs. ok (wp_Event p) \<and> wf_pb_ok p \<and> (\<exists>ev. ParsePbWorkflowEvent ub p = Ok ev)"
  by (induction pbs arbitrary: s) fastforce+

lemma newEvents_wf:
  assumes "wfNewEvents g vid pbs = Inr evs" and "\<forall>n i. g n = Inr i \<longrightarrow> i \<noteq> ulidNil"
    and "\<forall>p \<in> set pbs. ok (wp_Event p) \<and> wf_pb_ok p \<and> (\<exists>ev. ParsePbWorkflowEvent ub p = Ok ev)"
  shows "\<forall>ev \<in> set evs. wf_event_wf ok ub ev \<and> ev_id ev \<noteq> ulidNil"
proof -
  have "newEventsLoop wfSetPb g n vid pbs = Inr evs \<Longrightarrow> \<forall>ev \<in> set evs. wf_event_wf ok ub ev \<and> ev_id ev \<noteq> ulidNil" for n
    using assms(2,3)
  proof (induction pbs arbitrary: n vid evs)
    case (Cons p ps)
    obtain i evs' where i: "g n = Inr i" and rest: "newEventsLoop wfSetPb g (Suc n) i ps = Inr evs'"
      and evs: "evs = \<lparr>ev_id = i, ev_parent = vid, ev_pb = wfSetPb i vid p\<rparr> # evs'"
      using Cons.prems(1) by (auto split: sum.splits)
    have "wf_event_wf ok ub \<lparr>ev_id = i, ev_parent = vid, ev_pb = wfSetPb i vid p\<rparr>"
      using Cons.prems(3) by (auto simp: wf_event_wf_def wfSetPb_def wf_pb_ok_def)
    then show ?case using Cons.IH [OF rest] Cons.prems(2,3) i evs by auto
  qed simp
  then show ?thesis using assms(1) by (simp add: wfNewEvents_def)
qed

lemma Tell_wf:
  assumes "inv s" "pre s c" "Tell b g s c = Ok evs" "\<forall>n i. g n = Inr i \<longrightarrow> i \<noteq> ulidNil"
  shows "\<forall>ev \<in> set evs. wf_event_wf ok ub ev \<and> ev_id ev \<noteq> ulidNil"
  using code_moves [OF assms(1-3)] newEvents_wf [OF _ assms(4)] moves_wf by meson

end

end
