(* ===== verification/Freeze_Workflow.thy ===== *)
theory Freeze_Workflow
  imports Workflow_Base
begin

text \<open>
  The freeze-repo workflow (\<open>backend/internal/workflows/freezerepowf/freeze-repo.go\<close>).
\<close>

section \<open>State and commands\<close>

datatype (plugins only: code) fz_code =
    FzUninitialized | FzInitialized | FzFiles | FzFilesCompleted | FzFilesFailed | FzCompleted | FzFailed
  | FzTerminated

record FreezeState =
  fzs_id :: uuid
  fzs_vid :: ulid
  fzs_scode :: fz_code
  fzs_registryId :: uuid
  fzs_registryName :: string
  fzs_repoId :: uuid
  fzs_globalPath :: string
  fzs_statusCode :: "32 word"
  fzs_statusMessage :: string

datatype (plugins only: code) fz_cmd =
    FzCmdInit RepoCmdInit
  | FzCmdBeginFiles
  | FzCmdCommitFiles
  | FzCmdAbortFiles "32 word" string
  | FzCmdCommit
  | FzCmdAbort "32 word" string
  | FzCmdEnd
  | FzCmdForeign \<comment> \<open>a command of another aggregate\<close>

definition fzNewState :: "uuid \<Rightarrow> FreezeState" where
  "fzNewState i = \<lparr>fzs_id = i, fzs_vid = 0, fzs_scode = FzUninitialized, fzs_registryId = uuidNil,
     fzs_registryName = [], fzs_repoId = uuidNil, fzs_globalPath = [], fzs_statusCode = 0, fzs_statusMessage = []\<rparr>"

section \<open>Advance\<close>

definition fzAdvanceEv :: "FreezeState \<Rightarrow> WorkflowEvent \<Rightarrow> (wf_error, FreezeState) outcome" where
  "fzAdvanceEv st ev =
     (case ev of
        WvFreezeRepoStarted2 x \<Rightarrow>
          Ok (st\<lparr>fzs_scode := FzInitialized, fzs_registryId := rs_RegistryId x,
                 fzs_registryName := rs_RegistryName x, fzs_repoId := rs_RepoId x,
                 fzs_globalPath := rs_RepoGlobalPath x\<rparr>)
      | WvFreezeRepoFilesStarted \<Rightarrow> Ok (st\<lparr>fzs_scode := FzFiles\<rparr>)
      | WvFreezeRepoFilesCompleted code _ \<Rightarrow>
          Ok (st\<lparr>fzs_scode := (if code = 0 then FzFilesCompleted else FzFilesFailed)\<rparr>)
      | WvFreezeRepoCompleted2 x \<Rightarrow>
          Ok (st\<lparr>fzs_statusCode := wc_StatusCode x, fzs_statusMessage := wc_StatusMessage x,
                 fzs_scode := (if wc_StatusCode x = 0 then FzCompleted else FzFailed)\<rparr>)
      | WvFreezeRepoCommitted \<Rightarrow> Ok (st\<lparr>fzs_scode := FzTerminated\<rparr>)
      | _ \<Rightarrow> Panic ''invalid event'')"

definition fzAdvance ::
  "ulid_unmarshal \<Rightarrow> FreezeState \<Rightarrow> WorkflowPb Event \<Rightarrow> (wf_error, FreezeState) outcome" where
  "fzAdvance ub st ev = obind (MustParsePbWorkflowEvent ub (ev_pb ev)) (fzAdvanceEv st)"

section \<open>Tell\<close>

definition fzIsIdempotent :: "RepoCmdInit \<Rightarrow> FreezeState \<Rightarrow> bool" where
  "fzIsIdempotent cmd st \<longleftrightarrow>
     ci_RegistryId cmd = fzs_registryId st \<and> ci_RegistryName cmd = fzs_registryName st \<and>
     ci_RepoId cmd = fzs_repoId st \<and> ci_RepoGlobalPath cmd = fzs_globalPath st"

definition fzTellInit ::
  "ulid_source \<Rightarrow> FreezeState \<Rightarrow> RepoCmdInit \<Rightarrow> (wf_error, WorkflowPb Event list) outcome" where
  "fzTellInit g st cmd =
     (case fzs_scode st of
        FzUninitialized \<Rightarrow>
          obind (wfNewPbFreezeRepoStarted2Workflow (initStarted cmd)) (\<lambda>p. wfEmit g (fzs_vid st) [p])
      | FzInitialized \<Rightarrow> if \<not> fzIsIdempotent cmd st then Err WfNotIdempotentError else Ok []
      | _ \<Rightarrow> Err WfStateConflictError)"

definition fzTellBeginFiles :: "ulid_source \<Rightarrow> FreezeState \<Rightarrow> (wf_error, WorkflowPb Event list) outcome" where
  "fzTellBeginFiles g st =
     (case fzs_scode st of
        FzInitialized \<Rightarrow> wfEmit g (fzs_vid st) [wfNewPbFreezeRepoFilesStarted]
      | FzFiles \<Rightarrow> Ok []
      | _ \<Rightarrow> Err WfStateConflictError)"

definition fzTellCommitFiles :: "ulid_source \<Rightarrow> FreezeState \<Rightarrow> (wf_error, WorkflowPb Event list) outcome" where
  "fzTellCommitFiles g st =
     (case fzs_scode st of
        FzFiles \<Rightarrow> wfEmit g (fzs_vid st) [wfNewPbFreezeRepoFilesCompletedOk]
      | FzFilesCompleted \<Rightarrow> Ok []
      | _ \<Rightarrow> Err WfStateConflictError)"

definition fzTellAbortFiles ::
  "ulid_source \<Rightarrow> FreezeState \<Rightarrow> 32 word \<Rightarrow> string \<Rightarrow> (wf_error, WorkflowPb Event list) outcome" where
  "fzTellAbortFiles g st code msg =
     (case fzs_scode st of
        FzFiles \<Rightarrow> wfEmit g (fzs_vid st) [wfNewPbFreezeRepoFilesCompletedError code msg]
      | FzFilesFailed \<Rightarrow> Ok []
      | _ \<Rightarrow> Err WfStateConflictError)"

definition fzTellCommit :: "ulid_source \<Rightarrow> FreezeState \<Rightarrow> (wf_error, WorkflowPb Event list) outcome" where
  "fzTellCommit g st =
     (case fzs_scode st of
        FzFilesCompleted \<Rightarrow> wfEmit g (fzs_vid st) [wfNewPbFreezeRepoCompleted2Ok]
      | FzCompleted \<Rightarrow> Ok []
      | _ \<Rightarrow> Err WfStateConflictError)"

definition fzTellAbort ::
  "ulid_source \<Rightarrow> FreezeState \<Rightarrow> 32 word \<Rightarrow> string \<Rightarrow> (wf_error, WorkflowPb Event list) outcome" where
  "fzTellAbort g st code msg =
     (if fzs_scode st \<in> {FzInitialized, FzFilesFailed, FzFilesCompleted}
      then wfEmit g (fzs_vid st) [wfNewPbFreezeRepoCompleted2Error code msg]
      else if fzs_scode st = FzFailed then Ok []
      else if fzs_scode st = FzTerminated then Err WfAlreadyTerminatedError
      else Err WfStateConflictError)"

definition fzTellEnd :: "ulid_source \<Rightarrow> FreezeState \<Rightarrow> (wf_error, WorkflowPb Event list) outcome" where
  "fzTellEnd g st =
     (if fzs_scode st \<in> {FzCompleted, FzFailed} then wfEmit g (fzs_vid st) [wfNewPbFreezeRepoCommitted]
      else if fzs_scode st = FzTerminated then Ok []
      else Err WfStateConflictError)"

fun fzTell :: "ulid_source \<Rightarrow> FreezeState \<Rightarrow> fz_cmd \<Rightarrow> (wf_error, WorkflowPb Event list) outcome" where
  "fzTell g st (FzCmdInit cmd) = fzTellInit g st cmd"
| "fzTell g st FzCmdBeginFiles = fzTellBeginFiles g st"
| "fzTell g st FzCmdCommitFiles = fzTellCommitFiles g st"
| "fzTell g st (FzCmdAbortFiles code msg) = fzTellAbortFiles g st code msg"
| "fzTell g st FzCmdCommit = fzTellCommit g st"
| "fzTell g st (FzCmdAbort code msg) = fzTellAbort g st code msg"
| "fzTell g st FzCmdEnd = fzTellEnd g st"
| "fzTell g st FzCmdForeign = Err WfInvalidCommandError"

lemmas fzTell_defs =
  fzTellInit_def fzTellBeginFiles_def fzTellCommitFiles_def fzTellAbortFiles_def fzTellCommit_def
  fzTellAbort_def fzTellEnd_def

definition fzBehavior :: "ulid_unmarshal \<Rightarrow> (FreezeState, fz_cmd, WorkflowPb Event, wf_error) Behavior" where
  "fzBehavior ub = \<lparr>NewState = fzNewState, StId = fzs_id, StVid = fzs_vid,
     SetVid = (\<lambda>v st. st\<lparr>fzs_vid := v\<rparr>), Advance = fzAdvance ub, Tell = fzTell\<rparr>"

definition fzEventType :: "WorkflowEvent_Type \<Rightarrow> bool" where
  "fzEventType t \<longleftrightarrow> t \<in> {WT_FSO_FREEZE_REPO_STARTED_2, WT_FSO_FREEZE_REPO_FILES_STARTED,
     WT_FSO_FREEZE_REPO_FILES_COMPLETED, WT_FSO_FREEZE_REPO_COMPLETED_2, WT_FSO_FREEZE_REPO_COMMITTED,
     WT_FSO_FREEZE_REPO_DELETED}"

abbreviation fzOps where
  "fzOps pm pu ub \<equiv> wfEventOps fzEventType (GoErr ''invalid event type'') pm pu ub"

section \<open>The state machine\<close>

text \<open>The callers' obligation: the fields of the init command are set, and an abort has an error code.\<close>

definition fz_pre :: "FreezeState \<Rightarrow> fz_cmd \<Rightarrow> bool" where
  "fz_pre st c \<longleftrightarrow> (case c of
     FzCmdInit cmd \<Rightarrow> init_ok cmd
   | FzCmdAbortFiles code _ \<Rightarrow> code \<noteq> 0
   | FzCmdAbort code _ \<Rightarrow> code \<noteq> 0
   | _ \<Rightarrow> True)"

definition fzNext :: "fz_code \<Rightarrow> fz_code list" where
  "fzNext k = (case k of
     FzUninitialized \<Rightarrow> [FzInitialized]
   | FzInitialized \<Rightarrow> [FzFiles, FzFailed]
   | FzFiles \<Rightarrow> [FzFilesCompleted, FzFilesFailed]
   | FzFilesCompleted \<Rightarrow> [FzCompleted, FzFailed]
   | FzFilesFailed \<Rightarrow> [FzFailed]
   | FzCompleted \<Rightarrow> [FzTerminated]
   | FzFailed \<Rightarrow> [FzTerminated]
   | FzTerminated \<Rightarrow> [])"

abbreviation fz_step :: "fz_code \<Rightarrow> fz_code \<Rightarrow> bool" where
  "fz_step \<equiv> \<lambda>k k'. k' \<in> set (fzNext k)"

definition fz_rank :: "fz_code \<Rightarrow> nat" where
  "fz_rank k = (case k of FzUninitialized \<Rightarrow> 0 | FzInitialized \<Rightarrow> 1 | FzFiles \<Rightarrow> 2 | FzFilesCompleted \<Rightarrow> 3
     | FzFilesFailed \<Rightarrow> 3 | FzCompleted \<Rightarrow> 4 | FzFailed \<Rightarrow> 4 | FzTerminated \<Rightarrow> 5)"

definition fz_inv :: "FreezeState \<Rightarrow> bool" where
  "fz_inv st \<longleftrightarrow>
     (fzs_scode st \<noteq> FzUninitialized \<longrightarrow>
        fzs_registryId st \<noteq> 0 \<and> fzs_registryName st \<noteq> [] \<and> fzs_repoId st \<noteq> 0 \<and> fzs_globalPath st \<noteq> []) \<and>
     (fzs_scode st = FzCompleted \<longrightarrow> fzs_statusCode st = 0) \<and>
     (fzs_scode st = FzFailed \<longrightarrow> fzs_statusCode st \<noteq> 0)"

lemma fzBehavior_simps [simp]:
  "NewState (fzBehavior ub) = fzNewState" "StId (fzBehavior ub) = fzs_id" "StVid (fzBehavior ub) = fzs_vid"
  "SetVid (fzBehavior ub) v st = st\<lparr>fzs_vid := v\<rparr>" "Advance (fzBehavior ub) = fzAdvance ub"
  "Tell (fzBehavior ub) = fzTell"
  by (simp_all add: fzBehavior_def)

lemma fzNewState_scode [simp]: "fzs_scode (fzNewState i) = FzUninitialized" "fzs_id (fzNewState i) = i"
  by (simp_all add: fzNewState_def)

lemma fz_inv_vid [simp]: "fz_inv (st\<lparr>fzs_vid := v\<rparr>) = fz_inv st"
  by (simp add: fz_inv_def)

text \<open>Every command emits at most one message, by which the state takes one step.\<close>

abbreviation fz_moves where
  "fz_moves ub \<equiv> moves ub fzEventType (fzBehavior ub) (\<lambda>st _. fzAdvanceEv st) fz_inv fzs_scode fz_step"

lemmas fz_simps = fzEventType_def fzTell_defs fzAdvanceEv_def fz_inv_def fz_pre_def fzNext_def

lemma fzTellInit_moves:
  assumes "ulid_binary ub" "fz_inv st" "init_ok cmd" "fzTellInit g st cmd = Ok evs"
  shows "\<exists>pbs. wfNewEvents g (fzs_vid st) pbs = Inr evs \<and> fz_moves ub st pbs"
proof (cases "fzs_scode st = FzUninitialized")
  case True
  then obtain p where p: "(wfNewPbFreezeRepoStarted2Workflow (initStarted cmd) :: (wf_error, WorkflowPb) outcome) = Ok p"
    "wfNewEvents g (fzs_vid st) [p] = Inr evs"
    using assms(4) by (auto simp: fzTellInit_def outcome_simps)
  show ?thesis
    using True p assms(3) parse_FreezeRepoStarted2Workflow [OF assms(1) p(1)]
    by (intro exI [of _ "[p]"]) (simp add: fz_simps init_ok_def)
qed (use assms(2,4) in \<open>auto simp: fzTellInit_def split: fz_code.splits if_splits intro: exI [of _ "[]"]\<close>)

lemma fzTell_moves:
  assumes "ulid_binary ub" "fz_inv st" "fz_pre st c" "fzTell g st c = Ok evs"
  shows "\<exists>pbs. wfNewEvents g (fzs_vid st) pbs = Inr evs \<and> fz_moves ub st pbs"
proof (cases "evs = []")
  case True
  then show ?thesis using assms(2) by (intro exI [of _ "[]"]) simp
next
  case False
  show ?thesis
  proof (cases c)
    case (FzCmdInit cmd)
    then show ?thesis using fzTellInit_moves [OF assms(1,2)] assms(3,4) by (simp add: fz_pre_def)
  qed ((use assms(2-4) False in \<open>auto simp: fz_simps outcome_simps wfCompleted_def split: fz_code.splits if_splits
        intro!: exI [of _ "[_]"]\<close>)[1])+
qed

lemma fz_workflow_code:
  assumes "ulid_binary ub"
  shows "workflow_code ub fzEventType (fzBehavior ub) (\<lambda>st _. fzAdvanceEv st) fz_inv fz_pre fzs_scode FzUninitialized fz_step"
proof
  show "\<not> is_Panic (Tell (fzBehavior ub) g st c)" if "fz_inv st" "fz_pre st c" for g st c
    using that(2) by (cases c) (auto simp: fz_simps outcome_simps wfNewPbFreezeRepoStarted2Workflow_def
      validateWorkflowFreezeRepoStarted2_def firstError_None init_ok_def split: fz_code.splits)
  show "wf_emits g (StVid (fzBehavior ub) st) (Tell (fzBehavior ub) g st c)" for g st c
    by (cases c) (auto simp: fzTell_defs wfNewPbFreezeRepoStarted2Workflow_def split: fz_code.splits)
  show "\<exists>pbs. wfNewEvents g (StVid (fzBehavior ub) st) pbs = Inr evs \<and> fz_moves ub st pbs"
    if "fz_inv st" "fz_pre st c" "Tell (fzBehavior ub) g st c = Ok evs" for g st c evs
    using fzTell_moves [OF assms] that by simp
  show "StId (fzBehavior ub) s' = StId (fzBehavior ub) s" if "fzAdvanceEv s x = Ok s'" for s x s'
    using that by (cases x) (auto simp: fzAdvanceEv_def split: WfFreezeEvent.splits)
qed (simp_all add: fzAdvance_def fz_inv_def)

text \<open>Every step of the machine can be taken.\<close>

definition fzTake :: "fz_code \<Rightarrow> fz_code \<Rightarrow> fz_cmd" where
  "fzTake k k' = (case k' of
     FzInitialized \<Rightarrow> FzCmdInit demo_init
   | FzFiles \<Rightarrow> FzCmdBeginFiles
   | FzFilesCompleted \<Rightarrow> FzCmdCommitFiles
   | FzFilesFailed \<Rightarrow> FzCmdAbortFiles 1 []
   | FzCompleted \<Rightarrow> FzCmdCommit
   | FzFailed \<Rightarrow> FzCmdAbort 1 []
   | _ \<Rightarrow> FzCmdEnd)"

lemma fz_complete:
  assumes "ulid_binary ub" "fz_step (fzs_scode st) k"
  shows "\<exists>c g ev s'. fz_pre st c \<and> Tell (fzBehavior ub) g st c = Ok [ev] \<and>
    Advance (fzBehavior ub) st ev = Ok s' \<and> fzs_scode s' = k"
proof -
  obtain p where p: "(wfNewPbFreezeRepoStarted2Workflow (initStarted demo_init) :: (wf_error, WorkflowPb) outcome) = Ok p"
    by (simp add: wfNewPbFreezeRepoStarted2Workflow_def validateWorkflowFreezeRepoStarted2_def orPanic_def
        firstError.simps demo_init_def)
  show ?thesis
    using assms(2) p parse_FreezeRepoStarted2Workflow [OF assms(1) p]
    by (intro exI [of _ "fzTake (fzs_scode st) k"] exI [of _ "\<lambda>_. Inr 1"])
      (cases "fzs_scode st"; auto simp: fz_simps fzTake_def wfEmit_def wfNewEvents_def fzAdvance_def
        MustParsePbWorkflowEvent_def wfCompleted_def)
qed

lemma fz_workflow_exact:
  assumes "ulid_binary ub"
  shows "workflow_exact (fzBehavior ub) (fzOps pm pu ub) fz_inv fz_pre fzs_scode FzUninitialized fz_step"
  by (intro workflow_exact.intro workflow_exact_axioms.intro fz_complete [OF assms]
      workflow_code.is_workflow [OF fz_workflow_code [OF assms]])

lemma fz_workflow_bounded:
  assumes "ulid_binary ub"
  shows "workflow_bounded (fzBehavior ub) (fzOps pm pu ub) fz_inv fz_pre fzs_scode FzUninitialized fz_step fz_rank"
  by (intro workflow_bounded.intro workflow_bounded_axioms.intro workflow_code.is_workflow [OF fz_workflow_code [OF assms]])
    (auto simp: fzNext_def fz_rank_def split: fz_code.splits)

interpretation fz: workflow_code ulidUnmarshal fzEventType "GoErr ''invalid event type''" pm pu "fzBehavior ulidUnmarshal"
  "\<lambda>st _. fzAdvanceEv st" fz_inv fz_pre fzs_scode FzUninitialized fz_step for pm pu
  by (rule fz_workflow_code) simp

interpretation fz_exact: workflow_exact "fzBehavior ulidUnmarshal" "fzOps pm pu ulidUnmarshal" fz_inv fz_pre
  fzs_scode FzUninitialized fz_step for pm pu
  by (rule fz_workflow_exact) simp

interpretation fz_bounded: workflow_bounded "fzBehavior ulidUnmarshal" "fzOps pm pu ulidUnmarshal" fz_inv fz_pre
  fzs_scode FzUninitialized fz_step fz_rank for pm pu
  by (rule fz_workflow_bounded) simp

section \<open>Properties\<close>

text \<open>The codes that a workflow passes, and the paths that it can take.\<close>

abbreviation fz_live where
  "fz_live pm pu ub \<equiv> live (fzBehavior ub) (fzOps pm pu ub) fz_pre"

abbreviation fz_codes where
  "fz_codes pm pu ub i \<equiv> trace (fzBehavior ub) (fzOps pm pu ub) fzs_scode ((fzNewState i)\<lparr>fzs_vid := EventEpoch\<rparr>)"

definition fzPaths :: "fz_code list list" where
  "fzPaths =
     [[FzInitialized, FzFiles, FzFilesCompleted, FzCompleted, FzTerminated],
      [FzInitialized, FzFiles, FzFilesCompleted, FzFailed, FzTerminated],
      [FzInitialized, FzFiles, FzFilesFailed, FzFailed, FzTerminated],
      [FzInitialized, FzFailed, FzTerminated]]"

text \<open>
  C30: a freeze workflow takes exactly four paths: the codes that the histories of live workflows pass are the
  prefixes of these paths.  In particular it completes only after the files have been frozen, it ends after at most
  five events, and it does not continue after the end.
\<close>

theorem freeze_paths:
  assumes "ulid_binary ub"
  shows "{fz_codes pm pu ub i hist | st hist. fz_live pm pu ub i st hist} = {ks. \<exists>p \<in> set fzPaths. prefix ks p}"
proof -
  have "runs fzNext 5 FzUninitialized = fzPaths"
    by (simp add: fzPaths_def fzNext_def eval_nat_numeral)
  moreover have "{ks. steps fz_step FzUninitialized ks} = {ks. \<exists>p \<in> set (runs fzNext 5 FzUninitialized). prefix ks p}"
    by (rule bounded_paths [where rank = fz_rank]) (auto simp: fzNext_def fz_rank_def split: fz_code.splits)
  ultimately show ?thesis
    using workflow_exact.live_traces [OF fz_workflow_exact [OF assms], of pm pu i] by simp
qed

theorem freeze_paths_witness:
  "{fz_codes (\<lambda>_. Inr []) (\<lambda>_. Inl (GoErr [])) ulidUnmarshal 7 hist | st hist.
      fz_live (\<lambda>_. Inr []) (\<lambda>_. Inl (GoErr [])) ulidUnmarshal 7 st hist} = {ks. \<exists>p \<in> set fzPaths. prefix ks p} \<and>
   prefix [FzInitialized, FzFiles] [FzInitialized, FzFiles, FzFilesCompleted, FzCompleted, FzTerminated]"
  using freeze_paths [OF ulidUnmarshal_ok] by simp

text \<open>
  Nothing checks the status code of an abort.  With the code 0, the default value of the request's field, an abort
  after failed files completes the workflow as if the repo had been frozen.
\<close>

lemma freeze_abort_zero_completes:
  assumes "fzs_scode st = FzFilesFailed"
  shows "\<exists>ev st'. fzTell (\<lambda>_. Inr 1) st (FzCmdAbort 0 msg) = Ok [ev] \<and> fzAdvance ub st ev = Ok st' \<and>
    fzs_scode st' = FzCompleted"
  using assms by (simp add: fz_simps wfEmit_def wfNewEvents_def fzAdvance_def MustParsePbWorkflowEvent_def wfCompleted_def)

text \<open>An init command with an empty field is a panic.\<close>

lemma freeze_init_empty_panics:
  assumes "fzs_scode st = FzUninitialized" and "ci_AuthorName cmd = []"
  shows "is_Panic (fzTell g st (FzCmdInit cmd))"
  using assms by (simp add: fzTellInit_def wfNewPbFreezeRepoStarted2Workflow_def outcome_simps
      validateWorkflowFreezeRepoStarted2_def firstError_None)

end
