(* ===== verification/Unfreeze_Workflow.thy ===== *)
theory Unfreeze_Workflow
  imports Workflow_Base
begin

text \<open>
  The unfreeze-repo workflow (\<open>backend/internal/workflows/unfreezerepowf/freeze-repo.go\<close>).
\<close>

section \<open>State and commands\<close>

datatype (plugins only: code) uf_code =
    UfUninitialized | UfInitialized | UfFiles | UfFilesCompleted | UfFilesFailed | UfCompleted | UfFailed
  | UfTerminated

record UnfreezeState =
  ufs_id :: uuid
  ufs_vid :: ulid
  ufs_scode :: uf_code
  ufs_registryId :: uuid
  ufs_registryName :: string
  ufs_repoId :: uuid
  ufs_globalPath :: string
  ufs_statusCode :: "32 word"
  ufs_statusMessage :: string

datatype (plugins only: code) uf_cmd =
    UfCmdInit RepoCmdInit
  | UfCmdBeginFiles
  | UfCmdCommitFiles
  | UfCmdAbortFiles "32 word" string
  | UfCmdCommit
  | UfCmdAbort "32 word" string
  | UfCmdEnd
  | UfCmdForeign \<comment> \<open>a command of another aggregate\<close>

definition ufNewState :: "uuid \<Rightarrow> UnfreezeState" where
  "ufNewState i = \<lparr>ufs_id = i, ufs_vid = 0, ufs_scode = UfUninitialized, ufs_registryId = uuidNil,
     ufs_registryName = [], ufs_repoId = uuidNil, ufs_globalPath = [], ufs_statusCode = 0, ufs_statusMessage = []\<rparr>"

section \<open>Advance\<close>

definition ufAdvanceEv :: "UnfreezeState \<Rightarrow> WorkflowEvent \<Rightarrow> (wf_error, UnfreezeState) outcome" where
  "ufAdvanceEv st ev =
     (case ev of
        WvUnfreezeRepoStarted2 x \<Rightarrow>
          Ok (st\<lparr>ufs_scode := UfInitialized, ufs_registryId := rs_RegistryId x,
                 ufs_registryName := rs_RegistryName x, ufs_repoId := rs_RepoId x,
                 ufs_globalPath := rs_RepoGlobalPath x\<rparr>)
      | WvUnfreezeRepoFilesStarted \<Rightarrow> Ok (st\<lparr>ufs_scode := UfFiles\<rparr>)
      | WvUnfreezeRepoFilesCompleted code _ \<Rightarrow>
          Ok (st\<lparr>ufs_scode := (if code = 0 then UfFilesCompleted else UfFilesFailed)\<rparr>)
      | WvUnfreezeRepoCompleted2 x \<Rightarrow>
          Ok (st\<lparr>ufs_statusCode := wc_StatusCode x, ufs_statusMessage := wc_StatusMessage x,
                 ufs_scode := (if wc_StatusCode x = 0 then UfCompleted else UfFailed)\<rparr>)
      | WvUnfreezeRepoCommitted \<Rightarrow> Ok (st\<lparr>ufs_scode := UfTerminated\<rparr>)
      | _ \<Rightarrow> Panic ''invalid event'')"

definition ufAdvance ::
  "ulid_unmarshal \<Rightarrow> UnfreezeState \<Rightarrow> WorkflowPb Event \<Rightarrow> (wf_error, UnfreezeState) outcome" where
  "ufAdvance ub st ev = obind (MustParsePbWorkflowEvent ub (ev_pb ev)) (ufAdvanceEv st)"

section \<open>Tell\<close>

definition ufIsIdempotent :: "RepoCmdInit \<Rightarrow> UnfreezeState \<Rightarrow> bool" where
  "ufIsIdempotent cmd st \<longleftrightarrow>
     ci_RegistryId cmd = ufs_registryId st \<and> ci_RegistryName cmd = ufs_registryName st \<and>
     ci_RepoId cmd = ufs_repoId st \<and> ci_RepoGlobalPath cmd = ufs_globalPath st"

definition ufTellInit ::
  "ulid_source \<Rightarrow> UnfreezeState \<Rightarrow> RepoCmdInit \<Rightarrow> (wf_error, WorkflowPb Event list) outcome" where
  "ufTellInit g st cmd =
     (case ufs_scode st of
        UfUninitialized \<Rightarrow>
          obind (wfNewPbUnfreezeRepoStarted2Workflow (initStarted cmd)) (\<lambda>p. wfEmit g (ufs_vid st) [p])
      | UfInitialized \<Rightarrow> if \<not> ufIsIdempotent cmd st then Err WfNotIdempotentError else Ok []
      | _ \<Rightarrow> Err WfStateConflictError)"

definition ufTellBeginFiles :: "ulid_source \<Rightarrow> UnfreezeState \<Rightarrow> (wf_error, WorkflowPb Event list) outcome" where
  "ufTellBeginFiles g st =
     (case ufs_scode st of
        UfInitialized \<Rightarrow> wfEmit g (ufs_vid st) [wfNewPbUnfreezeRepoFilesStarted]
      | UfFiles \<Rightarrow> Ok []
      | _ \<Rightarrow> Err WfStateConflictError)"

definition ufTellCommitFiles :: "ulid_source \<Rightarrow> UnfreezeState \<Rightarrow> (wf_error, WorkflowPb Event list) outcome" where
  "ufTellCommitFiles g st =
     (case ufs_scode st of
        UfFiles \<Rightarrow> wfEmit g (ufs_vid st) [wfNewPbUnfreezeRepoFilesCompletedOk]
      | UfFilesCompleted \<Rightarrow> Ok []
      | _ \<Rightarrow> Err WfStateConflictError)"

definition ufTellAbortFiles ::
  "ulid_source \<Rightarrow> UnfreezeState \<Rightarrow> 32 word \<Rightarrow> string \<Rightarrow> (wf_error, WorkflowPb Event list) outcome" where
  "ufTellAbortFiles g st code msg =
     (case ufs_scode st of
        UfFiles \<Rightarrow> wfEmit g (ufs_vid st) [wfNewPbUnfreezeRepoFilesCompletedError code msg]
      | UfFilesFailed \<Rightarrow> Ok []
      | _ \<Rightarrow> Err WfStateConflictError)"

definition ufTellCommit :: "ulid_source \<Rightarrow> UnfreezeState \<Rightarrow> (wf_error, WorkflowPb Event list) outcome" where
  "ufTellCommit g st =
     (case ufs_scode st of
        UfFilesCompleted \<Rightarrow> wfEmit g (ufs_vid st) [wfNewPbUnfreezeRepoCompleted2Ok]
      | UfCompleted \<Rightarrow> Ok []
      | _ \<Rightarrow> Err WfStateConflictError)"

definition ufTellAbort ::
  "ulid_source \<Rightarrow> UnfreezeState \<Rightarrow> 32 word \<Rightarrow> string \<Rightarrow> (wf_error, WorkflowPb Event list) outcome" where
  "ufTellAbort g st code msg =
     (if ufs_scode st \<in> {UfInitialized, UfFilesFailed, UfFilesCompleted}
      then wfEmit g (ufs_vid st) [wfNewPbUnfreezeRepoCompleted2Error code msg]
      else if ufs_scode st = UfFailed then Ok []
      else if ufs_scode st = UfTerminated then Err WfAlreadyTerminatedError
      else Err WfStateConflictError)"

definition ufTellEnd :: "ulid_source \<Rightarrow> UnfreezeState \<Rightarrow> (wf_error, WorkflowPb Event list) outcome" where
  "ufTellEnd g st =
     (if ufs_scode st \<in> {UfCompleted, UfFailed} then wfEmit g (ufs_vid st) [wfNewPbUnfreezeRepoCommitted]
      else if ufs_scode st = UfTerminated then Ok []
      else Err WfStateConflictError)"

fun ufTell :: "ulid_source \<Rightarrow> UnfreezeState \<Rightarrow> uf_cmd \<Rightarrow> (wf_error, WorkflowPb Event list) outcome" where
  "ufTell g st (UfCmdInit cmd) = ufTellInit g st cmd"
| "ufTell g st UfCmdBeginFiles = ufTellBeginFiles g st"
| "ufTell g st UfCmdCommitFiles = ufTellCommitFiles g st"
| "ufTell g st (UfCmdAbortFiles code msg) = ufTellAbortFiles g st code msg"
| "ufTell g st UfCmdCommit = ufTellCommit g st"
| "ufTell g st (UfCmdAbort code msg) = ufTellAbort g st code msg"
| "ufTell g st UfCmdEnd = ufTellEnd g st"
| "ufTell g st UfCmdForeign = Err WfInvalidCommandError"

lemmas ufTell_defs =
  ufTellInit_def ufTellBeginFiles_def ufTellCommitFiles_def ufTellAbortFiles_def ufTellCommit_def
  ufTellAbort_def ufTellEnd_def

definition ufBehavior :: "ulid_unmarshal \<Rightarrow> (UnfreezeState, uf_cmd, WorkflowPb Event, wf_error) Behavior" where
  "ufBehavior ub = \<lparr>NewState = ufNewState, StId = ufs_id, StVid = ufs_vid,
     SetVid = (\<lambda>v st. st\<lparr>ufs_vid := v\<rparr>), Advance = ufAdvance ub, Tell = ufTell\<rparr>"

definition ufEventType :: "WorkflowEvent_Type \<Rightarrow> bool" where
  "ufEventType t \<longleftrightarrow> t \<in> {WT_FSO_UNFREEZE_REPO_STARTED_2, WT_FSO_UNFREEZE_REPO_FILES_STARTED,
     WT_FSO_UNFREEZE_REPO_FILES_COMPLETED, WT_FSO_UNFREEZE_REPO_COMPLETED_2, WT_FSO_UNFREEZE_REPO_COMMITTED,
     WT_FSO_UNFREEZE_REPO_DELETED}"

abbreviation ufOps where
  "ufOps pm pu ub \<equiv> wfEventOps ufEventType (GoErr ''invalid event type'') pm pu ub"

section \<open>The state machine\<close>

text \<open>The callers' obligation: the fields of the init command are set, and an abort has an error code.\<close>

definition uf_pre :: "UnfreezeState \<Rightarrow> uf_cmd \<Rightarrow> bool" where
  "uf_pre st c \<longleftrightarrow> (case c of
     UfCmdInit cmd \<Rightarrow> init_ok cmd
   | UfCmdAbortFiles code _ \<Rightarrow> code \<noteq> 0
   | UfCmdAbort code _ \<Rightarrow> code \<noteq> 0
   | _ \<Rightarrow> True)"

definition ufNext :: "uf_code \<Rightarrow> uf_code list" where
  "ufNext k = (case k of
     UfUninitialized \<Rightarrow> [UfInitialized]
   | UfInitialized \<Rightarrow> [UfFiles, UfFailed]
   | UfFiles \<Rightarrow> [UfFilesCompleted, UfFilesFailed]
   | UfFilesCompleted \<Rightarrow> [UfCompleted, UfFailed]
   | UfFilesFailed \<Rightarrow> [UfFailed]
   | UfCompleted \<Rightarrow> [UfTerminated]
   | UfFailed \<Rightarrow> [UfTerminated]
   | UfTerminated \<Rightarrow> [])"

abbreviation uf_step :: "uf_code \<Rightarrow> uf_code \<Rightarrow> bool" where
  "uf_step \<equiv> \<lambda>k k'. k' \<in> set (ufNext k)"

definition uf_rank :: "uf_code \<Rightarrow> nat" where
  "uf_rank k = (case k of UfUninitialized \<Rightarrow> 0 | UfInitialized \<Rightarrow> 1 | UfFiles \<Rightarrow> 2 | UfFilesCompleted \<Rightarrow> 3
     | UfFilesFailed \<Rightarrow> 3 | UfCompleted \<Rightarrow> 4 | UfFailed \<Rightarrow> 4 | UfTerminated \<Rightarrow> 5)"

definition uf_inv :: "UnfreezeState \<Rightarrow> bool" where
  "uf_inv st \<longleftrightarrow>
     (ufs_scode st \<noteq> UfUninitialized \<longrightarrow>
        ufs_registryId st \<noteq> 0 \<and> ufs_registryName st \<noteq> [] \<and> ufs_repoId st \<noteq> 0 \<and> ufs_globalPath st \<noteq> []) \<and>
     (ufs_scode st = UfCompleted \<longrightarrow> ufs_statusCode st = 0) \<and>
     (ufs_scode st = UfFailed \<longrightarrow> ufs_statusCode st \<noteq> 0)"

lemma ufBehavior_simps [simp]:
  "NewState (ufBehavior ub) = ufNewState" "StId (ufBehavior ub) = ufs_id" "StVid (ufBehavior ub) = ufs_vid"
  "SetVid (ufBehavior ub) v st = st\<lparr>ufs_vid := v\<rparr>" "Advance (ufBehavior ub) = ufAdvance ub"
  "Tell (ufBehavior ub) = ufTell"
  by (simp_all add: ufBehavior_def)

lemma ufNewState_scode [simp]: "ufs_scode (ufNewState i) = UfUninitialized" "ufs_id (ufNewState i) = i"
  by (simp_all add: ufNewState_def)

lemma uf_inv_vid [simp]: "uf_inv (st\<lparr>ufs_vid := v\<rparr>) = uf_inv st"
  by (simp add: uf_inv_def)

text \<open>Every command emits at most one message, by which the state takes one step.\<close>

abbreviation uf_moves where
  "uf_moves ub \<equiv> moves ub ufEventType (ufBehavior ub) (\<lambda>st _. ufAdvanceEv st) uf_inv ufs_scode uf_step"

lemmas uf_simps = ufEventType_def ufTell_defs ufAdvanceEv_def uf_inv_def uf_pre_def ufNext_def

lemma ufTellInit_moves:
  assumes "ulid_binary ub" "uf_inv st" "init_ok cmd" "ufTellInit g st cmd = Ok evs"
  shows "\<exists>pbs. wfNewEvents g (ufs_vid st) pbs = Inr evs \<and> uf_moves ub st pbs"
proof (cases "ufs_scode st = UfUninitialized")
  case True
  then obtain p where p: "(wfNewPbUnfreezeRepoStarted2Workflow (initStarted cmd) :: (wf_error, WorkflowPb) outcome) = Ok p"
    "wfNewEvents g (ufs_vid st) [p] = Inr evs"
    using assms(4) by (auto simp: ufTellInit_def outcome_simps)
  show ?thesis
    using True p assms(3) parse_UnfreezeRepoStarted2Workflow [OF assms(1) p(1)]
    by (intro exI [of _ "[p]"]) (simp add: uf_simps init_ok_def)
qed (use assms(2,4) in \<open>auto simp: ufTellInit_def split: uf_code.splits if_splits intro: exI [of _ "[]"]\<close>)

lemma ufTell_moves:
  assumes "ulid_binary ub" "uf_inv st" "uf_pre st c" "ufTell g st c = Ok evs"
  shows "\<exists>pbs. wfNewEvents g (ufs_vid st) pbs = Inr evs \<and> uf_moves ub st pbs"
proof (cases "evs = []")
  case True
  then show ?thesis using assms(2) by (intro exI [of _ "[]"]) simp
next
  case False
  show ?thesis
  proof (cases c)
    case (UfCmdInit cmd)
    then show ?thesis using ufTellInit_moves [OF assms(1,2)] assms(3,4) by (simp add: uf_pre_def)
  qed ((use assms(2-4) False in \<open>auto simp: uf_simps outcome_simps wfCompleted_def split: uf_code.splits if_splits
        intro!: exI [of _ "[_]"]\<close>)[1])+
qed

lemma uf_workflow_code:
  assumes "ulid_binary ub"
  shows "workflow_code ub ufEventType (ufBehavior ub) (\<lambda>st _. ufAdvanceEv st) uf_inv uf_pre ufs_scode UfUninitialized uf_step"
proof
  show "\<not> is_Panic (Tell (ufBehavior ub) g st c)" if "uf_inv st" "uf_pre st c" for g st c
    using that(2) by (cases c) (auto simp: uf_simps outcome_simps wfNewPbUnfreezeRepoStarted2Workflow_def
      validateWorkflowUnfreezeRepoStarted2_def firstError_None init_ok_def split: uf_code.splits)
  show "wf_emits g (StVid (ufBehavior ub) st) (Tell (ufBehavior ub) g st c)" for g st c
    by (cases c) (auto simp: ufTell_defs wfNewPbUnfreezeRepoStarted2Workflow_def split: uf_code.splits)
  show "\<exists>pbs. wfNewEvents g (StVid (ufBehavior ub) st) pbs = Inr evs \<and> uf_moves ub st pbs"
    if "uf_inv st" "uf_pre st c" "Tell (ufBehavior ub) g st c = Ok evs" for g st c evs
    using ufTell_moves [OF assms] that by simp
  show "StId (ufBehavior ub) s' = StId (ufBehavior ub) s" if "ufAdvanceEv s x = Ok s'" for s x s'
    using that by (cases x) (auto simp: ufAdvanceEv_def split: WfUnfreezeEvent.splits)
qed (simp_all add: ufAdvance_def uf_inv_def)

text \<open>Every step of the machine can be taken.\<close>

definition ufTake :: "uf_code \<Rightarrow> uf_code \<Rightarrow> uf_cmd" where
  "ufTake k k' = (case k' of
     UfInitialized \<Rightarrow> UfCmdInit demo_init
   | UfFiles \<Rightarrow> UfCmdBeginFiles
   | UfFilesCompleted \<Rightarrow> UfCmdCommitFiles
   | UfFilesFailed \<Rightarrow> UfCmdAbortFiles 1 []
   | UfCompleted \<Rightarrow> UfCmdCommit
   | UfFailed \<Rightarrow> UfCmdAbort 1 []
   | _ \<Rightarrow> UfCmdEnd)"

lemma uf_complete:
  assumes "ulid_binary ub" "uf_step (ufs_scode st) k"
  shows "\<exists>c g ev s'. uf_pre st c \<and> Tell (ufBehavior ub) g st c = Ok [ev] \<and>
    Advance (ufBehavior ub) st ev = Ok s' \<and> ufs_scode s' = k"
proof -
  obtain p where p: "(wfNewPbUnfreezeRepoStarted2Workflow (initStarted demo_init) :: (wf_error, WorkflowPb) outcome) = Ok p"
    by (simp add: wfNewPbUnfreezeRepoStarted2Workflow_def validateWorkflowUnfreezeRepoStarted2_def orPanic_def
        firstError.simps demo_init_def)
  show ?thesis
    using assms(2) p parse_UnfreezeRepoStarted2Workflow [OF assms(1) p]
    by (intro exI [of _ "ufTake (ufs_scode st) k"] exI [of _ "\<lambda>_. Inr 1"])
      (cases "ufs_scode st"; auto simp: uf_simps ufTake_def wfEmit_def wfNewEvents_def ufAdvance_def
        MustParsePbWorkflowEvent_def wfCompleted_def)
qed

lemma uf_workflow_exact:
  assumes "ulid_binary ub"
  shows "workflow_exact (ufBehavior ub) (ufOps pm pu ub) uf_inv uf_pre ufs_scode UfUninitialized uf_step"
  by (intro workflow_exact.intro workflow_exact_axioms.intro uf_complete [OF assms]
      workflow_code.is_workflow [OF uf_workflow_code [OF assms]])

lemma uf_workflow_bounded:
  assumes "ulid_binary ub"
  shows "workflow_bounded (ufBehavior ub) (ufOps pm pu ub) uf_inv uf_pre ufs_scode UfUninitialized uf_step uf_rank"
  by (intro workflow_bounded.intro workflow_bounded_axioms.intro workflow_code.is_workflow [OF uf_workflow_code [OF assms]])
    (auto simp: ufNext_def uf_rank_def split: uf_code.splits)

interpretation uf: workflow_code ulidUnmarshal ufEventType "GoErr ''invalid event type''" pm pu "ufBehavior ulidUnmarshal"
  "\<lambda>st _. ufAdvanceEv st" uf_inv uf_pre ufs_scode UfUninitialized uf_step for pm pu
  by (rule uf_workflow_code) simp

interpretation uf_exact: workflow_exact "ufBehavior ulidUnmarshal" "ufOps pm pu ulidUnmarshal" uf_inv uf_pre
  ufs_scode UfUninitialized uf_step for pm pu
  by (rule uf_workflow_exact) simp

interpretation uf_bounded: workflow_bounded "ufBehavior ulidUnmarshal" "ufOps pm pu ulidUnmarshal" uf_inv uf_pre
  ufs_scode UfUninitialized uf_step uf_rank for pm pu
  by (rule uf_workflow_bounded) simp

section \<open>Properties\<close>

text \<open>The codes that a workflow passes, and the paths that it can take.\<close>

abbreviation uf_live where
  "uf_live pm pu ub \<equiv> live (ufBehavior ub) (ufOps pm pu ub) uf_pre"

abbreviation uf_codes where
  "uf_codes pm pu ub i \<equiv> trace (ufBehavior ub) (ufOps pm pu ub) ufs_scode ((ufNewState i)\<lparr>ufs_vid := EventEpoch\<rparr>)"

definition ufPaths :: "uf_code list list" where
  "ufPaths =
     [[UfInitialized, UfFiles, UfFilesCompleted, UfCompleted, UfTerminated],
      [UfInitialized, UfFiles, UfFilesCompleted, UfFailed, UfTerminated],
      [UfInitialized, UfFiles, UfFilesFailed, UfFailed, UfTerminated],
      [UfInitialized, UfFailed, UfTerminated]]"

text \<open>
  An unfreeze workflow takes exactly four paths: the codes that the histories of live workflows pass are the
  prefixes of these paths.  In particular it completes only after the files have been frozen, it ends after at most
  five events, and it does not continue after the end.
\<close>

lemma unfreeze_paths:
  assumes "ulid_binary ub"
  shows "{uf_codes pm pu ub i hist | st hist. uf_live pm pu ub i st hist} = {ks. \<exists>p \<in> set ufPaths. prefix ks p}"
proof -
  have "runs ufNext 5 UfUninitialized = ufPaths"
    by (simp add: ufPaths_def ufNext_def eval_nat_numeral)
  moreover have "{ks. steps uf_step UfUninitialized ks} = {ks. \<exists>p \<in> set (runs ufNext 5 UfUninitialized). prefix ks p}"
    by (rule bounded_paths [where rank = uf_rank]) (auto simp: ufNext_def uf_rank_def split: uf_code.splits)
  ultimately show ?thesis
    using workflow_exact.live_traces [OF uf_workflow_exact [OF assms], of pm pu i] by simp
qed

text \<open>
  Nothing checks the status code of an abort.  With the code 0, the default value of the request's field, an abort
  after failed files completes the workflow as if the repo had been frozen.
\<close>

lemma unfreeze_abort_zero_completes:
  assumes "ufs_scode st = UfFilesFailed"
  shows "\<exists>ev st'. ufTell (\<lambda>_. Inr 1) st (UfCmdAbort 0 msg) = Ok [ev] \<and> ufAdvance ub st ev = Ok st' \<and>
    ufs_scode st' = UfCompleted"
  using assms by (simp add: uf_simps wfEmit_def wfNewEvents_def ufAdvance_def MustParsePbWorkflowEvent_def wfCompleted_def)

text \<open>An init command with an empty field is a panic.\<close>

lemma unfreeze_init_empty_panics:
  assumes "ufs_scode st = UfUninitialized" and "ci_AuthorName cmd = []"
  shows "is_Panic (ufTell g st (UfCmdInit cmd))"
  using assms by (simp add: ufTellInit_def wfNewPbUnfreezeRepoStarted2Workflow_def outcome_simps
      validateWorkflowUnfreezeRepoStarted2_def firstError_None)

end
