(* ===== verification/Archive_Workflow.thy ===== *)
theory Archive_Workflow
  imports Workflow_Base
begin

text \<open>
  The archive-repo workflow (\<open>backend/internal/workflows/archiverepowf\<close>).  The package comment lists the paths of
  its states; the theorem at the end compares them with the code.
\<close>

section \<open>State and commands\<close>

datatype (plugins only: code) ar_code =
    ArUninitialized | ArInitialized | ArFiles | ArTarttCompleted | ArSwapStarted | ArFilesCompleted | ArFilesFailed
  | ArFilesEnded | ArGcCompleted | ArCompleted | ArFailed | ArTerminated

record ArchiveState =
  ars_id :: uuid
  ars_vid :: ulid
  ars_scode :: ar_code
  ars_registryId :: uuid
  ars_registryName :: string
  ars_repoId :: uuid
  ars_globalPath :: string
  ars_statusCode :: "32 word"
  ars_statusMessage :: string

datatype (plugins only: code) ar_cmd =
    ArCmdInit RepoCmdInit
  | ArCmdBeginFiles "RepoAclPolicy option"
  | ArCmdCommitTartt string \<comment> \<open>tar path\<close>
  | ArCmdBeginSwap string \<comment> \<open>working directory\<close>
  | ArCmdCommitFiles
  | ArCmdAbortFiles "32 word" string
  | ArCmdEndFiles
  | ArCmdCommitGc
  | ArCmdCommit
  | ArCmdAbort "32 word" string
  | ArCmdEnd
  | ArCmdForeign \<comment> \<open>a command of another aggregate\<close>

definition arNewState :: "uuid \<Rightarrow> ArchiveState" where
  "arNewState i = \<lparr>ars_id = i, ars_vid = 0, ars_scode = ArUninitialized, ars_registryId = uuidNil,
     ars_registryName = [], ars_repoId = uuidNil, ars_globalPath = [], ars_statusCode = 0, ars_statusMessage = []\<rparr>"

section \<open>Advance\<close>

definition arAdvanceEv :: "ArchiveState \<Rightarrow> WorkflowEvent \<Rightarrow> (wf_error, ArchiveState) outcome" where
  "arAdvanceEv st ev =
     (case ev of
        WvArchiveRepoStarted x \<Rightarrow>
          Ok (st\<lparr>ars_scode := ArInitialized, ars_registryId := rs_RegistryId x,
                 ars_registryName := rs_RegistryName x, ars_repoId := rs_RepoId x,
                 ars_globalPath := rs_RepoGlobalPath x\<rparr>)
      | WvArchiveRepoFilesStarted _ \<Rightarrow> Ok (st\<lparr>ars_scode := ArFiles\<rparr>)
      | WvArchiveRepoTarttCompleted _ \<Rightarrow> Ok (st\<lparr>ars_scode := ArTarttCompleted\<rparr>)
      | WvArchiveRepoSwapStarted _ \<Rightarrow> Ok (st\<lparr>ars_scode := ArSwapStarted\<rparr>)
      | WvArchiveRepoFilesCompleted code msg \<Rightarrow>
          Ok (st\<lparr>ars_statusCode := code, ars_statusMessage := msg,
                 ars_scode := (if code = 0 then ArFilesCompleted else ArFilesFailed)\<rparr>)
      | WvArchiveRepoFilesCommitted \<Rightarrow> Ok (st\<lparr>ars_scode := ArFilesEnded\<rparr>)
      | WvArchiveRepoGcCompleted \<Rightarrow> Ok (st\<lparr>ars_scode := ArGcCompleted\<rparr>)
      | WvArchiveRepoCompleted x \<Rightarrow>
          Ok (st\<lparr>ars_statusCode := wc_StatusCode x, ars_statusMessage := wc_StatusMessage x,
                 ars_scode := (if wc_StatusCode x = 0 then ArCompleted else ArFailed)\<rparr>)
      | WvArchiveRepoCommitted \<Rightarrow> Ok (st\<lparr>ars_scode := ArTerminated\<rparr>)
      | _ \<Rightarrow> Panic ''invalid event'')"

definition arAdvance ::
  "ulid_unmarshal \<Rightarrow> ArchiveState \<Rightarrow> WorkflowPb Event \<Rightarrow> (wf_error, ArchiveState) outcome" where
  "arAdvance ub st ev = obind (MustParsePbWorkflowEvent ub (ev_pb ev)) (arAdvanceEv st)"

section \<open>Tell\<close>

definition arIsIdempotent :: "RepoCmdInit \<Rightarrow> ArchiveState \<Rightarrow> bool" where
  "arIsIdempotent cmd st \<longleftrightarrow>
     ci_RegistryId cmd = ars_registryId st \<and> ci_RegistryName cmd = ars_registryName st \<and>
     ci_RepoId cmd = ars_repoId st \<and> ci_RepoGlobalPath cmd = ars_globalPath st"

definition arTellInit ::
  "ulid_source \<Rightarrow> ArchiveState \<Rightarrow> RepoCmdInit \<Rightarrow> (wf_error, WorkflowPb Event list) outcome" where
  "arTellInit g st cmd =
     (case ars_scode st of
        ArUninitialized \<Rightarrow>
          obind (wfNewPbArchiveRepoStartedWorkflow (initStarted cmd)) (\<lambda>p. wfEmit g (ars_vid st) [p])
      | ArInitialized \<Rightarrow> if \<not> arIsIdempotent cmd st then Err WfNotIdempotentError else Ok []
      | _ \<Rightarrow> Err WfStateConflictError)"

definition arTellBeginFiles ::
  "ulid_source \<Rightarrow> ArchiveState \<Rightarrow> RepoAclPolicy option \<Rightarrow> (wf_error, WorkflowPb Event list) outcome" where
  "arTellBeginFiles g st aclPolicy =
     (if aclPolicy = None then Err (WfArgumentError ''nil AclPolicy'')
      else case ars_scode st of
        ArInitialized \<Rightarrow> wfEmit g (ars_vid st) [wfNewPbArchiveRepoFilesStarted aclPolicy]
      | ArFiles \<Rightarrow> Ok []
      | _ \<Rightarrow> Err WfStateConflictError)"

definition arTellCommitTartt ::
  "ulid_source \<Rightarrow> ArchiveState \<Rightarrow> string \<Rightarrow> (wf_error, WorkflowPb Event list) outcome" where
  "arTellCommitTartt g st tarPath =
     (case ars_scode st of
        ArFiles \<Rightarrow>
          (if tarPath = [] then Err (WfArgumentError ''empty tar path'')
           else obind (wfNewPbArchiveRepoTarttCompleted tarPath) (\<lambda>p. wfEmit g (ars_vid st) [p]))
      | ArTarttCompleted \<Rightarrow> Ok []
      | _ \<Rightarrow> Err WfStateConflictError)"

definition arTellBeginSwap ::
  "ulid_source \<Rightarrow> ArchiveState \<Rightarrow> string \<Rightarrow> (wf_error, WorkflowPb Event list) outcome" where
  "arTellBeginSwap g st wd =
     (case ars_scode st of
        ArTarttCompleted \<Rightarrow> wfEmit g (ars_vid st) [wfNewPbArchiveRepoSwapStarted wd]
      | ArSwapStarted \<Rightarrow> Ok []
      | _ \<Rightarrow> Err WfStateConflictError)"

definition arTellCommitFiles :: "ulid_source \<Rightarrow> ArchiveState \<Rightarrow> (wf_error, WorkflowPb Event list) outcome" where
  "arTellCommitFiles g st =
     (case ars_scode st of
        ArSwapStarted \<Rightarrow> wfEmit g (ars_vid st) [wfNewPbArchiveRepoFilesCompletedOk]
      | ArFilesCompleted \<Rightarrow> Ok []
      | _ \<Rightarrow> Err WfStateConflictError)"

definition arTellAbortFiles ::
  "ulid_source \<Rightarrow> ArchiveState \<Rightarrow> 32 word \<Rightarrow> string \<Rightarrow> (wf_error, WorkflowPb Event list) outcome" where
  "arTellAbortFiles g st code msg =
     (if ars_scode st \<in> {ArFiles, ArTarttCompleted, ArSwapStarted}
      then wfEmit g (ars_vid st) [wfNewPbArchiveRepoFilesCompletedError code msg]
      else if ars_scode st = ArFilesFailed then Ok []
      else Err WfStateConflictError)"

definition arTellEndFiles :: "ulid_source \<Rightarrow> ArchiveState \<Rightarrow> (wf_error, WorkflowPb Event list) outcome" where
  "arTellEndFiles g st =
     (if ars_scode st \<in> {ArFilesCompleted, ArFilesFailed}
      then wfEmit g (ars_vid st) [wfNewPbArchiveRepoFilesCommitted]
      else if ars_scode st = ArFilesEnded then Ok []
      else Err WfStateConflictError)"

definition arTellCommitGc :: "ulid_source \<Rightarrow> ArchiveState \<Rightarrow> (wf_error, WorkflowPb Event list) outcome" where
  "arTellCommitGc g st =
     (case ars_scode st of
        ArFilesEnded \<Rightarrow> wfEmit g (ars_vid st) [wfNewPbArchiveRepoGcCompleted]
      | ArGcCompleted \<Rightarrow> Ok []
      | _ \<Rightarrow> Err WfStateConflictError)"

definition arTellCommit :: "ulid_source \<Rightarrow> ArchiveState \<Rightarrow> (wf_error, WorkflowPb Event list) outcome" where
  "arTellCommit g st =
     (case ars_scode st of
        ArGcCompleted \<Rightarrow>
          (if ars_statusCode st \<noteq> 0 then Err WfStateConflictError
           else wfEmit g (ars_vid st) [wfNewPbArchiveRepoCompletedOk])
      | ArCompleted \<Rightarrow> Ok []
      | _ \<Rightarrow> Err WfStateConflictError)"

definition arTellAbort ::
  "ulid_source \<Rightarrow> ArchiveState \<Rightarrow> 32 word \<Rightarrow> string \<Rightarrow> (wf_error, WorkflowPb Event list) outcome" where
  "arTellAbort g st code msg =
     (case ars_scode st of
        ArInitialized \<Rightarrow> wfEmit g (ars_vid st) [wfNewPbArchiveRepoCompletedError code msg]
      | ArGcCompleted \<Rightarrow>
          (if ars_statusCode st = 0 then Err WfStateConflictError
           else wfEmit g (ars_vid st) [wfNewPbArchiveRepoCompletedError code msg])
      | ArFailed \<Rightarrow> Ok []
      | ArTerminated \<Rightarrow> Err WfAlreadyTerminatedError
      | _ \<Rightarrow> Err WfStateConflictError)"

definition arTellEnd :: "ulid_source \<Rightarrow> ArchiveState \<Rightarrow> (wf_error, WorkflowPb Event list) outcome" where
  "arTellEnd g st =
     (if ars_scode st \<in> {ArCompleted, ArFailed} then wfEmit g (ars_vid st) [wfNewPbArchiveRepoCommitted]
      else if ars_scode st = ArTerminated then Ok []
      else Err WfStateConflictError)"

fun arTell :: "ulid_source \<Rightarrow> ArchiveState \<Rightarrow> ar_cmd \<Rightarrow> (wf_error, WorkflowPb Event list) outcome" where
  "arTell g st (ArCmdInit cmd) = arTellInit g st cmd"
| "arTell g st (ArCmdBeginFiles aclPolicy) = arTellBeginFiles g st aclPolicy"
| "arTell g st (ArCmdCommitTartt tarPath) = arTellCommitTartt g st tarPath"
| "arTell g st (ArCmdBeginSwap wd) = arTellBeginSwap g st wd"
| "arTell g st ArCmdCommitFiles = arTellCommitFiles g st"
| "arTell g st (ArCmdAbortFiles code msg) = arTellAbortFiles g st code msg"
| "arTell g st ArCmdEndFiles = arTellEndFiles g st"
| "arTell g st ArCmdCommitGc = arTellCommitGc g st"
| "arTell g st ArCmdCommit = arTellCommit g st"
| "arTell g st (ArCmdAbort code msg) = arTellAbort g st code msg"
| "arTell g st ArCmdEnd = arTellEnd g st"
| "arTell g st ArCmdForeign = Err WfInvalidCommandError"

lemmas arTell_defs =
  arTellInit_def arTellBeginFiles_def arTellCommitTartt_def arTellBeginSwap_def arTellCommitFiles_def
  arTellAbortFiles_def arTellEndFiles_def arTellCommitGc_def arTellCommit_def arTellAbort_def arTellEnd_def

definition arBehavior :: "ulid_unmarshal \<Rightarrow> (ArchiveState, ar_cmd, WorkflowPb Event, wf_error) Behavior" where
  "arBehavior ub = \<lparr>NewState = arNewState, StId = ars_id, StVid = ars_vid,
     SetVid = (\<lambda>v st. st\<lparr>ars_vid := v\<rparr>), Advance = arAdvance ub, Tell = arTell\<rparr>"

definition arEventType :: "WorkflowEvent_Type \<Rightarrow> bool" where
  "arEventType t \<longleftrightarrow> t \<in> {WT_FSO_ARCHIVE_REPO_STARTED, WT_FSO_ARCHIVE_REPO_FILES_STARTED,
     WT_FSO_ARCHIVE_REPO_TARTT_COMPLETED, WT_FSO_ARCHIVE_REPO_SWAP_STARTED, WT_FSO_ARCHIVE_REPO_FILES_COMPLETED,
     WT_FSO_ARCHIVE_REPO_FILES_COMMITTED, WT_FSO_ARCHIVE_REPO_GC_COMPLETED, WT_FSO_ARCHIVE_REPO_COMPLETED,
     WT_FSO_ARCHIVE_REPO_COMMITTED, WT_FSO_ARCHIVE_REPO_DELETED}"

abbreviation arOps where
  "arOps pm pu ub \<equiv> wfEventOps arEventType (GoErr ''invalid event type'') pm pu ub"

lemma arBehavior_simps [simp]:
  "NewState (arBehavior ub) = arNewState" "StId (arBehavior ub) = ars_id" "StVid (arBehavior ub) = ars_vid"
  "SetVid (arBehavior ub) v st = st\<lparr>ars_vid := v\<rparr>" "Advance (arBehavior ub) = arAdvance ub"
  "Tell (arBehavior ub) = arTell"
  by (simp_all add: arBehavior_def)

section \<open>The state machine\<close>

text \<open>
  The callers' obligation: the fields of the init command are set, and an abort has an error code.  The phase of a
  state is its code together with the success of the files so far, on which commit and abort depend.
\<close>

definition ar_pre :: "ArchiveState \<Rightarrow> ar_cmd \<Rightarrow> bool" where
  "ar_pre st c \<longleftrightarrow> (case c of
     ArCmdInit cmd \<Rightarrow> init_ok cmd
   | ArCmdAbortFiles code _ \<Rightarrow> code \<noteq> 0
   | ArCmdAbort code _ \<Rightarrow> code \<noteq> 0
   | _ \<Rightarrow> True)"

definition arPhase :: "ArchiveState \<Rightarrow> ar_code \<times> bool" where
  "arPhase st = (ars_scode st, ars_statusCode st = 0)"

definition arNext :: "ar_code \<times> bool \<Rightarrow> (ar_code \<times> bool) list" where
  "arNext k = (let ok = snd k in case fst k of
     ArUninitialized \<Rightarrow> [(ArInitialized, ok)]
   | ArInitialized \<Rightarrow> [(ArFiles, ok), (ArFailed, False)]
   | ArFiles \<Rightarrow> [(ArTarttCompleted, ok), (ArFilesFailed, False)]
   | ArTarttCompleted \<Rightarrow> [(ArSwapStarted, ok), (ArFilesFailed, False)]
   | ArSwapStarted \<Rightarrow> [(ArFilesCompleted, True), (ArFilesFailed, False)]
   | ArFilesCompleted \<Rightarrow> [(ArFilesEnded, ok)]
   | ArFilesFailed \<Rightarrow> [(ArFilesEnded, ok)]
   | ArFilesEnded \<Rightarrow> [(ArGcCompleted, ok)]
   | ArGcCompleted \<Rightarrow> [if ok then (ArCompleted, True) else (ArFailed, False)]
   | ArCompleted \<Rightarrow> [(ArTerminated, ok)]
   | ArFailed \<Rightarrow> [(ArTerminated, ok)]
   | ArTerminated \<Rightarrow> [])"

abbreviation ar_step :: "ar_code \<times> bool \<Rightarrow> ar_code \<times> bool \<Rightarrow> bool" where
  "ar_step \<equiv> \<lambda>k k'. k' \<in> set (arNext k)"

definition ar_rank :: "ar_code \<times> bool \<Rightarrow> nat" where
  "ar_rank k = (case fst k of ArUninitialized \<Rightarrow> 0 | ArInitialized \<Rightarrow> 1 | ArFiles \<Rightarrow> 2 | ArTarttCompleted \<Rightarrow> 3
     | ArSwapStarted \<Rightarrow> 4 | ArFilesCompleted \<Rightarrow> 5 | ArFilesFailed \<Rightarrow> 5 | ArFilesEnded \<Rightarrow> 6 | ArGcCompleted \<Rightarrow> 7
     | ArCompleted \<Rightarrow> 8 | ArFailed \<Rightarrow> 8 | ArTerminated \<Rightarrow> 9)"

definition ar_inv :: "ArchiveState \<Rightarrow> bool" where
  "ar_inv st \<longleftrightarrow>
     (ars_scode st \<noteq> ArUninitialized \<longrightarrow>
        ars_registryId st \<noteq> 0 \<and> ars_registryName st \<noteq> [] \<and> ars_repoId st \<noteq> 0 \<and> ars_globalPath st \<noteq> []) \<and>
     (ars_scode st \<in> {ArFilesCompleted, ArCompleted} \<longrightarrow> ars_statusCode st = 0) \<and>
     (ars_scode st \<in> {ArFilesFailed, ArFailed} \<longrightarrow> ars_statusCode st \<noteq> 0)"

lemma arNewState_simps [simp]:
  "arPhase (arNewState i) = (ArUninitialized, True)" "ars_id (arNewState i) = i" "ar_inv (arNewState i)"
  by (simp_all add: arNewState_def arPhase_def ar_inv_def)

lemma ar_vid [simp]: "ar_inv (st\<lparr>ars_vid := v\<rparr>) = ar_inv st" "arPhase (st\<lparr>ars_vid := v\<rparr>) = arPhase st"
  by (simp_all add: ar_inv_def arPhase_def)

abbreviation ar_moves where
  "ar_moves ub \<equiv> moves ub arEventType (arBehavior ub) (\<lambda>st _. arAdvanceEv st) ar_inv arPhase ar_step"

lemmas ar_simps = arEventType_def arTell_defs arAdvanceEv_def ar_inv_def ar_pre_def arNext_def arPhase_def

lemma arTellInit_moves:
  assumes "ulid_binary ub" "ar_inv st" "init_ok cmd" "arTellInit g st cmd = Ok evs"
  shows "\<exists>pbs. wfNewEvents g (ars_vid st) pbs = Inr evs \<and> ar_moves ub st pbs"
proof (cases "ars_scode st = ArUninitialized")
  case True
  then obtain p where p: "(wfNewPbArchiveRepoStartedWorkflow (initStarted cmd) :: (wf_error, WorkflowPb) outcome) = Ok p"
    "wfNewEvents g (ars_vid st) [p] = Inr evs"
    using assms(4) by (auto simp: arTellInit_def outcome_simps)
  show ?thesis
    using True p assms(3) parse_ArchiveRepoStartedWorkflow [OF assms(1) p(1)]
    by (intro exI [of _ "[p]"]) (simp add: ar_simps init_ok_def)
qed (use assms(2,4) in \<open>auto simp: arTellInit_def split: ar_code.splits if_splits intro: exI [of _ "[]"]\<close>)

lemma arTellCommitTartt_moves:
  assumes "ar_inv st" "arTellCommitTartt g st tarPath = Ok evs"
  shows "\<exists>pbs. wfNewEvents g (ars_vid st) pbs = Inr evs \<and> ar_moves ub st pbs"
proof (cases "ars_scode st = ArFiles")
  case True
  then obtain p where p: "(wfNewPbArchiveRepoTarttCompleted tarPath :: (wf_error, WorkflowPb) outcome) = Ok p"
    "wfNewEvents g (ars_vid st) [p] = Inr evs"
    using assms(2) by (auto simp: arTellCommitTartt_def outcome_simps split: if_splits)
  show ?thesis
    using True p assms(1) parse_ArchiveRepoTarttCompleted [OF p(1)]
    by (intro exI [of _ "[p]"]) (auto simp: ar_simps)
qed (use assms in \<open>auto simp: arTellCommitTartt_def split: ar_code.splits if_splits intro: exI [of _ "[]"]\<close>)

lemma arTell_moves:
  assumes "ulid_binary ub" "ar_inv st" "ar_pre st c" "arTell g st c = Ok evs"
  shows "\<exists>pbs. wfNewEvents g (ars_vid st) pbs = Inr evs \<and> ar_moves ub st pbs"
proof (cases "evs = []")
  case True
  then show ?thesis using assms(2) by (intro exI [of _ "[]"]) simp
next
  case False
  show ?thesis
  proof (cases c)
    case (ArCmdInit cmd)
    then show ?thesis using arTellInit_moves [OF assms(1,2)] assms(3,4) by (simp add: ar_pre_def)
  next
    case (ArCmdCommitTartt tarPath)
    then show ?thesis using arTellCommitTartt_moves [OF assms(2)] assms(4) by simp
  qed ((use assms(2-4) False in \<open>auto simp: ar_simps outcome_simps wfCompleted_def split: ar_code.splits if_splits
        intro!: exI [of _ "[_]"]\<close>)[1])+
qed

lemma ar_workflow_code:
  assumes "ulid_binary ub"
  shows "workflow_code ub arEventType (arBehavior ub) (\<lambda>st _. arAdvanceEv st) ar_inv ar_pre arPhase
    (ArUninitialized, True) ar_step"
proof
  show "\<not> is_Panic (Tell (arBehavior ub) g st c)" if "ar_inv st" "ar_pre st c" for g st c
    using that(2) by (cases c) (auto simp: ar_simps outcome_simps wfNewPbArchiveRepoStartedWorkflow_def
      validateWorkflowArchiveRepoStarted_def wfNewPbArchiveRepoTarttCompleted_def firstError_None init_ok_def
      split: ar_code.splits)
  show "wf_emits g (StVid (arBehavior ub) st) (Tell (arBehavior ub) g st c)" for g st c
    by (cases c) (auto simp: arTell_defs wfNewPbArchiveRepoStartedWorkflow_def wfNewPbArchiveRepoTarttCompleted_def
      split: ar_code.splits)
  show "\<exists>pbs. wfNewEvents g (StVid (arBehavior ub) st) pbs = Inr evs \<and> ar_moves ub st pbs"
    if "ar_inv st" "ar_pre st c" "Tell (arBehavior ub) g st c = Ok evs" for g st c evs
    using arTell_moves [OF assms] that by simp
  show "StId (arBehavior ub) s' = StId (arBehavior ub) s" if "arAdvanceEv s x = Ok s'" for s x s'
    using that by (cases x) (auto simp: arAdvanceEv_def split: WfArchiveEvent.splits)
qed (simp_all add: arAdvance_def)

text \<open>Every step of the machine can be taken.\<close>

definition arTake :: "ar_code \<Rightarrow> ar_code \<Rightarrow> ar_cmd" where
  "arTake k k' = (case k' of
     ArInitialized \<Rightarrow> ArCmdInit demo_init
   | ArFiles \<Rightarrow> ArCmdBeginFiles (Some \<lparr>ap_Policy = P_NO_ACLS, ap_FsoRootInfo = None\<rparr>)
   | ArTarttCompleted \<Rightarrow> ArCmdCommitTartt ''t''
   | ArSwapStarted \<Rightarrow> ArCmdBeginSwap ''w''
   | ArFilesCompleted \<Rightarrow> ArCmdCommitFiles
   | ArFilesFailed \<Rightarrow> ArCmdAbortFiles 1 []
   | ArFilesEnded \<Rightarrow> ArCmdEndFiles
   | ArGcCompleted \<Rightarrow> ArCmdCommitGc
   | ArCompleted \<Rightarrow> ArCmdCommit
   | ArFailed \<Rightarrow> ArCmdAbort 1 []
   | _ \<Rightarrow> ArCmdEnd)"

lemma ar_complete:
  assumes "ulid_binary ub" "ar_inv st" "ar_step (arPhase st) k"
  shows "\<exists>c g ev s'. ar_pre st c \<and> Tell (arBehavior ub) g st c = Ok [ev] \<and>
    Advance (arBehavior ub) st ev = Ok s' \<and> arPhase s' = k"
proof -
  obtain p where p: "(wfNewPbArchiveRepoStartedWorkflow (initStarted demo_init) :: (wf_error, WorkflowPb) outcome) = Ok p"
    by (simp add: wfNewPbArchiveRepoStartedWorkflow_def validateWorkflowArchiveRepoStarted_def orPanic_def
        firstError.simps demo_init_def)
  obtain q where q: "(wfNewPbArchiveRepoTarttCompleted ''t'' :: (wf_error, WorkflowPb) outcome) = Ok q"
    by (simp add: wfNewPbArchiveRepoTarttCompleted_def orPanic_def firstError.simps)
  show ?thesis
    using assms(2,3) p q parse_ArchiveRepoStartedWorkflow [OF assms(1) p] parse_ArchiveRepoTarttCompleted [OF q]
    by (intro exI [of _ "arTake (ars_scode st) (fst k)"] exI [of _ "\<lambda>_. Inr 1"])
      (cases "ars_scode st"; auto simp: ar_simps arTake_def wfEmit_def wfNewEvents_def arAdvance_def
        MustParsePbWorkflowEvent_def wfCompleted_def split: if_splits)
qed

lemma ar_workflow_exact:
  assumes "ulid_binary ub"
  shows "workflow_exact (arBehavior ub) (arOps pm pu ub) ar_inv ar_pre arPhase (ArUninitialized, True) ar_step"
  by (intro workflow_exact.intro workflow_exact_axioms.intro ar_complete [OF assms]
      workflow_code.is_workflow [OF ar_workflow_code [OF assms]])

lemma ar_rank_step: "ar_step k k' \<Longrightarrow> ar_rank k < ar_rank k'"
  by (auto simp: arNext_def ar_rank_def Let_def split: ar_code.splits if_splits)

lemma ar_workflow_bounded:
  assumes "ulid_binary ub"
  shows "workflow_bounded (arBehavior ub) (arOps pm pu ub) ar_inv ar_pre arPhase (ArUninitialized, True) ar_step ar_rank"
  by (intro workflow_bounded.intro workflow_bounded_axioms.intro
      workflow_code.is_workflow [OF ar_workflow_code [OF assms]] ar_rank_step)

interpretation ar: workflow_code ulidUnmarshal arEventType "GoErr ''invalid event type''" pm pu
  "arBehavior ulidUnmarshal" "\<lambda>st _. arAdvanceEv st" ar_inv ar_pre arPhase "(ArUninitialized, True)" ar_step for pm pu
  by (rule ar_workflow_code) simp

interpretation ar_exact: workflow_exact "arBehavior ulidUnmarshal" "arOps pm pu ulidUnmarshal" ar_inv ar_pre
  arPhase "(ArUninitialized, True)" ar_step for pm pu
  by (rule ar_workflow_exact) simp

interpretation ar_bounded: workflow_bounded "arBehavior ulidUnmarshal" "arOps pm pu ulidUnmarshal" ar_inv ar_pre
  arPhase "(ArUninitialized, True)" ar_step ar_rank for pm pu
  by (rule ar_workflow_bounded) simp

section \<open>Properties\<close>

abbreviation ar_live where
  "ar_live pm pu ub \<equiv> live (arBehavior ub) (arOps pm pu ub) ar_pre"

abbreviation ar_codes where
  "ar_codes pm pu ub i hist \<equiv>
     map fst (trace (arBehavior ub) (arOps pm pu ub) arPhase ((arNewState i)\<lparr>ars_vid := EventEpoch\<rparr>) hist)"

text \<open>The section "Possible State Paths" of the package comment.\<close>

definition arPaths :: "ar_code list list" where
  "arPaths =
     [[ArInitialized, ArFiles, ArTarttCompleted, ArSwapStarted, ArFilesCompleted, ArFilesEnded, ArGcCompleted,
       ArCompleted, ArTerminated],
      [ArInitialized, ArFailed, ArTerminated],
      [ArInitialized, ArFiles, ArFilesFailed, ArFilesEnded, ArGcCompleted, ArFailed, ArTerminated],
      [ArInitialized, ArFiles, ArTarttCompleted, ArFilesFailed, ArFilesEnded, ArGcCompleted, ArFailed, ArTerminated],
      [ArInitialized, ArFiles, ArTarttCompleted, ArSwapStarted, ArFilesFailed, ArFilesEnded, ArGcCompleted,
       ArFailed, ArTerminated]]"

lemma ar_runs: "set (map (map fst) (runs arNext 9 (ArUninitialized, True))) = set arPaths"
  by (simp add: arPaths_def arNext_def eval_nat_numeral insert_commute)

text \<open>
  C31: the archive workflow takes exactly the state paths that its documentation lists: the codes that the histories
  of live workflows pass are the prefixes of these paths.
\<close>

theorem archive_paths:
  assumes "ulid_binary ub"
  shows "{ar_codes pm pu ub i hist | st hist. ar_live pm pu ub i st hist} = {ks. \<exists>p \<in> set arPaths. prefix ks p}"
proof -
  let ?T = "{trace (arBehavior ub) (arOps pm pu ub) arPhase ((arNewState i)\<lparr>ars_vid := EventEpoch\<rparr>) hist | st hist.
    ar_live pm pu ub i st hist}"
  have t: "?T = {ks. \<exists>p \<in> set (runs arNext 9 (ArUninitialized, True)). prefix ks p}"
    using workflow_exact.live_traces [OF ar_workflow_exact [OF assms], of pm pu i]
      bounded_paths [of arNext ar_rank "(ArUninitialized, True)" 9, OF ar_rank_step]
    by (simp add: ar_rank_def split: ar_code.splits)
  have "map fst ` ?T = {ks. \<exists>p \<in> set arPaths. prefix ks p}"
    unfolding t map_prefixes ar_runs ..
  then show ?thesis by (simp only: image_Collect) blast
qed

theorem archive_paths_witness:
  "{ar_codes (\<lambda>_. Inr []) (\<lambda>_. Inl (GoErr [])) ulidUnmarshal 7 hist | st hist.
      ar_live (\<lambda>_. Inr []) (\<lambda>_. Inl (GoErr [])) ulidUnmarshal 7 st hist} = {ks. \<exists>p \<in> set arPaths. prefix ks p} \<and>
   length arPaths = 5"
  using archive_paths [OF ulidUnmarshal_ok] by (simp add: arPaths_def)

end
