(* ===== verification/Unarchive_Workflow.thy ===== *)
theory Unarchive_Workflow
  imports Workflow_Base
begin

text \<open>
  The unarchive-repo workflow (\<open>backend/internal/workflows/unarchiverepowf\<close>).  The package comment lists the paths of
  its states; the theorem at the end compares them with the code.
\<close>

section \<open>State and commands\<close>

datatype (plugins only: code) ua_code =
    UaUninitialized | UaInitialized | UaFiles | UaTartt | UaTarttCompleted | UaTarttFailed | UaFilesCompleted
  | UaFilesFailed | UaFilesEnded | UaGcCompleted | UaCompleted | UaFailed | UaTerminated

record UnarchiveState =
  uas_id :: uuid
  uas_vid :: ulid
  uas_scode :: ua_code
  uas_registryId :: uuid
  uas_registryName :: string
  uas_repoId :: uuid
  uas_globalPath :: string
  uas_archiveURL :: string
  uas_tarttTarPath :: string
  uas_statusCode :: "32 word"
  uas_statusMessage :: string

datatype (plugins only: code) ua_cmd =
    UaCmdInit UnarchiveCmdInit
  | UaCmdBeginFiles "RepoAclPolicy option"
  | UaCmdBeginTartt string \<comment> \<open>working directory\<close>
  | UaCmdCommitTartt
  | UaCmdAbortTartt "32 word" string
  | UaCmdCommitFiles
  | UaCmdAbortFiles "32 word" string
  | UaCmdEndFiles
  | UaCmdCommitGc
  | UaCmdCommit
  | UaCmdAbort "32 word" string
  | UaCmdEnd
  | UaCmdForeign \<comment> \<open>a command of another aggregate\<close>

definition uaNewState :: "uuid \<Rightarrow> UnarchiveState" where
  "uaNewState i = \<lparr>uas_id = i, uas_vid = 0, uas_scode = UaUninitialized, uas_registryId = uuidNil,
     uas_registryName = [], uas_repoId = uuidNil, uas_globalPath = [], uas_archiveURL = [],
     uas_tarttTarPath = [], uas_statusCode = 0, uas_statusMessage = []\<rparr>"

section \<open>Advance\<close>

definition uaAdvanceEv :: "UnarchiveState \<Rightarrow> WorkflowEvent \<Rightarrow> (wf_error, UnarchiveState) outcome" where
  "uaAdvanceEv st ev =
     (case ev of
        WvUnarchiveRepoStarted x \<Rightarrow>
          Ok (st\<lparr>uas_scode := UaInitialized, uas_registryId := rs_RegistryId x,
                 uas_registryName := rs_RegistryName x, uas_repoId := rs_RepoId x,
                 uas_globalPath := rs_RepoGlobalPath x,
                 uas_archiveURL := us_RepoArchiveURL x, uas_tarttTarPath := us_TarttTarPath x\<rparr>)
      | WvUnarchiveRepoFilesStarted _ \<Rightarrow> Ok (st\<lparr>uas_scode := UaFiles\<rparr>)
      | WvUnarchiveRepoTarttStarted _ \<Rightarrow> Ok (st\<lparr>uas_scode := UaTartt\<rparr>)
      | WvUnarchiveRepoTarttCompleted code msg \<Rightarrow>
          Ok (st\<lparr>uas_statusCode := code, uas_statusMessage := msg,
                 uas_scode := (if code = 0 then UaTarttCompleted else UaTarttFailed)\<rparr>)
      | WvUnarchiveRepoFilesCompleted code msg \<Rightarrow>
          Ok (st\<lparr>uas_statusCode := code, uas_statusMessage := msg,
                 uas_scode := (if code = 0 then UaFilesCompleted else UaFilesFailed)\<rparr>)
      | WvUnarchiveRepoFilesCommitted \<Rightarrow> Ok (st\<lparr>uas_scode := UaFilesEnded\<rparr>)
      | WvUnarchiveRepoGcCompleted \<Rightarrow> Ok (st\<lparr>uas_scode := UaGcCompleted\<rparr>)
      | WvUnarchiveRepoCompleted x \<Rightarrow>
          Ok (st\<lparr>uas_statusCode := wc_StatusCode x, uas_statusMessage := wc_StatusMessage x,
                 uas_scode := (if wc_StatusCode x = 0 then UaCompleted else UaFailed)\<rparr>)
      | WvUnarchiveRepoCommitted \<Rightarrow> Ok (st\<lparr>uas_scode := UaTerminated\<rparr>)
      | _ \<Rightarrow> Panic ''invalid event'')"

definition uaAdvance ::
  "ulid_unmarshal \<Rightarrow> UnarchiveState \<Rightarrow> WorkflowPb Event \<Rightarrow> (wf_error, UnarchiveState) outcome" where
  "uaAdvance ub st ev = obind (MustParsePbWorkflowEvent ub (ev_pb ev)) (uaAdvanceEv st)"

section \<open>Tell\<close>

definition uaIsIdempotent :: "UnarchiveCmdInit \<Rightarrow> UnarchiveState \<Rightarrow> bool" where
  "uaIsIdempotent cmd st \<longleftrightarrow>
     ci_RegistryId cmd = uas_registryId st \<and> ci_RegistryName cmd = uas_registryName st \<and>
     ci_RepoId cmd = uas_repoId st \<and> ci_RepoGlobalPath cmd = uas_globalPath st \<and>
     ci_RepoArchiveURL cmd = uas_archiveURL st \<and> ci_TarttTarPath cmd = uas_tarttTarPath st"

definition unarchiveStarted :: "UnarchiveCmdInit \<Rightarrow> UnarchiveRepoStarted" where
  "unarchiveStarted cmd =
     \<lparr>rs_RegistryId = ci_RegistryId cmd, rs_RegistryName = ci_RegistryName cmd,
      rs_StartRegistryVid = ci_StartRegistryVid cmd, rs_RepoId = ci_RepoId cmd,
      rs_StartRepoVid = ci_StartRepoVid cmd, rs_RepoGlobalPath = ci_RepoGlobalPath cmd,
      rs_AuthorName = ci_AuthorName cmd, rs_AuthorEmail = ci_AuthorEmail cmd,
      rs_WorkflowId = uuidNil, rs_WorkflowEventId = ulidNil,
      us_RepoArchiveURL = ci_RepoArchiveURL cmd, us_TarttTarPath = ci_TarttTarPath cmd\<rparr>"

lemma unarchiveStarted_simps [simp]:
  "rs_RegistryId (unarchiveStarted cmd) = ci_RegistryId cmd"
  "rs_RegistryName (unarchiveStarted cmd) = ci_RegistryName cmd"
  "rs_RepoId (unarchiveStarted cmd) = ci_RepoId cmd"
  "rs_RepoGlobalPath (unarchiveStarted cmd) = ci_RepoGlobalPath cmd"
  "rs_AuthorName (unarchiveStarted cmd) = ci_AuthorName cmd"
  "rs_AuthorEmail (unarchiveStarted cmd) = ci_AuthorEmail cmd"
  "us_RepoArchiveURL (unarchiveStarted cmd) = ci_RepoArchiveURL cmd"
  "us_TarttTarPath (unarchiveStarted cmd) = ci_TarttTarPath cmd"
  "rs_WorkflowId (unarchiveStarted cmd) = 0" "rs_WorkflowEventId (unarchiveStarted cmd) = 0"
  by (simp_all add: unarchiveStarted_def)

definition uaTellInit ::
  "ulid_source \<Rightarrow> UnarchiveState \<Rightarrow> UnarchiveCmdInit \<Rightarrow> (wf_error, WorkflowPb Event list) outcome" where
  "uaTellInit g st cmd =
     (case uas_scode st of
        UaUninitialized \<Rightarrow>
          obind (wfNewPbUnarchiveRepoStartedWorkflow (unarchiveStarted cmd)) (\<lambda>p. wfEmit g (uas_vid st) [p])
      | UaInitialized \<Rightarrow> if \<not> uaIsIdempotent cmd st then Err WfNotIdempotentError else Ok []
      | _ \<Rightarrow> Err WfStateConflictError)"

definition uaTellBeginFiles ::
  "ulid_source \<Rightarrow> UnarchiveState \<Rightarrow> RepoAclPolicy option \<Rightarrow> (wf_error, WorkflowPb Event list) outcome" where
  "uaTellBeginFiles g st aclPolicy =
     (if aclPolicy = None then Err (WfArgumentError ''nil AclPolicy'')
      else case uas_scode st of
        UaInitialized \<Rightarrow> wfEmit g (uas_vid st) [wfNewPbUnarchiveRepoFilesStarted aclPolicy]
      | UaFiles \<Rightarrow> Ok []
      | _ \<Rightarrow> Err WfStateConflictError)"

definition uaTellBeginTartt ::
  "ulid_source \<Rightarrow> UnarchiveState \<Rightarrow> string \<Rightarrow> (wf_error, WorkflowPb Event list) outcome" where
  "uaTellBeginTartt g st wd =
     (case uas_scode st of
        UaFiles \<Rightarrow> wfEmit g (uas_vid st) [wfNewPbUnarchiveRepoTarttStarted wd]
      | UaTartt \<Rightarrow> Ok []
      | _ \<Rightarrow> Err WfStateConflictError)"

definition uaTellCommitTartt :: "ulid_source \<Rightarrow> UnarchiveState \<Rightarrow> (wf_error, WorkflowPb Event list) outcome" where
  "uaTellCommitTartt g st =
     (case uas_scode st of
        UaTartt \<Rightarrow> wfEmit g (uas_vid st) [wfNewPbUnarchiveRepoTarttCompletedOk]
      | UaTarttCompleted \<Rightarrow> Ok []
      | _ \<Rightarrow> Err WfStateConflictError)"

definition uaTellAbortTartt ::
  "ulid_source \<Rightarrow> UnarchiveState \<Rightarrow> 32 word \<Rightarrow> string \<Rightarrow> (wf_error, WorkflowPb Event list) outcome" where
  "uaTellAbortTartt g st code msg =
     (case uas_scode st of
        UaTartt \<Rightarrow> wfEmit g (uas_vid st) [wfNewPbUnarchiveRepoTarttCompletedError code msg]
      | UaTarttFailed \<Rightarrow> Ok []
      | _ \<Rightarrow> Err WfStateConflictError)"

definition uaTellCommitFiles :: "ulid_source \<Rightarrow> UnarchiveState \<Rightarrow> (wf_error, WorkflowPb Event list) outcome" where
  "uaTellCommitFiles g st =
     (case uas_scode st of
        UaTarttCompleted \<Rightarrow> wfEmit g (uas_vid st) [wfNewPbUnarchiveRepoFilesCompletedOk]
      | UaFilesCompleted \<Rightarrow> Ok []
      | _ \<Rightarrow> Err WfStateConflictError)"

definition uaTellAbortFiles ::
  "ulid_source \<Rightarrow> UnarchiveState \<Rightarrow> 32 word \<Rightarrow> string \<Rightarrow> (wf_error, WorkflowPb Event list) outcome" where
  "uaTellAbortFiles g st code msg =
     (if uas_scode st \<in> {UaFiles, UaTarttCompleted}
      then wfEmit g (uas_vid st) [wfNewPbUnarchiveRepoFilesCompletedError code msg]
      else if uas_scode st = UaFilesFailed then Ok []
      else Err WfStateConflictError)"

definition uaTellEndFiles :: "ulid_source \<Rightarrow> UnarchiveState \<Rightarrow> (wf_error, WorkflowPb Event list) outcome" where
  "uaTellEndFiles g st =
     (if uas_scode st \<in> {UaTarttFailed, UaFilesCompleted, UaFilesFailed}
      then wfEmit g (uas_vid st) [wfNewPbUnarchiveRepoFilesCommitted]
      else if uas_scode st = UaFilesEnded then Ok []
      else Err WfStateConflictError)"

definition uaTellCommitGc :: "ulid_source \<Rightarrow> UnarchiveState \<Rightarrow> (wf_error, WorkflowPb Event list) outcome" where
  "uaTellCommitGc g st =
     (case uas_scode st of
        UaFilesEnded \<Rightarrow> wfEmit g (uas_vid st) [wfNewPbUnarchiveRepoGcCompleted]
      | UaGcCompleted \<Rightarrow> Ok []
      | _ \<Rightarrow> Err WfStateConflictError)"

definition uaTellCommit :: "ulid_source \<Rightarrow> UnarchiveState \<Rightarrow> (wf_error, WorkflowPb Event list) outcome" where
  "uaTellCommit g st =
     (case uas_scode st of
        UaGcCompleted \<Rightarrow>
          (if uas_statusCode st \<noteq> 0 then Err WfStateConflictError
           else wfEmit g (uas_vid st) [wfNewPbUnarchiveRepoCompletedOk])
      | UaCompleted \<Rightarrow> Ok []
      | _ \<Rightarrow> Err WfStateConflictError)"

definition uaTellAbort ::
  "ulid_source \<Rightarrow> UnarchiveState \<Rightarrow> 32 word \<Rightarrow> string \<Rightarrow> (wf_error, WorkflowPb Event list) outcome" where
  "uaTellAbort g st code msg =
     (case uas_scode st of
        UaInitialized \<Rightarrow> wfEmit g (uas_vid st) [wfNewPbUnarchiveRepoCompletedError code msg]
      | UaGcCompleted \<Rightarrow>
          (if uas_statusCode st = 0 then Err WfStateConflictError
           else wfEmit g (uas_vid st) [wfNewPbUnarchiveRepoCompletedError code msg])
      | UaFailed \<Rightarrow> Ok []
      | UaTerminated \<Rightarrow> Err WfAlreadyTerminatedError
      | _ \<Rightarrow> Err WfStateConflictError)"

definition uaTellEnd :: "ulid_source \<Rightarrow> UnarchiveState \<Rightarrow> (wf_error, WorkflowPb Event list) outcome" where
  "uaTellEnd g st =
     (if uas_scode st \<in> {UaCompleted, UaFailed} then wfEmit g (uas_vid st) [wfNewPbUnarchiveRepoCommitted]
      else if uas_scode st = UaTerminated then Ok []
      else Err WfStateConflictError)"

fun uaTell :: "ulid_source \<Rightarrow> UnarchiveState \<Rightarrow> ua_cmd \<Rightarrow> (wf_error, WorkflowPb Event list) outcome" where
  "uaTell g st (UaCmdInit cmd) = uaTellInit g st cmd"
| "uaTell g st (UaCmdBeginFiles aclPolicy) = uaTellBeginFiles g st aclPolicy"
| "uaTell g st (UaCmdBeginTartt wd) = uaTellBeginTartt g st wd"
| "uaTell g st UaCmdCommitTartt = uaTellCommitTartt g st"
| "uaTell g st (UaCmdAbortTartt code msg) = uaTellAbortTartt g st code msg"
| "uaTell g st UaCmdCommitFiles = uaTellCommitFiles g st"
| "uaTell g st (UaCmdAbortFiles code msg) = uaTellAbortFiles g st code msg"
| "uaTell g st UaCmdEndFiles = uaTellEndFiles g st"
| "uaTell g st UaCmdCommitGc = uaTellCommitGc g st"
| "uaTell g st UaCmdCommit = uaTellCommit g st"
| "uaTell g st (UaCmdAbort code msg) = uaTellAbort g st code msg"
| "uaTell g st UaCmdEnd = uaTellEnd g st"
| "uaTell g st UaCmdForeign = Err WfInvalidCommandError"

lemmas uaTell_defs =
  uaTellInit_def uaTellBeginFiles_def uaTellBeginTartt_def uaTellCommitTartt_def uaTellAbortTartt_def uaTellCommitFiles_def
  uaTellAbortFiles_def uaTellEndFiles_def uaTellCommitGc_def uaTellCommit_def uaTellAbort_def uaTellEnd_def

definition uaBehavior :: "ulid_unmarshal \<Rightarrow> (UnarchiveState, ua_cmd, WorkflowPb Event, wf_error) Behavior" where
  "uaBehavior ub = \<lparr>NewState = uaNewState, StId = uas_id, StVid = uas_vid,
     SetVid = (\<lambda>v st. st\<lparr>uas_vid := v\<rparr>), Advance = uaAdvance ub, Tell = uaTell\<rparr>"

definition uaEventType :: "WorkflowEvent_Type \<Rightarrow> bool" where
  "uaEventType t \<longleftrightarrow> t \<in> {WT_FSO_UNARCHIVE_REPO_STARTED, WT_FSO_UNARCHIVE_REPO_FILES_STARTED,
     WT_FSO_UNARCHIVE_REPO_TARTT_STARTED, WT_FSO_UNARCHIVE_REPO_TARTT_COMPLETED, WT_FSO_UNARCHIVE_REPO_FILES_COMPLETED,
     WT_FSO_UNARCHIVE_REPO_FILES_COMMITTED, WT_FSO_UNARCHIVE_REPO_GC_COMPLETED, WT_FSO_UNARCHIVE_REPO_COMPLETED,
     WT_FSO_UNARCHIVE_REPO_COMMITTED, WT_FSO_UNARCHIVE_REPO_DELETED}"

abbreviation uaOps where
  "uaOps pm pu ub \<equiv> wfEventOps uaEventType (GoErr ''invalid event type'') pm pu ub"

lemma uaBehavior_simps [simp]:
  "NewState (uaBehavior ub) = uaNewState" "StId (uaBehavior ub) = uas_id" "StVid (uaBehavior ub) = uas_vid"
  "SetVid (uaBehavior ub) v st = st\<lparr>uas_vid := v\<rparr>" "Advance (uaBehavior ub) = uaAdvance ub"
  "Tell (uaBehavior ub) = uaTell"
  by (simp_all add: uaBehavior_def)

section \<open>The state machine\<close>

text \<open>
  The callers' obligation: the fields of the init command are set, and an abort has an error code.  The phase of a
  state is its code together with the success of the files so far, on which commit and abort depend.
\<close>

definition ua_pre :: "UnarchiveState \<Rightarrow> ua_cmd \<Rightarrow> bool" where
  "ua_pre st c \<longleftrightarrow> (case c of
     UaCmdInit cmd \<Rightarrow> init_ok cmd \<and> ci_RepoArchiveURL cmd \<noteq> [] \<and> ci_TarttTarPath cmd \<noteq> []
   | UaCmdAbortTartt code _ \<Rightarrow> code \<noteq> 0
   | UaCmdAbortFiles code _ \<Rightarrow> code \<noteq> 0
   | UaCmdAbort code _ \<Rightarrow> code \<noteq> 0
   | _ \<Rightarrow> True)"

definition uaPhase :: "UnarchiveState \<Rightarrow> ua_code \<times> bool" where
  "uaPhase st = (uas_scode st, uas_statusCode st = 0)"

definition uaNext :: "ua_code \<times> bool \<Rightarrow> (ua_code \<times> bool) list" where
  "uaNext k = (let ok = snd k in case fst k of
     UaUninitialized \<Rightarrow> [(UaInitialized, ok)]
   | UaInitialized \<Rightarrow> [(UaFiles, ok), (UaFailed, False)]
   | UaFiles \<Rightarrow> [(UaTartt, ok), (UaFilesFailed, False)]
   | UaTartt \<Rightarrow> [(UaTarttCompleted, True), (UaTarttFailed, False)]
   | UaTarttCompleted \<Rightarrow> [(UaFilesCompleted, True), (UaFilesFailed, False)]
   | UaTarttFailed \<Rightarrow> [(UaFilesEnded, ok)]
   | UaFilesCompleted \<Rightarrow> [(UaFilesEnded, ok)]
   | UaFilesFailed \<Rightarrow> [(UaFilesEnded, ok)]
   | UaFilesEnded \<Rightarrow> [(UaGcCompleted, ok)]
   | UaGcCompleted \<Rightarrow> [if ok then (UaCompleted, True) else (UaFailed, False)]
   | UaCompleted \<Rightarrow> [(UaTerminated, ok)]
   | UaFailed \<Rightarrow> [(UaTerminated, ok)]
   | UaTerminated \<Rightarrow> [])"

abbreviation ua_step :: "ua_code \<times> bool \<Rightarrow> ua_code \<times> bool \<Rightarrow> bool" where
  "ua_step \<equiv> \<lambda>k k'. k' \<in> set (uaNext k)"

definition ua_rank :: "ua_code \<times> bool \<Rightarrow> nat" where
  "ua_rank k = (case fst k of UaUninitialized \<Rightarrow> 0 | UaInitialized \<Rightarrow> 1 | UaFiles \<Rightarrow> 2 | UaTartt \<Rightarrow> 3
     | UaTarttCompleted \<Rightarrow> 4 | UaTarttFailed \<Rightarrow> 5 | UaFilesCompleted \<Rightarrow> 5 | UaFilesFailed \<Rightarrow> 5
     | UaFilesEnded \<Rightarrow> 6 | UaGcCompleted \<Rightarrow> 7
     | UaCompleted \<Rightarrow> 8 | UaFailed \<Rightarrow> 8 | UaTerminated \<Rightarrow> 9)"

definition ua_inv :: "UnarchiveState \<Rightarrow> bool" where
  "ua_inv st \<longleftrightarrow>
     (uas_scode st \<noteq> UaUninitialized \<longrightarrow>
        uas_registryId st \<noteq> 0 \<and> uas_registryName st \<noteq> [] \<and> uas_repoId st \<noteq> 0 \<and> uas_globalPath st \<noteq> []) \<and>
     (uas_scode st \<in> {UaTarttCompleted, UaFilesCompleted, UaCompleted} \<longrightarrow> uas_statusCode st = 0) \<and>
     (uas_scode st \<in> {UaTarttFailed, UaFilesFailed, UaFailed} \<longrightarrow> uas_statusCode st \<noteq> 0)"

lemma uaNewState_simps [simp]:
  "uaPhase (uaNewState i) = (UaUninitialized, True)" "uas_id (uaNewState i) = i" "ua_inv (uaNewState i)"
  by (simp_all add: uaNewState_def uaPhase_def ua_inv_def)

lemma ua_vid [simp]: "ua_inv (st\<lparr>uas_vid := v\<rparr>) = ua_inv st" "uaPhase (st\<lparr>uas_vid := v\<rparr>) = uaPhase st"
  by (simp_all add: ua_inv_def uaPhase_def)

abbreviation ua_moves where
  "ua_moves ub \<equiv> moves ub uaEventType (uaBehavior ub) (\<lambda>st _. uaAdvanceEv st) ua_inv uaPhase ua_step"

lemmas ua_simps = uaEventType_def uaTell_defs uaAdvanceEv_def ua_inv_def ua_pre_def uaNext_def uaPhase_def

lemma uaTellInit_moves:
  assumes "ulid_binary ub" "ua_inv st" "ua_pre st (UaCmdInit cmd)" "uaTellInit g st cmd = Ok evs"
  shows "\<exists>pbs. wfNewEvents g (uas_vid st) pbs = Inr evs \<and> ua_moves ub st pbs"
proof (cases "uas_scode st = UaUninitialized")
  case True
  then obtain p where p: "(wfNewPbUnarchiveRepoStartedWorkflow (unarchiveStarted cmd) :: (wf_error, WorkflowPb) outcome) = Ok p"
    "wfNewEvents g (uas_vid st) [p] = Inr evs"
    using assms(4) by (auto simp: uaTellInit_def outcome_simps)
  show ?thesis
    using True p assms(3) parse_UnarchiveRepoStartedWorkflow [OF assms(1) p(1)]
    by (intro exI [of _ "[p]"]) (simp add: ua_simps init_ok_def)
qed (use assms(2,4) in \<open>auto simp: uaTellInit_def split: ua_code.splits if_splits intro: exI [of _ "[]"]\<close>)

lemma uaTell_moves:
  assumes "ulid_binary ub" "ua_inv st" "ua_pre st c" "uaTell g st c = Ok evs"
  shows "\<exists>pbs. wfNewEvents g (uas_vid st) pbs = Inr evs \<and> ua_moves ub st pbs"
proof (cases "evs = []")
  case True
  then show ?thesis using assms(2) by (intro exI [of _ "[]"]) simp
next
  case False
  show ?thesis
  proof (cases c)
    case (UaCmdInit cmd)
    then show ?thesis using uaTellInit_moves [OF assms(1,2)] assms(3,4) by simp
  qed ((use assms(2-4) False in \<open>auto simp: ua_simps outcome_simps wfCompleted_def split: ua_code.splits if_splits
        intro!: exI [of _ "[_]"]\<close>)[1])+
qed

lemma ua_workflow_code:
  assumes "ulid_binary ub"
  shows "workflow_code ub uaEventType (uaBehavior ub) (\<lambda>st _. uaAdvanceEv st) ua_inv ua_pre uaPhase
    (UaUninitialized, True) ua_step"
proof
  show "\<not> is_Panic (Tell (uaBehavior ub) g st c)" if "ua_inv st" "ua_pre st c" for g st c
    using that(2) by (cases c) (auto simp: ua_simps outcome_simps wfNewPbUnarchiveRepoStartedWorkflow_def
      validateWorkflowUnarchiveRepoStarted_def firstError_None init_ok_def
      split: ua_code.splits)
  show "wf_emits g (StVid (uaBehavior ub) st) (Tell (uaBehavior ub) g st c)" for g st c
    by (cases c) (auto simp: uaTell_defs wfNewPbUnarchiveRepoStartedWorkflow_def
      split: ua_code.splits)
  show "\<exists>pbs. wfNewEvents g (StVid (uaBehavior ub) st) pbs = Inr evs \<and> ua_moves ub st pbs"
    if "ua_inv st" "ua_pre st c" "Tell (uaBehavior ub) g st c = Ok evs" for g st c evs
    using uaTell_moves [OF assms] that by simp
  show "StId (uaBehavior ub) s' = StId (uaBehavior ub) s" if "uaAdvanceEv s x = Ok s'" for s x s'
    using that by (cases x) (auto simp: uaAdvanceEv_def split: WfUnarchiveEvent.splits)
qed (simp_all add: uaAdvance_def)

text \<open>Every step of the machine can be taken.\<close>

definition demo_unarchive :: UnarchiveCmdInit where
  "demo_unarchive = \<lparr>ci_RegistryId = 1, ci_RegistryName = ''reg'', ci_StartRegistryVid = 0, ci_RepoId = 7,
     ci_RepoGlobalPath = ''/g/a'', ci_StartRepoVid = 0, ci_AuthorName = ''A'', ci_AuthorEmail = ''a@b'',
     ci_RepoArchiveURL = ''tartt://h'', ci_TarttTarPath = ''t''\<rparr>"

lemma demo_unarchive_ok [simp]:
  "init_ok demo_unarchive" "ci_RepoArchiveURL demo_unarchive \<noteq> []" "ci_TarttTarPath demo_unarchive \<noteq> []"
  by (simp_all add: init_ok_def demo_unarchive_def)

definition uaTake :: "ua_code \<Rightarrow> ua_code \<Rightarrow> ua_cmd" where
  "uaTake k k' = (case k' of
     UaInitialized \<Rightarrow> UaCmdInit demo_unarchive
   | UaFiles \<Rightarrow> UaCmdBeginFiles (Some \<lparr>ap_Policy = P_NO_ACLS, ap_FsoRootInfo = None\<rparr>)
   | UaTartt \<Rightarrow> UaCmdBeginTartt ''w''
   | UaTarttCompleted \<Rightarrow> UaCmdCommitTartt
   | UaTarttFailed \<Rightarrow> UaCmdAbortTartt 1 []
   | UaFilesCompleted \<Rightarrow> UaCmdCommitFiles
   | UaFilesFailed \<Rightarrow> UaCmdAbortFiles 1 []
   | UaFilesEnded \<Rightarrow> UaCmdEndFiles
   | UaGcCompleted \<Rightarrow> UaCmdCommitGc
   | UaCompleted \<Rightarrow> UaCmdCommit
   | UaFailed \<Rightarrow> UaCmdAbort 1 []
   | _ \<Rightarrow> UaCmdEnd)"

lemma ua_complete:
  assumes "ulid_binary ub" "ua_inv st" "ua_step (uaPhase st) k"
  shows "\<exists>c g ev s'. ua_pre st c \<and> Tell (uaBehavior ub) g st c = Ok [ev] \<and>
    Advance (uaBehavior ub) st ev = Ok s' \<and> uaPhase s' = k"
proof -
  obtain p where p: "(wfNewPbUnarchiveRepoStartedWorkflow (unarchiveStarted demo_unarchive) :: (wf_error, WorkflowPb) outcome) = Ok p"
    by (simp add: wfNewPbUnarchiveRepoStartedWorkflow_def validateWorkflowUnarchiveRepoStarted_def orPanic_def
        firstError.simps demo_unarchive_def)
  show ?thesis
    using assms(2,3) p parse_UnarchiveRepoStartedWorkflow [OF assms(1) p]
    by (intro exI [of _ "uaTake (uas_scode st) (fst k)"] exI [of _ "\<lambda>_. Inr 1"])
      (cases "uas_scode st"; auto simp: ua_simps uaTake_def wfEmit_def wfNewEvents_def uaAdvance_def
        MustParsePbWorkflowEvent_def wfCompleted_def split: if_splits)
qed

lemma ua_workflow_exact:
  assumes "ulid_binary ub"
  shows "workflow_exact (uaBehavior ub) (uaOps pm pu ub) ua_inv ua_pre uaPhase (UaUninitialized, True) ua_step"
  by (intro workflow_exact.intro workflow_exact_axioms.intro ua_complete [OF assms]
      workflow_code.is_workflow [OF ua_workflow_code [OF assms]])

lemma ua_rank_step: "ua_step k k' \<Longrightarrow> ua_rank k < ua_rank k'"
  by (auto simp: uaNext_def ua_rank_def Let_def split: ua_code.splits if_splits)

lemma ua_workflow_bounded:
  assumes "ulid_binary ub"
  shows "workflow_bounded (uaBehavior ub) (uaOps pm pu ub) ua_inv ua_pre uaPhase (UaUninitialized, True) ua_step ua_rank"
  by (intro workflow_bounded.intro workflow_bounded_axioms.intro
      workflow_code.is_workflow [OF ua_workflow_code [OF assms]] ua_rank_step)

interpretation ua: workflow_code ulidUnmarshal uaEventType "GoErr ''invalid event type''" pm pu
  "uaBehavior ulidUnmarshal" "\<lambda>st _. uaAdvanceEv st" ua_inv ua_pre uaPhase "(UaUninitialized, True)" ua_step for pm pu
  by (rule ua_workflow_code) simp

interpretation ua_exact: workflow_exact "uaBehavior ulidUnmarshal" "uaOps pm pu ulidUnmarshal" ua_inv ua_pre
  uaPhase "(UaUninitialized, True)" ua_step for pm pu
  by (rule ua_workflow_exact) simp

interpretation ua_bounded: workflow_bounded "uaBehavior ulidUnmarshal" "uaOps pm pu ulidUnmarshal" ua_inv ua_pre
  uaPhase "(UaUninitialized, True)" ua_step ua_rank for pm pu
  by (rule ua_workflow_bounded) simp

section \<open>Properties\<close>

abbreviation ua_live where
  "ua_live pm pu ub \<equiv> live (uaBehavior ub) (uaOps pm pu ub) ua_pre"

abbreviation ua_codes where
  "ua_codes pm pu ub i hist \<equiv>
     map fst (trace (uaBehavior ub) (uaOps pm pu ub) uaPhase ((uaNewState i)\<lparr>uas_vid := EventEpoch\<rparr>) hist)"

text \<open>The section "Possible State Paths" of the package comment, and one path that it does not mention.\<close>

definition uaDocPaths :: "ua_code list list" where
  "uaDocPaths =
     [[UaInitialized, UaFiles, UaTartt, UaTarttCompleted, UaFilesCompleted, UaFilesEnded, UaGcCompleted, UaCompleted,
       UaTerminated],
      [UaInitialized, UaFailed, UaTerminated],
      [UaInitialized, UaFiles, UaTartt, UaTarttFailed, UaFilesEnded, UaGcCompleted, UaFailed, UaTerminated],
      [UaInitialized, UaFiles, UaTartt, UaTarttCompleted, UaFilesFailed, UaFilesEnded, UaGcCompleted, UaFailed,
       UaTerminated]]"

definition uaPaths :: "ua_code list list" where
  "uaPaths = [UaInitialized, UaFiles, UaFilesFailed, UaFilesEnded, UaGcCompleted, UaFailed, UaTerminated] # uaDocPaths"

lemma ua_runs: "set (map (map fst) (runs uaNext 9 (UaUninitialized, True))) = set uaPaths"
  by (simp add: uaPaths_def uaDocPaths_def uaNext_def eval_nat_numeral insert_commute)

text \<open>
  C32: the unarchive workflow takes exactly the state paths that its documentation lists and one more, on which the
  files are aborted before tartt has started: the codes that the histories of live workflows pass are the prefixes of
  these paths.
\<close>

theorem unarchive_paths:
  assumes "ulid_binary ub"
  shows "{ua_codes pm pu ub i hist | st hist. ua_live pm pu ub i st hist} = {ks. \<exists>p \<in> set uaPaths. prefix ks p}"
proof -
  let ?T = "{trace (uaBehavior ub) (uaOps pm pu ub) uaPhase ((uaNewState i)\<lparr>uas_vid := EventEpoch\<rparr>) hist | st hist.
    ua_live pm pu ub i st hist}"
  have t: "?T = {ks. \<exists>p \<in> set (runs uaNext 9 (UaUninitialized, True)). prefix ks p}"
    using workflow_exact.live_traces [OF ua_workflow_exact [OF assms], of pm pu i]
      bounded_paths [of uaNext ua_rank "(UaUninitialized, True)" 9, OF ua_rank_step]
    by (simp add: ua_rank_def split: ua_code.splits)
  have "map fst ` ?T = {ks. \<exists>p \<in> set uaPaths. prefix ks p}"
    unfolding t map_prefixes ua_runs ..
  then show ?thesis by (simp only: image_Collect) blast
qed

theorem unarchive_paths_witness:
  "{ua_codes (\<lambda>_. Inr []) (\<lambda>_. Inl (GoErr [])) ulidUnmarshal 7 hist | st hist.
      ua_live (\<lambda>_. Inr []) (\<lambda>_. Inl (GoErr [])) ulidUnmarshal 7 st hist} = {ks. \<exists>p \<in> set uaPaths. prefix ks p} \<and>
   length uaPaths = 5"
  using unarchive_paths [OF ulidUnmarshal_ok] by (simp add: uaPaths_def uaDocPaths_def)

end
