(* ===== verification/Split_Root_Workflow.thy ===== *)
theory Split_Root_Workflow
  imports Workflow_Base
begin

text \<open>
  The split-root workflow (\<open>backend/internal/workflows/splitrootwf\<close>): nogfsostad appends the disk usage of paths,
  nogfsoregd appends suggestions, and an admin decides on every path that has been suggested as a repo.  The set
  \<open>candidates\<close> of the Go state, a map to empty structs, is a set of paths.
\<close>

section \<open>State and commands\<close>

datatype (plugins only: code) sp_code =
    SpUninitialized | SpInitialized | SpDuAppending | SpDuCompleted | SpDuFailed | SpSuggestionsAppending
  | SpAnalysisCompleted | SpAnalysisFailed | SpDecisionsAppending | SpCompleted | SpFailed | SpTerminated

record PathUsage =
  pu_Path :: string
  pu_Usage :: "64 word"

record Suggestion =
  sg_Path :: string
  sg_Suggestion :: SplitRootSuggestion

record Decision =
  dn_Path :: string
  dn_Decision :: SplitRootDecision

record SplitState =
  sps_id :: uuid
  sps_vid :: ulid
  sps_scode :: sp_code
  sps_statusCode :: "32 word"
  sps_statusMessage :: string
  sps_registryId :: uuid
  sps_globalRoot :: string
  sps_host :: string
  sps_hostRoot :: string
  sps_maxDepth :: "32 word"
  sps_minDiskUsage :: "64 word"
  sps_maxDiskUsage :: "64 word"
  sps_du :: "PathUsage list"
  sps_suggestions :: "Suggestion list"
  sps_decisions :: "Decision list"
  sps_candidates :: "string set"

record SplitCmdInit =
  pi_RegistryId :: uuid
  pi_GlobalRoot :: string
  pi_Host :: string
  pi_HostRoot :: string
  pi_MaxDepth :: "32 word"
  pi_MinDiskUsage :: "64 word"
  pi_MaxDiskUsage :: "64 word"

datatype (plugins only: code) sp_cmd =
    SpCmdInit SplitCmdInit
  | SpCmdAppendDus "PathUsage list"
  | SpCmdCommitDu
  | SpCmdAbortDu "32 word" string
  | SpCmdAppendSuggestions "Suggestion list"
  | SpCmdCommitAnalysis
  | SpCmdAbortAnalysis "32 word" string
  | SpCmdAppendDecision string SplitRootDecision
  | SpCmdCommit
  | SpCmdAbort "32 word" string
  | SpCmdAbortExpired
  | SpCmdEnd
  | SpCmdDelete
  | SpCmdForeign \<comment> \<open>a command of another aggregate\<close>

definition ConfigMaxDuPaths :: nat where "ConfigMaxDuPaths = 300"

definition ConfigMaxSuggestions :: nat where "ConfigMaxSuggestions = 300"

definition SpStatusCodeExpired :: "32 word" where "SpStatusCodeExpired = 104"

definition spNewState :: "uuid \<Rightarrow> SplitState" where
  "spNewState i = \<lparr>sps_id = i, sps_vid = 0, sps_scode = SpUninitialized, sps_statusCode = 0, sps_statusMessage = [],
     sps_registryId = uuidNil, sps_globalRoot = [], sps_host = [], sps_hostRoot = [], sps_maxDepth = 0,
     sps_minDiskUsage = 0, sps_maxDiskUsage = 0, sps_du = [], sps_suggestions = [], sps_decisions = [],
     sps_candidates = {}\<rparr>"

section \<open>Advance\<close>

definition spAdvanceEv :: "SplitState \<Rightarrow> WorkflowEvent \<Rightarrow> (wf_error, SplitState) outcome" where
  "spAdvanceEv st ev =
     (case ev of
        WvSplitRootStarted x \<Rightarrow>
          Ok (st\<lparr>sps_scode := SpInitialized, sps_registryId := os_RegistryId x, sps_globalRoot := os_GlobalRoot x,
                 sps_host := os_Host x, sps_hostRoot := os_HostRoot x, sps_maxDepth := ss_MaxDepth x,
                 sps_minDiskUsage := ss_MinDiskUsage x, sps_maxDiskUsage := ss_MaxDiskUsage x\<rparr>)
      | WvSplitRootDuAppended path usage \<Rightarrow>
          Ok (st\<lparr>sps_scode := SpDuAppending, sps_du := sps_du st @ [\<lparr>pu_Path = path, pu_Usage = usage\<rparr>]\<rparr>)
      | WvSplitRootDuCompleted code _ \<Rightarrow>
          Ok (st\<lparr>sps_scode := (if code = 0 then SpDuCompleted else SpDuFailed)\<rparr>)
      | WvSplitRootSuggestionAppended path x \<Rightarrow>
          Ok (st\<lparr>sps_scode := SpSuggestionsAppending,
                 sps_suggestions := sps_suggestions st @ [\<lparr>sg_Path = path, sg_Suggestion = x\<rparr>],
                 sps_candidates := (if x = S_REPO_CANDIDATE then insert path (sps_candidates st)
                   else sps_candidates st)\<rparr>)
      | WvSplitRootAnalysisCompleted code _ \<Rightarrow>
          Ok (st\<lparr>sps_scode := (if code = 0 then SpAnalysisCompleted else SpAnalysisFailed)\<rparr>)
      | WvSplitRootDecisionAppended path x \<Rightarrow>
          Ok (st\<lparr>sps_scode := SpDecisionsAppending,
                 sps_decisions := sps_decisions st @ [\<lparr>dn_Path = path, dn_Decision = x\<rparr>],
                 sps_candidates := sps_candidates st - {path}\<rparr>)
      | WvSplitRootCompleted x \<Rightarrow>
          Ok (st\<lparr>sps_statusCode := wc_StatusCode x, sps_statusMessage := wc_StatusMessage x,
                 sps_scode := (if wc_StatusCode x = 0 then SpCompleted else SpFailed)\<rparr>)
      | WvSplitRootCommitted \<Rightarrow> Ok (st\<lparr>sps_scode := SpTerminated\<rparr>)
      | _ \<Rightarrow> Panic ''invalid event'')"

definition spAdvance ::
  "ulid_unmarshal \<Rightarrow> SplitState \<Rightarrow> WorkflowPb Event \<Rightarrow> (wf_error, SplitState) outcome" where
  "spAdvance ub st ev = obind (MustParsePbWorkflowEvent ub (ev_pb ev)) (spAdvanceEv st)"

section \<open>Tell\<close>

definition spIsIdempotent :: "SplitCmdInit \<Rightarrow> SplitState \<Rightarrow> bool" where
  "spIsIdempotent cmd st \<longleftrightarrow>
     pi_RegistryId cmd = sps_registryId st \<and> pi_GlobalRoot cmd = sps_globalRoot st \<and>
     pi_Host cmd = sps_host st \<and> pi_HostRoot cmd = sps_hostRoot st \<and> pi_MaxDepth cmd = sps_maxDepth st \<and>
     pi_MinDiskUsage cmd = sps_minDiskUsage st \<and> pi_MaxDiskUsage cmd = sps_maxDiskUsage st"

definition splitStarted :: "SplitCmdInit \<Rightarrow> SplitRootStarted" where
  "splitStarted cmd = \<lparr>os_RegistryId = pi_RegistryId cmd, os_WorkflowId = uuidNil, os_WorkflowEventId = ulidNil,
     os_GlobalRoot = pi_GlobalRoot cmd, os_Host = pi_Host cmd, os_HostRoot = pi_HostRoot cmd,
     ss_MaxDepth = pi_MaxDepth cmd, ss_MinDiskUsage = pi_MinDiskUsage cmd, ss_MaxDiskUsage = pi_MaxDiskUsage cmd\<rparr>"

definition spTellInit ::
  "ulid_source \<Rightarrow> SplitState \<Rightarrow> SplitCmdInit \<Rightarrow> (wf_error, WorkflowPb Event list) outcome" where
  "spTellInit g st cmd =
     (case sps_scode st of
        SpUninitialized \<Rightarrow>
          obind (wfNewPbSplitRootStartedWorkflow (splitStarted cmd)) (\<lambda>p. wfEmit g (sps_vid st) [p])
      | SpInitialized \<Rightarrow> if \<not> spIsIdempotent cmd st then Err WfNotIdempotentError else Ok []
      | _ \<Rightarrow> Err WfStateConflictError)"

definition spTellAppendDus ::
  "ulid_source \<Rightarrow> SplitState \<Rightarrow> PathUsage list \<Rightarrow> (wf_error, WorkflowPb Event list) outcome" where
  "spTellAppendDus g st paths =
     (if sps_scode st \<notin> {SpInitialized, SpDuAppending} then Err WfStateConflictError
      else if length (sps_du st) + length paths > ConfigMaxDuPaths
      then Err (WfResourceExhaustedError ''more than 300 du paths'')
      else wfEmitPlain g (sps_vid st) (map (\<lambda>p. wfNewPbSplitRootDuAppended (pu_Path p) (pu_Usage p)) paths))"

definition spTellCommitDu :: "ulid_source \<Rightarrow> SplitState \<Rightarrow> (wf_error, WorkflowPb Event list) outcome" where
  "spTellCommitDu g st =
     (case sps_scode st of
        SpInitialized \<Rightarrow> Err WfStateConflictError
      | SpDuAppending \<Rightarrow> wfEmitPlain g (sps_vid st) [wfNewPbSplitRootDuCompletedOk]
      | SpDuCompleted \<Rightarrow> Ok []
      | _ \<Rightarrow> Err WfStateConflictError)"

definition spTellAbortDu ::
  "ulid_source \<Rightarrow> SplitState \<Rightarrow> 32 word \<Rightarrow> string \<Rightarrow> (wf_error, WorkflowPb Event list) outcome" where
  "spTellAbortDu g st code msg =
     (if sps_scode st \<in> {SpInitialized, SpDuAppending}
      then wfEmitPlain g (sps_vid st) [wfNewPbSplitRootDuCompletedError code msg]
      else if sps_scode st = SpDuFailed then Ok []
      else Err WfStateConflictError)"

definition spTellAppendSuggestions ::
  "ulid_source \<Rightarrow> SplitState \<Rightarrow> Suggestion list \<Rightarrow> (wf_error, WorkflowPb Event list) outcome" where
  "spTellAppendSuggestions g st xs =
     (if sps_scode st \<notin> {SpDuCompleted, SpSuggestionsAppending} then Err WfStateConflictError
      else if length (sps_suggestions st) + length xs > ConfigMaxSuggestions
      then Err (WfResourceExhaustedError ''more than 300 suggestions'')
      else wfEmitPlain g (sps_vid st)
        (map (\<lambda>x. wfNewPbSplitRootSuggestionAppended (sg_Path x) (sg_Suggestion x)) xs))"

definition spTellCommitAnalysis ::
  "ulid_source \<Rightarrow> SplitState \<Rightarrow> (wf_error, WorkflowPb Event list) outcome" where
  "spTellCommitAnalysis g st =
     (case sps_scode st of
        SpSuggestionsAppending \<Rightarrow> wfEmitPlain g (sps_vid st) [wfNewPbSplitRootAnalysisCompletedOk]
      | SpAnalysisCompleted \<Rightarrow> Ok []
      | _ \<Rightarrow> Err WfStateConflictError)"

definition spTellAbortAnalysis ::
  "ulid_source \<Rightarrow> SplitState \<Rightarrow> 32 word \<Rightarrow> string \<Rightarrow> (wf_error, WorkflowPb Event list) outcome" where
  "spTellAbortAnalysis g st code msg =
     (if sps_scode st \<in> {SpDuCompleted, SpSuggestionsAppending}
      then wfEmitPlain g (sps_vid st) [wfNewPbSplitRootAnalysisCompletedError code msg]
      else if sps_scode st = SpAnalysisFailed then Ok []
      else Err WfStateConflictError)"

definition spIsCandidate :: "SplitState \<Rightarrow> string \<Rightarrow> bool" where
  "spIsCandidate st path \<longleftrightarrow> path \<in> sps_candidates st"

definition spTellAppendDecision ::
  "ulid_source \<Rightarrow> SplitState \<Rightarrow> string \<Rightarrow> SplitRootDecision \<Rightarrow> (wf_error, WorkflowPb Event list) outcome" where
  "spTellAppendDecision g st path d =
     (if sps_scode st \<notin> {SpAnalysisCompleted, SpDecisionsAppending} then Err WfStateConflictError
      else if \<not> spIsCandidate st path then Err (WfNotCandidateError path)
      else wfEmitPlain g (sps_vid st) [wfNewPbSplitRootDecisionAppended path d])"

definition spTellCommit :: "ulid_source \<Rightarrow> SplitState \<Rightarrow> (wf_error, WorkflowPb Event list) outcome" where
  "spTellCommit g st =
     (if sps_scode st = SpCompleted then Ok []
      else if sps_scode st \<notin> {SpAnalysisCompleted, SpDecisionsAppending} then Err WfStateConflictError
      else if sps_candidates st \<noteq> {} then Err WfUndecidedCandidatesError
      else wfEmit g (sps_vid st) [wfNewPbSplitRootCompletedOk])"

definition spTellAbort ::
  "ulid_source \<Rightarrow> SplitState \<Rightarrow> 32 word \<Rightarrow> string \<Rightarrow> (wf_error, WorkflowPb Event list) outcome" where
  "spTellAbort g st code msg =
     (if sps_scode st \<in> {SpDuFailed, SpAnalysisFailed, SpAnalysisCompleted}
      then wfEmitPlain g (sps_vid st) [wfNewPbSplitRootCompletedError code msg]
      else if sps_scode st = SpFailed then Ok []
      else Err WfStateConflictError)"

definition spTellAbortExpired :: "ulid_source \<Rightarrow> SplitState \<Rightarrow> (wf_error, WorkflowPb Event list) outcome" where
  "spTellAbortExpired g st =
     (if sps_scode st \<in> {SpCompleted, SpFailed, SpTerminated} then Ok []
      else if sps_scode st = SpUninitialized then Err WfStateConflictError
      else wfEmitPlain g (sps_vid st) [wfNewPbSplitRootCompletedError SpStatusCodeExpired ''expired''])"

definition spTellEnd :: "ulid_source \<Rightarrow> SplitState \<Rightarrow> (wf_error, WorkflowPb Event list) outcome" where
  "spTellEnd g st =
     (if sps_scode st \<in> {SpCompleted, SpFailed} then wfEmit g (sps_vid st) [wfNewPbSplitRootCommitted]
      else if sps_scode st = SpTerminated then Ok []
      else Err WfStateConflictError)"

definition spTellDelete :: "SplitState \<Rightarrow> (wf_error, WorkflowPb Event list) outcome" where
  "spTellDelete st =
     (if sps_scode st \<in> {SpUninitialized, SpCompleted, SpFailed, SpTerminated} then Ok []
      else Err WfStateConflictError)"

fun spTell :: "ulid_source \<Rightarrow> SplitState \<Rightarrow> sp_cmd \<Rightarrow> (wf_error, WorkflowPb Event list) outcome" where
  "spTell g st (SpCmdInit cmd) = spTellInit g st cmd"
| "spTell g st (SpCmdAppendDus paths) = spTellAppendDus g st paths"
| "spTell g st SpCmdCommitDu = spTellCommitDu g st"
| "spTell g st (SpCmdAbortDu code msg) = spTellAbortDu g st code msg"
| "spTell g st (SpCmdAppendSuggestions xs) = spTellAppendSuggestions g st xs"
| "spTell g st SpCmdCommitAnalysis = spTellCommitAnalysis g st"
| "spTell g st (SpCmdAbortAnalysis code msg) = spTellAbortAnalysis g st code msg"
| "spTell g st (SpCmdAppendDecision path d) = spTellAppendDecision g st path d"
| "spTell g st SpCmdCommit = spTellCommit g st"
| "spTell g st (SpCmdAbort code msg) = spTellAbort g st code msg"
| "spTell g st SpCmdAbortExpired = spTellAbortExpired g st"
| "spTell g st SpCmdEnd = spTellEnd g st"
| "spTell g st SpCmdDelete = spTellDelete st"
| "spTell g st SpCmdForeign = Err WfInvalidCommandError"

lemmas spTell_defs =
  spTellInit_def spTellAppendDus_def spTellCommitDu_def spTellAbortDu_def spTellAppendSuggestions_def
  spTellCommitAnalysis_def spTellAbortAnalysis_def spTellAppendDecision_def spTellCommit_def spTellAbort_def
  spTellAbortExpired_def spTellEnd_def spTellDelete_def

definition spBehavior :: "ulid_unmarshal \<Rightarrow> (SplitState, sp_cmd, WorkflowPb Event, wf_error) Behavior" where
  "spBehavior ub = \<lparr>NewState = spNewState, StId = sps_id, StVid = sps_vid,
     SetVid = (\<lambda>v st. st\<lparr>sps_vid := v\<rparr>), Advance = spAdvance ub, Tell = spTell\<rparr>"

definition spEventType :: "WorkflowEvent_Type \<Rightarrow> bool" where
  "spEventType t \<longleftrightarrow> t \<in> {WT_FSO_SPLIT_ROOT_STARTED, WT_FSO_SPLIT_ROOT_DU_APPENDED, WT_FSO_SPLIT_ROOT_DU_COMPLETED,
     WT_FSO_SPLIT_ROOT_SUGGESTION_APPENDED, WT_FSO_SPLIT_ROOT_ANALYSIS_COMPLETED, WT_FSO_SPLIT_ROOT_DECISION_APPENDED,
     WT_FSO_SPLIT_ROOT_COMPLETED, WT_FSO_SPLIT_ROOT_COMMITTED}"

abbreviation spOps where
  "spOps pm pu ub \<equiv> wfEventOps spEventType (GoErr ''invalid event type'') pm pu ub"

lemma spBehavior_simps [simp]:
  "NewState (spBehavior ub) = spNewState" "StId (spBehavior ub) = sps_id" "StVid (spBehavior ub) = sps_vid"
  "SetVid (spBehavior ub) v st = st\<lparr>sps_vid := v\<rparr>" "Advance (spBehavior ub) = spAdvance ub"
  "Tell (spBehavior ub) = spTell"
  by (simp_all add: spBehavior_def)

section \<open>The state machine\<close>

text \<open>
  The callers' obligation: the fields of the init command are set.  The phase of a
  state is its code with the numbers of disk usages, suggestions and decisions.  An abort with the status code \<open>0\<close>, which
  nothing checks, completes the workflow.
\<close>

definition split_init_ok :: "SplitCmdInit \<Rightarrow> bool" where
  "split_init_ok cmd \<longleftrightarrow> pi_RegistryId cmd \<noteq> 0 \<and> pi_GlobalRoot cmd \<noteq> [] \<and> pi_Host cmd \<noteq> [] \<and>
     pi_HostRoot cmd \<noteq> [] \<and> pi_MaxDepth cmd \<noteq> 0 \<and> pi_MinDiskUsage cmd \<noteq> 0 \<and> pi_MaxDiskUsage cmd \<noteq> 0"

definition sp_pre :: "SplitState \<Rightarrow> sp_cmd \<Rightarrow> bool" where
  "sp_pre st c \<longleftrightarrow> (case c of
     SpCmdInit cmd \<Rightarrow> split_init_ok cmd
   | _ \<Rightarrow> True)"

type_synonym sp_phase = "sp_code \<times> nat \<times> nat \<times> nat"

definition spPhase :: "SplitState \<Rightarrow> sp_phase" where
  "spPhase st = (sps_scode st, length (sps_du st), length (sps_suggestions st), length (sps_decisions st))"

text \<open>The moves between the codes that leave the numbers, and the moves that append.\<close>

definition spMoves :: "sp_code \<Rightarrow> sp_code list" where
  "spMoves k = (case k of
     SpUninitialized \<Rightarrow> [SpInitialized]
   | SpInitialized \<Rightarrow> [SpDuCompleted, SpDuFailed, SpFailed]
   | SpDuAppending \<Rightarrow> [SpDuCompleted, SpDuFailed, SpFailed]
   | SpDuCompleted \<Rightarrow> [SpAnalysisCompleted, SpAnalysisFailed, SpFailed]
   | SpDuFailed \<Rightarrow> [SpCompleted, SpFailed]
   | SpSuggestionsAppending \<Rightarrow> [SpAnalysisCompleted, SpAnalysisFailed, SpFailed]
   | SpAnalysisCompleted \<Rightarrow> [SpCompleted, SpFailed]
   | SpAnalysisFailed \<Rightarrow> [SpCompleted, SpFailed]
   | SpDecisionsAppending \<Rightarrow> [SpCompleted, SpFailed]
   | SpCompleted \<Rightarrow> [SpTerminated]
   | SpFailed \<Rightarrow> [SpTerminated]
   | SpTerminated \<Rightarrow> [])"

inductive sp_step :: "sp_phase \<Rightarrow> sp_phase \<Rightarrow> bool" where
  sp_move: "k' \<in> set (spMoves k) \<Longrightarrow> sp_step (k, d, s, e) (k', d, s, e)"
| sp_du: "k \<in> {SpInitialized, SpDuAppending} \<Longrightarrow> sp_step (k, d, s, e) (SpDuAppending, Suc d, s, e)"
| sp_suggestion: "k \<in> {SpDuCompleted, SpSuggestionsAppending} \<Longrightarrow>
    sp_step (k, d, s, e) (SpSuggestionsAppending, d, Suc s, e)"
| sp_decision: "k \<in> {SpAnalysisCompleted, SpDecisionsAppending} \<Longrightarrow>
    sp_step (k, d, s, e) (SpDecisionsAppending, d, s, Suc e)"

inductive_simps sp_step_simps: "sp_step (k, d, s, e) (k', d', s', e')"

definition sp_stage :: "sp_code \<Rightarrow> nat" where
  "sp_stage k = (case k of SpUninitialized \<Rightarrow> 0 | SpInitialized \<Rightarrow> 1 | SpDuAppending \<Rightarrow> 1 | SpDuCompleted \<Rightarrow> 2
     | SpDuFailed \<Rightarrow> 2 | SpSuggestionsAppending \<Rightarrow> 2 | SpAnalysisCompleted \<Rightarrow> 3 | SpAnalysisFailed \<Rightarrow> 3
     | SpDecisionsAppending \<Rightarrow> 3 | SpCompleted \<Rightarrow> 4 | SpFailed \<Rightarrow> 4 | SpTerminated \<Rightarrow> 5)"

definition sp_rank :: "sp_phase \<Rightarrow> nat" where
  "sp_rank ph = (case ph of (k, d, s, e) \<Rightarrow> sp_stage k + d + s + e)"

lemma sp_rank_step: "sp_step ph ph' \<Longrightarrow> sp_rank ph < sp_rank ph'"
  by (induction rule: sp_step.induct) (auto simp: sp_rank_def sp_stage_def spMoves_def split: sp_code.splits)

text \<open>The paths that have been suggested as repos, and the paths that have been decided.\<close>

definition spSuggested :: "SplitState \<Rightarrow> string set" where
  "spSuggested st = set (map sg_Path (filter (\<lambda>x. sg_Suggestion x = S_REPO_CANDIDATE) (sps_suggestions st)))"

definition spDecided :: "SplitState \<Rightarrow> string list" where
  "spDecided st = map dn_Path (sps_decisions st)"

definition sp_inv :: "SplitState \<Rightarrow> bool" where
  "sp_inv st \<longleftrightarrow>
     length (sps_du st) \<le> ConfigMaxDuPaths \<and> length (sps_suggestions st) \<le> ConfigMaxSuggestions \<and>
     distinct (spDecided st) \<and> set (spDecided st) \<union> sps_candidates st = spSuggested st \<and>
     set (spDecided st) \<inter> sps_candidates st = {} \<and>
     (sps_scode st \<in> {SpUninitialized, SpInitialized, SpDuAppending, SpDuCompleted, SpDuFailed,
        SpSuggestionsAppending, SpAnalysisCompleted, SpAnalysisFailed} \<longrightarrow> sps_decisions st = []) \<and>
     (sps_scode st = SpCompleted \<longrightarrow> sps_candidates st = {} \<or> sps_decisions st = [])"

lemma spNewState_simps [simp]:
  "spPhase (spNewState i) = (SpUninitialized, 0, 0, 0)" "sps_id (spNewState i) = i" "sp_inv (spNewState i)"
  by (simp_all add: spNewState_def spPhase_def sp_inv_def spSuggested_def spDecided_def)

lemma sp_vid [simp]:
  "sp_inv (st\<lparr>sps_vid := v\<rparr>) = sp_inv st" "spPhase (st\<lparr>sps_vid := v\<rparr>) = spPhase st"
  by (simp_all add: sp_inv_def spPhase_def spSuggested_def spDecided_def)

abbreviation sp_moves where
  "sp_moves ub \<equiv> moves ub spEventType (spBehavior ub) (\<lambda>st _. spAdvanceEv st) sp_inv spPhase sp_step"

lemmas sp_simps = spEventType_def spTell_defs spAdvanceEv_def sp_inv_def sp_pre_def spMoves_def spPhase_def
  sp_step_simps spSuggested_def spDecided_def

lemma splitStarted_simps [simp]:
  "os_RegistryId (splitStarted cmd) = pi_RegistryId cmd" "os_GlobalRoot (splitStarted cmd) = pi_GlobalRoot cmd"
  "os_Host (splitStarted cmd) = pi_Host cmd" "os_HostRoot (splitStarted cmd) = pi_HostRoot cmd"
  "ss_MaxDepth (splitStarted cmd) = pi_MaxDepth cmd" "ss_MinDiskUsage (splitStarted cmd) = pi_MinDiskUsage cmd"
  "ss_MaxDiskUsage (splitStarted cmd) = pi_MaxDiskUsage cmd"
  "os_WorkflowId (splitStarted cmd) = 0" "os_WorkflowEventId (splitStarted cmd) = 0"
  by (simp_all add: splitStarted_def)

lemma spEventType_simps:
  "spEventType WT_FSO_SPLIT_ROOT_DU_APPENDED" "spEventType WT_FSO_SPLIT_ROOT_SUGGESTION_APPENDED"
  "spEventType WT_FSO_SPLIT_ROOT_DECISION_APPENDED"
  by (simp_all add: spEventType_def)

lemma spAdvanceEv_simps:
  "spAdvanceEv st (WvSplitRootDuAppended path usage) =
     Ok (st\<lparr>sps_scode := SpDuAppending, sps_du := sps_du st @ [\<lparr>pu_Path = path, pu_Usage = usage\<rparr>]\<rparr>)"
  "spAdvanceEv st (WvSplitRootSuggestionAppended path x) =
     Ok (st\<lparr>sps_scode := SpSuggestionsAppending,
            sps_suggestions := sps_suggestions st @ [\<lparr>sg_Path = path, sg_Suggestion = x\<rparr>],
            sps_candidates := (if x = S_REPO_CANDIDATE then insert path (sps_candidates st)
              else sps_candidates st)\<rparr>)"
  "spAdvanceEv st (WvSplitRootDecisionAppended path y) =
     Ok (st\<lparr>sps_scode := SpDecisionsAppending,
            sps_decisions := sps_decisions st @ [\<lparr>dn_Path = path, dn_Decision = y\<rparr>],
            sps_candidates := sps_candidates st - {path}\<rparr>)"
  "spAdvanceEv st (WvSplitRootDuCompleted code msg) =
     Ok (st\<lparr>sps_scode := (if code = 0 then SpDuCompleted else SpDuFailed)\<rparr>)"
  "spAdvanceEv st (WvSplitRootAnalysisCompleted code msg) =
     Ok (st\<lparr>sps_scode := (if code = 0 then SpAnalysisCompleted else SpAnalysisFailed)\<rparr>)"
  "spAdvanceEv st (WvSplitRootCompleted (wfCompleted code msg)) =
     Ok (st\<lparr>sps_statusCode := code, sps_statusMessage := msg,
            sps_scode := (if code = 0 then SpCompleted else SpFailed)\<rparr>)"
  "spAdvanceEv st WvSplitRootCommitted = Ok (st\<lparr>sps_scode := SpTerminated\<rparr>)"
  by (simp_all add: spAdvanceEv_def wfCompleted_def)

text \<open>The three events that append: the invariant, the step, and a list of them.\<close>

abbreviation spAddDu where
  "spAddDu st path usage \<equiv>
     st\<lparr>sps_scode := SpDuAppending, sps_du := sps_du st @ [\<lparr>pu_Path = path, pu_Usage = usage\<rparr>]\<rparr>"

abbreviation spAddSuggestion where
  "spAddSuggestion st path x \<equiv>
     st\<lparr>sps_scode := SpSuggestionsAppending,
        sps_suggestions := sps_suggestions st @ [\<lparr>sg_Path = path, sg_Suggestion = x\<rparr>],
        sps_candidates := (if x = S_REPO_CANDIDATE then insert path (sps_candidates st) else sps_candidates st)\<rparr>"

abbreviation spAddDecision where
  "spAddDecision st path y \<equiv>
     st\<lparr>sps_scode := SpDecisionsAppending,
        sps_decisions := sps_decisions st @ [\<lparr>dn_Path = path, dn_Decision = y\<rparr>],
        sps_candidates := sps_candidates st - {path}\<rparr>"

lemma sp_step_append:
  "sps_scode st \<in> {SpInitialized, SpDuAppending} \<Longrightarrow> sp_step (spPhase st) (spPhase (spAddDu st path usage))"
  "sps_scode st \<in> {SpDuCompleted, SpSuggestionsAppending} \<Longrightarrow>
     sp_step (spPhase st) (spPhase (spAddSuggestion st path x))"
  "sps_scode st \<in> {SpAnalysisCompleted, SpDecisionsAppending} \<Longrightarrow>
     sp_step (spPhase st) (spPhase (spAddDecision st path y))"
  by (simp_all add: spPhase_def sp_step_simps)

lemma spSuggested_append:
  "spSuggested (st\<lparr>sps_scode := k, sps_suggestions := sps_suggestions st @ [x], sps_candidates := cs\<rparr>) =
     (if sg_Suggestion x = S_REPO_CANDIDATE then insert (sg_Path x) (spSuggested st) else spSuggested st)"
  by (simp add: spSuggested_def)

lemma sp_inv_AddDu:
  "sp_inv st \<Longrightarrow> sps_scode st \<in> {SpInitialized, SpDuAppending} \<Longrightarrow> length (sps_du st) < ConfigMaxDuPaths \<Longrightarrow>
     sp_inv (spAddDu st path usage)"
  by (auto simp: sp_inv_def spSuggested_def spDecided_def)

lemma sp_inv_AddSuggestion:
  assumes "sp_inv st" "sps_scode st \<in> {SpDuCompleted, SpSuggestionsAppending}"
    and "length (sps_suggestions st) < ConfigMaxSuggestions"
  shows "sp_inv (spAddSuggestion st path x)"
proof -
  have d: "sps_decisions st = []" using assms(1,2) by (elim insertE emptyE) (simp_all add: sp_inv_def)
  have "sps_candidates st = spSuggested st" using assms(1) d by (simp add: sp_inv_def spDecided_def)
  with d show ?thesis using assms by (simp add: sp_inv_def spSuggested_append spDecided_def)
qed

lemma sp_inv_AddDecision:
  assumes "sp_inv st" "path \<in> sps_candidates st"
  shows "sp_inv (spAddDecision st path y)"
proof -
  let ?st = "spAddDecision st path y"
  have s: "spSuggested ?st = spSuggested st" "spDecided ?st = spDecided st @ [path]"
    by (simp_all add: spSuggested_def spDecided_def)
  have u: "set (spDecided st) \<union> sps_candidates st = spSuggested st"
    and i: "set (spDecided st) \<inter> sps_candidates st = {}" using assms(1) by (simp_all add: sp_inv_def)
  have p: "path \<notin> set (spDecided st)" using i assms(2) by blast
  have "set (spDecided ?st) \<union> sps_candidates ?st = spSuggested ?st"
    unfolding s u [symmetric] using assms(2) by auto
  moreover have "set (spDecided ?st) \<inter> sps_candidates ?st = {}" unfolding s using i by auto
  ultimately show ?thesis using assms(1) p by (simp add: sp_inv_def s)
qed

lemma sp_moves_dus:
  assumes "sp_inv st" "sps_scode st \<in> {SpInitialized, SpDuAppending}"
    and "length (sps_du st) + length paths \<le> ConfigMaxDuPaths"
  shows "sp_moves ub st (map (\<lambda>p. wfNewPbSplitRootDuAppended (pu_Path p) (pu_Usage p)) paths)"
  using assms
proof (induction paths arbitrary: st)
  case (Cons p paths)
  have "sp_inv ((spAddDu st (pu_Path p) (pu_Usage p))\<lparr>sps_vid := i\<rparr>)" for i
    unfolding sp_vid using sp_inv_AddDu [OF Cons.prems(1,2)] Cons.prems(3) by simp
  from Cons.IH [OF this] show ?case
    using Cons.prems(3) sp_step_append(1) [OF Cons.prems(2)] by (simp add: spEventType_simps spAdvanceEv_simps)
qed simp

lemma sp_moves_suggestions:
  assumes "sp_inv st" "sps_scode st \<in> {SpDuCompleted, SpSuggestionsAppending}"
    and "length (sps_suggestions st) + length xs \<le> ConfigMaxSuggestions"
  shows "sp_moves ub st (map (\<lambda>x. wfNewPbSplitRootSuggestionAppended (sg_Path x) (sg_Suggestion x)) xs)"
  using assms
proof (induction xs arbitrary: st)
  case (Cons x xs)
  have "sp_inv ((spAddSuggestion st (sg_Path x) (sg_Suggestion x))\<lparr>sps_vid := i\<rparr>)" for i
    unfolding sp_vid using sp_inv_AddSuggestion [OF Cons.prems(1,2)] Cons.prems(3) by simp
  from Cons.IH [OF this] show ?case
    using Cons.prems(3) sp_step_append(2) [OF Cons.prems(2)] by (simp add: spEventType_simps spAdvanceEv_simps)
qed simp

text \<open>An event of a command that only moves the code.\<close>

definition sp_moved :: "sp_cmd \<Rightarrow> SplitState \<Rightarrow> SplitState \<Rightarrow> bool" where
  "sp_moved c st st' \<longleftrightarrow> sps_scode st' \<in> set (spMoves (sps_scode st)) \<and>
     (sps_scode st' = SpCompleted \<longrightarrow> c = SpCmdCommit \<and> sps_candidates st = {} \<or>
        (\<exists>msg. c = SpCmdAbort 0 msg) \<and> sps_decisions st = []) \<and> sps_du st' = sps_du st \<and>
     sps_suggestions st' = sps_suggestions st \<and> sps_decisions st' = sps_decisions st \<and>
     sps_candidates st' = sps_candidates st"

lemma spMoves_early:
  "k' \<in> set (spMoves k) \<Longrightarrow>
     k' \<in> {SpUninitialized, SpInitialized, SpDuAppending, SpDuCompleted, SpDuFailed,
       SpSuggestionsAppending, SpAnalysisCompleted, SpAnalysisFailed} \<Longrightarrow>
     k \<in> {SpUninitialized, SpInitialized, SpDuAppending, SpDuCompleted, SpDuFailed,
       SpSuggestionsAppending, SpAnalysisCompleted, SpAnalysisFailed}"
  by (cases k) (auto simp: spMoves_def)

lemma sp_moved_inv:
  assumes "sp_inv st" "sp_moved c st st'"
  shows "sp_inv st'" and "sp_step (spPhase st) (spPhase st')"
proof -
  have s: "spSuggested st' = spSuggested st" "spDecided st' = spDecided st" "sps_candidates st' = sps_candidates st"
    "sps_du st' = sps_du st" "sps_suggestions st' = sps_suggestions st" "sps_decisions st' = sps_decisions st"
    using assms(2) by (simp_all add: sp_moved_def spSuggested_def spDecided_def)
  have k: "sps_scode st' \<in> set (spMoves (sps_scode st))" "sps_scode st' = SpCompleted \<longrightarrow> sps_candidates st = {} \<or> sps_decisions st = []"
    using assms(2) by (auto simp: sp_moved_def)
  show "sp_inv st'"
    using assms(1) k(2) spMoves_early [OF k(1)] unfolding sp_inv_def s by blast
  show "sp_step (spPhase st) (spPhase st')"
    using k(1) unfolding spPhase_def s by (rule sp_move)
qed

lemma sp_moves_one:
  assumes "sp_inv st" "ParsePbWorkflowEvent ub p = Ok ev" "spEventType (wp_Event p)" "wf_pb_ok p"
    and "spAdvanceEv st ev = Ok st'" "sp_moved c st st'"
  shows "sp_moves ub st [p]"
  using assms(2-5) sp_moved_inv [OF assms(1,6)] by simp

lemma spTellInit_moves:
  assumes "ulid_binary ub" "sp_inv st" "split_init_ok cmd" "spTellInit g st cmd = Ok evs"
  shows "\<exists>pbs. wfNewEvents g (sps_vid st) pbs = Inr evs \<and> sp_moves ub st pbs"
proof (cases "sps_scode st = SpUninitialized")
  case True
  then obtain p where p: "(wfNewPbSplitRootStartedWorkflow (splitStarted cmd) :: (wf_error, WorkflowPb) outcome) = Ok p"
    "wfNewEvents g (sps_vid st) [p] = Inr evs"
    using assms(4) by (auto simp: spTellInit_def outcome_simps)
  have "sp_moves ub st [p]"
    using parse_SplitRootStartedWorkflow [OF assms(1) p(1)] True
    by (intro sp_moves_one [OF assms(2), where c = "SpCmdInit cmd"]) (auto simp: spEventType_def spAdvanceEv_def sp_moved_def spMoves_def)
  then show ?thesis using p(2) by blast
qed (use assms(2,4) in \<open>auto simp: spTellInit_def split: sp_code.splits if_splits intro: exI [of _ "[]"]\<close>)

lemma spTellAppendDecision_moves:
  assumes "sp_inv st" "spTellAppendDecision g st path d = Ok evs"
  shows "\<exists>pbs. wfNewEvents g (sps_vid st) pbs = Inr evs \<and> sp_moves ub st pbs"
proof -
  have c: "sps_scode st \<in> {SpAnalysisCompleted, SpDecisionsAppending}" "path \<in> sps_candidates st"
    "wfNewEvents g (sps_vid st) [wfNewPbSplitRootDecisionAppended path d] = Inr evs"
    using assms(2) by (auto simp: spTellAppendDecision_def spIsCandidate_def outcome_simps split: if_splits)
  have "sp_inv ((spAddDecision st path d)\<lparr>sps_vid := i\<rparr>)" for i
    unfolding sp_vid by (rule sp_inv_AddDecision [OF assms(1) c(2)])
  then show ?thesis
    using c(3) sp_step_append(3) [OF c(1)]
    by (intro exI [of _ "[wfNewPbSplitRootDecisionAppended path d]"]) (simp add: spEventType_simps spAdvanceEv_simps)
qed

text \<open>The other commands emit one message, by which only the code moves.\<close>

lemma spTell_single:
  assumes "sp_inv st" "spTell g st c = Ok evs" "evs \<noteq> []"
    and "\<forall>cmd paths xs path d. c \<notin> {SpCmdInit cmd, SpCmdAppendDus paths, SpCmdAppendSuggestions xs,
      SpCmdAppendDecision path d}"
  shows "\<exists>p ev st'. wfNewEvents g (sps_vid st) [p] = Inr evs \<and> ParsePbWorkflowEvent ub p = Ok ev \<and>
    spEventType (wp_Event p) \<and> wf_pb_ok p \<and> spAdvanceEv st ev = Ok st' \<and> sp_moved c st st'"
proof -
  have d: "sps_scode st \<in> {SpDuFailed, SpAnalysisFailed, SpAnalysisCompleted} \<Longrightarrow> sps_decisions st = []"
    using assms(1) by (auto simp: sp_inv_def)
  show ?thesis
  proof (cases "\<exists>code msg. c = SpCmdAbort code msg")
    case True
    then obtain code msg where c: "c = SpCmdAbort code msg" by blast
    have k: "sps_scode st \<in> {SpDuFailed, SpAnalysisFailed, SpAnalysisCompleted}"
      "wfNewEvents g (sps_vid st) [wfNewPbSplitRootCompletedError code msg] = Inr evs"
      using assms(2,3) by (auto simp: c spTell_defs outcome_simps split: if_split_asm)
    let ?st = "st\<lparr>sps_statusCode := code, sps_statusMessage := msg, sps_scode := if code = 0 then SpCompleted else SpFailed\<rparr>"
    have "sp_moved c st ?st"
      using k(1) d by (auto simp: sp_moved_def spMoves_def c)
    then show ?thesis
      using k(2) by (intro exI [of _ "wfNewPbSplitRootCompletedError code msg"]
          exI [of _ "WvSplitRootCompleted (wfCompleted code msg)"] exI [of _ ?st])
        (simp add: spEventType_def spAdvanceEv_simps)
  next
    case False
    then have "\<forall>code msg. c \<noteq> SpCmdAbort code msg" by simp
    then show ?thesis using assms(2-)
      by (cases c; cases "sps_scode st"; fastforce simp: spTell_defs spEventType_def spAdvanceEv_simps
        outcome_simps sp_moved_def spMoves_def SpStatusCodeExpired_def split: if_split_asm)
  qed
qed

lemma spTell_moves:
  assumes "ulid_binary ub" "sp_inv st" "sp_pre st c" "spTell g st c = Ok evs"
  shows "\<exists>pbs. wfNewEvents g (sps_vid st) pbs = Inr evs \<and> sp_moves ub st pbs"
proof (cases "evs = []")
  case True
  then show ?thesis using assms(2) by (intro exI [of _ "[]"]) simp
next
  case False
  consider (init) cmd where "c = SpCmdInit cmd" | (du) paths where "c = SpCmdAppendDus paths"
    | (suggestion) xs where "c = SpCmdAppendSuggestions xs" | (decision) path d where "c = SpCmdAppendDecision path d"
    | (other) "\<forall>cmd paths xs path d. c \<notin> {SpCmdInit cmd, SpCmdAppendDus paths, SpCmdAppendSuggestions xs,
        SpCmdAppendDecision path d}"
    by (cases c) auto
  then show ?thesis
  proof cases
    case init
    then show ?thesis using spTellInit_moves [OF assms(1,2)] assms(3,4) by (simp add: sp_pre_def)
  next
    case du
    then show ?thesis
      using sp_moves_dus [OF assms(2), of paths] assms(4)
      by (auto simp: spTellAppendDus_def outcome_simps split: if_splits)
  next
    case suggestion
    then show ?thesis
      using sp_moves_suggestions [OF assms(2), of xs] assms(4)
      by (auto simp: spTellAppendSuggestions_def outcome_simps split: if_splits)
  next
    case decision
    then show ?thesis using spTellAppendDecision_moves [OF assms(2)] assms(4) by simp
  next
    case other
    obtain p ev st' where p: "wfNewEvents g (sps_vid st) [p] = Inr evs" "ParsePbWorkflowEvent ub p = Ok ev"
      "spEventType (wp_Event p)" "wf_pb_ok p" "spAdvanceEv st ev = Ok st'" "sp_moved c st st'"
      using spTell_single [OF assms(2,4) False other] by blast
    show ?thesis using sp_moves_one [OF assms(2) p(2-6)] p(1) by blast
  qed
qed

lemma sp_workflow_code:
  assumes "ulid_binary ub"
  shows "workflow_code ub spEventType (spBehavior ub) (\<lambda>st _. spAdvanceEv st) sp_inv sp_pre spPhase
    (SpUninitialized, 0, 0, 0) sp_step"
proof
  show "\<not> is_Panic (Tell (spBehavior ub) g st c)" if "sp_inv st" "sp_pre st c" for g st c
    using that(2) by (cases c) (auto simp: spTell_defs sp_pre_def outcome_simps wfNewPbSplitRootStartedWorkflow_def
      validateWorkflowSplitRootStarted_def validateCommonSplitRootStarted_def orElse_None firstError_None
      split_init_ok_def split: sp_code.splits)
  show "wf_emits g (StVid (spBehavior ub) st) (Tell (spBehavior ub) g st c)" for g st c
    by (cases c) (auto simp: spTell_defs wfNewPbSplitRootStartedWorkflow_def split: sp_code.splits)
  show "\<exists>pbs. wfNewEvents g (StVid (spBehavior ub) st) pbs = Inr evs \<and> sp_moves ub st pbs"
    if "sp_inv st" "sp_pre st c" "Tell (spBehavior ub) g st c = Ok evs" for g st c evs
    using spTell_moves [OF assms] that by simp
  show "StId (spBehavior ub) s' = StId (spBehavior ub) s" if "spAdvanceEv s x = Ok s'" for s x s'
    using that by (cases x) (auto simp: spAdvanceEv_def split: WfSplitEvent.splits)
qed (simp_all add: spAdvance_def)

lemma sp_workflow_bounded:
  assumes "ulid_binary ub"
  shows "workflow_bounded (spBehavior ub) (spOps pm pu ub) sp_inv sp_pre spPhase (SpUninitialized, 0, 0, 0) sp_step
    sp_rank"
  by (intro workflow_bounded.intro workflow_bounded_axioms.intro
      workflow_code.is_workflow [OF sp_workflow_code [OF assms]] sp_rank_step)

interpretation sp: workflow_code ulidUnmarshal spEventType "GoErr ''invalid event type''" pm pu
  "spBehavior ulidUnmarshal" "\<lambda>st _. spAdvanceEv st" sp_inv sp_pre spPhase "(SpUninitialized, 0, 0, 0)" sp_step
  for pm pu
  by (rule sp_workflow_code) simp

interpretation sp_bounded: workflow_bounded "spBehavior ulidUnmarshal" "spOps pm pu ulidUnmarshal" sp_inv sp_pre
  spPhase "(SpUninitialized, 0, 0, 0)" sp_step sp_rank for pm pu
  by (rule sp_workflow_bounded) simp

section \<open>Properties\<close>

abbreviation sp_live where
  "sp_live pm pu ub \<equiv> live (spBehavior ub) (spOps pm pu ub) sp_pre"

lemma sp_live_inv: "ulid_binary ub \<Longrightarrow> sp_live pm pu ub i st hist \<Longrightarrow> sp_inv st"
  by (rule aggregate.live_inv [OF workflow.axioms(1) [OF workflow_code.is_workflow [OF sp_workflow_code]]])

lemma sp_decisions_le: "sp_inv st \<Longrightarrow> length (sps_decisions st) \<le> length (sps_suggestions st)"
proof -
  assume i: "sp_inv st"
  then have "length (spDecided st) = card (set (spDecided st))" by (simp add: sp_inv_def distinct_card)
  also have "\<dots> \<le> card (spSuggested st)"
    using i by (intro card_mono) (auto simp: sp_inv_def spSuggested_def)
  also have "\<dots> \<le> length (map sg_Path (filter (\<lambda>x. sg_Suggestion x = S_REPO_CANDIDATE) (sps_suggestions st)))"
    unfolding spSuggested_def by (rule card_length)
  also have "\<dots> \<le> length (sps_suggestions st)" by simp
  finally show ?thesis by (simp add: spDecided_def)
qed

text \<open>A workflow that is completed by a run of commands.\<close>

definition demo_split :: SplitCmdInit where
  "demo_split = \<lparr>pi_RegistryId = 1, pi_GlobalRoot = ''/g'', pi_Host = ''h'', pi_HostRoot = ''/r'', pi_MaxDepth = 2,
     pi_MinDiskUsage = 1, pi_MaxDiskUsage = 9\<rparr>"

definition sp_demo_cmds :: "sp_cmd list" where
  "sp_demo_cmds = [SpCmdInit demo_split, SpCmdAppendDus [\<lparr>pu_Path = ''a'', pu_Usage = 5\<rparr>], SpCmdCommitDu,
     SpCmdAppendSuggestions [\<lparr>sg_Path = ''a'', sg_Suggestion = S_REPO_CANDIDATE\<rparr>], SpCmdCommitAnalysis,
     SpCmdAppendDecision ''a'' D_CREATE_REPO, SpCmdCommit]"

lemma sp_demo_run:
  "\<exists>st hist. sp_live pm pu ulidUnmarshal 7 st hist \<and> sps_scode st = SpCompleted \<and> spDecided st = [''a''] \<and>
     spSuggested st = {''a''} \<and> length hist = 7 \<and> length (sps_du st) = 1"
proof -
  obtain p where p: "(wfNewPbSplitRootStartedWorkflow (splitStarted demo_split) :: (wf_error, WorkflowPb) outcome) = Ok p"
    by (simp add: wfNewPbSplitRootStartedWorkflow_def validateWorkflowSplitRootStarted_def
        validateCommonSplitRootStarted_def orPanic_def orElse_def firstError.simps demo_split_def)
  note q = parse_SplitRootStartedWorkflow [OF ulidUnmarshal_ok p]
  have i: "split_init_ok demo_split" by (simp add: split_init_ok_def demo_split_def)
  have "\<exists>st hist. tells (spBehavior ulidUnmarshal) (spOps pm pu ulidUnmarshal) sp_pre (\<lambda>_. Inr 1)
      (SetVid (spBehavior ulidUnmarshal) EventEpoch (NewState (spBehavior ulidUnmarshal) 7)) [] sp_demo_cmds =
      Some (st, hist) \<and> sps_scode st = SpCompleted \<and> spDecided st = [''a''] \<and>
      sps_suggestions st = [\<lparr>sg_Path = ''a'', sg_Suggestion = S_REPO_CANDIDATE\<rparr>] \<and>
      length hist = 7 \<and> length (sps_du st) = 1"
    using p q i
    by (simp add: sp_demo_cmds_def spTell_defs spAdvance_def spAdvanceEv_def MustParsePbWorkflowEvent_def sp_pre_def
        wfEmit_def wfEmitPlain_def wfNewEvents_def spNewState_def wfCompleted_def ConfigMaxDuPaths_def
        ConfigMaxSuggestions_def spIsCandidate_def spDecided_def wfEventOps_simps)
  then obtain st hist where t: "tells (spBehavior ulidUnmarshal) (spOps pm pu ulidUnmarshal) sp_pre (\<lambda>_. Inr 1)
      (SetVid (spBehavior ulidUnmarshal) EventEpoch (NewState (spBehavior ulidUnmarshal) 7)) [] sp_demo_cmds =
      Some (st, hist)" "sps_scode st = SpCompleted" "spDecided st = [''a'']"
    "sps_suggestions st = [\<lparr>sg_Path = ''a'', sg_Suggestion = S_REPO_CANDIDATE\<rparr>]"
    "length hist = 7" "length (sps_du st) = 1" by blast
  have "spSuggested st = {''a''}" by (simp only: spSuggested_def t(4) filter.simps Suggestion.simps) simp
  then show ?thesis using tells_live [OF live_new t(1)] t by blast
qed

text \<open>Which commands complete a workflow.\<close>

lemma newEventsLoop_pb:
  "newEventsLoop setPb g n v pbs = Inr evs \<Longrightarrow> ev \<in> set evs \<Longrightarrow> \<exists>i par. \<exists>p \<in> set pbs. ev_pb ev = setPb i par p"
  by (induction pbs arbitrary: n v evs) (fastforce split: sum.splits)+

lemma sp_append_codes:
  assumes "wfNewEvents g v pbs = Inr evs" and "evs \<noteq> []"
    and "advanceAll (spBehavior ub) (spOps pm pu ub) st evs = Ok st'"
    and "\<And>p. p \<in> set pbs \<Longrightarrow> \<exists>x. ParsePbWorkflowEvent ub p = Ok x \<and> (\<forall>s s'. spAdvanceEv s x = Ok s' \<longrightarrow> sps_scode s' = k)"
  shows "sps_scode st' = k"
proof -
  obtain xs ev where evs: "evs = xs @ [ev]" using assms(2) by (metis rev_exhaust)
  obtain s s' where s: "spAdvance ub s ev = Ok s'" "st' = s'\<lparr>sps_vid := EvId (spOps pm pu ub) ev\<rparr>"
    using assms(3) by (auto simp: evs advanceAll_append outcome_simps)
  obtain i par p where p: "p \<in> set pbs" "ev_pb ev = wfSetPb i par p"
    using newEventsLoop_pb [OF assms(1) [unfolded wfNewEvents_def], of ev] evs by auto
  obtain x where "ParsePbWorkflowEvent ub p = Ok x" "\<forall>s s'. spAdvanceEv s x = Ok s' \<longrightarrow> sps_scode s' = k"
    using assms(4) [OF p(1)] by blast
  then show ?thesis using s p(2) by (simp add: spAdvance_def MustParsePbWorkflowEvent_def)
qed

lemma sp_completing_cmd:
  assumes ub: "ulid_binary ub" and "sp_inv st" and "sp_pre st c" and "spTell g st c = Ok evs" and "evs \<noteq> []"
    and "advanceAll (spBehavior ub) (spOps pm pu ub) st evs = Ok st'" and "sps_scode st' = SpCompleted"
  shows "c = SpCmdCommit \<and> sps_candidates st' = {} \<or> (\<exists>msg. c = SpCmdAbort 0 msg) \<and> sps_decisions st' = []"
proof -
  consider (init) cmd where "c = SpCmdInit cmd" | (du) paths where "c = SpCmdAppendDus paths"
    | (suggestion) xs where "c = SpCmdAppendSuggestions xs" | (decision) path d where "c = SpCmdAppendDecision path d"
    | (other) "\<forall>cmd paths xs path d. c \<notin> {SpCmdInit cmd, SpCmdAppendDus paths, SpCmdAppendSuggestions xs,
        SpCmdAppendDecision path d}"
    by (cases c) auto
  then show ?thesis
  proof cases
    case init
    then obtain p where p: "(wfNewPbSplitRootStartedWorkflow (splitStarted cmd) :: (wf_error, WorkflowPb) outcome) = Ok p"
      "wfNewEvents g (sps_vid st) [p] = Inr evs"
      using assms(4,5) by (auto simp: spTellInit_def outcome_simps split: sp_code.splits if_splits)
    have "sps_scode st' = SpInitialized"
      by (rule sp_append_codes [OF p(2) assms(5,6)])
        (use parse_SplitRootStartedWorkflow [OF ub p(1)] in \<open>auto simp: spAdvanceEv_def\<close>)
    then show ?thesis using assms(7) by simp
  next
    case du
    then have p: "wfNewEvents g (sps_vid st) (map (\<lambda>p. wfNewPbSplitRootDuAppended (pu_Path p) (pu_Usage p)) paths) = Inr evs"
      using assms(4) by (auto simp: spTellAppendDus_def outcome_simps split: if_splits)
    have "sps_scode st' = SpDuAppending"
      by (rule sp_append_codes [OF p assms(5,6)]) (auto simp: spAdvanceEv_simps)
    then show ?thesis using assms(7) by simp
  next
    case suggestion
    then have p: "wfNewEvents g (sps_vid st)
        (map (\<lambda>x. wfNewPbSplitRootSuggestionAppended (sg_Path x) (sg_Suggestion x)) xs) = Inr evs"
      using assms(4) by (auto simp: spTellAppendSuggestions_def outcome_simps split: if_splits)
    have "sps_scode st' = SpSuggestionsAppending"
      by (rule sp_append_codes [OF p assms(5,6)]) (auto simp: spAdvanceEv_simps)
    then show ?thesis using assms(7) by simp
  next
    case decision
    then have p: "wfNewEvents g (sps_vid st) [wfNewPbSplitRootDecisionAppended path d] = Inr evs"
      using assms(4) by (auto simp: spTellAppendDecision_def outcome_simps split: if_splits)
    have "sps_scode st' = SpDecisionsAppending"
      by (rule sp_append_codes [OF p assms(5,6)]) (auto simp: spAdvanceEv_simps)
    then show ?thesis using assms(7) by simp
  next
    case other
    obtain p ev s1 where p: "wfNewEvents g (sps_vid st) [p] = Inr evs" "ParsePbWorkflowEvent ub p = Ok ev"
      "spAdvanceEv st ev = Ok s1" "sp_moved c st s1"
      using spTell_single [OF assms(2,4,5) other] by blast
    obtain i where "evs = [\<lparr>ev_id = i, ev_parent = sps_vid st, ev_pb = wfSetPb i (sps_vid st) p\<rparr>]"
      using p(1) by (auto simp: wfNewEvents_def split: sum.splits)
    then have "st' = s1\<lparr>sps_vid := i\<rparr>"
      using assms(6) p(2,3) by (simp add: spAdvance_def MustParsePbWorkflowEvent_def wfEventOps_simps)
    then show ?thesis using p(4) assms(7) by (auto simp: sp_moved_def)
  qed
qed

lemma sp_completed_by:
  assumes "ulid_binary ub" and "sp_live pm pu ub i st hist" and "sps_scode st = SpCompleted"
  shows "sps_candidates st = {} \<or> sps_decisions st = [] \<and>
    (\<exists>st0 hist0 g msg evs. sp_live pm pu ub i st0 hist0 \<and> spTell g st0 (SpCmdAbort 0 msg) = Ok evs \<and> evs \<noteq> [] \<and>
       hist = hist0 @ evs)"
  using assms(2,3)
proof (induction rule: live.induct)
  case live_new
  then show ?case by (simp add: spNewState_def)
next
  case (live_tell s log c g evs s')
  show ?case
  proof (cases "evs = []")
    case True
    then have "s' = s" "log @ evs = log" using live_tell.hyps(4) by simp_all
    then show ?thesis using live_tell.IH live_tell.prems by metis
  next
    case False
    have t: "spTell g s c = Ok evs" using live_tell.hyps(3) by simp
    have "c = SpCmdCommit \<and> sps_candidates s' = {} \<or> (\<exists>msg. c = SpCmdAbort 0 msg) \<and> sps_decisions s' = []"
      by (rule sp_completing_cmd [OF assms(1) sp_live_inv [OF assms(1) live_tell.hyps(1)] live_tell.hyps(2) t False
            live_tell.hyps(4) live_tell.prems])
    then show ?thesis using live_tell.hyps(1) t False by blast
  qed
qed

text \<open>
  C33: the decisions of a split-root workflow are always on paths that have been suggested as repos, at most one for each,
  and a workflow that is completed has either decided every suggested path, or has decided none and has been completed by
  an abort with the status code \<open>0\<close> as its last command.
\<close>

theorem split_root_decided:
  assumes "ulid_binary ub" and "sp_live pm pu ub i st hist"
  shows "set (spDecided st) \<subseteq> spSuggested st \<and> distinct (spDecided st) \<and>
    (sps_scode st = SpCompleted \<longrightarrow>
       set (spDecided st) = spSuggested st \<or>
       spDecided st = [] \<and>
       (\<exists>st0 hist0 g msg evs. sp_live pm pu ub i st0 hist0 \<and> spTell g st0 (SpCmdAbort 0 msg) = Ok evs \<and> evs \<noteq> [] \<and>
          hist = hist0 @ evs))"
proof -
  have "set (spDecided st) \<union> sps_candidates st = spSuggested st" "distinct (spDecided st)"
    using sp_live_inv [OF assms] by (simp_all add: sp_inv_def)
  then show ?thesis using sp_completed_by [OF assms] by (auto simp: spDecided_def)
qed

theorem split_root_decided_witness:
  "\<exists>st hist. sp_live (\<lambda>_. Inr []) (\<lambda>_. Inl (GoErr [])) ulidUnmarshal 7 st hist \<and> sps_scode st = SpCompleted \<and>
     set (spDecided st) = spSuggested st \<and> distinct (spDecided st) \<and> spSuggested st = {''a''}"
proof -
  obtain st hist where l: "sp_live (\<lambda>_. Inr []) (\<lambda>_. Inl (GoErr [])) ulidUnmarshal 7 st hist"
    "sps_scode st = SpCompleted" "spDecided st = [''a'']" "spSuggested st = {''a''}"
    using sp_demo_run by blast
  have "spDecided st \<noteq> []" using l(3) by simp
  then have "set (spDecided st) = spSuggested st" "distinct (spDecided st)"
    using split_root_decided [OF ulidUnmarshal_ok l(1)] l(2) by blast+
  then show ?thesis using l(1,2,4) by blast
qed

text \<open>The second case does occur: an undecided candidate is left behind by a workflow that reports success.\<close>

lemma split_root_abort_zero:
  "\<exists>st hist. sp_live pm pu ulidUnmarshal 7 st hist \<and> sps_scode st = SpCompleted \<and> sps_statusCode st = 0 \<and>
     spDecided st = [] \<and> spSuggested st = {''a''}"
proof -
  obtain p where p: "(wfNewPbSplitRootStartedWorkflow (splitStarted demo_split) :: (wf_error, WorkflowPb) outcome) = Ok p"
    by (simp add: wfNewPbSplitRootStartedWorkflow_def validateWorkflowSplitRootStarted_def
        validateCommonSplitRootStarted_def orPanic_def orElse_def firstError.simps demo_split_def)
  note q = parse_SplitRootStartedWorkflow [OF ulidUnmarshal_ok p]
  have i: "split_init_ok demo_split" by (simp add: split_init_ok_def demo_split_def)
  have "\<exists>st hist. tells (spBehavior ulidUnmarshal) (spOps pm pu ulidUnmarshal) sp_pre (\<lambda>_. Inr 1)
      (SetVid (spBehavior ulidUnmarshal) EventEpoch (NewState (spBehavior ulidUnmarshal) 7)) []
      (take 5 sp_demo_cmds @ [SpCmdAbort 0 ''done'']) =
      Some (st, hist) \<and> sps_scode st = SpCompleted \<and> sps_statusCode st = 0 \<and> spDecided st = [] \<and>
      sps_suggestions st = [\<lparr>sg_Path = ''a'', sg_Suggestion = S_REPO_CANDIDATE\<rparr>]"
    using p q i
    by (simp add: sp_demo_cmds_def spTell_defs spAdvance_def spAdvanceEv_def MustParsePbWorkflowEvent_def sp_pre_def
        wfEmit_def wfEmitPlain_def wfNewEvents_def spNewState_def wfCompleted_def ConfigMaxDuPaths_def
        ConfigMaxSuggestions_def spIsCandidate_def spDecided_def wfEventOps_simps)
  then obtain st hist where t: "tells (spBehavior ulidUnmarshal) (spOps pm pu ulidUnmarshal) sp_pre (\<lambda>_. Inr 1)
      (SetVid (spBehavior ulidUnmarshal) EventEpoch (NewState (spBehavior ulidUnmarshal) 7)) []
      (take 5 sp_demo_cmds @ [SpCmdAbort 0 ''done'']) =
      Some (st, hist)" "sps_scode st = SpCompleted" "sps_statusCode st = 0" "spDecided st = []"
    "sps_suggestions st = [\<lparr>sg_Path = ''a'', sg_Suggestion = S_REPO_CANDIDATE\<rparr>]" by blast
  have "spSuggested st = {''a''}" by (simp only: spSuggested_def t(5) filter.simps Suggestion.simps) simp
  then show ?thesis using tells_live [OF live_new t(1)] t by blast
qed

text \<open>An init command with an empty field is not refused but panics.\<close>

lemma split_root_init_panics:
  "\<not> split_init_ok cmd \<Longrightarrow> is_Panic (spTell g (spNewState i) (SpCmdInit cmd))"
  by (auto simp: spTellInit_def spNewState_def split_init_ok_def wfNewPbSplitRootStartedWorkflow_def
      validateWorkflowSplitRootStarted_def validateCommonSplitRootStarted_def orPanic_def orElse_def firstError.simps
      outcome_simps)

lemma sp_live_bounded:
  assumes "ulid_binary ub" and "sp_live pm pu ub i st hist"
  shows "length hist \<le> 905"
proof -
  have "length (sps_du st) \<le> 300" "length (sps_suggestions st) \<le> 300"
    using sp_live_inv [OF assms] by (simp_all add: sp_inv_def ConfigMaxDuPaths_def ConfigMaxSuggestions_def)
  moreover have "length hist \<le> sp_rank (spPhase st)"
    using workflow_bounded.live_bounded [OF sp_workflow_bounded [OF assms(1)] assms(2)] by simp
  moreover have "sp_stage (sps_scode st) \<le> 5" by (simp add: sp_stage_def split: sp_code.splits)
  ultimately show ?thesis
    using sp_decisions_le [OF sp_live_inv [OF assms]] by (simp add: sp_rank_def spPhase_def)
qed

text \<open>
  Whatever the participants append, a split-root workflow stores at most 300 disk usages and 300 suggestions and
  has at most 905 events.
\<close>

theorem split_root_bounded:
  assumes "ulid_binary ub" and "sp_live pm pu ub i st hist"
  shows "length (sps_du st) \<le> 300 \<and> length (sps_suggestions st) \<le> 300 \<and>
    length (sps_decisions st) \<le> length (sps_suggestions st) \<and> length hist \<le> 905"
  using sp_live_bounded [OF assms] sp_decisions_le [OF sp_live_inv [OF assms]] sp_live_inv [OF assms]
  by (simp add: sp_inv_def ConfigMaxDuPaths_def ConfigMaxSuggestions_def)

theorem split_root_bounded_witness:
  "\<exists>st hist. sp_live (\<lambda>_. Inr []) (\<lambda>_. Inl (GoErr [])) ulidUnmarshal 7 st hist \<and> length hist = 7 \<and>
     length (sps_du st) = 1 \<and> length hist \<le> 905"
proof -
  obtain st hist where l: "sp_live (\<lambda>_. Inr []) (\<lambda>_. Inl (GoErr [])) ulidUnmarshal 7 st hist"
    "length hist = 7" "length (sps_du st) = 1"
    using sp_demo_run by blast
  then show ?thesis using split_root_bounded [OF ulidUnmarshal_ok l(1)] by blast
qed

end
