(* ===== verification/Ping_Registry_Workflow.thy ===== *)
theory Ping_Registry_Workflow
  imports Workflow_Base
begin

text \<open>
  The ping-registry workflow (\<open>backend/internal/workflows/pingregistrywf/ping-registry.go\<close>).  A ping and the summary
  are stored with the id of their event, so advancing uses the id.
\<close>

section \<open>State and commands\<close>

datatype (plugins only: code) pg_code =
    PgUninitialized | PgInitialized | PgAppending | PgSummarized | PgCompleted | PgTerminated

record PingStatus =
  pt_Code :: "32 word"
  pt_Message :: string
  pt_EventId :: ulid

record PingState =
  pgs_id :: uuid
  pgs_vid :: ulid
  pgs_scode :: pg_code
  pgs_registryId :: uuid
  pgs_nPings :: nat
  pgs_pings :: "PingStatus list"
  pgs_summary :: PingStatus

datatype (plugins only: code) pg_cmd =
    PgCmdInit uuid
  | PgCmdAppendPing "32 word" string
  | PgCmdPostSummary "32 word" string
  | PgCmdCommit
  | PgCmdAbortExpired
  | PgCmdEnd
  | PgCmdDelete
  | PgCmdForeign \<comment> \<open>a command of another aggregate\<close>

definition pgNewState :: "uuid \<Rightarrow> PingState" where
  "pgNewState i = \<lparr>pgs_id = i, pgs_vid = 0, pgs_scode = PgUninitialized, pgs_registryId = uuidNil, pgs_nPings = 0,
     pgs_pings = [], pgs_summary = \<lparr>pt_Code = 0, pt_Message = [], pt_EventId = ulidNil\<rparr>\<rparr>"

section \<open>Advance\<close>

definition pgAdvanceEv :: "PingState \<Rightarrow> ulid \<Rightarrow> WorkflowEvent \<Rightarrow> (wf_error, PingState) outcome" where
  "pgAdvanceEv st i ev =
     (case ev of
        WvPingRegistryStarted x \<Rightarrow> Ok (st\<lparr>pgs_scode := PgInitialized, pgs_registryId := ps_RegistryId x\<rparr>)
      | WvServerPinged code msg \<Rightarrow>
          Ok (st\<lparr>pgs_scode := PgAppending, pgs_nPings := pgs_nPings st + 1,
                 pgs_pings := pgs_pings st @ [\<lparr>pt_Code = code, pt_Message = msg, pt_EventId = i\<rparr>]\<rparr>)
      | WvServerPingsGathered code msg \<Rightarrow>
          Ok (st\<lparr>pgs_scode := PgSummarized,
                 pgs_summary := \<lparr>pt_Code = code, pt_Message = msg, pt_EventId = i\<rparr>\<rparr>)
      | WvPingRegistryCompleted _ _ \<Rightarrow> Ok (st\<lparr>pgs_scode := PgCompleted\<rparr>)
      | WvPingRegistryCommitted \<Rightarrow> Ok (st\<lparr>pgs_scode := PgTerminated\<rparr>)
      | _ \<Rightarrow> Panic ''invalid event'')"

definition pgAdvance ::
  "ulid_unmarshal \<Rightarrow> PingState \<Rightarrow> WorkflowPb Event \<Rightarrow> (wf_error, PingState) outcome" where
  "pgAdvance ub st ev = obind (MustParsePbWorkflowEvent ub (ev_pb ev)) (pgAdvanceEv st (ev_id ev))"

section \<open>Tell\<close>

definition pgTellInit ::
  "ulid_source \<Rightarrow> PingState \<Rightarrow> uuid \<Rightarrow> (wf_error, WorkflowPb Event list) outcome" where
  "pgTellInit g st registryId =
     (case pgs_scode st of
        PgUninitialized \<Rightarrow>
          obind (wfNewPbPingRegistryStartedWorkflow
              \<lparr>ps_RegistryId = registryId, ps_WorkflowId = uuidNil, ps_WorkflowEventId = ulidNil\<rparr>)
            (\<lambda>p. wfEmit g (pgs_vid st) [p])
      | PgInitialized \<Rightarrow>
          if registryId \<noteq> pgs_registryId st then Err (WfArgumentNotIdempotentError ''RegistryId'') else Ok []
      | _ \<Rightarrow> Err WfStateConflictError)"

definition pgTellAppendPing ::
  "ulid_source \<Rightarrow> PingState \<Rightarrow> 32 word \<Rightarrow> string \<Rightarrow> (wf_error, WorkflowPb Event list) outcome" where
  "pgTellAppendPing g st code msg =
     (if pgs_scode st \<in> {PgInitialized, PgAppending} then wfEmit g (pgs_vid st) [wfNewPbServerPinged code msg]
      else Err WfStateConflictError)"

definition pgTellPostSummary ::
  "ulid_source \<Rightarrow> PingState \<Rightarrow> 32 word \<Rightarrow> string \<Rightarrow> (wf_error, WorkflowPb Event list) outcome" where
  "pgTellPostSummary g st code msg =
     (if pgs_scode st \<in> {PgInitialized, PgAppending}
      then wfEmit g (pgs_vid st) [wfNewPbServerPingsGathered code msg]
      else Err WfStateConflictError)"

definition pgTellCommit :: "ulid_source \<Rightarrow> PingState \<Rightarrow> (wf_error, WorkflowPb Event list) outcome" where
  "pgTellCommit g st =
     (case pgs_scode st of
        PgSummarized \<Rightarrow> wfEmit g (pgs_vid st) [wfNewPbPingRegistryCompleted]
      | PgCompleted \<Rightarrow> Ok []
      | _ \<Rightarrow> Err WfStateConflictError)"

definition pgTellAbortExpired :: "ulid_source \<Rightarrow> PingState \<Rightarrow> (wf_error, WorkflowPb Event list) outcome" where
  "pgTellAbortExpired g st =
     (if pgs_scode st \<in> {PgCompleted, PgTerminated} then Ok []
      else if pgs_scode st = PgUninitialized then Err WfStateConflictError
      else wfEmitPlain g (pgs_vid st) [wfNewPbPingRegistryCompleted])"

definition pgTellEnd :: "ulid_source \<Rightarrow> PingState \<Rightarrow> (wf_error, WorkflowPb Event list) outcome" where
  "pgTellEnd g st =
     (case pgs_scode st of
        PgCompleted \<Rightarrow> wfEmit g (pgs_vid st) [wfNewPbPingRegistryCommitted]
      | PgTerminated \<Rightarrow> Ok []
      | _ \<Rightarrow> Err WfStateConflictError)"

definition pgTellDelete :: "PingState \<Rightarrow> (wf_error, WorkflowPb Event list) outcome" where
  "pgTellDelete st =
     (if pgs_scode st \<in> {PgUninitialized, PgCompleted, PgTerminated} then Ok [] else Err WfStateConflictError)"

fun pgTell :: "ulid_source \<Rightarrow> PingState \<Rightarrow> pg_cmd \<Rightarrow> (wf_error, WorkflowPb Event list) outcome" where
  "pgTell g st (PgCmdInit registryId) = pgTellInit g st registryId"
| "pgTell g st (PgCmdAppendPing code msg) = pgTellAppendPing g st code msg"
| "pgTell g st (PgCmdPostSummary code msg) = pgTellPostSummary g st code msg"
| "pgTell g st PgCmdCommit = pgTellCommit g st"
| "pgTell g st PgCmdAbortExpired = pgTellAbortExpired g st"
| "pgTell g st PgCmdEnd = pgTellEnd g st"
| "pgTell g st PgCmdDelete = pgTellDelete st"
| "pgTell g st PgCmdForeign = Err WfInvalidCommandError"

lemmas pgTell_defs =
  pgTellInit_def pgTellAppendPing_def pgTellPostSummary_def pgTellCommit_def pgTellAbortExpired_def pgTellEnd_def
  pgTellDelete_def

definition pgBehavior :: "ulid_unmarshal \<Rightarrow> (PingState, pg_cmd, WorkflowPb Event, wf_error) Behavior" where
  "pgBehavior ub = \<lparr>NewState = pgNewState, StId = pgs_id, StVid = pgs_vid,
     SetVid = (\<lambda>v st. st\<lparr>pgs_vid := v\<rparr>), Advance = pgAdvance ub, Tell = pgTell\<rparr>"

definition pgEventType :: "WorkflowEvent_Type \<Rightarrow> bool" where
  "pgEventType t \<longleftrightarrow> t \<in> {WT_FSO_PING_REGISTRY_STARTED, WT_FSO_SERVER_PINGED, WT_FSO_SERVER_PINGS_GATHERED,
     WT_FSO_PING_REGISTRY_COMPLETED, WT_FSO_PING_REGISTRY_COMMITTED}"

abbreviation pgOps where
  "pgOps pm pu ub \<equiv> wfEventOps pgEventType (GoErr ''invalid event type'') pm pu ub"

lemma pgBehavior_simps [simp]:
  "NewState (pgBehavior ub) = pgNewState" "StId (pgBehavior ub) = pgs_id" "StVid (pgBehavior ub) = pgs_vid"
  "SetVid (pgBehavior ub) v st = st\<lparr>pgs_vid := v\<rparr>" "Advance (pgBehavior ub) = pgAdvance ub"
  "Tell (pgBehavior ub) = pgTell"
  by (simp_all add: pgBehavior_def)

section \<open>The state machine\<close>

text \<open>
  The phase is the code with the number of pings, which is never reset.  The callers' obligation is that the init
  command names a registry.
\<close>

definition pgPhase :: "PingState \<Rightarrow> pg_code \<times> nat" where
  "pgPhase st = (pgs_scode st, pgs_nPings st)"

definition pg_pre :: "PingState \<Rightarrow> pg_cmd \<Rightarrow> bool" where
  "pg_pre st c \<longleftrightarrow> (case c of PgCmdInit registryId \<Rightarrow> registryId \<noteq> 0 | _ \<Rightarrow> True)"

inductive pg_step :: "pg_code \<times> nat \<Rightarrow> pg_code \<times> nat \<Rightarrow> bool" where
  pg_init: "pg_step (PgUninitialized, n) (PgInitialized, n)"
| pg_ping: "k \<in> {PgInitialized, PgAppending} \<Longrightarrow> pg_step (k, n) (PgAppending, Suc n)"
| pg_summary: "k \<in> {PgInitialized, PgAppending} \<Longrightarrow> pg_step (k, n) (PgSummarized, n)"
| pg_complete: "k \<in> {PgInitialized, PgAppending, PgSummarized} \<Longrightarrow> pg_step (k, n) (PgCompleted, n)"
| pg_end: "pg_step (PgCompleted, n) (PgTerminated, n)"

inductive_simps pg_step_simps: "pg_step (k, n) (k', n')"

text \<open>The pings are the ones that were counted; without a ping none was stored.\<close>

definition pg_inv :: "PingState \<Rightarrow> bool" where
  "pg_inv st \<longleftrightarrow> pgs_nPings st = length (pgs_pings st) \<and>
     (pgs_scode st \<in> {PgUninitialized, PgInitialized} \<longrightarrow> pgs_pings st = []) \<and>
     (pgs_scode st = PgAppending \<longrightarrow> pgs_pings st \<noteq> [])"

lemma pgNewState_simps [simp]:
  "pgPhase (pgNewState i) = (PgUninitialized, 0)" "pgs_id (pgNewState i) = i" "pg_inv (pgNewState i)"
  by (simp_all add: pgNewState_def pgPhase_def pg_inv_def)

lemma pg_vid [simp]: "pg_inv (st\<lparr>pgs_vid := v\<rparr>) = pg_inv st" "pgPhase (st\<lparr>pgs_vid := v\<rparr>) = pgPhase st"
  by (simp_all add: pg_inv_def pgPhase_def)

abbreviation pg_moves where
  "pg_moves ub \<equiv> moves ub pgEventType (pgBehavior ub) pgAdvanceEv pg_inv pgPhase pg_step"

lemma pgEventType_simps:
  "pgEventType WT_FSO_PING_REGISTRY_STARTED" "pgEventType WT_FSO_SERVER_PINGED"
  "pgEventType WT_FSO_SERVER_PINGS_GATHERED" "pgEventType WT_FSO_PING_REGISTRY_COMPLETED"
  "pgEventType WT_FSO_PING_REGISTRY_COMMITTED"
  by (simp_all add: pgEventType_def)

lemma pgAdvanceEv_simps:
  "pgAdvanceEv st i (WvPingRegistryStarted x) =
     Ok (st\<lparr>pgs_scode := PgInitialized, pgs_registryId := ps_RegistryId x\<rparr>)"
  "pgAdvanceEv st i (WvServerPinged code msg) =
     Ok (st\<lparr>pgs_scode := PgAppending, pgs_nPings := pgs_nPings st + 1,
            pgs_pings := pgs_pings st @ [\<lparr>pt_Code = code, pt_Message = msg, pt_EventId = i\<rparr>]\<rparr>)"
  "pgAdvanceEv st i (WvServerPingsGathered code msg) =
     Ok (st\<lparr>pgs_scode := PgSummarized, pgs_summary := \<lparr>pt_Code = code, pt_Message = msg, pt_EventId = i\<rparr>\<rparr>)"
  "pgAdvanceEv st i (WvPingRegistryCompleted w v) = Ok (st\<lparr>pgs_scode := PgCompleted\<rparr>)"
  "pgAdvanceEv st i WvPingRegistryCommitted = Ok (st\<lparr>pgs_scode := PgTerminated\<rparr>)"
  by (simp_all add: pgAdvanceEv_def)

lemma pgTell_moves:
  assumes "ulid_binary ub" "pg_inv st" "pg_pre st c" "pgTell g st c = Ok evs"
  shows "\<exists>pbs. wfNewEvents g (pgs_vid st) pbs = Inr evs \<and> pg_moves ub st pbs"
proof (cases "evs = []")
  case True
  then show ?thesis using assms(2) by (intro exI [of _ "[]"]) simp
next
  case False
  show ?thesis
  proof (cases c)
    case (PgCmdInit registryId)
    then obtain p where p: "(wfNewPbPingRegistryStartedWorkflow
        \<lparr>ps_RegistryId = registryId, ps_WorkflowId = uuidNil, ps_WorkflowEventId = ulidNil\<rparr> ::
          (wf_error, WorkflowPb) outcome) = Ok p"
      "wfNewEvents g (pgs_vid st) [p] = Inr evs" "pgs_scode st = PgUninitialized"
      using assms(4) False by (auto simp: pgTellInit_def outcome_simps split: pg_code.splits if_split_asm)
    show ?thesis
      using p(2,3) parse_PingRegistryStartedWorkflow [OF assms(1) p(1)] assms(2)
      by (intro exI [of _ "[p]"])
        (auto simp: pgEventType_simps pgAdvanceEv_simps pg_inv_def pgPhase_def pg_step_simps)
  next
    case PgCmdAbortExpired
    then show ?thesis
      using assms(2,4) False by (intro exI [of _ "[wfNewPbPingRegistryCompleted]"]; cases "pgs_scode st")
        (auto simp: pgTell_defs outcome_simps pgEventType_simps pgAdvanceEv_simps pg_inv_def pgPhase_def pg_step_simps)
  qed (use assms(2-4) False in \<open>auto simp: pgTell_defs outcome_simps pgEventType_simps pgAdvanceEv_simps pg_inv_def
      pgPhase_def pg_step_simps split: pg_code.splits if_split_asm intro!: exI [of _ "[_]"]\<close>)
qed

lemma pg_workflow_code:
  assumes "ulid_binary ub"
  shows "workflow_code ub pgEventType (pgBehavior ub) pgAdvanceEv pg_inv pg_pre pgPhase (PgUninitialized, 0) pg_step"
proof
  show "\<not> is_Panic (Tell (pgBehavior ub) g st c)" if "pg_inv st" "pg_pre st c" for g st c
    using that(2) by (cases c) (auto simp: pgTell_defs pg_pre_def outcome_simps wfNewPbPingRegistryStartedWorkflow_def
      validateWorkflowPingRegistryStarted_def firstError_None split: pg_code.splits)
  show "wf_emits g (StVid (pgBehavior ub) st) (Tell (pgBehavior ub) g st c)" for g st c
    by (cases c) (auto simp: pgTell_defs wfNewPbPingRegistryStartedWorkflow_def split: pg_code.splits)
  show "\<exists>pbs. wfNewEvents g (StVid (pgBehavior ub) st) pbs = Inr evs \<and> pg_moves ub st pbs"
    if "pg_inv st" "pg_pre st c" "Tell (pgBehavior ub) g st c = Ok evs" for g st c evs
    using pgTell_moves [OF assms] that by simp
  show "StId (pgBehavior ub) s' = StId (pgBehavior ub) s" if "pgAdvanceEv s v x = Ok s'" for s v x s'
    using that by (cases x) (auto simp: pgAdvanceEv_def split: WfPingEvent.splits)
qed (simp_all add: pgAdvance_def)

interpretation pg: workflow_code ulidUnmarshal pgEventType "GoErr ''invalid event type''" pm pu
  "pgBehavior ulidUnmarshal" pgAdvanceEv pg_inv pg_pre pgPhase "(PgUninitialized, 0)" pg_step for pm pu
  by (rule pg_workflow_code) simp

text \<open>The stored pings are the counted ones, and their number is the one of the pings of the path.\<close>

lemma ping_count:
  assumes "ulid_binary ub" and "live (pgBehavior ub) (pgOps pm pu ub) pg_pre i st hist"
  shows "length (pgs_pings st) = pgs_nPings st \<and> pgs_nPings st \<le> length hist"
proof -
  have w: "workflow (pgBehavior ub) (pgOps pm pu ub) pg_inv pg_pre pgPhase (PgUninitialized, 0) pg_step"
    by (rule workflow_code.is_workflow [OF pg_workflow_code [OF assms(1)]])
  have "steps pg_step k ks \<Longrightarrow> snd (last (k # ks)) \<le> snd k + length ks" for k ks
  proof (induction ks arbitrary: k)
    case (Cons k' ks)
    then have "snd k' \<le> Suc (snd k)" by (auto elim: pg_step.cases)
    then show ?case using Cons.IH [of k'] Cons.prems by auto
  qed simp
  then have "snd (pgPhase st) \<le> length hist"
    using workflow.live_path [OF w assms(2)] by (metis add_0 snd_conv)
  then show ?thesis
    using aggregate.live_inv [OF workflow.axioms(1) [OF w] assms(2)] by (simp add: pg_inv_def pgPhase_def)
qed

end
