(* ===== verification/Du_Root_Workflow.thy ===== *)
theory Du_Root_Workflow
  imports Workflow_Base
begin

text \<open>
  The du-root workflow (\<open>backend/internal/workflows/durootwf/du-root.go\<close>).  Its state does not keep the disk usages
  and not whether \<open>du\<close> succeeded.
\<close>

section \<open>State and commands\<close>

datatype (plugins only: code) du_code = DuUninitialized | DuInitialized | DuAppending | DuCompleted | DuTerminated

record DuState =
  dus_id :: uuid
  dus_vid :: ulid
  dus_scode :: du_code
  dus_registryId :: uuid
  dus_globalRoot :: string
  dus_host :: string
  dus_hostRoot :: string

record DuCmdInit =
  di_RegistryId :: uuid
  di_GlobalRoot :: string
  di_Host :: string
  di_HostRoot :: string

datatype (plugins only: code) du_cmd =
    DuCmdInit DuCmdInit
  | DuCmdAppend string "64 word"
  | DuCmdCommit
  | DuCmdFail "32 word" string
  | DuCmdAbortExpired
  | DuCmdEnd
  | DuCmdDelete
  | DuCmdForeign \<comment> \<open>a command of another aggregate\<close>

definition DuErrConflictInit :: wf_error where
  "DuErrConflictInit = WfPlainError (GoErr ''workflow init conflict'')"

definition DuErrConflictStateAdvanced :: wf_error where
  "DuErrConflictStateAdvanced = WfPlainError (GoErr ''workflow state has advanced'')"

definition DuErrInvalidCommand :: wf_error where
  "DuErrInvalidCommand = WfPlainError (GoErr ''invalid workflow command'')"

definition DuErrConflictState :: wf_error where
  "DuErrConflictState = WfPlainError (GoErr ''command conflicts with current state'')"

definition DuStatusCodeExpired :: "32 word" where "DuStatusCodeExpired = 104"

definition duNewState :: "uuid \<Rightarrow> DuState" where
  "duNewState i = \<lparr>dus_id = i, dus_vid = 0, dus_scode = DuUninitialized, dus_registryId = uuidNil,
     dus_globalRoot = [], dus_host = [], dus_hostRoot = []\<rparr>"

section \<open>Advance\<close>

definition duAdvanceEv :: "DuState \<Rightarrow> WorkflowEvent \<Rightarrow> (wf_error, DuState) outcome" where
  "duAdvanceEv st ev =
     (case ev of
        WvDuRootStarted x \<Rightarrow>
          Ok (st\<lparr>dus_scode := DuInitialized, dus_registryId := os_RegistryId x, dus_globalRoot := os_GlobalRoot x,
                 dus_host := os_Host x, dus_hostRoot := os_HostRoot x\<rparr>)
      | WvDuUpdated _ _ \<Rightarrow> Ok (st\<lparr>dus_scode := DuAppending\<rparr>)
      | WvDuRootCompleted _ \<Rightarrow> Ok (st\<lparr>dus_scode := DuCompleted\<rparr>)
      | WvDuRootCommitted \<Rightarrow> Ok (st\<lparr>dus_scode := DuTerminated\<rparr>)
      | _ \<Rightarrow> Panic ''invalid event'')"

definition duAdvance ::
  "ulid_unmarshal \<Rightarrow> DuState \<Rightarrow> WorkflowPb Event \<Rightarrow> (wf_error, DuState) outcome" where
  "duAdvance ub st ev = obind (MustParsePbWorkflowEvent ub (ev_pb ev)) (duAdvanceEv st)"

section \<open>Tell\<close>

definition duStarted :: "DuCmdInit \<Rightarrow> RootWorkflowStarted" where
  "duStarted cmd = \<lparr>os_RegistryId = di_RegistryId cmd, os_WorkflowId = uuidNil, os_WorkflowEventId = ulidNil,
     os_GlobalRoot = di_GlobalRoot cmd, os_Host = di_Host cmd, os_HostRoot = di_HostRoot cmd\<rparr>"

definition duTellInit ::
  "ulid_source \<Rightarrow> DuState \<Rightarrow> DuCmdInit \<Rightarrow> (wf_error, WorkflowPb Event list) outcome" where
  "duTellInit g st cmd =
     (case dus_scode st of
        DuUninitialized \<Rightarrow>
          obind (wfNewPbDuRootStartedWorkflow (duStarted cmd)) (\<lambda>p. wfEmitPlain g (dus_vid st) [p])
      | DuInitialized \<Rightarrow>
          if di_RegistryId cmd \<noteq> dus_registryId st \<or> di_GlobalRoot cmd \<noteq> dus_globalRoot st \<or>
            di_Host cmd \<noteq> dus_host st \<or> di_HostRoot cmd \<noteq> dus_hostRoot st
          then Err DuErrConflictInit
          else Ok []
      | _ \<Rightarrow> Err DuErrConflictStateAdvanced)"

definition duTellAppend ::
  "ulid_source \<Rightarrow> DuState \<Rightarrow> string \<Rightarrow> 64 word \<Rightarrow> (wf_error, WorkflowPb Event list) outcome" where
  "duTellAppend g st path usage =
     (if dus_scode st \<in> {DuInitialized, DuAppending}
      then wfEmitPlain g (dus_vid st) [wfNewPbDuUpdated path usage]
      else Err DuErrConflictState)"

definition duTellCommit :: "ulid_source \<Rightarrow> DuState \<Rightarrow> (wf_error, WorkflowPb Event list) outcome" where
  "duTellCommit g st =
     (if dus_scode st \<in> {DuInitialized, DuAppending} then wfEmitPlain g (dus_vid st) [wfNewPbDuRootCompletedOk]
      else if dus_scode st = DuCompleted then Ok []
      else Err DuErrConflictState)"

definition duTellFail ::
  "ulid_source \<Rightarrow> DuState \<Rightarrow> 32 word \<Rightarrow> string \<Rightarrow> (wf_error, WorkflowPb Event list) outcome" where
  "duTellFail g st code msg =
     (if dus_scode st \<in> {DuInitialized, DuAppending}
      then wfEmitPlain g (dus_vid st) [wfNewPbDuRootCompletedError code msg]
      else if dus_scode st = DuCompleted then Ok []
      else Err DuErrConflictState)"

definition duTellAbortExpired :: "ulid_source \<Rightarrow> DuState \<Rightarrow> (wf_error, WorkflowPb Event list) outcome" where
  "duTellAbortExpired g st =
     (case dus_scode st of
        DuCompleted \<Rightarrow> Ok []
      | DuTerminated \<Rightarrow> Ok []
      | DuUninitialized \<Rightarrow> Err DuErrConflictState
      | _ \<Rightarrow> wfEmitPlain g (dus_vid st) [wfNewPbDuRootCompletedError DuStatusCodeExpired ''expired''])"

definition duTellEnd :: "ulid_source \<Rightarrow> DuState \<Rightarrow> (wf_error, WorkflowPb Event list) outcome" where
  "duTellEnd g st =
     (case dus_scode st of
        DuCompleted \<Rightarrow> wfEmitPlain g (dus_vid st) [wfNewPbDuRootCommitted]
      | DuTerminated \<Rightarrow> Ok []
      | _ \<Rightarrow> Err DuErrConflictState)"

definition duTellDelete :: "DuState \<Rightarrow> (wf_error, WorkflowPb Event list) outcome" where
  "duTellDelete st =
     (if dus_scode st \<in> {DuUninitialized, DuCompleted, DuTerminated} then Ok [] else Err DuErrConflictState)"

fun duTell :: "ulid_source \<Rightarrow> DuState \<Rightarrow> du_cmd \<Rightarrow> (wf_error, WorkflowPb Event list) outcome" where
  "duTell g st (DuCmdInit cmd) = duTellInit g st cmd"
| "duTell g st (DuCmdAppend path usage) = duTellAppend g st path usage"
| "duTell g st DuCmdCommit = duTellCommit g st"
| "duTell g st (DuCmdFail code msg) = duTellFail g st code msg"
| "duTell g st DuCmdAbortExpired = duTellAbortExpired g st"
| "duTell g st DuCmdEnd = duTellEnd g st"
| "duTell g st DuCmdDelete = duTellDelete st"
| "duTell g st DuCmdForeign = Err DuErrInvalidCommand"

lemmas duTell_defs =
  duTellInit_def duTellAppend_def duTellCommit_def duTellFail_def duTellAbortExpired_def duTellEnd_def
  duTellDelete_def

definition duBehavior :: "ulid_unmarshal \<Rightarrow> (DuState, du_cmd, WorkflowPb Event, wf_error) Behavior" where
  "duBehavior ub = \<lparr>NewState = duNewState, StId = dus_id, StVid = dus_vid,
     SetVid = (\<lambda>v st. st\<lparr>dus_vid := v\<rparr>), Advance = duAdvance ub, Tell = duTell\<rparr>"

definition duEventType :: "WorkflowEvent_Type \<Rightarrow> bool" where
  "duEventType t \<longleftrightarrow> t \<in> {WT_FSO_DU_ROOT_STARTED, WT_FSO_DU_UPDATED, WT_FSO_DU_ROOT_COMPLETED,
     WT_FSO_DU_ROOT_COMMITTED}"

abbreviation duOps where
  "duOps pm pu ub \<equiv> wfEventOps duEventType (GoErr ''invalid event type'') pm pu ub"

lemma duBehavior_simps [simp]:
  "NewState (duBehavior ub) = duNewState" "StId (duBehavior ub) = dus_id" "StVid (duBehavior ub) = dus_vid"
  "SetVid (duBehavior ub) v st = st\<lparr>dus_vid := v\<rparr>" "Advance (duBehavior ub) = duAdvance ub"
  "Tell (duBehavior ub) = duTell"
  by (simp_all add: duBehavior_def)

section \<open>The state machine\<close>

definition duNext :: "du_code \<Rightarrow> du_code list" where
  "duNext k = (case k of
     DuUninitialized \<Rightarrow> [DuInitialized]
   | DuInitialized \<Rightarrow> [DuAppending, DuCompleted]
   | DuAppending \<Rightarrow> [DuAppending, DuCompleted]
   | DuCompleted \<Rightarrow> [DuTerminated]
   | DuTerminated \<Rightarrow> [])"

abbreviation du_step :: "du_code \<Rightarrow> du_code \<Rightarrow> bool" where
  "du_step \<equiv> \<lambda>k k'. k' \<in> set (duNext k)"

definition du_pre :: "DuState \<Rightarrow> du_cmd \<Rightarrow> bool" where
  "du_pre st c \<longleftrightarrow> (case c of
     DuCmdInit cmd \<Rightarrow> di_RegistryId cmd \<noteq> 0 \<and> di_GlobalRoot cmd \<noteq> [] \<and> di_Host cmd \<noteq> [] \<and> di_HostRoot cmd \<noteq> []
   | _ \<Rightarrow> True)"

lemma duNewState_simps [simp]: "dus_scode (duNewState i) = DuUninitialized" "dus_id (duNewState i) = i"
  by (simp_all add: duNewState_def)

abbreviation du_moves where
  "du_moves ub \<equiv> moves ub duEventType (duBehavior ub) (\<lambda>st _. duAdvanceEv st) (\<lambda>_. True) dus_scode du_step"

lemma duEventType_simps:
  "duEventType WT_FSO_DU_ROOT_STARTED" "duEventType WT_FSO_DU_UPDATED" "duEventType WT_FSO_DU_ROOT_COMPLETED"
  "duEventType WT_FSO_DU_ROOT_COMMITTED"
  by (simp_all add: duEventType_def)

lemma duAdvanceEv_simps:
  "duAdvanceEv st (WvDuRootStarted x) =
     Ok (st\<lparr>dus_scode := DuInitialized, dus_registryId := os_RegistryId x, dus_globalRoot := os_GlobalRoot x,
            dus_host := os_Host x, dus_hostRoot := os_HostRoot x\<rparr>)"
  "duAdvanceEv st (WvDuUpdated path usage) = Ok (st\<lparr>dus_scode := DuAppending\<rparr>)"
  "duAdvanceEv st (WvDuRootCompleted y) = Ok (st\<lparr>dus_scode := DuCompleted\<rparr>)"
  "duAdvanceEv st WvDuRootCommitted = Ok (st\<lparr>dus_scode := DuTerminated\<rparr>)"
  by (simp_all add: duAdvanceEv_def)

lemma duTell_moves:
  assumes "ulid_binary ub" "du_pre st c" "duTell g st c = Ok evs"
  shows "\<exists>pbs. wfNewEvents g (dus_vid st) pbs = Inr evs \<and> du_moves ub st pbs"
proof (cases "evs = []")
  case True
  then show ?thesis by (intro exI [of _ "[]"]) simp
next
  case False
  show ?thesis
  proof (cases c)
    case (DuCmdInit cmd)
    then obtain p where p: "(wfNewPbDuRootStartedWorkflow (duStarted cmd) :: (wf_error, WorkflowPb) outcome) = Ok p"
      "wfNewEvents g (dus_vid st) [p] = Inr evs" "dus_scode st = DuUninitialized"
      using assms(3) False by (auto simp: duTellInit_def outcome_simps split: du_code.splits if_split_asm)
    show ?thesis
      using p(2,3) parse_DuRootStartedWorkflow [OF assms(1) p(1)]
      by (intro exI [of _ "[p]"]) (auto simp: duEventType_simps duAdvanceEv_simps duNext_def)
  qed (use assms(2,3) False in \<open>auto simp: duTell_defs outcome_simps duEventType_simps duAdvanceEv_simps duNext_def
      split: du_code.splits if_split_asm intro!: exI [of _ "[_]"]\<close>)
qed

lemma du_workflow_code:
  assumes "ulid_binary ub"
  shows "workflow_code ub duEventType (duBehavior ub) (\<lambda>st _. duAdvanceEv st) (\<lambda>_. True) du_pre dus_scode
    DuUninitialized du_step"
proof
  show "\<not> is_Panic (Tell (duBehavior ub) g st c)" if "du_pre st c" for g st c
    using that by (cases c) (auto simp: duTell_defs du_pre_def outcome_simps wfNewPbDuRootStartedWorkflow_def
      validateWorkflowDuRootStarted_def validateCommonDuRootStarted_def duStarted_def orElse_None firstError_None
      split: du_code.splits)
  show "wf_emits g (StVid (duBehavior ub) st) (Tell (duBehavior ub) g st c)" for g st c
    by (cases c) (auto simp: duTell_defs wfNewPbDuRootStartedWorkflow_def split: du_code.splits)
  show "\<exists>pbs. wfNewEvents g (StVid (duBehavior ub) st) pbs = Inr evs \<and> du_moves ub st pbs"
    if "du_pre st c" "Tell (duBehavior ub) g st c = Ok evs" for g st c evs
    using duTell_moves [OF assms] that by simp
  show "StId (duBehavior ub) s' = StId (duBehavior ub) s" if "duAdvanceEv s x = Ok s'" for s x s'
    using that by (cases x) (auto simp: duAdvanceEv_def split: WfDuEvent.splits)
qed (simp_all add: duAdvance_def)

definition demo_du :: DuCmdInit where
  "demo_du = \<lparr>di_RegistryId = 1, di_GlobalRoot = ''/g'', di_Host = ''h'', di_HostRoot = ''/r''\<rparr>"

definition duTake :: "du_code \<Rightarrow> du_cmd" where
  "duTake k' = (case k' of DuInitialized \<Rightarrow> DuCmdInit demo_du | DuAppending \<Rightarrow> DuCmdAppend ''a'' 1
     | DuCompleted \<Rightarrow> DuCmdCommit | _ \<Rightarrow> DuCmdEnd)"

lemma du_complete:
  assumes "ulid_binary ub" "du_step (dus_scode st) k"
  shows "\<exists>c g ev s'. du_pre st c \<and> Tell (duBehavior ub) g st c = Ok [ev] \<and>
    Advance (duBehavior ub) st ev = Ok s' \<and> dus_scode s' = k"
proof -
  obtain p where p: "(wfNewPbDuRootStartedWorkflow (duStarted demo_du) :: (wf_error, WorkflowPb) outcome) = Ok p"
    by (simp add: wfNewPbDuRootStartedWorkflow_def validateWorkflowDuRootStarted_def validateCommonDuRootStarted_def
        orPanic_def orElse_def firstError.simps demo_du_def duStarted_def)
  have i: "du_pre st (DuCmdInit demo_du)" by (simp add: du_pre_def demo_du_def)
  show ?thesis
    using assms(2) p i parse_DuRootStartedWorkflow [OF assms(1) p]
    by (intro exI [of _ "duTake k"] exI [of _ "\<lambda>_. Inr 1"])
      (cases "dus_scode st"; auto simp: duTake_def duNext_def duTell_defs du_pre_def wfEmitPlain_def wfNewEvents_def
        duAdvance_def duAdvanceEv_simps MustParsePbWorkflowEvent_def)
qed

lemma du_workflow_exact:
  assumes "ulid_binary ub"
  shows "workflow_exact (duBehavior ub) (duOps pm pu ub) (\<lambda>_. True) du_pre dus_scode DuUninitialized du_step"
  by (intro workflow_exact.intro workflow_exact_axioms.intro du_complete [OF assms]
      workflow_code.is_workflow [OF du_workflow_code [OF assms]])

interpretation du: workflow_code ulidUnmarshal duEventType "GoErr ''invalid event type''" pm pu
  "duBehavior ulidUnmarshal" "\<lambda>st _. duAdvanceEv st" "\<lambda>_. True" du_pre dus_scode DuUninitialized du_step for pm pu
  by (rule du_workflow_code) simp

interpretation du_exact: workflow_exact "duBehavior ulidUnmarshal" "duOps pm pu ulidUnmarshal" "\<lambda>_. True" du_pre
  dus_scode DuUninitialized du_step for pm pu
  by (rule du_workflow_exact) simp

section \<open>Paths\<close>

text \<open>
  The paths are the ones of the machine: any number of disk usages between init and completion.  After a failure the
  workflow is completed like after success, so a commit is accepted as idempotent.
\<close>

lemma du_root_paths:
  assumes "ulid_binary ub"
  shows "{trace (duBehavior ub) (duOps pm pu ub) dus_scode ((duNewState i)\<lparr>dus_vid := EventEpoch\<rparr>) hist | st hist.
      live (duBehavior ub) (duOps pm pu ub) du_pre i st hist} = {ks. steps du_step DuUninitialized ks}"
  using workflow_exact.live_traces [OF du_workflow_exact [OF assms], of pm pu i] by simp

lemma du_root_commit_after_fail:
  assumes "dus_scode st \<in> {DuInitialized, DuAppending}"
  shows "\<exists>ev st'. duTell (\<lambda>_. Inr 1) st (DuCmdFail code msg) = Ok [ev] \<and> duAdvance ub st ev = Ok st' \<and>
    duTell g st' DuCmdCommit = Ok []"
  using assms by (auto simp: duTell_defs wfEmitPlain_def wfNewEvents_def duAdvance_def duAdvanceEv_simps
      MustParsePbWorkflowEvent_def)

end
