(* ===== verification/Move_Repo_Workflow.thy ===== *)
theory Move_Repo_Workflow
  imports Workflow_Base
begin

text \<open>
  The move-repo workflow (\<open>backend/internal/workflows/moverepowf/move-repo.go\<close>), whose state is a set of flags, and
  the paths that they can take.
\<close>

section \<open>State and commands\<close>

record MoveState =
  mvs_id :: uuid
  mvs_vid :: ulid
  mvs_repoId :: uuid
  mvs_repoEventId :: ulid
  mvs_newGlobalPath :: string
  mvs_newFileHost :: string
  mvs_newHostPath :: string
  mvs_isStaReleased :: bool
  mvs_hasAppAccepted :: bool
  mvs_isMoved :: bool
  mvs_isTerminated :: bool

record MoveCmdInit =
  mi_RepoId :: uuid
  mi_RepoEventId :: ulid
  mi_OldGlobalPath :: string
  mi_OldFileHost :: string
  mi_OldHostPath :: string
  mi_OldShadowPath :: string
  mi_NewGlobalPath :: string
  mi_NewFileHost :: string
  mi_NewHostPath :: string

datatype (plugins only: code) mv_cmd =
    MvCmdInit MoveCmdInit
  | MvCmdPostStadReleased
  | MvCmdPostAppAccepted
  | MvCmdCommit string \<comment> \<open>new shadow path\<close>
  | MvCmdExit
  | MvCmdForeign \<comment> \<open>a command of another aggregate\<close>

definition MvErrConflictInit :: wf_error where
  "MvErrConflictInit = WfPlainError (GoErr ''workflow init conflict'')"

definition MvErrConflictStateAdvanced :: wf_error where
  "MvErrConflictStateAdvanced = WfPlainError (GoErr ''workflow state has advanced'')"

definition MvErrInvalidCommand :: wf_error where
  "MvErrInvalidCommand = WfPlainError (GoErr ''invalid workflow command'')"

definition MvErrMoved :: wf_error where
  "MvErrMoved = WfPlainError (GoErr ''workflow move completed'')"

definition MvErrNotMoved :: wf_error where
  "MvErrNotMoved = WfPlainError (GoErr ''workflow did not complete move'')"

definition MvErrStaActive :: wf_error where
  "MvErrStaActive = WfPlainError (GoErr ''nogfsostad has yet not disabled the repo'')"

definition MvErrTerminated :: wf_error where
  "MvErrTerminated = WfPlainError (GoErr ''workflow terminated'')"

definition MvErrUninitialized :: wf_error where
  "MvErrUninitialized = WfPlainError (GoErr ''workflow uninitialized'')"

definition mvNewState :: "uuid \<Rightarrow> MoveState" where
  "mvNewState i = \<lparr>mvs_id = i, mvs_vid = 0, mvs_repoId = uuidNil, mvs_repoEventId = ulidNil,
     mvs_newGlobalPath = [], mvs_newFileHost = [], mvs_newHostPath = [], mvs_isStaReleased = False,
     mvs_hasAppAccepted = False, mvs_isMoved = False, mvs_isTerminated = False\<rparr>"

section \<open>Advance\<close>

definition mvAdvanceEv :: "MoveState \<Rightarrow> WorkflowEvent \<Rightarrow> (wf_error, MoveState) outcome" where
  "mvAdvanceEv st ev =
     (case ev of
        WvRepoMoveStarted x \<Rightarrow>
          Ok (st\<lparr>mvs_repoId := wm_RepoId x, mvs_repoEventId := wm_RepoEventId x,
                 mvs_newGlobalPath := wm_NewGlobalPath x, mvs_newFileHost := wm_NewFileHost x,
                 mvs_newHostPath := wm_NewHostPath x\<rparr>)
      | WvRepoMoveStaReleased \<Rightarrow> Ok (st\<lparr>mvs_isStaReleased := True\<rparr>)
      | WvRepoMoveAppAccepted \<Rightarrow> Ok (st\<lparr>mvs_hasAppAccepted := True\<rparr>)
      | WvRepoMoved _ \<Rightarrow> Ok (st\<lparr>mvs_isMoved := True\<rparr>)
      | WvRepoMoveCommitted \<Rightarrow> Ok (st\<lparr>mvs_isTerminated := True\<rparr>)
      | _ \<Rightarrow> Panic ''invalid event'')"

definition mvAdvance ::
  "ulid_unmarshal \<Rightarrow> MoveState \<Rightarrow> WorkflowPb Event \<Rightarrow> (wf_error, MoveState) outcome" where
  "mvAdvance ub st ev = obind (MustParsePbWorkflowEvent ub (ev_pb ev)) (mvAdvanceEv st)"

section \<open>Tell\<close>

definition moveStarted :: "MoveCmdInit \<Rightarrow> WfRepoMoveStarted" where
  "moveStarted cmd = \<lparr>wm_RepoId = mi_RepoId cmd, wm_RepoEventId = mi_RepoEventId cmd,
     wm_OldGlobalPath = mi_OldGlobalPath cmd, wm_OldFileHost = mi_OldFileHost cmd,
     wm_OldHostPath = mi_OldHostPath cmd, wm_OldShadowPath = mi_OldShadowPath cmd,
     wm_NewGlobalPath = mi_NewGlobalPath cmd, wm_NewFileHost = mi_NewFileHost cmd,
     wm_NewHostPath = mi_NewHostPath cmd\<rparr>"

definition mvTellInit ::
  "ulid_source \<Rightarrow> MoveState \<Rightarrow> MoveCmdInit \<Rightarrow> (wf_error, WorkflowPb Event list) outcome" where
  "mvTellInit g st cmd =
     (if mvs_isStaReleased st \<or> mvs_hasAppAccepted st then Err MvErrConflictStateAdvanced
      else if mvs_repoId st \<noteq> uuidNil then
        (if mi_RepoId cmd \<noteq> mvs_repoId st then Err MvErrConflictInit
         else if mi_RepoEventId cmd \<noteq> mvs_repoEventId st then Err MvErrConflictInit
         else Ok [])
      else obind (wfNewPbRepoMoveStarted (moveStarted cmd)) (\<lambda>p. wfEmitPlain g (mvs_vid st) [p]))"

definition mvTellPostStadReleased ::
  "ulid_source \<Rightarrow> MoveState \<Rightarrow> (wf_error, WorkflowPb Event list) outcome" where
  "mvTellPostStadReleased g st =
     (if mvs_isMoved st then Err MvErrMoved
      else if mvs_isStaReleased st then Ok []
      else if mvs_repoId st = uuidNil then Err MvErrUninitialized
      else wfEmitPlain g (mvs_vid st) [wfNewPbRepoMoveStaReleased])"

definition mvTellPostAppAccepted ::
  "ulid_source \<Rightarrow> MoveState \<Rightarrow> (wf_error, WorkflowPb Event list) outcome" where
  "mvTellPostAppAccepted g st =
     (if mvs_isMoved st then Err MvErrMoved
      else if mvs_hasAppAccepted st then Ok []
      else if mvs_repoId st = uuidNil then Err MvErrUninitialized
      else wfEmitPlain g (mvs_vid st) [wfNewPbRepoMoveAppAccepted])"

definition mvTellCommit ::
  "ulid_source \<Rightarrow> MoveState \<Rightarrow> string \<Rightarrow> (wf_error, WorkflowPb Event list) outcome" where
  "mvTellCommit g st newShadowPath =
     (if mvs_isTerminated st then Err MvErrTerminated
      else if mvs_isMoved st then Ok []
      else if mvs_repoId st = uuidNil then Err MvErrUninitialized
      else if \<not> mvs_isStaReleased st \<or> \<not> mvs_hasAppAccepted st then Err MvErrStaActive
      else obind (wfNewPbRepoMoved \<lparr>wd_RepoId = mvs_repoId st, wd_GlobalPath = mvs_newGlobalPath st,
             wd_FileHost = mvs_newFileHost st, wd_HostPath = mvs_newHostPath st, wd_ShadowPath = newShadowPath\<rparr>)
           (\<lambda>p. wfEmitPlain g (mvs_vid st) [p]))"

definition mvTellExit :: "ulid_source \<Rightarrow> MoveState \<Rightarrow> (wf_error, WorkflowPb Event list) outcome" where
  "mvTellExit g st =
     (if mvs_isTerminated st then Ok []
      else if mvs_repoId st = uuidNil then Err MvErrUninitialized
      else if \<not> mvs_isMoved st then Err MvErrNotMoved
      else wfEmitPlain g (mvs_vid st) [wfNewPbRepoMoveCommitted])"

fun mvTell :: "ulid_source \<Rightarrow> MoveState \<Rightarrow> mv_cmd \<Rightarrow> (wf_error, WorkflowPb Event list) outcome" where
  "mvTell g st (MvCmdInit cmd) = mvTellInit g st cmd"
| "mvTell g st MvCmdPostStadReleased = mvTellPostStadReleased g st"
| "mvTell g st MvCmdPostAppAccepted = mvTellPostAppAccepted g st"
| "mvTell g st (MvCmdCommit newShadowPath) = mvTellCommit g st newShadowPath"
| "mvTell g st MvCmdExit = mvTellExit g st"
| "mvTell g st MvCmdForeign = Err MvErrInvalidCommand"

lemmas mvTell_defs =
  mvTellInit_def mvTellPostStadReleased_def mvTellPostAppAccepted_def mvTellCommit_def mvTellExit_def

definition mvBehavior :: "ulid_unmarshal \<Rightarrow> (MoveState, mv_cmd, WorkflowPb Event, wf_error) Behavior" where
  "mvBehavior ub = \<lparr>NewState = mvNewState, StId = mvs_id, StVid = mvs_vid,
     SetVid = (\<lambda>v st. st\<lparr>mvs_vid := v\<rparr>), Advance = mvAdvance ub, Tell = mvTell\<rparr>"

definition mvEventType :: "WorkflowEvent_Type \<Rightarrow> bool" where
  "mvEventType t \<longleftrightarrow> t \<in> {WT_FSO_REPO_MOVE_STARTED, WT_FSO_REPO_MOVE_STA_RELEASED, WT_FSO_REPO_MOVE_APP_ACCEPTED,
     WT_FSO_REPO_MOVED, WT_FSO_REPO_MOVE_COMMITTED}"

abbreviation mvOps where
  "mvOps pm pu ub \<equiv> wfEventOps mvEventType (GoErr ''invalid event type'') pm pu ub"

lemma mvBehavior_simps [simp]:
  "NewState (mvBehavior ub) = mvNewState" "StId (mvBehavior ub) = mvs_id" "StVid (mvBehavior ub) = mvs_vid"
  "SetVid (mvBehavior ub) v st = st\<lparr>mvs_vid := v\<rparr>" "Advance (mvBehavior ub) = mvAdvance ub"
  "Tell (mvBehavior ub) = mvTell"
  by (simp_all add: mvBehavior_def)

section \<open>The state machine\<close>

text \<open>
  The phases are the combinations of flags that occur.  The callers' obligation: the event of a command can be built,
  for which the fields have to be set and the file host has to stay.
\<close>

datatype (plugins only: code) mv_phase =
    MvNew | MvStarted | MvReleased | MvAccepted | MvReleasedAccepted | MvMoved | MvTerminated

definition mvPhase :: "MoveState \<Rightarrow> mv_phase" where
  "mvPhase st =
     (if mvs_isTerminated st then MvTerminated
      else if mvs_isMoved st then MvMoved
      else if mvs_isStaReleased st \<and> mvs_hasAppAccepted st then MvReleasedAccepted
      else if mvs_isStaReleased st then MvReleased
      else if mvs_hasAppAccepted st then MvAccepted
      else if mvs_repoId st \<noteq> uuidNil then MvStarted
      else MvNew)"

definition mv_pre :: "MoveState \<Rightarrow> mv_cmd \<Rightarrow> bool" where
  "mv_pre st c \<longleftrightarrow> (case c of
     MvCmdInit cmd \<Rightarrow> validateRepoMoveStarted (moveStarted cmd) = None
   | MvCmdCommit newShadowPath \<Rightarrow> newShadowPath \<noteq> []
   | _ \<Rightarrow> True)"

definition mvNext :: "mv_phase \<Rightarrow> mv_phase list" where
  "mvNext k = (case k of
     MvNew \<Rightarrow> [MvStarted]
   | MvStarted \<Rightarrow> [MvReleased, MvAccepted]
   | MvReleased \<Rightarrow> [MvReleasedAccepted]
   | MvAccepted \<Rightarrow> [MvReleasedAccepted]
   | MvReleasedAccepted \<Rightarrow> [MvMoved]
   | MvMoved \<Rightarrow> [MvTerminated]
   | MvTerminated \<Rightarrow> [])"

abbreviation mv_step :: "mv_phase \<Rightarrow> mv_phase \<Rightarrow> bool" where
  "mv_step \<equiv> \<lambda>k k'. k' \<in> set (mvNext k)"

definition mv_rank :: "mv_phase \<Rightarrow> nat" where
  "mv_rank k = (case k of MvNew \<Rightarrow> 0 | MvStarted \<Rightarrow> 1 | MvReleased \<Rightarrow> 2 | MvAccepted \<Rightarrow> 2
     | MvReleasedAccepted \<Rightarrow> 3 | MvMoved \<Rightarrow> 4 | MvTerminated \<Rightarrow> 5)"

definition mv_inv :: "MoveState \<Rightarrow> bool" where
  "mv_inv st \<longleftrightarrow>
     (mvs_repoId st \<noteq> 0 \<longrightarrow> mvs_newGlobalPath st \<noteq> [] \<and> mvs_newFileHost st \<noteq> [] \<and> mvs_newHostPath st \<noteq> []) \<and>
     (mvs_isStaReleased st \<or> mvs_hasAppAccepted st \<longrightarrow> mvs_repoId st \<noteq> 0) \<and>
     (mvs_isMoved st \<longrightarrow> mvs_isStaReleased st \<and> mvs_hasAppAccepted st) \<and>
     (mvs_isTerminated st \<longrightarrow> mvs_isMoved st)"

lemma mvNewState_simps [simp]:
  "mvPhase (mvNewState i) = MvNew" "mvs_id (mvNewState i) = i" "mv_inv (mvNewState i)"
  by (simp_all add: mvNewState_def mvPhase_def mv_inv_def)

lemma mv_vid [simp]: "mv_inv (st\<lparr>mvs_vid := v\<rparr>) = mv_inv st" "mvPhase (st\<lparr>mvs_vid := v\<rparr>) = mvPhase st"
  by (simp_all add: mv_inv_def mvPhase_def)

abbreviation mv_moves where
  "mv_moves ub \<equiv> moves ub mvEventType (mvBehavior ub) (\<lambda>st _. mvAdvanceEv st) mv_inv mvPhase mv_step"

lemma mvEventType_simps:
  "mvEventType WT_FSO_REPO_MOVE_STARTED" "mvEventType WT_FSO_REPO_MOVE_STA_RELEASED"
  "mvEventType WT_FSO_REPO_MOVE_APP_ACCEPTED" "mvEventType WT_FSO_REPO_MOVED" "mvEventType WT_FSO_REPO_MOVE_COMMITTED"
  by (simp_all add: mvEventType_def)

lemma mvAdvanceEv_simps:
  "mvAdvanceEv st (WvRepoMoveStarted x) =
     Ok (st\<lparr>mvs_repoId := wm_RepoId x, mvs_repoEventId := wm_RepoEventId x,
            mvs_newGlobalPath := wm_NewGlobalPath x, mvs_newFileHost := wm_NewFileHost x,
            mvs_newHostPath := wm_NewHostPath x\<rparr>)"
  "mvAdvanceEv st WvRepoMoveStaReleased = Ok (st\<lparr>mvs_isStaReleased := True\<rparr>)"
  "mvAdvanceEv st WvRepoMoveAppAccepted = Ok (st\<lparr>mvs_hasAppAccepted := True\<rparr>)"
  "mvAdvanceEv st (WvRepoMoved y) = Ok (st\<lparr>mvs_isMoved := True\<rparr>)"
  "mvAdvanceEv st WvRepoMoveCommitted = Ok (st\<lparr>mvs_isTerminated := True\<rparr>)"
  by (simp_all add: mvAdvanceEv_def)

text \<open>What a command that is not idempotent adds.\<close>

lemma mvTell_single:
  assumes "ulid_binary ub" "mv_inv st" "mv_pre st c" "mvTell g st c = Ok evs" "evs \<noteq> []"
  shows "\<exists>p ev st'. wfNewEvents g (mvs_vid st) [p] = Inr evs \<and> ParsePbWorkflowEvent ub p = Ok ev \<and>
    mvEventType (wp_Event p) \<and> wf_pb_ok p \<and> mvAdvanceEv st ev = Ok st' \<and> mv_inv st' \<and>
    mvPhase st' \<in> set (mvNext (mvPhase st))"
proof (cases c)
  case (MvCmdInit cmd)
  then obtain p where p: "(wfNewPbRepoMoveStarted (moveStarted cmd) :: (wf_error, WorkflowPb) outcome) = Ok p"
    and n: "wfNewEvents g (mvs_vid st) [p] = Inr evs" "mvPhase st = MvNew"
    using assms(2,4,5) by (auto simp: mvTellInit_def outcome_simps mvPhase_def mv_inv_def split: if_split_asm)
  show ?thesis
    using n parse_RepoMoveStarted [OF assms(1) p] assms(2,3) MvCmdInit
    by (intro exI [of _ p]) (auto simp: mvEventType_simps mvAdvanceEv_simps mv_inv_def mvPhase_def mvNext_def
      mv_pre_def moveStarted_def validateRepoMoveStarted_def firstError_None split: if_split_asm)
next
  case (MvCmdCommit path)
  then obtain p x where p: "(wfNewPbRepoMoved x :: (wf_error, WorkflowPb) outcome) = Ok p"
    and n: "wfNewEvents g (mvs_vid st) [p] = Inr evs" "mvPhase st = MvReleasedAccepted"
    using assms(2,4,5) by (auto simp: mvTellCommit_def outcome_simps mvPhase_def mv_inv_def split: if_split_asm)
  show ?thesis
    using n parse_RepoMoved [OF assms(1) p] assms(2)
    by (intro exI [of _ p]) (auto simp: mvEventType_simps mvAdvanceEv_simps mv_inv_def mvPhase_def mvNext_def
      split: if_split_asm)
next
  case MvCmdPostStadReleased
  let ?st = "st\<lparr>mvs_isStaReleased := True\<rparr>"
  have "wfNewEvents g (mvs_vid st) [wfNewPbRepoMoveStaReleased] = Inr evs" "mv_inv ?st"
    "mvPhase ?st \<in> set (mvNext (mvPhase st))"
    using assms(2,4,5) MvCmdPostStadReleased
    by (auto simp: mvTellPostStadReleased_def outcome_simps mv_inv_def mvPhase_def mvNext_def split: if_split_asm)
  then show ?thesis by (intro exI [of _ wfNewPbRepoMoveStaReleased]) (simp add: mvEventType_simps mvAdvanceEv_simps)
next
  case MvCmdPostAppAccepted
  let ?st = "st\<lparr>mvs_hasAppAccepted := True\<rparr>"
  have "wfNewEvents g (mvs_vid st) [wfNewPbRepoMoveAppAccepted] = Inr evs" "mv_inv ?st"
    "mvPhase ?st \<in> set (mvNext (mvPhase st))"
    using assms(2,4,5) MvCmdPostAppAccepted
    by (auto simp: mvTellPostAppAccepted_def outcome_simps mv_inv_def mvPhase_def mvNext_def split: if_split_asm)
  then show ?thesis by (intro exI [of _ wfNewPbRepoMoveAppAccepted]) (simp add: mvEventType_simps mvAdvanceEv_simps)
next
  case MvCmdExit
  let ?st = "st\<lparr>mvs_isTerminated := True\<rparr>"
  have "wfNewEvents g (mvs_vid st) [wfNewPbRepoMoveCommitted] = Inr evs" "mv_inv ?st"
    "mvPhase ?st \<in> set (mvNext (mvPhase st))"
    using assms(2,4,5) MvCmdExit
    by (auto simp: mvTellExit_def outcome_simps mv_inv_def mvPhase_def mvNext_def split: if_split_asm)
  then show ?thesis by (intro exI [of _ wfNewPbRepoMoveCommitted]) (simp add: mvEventType_simps mvAdvanceEv_simps)
qed (use assms(4) in simp)

lemma mv_workflow_code:
  assumes "ulid_binary ub"
  shows "workflow_code ub mvEventType (mvBehavior ub) (\<lambda>st _. mvAdvanceEv st) mv_inv mv_pre mvPhase MvNew mv_step"
proof
  show "\<not> is_Panic (Tell (mvBehavior ub) g st c)" if "mv_inv st" "mv_pre st c" for g st c
    using that by (cases c) (auto simp: mvTell_defs mv_pre_def mv_inv_def outcome_simps wfNewPbRepoMoveStarted_def
      wfNewPbRepoMoved_def validateRepoMoved_def firstError_None)
  show "wf_emits g (StVid (mvBehavior ub) st) (Tell (mvBehavior ub) g st c)" for g st c
    by (cases c) (auto simp: mvTell_defs wfNewPbRepoMoveStarted_def wfNewPbRepoMoved_def)
  show "\<exists>pbs. wfNewEvents g (StVid (mvBehavior ub) st) pbs = Inr evs \<and> mv_moves ub st pbs"
    if t: "mv_inv st" "mv_pre st c" "Tell (mvBehavior ub) g st c = Ok evs" for g st c evs
  proof (cases "evs = []")
    case True
    then show ?thesis using t(1) by (intro exI [of _ "[]"]) simp
  next
    case False
    then obtain p where "wfNewEvents g (mvs_vid st) [p] = Inr evs \<and> mv_moves ub st [p]"
      using mvTell_single [OF assms t(1,2), of g evs] t(3) by auto
    then show ?thesis by auto
  qed
  show "StId (mvBehavior ub) s' = StId (mvBehavior ub) s" if "mvAdvanceEv s x = Ok s'" for s x s'
    using that by (cases x) (auto simp: mvAdvanceEv_def split: WfMoveEvent.splits)
qed (simp_all add: mvAdvance_def)

text \<open>Every step of the machine can be taken.\<close>

definition demo_move :: MoveCmdInit where
  "demo_move = \<lparr>mi_RepoId = 7, mi_RepoEventId = 3, mi_OldGlobalPath = ''/g/a'', mi_OldFileHost = ''h'',
     mi_OldHostPath = ''/a'', mi_OldShadowPath = ''/s'', mi_NewGlobalPath = ''/g/b'', mi_NewFileHost = ''h'',
     mi_NewHostPath = ''/b''\<rparr>"

lemma demo_move_ok [simp]: "validateRepoMoveStarted (moveStarted demo_move) = None"
  by (simp add: validateRepoMoveStarted_def firstError_None moveStarted_def demo_move_def)

lemma demo_move_wf [simp]:
  "wm_RepoId (moveStarted demo_move) \<noteq> 0"
  by (simp add: moveStarted_def demo_move_def)

lemma mv_take:
  assumes "ulid_binary ub" "mv_inv st" "mv_step (mvPhase st) k"
  shows "\<exists>c p ev s'. mv_pre st c \<and> (\<forall>g. mvTell g st c = wfEmitPlain g (mvs_vid st) [p]) \<and>
    ParsePbWorkflowEvent ub p = Ok ev \<and> mvAdvanceEv st ev = Ok s' \<and> mvPhase s' = k"
proof (cases k)
  case MvStarted
  obtain p where p: "wfNewPbRepoMoveStarted (moveStarted demo_move) = (Ok p :: (wf_error, WorkflowPb) outcome)"
    by (simp add: wfNewPbRepoMoveStarted_def orPanic_def)
  have "mvPhase st = MvNew" using assms(3) MvStarted by (cases "mvPhase st") (auto simp: mvNext_def)
  then show ?thesis
    using p parse_RepoMoveStarted [OF assms(1) p] assms(2) MvStarted
    by (intro exI [of _ "MvCmdInit demo_move"] exI [of _ p] exI [of _ "WvRepoMoveStarted (moveStarted demo_move)"])
      (simp add: mvPhase_def mvAdvanceEv_simps mvTell_defs mv_pre_def split: if_split_asm)
next
  case MvMoved
  let ?x = "\<lparr>wd_RepoId = mvs_repoId st, wd_GlobalPath = mvs_newGlobalPath st,
    wd_FileHost = mvs_newFileHost st, wd_HostPath = mvs_newHostPath st, wd_ShadowPath = ''s''\<rparr>"
  have "mvPhase st = MvReleasedAccepted" using assms(3) MvMoved by (cases "mvPhase st") (auto simp: mvNext_def)
  then have f: "\<not> mvs_isTerminated st" "\<not> mvs_isMoved st" "mvs_isStaReleased st" "mvs_hasAppAccepted st"
    by (auto simp: mvPhase_def split: if_split_asm)
  then have i: "mvs_repoId st \<noteq> 0" "mvs_newGlobalPath st \<noteq> []" "mvs_newFileHost st \<noteq> []" "mvs_newHostPath st \<noteq> []"
    using assms(2) by (auto simp: mv_inv_def)
  then obtain p where p: "wfNewPbRepoMoved ?x = (Ok p :: (wf_error, WorkflowPb) outcome)"
    by (simp add: wfNewPbRepoMoved_def validateRepoMoved_def orPanic_def firstError.simps)
  show ?thesis
    using f i p parse_RepoMoved [OF assms(1) p] MvMoved
    by (intro exI [of _ "MvCmdCommit ''s''"] exI [of _ p] exI [of _ "WvRepoMoved ?x"])
      (simp add: mv_pre_def mvTell_defs mvAdvanceEv_simps mvPhase_def)
next
  case MvReleased
  have "mvPhase st = MvStarted" using assms(3) MvReleased by (cases "mvPhase st") (auto simp: mvNext_def)
  then show ?thesis
    using MvReleased by (intro exI [of _ MvCmdPostStadReleased] exI [of _ wfNewPbRepoMoveStaReleased])
      (simp add: mvPhase_def mvAdvanceEv_simps mvTell_defs mv_pre_def split: if_split_asm)
next
  case MvAccepted
  have "mvPhase st = MvStarted" using assms(3) MvAccepted by (cases "mvPhase st") (auto simp: mvNext_def)
  then show ?thesis
    using MvAccepted by (intro exI [of _ MvCmdPostAppAccepted] exI [of _ wfNewPbRepoMoveAppAccepted])
      (simp add: mvPhase_def mvAdvanceEv_simps mvTell_defs mv_pre_def split: if_split_asm)
next
  case MvReleasedAccepted
  consider "mvPhase st = MvReleased" | "mvPhase st = MvAccepted"
    using assms(3) MvReleasedAccepted by (cases "mvPhase st") (auto simp: mvNext_def)
  then show ?thesis
  proof cases
    case 1
    then show ?thesis
      using assms(2) MvReleasedAccepted
      by (intro exI [of _ MvCmdPostAppAccepted] exI [of _ wfNewPbRepoMoveAppAccepted])
        (simp add: mvPhase_def mvAdvanceEv_simps mvTell_defs mv_pre_def mv_inv_def split: if_split_asm)
  next
    case 2
    then show ?thesis
      using assms(2) MvReleasedAccepted
      by (intro exI [of _ MvCmdPostStadReleased] exI [of _ wfNewPbRepoMoveStaReleased])
        (simp add: mvPhase_def mvAdvanceEv_simps mvTell_defs mv_pre_def mv_inv_def split: if_split_asm)
  qed
next
  case MvTerminated
  have "mvPhase st = MvMoved" using assms(3) MvTerminated by (cases "mvPhase st") (auto simp: mvNext_def)
  then show ?thesis
    using assms(2) MvTerminated by (intro exI [of _ MvCmdExit] exI [of _ wfNewPbRepoMoveCommitted])
      (simp add: mvPhase_def mvAdvanceEv_simps mvTell_defs mv_pre_def mv_inv_def split: if_split_asm)
qed (use assms(3) in \<open>cases "mvPhase st"; simp add: mvNext_def\<close>)

lemma mv_complete:
  assumes "ulid_binary ub" "mv_inv st" "mv_step (mvPhase st) k"
  shows "\<exists>c g ev s'. mv_pre st c \<and> Tell (mvBehavior ub) g st c = Ok [ev] \<and>
    Advance (mvBehavior ub) st ev = Ok s' \<and> mvPhase s' = k"
proof -
  obtain c p ev s' where "mv_pre st c" "\<forall>g. mvTell g st c = wfEmitPlain g (mvs_vid st) [p]"
    "ParsePbWorkflowEvent ub p = Ok ev" "mvAdvanceEv st ev = Ok s'" "mvPhase s' = k"
    using mv_take [OF assms] by blast
  then show ?thesis
    by (intro exI [of _ c] exI [of _ "\<lambda>_. Inr 1"])
      (simp add: wfEmitPlain_def wfNewEvents_def mvAdvance_def MustParsePbWorkflowEvent_def)
qed

lemma mv_workflow_exact:
  assumes "ulid_binary ub"
  shows "workflow_exact (mvBehavior ub) (mvOps pm pu ub) mv_inv mv_pre mvPhase MvNew mv_step"
  by (intro workflow_exact.intro workflow_exact_axioms.intro mv_complete [OF assms]
      workflow_code.is_workflow [OF mv_workflow_code [OF assms]])

interpretation mv: workflow_code ulidUnmarshal mvEventType "GoErr ''invalid event type''" pm pu
  "mvBehavior ulidUnmarshal" "\<lambda>st _. mvAdvanceEv st" mv_inv mv_pre mvPhase MvNew mv_step for pm pu
  by (rule mv_workflow_code) simp

interpretation mv_exact: workflow_exact "mvBehavior ulidUnmarshal" "mvOps pm pu ulidUnmarshal" mv_inv mv_pre
  mvPhase MvNew mv_step for pm pu
  by (rule mv_workflow_exact) simp

section \<open>Properties\<close>

abbreviation mv_live where
  "mv_live pm pu ub \<equiv> live (mvBehavior ub) (mvOps pm pu ub) mv_pre"

abbreviation mv_phases where
  "mv_phases pm pu ub i \<equiv> trace (mvBehavior ub) (mvOps pm pu ub) mvPhase ((mvNewState i)\<lparr>mvs_vid := EventEpoch\<rparr>)"

definition mvPaths :: "mv_phase list list" where
  "mvPaths =
     [[MvStarted, MvReleased, MvReleasedAccepted, MvMoved, MvTerminated],
      [MvStarted, MvAccepted, MvReleasedAccepted, MvMoved, MvTerminated]]"

text \<open>
  C34: a repo is moved only after nogfsostad has released it and nogappd has accepted the move, in either order: the
  phases that the histories of live move-repo workflows pass are the prefixes of two paths.
\<close>

theorem move_repo_paths:
  assumes "ulid_binary ub"
  shows "{mv_phases pm pu ub i hist | st hist. mv_live pm pu ub i st hist} = {ks. \<exists>p \<in> set mvPaths. prefix ks p}"
proof -
  have "runs mvNext 5 MvNew = mvPaths" by (simp add: mvPaths_def mvNext_def eval_nat_numeral)
  moreover have "{ks. steps mv_step MvNew ks} = {ks. \<exists>p \<in> set (runs mvNext 5 MvNew). prefix ks p}"
    by (rule bounded_paths [where rank = mv_rank]) (auto simp: mvNext_def mv_rank_def split: mv_phase.splits)
  ultimately show ?thesis
    using workflow_exact.live_traces [OF mv_workflow_exact [OF assms], of pm pu i] by simp
qed

theorem move_repo_paths_witness:
  "{mv_phases (\<lambda>_. Inr []) (\<lambda>_. Inl (GoErr [])) ulidUnmarshal 7 hist | st hist.
      mv_live (\<lambda>_. Inr []) (\<lambda>_. Inl (GoErr [])) ulidUnmarshal 7 st hist} = {ks. \<exists>p \<in> set mvPaths. prefix ks p} \<and>
   length mvPaths = 2"
  using move_repo_paths [OF ulidUnmarshal_ok] by (simp add: mvPaths_def)

text \<open>A commit without the shadow path is a panic.\<close>

lemma move_commit_empty_panics:
  assumes "mvPhase st = MvReleasedAccepted" "mv_inv st"
  shows "is_Panic (mvTell g st (MvCmdCommit []))"
proof -
  have "\<not> mvs_isTerminated st" "\<not> mvs_isMoved st" "mvs_isStaReleased st" "mvs_hasAppAccepted st"
    using assms(1) by (auto simp: mvPhase_def split: if_split_asm)
  moreover from this have "mvs_repoId st \<noteq> 0" using assms(2) by (auto simp: mv_inv_def)
  ultimately show ?thesis
    by (simp add: mvTellCommit_def wfNewPbRepoMoved_def validateRepoMoved_def outcome_simps firstError_None)
qed

end
