(* ===== verification/Move_Shadow_Workflow.thy ===== *)
theory Move_Shadow_Workflow
  imports Workflow_Base
begin

text \<open>
  The move-shadow workflow (\<open>backend/internal/workflows/moveshadowwf/move-shadow.go\<close>) and its single path.
\<close>

section \<open>State and commands\<close>

record ShadowState =
  mss_id :: uuid
  mss_vid :: ulid
  mss_repoId :: uuid
  mss_repoEventId :: ulid
  mss_isStaDisabled :: bool
  mss_isMoved :: bool
  mss_isTerminated :: bool

datatype (plugins only: code) ms_cmd =
    MsCmdInit uuid ulid \<comment> \<open>repo, event on the repo\<close>
  | MsCmdPostStadDisabled
  | MsCmdCommit
  | MsCmdExit
  | MsCmdForeign \<comment> \<open>a command of another aggregate\<close>

definition MsErrConflict :: wf_error where "MsErrConflict = WfPlainError (GoErr ''workflow conflict'')"

definition MsErrConflictInit :: wf_error where
  "MsErrConflictInit = WfPlainError (GoErr ''workflow init conflict'')"

definition MsErrInvalidCommand :: wf_error where
  "MsErrInvalidCommand = WfPlainError (GoErr ''invalid workflow command'')"

definition MsErrMoved :: wf_error where "MsErrMoved = WfPlainError (GoErr ''workflow move completed'')"

definition MsErrNotMoved :: wf_error where
  "MsErrNotMoved = WfPlainError (GoErr ''workflow did not complete move'')"

definition MsErrStaActive :: wf_error where
  "MsErrStaActive = WfPlainError (GoErr ''nogfsostad has yet not disabled the repo'')"

definition MsErrTerminated :: wf_error where "MsErrTerminated = WfPlainError (GoErr ''workflow terminated'')"

definition MsErrUninitialized :: wf_error where
  "MsErrUninitialized = WfPlainError (GoErr ''workflow uninitialized'')"

definition msNewState :: "uuid \<Rightarrow> ShadowState" where
  "msNewState i = \<lparr>mss_id = i, mss_vid = 0, mss_repoId = uuidNil, mss_repoEventId = ulidNil,
     mss_isStaDisabled = False, mss_isMoved = False, mss_isTerminated = False\<rparr>"

section \<open>Advance\<close>

definition msAdvanceEv :: "ShadowState \<Rightarrow> WorkflowEvent \<Rightarrow> (wf_error, ShadowState) outcome" where
  "msAdvanceEv st ev =
     (case ev of
        WvShadowRepoMoveStarted repoId repoEventId \<Rightarrow>
          Ok (st\<lparr>mss_repoId := repoId, mss_repoEventId := repoEventId\<rparr>)
      | WvShadowRepoMoveStaDisabled \<Rightarrow> Ok (st\<lparr>mss_isStaDisabled := True\<rparr>)
      | WvShadowRepoMoved _ \<Rightarrow> Ok (st\<lparr>mss_isMoved := True\<rparr>)
      | WvShadowRepoMoveCommitted \<Rightarrow> Ok (st\<lparr>mss_isTerminated := True\<rparr>)
      | _ \<Rightarrow> Panic ''invalid event'')"

definition msAdvance ::
  "ulid_unmarshal \<Rightarrow> ShadowState \<Rightarrow> WorkflowPb Event \<Rightarrow> (wf_error, ShadowState) outcome" where
  "msAdvance ub st ev = obind (MustParsePbWorkflowEvent ub (ev_pb ev)) (msAdvanceEv st)"

section \<open>Tell\<close>

definition msTellInit ::
  "ulid_source \<Rightarrow> ShadowState \<Rightarrow> uuid \<Rightarrow> ulid \<Rightarrow> (wf_error, WorkflowPb Event list) outcome" where
  "msTellInit g st repoId repoEventId =
     (if mss_isStaDisabled st then Err MsErrConflict
      else if mss_repoId st \<noteq> uuidNil then
        (if repoId \<noteq> mss_repoId st then Err MsErrConflictInit
         else if repoEventId \<noteq> mss_repoEventId st then Err MsErrConflictInit
         else Ok [])
      else wfEmitPlain g (mss_vid st) [wfNewPbShadowRepoMoveStarted repoId repoEventId])"

definition msTellPostStadDisabled ::
  "ulid_source \<Rightarrow> ShadowState \<Rightarrow> (wf_error, WorkflowPb Event list) outcome" where
  "msTellPostStadDisabled g st =
     (if mss_isMoved st then Err MsErrMoved
      else if mss_isStaDisabled st then Ok []
      else if mss_repoId st = uuidNil then Err MsErrUninitialized
      else wfEmitPlain g (mss_vid st) [wfNewPbShadowRepoMoveStaDisabled])"

definition msTellCommit :: "ulid_source \<Rightarrow> ShadowState \<Rightarrow> (wf_error, WorkflowPb Event list) outcome" where
  "msTellCommit g st =
     (if mss_isTerminated st then Err MsErrTerminated
      else if mss_isMoved st then Ok []
      else if mss_repoId st = uuidNil then Err MsErrUninitialized
      else if \<not> mss_isStaDisabled st then Err MsErrStaActive
      else wfEmitPlain g (mss_vid st) [wfNewPbShadowRepoMoved (mss_repoId st)])"

definition msTellExit :: "ulid_source \<Rightarrow> ShadowState \<Rightarrow> (wf_error, WorkflowPb Event list) outcome" where
  "msTellExit g st =
     (if mss_isTerminated st then Ok []
      else if mss_repoId st = uuidNil then Err MsErrUninitialized
      else if \<not> mss_isMoved st then Err MsErrNotMoved
      else wfEmitPlain g (mss_vid st) [wfNewPbShadowRepoMoveCommitted])"

fun msTell :: "ulid_source \<Rightarrow> ShadowState \<Rightarrow> ms_cmd \<Rightarrow> (wf_error, WorkflowPb Event list) outcome" where
  "msTell g st (MsCmdInit repoId repoEventId) = msTellInit g st repoId repoEventId"
| "msTell g st MsCmdPostStadDisabled = msTellPostStadDisabled g st"
| "msTell g st MsCmdCommit = msTellCommit g st"
| "msTell g st MsCmdExit = msTellExit g st"
| "msTell g st MsCmdForeign = Err MsErrInvalidCommand"

lemmas msTell_defs = msTellInit_def msTellPostStadDisabled_def msTellCommit_def msTellExit_def

definition msBehavior :: "ulid_unmarshal \<Rightarrow> (ShadowState, ms_cmd, WorkflowPb Event, wf_error) Behavior" where
  "msBehavior ub = \<lparr>NewState = msNewState, StId = mss_id, StVid = mss_vid,
     SetVid = (\<lambda>v st. st\<lparr>mss_vid := v\<rparr>), Advance = msAdvance ub, Tell = msTell\<rparr>"

definition msEventType :: "WorkflowEvent_Type \<Rightarrow> bool" where
  "msEventType t \<longleftrightarrow> t \<in> {WT_FSO_SHADOW_REPO_MOVE_STARTED, WT_FSO_SHADOW_REPO_MOVE_STA_DISABLED,
     WT_FSO_SHADOW_REPO_MOVED, WT_FSO_SHADOW_REPO_MOVE_COMMITTED}"

abbreviation msOps where
  "msOps pm pu ub \<equiv> wfEventOps msEventType (GoErr ''invalid event type'') pm pu ub"

lemma msBehavior_simps [simp]:
  "NewState (msBehavior ub) = msNewState" "StId (msBehavior ub) = mss_id" "StVid (msBehavior ub) = mss_vid"
  "SetVid (msBehavior ub) v st = st\<lparr>mss_vid := v\<rparr>" "Advance (msBehavior ub) = msAdvance ub"
  "Tell (msBehavior ub) = msTell"
  by (simp_all add: msBehavior_def)

section \<open>The state machine\<close>

text \<open>The callers' obligation is that the init command names a repo.\<close>

datatype (plugins only: code) ms_phase = MsNew | MsStarted | MsDisabled | MsMoved | MsTerminated

definition msPhase :: "ShadowState \<Rightarrow> ms_phase" where
  "msPhase st =
     (if mss_isTerminated st then MsTerminated
      else if mss_isMoved st then MsMoved
      else if mss_isStaDisabled st then MsDisabled
      else if mss_repoId st \<noteq> uuidNil then MsStarted
      else MsNew)"

definition ms_pre :: "ShadowState \<Rightarrow> ms_cmd \<Rightarrow> bool" where
  "ms_pre st c \<longleftrightarrow> (case c of MsCmdInit repoId _ \<Rightarrow> repoId \<noteq> 0 | _ \<Rightarrow> True)"

definition msNext :: "ms_phase \<Rightarrow> ms_phase list" where
  "msNext k = (case k of MsNew \<Rightarrow> [MsStarted] | MsStarted \<Rightarrow> [MsDisabled] | MsDisabled \<Rightarrow> [MsMoved]
     | MsMoved \<Rightarrow> [MsTerminated] | MsTerminated \<Rightarrow> [])"

abbreviation ms_step :: "ms_phase \<Rightarrow> ms_phase \<Rightarrow> bool" where
  "ms_step \<equiv> \<lambda>k k'. k' \<in> set (msNext k)"

definition ms_inv :: "ShadowState \<Rightarrow> bool" where
  "ms_inv st \<longleftrightarrow> (mss_isStaDisabled st \<longrightarrow> mss_repoId st \<noteq> 0) \<and> (mss_isMoved st \<longrightarrow> mss_isStaDisabled st) \<and>
     (mss_isTerminated st \<longrightarrow> mss_isMoved st)"

lemma msNewState_simps [simp]:
  "msPhase (msNewState i) = MsNew" "mss_id (msNewState i) = i" "ms_inv (msNewState i)"
  by (simp_all add: msNewState_def msPhase_def ms_inv_def)

lemma ms_vid [simp]: "ms_inv (st\<lparr>mss_vid := v\<rparr>) = ms_inv st" "msPhase (st\<lparr>mss_vid := v\<rparr>) = msPhase st"
  by (simp_all add: ms_inv_def msPhase_def)

abbreviation ms_moves where
  "ms_moves ub \<equiv> moves ub msEventType (msBehavior ub) (\<lambda>st _. msAdvanceEv st) ms_inv msPhase ms_step"

lemma msEventType_simps:
  "msEventType WT_FSO_SHADOW_REPO_MOVE_STARTED" "msEventType WT_FSO_SHADOW_REPO_MOVE_STA_DISABLED"
  "msEventType WT_FSO_SHADOW_REPO_MOVED" "msEventType WT_FSO_SHADOW_REPO_MOVE_COMMITTED"
  by (simp_all add: msEventType_def)

lemma msAdvanceEv_simps:
  "msAdvanceEv st (WvShadowRepoMoveStarted i v) = Ok (st\<lparr>mss_repoId := i, mss_repoEventId := v\<rparr>)"
  "msAdvanceEv st WvShadowRepoMoveStaDisabled = Ok (st\<lparr>mss_isStaDisabled := True\<rparr>)"
  "msAdvanceEv st (WvShadowRepoMoved j) = Ok (st\<lparr>mss_isMoved := True\<rparr>)"
  "msAdvanceEv st WvShadowRepoMoveCommitted = Ok (st\<lparr>mss_isTerminated := True\<rparr>)"
  by (simp_all add: msAdvanceEv_def)

text \<open>The one command and the one message that lead to each phase.\<close>

fun msTake :: "ShadowState \<Rightarrow> ms_cmd \<Rightarrow> WorkflowPb \<times> ShadowState" where
  "msTake st (MsCmdInit i v) = (wfNewPbShadowRepoMoveStarted i v, st\<lparr>mss_repoId := i, mss_repoEventId := v\<rparr>)"
| "msTake st MsCmdPostStadDisabled = (wfNewPbShadowRepoMoveStaDisabled, st\<lparr>mss_isStaDisabled := True\<rparr>)"
| "msTake st MsCmdCommit = (wfNewPbShadowRepoMoved (mss_repoId st), st\<lparr>mss_isMoved := True\<rparr>)"
| "msTake st _ = (wfNewPbShadowRepoMoveCommitted, st\<lparr>mss_isTerminated := True\<rparr>)"

lemma msTake_parse:
  assumes "ulid_binary ub"
  shows "\<exists>ev. ParsePbWorkflowEvent ub (fst (msTake st c)) = Ok ev \<and> msAdvanceEv st ev = Ok (snd (msTake st c)) \<and>
    msEventType (wp_Event (fst (msTake st c))) \<and> wf_pb_ok (fst (msTake st c))"
  using assms by (cases c) (simp_all add: msAdvanceEv_simps msEventType_simps)

lemma msTell_take:
  assumes "ms_inv st" "ms_pre st c" "msTell g st c = Ok evs" "evs \<noteq> []"
  shows "wfNewEvents g (mss_vid st) [fst (msTake st c)] = Inr evs \<and> ms_inv (snd (msTake st c)) \<and>
    msPhase (snd (msTake st c)) \<in> set (msNext (msPhase st))"
  using assms by (cases c) (auto simp: msTell_defs ms_pre_def outcome_simps ms_inv_def msPhase_def msNext_def
    split: if_split_asm)

lemma ms_complete:
  assumes "ulid_binary ub" "ms_inv st" "ms_step (msPhase st) k"
  shows "\<exists>c g ev s'. ms_pre st c \<and> Tell (msBehavior ub) g st c = Ok [ev] \<and>
    Advance (msBehavior ub) st ev = Ok s' \<and> msPhase s' = k"
proof -
  let ?c = "case k of MsStarted \<Rightarrow> MsCmdInit 7 3 | MsDisabled \<Rightarrow> MsCmdPostStadDisabled | MsMoved \<Rightarrow> MsCmdCommit
    | _ \<Rightarrow> MsCmdExit"
  have "ms_pre st ?c" by (simp add: ms_pre_def split: ms_phase.splits)
  moreover have "msTell g st ?c = wfEmitPlain g (mss_vid st) [fst (msTake st ?c)] \<and> msPhase (snd (msTake st ?c)) = k" for g
    using assms(2,3) by (auto simp: msTell_defs ms_inv_def msPhase_def msNext_def split: if_split_asm)
  ultimately show ?thesis
    using msTake_parse [OF assms(1), of st ?c]
    by (intro exI [of _ ?c] exI [of _ "\<lambda>_. Inr 1"])
      (auto simp: wfEmitPlain_def wfNewEvents_def msAdvance_def MustParsePbWorkflowEvent_def)
qed

lemma ms_workflow_code:
  assumes "ulid_binary ub"
  shows "workflow_code ub msEventType (msBehavior ub) (\<lambda>st _. msAdvanceEv st) ms_inv ms_pre msPhase MsNew ms_step"
proof
  show "\<not> is_Panic (Tell (msBehavior ub) g st c)" for g st c
    by (cases c) (auto simp: msTell_defs outcome_simps)
  show "wf_emits g (StVid (msBehavior ub) st) (Tell (msBehavior ub) g st c)" for g st c
    by (cases c) (auto simp: msTell_defs)
  show "\<exists>pbs. wfNewEvents g (StVid (msBehavior ub) st) pbs = Inr evs \<and> ms_moves ub st pbs"
    if t: "ms_inv st" "ms_pre st c" "Tell (msBehavior ub) g st c = Ok evs" for g st c evs
  proof (cases "evs = []")
    case True
    then show ?thesis using t(1) by (intro exI [of _ "[]"]) simp
  next
    case False
    then show ?thesis
      using msTell_take [OF t(1,2), of g evs] t(3) msTake_parse [OF assms, of st c]
      by (intro exI [of _ "[fst (msTake st c)]"]) auto
  qed
  show "StId (msBehavior ub) s' = StId (msBehavior ub) s" if "msAdvanceEv s x = Ok s'" for s x s'
    using that by (cases x) (auto simp: msAdvanceEv_def split: WfShadowEvent.splits)
qed (simp_all add: msAdvance_def)

lemma ms_workflow_exact:
  assumes "ulid_binary ub"
  shows "workflow_exact (msBehavior ub) (msOps pm pu ub) ms_inv ms_pre msPhase MsNew ms_step"
  by (intro workflow_exact.intro workflow_exact_axioms.intro ms_complete [OF assms]
      workflow_code.is_workflow [OF ms_workflow_code [OF assms]])

interpretation ms: workflow_code ulidUnmarshal msEventType "GoErr ''invalid event type''" pm pu
  "msBehavior ulidUnmarshal" "\<lambda>st _. msAdvanceEv st" ms_inv ms_pre msPhase MsNew ms_step for pm pu
  by (rule ms_workflow_code) simp

interpretation ms_exact: workflow_exact "msBehavior ulidUnmarshal" "msOps pm pu ulidUnmarshal" ms_inv ms_pre
  msPhase MsNew ms_step for pm pu
  by (rule ms_workflow_exact) simp

section \<open>Paths\<close>

text \<open>The phases of a live history are a prefix of the one path, and every prefix occurs.\<close>

lemma move_shadow_path:
  assumes "ulid_binary ub"
  shows "{trace (msBehavior ub) (msOps pm pu ub) msPhase ((msNewState i)\<lparr>mss_vid := EventEpoch\<rparr>) hist | st hist.
      live (msBehavior ub) (msOps pm pu ub) ms_pre i st hist} =
    {ks. prefix ks [MsStarted, MsDisabled, MsMoved, MsTerminated]}"
proof -
  have "runs msNext 4 MsNew = [[MsStarted, MsDisabled, MsMoved, MsTerminated]]"
    by (simp add: msNext_def eval_nat_numeral)
  moreover have "{ks. steps ms_step MsNew ks} = {ks. \<exists>p \<in> set (runs msNext 4 MsNew). prefix ks p}"
    by (rule bounded_paths [where rank = "\<lambda>k. case k of MsNew \<Rightarrow> 0 | MsStarted \<Rightarrow> 1 | MsDisabled \<Rightarrow> 2 | MsMoved \<Rightarrow> 3
      | MsTerminated \<Rightarrow> 4"]) (auto simp: msNext_def split: ms_phase.splits)
  ultimately show ?thesis
    using workflow_exact.live_traces [OF ms_workflow_exact [OF assms], of pm pu i] by simp
qed

end
