(* ===== verification/Event_Server.thy ===== *)
theory Event_Server
  imports Event_Engine
begin

text \<open>
  Servers on the engine: any sequence of the three kinds of requests to one aggregate type.  A request that panics or
  does not return stops the server; the lemma \<open>serve_safe\<close> is that this does not happen.
\<close>

datatype (plugins only: code) 'c request =
    ReqTell uuid ulid 'c "nat \<Rightarrow> ulid_source \<times> ulid_source"
  | ReqFind uuid
  | ReqDelete uuid ulid 'c ulid_source

definition handle ::
  "'db Mongo \<Rightarrow> decode_parent \<Rightarrow> ulid_unmarshal \<Rightarrow> ('s, 'c, 'ev, 'e) Behavior \<Rightarrow> 'ev EventOps \<Rightarrow> ('e \<Rightarrow> bool) \<Rightarrow>
   'c request \<Rightarrow> (('db, 's) eng, 'e EngineError, unit) dbm" where
  "handle m dp ub b ops bc rq =
     (case rq of
        ReqTell i vid cmd gs \<Rightarrow> dbind (TellIdVid m dp ub b ops bc gs i vid cmd) (\<lambda>_. ret (Ok ()))
      | ReqFind i \<Rightarrow> dbind (FindId m dp ub b ops i) (\<lambda>_. ret (Ok ()))
      | ReqDelete i vid cmd g \<Rightarrow> DeleteIdVid m dp ub b ops g i vid cmd)"

fun serve ::
  "'db Mongo \<Rightarrow> decode_parent \<Rightarrow> ulid_unmarshal \<Rightarrow> ('s, 'c, 'ev, 'e) Behavior \<Rightarrow> 'ev EventOps \<Rightarrow> ('e \<Rightarrow> bool) \<Rightarrow>
   'c request list \<Rightarrow> ('db, 's) eng \<Rightarrow> ('db, 's) eng option" where
  "serve m dp ub b ops bc [] x = Some x"
| "serve m dp ub b ops bc (rq # rqs) x =
     (case handle m dp ub b ops bc rq x of
        None \<Rightarrow> None
      | Some (r, x') \<Rightarrow> if is_Panic r then None else serve m dp ub b ops bc rqs x')"

text \<open>A good request is on a history of the aggregate, has a fitting command, and draws ids that are not nil.\<close>

definition goodRequest ::
  "('s, 'c, 'ev, 'e) Behavior \<Rightarrow> ('s \<Rightarrow> 'c \<Rightarrow> bool) \<Rightarrow> uuid set \<Rightarrow> 'c request \<Rightarrow> bool" where
  "goodRequest b pre H rq \<longleftrightarrow> (case rq of
     ReqTell i vid cmd gs \<Rightarrow> i \<in> H \<and> (\<forall>s. pre s cmd) \<and>
       (\<forall>n k v. (fst (gs n) k = Inr v \<longrightarrow> v \<noteq> ulidNil) \<and> (snd (gs n) k = Inr v \<longrightarrow> v \<noteq> ulidNil))
   | ReqFind i \<Rightarrow> i \<in> H
   | ReqDelete i vid cmd g \<Rightarrow> i \<in> H \<and> (\<forall>s. pre s cmd) \<and> (\<forall>g s evs. Tell b g s cmd = Ok evs \<longrightarrow> evs = []))"

lemma goodRequest_mono:
  assumes "\<And>s c. pre s c \<Longrightarrow> pre' s c" and "goodRequest b pre H rq"
  shows "goodRequest b pre' H rq"
  using assms by (auto simp: goodRequest_def split: request.splits)

text \<open>In a consistent journal, the ids of a history are the ones of the log of a live state.\<close>

lemma stored_history_log:
  assumes "jinv (live_hist b ops pre wfe H) par v" and "h \<in> H" and "snapshot par v h xs" and "xs \<noteq> []"
  shows "\<exists>st hist. live b ops pre h st hist \<and> map (EvId ops) hist = xs"
proof -
  obtain rf where rf: "mv_refs v h = Some rf" "chain (mv_events v) par (rf_Head rf) xs" "\<not> IsInactive (phaseOf rf)"
    using assms(3,4) by (auto simp: snapshot_def split: option.splits if_splits)
  then have "ref_inv (live_hist b ops pre wfe H) par v h rf"
    using assms(1) unfolding jinv_def by (metis option.simps(5))
  then obtain ys where "chain (mv_events v) par (rf_Head rf) ys" "live_hist b ops pre wfe H h (mv_events v) ys"
    unfolding ref_inv_def by blast
  moreover from this have "ys = xs" using chain_det rf(2) by blast
  ultimately show ?thesis using assms(2) by (auto simp: live_hist_def)
qed

context engine
begin

lemma triple_forget:
  assumes "triple view2 (v, c, ps) f (epost v0 EP Q)"
  shows "triple view2 (v, c, ps) (dbind f (\<lambda>_. ret (Ok ()))) (epost v0 (\<lambda>_. True) (\<lambda>_ _. True))"
  by (rule triple_dbind [OF assms]) (auto intro!: triple_ret)

lemma triple_handle:
  assumes "goodRequest b pre H rq" "jinv L par v" "cache_ok v c"
  shows "triple view2 (v, c, ps) (handle m dp ub b ops bc rq) (epost v (\<lambda>_. True) (\<lambda>_ _. True))"
proof (cases rq)
  case (ReqTell i vid cmd gs)
  have g: "i \<in> H" "\<And>s. pre s cmd" "\<And>n. good_ids (fst (gs n))" "\<And>n. good_ids (snd (gs n))"
    using assms(1) by (auto simp: goodRequest_def ReqTell)
  show ?thesis unfolding handle_def ReqTell request.case
    by (rule triple_forget [OF triple_TellIdVid [OF g(1) _ g(3,4) assms(2,3)]]) (rule g(2))
next
  case (ReqFind i)
  then have "i \<in> H" using assms(1) by (simp add: goodRequest_def)
  show ?thesis unfolding handle_def ReqFind request.case
    by (rule triple_forget [OF triple_FindId [OF \<open>i \<in> H\<close> assms(2,3)]])
next
  case (ReqDelete i vid cmd g)
  have d: "i \<in> H" "\<And>s. pre s cmd" "\<And>g s evs. Tell b g s cmd = Ok evs \<Longrightarrow> evs = []"
    using assms(1) by (auto simp: goodRequest_def ReqDelete)
  show ?thesis unfolding handle_def ReqDelete request.case
    by (rule triple_DeleteIdVid [OF d(1) _ _ assms(2,3)]) (use d(2,3) in blast)+
qed

lemma serve_safe:
  assumes "jinv L par (view db)" and "cache_ok (view db) c" and "\<forall>rq \<in> set rqs. goodRequest b pre H rq"
  shows "\<exists>db' c' ps'. serve m dp ub b ops bc rqs (db, c, ps) = Some (db', c', ps') \<and>
    evolves L par (view db) (view db') \<and> cache_ok (view db') c'"
  using assms
proof (induction rqs arbitrary: db c ps)
  case (Cons rq rqs)
  have "triple view2 (view2 (db, c, ps)) (handle m dp ub b ops bc rq) (epost (view db) (\<lambda>_. True) (\<lambda>_ _. True))"
    unfolding view2_simp using triple_handle [OF _ Cons.prems(1,2)] Cons.prems(3) by simp
  from triple_run [OF this] obtain r x where run: "handle m dp ub b ops bc rq (db, c, ps) = Some (r, x)"
    and post: "epost (view db) (\<lambda>_. True) (\<lambda>_ _. True) r (view2 x)" by blast
  obtain db1 c1 ps1 where x: "x = (db1, c1, ps1)" by (cases x)
  have p: "\<not> is_Panic r" "evolves L par (view db) (view db1)" "cache_ok (view db1) c1"
    using post x by (cases r; simp)+
  obtain db' c' ps' where rest: "serve m dp ub b ops bc rqs (db1, c1, ps1) = Some (db', c', ps')"
    "evolves L par (view db1) (view db')" "cache_ok (view db') c'"
    using Cons.IH [OF evolves_jinv [OF p(2) Cons.prems(1)] p(3), of ps1] Cons.prems(3) by auto
  show ?case using run x p(1) rest(1,3) evolves_trans [OF p(2) rest(2)] by auto
qed simp

end

end
