(* ===== verification/Workflow_Engine.thy ===== *)
theory Workflow_Engine
  imports Event_Server Event_Memory Freeze_Workflow Unfreeze_Workflow Archive_Workflow Unarchive_Workflow
    Split_Root_Workflow Ping_Registry_Workflow Du_Root_Workflow Move_Repo_Workflow Move_Shadow_Workflow
begin

text \<open>
  The workflows on the event-sourcing engine: the type \<open>Workflows\<close> of each package, whose methods forward commands to
  the engine, and what holds when several processes serve requests on the same journal.
\<close>

section \<open>Errors\<close>

text \<open>
  The error types that \<open>IsPackageError()\<close> lists; the errors of a command that are not among them are wrapped as errors of
  the journal.
\<close>

datatype (plugins only: code) wf_api_error =
    WfPackageError wf_error
  | WfJournalError "wf_error EngineError"
  | WfUninitializedError
  | WfEngineError "wf_error EngineError" \<comment> \<open>packages that return errors of the engine as they are\<close>

fun wfIsPackageError :: "wf_error \<Rightarrow> bool" where
  "wfIsPackageError (WfPlainError e) = False"
| "wfIsPackageError e = True"

fun wfWrapJournalError :: "wf_error EngineError \<Rightarrow> wf_api_error" where
  "wfWrapJournalError (BehaviorError e) =
     (if wfIsPackageError e then WfPackageError e else WfJournalError (BehaviorError e))"
| "wfWrapJournalError e = WfJournalError e"

definition wfWrap :: "('x, wf_error EngineError, 'a) dbm \<Rightarrow> ('x, wf_api_error, 'a) dbm" where
  "wfWrap f = (\<lambda>x. map_option (\<lambda>(r, x'). (map_err wfWrapJournalError r, x')) (f x))"

definition wfPlain :: "('x, wf_error EngineError, 'a) dbm \<Rightarrow> ('x, wf_api_error, 'a) dbm" where
  "wfPlain f = (\<lambda>x. map_option (\<lambda>(r, x'). (map_err WfEngineError r, x')) (f x))"

section \<open>Workflows\<close>

text \<open>The engine of a package: the driver, the codecs, and the behavior with its types of events.\<close>

record 'db Workflows =
  wk_mongo :: "'db Mongo"
  wk_dp :: decode_parent
  wk_ub :: ulid_unmarshal
  wk_pm :: "WorkflowPb \<Rightarrow> goerr + byte list"
  wk_pu :: "byte list \<Rightarrow> goerr + WorkflowPb"

abbreviation wk_ops :: "'db Workflows \<Rightarrow> (WorkflowEvent_Type \<Rightarrow> bool) \<Rightarrow> WorkflowPb Event EventOps" where
  "wk_ops r ok \<equiv> wfEventOps ok (GoErr ''invalid event type'') (wk_pm r) (wk_pu r) (wk_ub r)"

definition wfTellIdVid where
  "wfTellIdVid r b ok gs i vid cmd =
     TellIdVid (wk_mongo r) (wk_dp r) (wk_ub r) (b (wk_ub r)) (wk_ops r ok) (\<lambda>_ :: wf_error. False) gs i vid cmd"

definition wfDeleteIdVid where
  "wfDeleteIdVid r b ok g i vid cmd =
     DeleteIdVid (wk_mongo r) (wk_dp r) (wk_ub r) (b (wk_ub r)) (wk_ops r ok) g i vid (cmd :: 'c)"

text \<open>\<open>FindId()\<close> of every package; the packages differ in how they wrap the engine's error.\<close>

definition wfFindId ::
  "(wf_error EngineError \<Rightarrow> wf_api_error) \<Rightarrow> 'db Workflows \<Rightarrow>
   (ulid_unmarshal \<Rightarrow> ('s, 'c, WorkflowPb Event, wf_error) Behavior) \<Rightarrow> (WorkflowEvent_Type \<Rightarrow> bool) \<Rightarrow> uuid \<Rightarrow>
   (('db, 's) eng, wf_api_error, 's) dbm" where
  "wfFindId wrap r b ok i = (\<lambda>x.
     case FindId (wk_mongo r) (wk_dp r) (wk_ub r) (b (wk_ub r)) (wk_ops r ok) i x of
       None \<Rightarrow> None
     | Some (Err e, x') \<Rightarrow> Some (Err (wrap e), x')
     | Some (Panic p, x') \<Rightarrow> Some (Panic p, x')
     | Some (Ok st, x') \<Rightarrow>
         if StVid (b (wk_ub r)) st = EventEpoch then Some (Err WfUninitializedError, x') else Some (Ok st, x'))"

subsection \<open>Freeze of a repo\<close>

definition fzFindId where
  "fzFindId r = wfFindId WfJournalError r fzBehavior fzEventType"

definition fzInit where
  "fzInit r gs i cmd = wfWrap (wfTellIdVid r fzBehavior fzEventType gs i NoVC
     (FzCmdInit cmd))"

definition fzBeginFiles where
  "fzBeginFiles r gs i vid = wfWrap (wfTellIdVid r fzBehavior fzEventType gs i vid
     (FzCmdBeginFiles))"

definition fzCommitFiles where
  "fzCommitFiles r gs i vid = wfWrap (wfTellIdVid r fzBehavior fzEventType gs i vid
     (FzCmdCommitFiles))"

definition fzAbortFiles where
  "fzAbortFiles r gs i vid code msg = wfWrap (wfTellIdVid r fzBehavior fzEventType gs i vid
     (FzCmdAbortFiles code msg))"

definition fzCommit where
  "fzCommit r gs i vid = wfWrap (wfTellIdVid r fzBehavior fzEventType gs i vid
     (FzCmdCommit))"

definition fzAbort where
  "fzAbort r gs i vid code msg = wfWrap (wfTellIdVid r fzBehavior fzEventType gs i vid
     (FzCmdAbort code msg))"

definition fzEnd where
  "fzEnd r gs i vid = wfWrap (wfTellIdVid r fzBehavior fzEventType gs i vid
     (FzCmdEnd))"

subsection \<open>Unfreeze of a repo\<close>

definition ufFindId where
  "ufFindId r = wfFindId WfJournalError r ufBehavior ufEventType"

definition ufInit where
  "ufInit r gs i cmd = wfWrap (wfTellIdVid r ufBehavior ufEventType gs i NoVC
     (UfCmdInit cmd))"

definition ufBeginFiles where
  "ufBeginFiles r gs i vid = wfWrap (wfTellIdVid r ufBehavior ufEventType gs i vid
     (UfCmdBeginFiles))"

definition ufCommitFiles where
  "ufCommitFiles r gs i vid = wfWrap (wfTellIdVid r ufBehavior ufEventType gs i vid
     (UfCmdCommitFiles))"

definition ufAbortFiles where
  "ufAbortFiles r gs i vid code msg = wfWrap (wfTellIdVid r ufBehavior ufEventType gs i vid
     (UfCmdAbortFiles code msg))"

definition ufCommit where
  "ufCommit r gs i vid = wfWrap (wfTellIdVid r ufBehavior ufEventType gs i vid
     (UfCmdCommit))"

definition ufAbort where
  "ufAbort r gs i vid code msg = wfWrap (wfTellIdVid r ufBehavior ufEventType gs i vid
     (UfCmdAbort code msg))"

definition ufEnd where
  "ufEnd r gs i vid = wfWrap (wfTellIdVid r ufBehavior ufEventType gs i vid
     (UfCmdEnd))"

subsection \<open>Archive of a repo\<close>

definition arFindId where
  "arFindId r = wfFindId WfJournalError r arBehavior arEventType"

definition arInit where
  "arInit r gs i cmd = wfWrap (wfTellIdVid r arBehavior arEventType gs i NoVC
     (ArCmdInit cmd))"

definition arBeginFiles where
  "arBeginFiles r gs i vid aclPolicy = wfWrap (wfTellIdVid r arBehavior arEventType gs i vid
     (ArCmdBeginFiles aclPolicy))"

definition arCommitTartt where
  "arCommitTartt r gs i vid tarPath = wfWrap (wfTellIdVid r arBehavior arEventType gs i vid
     (ArCmdCommitTartt tarPath))"

definition arBeginSwap where
  "arBeginSwap r gs i vid wd = wfWrap (wfTellIdVid r arBehavior arEventType gs i vid
     (ArCmdBeginSwap wd))"

definition arCommitFiles where
  "arCommitFiles r gs i vid = wfWrap (wfTellIdVid r arBehavior arEventType gs i vid
     (ArCmdCommitFiles))"

definition arAbortFiles where
  "arAbortFiles r gs i vid code msg = wfWrap (wfTellIdVid r arBehavior arEventType gs i vid
     (ArCmdAbortFiles code msg))"

definition arEndFiles where
  "arEndFiles r gs i vid = wfWrap (wfTellIdVid r arBehavior arEventType gs i vid
     (ArCmdEndFiles))"

definition arCommitGc where
  "arCommitGc r gs i vid = wfWrap (wfTellIdVid r arBehavior arEventType gs i vid
     (ArCmdCommitGc))"

definition arCommit where
  "arCommit r gs i vid = wfWrap (wfTellIdVid r arBehavior arEventType gs i vid
     (ArCmdCommit))"

definition arAbort where
  "arAbort r gs i vid code msg = wfWrap (wfTellIdVid r arBehavior arEventType gs i vid
     (ArCmdAbort code msg))"

definition arEnd where
  "arEnd r gs i vid = wfWrap (wfTellIdVid r arBehavior arEventType gs i vid
     (ArCmdEnd))"

subsection \<open>Unarchive of a repo\<close>

definition uaFindId where
  "uaFindId r = wfFindId WfJournalError r uaBehavior uaEventType"

definition uaInit where
  "uaInit r gs i cmd = wfWrap (wfTellIdVid r uaBehavior uaEventType gs i NoVC
     (UaCmdInit cmd))"

definition uaBeginFiles where
  "uaBeginFiles r gs i vid aclPolicy = wfWrap (wfTellIdVid r uaBehavior uaEventType gs i vid
     (UaCmdBeginFiles aclPolicy))"

definition uaBeginTartt where
  "uaBeginTartt r gs i vid wd = wfWrap (wfTellIdVid r uaBehavior uaEventType gs i vid
     (UaCmdBeginTartt wd))"

definition uaCommitTartt where
  "uaCommitTartt r gs i vid = wfWrap (wfTellIdVid r uaBehavior uaEventType gs i vid
     (UaCmdCommitTartt))"

definition uaAbortTartt where
  "uaAbortTartt r gs i vid code msg = wfWrap (wfTellIdVid r uaBehavior uaEventType gs i vid
     (UaCmdAbortTartt code msg))"

definition uaCommitFiles where
  "uaCommitFiles r gs i vid = wfWrap (wfTellIdVid r uaBehavior uaEventType gs i vid
     (UaCmdCommitFiles))"

definition uaAbortFiles where
  "uaAbortFiles r gs i vid code msg = wfWrap (wfTellIdVid r uaBehavior uaEventType gs i vid
     (UaCmdAbortFiles code msg))"

definition uaEndFiles where
  "uaEndFiles r gs i vid = wfWrap (wfTellIdVid r uaBehavior uaEventType gs i vid
     (UaCmdEndFiles))"

definition uaCommitGc where
  "uaCommitGc r gs i vid = wfWrap (wfTellIdVid r uaBehavior uaEventType gs i vid
     (UaCmdCommitGc))"

definition uaCommit where
  "uaCommit r gs i vid = wfWrap (wfTellIdVid r uaBehavior uaEventType gs i vid
     (UaCmdCommit))"

definition uaAbort where
  "uaAbort r gs i vid code msg = wfWrap (wfTellIdVid r uaBehavior uaEventType gs i vid
     (UaCmdAbort code msg))"

definition uaEnd where
  "uaEnd r gs i vid = wfWrap (wfTellIdVid r uaBehavior uaEventType gs i vid
     (UaCmdEnd))"

subsection \<open>Split of a root\<close>

definition spFindId where
  "spFindId r = wfFindId WfJournalError r spBehavior spEventType"

definition spInit where
  "spInit r gs i cmd = wfWrap (wfTellIdVid r spBehavior spEventType gs i NoVC
     (SpCmdInit cmd))"

definition spAppendDu where
  "spAppendDu r gs i vid path usage = wfWrap (wfTellIdVid r spBehavior spEventType gs i NoVC
     (SpCmdAppendDus [\<lparr>pu_Path = path, pu_Usage = usage\<rparr>]))"

definition spAppendDus where
  "spAppendDus r gs i vid dus = wfWrap (wfTellIdVid r spBehavior spEventType gs i NoVC
     (SpCmdAppendDus dus))"

definition spCommitDu where
  "spCommitDu r gs i vid = wfWrap (wfTellIdVid r spBehavior spEventType gs i NoVC
     (SpCmdCommitDu))"

definition spAbortDu where
  "spAbortDu r gs i vid code msg = wfWrap (wfTellIdVid r spBehavior spEventType gs i vid
     (SpCmdAbortDu code msg))"

definition spAppendSuggestion where
  "spAppendSuggestion r gs i vid path suggestion = wfWrap (wfTellIdVid r spBehavior spEventType gs i NoVC
     (SpCmdAppendSuggestions [\<lparr>sg_Path = path, sg_Suggestion = suggestion\<rparr>]))"

definition spAppendSuggestions where
  "spAppendSuggestions r gs i vid suggestions = wfWrap (wfTellIdVid r spBehavior spEventType gs i NoVC
     (SpCmdAppendSuggestions suggestions))"

definition spCommitAnalysis where
  "spCommitAnalysis r gs i vid = wfWrap (wfTellIdVid r spBehavior spEventType gs i NoVC
     (SpCmdCommitAnalysis))"

definition spAbortAnalysis where
  "spAbortAnalysis r gs i vid code msg = wfWrap (wfTellIdVid r spBehavior spEventType gs i vid
     (SpCmdAbortAnalysis code msg))"

definition spAppendDecision where
  "spAppendDecision r gs i vid path decision = wfWrap (wfTellIdVid r spBehavior spEventType gs i NoVC
     (SpCmdAppendDecision path decision))"

definition spCommit where
  "spCommit r gs i vid = wfWrap (wfTellIdVid r spBehavior spEventType gs i vid
     (SpCmdCommit))"

definition spAbort where
  "spAbort r gs i vid code msg = wfWrap (wfTellIdVid r spBehavior spEventType gs i vid
     (SpCmdAbort code msg))"

definition spAbortExpired where
  "spAbortExpired r gs i vid = wfWrap (wfTellIdVid r spBehavior spEventType gs i vid
     (SpCmdAbortExpired))"

definition spEnd where
  "spEnd r gs i vid = wfWrap (wfTellIdVid r spBehavior spEventType gs i vid
     (SpCmdEnd))"

definition spDelete where
  "spDelete r g i vid = wfWrap (wfDeleteIdVid r spBehavior spEventType g i vid
     (SpCmdDelete))"

subsection \<open>Ping of a registry\<close>

definition pgFindId where
  "pgFindId r = wfFindId WfJournalError r pgBehavior pgEventType"

definition pgInit where
  "pgInit r gs i registryId = wfWrap (wfTellIdVid r pgBehavior pgEventType gs i NoVC
     (PgCmdInit registryId))"

definition pgAppendPing where
  "pgAppendPing r gs i vid code msg = wfWrap (wfTellIdVid r pgBehavior pgEventType gs i vid
     (PgCmdAppendPing code msg))"

definition pgPostSummary where
  "pgPostSummary r gs i vid code msg = wfWrap (wfTellIdVid r pgBehavior pgEventType gs i vid
     (PgCmdPostSummary code msg))"

definition pgAbortExpired where
  "pgAbortExpired r gs i vid = wfWrap (wfTellIdVid r pgBehavior pgEventType gs i vid
     (PgCmdAbortExpired))"

definition pgCommit where
  "pgCommit r gs i vid = wfWrap (wfTellIdVid r pgBehavior pgEventType gs i vid
     (PgCmdCommit))"

definition pgEnd where
  "pgEnd r gs i vid = wfWrap (wfTellIdVid r pgBehavior pgEventType gs i vid
     (PgCmdEnd))"

definition pgDelete where
  "pgDelete r g i vid = wfWrap (wfDeleteIdVid r pgBehavior pgEventType g i vid
     (PgCmdDelete))"

subsection \<open>Disk usage of a root\<close>

definition duFindId where
  "duFindId r = wfFindId WfEngineError r duBehavior duEventType"

definition duInit where
  "duInit r gs i cmd = wfPlain (wfTellIdVid r duBehavior duEventType gs i NoVC
     (DuCmdInit cmd))"

definition duAppend where
  "duAppend r gs i vid path usage = wfPlain (wfTellIdVid r duBehavior duEventType gs i vid
     (DuCmdAppend path usage))"

definition duCommit where
  "duCommit r gs i vid = wfPlain (wfTellIdVid r duBehavior duEventType gs i vid
     (DuCmdCommit))"

definition duFail where
  "duFail r gs i vid code msg = wfPlain (wfTellIdVid r duBehavior duEventType gs i vid
     (DuCmdFail code msg))"

definition duAbortExpired where
  "duAbortExpired r gs i vid = wfPlain (wfTellIdVid r duBehavior duEventType gs i vid
     (DuCmdAbortExpired))"

definition duEnd where
  "duEnd r gs i vid = wfPlain (wfTellIdVid r duBehavior duEventType gs i vid
     (DuCmdEnd))"

definition duDelete where
  "duDelete r g i vid = wfPlain (wfDeleteIdVid r duBehavior duEventType g i vid
     (DuCmdDelete))"

subsection \<open>Move of a repo\<close>

definition mvFindId where
  "mvFindId r = wfFindId WfEngineError r mvBehavior mvEventType"

definition mvInit where
  "mvInit r gs i cmd = wfPlain (wfTellIdVid r mvBehavior mvEventType gs i NoVC
     (MvCmdInit cmd))"

definition mvPostStadReleased where
  "mvPostStadReleased r gs i vid = wfPlain (wfTellIdVid r mvBehavior mvEventType gs i vid
     (MvCmdPostStadReleased))"

definition mvPostAppAccepted where
  "mvPostAppAccepted r gs i vid = wfPlain (wfTellIdVid r mvBehavior mvEventType gs i vid
     (MvCmdPostAppAccepted))"

definition mvCommit where
  "mvCommit r gs i vid newShadowPath = wfPlain (wfTellIdVid r mvBehavior mvEventType gs i vid
     (MvCmdCommit newShadowPath))"

definition mvExit where
  "mvExit r gs i vid = wfPlain (wfTellIdVid r mvBehavior mvEventType gs i vid
     (MvCmdExit))"

subsection \<open>Move of a shadow repo\<close>

definition msFindId where
  "msFindId r = wfFindId WfEngineError r msBehavior msEventType"

definition msInit where
  "msInit r gs i repoId repoEventId = wfPlain (wfTellIdVid r msBehavior msEventType gs i NoVC
     (MsCmdInit repoId repoEventId))"

definition msPostStadDisabled where
  "msPostStadDisabled r gs i vid = wfPlain (wfTellIdVid r msBehavior msEventType gs i vid
     (MsCmdPostStadDisabled))"

definition msCommit where
  "msCommit r gs i vid = wfPlain (wfTellIdVid r msBehavior msEventType gs i vid
     (MsCmdCommit))"

definition msExit where
  "msExit r gs i vid = wfPlain (wfTellIdVid r msBehavior msEventType gs i vid
     (MsCmdExit))"

end
