(* ===== verification/Workflow_Service.thy ===== *)
theory Workflow_Service
  imports Workflow_Engine Ux_Engine
begin

text \<open>
  The workflows served by several processes on one journal: the packages satisfy the contract of the engine, so no
  request panics or fails to return, and what holds of live workflows holds of the stored histories.
\<close>

section \<open>The engine's contract holds\<close>

text \<open>
  \<open>proto.Unmarshal\<close> into the general message \<open>pb.Event\<close> reads the parent that was marshalled as part of a
  specific message, since the field numbers agree.
\<close>

definition wf_parent_decoder :: "(WorkflowPb \<Rightarrow> goerr + byte list) \<Rightarrow> decode_parent \<Rightarrow> bool" where
  "wf_parent_decoder pm dp \<longleftrightarrow> (\<forall>p bs. wf_pb_ok p \<longrightarrow> pm p = Inr bs \<longrightarrow> dp bs = Inr (wp_Parent p))"

definition wk_codecs :: "'db Workflows \<Rightarrow> bool" where
  "wk_codecs r \<longleftrightarrow>
     wf_codec (wk_pm r) (wk_pu r) \<and> ulid_binary (wk_ub r) \<and> wf_parent_decoder (wk_pm r) (wk_dp r)"

abbreviation wk_par :: "'db Workflows \<Rightarrow> byte list \<Rightarrow> ulid option" where
  "wk_par r \<equiv> docParent (wk_dp r) (wk_ub r)"

lemma wf_event_codec:
  assumes "wk_codecs r"
  shows "event_codec (wk_ops r ok) (wf_event_wf ok (wk_ub r)) (wk_par r)"
proof -
  have a: "wf_codec (wk_pm r) (wk_pu r)" "ulid_binary (wk_ub r)" "wf_parent_decoder (wk_pm r) (wk_dp r)"
    using assms by (simp_all add: wk_codecs_def)
  show ?thesis
  proof (intro event_codec.intro wf_event_ops event_codec_axioms.intro)
    fix ev bs
    assume wf: "wf_event_wf ok (wk_ub r) ev" and m: "MarshalProto (wk_ops r ok) ev = Inr bs"
    then have "wk_dp r bs = Inr (Some (idBytes (ev_parent ev)))"
      using a(3) [unfolded wf_parent_decoder_def, rule_format, of "ev_pb ev" bs]
      by (simp add: wf_event_wf_def wfEventOps_def wfMarshalProto_def)
    then show "wk_par r bs = Some (EvParent (wk_ops r ok) ev)"
      using a(2) by (simp add: docParent_def)
    show "UnmarshalProto (wk_ops r ok) bs = Ok ev"
      using wf_roundtrip [OF a(1,2) wf] m by (simp add: wfEventOps_def)
  qed (auto simp: wfEventOps_def wfWithId_def wfWithParent_def wf_event_wf_def wf_pb_ok_def)
qed

text \<open>
  The histories of the workflows of a package, and what its commands rely on: the database behaves as documented, and
  the other processes change it only as these commands do.
\<close>

definition wf_hist where
  "wf_hist r b ok pre H = live_hist (b (wk_ub r)) (wk_ops r ok) pre (wf_event_wf ok (wk_ub r)) H"

definition wf_env where
  "wf_env r b ok pre view rely H \<longleftrightarrow>
     mongo (wk_mongo r) view rely \<and> wk_codecs r \<and>
     (\<forall>v v'. rely v v' \<longrightarrow> evolves (wf_hist r b ok pre H) (wk_par r) v v')"

lemma wf_engine:
  assumes "workflow_code (wk_ub r) ok (b (wk_ub r)) adv iv pre phase start step" and "wf_env r b ok pre view rely H"
  shows "engine (wk_mongo r) view rely (wk_dp r) (wk_ub r) (wk_ops r ok) (wf_event_wf ok (wk_ub r)) (b (wk_ub r)) iv
    pre H"
proof (intro engine.intro journal_codec.intro journal_db.intro journal_db_axioms.intro engine_axioms.intro)
  show "mongo (wk_mongo r) view rely" using assms(2) by (simp add: wf_env_def)
  show "event_codec (wk_ops r ok) (wf_event_wf ok (wk_ub r)) (wk_par r)"
    by (rule wf_event_codec) (use assms(2) in \<open>simp add: wf_env_def\<close>)
  show "aggregate (b (wk_ub r)) (wk_ops r ok) iv pre"
    by (rule workflow.axioms(1) [OF workflow_code.is_workflow [OF assms(1)]])
  show "mono_hist (live_hist (b (wk_ub r)) (wk_ops r ok) pre (wf_event_wf ok (wk_ub r)) H)" by (rule live_hist_mono)
  show "rely v v' \<Longrightarrow> evolves (live_hist (b (wk_ub r)) (wk_ops r ok) pre (wf_event_wf ok (wk_ub r)) H) (wk_par r) v v'"
    for v v'
    using assms(2) by (simp add: wf_env_def wf_hist_def)
  show "iv s \<Longrightarrow> pre s c \<Longrightarrow> Tell (b (wk_ub r)) g s c = Ok evs \<Longrightarrow> \<forall>n i. g n = Inr i \<longrightarrow> i \<noteq> ulidNil \<Longrightarrow>
      \<forall>ev \<in> set evs. wf_event_wf ok (wk_ub r) ev \<and> EvId (wk_ops r ok) ev \<noteq> ulidNil" for s c g evs
    using workflow_code.Tell_wf [OF assms(1)] by simp
qed

section \<open>Requests\<close>

text \<open>
  A server of one package.
\<close>

definition wfServe where
  "wfServe r b ok rqs x =
     serve (wk_mongo r) (wk_dp r) (wk_ub r) (b (wk_ub r)) (wk_ops r ok) (\<lambda>_ :: wf_error. False) rqs x"

lemma wf_requests_safe:
  assumes "workflow_code (wk_ub r) ok (b (wk_ub r)) adv iv pre phase start step"
    and "wf_env r b ok pre view rely H" and "jinv (wf_hist r b ok pre H) (wk_par r) (view db)"
    and "\<forall>rq \<in> set rqs. goodRequest (b (wk_ub r)) pre H rq"
  shows "\<exists>db' c ps. wfServe r b ok rqs (db, Map.empty, []) = Some (db', c, ps) \<and>
    evolves (wf_hist r b ok pre H) (wk_par r) (view db) (view db')"
proof -
  note e = wf_engine [OF assms(1,2)]
  show ?thesis
    unfolding wfServe_def wf_hist_def
    using engine.serve_safe [OF e _ engine.cache_ok_empty [OF e] assms(4)] assms(3) [unfolded wf_hist_def] by blast
qed

section \<open>Properties\<close>

text \<open>A journal in memory, with a codec for the message that the first command stores.\<close>

definition wk_demo :: "WorkflowPb \<Rightarrow> MemDb Workflows" where
  "wk_demo p =
     \<lparr>wk_mongo = memMongo,
      wk_dp = (\<lambda>bs. if bs = [1] then Inr (wp_Parent p) else Inl (GoErr ''proto'')),
      wk_ub = ulidUnmarshal,
      wk_pm = (\<lambda>q. if q = p then Inr [1] else Inl (GoErr ''proto'')),
      wk_pu = (\<lambda>bs. if bs = [1] then Inr p else Inl (GoErr ''proto''))\<rparr>"

lemma wk_demo_env: "wf_env (wk_demo p) b ok pre mem_view (=) H"
  using mem.mongo_axioms ulidUnmarshal_ok
  by (auto simp: wf_env_def wk_codecs_def wk_demo_def wf_codec_def wf_parent_decoder_def split: if_splits)

lemma wk_demo_ub [simp]: "wk_ub (wk_demo p) = ulidUnmarshal"
  by (simp add: wk_demo_def)

interpretation sp_mem: engine memMongo mem_view "(=)" "wk_dp (wk_demo p)" ulidUnmarshal "wk_ops (wk_demo p) spEventType"
  "wf_event_wf spEventType ulidUnmarshal" "spBehavior ulidUnmarshal" sp_inv sp_pre H for p H
  using wf_engine [OF _ wk_demo_env [of p spBehavior spEventType sp_pre H],
      of "\<lambda>st _. spAdvanceEv st" sp_inv spPhase "(SpUninitialized, 0, 0, 0)" sp_step]
    sp_workflow_code [OF ulidUnmarshal_ok] by (simp add: wk_demo_def)

definition split_started :: WorkflowPb where
  "split_started =
     (case (wfNewPbSplitRootStartedWorkflow (splitStarted demo_split) :: (wf_error, WorkflowPb) outcome) of
        Ok p \<Rightarrow> wfSetPb 5 EventEpoch p | _ \<Rightarrow> wfPb WT_FSO_SPLIT_ROOT_STARTED)"

text \<open>
  A good request to a split-root workflow is on a known workflow and, if it tells a command, draws ids that are not nil;
  an init command has all its fields set, since \<open>tellInit()\<close> panics otherwise (\<open>split_root_init_panics\<close>); the request
  that deletes a workflow passes the command for it.  There is no obligation on the state, and none on any other command.
\<close>

definition spGoodRequest :: "uuid set \<Rightarrow> sp_cmd request \<Rightarrow> bool" where
  "spGoodRequest H rq \<longleftrightarrow> (case rq of
     ReqTell i vid cmd gs \<Rightarrow> i \<in> H \<and> (\<forall>x. cmd = SpCmdInit x \<longrightarrow> split_init_ok x) \<and>
       (\<forall>n k v. (fst (gs n) k = Inr v \<longrightarrow> v \<noteq> ulidNil) \<and> (snd (gs n) k = Inr v \<longrightarrow> v \<noteq> ulidNil))
   | ReqFind i \<Rightarrow> i \<in> H
   | ReqDelete i vid cmd g \<Rightarrow> i \<in> H \<and> cmd = SpCmdDelete)"

lemma spGoodRequest_good: "spGoodRequest H rq \<Longrightarrow> goodRequest (spBehavior ub) sp_pre H rq"
  by (cases rq) (auto simp: spGoodRequest_def goodRequest_def sp_pre_def spTellDelete_def split: sp_cmd.split if_splits)

text \<open>
  C35: any sequence of requests to split-root workflows, in which init commands have all their fields set (an init with an
  empty field panics), is served without a panic and without running forever,
  whatever other processes do with the same operations between any two database operations and whichever database
  operations fail; afterwards the journal is consistent, the histories only have been extended, and no stored history
  of a split-root workflow has more than 905 events.  An abort with the status code \<open>0\<close> is among the requests.
\<close>

theorem split_root_requests:
  assumes "wf_env r spBehavior spEventType sp_pre view rely H"
    and "jinv (wf_hist r spBehavior spEventType sp_pre H) (wk_par r) (view db)"
    and "\<forall>rq \<in> set rqs. spGoodRequest H rq"
  shows "\<exists>db' c ps. wfServe r spBehavior spEventType rqs (db, Map.empty, []) = Some (db', c, ps) \<and>
    evolves (wf_hist r spBehavior spEventType sp_pre H) (wk_par r) (view db) (view db') \<and>
    (\<forall>h xs. h \<in> H \<and> snapshot (wk_par r) (view db') h xs \<longrightarrow> length xs \<le> 905)"
proof -
  have ub: "ulid_binary (wk_ub r)" using assms(1) by (simp add: wf_env_def wk_codecs_def)
  have good: "\<forall>rq \<in> set rqs. goodRequest (spBehavior (wk_ub r)) sp_pre H rq" using assms(3) spGoodRequest_good by blast
  obtain db' c ps where run: "wfServe r spBehavior spEventType rqs (db, Map.empty, []) = Some (db', c, ps)"
    and ev: "evolves (wf_hist r spBehavior spEventType sp_pre H) (wk_par r) (view db) (view db')"
    using wf_requests_safe [OF sp_workflow_code [OF ub] assms(1,2) good] by blast
  have "length xs \<le> 905" if h: "h \<in> H" "snapshot (wk_par r) (view db') h xs" for h xs
  proof (cases "xs = []")
    case False
    have "jinv (live_hist (spBehavior (wk_ub r)) (wk_ops r spEventType) sp_pre (wf_event_wf spEventType (wk_ub r)) H)
        (wk_par r) (view db')"
      using evolves_jinv [OF ev assms(2)] by (simp only: wf_hist_def)
    from stored_history_log [OF this h False] obtain st hist where
      "sp_live (wk_pm r) (wk_pu r) (wk_ub r) h st hist" "map ev_id hist = xs" by auto
    then show ?thesis using sp_live_bounded [OF ub] by fastforce
  qed simp
  then show ?thesis using run ev by blast
qed

theorem split_root_requests_witness:
  "\<exists>db' c ps. wfServe (wk_demo split_started) spBehavior spEventType
     [ReqTell 7 1 (SpCmdInit demo_split) (\<lambda>_. (\<lambda>_. Inr 5, \<lambda>_. Inr 5)),
      ReqTell 7 1 (SpCmdAbort 0 ''done'') (\<lambda>_. (\<lambda>_. Inr 6, \<lambda>_. Inr 6)), ReqFind 7] (mem0, Map.empty, []) = Some (db', c, ps)"
proof -
  have "\<forall>rq \<in> set [ReqTell 7 1 (SpCmdInit demo_split) (\<lambda>_. (\<lambda>_. Inr 5, \<lambda>_. Inr 5)),
        ReqTell 7 1 (SpCmdAbort 0 ''done'') (\<lambda>_. (\<lambda>_. Inr 6, \<lambda>_. Inr 6)), ReqFind 7]. spGoodRequest {7} rq"
    by (simp add: spGoodRequest_def split_init_ok_def demo_split_def)
  then show ?thesis using split_root_requests [OF wk_demo_env mem0_inv] by blast
qed

end
