(* ===== verification/Workflow_Index.thy ===== *)
theory Workflow_Index
  imports Workflow_Base Event_Engine
begin

text \<open>
  The workflow index (\<open>backend/internal/workflows/wfindexes\<close>): an aggregate that lists the active and the completed
  workflows of a registry.  Its state has the ids only; a snapshot, which makes the history trimmable, is
  taken from a view that is loaded from the index's own history (\<open>snapshot.go\<close>).
\<close>

section \<open>State and commands\<close>

datatype (plugins only: code) ix_error =
    IxErrInvalidCommand
  | IxErrUnknownWorkflow
  | IxErrSmallStorageReduction
  | IxErrTooManyWorkflows
  | IxNewEventsError goerr \<comment> \<open>an error of \<open>NewEvents()\<close>, as it is\<close>
  | IxJournalError EventsError \<comment> \<open>an error of the journal when the view is loaded, as it is\<close>

definition ConfigMinEventsBetweenSnapshots :: nat where "ConfigMinEventsBetweenSnapshots = 1000"
definition ConfigMaxSnapshotWorkflows :: nat where "ConfigMaxSnapshotWorkflows = 200"
definition ConfigEventConst :: nat where "ConfigEventConst = 1"
definition ConfigSnapshotBaseCost :: nat where "ConfigSnapshotBaseCost = 300"
definition ConfigSnapshotWorkflowCost :: nat where "ConfigSnapshotWorkflowCost = 300"

record IndexState =
  ix_id :: uuid
  ix_vid :: ulid
  ix_activeWorkflows :: "uuid set"
  ix_completedWorkflows :: "uuid set"
  ix_lastCommitted :: uuid
  ix_nEventsSinceSnapshot :: nat

datatype (plugins only: code) ix_cmd =
    IxBeginDuRoot uuid ulid string string string
  | IxCommitDuRoot uuid ulid
  | IxDeleteDuRoot uuid
  | IxBeginPingRegistry uuid ulid
  | IxCommitPingRegistry uuid ulid
  | IxDeletePingRegistry uuid
  | IxBeginSplitRoot uuid ulid string string string
  | IxCommitSplitRoot uuid ulid
  | IxDeleteSplitRoot uuid
  | IxBeginFreezeRepo uuid ulid string
  | IxCommitFreezeRepo uuid ulid
  | IxDeleteFreezeRepo uuid
  | IxBeginUnfreezeRepo uuid ulid string
  | IxCommitUnfreezeRepo uuid ulid
  | IxDeleteUnfreezeRepo uuid
  | IxBeginArchiveRepo uuid ulid string
  | IxCommitArchiveRepo uuid ulid
  | IxDeleteArchiveRepo uuid
  | IxBeginUnarchiveRepo uuid ulid string
  | IxCommitUnarchiveRepo uuid ulid
  | IxDeleteUnarchiveRepo uuid
  | IxCmdSnapshot bool
  | IxCmdForeign \<comment> \<open>a command of another aggregate\<close>

definition ixNewState :: "uuid \<Rightarrow> IndexState" where
  "ixNewState i = \<lparr>ix_id = i, ix_vid = 0, ix_activeWorkflows = {}, ix_completedWorkflows = {}, ix_lastCommitted = uuidNil,
     ix_nEventsSinceSnapshot = 0\<rparr>"

definition isActiveWorkflow :: "IndexState \<Rightarrow> uuid \<Rightarrow> bool" where
  "isActiveWorkflow st i \<longleftrightarrow> i \<in> ix_activeWorkflows st"

definition isCompletedWorkflow :: "IndexState \<Rightarrow> uuid \<Rightarrow> bool" where
  "isCompletedWorkflow st i \<longleftrightarrow> i \<in> ix_completedWorkflows st"

section \<open>Advance\<close>

text \<open>The three kinds of changes, and the loop over the entries of a snapshot.\<close>

definition ixStart :: "uuid \<Rightarrow> IndexState \<Rightarrow> IndexState" where
  "ixStart i st = st\<lparr>ix_activeWorkflows := insert i (ix_activeWorkflows st), ix_lastCommitted := uuidNil\<rparr>"

definition ixComplete :: "uuid \<Rightarrow> IndexState \<Rightarrow> IndexState" where
  "ixComplete i st = st\<lparr>ix_activeWorkflows := ix_activeWorkflows st - {i}, ix_lastCommitted := i,
     ix_completedWorkflows := insert i (ix_completedWorkflows st)\<rparr>"

definition ixDelete :: "uuid \<Rightarrow> IndexState \<Rightarrow> IndexState" where
  "ixDelete i st = st\<lparr>ix_completedWorkflows := ix_completedWorkflows st - {i}\<rparr>"

fun ixMark :: "'z IndexEntry_scheme list \<Rightarrow> IndexState \<Rightarrow> IndexState" where
  "ixMark [] st = st"
| "ixMark (w # ws) st =
     ixMark ws (if ie_Completed w = ulidNil
       then st\<lparr>ix_activeWorkflows := insert (ie_WorkflowId w) (ix_activeWorkflows st)\<rparr>
       else st\<lparr>ix_completedWorkflows := insert (ie_WorkflowId w) (ix_completedWorkflows st)\<rparr>)"

definition ixMarkAll :: "IndexSnapshot \<Rightarrow> IndexState \<Rightarrow> IndexState" where
  "ixMarkAll x st =
     ixMark (sn_UnarchiveRepo x) (ixMark (sn_ArchiveRepo x) (ixMark (sn_UnfreezeRepo x) (ixMark (sn_FreezeRepo x)
       (ixMark (sn_SplitRoot x) (ixMark (sn_PingRegistry x) (ixMark (sn_DuRoot x) st))))))"

definition ixCount :: "IndexState \<Rightarrow> IndexState" where
  "ixCount st = st\<lparr>ix_nEventsSinceSnapshot := ix_nEventsSinceSnapshot st + 1\<rparr>"

definition ixAdvanceEv :: "IndexState \<Rightarrow> WorkflowEvent \<Rightarrow> ('e, IndexState) outcome" where
  "ixAdvanceEv st0 ev =
     (let st = ixCount st0 in
      case ev of
        WvSnapshotBegin \<Rightarrow> Ok (st\<lparr>ix_activeWorkflows := {}, ix_completedWorkflows := {}\<rparr>)
      | WvSnapshotEnd \<Rightarrow> Ok (st\<lparr>ix_nEventsSinceSnapshot := 0\<rparr>)
      | WvWorkflowIndexSnapshotState x \<Rightarrow> Ok (ixMarkAll x st)
      | WvDuRootStarted x \<Rightarrow> Ok (ixStart (os_WorkflowId x) st)
      | WvDuRootCompleted x \<Rightarrow> Ok (ixComplete (wc_WorkflowId x) st)
      | WvDuRootDeleted i \<Rightarrow> Ok (ixDelete i st)
      | WvPingRegistryStarted x \<Rightarrow> Ok (ixStart (ps_WorkflowId x) st)
      | WvPingRegistryCompleted i _ \<Rightarrow> Ok (ixComplete i st)
      | WvPingRegistryDeleted i \<Rightarrow> Ok (ixDelete i st)
      | WvSplitRootStarted x \<Rightarrow> Ok (ixStart (os_WorkflowId x) st)
      | WvSplitRootCompleted x \<Rightarrow> Ok (ixComplete (wc_WorkflowId x) st)
      | WvSplitRootDeleted i \<Rightarrow> Ok (ixDelete i st)
      | WvFreezeRepoStarted2 x \<Rightarrow> Ok (ixStart (rs_WorkflowId x) st)
      | WvFreezeRepoCompleted2 x \<Rightarrow> Ok (ixComplete (wc_WorkflowId x) st)
      | WvFreezeRepoDeleted i \<Rightarrow> Ok (ixDelete i st)
      | WvUnfreezeRepoStarted2 x \<Rightarrow> Ok (ixStart (rs_WorkflowId x) st)
      | WvUnfreezeRepoCompleted2 x \<Rightarrow> Ok (ixComplete (wc_WorkflowId x) st)
      | WvUnfreezeRepoDeleted i \<Rightarrow> Ok (ixDelete i st)
      | WvArchiveRepoStarted x \<Rightarrow> Ok (ixStart (rs_WorkflowId x) st)
      | WvArchiveRepoCompleted x \<Rightarrow> Ok (ixComplete (wc_WorkflowId x) st)
      | WvArchiveRepoDeleted i \<Rightarrow> Ok (ixDelete i st)
      | WvUnarchiveRepoStarted x \<Rightarrow> Ok (ixStart (rs_WorkflowId x) st)
      | WvUnarchiveRepoCompleted x \<Rightarrow> Ok (ixComplete (wc_WorkflowId x) st)
      | WvUnarchiveRepoDeleted i \<Rightarrow> Ok (ixDelete i st)
      | _ \<Rightarrow> Panic ''invalid event'')"

definition ixAdvance :: "ulid_unmarshal \<Rightarrow> IndexState \<Rightarrow> WorkflowPb Event \<Rightarrow> ('e, IndexState) outcome" where
  "ixAdvance ub st ev = obind (MustParsePbWorkflowEvent ub (ev_pb ev)) (ixAdvanceEv st)"

definition ixEventType :: "WorkflowEvent_Type \<Rightarrow> bool" where
  "ixEventType t \<longleftrightarrow> t \<in> {WT_SNAPSHOT_BEGIN, WT_SNAPSHOT_END, WT_WORKFLOW_INDEX_SNAPSHOT_STATE,
     WT_FSO_DU_ROOT_STARTED, WT_FSO_DU_ROOT_COMPLETED, WT_FSO_DU_ROOT_DELETED,
     WT_FSO_PING_REGISTRY_STARTED, WT_FSO_PING_REGISTRY_COMPLETED, WT_FSO_PING_REGISTRY_DELETED,
     WT_FSO_SPLIT_ROOT_STARTED, WT_FSO_SPLIT_ROOT_COMPLETED, WT_FSO_SPLIT_ROOT_DELETED,
     WT_FSO_FREEZE_REPO_STARTED_2, WT_FSO_FREEZE_REPO_COMPLETED_2, WT_FSO_FREEZE_REPO_DELETED,
     WT_FSO_UNFREEZE_REPO_STARTED_2, WT_FSO_UNFREEZE_REPO_COMPLETED_2, WT_FSO_UNFREEZE_REPO_DELETED,
     WT_FSO_ARCHIVE_REPO_STARTED, WT_FSO_ARCHIVE_REPO_COMPLETED, WT_FSO_ARCHIVE_REPO_DELETED,
     WT_FSO_UNARCHIVE_REPO_STARTED, WT_FSO_UNARCHIVE_REPO_COMPLETED, WT_FSO_UNARCHIVE_REPO_DELETED}"

section \<open>The index view\<close>

record IndexView =
  iv_vid :: ulid
  iv_duRoot :: "uuid \<rightharpoonup> IndexRootEntry"
  iv_pingRegistry :: "uuid \<rightharpoonup> IndexEntry"
  iv_splitRoot :: "uuid \<rightharpoonup> IndexRootEntry"
  iv_freezeRepo :: "uuid \<rightharpoonup> IndexPathEntry"
  iv_unfreezeRepo :: "uuid \<rightharpoonup> IndexPathEntry"
  iv_archiveRepo :: "uuid \<rightharpoonup> IndexPathEntry"
  iv_unarchiveRepo :: "uuid \<rightharpoonup> IndexPathEntry"

definition ivResetState :: "IndexView \<Rightarrow> IndexView" where
  "ivResetState iv = iv\<lparr>iv_duRoot := Map.empty, iv_pingRegistry := Map.empty, iv_splitRoot := Map.empty, iv_freezeRepo := Map.empty,
     iv_unfreezeRepo := Map.empty, iv_archiveRepo := Map.empty, iv_unarchiveRepo := Map.empty\<rparr>"

definition ivNew :: IndexView where
  "ivNew = \<lparr>iv_vid = ulidNil, iv_duRoot = Map.empty, iv_pingRegistry = Map.empty, iv_splitRoot = Map.empty,
     iv_freezeRepo = Map.empty, iv_unfreezeRepo = Map.empty, iv_archiveRepo = Map.empty, iv_unarchiveRepo = Map.empty\<rparr>"

text \<open>
  The changes of one map.  The entries are pointers in the code: to complete an entry that is not there
  dereferences nil.
\<close>

fun ivPut :: "'z IndexEntry_scheme list \<Rightarrow> (uuid \<rightharpoonup> 'z IndexEntry_scheme) \<Rightarrow> uuid \<rightharpoonup> 'z IndexEntry_scheme" where
  "ivPut [] m = m"
| "ivPut (w # ws) m = ivPut ws (m(ie_WorkflowId w \<mapsto> w))"

definition ivComplete ::
  "(uuid \<rightharpoonup> 'z IndexEntry_scheme) \<Rightarrow> uuid \<Rightarrow> ulid \<Rightarrow> ('e, uuid \<rightharpoonup> 'z IndexEntry_scheme) outcome" where
  "ivComplete m i v =
     (case m i of
        None \<Rightarrow> Panic ''invalid memory address or nil pointer dereference''
      | Some e \<Rightarrow> Ok (m(i \<mapsto> e\<lparr>ie_Completed := v\<rparr>)))"

definition rootEntry :: "'z RootWorkflowStarted_scheme \<Rightarrow> IndexRootEntry" where
  "rootEntry x = \<lparr>ie_WorkflowId = os_WorkflowId x, ie_Started = os_WorkflowEventId x, ie_Completed = ulidNil,
     ir_GlobalRoot = os_GlobalRoot x, ir_Host = os_Host x, ir_HostRoot = os_HostRoot x\<rparr>"

definition pingEntry :: "PingRegistryStarted \<Rightarrow> IndexEntry" where
  "pingEntry x = \<lparr>ie_WorkflowId = ps_WorkflowId x, ie_Started = ps_WorkflowEventId x, ie_Completed = ulidNil\<rparr>"

definition pathEntry :: "'z RepoWorkflowStarted_scheme \<Rightarrow> IndexPathEntry" where
  "pathEntry x = \<lparr>ie_WorkflowId = rs_WorkflowId x, ie_Started = rs_WorkflowEventId x, ie_Completed = ulidNil,
     ip_GlobalPath = rs_RepoGlobalPath x\<rparr>"

definition ivPutAll :: "IndexSnapshot \<Rightarrow> IndexView \<Rightarrow> IndexView" where
  "ivPutAll x iv = iv\<lparr>
iv_duRoot := ivPut (sn_DuRoot x) (iv_duRoot iv),
     iv_pingRegistry := ivPut (sn_PingRegistry x) (iv_pingRegistry iv),
     iv_splitRoot := ivPut (sn_SplitRoot x) (iv_splitRoot iv),
     iv_freezeRepo := ivPut (sn_FreezeRepo x) (iv_freezeRepo iv),
     iv_unfreezeRepo := ivPut (sn_UnfreezeRepo x) (iv_unfreezeRepo iv),
     iv_archiveRepo := ivPut (sn_ArchiveRepo x) (iv_archiveRepo iv),
     iv_unarchiveRepo := ivPut (sn_UnarchiveRepo x) (iv_unarchiveRepo iv)\<rparr>"

definition ivLoadEvent :: "IndexView \<Rightarrow> ulid \<Rightarrow> WorkflowEvent \<Rightarrow> ('e, IndexView) outcome" where
  "ivLoadEvent iv0 vid ev =
     (let iv = iv0\<lparr>iv_vid := vid\<rparr> in
      case ev of
        WvSnapshotBegin \<Rightarrow> Ok (ivResetState iv)
      | WvSnapshotEnd \<Rightarrow> Ok iv
      | WvWorkflowIndexSnapshotState x \<Rightarrow> Ok (ivPutAll x iv)
      | WvDuRootStarted x \<Rightarrow>
          Ok (iv\<lparr>iv_duRoot := (iv_duRoot iv)(os_WorkflowId x \<mapsto> rootEntry x)\<rparr>)
      | WvDuRootCompleted x \<Rightarrow>
          omap (\<lambda>m. iv\<lparr>iv_duRoot := m\<rparr>) (ivComplete (iv_duRoot iv) (wc_WorkflowId x) (wc_WorkflowEventId x))
      | WvDuRootDeleted i \<Rightarrow> Ok (iv\<lparr>iv_duRoot := (iv_duRoot iv)(i := None)\<rparr>)
      | WvPingRegistryStarted x \<Rightarrow>
          Ok (iv\<lparr>iv_pingRegistry := (iv_pingRegistry iv)(ps_WorkflowId x \<mapsto> pingEntry x)\<rparr>)
      | WvPingRegistryCompleted i v \<Rightarrow>
          omap (\<lambda>m. iv\<lparr>iv_pingRegistry := m\<rparr>) (ivComplete (iv_pingRegistry iv) i v)
      | WvPingRegistryDeleted i \<Rightarrow> Ok (iv\<lparr>iv_pingRegistry := (iv_pingRegistry iv)(i := None)\<rparr>)
      | WvSplitRootStarted x \<Rightarrow>
          Ok (iv\<lparr>iv_splitRoot := (iv_splitRoot iv)(os_WorkflowId x \<mapsto> rootEntry x)\<rparr>)
      | WvSplitRootCompleted x \<Rightarrow>
          omap (\<lambda>m. iv\<lparr>iv_splitRoot := m\<rparr>) (ivComplete (iv_splitRoot iv) (wc_WorkflowId x) (wc_WorkflowEventId x))
      | WvSplitRootDeleted i \<Rightarrow> Ok (iv\<lparr>iv_splitRoot := (iv_splitRoot iv)(i := None)\<rparr>)
      | WvFreezeRepoStarted2 x \<Rightarrow>
          Ok (iv\<lparr>iv_freezeRepo := (iv_freezeRepo iv)(rs_WorkflowId x \<mapsto> pathEntry x)\<rparr>)
      | WvFreezeRepoCompleted2 x \<Rightarrow>
          omap (\<lambda>m. iv\<lparr>iv_freezeRepo := m\<rparr>) (ivComplete (iv_freezeRepo iv) (wc_WorkflowId x) (wc_WorkflowEventId x))
      | WvFreezeRepoDeleted i \<Rightarrow> Ok (iv\<lparr>iv_freezeRepo := (iv_freezeRepo iv)(i := None)\<rparr>)
      | WvUnfreezeRepoStarted2 x \<Rightarrow>
          Ok (iv\<lparr>iv_unfreezeRepo := (iv_unfreezeRepo iv)(rs_WorkflowId x \<mapsto> pathEntry x)\<rparr>)
      | WvUnfreezeRepoCompleted2 x \<Rightarrow>
          omap (\<lambda>m. iv\<lparr>iv_unfreezeRepo := m\<rparr>) (ivComplete (iv_unfreezeRepo iv) (wc_WorkflowId x) (wc_WorkflowEventId x))
      | WvUnfreezeRepoDeleted i \<Rightarrow> Ok (iv\<lparr>iv_unfreezeRepo := (iv_unfreezeRepo iv)(i := None)\<rparr>)
      | WvArchiveRepoStarted x \<Rightarrow>
          Ok (iv\<lparr>iv_archiveRepo := (iv_archiveRepo iv)(rs_WorkflowId x \<mapsto> pathEntry x)\<rparr>)
      | WvArchiveRepoCompleted x \<Rightarrow>
          omap (\<lambda>m. iv\<lparr>iv_archiveRepo := m\<rparr>) (ivComplete (iv_archiveRepo iv) (wc_WorkflowId x) (wc_WorkflowEventId x))
      | WvArchiveRepoDeleted i \<Rightarrow> Ok (iv\<lparr>iv_archiveRepo := (iv_archiveRepo iv)(i := None)\<rparr>)
      | WvUnarchiveRepoStarted x \<Rightarrow>
          Ok (iv\<lparr>iv_unarchiveRepo := (iv_unarchiveRepo iv)(rs_WorkflowId x \<mapsto> pathEntry x)\<rparr>)
      | WvUnarchiveRepoCompleted x \<Rightarrow>
          omap (\<lambda>m. iv\<lparr>iv_unarchiveRepo := m\<rparr>) (ivComplete (iv_unarchiveRepo iv) (wc_WorkflowId x) (wc_WorkflowEventId x))
      | WvUnarchiveRepoDeleted i \<Rightarrow> Ok (iv\<lparr>iv_unarchiveRepo := (iv_unarchiveRepo iv)(i := None)\<rparr>)
      | _ \<Rightarrow> Panic ''invalid event'')"

section \<open>Snapshots\<close>

datatype (plugins only: code) ix_kind = KDuRoot | KPingRegistry | KSplitRoot | KFreezeRepo | KUnfreezeRepo | KArchiveRepo | KUnarchiveRepo

text \<open>
  The order in which Go iterates over a map is not specified: it is a parameter, that lists the keys of the map of a
  kind.  Ids are big-endian byte arrays, so \<open>bytes.Compare\<close> is the order of the words.
\<close>

type_synonym map_order = "ix_kind \<Rightarrow> uuid set \<Rightarrow> uuid list"

definition entriesSorted :: "(uuid set \<Rightarrow> uuid list) \<Rightarrow> (uuid \<rightharpoonup> 'z IndexEntry_scheme) \<Rightarrow> 'z IndexEntry_scheme list" where
  "entriesSorted ord m = sort_key ie_Started (map (\<lambda>i. the (m i)) (ord (dom m)))"

definition indexSnapshot0 :: IndexSnapshot where
  "indexSnapshot0 = \<lparr>sn_DuRoot = [], sn_PingRegistry = [], sn_SplitRoot = [], sn_FreezeRepo = [], sn_UnfreezeRepo = [], sn_ArchiveRepo = [], sn_UnarchiveRepo = []\<rparr>"

definition ixKindState :: "map_order \<Rightarrow> IndexView \<Rightarrow> ix_kind \<Rightarrow> IndexSnapshot" where
  "ixKindState ord iv k =
     (case k of
        KDuRoot \<Rightarrow> indexSnapshot0\<lparr>sn_DuRoot := entriesSorted (ord KDuRoot) (iv_duRoot iv)\<rparr>
      | KPingRegistry \<Rightarrow> indexSnapshot0\<lparr>sn_PingRegistry := entriesSorted (ord KPingRegistry) (iv_pingRegistry iv)\<rparr>
      | KSplitRoot \<Rightarrow> indexSnapshot0\<lparr>sn_SplitRoot := entriesSorted (ord KSplitRoot) (iv_splitRoot iv)\<rparr>
      | KFreezeRepo \<Rightarrow> indexSnapshot0\<lparr>sn_FreezeRepo := entriesSorted (ord KFreezeRepo) (iv_freezeRepo iv)\<rparr>
      | KUnfreezeRepo \<Rightarrow> indexSnapshot0\<lparr>sn_UnfreezeRepo := entriesSorted (ord KUnfreezeRepo) (iv_unfreezeRepo iv)\<rparr>
      | KArchiveRepo \<Rightarrow> indexSnapshot0\<lparr>sn_ArchiveRepo := entriesSorted (ord KArchiveRepo) (iv_archiveRepo iv)\<rparr>
      | KUnarchiveRepo \<Rightarrow> indexSnapshot0\<lparr>sn_UnarchiveRepo := entriesSorted (ord KUnarchiveRepo) (iv_unarchiveRepo iv)\<rparr>)"

definition ixKindEmpty :: "IndexView \<Rightarrow> ix_kind \<Rightarrow> bool" where
  "ixKindEmpty iv k \<longleftrightarrow>
     (case k of
        KDuRoot \<Rightarrow> dom (iv_duRoot iv) = {}
      | KPingRegistry \<Rightarrow> dom (iv_pingRegistry iv) = {}
      | KSplitRoot \<Rightarrow> dom (iv_splitRoot iv) = {}
      | KFreezeRepo \<Rightarrow> dom (iv_freezeRepo iv) = {}
      | KUnfreezeRepo \<Rightarrow> dom (iv_unfreezeRepo iv) = {}
      | KArchiveRepo \<Rightarrow> dom (iv_archiveRepo iv) = {}
      | KUnarchiveRepo \<Rightarrow> dom (iv_unarchiveRepo iv) = {})"

definition indexKinds :: "ix_kind list" where
  "indexKinds = [KDuRoot, KPingRegistry, KSplitRoot, KFreezeRepo, KUnfreezeRepo, KArchiveRepo, KUnarchiveRepo]"

definition ConfigMaxProtoSize :: nat where "ConfigMaxProtoSize = 100 * 1024"

text \<open>\<open>sz\<close> is \<open>proto.Size()\<close>.\<close>

definition ixKindEvents ::
  "(WorkflowPb \<Rightarrow> nat) \<Rightarrow> map_order \<Rightarrow> IndexView \<Rightarrow> ix_kind \<Rightarrow> ('e, WorkflowPb list) outcome" where
  "ixKindEvents sz ord iv k =
     (if ixKindEmpty iv k then Ok []
      else let ev = wfNewPbWorkflowIndexSnapshotState (ixKindState ord iv k)
           in if ConfigMaxProtoSize < sz ev then Panic ''invalid tellSnapshot() size limit'' else Ok [ev])"

definition ixSnapshot :: "(WorkflowPb \<Rightarrow> nat) \<Rightarrow> map_order \<Rightarrow> IndexView \<Rightarrow> ('e, WorkflowPb list) outcome" where
  "ixSnapshot sz ord iv =
     omap (\<lambda>evs. wfNewPbSnapshotBegin # concat evs @ [wfNewPbSnapshotEnd]) (mapOutcome (ixKindEvents sz ord iv) indexKinds)"

section \<open>Tell\<close>

definition ixEmit :: "ulid_source \<Rightarrow> ulid \<Rightarrow> WorkflowPb list \<Rightarrow> (ix_error, WorkflowPb Event list) outcome" where
  "ixEmit g vid pbs =
     (case wfNewEvents g vid pbs of Inl e \<Rightarrow> Err (IxNewEventsError e) | Inr evs \<Rightarrow> Ok evs)"

definition ixTellBegin ::
  "ulid_source \<Rightarrow> IndexState \<Rightarrow> uuid \<Rightarrow> (ix_error, WorkflowPb) outcome \<Rightarrow> (ix_error, WorkflowPb Event list) outcome" where
  "ixTellBegin g st i p = (if isActiveWorkflow st i then Ok [] else obind p (\<lambda>pb. ixEmit g (ix_vid st) [pb]))"

definition ixTellCommit ::
  "ulid_source \<Rightarrow> IndexState \<Rightarrow> uuid \<Rightarrow> WorkflowPb \<Rightarrow> (ix_error, WorkflowPb Event list) outcome" where
  "ixTellCommit g st i pb =
     (if i = ix_lastCommitted st then Ok []
      else if \<not> isActiveWorkflow st i then Err IxErrUnknownWorkflow
      else ixEmit g (ix_vid st) [pb])"

definition ixTellDelete ::
  "ulid_source \<Rightarrow> IndexState \<Rightarrow> uuid \<Rightarrow> WorkflowPb \<Rightarrow> (ix_error, WorkflowPb Event list) outcome" where
  "ixTellDelete g st i pb =
     (if \<not> isCompletedWorkflow st i then Err IxErrUnknownWorkflow else ixEmit g (ix_vid st) [pb])"

definition ixTellBeginDuRoot ::
  "ulid_source \<Rightarrow> IndexState \<Rightarrow> uuid \<Rightarrow> ulid \<Rightarrow> string \<Rightarrow> string \<Rightarrow> string \<Rightarrow> (ix_error, WorkflowPb Event list) outcome" where
  "ixTellBeginDuRoot g st i v globalRoot host hostRoot = ixTellBegin g st i (wfNewPbDuRootStartedIndex
     \<lparr>os_RegistryId = uuidNil, os_WorkflowId = i, os_WorkflowEventId = v,
       os_GlobalRoot = globalRoot, os_Host = host, os_HostRoot = hostRoot\<rparr>)"

definition ixTellCommitDuRoot ::
  "ulid_source \<Rightarrow> IndexState \<Rightarrow> uuid \<Rightarrow> ulid \<Rightarrow> (ix_error, WorkflowPb Event list) outcome" where
  "ixTellCommitDuRoot g st i v = ixTellCommit g st i (wfNewPbDuRootCompletedIdRef i v)"

definition ixTellDeleteDuRoot :: "ulid_source \<Rightarrow> IndexState \<Rightarrow> uuid \<Rightarrow> (ix_error, WorkflowPb Event list) outcome" where
  "ixTellDeleteDuRoot g st i = ixTellDelete g st i (wfNewPbDuRootDeleted i)"

definition ixTellBeginPingRegistry ::
  "ulid_source \<Rightarrow> IndexState \<Rightarrow> uuid \<Rightarrow> ulid \<Rightarrow> (ix_error, WorkflowPb Event list) outcome" where
  "ixTellBeginPingRegistry g st i v = ixTellBegin g st i (wfNewPbPingRegistryStartedIndex
     \<lparr>ps_RegistryId = uuidNil, ps_WorkflowId = i, ps_WorkflowEventId = v\<rparr>)"

definition ixTellCommitPingRegistry ::
  "ulid_source \<Rightarrow> IndexState \<Rightarrow> uuid \<Rightarrow> ulid \<Rightarrow> (ix_error, WorkflowPb Event list) outcome" where
  "ixTellCommitPingRegistry g st i v = ixTellCommit g st i (wfNewPbPingRegistryCompletedIdRef i v)"

definition ixTellDeletePingRegistry :: "ulid_source \<Rightarrow> IndexState \<Rightarrow> uuid \<Rightarrow> (ix_error, WorkflowPb Event list) outcome" where
  "ixTellDeletePingRegistry g st i = ixTellDelete g st i (wfNewPbPingRegistryDeleted i)"

definition ixTellBeginSplitRoot ::
  "ulid_source \<Rightarrow> IndexState \<Rightarrow> uuid \<Rightarrow> ulid \<Rightarrow> string \<Rightarrow> string \<Rightarrow> string \<Rightarrow> (ix_error, WorkflowPb Event list) outcome" where
  "ixTellBeginSplitRoot g st i v globalRoot host hostRoot = ixTellBegin g st i (wfNewPbSplitRootStartedIndex
     \<lparr>os_RegistryId = uuidNil, os_WorkflowId = i, os_WorkflowEventId = v,
       os_GlobalRoot = globalRoot, os_Host = host, os_HostRoot = hostRoot, ss_MaxDepth = 0, ss_MinDiskUsage = 0, ss_MaxDiskUsage = 0\<rparr>)"

definition ixTellCommitSplitRoot ::
  "ulid_source \<Rightarrow> IndexState \<Rightarrow> uuid \<Rightarrow> ulid \<Rightarrow> (ix_error, WorkflowPb Event list) outcome" where
  "ixTellCommitSplitRoot g st i v = ixTellCommit g st i (wfNewPbSplitRootCompletedIdRef i v)"

definition ixTellDeleteSplitRoot :: "ulid_source \<Rightarrow> IndexState \<Rightarrow> uuid \<Rightarrow> (ix_error, WorkflowPb Event list) outcome" where
  "ixTellDeleteSplitRoot g st i = ixTellDelete g st i (wfNewPbSplitRootDeleted i)"

definition ixTellBeginFreezeRepo ::
  "ulid_source \<Rightarrow> IndexState \<Rightarrow> uuid \<Rightarrow> ulid \<Rightarrow> string \<Rightarrow> (ix_error, WorkflowPb Event list) outcome" where
  "ixTellBeginFreezeRepo g st i v globalPath = ixTellBegin g st i (wfNewPbFreezeRepoStarted2Index
     \<lparr>rs_RegistryId = uuidNil, rs_RegistryName = [], rs_StartRegistryVid = ulidNil, rs_RepoId = uuidNil,
       rs_StartRepoVid = ulidNil, rs_RepoGlobalPath = globalPath, rs_AuthorName = [], rs_AuthorEmail = [],
       rs_WorkflowId = i, rs_WorkflowEventId = v\<rparr>)"

definition ixTellCommitFreezeRepo ::
  "ulid_source \<Rightarrow> IndexState \<Rightarrow> uuid \<Rightarrow> ulid \<Rightarrow> (ix_error, WorkflowPb Event list) outcome" where
  "ixTellCommitFreezeRepo g st i v = ixTellCommit g st i (wfNewPbFreezeRepoCompleted2IdRef i v)"

definition ixTellDeleteFreezeRepo :: "ulid_source \<Rightarrow> IndexState \<Rightarrow> uuid \<Rightarrow> (ix_error, WorkflowPb Event list) outcome" where
  "ixTellDeleteFreezeRepo g st i = ixTellDelete g st i (wfNewPbFreezeRepoDeleted i)"

definition ixTellBeginUnfreezeRepo ::
  "ulid_source \<Rightarrow> IndexState \<Rightarrow> uuid \<Rightarrow> ulid \<Rightarrow> string \<Rightarrow> (ix_error, WorkflowPb Event list) outcome" where
  "ixTellBeginUnfreezeRepo g st i v globalPath = ixTellBegin g st i (wfNewPbUnfreezeRepoStarted2Index
     \<lparr>rs_RegistryId = uuidNil, rs_RegistryName = [], rs_StartRegistryVid = ulidNil, rs_RepoId = uuidNil,
       rs_StartRepoVid = ulidNil, rs_RepoGlobalPath = globalPath, rs_AuthorName = [], rs_AuthorEmail = [],
       rs_WorkflowId = i, rs_WorkflowEventId = v\<rparr>)"

definition ixTellCommitUnfreezeRepo ::
  "ulid_source \<Rightarrow> IndexState \<Rightarrow> uuid \<Rightarrow> ulid \<Rightarrow> (ix_error, WorkflowPb Event list) outcome" where
  "ixTellCommitUnfreezeRepo g st i v = ixTellCommit g st i (wfNewPbUnfreezeRepoCompleted2IdRef i v)"

definition ixTellDeleteUnfreezeRepo :: "ulid_source \<Rightarrow> IndexState \<Rightarrow> uuid \<Rightarrow> (ix_error, WorkflowPb Event list) outcome" where
  "ixTellDeleteUnfreezeRepo g st i = ixTellDelete g st i (wfNewPbUnfreezeRepoDeleted i)"

definition ixTellBeginArchiveRepo ::
  "ulid_source \<Rightarrow> IndexState \<Rightarrow> uuid \<Rightarrow> ulid \<Rightarrow> string \<Rightarrow> (ix_error, WorkflowPb Event list) outcome" where
  "ixTellBeginArchiveRepo g st i v globalPath = ixTellBegin g st i (wfNewPbArchiveRepoStartedIndex
     \<lparr>rs_RegistryId = uuidNil, rs_RegistryName = [], rs_StartRegistryVid = ulidNil, rs_RepoId = uuidNil,
       rs_StartRepoVid = ulidNil, rs_RepoGlobalPath = globalPath, rs_AuthorName = [], rs_AuthorEmail = [],
       rs_WorkflowId = i, rs_WorkflowEventId = v\<rparr>)"

definition ixTellCommitArchiveRepo ::
  "ulid_source \<Rightarrow> IndexState \<Rightarrow> uuid \<Rightarrow> ulid \<Rightarrow> (ix_error, WorkflowPb Event list) outcome" where
  "ixTellCommitArchiveRepo g st i v = ixTellCommit g st i (wfNewPbArchiveRepoCompletedIdRef i v)"

definition ixTellDeleteArchiveRepo :: "ulid_source \<Rightarrow> IndexState \<Rightarrow> uuid \<Rightarrow> (ix_error, WorkflowPb Event list) outcome" where
  "ixTellDeleteArchiveRepo g st i = ixTellDelete g st i (wfNewPbArchiveRepoDeleted i)"

definition ixTellBeginUnarchiveRepo ::
  "ulid_source \<Rightarrow> IndexState \<Rightarrow> uuid \<Rightarrow> ulid \<Rightarrow> string \<Rightarrow> (ix_error, WorkflowPb Event list) outcome" where
  "ixTellBeginUnarchiveRepo g st i v globalPath = ixTellBegin g st i (wfNewPbUnarchiveRepoStartedIndex
     \<lparr>rs_RegistryId = uuidNil, rs_RegistryName = [], rs_StartRegistryVid = ulidNil, rs_RepoId = uuidNil,
       rs_StartRepoVid = ulidNil, rs_RepoGlobalPath = globalPath, rs_AuthorName = [], rs_AuthorEmail = [],
       rs_WorkflowId = i, rs_WorkflowEventId = v, us_RepoArchiveURL = [], us_TarttTarPath = []\<rparr>)"

definition ixTellCommitUnarchiveRepo ::
  "ulid_source \<Rightarrow> IndexState \<Rightarrow> uuid \<Rightarrow> ulid \<Rightarrow> (ix_error, WorkflowPb Event list) outcome" where
  "ixTellCommitUnarchiveRepo g st i v = ixTellCommit g st i (wfNewPbUnarchiveRepoCompletedIdRef i v)"

definition ixTellDeleteUnarchiveRepo :: "ulid_source \<Rightarrow> IndexState \<Rightarrow> uuid \<Rightarrow> (ix_error, WorkflowPb Event list) outcome" where
  "ixTellDeleteUnarchiveRepo g st i = ixTellDelete g st i (wfNewPbUnarchiveRepoDeleted i)"

text \<open>\<open>load\<close> is the result of \<open>loadIndexView()\<close> on the journal of the behavior.\<close>

definition ixTellSnapshot ::
  "(WorkflowPb \<Rightarrow> nat) \<Rightarrow> map_order \<Rightarrow> (uuid \<Rightarrow> (ix_error, IndexView) outcome) \<Rightarrow> ulid_source \<Rightarrow> IndexState \<Rightarrow> bool \<Rightarrow>
   (ix_error, WorkflowPb Event list) outcome" where
  "ixTellSnapshot sz ord load g st ifStorageReduction =
     (if ix_nEventsSinceSnapshot st = 0 then Ok []
      else
        let nWorkflows = card (ix_activeWorkflows st) + card (ix_completedWorkflows st);
            snapCost = ConfigSnapshotBaseCost + nWorkflows * ConfigSnapshotWorkflowCost;
            evsCost = ConfigEventConst * ix_nEventsSinceSnapshot st
        in if ConfigMaxSnapshotWorkflows < nWorkflows then Err IxErrTooManyWorkflows
           else if ifStorageReduction \<and> ix_nEventsSinceSnapshot st < ConfigMinEventsBetweenSnapshots
           then Err IxErrSmallStorageReduction
           else if ifStorageReduction \<and> evsCost \<le> snapCost then Err IxErrSmallStorageReduction
           else obind (load (ix_id st)) (\<lambda>iv. obind (ixSnapshot sz ord iv) (ixEmit g (ix_vid st))))"

fun ixTell ::
  "(WorkflowPb \<Rightarrow> nat) \<Rightarrow> map_order \<Rightarrow> (uuid \<Rightarrow> (ix_error, IndexView) outcome) \<Rightarrow> ulid_source \<Rightarrow> IndexState \<Rightarrow> ix_cmd \<Rightarrow>
   (ix_error, WorkflowPb Event list) outcome" where
  "ixTell sz ord load g st (IxBeginDuRoot i v globalRoot host hostRoot) = ixTellBeginDuRoot g st i v globalRoot host hostRoot"
| "ixTell sz ord load g st (IxCommitDuRoot i v) = ixTellCommitDuRoot g st i v"
| "ixTell sz ord load g st (IxDeleteDuRoot i) = ixTellDeleteDuRoot g st i"
| "ixTell sz ord load g st (IxBeginPingRegistry i v) = ixTellBeginPingRegistry g st i v"
| "ixTell sz ord load g st (IxCommitPingRegistry i v) = ixTellCommitPingRegistry g st i v"
| "ixTell sz ord load g st (IxDeletePingRegistry i) = ixTellDeletePingRegistry g st i"
| "ixTell sz ord load g st (IxBeginSplitRoot i v globalRoot host hostRoot) = ixTellBeginSplitRoot g st i v globalRoot host hostRoot"
| "ixTell sz ord load g st (IxCommitSplitRoot i v) = ixTellCommitSplitRoot g st i v"
| "ixTell sz ord load g st (IxDeleteSplitRoot i) = ixTellDeleteSplitRoot g st i"
| "ixTell sz ord load g st (IxBeginFreezeRepo i v globalPath) = ixTellBeginFreezeRepo g st i v globalPath"
| "ixTell sz ord load g st (IxCommitFreezeRepo i v) = ixTellCommitFreezeRepo g st i v"
| "ixTell sz ord load g st (IxDeleteFreezeRepo i) = ixTellDeleteFreezeRepo g st i"
| "ixTell sz ord load g st (IxBeginUnfreezeRepo i v globalPath) = ixTellBeginUnfreezeRepo g st i v globalPath"
| "ixTell sz ord load g st (IxCommitUnfreezeRepo i v) = ixTellCommitUnfreezeRepo g st i v"
| "ixTell sz ord load g st (IxDeleteUnfreezeRepo i) = ixTellDeleteUnfreezeRepo g st i"
| "ixTell sz ord load g st (IxBeginArchiveRepo i v globalPath) = ixTellBeginArchiveRepo g st i v globalPath"
| "ixTell sz ord load g st (IxCommitArchiveRepo i v) = ixTellCommitArchiveRepo g st i v"
| "ixTell sz ord load g st (IxDeleteArchiveRepo i) = ixTellDeleteArchiveRepo g st i"
| "ixTell sz ord load g st (IxBeginUnarchiveRepo i v globalPath) = ixTellBeginUnarchiveRepo g st i v globalPath"
| "ixTell sz ord load g st (IxCommitUnarchiveRepo i v) = ixTellCommitUnarchiveRepo g st i v"
| "ixTell sz ord load g st (IxDeleteUnarchiveRepo i) = ixTellDeleteUnarchiveRepo g st i"
| "ixTell sz ord load g st (IxCmdSnapshot ifStorageReduction) = ixTellSnapshot sz ord load g st ifStorageReduction"
| "ixTell sz ord load g st IxCmdForeign = Err IxErrInvalidCommand"

section \<open>Loading the view\<close>

text \<open>
  \<open>loadIndexView()\<close> replays the index's history, from its epoch, into an empty view.  Its iterator decodes events
  of all types.
\<close>

abbreviation ivOps where
  "ivOps pm pu ub \<equiv> wfEventOps (\<lambda>_. True) (GoErr ''invalid event type'') pm pu ub"

function loadLoop ::
  "ulid_unmarshal \<Rightarrow> WorkflowPb Event EventOps \<Rightarrow> IndexView \<Rightarrow> Iter \<Rightarrow> (ix_error, IndexView \<times> Iter) outcome" where
  "loadLoop ub ops iv it =
     (case iterNext ops it of
        Panic p \<Rightarrow> Panic p
      | Err e \<Rightarrow> Err (IxJournalError e)
      | Ok (None, it') \<Rightarrow> Ok (iv, it')
      | Ok (Some ev, it') \<Rightarrow>
          obind (MustParsePbWorkflowEvent ub (ev_pb ev)) (\<lambda>x.
          obind (ivLoadEvent iv (ev_id ev) x) (\<lambda>iv'. loadLoop ub ops iv' it')))"
  by pat_completeness auto
termination by (relation "measure (\<lambda>(ub, ops, iv, it). iterLeft it)") (auto simp: iterNext_left)

declare loadLoop.simps [simp del]

definition loadIndexView ::
  "'db Mongo \<Rightarrow> decode_parent \<Rightarrow> ulid_unmarshal \<Rightarrow> WorkflowPb Event EventOps \<Rightarrow> uuid \<Rightarrow> ('db, ix_error, IndexView) dbm" where
  "loadIndexView m dp ub ops idxId = (\<lambda>db.
     case journalFind m dp ub idxId EventEpoch db of
       None \<Rightarrow> None
     | Some (r, db') \<Rightarrow>
         Some (obind (map_err IxJournalError r) (\<lambda>it.
           obind (loadLoop ub ops ivNew it) (\<lambda>(iv, it').
             case iterClose it' of Some e \<Rightarrow> Err (IxJournalError e) | None \<Rightarrow> Ok iv)), db'))"

section \<open>The behavior\<close>

text \<open>
  The behavior reads its own journal when it takes a snapshot.  Its model pairs the state with the view of the state's
  history: advancing changes both, and \<open>Tell()\<close> gets the view as the result of loading it.  If the journal has moved on
  when the view is loaded, the commit of the snapshot fails whatever it holds, since the parent of its first event is
  the version of the state.
\<close>

definition ixAdvanceBoth ::
  "IndexState \<times> IndexView \<Rightarrow> ulid \<Rightarrow> WorkflowEvent \<Rightarrow> (ix_error, IndexState \<times> IndexView) outcome" where
  "ixAdvanceBoth s v ev =
     obind (ixAdvanceEv (fst s) ev) (\<lambda>st. omap (Pair st) (ivLoadEvent (snd s) v ev))"

definition ixBehavior ::
  "(WorkflowPb \<Rightarrow> nat) \<Rightarrow> map_order \<Rightarrow> ulid_unmarshal \<Rightarrow>
   (IndexState \<times> IndexView, ix_cmd, WorkflowPb Event, ix_error) Behavior" where
  "ixBehavior sz ord ub = \<lparr>NewState = (\<lambda>i. (ixNewState i, ivNew)), StId = (\<lambda>s. ix_id (fst s)), StVid = (\<lambda>s. ix_vid (fst s)),
     SetVid = (\<lambda>v s. ((fst s)\<lparr>ix_vid := v\<rparr>, snd s)),
     Advance = (\<lambda>s ev. obind (MustParsePbWorkflowEvent ub (ev_pb ev)) (ixAdvanceBoth s (ev_id ev))),
     Tell = (\<lambda>g s c. ixTell sz ord (\<lambda>_. Ok (snd s)) g (fst s) c)\<rparr>"

abbreviation ixOps where
  "ixOps pm pu ub \<equiv> wfEventOps ixEventType (GoErr ''invalid event type'') pm pu ub"

end
