(* ===== verification/Workflow_Index_Inv.thy ===== *)
theory Workflow_Index_Inv
  imports Workflow_Index
begin

text \<open>
  The workflow index agrees with the view that is loaded from its history: what a snapshot is taken from is what the
  state knows.  The locale \<open>workflow_code\<close> is interpreted on the index, with the number of events since the last
  snapshot as the phase.
\<close>

section \<open>Status of the workflows\<close>

text \<open>The status of a workflow in a view: not listed, or listed and completed or not.\<close>

definition entStat :: "(uuid \<rightharpoonup> 'z IndexEntry_scheme) \<Rightarrow> uuid \<rightharpoonup> bool" where
  "entStat m = (\<lambda>i. map_option (\<lambda>e. ie_Completed e \<noteq> ulidNil) (m i))"

definition ivStat :: "IndexView \<Rightarrow> ix_kind \<Rightarrow> uuid \<rightharpoonup> bool" where
  "ivStat iv k =
     (case k of
        KDuRoot \<Rightarrow> entStat (iv_duRoot iv)
      | KPingRegistry \<Rightarrow> entStat (iv_pingRegistry iv)
      | KSplitRoot \<Rightarrow> entStat (iv_splitRoot iv)
      | KFreezeRepo \<Rightarrow> entStat (iv_freezeRepo iv)
      | KUnfreezeRepo \<Rightarrow> entStat (iv_unfreezeRepo iv)
      | KArchiveRepo \<Rightarrow> entStat (iv_archiveRepo iv)
      | KUnarchiveRepo \<Rightarrow> entStat (iv_unarchiveRepo iv))"

definition keyed :: "(uuid \<rightharpoonup> 'z IndexEntry_scheme) \<Rightarrow> bool" where
  "keyed m \<longleftrightarrow> finite (dom m) \<and> (\<forall>i e. m i = Some e \<longrightarrow> ie_WorkflowId e = i)"

definition ivKeyed :: "IndexView \<Rightarrow> bool" where
  "ivKeyed iv \<longleftrightarrow> keyed (iv_duRoot iv) \<and> keyed (iv_pingRegistry iv) \<and> keyed (iv_splitRoot iv) \<and>
     keyed (iv_freezeRepo iv) \<and> keyed (iv_unfreezeRepo iv) \<and> keyed (iv_archiveRepo iv) \<and> keyed (iv_unarchiveRepo iv)"

text \<open>The sets of the state hold exactly the listed workflows, and no id is listed for two kinds.\<close>

definition consistent :: "uuid set \<Rightarrow> uuid set \<Rightarrow> (ix_kind \<Rightarrow> uuid \<rightharpoonup> bool) \<Rightarrow> bool" where
  "consistent A C S \<longleftrightarrow> A = {i. \<exists>k. S k i = Some False} \<and> C = {i. \<exists>k. S k i = Some True} \<and>
     (\<forall>i k k'. S k i \<noteq> None \<longrightarrow> S k' i \<noteq> None \<longrightarrow> k = k')"

definition ix_inv :: "IndexState \<times> IndexView \<Rightarrow> bool" where
  "ix_inv s \<longleftrightarrow> consistent (ix_activeWorkflows (fst s)) (ix_completedWorkflows (fst s)) (ivStat (snd s)) \<and> ivKeyed (snd s)"

lemma consistent_empty: "consistent {} {} (\<lambda>_. Map.empty)"
  by (simp add: consistent_def)

text \<open>Consistency is a property of each id, and a step changes the status of one id for one kind.\<close>

definition cons_at :: "bool \<Rightarrow> bool \<Rightarrow> (ix_kind \<Rightarrow> bool option) \<Rightarrow> bool" where
  "cons_at a c f \<longleftrightarrow> a = (\<exists>k. f k = Some False) \<and> c = (\<exists>k. f k = Some True) \<and>
     (\<forall>k k'. f k \<noteq> None \<longrightarrow> f k' \<noteq> None \<longrightarrow> k = k')"

lemma consistent_at: "consistent A C S \<longleftrightarrow> (\<forall>j. cons_at (j \<in> A) (j \<in> C) (\<lambda>k. S k j))"
  unfolding consistent_def cons_at_def set_eq_iff mem_Collect_eq by blast

lemma status_upd:
  "(\<lambda>k'. (S(k := (S k)(i := x))) k' j) = (if j = i then (\<lambda>k'. S k' i)(k := x) else (\<lambda>k'. S k' j))"
  by (simp add: fun_eq_iff)

lemma cons_at_upd:
  assumes "cons_at a c f" "\<And>k'. k' \<noteq> k \<Longrightarrow> f k' = None"
  shows "cons_at (x = Some False) (x = Some True) (f(k := x))"
  using assms by (auto simp: cons_at_def) 

lemma cons_at_only: "cons_at a c f \<Longrightarrow> f k \<noteq> None \<Longrightarrow> k' \<noteq> k \<Longrightarrow> f k' = None"
  unfolding cons_at_def by metis

lemma cons_at_new: "cons_at False False f \<Longrightarrow> f k = None"
  unfolding cons_at_def by (metis (full_types) not_None_eq)

lemma consistent_upd:
  assumes "consistent A C S" "\<And>k'. k' \<noteq> k \<Longrightarrow> S k' i = None"
    and "\<And>j. j \<noteq> i \<Longrightarrow> (j \<in> A') = (j \<in> A) \<and> (j \<in> C') = (j \<in> C)"
    and "(i \<in> A') = (x = Some False)" "(i \<in> C') = (x = Some True)"
  shows "consistent A' C' (S(k := (S k)(i := x)))"
  unfolding consistent_at status_upd
proof
  fix j
  have "cons_at (j \<in> A) (j \<in> C) (\<lambda>k. S k j)" using assms(1) by (simp add: consistent_at)
  then show "cons_at (j \<in> A') (j \<in> C') (if j = i then (\<lambda>k'. S k' i)(k := x) else (\<lambda>k'. S k' j))"
    using assms(2-5) cons_at_upd [of _ _ "\<lambda>k. S k i" k x] by (cases "j = i") auto
qed

lemma consistent_begin:
  assumes "consistent A C S" "i \<notin> A" "i \<notin> C"
  shows "consistent (insert i A) C (S(k := (S k)(i \<mapsto> False)))"
proof -
  have "cons_at False False (\<lambda>k. S k i)"
    using assms(1) [unfolded consistent_at, rule_format, of i] assms(2,3) by simp
  from cons_at_new [OF this] show ?thesis by (intro consistent_upd [OF assms(1)]) (use assms in auto)
qed

lemma consistent_commit:
  assumes "consistent A C S" "i \<in> A" "S k i \<noteq> None"
  shows "consistent (A - {i}) (insert i C) (S(k := (S k)(i \<mapsto> True)))"
  by (rule consistent_upd [OF assms(1)]) (use assms cons_at_only [of _ _ "\<lambda>k. S k i" k] in \<open>auto simp: consistent_at\<close>)

lemma consistent_delete:
  assumes "consistent A C S" "i \<in> C" "S k i \<noteq> None"
  shows "consistent A (C - {i}) (S(k := (S k)(i := None)))"
proof -
  have "i \<notin> A" using assms(1,2) unfolding consistent_def by fastforce
  then show ?thesis
    by (intro consistent_upd [OF assms(1)]) (use assms cons_at_only [of _ _ "\<lambda>k. S k i" k] in \<open>auto simp: consistent_at\<close>)
qed

lemma entStat_simps [simp]:
  "entStat Map.empty = Map.empty" "entStat (m(i := None)) = (entStat m)(i := None)"
  "entStat (m(i \<mapsto> e)) = (entStat m)(i \<mapsto> ie_Completed e \<noteq> 0)"
  by (auto simp: entStat_def)

lemma ivStat_simps [simp]:

  "ivStat (iv\<lparr>iv_duRoot := mDu\<rparr>) = (ivStat iv)(KDuRoot := entStat mDu)"
  "ivStat (iv\<lparr>iv_pingRegistry := mPing\<rparr>) = (ivStat iv)(KPingRegistry := entStat mPing)"
  "ivStat (iv\<lparr>iv_splitRoot := mSplit\<rparr>) = (ivStat iv)(KSplitRoot := entStat mSplit)"
  "ivStat (iv\<lparr>iv_freezeRepo := mFreeze\<rparr>) = (ivStat iv)(KFreezeRepo := entStat mFreeze)"
  "ivStat (iv\<lparr>iv_unfreezeRepo := mUnfreeze\<rparr>) = (ivStat iv)(KUnfreezeRepo := entStat mUnfreeze)"
  "ivStat (iv\<lparr>iv_archiveRepo := mArchive\<rparr>) = (ivStat iv)(KArchiveRepo := entStat mArchive)"
  "ivStat (iv\<lparr>iv_unarchiveRepo := mUnarchive\<rparr>) = (ivStat iv)(KUnarchiveRepo := entStat mUnarchive)"
  "ivStat (iv\<lparr>iv_vid := v\<rparr>) = ivStat iv" "ivStat (ivResetState iv) = (\<lambda>_. Map.empty)" "ivStat ivNew = (\<lambda>_. Map.empty)"
  by (auto simp: ivStat_def ivResetState_def ivNew_def fun_eq_iff split: ix_kind.splits)

lemma ivStat_kinds [simp]:

  "ivStat iv KDuRoot = entStat (iv_duRoot iv)"
  "ivStat iv KPingRegistry = entStat (iv_pingRegistry iv)"
  "ivStat iv KSplitRoot = entStat (iv_splitRoot iv)"
  "ivStat iv KFreezeRepo = entStat (iv_freezeRepo iv)"
  "ivStat iv KUnfreezeRepo = entStat (iv_unfreezeRepo iv)"
  "ivStat iv KArchiveRepo = entStat (iv_archiveRepo iv)"
  "ivStat iv KUnarchiveRepo = entStat (iv_unarchiveRepo iv)"
  by (simp_all add: ivStat_def)

lemma keyed_simps [simp]:
  "keyed Map.empty" "keyed m \<Longrightarrow> keyed (m(i := None))" "keyed m \<Longrightarrow> ie_WorkflowId e = i \<Longrightarrow> keyed (m(i \<mapsto> e))"
  by (auto simp: keyed_def)

lemma ivKeyed_simps [simp]:
  "ivKeyed iv \<Longrightarrow> keyed mDu \<Longrightarrow> ivKeyed (iv\<lparr>iv_duRoot := mDu\<rparr>)"
  "ivKeyed iv \<Longrightarrow> keyed mPing \<Longrightarrow> ivKeyed (iv\<lparr>iv_pingRegistry := mPing\<rparr>)"
  "ivKeyed iv \<Longrightarrow> keyed mSplit \<Longrightarrow> ivKeyed (iv\<lparr>iv_splitRoot := mSplit\<rparr>)"
  "ivKeyed iv \<Longrightarrow> keyed mFreeze \<Longrightarrow> ivKeyed (iv\<lparr>iv_freezeRepo := mFreeze\<rparr>)"
  "ivKeyed iv \<Longrightarrow> keyed mUnfreeze \<Longrightarrow> ivKeyed (iv\<lparr>iv_unfreezeRepo := mUnfreeze\<rparr>)"
  "ivKeyed iv \<Longrightarrow> keyed mArchive \<Longrightarrow> ivKeyed (iv\<lparr>iv_archiveRepo := mArchive\<rparr>)"
  "ivKeyed iv \<Longrightarrow> keyed mUnarchive \<Longrightarrow> ivKeyed (iv\<lparr>iv_unarchiveRepo := mUnarchive\<rparr>)"
  "ivKeyed (iv\<lparr>iv_vid := v\<rparr>) = ivKeyed iv" "ivKeyed (ivResetState iv)" "ivKeyed ivNew"
  by (auto simp: ivKeyed_def ivResetState_def ivNew_def)

lemma ivKeyedD:
  "ivKeyed iv \<Longrightarrow> keyed (iv_duRoot iv)" "ivKeyed iv \<Longrightarrow> keyed (iv_pingRegistry iv)" "ivKeyed iv \<Longrightarrow> keyed (iv_splitRoot iv)"
  "ivKeyed iv \<Longrightarrow> keyed (iv_freezeRepo iv)" "ivKeyed iv \<Longrightarrow> keyed (iv_unfreezeRepo iv)"
  "ivKeyed iv \<Longrightarrow> keyed (iv_archiveRepo iv)" "ivKeyed iv \<Longrightarrow> keyed (iv_unarchiveRepo iv)"
  by (simp_all add: ivKeyed_def)

lemma ivComplete_stat:
  "entStat m i \<noteq> None \<Longrightarrow> keyed m \<Longrightarrow>
     \<exists>m'. (ivComplete m i v :: (ix_error, _) outcome) = Ok m' \<and> entStat m' = (entStat m)(i \<mapsto> v \<noteq> 0) \<and> keyed m'"
  by (auto simp: ivComplete_def entStat_def keyed_def split: option.splits)

section \<open>Steps of the index\<close>

lemma ix_state_simps [simp]:
  "ix_activeWorkflows (ixCount st) = ix_activeWorkflows st" "ix_completedWorkflows (ixCount st) = ix_completedWorkflows st"
  "ix_activeWorkflows (ixStart i st) = insert i (ix_activeWorkflows st)"
  "ix_completedWorkflows (ixStart i st) = ix_completedWorkflows st"
  "ix_activeWorkflows (ixComplete i st) = ix_activeWorkflows st - {i}"
  "ix_completedWorkflows (ixComplete i st) = insert i (ix_completedWorkflows st)"
  "ix_activeWorkflows (ixDelete i st) = ix_activeWorkflows st"
  "ix_completedWorkflows (ixDelete i st) = ix_completedWorkflows st - {i}"
  by (simp_all add: ixCount_def ixStart_def ixComplete_def ixDelete_def)

lemma ix_count_simps [simp]:
  "ix_nEventsSinceSnapshot (ixCount st) = Suc (ix_nEventsSinceSnapshot st)"
  "ix_nEventsSinceSnapshot (ixStart i st) = ix_nEventsSinceSnapshot st"
  "ix_nEventsSinceSnapshot (ixComplete i st) = ix_nEventsSinceSnapshot st"
  "ix_nEventsSinceSnapshot (ixDelete i st) = ix_nEventsSinceSnapshot st"
  "ix_id (ixCount st) = ix_id st" "ix_id (ixStart i st) = ix_id st" "ix_id (ixComplete i st) = ix_id st"
  "ix_id (ixDelete i st) = ix_id st"
  by (simp_all add: ixCount_def ixStart_def ixComplete_def ixDelete_def)

lemma entry_simps [simp]:
  "ie_WorkflowId (rootEntry x) = os_WorkflowId x" "ie_Completed (rootEntry x) = 0"
  "ie_WorkflowId (pingEntry y) = ps_WorkflowId y" "ie_Completed (pingEntry y) = 0"
  "ie_WorkflowId (pathEntry z) = rs_WorkflowId z" "ie_Completed (pathEntry z) = 0"
  by (simp_all add: rootEntry_def pingEntry_def pathEntry_def)

text \<open>An event is fine if both sides advance, the invariant holds and the event is counted.\<close>

definition goes :: "IndexState \<times> IndexView \<Rightarrow> ulid \<Rightarrow> WorkflowEvent \<Rightarrow> bool" where
  "goes s v ev \<longleftrightarrow> (\<exists>s'. ixAdvanceBoth s v ev = Ok s' \<and> ix_inv s' \<and>
     ix_nEventsSinceSnapshot (fst s') = Suc (ix_nEventsSinceSnapshot (fst s)))"

lemma started_goes:
  assumes "ix_inv s" "i \<notin> ix_activeWorkflows (fst s)" "i \<notin> ix_completedWorkflows (fst s)"
  shows
    "os_WorkflowId xDu = i \<Longrightarrow> goes s v (WvDuRootStarted xDu)"
    "ps_WorkflowId xPing = i \<Longrightarrow> goes s v (WvPingRegistryStarted xPing)"
    "os_WorkflowId xSplit = i \<Longrightarrow> goes s v (WvSplitRootStarted xSplit)"
    "rs_WorkflowId xFreeze = i \<Longrightarrow> goes s v (WvFreezeRepoStarted2 xFreeze)"
    "rs_WorkflowId xUnfreeze = i \<Longrightarrow> goes s v (WvUnfreezeRepoStarted2 xUnfreeze)"
    "rs_WorkflowId xArchive = i \<Longrightarrow> goes s v (WvArchiveRepoStarted xArchive)"
    "rs_WorkflowId xUnarchive = i \<Longrightarrow> goes s v (WvUnarchiveRepoStarted xUnarchive)"
proof -
  have c: "consistent (insert i (ix_activeWorkflows (fst s))) (ix_completedWorkflows (fst s))
      ((ivStat (snd s))(k := (ivStat (snd s) k)(i \<mapsto> False)))" for k
    by (rule consistent_begin) (use assms in \<open>simp_all add: ix_inv_def\<close>)
  have keyed: "ivKeyed (snd s)" using assms(1) by (simp add: ix_inv_def)
  note cs = c [of KDuRoot] c [of KPingRegistry] c [of KSplitRoot] c [of KFreezeRepo] c [of KUnfreezeRepo] c [of KArchiveRepo] c [of KUnarchiveRepo]

  show "goes s v (WvDuRootStarted xDu)" if "os_WorkflowId xDu = i"
    using that cs [unfolded ivStat_kinds] keyed
    by (simp add: goes_def ixAdvanceBoth_def ixAdvanceEv_def ivLoadEvent_def Let_def ix_inv_def ivKeyedD)
  show "goes s v (WvPingRegistryStarted xPing)" if "ps_WorkflowId xPing = i"
    using that cs [unfolded ivStat_kinds] keyed
    by (simp add: goes_def ixAdvanceBoth_def ixAdvanceEv_def ivLoadEvent_def Let_def ix_inv_def ivKeyedD)
  show "goes s v (WvSplitRootStarted xSplit)" if "os_WorkflowId xSplit = i"
    using that cs [unfolded ivStat_kinds] keyed
    by (simp add: goes_def ixAdvanceBoth_def ixAdvanceEv_def ivLoadEvent_def Let_def ix_inv_def ivKeyedD)
  show "goes s v (WvFreezeRepoStarted2 xFreeze)" if "rs_WorkflowId xFreeze = i"
    using that cs [unfolded ivStat_kinds] keyed
    by (simp add: goes_def ixAdvanceBoth_def ixAdvanceEv_def ivLoadEvent_def Let_def ix_inv_def ivKeyedD)
  show "goes s v (WvUnfreezeRepoStarted2 xUnfreeze)" if "rs_WorkflowId xUnfreeze = i"
    using that cs [unfolded ivStat_kinds] keyed
    by (simp add: goes_def ixAdvanceBoth_def ixAdvanceEv_def ivLoadEvent_def Let_def ix_inv_def ivKeyedD)
  show "goes s v (WvArchiveRepoStarted xArchive)" if "rs_WorkflowId xArchive = i"
    using that cs [unfolded ivStat_kinds] keyed
    by (simp add: goes_def ixAdvanceBoth_def ixAdvanceEv_def ivLoadEvent_def Let_def ix_inv_def ivKeyedD)
  show "goes s v (WvUnarchiveRepoStarted xUnarchive)" if "rs_WorkflowId xUnarchive = i"
    using that cs [unfolded ivStat_kinds] keyed
    by (simp add: goes_def ixAdvanceBoth_def ixAdvanceEv_def ivLoadEvent_def Let_def ix_inv_def ivKeyedD)
qed

lemma completed_goes:
  assumes "ix_inv s" "i \<in> ix_activeWorkflows (fst s)" "u \<noteq> 0"
  shows
    "ivStat (snd s) KDuRoot i \<noteq> None \<Longrightarrow> wc_WorkflowId x = i \<Longrightarrow> wc_WorkflowEventId x = u \<Longrightarrow> goes s v (WvDuRootCompleted x)"
    "ivStat (snd s) KPingRegistry i \<noteq> None \<Longrightarrow> goes s v (WvPingRegistryCompleted i u)"
    "ivStat (snd s) KSplitRoot i \<noteq> None \<Longrightarrow> wc_WorkflowId x = i \<Longrightarrow> wc_WorkflowEventId x = u \<Longrightarrow> goes s v (WvSplitRootCompleted x)"
    "ivStat (snd s) KFreezeRepo i \<noteq> None \<Longrightarrow> wc_WorkflowId x = i \<Longrightarrow> wc_WorkflowEventId x = u \<Longrightarrow> goes s v (WvFreezeRepoCompleted2 x)"
    "ivStat (snd s) KUnfreezeRepo i \<noteq> None \<Longrightarrow> wc_WorkflowId x = i \<Longrightarrow> wc_WorkflowEventId x = u \<Longrightarrow> goes s v (WvUnfreezeRepoCompleted2 x)"
    "ivStat (snd s) KArchiveRepo i \<noteq> None \<Longrightarrow> wc_WorkflowId x = i \<Longrightarrow> wc_WorkflowEventId x = u \<Longrightarrow> goes s v (WvArchiveRepoCompleted x)"
    "ivStat (snd s) KUnarchiveRepo i \<noteq> None \<Longrightarrow> wc_WorkflowId x = i \<Longrightarrow> wc_WorkflowEventId x = u \<Longrightarrow> goes s v (WvUnarchiveRepoCompleted x)"
proof -
  show "goes s v (WvDuRootCompleted x)" if "ivStat (snd s) KDuRoot i \<noteq> None" "wc_WorkflowId x = i" "wc_WorkflowEventId x = u"
    using that assms consistent_commit [of "ix_activeWorkflows (fst s)" "ix_completedWorkflows (fst s)" "ivStat (snd s)" i KDuRoot] ivComplete_stat [of "iv_duRoot (snd s)" i u]
    by (auto simp: goes_def ixAdvanceBoth_def ixAdvanceEv_def ivLoadEvent_def Let_def ix_inv_def ivKeyedD ivStat_def)
  show "goes s v (WvPingRegistryCompleted i u)" if "ivStat (snd s) KPingRegistry i \<noteq> None"
    using that assms consistent_commit [of "ix_activeWorkflows (fst s)" "ix_completedWorkflows (fst s)" "ivStat (snd s)" i KPingRegistry] ivComplete_stat [of "iv_pingRegistry (snd s)" i u]
    by (auto simp: goes_def ixAdvanceBoth_def ixAdvanceEv_def ivLoadEvent_def Let_def ix_inv_def ivKeyedD ivStat_def)
  show "goes s v (WvSplitRootCompleted x)" if "ivStat (snd s) KSplitRoot i \<noteq> None" "wc_WorkflowId x = i" "wc_WorkflowEventId x = u"
    using that assms consistent_commit [of "ix_activeWorkflows (fst s)" "ix_completedWorkflows (fst s)" "ivStat (snd s)" i KSplitRoot] ivComplete_stat [of "iv_splitRoot (snd s)" i u]
    by (auto simp: goes_def ixAdvanceBoth_def ixAdvanceEv_def ivLoadEvent_def Let_def ix_inv_def ivKeyedD ivStat_def)
  show "goes s v (WvFreezeRepoCompleted2 x)" if "ivStat (snd s) KFreezeRepo i \<noteq> None" "wc_WorkflowId x = i" "wc_WorkflowEventId x = u"
    using that assms consistent_commit [of "ix_activeWorkflows (fst s)" "ix_completedWorkflows (fst s)" "ivStat (snd s)" i KFreezeRepo] ivComplete_stat [of "iv_freezeRepo (snd s)" i u]
    by (auto simp: goes_def ixAdvanceBoth_def ixAdvanceEv_def ivLoadEvent_def Let_def ix_inv_def ivKeyedD ivStat_def)
  show "goes s v (WvUnfreezeRepoCompleted2 x)" if "ivStat (snd s) KUnfreezeRepo i \<noteq> None" "wc_WorkflowId x = i" "wc_WorkflowEventId x = u"
    using that assms consistent_commit [of "ix_activeWorkflows (fst s)" "ix_completedWorkflows (fst s)" "ivStat (snd s)" i KUnfreezeRepo] ivComplete_stat [of "iv_unfreezeRepo (snd s)" i u]
    by (auto simp: goes_def ixAdvanceBoth_def ixAdvanceEv_def ivLoadEvent_def Let_def ix_inv_def ivKeyedD ivStat_def)
  show "goes s v (WvArchiveRepoCompleted x)" if "ivStat (snd s) KArchiveRepo i \<noteq> None" "wc_WorkflowId x = i" "wc_WorkflowEventId x = u"
    using that assms consistent_commit [of "ix_activeWorkflows (fst s)" "ix_completedWorkflows (fst s)" "ivStat (snd s)" i KArchiveRepo] ivComplete_stat [of "iv_archiveRepo (snd s)" i u]
    by (auto simp: goes_def ixAdvanceBoth_def ixAdvanceEv_def ivLoadEvent_def Let_def ix_inv_def ivKeyedD ivStat_def)
  show "goes s v (WvUnarchiveRepoCompleted x)" if "ivStat (snd s) KUnarchiveRepo i \<noteq> None" "wc_WorkflowId x = i" "wc_WorkflowEventId x = u"
    using that assms consistent_commit [of "ix_activeWorkflows (fst s)" "ix_completedWorkflows (fst s)" "ivStat (snd s)" i KUnarchiveRepo] ivComplete_stat [of "iv_unarchiveRepo (snd s)" i u]
    by (auto simp: goes_def ixAdvanceBoth_def ixAdvanceEv_def ivLoadEvent_def Let_def ix_inv_def ivKeyedD ivStat_def)
qed

lemma deleted_goes:
  assumes "ix_inv s" "i \<in> ix_completedWorkflows (fst s)"
  shows
    "ivStat (snd s) KDuRoot i \<noteq> None \<Longrightarrow> goes s v (WvDuRootDeleted i)"
    "ivStat (snd s) KPingRegistry i \<noteq> None \<Longrightarrow> goes s v (WvPingRegistryDeleted i)"
    "ivStat (snd s) KSplitRoot i \<noteq> None \<Longrightarrow> goes s v (WvSplitRootDeleted i)"
    "ivStat (snd s) KFreezeRepo i \<noteq> None \<Longrightarrow> goes s v (WvFreezeRepoDeleted i)"
    "ivStat (snd s) KUnfreezeRepo i \<noteq> None \<Longrightarrow> goes s v (WvUnfreezeRepoDeleted i)"
    "ivStat (snd s) KArchiveRepo i \<noteq> None \<Longrightarrow> goes s v (WvArchiveRepoDeleted i)"
    "ivStat (snd s) KUnarchiveRepo i \<noteq> None \<Longrightarrow> goes s v (WvUnarchiveRepoDeleted i)"
proof -
  have keyed: "ivKeyed (snd s)" using assms(1) by (simp add: ix_inv_def)
  have c: "consistent (ix_activeWorkflows (fst s)) (ix_completedWorkflows (fst s) - {i})
      ((ivStat (snd s))(k := (ivStat (snd s) k)(i := None)))" if "ivStat (snd s) k i \<noteq> None" for k
    by (rule consistent_delete) (use assms that in \<open>simp_all add: ix_inv_def\<close>)

  show "goes s v (WvDuRootDeleted i)" if "ivStat (snd s) KDuRoot i \<noteq> None"
    using c [OF that] keyed
    by (simp add: goes_def ixAdvanceBoth_def ixAdvanceEv_def ivLoadEvent_def Let_def ix_inv_def ivKeyedD)
  show "goes s v (WvPingRegistryDeleted i)" if "ivStat (snd s) KPingRegistry i \<noteq> None"
    using c [OF that] keyed
    by (simp add: goes_def ixAdvanceBoth_def ixAdvanceEv_def ivLoadEvent_def Let_def ix_inv_def ivKeyedD)
  show "goes s v (WvSplitRootDeleted i)" if "ivStat (snd s) KSplitRoot i \<noteq> None"
    using c [OF that] keyed
    by (simp add: goes_def ixAdvanceBoth_def ixAdvanceEv_def ivLoadEvent_def Let_def ix_inv_def ivKeyedD)
  show "goes s v (WvFreezeRepoDeleted i)" if "ivStat (snd s) KFreezeRepo i \<noteq> None"
    using c [OF that] keyed
    by (simp add: goes_def ixAdvanceBoth_def ixAdvanceEv_def ivLoadEvent_def Let_def ix_inv_def ivKeyedD)
  show "goes s v (WvUnfreezeRepoDeleted i)" if "ivStat (snd s) KUnfreezeRepo i \<noteq> None"
    using c [OF that] keyed
    by (simp add: goes_def ixAdvanceBoth_def ixAdvanceEv_def ivLoadEvent_def Let_def ix_inv_def ivKeyedD)
  show "goes s v (WvArchiveRepoDeleted i)" if "ivStat (snd s) KArchiveRepo i \<noteq> None"
    using c [OF that] keyed
    by (simp add: goes_def ixAdvanceBoth_def ixAdvanceEv_def ivLoadEvent_def Let_def ix_inv_def ivKeyedD)
  show "goes s v (WvUnarchiveRepoDeleted i)" if "ivStat (snd s) KUnarchiveRepo i \<noteq> None"
    using c [OF that] keyed
    by (simp add: goes_def ixAdvanceBoth_def ixAdvanceEv_def ivLoadEvent_def Let_def ix_inv_def ivKeyedD)
qed

section \<open>Snapshots\<close>

text \<open>The obligation of Go's map iteration: each key is visited once.\<close>

definition order_ok :: "map_order \<Rightarrow> bool" where
  "order_ok ord \<longleftrightarrow> (\<forall>k S. finite S \<longrightarrow> distinct (ord k S) \<and> set (ord k S) = S)"

lemma mapOutcome_map: "(\<And>x. f (h x) = Ok x) \<Longrightarrow> mapOutcome f (map h xs) = Ok xs"
  by (induction xs) simp_all

lemma parse_WorkflowIndexSnapshotState:
  assumes "ulid_binary ub"
  shows "ParsePbWorkflowEvent ub (wfNewPbWorkflowIndexSnapshotState x) = Ok (WvWorkflowIndexSnapshotState x)"
  using assms
  by (simp add: ParsePbWorkflowEvent_def wfNewPbWorkflowIndexSnapshotState_def wfFromPbWorkflowIndexSnapshotState_def
    wfPb_def wfGuard_def wfFromPbWorkflowIndexSnapshotState_DuRoot_def wfFromPbWorkflowIndexSnapshotState_PingRegistry_def
    wfFromPbWorkflowIndexSnapshotState_SplitRoot_def wfFromPbWorkflowIndexSnapshotState_FreezeRepo_def
    wfFromPbWorkflowIndexSnapshotState_UnfreezeRepo_def wfFromPbWorkflowIndexSnapshotState_ArchiveRepo_def
    wfFromPbWorkflowIndexSnapshotState_UnarchiveRepo_def mapOutcome_map)

lemma new_event_snapshot [simp]:
  "wp_Event (wfNewPbWorkflowIndexSnapshotState x) = WT_WORKFLOW_INDEX_SNAPSHOT_STATE"
  "wf_pb_ok (wfNewPbWorkflowIndexSnapshotState x)"
  by (simp_all add: wfNewPbWorkflowIndexSnapshotState_def wfPb_def wf_pb_ok_def index_state_ok_def index_entry_ok_def
    list_all_iff unlessNil_def)

lemma set_entriesSorted:
  assumes "keyed m" "order_ok ord"
  shows "set (entriesSorted (ord k) m) = ran m"
  using assms by (force simp: entriesSorted_def keyed_def order_ok_def ran_def)

lemma ivPut_eq:
  "\<forall>w \<in> set ws. m (ie_WorkflowId w) = Some w \<Longrightarrow>
     ivPut ws m0 i = (if \<exists>w \<in> set ws. ie_WorkflowId w = i then m i else m0 i)"
  by (induction ws arbitrary: m0) auto

lemma ivPut_entries [simp]:
  assumes "keyed m" "order_ok ord"
  shows "ivPut (entriesSorted (ord k) m) Map.empty = m"
proof
  fix i
  have "\<forall>w \<in> ran m. m (ie_WorkflowId w) = Some w" using assms(1) by (auto simp: keyed_def ran_def)
  then have "ivPut (entriesSorted (ord k) m) Map.empty i = (if \<exists>w \<in> ran m. ie_WorkflowId w = i then m i else None)"
    using ivPut_eq [of "entriesSorted (ord k) m" m Map.empty i] by (simp add: set_entriesSorted [OF assms])
  then show "ivPut (entriesSorted (ord k) m) Map.empty i = m i"
    using assms(1) by (cases "m i") (auto simp: keyed_def ran_def)
qed

lemma ixMark_simps [simp]:
  "ix_activeWorkflows (ixMark ws st) = ix_activeWorkflows st \<union> {ie_WorkflowId w | w. w \<in> set ws \<and> ie_Completed w = 0}"
  "ix_completedWorkflows (ixMark ws st) =
     ix_completedWorkflows st \<union> {ie_WorkflowId w | w. w \<in> set ws \<and> ie_Completed w \<noteq> 0}"
  "ix_nEventsSinceSnapshot (ixMark ws st) = ix_nEventsSinceSnapshot st" "ix_id (ixMark ws st) = ix_id st"
  by (induction ws arbitrary: st) auto

lemma ixMark_Nil [simp]: "ixMarkAll indexSnapshot0 st = st"
  by (simp add: ixMarkAll_def indexSnapshot0_def)

lemma marked_entries:
  assumes "keyed m" "order_ok ord"
  shows "{ie_WorkflowId w | w. w \<in> set (entriesSorted (ord k) m) \<and> ie_Completed w = 0} = {i. entStat m i = Some False}"
    "{ie_WorkflowId w | w. w \<in> set (entriesSorted (ord k) m) \<and> ie_Completed w \<noteq> 0} = {i. entStat m i = Some True}"
  using assms(1) by (force simp: set_entriesSorted [OF assms] entStat_def keyed_def ran_def)+

text \<open>The part of a view that some kinds make up.\<close>

definition ivKeep :: "ix_kind set \<Rightarrow> IndexView \<Rightarrow> IndexView" where
  "ivKeep K iv = iv\<lparr>
iv_duRoot := if KDuRoot \<in> K then iv_duRoot iv else Map.empty,
     iv_pingRegistry := if KPingRegistry \<in> K then iv_pingRegistry iv else Map.empty,
     iv_splitRoot := if KSplitRoot \<in> K then iv_splitRoot iv else Map.empty,
     iv_freezeRepo := if KFreezeRepo \<in> K then iv_freezeRepo iv else Map.empty,
     iv_unfreezeRepo := if KUnfreezeRepo \<in> K then iv_unfreezeRepo iv else Map.empty,
     iv_archiveRepo := if KArchiveRepo \<in> K then iv_archiveRepo iv else Map.empty,
     iv_unarchiveRepo := if KUnarchiveRepo \<in> K then iv_unarchiveRepo iv else Map.empty\<rparr>"

lemma ivKeep_ends: "ivKeep {} iv = ivResetState iv" "ivKeep UNIV iv = iv"
  by (simp_all add: ivKeep_def ivResetState_def)

lemma ivKeep_vid [simp]: "ivKeep K (iv\<lparr>iv_vid := v\<rparr>) = (ivKeep K iv)\<lparr>iv_vid := v\<rparr>"
  by (simp add: ivKeep_def)

lemma ivKeep_empty: "ixKindEmpty iv k \<Longrightarrow> ivKeep (insert k K) iv = ivKeep K iv"
  by (cases k) (auto simp: ixKindEmpty_def ivKeep_def)

lemma ivPutAll_kind:
  assumes "ivKeyed iv" "order_ok ord" "k \<notin> K"
  shows "ivPutAll (ixKindState ord iv k) (ivKeep K iv) = ivKeep (insert k K) iv"
  using assms by (cases k) (simp_all add: ivPutAll_def ixKindState_def indexSnapshot0_def ivKeep_def ivKeyedD)

lemma ivPutAll_vid: "ivPutAll x (iv\<lparr>iv_vid := v\<rparr>) = (ivPutAll x iv)\<lparr>iv_vid := v\<rparr>"
  by (simp add: ivPutAll_def)

lemma ixMarkAll_kind:
  assumes "ivKeyed iv" "order_ok ord"
  shows "ix_activeWorkflows (ixMarkAll (ixKindState ord iv k) st) = ix_activeWorkflows st \<union> {i. ivStat iv k i = Some False}"
    "ix_completedWorkflows (ixMarkAll (ixKindState ord iv k) st) = ix_completedWorkflows st \<union> {i. ivStat iv k i = Some True}"
    "ix_nEventsSinceSnapshot (ixMarkAll (ixKindState ord iv k) st) = ix_nEventsSinceSnapshot st"
  using assms
  by (cases k; simp add: ixMarkAll_def ixKindState_def indexSnapshot0_def marked_entries ivKeyedD)+

lemma ixMarkAll_id [simp]: "ix_id (ixMarkAll x st) = ix_id st"
  by (simp add: ixMarkAll_def)

lemma ixKindEmpty_stat: "ixKindEmpty iv k \<Longrightarrow> ivStat iv k i = None"
  by (cases k) (auto simp: ixKindEmpty_def entStat_def)

section \<open>The aggregate\<close>

text \<open>
  The obligations of the callers: a new workflow has an id and a version that are not nil and the strings that the events
  need, and its id is not that of a completed workflow; a workflow is committed and deleted as the kind as which it was
  begun; the entries of a snapshot are small enough.  The code checks none of it.
\<close>

definition begin_ok :: "IndexState \<Rightarrow> uuid \<Rightarrow> ulid \<Rightarrow> bool" where
  "begin_ok st i v \<longleftrightarrow> i \<noteq> uuidNil \<and> v \<noteq> ulidNil \<and> \<not> isCompletedWorkflow st i"

definition commit_ok :: "IndexState \<times> IndexView \<Rightarrow> ix_kind \<Rightarrow> uuid \<Rightarrow> ulid \<Rightarrow> bool" where
  "commit_ok s k i v \<longleftrightarrow> v \<noteq> ulidNil \<and> (isActiveWorkflow (fst s) i \<longrightarrow> ivStat (snd s) k i \<noteq> None)"

definition delete_ok :: "IndexState \<times> IndexView \<Rightarrow> ix_kind \<Rightarrow> uuid \<Rightarrow> bool" where
  "delete_ok s k i \<longleftrightarrow> (isCompletedWorkflow (fst s) i \<longrightarrow> ivStat (snd s) k i \<noteq> None)"

definition ix_pre :: "(WorkflowPb \<Rightarrow> nat) \<Rightarrow> map_order \<Rightarrow> IndexState \<times> IndexView \<Rightarrow> ix_cmd \<Rightarrow> bool" where
  "ix_pre sz ord s c \<longleftrightarrow>
     (case c of
        IxBeginDuRoot i v globalRoot host hostRoot \<Rightarrow>
          begin_ok (fst s) i v \<and> globalRoot \<noteq> [] \<and> host \<noteq> [] \<and> hostRoot \<noteq> []
      | IxCommitDuRoot i v \<Rightarrow> commit_ok s KDuRoot i v
      | IxDeleteDuRoot i \<Rightarrow> delete_ok s KDuRoot i
      | IxBeginPingRegistry i v \<Rightarrow> begin_ok (fst s) i v
      | IxCommitPingRegistry i v \<Rightarrow> commit_ok s KPingRegistry i v
      | IxDeletePingRegistry i \<Rightarrow> delete_ok s KPingRegistry i
      | IxBeginSplitRoot i v globalRoot host hostRoot \<Rightarrow>
          begin_ok (fst s) i v \<and> globalRoot \<noteq> [] \<and> host \<noteq> [] \<and> hostRoot \<noteq> []
      | IxCommitSplitRoot i v \<Rightarrow> commit_ok s KSplitRoot i v
      | IxDeleteSplitRoot i \<Rightarrow> delete_ok s KSplitRoot i
      | IxBeginFreezeRepo i v globalPath \<Rightarrow> begin_ok (fst s) i v \<and> globalPath \<noteq> []
      | IxCommitFreezeRepo i v \<Rightarrow> commit_ok s KFreezeRepo i v
      | IxDeleteFreezeRepo i \<Rightarrow> delete_ok s KFreezeRepo i
      | IxBeginUnfreezeRepo i v globalPath \<Rightarrow> begin_ok (fst s) i v \<and> globalPath \<noteq> []
      | IxCommitUnfreezeRepo i v \<Rightarrow> commit_ok s KUnfreezeRepo i v
      | IxDeleteUnfreezeRepo i \<Rightarrow> delete_ok s KUnfreezeRepo i
      | IxBeginArchiveRepo i v globalPath \<Rightarrow> begin_ok (fst s) i v \<and> globalPath \<noteq> []
      | IxCommitArchiveRepo i v \<Rightarrow> commit_ok s KArchiveRepo i v
      | IxDeleteArchiveRepo i \<Rightarrow> delete_ok s KArchiveRepo i
      | IxBeginUnarchiveRepo i v globalPath \<Rightarrow> begin_ok (fst s) i v \<and> globalPath \<noteq> []
      | IxCommitUnarchiveRepo i v \<Rightarrow> commit_ok s KUnarchiveRepo i v
      | IxDeleteUnarchiveRepo i \<Rightarrow> delete_ok s KUnarchiveRepo i
      | IxCmdSnapshot _ \<Rightarrow> \<forall>k. sz (wfNewPbWorkflowIndexSnapshotState (ixKindState ord (snd s) k)) \<le> ConfigMaxProtoSize
      | IxCmdForeign \<Rightarrow> True)"

abbreviation ixPhase :: "IndexState \<times> IndexView \<Rightarrow> nat" where
  "ixPhase s \<equiv> ix_nEventsSinceSnapshot (fst s)"

inductive ix_step :: "nat \<Rightarrow> nat \<Rightarrow> bool" where
  ix_event: "ix_step n (Suc n)"
| ix_snapshot: "ix_step n 0"

inductive_simps ix_step_simps: "ix_step n n'"

lemma ixBehavior_simps [simp]:
  "NewState (ixBehavior sz ord ub) i = (ixNewState i, ivNew)" "StId (ixBehavior sz ord ub) s = ix_id (fst s)"
  "StVid (ixBehavior sz ord ub) s = ix_vid (fst s)"
  "SetVid (ixBehavior sz ord ub) v s = ((fst s)\<lparr>ix_vid := v\<rparr>, snd s)"
  "Advance (ixBehavior sz ord ub) s e = obind (MustParsePbWorkflowEvent ub (ev_pb e)) (ixAdvanceBoth s (ev_id e))"
  "Tell (ixBehavior sz ord ub) g s c = ixTell sz ord (\<lambda>_. Ok (snd s)) g (fst s) c"
  by (simp_all add: ixBehavior_def)

abbreviation ix_moves where
  "ix_moves sz ord ub P \<equiv> moves ub ixEventType (ixBehavior sz ord ub) ixAdvanceBoth P ixPhase ix_step"

lemma ixEventType_simps [simp]:
  "ixEventType WT_SNAPSHOT_BEGIN" "ixEventType WT_SNAPSHOT_END" "ixEventType WT_WORKFLOW_INDEX_SNAPSHOT_STATE"
  "ixEventType WT_FSO_DU_ROOT_STARTED" "ixEventType WT_FSO_DU_ROOT_COMPLETED" "ixEventType WT_FSO_DU_ROOT_DELETED"
  "ixEventType WT_FSO_PING_REGISTRY_STARTED" "ixEventType WT_FSO_PING_REGISTRY_COMPLETED"
  "ixEventType WT_FSO_PING_REGISTRY_DELETED" "ixEventType WT_FSO_SPLIT_ROOT_STARTED"
  "ixEventType WT_FSO_SPLIT_ROOT_COMPLETED" "ixEventType WT_FSO_SPLIT_ROOT_DELETED"
  "ixEventType WT_FSO_FREEZE_REPO_STARTED_2" "ixEventType WT_FSO_FREEZE_REPO_COMPLETED_2"
  "ixEventType WT_FSO_FREEZE_REPO_DELETED" "ixEventType WT_FSO_UNFREEZE_REPO_STARTED_2"
  "ixEventType WT_FSO_UNFREEZE_REPO_COMPLETED_2" "ixEventType WT_FSO_UNFREEZE_REPO_DELETED"
  "ixEventType WT_FSO_ARCHIVE_REPO_STARTED" "ixEventType WT_FSO_ARCHIVE_REPO_COMPLETED"
  "ixEventType WT_FSO_ARCHIVE_REPO_DELETED" "ixEventType WT_FSO_UNARCHIVE_REPO_STARTED"
  "ixEventType WT_FSO_UNARCHIVE_REPO_COMPLETED" "ixEventType WT_FSO_UNARCHIVE_REPO_DELETED"
  by (simp_all add: ixEventType_def)

lemma ix_inv_vid [simp]: "ix_inv ((fst s)\<lparr>ix_vid := v\<rparr>, snd s) = ix_inv s"
  by (simp add: ix_inv_def)

lemma ix_moves_Cons:
  assumes "ParsePbWorkflowEvent ub p = Ok ev" "ixEventType (wp_Event p)" "wf_pb_ok p"
    and "\<And>v. \<exists>s'. ixAdvanceBoth s v ev = Ok s' \<and> Q s' \<and> ixPhase s' = Suc (ixPhase s)"
    and "\<And>v s'. Q s' \<Longrightarrow> ix_moves sz ord ub P ((fst s')\<lparr>ix_vid := v\<rparr>, snd s') ps"
  shows "ix_moves sz ord ub P s (p # ps)"
  using assms by (fastforce simp: ix_step_simps)

lemma goes_moves:
  assumes "ParsePbWorkflowEvent ub p = Ok ev" "ixEventType (wp_Event p)" "wf_pb_ok p" "\<And>v. goes s v ev"
  shows "ix_moves sz ord ub ix_inv s [p]"
  using assms by (fastforce simp: goes_def ix_step_simps)

text \<open>After a snapshot, the state has the workflows of the view and the view has its entries.\<close>

definition restored :: "IndexView \<Rightarrow> IndexState \<times> IndexView \<Rightarrow> bool" where
  "restored iv s \<longleftrightarrow> ix_activeWorkflows (fst s) = {i. \<exists>k. ivStat iv k i = Some False} \<and>
     ix_completedWorkflows (fst s) = {i. \<exists>k. ivStat iv k i = Some True} \<and>
     (\<exists>v. snd s = iv\<lparr>iv_vid := v\<rparr>) \<and> ix_nEventsSinceSnapshot (fst s) = 0"

lemma restored_inv: "ix_inv s \<Longrightarrow> restored (snd s) s' \<Longrightarrow> ix_inv s'"
  unfolding restored_def ix_inv_def consistent_def by (elim conjE exE) simp

text \<open>The state while the kinds \<open>K\<close> of a view have been read.\<close>

definition restoring :: "ix_kind set \<Rightarrow> IndexView \<Rightarrow> IndexState \<times> IndexView \<Rightarrow> bool" where
  "restoring K iv s \<longleftrightarrow> ix_activeWorkflows (fst s) = {i. \<exists>k \<in> K. ivStat iv k i = Some False} \<and>
     ix_completedWorkflows (fst s) = {i. \<exists>k \<in> K. ivStat iv k i = Some True} \<and>
     (\<exists>v. snd s = (ivKeep K iv)\<lparr>iv_vid := v\<rparr>)"

lemma restoring_vid [simp]: "restoring K iv ((fst s)\<lparr>ix_vid := v\<rparr>, snd s) = restoring K iv s"
  by (simp add: restoring_def)

lemma restoring_empty: "ixKindEmpty iv k \<Longrightarrow> restoring K iv s \<Longrightarrow> restoring (insert k K) iv s"
  by (simp add: restoring_def ivKeep_empty ixKindEmpty_stat)

lemma restoring_kind:
  assumes "ivKeyed iv" "order_ok ord" "k \<notin> K" "restoring K iv s"
  shows "\<exists>s'. ixAdvanceBoth s v (WvWorkflowIndexSnapshotState (ixKindState ord iv k)) = Ok s' \<and>
    restoring (insert k K) iv s' \<and> ixPhase s' = Suc (ixPhase s)"
proof -
  obtain u where u: "snd s = (ivKeep K iv)\<lparr>iv_vid := u\<rparr>" using assms(4) by (auto simp: restoring_def)
  have "ixAdvanceBoth s v (WvWorkflowIndexSnapshotState (ixKindState ord iv k)) =
    Ok (ixMarkAll (ixKindState ord iv k) (ixCount (fst s)), (ivKeep (insert k K) iv)\<lparr>iv_vid := v\<rparr>)"
    by (simp add: ixAdvanceBoth_def ixAdvanceEv_def ivLoadEvent_def u ivPutAll_vid ivPutAll_kind [OF assms(1-3)])
  then show ?thesis
    using assms(4) by (auto simp: restoring_def ixMarkAll_kind [OF assms(1,2)])
qed

lemma kinds_move:
  assumes "ulid_binary ub" "ivKeyed iv" "order_ok ord"
    and "mapOutcome (ixKindEvents sz ord iv) ks = (Ok evss :: (ix_error, _) outcome)"
    and "distinct ks" "set ks \<inter> K = {}" "set ks \<union> K = UNIV" "restoring K iv s"
  shows "ix_moves sz ord ub (restored iv) s (concat evss @ [wfNewPbSnapshotEnd])"
  using assms(4-8)
proof (induction ks arbitrary: K s evss)
  case Nil
  then show ?case
    by (auto simp: ixAdvanceBoth_def ixAdvanceEv_def ivLoadEvent_def restored_def restoring_def ivKeep_ends Let_def
      ix_step_simps)
next
  case (Cons k ks)
  obtain e es where e: "ixKindEvents sz ord iv k = (Ok e :: (ix_error, _) outcome)"
    "mapOutcome (ixKindEvents sz ord iv) ks = (Ok es :: (ix_error, _) outcome)" "evss = e # es"
    using Cons.prems(1) by (auto simp: outcome_simps)
  have IH: "ix_moves sz ord ub (restored iv) s' (concat es @ [wfNewPbSnapshotEnd])" if "restoring (insert k K) iv s'" for s'
    by (rule Cons.IH [OF e(2) _ _ _ that]) (use Cons.prems(2-4) in auto)
  show ?case
  proof (cases "ixKindEmpty iv k")
    case True
    then show ?thesis using e IH [OF restoring_empty [OF True Cons.prems(5)]] by (simp add: ixKindEvents_def)
  next
    case False
    then have evss: "concat evss @ [wfNewPbSnapshotEnd] =
        wfNewPbWorkflowIndexSnapshotState (ixKindState ord iv k) # concat es @ [wfNewPbSnapshotEnd]"
      using e(1,3) by (auto simp: ixKindEvents_def Let_def split: if_split_asm)
    have k: "k \<notin> K" using Cons.prems(3) by auto
    show ?thesis unfolding evss
      by (rule ix_moves_Cons [OF parse_WorkflowIndexSnapshotState [OF assms(1)] _ _
        restoring_kind [OF assms(2,3) k Cons.prems(5)]]) (simp_all add: IH)
  qed
qed

lemma ivReset_vid: "ivResetState (w\<lparr>iv_vid := v\<rparr>) = (ivResetState iv)\<lparr>iv_vid := v\<rparr>"
  by (cases w; cases iv) (simp add: ivResetState_def)

lemma snapshot_moves:
  assumes "ulid_binary ub" "ivKeyed iv" "order_ok ord" and "ixSnapshot sz ord iv = (Ok pbs :: (ix_error, _) outcome)"
  shows "ix_moves sz ord ub (restored iv) s pbs"
proof -
  obtain evss where e: "mapOutcome (ixKindEvents sz ord iv) indexKinds = (Ok evss :: (ix_error, _) outcome)"
    and pbs: "pbs = wfNewPbSnapshotBegin # concat evss @ [wfNewPbSnapshotEnd]"
    using assms(4) by (auto simp: ixSnapshot_def outcome_simps)
  have all: "distinct indexKinds" "set indexKinds = UNIV"
    using ix_kind.exhaust by (auto simp: indexKinds_def)
  have start: "\<exists>s'. ixAdvanceBoth s v WvSnapshotBegin = Ok s' \<and> restoring {} iv s' \<and> ixPhase s' = Suc (ixPhase s)" for v
    using ivReset_vid [of v "snd s" iv]
    by (auto simp: ixAdvanceBoth_def ixAdvanceEv_def ivLoadEvent_def restoring_def ivKeep_ends Let_def ix_count_simps(1))
  have "ix_moves sz ord ub (restored iv) s' (concat evss @ [wfNewPbSnapshotEnd])" if "restoring {} iv s'" for s'
    by (rule kinds_move [OF assms(1-3) e all(1) _ _ that]) (simp_all add: all(2))
  then show ?thesis unfolding pbs by (intro ix_moves_Cons [OF parse_SnapshotBegin _ _ start]) simp_all
qed

section \<open>Telling commands\<close>

lemma ixEmit_Ok [outcome_simps]:
  "ixEmit g vid pbs = Ok evs \<longleftrightarrow> wfNewEvents g vid pbs = Inr evs" "\<not> is_Panic (ixEmit g vid pbs)"
  by (auto simp: ixEmit_def split: sum.splits)

lemma ixEmit_emits [simp]: "wf_emits g vid (ixEmit g vid pbs)"
  by (auto simp: wf_emits_def ixEmit_def split: sum.splits)

lemmas ixTell_defs =

  ixTellBeginDuRoot_def ixTellCommitDuRoot_def ixTellDeleteDuRoot_def
  ixTellBeginPingRegistry_def ixTellCommitPingRegistry_def ixTellDeletePingRegistry_def
  ixTellBeginSplitRoot_def ixTellCommitSplitRoot_def ixTellDeleteSplitRoot_def
  ixTellBeginFreezeRepo_def ixTellCommitFreezeRepo_def ixTellDeleteFreezeRepo_def
  ixTellBeginUnfreezeRepo_def ixTellCommitUnfreezeRepo_def ixTellDeleteUnfreezeRepo_def
  ixTellBeginArchiveRepo_def ixTellCommitArchiveRepo_def ixTellDeleteArchiveRepo_def
  ixTellBeginUnarchiveRepo_def ixTellCommitUnarchiveRepo_def ixTellDeleteUnarchiveRepo_def

text \<open>What an accepted command does, in terms of the messages that it emits.\<close>

definition told_moves ::
  "(WorkflowPb \<Rightarrow> nat) \<Rightarrow> map_order \<Rightarrow> ulid_unmarshal \<Rightarrow> ulid_source \<Rightarrow> IndexState \<times> IndexView \<Rightarrow> WorkflowPb Event list \<Rightarrow> bool" where
  "told_moves sz ord ub g s evs \<longleftrightarrow>
     (\<exists>pbs. wfNewEvents g (ix_vid (fst s)) pbs = Inr evs \<and> ix_moves sz ord ub ix_inv s pbs)"

lemma told_nothing: "ix_inv s \<Longrightarrow> told_moves sz ord ub g s []"
  unfolding told_moves_def by (intro exI [of _ "[]"]) simp

lemma begin_moves:
  assumes "ix_inv s" "ixTellBegin g (fst s) i p = Ok evs"
    and "\<And>pb. p = Ok pb \<Longrightarrow> i \<notin> ix_activeWorkflows (fst s) \<Longrightarrow> ix_moves sz ord ub ix_inv s [pb]"
  shows "told_moves sz ord ub g s evs"
  using assms told_nothing [OF assms(1)]
  by (auto simp: ixTellBegin_def isActiveWorkflow_def outcome_simps told_moves_def split: if_split_asm)

lemma commit_moves:
  assumes "ix_inv s" "ixTellCommit g (fst s) i pb = Ok evs"
    and "i \<in> ix_activeWorkflows (fst s) \<Longrightarrow> ix_moves sz ord ub ix_inv s [pb]"
  shows "told_moves sz ord ub g s evs"
  using assms told_nothing [OF assms(1)]
  by (auto simp: ixTellCommit_def isActiveWorkflow_def outcome_simps told_moves_def split: if_split_asm)

lemma delete_moves:
  assumes "ixTellDelete g (fst s) i pb = Ok evs"
    and "i \<in> ix_completedWorkflows (fst s) \<Longrightarrow> ix_moves sz ord ub ix_inv s [pb]"
  shows "told_moves sz ord ub g s evs"
  using assms
  by (auto simp: ixTellDelete_def isCompletedWorkflow_def outcome_simps told_moves_def split: if_split_asm)

lemma snapshot_told:
  assumes "ulid_binary ub" "order_ok ord" "ix_inv s" "ixTellSnapshot sz ord (\<lambda>_. Ok (snd s)) g (fst s) b = Ok evs"
  shows "told_moves sz ord ub g s evs"
proof (cases "evs = []")
  case False
  then obtain pbs where pbs: "ixSnapshot sz ord (snd s) = (Ok pbs :: (ix_error, _) outcome)"
      "wfNewEvents g (ix_vid (fst s)) pbs = Inr evs"
    using assms(4) by (auto simp: ixTellSnapshot_def Let_def outcome_simps split: if_split_asm)
  have iv: "ivKeyed (snd s)" using assms(3) by (simp add: ix_inv_def)
  have "ix_moves sz ord ub ix_inv t ps" if "ix_moves sz ord ub (restored (snd s)) t ps" for t ps
    using that restored_inv [OF assms(3)] by (induction ps arbitrary: t) (simp, fastforce)
  then show ?thesis
    using snapshot_moves [OF assms(1) iv assms(2) pbs(1), of s] pbs(2) unfolding told_moves_def by blast
qed (simp add: told_nothing [OF assms(3)])

lemma parsed_moves:
  assumes "ParsePbWorkflowEvent ub p = Ok ev \<and> wp_Event p = t \<and> wf_pb_ok p" "ixEventType t" "\<And>v. goes s v ev"
  shows "ix_moves sz ord ub ix_inv s [p]"
  using assms by (intro goes_moves) auto

lemmas pre_simps = ix_pre_def begin_ok_def commit_ok_def delete_ok_def isActiveWorkflow_def isCompletedWorkflow_def

lemma ixTell_moves:
  assumes ub: "ulid_binary ub" and ord: "order_ok ord" and good: "ix_inv s" "ix_pre sz ord s c"
    and tell: "ixTell sz ord (\<lambda>_. Ok (snd s)) g (fst s) c = Ok evs"
  shows "told_moves sz ord ub g s evs"
proof (cases c)
  case (IxBeginDuRoot i v globalRoot host hostRoot)
  show ?thesis
    by (rule begin_moves [OF good(1) tell [unfolded IxBeginDuRoot ixTell.simps ixTellBeginDuRoot_def]], drule parse_DuRootStartedIndex [OF ub], erule parsed_moves, simp,
      rule started_goes(1) [OF good(1)]) (use IxBeginDuRoot good(2) in \<open>simp_all add: pre_simps\<close>)
next
  case (IxCommitDuRoot i v)
  show ?thesis
    by (rule commit_moves [OF good(1) tell [unfolded IxCommitDuRoot ixTell.simps ixTellCommitDuRoot_def]], intro goes_moves [OF parse_DuRootCompletedIdRef [OF ub]]
      completed_goes(1) [OF good(1), of i v]) (use IxCommitDuRoot good(2) in \<open>simp_all add: pre_simps\<close>)
next
  case (IxDeleteDuRoot i)
  show ?thesis
    by (rule delete_moves [OF tell [unfolded IxDeleteDuRoot ixTell.simps ixTellDeleteDuRoot_def]], intro goes_moves [OF parse_DuRootDeleted] deleted_goes(1) [OF good(1)])
      (use IxDeleteDuRoot good(2) in \<open>simp_all add: pre_simps\<close>)
next
  case (IxBeginPingRegistry i v)
  show ?thesis
    by (rule begin_moves [OF good(1) tell [unfolded IxBeginPingRegistry ixTell.simps ixTellBeginPingRegistry_def]], drule parse_PingRegistryStartedIndex [OF ub], erule parsed_moves, simp,
      rule started_goes(2) [OF good(1)]) (use IxBeginPingRegistry good(2) in \<open>simp_all add: pre_simps\<close>)
next
  case (IxCommitPingRegistry i v)
  show ?thesis
    by (rule commit_moves [OF good(1) tell [unfolded IxCommitPingRegistry ixTell.simps ixTellCommitPingRegistry_def]], intro goes_moves [OF parse_PingRegistryCompletedIdRef [OF ub]]
      completed_goes(2) [OF good(1), of i v]) (use IxCommitPingRegistry good(2) in \<open>simp_all add: pre_simps\<close>)
next
  case (IxDeletePingRegistry i)
  show ?thesis
    by (rule delete_moves [OF tell [unfolded IxDeletePingRegistry ixTell.simps ixTellDeletePingRegistry_def]], intro goes_moves [OF parse_PingRegistryDeleted] deleted_goes(2) [OF good(1)])
      (use IxDeletePingRegistry good(2) in \<open>simp_all add: pre_simps\<close>)
next
  case (IxBeginSplitRoot i v globalRoot host hostRoot)
  show ?thesis
    by (rule begin_moves [OF good(1) tell [unfolded IxBeginSplitRoot ixTell.simps ixTellBeginSplitRoot_def]], drule parse_SplitRootStartedIndex [OF ub], erule parsed_moves, simp,
      rule started_goes(3) [OF good(1)]) (use IxBeginSplitRoot good(2) in \<open>simp_all add: pre_simps\<close>)
next
  case (IxCommitSplitRoot i v)
  show ?thesis
    by (rule commit_moves [OF good(1) tell [unfolded IxCommitSplitRoot ixTell.simps ixTellCommitSplitRoot_def]], intro goes_moves [OF parse_SplitRootCompletedIdRef [OF ub]]
      completed_goes(3) [OF good(1), of i v]) (use IxCommitSplitRoot good(2) in \<open>simp_all add: pre_simps\<close>)
next
  case (IxDeleteSplitRoot i)
  show ?thesis
    by (rule delete_moves [OF tell [unfolded IxDeleteSplitRoot ixTell.simps ixTellDeleteSplitRoot_def]], intro goes_moves [OF parse_SplitRootDeleted] deleted_goes(3) [OF good(1)])
      (use IxDeleteSplitRoot good(2) in \<open>simp_all add: pre_simps\<close>)
next
  case (IxBeginFreezeRepo i v globalPath)
  show ?thesis
    by (rule begin_moves [OF good(1) tell [unfolded IxBeginFreezeRepo ixTell.simps ixTellBeginFreezeRepo_def]], drule parse_FreezeRepoStarted2Index [OF ub], erule parsed_moves, simp,
      rule started_goes(4) [OF good(1)]) (use IxBeginFreezeRepo good(2) in \<open>simp_all add: pre_simps\<close>)
next
  case (IxCommitFreezeRepo i v)
  show ?thesis
    by (rule commit_moves [OF good(1) tell [unfolded IxCommitFreezeRepo ixTell.simps ixTellCommitFreezeRepo_def]], intro goes_moves [OF parse_FreezeRepoCompleted2IdRef [OF ub]]
      completed_goes(4) [OF good(1), of i v]) (use IxCommitFreezeRepo good(2) in \<open>simp_all add: pre_simps\<close>)
next
  case (IxDeleteFreezeRepo i)
  show ?thesis
    by (rule delete_moves [OF tell [unfolded IxDeleteFreezeRepo ixTell.simps ixTellDeleteFreezeRepo_def]], intro goes_moves [OF parse_FreezeRepoDeleted] deleted_goes(4) [OF good(1)])
      (use IxDeleteFreezeRepo good(2) in \<open>simp_all add: pre_simps\<close>)
next
  case (IxBeginUnfreezeRepo i v globalPath)
  show ?thesis
    by (rule begin_moves [OF good(1) tell [unfolded IxBeginUnfreezeRepo ixTell.simps ixTellBeginUnfreezeRepo_def]], drule parse_UnfreezeRepoStarted2Index [OF ub], erule parsed_moves, simp,
      rule started_goes(5) [OF good(1)]) (use IxBeginUnfreezeRepo good(2) in \<open>simp_all add: pre_simps\<close>)
next
  case (IxCommitUnfreezeRepo i v)
  show ?thesis
    by (rule commit_moves [OF good(1) tell [unfolded IxCommitUnfreezeRepo ixTell.simps ixTellCommitUnfreezeRepo_def]], intro goes_moves [OF parse_UnfreezeRepoCompleted2IdRef [OF ub]]
      completed_goes(5) [OF good(1), of i v]) (use IxCommitUnfreezeRepo good(2) in \<open>simp_all add: pre_simps\<close>)
next
  case (IxDeleteUnfreezeRepo i)
  show ?thesis
    by (rule delete_moves [OF tell [unfolded IxDeleteUnfreezeRepo ixTell.simps ixTellDeleteUnfreezeRepo_def]], intro goes_moves [OF parse_UnfreezeRepoDeleted] deleted_goes(5) [OF good(1)])
      (use IxDeleteUnfreezeRepo good(2) in \<open>simp_all add: pre_simps\<close>)
next
  case (IxBeginArchiveRepo i v globalPath)
  show ?thesis
    by (rule begin_moves [OF good(1) tell [unfolded IxBeginArchiveRepo ixTell.simps ixTellBeginArchiveRepo_def]], drule parse_ArchiveRepoStartedIndex [OF ub], erule parsed_moves, simp,
      rule started_goes(6) [OF good(1)]) (use IxBeginArchiveRepo good(2) in \<open>simp_all add: pre_simps\<close>)
next
  case (IxCommitArchiveRepo i v)
  show ?thesis
    by (rule commit_moves [OF good(1) tell [unfolded IxCommitArchiveRepo ixTell.simps ixTellCommitArchiveRepo_def]], intro goes_moves [OF parse_ArchiveRepoCompletedIdRef [OF ub]]
      completed_goes(6) [OF good(1), of i v]) (use IxCommitArchiveRepo good(2) in \<open>simp_all add: pre_simps\<close>)
next
  case (IxDeleteArchiveRepo i)
  show ?thesis
    by (rule delete_moves [OF tell [unfolded IxDeleteArchiveRepo ixTell.simps ixTellDeleteArchiveRepo_def]], intro goes_moves [OF parse_ArchiveRepoDeleted] deleted_goes(6) [OF good(1)])
      (use IxDeleteArchiveRepo good(2) in \<open>simp_all add: pre_simps\<close>)
next
  case (IxBeginUnarchiveRepo i v globalPath)
  show ?thesis
    by (rule begin_moves [OF good(1) tell [unfolded IxBeginUnarchiveRepo ixTell.simps ixTellBeginUnarchiveRepo_def]], drule parse_UnarchiveRepoStartedIndex [OF ub], erule parsed_moves, simp,
      rule started_goes(7) [OF good(1)]) (use IxBeginUnarchiveRepo good(2) in \<open>simp_all add: pre_simps\<close>)
next
  case (IxCommitUnarchiveRepo i v)
  show ?thesis
    by (rule commit_moves [OF good(1) tell [unfolded IxCommitUnarchiveRepo ixTell.simps ixTellCommitUnarchiveRepo_def]], intro goes_moves [OF parse_UnarchiveRepoCompletedIdRef [OF ub]]
      completed_goes(7) [OF good(1), of i v]) (use IxCommitUnarchiveRepo good(2) in \<open>simp_all add: pre_simps\<close>)
next
  case (IxDeleteUnarchiveRepo i)
  show ?thesis
    by (rule delete_moves [OF tell [unfolded IxDeleteUnarchiveRepo ixTell.simps ixTellDeleteUnarchiveRepo_def]], intro goes_moves [OF parse_UnarchiveRepoDeleted] deleted_goes(7) [OF good(1)])
      (use IxDeleteUnarchiveRepo good(2) in \<open>simp_all add: pre_simps\<close>)
next
  case (IxCmdSnapshot b)
  then show ?thesis using snapshot_told [OF ub ord good(1)] tell by simp
qed (use tell in simp)

end
