(* ===== verification/Event_Trim.thy ===== *)
theory Event_Trim
  imports Event_Engine
begin

text \<open>
  Trimming of histories (\<open>backend/internal/events/trim.go\<close>): the epoch of a history, from which it is read, moves forward to
  an event that the policy of the aggregate type accepts, and its tail follows later.  The loops over all histories of
  \<open>Trim()\<close> and its log messages are left out.
\<close>

section \<open>Policies\<close>

text \<open>
  \<open>IsNewEpoch epoch first now\<close> is asked for an event and its successor, if there is one; \<open>IsNewTail\<close> for an epoch and
  the time at which it was set.  Times are numbers of seconds.
\<close>

record 'ev TrimPolicy =
  IsNewEpoch :: "'ev \<Rightarrow> 'ev option \<Rightarrow> int \<Rightarrow> bool"
  IsNewTail :: "ulid \<Rightarrow> int \<Rightarrow> int \<Rightarrow> bool"

definition ConfigTrimInterval :: int where "ConfigTrimInterval = 30 * 24 * 3600"

definition isNextTrimInterval :: "int \<Rightarrow> EpochTime list \<Rightarrow> int \<Rightarrow> bool" where
  "isNextTrimInterval now epochLog trimInterval \<longleftrightarrow>
     epochLog = [] \<or> et_Time (last epochLog) < now - trimInterval"

section \<open>Epochs\<close>

text \<open>
  The loop over the events: the result is the id of the last event that may be the new epoch, and the number of events up
  to it.
\<close>

fun epochLoop ::
  "('ev \<Rightarrow> 'ev option \<Rightarrow> bool) \<Rightarrow> 'ev EventOps \<Rightarrow> 'ev \<Rightarrow> 'ev list \<Rightarrow> nat \<Rightarrow> ulid \<times> nat \<Rightarrow> ulid \<times> nat" where
  "epochLoop new ops epoch [] i r = (if new epoch None then (EvId ops epoch, i) else r)"
| "epochLoop new ops epoch (first # evs) i r =
     epochLoop new ops first evs (i + 1) (if new epoch (Some first) then (EvId ops epoch, i) else r)"

definition newEpoch :: "('ev \<Rightarrow> 'ev option \<Rightarrow> bool) \<Rightarrow> 'ev EventOps \<Rightarrow> 'ev list \<Rightarrow> ulid \<times> nat" where
  "newEpoch new ops evs = (case evs of [] \<Rightarrow> (ulidNil, 0) | epoch # rest \<Rightarrow> epochLoop new ops epoch rest 1 (ulidNil, 0))"

text \<open>The events that an iterator yields, and the iterator that is left.\<close>

function drain :: "'ev EventOps \<Rightarrow> Iter \<Rightarrow> (EventsError, 'ev list \<times> Iter) outcome" where
  "drain ops it =
     (case iterNext ops it of
        Panic p \<Rightarrow> Panic p
      | Err e \<Rightarrow> Err e
      | Ok (None, it') \<Rightarrow> Ok ([], it')
      | Ok (Some ev, it') \<Rightarrow> omap (\<lambda>(evs, it2). (ev # evs, it2)) (drain ops it'))"
  by pat_completeness auto
termination by (relation "measure (\<lambda>(ops, it). iterLeft it)") (auto simp: iterNext_left)

declare drain.simps [simp del]

text \<open>
  \<open>advanceOneEpoch()\<close> reads the history and then updates the reference, unless an epoch that was set has changed in
  between; \<open>now\<close> and \<open>now2\<close> are the times before and after.
\<close>

definition advanceOneEpoch ::
  "'db Mongo \<Rightarrow> decode_parent \<Rightarrow> ulid_unmarshal \<Rightarrow> 'ev EventOps \<Rightarrow> 'ev TrimPolicy \<Rightarrow> int \<Rightarrow> int \<Rightarrow> uuid \<Rightarrow> ulid \<Rightarrow>
   ('db, EventsError, nat) dbm" where
  "advanceOneEpoch m dp ub ops pol now now2 i oldEpoch =
     dbind (journalFind m dp ub i EventEpoch) (\<lambda>it.
       case drain ops it of
         Panic p \<Rightarrow> ret (Panic p)
       | Err e \<Rightarrow> ret (Err e)
       | Ok (evs, it') \<Rightarrow>
           (case iterClose it' of
              Some e \<Rightarrow> ret (Err e)
            | None \<Rightarrow>
                let (epoch, nEvents) = newEpoch (\<lambda>ev first. IsNewEpoch pol ev first now) ops evs
                in if epoch = ulidNil then ret (Ok 0)
                   else if epoch = oldEpoch then ret (Panic ''new epoch equals old epoch'')
                   else call (RefsUpdate m i (\<lambda>r. oldEpoch \<noteq> ulidNil \<longrightarrow> rf_Epoch r = oldEpoch)
                       (\<lambda>_ r. r\<lparr>rf_Epoch := epoch, rf_EpochLog := rf_EpochLog r @ [\<lparr>et_Epoch = epoch, et_Time = now2\<rparr>]\<rparr>))
                     (\<lambda>q. case q of
                        Inl e \<Rightarrow> ret (Err (DBError OpUpdateHead e))
                      | Inr _ \<Rightarrow> ret (Ok nEvents))))"

section \<open>Tails\<close>

fun tailLoop :: "(ulid \<Rightarrow> int \<Rightarrow> bool) \<Rightarrow> ulid \<Rightarrow> bool \<Rightarrow> EpochTime list \<Rightarrow> ulid \<Rightarrow> ulid" where
  "tailLoop new oldTail foundOld [] newTail = newTail"
| "tailLoop new oldTail foundOld (t # ts) newTail =
     (if \<not> foundOld then tailLoop new oldTail (et_Epoch t = oldTail) ts newTail
      else tailLoop new oldTail foundOld ts (if new (et_Epoch t) (et_Time t) then et_Epoch t else newTail))"

definition newTail :: "(ulid \<Rightarrow> int \<Rightarrow> bool) \<Rightarrow> ulid \<Rightarrow> EpochTime list \<Rightarrow> ulid" where
  "newTail new oldTail epochs = tailLoop new oldTail (oldTail = ulidNil) epochs ulidNil"

definition advanceOneTail ::
  "'db Mongo \<Rightarrow> 'ev TrimPolicy \<Rightarrow> int \<Rightarrow> uuid \<Rightarrow> ulid \<Rightarrow> EpochTime list \<Rightarrow> ('db, EventsError, bool) dbm" where
  "advanceOneTail m pol now i oldTail epochs =
     (let t = newTail (\<lambda>e time. IsNewTail pol e time now) oldTail epochs
      in if t = ulidNil then ret (Ok False)
         else call (RefsUpdate m i (\<lambda>r. oldTail \<noteq> ulidNil \<longrightarrow> rf_Tail r = oldTail) (\<lambda>_ r. r\<lparr>rf_Tail := t\<rparr>))
           (\<lambda>q. case q of
              Inl e \<Rightarrow> ret (Err (DBError OpUpdateHead e))
            | Inr _ \<Rightarrow> ret (Ok True)))"

section \<open>What the loops choose\<close>

text \<open>
  The new epoch is the last event that the policy accepts, together with its successor.
\<close>

definition epoch_at :: "('ev \<Rightarrow> 'ev option \<Rightarrow> bool) \<Rightarrow> 'ev list \<Rightarrow> nat \<Rightarrow> bool" where
  "epoch_at new evs k \<longleftrightarrow> k < length evs \<and> new (evs ! k) (if Suc k < length evs then Some (evs ! Suc k) else None)"

lemma epoch_at_Cons:
  "epoch_at new (e # evs) 0 \<longleftrightarrow> new e (case evs of [] \<Rightarrow> None | x # _ \<Rightarrow> Some x)"
  "epoch_at new (e # evs) (Suc k) \<longleftrightarrow> epoch_at new evs k"
  by (auto simp: epoch_at_def split: list.splits)

lemma epochLoop_cases:
  assumes "epochLoop new ops e evs i r = (e', n)"
  obtains "\<And>k. \<not> epoch_at new (e # evs) k" "r = (e', n)"
  | k where "epoch_at new (e # evs) k" "\<And>k'. epoch_at new (e # evs) k' \<Longrightarrow> k' \<le> k"
      "e' = EvId ops ((e # evs) ! k)" "n = i + k"
  using assms
proof (induction evs arbitrary: e i r thesis)
  case Nil
  have at: "epoch_at new [e] k \<longleftrightarrow> k = 0 \<and> new e None" for k
    by (auto simp: epoch_at_def)
  show ?case
  proof (cases "new e None")
    case True
    show ?thesis by (rule Nil(2) [of 0]) (use Nil(3) True at in auto)
  qed (use Nil(1,3) at in simp)
next
  case (Cons x evs)
  define r1 where "r1 = (if new e (Some x) then (EvId ops e, i) else r)"
  have loop: "epochLoop new ops x evs (i + 1) r1 = (e', n)" using Cons.prems(3) by (simp add: r1_def)
  show ?case
  proof (rule Cons.IH [OF _ _ loop])
    assume none: "\<And>k. \<not> epoch_at new (x # evs) k" and r1: "r1 = (e', n)"
    have only: "k = 0" if "epoch_at new (e # x # evs) k" for k
      using that none epoch_at_Cons(2) [of new e "x # evs"] by (cases k) auto
    show thesis
    proof (cases "new e (Some x)")
      case True
      show thesis by (rule Cons.prems(2) [of 0]) (use True only r1 in \<open>auto simp: r1_def epoch_at_Cons(1)\<close>)
    next
      case False
      have "\<not> epoch_at new (e # x # evs) k" for k using only [of k] False by (auto simp: epoch_at_Cons(1))
      then show thesis using Cons.prems(1) False r1 by (simp add: r1_def)
    qed
  next
    fix k
    assume k: "epoch_at new (x # evs) k" "\<And>k'. epoch_at new (x # evs) k' \<Longrightarrow> k' \<le> k"
      "e' = EvId ops ((x # evs) ! k)" "n = i + 1 + k"
    have "k' \<le> Suc k" if "epoch_at new (e # x # evs) k'" for k'
      using that k(2) epoch_at_Cons(2) [of new e "x # evs"] by (cases k') auto
    then show thesis using Cons.prems(2) [of "Suc k"] k epoch_at_Cons(2) [of new e "x # evs"] by simp
  qed
qed

lemma newEpoch_cases:
  assumes "newEpoch new ops evs = (e, n)"
  obtains "\<And>k. \<not> epoch_at new evs k" "e = ulidNil" "n = 0"
  | k where "epoch_at new evs k" "\<And>k'. epoch_at new evs k' \<Longrightarrow> k' \<le> k" "e = EvId ops (evs ! k)" "n = Suc k"
proof (cases evs)
  case Nil
  then show thesis using assms that(1) by (simp add: newEpoch_def epoch_at_def)
next
  case (Cons x xs)
  then have "epochLoop new ops x xs 1 (ulidNil, 0) = (e, n)" using assms by (simp add: newEpoch_def)
  then show thesis
    by (rule epochLoop_cases) (use that Cons in simp_all)
qed

text \<open>
  The new tail is an entry of the epoch log that the policy accepts; it comes after the old tail.
\<close>

lemma tailLoop_found:
  "tailLoop new oldTail True ts t = t' \<Longrightarrow> t' \<noteq> t \<Longrightarrow> \<exists>x \<in> set ts. et_Epoch x = t' \<and> new t' (et_Time x)"
  by (induction ts arbitrary: t) (fastforce split: if_splits)+

lemma tailLoop_search:
  "tailLoop new oldTail False ts t = t' \<Longrightarrow> t' \<noteq> t \<Longrightarrow>
     \<exists>us x vs y. ts = us @ x # vs \<and> et_Epoch x = oldTail \<and> y \<in> set vs \<and> et_Epoch y = t' \<and> new t' (et_Time y)"
proof (induction ts)
  case (Cons a ts)
  show ?case
  proof (cases "et_Epoch a = oldTail")
    case True
    then obtain y where "y \<in> set ts" "et_Epoch y = t'" "new t' (et_Time y)"
      using Cons.prems tailLoop_found [of new oldTail ts t t'] by auto
    then show ?thesis using True by (intro exI [of _ "[]"] exI [of _ a] exI [of _ ts] exI [of _ y]) simp
  next
    case False
    then obtain us x vs y where "ts = us @ x # vs" "et_Epoch x = oldTail" "y \<in> set vs" "et_Epoch y = t'" "new t' (et_Time y)"
      using Cons by auto
    then show ?thesis by (intro exI [of _ "a # us"] exI [of _ x] exI [of _ vs] exI [of _ y]) simp
  qed
qed simp

lemma newTail_found:
  assumes "newTail new oldTail epochs = t" "t \<noteq> ulidNil"
  shows "\<exists>us vs y. epochs = us @ vs \<and> (oldTail \<noteq> ulidNil \<longrightarrow> us \<noteq> [] \<and> et_Epoch (last us) = oldTail) \<and>
    y \<in> set vs \<and> et_Epoch y = t \<and> new t (et_Time y)"
proof (cases "oldTail = ulidNil")
  case True
  then show ?thesis
    using assms tailLoop_found [of new oldTail epochs ulidNil t] by (intro exI [of _ "[]"] exI [of _ epochs]) (auto simp: newTail_def)
next
  case False
  then obtain us x vs y where "epochs = us @ x # vs" "et_Epoch x = oldTail" "y \<in> set vs" "et_Epoch y = t" "new t (et_Time y)"
    using assms tailLoop_search [of new oldTail epochs ulidNil t] by (auto simp: newTail_def)
  then show ?thesis by (intro exI [of _ "us @ [x]"] exI [of _ vs] exI [of _ y]) simp
qed

end
