(* ===== verification/Workflow_Index_Props.thy ===== *)
theory Workflow_Index_Props
  imports Workflow_Index_Inv Event_Trim Workflow_Service
begin

text \<open>
  The workflow index satisfies the contract of a workflow package and of the engine; its view, its snapshots and the
  trimming of its history (\<open>backend/internal/workflows/wfindexes/trim.go\<close>).
\<close>

section \<open>The contract holds\<close>

lemma mapOutcome_no_panic: "(\<And>x. x \<in> set xs \<Longrightarrow> \<not> is_Panic (f x)) \<Longrightarrow> \<not> is_Panic (mapOutcome f xs)"
  by (induction xs) (auto simp: is_Panic_obind)

lemma ixSnapshot_no_panic:
  assumes "\<forall>k. sz (wfNewPbWorkflowIndexSnapshotState (ixKindState ord iv k)) \<le> ConfigMaxProtoSize"
  shows "\<not> is_Panic (ixSnapshot sz ord iv :: ('e, _) outcome)"
  unfolding ixSnapshot_def is_Panic_omap
  by (rule mapOutcome_no_panic)
    (use assms [folded not_less] in \<open>simp add: ixKindEvents_def Let_def\<close>)

lemmas index_validate =
  wfNewPbDuRootStartedIndex_def validateIndexDuRootStarted_def validateCommonDuRootStarted_def
  wfNewPbPingRegistryStartedIndex_def validateIndexPingRegistryStarted_def
  wfNewPbSplitRootStartedIndex_def validateIndexSplitRootStarted_def validateCommonSplitRootStarted_def
  wfNewPbFreezeRepoStarted2Index_def validateIndexFreezeRepoStarted2_def
  wfNewPbUnfreezeRepoStarted2Index_def validateIndexUnfreezeRepoStarted2_def
  wfNewPbArchiveRepoStartedIndex_def validateIndexArchiveRepoStarted_def
  wfNewPbUnarchiveRepoStartedIndex_def validateIndexUnarchiveRepoStarted_def firstError_None orElse_None

lemma ixTell_no_panic:
  assumes "ix_pre sz ord s c"
  shows "\<not> is_Panic (ixTell sz ord (\<lambda>_. Ok (snd s)) g (fst s) c)"
proof (cases c)
  case (IxCmdSnapshot b)
  then have "\<not> is_Panic (ixSnapshot sz ord (snd s) :: (ix_error, _) outcome)" using assms by (intro ixSnapshot_no_panic) (simp add: ix_pre_def)
  then show ?thesis using IxCmdSnapshot by (simp add: ixTellSnapshot_def Let_def outcome_simps)
qed ((use assms in \<open>simp add: ixTell_defs ixTellBegin_def ixTellCommit_def ixTellDelete_def ix_pre_def begin_ok_def
      outcome_simps index_validate\<close>)[1])+


lemma ixTell_emits: "wf_emits g (ix_vid st) (ixTell sz ord ld g st c)"
proof (cases c)
  case (IxCmdSnapshot b)
  have "wf_emits g v (obind x (ixEmit g v))" for x :: "(ix_error, WorkflowPb list) outcome" and v
    by (cases x) simp_all
  then have "wf_emits g v (obind y (\<lambda>iv. obind (h iv) (ixEmit g v)))"
    for y :: "(ix_error, IndexView) outcome" and h :: "IndexView \<Rightarrow> (ix_error, WorkflowPb list) outcome" and v
    by (cases y) simp_all
  then show ?thesis using IxCmdSnapshot by (simp add: ixTellSnapshot_def Let_def)
qed (simp_all add: ixTell_defs ixTellBegin_def ixTellCommit_def ixTellDelete_def index_validate(1,4,6,9,11,13,15))

lemma ixAdvanceEv_id: "ixAdvanceEv st x = Ok st' \<Longrightarrow> ix_id st' = ix_id st"
  by (cases x) (auto simp: ixAdvanceEv_def Let_def split: WfIndexEvent.splits WfDuEvent.splits WfPingEvent.splits
    WfSplitEvent.splits WfFreezeEvent.splits WfUnfreezeEvent.splits WfArchiveEvent.splits WfUnarchiveEvent.splits)

lemma ix_new [simp]: "ix_inv (ixNewState i, ivNew)" "ix_nEventsSinceSnapshot (ixNewState i) = 0" "ix_id (ixNewState i) = i"
  by (simp_all add: ix_inv_def ixNewState_def consistent_empty)

lemma ix_workflow_code:
  assumes "ulid_binary ub" "order_ok ord"
  shows "workflow_code ub ixEventType (ixBehavior sz ord ub) ixAdvanceBoth ix_inv (ix_pre sz ord) ixPhase 0 ix_step"
proof
  show "\<exists>pbs. wfNewEvents g (StVid (ixBehavior sz ord ub) s) pbs = Inr evs \<and> ix_moves sz ord ub ix_inv s pbs"
    if "ix_inv s" "ix_pre sz ord s c" "Tell (ixBehavior sz ord ub) g s c = Ok evs" for g s c evs
    using ixTell_moves [OF assms that(1,2)] that(3) by (simp add: told_moves_def)
  show "StId (ixBehavior sz ord ub) s' = StId (ixBehavior sz ord ub) s" if "ixAdvanceBoth s v x = Ok s'" for s v x s'
    using that by (auto simp: ixAdvanceBoth_def outcome_simps dest: ixAdvanceEv_id)
  show "\<not> is_Panic (Tell (ixBehavior sz ord ub) g s c)" if "ix_inv s" "ix_pre sz ord s c" for g s c
    using ixTell_no_panic [OF that(2)] by simp
qed (simp_all add: ixTell_emits)


text \<open>A map order that works: the keys in ascending order.\<close>

definition ascending :: map_order where "ascending k S = sorted_list_of_set S"

lemma ascending_ok [simp]: "order_ok ascending"
  by (simp add: order_ok_def ascending_def)

interpretation ix: workflow_code ulidUnmarshal ixEventType "GoErr ''invalid event type''" pm pu
  "ixBehavior sz ascending ulidUnmarshal" ixAdvanceBoth ix_inv "ix_pre sz ascending" ixPhase 0 ix_step for pm pu sz
  by (rule ix_workflow_code) simp_all

section \<open>Indexes\<close>

text \<open>
  The methods of \<open>Indexes\<close> forward to the engine; an index without events is not an error.  The errors are passed on as
  they are.
\<close>

definition ixFindId where
  "ixFindId r sz ord i = FindId (wk_mongo r) (wk_dp r) (wk_ub r) (ixBehavior sz ord (wk_ub r)) (wk_ops r ixEventType) i"

definition ixTellIdVid where
  "ixTellIdVid r sz ord gs i vid cmd =
     TellIdVid (wk_mongo r) (wk_dp r) (wk_ub r) (ixBehavior sz ord (wk_ub r)) (wk_ops r ixEventType) (\<lambda>_. False) gs i vid cmd"

definition ixBeginDuRoot where
  "ixBeginDuRoot r sz ord gs i vid wid wvid globalRoot host hostRoot = ixTellIdVid r sz ord gs i vid (IxBeginDuRoot wid wvid globalRoot host hostRoot)"

definition ixCommitDuRoot where
  "ixCommitDuRoot r sz ord gs i vid wid wvid = ixTellIdVid r sz ord gs i vid (IxCommitDuRoot wid wvid)"

definition ixDeleteDuRoot where
  "ixDeleteDuRoot r sz ord gs i vid wid = ixTellIdVid r sz ord gs i vid (IxDeleteDuRoot wid)"

definition ixBeginPingRegistry where
  "ixBeginPingRegistry r sz ord gs i vid wid wvid = ixTellIdVid r sz ord gs i vid (IxBeginPingRegistry wid wvid)"

definition ixCommitPingRegistry where
  "ixCommitPingRegistry r sz ord gs i vid wid wvid = ixTellIdVid r sz ord gs i vid (IxCommitPingRegistry wid wvid)"

definition ixDeletePingRegistry where
  "ixDeletePingRegistry r sz ord gs i vid wid = ixTellIdVid r sz ord gs i vid (IxDeletePingRegistry wid)"

definition ixBeginSplitRoot where
  "ixBeginSplitRoot r sz ord gs i vid wid wvid globalRoot host hostRoot = ixTellIdVid r sz ord gs i vid (IxBeginSplitRoot wid wvid globalRoot host hostRoot)"

definition ixCommitSplitRoot where
  "ixCommitSplitRoot r sz ord gs i vid wid wvid = ixTellIdVid r sz ord gs i vid (IxCommitSplitRoot wid wvid)"

definition ixDeleteSplitRoot where
  "ixDeleteSplitRoot r sz ord gs i vid wid = ixTellIdVid r sz ord gs i vid (IxDeleteSplitRoot wid)"

definition ixBeginFreezeRepo where
  "ixBeginFreezeRepo r sz ord gs i vid wid wvid globalPath = ixTellIdVid r sz ord gs i vid (IxBeginFreezeRepo wid wvid globalPath)"

definition ixCommitFreezeRepo where
  "ixCommitFreezeRepo r sz ord gs i vid wid wvid = ixTellIdVid r sz ord gs i vid (IxCommitFreezeRepo wid wvid)"

definition ixDeleteFreezeRepo where
  "ixDeleteFreezeRepo r sz ord gs i vid wid = ixTellIdVid r sz ord gs i vid (IxDeleteFreezeRepo wid)"

definition ixBeginUnfreezeRepo where
  "ixBeginUnfreezeRepo r sz ord gs i vid wid wvid globalPath = ixTellIdVid r sz ord gs i vid (IxBeginUnfreezeRepo wid wvid globalPath)"

definition ixCommitUnfreezeRepo where
  "ixCommitUnfreezeRepo r sz ord gs i vid wid wvid = ixTellIdVid r sz ord gs i vid (IxCommitUnfreezeRepo wid wvid)"

definition ixDeleteUnfreezeRepo where
  "ixDeleteUnfreezeRepo r sz ord gs i vid wid = ixTellIdVid r sz ord gs i vid (IxDeleteUnfreezeRepo wid)"

definition ixBeginArchiveRepo where
  "ixBeginArchiveRepo r sz ord gs i vid wid wvid globalPath = ixTellIdVid r sz ord gs i vid (IxBeginArchiveRepo wid wvid globalPath)"

definition ixCommitArchiveRepo where
  "ixCommitArchiveRepo r sz ord gs i vid wid wvid = ixTellIdVid r sz ord gs i vid (IxCommitArchiveRepo wid wvid)"

definition ixDeleteArchiveRepo where
  "ixDeleteArchiveRepo r sz ord gs i vid wid = ixTellIdVid r sz ord gs i vid (IxDeleteArchiveRepo wid)"

definition ixBeginUnarchiveRepo where
  "ixBeginUnarchiveRepo r sz ord gs i vid wid wvid globalPath = ixTellIdVid r sz ord gs i vid (IxBeginUnarchiveRepo wid wvid globalPath)"

definition ixCommitUnarchiveRepo where
  "ixCommitUnarchiveRepo r sz ord gs i vid wid wvid = ixTellIdVid r sz ord gs i vid (IxCommitUnarchiveRepo wid wvid)"

definition ixDeleteUnarchiveRepo where
  "ixDeleteUnarchiveRepo r sz ord gs i vid wid = ixTellIdVid r sz ord gs i vid (IxDeleteUnarchiveRepo wid)"

definition ixSnapshotCmd where
  "ixSnapshotCmd r sz ord gs i vid = ixTellIdVid r sz ord gs i vid (IxCmdSnapshot True)"

section \<open>Replay\<close>

text \<open>The state and the view that a list of events makes of a state and of a view.\<close>

fun ixReplay :: "ulid_unmarshal \<Rightarrow> IndexState \<Rightarrow> WorkflowPb Event list \<Rightarrow> (ix_error, IndexState) outcome" where
  "ixReplay ub st [] = Ok st"
| "ixReplay ub st (ev # evs) = obind (ixAdvance ub st ev) (\<lambda>st'. ixReplay ub (st'\<lparr>ix_vid := ev_id ev\<rparr>) evs)"

fun ivReplay :: "ulid_unmarshal \<Rightarrow> IndexView \<Rightarrow> WorkflowPb Event list \<Rightarrow> (ix_error, IndexView) outcome" where
  "ivReplay ub iv [] = Ok iv"
| "ivReplay ub iv (ev # evs) =
     obind (MustParsePbWorkflowEvent ub (ev_pb ev)) (\<lambda>x. obind (ivLoadEvent iv (ev_id ev) x) (\<lambda>iv'. ivReplay ub iv' evs))"

lemma advance_both:
  "advanceAll (ixBehavior sz ord ub) (wfEventOps ok err pm pu ub) s evs = Ok s' \<longleftrightarrow>
     ixReplay ub (fst s) evs = Ok (fst s') \<and> ivReplay ub (snd s) evs = Ok (snd s')"
proof (induction evs arbitrary: s)
  case Nil
  then show ?case by (cases s; cases s') simp
next
  case (Cons ev evs)
  show ?case
    by (cases "MustParsePbWorkflowEvent ub (ev_pb ev) :: (ix_error, WorkflowEvent) outcome")
      (auto simp: Cons.IH ixAdvance_def ixAdvanceBoth_def outcome_simps)
qed

lemma obind_assoc: "obind (obind x f) h = obind x (\<lambda>a. obind (f a) h)"
  by (cases x) simp_all

lemma omap_obind: "omap h (obind x f) = obind x (\<lambda>a. omap h (f a))"
  by (cases x) simp_all

lemma ivReplay_append: "ivReplay ub iv (xs @ ys) = obind (ivReplay ub iv xs) (\<lambda>iv'. ivReplay ub iv' ys)"
  by (induction xs arbitrary: iv) (simp_all add: obind_assoc)

abbreviation ix_live where
  "ix_live sz ord pm pu ub \<equiv> live (ixBehavior sz ord ub) (ixOps pm pu ub) (ix_pre sz ord)"

lemma ix_live_inv:
  assumes "ulid_binary ub" "order_ok ord" "ix_live sz ord pm pu ub i s hist"
  shows "ix_inv s"
  by (rule aggregate.live_inv [OF workflow.axioms(1) [OF workflow_code.is_workflow [OF ix_workflow_code [OF assms(1,2)]]] assms(3)])

lemma ix_live_replay:
  assumes "ulid_binary ub" "order_ok ord" "ix_live sz ord pm pu ub i s hist"
  shows "ixReplay ub (ixNewState i) hist = Ok (fst s)" "ivReplay ub ivNew hist = Ok (snd s)"
proof -
  have "(ixNewState i)\<lparr>ix_vid := 0\<rparr> = ixNewState i" by (simp add: ixNewState_def)
  then show "ixReplay ub (ixNewState i) hist = Ok (fst s)" "ivReplay ub ivNew hist = Ok (snd s)"
    using aggregate.live_replay [OF workflow.axioms(1) [OF workflow_code.is_workflow
        [OF ix_workflow_code [OF assms(1,2)]]] assms(3)] by (simp_all add: advance_both)
qed


section \<open>Properties\<close>

text \<open>An index with a completed ping and an active freeze, and its history.\<close>

lemma ix_demo_live:
  obtains s hist where "ix_live (\<lambda>_. 0) ascending pm pu ulidUnmarshal 1 s hist" "ix_activeWorkflows (fst s) = {8}"
    "ix_completedWorkflows (fst s) = {7}" "ixPhase s = 3" "ix_vid (fst s) = 5"
proof -
  let ?b = "ixBehavior (\<lambda>_. 0) ascending ulidUnmarshal" and ?s0 = "((ixNewState 1)\<lparr>ix_vid := 0\<rparr>, ivNew)"
  have ok: "firstError [] = None" "firstError ((False, m) # cs) = firstError cs" for m cs
    by (simp_all add: firstError.simps)
  obtain p1 where p1: "(wfNewPbPingRegistryStartedIndex \<lparr>ps_RegistryId = 0, ps_WorkflowId = 7, ps_WorkflowEventId = 3\<rparr>
      :: (ix_error, WorkflowPb) outcome) = Ok p1"
    by (simp add: index_validate(4,5) orPanic_def ok)
  obtain p3 where p3: "(wfNewPbFreezeRepoStarted2Index \<lparr>rs_RegistryId = 0, rs_RegistryName = [], rs_StartRegistryVid = 0,
      rs_RepoId = 0, rs_StartRepoVid = 0, rs_RepoGlobalPath = ''/g/a'', rs_AuthorName = [], rs_AuthorEmail = [],
      rs_WorkflowId = 8, rs_WorkflowEventId = 5\<rparr> :: (ix_error, WorkflowPb) outcome) = Ok p3"
    by (simp add: index_validate(9,10) orPanic_def ok)
  note parse = parse_PingRegistryStartedIndex [OF ulidUnmarshal_ok p1] parse_FreezeRepoStarted2Index [OF ulidUnmarshal_ok p3]
  have "\<exists>s hist. tells ?b (ixOps pm pu ulidUnmarshal) (ix_pre (\<lambda>_. 0) ascending) (\<lambda>_. Inr 5) ?s0 []
      [IxBeginPingRegistry 7 3, IxCommitPingRegistry 7 4, IxBeginFreezeRepo 8 5 ''/g/a''] = Some (s, hist) \<and>
      ix_activeWorkflows (fst s) = {8} \<and> ix_completedWorkflows (fst s) = {7} \<and> ixPhase s = 3 \<and> ix_vid (fst s) = 5"
    using p1 p3 parse
    by (simp add: ixNewState_def pre_simps ixTell_defs ixTellBegin_def ixTellCommit_def ixEmit_def wfNewEvents_def
      MustParsePbWorkflowEvent_def ixAdvanceBoth_def ixAdvanceEv_def ivLoadEvent_def ivNew_def ivComplete_def
      pingEntry_def pathEntry_def ixStart_def ixComplete_def ixCount_def)
  then obtain s hist where run: "tells ?b (ixOps pm pu ulidUnmarshal) (ix_pre (\<lambda>_. 0) ascending) (\<lambda>_. Inr 5) ?s0 []
      [IxBeginPingRegistry 7 3, IxCommitPingRegistry 7 4, IxBeginFreezeRepo 8 5 ''/g/a''] = Some (s, hist)"
    and s: "ix_activeWorkflows (fst s) = {8}" "ix_completedWorkflows (fst s) = {7}" "ixPhase s = 3" "ix_vid (fst s) = 5"
    by blast
  have "ix_live (\<lambda>_. 0) ascending pm pu ulidUnmarshal 1 ?s0 []"
    using live_new [of ?b "ixOps pm pu ulidUnmarshal" "ix_pre (\<lambda>_. 0) ascending" 1] by simp
  from that [OF tells_live [OF this run] s] show thesis .
qed


text \<open>
  C36: the state of a live index agrees with the view that is loaded from its history: both are replays of the history, the
  active workflows of the state are those that the view lists as not completed, the completed ones those that it
  lists as completed, and no id is listed for two kinds of workflows.
\<close>

theorem index_agrees:
  assumes "ulid_binary ub" and "order_ok ord"
    and "live (ixBehavior sz ord ub) (ixOps pm pu ub) (ix_pre sz ord) i s hist"
  shows "\<exists>iv. ixReplay ub (ixNewState i) hist = Ok (fst s) \<and> ivReplay ub ivNew hist = Ok iv \<and>
    ix_activeWorkflows (fst s) = {w. \<exists>k. ivStat iv k w = Some False} \<and>
    ix_completedWorkflows (fst s) = {w. \<exists>k. ivStat iv k w = Some True} \<and>
    (\<forall>w k k'. ivStat iv k w = None \<or> ivStat iv k' w = None \<or> k = k')"
proof -
  have c: "consistent (ix_activeWorkflows (fst s)) (ix_completedWorkflows (fst s)) (ivStat (snd s))"
    using ix_live_inv [OF assms] by (simp add: ix_inv_def)
  have "\<forall>w k k'. ivStat (snd s) k w = None \<or> ivStat (snd s) k' w = None \<or> k = k'"
    using c unfolding consistent_def by blast
  then show ?thesis using ix_live_replay [OF assms] c [unfolded consistent_def] by blast
qed

theorem index_agrees_witness:
  "\<exists>hist iv. ivReplay ulidUnmarshal ivNew hist = (Ok iv :: (ix_error, IndexView) outcome) \<and>
     {w. \<exists>k. ivStat iv k w = Some False} = {8} \<and> {w. \<exists>k. ivStat iv k w = Some True} = {7}"
proof (rule ix_demo_live)
  fix s hist
  assume l: "ix_live (\<lambda>_. 0) ascending (\<lambda>_. Inr []) (\<lambda>_. Inl (GoErr [])) ulidUnmarshal 1 s hist"
    and s: "ix_activeWorkflows (fst s) = {8}" "ix_completedWorkflows (fst s) = {7}"
  show ?thesis using index_agrees [OF ulidUnmarshal_ok ascending_ok l] unfolding s by (metis (no_types, lifting))
qed

text \<open>A snapshot of that index.\<close>

lemma ix_demo_snapshot:
  obtains s hist evs where "ix_live (\<lambda>_. 0) ascending pm pu ulidUnmarshal 1 s hist" "ix_activeWorkflows (fst s) = {8}"
    "ix_completedWorkflows (fst s) = {7}" "hist \<noteq> []"
    "ixTell (\<lambda>_. 0) ascending (\<lambda>_. ivReplay ulidUnmarshal ivNew hist) (\<lambda>_. Inr 6) (fst s) (IxCmdSnapshot False) = Ok evs"
    "evs \<noteq> []" "wp_Event (ev_pb (hd evs)) = WT_SNAPSHOT_BEGIN"
proof (rule ix_demo_live [of pm pu])
  fix s hist
  assume l: "ix_live (\<lambda>_. 0) ascending pm pu ulidUnmarshal 1 s hist"
    and s: "ix_activeWorkflows (fst s) = {8}" "ix_completedWorkflows (fst s) = {7}" "ixPhase s = 3"
  have iv: "ivReplay ulidUnmarshal ivNew hist = Ok (snd s)" by (rule ix_live_replay(2) [OF ulidUnmarshal_ok ascending_ok l])
  have "ixReplay ulidUnmarshal (ixNewState 1) hist = Ok (fst s)" by (rule ix_live_replay(1) [OF ulidUnmarshal_ok ascending_ok l])
  then have ne: "hist \<noteq> []" using s(1) by (metis ixReplay.simps(1) outcome.inject(1) ixNewState_def IndexState.select_convs(3) insert_not_empty)
  have "\<exists>ps. ixSnapshot (\<lambda>_. 0) ascending (snd s) = (Ok (wfNewPbSnapshotBegin # ps) :: (ix_error, _) outcome)"
    by (simp add: ixSnapshot_def indexKinds_def ixKindEvents_def Let_def)
  then obtain ps where pbs: "ixSnapshot (\<lambda>_. 0) ascending (snd s) = (Ok (wfNewPbSnapshotBegin # ps) :: (ix_error, _) outcome)" ..
  obtain evs where evs: "wfNewEvents (\<lambda>_. Inr 6) (ix_vid (fst s)) (wfNewPbSnapshotBegin # ps) = Inr evs"
    using newEventsLoop_Inr [of "\<lambda>_. Inr 6"] unfolding wfNewEvents_def by blast
  then have hd: "evs \<noteq> []" "wp_Event (ev_pb (hd evs)) = WT_SNAPSHOT_BEGIN"
    by (auto simp: wfNewEvents_def wfNewPbSnapshotBegin_def wfPb_def split: sum.splits)
  have "ixTell (\<lambda>_. 0) ascending (\<lambda>_. ivReplay ulidUnmarshal ivNew hist) (\<lambda>_. Inr 6) (fst s) (IxCmdSnapshot False) = Ok evs"
    by (simp add: ixTellSnapshot_def Let_def ConfigMaxSnapshotWorkflows_def ixEmit_def s iv pbs evs)
  from that [OF l s(1,2) ne this hd] show thesis .
qed

lemma ix_snapshot_restores:
  assumes "ulid_binary ub" and "order_ok ord"
    and "live (ixBehavior sz ord ub) (ixOps pm pu ub) (ix_pre sz ord) i s hist"
    and "ixTell sz ord (\<lambda>_. ivReplay ub ivNew hist) g (fst s) (IxCmdSnapshot b) = Ok evs" and "evs \<noteq> []"
  obtains s' v where "advanceAll (ixBehavior sz ord ub) (ixOps pm pu ub) (st0, iv0) evs = Ok s'"
    "ix_activeWorkflows (fst s') = ix_activeWorkflows (fst s)" "ix_completedWorkflows (fst s') = ix_completedWorkflows (fst s)"
    "ix_nEventsSinceSnapshot (fst s') = 0" "snd s' = (snd s)\<lparr>iv_vid := v\<rparr>"
proof -
  have good: "ix_inv s" by (rule ix_live_inv [OF assms(1-3)])
  then have iv: "ivKeyed (snd s)" by (simp add: ix_inv_def)
  obtain pbs where pbs: "ixSnapshot sz ord (snd s) = (Ok pbs :: (ix_error, _) outcome)"
      "wfNewEvents g (ix_vid (fst s)) pbs = Inr evs"
    using assms(4,5) ix_live_replay(2) [OF assms(1-3)]
    by (auto simp: ixTellSnapshot_def Let_def outcome_simps split: if_split_asm)
  have "\<exists>s'. advanceAll (ixBehavior sz ord ub) (ixOps pm pu ub) (st0, iv0) evs = Ok s' \<and>
      ix_moves sz ord ub (restored (snd s)) s' [] \<and>
      walk (ixBehavior sz ord ub) (ixOps pm pu ub) ixPhase ix_step (st0, iv0) evs"
    by (rule walk_newEvents [OF pbs(2), where P = "\<lambda>ps s'. ix_moves sz ord ub (restored (snd s)) s' ps",
          OF snapshot_moves [OF assms(1) iv assms(2) pbs(1)]])
      (fastforce simp: MustParsePbWorkflowEvent_def)+
  then obtain s' where s': "advanceAll (ixBehavior sz ord ub) (ixOps pm pu ub) (st0, iv0) evs = Ok s'" "restored (snd s) s'"
    by auto
  from this(2) show thesis
    using good that [OF s'(1)] unfolding restored_def ix_inv_def consistent_def by auto
qed

text \<open>
  C37: a snapshot is exact: the events of the snapshot, which is taken from the view of the index's history, make of any
  state and view whatsoever a state with the same active and completed workflows and a view with the same entries.
\<close>

theorem index_snapshot_exact:
  assumes "ulid_binary ub" and "order_ok ord"
    and "live (ixBehavior sz ord ub) (ixOps pm pu ub) (ix_pre sz ord) i s hist"
    and "ixTell sz ord (\<lambda>_. ivReplay ub ivNew hist) g (fst s) (IxCmdSnapshot b) = Ok evs" and "evs \<noteq> []"
  shows "\<exists>st iv v. ixReplay ub st0 evs = Ok st \<and> ivReplay ub iv0 evs = Ok iv \<and>
    ix_activeWorkflows st = ix_activeWorkflows (fst s) \<and> ix_completedWorkflows st = ix_completedWorkflows (fst s) \<and>
    ix_nEventsSinceSnapshot st = 0 \<and> iv = (snd s)\<lparr>iv_vid := v\<rparr>"
  by (rule ix_snapshot_restores [OF assms, of st0 iv0]) (auto simp: advance_both)

theorem index_snapshot_exact_witness:
  "\<exists>evs st iv. evs \<noteq> [] \<and> ixReplay ulidUnmarshal (ixNewState 1) evs = Ok st \<and>
     ivReplay ulidUnmarshal ivNew evs = (Ok iv :: (ix_error, IndexView) outcome) \<and>
     ix_activeWorkflows st = {8} \<and> ix_completedWorkflows st = {7}"
proof (rule ix_demo_snapshot)
  fix s hist evs
  assume l: "ix_live (\<lambda>_. 0) ascending (\<lambda>_. Inr []) (\<lambda>_. Inl (GoErr [])) ulidUnmarshal 1 s hist"
    and s: "ix_activeWorkflows (fst s) = {8}" "ix_completedWorkflows (fst s) = {7}" and ne: "evs \<noteq> []"
    and tell: "ixTell (\<lambda>_. 0) ascending (\<lambda>_. ivReplay ulidUnmarshal ivNew hist) (\<lambda>_. Inr 6) (fst s) (IxCmdSnapshot False) = Ok evs"
  from index_snapshot_exact [OF ulidUnmarshal_ok ascending_ok l tell ne, of "ixNewState 1" ivNew]
  show ?thesis using ne unfolding s by (metis (no_types, lifting))
qed

section \<open>Trimming\<close>

text \<open>The policy of the index's journal: every snapshot can become an epoch.\<close>

definition ConfigSinceEpochUpdate :: int where "ConfigSinceEpochUpdate = 30 * 24 * 3600"

definition ixTrimPolicy :: "WorkflowPb Event TrimPolicy" where
  "ixTrimPolicy = \<lparr>
     IsNewEpoch = (\<lambda>epoch first now. case first of None \<Rightarrow> False | Some ev \<Rightarrow> wp_Event (ev_pb ev) = WT_SNAPSHOT_BEGIN),
     IsNewTail = (\<lambda>eventId epochTime now. epochTime < now - ConfigSinceEpochUpdate)\<rparr>"

text \<open>What a replay makes of the two sets of a state does not depend on the rest of the state.\<close>

definition sameSets :: "IndexState \<Rightarrow> IndexState \<Rightarrow> bool" where
  "sameSets s t \<longleftrightarrow> ix_activeWorkflows s = ix_activeWorkflows t \<and> ix_completedWorkflows s = ix_completedWorkflows t"

lemma sameSets_ixMark: "sameSets s t \<Longrightarrow> sameSets (ixMark ws s) (ixMark ws t)"
  by (induction ws arbitrary: s t) (simp_all add: sameSets_def)

lemma sameSets_changes:
  assumes "sameSets s t"
  shows "sameSets (ixMarkAll x s) (ixMarkAll x t)" "sameSets (ixStart i s) (ixStart i t)"
    "sameSets (ixComplete i s) (ixComplete i t)" "sameSets (ixDelete i s) (ixDelete i t)" "sameSets (ixCount s) (ixCount t)"
    "sameSets (s\<lparr>ix_nEventsSinceSnapshot := n\<rparr>) (t\<lparr>ix_nEventsSinceSnapshot := n'\<rparr>)"
    "sameSets (s\<lparr>ix_vid := v\<rparr>) (t\<lparr>ix_vid := v'\<rparr>)"
  using assms by (simp_all add: ixMarkAll_def sameSets_ixMark)
    (simp_all add: sameSets_def ixStart_def ixComplete_def ixDelete_def ixCount_def)

lemma sameSets_advance:
  assumes "sameSets s t" "ixAdvanceEv s x = Ok s'"
  shows "\<exists>t'. ixAdvanceEv t x = Ok t' \<and> sameSets s' t'"
  using assms(2) sameSets_changes(1-4,6) [OF sameSets_changes(5) [OF assms(1)]]
  by (auto simp: ixAdvanceEv_def Let_def sameSets_def split: WorkflowEvent.splits WfIndexEvent.splits WfDuEvent.splits
    WfPingEvent.splits WfSplitEvent.splits WfFreezeEvent.splits WfUnfreezeEvent.splits WfArchiveEvent.splits
    WfUnarchiveEvent.splits)

lemma sameSets_replay:
  "sameSets s t \<Longrightarrow> ixReplay ub s evs = Ok s' \<Longrightarrow> \<exists>t'. ixReplay ub t evs = Ok t' \<and> sameSets s' t'"
proof (induction evs arbitrary: s t)
  case (Cons ev evs)
  then obtain x s1 where x: "MustParsePbWorkflowEvent ub (ev_pb ev) = (Ok x :: (ix_error, _) outcome)"
      "ixAdvanceEv s x = (Ok s1 :: (ix_error, _) outcome)" "ixReplay ub (s1\<lparr>ix_vid := ev_id ev\<rparr>) evs = Ok s'"
    by (auto simp: ixAdvance_def outcome_simps)
  obtain t1 where "ixAdvanceEv t x = (Ok t1 :: (ix_error, _) outcome)" "sameSets s1 t1"
    using sameSets_advance [OF Cons.prems(1) x(2)] by blast
  then show ?case
    using Cons.IH [OF sameSets_changes(7) x(3)] x(1) by (auto simp: ixAdvance_def)
qed auto

lemma ixReplay_append:
  "ixReplay ub st (xs @ ys) = obind (ixReplay ub st xs) (\<lambda>st'. ixReplay ub st' ys)"
  by (induction xs arbitrary: st) (simp_all add: obind_assoc)

lemma parse_begin:
  assumes "wp_Event p = WT_SNAPSHOT_BEGIN"
  shows "MustParsePbWorkflowEvent ub p = Ok WvSnapshotBegin"
  using assms by (simp add: MustParsePbWorkflowEvent_def ParsePbWorkflowEvent_def wfFromPbSnapshotBegin_def wfGuard_def)

text \<open>The first event of a snapshot makes the same of every state and of every view.\<close>

lemma replay_from_begin:
  assumes "wp_Event (ev_pb ev) = WT_SNAPSHOT_BEGIN"
    and "ixReplay ub st (ev # evs) = Ok st'" "ivReplay ub iv (ev # evs) = Ok iv'"
  shows "\<exists>st1. ixReplay ub st0 (ev # evs) = Ok st1 \<and> sameSets st1 st'" "ivReplay ub iv0 (ev # evs) = Ok iv'"
proof -
  have pb: "MustParsePbWorkflowEvent ub (ev_pb ev) = (Ok WvSnapshotBegin :: (ix_error, _) outcome)"
    by (rule parse_begin [OF assms(1)])
  define empty where "empty s = s\<lparr>ix_nEventsSinceSnapshot := ix_nEventsSinceSnapshot s + 1, ix_activeWorkflows := {},
    ix_completedWorkflows := {}, ix_vid := ev_id ev\<rparr>" for s :: IndexState
  have one: "ixReplay ub s (ev # evs) = ixReplay ub (empty s) evs" for s
    by (simp add: pb ixAdvance_def ixAdvanceEv_def Let_def ixCount_def empty_def)
  have "sameSets (empty st) (empty st0)" by (simp add: sameSets_def empty_def)
  then show "\<exists>st1. ixReplay ub st0 (ev # evs) = Ok st1 \<and> sameSets st1 st'"
    using assms(2) sameSets_replay unfolding one sameSets_def by metis
  show "ivReplay ub iv0 (ev # evs) = Ok iv'"
    using assms(3) pb by (cases iv; cases iv0) (simp add: ivLoadEvent_def ivResetState_def)
qed

text \<open>
  C38: trimming loses nothing: when the trimmer moves the epoch of an index's history, whether the history was trimmed
  before or not, to the event that the policy of the index's journal makes it choose, then there are events after the
  new epoch, the epoch is the parent of the first of them, and they alone make of any state and view the active and
  completed workflows of the state and the view of the whole history.
\<close>

theorem index_trim:
  assumes "ulid_binary ub" and "order_ok ord"
    and "live (ixBehavior sz ord ub) (ixOps pm pu ub) (ix_pre sz ord) i s hist"
    and "newEpoch (\<lambda>ev first. IsNewEpoch ixTrimPolicy ev first now) (ixOps pm pu ub) (drop m hist) = (e, n)" and "n \<noteq> 0"
  shows "m + n < length hist \<and> chained (ixOps pm pu ub) e (drop (m + n) hist) \<and>
    (\<exists>st. ixReplay ub st0 (drop (m + n) hist) = Ok st \<and> ivReplay ub iv0 (drop (m + n) hist) = Ok (snd s) \<and>
      ix_activeWorkflows st = ix_activeWorkflows (fst s) \<and> ix_completedWorkflows st = ix_completedWorkflows (fst s))"
proof -
  obtain k where k: "epoch_at (\<lambda>ev first. IsNewEpoch ixTrimPolicy ev first now) (drop m hist) k"
      "e = EvId (ixOps pm pu ub) (drop m hist ! k)" "n = Suc k"
    by (rule newEpoch_cases [OF assms(4)]) (use assms(5) in auto)
  then have len: "m + n < length hist" and ev: "wp_Event (ev_pb (hist ! (m + n))) = WT_SNAPSHOT_BEGIN"
    by (auto simp: epoch_at_def ixTrimPolicy_def split: if_splits)
  define xs where "xs = take (m + n) hist"
  obtain ys where ys: "drop (m + n) hist = hist ! (m + n) # ys" using len by (metis Cons_nth_drop_Suc)
  have split: "hist = xs @ hist ! (m + n) # ys" using append_take_drop_id [of "m + n" hist] unfolding ys xs_def by simp
  have xs: "xs \<noteq> []" "last xs = drop m hist ! k" using len k(3) by (auto simp: xs_def take_Suc_conv_app_nth)
  have "chained (ixOps pm pu ub) EventEpoch (xs @ hist ! (m + n) # ys)"
    using aggregate.live_chained [OF workflow.axioms(1) [OF workflow_code.is_workflow
      [OF ix_workflow_code [OF assms(1,2)]]] assms(3)] split by simp
  then have ch: "chained (ixOps pm pu ub) e (drop (m + n) hist)"
    using xs k(2) unfolding ys by (simp add: lastId_last)
  note live = ix_live_replay [OF assms(1-3)]
  obtain st1 where st1: "ixReplay ub st1 (hist ! (m + n) # ys) = Ok (fst s)"
    using live(1) unfolding arg_cong [OF split, of "ixReplay ub (ixNewState i)"] ixReplay_append by (auto simp only: outcome_simps)
  obtain iv1 where iv1: "ivReplay ub iv1 (hist ! (m + n) # ys) = Ok (snd s)"
    using live(2) unfolding arg_cong [OF split, of "ivReplay ub ivNew"] ivReplay_append by (auto simp only: outcome_simps)
  show ?thesis
    using replay_from_begin(1) [OF ev st1 iv1, of st0] replay_from_begin(2) [OF ev st1 iv1, of iv0] len ch
    unfolding ys sameSets_def by blast
qed

theorem index_trim_witness:
  "\<exists>hist e n st. n \<noteq> 0 \<and>
     newEpoch (\<lambda>ev first. IsNewEpoch ixTrimPolicy ev first 0) (ixOps (\<lambda>_. Inr []) (\<lambda>_. Inl (GoErr [])) ulidUnmarshal) hist = (e, n) \<and>
     ixReplay ulidUnmarshal (ixNewState 1) (drop n hist) = Ok st \<and>
     ix_activeWorkflows st = {8} \<and> ix_completedWorkflows st = {7}"
proof (rule ix_demo_snapshot)
  fix s hist evs
  let ?pm = "\<lambda>_. Inr []" and ?pu = "\<lambda>_. Inl (GoErr [])" and ?new = "\<lambda>ev first. IsNewEpoch ixTrimPolicy ev first 0"
  assume l: "ix_live (\<lambda>_. 0) ascending ?pm ?pu ulidUnmarshal 1 s hist"
    and s: "ix_activeWorkflows (fst s) = {8}" "ix_completedWorkflows (fst s) = {7}" and ne: "hist \<noteq> []" "evs \<noteq> []"
    and tell: "ixTell (\<lambda>_. 0) ascending (\<lambda>_. ivReplay ulidUnmarshal ivNew hist) (\<lambda>_. Inr 6) (fst s) (IxCmdSnapshot False) = Ok evs"
    and hd: "wp_Event (ev_pb (hd evs)) = WT_SNAPSHOT_BEGIN"
  obtain s' where exact: "advanceAll (ixBehavior (\<lambda>_. 0) ascending ulidUnmarshal) (ixOps ?pm ?pu ulidUnmarshal) s evs = Ok s'"
      "ix_activeWorkflows (fst s') = {8}" "ix_completedWorkflows (fst s') = {7}"
    by (rule ix_snapshot_restores [OF ulidUnmarshal_ok ascending_ok l tell ne(2), of "fst s" "snd s"]) (simp add: s)
  have l2: "ix_live (\<lambda>_. 0) ascending ?pm ?pu ulidUnmarshal 1 s' (hist @ evs)"
  proof (rule live_tell [OF l, of "IxCmdSnapshot False" "\<lambda>_. Inr 6"])
    show "ix_pre (\<lambda>_. 0) ascending s (IxCmdSnapshot False)" by (simp add: ix_pre_def)
    show "Tell (ixBehavior (\<lambda>_. 0) ascending ulidUnmarshal) (\<lambda>_. Inr 6) s (IxCmdSnapshot False) = Ok evs"
      using tell ix_live_replay(2) [OF ulidUnmarshal_ok ascending_ok l] by simp
  qed (rule exact(1))
  obtain e n where en: "newEpoch ?new (ixOps ?pm ?pu ulidUnmarshal) (hist @ evs) = (e, n)" by fastforce
  have "epoch_at ?new (hist @ evs) (length hist - 1)"
    using ne hd by (cases evs) (auto simp: epoch_at_def ixTrimPolicy_def nth_append)
  then have n: "n \<noteq> 0" using newEpoch_cases [OF en] by (metis nat.distinct(1))
  have "newEpoch ?new (ixOps ?pm ?pu ulidUnmarshal) (drop 0 (hist @ evs)) = (e, n)" using en by simp
  from index_trim [OF ulidUnmarshal_ok ascending_ok l2 this n, of "ixNewState 1" ivNew]
  show ?thesis using en n unfolding exact(2,3) by (metis add_0)
qed

section \<open>Loading the view\<close>

text \<open>
  On a database with stored events, the loop replays them.  Its iterator accepts events of all types, so that it also
  reads those that the index stores.
\<close>

definition stored_docs :: "'db Workflows \<Rightarrow> byte list list \<Rightarrow> WorkflowPb Event list \<Rightarrow> bool" where
  "stored_docs r bss evs \<longleftrightarrow>
     list_all2 (\<lambda>bs ev. wf_event_wf (\<lambda>_. True) (wk_ub r) ev \<and> MarshalProto (wk_ops r (\<lambda>_. True)) ev = Inr bs) bss evs"

lemma drain_stored:
  assumes "wk_codecs r" and "stored_docs r (map jd_Protobuf ds) evs" and "chained (wk_ops r (\<lambda>_. True)) p evs"
  shows "drain (ivOps (wk_pm r) (wk_pu r) (wk_ub r)) \<lparr>it_mongo = Some (ds, err), it_prev = p, it_err = None\<rparr> =
    Ok (evs, \<lparr>it_mongo = Some ([], err), it_prev = lastId (wk_ops r (\<lambda>_. True)) p evs, it_err = None\<rparr>)"
  using assms(2,3)
proof (induction evs arbitrary: ds p)
  case Nil
  then show ?case by (simp add: stored_docs_def drain.simps iterNext_def)
next
  case (Cons ev evs)
  obtain d ds' where ds: "ds = d # ds'" "stored_docs r (map jd_Protobuf ds') evs"
      "wf_event_wf (\<lambda>_. True) (wk_ub r) ev" "MarshalProto (wk_ops r (\<lambda>_. True)) ev = Inr (jd_Protobuf d)"
    using Cons.prems(1) by (cases ds) (auto simp: stored_docs_def)
  have u: "UnmarshalProto (wk_ops r (\<lambda>_. True)) (jd_Protobuf d) = Ok ev"
    by (rule event_codec.unmarshal_marshal [OF wf_event_codec [OF assms(1)] ds(3,4)])
  have "iterNext (wk_ops r (\<lambda>_. True)) \<lparr>it_mongo = Some (ds, err), it_prev = p, it_err = None\<rparr> =
      Ok (Some ev, \<lparr>it_mongo = Some (ds', err), it_prev = ev_id ev, it_err = None\<rparr>)"
    using ds(1) u Cons.prems(2) by (simp add: iterNext_def)
  then show ?case
    using Cons.IH [OF ds(2), of "ev_id ev"] Cons.prems(2) by (subst drain.simps) simp
qed

lemma loadLoop_drain:
  "drain ops it = Ok (evs, it') \<Longrightarrow> loadLoop ub ops iv it = omap (\<lambda>iv'. (iv', it')) (ivReplay ub iv evs)"
proof (induction evs arbitrary: it iv)
  case Nil
  then show ?case
    by (subst (asm) drain.simps, subst loadLoop.simps) (auto simp: outcome_simps split: outcome.splits option.splits)
next
  case (Cons ev evs)
  obtain it1 where it1: "iterNext ops it = Ok (Some ev, it1)" "drain ops it1 = Ok (evs, it')"
    using Cons.prems by (subst (asm) drain.simps) (auto simp: outcome_simps split: outcome.splits option.splits)
  show ?case using Cons.IH [OF it1(2)] by (subst loadLoop.simps) (simp add: it1(1) omap_obind)
qed

lemma ivReplay_take:
  assumes "ivReplay ub iv evs = Ok iv'"
  obtains iv1 where "ivReplay ub iv (take n evs) = Ok iv1"
  using assms ivReplay_append [of ub iv "take n evs" "drop n evs"] by (cases "ivReplay ub iv (take n evs)") auto

lemma chained_ids: "EvId ops = EvId ops' \<Longrightarrow> EvParent ops = EvParent ops' \<Longrightarrow> chained ops p evs \<longleftrightarrow> chained ops' p evs"
  by (induction evs arbitrary: p) simp_all

lemma chained_take: "chained ops p evs \<Longrightarrow> chained ops p (take n evs)"
  using chained_append [of ops p "take n evs" "drop n evs"] by simp

text \<open>The stored events of an index, in the form of the loop.\<close>

lemma stored_docs_of:
  assumes "wk_codecs r" "\<forall>ev \<in> set evs. wf_event_wf ixEventType (wk_ub r) ev \<and> stored (wk_ops r ixEventType) v ev"
  shows "stored_docs r (map (\<lambda>e. ed_Protobuf (the (mv_events v e))) (map ev_id evs)) evs"
  using assms(2)
  by (induction evs) (auto simp: stored_docs_def stored_def wfEventOps_def wf_event_wf_def)

text \<open>The errors of loading: a database operation failed.\<close>

fun isIxDBError :: "ix_error \<Rightarrow> bool" where
  "isIxDBError (IxJournalError e) = isDBError e"
| "isIxDBError _ = False"

text \<open>The events that the iterator yields, from what the scan of the journal yields.\<close>

lemma drain_scan:
  assumes c: "wk_codecs r" and wf: "\<forall>ev \<in> set evs. wf_event_wf ixEventType (wk_ub r) ev \<and> stored (wk_ops r ixEventType) v ev"
    and ch: "chained (wk_ops r ixEventType) EventEpoch evs"
    and it: "case it_err it of
       Some e \<Rightarrow> isDBError e
     | None \<Rightarrow> (case it_mongo it of
         None \<Rightarrow> map ev_id evs = []
       | Some (ds, err) \<Rightarrow> it_prev it = EventEpoch \<and>
           (\<exists>rest. map jd_Protobuf ds @ rest = map (\<lambda>e. ed_Protobuf (the (mv_events v e))) (map ev_id evs) \<and>
              (err = None \<longrightarrow> rest = [])))"
  obtains n it1 where "drain (ivOps (wk_pm r) (wk_pu r) (wk_ub r)) it = Ok (take n evs, it1)"
    "case iterClose it1 of Some e \<Rightarrow> isDBError e | None \<Rightarrow> take n evs = evs"
proof (cases "it_err it")
  case (Some e)
  then have "drain (ivOps (wk_pm r) (wk_pu r) (wk_ub r)) it = Ok (take 0 evs, it)"
    by (simp add: drain.simps iterNext_def)
  then show thesis by (rule that) (use Some it in \<open>auto simp: iterClose_def split: option.splits\<close>)
next
  case err: None
  show thesis
  proof (cases "it_mongo it")
    case None
    then have "drain (ivOps (wk_pm r) (wk_pu r) (wk_ub r)) it = Ok (take 0 evs, it)" "evs = []"
      using it err by (simp_all add: drain.simps iterNext_def)
    then show thesis using that [of 0] None err by (simp add: iterClose_def)
  next
    case (Some x)
    obtain ds e where x: "x = (ds, e)" by fastforce
    obtain rest where prev: "it_prev it = EventEpoch" and none: "e = None \<longrightarrow> rest = []"
      and ds: "map jd_Protobuf ds @ rest = map (\<lambda>e. ed_Protobuf (the (mv_events v e))) (map ev_id evs)"
      using it err Some x by auto
    define xs where "xs = take (length ds) evs"
    have "map jd_Protobuf ds = map (\<lambda>e. ed_Protobuf (the (mv_events v e))) (map ev_id xs)"
      using arg_cong [OF ds, of "take (length ds)"] by (simp add: xs_def take_map)
    moreover have "\<forall>ev \<in> set xs. wf_event_wf ixEventType (wk_ub r) ev \<and> stored (wk_ops r ixEventType) v ev"
      using wf by (auto simp: xs_def dest: in_set_takeD)
    ultimately have docs: "stored_docs r (map jd_Protobuf ds) xs" using stored_docs_of [OF c, of xs v] by simp
    have chx: "chained (wk_ops r (\<lambda>_. True)) EventEpoch xs"
      unfolding xs_def using chained_take [OF ch] chained_ids [of "wk_ops r (\<lambda>_. True)" "wk_ops r ixEventType"] by simp
    have eq: "it = \<lparr>it_mongo = Some (ds, e), it_prev = EventEpoch, it_err = None\<rparr>" using Some x err prev by (cases it) simp
    show thesis
    proof (rule that [OF drain_stored [OF c docs chx, of e, folded eq, unfolded xs_def]])
      have "length ds = length evs" if "e = None" using arg_cong [OF ds, of length] none that by simp
      then show "case iterClose \<lparr>it_mongo = Some ([], e),
            it_prev = lastId (wk_ops r (\<lambda>_. True)) EventEpoch (take (length ds) evs), it_err = None\<rparr> of
          Some e \<Rightarrow> isDBError e | None \<Rightarrow> take (length ds) evs = evs" by (cases e) (simp_all add: iterClose_def)
    qed
  qed
qed

text \<open>
  Reading the history of an index from a consistent journal: a live index whose history is what the journal held at one
  moment, and the events that are read are a prefix of it, or all if the iterator closes without an error.
\<close>

lemma index_read:
  assumes "wf_env r (ixBehavior sz ord) ixEventType (ix_pre sz ord) view rely H" and "order_ok ord" and "i \<in> H"
    and "jinv (wf_hist r (ixBehavior sz ord) ixEventType (ix_pre sz ord) H) (wk_par r) (view db)"
  obtains it db' v0 s hist n it1 where
    "journalFind (wk_mongo r) (wk_dp r) (wk_ub r) i EventEpoch db = Some (Ok it, db')"
    "evolves (wf_hist r (ixBehavior sz ord) ixEventType (ix_pre sz ord) H) (wk_par r) (view db) v0"
    "evolves (wf_hist r (ixBehavior sz ord) ixEventType (ix_pre sz ord) H) (wk_par r) v0 (view db')"
    "ix_live sz ord (wk_pm r) (wk_pu r) (wk_ub r) i s hist" "snapshot (wk_par r) v0 i (map ev_id hist)"
    "drain (ivOps (wk_pm r) (wk_pu r) (wk_ub r)) it = Ok (take n hist, it1)"
    "case iterClose it1 of Some e \<Rightarrow> isDBError e | None \<Rightarrow> take n hist = hist"
proof -
  let ?L = "wf_hist r (ixBehavior sz ord) ixEventType (ix_pre sz ord) H"
  have c: "wk_codecs r" and ub: "ulid_binary (wk_ub r)" using assms(1) by (simp_all add: wf_env_def wk_codecs_def)
  note eng = wf_engine [OF ix_workflow_code [OF ub assms(2)] assms(1)]
  note jdb = journal_codec.axioms(1) [OF engine.axioms(1) [OF eng], folded wf_hist_def]
  obtain it db' v0 xs where find: "journalFind (wk_mongo r) (wk_dp r) (wk_ub r) i EventEpoch db = Some (Ok it, db')"
    and ev: "evolves ?L (wk_par r) (view db) v0" "evolves ?L (wk_par r) v0 (view db')" and snap: "snapshot (wk_par r) v0 i xs"
    and it: "case it_err it of
       Some e \<Rightarrow> isDBError e
     | None \<Rightarrow> (case it_mongo it of
         None \<Rightarrow> xs = []
       | Some (ds, err) \<Rightarrow> it_prev it = EventEpoch \<and>
           (\<exists>rest. map jd_Protobuf ds @ rest = map (\<lambda>e. ed_Protobuf (the (mv_events (view db') e))) xs \<and>
              (err = None \<longrightarrow> rest = [])))"
    by (rule journal_db.Find_all_run [OF jdb assms(4)])
  obtain s hist where l: "ix_live sz ord (wk_pm r) (wk_pu r) (wk_ub r) i s hist" and xs: "map ev_id hist = xs"
    and wf: "\<forall>e \<in> set hist. wf_event_wf ixEventType (wk_ub r) e \<and> stored (wk_ops r ixEventType) v0 e"
  proof (cases "xs = []")
    case True
    show thesis by (rule that [OF live_new]) (simp_all add: True)
  next
    case False
    have "jinv (live_hist (ixBehavior sz ord (wk_ub r)) (wk_ops r ixEventType) (ix_pre sz ord)
        (wf_event_wf ixEventType (wk_ub r)) H) (wk_par r) v0"
      using evolves_jinv [OF ev(1) assms(4)] by (simp only: wf_hist_def)
    then show thesis
    proof (rule engine.snapshot_log [OF eng _ snap False assms(3)])
      fix s hist
      assume a: "ix_live sz ord (wk_pm r) (wk_pu r) (wk_ub r) i s hist" "map (EvId (wk_ops r ixEventType)) hist = xs"
        "\<forall>e \<in> set hist. wf_event_wf ixEventType (wk_ub r) e \<and> stored (wk_ops r ixEventType) v0 e"
      show thesis by (rule that [OF a(1) _ a(3)]) (use a(2) in simp)
    qed
  qed
  have wf': "\<forall>e \<in> set hist. wf_event_wf ixEventType (wk_ub r) e \<and> stored (wk_ops r ixEventType) (view db') e"
  proof
    fix e assume "e \<in> set hist"
    then have "wf_event_wf ixEventType (wk_ub r) e" "stored (wk_ops r ixEventType) v0 e" using wf by simp_all
    then show "wf_event_wf ixEventType (wk_ub r) e \<and> stored (wk_ops r ixEventType) (view db') e"
      using stored_evolves [OF _ ev(2)] by (intro conjI)
  qed
  have ch: "chained (wk_ops r ixEventType) EventEpoch hist"
    by (rule aggregate.live_chained [OF engine.axioms(2) [OF eng] l])
  show thesis
  proof (rule drain_scan [OF c wf' ch it [folded xs]])
    fix n it1
    assume "drain (ivOps (wk_pm r) (wk_pu r) (wk_ub r)) it = Ok (take n hist, it1)"
      "case iterClose it1 of Some e \<Rightarrow> isDBError e | None \<Rightarrow> take n hist = hist"
    then show thesis by (rule that [OF find ev l snap [folded xs]])
  qed
qed

lemma case_no_panic: "(case x of Panic _ \<Rightarrow> False | Err e \<Rightarrow> P e | Ok a \<Rightarrow> Q a) \<Longrightarrow> \<not> is_Panic x"
  by (cases x) simp_all

text \<open>
  C39: loading the view of an index from a consistent journal ends without a panic, while other processes use the
  index in between, and gives either an error of a database operation or the view of a live index whose history is
  what the journal held at one moment of the operation.
\<close>

theorem index_view_loads:
  assumes "wf_env r (ixBehavior sz ord) ixEventType (ix_pre sz ord) view rely H" and "order_ok ord" and "i \<in> H"
    and "jinv (wf_hist r (ixBehavior sz ord) ixEventType (ix_pre sz ord) H) (wk_par r) (view db)"
  shows "\<exists>res db'. loadIndexView (wk_mongo r) (wk_dp r) (wk_ub r) (ivOps (wk_pm r) (wk_pu r) (wk_ub r)) i db = Some (res, db') \<and>
    evolves (wf_hist r (ixBehavior sz ord) ixEventType (ix_pre sz ord) H) (wk_par r) (view db) (view db') \<and>
    (case res of
       Panic _ \<Rightarrow> False
     | Err e \<Rightarrow> isIxDBError e
     | Ok iv \<Rightarrow> \<exists>s hist v0.
         live (ixBehavior sz ord (wk_ub r)) (ixOps (wk_pm r) (wk_pu r) (wk_ub r)) (ix_pre sz ord) i s hist \<and> iv = snd s \<and>
         evolves (wf_hist r (ixBehavior sz ord) ixEventType (ix_pre sz ord) H) (wk_par r) (view db) v0 \<and>
         evolves (wf_hist r (ixBehavior sz ord) ixEventType (ix_pre sz ord) H) (wk_par r) v0 (view db') \<and>
         snapshot (wk_par r) v0 i (map ev_id hist))"
proof (rule index_read [OF assms])
  let ?L = "wf_hist r (ixBehavior sz ord) ixEventType (ix_pre sz ord) H"
  fix it db' v0 s hist n it1
  assume find: "journalFind (wk_mongo r) (wk_dp r) (wk_ub r) i EventEpoch db = Some (Ok it, db')"
    and ev: "evolves ?L (wk_par r) (view db) v0" "evolves ?L (wk_par r) v0 (view db')"
    and l: "ix_live sz ord (wk_pm r) (wk_pu r) (wk_ub r) i s hist" and snap: "snapshot (wk_par r) v0 i (map ev_id hist)"
    and drain: "drain (ivOps (wk_pm r) (wk_pu r) (wk_ub r)) it = Ok (take n hist, it1)"
    and close: "case iterClose it1 of Some e \<Rightarrow> isDBError e | None \<Rightarrow> take n hist = hist"
  have ub: "ulid_binary (wk_ub r)" using assms(1) by (simp add: wf_env_def wk_codecs_def)
  note iv = ix_live_replay(2) [OF ub assms(2) l] and evs = evolves_trans [OF ev]
  obtain iv1 where iv1: "ivReplay (wk_ub r) ivNew (take n hist) = Ok iv1" using ivReplay_take [OF iv] by blast
  have loop: "loadLoop (wk_ub r) (ivOps (wk_pm r) (wk_pu r) (wk_ub r)) ivNew it = Ok (iv1, it1)"
    using loadLoop_drain [OF drain] iv1 by simp
  show ?thesis
  proof (cases "iterClose it1")
    case None
    then have "iv1 = snd s" using close iv iv1 by simp
    then have run: "loadIndexView (wk_mongo r) (wk_dp r) (wk_ub r) (ivOps (wk_pm r) (wk_pu r) (wk_ub r)) i db = Some (Ok (snd s), db')"
      using loop find None by (simp add: loadIndexView_def)
    with evs show ?thesis
      by (intro exI [of _ "Ok (snd s)"] exI [of _ db'] conjI, simp_all only: outcome.case)
        (intro exI [of _ s] exI [of _ hist] exI [of _ v0] conjI l ev refl snap)
  next
    case (Some e)
    then show ?thesis using loop find evs close by (simp add: loadIndexView_def)
  qed
qed

theorem index_view_loads_witness:
  "\<exists>res db'. loadIndexView memMongo (wk_dp (wk_demo (wfPb WT_SNAPSHOT_BEGIN))) ulidUnmarshal
       (wk_ops (wk_demo (wfPb WT_SNAPSHOT_BEGIN)) (\<lambda>_. True)) 7 mem0 = Some (res, db') \<and> \<not> is_Panic res"
proof -
  let ?r = "wk_demo (wfPb WT_SNAPSHOT_BEGIN)" and ?b = "ixBehavior (\<lambda>_. 0) ascending" and ?p = "ix_pre (\<lambda>_. 0) ascending"
  have m: "wk_mongo ?r = memMongo" by (simp add: wk_demo_def)
  have "7 \<in> {7 :: uuid}" by simp
  from index_view_loads [OF wk_demo_env [of "wfPb WT_SNAPSHOT_BEGIN" ?b ixEventType ?p "{7}"] ascending_ok this mem0_inv]
  show ?thesis unfolding wk_demo_ub m by (elim exE conjE) (intro exI conjI, assumption, erule case_no_panic)
qed

section \<open>Without the obligations\<close>

text \<open>
  \<open>Tell()\<close> does not check the kind of a workflow: it accepts the commit of an active workflow of another kind, and the
  view cannot be loaded from the history then, so that snapshots and the garbage collection panic from then on.
\<close>

lemma index_commit_other_kind:
  assumes "ulid_binary ub" and "isActiveWorkflow st i" "i \<noteq> ix_lastCommitted st" "iv_duRoot iv i = None"
  shows "\<exists>evs. ixTell sz ord load (\<lambda>_. Inr n) st (IxCommitDuRoot i v) = Ok evs \<and> is_Panic (ivReplay ub iv evs)"
  using assms
  by (auto simp: ixTell_defs ixTellCommit_def ixEmit_def wfNewEvents_def ivLoadEvent_def ivComplete_def
    MustParsePbWorkflowEvent_def parse_DuRootCompletedIdRef)

end
