(* ===== verification/Workflow_Gc.thy ===== *)
theory Workflow_Gc
  imports Workflow_Index_Props
begin

text \<open>
  The garbage collection of the ephemeral workflows of registries (\<open>backend/internal/workflows/wfgc/wfgc.go\<close>): it loads a
  view of the workflow index, aborts the workflows that have been active for too long, deletes the ones that
  have been completed for long enough, and takes a snapshot of the index.
\<close>

section \<open>Configuration\<close>

text \<open>Times and durations are numbers of nanoseconds.\<close>

definition gcDay :: int where "gcDay = 24 * 3600 * 1000000000"
definition ConfigDuRootMaxActive :: int where "ConfigDuRootMaxActive = 1 * gcDay"
definition ConfigDuRootDeleteAfter :: int where "ConfigDuRootDeleteAfter = 5 * gcDay"
definition ConfigPingRegistryMaxActive :: int where "ConfigPingRegistryMaxActive = 1 * gcDay"
definition ConfigPingRegistryDeleteAfter :: int where "ConfigPingRegistryDeleteAfter = 5 * gcDay"
definition ConfigSplitRootMaxActive :: int where "ConfigSplitRootMaxActive = 5 * gcDay"
definition ConfigSplitRootDeleteAfter :: int where "ConfigSplitRootDeleteAfter = 30 * gcDay"

section \<open>The view of the index\<close>

record GcView =
  gv_vid :: ulid
  gv_duRootActive :: "uuid \<rightharpoonup> ulid"
  gv_duRootCompleted :: "uuid \<rightharpoonup> ulid"
  gv_pingRegistryActive :: "uuid \<rightharpoonup> ulid"
  gv_pingRegistryCompleted :: "uuid \<rightharpoonup> ulid"
  gv_splitRootActive :: "uuid \<rightharpoonup> ulid"
  gv_splitRootCompleted :: "uuid \<rightharpoonup> ulid"

definition gvResetState :: "GcView \<Rightarrow> GcView" where
  "gvResetState gv = gv\<lparr>gv_duRootActive := Map.empty, gv_duRootCompleted := Map.empty, gv_pingRegistryActive := Map.empty,
     gv_pingRegistryCompleted := Map.empty, gv_splitRootActive := Map.empty, gv_splitRootCompleted := Map.empty\<rparr>"

definition gvNew :: GcView where
  "gvNew = \<lparr>gv_vid = ulidNil, gv_duRootActive = Map.empty, gv_duRootCompleted = Map.empty, gv_pingRegistryActive = Map.empty,
     gv_pingRegistryCompleted = Map.empty, gv_splitRootActive = Map.empty, gv_splitRootCompleted = Map.empty\<rparr>"

text \<open>The loop over the entries of one kind: the maps of the active and of the completed workflows.\<close>

fun gvMark :: "'z IndexEntry_scheme list \<Rightarrow> (uuid \<rightharpoonup> ulid) \<times> (uuid \<rightharpoonup> ulid) \<Rightarrow> (uuid \<rightharpoonup> ulid) \<times> (uuid \<rightharpoonup> ulid)" where
  "gvMark [] (a, c) = (a, c)"
| "gvMark (w # ws) (a, c) =
     gvMark ws (if ie_Completed w = ulidNil then (a(ie_WorkflowId w \<mapsto> ie_Started w), c)
       else (a, c(ie_WorkflowId w \<mapsto> ie_Completed w)))"

definition gvMarkAll :: "IndexSnapshot \<Rightarrow> GcView \<Rightarrow> GcView" where
  "gvMarkAll x gv =
     (let (duA, duC) = gvMark (sn_DuRoot x) (gv_duRootActive gv, gv_duRootCompleted gv);
          (pgA, pgC) = gvMark (sn_PingRegistry x) (gv_pingRegistryActive gv, gv_pingRegistryCompleted gv);
          (spA, spC) = gvMark (sn_SplitRoot x) (gv_splitRootActive gv, gv_splitRootCompleted gv)
      in gv\<lparr>gv_duRootActive := duA, gv_duRootCompleted := duC, gv_pingRegistryActive := pgA,
        gv_pingRegistryCompleted := pgC, gv_splitRootActive := spA, gv_splitRootCompleted := spC\<rparr>)"

text \<open>\<open>loadWorkflowEvent()\<close> always returns a nil error.\<close>

definition gvLoadEvent :: "GcView \<Rightarrow> ulid \<Rightarrow> WorkflowEvent \<Rightarrow> GcView" where
  "gvLoadEvent gv0 vid ev =
     (let gv = gv0\<lparr>gv_vid := vid\<rparr> in
      case ev of
        WvSnapshotBegin \<Rightarrow> gvResetState gv
      | WvWorkflowIndexSnapshotState x \<Rightarrow> gvMarkAll x gv
      | WvDuRootStarted x \<Rightarrow>
          gv\<lparr>gv_duRootActive := (gv_duRootActive gv)(os_WorkflowId x \<mapsto> os_WorkflowEventId x)\<rparr>
      | WvDuRootCompleted x \<Rightarrow>
          gv\<lparr>gv_duRootActive := (gv_duRootActive gv)(wc_WorkflowId x := None),
            gv_duRootCompleted := (gv_duRootCompleted gv)(wc_WorkflowId x \<mapsto> wc_WorkflowEventId x)\<rparr>
      | WvDuRootDeleted i \<Rightarrow> gv\<lparr>gv_duRootCompleted := (gv_duRootCompleted gv)(i := None)\<rparr>
      | WvPingRegistryStarted x \<Rightarrow>
          gv\<lparr>gv_pingRegistryActive := (gv_pingRegistryActive gv)(ps_WorkflowId x \<mapsto> ps_WorkflowEventId x)\<rparr>
      | WvPingRegistryCompleted i v \<Rightarrow>
          gv\<lparr>gv_pingRegistryActive := (gv_pingRegistryActive gv)(i := None),
            gv_pingRegistryCompleted := (gv_pingRegistryCompleted gv)(i \<mapsto> v)\<rparr>
      | WvPingRegistryDeleted i \<Rightarrow> gv\<lparr>gv_pingRegistryCompleted := (gv_pingRegistryCompleted gv)(i := None)\<rparr>
      | WvSplitRootStarted x \<Rightarrow>
          gv\<lparr>gv_splitRootActive := (gv_splitRootActive gv)(os_WorkflowId x \<mapsto> os_WorkflowEventId x)\<rparr>
      | WvSplitRootCompleted x \<Rightarrow>
          gv\<lparr>gv_splitRootActive := (gv_splitRootActive gv)(wc_WorkflowId x := None),
            gv_splitRootCompleted := (gv_splitRootCompleted gv)(wc_WorkflowId x \<mapsto> wc_WorkflowEventId x)\<rparr>
      | WvSplitRootDeleted i \<Rightarrow> gv\<lparr>gv_splitRootCompleted := (gv_splitRootCompleted gv)(i := None)\<rparr>
      | _ \<Rightarrow> gv)"

function gcLoadLoop ::
  "ulid_unmarshal \<Rightarrow> WorkflowPb Event EventOps \<Rightarrow> GcView \<Rightarrow> Iter \<Rightarrow> (EventsError, GcView \<times> Iter) outcome" where
  "gcLoadLoop ub ops gv it =
     (case iterNext ops it of
        Panic p \<Rightarrow> Panic p
      | Err e \<Rightarrow> Err e
      | Ok (None, it') \<Rightarrow> Ok (gv, it')
      | Ok (Some ev, it') \<Rightarrow>
          obind (MustParsePbWorkflowEvent ub (ev_pb ev)) (\<lambda>x. gcLoadLoop ub ops (gvLoadEvent gv (ev_id ev) x) it'))"
  by pat_completeness auto
termination by (relation "measure (\<lambda>(ub, ops, gv, it). iterLeft it)") (auto simp: iterNext_left)

declare gcLoadLoop.simps [simp del]

definition gcLoadIndexView ::
  "'db Mongo \<Rightarrow> decode_parent \<Rightarrow> ulid_unmarshal \<Rightarrow> WorkflowPb Event EventOps \<Rightarrow> uuid \<Rightarrow> ('db, EventsError, GcView) dbm" where
  "gcLoadIndexView m dp ub ops idxId =
     dbind (journalFind m dp ub idxId EventEpoch) (\<lambda>it. ret
       (obind (gcLoadLoop ub ops gvNew it) (\<lambda>(gv, it').
          case iterClose it' of Some e \<Rightarrow> Err e | None \<Rightarrow> Ok gv)))"

section \<open>The collector\<close>

text \<open>
  The collector works on one database with the engines of the index and of the three kinds of workflows, each with its
  own cache.  The errors are those of the parts.
\<close>

record 'db GcWorld =
  gw_db :: 'db
  gw_index :: "uuid \<rightharpoonup> IndexState \<times> IndexView"
  gw_duRoot :: "uuid \<rightharpoonup> DuState"
  gw_pingRegistry :: "uuid \<rightharpoonup> PingState"
  gw_splitRoot :: "uuid \<rightharpoonup> SplitState"
  gw_posts :: "uuid list"

datatype (plugins only: code) gc_error =
    GcJournalError EventsError
  | GcIndexError "ix_error EngineError"
  | GcWorkflowError wf_api_error

definition onJournal :: "('db, EventsError, 'a) dbm \<Rightarrow> ('db GcWorld, gc_error, 'a) dbm" where
  "onJournal f = (\<lambda>w. map_option (\<lambda>(q, db). (map_err GcJournalError q, w\<lparr>gw_db := db\<rparr>)) (f (gw_db w)))"

definition onIndex :: "(('db, IndexState \<times> IndexView) eng, ix_error EngineError, 'a) dbm \<Rightarrow> ('db GcWorld, gc_error, 'a) dbm" where
  "onIndex f = (\<lambda>w. map_option
     (\<lambda>(q, db, c, ps). (map_err GcIndexError q, w\<lparr>gw_db := db, gw_index := c, gw_posts := ps\<rparr>)) (f (gw_db w, gw_index w, gw_posts w)))"

definition onDuRoot :: "(('db, DuState) eng, wf_api_error, 'a) dbm \<Rightarrow> ('db GcWorld, gc_error, 'a) dbm" where
  "onDuRoot f = (\<lambda>w. map_option
     (\<lambda>(q, db, c, ps). (map_err GcWorkflowError q, w\<lparr>gw_db := db, gw_duRoot := c, gw_posts := ps\<rparr>)) (f (gw_db w, gw_duRoot w, gw_posts w)))"

definition onPingRegistry :: "(('db, PingState) eng, wf_api_error, 'a) dbm \<Rightarrow> ('db GcWorld, gc_error, 'a) dbm" where
  "onPingRegistry f = (\<lambda>w. map_option
     (\<lambda>(q, db, c, ps). (map_err GcWorkflowError q, w\<lparr>gw_db := db, gw_pingRegistry := c, gw_posts := ps\<rparr>)) (f (gw_db w, gw_pingRegistry w, gw_posts w)))"

definition onSplitRoot :: "(('db, SplitState) eng, wf_api_error, 'a) dbm \<Rightarrow> ('db GcWorld, gc_error, 'a) dbm" where
  "onSplitRoot f = (\<lambda>w. map_option
     (\<lambda>(q, db, c, ps). (map_err GcWorkflowError q, w\<lparr>gw_db := db, gw_splitRoot := c, gw_posts := ps\<rparr>)) (f (gw_db w, gw_splitRoot w, gw_posts w)))"

text \<open>
  The parameters: the parts of the engines, the source of ids of each call, the time of an id, the orders in which Go
  iterates over maps, and the ids of the indexes of the registries, which \<open>names.UUID()\<close> derives.
\<close>

datatype (plugins only: code) gc_call = GcAbort | GcCommit | GcEnd | GcDelete | GcUnlist | GcSnapshot

record 'db GcConfig =
  gc_r :: "'db Workflows"
  gc_sz :: "WorkflowPb \<Rightarrow> nat"
  gc_ord :: map_order
  gc_ids :: "gc_call \<Rightarrow> uuid \<Rightarrow> nat \<Rightarrow> ulid_source \<times> ulid_source"
  gc_msOf :: "ulid \<Rightarrow> nat"
  gc_idxOf :: "string \<Rightarrow> uuid"
  gc_iter :: "ix_kind \<Rightarrow> bool \<Rightarrow> uuid set \<Rightarrow> uuid list"

text \<open>The loop over a map of workflows: those that are older than \<open>cutoff\<close> are handled, and counted.\<close>

fun gcLoop :: "(ulid \<Rightarrow> nat) \<Rightarrow> int \<Rightarrow> (uuid \<rightharpoonup> ulid) \<Rightarrow> (uuid \<Rightarrow> ('w, gc_error, unit) dbm) \<Rightarrow> uuid list \<Rightarrow> nat \<Rightarrow>
    ('w, gc_error, nat) dbm" where
  "gcLoop msOf cutoff m f [] n = ret (Ok n)"
| "gcLoop msOf cutoff m f (i # is) n =
     (if ulidTime msOf (the (m i)) < cutoff then dbind (f i) (\<lambda>_. gcLoop msOf cutoff m f is (n + 1))
      else gcLoop msOf cutoff m f is n)"

definition expireDuRoot :: "'db GcConfig \<Rightarrow> uuid \<Rightarrow> uuid \<Rightarrow> ('db GcWorld, gc_error, unit) dbm" where
  "expireDuRoot gc idxId wfId =
     dbind (onDuRoot (duAbortExpired (gc_r gc) (gc_ids gc GcAbort wfId) wfId RetryNoVC)) (\<lambda>wfVid.
     dbind (onIndex (ixCommitDuRoot (gc_r gc) (gc_sz gc) (gc_ord gc) (gc_ids gc GcCommit wfId) idxId RetryNoVC wfId wfVid)) (\<lambda>_.
     dbind (onDuRoot (duEnd (gc_r gc) (gc_ids gc GcEnd wfId) wfId wfVid)) (\<lambda>_. ret (Ok ()))))"

definition gcDuRootActive :: "'db GcConfig \<Rightarrow> uuid \<Rightarrow> (uuid \<rightharpoonup> ulid) \<Rightarrow> int \<Rightarrow> ('db GcWorld, gc_error, nat) dbm" where
  "gcDuRootActive gc idxId m now =
     gcLoop (gc_msOf gc) (now - ConfigDuRootMaxActive) m (expireDuRoot gc idxId) (gc_iter gc KDuRoot False (dom m)) 0"

definition deleteDuRoot :: "'db GcConfig \<Rightarrow> uuid \<Rightarrow> uuid \<Rightarrow> ('db GcWorld, gc_error, unit) dbm" where
  "deleteDuRoot gc idxId wfId =
     dbind (onDuRoot (duDelete (gc_r gc) (fst (gc_ids gc GcDelete wfId 0)) wfId NoVC)) (\<lambda>_.
     dbind (onIndex (ixDeleteDuRoot (gc_r gc) (gc_sz gc) (gc_ord gc) (gc_ids gc GcUnlist wfId) idxId NoVC wfId)) (\<lambda>_. ret (Ok ())))"

definition gcDuRootCompleted :: "'db GcConfig \<Rightarrow> uuid \<Rightarrow> (uuid \<rightharpoonup> ulid) \<Rightarrow> int \<Rightarrow> ('db GcWorld, gc_error, nat) dbm" where
  "gcDuRootCompleted gc idxId m now =
     gcLoop (gc_msOf gc) (now - ConfigDuRootDeleteAfter) m (deleteDuRoot gc idxId) (gc_iter gc KDuRoot True (dom m)) 0"

definition gcDuRoot :: "'db GcConfig \<Rightarrow> uuid \<Rightarrow> GcView \<Rightarrow> int \<Rightarrow> ('db GcWorld, gc_error, unit) dbm" where
  "gcDuRoot gc idxId gv now =
     dbind (gcDuRootActive gc idxId (gv_duRootActive gv) now) (\<lambda>_.
     dbind (gcDuRootCompleted gc idxId (gv_duRootCompleted gv) now) (\<lambda>_. ret (Ok ())))"

definition expirePingRegistry :: "'db GcConfig \<Rightarrow> uuid \<Rightarrow> uuid \<Rightarrow> ('db GcWorld, gc_error, unit) dbm" where
  "expirePingRegistry gc idxId wfId =
     dbind (onPingRegistry (pgAbortExpired (gc_r gc) (gc_ids gc GcAbort wfId) wfId RetryNoVC)) (\<lambda>wfVid.
     dbind (onIndex (ixCommitPingRegistry (gc_r gc) (gc_sz gc) (gc_ord gc) (gc_ids gc GcCommit wfId) idxId RetryNoVC wfId wfVid)) (\<lambda>_.
     dbind (onPingRegistry (pgEnd (gc_r gc) (gc_ids gc GcEnd wfId) wfId wfVid)) (\<lambda>_. ret (Ok ()))))"

definition gcPingRegistryActive :: "'db GcConfig \<Rightarrow> uuid \<Rightarrow> (uuid \<rightharpoonup> ulid) \<Rightarrow> int \<Rightarrow> ('db GcWorld, gc_error, nat) dbm" where
  "gcPingRegistryActive gc idxId m now =
     gcLoop (gc_msOf gc) (now - ConfigPingRegistryMaxActive) m (expirePingRegistry gc idxId) (gc_iter gc KPingRegistry False (dom m)) 0"

definition deletePingRegistry :: "'db GcConfig \<Rightarrow> uuid \<Rightarrow> uuid \<Rightarrow> ('db GcWorld, gc_error, unit) dbm" where
  "deletePingRegistry gc idxId wfId =
     dbind (onPingRegistry (pgDelete (gc_r gc) (fst (gc_ids gc GcDelete wfId 0)) wfId NoVC)) (\<lambda>_.
     dbind (onIndex (ixDeletePingRegistry (gc_r gc) (gc_sz gc) (gc_ord gc) (gc_ids gc GcUnlist wfId) idxId NoVC wfId)) (\<lambda>_. ret (Ok ())))"

definition gcPingRegistryCompleted :: "'db GcConfig \<Rightarrow> uuid \<Rightarrow> (uuid \<rightharpoonup> ulid) \<Rightarrow> int \<Rightarrow> ('db GcWorld, gc_error, nat) dbm" where
  "gcPingRegistryCompleted gc idxId m now =
     gcLoop (gc_msOf gc) (now - ConfigPingRegistryDeleteAfter) m (deletePingRegistry gc idxId) (gc_iter gc KPingRegistry True (dom m)) 0"

definition gcPingRegistry :: "'db GcConfig \<Rightarrow> uuid \<Rightarrow> GcView \<Rightarrow> int \<Rightarrow> ('db GcWorld, gc_error, unit) dbm" where
  "gcPingRegistry gc idxId gv now =
     dbind (gcPingRegistryActive gc idxId (gv_pingRegistryActive gv) now) (\<lambda>_.
     dbind (gcPingRegistryCompleted gc idxId (gv_pingRegistryCompleted gv) now) (\<lambda>_. ret (Ok ())))"

definition expireSplitRoot :: "'db GcConfig \<Rightarrow> uuid \<Rightarrow> uuid \<Rightarrow> ('db GcWorld, gc_error, unit) dbm" where
  "expireSplitRoot gc idxId wfId =
     dbind (onSplitRoot (spAbortExpired (gc_r gc) (gc_ids gc GcAbort wfId) wfId RetryNoVC)) (\<lambda>wfVid.
     dbind (onIndex (ixCommitSplitRoot (gc_r gc) (gc_sz gc) (gc_ord gc) (gc_ids gc GcCommit wfId) idxId RetryNoVC wfId wfVid)) (\<lambda>_.
     dbind (onSplitRoot (spEnd (gc_r gc) (gc_ids gc GcEnd wfId) wfId wfVid)) (\<lambda>_. ret (Ok ()))))"

definition gcSplitRootActive :: "'db GcConfig \<Rightarrow> uuid \<Rightarrow> (uuid \<rightharpoonup> ulid) \<Rightarrow> int \<Rightarrow> ('db GcWorld, gc_error, nat) dbm" where
  "gcSplitRootActive gc idxId m now =
     gcLoop (gc_msOf gc) (now - ConfigSplitRootMaxActive) m (expireSplitRoot gc idxId) (gc_iter gc KSplitRoot False (dom m)) 0"

definition deleteSplitRoot :: "'db GcConfig \<Rightarrow> uuid \<Rightarrow> uuid \<Rightarrow> ('db GcWorld, gc_error, unit) dbm" where
  "deleteSplitRoot gc idxId wfId =
     dbind (onSplitRoot (spDelete (gc_r gc) (fst (gc_ids gc GcDelete wfId 0)) wfId NoVC)) (\<lambda>_.
     dbind (onIndex (ixDeleteSplitRoot (gc_r gc) (gc_sz gc) (gc_ord gc) (gc_ids gc GcUnlist wfId) idxId NoVC wfId)) (\<lambda>_. ret (Ok ())))"

definition gcSplitRootCompleted :: "'db GcConfig \<Rightarrow> uuid \<Rightarrow> (uuid \<rightharpoonup> ulid) \<Rightarrow> int \<Rightarrow> ('db GcWorld, gc_error, nat) dbm" where
  "gcSplitRootCompleted gc idxId m now =
     gcLoop (gc_msOf gc) (now - ConfigSplitRootDeleteAfter) m (deleteSplitRoot gc idxId) (gc_iter gc KSplitRoot True (dom m)) 0"

definition gcSplitRoot :: "'db GcConfig \<Rightarrow> uuid \<Rightarrow> GcView \<Rightarrow> int \<Rightarrow> ('db GcWorld, gc_error, unit) dbm" where
  "gcSplitRoot gc idxId gv now =
     dbind (gcSplitRootActive gc idxId (gv_splitRootActive gv) now) (\<lambda>_.
     dbind (gcSplitRootCompleted gc idxId (gv_splitRootCompleted gv) now) (\<lambda>_. ret (Ok ())))"

text \<open>
  The snapshot.  The cases of the code's switch are tried in order, and \<open>vid2\<close> is zero if there is an error: with an index
  that has no events, \<open>vid2 == vid\<close> holds for every error.
\<close>

definition gcSnapshot :: "'db GcConfig \<Rightarrow> uuid \<Rightarrow> ('db GcWorld, gc_error, unit) dbm" where
  "gcSnapshot gc idxId =
     dbind (onIndex (ixFindId (gc_r gc) (gc_sz gc) (gc_ord gc) idxId)) (\<lambda>s.
       let vid = ix_vid (fst s)
       in dtry (onIndex (ixSnapshotCmd (gc_r gc) (gc_sz gc) (gc_ord gc) (gc_ids gc GcSnapshot idxId) idxId vid))
            (\<lambda>e. if e = GcIndexError (BehaviorError IxErrTooManyWorkflows) then ret (Ok ())
                 else if e = GcIndexError (BehaviorError IxErrSmallStorageReduction) then ret (Ok ())
                 else if ulidNil = vid then ret (Ok ())
                 else ret (Err e))
            (\<lambda>vid2. ret (Ok ())))"

definition gcOne :: "'db GcConfig \<Rightarrow> string \<Rightarrow> int \<Rightarrow> ('db GcWorld, gc_error, unit) dbm" where
  "gcOne gc reg now =
     (let idxId = gc_idxOf gc reg; r = gc_r gc
      in dbind (onJournal (gcLoadIndexView (wk_mongo r) (wk_dp r) (wk_ub r) (ivOps (wk_pm r) (wk_pu r) (wk_ub r)) idxId)) (\<lambda>idx.
         dbind (gcDuRoot gc idxId idx now) (\<lambda>_.
         dbind (gcPingRegistry gc idxId idx now) (\<lambda>_.
         dbind (gcSplitRoot gc idxId idx now) (\<lambda>_. gcSnapshot gc idxId)))))"

fun Gc :: "'db GcConfig \<Rightarrow> string list \<Rightarrow> int \<Rightarrow> ('db GcWorld, gc_error, unit) dbm" where
  "Gc gc [] now = ret (Ok ())"
| "Gc gc (reg # regs) now = dbind (gcOne gc reg now) (\<lambda>_. Gc gc regs now)"

section \<open>The view abstracts that of the index\<close>

text \<open>The active entries of a map with the versions at which they were started, the completed ones with those of completion.\<close>

definition actOf :: "(uuid \<rightharpoonup> 'z IndexEntry_scheme) \<Rightarrow> uuid \<rightharpoonup> ulid" where
  "actOf m = (\<lambda>i. case m i of None \<Rightarrow> None | Some e \<Rightarrow> if ie_Completed e = ulidNil then Some (ie_Started e) else None)"

definition doneOf :: "(uuid \<rightharpoonup> 'z IndexEntry_scheme) \<Rightarrow> uuid \<rightharpoonup> ulid" where
  "doneOf m = (\<lambda>i. case m i of None \<Rightarrow> None | Some e \<Rightarrow> if ie_Completed e = ulidNil then None else Some (ie_Completed e))"

definition gcView :: "IndexView \<Rightarrow> GcView" where
  "gcView iv = \<lparr>gv_vid = iv_vid iv,
     gv_duRootActive = actOf (iv_duRoot iv), gv_duRootCompleted = doneOf (iv_duRoot iv),
     gv_pingRegistryActive = actOf (iv_pingRegistry iv), gv_pingRegistryCompleted = doneOf (iv_pingRegistry iv),
     gv_splitRootActive = actOf (iv_splitRoot iv), gv_splitRootCompleted = doneOf (iv_splitRoot iv)\<rparr>"

lemma parts_upd [simp]:
  "actOf (m(i \<mapsto> e)) = (if ie_Completed e = ulidNil then (actOf m)(i \<mapsto> ie_Started e) else (actOf m)(i := None))"
  "doneOf (m(i \<mapsto> e)) = (if ie_Completed e = ulidNil then (doneOf m)(i := None) else (doneOf m)(i \<mapsto> ie_Completed e))"
  "actOf (m(i := None)) = (actOf m)(i := None)" "doneOf (m(i := None)) = (doneOf m)(i := None)"
  "actOf Map.empty = Map.empty" "doneOf Map.empty = Map.empty"
  by (auto simp: actOf_def doneOf_def fun_eq_iff)

lemma parts_stat:
  "actOf m i \<noteq> None \<longleftrightarrow> entStat m i = Some False" "doneOf m i \<noteq> None \<longleftrightarrow> entStat m i = Some True"
  by (auto simp: actOf_def doneOf_def entStat_def split: option.splits)

lemma upd_same: "m i = x \<Longrightarrow> m(i := x) = m"
  by (simp add: fun_eq_iff)

text \<open>What the invariant says of an id and a kind.\<close>

lemma ix_inv_stat:
  assumes "ix_inv s"
  shows "ivStat (snd s) k i = Some False \<Longrightarrow> i \<in> ix_activeWorkflows (fst s)"
    "ivStat (snd s) k i = Some True \<Longrightarrow> i \<in> ix_completedWorkflows (fst s)"
    "i \<in> ix_activeWorkflows (fst s) \<Longrightarrow> i \<notin> ix_completedWorkflows (fst s)"
  using assms unfolding ix_inv_def consistent_def by (auto, metis option.discI option.inject)

lemma gvMark_put:
  assumes "dom (actOf m) \<subseteq> A" "dom (doneOf m) \<subseteq> C" "A \<inter> C = {}"
    and "\<And>w. w \<in> set ws \<Longrightarrow> if ie_Completed w = ulidNil then ie_WorkflowId w \<in> A else ie_WorkflowId w \<in> C"
  shows "gvMark ws (actOf m, doneOf m) = (actOf (ivPut ws m), doneOf (ivPut ws m))"
  using assms
proof (induction ws arbitrary: m)
  case (Cons w ws)
  let ?i = "ie_WorkflowId w" and ?m = "m(ie_WorkflowId w \<mapsto> w)"
  have w: "if ie_Completed w = ulidNil then ?i \<in> A else ?i \<in> C" using Cons.prems(4) [of w] by simp
  then have none: "if ie_Completed w = ulidNil then doneOf m ?i = None else actOf m ?i = None"
    using Cons.prems(1-3) by (auto split: if_splits)
  have "dom (actOf ?m) \<subseteq> A" "dom (doneOf ?m) \<subseteq> C"
    unfolding parts_upd using Cons.prems(1,2) w by (auto split: if_splits)
  then have "gvMark ws (actOf ?m, doneOf ?m) = (actOf (ivPut ws ?m), doneOf (ivPut ws ?m))"
    by (rule Cons.IH) (use Cons.prems(3,4) in simp_all)
  moreover have "gvMark (w # ws) (actOf m, doneOf m) = gvMark ws (actOf ?m, doneOf ?m)"
    using none by (auto simp: upd_same)
  ultimately show ?case by simp
qed simp

lemma ixMark_sets:
  "ix_activeWorkflows (ixMark ws st) = ix_activeWorkflows st \<union> {ie_WorkflowId w |w. w \<in> set ws \<and> ie_Completed w = ulidNil}"
  "ix_completedWorkflows (ixMark ws st) = ix_completedWorkflows st \<union> {ie_WorkflowId w |w. w \<in> set ws \<and> ie_Completed w \<noteq> ulidNil}"
  by (induction ws arbitrary: st) auto

text \<open>Three consequences of the invariant before and after an event, for a workflow that is started, completed or deleted.\<close>

lemma started_not_done:
  assumes "ix_inv s" "ix_inv s'" "i \<in> ix_activeWorkflows (fst s')" "ix_completedWorkflows (fst s') = ix_completedWorkflows (fst s)"
  shows "ivStat (snd s) k i \<noteq> Some True"
  using ix_inv_stat(2) [OF assms(1)] ix_inv_stat(3) [OF assms(2,3)] assms(4) by blast

lemma completed_not_active:
  assumes "ix_inv s'" "i \<notin> ix_activeWorkflows (fst s')"
  shows "ivStat (snd s') k i \<noteq> Some False"
  using ix_inv_stat(1) [OF assms(1)] assms(2) by blast

lemma deleted_not_active:
  assumes "ix_inv s" "ix_inv s'" "ix_activeWorkflows (fst s') = ix_activeWorkflows (fst s)"
    and "ivStat (snd s') = (ivStat (snd s))(k := (ivStat (snd s) k)(i := None))"
  shows "ivStat (snd s) k i \<noteq> Some False"
proof
  assume f: "ivStat (snd s) k i = Some False"
  then have "i \<in> ix_activeWorkflows (fst s')" using ix_inv_stat(1) [OF assms(1)] assms(3) by simp
  then obtain k' where k': "ivStat (snd s') k' i = Some False"
    using assms(2) unfolding ix_inv_def consistent_def by auto
  then have "k' \<noteq> k" "ivStat (snd s) k' i = Some False" using assms(4) by (auto split: if_splits)
  then show False using f assms(1) unfolding ix_inv_def consistent_def by (metis option.discI)
qed

lemmas gc_event_defs = ixAdvanceBoth_def ixAdvanceEv_def Let_def ivLoadEvent_def gvLoadEvent_def gcView_def

lemma gc_started:
  assumes "ix_inv s" "ix_inv s'"
  shows "ixAdvanceBoth s v (WvDuRootStarted x) = Ok s' \<Longrightarrow> gvLoadEvent (gcView (snd s)) v (WvDuRootStarted x) = gcView (snd s')"
    "ixAdvanceBoth s v (WvPingRegistryStarted y) = Ok s' \<Longrightarrow>
       gvLoadEvent (gcView (snd s)) v (WvPingRegistryStarted y) = gcView (snd s')"
    "ixAdvanceBoth s v (WvSplitRootStarted z) = Ok s' \<Longrightarrow>
       gvLoadEvent (gcView (snd s)) v (WvSplitRootStarted z) = gcView (snd s')"
proof -
  note none = started_not_done [OF assms]
  show "gvLoadEvent (gcView (snd s)) v (WvDuRootStarted x) = gcView (snd s')" if a: "ixAdvanceBoth s v (WvDuRootStarted x) = Ok s'"
    using a none [of "os_WorkflowId x" KDuRoot] parts_stat(2) [of "iv_duRoot (snd s)" "os_WorkflowId x"]
    by (auto simp: gc_event_defs rootEntry_def ixStart_def ixCount_def ivStat_def upd_same)
  show "gvLoadEvent (gcView (snd s)) v (WvPingRegistryStarted y) = gcView (snd s')"
    if a: "ixAdvanceBoth s v (WvPingRegistryStarted y) = Ok s'"
    using a none [of "ps_WorkflowId y" KPingRegistry] parts_stat(2) [of "iv_pingRegistry (snd s)" "ps_WorkflowId y"]
    by (auto simp: gc_event_defs pingEntry_def ixStart_def ixCount_def ivStat_def upd_same)
  show "gvLoadEvent (gcView (snd s)) v (WvSplitRootStarted z) = gcView (snd s')"
    if a: "ixAdvanceBoth s v (WvSplitRootStarted z) = Ok s'"
    using a none [of "os_WorkflowId z" KSplitRoot] parts_stat(2) [of "iv_splitRoot (snd s)" "os_WorkflowId z"]
    by (auto simp: gc_event_defs rootEntry_def ixStart_def ixCount_def ivStat_def upd_same)
qed

lemma gc_completed:
  assumes "ix_inv s'"
  shows "ixAdvanceBoth s v (WvDuRootCompleted x) = Ok s' \<Longrightarrow> gvLoadEvent (gcView (snd s)) v (WvDuRootCompleted x) = gcView (snd s')"
    "ixAdvanceBoth s v (WvPingRegistryCompleted i u) = Ok s' \<Longrightarrow>
       gvLoadEvent (gcView (snd s)) v (WvPingRegistryCompleted i u) = gcView (snd s')"
    "ixAdvanceBoth s v (WvSplitRootCompleted z) = Ok s' \<Longrightarrow>
       gvLoadEvent (gcView (snd s)) v (WvSplitRootCompleted z) = gcView (snd s')"
proof -
  note no = completed_not_active [OF assms]
  show "gvLoadEvent (gcView (snd s)) v (WvDuRootCompleted x) = gcView (snd s')" if a: "ixAdvanceBoth s v (WvDuRootCompleted x) = Ok s'"
    using a no [of "wc_WorkflowId x" KDuRoot]
    by (auto simp: gc_event_defs outcome_simps ivComplete_def ixComplete_def ixCount_def ivStat_def entStat_def split: option.splits)
  show "gvLoadEvent (gcView (snd s)) v (WvPingRegistryCompleted i u) = gcView (snd s')"
    if a: "ixAdvanceBoth s v (WvPingRegistryCompleted i u) = Ok s'"
    using a no [of i KPingRegistry]
    by (auto simp: gc_event_defs outcome_simps ivComplete_def ixComplete_def ixCount_def ivStat_def entStat_def split: option.splits)
  show "gvLoadEvent (gcView (snd s)) v (WvSplitRootCompleted z) = gcView (snd s')"
    if a: "ixAdvanceBoth s v (WvSplitRootCompleted z) = Ok s'"
    using a no [of "wc_WorkflowId z" KSplitRoot]
    by (auto simp: gc_event_defs outcome_simps ivComplete_def ixComplete_def ixCount_def ivStat_def entStat_def split: option.splits)
qed

lemma gc_deleted:
  assumes "ix_inv s" "ix_inv s'"
  shows "ixAdvanceBoth s v (WvDuRootDeleted i) = Ok s' \<Longrightarrow> gvLoadEvent (gcView (snd s)) v (WvDuRootDeleted i) = gcView (snd s')"
    "ixAdvanceBoth s v (WvPingRegistryDeleted i) = Ok s' \<Longrightarrow>
       gvLoadEvent (gcView (snd s)) v (WvPingRegistryDeleted i) = gcView (snd s')"
    "ixAdvanceBoth s v (WvSplitRootDeleted i) = Ok s' \<Longrightarrow>
       gvLoadEvent (gcView (snd s)) v (WvSplitRootDeleted i) = gcView (snd s')"
proof -
  have stat: "ivStat iv k i \<noteq> Some False" if "iv = snd s" "ix_activeWorkflows (fst s') = ix_activeWorkflows (fst s)"
    "ivStat (snd s') = (ivStat iv)(k := (ivStat iv k)(i := None))" for iv k
    using deleted_not_active [OF assms that(2)] that(1,3) by simp
  have del: "entStat (m(i := None)) = (entStat m)(i := None)" for m :: "uuid \<rightharpoonup> 'z IndexEntry_scheme"
    by (auto simp: entStat_def)
  show "gvLoadEvent (gcView (snd s)) v (WvDuRootDeleted i) = gcView (snd s')" if a: "ixAdvanceBoth s v (WvDuRootDeleted i) = Ok s'"
  proof -
    have s': "s' = (ixDelete i (ixCount (fst s)), (snd s)\<lparr>iv_vid := v, iv_duRoot := (iv_duRoot (snd s))(i := None)\<rparr>)"
      using a by (simp add: gc_event_defs)
    have "ivStat (snd s) KDuRoot i \<noteq> Some False"
      by (rule stat) (simp_all add: s' ixDelete_def ixCount_def fun_eq_iff ivStat_def del split: ix_kind.splits)
    then show ?thesis using parts_stat(1) [of "iv_duRoot (snd s)" i] by (simp add: s' gc_event_defs ivStat_def upd_same)
  qed
  show "gvLoadEvent (gcView (snd s)) v (WvPingRegistryDeleted i) = gcView (snd s')"
    if a: "ixAdvanceBoth s v (WvPingRegistryDeleted i) = Ok s'"
  proof -
    have s': "s' = (ixDelete i (ixCount (fst s)), (snd s)\<lparr>iv_vid := v, iv_pingRegistry := (iv_pingRegistry (snd s))(i := None)\<rparr>)"
      using a by (simp add: gc_event_defs)
    have "ivStat (snd s) KPingRegistry i \<noteq> Some False"
      by (rule stat) (simp_all add: s' ixDelete_def ixCount_def fun_eq_iff ivStat_def del split: ix_kind.splits)
    then show ?thesis using parts_stat(1) [of "iv_pingRegistry (snd s)" i] by (simp add: s' gc_event_defs ivStat_def upd_same)
  qed
  show "gvLoadEvent (gcView (snd s)) v (WvSplitRootDeleted i) = gcView (snd s')"
    if a: "ixAdvanceBoth s v (WvSplitRootDeleted i) = Ok s'"
  proof -
    have s': "s' = (ixDelete i (ixCount (fst s)), (snd s)\<lparr>iv_vid := v, iv_splitRoot := (iv_splitRoot (snd s))(i := None)\<rparr>)"
      using a by (simp add: gc_event_defs)
    have "ivStat (snd s) KSplitRoot i \<noteq> Some False"
      by (rule stat) (simp_all add: s' ixDelete_def ixCount_def fun_eq_iff ivStat_def del split: ix_kind.splits)
    then show ?thesis using parts_stat(1) [of "iv_splitRoot (snd s)" i] by (simp add: s' gc_event_defs ivStat_def upd_same)
  qed
qed

lemma stat_doms:
  "dom (actOf (iv_duRoot iv)) = {i. ivStat iv KDuRoot i = Some False}" "dom (doneOf (iv_duRoot iv)) = {i. ivStat iv KDuRoot i = Some True}"
  "dom (actOf (iv_pingRegistry iv)) = {i. ivStat iv KPingRegistry i = Some False}"
  "dom (doneOf (iv_pingRegistry iv)) = {i. ivStat iv KPingRegistry i = Some True}"
  "dom (actOf (iv_splitRoot iv)) = {i. ivStat iv KSplitRoot i = Some False}" "dom (doneOf (iv_splitRoot iv)) = {i. ivStat iv KSplitRoot i = Some True}"
  by (auto simp: dom_def parts_stat ivStat_def simp flip: not_None_eq)

lemma gc_snapshot_state:
  assumes "ix_inv s" "ix_inv s'" and a: "ixAdvanceBoth s v (WvWorkflowIndexSnapshotState x) = Ok s'"
  shows "gvLoadEvent (gcView (snd s)) v (WvWorkflowIndexSnapshotState x) = gcView (snd s')"
proof -
  define A C where "A = ix_activeWorkflows (fst s')" and "C = ix_completedWorkflows (fst s')"
  have s': "fst s' = ixMarkAll x (ixCount (fst s))" "snd s' = ivPutAll x ((snd s)\<lparr>iv_vid := v\<rparr>)"
    using a by (auto simp: gc_event_defs)
  have AC: "A \<inter> C = {}" using ix_inv_stat(3) [OF assms(2)] by (auto simp: A_def C_def)
  have dom: "{i. ivStat (snd s) k i = Some False} \<subseteq> A" "{i. ivStat (snd s) k i = Some True} \<subseteq> C" for k
    using ix_inv_stat(1,2) [OF assms(1)] by (auto simp: A_def C_def s' ixMarkAll_def ixMark_sets ixCount_def)
  have marked: "if ie_Completed w = ulidNil then ie_WorkflowId w \<in> A else ie_WorkflowId w \<in> C" if "w \<in> set (sn_DuRoot x)" for w
    using that by (auto simp: A_def C_def s' ixMarkAll_def ixMark_sets)
  have du: "gvMark (sn_DuRoot x) (actOf (iv_duRoot (snd s)), doneOf (iv_duRoot (snd s))) =
      (actOf (ivPut (sn_DuRoot x) (iv_duRoot (snd s))), doneOf (ivPut (sn_DuRoot x) (iv_duRoot (snd s))))"
    by (rule gvMark_put [OF _ _ AC marked]) (use dom [of KDuRoot] in \<open>simp_all add: stat_doms\<close>)
  have marked: "if ie_Completed w = ulidNil then ie_WorkflowId w \<in> A else ie_WorkflowId w \<in> C" if "w \<in> set (sn_PingRegistry x)" for w
    using that by (auto simp: A_def C_def s' ixMarkAll_def ixMark_sets)
  have pg: "gvMark (sn_PingRegistry x) (actOf (iv_pingRegistry (snd s)), doneOf (iv_pingRegistry (snd s))) =
      (actOf (ivPut (sn_PingRegistry x) (iv_pingRegistry (snd s))), doneOf (ivPut (sn_PingRegistry x) (iv_pingRegistry (snd s))))"
    by (rule gvMark_put [OF _ _ AC marked]) (use dom [of KPingRegistry] in \<open>simp_all add: stat_doms\<close>)
  have marked: "if ie_Completed w = ulidNil then ie_WorkflowId w \<in> A else ie_WorkflowId w \<in> C" if "w \<in> set (sn_SplitRoot x)" for w
    using that by (auto simp: A_def C_def s' ixMarkAll_def ixMark_sets)
  have sp: "gvMark (sn_SplitRoot x) (actOf (iv_splitRoot (snd s)), doneOf (iv_splitRoot (snd s))) =
      (actOf (ivPut (sn_SplitRoot x) (iv_splitRoot (snd s))), doneOf (ivPut (sn_SplitRoot x) (iv_splitRoot (snd s))))"
    by (rule gvMark_put [OF _ _ AC marked]) (use dom [of KSplitRoot] in \<open>simp_all add: stat_doms\<close>)
  show ?thesis using du pg sp by (simp add: gvLoadEvent_def Let_def gcView_def gvMarkAll_def s'(2) ivPutAll_def)
qed

text \<open>The remaining events belong to the other kinds, or none, and leave the view as it is.\<close>

lemma gc_step:
  assumes "ix_inv s" "ix_inv s'" "ixAdvanceBoth s v x = Ok s'"
  shows "gvLoadEvent (gcView (snd s)) v x = gcView (snd s')"
proof -
  have other: "gcView (iv'\<lparr>iv_vid := v\<rparr>) = (gcView (snd s))\<lparr>gv_vid := v\<rparr>"
    if "iv_duRoot iv' = iv_duRoot (snd s)" "iv_pingRegistry iv' = iv_pingRegistry (snd s)" "iv_splitRoot iv' = iv_splitRoot (snd s)" for iv'
    using that by (simp add: gcView_def)
  show ?thesis
  proof (cases x)
    case (WvIndex e)
    then show ?thesis
      by (cases e) (use assms gc_snapshot_state [OF assms(1,2)] in \<open>auto simp: gc_event_defs gvResetState_def ivResetState_def\<close>)
  next
    case (WvDu e)
    then show ?thesis
      by (cases e) (use assms gc_started(1) [OF assms(1,2)] gc_completed(1) [OF assms(2)] gc_deleted(1) [OF assms(1,2)] in
        \<open>auto simp: ixAdvanceBoth_def ixAdvanceEv_def Let_def\<close>)
  next
    case (WvPing e)
    then show ?thesis
      by (cases e) (use assms gc_started(2) [OF assms(1,2)] gc_completed(2) [OF assms(2)] gc_deleted(2) [OF assms(1,2)] in
        \<open>auto simp: ixAdvanceBoth_def ixAdvanceEv_def Let_def\<close>)
  next
    case (WvSplit e)
    then show ?thesis
      by (cases e) (use assms gc_started(3) [OF assms(1,2)] gc_completed(3) [OF assms(2)] gc_deleted(3) [OF assms(1,2)] in
        \<open>auto simp: ixAdvanceBoth_def ixAdvanceEv_def Let_def\<close>)
  next
    case (WvFreeze e)
    then show ?thesis by (cases e) (use assms(3) in \<open>auto simp: gc_event_defs outcome_simps\<close>)
  next
    case (WvUnfreeze e)
    then show ?thesis by (cases e) (use assms(3) in \<open>auto simp: gc_event_defs outcome_simps\<close>)
  next
    case (WvArchive e)
    then show ?thesis by (cases e) (use assms(3) in \<open>auto simp: gc_event_defs outcome_simps\<close>)
  next
    case (WvUnarchive e)
    then show ?thesis by (cases e) (use assms(3) in \<open>auto simp: gc_event_defs outcome_simps\<close>)
  qed (use assms(3) in \<open>auto simp: gc_event_defs\<close>)
qed

section \<open>The loops\<close>

text \<open>The loop handles exactly the workflows that are old enough, in the order of the iteration, up to the first error.\<close>

lemma gcLoop_filter:
  "gcLoop msOf cutoff m f is n =
     foldr (\<lambda>i k n. dbind (f i) (\<lambda>_. k (n + 1))) (filter (\<lambda>i. ulidTime msOf (the (m i)) < cutoff) is) (\<lambda>n. ret (Ok n)) n"
  by (induction "is" arbitrary: n) simp_all

section \<open>Replay\<close>

text \<open>The view that a list of events makes.\<close>

fun gvReplay :: "ulid_unmarshal \<Rightarrow> GcView \<Rightarrow> WorkflowPb Event list \<Rightarrow> (EventsError, GcView) outcome" where
  "gvReplay ub gv [] = Ok gv"
| "gvReplay ub gv (ev # evs) =
     obind (MustParsePbWorkflowEvent ub (ev_pb ev)) (\<lambda>x. gvReplay ub (gvLoadEvent gv (ev_id ev) x) evs)"

lemma gvReplay_append: "gvReplay ub gv (xs @ ys) = obind (gvReplay ub gv xs) (\<lambda>gv'. gvReplay ub gv' ys)"
  by (induction xs arbitrary: gv) (simp_all add: obind_assoc)

lemma gvReplay_take:
  assumes "gvReplay ub gv evs = Ok gv'"
  obtains gv1 where "gvReplay ub gv (take n evs) = Ok gv1"
  using assms gvReplay_append [of ub gv "take n evs" "drop n evs"] by (cases "gvReplay ub gv (take n evs)") auto

lemma gcLoadLoop_drain:
  "drain ops it = Ok (evs, it') \<Longrightarrow> gcLoadLoop ub ops gv it = omap (\<lambda>gv'. (gv', it')) (gvReplay ub gv evs)"
proof (induction evs arbitrary: it gv)
  case Nil
  then show ?case
    by (subst (asm) drain.simps, subst gcLoadLoop.simps) (auto simp: outcome_simps split: outcome.splits option.splits)
next
  case (Cons ev evs)
  obtain it1 where it1: "iterNext ops it = Ok (Some ev, it1)" "drain ops it1 = Ok (evs, it')"
    using Cons.prems by (subst (asm) drain.simps) (auto simp: outcome_simps split: outcome.splits option.splits)
  show ?case using Cons.IH [OF it1(2)] by (subst gcLoadLoop.simps) (simp add: it1(1) omap_obind)
qed

text \<open>Messages that keep the invariant of the index at every point.\<close>

fun keeps :: "ulid_unmarshal \<Rightarrow> IndexState \<times> IndexView \<Rightarrow> WorkflowPb list \<Rightarrow> bool" where
  "keeps ub s [] \<longleftrightarrow> ix_inv s"
| "keeps ub s (p # ps) \<longleftrightarrow> ix_inv s \<and> (\<exists>x. ParsePbWorkflowEvent ub p = Ok x \<and>
     (\<forall>v. \<exists>s'. ixAdvanceBoth s v x = Ok s' \<and> keeps ub ((fst s')\<lparr>ix_vid := v\<rparr>, snd s') ps))"

lemma keeps_inv: "keeps ub s ps \<Longrightarrow> ix_inv s"
  by (cases ps) simp_all

lemma keeps_gc:
  "keeps ub s ps \<Longrightarrow> newEventsLoop wfSetPb g n vid ps = Inr evs \<Longrightarrow>
     \<exists>s'. advanceAll (ixBehavior sz ord ub) (ixOps pm pu ub) s evs = Ok s' \<and>
       gvReplay ub (gcView (snd s)) evs = Ok (gcView (snd s'))"
proof (induction ps arbitrary: s n vid evs)
  case (Cons p ps)
  obtain i evs' where i: "newEventsLoop wfSetPb g (Suc n) i ps = Inr evs'"
      "evs = \<lparr>ev_id = i, ev_parent = vid, ev_pb = wfSetPb i vid p\<rparr> # evs'"
    using Cons.prems(2) by (auto split: sum.splits)
  obtain x s1 where x: "ParsePbWorkflowEvent ub p = Ok x" "ixAdvanceBoth s i x = Ok s1" "keeps ub ((fst s1)\<lparr>ix_vid := i\<rparr>, snd s1) ps"
    using Cons.prems(1) by (metis keeps.simps(2))
  have inv: "ix_inv s" "ix_inv s1" using Cons.prems(1) keeps_inv [OF x(3)] by simp_all
  from Cons.IH [OF x(3) i(1)] obtain s' where
    "advanceAll (ixBehavior sz ord ub) (ixOps pm pu ub) ((fst s1)\<lparr>ix_vid := i\<rparr>, snd s1) evs' = Ok s'"
    "gvReplay ub (gcView (snd s1)) evs' = Ok (gcView (snd s'))" by auto
  then show ?case using gc_step [OF inv x(2)] x(1,2) by (simp add: i(2) MustParsePbWorkflowEvent_def)
qed simp

lemma moves_keeps:
  assumes "ix_inv s" "ix_moves sz ord ub ix_inv s ps" "length ps \<le> 1"
  shows "keeps ub s ps"
proof (cases ps)
  case (Cons p qs)
  then have qs: "qs = []" using assms(3) by simp
  obtain x where x: "ParsePbWorkflowEvent ub p = Ok x" and
    adv: "\<And>v. \<exists>s'. ixAdvanceBoth s v x = Ok s' \<and> ix_inv (SetVid (ixBehavior sz ord ub) v s')"
    using assms(2) unfolding Cons qs moves.simps by blast
  show ?thesis using assms(1) x adv unfolding Cons qs keeps.simps ixBehavior_simps by blast
qed (use assms(1) in simp)

text \<open>A snapshot of a consistent view keeps the invariant at every point.\<close>

lemma restoring_keeps_inv:
  assumes "ix_inv s" "restoring K (snd s) t"
  shows "ix_inv t"
proof -
  define S where "S = ivStat (snd s)"
  obtain v where v: "snd t = (ivKeep K (snd s))\<lparr>iv_vid := v\<rparr>" using assms(2) unfolding restoring_def by blast
  have "ivStat (snd t) k = (if k \<in> K then S k else Map.empty)" for k
    by (cases k) (simp_all add: v S_def ivKeep_def ivStat_def entStat_def)
  then have st: "ivStat (snd t) = (\<lambda>k. if k \<in> K then S k else Map.empty)" by (rule ext)
  have uniq: "\<forall>i k k'. S k i \<noteq> None \<longrightarrow> S k' i \<noteq> None \<longrightarrow> k = k'" and keyed: "ivKeyed (snd s)"
    using assms(1) unfolding ix_inv_def consistent_def S_def by blast+
  have sets: "ix_activeWorkflows (fst t) = {i. \<exists>k \<in> K. S k i = Some False}"
    "ix_completedWorkflows (fst t) = {i. \<exists>k \<in> K. S k i = Some True}"
    using assms(2) unfolding restoring_def S_def by blast+
  have "{i. \<exists>k \<in> K. S k i = Some x} = {i. \<exists>k. (if k \<in> K then S k else Map.empty) i = Some x}" for x
    by (auto split: if_splits)
  moreover have "\<forall>i k k'. (if k \<in> K then S k else Map.empty) i \<noteq> None \<longrightarrow> (if k' \<in> K then S k' else Map.empty) i \<noteq> None \<longrightarrow> k = k'"
    using uniq by (simp split: if_splits)
  moreover have "ivKeyed (snd t)" using keyed by (simp add: v ivKeyed_def ivKeep_def keyed_def)
  ultimately show ?thesis unfolding ix_inv_def consistent_def st sets by simp
qed

lemma kinds_keep:
  assumes "ulid_binary ub" "ix_inv s" "order_ok ord"
    and "mapOutcome (ixKindEvents sz ord (snd s)) ks = (Ok evss :: (ix_error, _) outcome)"
    and "distinct ks" "set ks \<inter> K = {}" "set ks \<union> K = UNIV" "restoring K (snd s) t"
  shows "keeps ub t (concat evss @ [wfNewPbSnapshotEnd])"
  using assms(4-8)
proof (induction ks arbitrary: K t evss)
  case Nil
  then have K: "K = UNIV" "evss = []" by simp_all
  have t: "ix_inv t" by (rule restoring_keeps_inv [OF assms(2) Nil.prems(5)])
  have "ix_inv ((ixCount (fst t))\<lparr>ix_nEventsSinceSnapshot := 0\<rparr>, (snd t)\<lparr>iv_vid := v\<rparr>)" for v
    using t by (simp add: ix_inv_def ixCount_def)
  then show ?case using t by (auto simp: K(2) ixAdvanceBoth_def ixAdvanceEv_def ivLoadEvent_def Let_def)
next
  case (Cons k ks)
  have iv: "ivKeyed (snd s)" using assms(2) by (simp add: ix_inv_def)
  have t: "ix_inv t" by (rule restoring_keeps_inv [OF assms(2) Cons.prems(5)])
  obtain e es where e: "ixKindEvents sz ord (snd s) k = (Ok e :: (ix_error, _) outcome)"
    "mapOutcome (ixKindEvents sz ord (snd s)) ks = (Ok es :: (ix_error, _) outcome)" "evss = e # es"
    using Cons.prems(1) by (auto simp: outcome_simps)
  have IH: "keeps ub t' (concat es @ [wfNewPbSnapshotEnd])" if "restoring (insert k K) (snd s) t'" for t'
    by (rule Cons.IH [OF e(2) _ _ _ that]) (use Cons.prems(2-4) in auto)
  show ?case
  proof (cases "ixKindEmpty (snd s) k")
    case True
    then show ?thesis using e IH [OF restoring_empty [OF True Cons.prems(5)]] by (simp add: ixKindEvents_def)
  next
    case False
    then have evss: "concat evss @ [wfNewPbSnapshotEnd] =
        wfNewPbWorkflowIndexSnapshotState (ixKindState ord (snd s) k) # concat es @ [wfNewPbSnapshotEnd]"
      using e(1,3) by (auto simp: ixKindEvents_def Let_def split: if_split_asm)
    have k: "k \<notin> K" using Cons.prems(3) by auto
    have "\<exists>t'. ixAdvanceBoth t v (WvWorkflowIndexSnapshotState (ixKindState ord (snd s) k)) = Ok t' \<and>
        keeps ub ((fst t')\<lparr>ix_vid := v\<rparr>, snd t') (concat es @ [wfNewPbSnapshotEnd])" for v
      using restoring_kind [OF iv assms(3) k Cons.prems(5), of v] IH by (metis restoring_vid)
    then show ?thesis unfolding evss using t parse_WorkflowIndexSnapshotState [OF assms(1)] by simp
  qed
qed

lemma snapshot_keeps:
  assumes "ulid_binary ub" "ix_inv s" "order_ok ord" and "ixSnapshot sz ord (snd s) = (Ok pbs :: (ix_error, _) outcome)"
  shows "keeps ub s pbs"
proof -
  obtain evss where e: "mapOutcome (ixKindEvents sz ord (snd s)) indexKinds = (Ok evss :: (ix_error, _) outcome)"
    and pbs: "pbs = wfNewPbSnapshotBegin # concat evss @ [wfNewPbSnapshotEnd]"
    using assms(4) by (auto simp: ixSnapshot_def outcome_simps)
  have all: "distinct indexKinds" "set indexKinds = UNIV"
    using ix_kind.exhaust by (auto simp: indexKinds_def)
  have "\<exists>t. ixAdvanceBoth s v WvSnapshotBegin = Ok t \<and> restoring {} (snd s) t" for v
    using ivReset_vid [of v "snd s" "snd s"]
    by (auto simp: ixAdvanceBoth_def ixAdvanceEv_def ivLoadEvent_def restoring_def ivKeep_ends Let_def)
  moreover have "keeps ub t (concat evss @ [wfNewPbSnapshotEnd])" if "restoring {} (snd s) t" for t
    by (rule kinds_keep [OF assms(1-3) e all(1) _ _ that]) (simp_all add: all(2))
  ultimately have "\<exists>t. ixAdvanceBoth s v WvSnapshotBegin = Ok t \<and>
      keeps ub ((fst t)\<lparr>ix_vid := v\<rparr>, snd t) (concat evss @ [wfNewPbSnapshotEnd])" for v
    by (metis restoring_vid)
  then show ?thesis unfolding pbs using assms(2) by simp
qed

text \<open>Every other command emits at most one message.\<close>

lemma ixTell_short:
  assumes "ixTell sz ord ld g st c = Ok evs"
  shows "length evs \<le> 1 \<or> (\<exists>b. c = IxCmdSnapshot b)"
proof -
  have one: "length evs \<le> 1" if "ixEmit g v [p] = Ok evs" for v p
    using that newEventsLoop_length [of wfSetPb g 0 v "[p]" evs] by (simp only: ixEmit_Ok wfNewEvents_def list.size)
  show ?thesis
    by (cases c) (use assms one in \<open>auto simp: ixTell_defs ixTellBegin_def ixTellCommit_def ixTellDelete_def outcome_simps(1)
      split: if_split_asm\<close>)
qed

lemma ixTell_keeps:
  assumes "ulid_binary ub" "order_ok ord" "ix_inv s" "ix_pre sz ord s c" "ixTell sz ord (\<lambda>_. Ok (snd s)) g (fst s) c = Ok evs"
  shows "\<exists>pbs. wfNewEvents g (ix_vid (fst s)) pbs = Inr evs \<and> keeps ub s pbs"
proof (cases "length evs \<le> 1")
  case True
  obtain pbs where pbs: "wfNewEvents g (ix_vid (fst s)) pbs = Inr evs" "ix_moves sz ord ub ix_inv s pbs"
    using ixTell_moves [OF assms] unfolding told_moves_def by blast
  then have "length pbs \<le> 1" using True newEventsLoop_length unfolding wfNewEvents_def by metis
  then show ?thesis using pbs moves_keeps [OF assms(3)] by blast
next
  case False
  then obtain b where c: "c = IxCmdSnapshot b" using ixTell_short [OF assms(5)] by blast
  then obtain pbs where pbs: "ixSnapshot sz ord (snd s) = (Ok pbs :: (ix_error, _) outcome)"
      "wfNewEvents g (ix_vid (fst s)) pbs = Inr evs"
    using assms(5) False by (auto simp: ixTellSnapshot_def Let_def outcome_simps split: if_split_asm)
  then show ?thesis using snapshot_keeps [OF assms(1,3,2)] by blast
qed

lemma gc_live_replay:
  assumes "ulid_binary ub" "order_ok ord" "ix_live sz ord pm pu ub i s hist"
  shows "gvReplay ub gvNew hist = Ok (gcView (snd s))"
  using assms(3)
proof induction
  case live_new
  then show ?case by (simp add: gcView_def gvNew_def ivNew_def)
next
  case (live_tell s hist c g evs s')
  have inv: "ix_inv s" by (rule ix_live_inv [OF assms(1,2) live_tell.hyps(1)])
  obtain pbs where pbs: "wfNewEvents g (ix_vid (fst s)) pbs = Inr evs" "keeps ub s pbs"
    using ixTell_keeps [OF assms(1,2) inv live_tell.hyps(2)] live_tell.hyps(3) by auto
  from keeps_gc [OF pbs(2) pbs(1) [unfolded wfNewEvents_def], of sz ord pm pu] live_tell.hyps(4)
  show ?case by (auto simp: gvReplay_append live_tell.IH)
qed

section \<open>Properties\<close>

text \<open>
  The index commands that the collector tells for the workflows of a view meet the obligations of the index, and are not
  refused as unknown.
\<close>

definition gc_allowed :: "(WorkflowPb \<Rightarrow> nat) \<Rightarrow> map_order \<Rightarrow> IndexState \<times> IndexView \<Rightarrow> GcView \<Rightarrow> bool" where
  "gc_allowed sz ord s gv \<longleftrightarrow>
     (\<forall>w v. v \<noteq> ulidNil \<longrightarrow>
       (gv_duRootActive gv w \<noteq> None \<longrightarrow> isActiveWorkflow (fst s) w \<and> ix_pre sz ord s (IxCommitDuRoot w v)) \<and>
       (gv_pingRegistryActive gv w \<noteq> None \<longrightarrow> isActiveWorkflow (fst s) w \<and> ix_pre sz ord s (IxCommitPingRegistry w v)) \<and>
       (gv_splitRootActive gv w \<noteq> None \<longrightarrow> isActiveWorkflow (fst s) w \<and> ix_pre sz ord s (IxCommitSplitRoot w v)) \<and>
       (gv_duRootCompleted gv w \<noteq> None \<longrightarrow> isCompletedWorkflow (fst s) w \<and> ix_pre sz ord s (IxDeleteDuRoot w)) \<and>
       (gv_pingRegistryCompleted gv w \<noteq> None \<longrightarrow> isCompletedWorkflow (fst s) w \<and> ix_pre sz ord s (IxDeletePingRegistry w)) \<and>
       (gv_splitRootCompleted gv w \<noteq> None \<longrightarrow> isCompletedWorkflow (fst s) w \<and> ix_pre sz ord s (IxDeleteSplitRoot w)))"

lemma gc_allowed_view:
  assumes "ix_inv s"
  shows "gc_allowed sz ord s (gcView (snd s))"
proof -
  note stat = ix_inv_stat(1,2) [OF assms]
  have "v \<noteq> ulidNil \<Longrightarrow> ivStat (snd s) k w = Some False \<Longrightarrow> isActiveWorkflow (fst s) w \<and> commit_ok s k w v" for k w v
    using stat(1) by (simp add: commit_ok_def isActiveWorkflow_def)
  moreover have "ivStat (snd s) k w = Some True \<Longrightarrow> isCompletedWorkflow (fst s) w \<and> delete_ok s k w" for k w
    using stat(2) by (simp add: delete_ok_def isCompletedWorkflow_def)
  moreover have "ix_pre sz ord s (IxCommitDuRoot w v) = commit_ok s KDuRoot w v" "ix_pre sz ord s (IxDeleteDuRoot w) = delete_ok s KDuRoot w"
    "ix_pre sz ord s (IxCommitPingRegistry w v) = commit_ok s KPingRegistry w v"
    "ix_pre sz ord s (IxDeletePingRegistry w) = delete_ok s KPingRegistry w"
    "ix_pre sz ord s (IxCommitSplitRoot w v) = commit_ok s KSplitRoot w v" "ix_pre sz ord s (IxDeleteSplitRoot w) = delete_ok s KSplitRoot w"
    for w v by (simp_all add: ix_pre_def)
  moreover have "entStat (iv_duRoot iv) = ivStat iv KDuRoot" "entStat (iv_pingRegistry iv) = ivStat iv KPingRegistry"
    "entStat (iv_splitRoot iv) = ivStat iv KSplitRoot" for iv by (simp_all add: ivStat_def)
  ultimately show ?thesis unfolding gc_allowed_def gcView_def GcView.simps parts_stat by presburger
qed

text \<open>
  C40: the garbage collector's view: loading it from a consistent journal ends without a panic, while other processes use
  the index in between, and gives either an error of a database operation or exactly the active and completed
  workflows of its three kinds in a live index whose history is what the journal held at one moment; the commands that the
  collector tells the index for them are allowed in that index.
\<close>

theorem gc_view_loads:
  assumes "wf_env r (ixBehavior sz ord) ixEventType (ix_pre sz ord) view rely H" and "order_ok ord" and "i \<in> H"
    and "jinv (wf_hist r (ixBehavior sz ord) ixEventType (ix_pre sz ord) H) (wk_par r) (view db)"
  shows "\<exists>res db'. gcLoadIndexView (wk_mongo r) (wk_dp r) (wk_ub r) (ivOps (wk_pm r) (wk_pu r) (wk_ub r)) i db = Some (res, db') \<and>
    evolves (wf_hist r (ixBehavior sz ord) ixEventType (ix_pre sz ord) H) (wk_par r) (view db) (view db') \<and>
    (case res of
       Panic _ \<Rightarrow> False
     | Err e \<Rightarrow> isDBError e
     | Ok gv \<Rightarrow> \<exists>s hist v0.
         live (ixBehavior sz ord (wk_ub r)) (ixOps (wk_pm r) (wk_pu r) (wk_ub r)) (ix_pre sz ord) i s hist \<and>
         gv = gcView (snd s) \<and> gc_allowed sz ord s gv \<and>
         evolves (wf_hist r (ixBehavior sz ord) ixEventType (ix_pre sz ord) H) (wk_par r) (view db) v0 \<and>
         evolves (wf_hist r (ixBehavior sz ord) ixEventType (ix_pre sz ord) H) (wk_par r) v0 (view db') \<and>
         snapshot (wk_par r) v0 i (map ev_id hist))"
proof (rule index_read [OF assms])
  let ?L = "wf_hist r (ixBehavior sz ord) ixEventType (ix_pre sz ord) H"
  fix it db' v0 s hist n it1
  assume find: "journalFind (wk_mongo r) (wk_dp r) (wk_ub r) i EventEpoch db = Some (Ok it, db')"
    and ev: "evolves ?L (wk_par r) (view db) v0" "evolves ?L (wk_par r) v0 (view db')"
    and l: "ix_live sz ord (wk_pm r) (wk_pu r) (wk_ub r) i s hist" and snap: "snapshot (wk_par r) v0 i (map ev_id hist)"
    and drain: "drain (ivOps (wk_pm r) (wk_pu r) (wk_ub r)) it = Ok (take n hist, it1)"
    and close: "case iterClose it1 of Some e \<Rightarrow> isDBError e | None \<Rightarrow> take n hist = hist"
  have ub: "ulid_binary (wk_ub r)" using assms(1) by (simp add: wf_env_def wk_codecs_def)
  note gv = gc_live_replay [OF ub assms(2) l] and evs = evolves_trans [OF ev]
  obtain gv1 where gv1: "gvReplay (wk_ub r) gvNew (take n hist) = Ok gv1" using gvReplay_take [OF gv] by blast
  have loop: "gcLoadLoop (wk_ub r) (ivOps (wk_pm r) (wk_pu r) (wk_ub r)) gvNew it = Ok (gv1, it1)"
    using gcLoadLoop_drain [OF drain] gv1 by simp
  show ?thesis
  proof (cases "iterClose it1")
    case None
    then have "gv1 = gcView (snd s)" using close gv gv1 by simp
    then have run: "gcLoadIndexView (wk_mongo r) (wk_dp r) (wk_ub r) (ivOps (wk_pm r) (wk_pu r) (wk_ub r)) i db =
        Some (Ok (gcView (snd s)), db')"
      using loop find None by (simp add: gcLoadIndexView_def dbind_def ret_def)
    have "gc_allowed sz ord s (gcView (snd s))" by (rule gc_allowed_view [OF ix_live_inv [OF ub assms(2) l]])
    with run evs show ?thesis
      by (intro exI [of _ "Ok (gcView (snd s))"] exI [of _ db'] conjI, simp_all only: outcome.case)
        (intro exI [of _ s] exI [of _ hist] exI [of _ v0] conjI l ev refl snap)
  next
    case (Some e)
    then show ?thesis using loop find evs close by (simp add: gcLoadIndexView_def dbind_def ret_def)
  qed
qed

theorem gc_view_loads_witness:
  "\<exists>res db'. gcLoadIndexView memMongo (wk_dp (wk_demo (wfPb WT_SNAPSHOT_BEGIN))) ulidUnmarshal
       (wk_ops (wk_demo (wfPb WT_SNAPSHOT_BEGIN)) (\<lambda>_. True)) 7 mem0 = Some (res, db') \<and> \<not> is_Panic res"
proof -
  let ?r = "wk_demo (wfPb WT_SNAPSHOT_BEGIN)" and ?b = "ixBehavior (\<lambda>_. 0) ascending" and ?p = "ix_pre (\<lambda>_. 0) ascending"
  have m: "wk_mongo ?r = memMongo" by (simp add: wk_demo_def)
  have "7 \<in> {7 :: uuid}" by simp
  from gc_view_loads [OF wk_demo_env [of "wfPb WT_SNAPSHOT_BEGIN" ?b ixEventType ?p "{7}"] ascending_ok this mem0_inv]
  show ?thesis unfolding wk_demo_ub m by (elim exE conjE) (intro exI conjI, assumption, erule case_no_panic)
qed

end
