(* ===== verification/Fso_Service.thy ===== *)
theory Fso_Service
  imports Event_Server Event_Memory Ux_Engine Fso_Repos_Props Fso_Registry_Props
begin

text \<open>
  Repos and the registry on the event-sourcing engine: the methods of the types \<open>Repos\<close> and \<open>Registry\<close>, which
  forward commands to the engine, the proof that the aggregates satisfy the engine's contract, and what holds when
  several processes serve requests on one journal.
\<close>

section \<open>Repos\<close>

record 'db ReposEngine =
  rr_mongo :: "'db Mongo"
  rr_dp :: decode_parent
  rr_ub :: ulid_unmarshal
  rr_pm :: "RepoPb \<Rightarrow> goerr + byte list"
  rr_pu :: "byte list \<Rightarrow> goerr + RepoPb"
  rr_us :: "uuid \<Rightarrow> string" \<comment> \<open>\<open>String()\<close> of an id\<close>

abbreviation rr_ops :: "'db ReposEngine \<Rightarrow> RepoPb Event EventOps" where
  "rr_ops r \<equiv> repoEventOps (rr_pm r) (rr_pu r) (rr_ub r)"

abbreviation rr_beh :: "'db ReposEngine \<Rightarrow> (RepoState, RepoCmd, RepoPb Event, repo_error) Behavior" where
  "rr_beh r \<equiv> repoBehavior (rr_ub r) (rr_us r)"

definition rrTellState ::
  "'db ReposEngine \<Rightarrow> id_sources \<Rightarrow> uuid \<Rightarrow> ulid \<Rightarrow> RepoCmd \<Rightarrow>
   (('db, RepoState) eng, repo_error EngineError, RepoState) dbm" where
  "rrTellState r gs i vid cmd =
     TellIdVidState (rr_mongo r) (rr_dp r) (rr_ub r) (rr_beh r) (rr_ops r) (\<lambda>_. False) gs i vid cmd"

definition rrTell ::
  "'db ReposEngine \<Rightarrow> id_sources \<Rightarrow> uuid \<Rightarrow> ulid \<Rightarrow> RepoCmd \<Rightarrow>
   (('db, RepoState) eng, repo_error EngineError, ulid) dbm" where
  "rrTell r gs i vid cmd =
     TellIdVid (rr_mongo r) (rr_dp r) (rr_ub r) (rr_beh r) (rr_ops r) (\<lambda>_. False) gs i vid cmd"

definition reposFindId ::
  "'db ReposEngine \<Rightarrow> uuid \<Rightarrow> (('db, RepoState) eng, repo_error EngineError, RepoState) dbm" where
  "reposFindId r i =
     dbind (FindId (rr_mongo r) (rr_dp r) (rr_ub r) (rr_beh r) (rr_ops r) i)
       (\<lambda>s. if rs_vid s = EventEpoch then ret (Err (BehaviorError ErrUninitialized)) else ret (Ok s))"

definition reposInit where
  "reposInit r gs i cmd = rrTell r gs i NoVC (InitRepo cmd)"

definition reposConfirmShadow where
  "reposConfirmShadow r gs i vid shadowPath = rrTell r gs i vid (ConfirmShadow shadowPath)"

definition reposBeginMoveRepo where
  "reposBeginMoveRepo r gs i vid cmd = rrTell r gs i vid (BeginMoveRepo cmd)"

definition reposCommitMoveRepo where
  "reposCommitMoveRepo r gs i vid cmd = rrTell r gs i vid (CommitMoveRepo cmd)"

definition reposBeginMoveShadow where
  "reposBeginMoveShadow r gs i vid workflowId newShadowPath = rrTell r gs i vid (BeginMoveShadow workflowId newShadowPath)"

definition reposCommitMoveShadow where
  "reposCommitMoveShadow r gs i vid workflowId workflowEventId = rrTell r gs i vid (CommitMoveShadow workflowId workflowEventId)"

definition reposInitTartt where
  "reposInitTartt r gs i vid tarttURL = rrTell r gs i vid (InitTartt tarttURL)"

definition reposUpdateArchiveRecipients where
  "reposUpdateArchiveRecipients r gs i vid keys = rrTellState r gs i vid (UpdateArchiveRecipients keys)"

definition reposDeleteArchiveRecipients where
  "reposDeleteArchiveRecipients r gs i vid = rrTell r gs i vid DeleteArchiveRecipients"

definition reposInitShadowBackup where
  "reposInitShadowBackup r gs i vid shadowBackupURL = rrTell r gs i vid (InitShadowBackup shadowBackupURL)"

definition reposUpdateShadowBackupRecipients where
  "reposUpdateShadowBackupRecipients r gs i vid keys = rrTellState r gs i vid (UpdateShadowBackupRecipients keys)"

definition reposDeleteShadowBackupRecipients where
  "reposDeleteShadowBackupRecipients r gs i vid = rrTell r gs i vid DeleteShadowBackupRecipients"

definition reposMoveShadowBackup where
  "reposMoveShadowBackup r gs i vid shadowBackupURL = rrTell r gs i vid (MoveShadowBackup shadowBackupURL)"

definition reposConfirmGit where
  "reposConfirmGit r gs i vid gitlabProjectId = rrTell r gs i vid (ConfirmGit gitlabProjectId)"

definition reposEnableGitlab where
  "reposEnableGitlab r gs i vid gitlabNamespace = rrTell r gs i vid (EnableGitlab gitlabNamespace)"

definition reposSetRepoError where
  "reposSetRepoError r gs i vid errorMessage = rrTell r gs i vid (SetRepoError errorMessage)"

definition reposClearRepoError where
  "reposClearRepoError r gs i vid errorMessage = rrTell r gs i vid (ClearRepoError errorMessage)"

definition reposBeginFreeze where
  "reposBeginFreeze r gs i vid workflowId = rrTell r gs i vid (BeginFreeze workflowId)"

definition reposCommitFreeze where
  "reposCommitFreeze r gs i vid workflowId = rrTell r gs i vid (CommitFreeze workflowId)"

definition reposAbortFreeze where
  "reposAbortFreeze r gs i vid workflowId code msg = rrTell r gs i vid (AbortFreeze workflowId code msg)"

definition reposBeginUnfreeze where
  "reposBeginUnfreeze r gs i vid workflowId = rrTell r gs i vid (BeginUnfreeze workflowId)"

definition reposCommitUnfreeze where
  "reposCommitUnfreeze r gs i vid workflowId = rrTell r gs i vid (CommitUnfreeze workflowId)"

definition reposAbortUnfreeze where
  "reposAbortUnfreeze r gs i vid workflowId code msg = rrTell r gs i vid (AbortUnfreeze workflowId code msg)"

definition reposBeginArchive where
  "reposBeginArchive r gs i vid workflowId = rrTell r gs i vid (BeginArchive workflowId)"

definition reposCommitArchive where
  "reposCommitArchive r gs i vid workflowId tarPath = rrTell r gs i vid (CommitArchive workflowId tarPath)"

definition reposAbortArchive where
  "reposAbortArchive r gs i vid workflowId code msg = rrTell r gs i vid (AbortArchive workflowId code msg)"

definition reposBeginUnarchive where
  "reposBeginUnarchive r gs i vid workflowId = rrTell r gs i vid (BeginUnarchive workflowId)"

definition reposCommitUnarchive where
  "reposCommitUnarchive r gs i vid workflowId = rrTell r gs i vid (CommitUnarchive workflowId)"

definition reposAbortUnarchive where
  "reposAbortUnarchive r gs i vid workflowId code msg = rrTell r gs i vid (AbortUnarchive workflowId code msg)"

section \<open>The registry\<close>

record 'db RegistryEngine =
  rg_mongo :: "'db Mongo"
  rg_dp :: decode_parent
  rg_ub :: ulid_unmarshal
  rg_pm :: "RegistryPb \<Rightarrow> goerr + byte list"
  rg_pu :: "byte list \<Rightarrow> goerr + RegistryPb"
  rg_mo :: MapOrder
  rg_pre :: Preconditions

abbreviation rg_ops :: "'db RegistryEngine \<Rightarrow> RegistryPb Event EventOps" where
  "rg_ops r \<equiv> regEventOps (rg_pm r) (rg_pu r) (rg_ub r)"

abbreviation rg_beh :: "'db RegistryEngine \<Rightarrow> (RegState, RegCmd, RegistryPb Event, reg_error) Behavior" where
  "rg_beh r \<equiv> regBehavior (rg_mo r) (rg_pre r) (rg_ub r)"

definition rgTellStateId ::
  "'db RegistryEngine \<Rightarrow> id_sources \<Rightarrow> uuid \<Rightarrow> ulid \<Rightarrow> RegCmd \<Rightarrow>
   (('db, RegState) eng, reg_error EngineError, RegState) dbm" where
  "rgTellStateId r gs i vid cmd =
     TellIdVidState (rg_mongo r) (rg_dp r) (rg_ub r) (rg_beh r) (rg_ops r) (\<lambda>_. False) gs i vid cmd"

definition rgTellId ::
  "'db RegistryEngine \<Rightarrow> id_sources \<Rightarrow> uuid \<Rightarrow> ulid \<Rightarrow> RegCmd \<Rightarrow>
   (('db, RegState) eng, reg_error EngineError, ulid) dbm" where
  "rgTellId r gs i vid cmd =
     TellIdVid (rg_mongo r) (rg_dp r) (rg_ub r) (rg_beh r) (rg_ops r) (\<lambda>_. False) gs i vid cmd"

definition registryFindId ::
  "'db RegistryEngine \<Rightarrow> uuid \<Rightarrow> (('db, RegState) eng, reg_error EngineError, RegState) dbm" where
  "registryFindId r i =
     dbind (FindId (rg_mongo r) (rg_dp r) (rg_ub r) (rg_beh r) (rg_ops r) i)
       (\<lambda>s. if gs_vid s = EventEpoch then ret (Err (BehaviorError RgErrUninitialized)) else ret (Ok s))"

text \<open>
  \<open>InitRepo()\<close> draws an id for the repo unless the command has one; the second argument is the result of
  \<open>uuid.NewRandom()\<close>.
\<close>

definition ensureId :: "goerr + uuid \<Rightarrow> RgCmdInitRepo \<Rightarrow> goerr + RgCmdInitRepo" where
  "ensureId rnd c =
     (if gc_Id c \<noteq> uuidNil then Inr c
      else case rnd of Inl e \<Rightarrow> Inl e | Inr i \<Rightarrow> Inr (c\<lparr>gc_Id := i\<rparr>))"

definition registryInitRepo ::
  "'db RegistryEngine \<Rightarrow> id_sources \<Rightarrow> goerr + uuid \<Rightarrow> uuid \<Rightarrow> ulid \<Rightarrow> RgCmdInitRepo \<Rightarrow>
   (('db, RegState) eng, reg_error EngineError, ulid \<times> uuid) dbm" where
  "registryInitRepo r gs rnd i vid cmd =
     (case ensureId rnd cmd of
        Inl e \<Rightarrow> ret (Err (BehaviorError (RgLibError e)))
      | Inr c \<Rightarrow> dbind (rgTellId r gs i vid (RgInitRepo c)) (\<lambda>newVid. ret (Ok (newVid, gc_Id c))))"

definition registryInit where
  "registryInit r gs i name = rgTellId r gs i NoVC (RgInitRegistry name)"

definition registryEnableEphemeralWorkflows where
  "registryEnableEphemeralWorkflows r gs i vid ephemeralWorkflowsId = rgTellId r gs i vid (RgEnableEphemeralWorkflows ephemeralWorkflowsId)"

definition registryEnablePropagateRootAcls where
  "registryEnablePropagateRootAcls r gs i vid = rgTellId r gs i vid RgEnablePropagateRootAcls"

definition registryInitRoot where
  "registryInitRoot r gs i vid globalRoot host hostRoot gitlabNamespace = rgTellId r gs i vid (RgInitRoot globalRoot host hostRoot gitlabNamespace)"

definition registryRemoveRoot where
  "registryRemoveRoot r gs i vid groot = rgTellId r gs i vid (RgRemoveRoot groot)"

definition registryEnableGitlab where
  "registryEnableGitlab r gs i vid globalRoot gitlabNamespace = rgTellId r gs i vid (RgEnableGitlab globalRoot gitlabNamespace)"

definition registryDisableGitlab where
  "registryDisableGitlab r gs i vid groot = rgTellId r gs i vid (RgDisableGitlab groot)"

definition registrySetRepoNaming where
  "registrySetRepoNaming r gs i vid naming = rgTellId r gs i vid (RgSetRepoNaming naming)"

definition registryPatchRepoNaming where
  "registryPatchRepoNaming r gs i vid namingPatch = rgTellId r gs i vid (RgPatchRepoNaming namingPatch)"

definition registryEnableDiscoveryPaths where
  "registryEnableDiscoveryPaths r gs i vid globalRoot paths = rgTellId r gs i vid (RgEnableDiscoveryPaths (TrimRight globalRoot (CHR ''/'')) paths)"

definition registrySetRepoInitPolicy where
  "registrySetRepoInitPolicy r gs i vid policy = rgTellId r gs i vid (RgSetRepoInitPolicy policy)"

definition registryUpdateRootArchiveRecipients where
  "registryUpdateRootArchiveRecipients r gs i vid globalRoot keys = rgTellStateId r gs i vid (RgUpdateRootArchiveRecipients globalRoot keys)"

definition registryDeleteRootArchiveRecipients where
  "registryDeleteRootArchiveRecipients r gs i vid globalRoot = rgTellId r gs i vid (RgDeleteRootArchiveRecipients globalRoot)"

definition registryUpdateRootShadowBackupRecipients where
  "registryUpdateRootShadowBackupRecipients r gs i vid globalRoot keys = rgTellStateId r gs i vid (RgUpdateRootShadowBackupRecipients globalRoot keys)"

definition registryDeleteRootShadowBackupRecipients where
  "registryDeleteRootShadowBackupRecipients r gs i vid globalRoot = rgTellId r gs i vid (RgDeleteRootShadowBackupRecipients globalRoot)"

definition registryReinitRepo where
  "registryReinitRepo r gs i vid repoId reason = rgTellId r gs i vid (RgReinitRepo repoId reason)"

definition registryEnableGitlabRepo where
  "registryEnableGitlabRepo r gs i vid repoId gitlabNamespace = rgTellId r gs i vid (RgEnableGitlabRepo repoId gitlabNamespace)"

definition registryConfirmRepo where
  "registryConfirmRepo r gs i vid repoId repoEventId = rgTellId r gs i vid (RgConfirmRepo repoId repoEventId)"

definition registryBeginMoveRepo where
  "registryBeginMoveRepo r gs i vid repoId workflowId newGlobalPath isUnchanged = rgTellId r gs i vid (RgBeginMoveRepo repoId workflowId newGlobalPath isUnchanged)"

definition registryCommitMoveRepo where
  "registryCommitMoveRepo r gs i vid repoId workflowId repoEventId globalPath = rgTellId r gs i vid (RgCommitMoveRepo repoId workflowId repoEventId globalPath)"

definition registryPostShadowRepoMoveStarted where
  "registryPostShadowRepoMoveStarted r gs i vid repoId repoEventId workflowId = rgTellId r gs i vid (RgPostShadowRepoMoveStarted repoId repoEventId workflowId)"

definition registryCreateSplitRootConfig where
  "registryCreateSplitRootConfig r gs i vid groot cfg = rgTellStateId r gs i vid (RgCreateSplitRootConfig groot cfg)"

definition registryUpdateSplitRootConfig where
  "registryUpdateSplitRootConfig r gs i vid groot cfg = rgTellStateId r gs i vid (RgUpdateSplitRootConfig groot cfg)"

definition registryDeleteSplitRootConfig where
  "registryDeleteSplitRootConfig r gs i vid groot = rgTellId r gs i vid (RgDeleteSplitRootConfig groot)"

definition registrySetPathFlags where
  "registrySetPathFlags r gs i vid path flags = rgTellId r gs i vid (RgSetPathFlags path flags)"

definition registryUnsetPathFlags where
  "registryUnsetPathFlags r gs i vid path flags = rgTellId r gs i vid (RgUnsetPathFlags path flags)"

definition registryBeginFreezeRepo where
  "registryBeginFreezeRepo r gs i vid repoId workflowId = rgTellId r gs i vid (RgBeginFreezeRepo repoId workflowId)"

definition registryCommitFreezeRepo where
  "registryCommitFreezeRepo r gs i vid repoId workflowId = rgTellId r gs i vid (RgCommitFreezeRepo repoId workflowId)"

definition registryAbortFreezeRepo where
  "registryAbortFreezeRepo r gs i vid repoId workflowId code = rgTellId r gs i vid (RgAbortFreezeRepo repoId workflowId code)"

definition registryBeginUnfreezeRepo where
  "registryBeginUnfreezeRepo r gs i vid repoId workflowId = rgTellId r gs i vid (RgBeginUnfreezeRepo repoId workflowId)"

definition registryCommitUnfreezeRepo where
  "registryCommitUnfreezeRepo r gs i vid repoId workflowId = rgTellId r gs i vid (RgCommitUnfreezeRepo repoId workflowId)"

definition registryAbortUnfreezeRepo where
  "registryAbortUnfreezeRepo r gs i vid repoId workflowId code = rgTellId r gs i vid (RgAbortUnfreezeRepo repoId workflowId code)"

definition registryBeginArchiveRepo where
  "registryBeginArchiveRepo r gs i vid repoId workflowId = rgTellId r gs i vid (RgBeginArchiveRepo repoId workflowId)"

definition registryCommitArchiveRepo where
  "registryCommitArchiveRepo r gs i vid repoId workflowId = rgTellId r gs i vid (RgCommitArchiveRepo repoId workflowId)"

definition registryAbortArchiveRepo where
  "registryAbortArchiveRepo r gs i vid repoId workflowId code = rgTellId r gs i vid (RgAbortArchiveRepo repoId workflowId code)"

definition registryBeginUnarchiveRepo where
  "registryBeginUnarchiveRepo r gs i vid repoId workflowId = rgTellId r gs i vid (RgBeginUnarchiveRepo repoId workflowId)"

definition registryCommitUnarchiveRepo where
  "registryCommitUnarchiveRepo r gs i vid repoId workflowId = rgTellId r gs i vid (RgCommitUnarchiveRepo repoId workflowId)"

definition registryAbortUnarchiveRepo where
  "registryAbortUnarchiveRepo r gs i vid repoId workflowId code = rgTellId r gs i vid (RgAbortUnarchiveRepo repoId workflowId code)"

section \<open>The engine's contract holds\<close>

lemma newEventsLoop_ids:
  "newEventsLoop setPb g n v pbs = Inr evs \<Longrightarrow> \<forall>k i. g k = Inr i \<longrightarrow> i \<noteq> ulidNil \<Longrightarrow>
     \<forall>ev \<in> set evs. ev_id ev \<noteq> ulidNil"
  by (induction pbs arbitrary: n v evs) (fastforce split: sum.splits)+

text \<open>
  \<open>proto.Unmarshal\<close> into the general message \<open>pb.Event\<close> reads the parent that was marshalled as part of a specific
  message.
\<close>

definition rr_codecs :: "'db ReposEngine \<Rightarrow> bool" where
  "rr_codecs r \<longleftrightarrow> repo_codec (rr_pm r) (rr_pu r) \<and> ulid_binary (rr_ub r) \<and>
     (\<forall>p bs. repo_pb_ok p \<longrightarrow> rr_pm r p = Inr bs \<longrightarrow> rr_dp r bs = Inr (rp_Parent p))"

definition rg_codecs :: "'db RegistryEngine \<Rightarrow> bool" where
  "rg_codecs r \<longleftrightarrow> reg_codec (rg_pm r) (rg_pu r) \<and> ulid_binary (rg_ub r) \<and>
     (\<forall>p bs. reg_pb_ok p \<longrightarrow> rg_pm r p = Inr bs \<longrightarrow> rg_dp r bs = Inr (gp_Parent p))"

abbreviation rr_par :: "'db ReposEngine \<Rightarrow> byte list \<Rightarrow> ulid option" where
  "rr_par r \<equiv> docParent (rr_dp r) (rr_ub r)"

abbreviation rg_par :: "'db RegistryEngine \<Rightarrow> byte list \<Rightarrow> ulid option" where
  "rg_par r \<equiv> docParent (rg_dp r) (rg_ub r)"

lemma repo_event_codec:
  assumes "rr_codecs r"
  shows "event_codec (rr_ops r) (repo_event_wf (rr_ub r)) (rr_par r)"
proof (intro event_codec.intro repo_event_ops event_codec_axioms.intro)
  fix ev bs assume wf: "repo_event_wf (rr_ub r) ev" and m: "MarshalProto (rr_ops r) ev = Inr bs"
  have "rr_dp r bs = Inr (rp_Parent p)" if "repo_pb_ok p" "rr_pm r p = Inr bs" for p
    using assms that by (simp add: rr_codecs_def)
  from this [of "ev_pb ev"] have "rr_dp r bs = Inr (Some (idBytes (ev_parent ev)))"
    using wf m by (simp add: repo_event_wf_def repoEventOps_def repoMarshalProto_def)
  then show "rr_par r bs = Some (EvParent (rr_ops r) ev)"
    using assms by (simp add: docParent_def repoEventOps_def rr_codecs_def)
  show "UnmarshalProto (rr_ops r) bs = Ok ev"
    using repo_roundtrip [OF _ _ wf, of "rr_pm r" "rr_pu r" bs] assms m by (simp add: repoEventOps_def rr_codecs_def)
qed (auto simp: repoEventOps_def repoWithId_def repoWithParent_def repo_event_wf_def repo_pb_ok_def)

lemma reg_event_codec:
  assumes "rg_codecs r"
  shows "event_codec (rg_ops r) (reg_event_wf (rg_ub r)) (rg_par r)"
proof (intro event_codec.intro reg_event_ops event_codec_axioms.intro)
  fix ev bs assume wf: "reg_event_wf (rg_ub r) ev" and m: "MarshalProto (rg_ops r) ev = Inr bs"
  have "rg_dp r bs = Inr (gp_Parent p)" if "reg_pb_ok p" "rg_pm r p = Inr bs" for p
    using assms that by (simp add: rg_codecs_def)
  from this [of "ev_pb ev"] have "rg_dp r bs = Inr (Some (idBytes (ev_parent ev)))"
    using wf m by (simp add: reg_event_wf_def regEventOps_def regMarshalProto_def)
  then show "rg_par r bs = Some (EvParent (rg_ops r) ev)"
    using assms by (simp add: docParent_def regEventOps_def rg_codecs_def)
  show "UnmarshalProto (rg_ops r) bs = Ok ev"
    using reg_roundtrip [OF _ _ wf, of "rg_pm r" "rg_pu r" bs] assms m by (simp add: regEventOps_def rg_codecs_def)
qed (auto simp: regEventOps_def regWithId_def regWithParent_def reg_event_wf_def reg_pb_ok_def)

lemma repoTell_wf:
  assumes "ulid_binary ub" and "repoTell us g st c = Ok evs" and "\<forall>n i. g n = Inr i \<longrightarrow> i \<noteq> ulidNil"
  shows "\<forall>ev \<in> set evs. repo_event_wf ub ev \<and> ev_id ev \<noteq> ulidNil"
proof -
  note e = repoTell_emits [OF assms(1,2)]
  have "\<forall>ev \<in> set evs. ev_id ev \<noteq> ulidNil"
    using e by (auto simp: emitted_def newEvents_def dest: newEventsLoop_ids [OF _ assms(3)])
  then show ?thesis using emitted_events(2) [OF e] by blast
qed

lemma regTell_wf:
  assumes "ulid_binary ub" and "map_orders mo" and "reg_inv st" and "reg_pre st c" and "regTell mo prec g st c = Ok evs"
    and "\<forall>n i. g n = Inr i \<longrightarrow> i \<noteq> ulidNil"
  shows "\<forall>ev \<in> set evs. reg_event_wf ub ev \<and> ev_id ev \<noteq> ulidNil"
proof -
  obtain pbs es where n: "newEventsLoop regSetPb g 0 (gs_vid st) pbs = Inr evs" "list_all2 (reg_pb_ev ub) pbs es"
    using regTell_result [OF assms(3,2,1,4,5)] by (auto simp: reg_result_def rgNewEvents_def)
  show ?thesis using reg_pbs_wf [OF n(2,1)] newEventsLoop_ids [OF n(1) assms(6)] by blast
qed

text \<open>The environment: the database behaves as documented, and others change it only as these commands do.\<close>

definition repo_hist :: "'db ReposEngine \<Rightarrow> uuid set \<Rightarrow> hist_pred" where
  "repo_hist r H = live_hist (rr_beh r) (rr_ops r) repo_pre (repo_event_wf (rr_ub r)) H"

definition repo_env :: "'db ReposEngine \<Rightarrow> ('db \<Rightarrow> MongoView) \<Rightarrow> (MongoView \<Rightarrow> MongoView \<Rightarrow> bool) \<Rightarrow> uuid set \<Rightarrow> bool" where
  "repo_env r view rely H \<longleftrightarrow> mongo (rr_mongo r) view rely \<and> rr_codecs r \<and>
     (\<forall>v v'. rely v v' \<longrightarrow> evolves (repo_hist r H) (rr_par r) v v')"

definition reg_hist :: "'db RegistryEngine \<Rightarrow> uuid set \<Rightarrow> hist_pred" where
  "reg_hist r H = live_hist (rg_beh r) (rg_ops r) reg_pre (reg_event_wf (rg_ub r)) H"

definition reg_env :: "'db RegistryEngine \<Rightarrow> ('db \<Rightarrow> MongoView) \<Rightarrow> (MongoView \<Rightarrow> MongoView \<Rightarrow> bool) \<Rightarrow> uuid set \<Rightarrow> bool" where
  "reg_env r view rely H \<longleftrightarrow> mongo (rg_mongo r) view rely \<and> rg_codecs r \<and> map_orders (rg_mo r) \<and>
     (\<forall>v v'. rely v v' \<longrightarrow> evolves (reg_hist r H) (rg_par r) v v')"

lemma repo_engine:
  assumes "repo_env r view rely H"
  shows "engine (rr_mongo r) view rely (rr_dp r) (rr_ub r) (rr_ops r) (repo_event_wf (rr_ub r)) (rr_beh r) repo_inv
    repo_pre H"
proof (intro engine.intro journal_codec.intro journal_db.intro journal_db_axioms.intro engine_axioms.intro)
  have ub: "ulid_binary (rr_ub r)" using assms by (simp add: repo_env_def rr_codecs_def)
  show "mongo (rr_mongo r) view rely" using assms by (simp add: repo_env_def)
  show "event_codec (rr_ops r) (repo_event_wf (rr_ub r)) (rr_par r)"
    by (rule repo_event_codec) (use assms in \<open>simp add: repo_env_def\<close>)
  show "aggregate (rr_beh r) (rr_ops r) repo_inv repo_pre" by (rule repo_aggregate [OF ub])
  show "mono_hist (live_hist (rr_beh r) (rr_ops r) repo_pre (repo_event_wf (rr_ub r)) H)" by (rule live_hist_mono)
  show "rely v v' \<Longrightarrow> evolves (live_hist (rr_beh r) (rr_ops r) repo_pre (repo_event_wf (rr_ub r)) H) (rr_par r) v v'"
    for v v'
    using assms by (simp add: repo_env_def repo_hist_def)
  show "Tell (rr_beh r) g s c = Ok evs \<Longrightarrow> \<forall>n i. g n = Inr i \<longrightarrow> i \<noteq> ulidNil \<Longrightarrow>
      \<forall>ev \<in> set evs. repo_event_wf (rr_ub r) ev \<and> EvId (rr_ops r) ev \<noteq> ulidNil" for s c g evs
    using repoTell_wf [OF ub] by (simp add: repoBehavior_def repoEventOps_def)
qed

lemma reg_engine:
  assumes "reg_env r view rely H"
  shows "engine (rg_mongo r) view rely (rg_dp r) (rg_ub r) (rg_ops r) (reg_event_wf (rg_ub r)) (rg_beh r) reg_inv
    reg_pre H"
proof (intro engine.intro journal_codec.intro journal_db.intro journal_db_axioms.intro engine_axioms.intro)
  have ub: "ulid_binary (rg_ub r)" and mo: "map_orders (rg_mo r)"
    using assms by (simp_all add: reg_env_def rg_codecs_def)
  show "mongo (rg_mongo r) view rely" using assms by (simp add: reg_env_def)
  show "event_codec (rg_ops r) (reg_event_wf (rg_ub r)) (rg_par r)"
    by (rule reg_event_codec) (use assms in \<open>simp add: reg_env_def\<close>)
  show "aggregate (rg_beh r) (rg_ops r) reg_inv reg_pre" by (rule reg_aggregate [OF mo ub])
  show "mono_hist (live_hist (rg_beh r) (rg_ops r) reg_pre (reg_event_wf (rg_ub r)) H)" by (rule live_hist_mono)
  show "rely v v' \<Longrightarrow> evolves (live_hist (rg_beh r) (rg_ops r) reg_pre (reg_event_wf (rg_ub r)) H) (rg_par r) v v'"
    for v v'
    using assms by (simp add: reg_env_def reg_hist_def)
  show "reg_inv s \<Longrightarrow> reg_pre s c \<Longrightarrow> Tell (rg_beh r) g s c = Ok evs \<Longrightarrow> \<forall>n i. g n = Inr i \<longrightarrow> i \<noteq> ulidNil \<Longrightarrow>
      \<forall>ev \<in> set evs. reg_event_wf (rg_ub r) ev \<and> EvId (rg_ops r) ev \<noteq> ulidNil" for s c g evs
    using regTell_wf [OF ub mo] by (simp add: regBehavior_def regEventOps_def)
qed

section \<open>Requests\<close>

definition repoServe :: "'db ReposEngine \<Rightarrow> RepoCmd request list \<Rightarrow> ('db, RepoState) eng \<Rightarrow> ('db, RepoState) eng option" where
  "repoServe r = serve (rr_mongo r) (rr_dp r) (rr_ub r) (rr_beh r) (rr_ops r) (\<lambda>_ :: repo_error. False)"

definition regServe :: "'db RegistryEngine \<Rightarrow> RegCmd request list \<Rightarrow> ('db, RegState) eng \<Rightarrow> ('db, RegState) eng option" where
  "regServe r = serve (rg_mongo r) (rg_dp r) (rg_ub r) (rg_beh r) (rg_ops r) (\<lambda>_ :: reg_error. False)"

lemma repo_requests_safe:
  assumes "repo_env r view rely H" and "jinv (repo_hist r H) (rr_par r) (view db)"
    and "\<forall>rq \<in> set rqs. goodRequest (rr_beh r) repo_pre H rq"
  shows "\<exists>db' c ps. repoServe r rqs (db, Map.empty, []) = Some (db', c, ps) \<and>
    evolves (repo_hist r H) (rr_par r) (view db) (view db')"
  unfolding repoServe_def repo_hist_def
  using engine.serve_safe [OF repo_engine [OF assms(1)] assms(2) [unfolded repo_hist_def]
      engine.cache_ok_empty [OF repo_engine [OF assms(1)]] assms(3)] by blast

lemma reg_requests_safe:
  assumes "reg_env r view rely H" and "jinv (reg_hist r H) (rg_par r) (view db)"
    and "\<forall>rq \<in> set rqs. goodRequest (rg_beh r) reg_pre H rq"
  shows "\<exists>db' c ps. regServe r rqs (db, Map.empty, []) = Some (db', c, ps) \<and>
    evolves (reg_hist r H) (rg_par r) (view db) (view db')"
  unfolding regServe_def reg_hist_def
  using engine.serve_safe [OF reg_engine [OF assms(1)] assms(2) [unfolded reg_hist_def]
      engine.cache_ok_empty [OF reg_engine [OF assms(1)]] assms(3)] by blast

section \<open>Properties\<close>

text \<open>A journal in memory, with a codec for one message.\<close>

definition rg_demoWith :: "MapOrder \<Rightarrow> RegistryPb \<Rightarrow> MemDb RegistryEngine" where
  "rg_demoWith mo p =
     \<lparr>rg_mongo = memMongo,
      rg_dp = (\<lambda>bs. if bs = [1] then Inr (gp_Parent p) else Inl (GoErr ''proto'')),
      rg_ub = ulidUnmarshal,
      rg_pm = (\<lambda>q. if q = p then Inr [1] else Inl (GoErr ''proto'')),
      rg_pu = (\<lambda>bs. if bs = [1] then Inr p else Inl (GoErr ''proto'')),
      rg_mo = mo, rg_pre = noPre\<rparr>"

definition rg_demo :: "RegistryPb \<Rightarrow> MemDb RegistryEngine" where
  "rg_demo p = rg_demoWith sortedOrder p"

lemmas rg_demo_defs = rg_demo_def rg_demoWith_def

definition rr_demo :: "RepoPb \<Rightarrow> MemDb ReposEngine" where
  "rr_demo p =
     \<lparr>rr_mongo = memMongo,
      rr_dp = (\<lambda>bs. if bs = [1] then Inr (rp_Parent p) else Inl (GoErr ''proto'')),
      rr_ub = ulidUnmarshal,
      rr_pm = (\<lambda>q. if q = p then Inr [1] else Inl (GoErr ''proto'')),
      rr_pu = (\<lambda>bs. if bs = [1] then Inr p else Inl (GoErr ''proto'')),
      rr_us = (\<lambda>_. ''repo'')\<rparr>"

lemma demo_envs: "reg_env (rg_demo p) mem_view (=) H" "repo_env (rr_demo q) mem_view (=) H"
  using mem.mongo_axioms ulidUnmarshal_ok sortedOrder_ok
  by (auto simp: reg_env_def rg_codecs_def rg_demo_defs reg_codec_def repo_env_def rr_codecs_def rr_demo_def
      repo_codec_def split: if_splits)

interpretation reg_mem: engine memMongo mem_view "(=)" "rg_dp (rg_demo p)" ulidUnmarshal "rg_ops (rg_demo p)"
  "reg_event_wf ulidUnmarshal" "regBehavior sortedOrder noPre ulidUnmarshal" reg_inv reg_pre H for p H
  using reg_engine [OF demo_envs(1) [of p H]] by (simp add: rg_demo_defs)

interpretation repo_mem: engine memMongo mem_view "(=)" "rr_dp (rr_demo p)" ulidUnmarshal "rr_ops (rr_demo p)"
  "repo_event_wf ulidUnmarshal" "repoBehavior ulidUnmarshal (\<lambda>_. ''repo'')" repo_inv repo_pre H for p H
  using repo_engine [OF demo_envs(2) [of p H]] by (simp add: rr_demo_def)

text \<open>Requests whose commands are fit in every state.\<close>

definition regGoodRequest :: "'db RegistryEngine \<Rightarrow> uuid set \<Rightarrow> RegCmd request \<Rightarrow> bool" where
  "regGoodRequest r H rq \<longleftrightarrow> goodRequest (rg_beh r) (\<lambda>_ c. regGoodCmd c) H rq"

lemma regGoodRequest_pre: "regGoodRequest r H rq \<Longrightarrow> goodRequest (rg_beh r) reg_pre H rq"
  unfolding regGoodRequest_def by (rule goodRequest_mono) (rule regGoodCmd_pre)

text \<open>
  C28: any sequence of requests to registries is served without a panic and without running forever, whatever other
  processes do with the same operations between any two database operations and whichever database operations fail.
  Afterwards every stored history of a registry is the log of a live registry, whose repos are stored under their ids, and
  are unconfirmed or have a storage tier, and a workflow id while an operation runs.  A request may be any read, and any
  command but \<open>EnableGitlab\<close> and \<open>DisableGitlab\<close>, whose event is broken, and \<open>PatchRepoNaming\<close>, which panics for a root
  without a naming; roots must not be empty, paths of repos must be clean and absolute, namings and policies must be without
  a trailing slash, and the ids of repos and of storage workflows, and status codes of aborts, must not be zero.
\<close>

theorem registry_requests:
  assumes "reg_env r view rely H" and "jinv (reg_hist r H) (rg_par r) (view db)"
    and "\<forall>rq \<in> set rqs. regGoodRequest r H rq"
  shows "\<exists>db' c ps. regServe r rqs (db, Map.empty, []) = Some (db', c, ps) \<and>
    evolves (reg_hist r H) (rg_par r) (view db) (view db') \<and>
    (\<forall>h xs. h \<in> H \<and> xs \<noteq> [] \<and> snapshot (rg_par r) (view db') h xs \<longrightarrow>
       (\<exists>st hist. reg_live (rg_mo r) (rg_pre r) (rg_pm r) (rg_pu r) (rg_ub r) h st hist \<and> map ev_id hist = xs \<and>
          (\<forall>i q. RepoById st i = Some q \<longrightarrow> gi_Id q = i \<and>
             (gi_Confirmed q \<longleftrightarrow> gi_StorageTier q \<noteq> StorageTierUnspecified) \<and>
             (busy (gi_StorageTier q) \<longrightarrow> gi_storageWorkflowId q \<noteq> uuidNil))))"
proof -
  have ub: "ulid_binary (rg_ub r)" and mo: "map_orders (rg_mo r)"
    using assms(1) by (simp_all add: reg_env_def rg_codecs_def)
  have "\<forall>rq \<in> set rqs. goodRequest (rg_beh r) reg_pre H rq" using assms(3) regGoodRequest_pre by blast
  from reg_requests_safe [OF assms(1,2) this]
  obtain db' c ps where run: "regServe r rqs (db, Map.empty, []) = Some (db', c, ps)"
    and ev: "evolves (reg_hist r H) (rg_par r) (view db) (view db')" by blast
  have "\<exists>st hist. reg_live (rg_mo r) (rg_pre r) (rg_pm r) (rg_pu r) (rg_ub r) h st hist \<and> map ev_id hist = xs \<and>
      (\<forall>i q. RepoById st i = Some q \<longrightarrow> gi_Id q = i \<and>
         (gi_Confirmed q \<longleftrightarrow> gi_StorageTier q \<noteq> StorageTierUnspecified) \<and>
         (busy (gi_StorageTier q) \<longrightarrow> gi_storageWorkflowId q \<noteq> uuidNil))"
    if h: "h \<in> H" "snapshot (rg_par r) (view db') h xs" "xs \<noteq> []" for h xs
  proof -
    have "jinv (live_hist (rg_beh r) (rg_ops r) reg_pre (reg_event_wf (rg_ub r)) H) (rg_par r) (view db')"
      using evolves_jinv [OF ev assms(2)] by (simp only: reg_hist_def)
    from stored_history_log [OF this h] obtain st hist where l: "live (rg_beh r) (rg_ops r) reg_pre h st hist"
      "map (EvId (rg_ops r)) hist = xs" by blast
    have "reg_inv st" by (rule aggregate.live_inv [OF reg_aggregate [OF mo ub] l(1)])
    note reg_invD(5) [OF this]
    then show ?thesis using l by (auto simp: regEventOps_def RepoById_def regRepo_ok_def)
  qed
  then show ?thesis using run ev by blast
qed

definition demo_requests :: "RegCmd request list" where
  "demo_requests =
     (let ids = \<lambda>_. (\<lambda>_. Inr 5, \<lambda>_. Inr 5)
      in [ReqTell 7 1 (RgInitRegistry ''reg'') ids, ReqTell 7 1 (RgInitRoot ''/g'' ''h'' ''/h'' []) ids,
          ReqTell 7 1 (RgInitRepo \<lparr>gc_Context = 0, gc_Id = 8, gc_GlobalPath = ''/g/a'', gc_CreatorName = ''a'', gc_CreatorEmail = ''a@b''\<rparr>) ids,
          ReqTell 7 1 (RgCommitMoveRepo 8 9 4 ''/g/b'') ids, ReqFind 7])"

lemma demo_requests_good: "\<forall>rq \<in> set demo_requests. regGoodRequest r {7} rq"
proof -
  have "TrimRight ''/g'' (CHR ''/'') = ''/g''" "TrimRight ''/g/a'' (CHR ''/'') = ''/g/a''" by (simp_all add: TrimRight_def)
  then show ?thesis using cleanAbs_demo by (simp add: demo_requests_def regGoodRequest_def goodRequest_def Let_def)
qed

theorem registry_requests_witness:
  "\<exists>db' c ps. regServe (rg_demo (regSetPb 5 0 (NewRegistryAdded ''reg''))) demo_requests (mem0, Map.empty, []) = Some (db', c, ps)"
  using registry_requests [OF demo_envs(1) mem0_inv demo_requests_good] by blast

text \<open>
  C9: a command to a registry that succeeds, whatever requests the server handled before and whatever states it has in its
  cache, was told to a live state of the registry, at the requested version unless the caller asked for none, and took
  effect atomically: the events that the behavior returned were appended to the very log of that state, with no
  event of another process in between, and the returned version is that of the resulting live state.  The requests and the
  command are as in \<open>registry_requests\<close>.
\<close>

theorem registry_tell_commits:
  assumes "reg_env r view rely H" and "jinv (reg_hist r H) (rg_par r) (view db)"
    and "\<forall>rq \<in> set rqs. regGoodRequest r H rq" and "regServe r rqs (db, Map.empty, []) = Some (db1, c1, ps1)"
    and "i \<in> H" and "regGoodCmd cmd"
    and "\<forall>k n j. (fst (gs k) n = Inr j \<longrightarrow> j \<noteq> ulidNil) \<and> (snd (gs k) n = Inr j \<longrightarrow> j \<noteq> ulidNil)"
    and "rgTellId r gs i vid cmd (db1, c1, ps1) = Some (Ok vid', (db', c', ps'))"
  shows "\<exists>s log g evs s'.
    reg_live (rg_mo r) (rg_pre r) (rg_pm r) (rg_pu r) (rg_ub r) i s log \<and> regTell (rg_mo r) (rg_pre r) g s cmd = Ok evs \<and>
    reg_live (rg_mo r) (rg_pre r) (rg_pm r) (rg_pu r) (rg_ub r) i s' (log @ evs) \<and> gs_vid s' = vid' \<and>
    (vid \<noteq> NoVC \<and> vid \<noteq> RetryNoVC \<longrightarrow> gs_vid s = vid) \<and>
    (evs = [] \<or> (\<exists>v1. evolves (reg_hist r H) (rg_par r) (view db1) v1 \<and>
       commit_point (rg_ops r) (rg_par r) i (gs_vid s) evs (map ev_id log) v1 (view db')))"
proof -
  note e = reg_engine [OF assms(1)]
  have good: "\<forall>rq \<in> set rqs. goodRequest (rg_beh r) reg_pre H rq" using assms(3) regGoodRequest_pre by blast
  have served: "evolves (reg_hist r H) (rg_par r) (view db) (view db1)"
    "engine.cache_ok (rg_dp r) (rg_ub r) (rg_ops r) (reg_event_wf (rg_ub r)) (rg_beh r) reg_pre H (view db1) c1"
    using engine.serve_safe [OF e assms(2) [unfolded reg_hist_def] engine.cache_ok_empty [OF e] good,
        where bc = "\<lambda>_. False" and ps = "[]"] assms(4)
    by (auto simp: regServe_def reg_hist_def)
  have g: "\<And>n. \<forall>k i. fst (gs n) k = Inr i \<longrightarrow> i \<noteq> ulidNil" "\<And>n. \<forall>k i. snd (gs n) k = Inr i \<longrightarrow> i \<noteq> ulidNil"
    using assms(7) by blast+
  have sel: "Tell (rg_beh r) = regTell (rg_mo r) (rg_pre r)" "StVid (rg_beh r) = gs_vid" "EvId (rg_ops r) = ev_id"
    by (simp_all add: regBehavior_def regEventOps_def)
  show ?thesis
    by (rule engine.TellIdVid_run [where cmd = cmd and vid = vid and bc = "\<lambda>_. False" and ps = ps1 and gs = gs,
            OF e assms(5) regGoodCmd_pre [OF assms(6)] g evolves_jinv [OF served(1) assms(2), unfolded reg_hist_def] served(2)])
      (use assms(8) in \<open>simp_all add: rgTellId_def reg_hist_def sel\<close>)
qed

theorem registry_tell_commits_witness:
  "\<exists>g s log evs s'. reg_live sortedOrder noPre (rg_pm (rg_demo (regSetPb 5 0 (NewRegistryAdded ''reg'')))) (rg_pu (rg_demo (regSetPb 5 0 (NewRegistryAdded ''reg'')))) ulidUnmarshal 7 s log \<and>
     regTell sortedOrder noPre g s (RgInitRegistry ''reg'') = Ok evs \<and>
     reg_live sortedOrder noPre (rg_pm (rg_demo (regSetPb 5 0 (NewRegistryAdded ''reg'')))) (rg_pu (rg_demo (regSetPb 5 0 (NewRegistryAdded ''reg'')))) ulidUnmarshal 7 s' (log @ evs) \<and> gs_vid s' = 5"
proof -
  let ?r = "rg_demo (regSetPb 5 0 (NewRegistryAdded ''reg''))" and ?ids = "\<lambda>_. (\<lambda>_. Inr 5, \<lambda>_. Inr 5)"
  let ?rqs = "[ReqTell 8 1 (RgInitRegistry ''reg2'') (\<lambda>_. (\<lambda>_. Inr 6, \<lambda>_. Inr 6)), ReqFind 7]"
  have good: "\<forall>rq \<in> set ?rqs. regGoodRequest ?r {7, 8} rq" by (simp add: regGoodRequest_def goodRequest_def)
  have "map_option (\<lambda>x. map_option fst (rgTellId (rg_demoWith mo (regSetPb 5 0 (NewRegistryAdded ''reg''))) ?ids 7 NoVC
      (RgInitRegistry ''reg'') x)) (regServe (rg_demoWith mo (regSetPb 5 0 (NewRegistryAdded ''reg''))) ?rqs (mem0, Map.empty, [])) =
      Some (Some (Ok 5))" for mo by code_simp
  from this [of sortedOrder]
  have "map_option (\<lambda>x. map_option fst (rgTellId ?r ?ids 7 NoVC (RgInitRegistry ''reg'') x)) (regServe ?r ?rqs (mem0, Map.empty, [])) =
      Some (Some (Ok 5))" unfolding rg_demo_def .
  then obtain db1 c1 ps1 db' c' ps' where run: "regServe ?r ?rqs (mem0, Map.empty, []) = Some (db1, c1, ps1)"
    "rgTellId ?r ?ids 7 NoVC (RgInitRegistry ''reg'') (db1, c1, ps1) = Some (Ok 5, (db', c', ps'))" by auto
  have c: "regGoodCmd (RgInitRegistry ''reg'')" by simp
  have i: "\<forall>k n j. (fst (?ids k) n = Inr j \<longrightarrow> j \<noteq> ulidNil) \<and> (snd (?ids k) n = Inr j \<longrightarrow> j \<noteq> ulidNil)" by simp
  have m: "rg_mo ?r = sortedOrder" "rg_pre ?r = noPre" "rg_ub ?r = ulidUnmarshal" by (simp_all add: rg_demo_defs)
  show ?thesis
    using registry_tell_commits [OF demo_envs(1) mem0_inv good run(1) _ c i run(2)] unfolding m by blast
qed

end
