(* ===== verification/Spec2Isabelle.thy ===== *)
theory Spec2Isabelle
  imports Event_Properties Ux_Slices Fso_Repos_Props Config_Map Fso_Registry_Props Freeze_Workflow Unfreeze_Workflow Archive_Workflow
    Unarchive_Workflow Split_Root_Workflow Ping_Registry_Workflow Du_Root_Workflow Move_Repo_Workflow Move_Shadow_Workflow
    Workflow_Service Workflow_Gc Fso_Service
begin

text \<open>
  Nog manages research data on file servers.  Its backend (\<open>src/backend\<close>) is event sourced: every piece of state is an
  aggregate with an id, a command either is refused or produces events, and the state is what the events make of the
  initial state.  Events are stored in MongoDB as a linked list per aggregate, with a reference to its head.  This
  library models that core: the engine, the journal, and the aggregates of \<open>internal/unixdomains\<close>, \<open>internal/fsorepos\<close>,
  \<open>internal/fsoregistry\<close> and \<open>internal/workflows\<close>.

  Theories, from the bottom up:

  \<^item> \<open>Nog_Prelude\<close>: results of operations (\<open>outcome\<close>: a value, an error, or a panic with its message), the collection
    \<open>outcome_simps\<close>, and generic lemmas.  \<open>Nog_Ids\<close>: \<open>pkg/uuid\<close>, \<open>pkg/ulid\<close> and \<open>pkg/idid\<close> as words of 128 and 256 bits with
    their byte forms and key ranges.
  \<^item> \<open>Nog_Events\<close>: \<open>internal/events/events.go\<close> and the interface \<open>Behavior\<close> of \<open>engine.go\<close>, the locale \<open>event_ops\<close>.
    \<open>Nog_Aggregate\<close>: the locale \<open>aggregate\<close>, the contract between an aggregate and the engine (commands do not panic, their
    events can be applied, the invariant is kept), and \<open>live\<close> states with their logs.
  \<^item> \<open>Event_Store\<close>: the documented behaviour of the MongoDB driver as a parameter (record \<open>Mongo\<close>, locale \<open>mongo\<close>).
    \<open>Event_Journal\<close>: \<open>internal/events/journal.go\<close>.  \<open>Event_Journal_Inv\<close>: the invariant \<open>jinv\<close> of the collections, and a
    Hoare logic \<open>triple\<close> for operations that run while others change the database between any two accesses.
    \<open>Event_Memory\<close>: a database in memory with faults, the instance of \<open>mongo\<close> that the witnesses use.
  \<^item> \<open>Event_Engine\<close>: \<open>internal/events/engine.go\<close>, with the cache of states; the locale \<open>engine\<close> proves that telling, finding
    and deleting neither panic nor diverge.  \<open>Event_Server\<close>: sequences of requests.
  \<^item> \<open>Ux_Events\<close>, \<open>Unix_Domains\<close>: \<open>internal/unixdomains\<close> and its events.  \<open>Ux_Slices\<close>: its \<open>Advance()\<close> on a store of arrays, since
    it deletes from slices in place.  \<open>Ux_Engine\<close>: its methods that call the engine.  \<open>Event_Properties\<close>: what the journal promises.
  \<^item> \<open>Gpg\<close>: \<open>pkg/gpg\<close>.  \<open>Go_Path\<close> and \<open>Path_Facts\<close>: the functions of the Go packages \<open>path\<close> and \<open>strings\<close> that the code uses.
    \<open>Config_Map\<close>: \<open>internal/configmap\<close>.
  \<^item> \<open>Repo_Events\<close>, \<open>Fso_Repos\<close>, \<open>Fso_Repos_Inv\<close>, \<open>Fso_Repos_Props\<close>: \<open>internal/fsorepos\<close> and its \<open>pbevents\<close>.
    \<open>Storage_Tiers\<close>: the abstract state machine of freezing and archiving that repos and registry refine.
  \<^item> \<open>Registry_Events\<close>, \<open>Fso_Registry\<close>, \<open>Fso_Registry_Inv\<close>, \<open>Fso_Registry_Cmds\<close>, \<open>Fso_Registry_Props\<close>:
    \<open>internal/fsoregistry\<close> and its \<open>pbevents\<close>.  \<open>Fso_Service\<close>: the methods of \<open>Repos\<close> and \<open>Registry\<close>, and both on the engine.
  \<^item> \<open>Workflow_Events\<close>: \<open>internal/workflows/events\<close>.  \<open>Workflow_Base\<close>: the contract \<open>workflow\<close> of a state machine and its
    extensions \<open>workflow_exact\<close> and \<open>workflow_bounded\<close>.  One theory for each of \<open>freezerepowf\<close>, \<open>unfreezerepowf\<close>,
    \<open>archiverepowf\<close>, \<open>unarchiverepowf\<close>, \<open>splitrootwf\<close>, \<open>pingregistrywf\<close>, \<open>durootwf\<close>, \<open>moverepowf\<close>, \<open>moveshadowwf\<close>.
    \<open>Workflow_Engine\<close>: the methods of their types \<open>Workflows\<close>.  \<open>Workflow_Service\<close>: the workflows on the engine.
  \<^item> \<open>Event_Trim\<close>: \<open>internal/events/trim.go\<close>.  \<open>Workflow_Index\<close>, \<open>Workflow_Index_Inv\<close>, \<open>Workflow_Index_Props\<close>:
    \<open>internal/workflows/wfindexes\<close>, the list of active and completed workflows with its snapshots and its trim policy.
    \<open>Workflow_Gc\<close>: \<open>internal/workflows/wfgc\<close>, which expires and deletes old workflows.

  How the state corresponds: a Go struct is a record with the same fields under a prefix, a Go map is a partial function,
  and an error variable is a constructor.  The method \<open>Advance()\<close> is \<open>xxAdvance\<close>, and \<open>xxAdvanceEv\<close> for the type switch
  in it; \<open>Tell()\<close> is \<open>xxTell\<close> with one definition for each \<open>tell...()\<close> function.  A state whose version is
  \<open>EventEpoch\<close> is uninitialized.  Protobuf messages are records; the codec is a pair of parameters that are assumed to be
  inverse on the messages that the code marshals.  New ids come from a source of ids, an argument that also may fail.
  Where the result of a loop over a Go map may depend on its order, the order is an argument (\<open>MapOrder\<close>).

  What the lemmas show.  For each aggregate: an invariant, that every command keeps it and that the events of a command
  never make \<open>Advance()\<close> panic; idempotency; that stored events are read back.  For repos and the registry also the
  refinement of the storage state machine, and for the registry what its indexes and lookups promise and when: repos stay
  stored under their ids; the two indexes keep agreeing exactly as long as no repo is initialized under a taken id or moved to a
  taken path; frozen repos stay leaves unless a move puts a repo below one; the root of a path is determined exactly when
  only one root is above it.  For workflows: the paths of states that histories take, against
  the lists in the package documentation.  For the workflow index: its state agrees with the view that snapshots are
  made from, and neither a snapshot nor trimming the history to it loses a workflow; the garbage collector's view is an
  abstraction of it, so that the collector meets the obligations of the index.  For the journal and the engine: operations
  are atomic or fail, \<open>Find()\<close> sees a snapshot, and requests end, under interference and failing accesses.  The last
  point connects the parts: an aggregate that satisfies its contract is served without panics, and stored histories are
  logs of live states.  It is instantiated for the registry (\<open>Fso_Service\<close>) and the workflows (\<open>Workflow_Service\<close>).  It is
  not instantiated for Unix domains: the engine keeps states in its cache from which it has replayed events, and
  \<open>Advance()\<close> of a Unix domain destroys such states (\<open>ux_stale_state\<close>); what holds there is a replay that uses
  each state once (\<open>ux_slices_replay\<close>).

  Obligations of callers, which the code does not check, are explicit: \<open>repo_pre\<close>, \<open>reg_pre\<close>, \<open>ix_pre\<close>, and the preconditions
  of the workflows such as \<open>init_ok\<close> and \<open>split_init_ok\<close>; lemmas beside them show the panics or wrong results that follow when
  they are violated.  For the registry, an accepted root may be nested in another one, a new repo may have the id of an existing one, and
  a repo may be moved anywhere: these are not obligations, and the properties say what then holds.

  Loops and bounds.  Loops that follow parent links are \<open>partial_function (option)\<close>: \<open>None\<close> is a loop that does not end,
  and the properties state \<open>Some\<close>.  Retries of the engine count down from the number in the source.  Serial numbers
  of the journal are integers, since an overflow of 64 bits would need more events than can be stored.  The histories of
  the journal are complete in the invariant \<open>jinv\<close>: \<open>Event_Trim\<close> models how the epoch and the tail of a history are moved,
  and \<open>index_trim\<close> shows for the workflow index, the only aggregate with a trim policy, that reading from the moved
  epoch gives the same.  The size that \<open>proto.Size()\<close> reports of a message is a function given as an argument, and \<open>ix_pre\<close>
  asks that a snapshot stays below the limit.  A snapshot is taken from the view that the index's own journal yields; the
  model of the behavior keeps that view beside the state, and \<open>index_view_loads\<close> shows that loading it gives the same.

  Not modelled.  Collections and indexes of the database (\<open>NewJournal()\<close>), goroutines that only deliver notifications, and
  delays between retries.  \<open>events/gc.go\<close> and \<open>notifier.go\<close>, which delete old data and broadcast changes, and the loops
  of \<open>trim.go\<close> over all histories.  The daemons (\<open>nogfsoregd\<close>, \<open>nogfsostad\<close> and others) and the command line
  programs: they call the aggregates over gRPC, run Git and other processes, and access the file system.  Go maps and
  slices are values, except in \<open>Ux_Slices\<close>: the other aggregates copy a map before they change it and replace slices or append to
  them, which older states do not read.
\<close>

end
